(* ===== verification/NVS_Prelude.thy ===== *)
theory NVS_Prelude
  imports Main "HOL-Library.AList" "HOL-Library.Char_ord" "HOL-Library.List_Lexorder"
    "HOL-Library.Multiset" "HOL-Library.Sublist"
begin

text \<open>
  Shared vocabulary of the development: Go strings, Go maps, the grouping idiom
  \<^verbatim>\<open>m[k] = append(m[k], x)\<close>, the length-prefixed string keys that two packages build
  with \<^verbatim>\<open>fmt.Fprintf(&key, "%d:", len(value))\<close>, and the interfaces (as locales) that the
  component theories rely on.

  A Go string is a sequence of bytes, modelled as \<^typ>\<open>string\<close> (a list of 8-bit
  characters). Go compares strings bytewise in lexicographic order, which is the order that
  \<^verbatim>\<open>Char_ord\<close> and \<^verbatim>\<open>List_Lexorder\<close> put on \<^typ>\<open>string\<close>.

  A Go map is an association list with distinct keys. Go iterates over a map in an
  unspecified order; the order of the list stands for the order of one iteration, and the
  theorems hold for every list, so for every order.
\<close>

named_theorems go_map_simps \<open>lookup laws of Go maps\<close>

type_synonym ('k, 'v) gomap = "('k \<times> 'v) list"

abbreviation map_keys :: "('k, 'v) gomap \<Rightarrow> 'k list" where
  "map_keys m \<equiv> map fst m"

abbreviation wf_gomap :: "('k, 'v) gomap \<Rightarrow> bool" where
  "wf_gomap m \<equiv> distinct (map_keys m)"

section \<open>Strings\<close>

text \<open>The decimal rendering of a length, the verb \<^verbatim>\<open>%d\<close> of package fmt.\<close>

definition digit_char :: "nat \<Rightarrow> char" where
  "digit_char d = char_of (48 + d)"

fun fmt_nat :: "nat \<Rightarrow> string" where
  "fmt_nat n = (if n < 10 then [digit_char n] else fmt_nat (n div 10) @ [digit_char (n mod 10)])"

declare fmt_nat.simps [simp del]

definition fmt_int :: "int \<Rightarrow> string" where
  "fmt_int i = (if i < 0 then CHR ''-'' # fmt_nat (nat (- i)) else fmt_nat (nat i))"

text \<open>The key \<^verbatim>\<open>"len1:value1len2:value2..."\<close> of a list of strings.\<close>

fun len_prefixed :: "string list \<Rightarrow> string" where
  "len_prefixed [] = []"
| "len_prefixed (v # vs) = fmt_nat (length v) @ CHR '':'' # v @ len_prefixed vs"

section \<open>Grouping into a map of slices\<close>

definition group_step :: "('a \<Rightarrow> 'k) \<Rightarrow> 'a \<Rightarrow> ('k, 'a list) gomap \<Rightarrow> ('k, 'a list) gomap" where
  "group_step f x m =
     AList.update (f x) (case map_of m (f x) of None \<Rightarrow> [x] | Some ys \<Rightarrow> ys @ [x]) m"

definition group_by :: "('a \<Rightarrow> 'k) \<Rightarrow> 'a list \<Rightarrow> ('k, 'a list) gomap" where
  "group_by f xs = fold (group_step f) xs []"

section \<open>The Go map interface\<close>

text \<open>
  What the client code may rely on of a Go map: a lookup after a store and after a delete,
  and that both keep the map well formed.
\<close>

locale go_map =
  fixes get :: "'m \<Rightarrow> 'k \<Rightarrow> 'v option"
    and put :: "'k \<Rightarrow> 'v \<Rightarrow> 'm \<Rightarrow> 'm"
    and del :: "'k \<Rightarrow> 'm \<Rightarrow> 'm"
    and inv :: "'m \<Rightarrow> bool"
  assumes get_put: "get (put k v m) = (get m)(k \<mapsto> v)"
    and get_del: "get (del k m) = (get m)(k := None)"
    and inv_put: "inv m \<Longrightarrow> inv (put k v m)"
    and inv_del: "inv m \<Longrightarrow> inv (del k m)"
begin

text \<open>Storing one value under many keys.\<close>

lemma get_put_keys: "get (fold (\<lambda>k. put k v) ks m) k = (if k \<in> set ks then Some v else get m k)"
  by (induction ks arbitrary: m) (auto simp: get_put)

lemma inv_put_keys: "inv m \<Longrightarrow> inv (fold (\<lambda>k. put k v) ks m)"
  by (induction ks arbitrary: m) (auto simp: inv_put)

text \<open>Deleting many keys.\<close>

lemma get_del_keys: "get (fold del ks m) k = (if k \<in> set ks then None else get m k)"
  by (induction ks arbitrary: m) (auto simp: get_del)

lemma inv_del_keys: "inv m \<Longrightarrow> inv (fold del ks m)"
  by (induction ks arbitrary: m) (auto simp: inv_del)

text \<open>A loop that stores, for each element, one value under the element's keys.\<close>

lemma get_put_all:
  "get (fold (\<lambda>x. fold (\<lambda>k. put k (val x)) (ks x)) xs m) k =
     (if \<exists>x \<in> set xs. k \<in> set (ks x)
      then Some (val (last (filter (\<lambda>x. k \<in> set (ks x)) xs))) else get m k)"
proof (induction xs rule: rev_induct)
  case Nil
  then show ?case by simp
next
  case (snoc x xs)
  then show ?case by (auto simp: get_put_keys)
qed

lemma get_put_all_mem:
  assumes "get (fold (\<lambda>x. fold (\<lambda>k. put k (val x)) (ks x)) xs m) k = Some v"
  shows "(\<exists>x \<in> set xs. k \<in> set (ks x) \<and> v = val x) \<or>
         ((\<forall>x \<in> set xs. k \<notin> set (ks x)) \<and> get m k = Some v)"
proof (cases "\<exists>x \<in> set xs. k \<in> set (ks x)")
  case True
  let ?ys = "filter (\<lambda>x. k \<in> set (ks x)) xs"
  from True have "?ys \<noteq> []" by (auto simp: filter_empty_conv)
  then have "last ?ys \<in> set ?ys" by (rule last_in_set)
  with True assms show ?thesis by (auto simp: get_put_all)
next
  case False
  with assms show ?thesis by (auto simp: get_put_all)
qed

lemma inv_put_all: "inv m \<Longrightarrow> inv (fold (\<lambda>x. fold (\<lambda>k. put k (val x)) (ks x)) xs m)"
  by (induction xs arbitrary: m) (auto simp: inv_put_keys)

end

text \<open>Association lists with the library's update and delete implement it.\<close>

interpretation al: go_map map_of AList.update AList.delete "\<lambda>m. wf_gomap m"
  by unfold_locales (simp_all add: update_conv' delete_conv' distinct_update distinct_delete)

lemmas al_simps [go_map_simps] = al.get_put al.get_del al.get_put_keys al.get_del_keys

lemma wf_gomap_map_of: "wf_gomap m \<Longrightarrow> map_of m k = Some v \<longleftrightarrow> (k, v) \<in> set m"
  by (rule map_of_eq_Some_iff)

lemma update_fresh: "k \<notin> set (map_keys m) \<Longrightarrow> AList.update k v m = m @ [(k, v)]"
  by (induction m) auto

lemma wf_gomap_unique: "wf_gomap m \<Longrightarrow> (k, v) \<in> set m \<Longrightarrow> (k, v') \<in> set m \<Longrightarrow> v = v'"
  by (metis map_of_eq_Some_iff option.inject)

section \<open>Facts about decimal rendering and length-prefixed keys\<close>

lemma digit_char_inj: "a < 10 \<Longrightarrow> b < 10 \<Longrightarrow> digit_char a = digit_char b \<Longrightarrow> a = b"
  by (simp add: digit_char_def char_of_eq_iff take_bit_eq_mod)

lemma digit_char_not_colon: "d < 10 \<Longrightarrow> digit_char d \<noteq> CHR '':''"
  by (simp add: digit_char_def char_of_eq_iff take_bit_eq_mod)

lemma fmt_nat_nonempty [simp]: "fmt_nat n \<noteq> []"
  by (subst fmt_nat.simps) simp

lemma fmt_nat_no_colon: "CHR '':'' \<notin> set (fmt_nat n)"
proof (induction n rule: fmt_nat.induct)
  case (1 n)
  then show ?case
    using digit_char_not_colon [of n] digit_char_not_colon [of "n mod 10"]
    by (subst fmt_nat.simps) (auto simp del: One_nat_def)
qed

lemma fmt_nat_small_iff: "length (fmt_nat n) = 1 \<longleftrightarrow> n < 10"
  by (subst fmt_nat.simps) (auto simp: length_Suc_conv)

lemma fmt_nat_inj: "fmt_nat m = fmt_nat n \<Longrightarrow> m = n"
proof (induction m arbitrary: n rule: fmt_nat.induct)
  case (1 m)
  have small: "m < 10 \<longleftrightarrow> n < 10"
    using "1.prems" fmt_nat_small_iff [of m] fmt_nat_small_iff [of n] by simp
  show ?case
  proof (cases "m < 10")
    case True
    with small "1.prems" show ?thesis
      by (simp add: fmt_nat.simps [of m] fmt_nat.simps [of n] digit_char_inj)
  next
    case False
    with small "1.prems" have eq: "fmt_nat (m div 10) = fmt_nat (n div 10)"
      and "digit_char (m mod 10) = digit_char (n mod 10)"
      by (simp_all add: fmt_nat.simps [of m] fmt_nat.simps [of n])
    then have "m mod 10 = n mod 10"
      using digit_char_inj [of "m mod 10" "n mod 10"] by simp
    moreover from False "1.IH" eq have "m div 10 = n div 10" by simp
    ultimately show ?thesis by (metis div_mult_mod_eq)
  qed
qed

text \<open>A separator that occurs in neither prefix splits equal texts at the same place.\<close>

lemma append_sep_eq:
  assumes "xs @ c # us = ys @ c # vs" and "c \<notin> set xs" and "c \<notin> set ys"
  shows "xs = ys \<and> us = vs"
  using assms
proof (induction xs arbitrary: ys)
  case Nil
  then show ?case by (cases ys) auto
next
  case (Cons x xs)
  then show ?case by (cases ys) auto
qed

lemma len_prefixed_inj: "len_prefixed xs = len_prefixed ys \<Longrightarrow> xs = ys"
proof (induction xs arbitrary: ys)
  case Nil
  then show ?case by (cases ys) auto
next
  case (Cons x xs)
  then obtain y ys' where ys: "ys = y # ys'" by (cases ys) auto
  with Cons.prems have "fmt_nat (length x) @ CHR '':'' # x @ len_prefixed xs =
      fmt_nat (length y) @ CHR '':'' # y @ len_prefixed ys'" by simp
  from append_sep_eq [OF this fmt_nat_no_colon fmt_nat_no_colon]
  have "length x = length y" and rest: "x @ len_prefixed xs = y @ len_prefixed ys'"
    by (auto dest: fmt_nat_inj)
  then have "x = y" and "len_prefixed xs = len_prefixed ys'" by auto
  with Cons.IH ys show ?case by simp
qed

section \<open>Facts about grouping\<close>

lemma group_by_snoc: "group_by f (xs @ [x]) = group_step f x (group_by f xs)"
  by (simp add: group_by_def)

lemma wf_group_by: "wf_gomap (group_by f xs)"
  by (induction xs rule: rev_induct)
    (simp_all add: group_by_snoc group_step_def distinct_update, simp add: group_by_def)

lemma map_of_group_by:
  "map_of (group_by f xs) k =
     (if k \<in> f ` set xs then Some (filter (\<lambda>x. f x = k) xs) else None)"
proof (induction xs rule: rev_induct)
  case Nil
  then show ?case by (simp add: group_by_def)
next
  case (snoc x xs)
  then show ?case
    by (cases "f x = k")
      (auto simp: group_by_snoc group_step_def update_conv filter_empty_conv image_iff)
qed

lemma group_by_mem:
  "(k, ys) \<in> set (group_by f xs) \<longleftrightarrow> k \<in> f ` set xs \<and> ys = filter (\<lambda>x. f x = k) xs"
proof -
  have "(k, ys) \<in> set (group_by f xs) \<longleftrightarrow> map_of (group_by f xs) k = Some ys"
    using wf_group_by [of f xs] by (simp add: wf_gomap_map_of)
  also have "\<dots> \<longleftrightarrow> k \<in> f ` set xs \<and> ys = filter (\<lambda>x. f x = k) xs"
    unfolding map_of_group_by by auto
  finally show ?thesis .
qed

lemma group_by_keys: "set (map_keys (group_by f xs)) = f ` set xs"
  by (auto simp: group_by_mem image_iff) (metis (mono_tags, lifting) fst_conv group_by_mem imageI)

lemma group_by_eq_Nil [simp]: "group_by f xs = [] \<longleftrightarrow> xs = []"
  using group_by_keys [of f xs] by (cases "group_by f xs") auto

lemma group_by_nonempty: "(k, ys) \<in> set (group_by f xs) \<Longrightarrow> ys \<noteq> []"
  by (auto simp: group_by_mem filter_empty_conv)

lemma group_by_same: "(k, ys) \<in> set (group_by f xs) \<Longrightarrow> y \<in> set ys \<longleftrightarrow> y \<in> set xs \<and> f y = k"
  by (auto simp: group_by_mem)

lemma group_by_distinct: "distinct xs \<Longrightarrow> (k, ys) \<in> set (group_by f xs) \<Longrightarrow> distinct ys"
  by (auto simp: group_by_mem)

end
