(* ===== verification/Health_Event.thy ===== *)
theory Health_Event
  imports NVS_Prelude "HOL-Library.Word"
begin

text \<open>
  The health event, the message every component of NVSentinel exchanges
  (\<^verbatim>\<open>data-models/pkg/protos/health_event.pb.go\<close>), and the action name that remediation
  routes on (\<^verbatim>\<open>data-models/pkg/model/health_event_extentions.go\<close>).

  Field names follow the Go structs. A protobuf \<^verbatim>\<open>map<string,string>\<close> is a Go map; a nil and
  an empty repeated field or map cannot be told apart by the code modelled here, so both are
  the empty list. Timestamps are nanoseconds since the epoch, None when absent.
\<close>

section \<open>Enumerations\<close>

datatype processing_strategy = UNSPECIFIED | EXECUTE_REMEDIATION | STORE_ONLY | STORE_AND_ANALYSE
  | PS_Unrecognized "32 word"

datatype recommended_action = RA_NONE | COMPONENT_RESET | CONTACT_SUPPORT | RUN_FIELDDIAG
  | RESTART_VM | RESTART_BM | REPLACE_VM | RUN_DCGMEUD | CUSTOM | RA_UNKNOWN
  | RA_Unrecognized "32 word"

text \<open>
  The enum is an int32 on the wire, so a number outside the table can arrive; its name is
  its decimal rendering.
\<close>

fun recommended_action_name :: "recommended_action \<Rightarrow> string" where
  "recommended_action_name RA_NONE = ''NONE''"
| "recommended_action_name COMPONENT_RESET = ''COMPONENT_RESET''"
| "recommended_action_name CONTACT_SUPPORT = ''CONTACT_SUPPORT''"
| "recommended_action_name RUN_FIELDDIAG = ''RUN_FIELDDIAG''"
| "recommended_action_name RESTART_VM = ''RESTART_VM''"
| "recommended_action_name RESTART_BM = ''RESTART_BM''"
| "recommended_action_name REPLACE_VM = ''REPLACE_VM''"
| "recommended_action_name RUN_DCGMEUD = ''RUN_DCGMEUD''"
| "recommended_action_name CUSTOM = ''CUSTOM''"
| "recommended_action_name RA_UNKNOWN = ''UNKNOWN''"
| "recommended_action_name (RA_Unrecognized n) = fmt_int (sint n)"

section \<open>Messages\<close>

record entity =
  EntityType :: string
  EntityValue :: string

record behaviour_overrides =
  Force :: bool
  Skip :: bool

record health_event =
  Version :: "32 word"
  Agent :: string
  ComponentClass :: string
  CheckName :: string
  IsFatal :: bool
  IsHealthy :: bool
  Message :: string
  RecommendedAction :: recommended_action
  ErrorCode :: "string list"
  EntitiesImpacted :: "entity list"
  Metadata :: "(string, string) gomap"
  GeneratedTimestamp :: "int option"
  NodeName :: string
  QuarantineOverrides :: "behaviour_overrides option"
  DrainOverrides :: "behaviour_overrides option"
  ProcessingStrategy :: processing_strategy
  Id :: string
  CustomRecommendedAction :: string

text \<open>The zero value of the struct, for concrete events.\<close>

definition zero_event :: health_event where
  "zero_event = \<lparr>Version = 0, Agent = [], ComponentClass = [], CheckName = [], IsFatal = False,
     IsHealthy = False, Message = [], RecommendedAction = RA_NONE, ErrorCode = [],
     EntitiesImpacted = [], Metadata = [], GeneratedTimestamp = None, NodeName = [],
     QuarantineOverrides = None, DrainOverrides = None, ProcessingStrategy = UNSPECIFIED,
     Id = [], CustomRecommendedAction = []\<rparr>"

definition GetEffectiveActionName :: "health_event \<Rightarrow> string" where
  "GetEffectiveActionName he =
     (if RecommendedAction he = CUSTOM then CustomRecommendedAction he
      else recommended_action_name (RecommendedAction he))"

text \<open>
  The identity of a check on a node: the five fields that the annotation map and the
  cold-start supersession both compare before they look at entities and codes.
\<close>

definition same_check :: "health_event \<Rightarrow> health_event \<Rightarrow> bool" where
  "same_check a b \<longleftrightarrow> Agent a = Agent b \<and> ComponentClass a = ComponentClass b \<and>
     CheckName a = CheckName b \<and> NodeName a = NodeName b \<and> Version a = Version b"

definition has_entity :: "health_event \<Rightarrow> string \<Rightarrow> string \<Rightarrow> bool" where
  "has_entity ev ty vl \<longleftrightarrow> (\<exists>e \<in> set (EntitiesImpacted ev). EntityType e = ty \<and> EntityValue e = vl)"

lemma has_entity_code [code]:
  "has_entity ev ty vl =
     list_ex (\<lambda>e. EntityType e = ty \<and> EntityValue e = vl) (EntitiesImpacted ev)"
  by (simp add: has_entity_def list_ex_iff)

end
