(* ===== verification/Annotation_Map.thy ===== *)
theory Annotation_Map
  imports Health_Event
begin

text \<open>
  The quarantine annotation of a node: the set of failures that keep the node quarantined,
  keyed per (entity, error code) effect. Models
  \<^verbatim>\<open>fault-quarantine/pkg/healthEventsAnnotation/health_events_annotation_map.go\<close>.

  The Go map holds pointers, and compaction and serialization compare pointers, so a stored
  value is a pair of an address and the event it points to (\<open>eptr\<close>); events are never mutated
  once stored, only cloned. The field \<open>fresh\<close> is the next unused address. The annotation text
  is \<^verbatim>\<open>encoding/json\<close> of a list of events; it is modelled as that list. The slot
  recorded in an event's metadata is JSON too, inside a string; its two conversions are the
  record \<open>slot_codec\<close>, an argument of the operations that use them.
\<close>

section \<open>Keys\<close>

record HealthEventKey =
  hk_Agent :: string
  hk_ComponentClass :: string
  hk_CheckName :: string
  hk_NodeName :: string
  hk_EntityType :: string
  hk_EntityValue :: string
  hk_ErrorCode :: string
  hk_Version :: "32 word"

type_synonym eptr = "nat \<times> health_event"

record HealthEventsAnnotationMap =
  Events :: "(HealthEventKey, eptr) gomap"
  fresh :: nat

record slot_codec =
  marshal_slot :: "entity list \<Rightarrow> string option"
  unmarshal_slot :: "string \<Rightarrow> entity list option"

definition NewHealthEventsAnnotationMap :: HealthEventsAnnotationMap where
  "NewHealthEventsAnnotationMap = \<lparr>Events = [], fresh = 0\<rparr>"

definition CreateEventKeyForEntity :: "health_event \<Rightarrow> entity option \<Rightarrow> HealthEventKey" where
  "CreateEventKeyForEntity event en =
     \<lparr>hk_Agent = Agent event, hk_ComponentClass = ComponentClass event,
      hk_CheckName = CheckName event, hk_NodeName = NodeName event,
      hk_EntityType = (case en of None \<Rightarrow> [] | Some e \<Rightarrow> EntityType e),
      hk_EntityValue = (case en of None \<Rightarrow> [] | Some e \<Rightarrow> EntityValue e),
      hk_ErrorCode = [], hk_Version = Version event\<rparr>"

definition createCheckLevelKeys :: "health_event \<Rightarrow> string list \<Rightarrow> HealthEventKey list" where
  "createCheckLevelKeys event errorCodes =
     (if errorCodes = [] then [CreateEventKeyForEntity event None]
      else map (\<lambda>code. (CreateEventKeyForEntity event None)\<lparr>hk_ErrorCode := code\<rparr>) errorCodes)"

definition createEntityKeys :: "health_event \<Rightarrow> entity list \<Rightarrow> string list \<Rightarrow> HealthEventKey list" where
  "createEntityKeys event entities errorCodes =
     (if errorCodes = [] then map (\<lambda>e. CreateEventKeyForEntity event (Some e)) entities
      else concat (map (\<lambda>e. map (\<lambda>code.
             (CreateEventKeyForEntity event (Some e))\<lparr>hk_ErrorCode := code\<rparr>) errorCodes) entities))"

definition createEventKeys :: "health_event \<Rightarrow> HealthEventKey list" where
  "createEventKeys event =
     (if EntitiesImpacted event = [] then createCheckLevelKeys event (ErrorCode event)
      else createEntityKeys event (EntitiesImpacted event) (ErrorCode event))"

text \<open>Go's int has 64 bits here; both counts are slice lengths, so they are not negative.\<close>

definition MaxInt :: int where
  "MaxInt = 2 ^ 63 - 1"

definition eventKeysCapacity :: "int \<Rightarrow> int \<Rightarrow> int" where
  "eventKeysCapacity entityCount errorCodeCount =
     (if entityCount = 0 \<or> errorCodeCount = 0 then 0
      else if entityCount > MaxInt div errorCodeCount then 0
      else entityCount * errorCodeCount)"

section \<open>Rectangles\<close>

record annotationRectangle =
  r_keys :: "HealthEventKey list"
  r_entities :: "HealthEventKey list"
  r_errorCodes :: "string list"

definition annotationStringsKey :: "string list \<Rightarrow> string" where
  "annotationStringsKey values = concat (map (\<lambda>v. fmt_nat (length v) @ '':'' @ v) values)"

definition annotationEntityKey :: "HealthEventKey \<Rightarrow> string" where
  "annotationEntityKey key = annotationStringsKey [hk_EntityType key, hk_EntityValue key]"

text \<open>The groups in the order of their keys, each with sorted codes and entities.\<close>

definition sortedAnnotationRectangles :: "(string, annotationRectangle) gomap \<Rightarrow> annotationRectangle list" where
  "sortedAnnotationRectangles groups =
     map (\<lambda>(g, r). r\<lparr>r_errorCodes := sort (r_errorCodes r),
                      r_entities := sort_key annotationEntityKey (r_entities r)\<rparr>)
       (sort_key fst groups)"

definition row_step :: "HealthEventKey list \<Rightarrow> (string, annotationRectangle) gomap
    \<Rightarrow> (string, annotationRectangle) gomap" where
  "row_step row byCodes =
     (let rowKeys = sort_key hk_ErrorCode row;
          codes = map hk_ErrorCode rowKeys;
          groupKey = annotationStringsKey codes;
          rectangle = (case map_of byCodes groupKey of
                         None \<Rightarrow> \<lparr>r_keys = [], r_entities = [], r_errorCodes = codes\<rparr>
                       | Some r \<Rightarrow> r)
      in AList.update groupKey
           (rectangle\<lparr>r_keys := r_keys rectangle @ rowKeys,
                      r_entities := r_entities rectangle @ [hd rowKeys]\<rparr>) byCodes)"

definition annotationRowRectangles :: "HealthEventKey list \<Rightarrow> annotationRectangle list" where
  "annotationRowRectangles keys =
     sortedAnnotationRectangles (fold row_step (map snd (group_by annotationEntityKey keys)) [])"

definition column_step :: "string \<times> HealthEventKey list \<Rightarrow> (string, annotationRectangle) gomap
    \<Rightarrow> (string, annotationRectangle) gomap" where
  "column_step col byEntities =
     (let code = fst col;
          columnKeys = sort_key annotationEntityKey (snd col);
          groupKey = annotationStringsKey (map annotationEntityKey columnKeys);
          rectangle = (case map_of byEntities groupKey of
                         None \<Rightarrow> \<lparr>r_keys = [], r_entities = columnKeys, r_errorCodes = []\<rparr>
                       | Some r \<Rightarrow> r)
      in AList.update groupKey
           (rectangle\<lparr>r_keys := r_keys rectangle @ columnKeys,
                      r_errorCodes := r_errorCodes rectangle @ [code]\<rparr>) byEntities)"

definition annotationColumnRectangles :: "HealthEventKey list \<Rightarrow> annotationRectangle list" where
  "annotationColumnRectangles keys =
     sortedAnnotationRectangles (fold column_step (group_by hk_ErrorCode keys) [])"

definition compactAnnotationRectangles :: "HealthEventKey list \<Rightarrow> annotationRectangle list" where
  "compactAnnotationRectangles keys =
     (let rows = annotationRowRectangles keys; columns = annotationColumnRectangles keys
      in if length columns < length rows then columns else rows)"

definition projectEventForRectangle :: "health_event \<Rightarrow> annotationRectangle \<Rightarrow> health_event" where
  "projectEventForRectangle event rectangle =
     event\<lparr>EntitiesImpacted :=
             (if length (r_entities rectangle) = 1 \<and> hk_EntityType (r_entities rectangle ! 0) = []
                 \<and> hk_EntityValue (r_entities rectangle ! 0) = []
              then []
              else map (\<lambda>en. \<lparr>EntityType = hk_EntityType en, EntityValue = hk_EntityValue en\<rparr>)
                     (r_entities rectangle)),
           ErrorCode :=
             (if length (r_errorCodes rectangle) = 1 \<and> r_errorCodes rectangle ! 0 = []
                 \<and> [] \<notin> set (ErrorCode event)
              then [] else r_errorCodes rectangle)\<rparr>"

definition compact_rectangle :: "eptr \<Rightarrow> annotationRectangle
    \<Rightarrow> (HealthEventKey, eptr) gomap \<times> nat \<Rightarrow> (HealthEventKey, eptr) gomap \<times> nat" where
  "compact_rectangle p rectangle s =
     (let projected = (snd s, projectEventForRectangle (snd p) rectangle)
      in (fold (\<lambda>key. AList.update key projected) (r_keys rectangle) (fst s), Suc (snd s)))"

definition compactStoredValues :: "HealthEventsAnnotationMap \<Rightarrow> HealthEventsAnnotationMap" where
  "compactStoredValues he =
     (let keysByEvent = map (\<lambda>(p, kvs). (p, map fst kvs)) (group_by snd (Events he));
          res = fold (\<lambda>(p, keys). fold (compact_rectangle p) (compactAnnotationRectangles keys))
                  keysByEvent (Events he, fresh he)
      in \<lparr>Events = fst res, fresh = snd res\<rparr>)"

section \<open>GPU slots\<close>

definition gpuRecoverySlotKey :: string where
  "gpuRecoverySlotKey = ''nvsentinel.dgxc.nvidia.com/gpu-recovery-slot''"

definition countEntityType :: "health_event \<Rightarrow> string \<Rightarrow> nat" where
  "countEntityType event entityType =
     length (filter (\<lambda>e. EntityType e = entityType) (EntitiesImpacted event))"

definition slotEntitiesFromImpacted :: "health_event \<Rightarrow> entity list" where
  "slotEntitiesFromImpacted event =
     filter (\<lambda>e. EntityType e = ''GPU'' \<or> EntityType e = ''PCI'') (EntitiesImpacted event)"

definition gpuSlotEntities :: "slot_codec \<Rightarrow> health_event \<Rightarrow> entity list" where
  "gpuSlotEntities J event =
     (case map_of (Metadata event) gpuRecoverySlotKey of
        Some raw \<Rightarrow>
          (if raw \<noteq> [] then
             (case unmarshal_slot J raw of Some slot \<Rightarrow> slot | None \<Rightarrow> slotEntitiesFromImpacted event)
           else slotEntitiesFromImpacted event)
      | None \<Rightarrow> slotEntitiesFromImpacted event)"

text \<open>The event to store and the next unused address: a clone when the slot is recorded.\<close>

definition withGPUSlotMetadata :: "slot_codec \<Rightarrow> eptr \<Rightarrow> nat \<Rightarrow> eptr \<times> nat" where
  "withGPUSlotMetadata J p fr =
     (let event = snd p; impacted = slotEntitiesFromImpacted event in
      if countEntityType event ''GPU_UUID'' \<noteq> 1 then (p, fr)
      else if map_of (Metadata event) gpuRecoverySlotKey \<noteq> None then (p, fr)
      else if impacted = [] then (p, fr)
      else (case marshal_slot J impacted of
              None \<Rightarrow> (p, fr)
            | Some encoded \<Rightarrow>
                ((fr, event\<lparr>Metadata := AList.update gpuRecoverySlotKey encoded (Metadata event)\<rparr>), Suc fr)))"

section \<open>Matching\<close>

definition entityInEvent :: "HealthEventKey \<Rightarrow> health_event \<Rightarrow> bool" where
  "entityInEvent key event = has_entity event (hk_EntityType key) (hk_EntityValue key)"

definition replacedGPUMatches :: "slot_codec \<Rightarrow> HealthEventKey \<Rightarrow> health_event \<Rightarrow> health_event \<Rightarrow> bool" where
  "replacedGPUMatches J storedKey storedEvent event \<longleftrightarrow>
     (if \<not> IsHealthy event \<or> ComponentClass event \<noteq> ''GPU'' \<or> hk_EntityType storedKey \<noteq> ''GPU_UUID''
      then False
      else let slot = gpuSlotEntities J storedEvent in
           if slot = [] then False
           else list_all (\<lambda>stored. has_entity event (EntityType stored) (EntityValue stored)) slot)"

definition entityMatches :: "slot_codec \<Rightarrow> HealthEventKey \<Rightarrow> health_event \<Rightarrow> health_event \<Rightarrow> bool" where
  "entityMatches J storedKey storedEvent event \<longleftrightarrow>
     EntitiesImpacted event = [] \<or> entityInEvent storedKey event \<or>
     replacedGPUMatches J storedKey storedEvent event"

definition errorCodeMatches :: "string \<Rightarrow> string list \<Rightarrow> bool" where
  "errorCodeMatches stored incoming \<longleftrightarrow> stored \<in> set incoming"

definition keyMatchesEvent :: "slot_codec \<Rightarrow> HealthEventKey \<Rightarrow> health_event \<Rightarrow> health_event \<Rightarrow> bool" where
  "keyMatchesEvent J storedKey storedEvent event \<longleftrightarrow>
     (if hk_Agent storedKey \<noteq> Agent event \<or> hk_ComponentClass storedKey \<noteq> ComponentClass event
         \<or> hk_CheckName storedKey \<noteq> CheckName event \<or> hk_NodeName storedKey \<noteq> NodeName event
         \<or> hk_Version storedKey \<noteq> Version event then False
      else if \<not> entityMatches J storedKey storedEvent event then False
      else if ErrorCode event \<noteq> [] \<and> \<not> errorCodeMatches (hk_ErrorCode storedKey) (ErrorCode event)
      then False else True)"

definition findFirstMatch :: "slot_codec \<Rightarrow> HealthEventsAnnotationMap \<Rightarrow> health_event \<Rightarrow> eptr option" where
  "findFirstMatch J he event =
     map_option snd (List.find (\<lambda>(k, p). keyMatchesEvent J k (snd p) event) (Events he))"

definition getEventByCheck :: "HealthEventsAnnotationMap \<Rightarrow> health_event \<Rightarrow> eptr option" where
  "getEventByCheck he event =
     map_option snd (List.find (\<lambda>(key, p). hk_Agent key = Agent event
       \<and> hk_ComponentClass key = ComponentClass event \<and> hk_CheckName key = CheckName event
       \<and> hk_Version key = Version event \<and> hk_NodeName key = NodeName event) (Events he))"

definition GetEvent :: "slot_codec \<Rightarrow> HealthEventsAnnotationMap \<Rightarrow> health_event \<Rightarrow> eptr option" where
  "GetEvent J he event =
     (case findFirstMatch J he event of
        Some p \<Rightarrow> Some p
      | None \<Rightarrow> if EntitiesImpacted event = [] then getEventByCheck he event else None)"

definition HasMatchingEntities :: "slot_codec \<Rightarrow> HealthEventsAnnotationMap \<Rightarrow> health_event \<Rightarrow> bool" where
  "HasMatchingEntities J he event \<longleftrightarrow> list_ex (\<lambda>(k, p). keyMatchesEvent J k (snd p) event) (Events he)"

definition IsEmpty :: "HealthEventsAnnotationMap \<Rightarrow> bool" where
  "IsEmpty he \<longleftrightarrow> length (Events he) = 0"

definition Count :: "HealthEventsAnnotationMap \<Rightarrow> nat" where
  "Count he = length (Events he)"

section \<open>Updates\<close>

definition add_event_key :: "eptr \<Rightarrow> HealthEventKey \<Rightarrow> (HealthEventKey, eptr) gomap \<times> bool \<times> bool
    \<Rightarrow> (HealthEventKey, eptr) gomap \<times> bool \<times> bool" where
  "add_event_key p key s =
     (case s of (evs, updated, replaced) \<Rightarrow>
        (case map_of evs key of
           None \<Rightarrow> (AList.update key p evs, True, replaced)
         | Some existing \<Rightarrow>
             (if RecommendedAction (snd existing) \<noteq> RecommendedAction (snd p)
              then (AList.update key p evs, True, True) else s)))"

definition addEventKeys :: "eptr \<Rightarrow> HealthEventKey list \<Rightarrow> (HealthEventKey, eptr) gomap
    \<Rightarrow> (HealthEventKey, eptr) gomap \<times> bool \<times> bool" where
  "addEventKeys p keys evs = fold (add_event_key p) keys (evs, False, False)"

definition AddOrUpdateEventFiltered :: "slot_codec \<Rightarrow> HealthEventsAnnotationMap \<Rightarrow> eptr
    \<Rightarrow> (HealthEventKey \<Rightarrow> bool) option \<Rightarrow> HealthEventsAnnotationMap \<times> bool" where
  "AddOrUpdateEventFiltered J he p keep =
     (let keys0 = createEventKeys (snd p);
          keys = (case keep of None \<Rightarrow> keys0 | Some f \<Rightarrow> filter f keys0);
          partial = (keep \<noteq> None \<and> length keys \<noteq> length keys0);
          sp = withGPUSlotMetadata J p (fresh he);
          res = addEventKeys (fst sp) keys (Events he);
          he' = \<lparr>Events = fst res, fresh = snd sp\<rparr>;
          updated = fst (snd res);
          replaced = snd (snd res)
      in if updated \<and> (partial \<or> replaced) \<and> length (Events he') > 0
         then (compactStoredValues he', updated)
         else (he', updated))"

definition AddOrUpdateEvent :: "slot_codec \<Rightarrow> HealthEventsAnnotationMap \<Rightarrow> eptr
    \<Rightarrow> HealthEventsAnnotationMap \<times> bool" where
  "AddOrUpdateEvent J he p = AddOrUpdateEventFiltered J he p None"

definition keyMatchesCheckRecovery :: "HealthEventKey \<Rightarrow> health_event
    \<Rightarrow> (HealthEventKey \<Rightarrow> bool) option \<Rightarrow> bool" where
  "keyMatchesCheckRecovery key event keep \<longleftrightarrow>
     (if hk_Agent key \<noteq> Agent event \<or> hk_ComponentClass key \<noteq> ComponentClass event
         \<or> hk_CheckName key \<noteq> CheckName event \<or> hk_Version key \<noteq> Version event
         \<or> hk_NodeName key \<noteq> NodeName event then False
      else if ErrorCode event \<noteq> [] \<and> \<not> errorCodeMatches (hk_ErrorCode key) (ErrorCode event)
      then False
      else (case keep of None \<Rightarrow> True | Some f \<Rightarrow> f key))"

text \<open>The common tail of both removals: delete the keys, then compact what is left.\<close>

definition remove_keys :: "HealthEventKey list \<Rightarrow> HealthEventsAnnotationMap
    \<Rightarrow> HealthEventsAnnotationMap \<times> nat" where
  "remove_keys keysToRemove he =
     (let he' = he\<lparr>Events := fold AList.delete keysToRemove (Events he)\<rparr>
      in (if length keysToRemove > 0 \<and> length (Events he') > 0 then compactStoredValues he' else he',
          length keysToRemove))"

definition removeAllEntitiesForCheck :: "HealthEventsAnnotationMap \<Rightarrow> health_event
    \<Rightarrow> (HealthEventKey \<Rightarrow> bool) option \<Rightarrow> HealthEventsAnnotationMap \<times> nat" where
  "removeAllEntitiesForCheck he event keep =
     remove_keys (filter (\<lambda>key. keyMatchesCheckRecovery key event keep) (map_keys (Events he))) he"

definition RemoveEventFiltered :: "slot_codec \<Rightarrow> HealthEventsAnnotationMap \<Rightarrow> health_event
    \<Rightarrow> (HealthEventKey \<Rightarrow> bool) option \<Rightarrow> HealthEventsAnnotationMap \<times> nat" where
  "RemoveEventFiltered J he event keep =
     (if EntitiesImpacted event = [] then removeAllEntitiesForCheck he event keep
      else remove_keys (map fst (filter (\<lambda>(k, p). keyMatchesEvent J k (snd p) event \<and>
             (case keep of None \<Rightarrow> True | Some f \<Rightarrow> f k)) (Events he))) he)"

definition RemoveEvent :: "slot_codec \<Rightarrow> HealthEventsAnnotationMap \<Rightarrow> health_event
    \<Rightarrow> HealthEventsAnnotationMap \<times> nat" where
  "RemoveEvent J he event = RemoveEventFiltered J he event None"

definition RemoveEntitiesForCheck :: "HealthEventsAnnotationMap \<Rightarrow> health_event \<Rightarrow> HealthEventsAnnotationMap" where
  "RemoveEntitiesForCheck he event =
     he\<lparr>Events := fold AList.delete (createEventKeys event) (Events he)\<rparr>"

definition GetAllCheckNames :: "HealthEventsAnnotationMap \<Rightarrow> string list" where
  "GetAllCheckNames he =
     remdups (filter (\<lambda>n. n \<noteq> []) (map (\<lambda>(k, p). CheckName (snd p)) (Events he)))"

section \<open>Serialization\<close>

text \<open>One copy of each distinct pointer, in iteration order.\<close>

definition MarshalJSON :: "HealthEventsAnnotationMap \<Rightarrow> health_event list" where
  "MarshalJSON he = map snd (fold (\<lambda>(k, p) seen. if p \<in> set seen then seen else seen @ [p]) (Events he) [])"

text \<open>Decoding allocates one event per element, from address 0 on.\<close>

definition UnmarshalJSON :: "health_event list \<Rightarrow> HealthEventsAnnotationMap" where
  "UnmarshalJSON events =
     \<lparr>Events = fold (\<lambda>p. fold (\<lambda>key. AList.update key p) (createEventKeys (snd p)))
                 (enumerate 0 events) [],
      fresh = length events\<rparr>"

end
