(* ===== verification/Annotation_Laws.thy ===== *)
theory Annotation_Laws
  imports Annotation_Map
begin

text \<open>
  Laws of the annotation map. The first part shows that the rectangles of compaction
  partition the keys of an event and that each is a full product of entities and codes, so
  that the event projected on a rectangle produces exactly the rectangle's keys. The second
  part gives the invariant of the map and what each operation does to it: which failures
  stay, that a recovery is complete, and that the annotation survives serialization in any
  order.
\<close>

section \<open>Group keys\<close>

text \<open>
  Grouping by a string key is grouping by the grouped value itself exactly when the key is
  injective. Both packages that compact events build such keys.
\<close>

locale string_key =
  fixes enc :: "'a \<Rightarrow> string"
  assumes enc_inj: "enc x = enc y \<Longrightarrow> x = y"
begin

lemma enc_eq_iff [simp]: "enc x = enc y \<longleftrightarrow> x = y"
  using enc_inj by blast

lemma inj_enc: "inj enc"
  by (rule injI) (rule enc_inj)

end

lemma annotationStringsKey_eq: "annotationStringsKey = len_prefixed"
proof
  show "annotationStringsKey vs = len_prefixed vs" for vs
    by (induction vs) (simp_all add: annotationStringsKey_def)
qed

interpretation ask: string_key annotationStringsKey
  by unfold_locales (simp add: annotationStringsKey_eq len_prefixed_inj)

lemma annotationEntityKey_eq:
  "annotationEntityKey k = annotationEntityKey k' \<longleftrightarrow>
     hk_EntityType k = hk_EntityType k' \<and> hk_EntityValue k = hk_EntityValue k'"
  by (simp add: annotationEntityKey_def)

section \<open>The keys of an event\<close>

definition key_of :: "health_event \<Rightarrow> string \<Rightarrow> string \<Rightarrow> string \<Rightarrow> HealthEventKey" where
  "key_of ev ty vl code =
     \<lparr>hk_Agent = Agent ev, hk_ComponentClass = ComponentClass ev, hk_CheckName = CheckName ev,
      hk_NodeName = NodeName ev, hk_EntityType = ty, hk_EntityValue = vl, hk_ErrorCode = code,
      hk_Version = Version ev\<rparr>"

definition entities_of :: "health_event \<Rightarrow> (string \<times> string) set" where
  "entities_of ev = (if EntitiesImpacted ev = [] then {([], [])}
     else (\<lambda>e. (EntityType e, EntityValue e)) ` set (EntitiesImpacted ev))"

definition codes_of :: "health_event \<Rightarrow> string set" where
  "codes_of ev = (if ErrorCode ev = [] then {[]} else set (ErrorCode ev))"

lemma set_createEventKeys:
  "set (createEventKeys ev) = (\<lambda>((ty, vl), c). key_of ev ty vl c) ` (entities_of ev \<times> codes_of ev)"
  by (auto simp: createEventKeys_def createCheckLevelKeys_def createEntityKeys_def entities_of_def
      codes_of_def key_of_def CreateEventKeyForEntity_def image_iff)

lemma createEventKeys_nonempty [simp]: "createEventKeys ev \<noteq> []"
  by (auto simp: createEventKeys_def createCheckLevelKeys_def createEntityKeys_def)

text \<open>A key carries the identity of its check.\<close>

definition key_ident :: "HealthEventKey \<Rightarrow> health_event \<Rightarrow> bool" where
  "key_ident k ev \<longleftrightarrow> hk_Agent k = Agent ev \<and> hk_ComponentClass k = ComponentClass ev \<and>
     hk_CheckName k = CheckName ev \<and> hk_NodeName k = NodeName ev \<and> hk_Version k = Version ev"

lemma key_ident_key_of:
  "key_ident k ev \<longleftrightarrow> k = key_of ev (hk_EntityType k) (hk_EntityValue k) (hk_ErrorCode k)"
  by (cases k) (auto simp: key_ident_def key_of_def)

lemma createEventKeys_ident: "k \<in> set (createEventKeys ev) \<Longrightarrow> key_ident k ev"
  by (auto simp: set_createEventKeys key_ident_def key_of_def)

lemma mem_createEventKeys:
  "k \<in> set (createEventKeys ev) \<longleftrightarrow>
     key_ident k ev \<and> (hk_EntityType k, hk_EntityValue k) \<in> entities_of ev \<and> hk_ErrorCode k \<in> codes_of ev"
  by (cases k) (force simp: set_createEventKeys key_ident_def key_of_def image_iff)

section \<open>Rectangles are products that partition the keys\<close>

definition rect_prod :: "HealthEventKey set \<Rightarrow> string set \<Rightarrow> HealthEventKey set" where
  "rect_prod E C = (\<lambda>(en, c). en\<lparr>hk_ErrorCode := c\<rparr>) ` (E \<times> C)"

definition rect_ok :: "annotationRectangle \<Rightarrow> bool" where
  "rect_ok r \<longleftrightarrow> r_entities r \<noteq> [] \<and> r_errorCodes r \<noteq> [] \<and>
     set (r_keys r) = rect_prod (set (r_entities r)) (set (r_errorCodes r))"

lemma rect_prod_empty [simp]: "rect_prod {} C = {}" "rect_prod E {} = {}"
  by (simp_all add: rect_prod_def)

lemma rect_prod_insert:
  "rect_prod (insert e E) C = (\<lambda>c. e\<lparr>hk_ErrorCode := c\<rparr>) ` C \<union> rect_prod E C"
  "rect_prod E (insert c C) = (\<lambda>en. en\<lparr>hk_ErrorCode := c\<rparr>) ` E \<union> rect_prod E C"
  by (auto simp: rect_prod_def)

abbreviation all_keys :: "(string, annotationRectangle) gomap \<Rightarrow> HealthEventKey multiset" where
  "all_keys m \<equiv> (\<Sum>a\<in>#mset m. mset (r_keys (snd a)))"

lemma sum_mset_update:
  fixes w :: "'v \<Rightarrow> 'b multiset"
  shows "(\<Sum>a\<in>#mset (AList.update k v m). w (snd a)) + (case map_of m k of None \<Rightarrow> {#} | Some v0 \<Rightarrow> w v0) =
     (\<Sum>a\<in>#mset m. w (snd a)) + w v"
  by (induction m) (auto split: option.splits simp: ac_simps)

lemma mset_group_by: "(\<Sum>a\<in>#mset (group_by f xs). mset (snd a)) = mset xs"
proof (induction xs rule: rev_induct)
  case Nil
  then show ?case by (simp add: group_by_def)
next
  case (snoc x xs)
  then show ?case
    using sum_mset_update [of mset "f x" "case map_of (group_by f xs) (f x) of None \<Rightarrow> [x] | Some ys \<Rightarrow> ys @ [x]"
        "group_by f xs"]
    by (auto simp: group_by_snoc group_step_def split: option.splits)
qed

definition groups_ok :: "(annotationRectangle \<Rightarrow> string) \<Rightarrow> (string, annotationRectangle) gomap \<Rightarrow> bool" where
  "groups_ok gk m \<longleftrightarrow> wf_gomap m \<and> (\<forall>g r. map_of m g = Some r \<longrightarrow> g = gk r \<and> rect_ok r)"

lemma groups_ok_Nil: "groups_ok gk []"
  by (simp add: groups_ok_def)

lemma groups_ok_update:
  "groups_ok gk m \<Longrightarrow> rect_ok r \<Longrightarrow> gk r = g \<Longrightarrow> groups_ok gk (AList.update g r m)"
  by (auto simp: groups_ok_def distinct_update al.get_put)

lemma groups_okD: "groups_ok gk m \<Longrightarrow> map_of m g = Some r \<Longrightarrow> g = gk r \<and> rect_ok r"
  by (simp add: groups_ok_def)

text \<open>Keys that differ in their error code only, as the keys of one entity of one event do.\<close>

definition same_row :: "HealthEventKey list \<Rightarrow> bool" where
  "same_row ks \<longleftrightarrow> (\<forall>k \<in> set ks. \<forall>k' \<in> set ks. k' = k\<lparr>hk_ErrorCode := hk_ErrorCode k'\<rparr>)"

lemma sort_key_empty_iff: "sort_key f xs = [] \<longleftrightarrow> xs = []"
  by (metis set_empty set_sort)

lemma rect_ok_add_row:
  assumes "set (r_keys r) = rect_prod (set (r_entities r)) (set (r_errorCodes r))"
    and "r_errorCodes r \<noteq> []" and "set row = (\<lambda>c. e\<lparr>hk_ErrorCode := c\<rparr>) ` set (r_errorCodes r)"
  shows "rect_ok (r\<lparr>r_keys := r_keys r @ row, r_entities := r_entities r @ [e]\<rparr>)"
  using assms by (auto simp: rect_ok_def rect_prod_insert)

lemma rect_ok_add_column:
  assumes "set (r_keys r) = rect_prod (set (r_entities r)) (set (r_errorCodes r))"
    and "r_entities r \<noteq> []" and "set col = (\<lambda>en. en\<lparr>hk_ErrorCode := c\<rparr>) ` set (r_entities r)"
  shows "rect_ok (r\<lparr>r_keys := r_keys r @ col, r_errorCodes := r_errorCodes r @ [c]\<rparr>)"
  using assms by (auto simp: rect_ok_def rect_prod_insert)

lemma row_step_ok:
  assumes ok: "groups_ok (annotationStringsKey \<circ> r_errorCodes) m" and ne: "row \<noteq> []" and row: "same_row row"
  shows "groups_ok (annotationStringsKey \<circ> r_errorCodes) (row_step row m)"
proof -
  let ?rk = "sort_key hk_ErrorCode row"
  let ?g = "annotationStringsKey (map hk_ErrorCode ?rk)"
  define r where "r = (case map_of m ?g of
      None \<Rightarrow> \<lparr>r_keys = [], r_entities = [], r_errorCodes = map hk_ErrorCode ?rk\<rparr> | Some r \<Rightarrow> r)"
  have hd: "hd ?rk \<in> set row" using ne by (metis hd_in_set set_sort set_empty)
  have codes: "r_errorCodes r = map hk_ErrorCode ?rk"
    using groups_okD [OF ok, of ?g] by (cases "map_of m ?g") (auto simp: r_def)
  have prod: "set (r_keys r) = rect_prod (set (r_entities r)) (set (r_errorCodes r))"
    using groups_okD [OF ok, of ?g] by (cases "map_of m ?g") (auto simp: r_def rect_ok_def)
  have "set ?rk = (\<lambda>c. (hd ?rk)\<lparr>hk_ErrorCode := c\<rparr>) ` set (r_errorCodes r)"
    using row hd by (force simp: same_row_def image_iff codes)
  then have "rect_ok (r\<lparr>r_keys := r_keys r @ ?rk, r_entities := r_entities r @ [hd ?rk]\<rparr>)"
    using prod ne by (intro rect_ok_add_row) (auto simp: codes sort_key_empty_iff)
  then show ?thesis
    unfolding row_step_def Let_def r_def [symmetric]
    by (rule groups_ok_update [OF ok]) (simp add: codes)
qed

lemma all_keys_update:
  assumes "r_keys r = (case map_of m g of None \<Rightarrow> [] | Some r0 \<Rightarrow> r_keys r0) @ ks"
  shows "all_keys (AList.update g r m) = all_keys m + mset ks"
  using sum_mset_update [of "\<lambda>r. mset (r_keys r)" g r m] assms
  by (auto split: option.splits simp: ac_simps)

lemma row_step_keys: "all_keys (row_step row m) = all_keys m + mset row"
  unfolding row_step_def Let_def
  by (subst all_keys_update [where ks = "sort_key hk_ErrorCode row"]) (auto split: option.split)

lemma rows_ok:
  assumes "\<forall>row \<in> set rows. row \<noteq> [] \<and> same_row row"
    and "groups_ok (annotationStringsKey \<circ> r_errorCodes) m"
  shows "groups_ok (annotationStringsKey \<circ> r_errorCodes) (fold row_step rows m) \<and>
    all_keys (fold row_step rows m) = all_keys m + \<Sum>\<^sub># (mset (map mset rows))"
  using assms by (induction rows arbitrary: m) (simp_all add: row_step_ok row_step_keys)

text \<open>Columns: the keys of one event that carry one error code.\<close>

lemma key_ident_same_entity:
  "key_ident k ev \<Longrightarrow> key_ident k' ev \<Longrightarrow> annotationEntityKey k = annotationEntityKey k' \<Longrightarrow>
     k' = k\<lparr>hk_ErrorCode := hk_ErrorCode k'\<rparr>"
  by (cases k; cases k') (simp add: key_ident_def annotationEntityKey_eq)

definition column_ok :: "health_event \<Rightarrow> string \<times> HealthEventKey list \<Rightarrow> bool" where
  "column_ok ev col \<longleftrightarrow> snd col \<noteq> [] \<and> (\<forall>k \<in> set (snd col). key_ident k ev \<and> hk_ErrorCode k = fst col)"

text \<open>The entities of a rectangle under construction are its first column.\<close>

definition column_key :: "annotationRectangle \<Rightarrow> string" where
  "column_key r = annotationStringsKey (map annotationEntityKey (r_entities r))"

lemma columns_correspond:
  assumes eq: "map annotationEntityKey xs = map annotationEntityKey ys"
    and xs: "\<forall>k \<in> set xs. key_ident k ev" and ys: "\<forall>k \<in> set ys. key_ident k ev \<and> hk_ErrorCode k = c"
  shows "set ys = (\<lambda>en. en\<lparr>hk_ErrorCode := c\<rparr>) ` set xs"
proof -
  have "ys = map (\<lambda>en. en\<lparr>hk_ErrorCode := c\<rparr>) xs"
  proof (rule nth_equalityI)
    from eq show len: "length ys = length (map (\<lambda>en. en\<lparr>hk_ErrorCode := c\<rparr>) xs)"
      by (metis length_map)
    fix i assume i: "i < length ys"
    with len eq have "annotationEntityKey (xs ! i) = annotationEntityKey (ys ! i)"
      by (metis length_map nth_map)
    with i len xs ys show "ys ! i = map (\<lambda>en. en\<lparr>hk_ErrorCode := c\<rparr>) xs ! i"
      using key_ident_same_entity [of "xs ! i" ev "ys ! i"] by simp
  qed
  then show ?thesis by simp
qed

definition cgroups_ok :: "health_event \<Rightarrow> (string, annotationRectangle) gomap \<Rightarrow> bool" where
  "cgroups_ok ev m \<longleftrightarrow> groups_ok column_key m \<and>
     (\<forall>g r. map_of m g = Some r \<longrightarrow> (\<forall>k \<in> set (r_entities r). key_ident k ev))"

lemma column_step_ok:
  assumes ok: "cgroups_ok ev m" and col: "column_ok ev col"
  shows "cgroups_ok ev (column_step col m)"
proof -
  let ?ck = "sort_key annotationEntityKey (snd col)"
  let ?g = "annotationStringsKey (map annotationEntityKey ?ck)"
  define r where "r = (case map_of m ?g of
      None \<Rightarrow> \<lparr>r_keys = [], r_entities = ?ck, r_errorCodes = []\<rparr> | Some r \<Rightarrow> r)"
  have gok: "groups_ok column_key m"
    and ids: "\<And>g r. map_of m g = Some r \<Longrightarrow> \<forall>k \<in> set (r_entities r). key_ident k ev"
    using ok by (auto simp: cgroups_ok_def)
  have ents: "map annotationEntityKey (r_entities r) = map annotationEntityKey ?ck"
    using groups_okD [OF gok, of ?g] by (cases "map_of m ?g") (auto simp: r_def column_key_def)
  have idr: "\<forall>k \<in> set (r_entities r). key_ident k ev"
    using ids [of ?g] col by (cases "map_of m ?g") (auto simp: r_def column_ok_def)
  have prod: "set (r_keys r) = rect_prod (set (r_entities r)) (set (r_errorCodes r))"
    using groups_okD [OF gok, of ?g] by (cases "map_of m ?g") (auto simp: r_def rect_ok_def)
  have "set ?ck = (\<lambda>en. en\<lparr>hk_ErrorCode := fst col\<rparr>) ` set (r_entities r)"
    using columns_correspond [OF ents idr, of "fst col"] col by (simp add: column_ok_def)
  moreover have "r_entities r \<noteq> []"
    using ents col by (auto simp: column_ok_def sort_key_empty_iff)
  ultimately have rok: "rect_ok (r\<lparr>r_keys := r_keys r @ ?ck, r_errorCodes := r_errorCodes r @ [fst col]\<rparr>)"
    using prod by (intro rect_ok_add_column)
  have "groups_ok column_key (column_step col m)"
    unfolding column_step_def Let_def r_def [symmetric]
    by (rule groups_ok_update [OF gok rok]) (simp add: column_key_def ents)
  moreover have "\<forall>k \<in> set (r_entities r'). key_ident k ev" if "map_of (column_step col m) g = Some r'" for g r'
    using that ids idr unfolding column_step_def Let_def r_def [symmetric]
    by (auto simp: al.get_put split: if_splits)
  ultimately show ?thesis by (simp add: cgroups_ok_def)
qed

lemma column_step_keys: "all_keys (column_step col m) = all_keys m + mset (snd col)"
  unfolding column_step_def Let_def
  by (subst all_keys_update [where ks = "sort_key annotationEntityKey (snd col)"])
    (auto split: option.split)

lemma columns_ok:
  assumes "\<forall>col \<in> set cols. column_ok ev col" and "cgroups_ok ev m"
  shows "cgroups_ok ev (fold column_step cols m) \<and>
    all_keys (fold column_step cols m) = all_keys m + (\<Sum>c\<in>#mset cols. mset (snd c))"
  using assms by (induction cols arbitrary: m) (simp_all add: column_step_ok column_step_keys)

text \<open>Sorting changes neither the keys nor the product.\<close>

lemma sorted_rectangles:
  assumes "groups_ok gk m"
  shows "\<forall>r \<in> set (sortedAnnotationRectangles m). rect_ok r"
    and "(\<Sum>r\<in>#mset (sortedAnnotationRectangles m). mset (r_keys r)) = all_keys m"
proof -
  have "rect_ok r" if "(g, r) \<in> set m" for g r
    using assms that by (auto simp: groups_ok_def wf_gomap_map_of)
  then show "\<forall>r \<in> set (sortedAnnotationRectangles m). rect_ok r"
    by (auto simp: sortedAnnotationRectangles_def rect_ok_def sort_key_empty_iff)
  show "(\<Sum>r\<in>#mset (sortedAnnotationRectangles m). mset (r_keys r)) = all_keys m"
    by (simp add: sortedAnnotationRectangles_def image_mset.compositionality o_def case_prod_beta)
qed

text \<open>The rectangles that partition a list of keys into full products.\<close>

definition rect_partition :: "HealthEventKey list \<Rightarrow> annotationRectangle list \<Rightarrow> bool" where
  "rect_partition keys rs \<longleftrightarrow> (\<forall>r \<in> set rs. rect_ok r) \<and> (\<Sum>r\<in>#mset rs. mset (r_keys r)) = mset keys"

lemma row_rectangles_partition:
  assumes "\<forall>k \<in> set keys. key_ident k ev"
  shows "rect_partition keys (annotationRowRectangles keys)"
proof -
  let ?rows = "map snd (group_by annotationEntityKey keys)"
  have "row \<noteq> [] \<and> same_row row" if "row \<in> set ?rows" for row
    using that assms key_ident_same_entity [of _ ev]
    by (auto simp: same_row_def group_by_same dest: group_by_nonempty)
  then have "groups_ok (annotationStringsKey \<circ> r_errorCodes) (fold row_step ?rows [])"
    and "all_keys (fold row_step ?rows []) = \<Sum>\<^sub># (mset (map mset ?rows))"
    using rows_ok [OF _ groups_ok_Nil, of ?rows] by auto
  then show ?thesis
    using sorted_rectangles mset_group_by [of annotationEntityKey keys]
    by (fastforce simp: rect_partition_def annotationRowRectangles_def image_mset.compositionality o_def)
qed

lemma column_rectangles_partition:
  assumes "\<forall>k \<in> set keys. key_ident k ev"
  shows "rect_partition keys (annotationColumnRectangles keys)"
proof -
  let ?cols = "group_by hk_ErrorCode keys"
  have "column_ok ev col" if "col \<in> set ?cols" for col
    using that assms group_by_nonempty [of "fst col" "snd col"] group_by_same [of "fst col" "snd col"]
    by (auto simp: column_ok_def)
  moreover have "cgroups_ok ev []" by (simp add: cgroups_ok_def groups_ok_Nil)
  ultimately have "groups_ok column_key (fold column_step ?cols [])"
    and "all_keys (fold column_step ?cols []) = mset keys"
    using columns_ok [of ?cols ev "[]"] mset_group_by [of hk_ErrorCode keys]
    by (auto simp: cgroups_ok_def)
  then show ?thesis
    using sorted_rectangles by (fastforce simp: rect_partition_def annotationColumnRectangles_def)
qed

lemma compact_rectangles_partition:
  "\<forall>k \<in> set keys. key_ident k ev \<Longrightarrow> rect_partition keys (compactAnnotationRectangles keys)"
  by (simp add: compactAnnotationRectangles_def Let_def row_rectangles_partition
      column_rectangles_partition)

lemma rect_partition_keys:
  assumes "rect_partition keys rs"
  shows "set keys = (\<Union>r \<in> set rs. set (r_keys r))"
  using arg_cong [OF conjunct2 [OF assms [unfolded rect_partition_def]], of set_mset]
  by auto

lemma image_mset_sum_mset: "image_mset f (\<Sum>\<^sub># M) = (\<Sum>A\<in>#M. image_mset f A)"
  by (induction M) auto

lemma mset_concat_groups:
  "mset (concat (map h (concat (map f gs)))) = (\<Sum>g\<in>#mset gs. mset (concat (map h (f g))))"
  by (induction gs) auto

lemma rect_partition_concat:
  "rect_partition keys rs \<Longrightarrow> mset (concat (map r_keys rs)) = mset keys"
  using mset_concat_groups [of r_keys "\<lambda>r. [r]" rs] by (simp add: rect_partition_def o_def)

section \<open>Projection on a rectangle\<close>

lemma key_ident_update_code [simp]: "key_ident (k\<lparr>hk_ErrorCode := c\<rparr>) ev = key_ident k ev"
  by (simp add: key_ident_def)

lemma project_ident [simp]: "key_ident k (projectEventForRectangle ev r) = key_ident k ev"
  by (simp add: key_ident_def projectEventForRectangle_def)

lemma project_keeps [simp]:
  "RecommendedAction (projectEventForRectangle ev r) = RecommendedAction ev"
  "Metadata (projectEventForRectangle ev r) = Metadata ev"
  "CheckName (projectEventForRectangle ev r) = CheckName ev"
  by (simp_all add: projectEventForRectangle_def)

lemma project_entities:
  "r_entities r \<noteq> [] \<Longrightarrow> entities_of (projectEventForRectangle ev r) =
     (\<lambda>en. (hk_EntityType en, hk_EntityValue en)) ` set (r_entities r)"
  by (cases "r_entities r") (auto simp: entities_of_def projectEventForRectangle_def image_iff)

lemma project_codes:
  "r_errorCodes r \<noteq> [] \<Longrightarrow> codes_of (projectEventForRectangle ev r) = set (r_errorCodes r)"
  by (cases "r_errorCodes r") (auto simp: codes_of_def projectEventForRectangle_def)

lemma rect_entities_ident:
  assumes "rect_ok r" and "\<forall>k \<in> set (r_keys r). key_ident k ev" and "en \<in> set (r_entities r)"
  shows "key_ident en ev"
proof -
  from assms(1) obtain c where "c \<in> set (r_errorCodes r)"
    by (cases "r_errorCodes r") (auto simp: rect_ok_def)
  with assms(1,3) have "en\<lparr>hk_ErrorCode := c\<rparr> \<in> set (r_keys r)"
    by (auto simp: rect_ok_def rect_prod_def)
  with assms(2) show ?thesis by fastforce
qed

text \<open>The event projected on a rectangle produces the rectangle's keys and no others.\<close>

lemma project_keys:
  assumes ok: "rect_ok r" and ids: "\<forall>k \<in> set (r_keys r). key_ident k ev"
  shows "set (createEventKeys (projectEventForRectangle ev r)) = set (r_keys r)"
proof (rule set_eqI)
  fix k
  have ne: "r_entities r \<noteq> []" "r_errorCodes r \<noteq> []" using ok by (auto simp: rect_ok_def)
  have "k \<in> set (createEventKeys (projectEventForRectangle ev r)) \<longleftrightarrow>
      key_ident k ev \<and> (\<exists>en \<in> set (r_entities r). annotationEntityKey en = annotationEntityKey k) \<and>
      hk_ErrorCode k \<in> set (r_errorCodes r)"
    by (auto simp: mem_createEventKeys project_entities [OF ne(1)] project_codes [OF ne(2)] annotationEntityKey_eq
        image_iff eq_commute [of "hk_EntityType k"] eq_commute [of "hk_EntityValue k"])
  also have "\<dots> \<longleftrightarrow> k \<in> rect_prod (set (r_entities r)) (set (r_errorCodes r))"
  proof
    assume "key_ident k ev \<and> (\<exists>en \<in> set (r_entities r). annotationEntityKey en = annotationEntityKey k) \<and>
      hk_ErrorCode k \<in> set (r_errorCodes r)"
    then obtain en where en: "en \<in> set (r_entities r)" "annotationEntityKey en = annotationEntityKey k"
      and k: "key_ident k ev" "hk_ErrorCode k \<in> set (r_errorCodes r)" by blast
    then have "k = en\<lparr>hk_ErrorCode := hk_ErrorCode k\<rparr>"
      using rect_entities_ident [OF ok ids en(1)] key_ident_same_entity by blast
    then show "k \<in> rect_prod (set (r_entities r)) (set (r_errorCodes r))"
      using en(1) k(2) unfolding rect_prod_def
      by (intro image_eqI [of _ _ "(en, hk_ErrorCode k)"]) auto
  next
    assume "k \<in> rect_prod (set (r_entities r)) (set (r_errorCodes r))"
    then obtain en c where en: "en \<in> set (r_entities r)" and "c \<in> set (r_errorCodes r)"
      and "k = en\<lparr>hk_ErrorCode := c\<rparr>" by (auto simp: rect_prod_def)
    moreover have "key_ident en ev" by (rule rect_entities_ident [OF ok ids en])
    ultimately show "key_ident k ev \<and> (\<exists>en \<in> set (r_entities r). annotationEntityKey en = annotationEntityKey k) \<and>
      hk_ErrorCode k \<in> set (r_errorCodes r)"
      by (auto simp: annotationEntityKey_eq intro!: bexI [of _ en])
  qed
  finally show "k \<in> set (createEventKeys (projectEventForRectangle ev r)) \<longleftrightarrow> k \<in> set (r_keys r)"
    using ok by (simp add: rect_ok_def)
qed

section \<open>Compaction\<close>

abbreviation pointer_keys :: "(eptr \<times> (HealthEventKey \<times> eptr) list) \<Rightarrow> HealthEventKey list" where
  "pointer_keys g \<equiv> map fst (snd g)"

text \<open>The rectangles of a map, each with the pointer it is projected from.\<close>

definition rect_tasks :: "(HealthEventKey, eptr) gomap \<Rightarrow> (eptr \<times> annotationRectangle) list" where
  "rect_tasks evs = concat (map (\<lambda>g. map (Pair (fst g)) (compactAnnotationRectangles (pointer_keys g)))
     (group_by snd evs))"

definition ids_ok :: "(HealthEventKey, eptr) gomap \<Rightarrow> bool" where
  "ids_ok evs \<longleftrightarrow> (\<forall>(k, p) \<in> set evs. key_ident k (snd p))"

text \<open>A numbered task stores one fresh copy under the keys of its rectangle.\<close>

type_synonym rect_task = "nat \<times> eptr \<times> annotationRectangle"

abbreviation task_keys :: "rect_task \<Rightarrow> HealthEventKey list" where
  "task_keys x \<equiv> r_keys (snd (snd x))"

definition task_val :: "rect_task \<Rightarrow> eptr" where
  "task_val x = (fst x, projectEventForRectangle (snd (fst (snd x))) (snd (snd x)))"

definition tasks_of :: "HealthEventsAnnotationMap \<Rightarrow> rect_task list" where
  "tasks_of he = enumerate (fresh he) (rect_tasks (Events he))"

lemma fold_compact_enumerate:
  "fold (\<lambda>(p, r). compact_rectangle p r) ts (m, fr) =
     (fold (\<lambda>x. fold (\<lambda>k. AList.update k (task_val x)) (task_keys x)) (enumerate fr ts) m, fr + length ts)"
  by (induction ts arbitrary: m fr) (auto simp: compact_rectangle_def task_val_def Let_def)

lemma compactStoredValues_fold:
  "compactStoredValues he =
     \<lparr>Events = fold (\<lambda>x. fold (\<lambda>k. AList.update k (task_val x)) (task_keys x)) (tasks_of he) (Events he),
      fresh = fresh he + length (tasks_of he)\<rparr>"
proof -
  have nested: "fold (\<lambda>(p, keys). fold (compact_rectangle p) (compactAnnotationRectangles keys))
      (map (\<lambda>(p, kvs). (p, map fst kvs)) gs) s =
    fold (\<lambda>(p, r). compact_rectangle p r)
      (concat (map (\<lambda>g. map (Pair (fst g)) (compactAnnotationRectangles (pointer_keys g))) gs)) s" for gs s
    by (induction gs arbitrary: s) (auto simp: fold_map o_def)
  show ?thesis
    by (simp add: compactStoredValues_def Let_def nested rect_tasks_def [symmetric] tasks_of_def
        fold_compact_enumerate)
qed

lemma rect_tasks_partition:
  assumes "ids_ok evs" and "g \<in> set (group_by snd evs)"
  shows "rect_partition (pointer_keys g) (compactAnnotationRectangles (pointer_keys g))"
proof (rule compact_rectangles_partition)
  show "\<forall>k \<in> set (pointer_keys g). key_ident k (snd (fst g))"
    using assms group_by_same [of "fst g" "snd g" snd evs] by (fastforce simp: ids_ok_def)
qed

lemma rect_tasks_keys:
  assumes "ids_ok evs"
  shows "mset (concat (map (r_keys \<circ> snd) (rect_tasks evs))) = mset (map fst evs)"
proof -
  have "mset (concat (map (r_keys \<circ> snd) (rect_tasks evs))) =
      (\<Sum>g\<in>#mset (group_by snd evs). mset (concat (map r_keys (compactAnnotationRectangles (pointer_keys g)))))"
    by (simp only: rect_tasks_def mset_concat_groups) (simp add: o_def)
  also have "\<dots> = (\<Sum>g\<in>#mset (group_by snd evs). image_mset fst (mset (snd g)))"
    by (rule arg_cong [of _ _ sum_mset], rule image_mset_cong)
      (simp add: rect_partition_concat [OF rect_tasks_partition [OF assms]])
  also have "\<dots> = image_mset fst (\<Sum>g\<in>#mset (group_by snd evs). mset (snd g))"
    by (simp add: image_mset_sum_mset image_mset.compositionality o_def)
  finally show ?thesis by (simp add: mset_group_by)
qed

lemma enumerate_index: "(i, t) \<in> set (enumerate n ts) \<Longrightarrow> n \<le> i \<and> i < n + length ts \<and> t \<in> set ts"
  by (auto simp: enumerate_eq_zip dest: set_zip_leftD set_zip_rightD)

lemma enumerate_mem: "t \<in> set ts \<Longrightarrow> \<exists>i. (i, t) \<in> set (enumerate n ts)"
  by (induction ts arbitrary: n) auto

lemma enumerate_unique:
  assumes "distinct (concat (map f ts))"
    and "(i, t) \<in> set (enumerate n ts)" and "(j, u) \<in> set (enumerate n ts)"
    and "x \<in> set (f t)" and "x \<in> set (f u)"
  shows "i = j \<and> t = u"
  using assms
proof (induction ts arbitrary: n)
  case Nil
  then show ?case by simp
next
  case (Cons a ts)
  have disj: "x \<notin> set (f v)" if "x \<in> set (f a)" "(l, v) \<in> set (enumerate (Suc n) ts)" for l v
    using that Cons.prems(1) enumerate_index by fastforce
  from Cons.prems show ?case
    using Cons.IH [of "Suc n"] disj by auto
qed

lemma rect_task_mem:
  assumes "ids_ok evs" and "(p, r) \<in> set (rect_tasks evs)"
  shows "rect_ok r \<and> (\<forall>k \<in> set (r_keys r). (k, p) \<in> set evs \<and> key_ident k (snd p))"
proof -
  from assms(2) obtain kvs where g: "(p, kvs) \<in> set (group_by snd evs)"
    and r: "r \<in> set (compactAnnotationRectangles (map fst kvs))"
    by (auto simp: rect_tasks_def)
  from rect_tasks_partition [OF assms(1) g] have part: "rect_partition (map fst kvs) (compactAnnotationRectangles (map fst kvs))"
    by simp
  with r have "rect_ok r" by (simp add: rect_partition_def)
  moreover have "set (r_keys r) \<subseteq> fst ` set kvs"
    using rect_partition_keys [OF part] r by auto
  moreover have "(k, p) \<in> set evs \<and> key_ident k (snd p)" if "k \<in> fst ` set kvs" for k
    using that assms(1) group_by_same [OF g] by (auto simp: ids_ok_def)
  ultimately show ?thesis by blast
qed

text \<open>
  What compaction does to a well-formed map: the same keys, each with a fresh copy of its
  event projected on the rectangle that holds the key.
\<close>

lemma compact_lookup:
  assumes wf: "wf_gomap (Events he)" and ids: "ids_ok (Events he)" and k: "map_of (Events he) k = Some p"
  obtains i r where "(i, p, r) \<in> set (tasks_of he)" and "k \<in> set (r_keys r)"
    and "map_of (Events (compactStoredValues he)) k = Some (i, projectEventForRectangle (snd p) r)"
proof -
  have "k \<in> fst ` set (Events he)" using map_of_SomeD [OF k] by force
  then have "k \<in># mset (concat (map (r_keys \<circ> snd) (rect_tasks (Events he))))"
    by (simp add: rect_tasks_keys [OF ids])
  then obtain t where t: "t \<in> set (rect_tasks (Events he))" "k \<in> set (r_keys (snd t))"
    by auto
  obtain j where "(j, t) \<in> set (tasks_of he)"
    using enumerate_mem [OF t(1)] unfolding tasks_of_def by blast
  with t(2) have ex: "\<exists>x \<in> set (tasks_of he). k \<in> set (task_keys x)" by force
  then obtain v where v: "map_of (Events (compactStoredValues he)) k = Some v"
    by (simp add: compactStoredValues_fold al.get_put_all)
  then obtain x where x: "x \<in> set (tasks_of he)" "k \<in> set (task_keys x)" "v = task_val x"
    using al.get_put_all_mem [of task_val task_keys] ex
    by (simp only: compactStoredValues_fold HealthEventsAnnotationMap.simps) blast
  obtain i q r where xi: "x = (i, q, r)" by (cases x)
  with x(1) have "(q, r) \<in> set (rect_tasks (Events he))"
    unfolding tasks_of_def by (auto dest: enumerate_index)
  with rect_task_mem [OF ids] x(2) xi have "(k, q) \<in> set (Events he)" by auto
  then have "q = p" using wf k by (auto simp: wf_gomap_map_of dest: wf_gomap_unique)
  with x xi v show thesis by (auto intro!: that simp: task_val_def)
qed

lemma compact_lookup_None:
  assumes ids: "ids_ok (Events he)" and none: "map_of (Events he) k = None"
  shows "map_of (Events (compactStoredValues he)) k = None"
proof -
  have "k \<notin> set (task_keys x)" if "x \<in> set (tasks_of he)" for x
  proof
    assume "k \<in> set (task_keys x)"
    moreover obtain i q r where xi: "x = (i, q, r)" by (cases x)
    moreover have "(q, r) \<in> set (rect_tasks (Events he))"
      using that xi unfolding tasks_of_def by (auto dest: enumerate_index)
    ultimately have "(k, q) \<in> set (Events he)" using rect_task_mem [OF ids] by auto
    with none show False by (auto simp: map_of_eq_None_iff image_iff)
  qed
  then show ?thesis
    using none by (simp add: compactStoredValues_fold al.get_put_all)
qed

lemma compact_wf: "wf_gomap (Events he) \<Longrightarrow> wf_gomap (Events (compactStoredValues he))"
  by (simp add: compactStoredValues_fold al.inv_put_all)

end
