(* ===== verification/Annotation_Properties.thy ===== *)
theory Annotation_Properties
  imports Annotation_Laws
begin

text \<open>
  The invariant of the annotation map and what its operations guarantee: additions,
  recoveries, the replaced-GPU slot and the round trip through the annotation text.
\<close>

section \<open>The invariant\<close>

definition key_action :: "HealthEventsAnnotationMap \<Rightarrow> HealthEventKey \<Rightarrow> recommended_action option" where
  "key_action he k = map_option (\<lambda>p. RecommendedAction (snd p)) (map_of (Events he) k)"

text \<open>Every key belongs to the event stored under it, and addresses identify events.\<close>

definition ann_wf :: "HealthEventsAnnotationMap \<Rightarrow> bool" where
  "ann_wf he \<longleftrightarrow> wf_gomap (Events he) \<and>
     (\<forall>k p. map_of (Events he) k = Some p \<longrightarrow> k \<in> set (createEventKeys (snd p)) \<and> fst p < fresh he) \<and>
     (\<forall>k k' i e e'. map_of (Events he) k = Some (i, e) \<and> map_of (Events he) k' = Some (i, e') \<longrightarrow> e = e')"

text \<open>No stored event would recreate an effect that is gone or that carries another action.\<close>

definition ann_stable :: "HealthEventsAnnotationMap \<Rightarrow> bool" where
  "ann_stable he \<longleftrightarrow> (\<forall>k p. map_of (Events he) k = Some p \<longrightarrow>
     (\<forall>k' \<in> set (createEventKeys (snd p)). key_action he k' = Some (RecommendedAction (snd p))))"

definition ann_inv :: "HealthEventsAnnotationMap \<Rightarrow> bool" where
  "ann_inv he \<longleftrightarrow> ann_wf he \<and> ann_stable he"

text \<open>A pointer the caller may store: allocated, and no other event has its address.\<close>

definition ptr_ok :: "HealthEventsAnnotationMap \<Rightarrow> eptr \<Rightarrow> bool" where
  "ptr_ok he p \<longleftrightarrow> fst p < fresh he \<and> (\<forall>k e. map_of (Events he) k = Some (fst p, e) \<longrightarrow> e = snd p)"

lemma ann_wf_ids: "ann_wf he \<Longrightarrow> ids_ok (Events he)"
  unfolding ann_wf_def ids_ok_def
  by (metis (no_types, lifting) case_prodI2 createEventKeys_ident wf_gomap_map_of)

lemma ann_wf_gomap: "ann_wf he \<Longrightarrow> wf_gomap (Events he)"
  by (simp add: ann_wf_def)

lemma ann_wf_fresh: "ann_wf he \<Longrightarrow> map_of (Events he) k = Some (i, e) \<Longrightarrow> i < fresh he"
  unfolding ann_wf_def by fastforce

lemma ann_wf_mem: "ann_wf he \<Longrightarrow> map_of (Events he) k = Some p \<Longrightarrow> k \<in> set (createEventKeys (snd p))"
  unfolding ann_wf_def by blast

lemma ann_stableD:
  "ann_stable he \<Longrightarrow> map_of (Events he) k = Some p \<Longrightarrow> k' \<in> set (createEventKeys (snd p)) \<Longrightarrow>
     key_action he k' = Some (RecommendedAction (snd p))"
  unfolding ann_stable_def by blast

lemma ann_inv_New: "ann_inv NewHealthEventsAnnotationMap"
  by (simp add: ann_inv_def ann_wf_def ann_stable_def NewHealthEventsAnnotationMap_def)

section \<open>Compaction keeps the effects and makes the map exact\<close>

lemma compact_key_action:
  assumes "wf_gomap (Events he)" and "ids_ok (Events he)"
  shows "key_action (compactStoredValues he) k = key_action he k"
proof (cases "map_of (Events he) k")
  case None
  with compact_lookup_None [OF assms(2)] show ?thesis by (simp add: key_action_def)
next
  case (Some p)
  from compact_lookup [OF assms Some] show ?thesis by (metis (mono_tags) Some key_action_def
      option.map(2) project_keeps(1) snd_conv)
qed

lemma tasks_unique:
  assumes "wf_gomap (Events he)" and "ids_ok (Events he)"
    and "x \<in> set (tasks_of he)" and "y \<in> set (tasks_of he)"
    and "k \<in> set (task_keys x)" and "k \<in> set (task_keys y)"
  shows "x = y"
proof -
  have "distinct (concat (map (r_keys \<circ> snd) (rect_tasks (Events he))))"
    using rect_tasks_keys [OF assms(2)] assms(1) mset_eq_imp_distinct_iff by blast
  from enumerate_unique [OF this, of "fst x" "snd x" "fresh he" "fst y" "snd y" k] assms(3-6)
  show ?thesis by (simp add: tasks_of_def prod_eq_iff)
qed

lemma tasks_index_unique:
  "x \<in> set (tasks_of he) \<Longrightarrow> y \<in> set (tasks_of he) \<Longrightarrow> fst x = fst y \<Longrightarrow> x = y"
  unfolding tasks_of_def
  by (cases x; cases y) (auto simp: in_set_enumerate_eq)

lemma compact_task:
  assumes "wf_gomap (Events he)" and "ids_ok (Events he)"
    and "map_of (Events (compactStoredValues he)) k = Some v"
  obtains x where "x \<in> set (tasks_of he)" and "k \<in> set (task_keys x)" and "v = task_val x"
proof -
  from assms(3) compact_lookup_None [OF assms(2), of k] obtain p where "map_of (Events he) k = Some p"
    by fastforce
  from compact_lookup [OF assms(1,2) this] obtain i r where "(i, p, r) \<in> set (tasks_of he)" "k \<in> set (r_keys r)"
    and "map_of (Events (compactStoredValues he)) k = Some (i, projectEventForRectangle (snd p) r)" by blast
  with assms(3) show thesis by (intro that [of "(i, p, r)"]) (auto simp: task_val_def)
qed

lemma task_val_keys:
  assumes "ids_ok (Events he)" and "x \<in> set (tasks_of he)"
  shows "set (createEventKeys (snd (task_val x))) = set (task_keys x)"
proof -
  obtain i p r where x: "x = (i, p, r)" by (cases x)
  with assms(2) have "(p, r) \<in> set (rect_tasks (Events he))"
    unfolding tasks_of_def by (auto dest: enumerate_index)
  from rect_task_mem [OF assms(1) this] show ?thesis
    by (simp add: x task_val_def project_keys)
qed

lemma compact_task_keys:
  assumes "wf_gomap (Events he)" and "ids_ok (Events he)"
    and "x \<in> set (tasks_of he)" and "k \<in> set (task_keys x)"
  shows "map_of (Events (compactStoredValues he)) k = Some (task_val x)"
proof -
  obtain i p r where x: "x = (i, p, r)" by (cases x)
  with assms(3) have "(p, r) \<in> set (rect_tasks (Events he))"
    unfolding tasks_of_def by (auto dest: enumerate_index)
  with rect_task_mem [OF assms(2) this] assms(4) x have "map_of (Events he) k = Some p"
    using assms(1) by (simp add: wf_gomap_map_of)
  from compact_lookup [OF assms(1,2) this] obtain j s where y: "(j, p, s) \<in> set (tasks_of he)" "k \<in> set (r_keys s)"
    and v: "map_of (Events (compactStoredValues he)) k = Some (j, projectEventForRectangle (snd p) s)" .
  have "(j, p, s) = x" using tasks_unique [OF assms(1,2) y(1) assms(3)] y(2) assms(4) by simp
  with v show ?thesis by (auto simp: task_val_def)
qed

lemma compact_exact:
  assumes wf: "wf_gomap (Events he)" "ids_ok (Events he)"
    and v: "map_of (Events (compactStoredValues he)) k = Some v"
  shows "set (createEventKeys (snd v)) = {k'. map_of (Events (compactStoredValues he)) k' = Some v}"
proof -
  obtain x where x: "x \<in> set (tasks_of he)" "k \<in> set (task_keys x)" "v = task_val x"
    using compact_task [OF wf v] .
  have "k' \<in> set (task_keys x)" if k': "map_of (Events (compactStoredValues he)) k' = Some v" for k'
  proof -
    obtain y where y: "y \<in> set (tasks_of he)" "k' \<in> set (task_keys y)" "v = task_val y"
      using compact_task [OF wf k'] .
    then have "fst x = fst y" using x(3) by (simp add: task_val_def)
    with tasks_index_unique [OF x(1) y(1)] y(2) show ?thesis by simp
  qed
  then show ?thesis
    using compact_task_keys [OF wf x(1)] x(3) by (auto simp: task_val_keys [OF wf(2) x(1)])
qed

lemma compact_inv:
  assumes wf: "wf_gomap (Events he)" "ids_ok (Events he)"
  shows "ann_inv (compactStoredValues he)"
proof -
  let ?c = "compactStoredValues he"
  have mem: "k \<in> set (createEventKeys (snd p)) \<and> fst p < fresh ?c" if kp: "map_of (Events ?c) k = Some p" for k p
  proof -
    obtain x where x: "x \<in> set (tasks_of he)" "p = task_val x" using compact_task [OF wf kp] by metis
    have "fst x < fresh he + length (tasks_of he)"
      using enumerate_index [of "fst x" "snd x" "fresh he" "rect_tasks (Events he)"] x(1)
      by (simp add: tasks_of_def)
    with x compact_exact [OF wf kp] kp show ?thesis
      by (simp add: compactStoredValues_fold task_val_def)
  qed
  moreover have "e = e'" if k1: "map_of (Events ?c) k = Some (i, e)" and k2: "map_of (Events ?c) k' = Some (i, e')" for k k' i e e'
  proof -
    obtain x where x: "x \<in> set (tasks_of he)" "(i, e) = task_val x" using compact_task [OF wf k1] by metis
    obtain y where y: "y \<in> set (tasks_of he)" "(i, e') = task_val y" using compact_task [OF wf k2] by metis
    have "x = y" using tasks_index_unique [OF x(1) y(1)] x(2) y(2) by (simp add: task_val_def)
    with x y show ?thesis by (metis snd_conv)
  qed
  ultimately have "ann_wf ?c" using compact_wf [OF wf(1)] unfolding ann_wf_def by blast
  moreover have "ann_stable ?c"
    unfolding ann_stable_def using compact_exact [OF wf] by (auto simp: key_action_def)
  ultimately show ?thesis by (simp add: ann_inv_def)
qed

section \<open>Adding an event\<close>

lemma createEventKeys_Metadata [simp]: "createEventKeys (ev\<lparr>Metadata := m\<rparr>) = createEventKeys ev"
  by (simp add: createEventKeys_def createCheckLevelKeys_def createEntityKeys_def CreateEventKeyForEntity_def)

lemma withGPUSlotMetadata_keeps:
  "createEventKeys (snd (fst (withGPUSlotMetadata J p fr))) = createEventKeys (snd p)"
  "RecommendedAction (snd (fst (withGPUSlotMetadata J p fr))) = RecommendedAction (snd p)"
  by (simp_all add: withGPUSlotMetadata_def Let_def split: option.split)

lemma withGPUSlotMetadata_ptr:
  assumes "ptr_ok he p" and "ann_wf he"
  shows "ptr_ok (he\<lparr>fresh := snd (withGPUSlotMetadata J p (fresh he))\<rparr>) (fst (withGPUSlotMetadata J p (fresh he)))"
    and "fresh he \<le> snd (withGPUSlotMetadata J p (fresh he))"
  using assms ann_wf_fresh [OF assms(2)]
  by (auto simp: withGPUSlotMetadata_def Let_def ptr_ok_def simp del: map_of_eq_Some_iff split: option.split)

text \<open>Whether the stored entry of a key, if any, carries another action than the event.\<close>

definition needs_update :: "(HealthEventKey, eptr) gomap \<Rightarrow> eptr \<Rightarrow> HealthEventKey \<Rightarrow> bool" where
  "needs_update m p k \<longleftrightarrow> (\<forall>q. map_of m k = Some q \<longrightarrow> RecommendedAction (snd q) \<noteq> RecommendedAction (snd p))"

lemma needs_update_put:
  "needs_update (AList.update k p m) p k' \<longleftrightarrow> k' \<noteq> k \<and> needs_update m p k'"
  by (auto simp: needs_update_def al.get_put)

lemma add_event_key_step:
  "add_event_key p k (m, u, r) =
     (if needs_update m p k then (AList.update k p m, True, r \<or> map_of m k \<noteq> None) else (m, u, r))"
  by (auto simp: add_event_key_def needs_update_def split: option.split)

lemma fold_add_map:
  "map_of (fst (fold (add_event_key p) keys (m, u, r))) k =
     (if k \<in> set keys \<and> needs_update m p k then Some p else map_of m k)"
  by (induction keys arbitrary: m u r) (auto simp: add_event_key_step needs_update_put al.get_put)

lemma fold_add_updated:
  "fst (snd (fold (add_event_key p) keys (m, u, r))) \<longleftrightarrow> u \<or> (\<exists>k \<in> set keys. needs_update m p k)"
  by (induction keys arbitrary: m u r) (auto simp: add_event_key_step needs_update_put)

lemma fold_add_replaced:
  "snd (snd (fold (add_event_key p) keys (m, u, r))) \<longleftrightarrow>
     r \<or> (\<exists>k \<in> set keys. needs_update m p k \<and> map_of m k \<noteq> None)"
proof (induction keys arbitrary: m u r)
  case (Cons a keys)
  then show ?case
    by (simp only: list.set fold_simps add_event_key_step needs_update_put al.get_put fun_upd_apply
        bex_simps split: if_split) (simp, metis)
qed simp

lemma fold_add_wf: "wf_gomap m \<Longrightarrow> wf_gomap (fst (fold (add_event_key p) keys (m, u, r)))"
  by (induction keys arbitrary: m u r) (auto simp: add_event_key_step distinct_update)

lemmas addEventKeys_spec = fold_add_map [of _ _ _ False False, folded addEventKeys_def]
  fold_add_updated [of _ _ _ False False, folded addEventKeys_def, simplified]
  fold_add_replaced [of _ _ _ False False, folded addEventKeys_def, simplified]
  fold_add_wf [of _ _ _ False False, folded addEventKeys_def]

definition kept_keys :: "health_event \<Rightarrow> (HealthEventKey \<Rightarrow> bool) option \<Rightarrow> HealthEventKey list" where
  "kept_keys ev keep = (case keep of None \<Rightarrow> createEventKeys ev | Some f \<Rightarrow> filter f (createEventKeys ev))"

lemma kept_keys_subset: "set (kept_keys ev keep) \<subseteq> set (createEventKeys ev)"
  by (auto simp: kept_keys_def split: option.split)

text \<open>The map after the keys are stored and before compaction.\<close>

definition added :: "slot_codec \<Rightarrow> HealthEventsAnnotationMap \<Rightarrow> eptr \<Rightarrow> (HealthEventKey \<Rightarrow> bool) option
    \<Rightarrow> HealthEventsAnnotationMap" where
  "added J he p keep =
     \<lparr>Events = fst (addEventKeys (fst (withGPUSlotMetadata J p (fresh he))) (kept_keys (snd p) keep) (Events he)),
      fresh = snd (withGPUSlotMetadata J p (fresh he))\<rparr>"

lemma needs_update_gpu:
  "needs_update m (fst (withGPUSlotMetadata J p fr)) k = needs_update m p k"
  by (simp add: needs_update_def withGPUSlotMetadata_keeps)

lemma added_lookup:
  "map_of (Events (added J he p keep)) k =
     (if k \<in> set (kept_keys (snd p) keep) \<and> needs_update (Events he) p k
      then Some (fst (withGPUSlotMetadata J p (fresh he))) else map_of (Events he) k)"
  by (simp add: added_def addEventKeys_spec needs_update_gpu)

lemma AddOrUpdate_cases:
  "AddOrUpdateEventFiltered J he p keep =
     (let u = (\<exists>k \<in> set (kept_keys (snd p) keep). needs_update (Events he) p k);
          c = (\<exists>k \<in> set (kept_keys (snd p) keep). needs_update (Events he) p k \<and> map_of (Events he) k \<noteq> None)
              \<or> length (kept_keys (snd p) keep) \<noteq> length (createEventKeys (snd p))
      in (if u \<and> c then compactStoredValues (added J he p keep) else added J he p keep, u))"
proof -
  have ne: "length (Events (added J he p keep)) > 0"
    if "\<exists>k \<in> set (kept_keys (snd p) keep). needs_update (Events he) p k"
  proof -
    from that obtain k where "k \<in> set (kept_keys (snd p) keep)" "needs_update (Events he) p k" by blast
    then have "map_of (Events (added J he p keep)) k \<noteq> None" by (simp add: added_lookup)
    then show ?thesis by (cases "Events (added J he p keep)") auto
  qed
  have partial: "(keep \<noteq> None \<and> length (kept_keys (snd p) keep) \<noteq> length (createEventKeys (snd p))) =
      (length (kept_keys (snd p) keep) \<noteq> length (createEventKeys (snd p)))"
    by (cases keep) (auto simp: kept_keys_def)
  show ?thesis
    unfolding AddOrUpdateEventFiltered_def Let_def kept_keys_def [symmetric] added_def [symmetric]
    using ne partial by (simp add: addEventKeys_spec needs_update_gpu) blast
qed

lemma added_wf:
  assumes wf: "ann_wf he" and p: "ptr_ok he p"
  shows "ann_wf (added J he p keep)"
proof -
  let ?sp = "withGPUSlotMetadata J p (fresh he)" and ?a = "added J he p keep"
  note sp = withGPUSlotMetadata_ptr [OF p wf, of J]
  have mem: "k \<in> set (createEventKeys (snd q)) \<and> fst q < fresh ?a" if "map_of (Events ?a) k = Some q" for k q
  proof (cases "map_of (Events he) k = Some q")
    case True
    then show ?thesis
      using ann_wf_mem [OF wf True] ann_wf_fresh [OF wf, of k "fst q" "snd q"] sp(2)
      by (simp add: added_def del: map_of_eq_Some_iff)
  next
    case False
    with that have "k \<in> set (kept_keys (snd p) keep)" "q = fst ?sp"
      by (auto simp: added_lookup simp del: map_of_eq_Some_iff split: if_splits)
    then show ?thesis
      using sp(1) kept_keys_subset [of "snd p" keep]
      by (auto simp: ptr_ok_def added_def withGPUSlotMetadata_keeps)
  qed
  have coh: "e = e'" if "map_of (Events ?a) k = Some (i, e)" "map_of (Events ?a) k' = Some (i, e')" for k k' i e e'
  proof -
    have old: "e1 = e2" if "map_of (Events he) k1 = Some (j, e1)" "map_of (Events he) k2 = Some (j, e2)" for k1 k2 j e1 e2
      using that wf unfolding ann_wf_def by blast
    have new: "e1 = snd (fst ?sp)" if "map_of (Events he) k1 = Some (fst (fst ?sp), e1)" for k1 e1
      using that sp(1) by (simp add: ptr_ok_def del: map_of_eq_Some_iff)
    show ?thesis
      using that old new by (auto simp: added_lookup simp del: map_of_eq_Some_iff split: if_splits)
  qed
  have "wf_gomap (Events ?a)"
    using ann_wf_gomap [OF wf] by (simp add: added_def addEventKeys_spec)
  with mem coh show ?thesis unfolding ann_wf_def by blast
qed

lemma added_key_action:
  "key_action (added J he p keep) k =
     (if k \<in> set (kept_keys (snd p) keep) then Some (RecommendedAction (snd p)) else key_action he k)"
  by (cases "map_of (Events he) k")
    (simp_all add: key_action_def added_lookup withGPUSlotMetadata_keeps needs_update_def
      del: map_of_eq_Some_iff map_option_eq_Some)

lemma added_stable:
  assumes inv: "ann_inv he"
    and full: "(\<exists>k \<in> set (kept_keys (snd p) keep). needs_update (Events he) p k) \<longrightarrow>
      kept_keys (snd p) keep = createEventKeys (snd p) \<and>
      (\<forall>k \<in> set (kept_keys (snd p) keep). needs_update (Events he) p k \<longrightarrow> map_of (Events he) k = None)"
  shows "ann_stable (added J he p keep)"
  unfolding ann_stable_def
proof (intro allI impI ballI)
  fix k q k'
  assume k: "map_of (Events (added J he p keep)) k = Some q" and k': "k' \<in> set (createEventKeys (snd q))"
  show "key_action (added J he p keep) k' = Some (RecommendedAction (snd q))"
  proof (cases "map_of (Events he) k = Some q")
    case False
    with k full k' show ?thesis
      by (auto simp: added_lookup added_key_action withGPUSlotMetadata_keeps simp del: map_of_eq_Some_iff
          split: if_splits)
  next
    case True
    with inv k' have act: "key_action he k' = Some (RecommendedAction (snd q))"
      unfolding ann_inv_def by (blast intro: ann_stableD)
    then have "map_of (Events he) k' \<noteq> None" by (auto simp: key_action_def)
    with full have "k' \<in> set (kept_keys (snd p) keep) \<Longrightarrow> \<not> needs_update (Events he) p k'" by auto
    moreover obtain q' where "map_of (Events he) k' = Some q'" "RecommendedAction (snd q') = RecommendedAction (snd q)"
      using act unfolding key_action_def by (cases "map_of (Events he) k'") auto
    ultimately show ?thesis
      using act by (simp add: added_key_action needs_update_def)
  qed
qed

lemma AddOrUpdate_inv:
  assumes inv: "ann_inv he" and p: "ptr_ok he p"
  shows "ann_inv (fst (AddOrUpdateEventFiltered J he p keep))"
proof -
  let ?ks = "kept_keys (snd p) keep"
  have wf: "ann_wf (added J he p keep)" using added_wf inv p by (simp add: ann_inv_def)
  have full: "?ks = createEventKeys (snd p)" if "length ?ks = length (createEventKeys (snd p))"
    using that by (cases keep) (auto simp: kept_keys_def filter_id_conv length_filter_conv_card
        intro: filter_True dest: length_filter_less [of _ "createEventKeys (snd p)"])
  let ?u = "\<exists>k \<in> set ?ks. needs_update (Events he) p k"
  let ?c = "(\<exists>k \<in> set ?ks. needs_update (Events he) p k \<and> map_of (Events he) k \<noteq> None) \<or>
    length ?ks \<noteq> length (createEventKeys (snd p))"
  show ?thesis
  proof (cases "?u \<and> ?c")
    case True
    then have "fst (AddOrUpdateEventFiltered J he p keep) = compactStoredValues (added J he p keep)"
      unfolding AddOrUpdate_cases Let_def by (simp only: if_True fst_conv simp_thms)
    with compact_inv [OF ann_wf_gomap [OF wf] ann_wf_ids [OF wf]] show ?thesis by simp
  next
    case False
    then have "fst (AddOrUpdateEventFiltered J he p keep) = added J he p keep"
      unfolding AddOrUpdate_cases Let_def by (simp only: if_False fst_conv)
    moreover have "ann_stable (added J he p keep)"
      using False full by (intro added_stable [OF inv]) blast
    ultimately show ?thesis using wf by (simp add: ann_inv_def)
  qed
qed

lemma AddOrUpdate_key_action:
  assumes "ann_inv he" and "ptr_ok he p"
  shows "key_action (fst (AddOrUpdateEventFiltered J he p keep)) k =
     (if k \<in> set (kept_keys (snd p) keep) then Some (RecommendedAction (snd p)) else key_action he k)"
proof -
  have wf: "ann_wf (added J he p keep)" using added_wf assms by (simp add: ann_inv_def)
  show ?thesis
    using compact_key_action [OF ann_wf_gomap [OF wf] ann_wf_ids [OF wf], of k]
    by (simp add: AddOrUpdate_cases Let_def added_key_action)
qed

section \<open>Removing events\<close>

lemma remove_keys_lookup:
  "map_of (fold AList.delete ks m) k = (if k \<in> set ks then None else map_of m k)"
  by (rule al.get_del_keys)

lemma deleted_wf:
  assumes "ann_wf he"
  shows "ann_wf (he\<lparr>Events := fold AList.delete ks (Events he)\<rparr>)"
  using assms al.inv_del_keys [OF ann_wf_gomap [OF assms]]
  by (simp add: ann_wf_def remove_keys_lookup del: map_of_eq_Some_iff)

lemma remove_keys_inv:
  assumes inv: "ann_inv he"
  shows "ann_inv (fst (remove_keys ks he))"
proof -
  let ?d = "he\<lparr>Events := fold AList.delete ks (Events he)\<rparr>"
  have wf: "ann_wf ?d" using deleted_wf inv by (simp add: ann_inv_def)
  consider "ks = []" | "Events ?d = []" | "ks \<noteq> []" "Events ?d \<noteq> []" by blast
  then show ?thesis
  proof cases
    case 1
    with inv show ?thesis by (simp add: remove_keys_def)
  next
    case 2
    with wf show ?thesis by (simp add: remove_keys_def Let_def ann_inv_def ann_stable_def)
  next
    case 3
    with compact_inv [OF ann_wf_gomap [OF wf] ann_wf_ids [OF wf]] show ?thesis
      by (simp add: remove_keys_def Let_def)
  qed
qed

lemma remove_keys_action:
  assumes inv: "ann_inv he"
  shows "key_action (fst (remove_keys ks he)) k = (if k \<in> set ks then None else key_action he k)"
proof -
  let ?d = "he\<lparr>Events := fold AList.delete ks (Events he)\<rparr>"
  have wf: "ann_wf ?d" using deleted_wf inv by (simp add: ann_inv_def)
  have "key_action ?d k = (if k \<in> set ks then None else key_action he k)"
    by (simp add: key_action_def remove_keys_lookup)
  with compact_key_action [OF ann_wf_gomap [OF wf] ann_wf_ids [OF wf], of k] show ?thesis
    by (simp add: remove_keys_def Let_def)
qed

lemma keyMatchesEvent_iff:
  "keyMatchesEvent J k stored ev \<longleftrightarrow> key_ident k ev \<and> entityMatches J k stored ev \<and>
     (ErrorCode ev = [] \<or> hk_ErrorCode k \<in> set (ErrorCode ev))"
  by (auto simp: keyMatchesEvent_def key_ident_def errorCodeMatches_def)

definition recovered_keys :: "slot_codec \<Rightarrow> HealthEventsAnnotationMap \<Rightarrow> health_event
    \<Rightarrow> (HealthEventKey \<Rightarrow> bool) option \<Rightarrow> HealthEventKey list" where
  "recovered_keys J he ev keep = map fst (filter (\<lambda>(k, p). keyMatchesEvent J k (snd p) ev \<and>
     (case keep of None \<Rightarrow> True | Some f \<Rightarrow> f k)) (Events he))"

text \<open>Both removal paths delete the keys that the incoming event matches.\<close>

lemma RemoveEventFiltered_eq:
  "RemoveEventFiltered J he ev keep = remove_keys (recovered_keys J he ev keep) he"
proof (cases "EntitiesImpacted ev = []")
  case True
  have "filter (\<lambda>k. keyMatchesCheckRecovery k ev keep) (map_keys (Events he)) = recovered_keys J he ev keep"
    unfolding recovered_keys_def filter_map o_def
    by (rule arg_cong [of _ _ "map fst"], rule filter_cong)
      (auto simp: keyMatchesEvent_iff keyMatchesCheckRecovery_def key_ident_def errorCodeMatches_def
        entityMatches_def True split: if_splits option.split)
  with True show ?thesis by (simp add: RemoveEventFiltered_def removeAllEntitiesForCheck_def)
next
  case False
  then show ?thesis by (simp add: RemoveEventFiltered_def recovered_keys_def)
qed

lemma mem_recovered_keys:
  assumes "ann_wf he"
  shows "k \<in> set (recovered_keys J he ev keep) \<longleftrightarrow> (\<exists>p. map_of (Events he) k = Some p \<and>
     keyMatchesEvent J k (snd p) ev \<and> (case keep of None \<Rightarrow> True | Some f \<Rightarrow> f k))"
  using ann_wf_gomap [OF assms] by (auto simp: recovered_keys_def image_iff)

text \<open>
  A key that survives a recovery does not match it afterwards either: compaction only
  narrows the slot that the replaced-GPU rule reads, and it never puts a covered entity
  into the rectangle of an uncovered key.
\<close>

lemma projected_slot:
  assumes "s \<in> set (gpuSlotEntities J (projectEventForRectangle ev r))"
  shows "gpuSlotEntities J (projectEventForRectangle ev r) = gpuSlotEntities J ev \<or>
    (\<exists>en \<in> set (r_entities r). hk_EntityType en = EntityType s \<and> hk_EntityValue en = EntityValue s)"
proof (cases "gpuSlotEntities J (projectEventForRectangle ev r) = slotEntitiesFromImpacted (projectEventForRectangle ev r)")
  case True
  with assms show ?thesis
    by (auto simp: slotEntitiesFromImpacted_def projectEventForRectangle_def split: if_splits)
next
  case False
  then show ?thesis
    by (auto simp: gpuSlotEntities_def split: option.splits if_splits)
qed

lemma survivor_not_matched:
  assumes wf: "ann_wf d" and none: "\<And>k p. map_of (Events d) k = Some p \<Longrightarrow> \<not> keyMatchesEvent J k (snd p) ev"
    and k: "map_of (Events (compactStoredValues d)) k = Some v"
  shows "\<not> keyMatchesEvent J k (snd v) ev"
proof
  note wfs = ann_wf_gomap [OF wf] ann_wf_ids [OF wf]
  assume m: "keyMatchesEvent J k (snd v) ev"
  from k compact_lookup_None [OF wfs(2), of k] obtain p where p: "map_of (Events d) k = Some p"
    by fastforce
  from compact_lookup [OF wfs p] obtain i r where t: "(i, p, r) \<in> set (tasks_of d)" and kr: "k \<in> set (r_keys r)"
    and v: "map_of (Events (compactStoredValues d)) k = Some (i, projectEventForRectangle (snd p) r)" .
  from v k have vp: "snd v = projectEventForRectangle (snd p) r" by (metis option.inject snd_conv)
  have rm: "rect_ok r" "\<And>k'. k' \<in> set (r_keys r) \<Longrightarrow> map_of (Events d) k' = Some p \<and> key_ident k' (snd p)"
    using rect_task_mem [OF wfs(2), of p r] t wfs(1) unfolding tasks_of_def by (auto dest: enumerate_index)
  from m none [OF p] have gpu: "replacedGPUMatches J k (snd v) ev" "\<not> replacedGPUMatches J k (snd p) ev"
    by (auto simp: keyMatchesEvent_iff entityMatches_def)
  then obtain s where s: "s \<in> set (gpuSlotEntities J (snd v))" "has_entity ev (EntityType s) (EntityValue s)"
    by (cases "gpuSlotEntities J (snd v)") (auto simp: replacedGPUMatches_def Let_def split: if_splits)
  have "gpuSlotEntities J (snd v) \<noteq> gpuSlotEntities J (snd p)"
    using gpu unfolding replacedGPUMatches_def by metis
  with projected_slot s(1) obtain en where en: "en \<in> set (r_entities r)"
    "hk_EntityType en = EntityType s" "hk_EntityValue en = EntityValue s" unfolding vp by blast
  let ?k2 = "en\<lparr>hk_ErrorCode := hk_ErrorCode k\<rparr>"
  from rm(1) kr have "hk_ErrorCode k \<in> set (r_errorCodes r)" by (auto simp: rect_ok_def rect_prod_def)
  with rm(1) en(1) have k2: "?k2 \<in> set (r_keys r)" by (auto simp: rect_ok_def rect_prod_def)
  have "key_ident ?k2 ev"
    using rm(2) [OF k2] rm(2) [OF kr] m by (auto simp: keyMatchesEvent_iff key_ident_def)
  then have "keyMatchesEvent J ?k2 (snd p) ev"
    using m s(2) en by (simp add: keyMatchesEvent_iff entityMatches_def entityInEvent_def)
  with none rm(2) [OF k2] show False by blast
qed

lemma RemoveEvent_no_match:
  assumes inv: "ann_inv he" and k: "map_of (Events (fst (RemoveEvent J he ev))) k = Some v"
  shows "\<not> keyMatchesEvent J k (snd v) ev"
proof -
  let ?ks = "recovered_keys J he ev None" and ?d = "he\<lparr>Events := fold AList.delete (recovered_keys J he ev None) (Events he)\<rparr>"
  have wf: "ann_wf he" "ann_wf ?d" using deleted_wf inv by (auto simp: ann_inv_def)
  have none: "\<not> keyMatchesEvent J k' (snd p) ev" if "map_of (Events ?d) k' = Some p" for k' p
    using that mem_recovered_keys [OF wf(1), of k' J ev None]
    by (simp add: remove_keys_lookup del: map_of_eq_Some_iff split_paired_Ex split: if_splits)
  have "fst (RemoveEvent J he ev) = (if ?ks \<noteq> [] \<and> Events ?d \<noteq> [] then compactStoredValues ?d else ?d)"
    by (simp add: RemoveEvent_def RemoveEventFiltered_eq remove_keys_def Let_def)
  with k none survivor_not_matched [OF wf(2) none, of k v] show ?thesis
    by (metis (no_types, lifting))
qed

section \<open>Serialization\<close>

lemma marshal_pointers:
  "set (fold (\<lambda>(k, p) seen. if p \<in> set seen then seen else seen @ [p]) m acc) = set acc \<union> snd ` set m"
  by (induction m arbitrary: acc) (auto split: if_splits)

lemma set_MarshalJSON: "set (MarshalJSON he) = (\<lambda>kp. snd (snd kp)) ` set (Events he)"
  unfolding MarshalJSON_def set_map marshal_pointers by (simp add: image_image)

lemma UnmarshalJSON_lookup:
  "map_of (Events (UnmarshalJSON es)) k = Some v \<Longrightarrow> v \<in> set (enumerate 0 es) \<and> k \<in> set (createEventKeys (snd v))"
  using al.get_put_all_mem [of "\<lambda>p. p" "\<lambda>p. createEventKeys (snd p)" "enumerate 0 es" "[]" k v]
  by (auto simp: UnmarshalJSON_def)

lemma UnmarshalJSON_dom:
  assumes "ev \<in> set es" and "k \<in> set (createEventKeys ev)"
  shows "map_of (Events (UnmarshalJSON es)) k \<noteq> None"
proof -
  obtain i where "(i, ev) \<in> set (enumerate 0 es)" using enumerate_mem [OF assms(1)] by blast
  with assms(2) have ex: "\<exists>x \<in> set (enumerate 0 es). k \<in> set (createEventKeys (snd x))" by force
  show ?thesis
    using ex al.get_put_all [of "\<lambda>p. p" "\<lambda>p. createEventKeys (snd p)" "enumerate 0 es" "[]" k]
    by (simp add: UnmarshalJSON_def)
qed

lemma unmarshal_key_action:
  assumes inv: "ann_inv he" and perm: "mset es = mset (MarshalJSON he)"
  shows "key_action (UnmarshalJSON es) k = key_action he k"
proof -
  have wf: "wf_gomap (Events he)" using inv by (simp add: ann_inv_def ann_wf_def)
  have es: "set es = (\<lambda>kp. snd (snd kp)) ` set (Events he)"
    using perm set_MarshalJSON by (metis set_mset_mset)
  show ?thesis
  proof (cases "map_of (Events (UnmarshalJSON es)) k")
    case (Some v)
    then have "snd v \<in> set es" and kv: "k \<in> set (createEventKeys (snd v))"
      using UnmarshalJSON_lookup [OF Some] enumerate_index [of "fst v" "snd v" 0 es] by auto
    then obtain k0 p where "map_of (Events he) k0 = Some p" "snd p = snd v"
      using es wf by auto
    with inv kv have "key_action he k = Some (RecommendedAction (snd v))"
      unfolding ann_inv_def by (metis ann_stableD)
    with Some show ?thesis by (simp add: key_action_def del: map_option_eq_Some)
  next
    case None
    have "map_of (Events he) k = None"
    proof (rule ccontr)
      assume "map_of (Events he) k \<noteq> None"
      then obtain p where p: "map_of (Events he) k = Some p" by blast
      then have "snd p \<in> set es" using es map_of_SomeD [OF p] by force
      moreover have "k \<in> set (createEventKeys (snd p))" using ann_wf_mem inv p unfolding ann_inv_def by blast
      ultimately show False using UnmarshalJSON_dom None by blast
    qed
    with None show ?thesis by (simp add: key_action_def)
  qed
qed

lemma unmarshal_wf: "ann_wf (UnmarshalJSON es)"
proof -
  have "wf_gomap (Events (UnmarshalJSON es))"
    by (simp add: UnmarshalJSON_def al.inv_put_all)
  moreover have "fst v < length es" if "v \<in> set (enumerate 0 es)" for v
    using that enumerate_index [of "fst v" "snd v" 0 es] by simp
  moreover have "e = e'" if "(i, e) \<in> set (enumerate 0 es)" "(i, e') \<in> set (enumerate 0 es)" for i e e'
    using that by (auto simp: in_set_enumerate_eq)
  ultimately show ?thesis
    unfolding ann_wf_def using UnmarshalJSON_lookup [of es]
    by (simp add: UnmarshalJSON_def del: map_of_eq_Some_iff) blast
qed

lemma unmarshal_inv:
  assumes inv: "ann_inv he" and perm: "mset es = mset (MarshalJSON he)"
  shows "ann_inv (UnmarshalJSON es)"
proof -
  have "key_action (UnmarshalJSON es) k' = Some (RecommendedAction (snd v))"
    if v: "map_of (Events (UnmarshalJSON es)) k = Some v" and k': "k' \<in> set (createEventKeys (snd v))" for k v k'
  proof -
    have "snd v \<in> set es"
      using UnmarshalJSON_lookup [OF v] enumerate_index [of "fst v" "snd v" 0 es] by auto
    then have "snd v \<in> (\<lambda>kp. snd (snd kp)) ` set (Events he)"
      using perm set_MarshalJSON by (metis set_mset_mset)
    then obtain k0 p where "map_of (Events he) k0 = Some p" "snd p = snd v"
      using inv by (auto simp: ann_inv_def ann_wf_def)
    with inv k' have "key_action he k' = Some (RecommendedAction (snd v))"
      unfolding ann_inv_def by (metis ann_stableD)
    with unmarshal_key_action [OF assms] show ?thesis by simp
  qed
  then show ?thesis unfolding ann_inv_def ann_stable_def using unmarshal_wf by blast
qed

lemma compact_content_roundtrip:
  assumes wf: "wf_gomap (Events he)" "ids_ok (Events he)"
    and perm: "mset es = mset (MarshalJSON (compactStoredValues he))"
  shows "map_option snd (map_of (Events (UnmarshalJSON es)) k) =
    map_option snd (map_of (Events (compactStoredValues he)) k)"
proof -
  let ?c = "compactStoredValues he"
  have es: "set es = (\<lambda>kp. snd (snd kp)) ` set (Events ?c)"
    using perm set_MarshalJSON by (metis set_mset_mset)
  have inv: "ann_inv ?c" by (rule compact_inv [OF wf])
  show ?thesis
  proof (cases "map_of (Events (UnmarshalJSON es)) k")
    case None
    then have "key_action ?c k = None"
      using unmarshal_key_action [OF inv perm, of k] by (simp add: key_action_def)
    with None show ?thesis by (simp add: key_action_def)
  next
    case (Some v)
    then have "snd v \<in> set es" and kv: "k \<in> set (createEventKeys (snd v))"
      using UnmarshalJSON_lookup [OF Some] enumerate_index [of "fst v" "snd v" 0 es] by auto
    then obtain k0 p where p: "map_of (Events ?c) k0 = Some p" "snd p = snd v"
      using es compact_wf [OF wf(1)] by auto
    have "map_of (Events ?c) k = Some p"
      using compact_exact [OF wf p(1)] kv p(2) by auto
    with Some p(2) show ?thesis by simp
  qed
qed

section \<open>Properties\<close>

text \<open>A fault on one GPU with two error codes, and a recovery of one of its codes.\<close>

definition ex_fault :: health_event where
  "ex_fault = zero_event\<lparr>Agent := ''gpu-health-monitor'', ComponentClass := ''GPU'', CheckName := ''GpuXidError'',
     NodeName := ''node-1'', RecommendedAction := COMPONENT_RESET, ErrorCode := [''13'', ''31''],
     EntitiesImpacted := [\<lparr>EntityType = ''GPU'', EntityValue = ''0''\<rparr>,
       \<lparr>EntityType = ''GPU_UUID'', EntityValue = ''u0''\<rparr>]\<rparr>"

definition ex_recovery :: health_event where
  "ex_recovery = ex_fault\<lparr>IsHealthy := True, ErrorCode := [''13''],
     EntitiesImpacted := [\<lparr>EntityType = ''GPU'', EntityValue = ''0''\<rparr>]\<rparr>"

definition ex_codec :: slot_codec where
  "ex_codec = \<lparr>marshal_slot = (\<lambda>es. Some ''slot''),
     unmarshal_slot = (\<lambda>raw. Some [\<lparr>EntityType = ''GPU'', EntityValue = ''0''\<rparr>])\<rparr>"

definition ex_start :: HealthEventsAnnotationMap where
  "ex_start = NewHealthEventsAnnotationMap\<lparr>fresh := 1\<rparr>"

lemma ex_start_inv: "ann_inv ex_start" and ex_start_ptr: "ptr_ok ex_start (0, ex_fault)"
  by (simp_all add: ex_start_def ann_inv_def ann_wf_def ann_stable_def NewHealthEventsAnnotationMap_def ptr_ok_def)

definition ex_map :: HealthEventsAnnotationMap where
  "ex_map = fst (AddOrUpdateEventFiltered ex_codec ex_start (0, ex_fault) None)"

lemma ex_map_inv: "ann_inv ex_map"
  unfolding ex_map_def by (rule AddOrUpdate_inv [OF ex_start_inv ex_start_ptr])

text \<open>A deletion without compaction keeps the invariant only when it cuts no stored event in two.\<close>

lemma RemoveEntitiesForCheck_lookup:
  "map_of (Events (RemoveEntitiesForCheck he ev)) k = (if k \<in> set (createEventKeys ev) then None else map_of (Events he) k)"
  by (simp add: RemoveEntitiesForCheck_def remove_keys_lookup)

lemma RemoveEntitiesForCheck_wf: "ann_wf he \<Longrightarrow> ann_wf (RemoveEntitiesForCheck he ev)"
  unfolding RemoveEntitiesForCheck_def by (rule deleted_wf)

lemma RemoveEntitiesForCheck_stable:
  assumes "ann_stable he"
  shows "ann_stable (RemoveEntitiesForCheck he ev) \<longleftrightarrow>
    (\<forall>k p. map_of (Events he) k = Some p \<longrightarrow> k \<notin> set (createEventKeys ev) \<longrightarrow>
       set (createEventKeys (snd p)) \<inter> set (createEventKeys ev) = {})"
proof -
  have act: "key_action (RemoveEntitiesForCheck he ev) k = (if k \<in> set (createEventKeys ev) then None else key_action he k)" for k
    by (simp add: key_action_def RemoveEntitiesForCheck_lookup)
  have "ann_stable (RemoveEntitiesForCheck he ev) \<longleftrightarrow>
    (\<forall>k p. map_of (Events he) k = Some p \<longrightarrow> k \<notin> set (createEventKeys ev) \<longrightarrow>
       (\<forall>k' \<in> set (createEventKeys (snd p)). k' \<notin> set (createEventKeys ev) \<and> key_action he k' = Some (RecommendedAction (snd p))))"
    unfolding ann_stable_def RemoveEntitiesForCheck_lookup act by (metis option.distinct(1))
  with ann_stableD [OF assms] show ?thesis by blast
qed

text \<open>
  C3. The annotation map keeps its invariant when an event is added or updated and when a recovered
  event is removed, filtered or not: each key belongs to the event stored under it, addresses
  identify events, and no stored event lists an effect that is no longer tracked or that is tracked
  with another recommended action. The deletion of RemoveEntitiesForCheck, which does not compact,
  keeps it exactly when no stored event loses some of its keys and keeps others.
\<close>

theorem annotation_updates_keep_invariant:
  assumes "ann_inv he" and "ptr_ok he p"
  shows "ann_inv (fst (AddOrUpdateEventFiltered J he p keep)) \<and>
    ann_inv (fst (AddOrUpdateEvent J he p)) \<and>
    ann_inv (fst (RemoveEventFiltered J he ev keep')) \<and> ann_inv (fst (RemoveEvent J he ev)) \<and>
    (ann_inv (RemoveEntitiesForCheck he ev) \<longleftrightarrow>
       (\<forall>k q. map_of (Events he) k = Some q \<longrightarrow> k \<notin> set (createEventKeys ev) \<longrightarrow>
          set (createEventKeys (snd q)) \<inter> set (createEventKeys ev) = {}))"
proof -
  have "ann_inv (fst (RemoveEventFiltered J he ev f))" for f
    using remove_keys_inv [OF assms(1)] by (simp add: RemoveEventFiltered_eq)
  moreover have "ann_inv (RemoveEntitiesForCheck he ev) \<longleftrightarrow> ann_stable (RemoveEntitiesForCheck he ev)"
    using RemoveEntitiesForCheck_wf assms(1) by (simp add: ann_inv_def)
  moreover have "ann_stable he" using assms(1) by (simp add: ann_inv_def)
  ultimately show ?thesis
    using AddOrUpdate_inv [OF assms] RemoveEntitiesForCheck_stable by (simp add: AddOrUpdateEvent_def RemoveEvent_def)
qed

theorem annotation_updates_keep_invariant_witness:
  "ann_inv (fst (AddOrUpdateEventFiltered ex_codec ex_start (0, ex_fault) None)) \<and>
   ann_inv (fst (RemoveEventFiltered ex_codec ex_start ex_recovery None))"
  using annotation_updates_keep_invariant [OF ex_start_inv ex_start_ptr, of ex_codec None ex_recovery None] by blast

text \<open>
  C1. Serializing the annotation and reading it back, with the events in any order, tracks
  exactly the same effects with the same recommended actions, and the map that was read back
  satisfies the invariant again.
\<close>

theorem annotation_roundtrip:
  assumes "ann_inv he" and "mset es = mset (MarshalJSON he)"
  shows "(\<forall>k. key_action (UnmarshalJSON es) k = key_action he k) \<and> ann_inv (UnmarshalJSON es)"
  using unmarshal_key_action [OF assms] unmarshal_inv [OF assms] by blast

theorem annotation_roundtrip_witness:
  "(\<forall>k. key_action (UnmarshalJSON (rev (MarshalJSON ex_map))) k = key_action ex_map k) \<and>
   ann_inv (UnmarshalJSON (rev (MarshalJSON ex_map)))"
  by (rule annotation_roundtrip [OF ex_map_inv]) simp

text \<open>
  C2. A recovery is complete: after RemoveEvent no stored effect matches the recovering event
  any more, also not through the replaced-GPU rule on the events that compaction rewrote.
\<close>

theorem annotation_recovery_complete:
  assumes "ann_inv he"
  shows "\<not> HasMatchingEntities J (fst (RemoveEvent J he event)) event"
proof -
  have "ann_inv (fst (RemoveEvent J he event))"
    unfolding RemoveEvent_def RemoveEventFiltered_eq by (rule remove_keys_inv [OF assms])
  then have "wf_gomap (Events (fst (RemoveEvent J he event)))" by (simp add: ann_inv_def ann_wf_def)
  then show ?thesis
    using RemoveEvent_no_match [OF assms, of J event]
    by (auto simp: HasMatchingEntities_def list_ex_iff)
qed

theorem annotation_recovery_complete_witness:
  "\<not> HasMatchingEntities ex_codec (fst (RemoveEvent ex_codec ex_map ex_recovery)) ex_recovery"
  by (rule annotation_recovery_complete [OF ex_map_inv])

text \<open>
  A recovery is exact: it removes the keys that match the event and pass the filter,
  reports their number, and leaves every other effect tracked with its recommended action.
\<close>

theorem annotation_recovery_exact:
  assumes "ann_inv he"
  shows "key_action (fst (RemoveEventFiltered J he event keep)) k =
      (if \<exists>p. map_of (Events he) k = Some p \<and> keyMatchesEvent J k (snd p) event \<and>
          (case keep of None \<Rightarrow> True | Some f \<Rightarrow> f k) then None else key_action he k) \<and>
    snd (RemoveEventFiltered J he event keep) =
      card {k. \<exists>p. map_of (Events he) k = Some p \<and> keyMatchesEvent J k (snd p) event \<and>
          (case keep of None \<Rightarrow> True | Some f \<Rightarrow> f k)}"
proof -
  have wf: "ann_wf he" using assms by (simp add: ann_inv_def)
  have "distinct (recovered_keys J he event keep)"
    using ann_wf_gomap [OF wf] by (simp add: recovered_keys_def distinct_map inj_on_def)
  then have "card (set (recovered_keys J he event keep)) = length (recovered_keys J he event keep)"
    by (rule distinct_card)
  moreover have "set (recovered_keys J he event keep) = {k. \<exists>p. map_of (Events he) k = Some p \<and>
      keyMatchesEvent J k (snd p) event \<and> (case keep of None \<Rightarrow> True | Some f \<Rightarrow> f k)}"
    using mem_recovered_keys [OF wf] by blast
  ultimately show ?thesis
    using remove_keys_action [OF assms] mem_recovered_keys [OF wf, of k J event keep]
    by (simp add: RemoveEventFiltered_eq remove_keys_def Let_def)
qed

theorem annotation_recovery_exact_witness:
  "snd (RemoveEventFiltered ex_codec ex_map ex_recovery None) =
      card {k. \<exists>p. map_of (Events ex_map) k = Some p \<and> keyMatchesEvent ex_codec k (snd p) ex_recovery \<and>
          (case None of None \<Rightarrow> True | Some f \<Rightarrow> f k)}"
  using annotation_recovery_exact [OF ex_map_inv] by blast

text \<open>
  Adding an event tracks exactly the accepted effect keys of the event with the event's
  recommended action, leaves every other effect as it was, and reports a change exactly when
  an accepted key was missing or carried another action.
\<close>

theorem annotation_add_exact:
  assumes "ann_inv he" and "ptr_ok he p"
  shows "key_action (fst (AddOrUpdateEventFiltered J he p keep)) k =
      (if k \<in> set (createEventKeys (snd p)) \<and> (case keep of None \<Rightarrow> True | Some f \<Rightarrow> f k)
       then Some (RecommendedAction (snd p)) else key_action he k) \<and>
    (snd (AddOrUpdateEventFiltered J he p keep) \<longleftrightarrow>
      (\<exists>k \<in> set (createEventKeys (snd p)). (case keep of None \<Rightarrow> True | Some f \<Rightarrow> f k) \<and>
         key_action he k \<noteq> Some (RecommendedAction (snd p))))"
proof -
  have kept: "k \<in> set (kept_keys (snd p) keep) \<longleftrightarrow>
      k \<in> set (createEventKeys (snd p)) \<and> (case keep of None \<Rightarrow> True | Some f \<Rightarrow> f k)" for k
    by (cases keep) (auto simp: kept_keys_def)
  have need: "needs_update (Events he) p k \<longleftrightarrow> key_action he k \<noteq> Some (RecommendedAction (snd p))" for k
    unfolding needs_update_def key_action_def by (cases "map_of (Events he) k") auto
  show ?thesis
    unfolding AddOrUpdate_key_action [OF assms] by (simp add: AddOrUpdate_cases Let_def kept need) (metis kept)
qed

theorem annotation_add_exact_witness:
  "key_action ex_map (key_of ex_fault ''GPU'' ''0'' ''13'') = Some COMPONENT_RESET"
proof -
  have "key_of ex_fault ''GPU'' ''0'' ''13'' \<in> set (createEventKeys ex_fault)"
    by (simp add: mem_createEventKeys key_ident_def key_of_def entities_of_def codes_of_def ex_fault_def)
  moreover have "RecommendedAction ex_fault = COMPONENT_RESET" by (simp add: ex_fault_def)
  ultimately show ?thesis
    unfolding ex_map_def using annotation_add_exact [OF ex_start_inv ex_start_ptr, of ex_codec None] by simp
qed

text \<open>
  Compaction makes the stored events exact: every stored event lists exactly the keys that
  point to it, so the annotation text, read back in any order, gives each key the very event
  content it had.
\<close>

theorem annotation_compaction_exact:
  assumes "ann_wf he"
  shows "(\<forall>k v. map_of (Events (compactStoredValues he)) k = Some v \<longrightarrow>
      set (createEventKeys (snd v)) = {k'. map_of (Events (compactStoredValues he)) k' = Some v}) \<and>
    (\<forall>es. mset es = mset (MarshalJSON (compactStoredValues he)) \<longrightarrow>
      (\<forall>k. map_option snd (map_of (Events (UnmarshalJSON es)) k) =
           map_option snd (map_of (Events (compactStoredValues he)) k)))"
  using compact_exact [OF ann_wf_gomap [OF assms] ann_wf_ids [OF assms]]
    compact_content_roundtrip [OF ann_wf_gomap [OF assms] ann_wf_ids [OF assms]] by blast

theorem annotation_compaction_exact_witness:
  "\<exists>v. map_of (Events (compactStoredValues ex_map)) (key_of ex_fault ''GPU'' ''0'' ''13'') = Some v \<and>
      set (createEventKeys (snd v)) = {k'. map_of (Events (compactStoredValues ex_map)) k' = Some v}"
proof -
  let ?k = "key_of ex_fault ''GPU'' ''0'' ''13''"
  have wf: "ann_wf ex_map" using ex_map_inv by (simp add: ann_inv_def)
  have "?k \<in> set (createEventKeys ex_fault)"
    by (simp add: mem_createEventKeys key_ident_def key_of_def entities_of_def codes_of_def ex_fault_def)
  then have "key_action ex_map ?k \<noteq> None"
    unfolding ex_map_def AddOrUpdate_key_action [OF ex_start_inv ex_start_ptr] by (simp add: kept_keys_def)
  then have "key_action (compactStoredValues ex_map) ?k \<noteq> None"
    by (simp add: compact_key_action [OF ann_wf_gomap [OF wf] ann_wf_ids [OF wf]])
  then obtain v where "map_of (Events (compactStoredValues ex_map)) ?k = Some v"
    by (auto simp: key_action_def)
  with annotation_compaction_exact [OF wf] show ?thesis by blast
qed

text \<open>
  The slot of a single-GPU fault survives compaction: whatever rectangle the stored event
  is projected on, the replaced-GPU rule still reads the GPU and PCI entities of the original
  fault, given a JSON codec that decodes what it encoded.
\<close>

theorem gpu_slot_survives_compaction:
  assumes "countEntityType event ''GPU_UUID'' = 1"
    and "map_of (Metadata event) gpuRecoverySlotKey = None"
    and "slotEntitiesFromImpacted event \<noteq> []"
    and "marshal_slot J (slotEntitiesFromImpacted event) = Some encoded" and "encoded \<noteq> []"
    and "unmarshal_slot J encoded = Some (slotEntitiesFromImpacted event)"
  shows "gpuSlotEntities J (projectEventForRectangle (snd (fst (withGPUSlotMetadata J (a, event) fr))) r) =
    slotEntitiesFromImpacted event"
  using assms by (simp add: withGPUSlotMetadata_def gpuSlotEntities_def Let_def update_conv)

theorem gpu_slot_survives_compaction_witness:
  "gpuSlotEntities ex_codec (projectEventForRectangle
     (snd (fst (withGPUSlotMetadata ex_codec (0, ex_fault) 1)))
     \<lparr>r_keys = [], r_entities = [key_of ex_fault ''GPU_UUID'' ''u0'' ''31''], r_errorCodes = [''31'']\<rparr>) =
   [\<lparr>EntityType = ''GPU'', EntityValue = ''0''\<rparr>]"
proof -
  have slot: "slotEntitiesFromImpacted ex_fault = [\<lparr>EntityType = ''GPU'', EntityValue = ''0''\<rparr>]"
    by (simp add: slotEntitiesFromImpacted_def ex_fault_def)
  have "countEntityType ex_fault ''GPU_UUID'' = 1" and "map_of (Metadata ex_fault) gpuRecoverySlotKey = None"
    by (simp_all add: countEntityType_def ex_fault_def zero_event_def)
  from gpu_slot_survives_compaction [OF this, of ex_codec "''slot''"] show ?thesis
    by (simp add: slot ex_codec_def)
qed

text \<open>
  The capacity hint of createEntityKeys never overflows Go's int: for slice lengths it is
  the exact product when that fits and 0 otherwise.
\<close>

theorem event_keys_capacity_bounds:
  assumes "0 \<le> n" and "n \<le> MaxInt" and "0 \<le> c" and "c \<le> MaxInt"
  shows "0 \<le> eventKeysCapacity n c \<and> eventKeysCapacity n c \<le> MaxInt \<and>
    eventKeysCapacity n c = (if n * c \<le> MaxInt then n * c else 0)"
proof (cases "n = 0 \<or> c = 0")
  case True
  then show ?thesis by (auto simp: eventKeysCapacity_def MaxInt_def)
next
  case False
  with assms have pos: "0 < n" "0 < c" by auto
  have "MaxInt div c * c \<le> MaxInt"
    using pos minus_mod_eq_div_mult [of MaxInt c] pos_mod_sign [of c MaxInt] by linarith
  moreover have "n * c \<le> MaxInt div c * c" if "n \<le> MaxInt div c"
    using that pos by (intro mult_right_mono) auto
  moreover have "n \<le> MaxInt div c" if "n * c \<le> MaxInt"
    using that pos zdiv_mono1 [of "n * c" MaxInt c] by simp
  ultimately have "n \<le> MaxInt div c \<longleftrightarrow> n * c \<le> MaxInt" by linarith
  with pos show ?thesis by (auto simp: eventKeysCapacity_def MaxInt_def)
qed

theorem event_keys_capacity_bounds_witness:
  "eventKeysCapacity (2 ^ 40) (2 ^ 40) = 0 \<and> eventKeysCapacity 3 4 = 12"
  using event_keys_capacity_bounds [of "2 ^ 40" "2 ^ 40"] event_keys_capacity_bounds [of 3 4]
  by (simp add: MaxInt_def)

section \<open>The unused RemoveEntitiesForCheck\<close>

text \<open>
  RemoveEntitiesForCheck deletes keys without compacting, so the events it leaves behind still
  list the deleted effects: after a round trip the annotation tracks them again. No component
  calls it.
\<close>

lemma RemoveEntitiesForCheck_not_stable:
  "key_action (RemoveEntitiesForCheck ex_map ex_recovery) (key_of ex_fault ''GPU'' ''0'' ''13'') = None \<and>
   \<not> ann_stable (RemoveEntitiesForCheck ex_map ex_recovery)"
proof -
  let ?k = "key_of ex_fault ''GPU'' ''0'' ''13''" and ?k2 = "key_of ex_fault ''GPU'' ''0'' ''31''"
  have mem: "?k \<in> set (createEventKeys ex_fault)" "?k2 \<in> set (createEventKeys ex_fault)"
    "?k \<in> set (createEventKeys ex_recovery)" "?k2 \<notin> set (createEventKeys ex_recovery)"
    by (auto simp: mem_createEventKeys key_ident_def key_of_def entities_of_def codes_of_def ex_recovery_def ex_fault_def)
  have map: "map_of (Events ex_map) k = (if k \<in> set (createEventKeys ex_fault)
      then Some (fst (withGPUSlotMetadata ex_codec (0, ex_fault) 1)) else None)" for k
    by (simp add: ex_map_def AddOrUpdate_cases Let_def added_lookup kept_keys_def needs_update_def ex_start_def
        NewHealthEventsAnnotationMap_def)
  have del: "map_of (Events (RemoveEntitiesForCheck ex_map ex_recovery)) k =
      (if k \<in> set (createEventKeys ex_recovery) then None else map_of (Events ex_map) k)" for k
    by (simp add: RemoveEntitiesForCheck_def remove_keys_lookup)
  have none: "key_action (RemoveEntitiesForCheck ex_map ex_recovery) ?k = None"
    by (simp add: key_action_def del mem)
  moreover have "\<not> ann_stable (RemoveEntitiesForCheck ex_map ex_recovery)"
  proof
    assume "ann_stable (RemoveEntitiesForCheck ex_map ex_recovery)"
    moreover have "map_of (Events (RemoveEntitiesForCheck ex_map ex_recovery)) ?k2 =
        Some (fst (withGPUSlotMetadata ex_codec (0, ex_fault) 1))"
      by (simp add: del map mem del: map_of_eq_Some_iff)
    moreover have "?k \<in> set (createEventKeys (snd (fst (withGPUSlotMetadata ex_codec (0, ex_fault) 1))))"
      by (simp add: withGPUSlotMetadata_keeps mem)
    ultimately show False using none by (metis ann_stableD option.distinct(1))
  qed
  ultimately show ?thesis by blast
qed

end
