(* ===== verification/Query_Builder.thy ===== *)
theory Query_Builder
  imports NVS_Prelude
begin

text \<open>
  The database-agnostic query builder (\<^verbatim>\<open>store-client/pkg/query/builder.go\<close>): a tree of
  conditions that every component uses to ask for health events, and its two renderings, a
  MongoDB filter document and a PostgreSQL WHERE clause with numbered parameters.

  Field names are ASCII identifiers in every caller; the case conversions are modelled on
  ASCII letters and leave other bytes alone. The conversion of a hexadecimal string to a
  MongoDB object id belongs to the bson package and is the parameter \<^verbatim>\<open>oid\<close>. The slice of values
  that a caller passes to \<^verbatim>\<open>In\<close> is not nil, but the one that is rebuilt for the document id can be.
\<close>

section \<open>Values and conditions\<close>

text \<open>
  The values of type \<^verbatim>\<open>any\<close> that callers pass. A floating-point number is carried by the text
  \<^verbatim>\<open>fmt.Sprint\<close> gives it, a time by its nanoseconds since the zero time, and a value of any
  other type by a label.
\<close>

datatype qvalue = VNil | VString string | VBool bool | VInt int | VFloat string | VTime int
  | VObjectID string | VOther string

datatype condition =
    Eq string qvalue
  | Ne string qvalue
  | Gt string qvalue
  | Gte string qvalue
  | Lt string qvalue
  | Lte string qvalue
  | In string "qvalue list"
  | And "condition list"
  | Or "condition list"

section \<open>Rendering as a MongoDB filter\<close>

datatype mongo = MVal qvalue | MDoc "(string, mongo) gomap" | MArr "mongo list"

type_synonym mongo_doc = "(string, mongo) gomap"

definition mongoIDFieldName :: string where
  "mongoIDFieldName = ''_id''"

fun convertToMongoObject :: "(string \<Rightarrow> string option) \<Rightarrow> qvalue \<Rightarrow> qvalue" where
  "convertToMongoObject oid (VString s) = (case oid s of None \<Rightarrow> VString s | Some i \<Rightarrow> VObjectID i)"
| "convertToMongoObject oid v = v"

text \<open>The value a comparison sends: only a comparison of the document id is converted.\<close>

definition mongo_value :: "(string \<Rightarrow> string option) \<Rightarrow> string \<Rightarrow> qvalue \<Rightarrow> qvalue" where
  "mongo_value oid field value =
     (if field = mongoIDFieldName then convertToMongoObject oid value else value)"

text \<open>The method of each kind of condition; a conjunction and a disjunction take the documents
  of their operands.\<close>

definition eqCondition_ToMongo :: "(string \<Rightarrow> string option) \<Rightarrow> string \<Rightarrow> qvalue \<Rightarrow> mongo_doc" where
  "eqCondition_ToMongo oid f v = [(f, MVal (mongo_value oid f v))]"

definition neCondition_ToMongo :: "(string \<Rightarrow> string option) \<Rightarrow> string \<Rightarrow> qvalue \<Rightarrow> mongo_doc" where
  "neCondition_ToMongo oid f v = [(f, MDoc [(''$ne'', MVal (mongo_value oid f v))])]"

definition gtCondition_ToMongo :: "(string \<Rightarrow> string option) \<Rightarrow> string \<Rightarrow> qvalue \<Rightarrow> mongo_doc" where
  "gtCondition_ToMongo oid f v = [(f, MDoc [(''$gt'', MVal (mongo_value oid f v))])]"

definition gteCondition_ToMongo :: "(string \<Rightarrow> string option) \<Rightarrow> string \<Rightarrow> qvalue \<Rightarrow> mongo_doc" where
  "gteCondition_ToMongo oid f v = [(f, MDoc [(''$gte'', MVal (mongo_value oid f v))])]"

definition ltCondition_ToMongo :: "(string \<Rightarrow> string option) \<Rightarrow> string \<Rightarrow> qvalue \<Rightarrow> mongo_doc" where
  "ltCondition_ToMongo oid f v = [(f, MDoc [(''$lt'', MVal (mongo_value oid f v))])]"

definition lteCondition_ToMongo :: "(string \<Rightarrow> string option) \<Rightarrow> string \<Rightarrow> qvalue \<Rightarrow> mongo_doc" where
  "lteCondition_ToMongo oid f v = [(f, MDoc [(''$lte'', MVal (mongo_value oid f v))])]"

text \<open>A slice that may be nil; nil is sent as null.\<close>

definition mongo_slice :: "qvalue list option \<Rightarrow> mongo" where
  "mongo_slice values = (case values of None \<Rightarrow> MVal VNil | Some vs \<Rightarrow> MArr (map MVal vs))"

definition inCondition_ToMongo :: "(string \<Rightarrow> string option) \<Rightarrow> string \<Rightarrow> qvalue list \<Rightarrow> mongo_doc" where
  "inCondition_ToMongo oid f vs =
     (let values = (if f = mongoIDFieldName
            then fold (\<lambda>value values. Some ((case values of None \<Rightarrow> [] | Some xs \<Rightarrow> xs) @ [convertToMongoObject oid value])) vs None
            else Some vs)
      in [(f, MDoc [(''$in'', mongo_slice values)])])"

text \<open>
  The loop of \<^verbatim>\<open>andCondition.ToMongo\<close>: it merges the documents of the operands into one as
  long as each has at most one key and no key repeats; None is \<^verbatim>\<open>needsAndOperator\<close>.
\<close>

fun merge_documents :: "mongo_doc list \<Rightarrow> mongo_doc \<Rightarrow> mongo_doc option" where
  "merge_documents [] result = Some result"
| "merge_documents (condMap # rest) result =
     (if length condMap > 1 then None
      else if list_ex (\<lambda>key. map_of result key \<noteq> None) (map_keys condMap) then None
      else merge_documents rest (fold (\<lambda>(k, v). AList.update k v) condMap result))"

definition andCondition_ToMongo :: "mongo_doc list \<Rightarrow> mongo_doc" where
  "andCondition_ToMongo conditions =
     (if conditions = [] then []
      else (case merge_documents conditions [] of
              None \<Rightarrow> [(''$and'', MArr (map MDoc conditions))]
            | Some result \<Rightarrow> result))"

definition orCondition_ToMongo :: "mongo_doc list \<Rightarrow> mongo_doc" where
  "orCondition_ToMongo conditions =
     (if conditions = [] then [] else [(''$or'', MArr (map MDoc conditions))])"

fun ToMongo :: "(string \<Rightarrow> string option) \<Rightarrow> condition \<Rightarrow> mongo_doc" where
  "ToMongo oid (Eq f v) = eqCondition_ToMongo oid f v"
| "ToMongo oid (Ne f v) = neCondition_ToMongo oid f v"
| "ToMongo oid (Gt f v) = gtCondition_ToMongo oid f v"
| "ToMongo oid (Gte f v) = gteCondition_ToMongo oid f v"
| "ToMongo oid (Lt f v) = ltCondition_ToMongo oid f v"
| "ToMongo oid (Lte f v) = lteCondition_ToMongo oid f v"
| "ToMongo oid (In f vs) = inCondition_ToMongo oid f vs"
| "ToMongo oid (And conditions) = andCondition_ToMongo (map (ToMongo oid) conditions)"
| "ToMongo oid (Or conditions) = orCondition_ToMongo (map (ToMongo oid) conditions)"

text \<open>
  \<^verbatim>\<open>ToMongo\<close> has a pointer receiver and writes the converted id back into the condition
  (an \<^verbatim>\<open>In\<close> condition keeps its values); this is the condition a call leaves behind.
\<close>

fun store_converted :: "(string \<Rightarrow> string option) \<Rightarrow> condition \<Rightarrow> condition" where
  "store_converted oid (Eq f v) = Eq f (mongo_value oid f v)"
| "store_converted oid (Ne f v) = Ne f (mongo_value oid f v)"
| "store_converted oid (Gt f v) = Gt f (mongo_value oid f v)"
| "store_converted oid (Gte f v) = Gte f (mongo_value oid f v)"
| "store_converted oid (Lt f v) = Lt f (mongo_value oid f v)"
| "store_converted oid (Lte f v) = Lte f (mongo_value oid f v)"
| "store_converted oid (In f vs) = In f vs"
| "store_converted oid (And cs) = And (map (store_converted oid) cs)"
| "store_converted oid (Or cs) = Or (map (store_converted oid) cs)"

section \<open>Rendering as a PostgreSQL WHERE clause\<close>

text \<open>\<^verbatim>\<open>strings.Split(s, sep)\<close> for a one-byte separator, and \<^verbatim>\<open>strings.Join\<close>.\<close>

fun split_on :: "char \<Rightarrow> string \<Rightarrow> string list" where
  "split_on sep [] = [[]]"
| "split_on sep (c # cs) =
     (if c = sep then [] # split_on sep cs
      else (case split_on sep cs of [] \<Rightarrow> [[c]] | p # ps \<Rightarrow> (c # p) # ps))"

fun join_with :: "string \<Rightarrow> string list \<Rightarrow> string" where
  "join_with sep [] = []"
| "join_with sep [x] = x"
| "join_with sep (x # y # ys) = x @ sep @ join_with sep (y # ys)"

definition is_upper :: "char \<Rightarrow> bool" where
  "is_upper c \<longleftrightarrow> 65 \<le> (of_char c :: nat) \<and> (of_char c :: nat) \<le> 90"

definition to_lower :: "char \<Rightarrow> char" where
  "to_lower c = (if is_upper c then char_of (of_char c + 32 :: nat) else c)"

definition ToLower :: "string \<Rightarrow> string" where
  "ToLower s = map to_lower s"

fun snake_rest :: "string \<Rightarrow> string" where
  "snake_rest [] = []"
| "snake_rest (c # cs) = (if is_upper c then [CHR ''_'', to_lower c] else [c]) @ snake_rest cs"

fun toSnakeCase :: "string \<Rightarrow> string" where
  "toSnakeCase [] = []"
| "toSnakeCase (c # cs) = to_lower c # snake_rest cs"

definition column_fields :: "string list" where
  "column_fields =
     [''id'', ''created_at'', ''updated_at'', mongoIDFieldName,
      ''node_quarantined'', ''user_pods_eviction_status'', ''node_name'', ''event_type'',
      ''severity'', ''recommended_action'', ''fault_remediated'', ''last_remediation_timestamp'',
      ''event_id'', ''csp'', ''cluster_name'', ''status'', ''csp_status'',
      ''scheduled_start_time'', ''actual_end_time'', ''event_received_timestamp'',
      ''last_updated_timestamp'']"

definition isColumnField :: "string \<Rightarrow> bool" where
  "isColumnField field = List.member column_fields field"

definition needsDualCaseLookup :: "string \<Rightarrow> bool" where
  "needsDualCaseLookup fieldName =
     List.member [''componentclass'', ''checkname'', ''nodename'', ''nodequarantined''] (ToLower fieldName)"

definition toCamelCase :: "string \<Rightarrow> string" where
  "toCamelCase s =
     (if s = ''componentclass'' then ''componentClass''
      else if s = ''checkname'' then ''checkName''
      else if s = ''nodename'' then ''nodeName''
      else if s = ''nodequarantined'' then ''nodeQuarantined''
      else s)"

text \<open>A quoted step of a JSON path: \<^verbatim>\<open>->'part'\<close> keeps JSON, \<^verbatim>\<open>->>'part'\<close> extracts text.\<close>

definition quote :: "string \<Rightarrow> string" where
  "quote part = [CHR 0x27] @ part @ [CHR 0x27]"

definition json_path :: "string list \<Rightarrow> string" where
  "json_path parts = ''document'' @ concat (map (\<lambda>part. ''->'' @ quote part) parts)"

definition buildDualCaseJSONBPath :: "string list \<Rightarrow> string" where
  "buildDualCaseJSONBPath parts =
     (let basePathStr = json_path (butlast parts);
          lowercaseField = ToLower (last parts);
          camelCaseField = toCamelCase lowercaseField
      in ''COALESCE('' @ basePathStr @ ''->>'' @ quote lowercaseField @ '', '' @
         basePathStr @ ''->>'' @ quote camelCaseField @ '')'')"

definition mongoFieldToJSONB :: "string \<Rightarrow> string" where
  "mongoFieldToJSONB fieldPath =
     (if CHR ''.'' \<notin> set fieldPath then
        let snakeCaseField = toSnakeCase fieldPath in
        if isColumnField snakeCaseField
        then (if snakeCaseField = mongoIDFieldName then ''id'' else snakeCaseField)
        else ''document->>'' @ quote fieldPath
      else
        let parts = split_on (CHR ''.'') fieldPath in
        if needsDualCaseLookup (last parts) then buildDualCaseJSONBPath parts
        else json_path (butlast parts) @ ''->>'' @ quote (last parts))"

definition jsonTextComparisonValue :: "string \<Rightarrow> qvalue \<Rightarrow> qvalue" where
  "jsonTextComparisonValue field value =
     (if isColumnField (toSnakeCase field) then value
      else case value of
          VBool b \<Rightarrow> VString (if b then ''true'' else ''false'')
        | VInt i \<Rightarrow> VString (fmt_int i)
        | VFloat s \<Rightarrow> VString s
        | _ \<Rightarrow> value)"

definition placeholder :: "nat \<Rightarrow> string" where
  "placeholder n = CHR ''$'' # fmt_nat n"

text \<open>The comparisons that bind one parameter; equality converts its value, order does not.\<close>

definition bind_one :: "string \<Rightarrow> string \<Rightarrow> qvalue \<Rightarrow> nat \<Rightarrow> string \<times> qvalue list \<times> nat" where
  "bind_one field op value paramNum =
     (mongoFieldToJSONB field @ op @ placeholder paramNum, [value], paramNum + 1)"

text \<open>
  The loop of \<^verbatim>\<open>andCondition.ToSQL\<close> and \<^verbatim>\<open>orCondition.ToSQL\<close>, over the renderings of the
  operands: parenthesised parts, the arguments in order, and the next parameter number.
\<close>

fun number_parts ::
  "(nat \<Rightarrow> string \<times> qvalue list \<times> nat) list \<Rightarrow> nat \<Rightarrow> string list \<times> qvalue list \<times> nat" where
  "number_parts [] currentParam = ([], [], currentParam)"
| "number_parts (toSQL # rest) currentParam =
     (let (sql, args, nextParam) = toSQL currentParam;
          (sqlParts, allArgs, lastParam) = number_parts rest nextParam
      in ((''('' @ sql @ '')'') # sqlParts, args @ allArgs, lastParam))"

definition eqCondition_ToSQL :: "string \<Rightarrow> qvalue \<Rightarrow> nat \<Rightarrow> string \<times> qvalue list \<times> nat" where
  "eqCondition_ToSQL f v n =
     (if v = VNil then (mongoFieldToJSONB f @ '' IS NULL'', [], n)
      else bind_one f '' = '' (jsonTextComparisonValue f v) n)"

definition neCondition_ToSQL :: "string \<Rightarrow> qvalue \<Rightarrow> nat \<Rightarrow> string \<times> qvalue list \<times> nat" where
  "neCondition_ToSQL f v n =
     (if v = VNil then (mongoFieldToJSONB f @ '' IS NOT NULL'', [], n)
      else bind_one f '' != '' (jsonTextComparisonValue f v) n)"

definition gtCondition_ToSQL :: "string \<Rightarrow> qvalue \<Rightarrow> nat \<Rightarrow> string \<times> qvalue list \<times> nat" where
  "gtCondition_ToSQL f v n = bind_one f '' > '' v n"

definition gteCondition_ToSQL :: "string \<Rightarrow> qvalue \<Rightarrow> nat \<Rightarrow> string \<times> qvalue list \<times> nat" where
  "gteCondition_ToSQL f v n = bind_one f '' >= '' v n"

definition ltCondition_ToSQL :: "string \<Rightarrow> qvalue \<Rightarrow> nat \<Rightarrow> string \<times> qvalue list \<times> nat" where
  "ltCondition_ToSQL f v n = bind_one f '' < '' v n"

definition lteCondition_ToSQL :: "string \<Rightarrow> qvalue \<Rightarrow> nat \<Rightarrow> string \<times> qvalue list \<times> nat" where
  "lteCondition_ToSQL f v n = bind_one f '' <= '' v n"

definition inCondition_ToSQL :: "string \<Rightarrow> qvalue list \<Rightarrow> nat \<Rightarrow> string \<times> qvalue list \<times> nat" where
  "inCondition_ToSQL f vs n =
     (mongoFieldToJSONB f @ '' IN ('' @
        join_with '', '' (map placeholder [n ..< n + length vs]) @ '')'',
      map (jsonTextComparisonValue f) vs, n + length vs)"

definition andCondition_ToSQL ::
  "(nat \<Rightarrow> string \<times> qvalue list \<times> nat) list \<Rightarrow> nat \<Rightarrow> string \<times> qvalue list \<times> nat" where
  "andCondition_ToSQL conditions n =
     (if conditions = [] then (''TRUE'', [], n)
      else (let (sqlParts, allArgs, currentParam) = number_parts conditions n
            in (join_with '' AND '' sqlParts, allArgs, currentParam)))"

definition orCondition_ToSQL ::
  "(nat \<Rightarrow> string \<times> qvalue list \<times> nat) list \<Rightarrow> nat \<Rightarrow> string \<times> qvalue list \<times> nat" where
  "orCondition_ToSQL conditions n =
     (if conditions = [] then (''FALSE'', [], n)
      else (let (sqlParts, allArgs, currentParam) = number_parts conditions n
            in (join_with '' OR '' sqlParts, allArgs, currentParam)))"

fun ToSQL :: "condition \<Rightarrow> nat \<Rightarrow> string \<times> qvalue list \<times> nat" where
  "ToSQL (Eq f v) = eqCondition_ToSQL f v"
| "ToSQL (Ne f v) = neCondition_ToSQL f v"
| "ToSQL (Gt f v) = gtCondition_ToSQL f v"
| "ToSQL (Gte f v) = gteCondition_ToSQL f v"
| "ToSQL (Lt f v) = ltCondition_ToSQL f v"
| "ToSQL (Lte f v) = lteCondition_ToSQL f v"
| "ToSQL (In f vs) = inCondition_ToSQL f vs"
| "ToSQL (And cs) = andCondition_ToSQL (map ToSQL cs)"
| "ToSQL (Or cs) = orCondition_ToSQL (map ToSQL cs)"

text \<open>The methods, for proofs that look at every kind of condition.\<close>

lemmas to_mongo_defs =
  eqCondition_ToMongo_def neCondition_ToMongo_def gtCondition_ToMongo_def
  gteCondition_ToMongo_def ltCondition_ToMongo_def lteCondition_ToMongo_def
  inCondition_ToMongo_def andCondition_ToMongo_def orCondition_ToMongo_def

lemmas to_sql_defs =
  eqCondition_ToSQL_def neCondition_ToSQL_def gtCondition_ToSQL_def gteCondition_ToSQL_def
  ltCondition_ToSQL_def lteCondition_ToSQL_def inCondition_ToSQL_def andCondition_ToSQL_def
  orCondition_ToSQL_def

section \<open>The builder\<close>

record Builder =
  root :: "condition option"

definition New :: Builder where
  "New = \<lparr>root = None\<rparr>"

definition Build :: "condition \<Rightarrow> Builder \<Rightarrow> Builder" where
  "Build cond b = b\<lparr>root := Some cond\<rparr>"

definition Builder_ToMongo :: "(string \<Rightarrow> string option) \<Rightarrow> Builder \<Rightarrow> mongo_doc" where
  "Builder_ToMongo oid b = (case root b of None \<Rightarrow> [] | Some c \<Rightarrow> ToMongo oid c)"

definition ToSQLWithOffset :: "Builder \<Rightarrow> nat \<Rightarrow> string \<times> qvalue list" where
  "ToSQLWithOffset b startParam =
     (case root b of None \<Rightarrow> ([], [])
      | Some c \<Rightarrow> (let (sql, args, _) = ToSQL c startParam in (sql, args)))"

definition Builder_ToSQL :: "Builder \<Rightarrow> string \<times> qvalue list" where
  "Builder_ToSQL b = ToSQLWithOffset b 1"

end
