(* ===== verification/Query_Properties.thy ===== *)
theory Query_Properties
  imports Query_Builder
begin

text \<open>
  What the renderings of the query builder mean. \<^verbatim>\<open>cond_holds\<close> is the meaning callers give a
  condition tree; \<^verbatim>\<open>holds_filter\<close> is the documented meaning of a MongoDB filter, both over
  an arbitrary test of one field, which stands for the database. For PostgreSQL the numbered
  parameters are read back from the clause text.
\<close>

section \<open>Meaning of conditions and of filters\<close>

fun cond_holds ::
  "(string \<Rightarrow> string option) \<Rightarrow> (string \<Rightarrow> string \<Rightarrow> qvalue \<Rightarrow> bool) \<Rightarrow> condition \<Rightarrow> bool" where
  "cond_holds oid t (Eq f v) = t ''$eq'' f (mongo_value oid f v)"
| "cond_holds oid t (Ne f v) = t ''$ne'' f (mongo_value oid f v)"
| "cond_holds oid t (Gt f v) = t ''$gt'' f (mongo_value oid f v)"
| "cond_holds oid t (Gte f v) = t ''$gte'' f (mongo_value oid f v)"
| "cond_holds oid t (Lt f v) = t ''$lt'' f (mongo_value oid f v)"
| "cond_holds oid t (Lte f v) = t ''$lte'' f (mongo_value oid f v)"
| "cond_holds oid t (In f vs) = list_ex (\<lambda>v. t ''$eq'' f (mongo_value oid f v)) vs"
| "cond_holds oid t (And cs) = list_all (cond_holds oid t) cs"
| "cond_holds oid t (Or cs) = list_ex (cond_holds oid t) cs"

fun value_of :: "mongo \<Rightarrow> qvalue" where
  "value_of (MVal v) = v"
| "value_of _ = VNil"

text \<open>A field is compared by equality, by one operator, or against a list.\<close>

fun holds_field :: "(string \<Rightarrow> string \<Rightarrow> qvalue \<Rightarrow> bool) \<Rightarrow> string \<Rightarrow> mongo \<Rightarrow> bool" where
  "holds_field t k (MVal v) = t ''$eq'' k v"
| "holds_field t k (MDoc [(op, MVal v)]) = t op k v"
| "holds_field t k (MDoc [(op, MArr vs)]) =
     (op = ''$in'' \<and> list_ex (\<lambda>v. t ''$eq'' k (value_of v)) vs)"
| "holds_field t k _ = False"

text \<open>All entries of a filter document must hold; \<^verbatim>\<open>$and\<close> and \<^verbatim>\<open>$or\<close> take lists of filters.\<close>

fun holds_filter :: "(string \<Rightarrow> string \<Rightarrow> qvalue \<Rightarrow> bool) \<Rightarrow> mongo_doc \<Rightarrow> bool"
  and holds_entry :: "(string \<Rightarrow> string \<Rightarrow> qvalue \<Rightarrow> bool) \<Rightarrow> string \<Rightarrow> mongo \<Rightarrow> bool"
  and holds_every :: "(string \<Rightarrow> string \<Rightarrow> qvalue \<Rightarrow> bool) \<Rightarrow> mongo list \<Rightarrow> bool"
  and holds_some :: "(string \<Rightarrow> string \<Rightarrow> qvalue \<Rightarrow> bool) \<Rightarrow> mongo list \<Rightarrow> bool" where
  "holds_filter t [] = True"
| "holds_filter t ((k, v) # es) = (holds_entry t k v \<and> holds_filter t es)"
| "holds_entry t k (MArr ds) =
     (if k = ''$and'' then holds_every t ds else k = ''$or'' \<and> holds_some t ds)"
| "holds_entry t k (MVal v) = (k \<noteq> ''$and'' \<and> k \<noteq> ''$or'' \<and> holds_field t k (MVal v))"
| "holds_entry t k (MDoc d) = (k \<noteq> ''$and'' \<and> k \<noteq> ''$or'' \<and> holds_field t k (MDoc d))"
| "holds_every t [] = True"
| "holds_every t (MDoc d # ds) = (holds_filter t d \<and> holds_every t ds)"
| "holds_every t (_ # ds) = False"
| "holds_some t [] = False"
| "holds_some t (MDoc d # ds) = (holds_filter t d \<or> holds_some t ds)"
| "holds_some t (_ # ds) = holds_some t ds"

text \<open>
  Conditions on ordinary fields (not MongoDB operators), without an empty disjunction and without
  an empty list of document ids.
\<close>

definition plain_field :: "string \<Rightarrow> bool" where
  "plain_field f \<longleftrightarrow> CHR ''$'' \<notin> set f"

fun plain :: "condition \<Rightarrow> bool" where
  "plain (Eq f v) = plain_field f"
| "plain (Ne f v) = plain_field f"
| "plain (Gt f v) = plain_field f"
| "plain (Gte f v) = plain_field f"
| "plain (Lt f v) = plain_field f"
| "plain (Lte f v) = plain_field f"
| "plain (In f vs) = plain_field f"
| "plain (And cs) = list_all plain cs"
| "plain (Or cs) = list_all plain cs"

fun has_operands :: "condition \<Rightarrow> bool" where
  "has_operands (And cs) = list_all has_operands cs"
| "has_operands (Or cs) = (cs \<noteq> [] \<and> list_all has_operands cs)"
| "has_operands (In f vs) = (f = mongoIDFieldName \<longrightarrow> vs \<noteq> [])"
| "has_operands _ = True"

section \<open>MongoDB\<close>

lemma plain_field_no_operator: "plain_field f \<Longrightarrow> f \<noteq> ''$and'' \<and> f \<noteq> ''$or''"
  by (auto simp: plain_field_def)

lemma holds_filter_append: "holds_filter t (d @ e) \<longleftrightarrow> holds_filter t d \<and> holds_filter t e"
  by (induction d) auto

lemma holds_every_map: "holds_every t (map MDoc ds) = list_all (holds_filter t) ds"
  by (induction ds) auto

lemma holds_some_map: "holds_some t (map MDoc ds) = list_ex (holds_filter t) ds"
  by (induction ds) auto

text \<open>Merging keeps the conjunction of the merged documents.\<close>

lemma merge_documents_holds:
  "merge_documents ds r = Some m \<Longrightarrow>
     holds_filter t m \<longleftrightarrow> holds_filter t r \<and> list_all (holds_filter t) ds"
proof (induction ds r rule: merge_documents.induct)
  case (1 result)
  then show ?case by simp
next
  case (2 condMap rest result)
  let ?r = "fold (\<lambda>(k, v). AList.update k v) condMap result"
  from "2.prems" have small: "\<not> length condMap > 1"
    and fresh: "\<not> list_ex (\<lambda>key. map_of result key \<noteq> None) (map_keys condMap)"
    and rest: "merge_documents rest ?r = Some m"
    by (auto split: if_splits)
  have "?r = result @ condMap"
  proof (cases condMap)
    case Nil
    then show ?thesis by simp
  next
    case (Cons e es)
    with small have [simp]: "es = []" by (cases es) auto
    obtain k v where "e = (k, v)" by (cases e)
    with Cons fresh show ?thesis
      by (auto simp: map_of_eq_None_iff intro: update_fresh)
  qed
  with "2.IH" [OF small fresh rest] show ?case
    by (auto simp: holds_filter_append)
qed

lemma andCondition_holds: "holds_filter t (andCondition_ToMongo ds) = list_all (holds_filter t) ds"
  using merge_documents_holds [of ds "[]" _ t]
  by (auto simp: andCondition_ToMongo_def holds_every_map simp del: split_paired_Ex split: option.split)

lemma orCondition_holds:
  "ds \<noteq> [] \<Longrightarrow> holds_filter t (orCondition_ToMongo ds) = list_ex (holds_filter t) ds"
  by (simp add: orCondition_ToMongo_def holds_some_map)

lemma in_values:
  "fold (\<lambda>value values. Some ((case values of None \<Rightarrow> [] | Some xs \<Rightarrow> xs) @ [conv value])) vs acc =
     (if vs = [] then acc else Some ((case acc of None \<Rightarrow> [] | Some xs \<Rightarrow> xs) @ map conv vs))"
  by (induction vs arbitrary: acc) (auto split: option.splits)

lemma inCondition_array:
  "f \<noteq> mongoIDFieldName \<or> vs \<noteq> [] \<Longrightarrow>
     inCondition_ToMongo oid f vs = [(f, MDoc [(''$in'', MArr (map (\<lambda>v. MVal (mongo_value oid f v)) vs))])]"
  by (auto simp: inCondition_ToMongo_def in_values mongo_slice_def mongo_value_def)

lemma inCondition_holds:
  "plain_field f \<Longrightarrow> f \<noteq> mongoIDFieldName \<or> vs \<noteq> [] \<Longrightarrow>
     holds_filter t (inCondition_ToMongo oid f vs) = cond_holds oid t (In f vs)"
  by (subst inCondition_array) (auto simp: list_ex_iff dest: plain_field_no_operator)

lemma ToMongo_holds:
  "plain c \<Longrightarrow> has_operands c \<Longrightarrow> holds_filter t (ToMongo oid c) = cond_holds oid t c"
proof (induction c)
  case (And cs)
  then show ?case by (auto simp: andCondition_holds list_all_iff)
next
  case (Or cs)
  then show ?case by (auto simp: orCondition_holds list_all_iff list_ex_iff)
next
  case (In f vs)
  then show ?case using inCondition_holds [of f vs t oid] by auto
qed (auto simp: to_mongo_defs list_ex_iff dest: plain_field_no_operator)

lemma convert_idem:
  "convertToMongoObject oid (convertToMongoObject oid v) = convertToMongoObject oid v"
  by (cases v) (auto split: option.splits)

lemma mongo_value_idem: "mongo_value oid f (mongo_value oid f v) = mongo_value oid f v"
  by (simp add: mongo_value_def convert_idem)

lemma ToMongo_store_converted: "ToMongo oid (store_converted oid c) = ToMongo oid c"
  by (induction c) (simp_all add: to_mongo_defs mongo_value_idem comp_def cong: map_cong split: option.split)

section \<open>PostgreSQL\<close>

definition is_digit :: "char \<Rightarrow> bool" where
  "is_digit c \<longleftrightarrow> 48 \<le> (of_char c :: nat) \<and> (of_char c :: nat) \<le> 57"

definition dec_val :: "string \<Rightarrow> nat" where
  "dec_val s = foldl (\<lambda>a c. 10 * a + (of_char c - 48)) 0 s"

text \<open>The parameter numbers of a clause, in the order of their occurrence in the text.\<close>

function sql_params :: "string \<Rightarrow> nat list" where
  "sql_params [] = []"
| "sql_params (c # cs) =
     (if c = CHR ''$'' then dec_val (takeWhile is_digit cs) # sql_params (dropWhile is_digit cs)
      else sql_params cs)"
  by pat_completeness auto
termination by (relation "measure length") (auto simp: le_imp_less_Suc length_dropWhile_le)

text \<open>The values a condition binds, left to right.\<close>

fun bound_values :: "condition \<Rightarrow> qvalue list" where
  "bound_values (Eq f v) = (if v = VNil then [] else [jsonTextComparisonValue f v])"
| "bound_values (Ne f v) = (if v = VNil then [] else [jsonTextComparisonValue f v])"
| "bound_values (Gt f v) = [v]"
| "bound_values (Gte f v) = [v]"
| "bound_values (Lt f v) = [v]"
| "bound_values (Lte f v) = [v]"
| "bound_values (In f vs) = map (jsonTextComparisonValue f) vs"
| "bound_values (And cs) = concat (map bound_values cs)"
| "bound_values (Or cs) = concat (map bound_values cs)"

text \<open>Text that does not begin with a digit cannot extend a parameter number before it.\<close>

definition no_digit_start :: "string \<Rightarrow> bool" where
  "no_digit_start b \<longleftrightarrow> (case b of [] \<Rightarrow> True | c # _ \<Rightarrow> \<not> is_digit c)"

lemma takeWhile_append_stop:
  "no_digit_start b \<Longrightarrow> takeWhile is_digit (a @ b) = takeWhile is_digit a"
  by (induction a) (auto simp: no_digit_start_def split: list.splits)

lemma dropWhile_append_stop:
  "no_digit_start b \<Longrightarrow> dropWhile is_digit (a @ b) = dropWhile is_digit a @ b"
  by (induction a) (auto simp: no_digit_start_def split: list.splits)

lemma sql_params_append:
  "no_digit_start b \<Longrightarrow> sql_params (a @ b) = sql_params a @ sql_params b"
  by (induction a rule: sql_params.induct) (simp_all add: takeWhile_append_stop dropWhile_append_stop)

lemma sql_params_none: "CHR ''$'' \<notin> set a \<Longrightarrow> sql_params a = []"
  by (induction a) auto

lemma sql_params_skip: "CHR ''$'' \<notin> set a \<Longrightarrow> sql_params (a @ b) = sql_params b"
  by (induction a) auto

lemma digit_char_is_digit: "d < 10 \<Longrightarrow> is_digit (digit_char d) \<and> of_char (digit_char d) = 48 + d"
  by (simp add: is_digit_def digit_char_def of_char_of take_bit_eq_mod)

lemma fmt_nat_digits: "list_all is_digit (fmt_nat n) \<and> dec_val (fmt_nat n) = n"
proof (induction n rule: fmt_nat.induct)
  case (1 n)
  show ?case
  proof (cases "n < 10")
    case True
    then show ?thesis
      by (simp add: fmt_nat.simps [of n] digit_char_is_digit dec_val_def)
  next
    case False
    with 1 show ?thesis
      using digit_char_is_digit [of "n mod 10"] by (simp add: fmt_nat.simps [of n] dec_val_def)
  qed
qed

lemma sql_params_placeholder: "sql_params (placeholder n) = [n]"
proof -
  have "takeWhile is_digit (fmt_nat n) = fmt_nat n" "dropWhile is_digit (fmt_nat n) = []"
    using fmt_nat_digits [of n]
    by (simp_all add: list_all_iff takeWhile_eq_all_conv dropWhile_eq_Nil_conv)
  then show ?thesis using fmt_nat_digits [of n] by (simp add: placeholder_def del: takeWhile_eq_all_conv dropWhile_eq_Nil_conv)
qed

lemma no_digit_start_placeholder: "no_digit_start (placeholder n @ b)"
  by (simp add: no_digit_start_def placeholder_def is_digit_def)

subsection \<open>Field expressions contain no parameter\<close>

lemma to_lower_dollar: "to_lower c = CHR ''$'' \<longleftrightarrow> c = CHR ''$''"
proof (cases "is_upper c")
  case True
  then have up: "65 \<le> (of_char c :: nat)" "(of_char c :: nat) \<le> 90"
    by (auto simp: is_upper_def)
  then have "(of_char (to_lower c) :: nat) = of_char c + 32"
    using True by (simp add: to_lower_def of_char_of take_bit_eq_mod)
  with up have "(of_char (to_lower c) :: nat) \<noteq> 36" "(of_char c :: nat) \<noteq> 36" by arith+
  then have "to_lower c \<noteq> CHR ''$''" "c \<noteq> CHR ''$''" by auto
  then show ?thesis by simp
qed (simp add: to_lower_def)

lemma plain_Nil [simp]: "plain_field []"
  by (simp add: plain_field_def)

lemma plain_Cons [simp]: "plain_field (c # s) \<longleftrightarrow> c \<noteq> CHR ''$'' \<and> plain_field s"
  by (auto simp: plain_field_def)

lemma plain_append: "plain_field (a @ b) \<longleftrightarrow> plain_field a \<and> plain_field b"
  by (auto simp: plain_field_def)

lemma plain_ToLower: "plain_field s \<Longrightarrow> plain_field (ToLower s)"
  by (induction s) (simp_all add: ToLower_def to_lower_dollar)

lemma plain_snake_rest: "plain_field s \<Longrightarrow> plain_field (snake_rest s)"
  by (induction s) (simp_all add: to_lower_dollar)

lemma plain_toSnakeCase: "plain_field s \<Longrightarrow> plain_field (toSnakeCase s)"
  by (cases s) (simp_all add: to_lower_dollar plain_snake_rest)

lemma plain_split_on: "plain_field s \<Longrightarrow> p \<in> set (split_on sep s) \<Longrightarrow> plain_field p"
  by (induction s arbitrary: p) (auto simp: plain_field_def split: if_splits list.splits)

lemma split_on_nonempty [simp]: "split_on sep s \<noteq> []"
  by (induction s) (auto split: list.splits)

lemma plain_quote: "plain_field p \<Longrightarrow> plain_field (quote p)"
  by (simp add: plain_field_def quote_def)

lemma plain_json_path: "(\<forall>p \<in> set parts. plain_field p) \<Longrightarrow> plain_field (json_path parts)"
  by (auto simp: json_path_def plain_field_def quote_def)

lemma plain_toCamelCase: "plain_field s \<Longrightarrow> plain_field (toCamelCase s)"
  by (simp add: toCamelCase_def)

lemma plain_dual_case:
  assumes "\<forall>p \<in> set parts. plain_field p" and "parts \<noteq> []"
  shows "plain_field (buildDualCaseJSONBPath parts)"
proof -
  have "plain_field (json_path (butlast parts))"
    using assms by (intro plain_json_path) (auto dest: in_set_butlastD)
  moreover have "plain_field (ToLower (last parts))"
    using assms by (intro plain_ToLower) auto
  moreover have "plain_field ''COALESCE(''" "plain_field ''->>''" "plain_field '', ''" "plain_field '')''"
    by (simp_all add: plain_field_def)
  ultimately show ?thesis
    by (simp only: buildDualCaseJSONBPath_def Let_def plain_append plain_quote plain_toCamelCase simp_thms)
qed

lemma plain_mongoFieldToJSONB:
  assumes "plain_field f"
  shows "plain_field (mongoFieldToJSONB f)"
proof (cases "CHR ''.'' \<in> set f")
  case False
  with assms show ?thesis
    by (simp add: mongoFieldToJSONB_def Let_def plain_append plain_quote plain_toSnakeCase)
next
  case True
  let ?parts = "split_on (CHR ''.'') f"
  have parts: "\<forall>p \<in> set ?parts. plain_field p" using assms plain_split_on by blast
  then have "plain_field (json_path (butlast ?parts))" "plain_field (last ?parts)"
    by (auto intro!: plain_json_path dest: in_set_butlastD)
  moreover have "plain_field ''->>''" by (simp add: plain_field_def)
  ultimately show ?thesis
    using True parts by (simp add: mongoFieldToJSONB_def Let_def plain_append plain_quote plain_dual_case)
qed

subsection \<open>Numbering\<close>

text \<open>A separator between the parts of a clause: it holds no parameter and ends numbers.\<close>

definition separator :: "string \<Rightarrow> bool" where
  "separator sep \<longleftrightarrow> sep \<noteq> [] \<and> plain_field sep \<and> no_digit_start sep"

lemma separator_params: "separator sep \<Longrightarrow> sql_params (a @ sep @ b) = sql_params a @ sql_params b"
proof -
  assume sep: "separator sep"
  then have "no_digit_start (sep @ b)"
    by (cases sep) (auto simp: separator_def no_digit_start_def)
  then have "sql_params (a @ sep @ b) = sql_params a @ sql_params (sep @ b)"
    by (rule sql_params_append)
  with sep show ?thesis by (simp add: sql_params_skip separator_def plain_field_def)
qed

lemma params_join:
  "separator sep \<Longrightarrow> sql_params (join_with sep parts) = concat (map sql_params parts)"
  by (induction sep parts rule: join_with.induct) (simp_all add: separator_params)

lemma separators: "separator '', ''" "separator '' AND ''" "separator '' OR ''" "separator '')''"
  by (simp_all add: separator_def no_digit_start_def is_digit_def)

text \<open>
  The contract of one rendering: the clause mentions the parameters from the given number on,
  each once and in order, it returns the next free number, and the arguments are the values.
\<close>

definition numbered :: "(nat \<Rightarrow> string \<times> qvalue list \<times> nat) \<Rightarrow> qvalue list \<Rightarrow> bool" where
  "numbered toSQL vs \<longleftrightarrow> (\<forall>n. \<exists>sql. toSQL n = (sql, vs, n + length vs) \<and>
     sql_params sql = [n ..< n + length vs])"

lemma numbered_parts:
  assumes "list_all2 numbered fs vss"
  shows "\<exists>parts. number_parts fs n = (parts, concat vss, n + length (concat vss)) \<and>
     concat (map sql_params parts) = [n ..< n + length (concat vss)]"
  using assms
proof (induction fs vss arbitrary: n rule: list_all2_induct)
  case Nil
  then show ?case by simp
next
  case (Cons f fs vs vss)
  from Cons.hyps(1) obtain sql where f: "f n = (sql, vs, n + length vs)"
    and sql: "sql_params sql = [n ..< n + length vs]" unfolding numbered_def by blast
  from Cons.IH obtain parts where parts: "number_parts fs (n + length vs) =
      (parts, concat vss, n + length vs + length (concat vss))"
    and ps: "concat (map sql_params parts) = [n + length vs ..< n + length vs + length (concat vss)]"
    by blast
  have "sql_params (''('' @ sql @ '')'') = sql_params sql"
    using separator_params [OF separators(4), of sql "[]"] by simp
  then have one: "concat (map sql_params ((''('' @ sql @ '')'') # parts)) =
      [n ..< n + length vs] @ [n + length vs ..< n + length vs + length (concat vss)]"
    by (simp only: list.map concat.simps ps sql)
  have "number_parts (f # fs) n =
      ((''('' @ sql @ '')'') # parts, vs @ concat vss, n + length vs + length (concat vss))"
    by (simp only: number_parts.simps f parts Let_def prod.case)
  moreover have "[n ..< n + length vs] @ [n + length vs ..< n + length vs + length (concat vss)] =
      [n ..< n + length (concat (vs # vss))]"
    using upt_add_eq_append [of n "n + length vs" "length (concat vss)"] by (simp add: add.assoc)
  ultimately show ?case using one by (simp only: concat.simps length_append add.assoc) blast
qed

lemma params_skip_plain: "plain_field a \<Longrightarrow> sql_params (a @ b) = sql_params b"
  by (simp add: sql_params_skip plain_field_def)

lemma numbered_bind:
  assumes "plain_field f" and "plain_field op"
  shows "numbered (\<lambda>n. bind_one f op v n) [v]"
proof -
  have "sql_params (mongoFieldToJSONB f @ op @ placeholder n) = [n]" for n
    using assms by (simp only: params_skip_plain plain_mongoFieldToJSONB sql_params_placeholder)
  then show ?thesis unfolding numbered_def bind_one_def by simp
qed

lemma numbered_null:
  assumes "plain_field f" and "plain_field s"
  shows "numbered (\<lambda>n. (mongoFieldToJSONB f @ s, [], n)) []"
proof -
  have "plain_field (mongoFieldToJSONB f @ s)"
    using assms by (simp add: plain_append plain_mongoFieldToJSONB)
  then show ?thesis by (simp add: numbered_def sql_params_none plain_field_def)
qed

lemma numbered_in:
  assumes "plain_field f"
  shows "numbered (ToSQL (In f vs)) (bound_values (In f vs))"
proof -
  have "sql_params (mongoFieldToJSONB f @ '' IN ('' @ ps @ '')'') = sql_params ps" for ps
    using separator_params [OF separators(4), of ps "[]"] params_skip_plain [of "'' IN (''" "ps @ '')''"]
    by (simp add: params_skip_plain plain_mongoFieldToJSONB assms)
  moreover have "concat (map (\<lambda>n. [n]) ns) = ns" for ns :: "nat list" by (induction ns) auto
  ultimately show ?thesis
    by (simp add: numbered_def inCondition_ToSQL_def params_join separators(1) comp_def
        sql_params_placeholder)
qed

text \<open>The comparisons as functions of the first parameter number.\<close>

lemma ToSQL_fun:
  "ToSQL (Eq f v) = (if v = VNil then (\<lambda>n. (mongoFieldToJSONB f @ '' IS NULL'', [], n))
     else (\<lambda>n. bind_one f '' = '' (jsonTextComparisonValue f v) n))"
  "ToSQL (Ne f v) = (if v = VNil then (\<lambda>n. (mongoFieldToJSONB f @ '' IS NOT NULL'', [], n))
     else (\<lambda>n. bind_one f '' != '' (jsonTextComparisonValue f v) n))"
  "ToSQL (Gt f v) = (\<lambda>n. bind_one f '' > '' v n)"
  "ToSQL (Gte f v) = (\<lambda>n. bind_one f '' >= '' v n)"
  "ToSQL (Lt f v) = (\<lambda>n. bind_one f '' < '' v n)"
  "ToSQL (Lte f v) = (\<lambda>n. bind_one f '' <= '' v n)"
  by (simp_all add: fun_eq_iff to_sql_defs)

lemma ToSQL_numbered: "plain c \<Longrightarrow> numbered (ToSQL c) (bound_values c)"
proof (induction c)
  case (And cs)
  then have "list_all2 numbered (map ToSQL cs) (map bound_values cs)"
    by (simp add: list_all2_map1 list_all2_map2 list_all2_same list_all_iff)
  note parts = numbered_parts [OF this]
  show ?case
    unfolding numbered_def
  proof
    fix n
    show "\<exists>sql. ToSQL (And cs) n = (sql, bound_values (And cs), n + length (bound_values (And cs))) \<and>
        sql_params sql = [n ..< n + length (bound_values (And cs))]"
      using parts [of n] by (cases "cs = []") (auto simp: andCondition_ToSQL_def params_join separators(2))
  qed
next
  case (Or cs)
  then have "list_all2 numbered (map ToSQL cs) (map bound_values cs)"
    by (simp add: list_all2_map1 list_all2_map2 list_all2_same list_all_iff)
  note parts = numbered_parts [OF this]
  show ?case
    unfolding numbered_def
  proof
    fix n
    show "\<exists>sql. ToSQL (Or cs) n = (sql, bound_values (Or cs), n + length (bound_values (Or cs))) \<and>
        sql_params sql = [n ..< n + length (bound_values (Or cs))]"
      using parts [of n] by (cases "cs = []") (auto simp: orCondition_ToSQL_def params_join separators(3))
  qed
next
  case (In f vs)
  then have "plain_field f" by simp
  then show ?case by (rule numbered_in)
qed (simp_all only: ToSQL_fun numbered_bind numbered_null bound_values.simps plain.simps split: if_split, simp_all add: numbered_bind numbered_null)

section \<open>Which comparisons read text\<close>

lemma snake_rest_dot: "CHR ''.'' \<in> set s \<Longrightarrow> CHR ''.'' \<in> set (snake_rest s)"
  by (induction s) (auto simp: is_upper_def)

lemma toSnakeCase_dot: "CHR ''.'' \<in> set s \<Longrightarrow> CHR ''.'' \<in> set (toSnakeCase s)"
  by (cases s) (auto simp: to_lower_def is_upper_def intro: snake_rest_dot)

lemma column_fields_no_dot: "isColumnField s \<Longrightarrow> CHR ''.'' \<notin> set s"
  by (auto simp: isColumnField_def column_fields_def mongoIDFieldName_def)

lemma json_text_not_column:
  "s = CHR ''d'' # CHR ''o'' # r \<or> s = CHR ''C'' # r \<Longrightarrow> \<not> isColumnField s"
  by (auto simp: isColumnField_def column_fields_def mongoIDFieldName_def)

lemma mongoFieldToJSONB_column:
  "isColumnField (mongoFieldToJSONB f) \<longleftrightarrow> isColumnField (toSnakeCase f)"
proof (cases "CHR ''.'' \<in> set f")
  case True
  then have "\<not> isColumnField (toSnakeCase f)"
    using toSnakeCase_dot column_fields_no_dot by blast
  moreover have "\<not> isColumnField (mongoFieldToJSONB f)"
    using True by (simp add: mongoFieldToJSONB_def Let_def json_path_def
        buildDualCaseJSONBPath_def json_text_not_column)
  ultimately show ?thesis by simp
next
  case False
  have "isColumnField ''id''" "isColumnField mongoIDFieldName"
    by (simp_all add: isColumnField_def column_fields_def)
  with False show ?thesis
    by (simp add: mongoFieldToJSONB_def Let_def json_text_not_column)
qed

section \<open>Properties\<close>

text \<open>
  C4. The MongoDB filter of a condition on ordinary field names, without an empty disjunction and
  without an empty list of document ids, matches a document exactly when the condition holds
  of it, whatever the database does for a single field: merging the operands of a
  conjunction into one document and the fallback to \<^verbatim>\<open>$and\<close> never lose or add a conjunct.
  Rendering the condition that an earlier call changed in place gives the same filter.
\<close>

theorem to_mongo_meaning:
  assumes "plain c" and "has_operands c"
  shows "(holds_filter t (Builder_ToMongo oid (Build c New)) \<longleftrightarrow> cond_holds oid t c) \<and>
    Builder_ToMongo oid (Build (store_converted oid c) New) = Builder_ToMongo oid (Build c New)"
  using ToMongo_holds [OF assms] ToMongo_store_converted
  by (simp_all add: Builder_ToMongo_def Build_def New_def)

definition ex_query :: condition where
  "ex_query = And [In ''_id'' [VString ''ab''], And [Eq ''_id'' (VString ''ab''), Eq ''_id'' (VString ''cd'')],
     Or [Gt ''createdAt'' (VTime 5), In ''status'' [VInt 3, VNil]], Gte ''createdAt'' (VTime 2)]"

definition ex_oid :: "string \<Rightarrow> string option" where
  "ex_oid s = (if s = ''ab'' then Some ''obj'' else None)"

theorem to_mongo_meaning_witness:
  "holds_filter (\<lambda>op f v. f \<noteq> ''_id'' \<or> v = VObjectID ''obj'') (Builder_ToMongo ex_oid (Build ex_query New)) \<longleftrightarrow>
     False"
  using to_mongo_meaning [of ex_query "\<lambda>op f v. f \<noteq> ''_id'' \<or> v = VObjectID ''obj''" ex_oid]
  by (simp add: ex_query_def ex_oid_def mongo_value_def mongoIDFieldName_def)

text \<open>
  The PostgreSQL clause of a condition on ordinary fields, rendered from parameter
  \<^verbatim>\<open>n\<close>, mentions the parameters \<^verbatim>\<open>n, n+1, ...\<close> each exactly once and in order, and its
  argument list holds exactly the values the condition binds, left to right, so every
  placeholder is bound to its own value and none is left over.
\<close>

theorem to_sql_parameters:
  assumes "plain c" and "ToSQLWithOffset (Build c New) n = (sql, args)"
  shows "args = bound_values c \<and> sql_params sql = [n ..< n + length args] \<and>
    snd (snd (ToSQL c n)) = n + length args"
  using assms ToSQL_numbered [OF assms(1)]
  by (auto simp: numbered_def ToSQLWithOffset_def Build_def New_def split: prod.splits)
     (metis Pair_inject)+

theorem to_sql_parameters_witness:
  "snd (snd (ToSQL ex_query 4)) = 11 \<and>
   sql_params (fst (ToSQLWithOffset (Build ex_query New) 4)) = [4, 5, 6, 7, 8, 9, 10]"
proof -
  have "plain ex_query" and "length (bound_values ex_query) = 7"
    by (simp_all add: ex_query_def)
  with to_sql_parameters [of ex_query 4 "fst (ToSQLWithOffset (Build ex_query New) 4)"
      "snd (ToSQLWithOffset (Build ex_query New) 4)"]
  have "snd (snd (ToSQL ex_query 4)) = 11 \<and>
      sql_params (fst (ToSQLWithOffset (Build ex_query New) 4)) = [4 ..< 11]" by auto
  moreover have "[4 ..< 11] = [4, 5, 6, 7, 8, 9, 10 :: nat]" by (simp add: upt_rec)
  ultimately show ?thesis by (simp only: simp_thms)
qed

text \<open>
  An equality on a scalar binds the value itself exactly when the clause compares a table
  column, and its text when the clause extracts text from the JSON document, so PostgreSQL
  never compares text with a number.
\<close>

theorem equality_argument_type:
  assumes "v = VBool b \<or> v = VInt i \<or> v = VFloat s"
    and "ToSQL (Eq f v) n = (sql, args, m)"
  shows "\<exists>w. args = [w] \<and> sql = mongoFieldToJSONB f @ '' = '' @ placeholder n \<and>
    (w = v \<longleftrightarrow> isColumnField (mongoFieldToJSONB f)) \<and>
    (isColumnField (mongoFieldToJSONB f) \<or> (\<exists>text. w = VString text))"
  using assms
  by (auto simp: to_sql_defs bind_one_def jsonTextComparisonValue_def mongoFieldToJSONB_column split: if_splits)

theorem equality_argument_type_witness:
  "snd (ToSQL (Eq ''healthevent.version'' (VInt 7)) 1) = ([VString ''7''], 2) \<and>
   \<not> isColumnField (mongoFieldToJSONB ''healthevent.version'')"
proof -
  have "digit_char 7 = CHR ''7''" by code_simp
  then have sql: "snd (ToSQL (Eq ''healthevent.version'' (VInt 7)) 1) = ([VString ''7''], 2)"
    by (simp add: to_sql_defs bind_one_def jsonTextComparisonValue_def
      isColumnField_def column_fields_def is_upper_def to_lower_def mongoIDFieldName_def
      fmt_int_def fmt_nat.simps)
  then have "ToSQL (Eq ''healthevent.version'' (VInt 7)) 1 =
      (fst (ToSQL (Eq ''healthevent.version'' (VInt 7)) 1), [VString ''7''], 2)"
    by (metis prod.collapse)
  from equality_argument_type [OF _ this, of False 7 "[]"] sql show ?thesis by auto
qed

text \<open>
  An empty disjunction is not covered by the first property: its filter matches every
  document, while its clause is \<^verbatim>\<open>FALSE\<close>.
\<close>

lemma empty_or_differs:
  "holds_filter t (Builder_ToMongo oid (Build (Or []) New)) \<and> \<not> cond_holds oid t (Or []) \<and>
   Builder_ToSQL (Build (Or []) New) = (''FALSE'', [])"
  by (simp add: to_mongo_defs to_sql_defs Builder_ToMongo_def Builder_ToSQL_def ToSQLWithOffset_def Build_def New_def)

text \<open>
  Nor is an empty list of document ids: the slice that is rebuilt for them stays nil, and the filter asks
  for \<^verbatim>\<open>$in: null\<close>, which MongoDB refuses.
\<close>

lemma empty_ids_send_null:
  "Builder_ToMongo oid (Build (In ''_id'' []) New) = [(''_id'', MDoc [(''$in'', MVal VNil)])] \<and>
   Builder_ToMongo oid (Build (In ''status'' []) New) = [(''status'', MDoc [(''$in'', MArr [])])]"
  by (simp add: to_mongo_defs mongo_slice_def mongoIDFieldName_def Builder_ToMongo_def Build_def New_def)

end
