(* ===== verification/Go_Error.thy ===== *)
theory Go_Error
  imports Main
begin

text \<open>
  Go errors as the code builds them: a plain error, the two context sentinels, an error
  wrapped with \<^verbatim>\<open>fmt.Errorf("...: %w", err)\<close>, the results of \<^verbatim>\<open>errors.Join\<close> and of
  hashicorp/go-multierror, the marker \<^verbatim>\<open>permanentError\<close> of the cold start, and a status error of
  the Kubernetes API with its reason. A nil error is the absence of a value of this type.
\<close>

datatype error =
    EText string
  | ECanceled
  | EDeadlineExceeded
  | EWrap string error
  | EJoin "error list"
  | EMulti "error list"
  | EPermanent error
  | EStatus string

text \<open>\<^verbatim>\<open>errors.Is\<close> walks the whole tree; a multierror unwraps to the chain of its errors.\<close>

fun error_is :: "error \<Rightarrow> error \<Rightarrow> bool" where
  "error_is (EWrap s e) target = (EWrap s e = target \<or> error_is e target)"
| "error_is (EPermanent e) target = (EPermanent e = target \<or> error_is e target)"
| "error_is (EJoin es) target = (EJoin es = target \<or> list_ex (\<lambda>e. error_is e target) es)"
| "error_is (EMulti es) target = (EMulti es = target \<or> list_ex (\<lambda>e. error_is e target) es)"
| "error_is e target = (e = target)"

definition context_done :: "error \<Rightarrow> bool" where
  "context_done e \<longleftrightarrow> error_is e ECanceled \<or> error_is e EDeadlineExceeded"

text \<open>
  \<^verbatim>\<open>errors.IsConflict\<close> and its siblings of \<^verbatim>\<open>k8s.io/apimachinery/pkg/api/errors\<close> read the
  reason of the first status error that \<^verbatim>\<open>errors.As\<close> finds, looking through wrapped errors.
\<close>

fun status_reason :: "error \<Rightarrow> string option" where
  "status_reason (EStatus r) = Some r"
| "status_reason (EWrap s e) = status_reason e"
| "status_reason (EPermanent e) = status_reason e"
| "status_reason (EJoin es) = (case filter (\<lambda>r. r \<noteq> None) (map status_reason es) of [] \<Rightarrow> None | r # _ \<Rightarrow> r)"
| "status_reason (EMulti es) = (case filter (\<lambda>r. r \<noteq> None) (map status_reason es) of [] \<Rightarrow> None | r # _ \<Rightarrow> r)"
| "status_reason _ = None"

definition IsConflict :: "error \<Rightarrow> bool" where
  "IsConflict e \<longleftrightarrow> status_reason e = Some ''Conflict''"

definition IsNotFound :: "error \<Rightarrow> bool" where
  "IsNotFound e \<longleftrightarrow> status_reason e = Some ''NotFound''"

lemma IsConflict_wrap [simp]: "IsConflict (EWrap s e) = IsConflict e"
  by (simp add: IsConflict_def)

lemma IsConflict_text [simp]: "\<not> IsConflict (EText s)"
  by (simp add: IsConflict_def)

lemma context_done_wrap [simp]: "context_done (EWrap s e) = context_done e"
  by (simp add: context_done_def)

end
