(* ===== verification/Supersession.thy ===== *)
theory Supersession
  imports Residual_Rectangles Health_Event Query_Builder Go_Error
begin

text \<open>
  Supersession of stored health events at cold start
  (\<^verbatim>\<open>fault-quarantine/pkg/coldstart/supersession.go\<close>): which effects of a stored event newer
  events of the same check have already replaced, which stored annotation effects its replay
  may touch, and the residual events the rules are evaluated on.

  A time is the number of nanoseconds since Go's zero time, so \<^verbatim>\<open>t.IsZero()\<close> is \<^verbatim>\<open>t = 0\<close>. The
  decoding of a raw document (its event and its id) is a record of functions, and a scan of
  the store is the sequence of batches it delivers followed by its own error, if any. The
  context value under \<^verbatim>\<open>recoveryEffectsContextKey\<close> is an optional coverage.
\<close>

section \<open>Stored records\<close>

record 'raw stored_record =
  CreatedAt :: int
  RawEvent :: "'raw option"
  RebuiltEvent :: 'raw

text \<open>
  \<^verbatim>\<open>eventutil.ParseHealthEventFromEvent\<close> gives the event (nil when the document has none) or
  an error; \<^verbatim>\<open>utils.ExtractDocumentID\<close> gives the id in its string form, and
  \<^verbatim>\<open>utils.ExtractDocumentIDNative\<close> in the form the datastore uses.
\<close>

record 'raw codec =
  ParseHealthEvent :: "'raw \<Rightarrow> error + health_event option"
  ExtractDocumentID :: "'raw option \<Rightarrow> error + string"
  ExtractDocumentIDNative :: "'raw option \<Rightarrow> error + qvalue"

type_synonym 'raw scan = "'raw stored_record list list \<times> error option"

definition parseStoredRecord :: "'raw codec \<Rightarrow> 'raw stored_record \<Rightarrow> error + health_event option" where
  "parseStoredRecord cd record =
     ParseHealthEvent cd (case RawEvent record of Some raw \<Rightarrow> raw | None \<Rightarrow> RebuiltEvent record)"

section \<open>Identity and order\<close>

record eventIdentity =
  id_agent :: string
  id_componentClass :: string
  id_checkName :: string
  id_nodeName :: string
  id_version :: "32 word"

record eventPosition =
  pos_createdAt :: int
  pos_id :: string

definition identityFor :: "health_event \<Rightarrow> eventIdentity" where
  "identityFor event = \<lparr>id_agent = Agent event, id_componentClass = ComponentClass event,
     id_checkName = CheckName event, id_nodeName = NodeName event, id_version = Version event\<rparr>"

definition eventAfter :: "eventPosition \<Rightarrow> int \<Rightarrow> string \<Rightarrow> bool" where
  "eventAfter event createdAt docid =
     (if pos_createdAt event = createdAt then pos_id event > docid else pos_createdAt event > createdAt)"

section \<open>Coverage\<close>

record eventCoverage =
  checkWide :: bool
  candidateHealthy :: bool
  candidateCodeWildcard :: bool
  remaining :: "eventEffect list"
  shadowing :: "health_event list"
  projected :: bool

definition normalizedErrorCodes :: "string list \<Rightarrow> string list" where
  "normalizedErrorCodes errorCodes = (if errorCodes = [] then [[]] else errorCodes)"

definition mk_effect :: "string \<Rightarrow> string \<Rightarrow> string \<Rightarrow> eventEffect" where
  "mk_effect ty vl code = \<lparr>ef_entityType = ty, ef_entityValue = vl, ef_errorCode = code\<rparr>"

definition newEventCoverage :: "health_event \<Rightarrow> eventCoverage" where
  "newEventCoverage event =
     (let errorCodes = normalizedErrorCodes (ErrorCode event);
          wide = (EntitiesImpacted event = []);
          effects = (if wide then map (mk_effect [] []) errorCodes
            else concat (map (\<lambda>e. map (mk_effect (EntityType e) (EntityValue e)) errorCodes)
                   (EntitiesImpacted event)))
      in \<lparr>checkWide = wide, candidateHealthy = IsHealthy event,
          candidateCodeWildcard = (IsHealthy event \<and> ErrorCode event = []),
          remaining = fold List.insert effects [], shadowing = [], projected = False\<rparr>)"

definition identityFullyCoveredBy :: "eventCoverage \<Rightarrow> eventEffect \<Rightarrow> health_event \<Rightarrow> bool" where
  "identityFullyCoveredBy c candidate newer =
     (if checkWide c then
        (if candidateHealthy c then IsHealthy newer \<and> EntitiesImpacted newer = []
         else EntitiesImpacted newer = [])
      else if EntitiesImpacted newer = [] then IsHealthy newer
      else list_ex (\<lambda>e. ef_entityType candidate = EntityType e \<and> ef_entityValue candidate = EntityValue e)
             (EntitiesImpacted newer))"

definition newerIdentityCanShadow :: "eventCoverage \<Rightarrow> eventEffect \<Rightarrow> health_event \<Rightarrow> bool" where
  "newerIdentityCanShadow c candidate newer =
     (if checkWide c then True
      else if EntitiesImpacted newer = [] then IsHealthy newer
      else list_ex (\<lambda>e. ef_entityType candidate = EntityType e \<and> ef_entityValue candidate = EntityValue e)
             (EntitiesImpacted newer))"

definition errorCodeFullyCoveredBy :: "eventCoverage \<Rightarrow> string \<Rightarrow> health_event \<Rightarrow> bool" where
  "errorCodeFullyCoveredBy c candidate newer =
     (if candidateCodeWildcard c \<and> candidate = [] then IsHealthy newer \<and> ErrorCode newer = []
      else list_ex (\<lambda>errorCode. candidate = errorCode \<or> (IsHealthy newer \<and> ErrorCode newer = []))
             (normalizedErrorCodes (ErrorCode newer)))"

definition newerCanShadowCandidate :: "eventCoverage \<Rightarrow> health_event \<Rightarrow> bool" where
  "newerCanShadowCandidate c newer =
     list_ex (\<lambda>candidate. newerIdentityCanShadow c candidate newer \<and>
        (candidateCodeWildcard c \<or> errorCodeFullyCoveredBy c (ef_errorCode candidate) newer)) (remaining c)"

definition covered_by :: "eventCoverage \<Rightarrow> health_event \<Rightarrow> eventEffect \<Rightarrow> bool" where
  "covered_by c event candidate =
     (identityFullyCoveredBy c candidate event \<and> errorCodeFullyCoveredBy c (ef_errorCode candidate) event)"

text \<open>\<^verbatim>\<open>add\<close> returns the updated coverage and whether nothing remains.\<close>

definition add_shadow :: "health_event \<Rightarrow> eventCoverage \<Rightarrow> eventCoverage" where
  "add_shadow event c =
     (if candidateHealthy c \<and> newerCanShadowCandidate c event
      then c\<lparr>shadowing := shadowing c @ [event], projected := True\<rparr> else c)"

definition remove_covered :: "health_event \<Rightarrow> eventCoverage \<Rightarrow> eventCoverage" where
  "remove_covered event c =
     c\<lparr>remaining := filter (\<lambda>f. \<not> covered_by c event f) (remaining c),
       projected := projected c \<or> list_ex (covered_by c event) (remaining c)\<rparr>"

definition add :: "eventCoverage \<Rightarrow> health_event \<Rightarrow> eventCoverage \<times> bool" where
  "add c event = (let c' = remove_covered event (add_shadow event c) in (c', remaining c' = []))"

definition hasRemainingEffect :: "eventCoverage \<Rightarrow> eventEffect \<Rightarrow> bool" where
  "hasRemainingEffect c effect =
     list_ex (\<lambda>r. ((checkWide c \<and> candidateHealthy c) \<or>
          (ef_entityType r = ef_entityType effect \<and> ef_entityValue r = ef_entityValue effect)) \<and>
        (ef_errorCode r = ef_errorCode effect \<or> (candidateCodeWildcard c \<and> ef_errorCode r = [])))
       (remaining c)"

definition newerIdentityShadowsStoredEffect :: "eventEffect \<Rightarrow> health_event \<Rightarrow> bool" where
  "newerIdentityShadowsStoredEffect effect newer =
     (if EntitiesImpacted newer = []
      then IsHealthy newer \<or> (ef_entityType effect = [] \<and> ef_entityValue effect = [])
      else list_ex (\<lambda>e. ef_entityType effect = EntityType e \<and> ef_entityValue effect = EntityValue e)
             (EntitiesImpacted newer))"

definition newerCodeShadowsStoredEffect :: "string \<Rightarrow> health_event \<Rightarrow> bool" where
  "newerCodeShadowsStoredEffect candidateCode newer =
     list_ex (\<lambda>newerCode. newerCode = candidateCode \<or> (IsHealthy newer \<and> ErrorCode newer = []))
       (normalizedErrorCodes (ErrorCode newer))"

definition newerShadowsStoredEffect :: "eventEffect \<Rightarrow> health_event \<Rightarrow> bool" where
  "newerShadowsStoredEffect effect newer =
     (newerIdentityShadowsStoredEffect effect newer \<and>
      newerCodeShadowsStoredEffect (ef_errorCode effect) newer)"

definition isShadowed :: "eventCoverage \<Rightarrow> eventEffect \<Rightarrow> bool" where
  "isShadowed c effect = list_ex (newerShadowsStoredEffect effect) (shadowing c)"

definition allows :: "eventCoverage \<Rightarrow> eventEffect \<Rightarrow> bool" where
  "allows c effect =
     (if \<not> hasRemainingEffect c effect then False
      else \<not> candidateHealthy c \<or> \<not> isShadowed c effect)"

section \<open>The recovery context\<close>

definition withRecoveryEffects :: "eventCoverage option \<Rightarrow> eventCoverage option \<Rightarrow> eventCoverage option" where
  "withRecoveryEffects ctx coverage = (case coverage of None \<Rightarrow> ctx | Some c \<Rightarrow> Some c)"

definition ShouldRecoverEffect :: "eventCoverage option \<Rightarrow> string \<Rightarrow> string \<Rightarrow> string \<Rightarrow> bool" where
  "ShouldRecoverEffect ctx entityType entityValue errorCode =
     (case ctx of None \<Rightarrow> True
      | Some coverage \<Rightarrow> allows coverage (mk_effect entityType entityValue errorCode))"

section \<open>Residual events\<close>

definition projectedErrorCodes :: "health_event \<Rightarrow> string list \<Rightarrow> string list" where
  "projectedErrorCodes event codes =
     (if length codes = 1 \<and> codes ! 0 = [] \<and> [] \<notin> set (ErrorCode event) then [] else codes)"

definition projectCheckWideHealthEvent :: "health_event \<Rightarrow> eventEffect list \<Rightarrow> health_event list" where
  "projectCheckWideHealthEvent event rem =
     [event\<lparr>EntitiesImpacted := [], ErrorCode := projectedErrorCodes event (sort (map ef_errorCode rem))\<rparr>]"

definition projectHealthEventRectangles :: "health_event \<Rightarrow> residualRectangle list \<Rightarrow> health_event list" where
  "projectHealthEventRectangles event rectangles =
     map (\<lambda>r. event\<lparr>EntitiesImpacted := map (\<lambda>e. \<lparr>EntityType = re_entityType e, EntityValue = re_entityValue e\<rparr>) (rr_entities r),
        ErrorCode := projectedErrorCodes event (rr_errorCodes r)\<rparr>) rectangles"

definition ProjectHealthEvent :: "eventCoverage option \<Rightarrow> health_event \<Rightarrow> health_event list" where
  "ProjectHealthEvent ctx event =
     (case ctx of None \<Rightarrow> [event]
      | Some coverage \<Rightarrow>
          if \<not> projected coverage \<or> remaining coverage = [] then [event]
          else if checkWide coverage then projectCheckWideHealthEvent event (remaining coverage)
          else (case maximalResidualRectangles (remaining coverage) of
                  None \<Rightarrow> [event]
                | Some rectangles \<Rightarrow> projectHealthEventRectangles event rectangles))"

section \<open>The scan of newer events\<close>

definition batchSize :: nat where
  "batchSize = 1000"

definition processableCondition :: condition where
  "processableCondition =
     (let strategy = VInt 1 in
      Or [Eq ''healthevent.processingstrategy'' strategy,
          Eq ''healthevent.processingStrategy'' strategy,
          And [Eq ''healthevent.processingstrategy'' VNil, Eq ''healthevent.processingStrategy'' VNil]])"

record supersessionResolver =
  until :: int

definition newSupersessionResolver :: "int \<Rightarrow> supersessionResolver" where
  "newSupersessionResolver t = \<lparr>until = t\<rparr>"

definition scan_condition :: "supersessionResolver \<Rightarrow> eventIdentity \<Rightarrow> int \<Rightarrow> condition" where
  "scan_condition r identity from_time =
     (let version = Eq ''healthevent.version'' (VInt (uint (id_version identity)));
          versionCondition = (if id_version identity = 0
            then Or [version, Eq ''healthevent.version'' VNil] else version);
          condition = And [Eq ''healthevent.agent'' (VString (id_agent identity)),
             Eq ''healthevent.componentclass'' (VString (id_componentClass identity)),
             Eq ''healthevent.checkname'' (VString (id_checkName identity)),
             Eq ''healthevent.nodename'' (VString (id_nodeName identity)),
             versionCondition,
             Gte ''createdAt'' (VTime from_time),
             processableCondition]
      in if until r \<noteq> 0 then And [condition, Lte ''createdAt'' (VTime (until r))] else condition)"

text \<open>
  The visitor over the delivered records; the flag is the sentinel error
  \<^verbatim>\<open>errSupersessionResolved\<close> that ends the scan.
\<close>

definition visit_record ::
  "'raw codec \<Rightarrow> health_event \<Rightarrow> int \<Rightarrow> string \<Rightarrow> 'raw stored_record \<Rightarrow> eventCoverage \<Rightarrow> eventCoverage \<times> bool" where
  "visit_record cd candidate createdAt documentID record coverage =
     (let docid = (case ExtractDocumentID cd (RawEvent record) of Inl _ \<Rightarrow> [] | Inr i \<Rightarrow> i) in
      if \<not> eventAfter \<lparr>pos_createdAt = CreatedAt record, pos_id = docid\<rparr> createdAt documentID
      then (coverage, False)
      else (case parseStoredRecord cd record of
              Inr (Some newer) \<Rightarrow> add coverage newer
            | _ \<Rightarrow> (coverage, IsHealthy candidate)))"

fun visit_records ::
  "('raw stored_record \<Rightarrow> eventCoverage \<Rightarrow> eventCoverage \<times> bool) \<Rightarrow> 'raw stored_record list \<Rightarrow>
   eventCoverage \<Rightarrow> eventCoverage \<times> bool" where
  "visit_records visit [] coverage = (coverage, False)"
| "visit_records visit (r # rs) coverage =
     (let (coverage', stop) = visit r coverage in
      if stop then (coverage', True) else visit_records visit rs coverage')"

fun visit_batches ::
  "('raw stored_record \<Rightarrow> eventCoverage \<Rightarrow> eventCoverage \<times> bool) \<Rightarrow> 'raw stored_record list list \<Rightarrow>
   eventCoverage \<Rightarrow> eventCoverage \<times> bool" where
  "visit_batches visit [] coverage = (coverage, False)"
| "visit_batches visit (b # bs) coverage =
     (let (coverage', stop) = visit_records visit b coverage in
      if stop then (coverage', True) else visit_batches visit bs coverage')"

definition scanNewerEvents ::
  "(Builder \<Rightarrow> nat \<Rightarrow> 'raw scan) \<Rightarrow> supersessionResolver \<Rightarrow> eventIdentity \<Rightarrow> int \<Rightarrow>
   ('raw stored_record \<Rightarrow> eventCoverage \<Rightarrow> eventCoverage \<times> bool) \<Rightarrow> eventCoverage \<Rightarrow>
   eventCoverage \<times> bool \<times> error option" where
  "scanNewerEvents findBatched r identity from_time visit coverage =
     (let (batches, err) = findBatched (Build (scan_condition r identity from_time) New) batchSize;
          (coverage', stop) = visit_batches visit batches coverage
      in (coverage', stop, if stop then None
          else map_option (EWrap (''failed to find health-event history for '' @ id_nodeName identity @
                 ''/'' @ id_checkName identity)) err))"

definition resolve ::
  "'raw codec \<Rightarrow> (Builder \<Rightarrow> nat \<Rightarrow> 'raw scan) \<Rightarrow> supersessionResolver \<Rightarrow> health_event option \<Rightarrow> int \<Rightarrow>
   string \<Rightarrow> error + (bool \<times> eventCoverage option)" where
  "resolve cd findBatched r candidate createdAt documentID =
     (case candidate of
        None \<Rightarrow> Inr (False, None)
      | Some event \<Rightarrow>
          if createdAt = 0 then Inr (False, None)
          else (let (coverage, resolved, err) =
                  scanNewerEvents findBatched r (identityFor event) createdAt
                    (visit_record cd event createdAt documentID) (newEventCoverage event)
                in case err of Some e \<Rightarrow> Inl e | None \<Rightarrow> Inr (resolved, Some coverage)))"

end
