(* ===== verification/Cold_Start.thy ===== *)
theory Cold_Start
  imports Supersession
begin

text \<open>
  The cold start of fault-quarantine (\<^verbatim>\<open>fault-quarantine/pkg/coldstart/coldstart.go\<close>): the
  replay of stored health events that were not handled before the change-stream position was
  lost, in a fault phase and a recovery phase.

  The state of everything outside (datastore, Kubernetes, context) is a value of type \<^verbatim>\<open>'w\<close>
  threaded through the calls. The event processor and the datastore are records of functions;
  a scan delivers a sequence of batches that may depend on the state at its start in any way.
  Log lines and metrics are left out.
\<close>

section \<open>Permanent errors\<close>

definition PermanentError :: "error option \<Rightarrow> error option" where
  "PermanentError err = map_option EPermanent err"

fun is_permanent :: "error \<Rightarrow> bool" where
  "is_permanent (EPermanent e) = True"
| "is_permanent (EMulti es) = (es \<noteq> [] \<and> list_all is_permanent es)"
| "is_permanent (EJoin es) = (es \<noteq> [] \<and> list_all is_permanent es)"
| "is_permanent (EWrap s e) = is_permanent e"
| "is_permanent _ = False"

definition IsPermanentError :: "error option \<Rightarrow> bool" where
  "IsPermanentError err = (case err of None \<Rightarrow> False | Some e \<Rightarrow> is_permanent e)"

definition allPermanentErrors :: "error list \<Rightarrow> bool" where
  "allPermanentErrors errs = (errs \<noteq> [] \<and> list_all (\<lambda>e. IsPermanentError (Some e)) errs)"

section \<open>The node snapshot of a replay\<close>

text \<open>A node is its status and everything else; the zero status is None.\<close>

record ('b, 's) node =
  node_body :: 'b
  node_status :: "'s option"

type_synonym ('b, 's) loaded = "('b, 's) node option \<times> error option"

text \<open>The cache in the context; None outside a replay.\<close>

type_synonym ('b, 's) recoveryState = "(string, ('b, 's) loaded) gomap"

definition WithRecoveryContext :: "('b, 's) recoveryState option" where
  "WithRecoveryContext = Some []"

definition IsRecoveryContext :: "('b, 's) recoveryState option \<Rightarrow> bool" where
  "IsRecoveryContext ctx \<longleftrightarrow> ctx \<noteq> None"

definition GetRecoveryNode ::
  "('b, 's) recoveryState option \<Rightarrow> string \<Rightarrow> ('w \<Rightarrow> 'w \<times> ('b, 's) loaded) \<Rightarrow> 'w \<Rightarrow>
   ('b, 's) recoveryState option \<times> 'w \<times> ('b, 's) loaded" where
  "GetRecoveryNode ctx nodeName load w =
     (case ctx of
        None \<Rightarrow> (let (w', result) = load w in (None, w', result))
      | Some nodes \<Rightarrow>
          (case map_of nodes nodeName of
             Some result \<Rightarrow> (Some nodes, w, result)
           | None \<Rightarrow>
               (let (w', n, err) = load w;
                    n' = (if err = None then map_option (\<lambda>x. x\<lparr>node_status := None\<rparr>) n else n)
                in (Some (AList.update nodeName (n', err) nodes), w', n', err))))"

section \<open>Results and completions\<close>

datatype ProcessResult = ProcessResultProcessed | ProcessResultSkipped | ProcessResultSuperseded
  | ProcessResultInvalid | ProcessResultFailed

record StoredDocumentID =
  id_string :: string
  id_native :: qvalue

record StoredEventCompletion =
  DocumentID :: StoredDocumentID
  Result :: ProcessResult

record 'w EventProcessor =
  ProcessStoredEvent :: "'w \<Rightarrow> eventCoverage option \<Rightarrow> health_event option \<Rightarrow> string \<Rightarrow>
    'w \<times> (error + ProcessResult)"
  CompleteStoredEvents :: "'w \<Rightarrow> StoredEventCompletion list \<Rightarrow> 'w \<times> error option"

record ('w, 'raw) Dependencies =
  HealthEventStore :: "('w \<Rightarrow> Builder \<Rightarrow> nat \<Rightarrow> 'raw scan) option"
  Processor :: "'w EventProcessor option"
  ColdStartAfterTime :: int
  ColdStartUntilTime :: int

record recoveryProgress =
  firstErr :: "error option"
  failures :: nat

record 'raw storedRecoveryEvent =
  sre_record :: "'raw stored_record"
  sre_parsed :: "error + health_event option"

section \<open>Recovering one event\<close>

definition parseStoredRecoveryEvent :: "'raw codec \<Rightarrow> 'raw stored_record \<Rightarrow> 'raw storedRecoveryEvent" where
  "parseStoredRecoveryEvent cd record = \<lparr>sre_record = record, sre_parsed = parseStoredRecord cd record\<rparr>"

definition storedDocumentID :: "'raw codec \<Rightarrow> 'raw option \<Rightarrow> error + StoredDocumentID" where
  "storedDocumentID cd raw =
     (case (ExtractDocumentID cd raw, ExtractDocumentIDNative cd raw) of
        (Inr s, Inr n) \<Rightarrow> Inr \<lparr>id_string = s, id_native = n\<rparr>
      | (Inl e, Inr _) \<Rightarrow> Inl (EJoin [e])
      | (Inr _, Inl e) \<Rightarrow> Inl (EJoin [e])
      | (Inl e, Inl e') \<Rightarrow> Inl (EJoin [e, e']))"

text \<open>
  The environment of a replay: the decoder, the context's error in the current state
  (\<^verbatim>\<open>ctx.Err()\<close>), the store, the processor and the resolver.
\<close>

record ('w, 'raw) replay_env =
  env_codec :: "'raw codec"
  env_ctxErr :: "'w \<Rightarrow> error option"
  env_store :: "'w \<Rightarrow> Builder \<Rightarrow> nat \<Rightarrow> 'raw scan"
  env_processor :: "'w EventProcessor"
  env_resolver :: supersessionResolver

definition recoverStoredEvent ::
  "('w, 'raw) replay_env \<Rightarrow> 'raw storedRecoveryEvent \<Rightarrow> 'w \<Rightarrow> 'w \<times> StoredEventCompletion option \<times> error option" where
  "recoverStoredEvent env event w =
     (case env_ctxErr env w of
        Some err \<Rightarrow> (w, None, Some err)
      | None \<Rightarrow>
        (case (sre_parsed event, storedDocumentID (env_codec env) (RawEvent (sre_record event))) of
           (Inl _, Inl idErr) \<Rightarrow> (w, None, Some (EWrap ''cannot identify invalid stored event'' idErr))
         | (Inl _, Inr documentID) \<Rightarrow> (w, Some \<lparr>DocumentID = documentID, Result = ProcessResultInvalid\<rparr>, None)
         | (Inr _, Inl idErr) \<Rightarrow> (w, None, Some (EWrap ''cannot identify stored event'' idErr))
         | (Inr parsed, Inr documentID) \<Rightarrow>
             (case resolve (env_codec env) (env_store env w) (env_resolver env) parsed
                     (CreatedAt (sre_record event)) (id_string documentID) of
                Inl err \<Rightarrow> (w, None, Some (EWrap ''failed to resolve stored event state'' err))
              | Inr (True, _) \<Rightarrow> (w, Some \<lparr>DocumentID = documentID, Result = ProcessResultSuperseded\<rparr>, None)
              | Inr (False, effects) \<Rightarrow>
                  (let (w', outcome) = ProcessStoredEvent (env_processor env) w
                         (withRecoveryEffects None effects) parsed (id_string documentID)
                   in case outcome of
                        Inl err \<Rightarrow> (w', None, Some (EWrap ''failed to recover stored event'' err))
                      | Inr result \<Rightarrow>
                          if result = ProcessResultSkipped \<or> result = ProcessResultInvalid
                          then (w', Some \<lparr>DocumentID = documentID, Result = result\<rparr>, None)
                          else (w', None, None)))))"

definition recordFailure :: "recoveryProgress \<Rightarrow> error option \<Rightarrow> recoveryProgress \<times> error option" where
  "recordFailure p err =
     (case err of None \<Rightarrow> (p, None)
      | Some e \<Rightarrow>
          if context_done e then (p, Some e)
          else (p\<lparr>failures := failures p + 1,
                   firstErr := (if firstErr p = None then Some e else firstErr p)\<rparr>, None))"

section \<open>Recovering batches\<close>

fun recover_each ::
  "('w, 'raw) replay_env \<Rightarrow> 'raw storedRecoveryEvent list \<Rightarrow> StoredEventCompletion list \<Rightarrow> recoveryProgress \<Rightarrow> 'w \<Rightarrow>
   'w \<times> recoveryProgress \<times> (error + StoredEventCompletion list)" where
  "recover_each env [] completions p w = (w, p, Inr completions)"
| "recover_each env (event # events) completions p w =
     (let (w', completion, err) = recoverStoredEvent env event w;
          completions' = (case completion of None \<Rightarrow> completions | Some c \<Rightarrow> completions @ [c]);
          (p', stop) = recordFailure p err
      in case stop of Some e \<Rightarrow> (w', p', Inl e)
         | None \<Rightarrow> recover_each env events completions' p' w')"

definition recoverEvents ::
  "('w, 'raw) replay_env \<Rightarrow> 'raw storedRecoveryEvent list \<Rightarrow> recoveryProgress \<Rightarrow> 'w \<Rightarrow>
   'w \<times> recoveryProgress \<times> error option" where
  "recoverEvents env events p w =
     (case recover_each env events [] p w of
        (w', p', Inl e) \<Rightarrow> (w', p', Some e)
      | (w', p', Inr completions) \<Rightarrow>
          if completions = [] then (w', p', None)
          else (case CompleteStoredEvents (env_processor env) w' completions of
                  (w'', None) \<Rightarrow> (w'', p', None)
                | (w'', Some e) \<Rightarrow> (w'', p', Some (EWrap ''failed to record recovery completion batch'' e))))"

definition is_healthy_candidate :: "'raw storedRecoveryEvent \<Rightarrow> bool" where
  "is_healthy_candidate c = (case sre_parsed c of Inr (Some ev) \<Rightarrow> IsHealthy ev | _ \<Rightarrow> False)"

definition recoverBatch ::
  "('w, 'raw) replay_env \<Rightarrow> bool \<Rightarrow> 'raw stored_record list \<Rightarrow> recoveryProgress \<Rightarrow> 'w \<Rightarrow>
   'w \<times> recoveryProgress \<times> error option" where
  "recoverBatch env recoverHealthy events p w =
     recoverEvents env (filter (\<lambda>c. is_healthy_candidate c = recoverHealthy)
       (map (parseStoredRecoveryEvent (env_codec env)) events)) p w"

text \<open>The callback over the batches of one scan, and the scan's own error at its end.\<close>

fun recover_batches ::
  "('w, 'raw) replay_env \<Rightarrow> bool \<Rightarrow> 'raw stored_record list list \<Rightarrow> error option \<Rightarrow> recoveryProgress \<Rightarrow> 'w \<Rightarrow>
   'w \<times> recoveryProgress \<times> error option" where
  "recover_batches env recoverHealthy [] scanErr p w = (w, p, scanErr)"
| "recover_batches env recoverHealthy (b # bs) scanErr p w =
     (case recoverBatch env recoverHealthy b p w of
        (w', p', Some e) \<Rightarrow> (w', p', Some e)
      | (w', p', None) \<Rightarrow> recover_batches env recoverHealthy bs scanErr p' w')"

section \<open>The query and the whole recovery\<close>

definition RecoveryCompletionStatusPath :: string where
  "RecoveryCompletionStatusPath = ''healtheventstatus.faultquarantinerecovery''"

definition recoveryIncompleteCondition :: condition where
  "recoveryIncompleteCondition =
     Or [Eq RecoveryCompletionStatusPath VNil, Eq RecoveryCompletionStatusPath (VString [])]"

definition coldStartQuery :: "int \<Rightarrow> int \<Rightarrow> Builder" where
  "coldStartQuery coldStartAfter coldStartUntil =
     (let unresolved = Or [Eq ''healtheventstatus.nodequarantined'' VNil,
            Eq ''healtheventstatus.nodequarantined'' (VString []),
            Eq ''healtheventstatus.nodequarantined'' (VString ''NotStarted'')];
          condition = And [unresolved, recoveryIncompleteCondition, processableCondition];
          condition' = (if coldStartAfter \<noteq> 0 then And [Gt ''createdAt'' (VTime coldStartAfter), condition] else condition);
          condition'' = (if coldStartUntil \<noteq> 0 then And [condition', Lte ''createdAt'' (VTime coldStartUntil)] else condition')
      in Build condition'' New)"

text \<open>24 hours in nanoseconds.\<close>

definition defaultColdStartLookback :: int where
  "defaultColdStartLookback = 24 * 3600 * 1000000000"

definition after_time :: "int \<Rightarrow> int \<Rightarrow> int \<Rightarrow> int" where
  "after_time startedAt coldStartAfter coldStartUntil =
     (if coldStartAfter = 0 then
        (if coldStartUntil = 0 then startedAt else coldStartUntil - defaultColdStartLookback)
      else coldStartAfter)"

definition recovery_phase ::
  "('w, 'raw) replay_env \<Rightarrow> Builder \<Rightarrow> bool \<Rightarrow> recoveryProgress \<Rightarrow> 'w \<Rightarrow> 'w \<times> recoveryProgress \<times> error option" where
  "recovery_phase env recoveryQuery recoverHealthy p w =
     (let (batches, scanErr) = env_store env w recoveryQuery batchSize
      in recover_batches env recoverHealthy batches scanErr p w)"

definition Handle ::
  "'raw codec \<Rightarrow> ('w \<Rightarrow> error option) \<Rightarrow> int \<Rightarrow> ('w, 'raw) Dependencies \<Rightarrow> 'w \<Rightarrow> 'w \<times> error option" where
  "Handle cd ctxErr startedAt deps w =
     (case (HealthEventStore deps, Processor deps) of
        (None, _) \<Rightarrow> (w, Some (EText ''health event store is required''))
      | (Some _, None) \<Rightarrow> (w, Some (EText ''event processor is required''))
      | (Some store, Some processor) \<Rightarrow>
         (let env = \<lparr>env_codec = cd, env_ctxErr = ctxErr, env_store = store, env_processor = processor,
                env_resolver = newSupersessionResolver (ColdStartUntilTime deps)\<rparr>;
              recoveryQuery = coldStartQuery
                (after_time startedAt (ColdStartAfterTime deps) (ColdStartUntilTime deps)) (ColdStartUntilTime deps)
          in case recovery_phase env recoveryQuery False \<lparr>firstErr = None, failures = 0\<rparr> w of
               (w1, p1, Some err) \<Rightarrow> (w1, Some (EWrap ''fault-quarantine cold start failed'' err))
             | (w1, p1, None) \<Rightarrow>
                 (case (if firstErr p1 = None then recovery_phase env recoveryQuery True p1 w1 else (w1, p1, None)) of
                    (w2, p2, Some err) \<Rightarrow> (w2, Some (EWrap ''fault-quarantine healthy recovery phase failed'' err))
                  | (w2, p2, None) \<Rightarrow>
                      (case firstErr p2 of
                         Some err \<Rightarrow> (w2, Some (EWrap (''fault-quarantine cold start completed with '' @
                             fmt_nat (failures p2) @ '' event failures'') err))
                       | None \<Rightarrow> (w2, None)))))"

end
