(* ===== verification/Residual_Laws.thy ===== *)
theory Residual_Laws
  imports Residual_Rectangles
begin

text \<open>
  The mathematics behind the projection: maximal rectangles of a relation and closed code
  sets, the invariant of the intersection closure, and what the final list of code sets
  holds. The locale \<^verbatim>\<open>formal_context\<close> states the facts about any finite relation once; it is
  interpreted on the relation of a set of residual effects.
\<close>

section \<open>Maximal rectangles of a relation\<close>

definition extent :: "('e \<times> 'c) set \<Rightarrow> 'c set \<Rightarrow> 'e set" where
  "extent R C = {e. \<forall>c \<in> C. (e, c) \<in> R}"

definition intent :: "('e \<times> 'c) set \<Rightarrow> 'e set \<Rightarrow> 'c set" where
  "intent R E = {c. \<forall>e \<in> E. (e, c) \<in> R}"

definition closed_codes :: "('e \<times> 'c) set \<Rightarrow> 'c set \<Rightarrow> bool" where
  "closed_codes R C \<longleftrightarrow> C \<noteq> {} \<and> (\<exists>E. E \<noteq> {} \<and> C = intent R E)"

text \<open>A rectangle of effects that no larger rectangle inside the relation contains.\<close>

definition maximal_rectangle :: "('e \<times> 'c) set \<Rightarrow> 'e set \<times> 'c set \<Rightarrow> bool" where
  "maximal_rectangle R r \<longleftrightarrow> (case r of (E, C) \<Rightarrow>
     E \<noteq> {} \<and> C \<noteq> {} \<and> E \<times> C \<subseteq> R \<and>
     (\<forall>E' C'. E \<subseteq> E' \<longrightarrow> C \<subseteq> C' \<longrightarrow> E' \<times> C' \<subseteq> R \<longrightarrow> E' = E \<and> C' = C))"

locale formal_context =
  fixes R :: "('e \<times> 'c) set"
  assumes finite_R: "finite R"
begin

lemma closed_extent:
  assumes "closed_codes R C"
  shows "intent R (extent R C) = C" and "extent R C \<noteq> {}"
proof -
  from assms obtain E where E: "E \<noteq> {}" "C = intent R E" by (auto simp: closed_codes_def)
  then have "E \<subseteq> extent R C" by (auto simp: extent_def intent_def)
  with E show "intent R (extent R C) = C" "extent R C \<noteq> {}"
    by (auto simp: extent_def intent_def)
qed

lemma maximal_iff_closed: "maximal_rectangle R (E, C) \<longleftrightarrow> closed_codes R C \<and> E = extent R C"
proof
  assume max: "maximal_rectangle R (E, C)"
  then have ne: "E \<noteq> {}" "C \<noteq> {}" "E \<times> C \<subseteq> R" by (auto simp: maximal_rectangle_def)
  then have "E \<subseteq> extent R C" "C \<subseteq> intent R E" by (auto simp: extent_def intent_def)
  moreover have "extent R C \<times> C \<subseteq> R" "E \<times> intent R E \<subseteq> R" by (auto simp: extent_def intent_def)
  moreover have mx: "\<And>E' C'. E \<subseteq> E' \<Longrightarrow> C \<subseteq> C' \<Longrightarrow> E' \<times> C' \<subseteq> R \<Longrightarrow> E' = E \<and> C' = C"
    using max unfolding maximal_rectangle_def prod.case by blast
  ultimately have "extent R C = E" "intent R E = C"
    using mx [of "extent R C" C] mx [of E "intent R E"] by blast+
  with ne show "closed_codes R C \<and> E = extent R C" unfolding closed_codes_def by auto
next
  assume asm: "closed_codes R C \<and> E = extent R C"
  then have cl: "intent R E = C" "E \<noteq> {}" "C \<noteq> {}" using closed_extent by (auto simp: closed_codes_def)
  have "E' = E \<and> C' = C" if "E \<subseteq> E'" "C \<subseteq> C'" "E' \<times> C' \<subseteq> R" for E' C'
  proof -
    have "C' \<subseteq> intent R E" "E' \<subseteq> extent R C" using that by (auto simp: extent_def intent_def)
    with that cl asm show ?thesis by auto
  qed
  moreover have "E \<times> C \<subseteq> R" using asm by (auto simp: extent_def)
  ultimately show "maximal_rectangle R (E, C)" using cl by (auto simp: maximal_rectangle_def)
qed

lemma closed_inter:
  assumes "closed_codes R C" and "closed_codes R D" and "C \<inter> D \<noteq> {}"
  shows "closed_codes R (C \<inter> D)"
proof -
  from assms obtain E F where "E \<noteq> {}" "C = intent R E" "F \<noteq> {}" "D = intent R F"
    by (auto simp: closed_codes_def)
  then have "E \<union> F \<noteq> {}" "C \<inter> D = intent R (E \<union> F)" by (auto simp: intent_def)
  with assms(3) show ?thesis unfolding closed_codes_def by blast
qed

lemma closed_neighborhood: "e \<in> Domain R \<Longrightarrow> closed_codes R (R `` {e})"
  unfolding closed_codes_def by (auto simp: intent_def intro!: exI [of _ "{e}"])

text \<open>A family that holds the neighborhoods and their intersections holds every closed set.\<close>

lemma closed_generated:
  assumes nb: "\<And>e. e \<in> Domain R \<Longrightarrow> R `` {e} \<in> S"
    and inter: "\<And>C D. C \<in> S \<Longrightarrow> D \<in> S \<Longrightarrow> C \<inter> D \<noteq> {} \<Longrightarrow> C \<inter> D \<in> S"
    and closed: "closed_codes R C"
  shows "C \<in> S"
proof -
  from closed obtain E where E: "E \<noteq> {}" "C = intent R E" "C \<noteq> {}" by (auto simp: closed_codes_def)
  then have "E \<subseteq> Domain R" by (auto simp: intent_def)
  then have "finite E" using finite_R by (meson finite_Domain finite_subset)
  then have "E \<noteq> {} \<Longrightarrow> intent R E \<noteq> {} \<Longrightarrow> intent R E \<in> S"
  proof (induction E rule: finite_induct)
    case (insert e E)
    show ?case
    proof (cases "E = {}")
      case True
      with insert.prems show ?thesis using nb [of e] by (auto simp: intent_def Image_def)
    next
      case False
      have eq: "intent R (insert e E) = R `` {e} \<inter> intent R E" by (auto simp: intent_def)
      with insert.prems False insert.IH have "intent R E \<in> S" "R `` {e} \<noteq> {}" by auto
      moreover then have "R `` {e} \<in> S" using nb [of e] by auto
      ultimately show ?thesis using inter eq insert.prems by auto
    qed
  qed simp
  with E show ?thesis by auto
qed

lemma closed_subset: "closed_codes R C \<Longrightarrow> C \<subseteq> Range R"
  by (auto simp: closed_codes_def intent_def)

lemma finite_closed: "finite {C. closed_codes R C}"
proof (rule finite_subset)
  show "{C. closed_codes R C} \<subseteq> Pow (Range R)" using closed_subset by auto
  show "finite (Pow (Range R))" using finite_R by (simp add: finite_Range)
qed

lemma maximal_rectangles_eq: "{r. maximal_rectangle R r} = (\<lambda>C. (extent R C, C)) ` {C. closed_codes R C}"
  using maximal_iff_closed by auto

lemma card_maximal: "card {r. maximal_rectangle R r} = card {C. closed_codes R C}"
  unfolding maximal_rectangles_eq by (rule card_image) (auto simp: inj_on_def)

lemma finite_maximal: "finite {r. maximal_rectangle R r}"
  unfolding maximal_rectangles_eq using finite_closed by simp

text \<open>Every rectangle inside the relation lies in a maximal one.\<close>

lemma inside_maximal:
  assumes "E \<noteq> {}" and "C \<noteq> {}" and "E \<times> C \<subseteq> R"
  shows "\<exists>E' C'. maximal_rectangle R (E', C') \<and> E \<subseteq> E' \<and> C \<subseteq> C'"
proof -
  have "C \<subseteq> intent R E" using assms by (auto simp: intent_def)
  with assms have "closed_codes R (intent R E)" by (auto simp: closed_codes_def)
  moreover have "E \<subseteq> extent R (intent R E)" by (auto simp: extent_def intent_def)
  ultimately show ?thesis using maximal_iff_closed \<open>C \<subseteq> intent R E\<close> by blast
qed

end

section \<open>The relation of residual effects\<close>

definition rel_of :: "eventEffect list \<Rightarrow> (residualEntity \<times> string) set" where
  "rel_of remaining = (\<lambda>f. (entity_of f, ef_errorCode f)) ` set remaining"

interpretation fc: formal_context "rel_of remaining" for remaining
  by unfold_locales (simp add: rel_of_def)

lemma map_of_neighbors:
  "codes_at (fold add_neighbor fs m) e =
     fold (\<lambda>f codes. if entity_of f = e then List.insert (ef_errorCode f) codes else codes) fs (codes_at m e)"
proof (induction fs arbitrary: m)
  case (Cons f fs)
  have "codes_at (add_neighbor f m) e =
      (if entity_of f = e then List.insert (ef_errorCode f) (codes_at m e) else codes_at m e)"
    by (auto simp: codes_at_def add_neighbor_def update_conv)
  with Cons show ?case by simp
qed simp

lemma set_codes_at: "set (codes_at (neighbors_of remaining) e) = rel_of remaining `` {e}"
proof -
  have "set (fold (\<lambda>f codes. if entity_of f = e then List.insert (ef_errorCode f) codes else codes) fs codes)
      = set codes \<union> {ef_errorCode f | f. f \<in> set fs \<and> entity_of f = e}" for fs codes
    by (induction fs arbitrary: codes) auto
  moreover have "codes_at [] e = []" by (simp add: codes_at_def)
  ultimately show ?thesis
    by (auto simp: neighbors_of_def map_of_neighbors rel_of_def Image_def image_iff)
qed

lemma distinct_codes_at: "distinct (codes_at (neighbors_of remaining) e)"
proof -
  have "distinct codes \<Longrightarrow> distinct (fold (\<lambda>f codes. if entity_of f = e
      then List.insert (ef_errorCode f) codes else codes) fs codes)" for fs codes
    by (induction fs arbitrary: codes) auto
  moreover have "codes_at [] e = []" by (simp add: codes_at_def)
  ultimately show ?thesis by (simp add: neighbors_of_def map_of_neighbors)
qed

lemma keys_neighbors: "set (map_keys (fold add_neighbor fs m)) = set (map_keys m) \<union> entity_of ` set fs"
  by (induction fs arbitrary: m) (auto simp: add_neighbor_def dom_update)

lemma distinct_neighbors: "wf_gomap m \<Longrightarrow> wf_gomap (fold add_neighbor fs m)"
  by (induction fs arbitrary: m) (auto simp: add_neighbor_def distinct_update)

lemma set_sorted_entities: "set (sorted_entities (neighbors_of remaining)) = Domain (rel_of remaining)"
  using keys_neighbors [of remaining "[]"]
  by (simp add: sorted_entities_def neighbors_of_def rel_of_def Domain_fst image_image)

lemma distinct_sorted_entities: "distinct (sorted_entities (neighbors_of remaining))"
  by (simp add: sorted_entities_def neighbors_of_def distinct_neighbors)

section \<open>String sets\<close>

lemma set_fold_insert: "set (fold List.insert xs ys) = set xs \<union> set ys"
  by (induction xs arbitrary: ys) auto

lemma distinct_fold_insert: "distinct ys \<Longrightarrow> distinct (fold List.insert xs ys)"
  by (induction xs arbitrary: ys) auto

lemma cloneStringSet_simps [simp]:
  "set (cloneStringSet xs) = set xs" "distinct (cloneStringSet xs)"
  by (simp_all add: cloneStringSet_def set_fold_insert distinct_fold_insert)

lemma intersectStringSets_simps [simp]:
  "set (intersectStringSets xs ys) = set xs \<inter> set ys"
  "distinct xs \<Longrightarrow> distinct ys \<Longrightarrow> distinct (intersectStringSets xs ys)"
  by (auto simp: intersectStringSets_def)

lemma sortedStringSetKey_eq_iff:
  assumes "distinct xs" and "distinct ys"
  shows "sortedStringSetKey xs = sortedStringSetKey ys \<longleftrightarrow> set xs = set ys"
proof
  assume "sortedStringSetKey xs = sortedStringSetKey ys"
  then have "sort xs = sort ys"
    by (auto simp: sortedStringSetKey_def stringSliceKey_def sortedStringSet_def dest: len_prefixed_inj)
  then show "set xs = set ys" by (metis set_sort)
next
  assume "set xs = set ys"
  then have "sort xs = sort ys" using assms by (intro sorted_distinct_set_unique) auto
  then show "sortedStringSetKey xs = sortedStringSetKey ys"
    by (simp add: sortedStringSetKey_def sortedStringSet_def)
qed

section \<open>The invariant of the closure\<close>

definition family :: "closure_state \<Rightarrow> string set set" where
  "family st = set ` set (codeSets st)"

text \<open>
  The code sets are closed, pairwise different, recorded under their keys and at most as many
  as the limit; overflow is set only when the list is full and a further closed set exists.
\<close>

definition closure_inv :: "(residualEntity \<times> string) set \<Rightarrow> closure_state \<Rightarrow> bool" where
  "closure_inv R st \<longleftrightarrow>
     (\<forall>codes \<in> set (codeSets st). distinct codes \<and> closed_codes R (set codes)) \<and>
     distinct (map set (codeSets st)) \<and>
     set (seenCodeSets st) = sortedStringSetKey ` set (codeSets st) \<and>
     length (codeSets st) \<le> maxRecoveryProjectionRectangles \<and>
     (overflow st \<longrightarrow> length (codeSets st) = maxRecoveryProjectionRectangles \<and>
        (\<exists>C. closed_codes R C \<and> C \<notin> family st))"

text \<open>One step of the closure: what an addition of a closed or empty set guarantees.\<close>

definition closure_step :: "(residualEntity \<times> string) set \<Rightarrow> closure_state \<Rightarrow> closure_state \<Rightarrow> bool" where
  "closure_step R st st' \<longleftrightarrow> closure_inv R st' \<and> prefix (codeSets st) (codeSets st') \<and>
     (overflow st \<longrightarrow> overflow st')"

lemma closure_step_refl: "closure_inv R st \<Longrightarrow> closure_step R st st"
  by (simp add: closure_step_def)

lemma closure_step_trans: "closure_step R a b \<Longrightarrow> closure_step R b c \<Longrightarrow> closure_step R a c"
  by (auto simp: closure_step_def)

lemma family_mono: "closure_step R st st' \<Longrightarrow> family st \<subseteq> family st'"
  by (auto simp: closure_step_def family_def prefix_def)

lemma seen_iff:
  assumes "closure_inv R st" and "distinct codes"
  shows "sortedStringSetKey codes \<in> set (seenCodeSets st) \<longleftrightarrow> set codes \<in> family st"
proof -
  have "\<forall>d \<in> set (codeSets st). distinct d" using assms(1) by (auto simp: closure_inv_def)
  then have "\<forall>d \<in> set (codeSets st). sortedStringSetKey codes = sortedStringSetKey d \<longleftrightarrow> set codes = set d"
    using sortedStringSetKey_eq_iff assms(2) by blast
  then show ?thesis using assms(1) unfolding closure_inv_def family_def by (auto simp: image_iff)
qed

lemma addCodeSet_step:
  assumes inv: "closure_inv R st" and dist: "distinct codes"
    and closed: "codes = [] \<or> closed_codes R (set codes)"
  shows "closure_step R st (addCodeSet codes st)"
    and "codes \<noteq> [] \<Longrightarrow> \<not> overflow (addCodeSet codes st) \<Longrightarrow> set codes \<in> family (addCodeSet codes st)"
proof -
  consider (empty) "codes = []" | (seen) "codes \<noteq> []" "set codes \<in> family st"
    | (full) "codes \<noteq> []" "set codes \<notin> family st" "length (codeSets st) \<ge> maxRecoveryProjectionRectangles"
    | (new) "codes \<noteq> []" "set codes \<notin> family st" "length (codeSets st) < maxRecoveryProjectionRectangles"
    by linarith
  then have "closure_step R st (addCodeSet codes st) \<and>
    (codes \<noteq> [] \<longrightarrow> \<not> overflow (addCodeSet codes st) \<longrightarrow> set codes \<in> family (addCodeSet codes st))"
  proof cases
    case empty
    then show ?thesis using inv by (simp add: addCodeSet_def closure_step_refl)
  next
    case seen
    then have "addCodeSet codes st = st" using seen_iff [OF inv dist] by (simp add: addCodeSet_def Let_def)
    with seen inv show ?thesis by (simp add: closure_step_refl)
  next
    case full
    then have eq: "addCodeSet codes st = st\<lparr>overflow := True\<rparr>"
      using seen_iff [OF inv dist] by (simp add: addCodeSet_def Let_def)
    have "closure_inv R (st\<lparr>overflow := True\<rparr>)"
      using inv full closed by (auto simp: closure_inv_def family_def)
    with eq show ?thesis by (simp add: closure_step_def)
  next
    case new
    then have eq: "addCodeSet codes st = st\<lparr>codeSets := codeSets st @ [codes],
        seenCodeSets := sortedStringSetKey codes # seenCodeSets st\<rparr>"
      using seen_iff [OF inv dist] by (simp add: addCodeSet_def Let_def)
    have "\<not> overflow st" using inv new by (auto simp: closure_inv_def)
    then have "closure_inv R (addCodeSet codes st)"
      using inv new closed dist unfolding eq closure_inv_def family_def by auto
    with eq show ?thesis by (simp add: closure_step_def family_def)
  qed
  then show "closure_step R st (addCodeSet codes st)"
    and "codes \<noteq> [] \<Longrightarrow> \<not> overflow (addCodeSet codes st) \<Longrightarrow> set codes \<in> family (addCodeSet codes st)"
    by simp_all
qed

lemma add_neighborhoods:
  assumes "closure_inv R st" and "\<forall>e \<in> set es. distinct (f e) \<and> closed_codes R (set (f e))"
  shows "closure_step R st (fold (\<lambda>e. addCodeSet (f e)) es st) \<and>
    (\<not> overflow (fold (\<lambda>e. addCodeSet (f e)) es st) \<longrightarrow>
       (\<forall>e \<in> set es. set (f e) \<in> family (fold (\<lambda>e. addCodeSet (f e)) es st)))"
  using assms
proof (induction es arbitrary: st)
  case Nil
  then show ?case by (simp add: closure_step_refl)
next
  case (Cons e es)
  let ?st = "addCodeSet (f e) st"
  have fe: "distinct (f e)" "f e \<noteq> []" "closed_codes R (set (f e))"
    using Cons.prems by (auto simp: closed_codes_def)
  then have step: "closure_step R st ?st"
    and mem: "\<not> overflow ?st \<Longrightarrow> set (f e) \<in> family ?st"
    using addCodeSet_step [OF Cons.prems(1), of "f e"] by auto
  then have inv: "closure_inv R ?st" by (simp add: closure_step_def)
  from Cons.IH [OF inv] Cons.prems have rest:
    "closure_step R ?st (fold (\<lambda>e. addCodeSet (f e)) es ?st)"
    "\<not> overflow (fold (\<lambda>e. addCodeSet (f e)) es ?st) \<Longrightarrow>
       \<forall>e \<in> set es. set (f e) \<in> family (fold (\<lambda>e. addCodeSet (f e)) es ?st)" by auto
  moreover have "\<not> overflow (fold (\<lambda>e. addCodeSet (f e)) es ?st) \<Longrightarrow> \<not> overflow ?st"
    using rest(1) by (auto simp: closure_step_def)
  ultimately show ?case
    using closure_step_trans [OF step rest(1)] family_mono [OF rest(1)] mem by auto
qed

lemma closure_row_step:
  assumes "closure_inv R st" and "distinct ci" and "closed_codes R (set ci)"
    and "\<forall>cj \<in> set cjs. distinct cj \<and> closed_codes R (set cj)"
    and inter: "\<And>C D. closed_codes R C \<Longrightarrow> closed_codes R D \<Longrightarrow> C \<inter> D \<noteq> {} \<Longrightarrow> closed_codes R (C \<inter> D)"
    and "closure_row ci cjs st = (st', stop)"
  shows "closure_step R st st' \<and> (stop \<longrightarrow> overflow st') \<and> (\<not> stop \<longrightarrow> \<not> overflow st \<longrightarrow> \<not> overflow st' \<and>
    (\<forall>cj \<in> set cjs. set ci \<inter> set cj \<noteq> {} \<longrightarrow> set ci \<inter> set cj \<in> family st'))"
  using assms(1-4,6)
proof (induction cjs arbitrary: st)
  case Nil
  then show ?case by (auto simp: closure_step_refl)
next
  case (Cons cj cjs)
  let ?c = "intersectStringSets ci cj" and ?st = "addCodeSet (intersectStringSets ci cj) st"
  have dist: "distinct ?c" using Cons.prems by simp
  have cl: "?c = [] \<or> closed_codes R (set ?c)"
    using inter [of "set ci" "set cj"] Cons.prems by (cases "?c = []") (auto simp flip: set_empty)
  note step = addCodeSet_step [OF Cons.prems(1) dist cl]
  show ?case
  proof (cases "overflow ?st")
    case True
    then have "st' = ?st" "stop" using Cons.prems(5) by (auto simp: Let_def)
    with True step(1) show ?thesis by auto
  next
    case False
    then have "closure_row ci cjs ?st = (st', stop)" using Cons.prems(5) by (simp add: Let_def)
    moreover have "closure_inv R ?st" using step(1) by (simp add: closure_step_def)
    ultimately have rest: "closure_step R ?st st'" "stop \<Longrightarrow> overflow st'"
      "\<not> stop \<Longrightarrow> \<not> overflow st' \<and> (\<forall>cj \<in> set cjs. set ci \<inter> set cj \<noteq> {} \<longrightarrow> set ci \<inter> set cj \<in> family st')"
      using Cons.IH [of ?st] Cons.prems(2-4) False by auto
    have "set ci \<inter> set cj \<noteq> {} \<Longrightarrow> set ci \<inter> set cj \<in> family ?st"
      using step(2) False by (metis intersectStringSets_simps(1) set_empty)
    with rest family_mono [OF rest(1)] closure_step_trans [OF step(1) rest(1)] show ?thesis by auto
  qed
qed

text \<open>The pairs below position i are done: their non-empty intersections are in the list.\<close>

definition pairs_done :: "nat \<Rightarrow> closure_state \<Rightarrow> bool" where
  "pairs_done i st \<longleftrightarrow> (\<forall>a < i. \<forall>b < a. set (codeSets st ! a) \<inter> set (codeSets st ! b) \<noteq> {} \<longrightarrow>
     set (codeSets st ! a) \<inter> set (codeSets st ! b) \<in> family st)"

lemma pairs_done_step:
  assumes "pairs_done i st" and "closure_step R st st'" and "i < length (codeSets st)"
    and "\<forall>cj \<in> set (take i (codeSets st)). set (codeSets st ! i) \<inter> set cj \<noteq> {} \<longrightarrow>
      set (codeSets st ! i) \<inter> set cj \<in> family st'"
  shows "pairs_done (i + 1) st'"
proof -
  from assms(2) obtain zs where zs: "codeSets st' = codeSets st @ zs"
    by (auto simp: closure_step_def prefix_def)
  have nth: "codeSets st' ! a = codeSets st ! a" if "a \<le> i" for a
    using that assms(3) by (simp add: zs nth_append)
  show ?thesis unfolding pairs_done_def
  proof (intro allI impI)
    fix a b
    assume ab: "a < i + 1" "b < a" "set (codeSets st' ! a) \<inter> set (codeSets st' ! b) \<noteq> {}"
    then have eqs: "codeSets st' ! a = codeSets st ! a" "codeSets st' ! b = codeSets st ! b"
      using nth by auto
    show "set (codeSets st' ! a) \<inter> set (codeSets st' ! b) \<in> family st'"
    proof (cases "a = i")
      case True
      have "codeSets st ! b \<in> set (take i (codeSets st))"
        using ab True assms(3) by (auto simp: in_set_conv_nth)
      with assms(4) ab eqs True show ?thesis by auto
    next
      case False
      with assms(1) ab eqs have "set (codeSets st ! a) \<inter> set (codeSets st ! b) \<in> family st"
        by (auto simp: pairs_done_def)
      with family_mono [OF assms(2)] eqs show ?thesis by auto
    qed
  qed
qed

lemma closure_loop_step:
  assumes inter: "\<And>C D. closed_codes R C \<Longrightarrow> closed_codes R D \<Longrightarrow> C \<inter> D \<noteq> {} \<Longrightarrow> closed_codes R (C \<inter> D)"
    and "closure_inv R st" and "\<not> overflow st" and "pairs_done i st"
    and "closure_loop i st = (st', stop)"
  shows "closure_step R st st' \<and> (stop \<longrightarrow> overflow st') \<and>
    (\<not> stop \<longrightarrow> \<not> overflow st' \<and> pairs_done (length (codeSets st')) st')"
  using assms(2-)
proof (induction i st rule: closure_loop.induct)
  case (1 i st)
  show ?case
  proof (cases "i < length (codeSets st)")
    case False
    with "1.prems" have "st' = st" "\<not> stop" by (auto simp: closure_loop.simps [of i])
    with "1.prems" False show ?thesis
      by (auto simp: closure_step_refl pairs_done_def)
  next
    case True
    let ?ci = "codeSets st ! i"
    obtain st1 stop1 where row: "closure_row ?ci (take i (codeSets st)) st = (st1, stop1)" by fastforce
    have "\<forall>codes \<in> set (codeSets st). distinct codes \<and> closed_codes R (set codes)"
      using "1.prems"(1) by (simp add: closure_inv_def)
    then have "distinct ?ci" "closed_codes R (set ?ci)"
      "\<forall>cj \<in> set (take i (codeSets st)). distinct cj \<and> closed_codes R (set cj)"
      using True by (auto dest: in_set_takeD)
    from closure_row_step [OF "1.prems"(1) this inter row] "1.prems"(2)
    have step: "closure_step R st st1" "stop1 \<Longrightarrow> overflow st1" "\<not> stop1 \<Longrightarrow> \<not> overflow st1"
      "\<not> stop1 \<Longrightarrow> \<forall>cj \<in> set (take i (codeSets st)). set ?ci \<inter> set cj \<noteq> {} \<longrightarrow> set ?ci \<inter> set cj \<in> family st1"
      by auto
    show ?thesis
    proof (cases stop1)
      case True1: True
      with "1.prems"(4) True row have "st' = st1" "stop" by (auto simp: closure_loop.simps [of i])
      with step True1 show ?thesis by auto
    next
      case False
      then have loop: "closure_loop (i + 1) st1 = (st', stop)"
        using "1.prems"(4) True row by (simp add: closure_loop.simps [of i])
      have "closure_inv R st1" using step(1) by (simp add: closure_step_def)
      moreover have "pairs_done (i + 1) st1"
        using pairs_done_step [OF "1.prems"(3) step(1) True] step(4) False by simp
      ultimately show ?thesis
        using "1.IH" [OF True row [symmetric] refl False _ _ _ loop] step(1,3) False closure_step_trans by blast
    qed
  qed
qed

text \<open>A full list that already overflowed is noticed in the second round.\<close>

lemma overflow_stops:
  assumes "closure_inv R st" and "overflow st"
  shows "snd (closure_loop 0 st)"
proof -
  have sticky: "overflow (addCodeSet c st)" for c using assms(2) by (simp add: addCodeSet_def Let_def)
  have len: "length (codeSets st) = 256"
    using assms by (simp add: closure_inv_def maxRecoveryProjectionRectangles_def)
  then obtain c cs where "codeSets st = c # cs" by (cases "codeSets st") auto
  with len sticky have "snd (closure_loop (Suc 0) st)"
    by (simp add: closure_loop.simps [of "Suc 0"] Let_def)
  with len show ?thesis by (simp add: closure_loop.simps [of 0])
qed

section \<open>What the closure computes\<close>

definition closure_start :: "eventEffect list \<Rightarrow> closure_state" where
  "closure_start remaining = fold (\<lambda>e. addCodeSet (cloneStringSet (codes_at (neighbors_of remaining) e)))
     (sorted_entities (neighbors_of remaining)) \<lparr>codeSets = [], seenCodeSets = [], overflow = False\<rparr>"

lemma closure_start_step:
  "closure_inv (rel_of remaining) (closure_start remaining) \<and>
   (\<not> overflow (closure_start remaining) \<longrightarrow>
     (\<forall>e \<in> Domain (rel_of remaining). rel_of remaining `` {e} \<in> family (closure_start remaining)))"
proof -
  let ?R = "rel_of remaining" and ?st = "\<lparr>codeSets = [], seenCodeSets = [], overflow = False\<rparr>"
  let ?f = "\<lambda>e. cloneStringSet (codes_at (neighbors_of remaining) e)"
  have "closure_inv ?R ?st" by (simp add: closure_inv_def)
  moreover have "\<forall>e \<in> set (sorted_entities (neighbors_of remaining)). distinct (?f e) \<and> closed_codes ?R (set (?f e))"
    by (simp add: set_sorted_entities set_codes_at fc.closed_neighborhood)
  ultimately show ?thesis
    using add_neighborhoods [of ?R ?st "sorted_entities (neighbors_of remaining)" ?f]
    by (auto simp: closure_start_def closure_step_def set_sorted_entities set_codes_at)
qed

lemma family_card: "closure_inv R st \<Longrightarrow> card (family st) = length (codeSets st)"
  using distinct_card [of "map set (codeSets st)"] by (simp add: closure_inv_def family_def)

text \<open>Overflow: more closed sets than the limit.\<close>

lemma overflow_many:
  assumes "closure_inv R st" and "overflow st" and fin: "finite {C. closed_codes R C}"
  shows "card {C. closed_codes R C} > maxRecoveryProjectionRectangles"
proof -
  from assms obtain C where C: "closed_codes R C" "C \<notin> family st"
    and len: "length (codeSets st) = maxRecoveryProjectionRectangles" by (auto simp: closure_inv_def)
  have "family st \<subseteq> {C. closed_codes R C}" using assms(1) by (auto simp: family_def closure_inv_def)
  with C have "family st \<subset> {C. closed_codes R C}" by auto
  from psubset_card_mono [OF fin this] show ?thesis using family_card [OF assms(1)] len by simp
qed

lemma pairs_done_family:
  assumes "pairs_done (length (codeSets st)) st" and "C \<in> family st" and "D \<in> family st" and "C \<inter> D \<noteq> {}"
  shows "C \<inter> D \<in> family st"
proof -
  from assms(2) obtain a where "a < length (codeSets st)" "C = set (codeSets st ! a)"
    by (force simp: family_def in_set_conv_nth)
  moreover from assms(3) obtain b where "b < length (codeSets st)" "D = set (codeSets st ! b)"
    by (force simp: family_def in_set_conv_nth)
  ultimately show ?thesis
  proof (cases a b rule: linorder_cases)
    case less
    then have "D \<inter> C \<in> family st"
      using assms(1,4) \<open>b < _\<close> \<open>C = _\<close> \<open>D = _\<close> unfolding pairs_done_def by (metis Int_commute)
    then show ?thesis by (simp add: Int_commute)
  qed (use assms in \<open>auto simp: pairs_done_def\<close>)
qed

lemma closure_result:
  assumes "closure_loop 0 (closure_start remaining) = (st, stop)"
  shows "stop \<Longrightarrow> card {C. closed_codes (rel_of remaining) C} > maxRecoveryProjectionRectangles"
    and "\<not> stop \<Longrightarrow> closure_inv (rel_of remaining) st \<and> family st = {C. closed_codes (rel_of remaining) C}"
proof -
  let ?R = "rel_of remaining" and ?st = "closure_start remaining"
  note start = closure_start_step [of remaining]
  have pd: "pairs_done 0 ?st" by (simp add: pairs_done_def)
  note run = closure_loop_step [OF fc.closed_inter _ _ pd assms, of remaining]
  have "(stop \<longrightarrow> card {C. closed_codes ?R C} > maxRecoveryProjectionRectangles) \<and>
    (\<not> stop \<longrightarrow> closure_inv ?R st \<and> family st = {C. closed_codes ?R C})"
  proof (cases "overflow ?st")
    case True
    then have stop: stop using overflow_stops start assms by (metis snd_conv)
    with overflow_many [OF _ True fc.finite_closed] start show ?thesis by simp
  next
    case False
    with run start have step: "closure_step ?R ?st st" "stop \<longrightarrow> overflow st"
      "\<not> stop \<longrightarrow> \<not> overflow st \<and> pairs_done (length (codeSets st)) st" by auto
    have "C \<in> family st" if "\<not> stop" "closed_codes ?R C" for C
    proof (rule fc.closed_generated [OF _ _ that(2)])
      show "\<And>e. e \<in> Domain ?R \<Longrightarrow> ?R `` {e} \<in> family st"
        using start False family_mono [OF step(1)] by blast
      show "\<And>C D. C \<in> family st \<Longrightarrow> D \<in> family st \<Longrightarrow> C \<inter> D \<noteq> {} \<Longrightarrow> C \<inter> D \<in> family st"
        using pairs_done_family step(3) that(1) by blast
    qed
    moreover have "C \<in> family st \<Longrightarrow> closed_codes ?R C" for C
      using step(1) by (auto simp: closure_step_def closure_inv_def family_def)
    moreover have inv: "closure_inv ?R st" using step(1) by (simp add: closure_step_def)
    ultimately show ?thesis
      using step(2) overflow_many [OF inv _ fc.finite_closed] by blast
  qed
  then show "stop \<Longrightarrow> card {C. closed_codes ?R C} > maxRecoveryProjectionRectangles"
    and "\<not> stop \<Longrightarrow> closure_inv ?R st \<and> family st = {C. closed_codes ?R C}" by blast+
qed

section \<open>The rectangles of the closed sets\<close>

lemma fold_intersect:
  "distinct cs \<Longrightarrow> (\<forall>e \<in> set es. distinct (f e)) \<Longrightarrow>
     distinct (fold (\<lambda>e closed. intersectStringSets closed (f e)) es cs) \<and>
     set (fold (\<lambda>e closed. intersectStringSets closed (f e)) es cs) = set cs \<inter> (\<Inter>e \<in> set es. set (f e))"
  by (induction es arbitrary: cs) auto

text \<open>A closed code set yields the rectangle of its extent, with the codes sorted.\<close>

lemma concept_of_closed:
  assumes "closed_codes (rel_of remaining) (set codes)" and "distinct codes"
  shows "\<exists>r. concept_of (neighbors_of remaining) (sorted_entities (neighbors_of remaining)) codes = Some r \<and>
    rr_errorCodes r = sort codes \<and> distinct (rr_entities r) \<and>
    set (rr_entities r) = extent (rel_of remaining) (set codes)"
proof -
  let ?R = "rel_of remaining" and ?n = "neighbors_of remaining"
  let ?es = "filter (\<lambda>e. stringSetContainsAll (codes_at ?n e) codes) (sorted_entities ?n)"
  have "codes \<noteq> []" using assms by (auto simp: closed_codes_def)
  then have es: "set ?es = extent ?R (set codes)"
    by (cases codes) (auto simp: set_sorted_entities stringSetContainsAll_def list_all_iff set_codes_at extent_def)
  with fc.closed_extent [OF assms(1)] obtain e0 es where split: "?es = e0 # es"
    by (cases ?es) auto
  let ?closed = "fold (\<lambda>e closed. intersectStringSets closed (codes_at ?n e)) es (cloneStringSet (codes_at ?n e0))"
  have "set ?closed = intent ?R (set (e0 # es))" and dist: "distinct ?closed"
    using fold_intersect [of "cloneStringSet (codes_at ?n e0)" es "codes_at ?n"]
    by (auto simp: set_codes_at distinct_codes_at intent_def)
  then have "set ?closed = set codes" using fc.closed_extent [OF assms(1)] es split by simp
  then have "sort ?closed = sort codes"
    using dist assms(2) by (intro sorted_distinct_set_unique) auto
  moreover have "distinct (e0 # es)"
    unfolding split [symmetric] using distinct_sorted_entities by (rule distinct_filter)
  ultimately show ?thesis using split es
    by (simp add: concept_of_def sortedStringSet_def)
qed

definition rectangle_of :: "eventEffect list \<Rightarrow> string list \<Rightarrow> residualRectangle" where
  "rectangle_of remaining codes =
     (case concept_of (neighbors_of remaining) (sorted_entities (neighbors_of remaining)) codes of
        None \<Rightarrow> \<lparr>rr_entities = [], rr_errorCodes = []\<rparr> | Some r \<Rightarrow> r)"

lemma rectangle_of_closed:
  assumes "closed_codes (rel_of remaining) (set codes)" and "distinct codes"
  shows "concept_of (neighbors_of remaining) (sorted_entities (neighbors_of remaining)) codes =
      Some (rectangle_of remaining codes)"
    and "rr_errorCodes (rectangle_of remaining codes) = sort codes"
    and "distinct (rr_entities (rectangle_of remaining codes))"
    and "set (rr_entities (rectangle_of remaining codes)) = extent (rel_of remaining) (set codes)"
proof -
  from concept_of_closed [OF assms] obtain r where
    r: "concept_of (neighbors_of remaining) (sorted_entities (neighbors_of remaining)) codes = Some r"
    and props: "rr_errorCodes r = sort codes" "distinct (rr_entities r)"
      "set (rr_entities r) = extent (rel_of remaining) (set codes)" by blast
  then have "rectangle_of remaining codes = r" by (simp add: rectangle_of_def)
  with r props show "concept_of (neighbors_of remaining) (sorted_entities (neighbors_of remaining)) codes =
      Some (rectangle_of remaining codes)"
    and "rr_errorCodes (rectangle_of remaining codes) = sort codes"
    and "distinct (rr_entities (rectangle_of remaining codes))"
    and "set (rr_entities (rectangle_of remaining codes)) = extent (rel_of remaining) (set codes)"
    by simp_all
qed

text \<open>Different closed sets have different keys, so every concept is stored once.\<close>

lemma fold_add_concept:
  assumes "\<forall>codes \<in> set cs. distinct codes \<and> closed_codes (rel_of remaining) (set codes)"
    and "distinct (map set cs)"
  shows "fold (add_concept (neighbors_of remaining) (sorted_entities (neighbors_of remaining))) cs [] =
    map (\<lambda>codes. (sortedStringSetKey codes, rectangle_of remaining codes)) cs"
  using assms
proof (induction cs rule: rev_induct)
  case (snoc c cs)
  have "sortedStringSetKey c \<notin> sortedStringSetKey ` set cs"
  proof
    assume "sortedStringSetKey c \<in> sortedStringSetKey ` set cs"
    then obtain d where d: "d \<in> set cs" "sortedStringSetKey c = sortedStringSetKey d" by blast
    then have "set c = set d" using snoc.prems(1) sortedStringSetKey_eq_iff [of c d] by simp
    with d snoc.prems(2) show False by auto
  qed
  with snoc rectangle_of_closed [of remaining c] show ?case
    by (simp add: add_concept_def sortedStringSetKey_def sortedStringSet_def update_fresh image_image)
qed simp

lemma maximalResidualRectangles_closure:
  "maximalResidualRectangles remaining =
     (let (st, stop) = closure_loop 0 (closure_start remaining) in
      if stop then None
      else Some (sortResidualRectangles (map snd
        (fold (add_concept (neighbors_of remaining) (sorted_entities (neighbors_of remaining))) (codeSets st) []))))"
  by (simp add: maximalResidualRectangles_def closure_start_def Let_def)

definition sides :: "residualRectangle \<Rightarrow> residualEntity set \<times> string set" where
  "sides r = (set (rr_entities r), set (rr_errorCodes r))"

lemma rectangles_overflow:
  assumes "maximalResidualRectangles remaining = None"
  shows "card {r. maximal_rectangle (rel_of remaining) r} > maxRecoveryProjectionRectangles"
  using assms closure_result(1) [of remaining]
  by (auto simp: maximalResidualRectangles_closure fc.card_maximal split: prod.splits if_splits)

lemma rectangles_complete:
  assumes "maximalResidualRectangles remaining = Some rs"
  shows "sides ` set rs = {r. maximal_rectangle (rel_of remaining) r}"
    and "distinct (map sides rs)"
    and "\<forall>r \<in> set rs. distinct (rr_entities r) \<and> distinct (rr_errorCodes r)"
    and "length rs \<le> maxRecoveryProjectionRectangles"
proof -
  let ?R = "rel_of remaining"
  obtain st stop where loop: "closure_loop 0 (closure_start remaining) = (st, stop)" by fastforce
  with assms have "\<not> stop" by (auto simp: maximalResidualRectangles_closure split: if_splits)
  with closure_result(2) [OF loop] have inv: "closure_inv ?R st"
    and fam: "family st = {C. closed_codes ?R C}" by auto
  then have cs: "\<forall>codes \<in> set (codeSets st). distinct codes \<and> closed_codes ?R (set codes)"
    and dist: "distinct (map set (codeSets st))" by (auto simp: closure_inv_def)
  have rs: "rs = sortResidualRectangles (map (rectangle_of remaining) (codeSets st))"
    using assms \<open>\<not> stop\<close> loop fold_add_concept [OF cs dist]
    by (simp add: maximalResidualRectangles_closure comp_def)
  then have perm: "mset rs = mset (map (rectangle_of remaining) (codeSets st))"
    by (simp add: sortResidualRectangles_def)
  have sides: "map sides (map (rectangle_of remaining) (codeSets st)) =
      map (\<lambda>codes. (extent ?R (set codes), set codes)) (codeSets st)"
    using cs by (simp add: sides_def rectangle_of_closed)
  have set_rs: "set rs = set (map (rectangle_of remaining) (codeSets st))"
    using perm by (rule mset_eq_setD)
  have "sides ` set rs = set (map sides (map (rectangle_of remaining) (codeSets st)))"
    unfolding set_rs by (simp only: set_map)
  also have "\<dots> = (\<lambda>C. (extent ?R C, C)) ` family st"
    unfolding sides by (simp only: set_map family_def image_image)
  finally have "sides ` set rs = (\<lambda>C. (extent ?R C, C)) ` family st" .
  then show "sides ` set rs = {r. maximal_rectangle ?R r}"
    by (simp add: fam fc.maximal_rectangles_eq)
  have "distinct (map (\<lambda>codes. (extent ?R (set codes), set codes)) (codeSets st))"
    using dist by (auto simp: distinct_map inj_on_def)
  then have "distinct (map sides (map (rectangle_of remaining) (codeSets st)))"
    by (simp only: sides)
  moreover have "mset (map sides rs) = mset (map sides (map (rectangle_of remaining) (codeSets st)))"
    using perm by (metis mset_map)
  ultimately show "distinct (map sides rs)" by (metis mset_eq_imp_distinct_iff)
  show "\<forall>r \<in> set rs. distinct (rr_entities r) \<and> distinct (rr_errorCodes r)"
    using cs by (auto simp: set_rs rectangle_of_closed)
  have "length rs = length (codeSets st)" using perm by (metis length_map size_mset)
  then show "length rs \<le> maxRecoveryProjectionRectangles" using inv by (simp add: closure_inv_def)
qed

end
