(* ===== verification/Supersession_Properties.thy ===== *)
theory Supersession_Properties
  imports Supersession Residual_Laws
begin

text \<open>
  Correctness of supersession: a declarative account of which effects newer events replace,
  what the scan computes for any way the store splits and orders the records, which stored
  effects a replay may touch, and that the residual events carry exactly the residual effects.
\<close>

section \<open>Specification\<close>

definition effects :: "health_event \<Rightarrow> eventEffect set" where
  "effects ev = set (remaining (newEventCoverage ev))"

text \<open>A recovery without codes clears every code.\<close>

definition clears_all_codes :: "health_event \<Rightarrow> bool" where
  "clears_all_codes n \<longleftrightarrow> IsHealthy n \<and> ErrorCode n = []"

definition replaces_identity :: "health_event \<Rightarrow> eventEffect \<Rightarrow> health_event \<Rightarrow> bool" where
  "replaces_identity ev f n \<longleftrightarrow>
     (if EntitiesImpacted ev = [] then EntitiesImpacted n = [] \<and> (IsHealthy ev \<longrightarrow> IsHealthy n)
      else (EntitiesImpacted n = [] \<and> IsHealthy n) \<or> has_entity n (ef_entityType f) (ef_entityValue f))"

text \<open>The effect \<^verbatim>\<open>f\<close> of the stored event \<^verbatim>\<open>ev\<close> is replaced by the newer event \<^verbatim>\<open>n\<close>.\<close>

definition supersedes :: "health_event \<Rightarrow> eventEffect \<Rightarrow> health_event \<Rightarrow> bool" where
  "supersedes ev f n \<longleftrightarrow> replaces_identity ev f n \<and>
     (clears_all_codes n \<or>
      (\<not> clears_all_codes ev \<and> ef_errorCode f \<in> set (normalizedErrorCodes (ErrorCode n))))"

definition is_newer :: "'raw codec \<Rightarrow> int \<Rightarrow> string \<Rightarrow> 'raw stored_record \<Rightarrow> bool" where
  "is_newer cd createdAt docid r =
     eventAfter \<lparr>pos_createdAt = CreatedAt r,
       pos_id = (case ExtractDocumentID cd (RawEvent r) of Inl _ \<Rightarrow> [] | Inr i \<Rightarrow> i)\<rparr> createdAt docid"

definition readable_event :: "'raw codec \<Rightarrow> 'raw stored_record \<Rightarrow> health_event option" where
  "readable_event cd r = (case parseStoredRecord cd r of Inr (Some n) \<Rightarrow> Some n | _ \<Rightarrow> None)"

definition newer_events :: "'raw codec \<Rightarrow> int \<Rightarrow> string \<Rightarrow> 'raw stored_record list \<Rightarrow> health_event list" where
  "newer_events cd createdAt docid rs =
     map (the \<circ> readable_event cd) (filter (\<lambda>r. is_newer cd createdAt docid r \<and> readable_event cd r \<noteq> None) rs)"

definition unreadable_newer :: "'raw codec \<Rightarrow> int \<Rightarrow> string \<Rightarrow> 'raw stored_record list \<Rightarrow> bool" where
  "unreadable_newer cd createdAt docid rs =
     list_ex (\<lambda>r. is_newer cd createdAt docid r \<and> readable_event cd r = None) rs"

section \<open>Effects of an event\<close>

lemma mk_effect_simps [simp]:
  "ef_entityType (mk_effect t v c) = t" "ef_entityValue (mk_effect t v c) = v"
  "ef_errorCode (mk_effect t v c) = c"
  by (simp_all add: mk_effect_def)

lemma effect_eq:
  "(f :: eventEffect) = g \<longleftrightarrow> ef_entityType f = ef_entityType g \<and> ef_entityValue f = ef_entityValue g \<and>
     ef_errorCode f = ef_errorCode g"
  by auto

lemma entity_of_eq:
  "(e = entity_of f) \<longleftrightarrow> re_entityType e = ef_entityType f \<and> re_entityValue e = ef_entityValue f"
  by (auto simp: entity_of_def)

lemma mk_effect_eq: "f = mk_effect t v c \<longleftrightarrow> ef_entityType f = t \<and> ef_entityValue f = v \<and> ef_errorCode f = c"
  by (auto simp: mk_effect_def)

lemma normalized_nonempty [simp]: "normalizedErrorCodes cs \<noteq> []"
  by (simp add: normalizedErrorCodes_def)

lemma list_ex_entity:
  "list_ex (\<lambda>e. t = EntityType e \<and> v = EntityValue e) (EntitiesImpacted n) = has_entity n t v"
  by (auto simp: has_entity_def list_ex_iff eq_commute [of t] eq_commute [of v])

lemma bex_entity:
  "(\<exists>e \<in> set (EntitiesImpacted n). t = EntityType e \<and> v = EntityValue e) = has_entity n t v"
  using list_ex_entity [of t v n] by (simp add: list_ex_iff)

lemma effects_iff:
  "f \<in> effects ev \<longleftrightarrow> ef_errorCode f \<in> set (normalizedErrorCodes (ErrorCode ev)) \<and>
     (if EntitiesImpacted ev = [] then ef_entityType f = [] \<and> ef_entityValue f = []
      else has_entity ev (ef_entityType f) (ef_entityValue f))"
  by (auto simp: effects_def newEventCoverage_def Let_def set_fold_insert mk_effect_eq image_iff
      simp flip: bex_entity)

lemma effects_nonempty: "remaining (newEventCoverage ev) \<noteq> []"
proof -
  have "\<exists>f. f \<in> effects ev"
  proof (cases "EntitiesImpacted ev")
    case Nil
    then have "mk_effect [] [] (hd (normalizedErrorCodes (ErrorCode ev))) \<in> effects ev"
      by (simp add: effects_iff)
    then show ?thesis by blast
  next
    case (Cons e es)
    then have "mk_effect (EntityType e) (EntityValue e) (hd (normalizedErrorCodes (ErrorCode ev))) \<in> effects ev"
      by (auto simp: effects_iff has_entity_def)
    then show ?thesis by blast
  qed
  then show ?thesis by (auto simp: effects_def)
qed

section \<open>Coverage\<close>

text \<open>The part of a coverage that describes the candidate never changes.\<close>

definition candidate_of :: "eventCoverage \<Rightarrow> bool \<times> bool \<times> bool" where
  "candidate_of c = (checkWide c, candidateHealthy c, candidateCodeWildcard c)"

lemma candidate_add [simp]: "candidate_of (fst (add c n)) = candidate_of c"
  by (simp add: candidate_of_def add_def Let_def remove_covered_def add_shadow_def)

lemma covered_by_cong:
  "candidate_of c = candidate_of d \<Longrightarrow> covered_by c n f = covered_by d n f"
  by (simp add: candidate_of_def covered_by_def identityFullyCoveredBy_def errorCodeFullyCoveredBy_def)

lemma remaining_add:
  "remaining (fst (add c n)) = filter (\<lambda>f. \<not> covered_by c n f) (remaining c)"
  "snd (add c n) \<longleftrightarrow> remaining (fst (add c n)) = []"
proof -
  have "candidate_of (add_shadow n c) = candidate_of c" "remaining (add_shadow n c) = remaining c"
    by (simp_all add: candidate_of_def add_shadow_def)
  then show "remaining (fst (add c n)) = filter (\<lambda>f. \<not> covered_by c n f) (remaining c)"
    using covered_by_cong [of "add_shadow n c" c n]
    by (simp add: add_def Let_def remove_covered_def)
qed (simp add: add_def Let_def)

definition add_all :: "eventCoverage \<Rightarrow> health_event list \<Rightarrow> eventCoverage" where
  "add_all c ns = foldl (\<lambda>c n. fst (add c n)) c ns"

lemma add_all_simps [simp]:
  "add_all c [] = c" "add_all c (n # ns) = add_all (fst (add c n)) ns"
  by (simp_all add: add_all_def)

lemma candidate_add_all [simp]: "candidate_of (add_all c ns) = candidate_of c"
  by (induction ns arbitrary: c) auto

text \<open>What remains does not depend on the order of the newer events.\<close>

lemma remaining_add_all:
  "remaining (add_all c ns) = filter (\<lambda>f. \<forall>n \<in> set ns. \<not> covered_by c n f) (remaining c)"
proof (induction ns arbitrary: c)
  case (Cons n ns)
  have "covered_by (fst (add c n)) = covered_by c"
    using covered_by_cong [OF candidate_add, of c n] by (simp add: fun_eq_iff)
  then show ?case by (simp add: Cons remaining_add conj_commute)
qed simp

lemma covered_by_supersedes:
  assumes "candidate_of c = candidate_of (newEventCoverage ev)" and "f \<in> effects ev"
  shows "covered_by c n f \<longleftrightarrow> supersedes ev f n"
proof -
  let ?c = "newEventCoverage ev"
  have flags: "checkWide ?c = (EntitiesImpacted ev = [])" "candidateHealthy ?c = IsHealthy ev"
    "candidateCodeWildcard ?c = clears_all_codes ev"
    by (simp_all add: newEventCoverage_def Let_def clears_all_codes_def)
  have blank: "clears_all_codes ev \<Longrightarrow> ef_errorCode f = []"
    using assms(2) by (simp add: effects_iff clears_all_codes_def normalizedErrorCodes_def)
  have code: "errorCodeFullyCoveredBy ?c (ef_errorCode f) n \<longleftrightarrow> clears_all_codes n \<or>
      (\<not> clears_all_codes ev \<and> ef_errorCode f \<in> set (normalizedErrorCodes (ErrorCode n)))"
    using blank
    by (auto simp: errorCodeFullyCoveredBy_def flags clears_all_codes_def list_ex_iff normalizedErrorCodes_def)
  have "identityFullyCoveredBy ?c f n \<longleftrightarrow> replaces_identity ev f n"
    by (auto simp: identityFullyCoveredBy_def flags replaces_identity_def list_ex_entity)
       (simp_all add: has_entity_def)
  with code have "covered_by ?c n f \<longleftrightarrow> supersedes ev f n" by (simp add: covered_by_def supersedes_def)
  with covered_by_cong [OF assms(1)] show ?thesis by simp
qed

section \<open>The scan\<close>

lemma visit_batches_concat: "visit_batches v bs c = visit_records v (concat bs) c"
proof -
  have app: "visit_records v (xs @ ys) c =
      (let (c', stop) = visit_records v xs c in if stop then (c', True) else visit_records v ys c')" for xs ys c
    by (induction xs arbitrary: c) (auto simp: Let_def split: prod.splits)
  show ?thesis by (induction bs arbitrary: c) (auto simp: app Let_def split: prod.splits)
qed

lemma visit_record_cases:
  "visit_record cd ev createdAt docid r c =
     (if \<not> is_newer cd createdAt docid r then (c, False)
      else case readable_event cd r of Some n \<Rightarrow> add c n | None \<Rightarrow> (c, IsHealthy ev))"
  by (simp add: visit_record_def is_newer_def readable_event_def Let_def split: sum.splits option.splits)

lemma newer_events_Cons:
  "newer_events cd t i (r # rs) =
     (if is_newer cd t i r then (case readable_event cd r of Some n \<Rightarrow> [n] | None \<Rightarrow> []) else []) @ newer_events cd t i rs"
  by (auto simp: newer_events_def split: option.splits)

lemma visit_records_continue:
  assumes "visit_records (visit_record cd ev t i) rs c = (c', False)" and "remaining c \<noteq> []"
  shows "c' = add_all c (newer_events cd t i rs)" and "remaining c' \<noteq> []"
    and "IsHealthy ev \<Longrightarrow> \<not> unreadable_newer cd t i rs"
proof -
  have "c' = add_all c (newer_events cd t i rs) \<and> remaining c' \<noteq> [] \<and>
    (IsHealthy ev \<longrightarrow> \<not> unreadable_newer cd t i rs)"
    using assms
  proof (induction rs arbitrary: c)
    case Nil
    then show ?case by (simp add: newer_events_def unreadable_newer_def)
  next
    case (Cons r rs)
    obtain c1 stop where v: "visit_record cd ev t i r c = (c1, stop)" by fastforce
    with Cons.prems have "\<not> stop" and rest: "visit_records (visit_record cd ev t i) rs c1 = (c', False)"
      by (auto split: if_splits)
    then have "remaining c1 \<noteq> []"
      using v Cons.prems(2) remaining_add(2) [of c]
      by (auto simp: visit_record_cases split: if_splits option.splits) (metis fst_conv snd_conv)
    from Cons.IH [OF rest this] v \<open>\<not> stop\<close> show ?case
      by (auto simp: visit_record_cases newer_events_Cons unreadable_newer_def split: if_splits option.splits)
  qed
  then show "c' = add_all c (newer_events cd t i rs)" and "remaining c' \<noteq> []"
    and "IsHealthy ev \<Longrightarrow> \<not> unreadable_newer cd t i rs" by auto
qed

lemma visit_records_stop:
  assumes "visit_records (visit_record cd ev t i) rs c = (c', True)"
  shows "(IsHealthy ev \<and> unreadable_newer cd t i rs) \<or>
    remaining (add_all c (newer_events cd t i rs)) = []"
  using assms
proof (induction rs arbitrary: c)
  case Nil
  then show ?case by simp
next
  case (Cons r rs)
  obtain c1 stop where v: "visit_record cd ev t i r c = (c1, stop)" by fastforce
  show ?case
  proof (cases stop)
    case False
    with Cons v have "(IsHealthy ev \<and> unreadable_newer cd t i rs) \<or>
        remaining (add_all c1 (newer_events cd t i rs)) = []" by auto
    with v False show ?thesis
      by (auto simp: visit_record_cases newer_events_Cons unreadable_newer_def split: if_splits option.splits)
  next
    case True
    show ?thesis
    proof (cases "readable_event cd r")
      case None
      with v True show ?thesis by (auto simp: visit_record_cases unreadable_newer_def split: if_splits)
    next
      case (Some n)
      with v True have "is_newer cd t i r" "add c n = (c1, True)"
        by (auto simp: visit_record_cases split: if_splits)
      moreover then have "remaining (fst (add c n)) = []" using remaining_add(2) [of c n] by simp
      ultimately show ?thesis using Some by (simp add: newer_events_Cons remaining_add_all)
    qed
  qed
qed

lemma resolve_scan:
  assumes "t \<noteq> 0" and "findBatched (Build (scan_condition r (identityFor ev) t) New) batchSize = (batches, None)"
    and "visit_records (visit_record cd ev t i) (concat batches) (newEventCoverage ev) = (cov, stop)"
  shows "resolve cd findBatched r (Some ev) t i = Inr (stop, Some cov)"
  using assms by (simp add: resolve_def scanNewerEvents_def visit_batches_concat)

lemma all_superseded_iff:
  "remaining (add_all (newEventCoverage ev) ns) = [] \<longleftrightarrow> (\<forall>f \<in> effects ev. \<exists>n \<in> set ns. supersedes ev f n)"
  using covered_by_supersedes [OF refl, of _ ev]
  by (auto simp: remaining_add_all filter_empty_conv effects_def)

lemma set_remaining_add_all:
  "set (remaining (add_all (newEventCoverage ev) ns)) = {f \<in> effects ev. \<forall>n \<in> set ns. \<not> supersedes ev f n}"
  using covered_by_supersedes [OF refl, of _ ev] by (auto simp: remaining_add_all effects_def)

text \<open>A replay that is not superseded works on the coverage of all readable newer events.\<close>

lemma resolve_not_superseded:
  assumes "t \<noteq> 0" and "findBatched (Build (scan_condition r (identityFor ev) t) New) batchSize = (batches, None)"
    and "resolve cd findBatched r (Some ev) t i = Inr (False, Some cov)"
  shows "cov = add_all (newEventCoverage ev) (newer_events cd t i (concat batches))"
    and "remaining cov \<noteq> []"
    and "IsHealthy ev \<Longrightarrow> \<not> unreadable_newer cd t i (concat batches)"
proof -
  obtain c stop where v: "visit_records (visit_record cd ev t i) (concat batches) (newEventCoverage ev) = (c, stop)"
    by fastforce
  with resolve_scan [of t findBatched r ev batches cd i c stop] assms
  have "visit_records (visit_record cd ev t i) (concat batches) (newEventCoverage ev) = (cov, False)" by auto
  from visit_records_continue [OF this effects_nonempty]
  show "cov = add_all (newEventCoverage ev) (newer_events cd t i (concat batches))"
    and "remaining cov \<noteq> []"
    and "IsHealthy ev \<Longrightarrow> \<not> unreadable_newer cd t i (concat batches)" by auto
qed

lemma resolve_decides:
  assumes "t \<noteq> 0" and "findBatched (Build (scan_condition r (identityFor ev) t) New) batchSize = (batches, None)"
  shows "\<exists>superseded cov. resolve cd findBatched r (Some ev) t i = Inr (superseded, Some cov) \<and>
    (superseded \<longleftrightarrow> (IsHealthy ev \<and> unreadable_newer cd t i (concat batches)) \<or>
       (\<forall>f \<in> effects ev. \<exists>n \<in> set (newer_events cd t i (concat batches)). supersedes ev f n)) \<and>
    (superseded \<or> set (remaining cov) =
       {f \<in> effects ev. \<forall>n \<in> set (newer_events cd t i (concat batches)). \<not> supersedes ev f n})"
proof -
  obtain c stop where v: "visit_records (visit_record cd ev t i) (concat batches) (newEventCoverage ev) = (c, stop)"
    by fastforce
  note res = resolve_scan [of t findBatched r ev batches cd i c stop, OF assms v]
  show ?thesis
  proof (cases stop)
    case True
    with v have "visit_records (visit_record cd ev t i) (concat batches) (newEventCoverage ev) = (c, True)" by simp
    from visit_records_stop [OF this] have "(IsHealthy ev \<and> unreadable_newer cd t i (concat batches)) \<or>
       (\<forall>f \<in> effects ev. \<exists>n \<in> set (newer_events cd t i (concat batches)). supersedes ev f n)"
      unfolding all_superseded_iff .
    with res True show ?thesis by blast
  next
    case False
    with v have "visit_records (visit_record cd ev t i) (concat batches) (newEventCoverage ev) = (c, False)" by simp
    note cont = visit_records_continue [OF this effects_nonempty]
    from cont(2) have "\<not> (\<forall>f \<in> effects ev. \<exists>n \<in> set (newer_events cd t i (concat batches)). supersedes ev f n)"
      unfolding cont(1) all_superseded_iff .
    with res False cont(3) set_remaining_add_all [of ev] cont(1) show ?thesis by blast
  qed
qed

section \<open>What a replay may touch\<close>

lemma shadowing_add: "set (shadowing c) \<subseteq> set (shadowing (fst (add c n)))"
  by (auto simp: add_def Let_def remove_covered_def add_shadow_def)

lemma shadowing_add_all: "set (shadowing c) \<subseteq> set (shadowing (add_all c ns))"
proof (induction ns arbitrary: c)
  case (Cons n ns)
  then show ?case using shadowing_add [of c n] by fastforce
qed simp

lemma remaining_subset: "set (remaining (add_all c ns)) \<subseteq> set (remaining c)"
  by (auto simp: remaining_add_all)

text \<open>A newer event that could shadow an effect still remaining at the end was recorded.\<close>

lemma shadow_recorded:
  assumes "n \<in> set ns" and "candidateHealthy c" and "f \<in> set (remaining (add_all c ns))"
    and "newerIdentityCanShadow c f n" and "candidateCodeWildcard c \<or> errorCodeFullyCoveredBy c (ef_errorCode f) n"
  shows "n \<in> set (shadowing (add_all c ns))"
  using assms
proof (induction ns arbitrary: c)
  case (Cons m ms)
  let ?c = "fst (add c m)"
  have same: "candidate_of ?c = candidate_of c" by simp
  show ?case
  proof (cases "n = m")
    case True
    have "f \<in> set (remaining c)" using Cons.prems(3) remaining_subset [of c "m # ms"] by auto
    then have "newerCanShadowCandidate c m"
      using Cons.prems(4,5) True by (auto simp: newerCanShadowCandidate_def list_ex_iff)
    then have "m \<in> set (shadowing ?c)"
      using Cons.prems(2) by (simp add: add_def Let_def remove_covered_def add_shadow_def)
    then show ?thesis using True shadowing_add_all [of ?c ms] by auto
  next
    case False
    with Cons.prems have "n \<in> set ms" by simp
    moreover have "newerIdentityCanShadow ?c f n"
      "candidateCodeWildcard ?c \<or> errorCodeFullyCoveredBy ?c (ef_errorCode f) n" "candidateHealthy ?c"
      using same Cons.prems(2,4,5)
      by (auto simp: candidate_of_def newerIdentityCanShadow_def errorCodeFullyCoveredBy_def)
    ultimately show ?thesis using Cons.IH [of ?c] Cons.prems(3) by simp
  qed
qed simp

text \<open>An entity with an empty type and value would be taken for the check level.\<close>

definition no_blank_entity :: "health_event \<Rightarrow> bool" where
  "no_blank_entity ev \<longleftrightarrow> \<not> has_entity ev [] []"

lemma healthy_allows:
  assumes ev: "IsHealthy ev" "no_blank_entity ev" and n: "n \<in> set ns"
    and shadows: "newerShadowsStoredEffect e n"
  shows "\<not> allows (add_all (newEventCoverage ev) ns) e"
proof
  let ?start = "newEventCoverage ev" and ?c = "add_all (newEventCoverage ev) ns"
  assume ok: "allows ?c e"
  have flags: "checkWide ?start = (EntitiesImpacted ev = [])" "candidateHealthy ?start"
    "candidateCodeWildcard ?start = clears_all_codes ev"
    using ev(1) by (simp_all add: newEventCoverage_def Let_def clears_all_codes_def)
  have same: "checkWide ?c = (EntitiesImpacted ev = [])" "candidateHealthy ?c"
    "candidateCodeWildcard ?c = clears_all_codes ev"
    using candidate_add_all [of ?start ns] flags by (simp_all add: candidate_of_def)
  from ok obtain f where f: "f \<in> set (remaining ?c)"
    and ident: "EntitiesImpacted ev = [] \<or> (ef_entityType f = ef_entityType e \<and> ef_entityValue f = ef_entityValue e)"
    and code: "ef_errorCode f = ef_errorCode e \<or> clears_all_codes ev"
    by (auto simp: allows_def hasRemainingEffect_def list_ex_iff same split: if_splits)
  have "f \<in> effects ev" using f remaining_subset [of ?start ns] by (auto simp: effects_def)
  then have notblank: "EntitiesImpacted ev \<noteq> [] \<Longrightarrow> \<not> (ef_entityType f = [] \<and> ef_entityValue f = [])"
    using ev(2) by (auto simp: effects_iff no_blank_entity_def)
  have "newerIdentityCanShadow ?start f n"
    using shadows ident notblank
    by (auto simp: newerIdentityCanShadow_def flags newerShadowsStoredEffect_def
        newerIdentityShadowsStoredEffect_def split: if_splits)
  moreover have "candidateCodeWildcard ?start \<or> errorCodeFullyCoveredBy ?start (ef_errorCode f) n"
    using shadows code
    by (auto simp: errorCodeFullyCoveredBy_def flags newerShadowsStoredEffect_def
        newerCodeShadowsStoredEffect_def list_ex_iff)
  ultimately have "n \<in> set (shadowing ?c)" using shadow_recorded [OF n flags(2) f] by simp
  with ok shadows same show False by (auto simp: allows_def isShadowed_def list_ex_iff split: if_splits)
qed

lemma fault_allows:
  assumes "\<not> candidateHealthy c" and "\<not> candidateCodeWildcard c"
  shows "allows c e \<longleftrightarrow> e \<in> set (remaining c)"
proof -
  have "allows c e \<longleftrightarrow> (\<exists>r \<in> set (remaining c). r = e)"
    using assms by (auto simp: allows_def hasRemainingEffect_def list_ex_iff effect_eq)
  then show ?thesis by blast
qed

section \<open>Residual events\<close>

text \<open>Without a covered effect the event is replayed as it is.\<close>

lemma not_projected:
  "\<not> projected (add_all c ns) \<Longrightarrow> remaining (add_all c ns) = remaining c"
proof (induction ns arbitrary: c)
  case (Cons n ns)
  have mono: "projected d \<Longrightarrow> projected (add_all d ms)" for d ms
    by (induction ms arbitrary: d) (auto simp: add_def Let_def remove_covered_def add_shadow_def)
  with Cons.prems have "\<not> projected (fst (add c n))" by auto
  then have "\<not> list_ex (covered_by (add_shadow n c) n) (remaining (add_shadow n c))"
    by (simp add: add_def Let_def remove_covered_def)
  moreover have "remaining (add_shadow n c) = remaining c" by (simp add: add_shadow_def)
  ultimately have "remaining (fst (add c n)) = remaining c"
    by (simp add: add_def Let_def remove_covered_def list_ex_iff)
  with Cons show ?case by auto
qed simp

lemma codes_projected:
  "set (normalizedErrorCodes (projectedErrorCodes ev cs)) = set cs" if "cs \<noteq> []"
  using that by (cases cs) (auto simp: projectedErrorCodes_def normalizedErrorCodes_def)

lemma effects_rectangle:
  assumes "rr_entities r \<noteq> []" and "rr_errorCodes r \<noteq> []"
  shows "effects (event\<lparr>EntitiesImpacted := map (\<lambda>e. \<lparr>EntityType = re_entityType e, EntityValue = re_entityValue e\<rparr>) (rr_entities r),
      ErrorCode := projectedErrorCodes event (rr_errorCodes r)\<rparr>) =
    {f. entity_of f \<in> set (rr_entities r) \<and> ef_errorCode f \<in> set (rr_errorCodes r)}"
proof -
  have mem: "entity_of f \<in> set es \<longleftrightarrow>
      (\<exists>e \<in> set es. re_entityType e = ef_entityType f \<and> re_entityValue e = ef_entityValue f)" for f es
    unfolding entity_of_eq [symmetric] by blast
  show ?thesis using assms by (auto simp: effects_iff has_entity_def codes_projected mem)
qed

lemma rel_of_iff: "(entity_of f, ef_errorCode f) \<in> rel_of rem \<longleftrightarrow> f \<in> set rem"
proof -
  have "(entity_of f, ef_errorCode f) = (entity_of g, ef_errorCode g) \<longleftrightarrow> f = g" for g
    by (auto simp: entity_of_def)
  then show ?thesis unfolding rel_of_def by (metis (mono_tags, lifting) imageE imageI)
qed

text \<open>The contract of a projection: exactly the residual effects, and every coherent group of
  residual effects together in one event.\<close>

definition carries :: "health_event list \<Rightarrow> eventEffect list \<Rightarrow> bool" where
  "carries ps rem \<longleftrightarrow> (\<Union>p \<in> set ps. effects p) = set rem \<and>
     (\<forall>E C. E \<noteq> {} \<longrightarrow> C \<noteq> {} \<longrightarrow> (\<forall>(t, v) \<in> E. \<forall>c \<in> C. mk_effect t v c \<in> set rem) \<longrightarrow>
        (\<exists>p \<in> set ps. \<forall>(t, v) \<in> E. \<forall>c \<in> C. mk_effect t v c \<in> effects p))"

lemma carries_single: "effects p = set rem \<Longrightarrow> carries [p] rem"
  by (auto simp: carries_def)

lemma carries_rectangles:
  assumes "maximalResidualRectangles rem = Some rs"
  shows "carries (projectHealthEventRectangles ev rs) rem"
proof -
  let ?R = "rel_of rem"
  define p where "p = (\<lambda>r :: residualRectangle. ev\<lparr>EntitiesImpacted := map (\<lambda>e. \<lparr>EntityType = re_entityType e, EntityValue = re_entityValue e\<rparr>) (rr_entities r),
        ErrorCode := projectedErrorCodes ev (rr_errorCodes r)\<rparr>)"
  have ps: "set (projectHealthEventRectangles ev rs) = p ` set rs"
    by (simp add: projectHealthEventRectangles_def p_def)
  have max: "maximal_rectangle ?R (sides r)" if "r \<in> set rs" for r
    using rectangles_complete(1) [OF assms] that by blast
  have eff: "effects (p r) = {f. entity_of f \<in> fst (sides r) \<and> ef_errorCode f \<in> snd (sides r)}"
    if "r \<in> set rs" for r
    using effects_rectangle [of r ev] max [OF that] by (simp add: sides_def p_def maximal_rectangle_def)
  have inside: "\<exists>r \<in> set rs. E \<subseteq> fst (sides r) \<and> C \<subseteq> snd (sides r)"
    if EC: "E \<noteq> {}" "C \<noteq> {}" "E \<times> C \<subseteq> ?R" for E C
  proof -
    from fc.inside_maximal [OF EC] obtain E' C' where
      "maximal_rectangle ?R (E', C')" "E \<subseteq> E'" "C \<subseteq> C'" by blast
    moreover then obtain r where "r \<in> set rs" "sides r = (E', C')"
      using rectangles_complete(1) [OF assms] by (metis image_iff mem_Collect_eq)
    ultimately show ?thesis by force
  qed
  have "(\<Union>r \<in> set rs. effects (p r)) = set rem"
  proof (intro set_eqI iffI)
    fix f assume "f \<in> (\<Union>r \<in> set rs. effects (p r))"
    then obtain r where r: "r \<in> set rs" "f \<in> effects (p r)" by blast
    then have "(entity_of f, ef_errorCode f) \<in> fst (sides r) \<times> snd (sides r)" by (simp add: eff)
    moreover have "fst (sides r) \<times> snd (sides r) \<subseteq> ?R"
      using max [OF r(1)] by (simp add: maximal_rectangle_def split: prod.splits)
    ultimately show "f \<in> set rem" using rel_of_iff by blast
  next
    fix f assume "f \<in> set rem"
    then have "{entity_of f} \<times> {ef_errorCode f} \<subseteq> ?R" using rel_of_iff by blast
    from inside [OF _ _ this] obtain r where "r \<in> set rs"
      "entity_of f \<in> fst (sides r)" "ef_errorCode f \<in> snd (sides r)" by auto
    then show "f \<in> (\<Union>r \<in> set rs. effects (p r))" by (auto simp: eff)
  qed
  moreover have "\<exists>q \<in> p ` set rs. \<forall>(t, v) \<in> E. \<forall>c \<in> C. mk_effect t v c \<in> effects q"
    if EC: "E \<noteq> {}" "C \<noteq> {}" "\<forall>(t, v) \<in> E. \<forall>c \<in> C. mk_effect t v c \<in> set rem" for E C
  proof -
    let ?E = "(\<lambda>(t, v). \<lparr>re_entityType = t, re_entityValue = v\<rparr>) ` E"
    have ent: "entity_of (mk_effect t v c) = \<lparr>re_entityType = t, re_entityValue = v\<rparr>" for t v c
      by (simp add: entity_of_def)
    have "?E \<times> C \<subseteq> ?R"
      using EC(3) rel_of_iff [of "mk_effect _ _ _" rem] by (auto simp: ent)
    from inside [OF _ EC(2) this] EC(1) obtain r where r: "r \<in> set rs" "?E \<subseteq> fst (sides r)" "C \<subseteq> snd (sides r)"
      by blast
    then have "\<forall>(t, v) \<in> E. \<forall>c \<in> C. mk_effect t v c \<in> effects (p r)"
      by (auto simp: eff ent)
    with r(1) show ?thesis by blast
  qed
  ultimately show ?thesis unfolding carries_def ps by simp
qed

section \<open>Examples\<close>

text \<open>A store whose documents are an id with an event, or an undecodable event.\<close>

definition pair_codec :: "(string \<times> health_event option) codec" where
  "pair_codec = \<lparr>ParseHealthEvent = (\<lambda>(i, e). case e of None \<Rightarrow> Inl (EText ''bad'') | Some ev \<Rightarrow> Inr (Some ev)),
     ExtractDocumentID = (\<lambda>raw. case raw of None \<Rightarrow> Inl (EText ''no id'') | Some (i, _) \<Rightarrow> Inr i),
     ExtractDocumentIDNative = (\<lambda>raw. case raw of None \<Rightarrow> Inl (EText ''no id'') | Some (i, _) \<Rightarrow> Inr (VString i))\<rparr>"

definition stored :: "int \<Rightarrow> string \<Rightarrow> health_event option \<Rightarrow> (string \<times> health_event option) stored_record" where
  "stored t i e = \<lparr>CreatedAt = t, RawEvent = Some (i, e), RebuiltEvent = (i, e)\<rparr>"

definition gpu :: "string \<Rightarrow> entity" where
  "gpu n = \<lparr>EntityType = ''GPU'', EntityValue = n\<rparr>"

text \<open>A fault on two GPUs with two codes, and a newer recovery of one code on one of them.\<close>

definition two_gpu_fault :: health_event where
  "two_gpu_fault = zero_event\<lparr>CheckName := ''xid'', NodeName := ''n1'', EntitiesImpacted := [gpu ''0'', gpu ''1''],
     ErrorCode := [''48'', ''79'']\<rparr>"

definition one_gpu_recovery :: health_event where
  "one_gpu_recovery = zero_event\<lparr>CheckName := ''xid'', NodeName := ''n1'', EntitiesImpacted := [gpu ''0''],
     ErrorCode := [''79''], IsHealthy := True\<rparr>"

definition gpu_recovery :: health_event where
  "gpu_recovery = zero_event\<lparr>CheckName := ''xid'', NodeName := ''n1'', EntitiesImpacted := [gpu ''0'', gpu ''1''],
     IsHealthy := True\<rparr>"

definition scan_of :: "'raw stored_record list list \<Rightarrow> Builder \<Rightarrow> nat \<Rightarrow> 'raw scan" where
  "scan_of batches c n = (batches, None)"

lemmas example_defs =
  pair_codec_def stored_def gpu_def two_gpu_fault_def one_gpu_recovery_def gpu_recovery_def
  scan_of_def zero_event_def newer_events_def unreadable_newer_def is_newer_def
  readable_event_def parseStoredRecord_def eventAfter_def

lemmas coverage_defs =
  resolve_def scanNewerEvents_def visit_record_def add_def add_shadow_def remove_covered_def
  newEventCoverage_def normalizedErrorCodes_def covered_by_def identityFullyCoveredBy_def
  errorCodeFullyCoveredBy_def newerCanShadowCandidate_def newerIdentityCanShadow_def mk_effect_def

definition fault_records :: "(string \<times> health_event option) stored_record list list" where
  "fault_records = [[stored 5 ''a'' (Some two_gpu_fault), stored 5 ''b'' None], [stored 6 ''c'' (Some one_gpu_recovery)]]"

definition residual_coverage :: eventCoverage where
  "residual_coverage = \<lparr>checkWide = False, candidateHealthy = False, candidateCodeWildcard = False,
     remaining = [mk_effect ''GPU'' ''1'' ''79'', mk_effect ''GPU'' ''1'' ''48'', mk_effect ''GPU'' ''0'' ''48''],
     shadowing = [], projected = True\<rparr>"

lemma fault_example:
  "resolve pair_codec (scan_of fault_records) \<lparr>until = 9\<rparr> (Some two_gpu_fault) 5 ''a'' = Inr (False, Some residual_coverage)"
  by (simp add: coverage_defs example_defs fault_records_def residual_coverage_def Let_def)

section \<open>Properties\<close>

text \<open>
  C5. When the store delivers its records without an error, in any order and any batches, the
  resolver decides a stored event as specified: it is superseded exactly when newer readable
  events replace each of its effects, or when it is a recovery and some newer record cannot be
  read; otherwise the coverage lists exactly the effects that no newer event replaces.
\<close>

theorem supersession_exact:
  assumes "t \<noteq> 0" and "findBatched (Build (scan_condition r (identityFor ev) t) New) batchSize = (batches, None)"
  shows "\<exists>superseded cov. resolve cd findBatched r (Some ev) t i = Inr (superseded, Some cov) \<and>
    (superseded \<longleftrightarrow> (IsHealthy ev \<and> unreadable_newer cd t i (concat batches)) \<or>
       (\<forall>f \<in> effects ev. \<exists>n \<in> set (newer_events cd t i (concat batches)). supersedes ev f n)) \<and>
    (superseded \<or> set (remaining cov) =
       {f \<in> effects ev. \<forall>n \<in> set (newer_events cd t i (concat batches)). \<not> supersedes ev f n})"
  using assms by (rule resolve_decides)

theorem supersession_exact_witness:
  "{f \<in> effects two_gpu_fault. \<not> supersedes two_gpu_fault f one_gpu_recovery} =
     {mk_effect ''GPU'' ''1'' ''79'', mk_effect ''GPU'' ''1'' ''48'', mk_effect ''GPU'' ''0'' ''48''}"
proof -
  have "newer_events pair_codec 5 ''a'' (concat fault_records) = [one_gpu_recovery]"
    by (simp add: fault_records_def example_defs)
  with supersession_exact [of 5 "scan_of fault_records" "\<lparr>until = 9\<rparr>" two_gpu_fault fault_records pair_codec "''a''"]
  have "set (remaining residual_coverage) = {f \<in> effects two_gpu_fault. \<not> supersedes two_gpu_fault f one_gpu_recovery}"
    by (simp add: scan_of_def fault_example) blast
  then show ?thesis by (simp add: residual_coverage_def)
qed

text \<open>
  C6. A recovery that is replayed never clears an effect that a newer event still asserts or
  has already replaced: for every readable newer event of the scan and every stored effect it
  shadows, the replay leaves that effect alone. (The recovery must not name an entity whose
  type and value are both empty, which the check level would be confused with.)
\<close>

theorem recovery_spares_newer_state:
  assumes "t \<noteq> 0" and "findBatched (Build (scan_condition r (identityFor ev) t) New) batchSize = (batches, None)"
    and "resolve cd findBatched r (Some ev) t i = Inr (False, Some cov)"
    and "IsHealthy ev" and "no_blank_entity ev"
    and "n \<in> set (newer_events cd t i (concat batches))"
    and "newerShadowsStoredEffect (mk_effect ty vl code) n"
  shows "\<not> ShouldRecoverEffect (withRecoveryEffects ctx (Some cov)) ty vl code"
  using resolve_not_superseded(1) [of t findBatched r ev batches cd i cov] assms healthy_allows
  by (simp add: ShouldRecoverEffect_def withRecoveryEffects_def)

definition refaulted :: health_event where
  "refaulted = two_gpu_fault\<lparr>EntitiesImpacted := [gpu ''0''], ErrorCode := [''79'']\<rparr>"

definition recovery_records :: "(string \<times> health_event option) stored_record list list" where
  "recovery_records = [[stored 5 ''a'' (Some gpu_recovery)], [stored 6 ''b'' (Some refaulted)]]"

definition recovery_coverage :: eventCoverage where
  "recovery_coverage = \<lparr>checkWide = False, candidateHealthy = True, candidateCodeWildcard = True,
     remaining = [mk_effect ''GPU'' ''1'' [], mk_effect ''GPU'' ''0'' []],
     shadowing = [refaulted], projected = True\<rparr>"

theorem recovery_spares_newer_state_witness:
  "resolve pair_codec (scan_of recovery_records) \<lparr>until = 0\<rparr> (Some gpu_recovery) 5 ''a'' = Inr (False, Some recovery_coverage) \<and>
   \<not> ShouldRecoverEffect (withRecoveryEffects None (Some recovery_coverage)) ''GPU'' ''0'' ''79'' \<and>
   ShouldRecoverEffect (withRecoveryEffects None (Some recovery_coverage)) ''GPU'' ''1'' ''79''"
proof -
  have res: "resolve pair_codec (scan_of recovery_records) \<lparr>until = 0\<rparr> (Some gpu_recovery) 5 ''a'' =
      Inr (False, Some recovery_coverage)"
    by (simp add: coverage_defs example_defs recovery_records_def recovery_coverage_def refaulted_def Let_def)
  moreover have "newer_events pair_codec 5 ''a'' (concat recovery_records) = [refaulted]"
    by (simp add: recovery_records_def example_defs)
  moreover have "newerShadowsStoredEffect (mk_effect ''GPU'' ''0'' ''79'') refaulted"
    by (simp add: newerShadowsStoredEffect_def newerIdentityShadowsStoredEffect_def
        newerCodeShadowsStoredEffect_def normalizedErrorCodes_def refaulted_def gpu_def)
  moreover have "no_blank_entity gpu_recovery" "IsHealthy gpu_recovery"
    by (simp_all add: no_blank_entity_def has_entity_def gpu_recovery_def gpu_def)
  ultimately have "\<not> ShouldRecoverEffect (withRecoveryEffects None (Some recovery_coverage)) ''GPU'' ''0'' ''79''"
    using recovery_spares_newer_state [of 5 "scan_of recovery_records" "\<lparr>until = 0\<rparr>" gpu_recovery
        recovery_records pair_codec "''a''" recovery_coverage refaulted "''GPU''" "''0''" "''79''" None]
    by (simp add: scan_of_def)
  moreover have "ShouldRecoverEffect (withRecoveryEffects None (Some recovery_coverage)) ''GPU'' ''1'' ''79''"
    by (simp add: ShouldRecoverEffect_def withRecoveryEffects_def allows_def hasRemainingEffect_def isShadowed_def
        newerShadowsStoredEffect_def newerIdentityShadowsStoredEffect_def recovery_coverage_def refaulted_def gpu_def)
  ultimately show ?thesis using res by simp
qed

text \<open>
  The replay of a fault that is not superseded touches exactly the effects of the fault
  that no newer event replaces.
\<close>

theorem fault_replay_exact:
  assumes "t \<noteq> 0" and "findBatched (Build (scan_condition r (identityFor ev) t) New) batchSize = (batches, None)"
    and "resolve cd findBatched r (Some ev) t i = Inr (False, Some cov)" and "\<not> IsHealthy ev"
  shows "ShouldRecoverEffect (withRecoveryEffects ctx (Some cov)) ty vl code \<longleftrightarrow>
    mk_effect ty vl code \<in> effects ev \<and>
    (\<forall>n \<in> set (newer_events cd t i (concat batches)). \<not> supersedes ev (mk_effect ty vl code) n)"
proof -
  have cov: "cov = add_all (newEventCoverage ev) (newer_events cd t i (concat batches))"
    using resolve_not_superseded(1) assms by blast
  then have "\<not> candidateHealthy cov" "\<not> candidateCodeWildcard cov"
    using candidate_add_all [of "newEventCoverage ev"] assms(4)
    by (simp_all add: candidate_of_def newEventCoverage_def Let_def)
  then show ?thesis
    using set_remaining_add_all [of ev]
    by (simp add: ShouldRecoverEffect_def withRecoveryEffects_def fault_allows cov)
qed

theorem fault_replay_exact_witness:
  "\<not> ShouldRecoverEffect (withRecoveryEffects None (Some residual_coverage)) ''GPU'' ''0'' ''79'' \<and>
   ShouldRecoverEffect (withRecoveryEffects None (Some residual_coverage)) ''GPU'' ''1'' ''79''"
proof -
  have "newer_events pair_codec 5 ''a'' (concat fault_records) = [one_gpu_recovery]"
    by (simp add: fault_records_def example_defs)
  moreover have "\<not> IsHealthy two_gpu_fault" by (simp add: two_gpu_fault_def zero_event_def)
  ultimately have "ShouldRecoverEffect (withRecoveryEffects None (Some residual_coverage)) ''GPU'' v ''79'' \<longleftrightarrow>
      mk_effect ''GPU'' v ''79'' \<in> effects two_gpu_fault \<and>
      \<not> supersedes two_gpu_fault (mk_effect ''GPU'' v ''79'') one_gpu_recovery" for v
    using fault_replay_exact [of 5 "scan_of fault_records" "\<lparr>until = 9\<rparr>" two_gpu_fault fault_records
        pair_codec "''a''" residual_coverage None "''GPU''" v "''79''"] fault_example
    by (simp add: scan_of_def)
  then show ?thesis
    by (simp add: effects_iff has_entity_def supersedes_def replaces_identity_def clears_all_codes_def
        normalizedErrorCodes_def two_gpu_fault_def one_gpu_recovery_def gpu_def)
qed

text \<open>
  C7. The projection onto rectangles is exact: it overflows only when the residual effects
  have more maximal entity/code rectangles than the limit, and otherwise lists every maximal
  rectangle exactly once and nothing else.
\<close>

theorem residual_rectangles_exact:
  "case maximalResidualRectangles rem of
     None \<Rightarrow> card {r. maximal_rectangle (rel_of rem) r} > maxRecoveryProjectionRectangles
   | Some rs \<Rightarrow> sides ` set rs = {r. maximal_rectangle (rel_of rem) r} \<and> distinct (map sides rs) \<and>
       length rs \<le> maxRecoveryProjectionRectangles"
  using rectangles_overflow rectangles_complete by (auto split: option.split)

text \<open>
  C8. The events a replay evaluates its rules on carry exactly the residual effects, and
  every group of entities and codes whose pairs all remain is together in one of them; only
  when there are more maximal rectangles than the limit is the original event used instead.
\<close>

theorem residual_projection_exact:
  assumes "t \<noteq> 0" and "findBatched (Build (scan_condition r (identityFor ev) t) New) batchSize = (batches, None)"
    and "resolve cd findBatched r (Some ev) t i = Inr (False, Some cov)"
  shows "carries (ProjectHealthEvent (withRecoveryEffects ctx (Some cov)) ev) (remaining cov) \<or>
    (ProjectHealthEvent (withRecoveryEffects ctx (Some cov)) ev = [ev] \<and>
     card {q. maximal_rectangle (rel_of (remaining cov)) q} > maxRecoveryProjectionRectangles)"
proof -
  let ?c = "newEventCoverage ev" and ?ns = "newer_events cd t i (concat batches)"
  have cov: "cov = add_all ?c ?ns" and ne: "remaining cov \<noteq> []"
    using resolve_not_superseded(1,2) assms by blast+
  have wide: "checkWide cov \<longleftrightarrow> EntitiesImpacted ev = []"
    using candidate_add_all [of ?c ?ns] by (simp add: cov candidate_of_def newEventCoverage_def Let_def)
  have sub: "set (remaining cov) \<subseteq> effects ev"
    using remaining_subset [of ?c ?ns] by (simp add: cov effects_def)
  consider (whole) "\<not> projected cov" | (check) "projected cov" "checkWide cov"
    | (over) "projected cov" "\<not> checkWide cov" "maximalResidualRectangles (remaining cov) = None"
    | (rect) rs where "projected cov" "\<not> checkWide cov" "maximalResidualRectangles (remaining cov) = Some rs"
    by (cases "maximalResidualRectangles (remaining cov)") auto
  then show ?thesis
  proof cases
    case whole
    then have "effects ev = set (remaining cov)" using not_projected [of ?c ?ns] by (simp add: cov effects_def)
    with whole show ?thesis by (simp add: ProjectHealthEvent_def withRecoveryEffects_def carries_single)
  next
    case check
    let ?p = "ev\<lparr>EntitiesImpacted := [], ErrorCode := projectedErrorCodes ev (sort (map ef_errorCode (remaining cov)))\<rparr>"
    have blank: "ef_entityType f = [] \<and> ef_entityValue f = []" if "f \<in> set (remaining cov)" for f
      using that sub check(2) wide by (auto simp: effects_iff)
    have "sort (map ef_errorCode (remaining cov)) \<noteq> []" using ne by (metis length_0_conv length_map length_sort)
    then have "effects ?p = set (remaining cov)"
      using blank codes_projected [of "sort (map ef_errorCode (remaining cov))" ev]
      by (auto simp: effects_iff image_iff effect_eq) (metis effect_eq)
    with check ne show ?thesis
      by (simp add: ProjectHealthEvent_def withRecoveryEffects_def projectCheckWideHealthEvent_def carries_single)
  next
    case over
    with rectangles_overflow ne show ?thesis by (simp add: ProjectHealthEvent_def withRecoveryEffects_def)
  next
    case rect
    with carries_rectangles ne show ?thesis by (simp add: ProjectHealthEvent_def withRecoveryEffects_def)
  qed
qed

theorem residual_projection_exact_witness:
  "carries (ProjectHealthEvent (withRecoveryEffects None (Some residual_coverage)) two_gpu_fault)
     [mk_effect ''GPU'' ''1'' ''79'', mk_effect ''GPU'' ''1'' ''48'', mk_effect ''GPU'' ''0'' ''48'']"
proof -
  have "length (ProjectHealthEvent (withRecoveryEffects None (Some residual_coverage)) two_gpu_fault) = 2"
    by code_simp
  then have "ProjectHealthEvent (withRecoveryEffects None (Some residual_coverage)) two_gpu_fault \<noteq> [two_gpu_fault]"
    by auto
  with residual_projection_exact [of 5 "scan_of fault_records" "\<lparr>until = 9\<rparr>" two_gpu_fault fault_records
      pair_codec "''a''" residual_coverage None] fault_example
  show ?thesis by (simp add: scan_of_def) (simp add: residual_coverage_def)
qed

end
