(* ===== verification/Cold_Start_Properties.thy ===== *)
theory Cold_Start_Properties
  imports Cold_Start Supersession_Properties Query_Properties
begin

text \<open>
  Properties of the cold start: the order of its two phases, observed through a processor
  that records every call it is given; the single node snapshot of a replay; and the
  documents its query selects, through the MongoDB rendering of the query builder.
\<close>

section \<open>Recording a replay\<close>

text \<open>
  An entry records a call of the processor: an event handed over, with the effects in force, or a batch
  of completions, each with the state it left and whether it failed.
\<close>

datatype 'w entry =
    Handed 'w "eventCoverage option" "health_event option" string bool
  | Marked 'w "StoredEventCompletion list" bool

type_synonym 'w call_log = "'w entry list"

fun entry_state :: "'w entry \<Rightarrow> 'w" where
  "entry_state (Handed w eff ev i failed) = w"
| "entry_state (Marked w cs failed) = w"

fun entry_failed :: "'w entry \<Rightarrow> bool" where
  "entry_failed (Handed w eff ev i failed) = failed"
| "entry_failed (Marked w cs failed) = failed"

definition log_processor :: "'w EventProcessor \<Rightarrow> ('w \<times> 'w call_log) EventProcessor" where
  "log_processor proc =
     \<lparr>ProcessStoredEvent = (\<lambda>(w, l) eff ev i.
        let (w', outcome) = ProcessStoredEvent proc w eff ev i
        in ((w', l @ [Handed w' eff ev i (case outcome of Inl _ \<Rightarrow> True | Inr _ \<Rightarrow> False)]), outcome)),
      CompleteStoredEvents = (\<lambda>(w, l) cs.
        let (w', err) = CompleteStoredEvents proc w cs in ((w', l @ [Marked w' cs (err \<noteq> None)]), err))\<rparr>"

definition log_deps :: "('w, 'raw) Dependencies \<Rightarrow> ('w \<times> 'w call_log, 'raw) Dependencies" where
  "log_deps deps = \<lparr>HealthEventStore = map_option (\<lambda>store (w, l). store w) (HealthEventStore deps),
     Processor = map_option log_processor (Processor deps),
     ColdStartAfterTime = ColdStartAfterTime deps, ColdStartUntilTime = ColdStartUntilTime deps\<rparr>"

text \<open>The state after a part of the log that started in \<^verbatim>\<open>w\<close>, and all the states it went through.\<close>

definition after :: "'w \<Rightarrow> 'w call_log \<Rightarrow> 'w" where
  "after w l = (if l = [] then w else entry_state (last l))"

definition visited :: "'w \<Rightarrow> 'w call_log \<Rightarrow> 'w set" where
  "visited w l = insert w (entry_state ` set l)"

lemma after_simps [simp]: "after w [] = w" "after w [e] = entry_state e"
  by (simp_all add: after_def)

lemma after_append [simp]: "after w (a @ b) = after (after w a) b"
  by (simp add: after_def)

lemma after_visited: "after w l \<in> visited w l"
  by (simp add: after_def visited_def)

lemma visited_left: "x \<in> visited w a \<Longrightarrow> x \<in> visited w (a @ b)"
  by (auto simp: visited_def)

lemma visited_right: "x \<in> visited (after w a) b \<Longrightarrow> x \<in> visited w (a @ b)"
  using after_visited [of w a] by (auto simp: visited_def)

text \<open>The two kinds of stored records: a record that cannot be read goes with the faults.\<close>

definition healthy_record :: "'raw codec \<Rightarrow> 'raw stored_record \<Rightarrow> bool" where
  "healthy_record cd r = (case parseStoredRecord cd r of Inr (Some ev) \<Rightarrow> IsHealthy ev | _ \<Rightarrow> False)"

text \<open>
  What the supersession resolver said of a record in one of the given states, and the two ways in which a
  record is dealt with: handed over without a failure, or marked as completed because it cannot be
  read or is superseded.
\<close>

definition resolved_in ::
  "'raw codec \<Rightarrow> ('w \<Rightarrow> Builder \<Rightarrow> nat \<Rightarrow> 'raw scan) \<Rightarrow> supersessionResolver \<Rightarrow> 'w set \<Rightarrow> 'raw stored_record \<Rightarrow>
   StoredDocumentID \<Rightarrow> health_event option \<Rightarrow> bool \<times> eventCoverage option \<Rightarrow> bool" where
  "resolved_in cd store rsv S r d ev verdict \<longleftrightarrow>
     storedDocumentID cd (RawEvent r) = Inr d \<and> parseStoredRecord cd r = Inr ev \<and>
     (\<exists>w \<in> S. resolve cd (store w) rsv ev (CreatedAt r) (id_string d) = Inr verdict)"

definition settled_by ::
  "'raw codec \<Rightarrow> ('w \<Rightarrow> Builder \<Rightarrow> nat \<Rightarrow> 'raw scan) \<Rightarrow> supersessionResolver \<Rightarrow> 'w \<Rightarrow> 'w call_log \<Rightarrow>
   StoredEventCompletion set \<Rightarrow> 'raw stored_record \<Rightarrow> bool" where
  "settled_by cd store rsv w l C r \<longleftrightarrow>
     (\<exists>d. storedDocumentID cd (RawEvent r) = Inr d \<and>
        ((\<exists>w' eff ev. parseStoredRecord cd r = Inr ev \<and> Handed w' eff ev (id_string d) False \<in> set l) \<or>
         (\<exists>c \<in> C. DocumentID c = d \<and>
            ((\<exists>e. parseStoredRecord cd r = Inl e) \<or>
             (\<exists>ev eff. resolved_in cd store rsv (visited w l) r d ev (True, eff))))))"

definition marked :: "'w call_log \<Rightarrow> StoredEventCompletion set" where
  "marked l = {c. \<exists>w cs. Marked w cs False \<in> set l \<and> c \<in> set cs}"

definition all_settled ::
  "'raw codec \<Rightarrow> ('w \<Rightarrow> Builder \<Rightarrow> nat \<Rightarrow> 'raw scan) \<Rightarrow> supersessionResolver \<Rightarrow> bool \<Rightarrow> 'raw stored_record list \<Rightarrow>
   'w \<Rightarrow> 'w call_log \<Rightarrow> bool" where
  "all_settled cd store rsv h rs w l \<longleftrightarrow>
     \<not> list_ex entry_failed l \<and> (\<forall>r \<in> set rs. healthy_record cd r = h \<longrightarrow> settled_by cd store rsv w l (marked l) r)"

text \<open>Every event handed over is that of a scanned record, not superseded, with exactly its remaining effects.\<close>

definition handed_due ::
  "'raw codec \<Rightarrow> ('w \<Rightarrow> Builder \<Rightarrow> nat \<Rightarrow> 'raw scan) \<Rightarrow> supersessionResolver \<Rightarrow> bool \<Rightarrow> 'raw stored_record list \<Rightarrow>
   'w \<Rightarrow> 'w call_log \<Rightarrow> bool" where
  "handed_due cd store rsv h rs w l \<longleftrightarrow>
     (\<forall>w' eff ev i failed. Handed w' eff ev i failed \<in> set l \<longrightarrow>
        (\<exists>r \<in> set rs. healthy_record cd r = h \<and>
           (\<exists>d effects. id_string d = i \<and> eff = withRecoveryEffects None effects \<and>
              resolved_in cd store rsv (visited w l) r d ev (False, effects))))"

lemma resolved_in_mono: "resolved_in cd store rsv S r d ev v \<Longrightarrow> S \<subseteq> T \<Longrightarrow> resolved_in cd store rsv T r d ev v"
  by (auto simp: resolved_in_def)

lemma settled_by_left: "settled_by cd store rsv w a C r \<Longrightarrow> C \<subseteq> D \<Longrightarrow> settled_by cd store rsv w (a @ b) D r"
  unfolding settled_by_def using resolved_in_mono [of cd store rsv "visited w a" r _ _ _ "visited w (a @ b)"]
  by (fastforce intro: visited_left)

lemma settled_by_right:
  "settled_by cd store rsv (after w a) b C r \<Longrightarrow> C \<subseteq> D \<Longrightarrow> settled_by cd store rsv w (a @ b) D r"
  unfolding settled_by_def using resolved_in_mono [of cd store rsv "visited (after w a) b" r _ _ _ "visited w (a @ b)"]
  by (fastforce intro: visited_right)

lemma marked_append: "marked (a @ b) = marked a \<union> marked b"
  by (auto simp: marked_def)

lemma handed_due_append:
  assumes a: "handed_due cd store rsv h rs w a" and b: "handed_due cd store rsv h rs' (after w a) b"
    and sub: "set rs \<subseteq> set qs" "set rs' \<subseteq> set qs"
  shows "handed_due cd store rsv h qs w (a @ b)"
  unfolding handed_due_def
proof (intro allI impI)
  fix w' eff ev i failed
  assume "Handed w' eff ev i failed \<in> set (a @ b)"
  then consider "Handed w' eff ev i failed \<in> set a" | "Handed w' eff ev i failed \<in> set b" by auto
  then show "\<exists>r \<in> set qs. healthy_record cd r = h \<and>
      (\<exists>d effects. id_string d = i \<and> eff = withRecoveryEffects None effects \<and>
         resolved_in cd store rsv (visited w (a @ b)) r d ev (False, effects))"
  proof cases
    case 1
    with a sub(1) show ?thesis unfolding handed_due_def
      by (meson resolved_in_mono subsetD subsetI visited_left)
  next
    case 2
    with b sub(2) show ?thesis unfolding handed_due_def
      by (meson resolved_in_mono subsetD subsetI visited_right)
  qed
qed

lemma handed_due_none: "(\<And>w' eff ev i failed. Handed w' eff ev i failed \<notin> set l) \<Longrightarrow> handed_due cd store rsv h rs w l"
  by (simp add: handed_due_def)

text \<open>
  What a step of one phase does, over the records \<^verbatim>\<open>rs\<close>: it hands over only what is due, keeps an earlier
  failure, and when neither a failure nor an error is left it has dealt with every record of its kind.
\<close>

definition phase_step ::
  "'raw codec \<Rightarrow> ('w \<Rightarrow> Builder \<Rightarrow> nat \<Rightarrow> 'raw scan) \<Rightarrow> supersessionResolver \<Rightarrow> bool \<Rightarrow> 'raw stored_record list \<Rightarrow>
   'w \<Rightarrow> 'w call_log \<Rightarrow> recoveryProgress \<Rightarrow> recoveryProgress \<Rightarrow> error option \<Rightarrow> bool" where
  "phase_step cd store rsv h rs w ext p p' err \<longleftrightarrow>
     handed_due cd store rsv h rs w ext \<and> (firstErr p \<noteq> None \<longrightarrow> firstErr p' \<noteq> None) \<and>
     (firstErr p' = None \<longrightarrow> err = None \<longrightarrow> all_settled cd store rsv h rs w ext)"

lemma phase_step_refl: "phase_step cd store rsv h [] w [] p p err"
  by (simp add: phase_step_def handed_due_def all_settled_def)

lemma all_settled_append:
  assumes "all_settled cd store rsv h rs w a" and "all_settled cd store rsv h rs' (after w a) b"
  shows "all_settled cd store rsv h (rs @ rs') w (a @ b)"
  using assms unfolding all_settled_def marked_append
  by (auto simp: list_ex_append intro: settled_by_left settled_by_right)

lemma phase_step_append:
  assumes a: "phase_step cd store rsv h rs w a p p1 None" and b: "phase_step cd store rsv h rs' (after w a) b p1 p2 err"
  shows "phase_step cd store rsv h (rs @ rs') w (a @ b) p p2 err"
proof -
  have "handed_due cd store rsv h (rs @ rs') w (a @ b)"
    by (rule handed_due_append [where rs = rs and rs' = rs']) (use a b in \<open>auto simp: phase_step_def\<close>)
  moreover have "all_settled cd store rsv h (rs @ rs') w (a @ b)" if "firstErr p2 = None" "err = None"
    by (rule all_settled_append) (use a b that in \<open>auto simp: phase_step_def\<close>)
  ultimately show ?thesis using a b unfolding phase_step_def by blast
qed

lemma handed_due_more:
  "handed_due cd store rsv h rs w l \<Longrightarrow> set rs \<subseteq> set qs \<Longrightarrow> handed_due cd store rsv h qs w l"
  using handed_due_append [of cd store rsv h rs w l "[]" "[]" qs] by (simp add: handed_due_none)

lemma phase_step_more:
  "phase_step cd store rsv h rs w l p p' (Some e) \<Longrightarrow> set rs \<subseteq> set qs \<Longrightarrow> phase_step cd store rsv h qs w l p p' (Some e)"
  by (auto simp: phase_step_def intro: handed_due_more)

lemma split_result:
  obtains a b c d where "x = ((a, b), c, d)"
  by (metis surj_pair)

locale recorded_replay =
  fixes env :: "('w \<times> 'w call_log, 'raw) replay_env"
    and proc :: "'w EventProcessor" and store :: "'w \<Rightarrow> Builder \<Rightarrow> nat \<Rightarrow> 'raw scan"
  assumes recorded: "env_processor env = log_processor proc"
    and stored_as: "env_store env = (\<lambda>(w, l). store w)"
begin

abbreviation codec_env :: "'raw codec" where
  "codec_env \<equiv> env_codec env"

lemma recover_one:
  assumes "recoverStoredEvent env (parseStoredRecoveryEvent codec_env r) (w, l) = ((w', l'), c, err)"
    and "healthy_record codec_env r = h"
  obtains ext where "l' = l @ ext" "w' = after w ext" "handed_due codec_env store (env_resolver env) h [r] w ext"
    "marked ext = {}"
    "err = None \<Longrightarrow> \<not> list_ex entry_failed ext \<and> settled_by codec_env store (env_resolver env) w ext (set_option c) r"
proof -
  have "\<exists>ext. l' = l @ ext \<and> w' = after w ext \<and> handed_due codec_env store (env_resolver env) h [r] w ext \<and> marked ext = {} \<and>
    (err = None \<longrightarrow> \<not> list_ex entry_failed ext \<and> settled_by codec_env store (env_resolver env) w ext (set_option c) r)"
  proof (cases "l' = l")
    case True
    with assms have "w' = w \<and> (err = None \<longrightarrow> settled_by codec_env store (env_resolver env) w [] (set_option c) r)"
      by (auto simp: recoverStoredEvent_def parseStoredRecoveryEvent_def recorded stored_as log_processor_def Let_def
          settled_by_def resolved_in_def visited_def
          split: option.splits sum.splits prod.splits if_splits bool.splits) (metis option.exhaust)+
    with True show ?thesis by (intro exI [of _ "[]"]) (simp add: handed_due_def marked_def)
  next
    case False
    with assms(1) have ctx: "env_ctxErr env (w, l) = None" by (auto simp: recoverStoredEvent_def split: option.splits)
    from False assms(1) obtain d ev effects where r: "storedDocumentID codec_env (RawEvent r) = Inr d"
      "parseStoredRecord codec_env r = Inr ev"
      "resolve codec_env (store w) (env_resolver env) ev (CreatedAt r) (id_string d) = Inr (False, effects)"
      by (auto simp: recoverStoredEvent_def parseStoredRecoveryEvent_def stored_as split: option.splits sum.splits bool.splits)
    obtain w1 outcome where "ProcessStoredEvent proc w (withRecoveryEffects None effects) ev (id_string d) = (w1, outcome)"
      by fastforce
    with assms(1) r ctx have w1: "w' = w1" and l': "l' = l @ [Handed w' (withRecoveryEffects None effects) ev (id_string d)
        (case outcome of Inl _ \<Rightarrow> True | Inr _ \<Rightarrow> False)]" and err: "err = None \<Longrightarrow> \<exists>x. outcome = Inr x"
      by (auto simp: recoverStoredEvent_def parseStoredRecoveryEvent_def recorded stored_as log_processor_def Let_def
          split: sum.splits if_splits)
    have "resolved_in codec_env store (env_resolver env) (visited w [e]) r d ev (False, effects)" for e
      using r by (auto simp: resolved_in_def visited_def)
    with assms(2) r l' err show ?thesis
      by (intro exI [of _ "[Handed w' (withRecoveryEffects None effects) ev (id_string d) (case outcome of Inl _ \<Rightarrow> True | Inr _ \<Rightarrow> False)]"])
        (auto simp: handed_due_def settled_by_def marked_def)
  qed
  then show ?thesis using that by blast
qed

lemma record_failure_step:
  assumes "recordFailure p err = (p', stop)"
  shows "firstErr p \<noteq> None \<longrightarrow> firstErr p' \<noteq> None" and "err \<noteq> None \<longrightarrow> firstErr p' \<noteq> None \<or> stop \<noteq> None"
  using assms by (auto simp: recordFailure_def split: option.splits if_splits)

text \<open>One event after the other: a completion is pending until its batch is marked.\<close>

lemma recover_each_step:
  assumes "recover_each env (map (parseStoredRecoveryEvent codec_env) rs) cs p (w, l) = ((w', l'), p', out)"
    and "\<forall>r \<in> set rs. healthy_record codec_env r = h"
  shows "\<exists>ext. l' = l @ ext \<and> w' = after w ext \<and> handed_due codec_env store (env_resolver env) h rs w ext \<and> marked ext = {} \<and>
    (firstErr p \<noteq> None \<longrightarrow> firstErr p' \<noteq> None) \<and>
    (\<forall>cs'. out = Inr cs' \<longrightarrow> set cs \<subseteq> set cs' \<and> (firstErr p' = None \<longrightarrow> \<not> list_ex entry_failed ext \<and>
       (\<forall>r \<in> set rs. settled_by codec_env store (env_resolver env) w ext (set cs') r)))"
  using assms
proof (induction rs arbitrary: cs p w l)
  case Nil
  then show ?case by (intro exI [of _ "[]"]) (auto simp: handed_due_def marked_def)
next
  case (Cons r rs)
  let ?e = "parseStoredRecoveryEvent codec_env r"
  obtain w1 l1 c err where one: "recoverStoredEvent env ?e (w, l) = ((w1, l1), c, err)" by (rule split_result)
  obtain p1 stop where fail: "recordFailure p err = (p1, stop)" by fastforce
  obtain a where a: "l1 = l @ a" "w1 = after w a" "handed_due codec_env store (env_resolver env) h [r] w a" "marked a = {}"
    "err = None \<Longrightarrow> \<not> list_ex entry_failed a \<and> settled_by codec_env store (env_resolver env) w a (set_option c) r"
    by (rule recover_one [OF one]) (use Cons.prems(2) in auto)
  show ?case
  proof (cases stop)
    case (Some e)
    with Cons.prems(1) one fail have "l' = l1" "w' = w1" "p' = p1" "out = Inl e" by (auto simp: Let_def)
    with a record_failure_step(1) [OF fail] show ?thesis
      by (intro exI [of _ a]) (auto intro: handed_due_more)
  next
    case None
    define cs1 where "cs1 = (case c of None \<Rightarrow> cs | Some c \<Rightarrow> cs @ [c])"
    have cs1: "set cs1 = set cs \<union> set_option c" by (cases c) (auto simp: cs1_def)
    from None Cons.prems(1) one fail have
      "recover_each env (map (parseStoredRecoveryEvent codec_env) rs) cs1 p1 (w1, l1) = ((w', l'), p', out)"
      by (simp add: Let_def cs1_def)
    from Cons.IH [OF this] Cons.prems(2) obtain b where b: "l' = l1 @ b" "w' = after w1 b"
      "handed_due codec_env store (env_resolver env) h rs w1 b" "marked b = {}" "firstErr p1 \<noteq> None \<longrightarrow> firstErr p' \<noteq> None"
      and out: "\<forall>cs'. out = Inr cs' \<longrightarrow> set cs1 \<subseteq> set cs' \<and> (firstErr p' = None \<longrightarrow> \<not> list_ex entry_failed b \<and>
         (\<forall>r \<in> set rs. settled_by codec_env store (env_resolver env) w1 b (set cs') r))" by auto
    have due: "handed_due codec_env store (env_resolver env) h (r # rs) w (a @ b)"
      by (rule handed_due_append [OF a(3)]) (use b(3) a(2) in auto)
    have "set cs \<subseteq> set cs' \<and> (firstErr p' = None \<longrightarrow> \<not> list_ex entry_failed (a @ b) \<and>
       (\<forall>r' \<in> set (r # rs). settled_by codec_env store (env_resolver env) w (a @ b) (set cs') r'))" if cs': "out = Inr cs'" for cs'
    proof (intro conjI impI)
      from out cs' cs1 show "set cs \<subseteq> set cs'" by blast
      assume ok: "firstErr p' = None"
      with b(5) record_failure_step(2) [OF fail] None have "err = None" by auto
      with a(5) have a': "\<not> list_ex entry_failed a" "settled_by codec_env store (env_resolver env) w a (set_option c) r" by auto
      from out cs' ok have b': "\<not> list_ex entry_failed b" "set_option c \<subseteq> set cs'"
        "\<forall>r \<in> set rs. settled_by codec_env store (env_resolver env) w1 b (set cs') r" using cs1 by auto
      show "\<not> list_ex entry_failed (a @ b)" using a' b' by (simp add: list_ex_append)
      show "\<forall>r' \<in> set (r # rs). settled_by codec_env store (env_resolver env) w (a @ b) (set cs') r'"
        using settled_by_left [OF a'(2) b'(2)] b'(3) by (auto simp: a(2) intro: settled_by_right [OF _ subset_refl])
    qed
    with a b due record_failure_step(1) [OF fail] show ?thesis
      by (intro exI [of _ "a @ b"]) (simp add: marked_append)
  qed
qed

lemma recover_batch_step:
  assumes "recoverBatch env h rs p (w, l) = ((w', l'), p', err)"
  shows "\<exists>ext. l' = l @ ext \<and> w' = after w ext \<and> phase_step codec_env store (env_resolver env) h rs w ext p p' err"
proof -
  let ?rs = "filter (\<lambda>r. healthy_record codec_env r = h) rs"
  have "filter (\<lambda>c. is_healthy_candidate c = h) (map (parseStoredRecoveryEvent codec_env) rs) = map (parseStoredRecoveryEvent codec_env) ?rs"
    by (simp add: filter_map comp_def is_healthy_candidate_def parseStoredRecoveryEvent_def healthy_record_def)
  then have batch: "recoverEvents env (map (parseStoredRecoveryEvent codec_env) ?rs) p (w, l) = ((w', l'), p', err)"
    using assms by (simp add: recoverBatch_def)
  obtain w1 l1 p1 out where each: "recover_each env (map (parseStoredRecoveryEvent codec_env) ?rs) [] p (w, l) = ((w1, l1), p1, out)"
    by (rule split_result)
  from recover_each_step [OF this, of h] obtain a where a: "l1 = l @ a" "w1 = after w a"
    "handed_due codec_env store (env_resolver env) h ?rs w a" "marked a = {}" "firstErr p \<noteq> None \<longrightarrow> firstErr p1 \<noteq> None"
    and out: "\<forall>cs'. out = Inr cs' \<longrightarrow> firstErr p1 = None \<longrightarrow> \<not> list_ex entry_failed a \<and>
       (\<forall>r \<in> set ?rs. settled_by codec_env store (env_resolver env) w a (set cs') r)" by auto
  have due: "handed_due codec_env store (env_resolver env) h rs w a" by (rule handed_due_more [OF a(3)]) auto
  show ?thesis
  proof (cases out)
    case (Inl e)
    with batch each have "w' = w1" "l' = l1" "p' = p1" "err = Some e" by (simp_all add: recoverEvents_def)
    with a due show ?thesis by (intro exI [of _ a]) (simp add: phase_step_def)
  next
    case (Inr cs)
    show ?thesis
    proof (cases "cs = []")
      case True
      with batch each Inr have "w' = w1" "l' = l1" "p' = p1" "err = None" by (simp_all add: recoverEvents_def)
      with a due out Inr True show ?thesis by (intro exI [of _ a]) (auto simp: phase_step_def all_settled_def)
    next
      case False
      obtain w2 e2 where comp: "CompleteStoredEvents proc w1 cs = (w2, e2)" by fastforce
      let ?m = "[Marked w2 cs (e2 \<noteq> None)]"
      have res: "w' = w2" "l' = l1 @ ?m" "p' = p1" "(err = None) = (e2 = None)"
        using batch each Inr False comp by (auto simp: recoverEvents_def recorded log_processor_def split: option.splits)
      have due': "handed_due codec_env store (env_resolver env) h rs w (a @ ?m)"
        by (rule handed_due_append [OF due handed_due_none [where rs = rs]]) auto
      have "all_settled codec_env store (env_resolver env) h rs w (a @ ?m)" if "firstErr p1 = None" "e2 = None"
      proof -
        have "marked (a @ ?m) = set cs" using a(4) that by (auto simp: marked_append) (auto simp: marked_def)
        with out Inr that show ?thesis by (auto simp: all_settled_def list_ex_append intro: settled_by_left)
      qed
      with res a due' show ?thesis by (intro exI [of _ "a @ ?m"]) (simp add: phase_step_def)
    qed
  qed
qed

lemma recover_batches_step:
  "recover_batches env h batches scanErr p (w, l) = ((w', l'), p', err) \<Longrightarrow>
     \<exists>ext. l' = l @ ext \<and> w' = after w ext \<and> phase_step codec_env store (env_resolver env) h (concat batches) w ext p p' err \<and>
       (err = None \<longrightarrow> scanErr = None)"
proof (induction batches arbitrary: p w l)
  case Nil
  then show ?case by (intro exI [of _ "[]"]) (auto simp: phase_step_refl)
next
  case (Cons b bs)
  obtain w1 l1 p1 e1 where batch: "recoverBatch env h b p (w, l) = ((w1, l1), p1, e1)" by (rule split_result)
  from recover_batch_step [OF batch] obtain x where x: "l1 = l @ x" "w1 = after w x"
    "phase_step codec_env store (env_resolver env) h b w x p p1 e1" by blast
  show ?case
  proof (cases e1)
    case None
    with Cons.prems batch have "recover_batches env h bs scanErr p1 (w1, l1) = ((w', l'), p', err)" by simp
    from Cons.IH [OF this] obtain y where "l' = l1 @ y" "w' = after w1 y"
      "phase_step codec_env store (env_resolver env) h (concat bs) w1 y p1 p' err" "err = None \<longrightarrow> scanErr = None" by blast
    with x None phase_step_append [of codec_env store "env_resolver env" h b w x p p1 "concat bs" y p' err] show ?thesis
      by (intro exI [of _ "x @ y"]) simp
  next
    case (Some e)
    with Cons.prems batch x show ?thesis
      by (intro exI [of _ x]) (auto intro: phase_step_more)
  qed
qed

lemma recovery_phase_step:
  assumes "recovery_phase env q h p (w, l) = ((w', l'), p', err)"
  obtains ext where "l' = l @ ext" "w' = after w ext"
    "phase_step codec_env store (env_resolver env) h (concat (fst (store w q batchSize))) w ext p p' err"
    "err = None \<longrightarrow> snd (store w q batchSize) = None"
  using recover_batches_step assms by (auto simp: recovery_phase_def stored_as split: prod.splits) blast

end

text \<open>The environment that \<^verbatim>\<open>Handle\<close> builds from recorded dependencies.\<close>

definition handle_env ::
  "'raw codec \<Rightarrow> ('w \<Rightarrow> error option) \<Rightarrow> ('w \<Rightarrow> Builder \<Rightarrow> nat \<Rightarrow> 'raw scan) \<Rightarrow> 'w EventProcessor \<Rightarrow> int \<Rightarrow>
   ('w \<times> 'w call_log, 'raw) replay_env" where
  "handle_env cd ctxErr store proc t =
     \<lparr>env_codec = cd, env_ctxErr = (\<lambda>(w, l). ctxErr w), env_store = (\<lambda>(w, l). store w),
      env_processor = log_processor proc, env_resolver = newSupersessionResolver t\<rparr>"

interpretation rp: recorded_replay "handle_env cd ctxErr store proc t" proc store for cd ctxErr store proc t
  by unfold_locales (simp_all add: handle_env_def)

lemma handle_phase:
  assumes "recovery_phase (handle_env cd ctxErr store proc t) q h p (w, l) = ((w', l'), p', err)"
  obtains ext where "l' = l @ ext" "w' = after w ext"
    "phase_step cd store (newSupersessionResolver t) h (concat (fst (store w q batchSize))) w ext p p' err"
    "err = None \<longrightarrow> snd (store w q batchSize) = None"
  by (rule rp.recovery_phase_step [OF assms]) (use that in \<open>simp add: handle_env_def\<close>)

section \<open>Properties\<close>

text \<open>The records that the recovery query of a cold start finds in a state, in the order of the scan.\<close>

definition recovery_scan :: "int \<Rightarrow> ('w, 'raw) Dependencies \<Rightarrow> ('w \<Rightarrow> Builder \<Rightarrow> nat \<Rightarrow> 'raw scan) \<Rightarrow> 'w \<Rightarrow> 'raw scan" where
  "recovery_scan now deps store w =
     store w (coldStartQuery (after_time now (ColdStartAfterTime deps) (ColdStartUntilTime deps)) (ColdStartUntilTime deps)) batchSize"

text \<open>
  C9. A cold start works in two phases: it first hands over stored faults, then recoveries, and each event that it
  hands to the processor is that of a record of its scan, was found not superseded, and comes with exactly its remaining
  effects. It touches no recovery, and reports no success, unless the scan of the faults was complete and
  every fault it found was handed over without a failure, or marked as completed because it cannot be
  read or is superseded: a fault whose document cannot be identified, whose newer state cannot be resolved or whose
  processing fails stops the recoveries. It reports success only when the recoveries were dealt with as well.
\<close>

theorem cold_start_order:
  assumes deps: "HealthEventStore deps = Some store" "Processor deps = Some proc"
    and run: "Handle cd (\<lambda>(w, l). ctxErr w) now (log_deps deps) (w, []) = ((w', l), err)"
    and rsv: "rsv = newSupersessionResolver (ColdStartUntilTime deps)"
  shows "\<exists>faults recoveries. l = faults @ recoveries \<and>
    handed_due cd store rsv False (concat (fst (recovery_scan now deps store w))) w faults \<and>
    handed_due cd store rsv True (concat (fst (recovery_scan now deps store (after w faults)))) (after w faults) recoveries \<and>
    (recoveries \<noteq> [] \<or> err = None \<longrightarrow> snd (recovery_scan now deps store w) = None \<and>
       all_settled cd store rsv False (concat (fst (recovery_scan now deps store w))) w faults) \<and>
    (err = None \<longrightarrow> snd (recovery_scan now deps store (after w faults)) = None \<and>
       all_settled cd store rsv True (concat (fst (recovery_scan now deps store (after w faults)))) (after w faults) recoveries)"
proof -
  let ?env = "handle_env cd ctxErr store proc (ColdStartUntilTime deps)"
  let ?q = "coldStartQuery (after_time now (ColdStartAfterTime deps) (ColdStartUntilTime deps)) (ColdStartUntilTime deps)"
  let ?p = "\<lparr>firstErr = None, failures = 0\<rparr>"
  obtain w1 l1 p1 e1 where ph1: "recovery_phase ?env ?q False ?p (w, []) = ((w1, l1), p1, e1)" by (rule split_result)
  obtain w2 l2 p2 e2 where ph2: "recovery_phase ?env ?q True p1 (w1, l1) = ((w2, l2), p2, e2)" by (rule split_result)
  obtain fs where fs: "l1 = fs" "w1 = after w fs"
    "phase_step cd store rsv False (concat (fst (recovery_scan now deps store w))) w fs ?p p1 e1"
    "e1 = None \<longrightarrow> snd (recovery_scan now deps store w) = None"
    by (rule handle_phase [OF ph1]) (use rsv that in \<open>simp add: recovery_scan_def\<close>)
  obtain hs where hs: "l2 = l1 @ hs"
    "phase_step cd store rsv True (concat (fst (recovery_scan now deps store w1))) w1 hs p1 p2 e2"
    "e2 = None \<longrightarrow> snd (recovery_scan now deps store w1) = None"
    by (rule handle_phase [OF ph2]) (use rsv that in \<open>simp add: recovery_scan_def\<close>)
  have handle: "Handle cd (\<lambda>(w, l). ctxErr w) now (log_deps deps) (w, []) =
      (case e1 of Some e \<Rightarrow> ((w1, l1), Some (EWrap ''fault-quarantine cold start failed'' e))
       | None \<Rightarrow> (case (if firstErr p1 = None then ((w2, l2), p2, e2) else ((w1, l1), p1, None)) of
            (u, p, Some e) \<Rightarrow> (u, Some (EWrap ''fault-quarantine healthy recovery phase failed'' e))
          | (u, p, None) \<Rightarrow> (case firstErr p of
               Some e \<Rightarrow> (u, Some (EWrap (''fault-quarantine cold start completed with '' @
                  fmt_nat (failures p) @ '' event failures'') e))
             | None \<Rightarrow> (u, None))))"
    using ph1 ph2 unfolding Handle_def log_deps_def handle_env_def
    by (auto simp: deps Let_def split: option.split)
  consider (stop) "l = l1" "err \<noteq> None" | (recover) "l = l2" "e1 = None" "firstErr p1 = None"
      "err = None \<longrightarrow> e2 = None \<and> firstErr p2 = None"
    using run unfolding handle by (auto split: option.splits if_splits)
  then show ?thesis
  proof cases
    case stop
    with fs show ?thesis by (intro exI [of _ fs] exI [of _ "[]"]) (auto simp: phase_step_def handed_due_none)
  next
    case recover
    with fs hs show ?thesis by (intro exI [of _ fs] exI [of _ hs]) (auto simp: phase_step_def)
  qed
qed

text \<open>A store that holds an older recovery and a newer fault, and a processor that succeeds.\<close>

definition example_store :: "unit \<Rightarrow> Builder \<Rightarrow> nat \<Rightarrow> (string \<times> health_event option) scan" where
  "example_store w q n = ([[stored 3 ''a'' (Some gpu_recovery)], [stored 5 ''b'' (Some two_gpu_fault)]], None)"

definition example_processor :: "unit EventProcessor" where
  "example_processor = \<lparr>ProcessStoredEvent = (\<lambda>w eff ev i. (w, Inr ProcessResultProcessed)),
     CompleteStoredEvents = (\<lambda>w cs. (w, None))\<rparr>"

definition example_deps :: "(unit, string \<times> health_event option) Dependencies" where
  "example_deps = \<lparr>HealthEventStore = Some example_store, Processor = Some example_processor,
      ColdStartAfterTime = 1, ColdStartUntilTime = 9\<rparr>"

fun handed_ids :: "'w call_log \<Rightarrow> string list" where
  "handed_ids [] = []"
| "handed_ids (Handed w eff ev i failed # l) = i # handed_ids l"
| "handed_ids (Marked w cs failed # l) = handed_ids l"

lemma handed_ids_append: "handed_ids (a @ b) = handed_ids a @ handed_ids b"
  by (induction a rule: handed_ids.induct) simp_all

abbreviation "example_run \<equiv> Handle pair_codec (\<lambda>(w, l). None) 8 (log_deps example_deps) ((), [])"

lemma example_cold_start: "handed_ids (snd (fst example_run)) = [''b'', ''a'']" "snd example_run = None"
  by code_simp+

theorem cold_start_order_witness:
  "\<exists>faults recoveries. snd (fst example_run) = faults @ recoveries \<and>
     all_settled pair_codec example_store (newSupersessionResolver 9) False
       [stored 3 ''a'' (Some gpu_recovery), stored 5 ''b'' (Some two_gpu_fault)] () faults \<and>
     all_settled pair_codec example_store (newSupersessionResolver 9) True
       [stored 3 ''a'' (Some gpu_recovery), stored 5 ''b'' (Some two_gpu_fault)] () recoveries"
proof -
  have run: "Handle pair_codec (\<lambda>(w, l). (\<lambda>_. None) w) 8 (log_deps example_deps) ((), []) =
      ((fst (fst example_run), snd (fst example_run)), None)"
    using example_cold_start(2) by (simp only: prod_eq_iff fst_conv snd_conv simp_thms)
  have scan: "concat (fst (recovery_scan 8 example_deps example_store w)) =
      [stored 3 ''a'' (Some gpu_recovery), stored 5 ''b'' (Some two_gpu_fault)]" for w
    by (simp add: recovery_scan_def example_store_def)
  have deps: "HealthEventStore example_deps = Some example_store" "Processor example_deps = Some example_processor"
    "newSupersessionResolver 9 = newSupersessionResolver (ColdStartUntilTime example_deps)" by (simp_all add: example_deps_def)
  have unit: "after () l = ()" for l :: "unit call_log" by simp
  note order = cold_start_order [OF deps(1,2) run deps(3), unfolded scan unit]
  show ?thesis using order by (elim exE conjE) (intro exI conjI, assumption, simp_all only: simp_thms)
qed

text \<open>
  Within one replayed event every caller sees the same node snapshot: after the first
  lookup of a node any further lookup of it, with whatever loader and after lookups of other
  nodes, returns the same node or error without calling the loader, and a loaded node carries
  no status.
\<close>

theorem recovery_node_snapshot:
  assumes "GetRecoveryNode (Some nodes) name load w = (ctx, w1, n, err)"
    and "GetRecoveryNode ctx other load2 w2 = (ctx2, w3, result2)"
    and "map_of nodes name = None"
  shows "GetRecoveryNode ctx2 name load3 w4 = (ctx2, w4, n, err) \<and>
    (err = None \<longrightarrow> (case n of None \<Rightarrow> True | Some x \<Rightarrow> node_status x = None))"
proof -
  from assms(1,3) have ctx: "ctx = Some (AList.update name (n, err) nodes)"
    and st: "err = None \<longrightarrow> (case n of None \<Rightarrow> True | Some x \<Rightarrow> node_status x = None)"
    by (auto simp: GetRecoveryNode_def Let_def split: prod.splits option.splits if_splits)
  have "\<exists>nodes2. ctx2 = Some nodes2 \<and> map_of nodes2 name = Some (n, err)"
    using assms(2) unfolding ctx
    by (auto simp: GetRecoveryNode_def Let_def update_conv split: prod.splits option.splits if_splits)
  with st show ?thesis by (auto simp: GetRecoveryNode_def)
qed

theorem recovery_node_snapshot_witness:
  "GetRecoveryNode (Some [(''n1'', Some \<lparr>node_body = (7::nat), node_status = (None :: nat option)\<rparr>, None)]) ''n1''
      (\<lambda>w. (w + 1, None, Some (EText ''gone''))) (5 :: nat) =
    (Some [(''n1'', Some \<lparr>node_body = 7, node_status = None\<rparr>, None)], 5, Some \<lparr>node_body = 7, node_status = None\<rparr>, None)"
  using recovery_node_snapshot [of "[]" "''n1''" "\<lambda>w. (w, Some \<lparr>node_body = (7::nat), node_status = Some (1::nat)\<rparr>, None)" "0 :: nat"
      "Some [(''n1'', Some \<lparr>node_body = 7, node_status = None\<rparr>, None)]" 0 "Some \<lparr>node_body = 7, node_status = None\<rparr>" None
      "''n1''" "\<lambda>w. (w, None, None)" "0 :: nat" "Some [(''n1'', Some \<lparr>node_body = 7, node_status = None\<rparr>, None)]" 0
      "(Some \<lparr>node_body = 7, node_status = None\<rparr>, None)" "\<lambda>w. (w + 1, None, Some (EText ''gone''))" "5 :: nat"]
  by (simp add: GetRecoveryNode_def)

section \<open>What the queries select\<close>

text \<open>The documented meaning of the comparisons on a document's fields; a missing field is nil.\<close>

definition doc_test :: "(string \<Rightarrow> qvalue) \<Rightarrow> string \<Rightarrow> string \<Rightarrow> qvalue \<Rightarrow> bool" where
  "doc_test doc op f v =
     (if op = ''$eq'' then doc f = v
      else case (doc f, v) of
        (VTime a, VTime b) \<Rightarrow> (op = ''$gt'' \<and> a > b) \<or> (op = ''$gte'' \<and> a \<ge> b) \<or> (op = ''$lte'' \<and> a \<le> b)
      | _ \<Rightarrow> False)"

definition processable_doc :: "(string \<Rightarrow> qvalue) \<Rightarrow> bool" where
  "processable_doc doc \<longleftrightarrow>
     doc ''healthevent.processingstrategy'' = VInt 1 \<or> doc ''healthevent.processingStrategy'' = VInt 1 \<or>
     (doc ''healthevent.processingstrategy'' = VNil \<and> doc ''healthevent.processingStrategy'' = VNil)"

text \<open>A time field within bounds, where a zero bound is absent.\<close>

definition created_within :: "(string \<Rightarrow> qvalue) \<Rightarrow> (int \<Rightarrow> bool) \<Rightarrow> int \<Rightarrow> bool" where
  "created_within doc lower u \<longleftrightarrow> (\<exists>t. doc ''createdAt'' = VTime t \<and> lower t \<and> (u = 0 \<or> t \<le> u))"

lemma doc_test_time:
  "doc_test doc ''$gt'' f (VTime b) \<longleftrightarrow> (\<exists>t. doc f = VTime t \<and> t > b)"
  "doc_test doc ''$gte'' f (VTime b) \<longleftrightarrow> (\<exists>t. doc f = VTime t \<and> t \<ge> b)"
  "doc_test doc ''$lte'' f (VTime b) \<longleftrightarrow> (\<exists>t. doc f = VTime t \<and> t \<le> b)"
  by (simp_all add: doc_test_def split: qvalue.split)

lemma doc_test_eq [simp]: "doc_test doc ''$eq'' f v \<longleftrightarrow> doc f = v"
  by (simp add: doc_test_def)

text \<open>
  Through their MongoDB filters the two queries of the cold start select what they
  should. The recovery query selects the processable events that are not quarantined yet and
  carry no completion mark, created after the (non-zero) lower bound and not after the upper bound; the
  newer-event scan selects the processable events of the same agent, component, check, node
  and version (a missing version counts as 0) created from the candidate's time on and not
  after the upper bound.
\<close>

theorem cold_start_queries_select:
  assumes "a \<noteq> 0"
  shows "holds_filter (doc_test doc) (Builder_ToMongo oid (coldStartQuery a u)) =
     (doc ''healtheventstatus.nodequarantined'' \<in> {VNil, VString [], VString ''NotStarted''} \<and>
      doc ''healtheventstatus.faultquarantinerecovery'' \<in> {VNil, VString []} \<and> processable_doc doc \<and>
      created_within doc (\<lambda>t. t > a) u) \<and>
   holds_filter (doc_test doc) (Builder_ToMongo oid (Build (scan_condition \<lparr>until = u\<rparr> idt a) New)) =
     (doc ''healthevent.agent'' = VString (id_agent idt) \<and>
      doc ''healthevent.componentclass'' = VString (id_componentClass idt) \<and>
      doc ''healthevent.checkname'' = VString (id_checkName idt) \<and>
      doc ''healthevent.nodename'' = VString (id_nodeName idt) \<and>
      (doc ''healthevent.version'' = VInt (uint (id_version idt)) \<or>
       (id_version idt = 0 \<and> doc ''healthevent.version'' = VNil)) \<and>
      processable_doc doc \<and> created_within doc (\<lambda>t. t \<ge> a) u)"
proof -
  have plain: "plain c \<and> has_operands c \<Longrightarrow>
      holds_filter (doc_test doc) (Builder_ToMongo oid (Build c New)) = cond_holds oid (doc_test doc) c" for c
    using ToMongo_holds by (simp add: Builder_ToMongo_def Build_def New_def)
  have val: "f \<noteq> ''_id'' \<Longrightarrow> mongo_value oid f v = v" for f v
    by (simp add: mongo_value_def mongoIDFieldName_def)
  have proc: "cond_holds oid (doc_test doc) processableCondition = processable_doc doc"
    by (simp add: processableCondition_def processable_doc_def val Let_def)
  have proc_plain: "plain processableCondition \<and> has_operands processableCondition"
    by (simp add: processableCondition_def Let_def plain_field_def)
  have "holds_filter (doc_test doc) (Builder_ToMongo oid (coldStartQuery a u)) \<longleftrightarrow>
      doc ''healtheventstatus.nodequarantined'' \<in> {VNil, VString [], VString ''NotStarted''} \<and>
      doc ''healtheventstatus.faultquarantinerecovery'' \<in> {VNil, VString []} \<and> processable_doc doc \<and>
      created_within doc (\<lambda>t. t > a) u"
    using assms unfolding coldStartQuery_def Let_def
    by (subst plain)
      (auto simp: proc_plain proc val recoveryIncompleteCondition_def RecoveryCompletionStatusPath_def
        created_within_def doc_test_time)
  moreover have "holds_filter (doc_test doc) (Builder_ToMongo oid (Build (scan_condition \<lparr>until = u\<rparr> idt a) New)) =
     (doc ''healthevent.agent'' = VString (id_agent idt) \<and>
      doc ''healthevent.componentclass'' = VString (id_componentClass idt) \<and>
      doc ''healthevent.checkname'' = VString (id_checkName idt) \<and>
      doc ''healthevent.nodename'' = VString (id_nodeName idt) \<and>
      (doc ''healthevent.version'' = VInt (uint (id_version idt)) \<or>
       (id_version idt = 0 \<and> doc ''healthevent.version'' = VNil)) \<and>
      processable_doc doc \<and> created_within doc (\<lambda>t. t \<ge> a) u)"
    unfolding scan_condition_def Let_def
    by (subst plain) (auto simp: proc_plain proc val created_within_def doc_test_time)
  ultimately show ?thesis by blast
qed

theorem cold_start_queries_select_witness:
  "holds_filter (doc_test (\<lambda>f. if f = ''createdAt'' then VTime 5 else VNil)) (Builder_ToMongo (\<lambda>s. None) (coldStartQuery 3 9)) \<and>
   \<not> holds_filter (doc_test (\<lambda>f. if f = ''createdAt'' then VTime 5 else VNil)) (Builder_ToMongo (\<lambda>s. None) (coldStartQuery 5 9))"
  using cold_start_queries_select [of 3 "\<lambda>f. if f = ''createdAt'' then VTime 5 else VNil" "\<lambda>s. None" 9]
    cold_start_queries_select [of 5 "\<lambda>f. if f = ''createdAt'' then VTime 5 else VNil" "\<lambda>s. None" 9]
  by (simp add: processable_doc_def created_within_def)

end
