(* ===== verification/Go_Float.thy ===== *)
theory Go_Float
  imports Complex_Main "HOL-Library.Log_Nat"
begin

text \<open>
  The part of Go's float64 that the code uses: IEEE 754 binary64 values as rationals, with
  correctly rounded multiplication and division (round to nearest, ties to even), overflow to
  infinity, gradual underflow, comparison and \<^verbatim>\<open>math.Ceil\<close>. The sign of zero is not modelled:
  no code modelled here can observe it.
\<close>

section \<open>Values and rounding\<close>

datatype float64 = NaN | PInf | MInf | Fin rat

text \<open>The exponent of the leading bit of a positive rational.\<close>

definition log2_rat :: "rat \<Rightarrow> int" where
  "log2_rat x =
     (let (p, q) = quotient_of x; k = bitlen p - bitlen q
      in if (2 :: rat) powi k \<le> x then k else k - 1)"

text \<open>The distance between neighbouring values around a number; 2 to the -1074 at least.\<close>

definition ulp64 :: "rat \<Rightarrow> rat" where
  "ulp64 x = 2 powi (max (log2_rat \<bar>x\<bar>) (- 1022) - 52)"

definition round_even :: "rat \<Rightarrow> int" where
  "round_even x =
     (let d = x - of_int \<lfloor>x\<rfloor> in
      if d < 1 / 2 then \<lfloor>x\<rfloor> else if d > 1 / 2 then \<lfloor>x\<rfloor> + 1
      else if even \<lfloor>x\<rfloor> then \<lfloor>x\<rfloor> else \<lfloor>x\<rfloor> + 1)"

definition round64 :: "rat \<Rightarrow> float64" where
  "round64 x =
     (if x = 0 then Fin 0
      else let y = of_int (round_even (x / ulp64 x)) * ulp64 x in
        if y \<ge> 2 ^ 1024 then PInf else if y \<le> - (2 ^ 1024) then MInf else Fin y)"

definition f_of_int :: "int \<Rightarrow> float64" where
  "f_of_int n = round64 (of_int n)"

definition f_neg_inf :: "bool \<Rightarrow> float64" where
  "f_neg_inf neg = (if neg then MInf else PInf)"

fun f_mult :: "float64 \<Rightarrow> float64 \<Rightarrow> float64" where
  "f_mult NaN _ = NaN"
| "f_mult _ NaN = NaN"
| "f_mult (Fin a) (Fin b) = round64 (a * b)"
| "f_mult (Fin a) PInf = (if a = 0 then NaN else f_neg_inf (a < 0))"
| "f_mult (Fin a) MInf = (if a = 0 then NaN else f_neg_inf (a > 0))"
| "f_mult PInf (Fin b) = (if b = 0 then NaN else f_neg_inf (b < 0))"
| "f_mult MInf (Fin b) = (if b = 0 then NaN else f_neg_inf (b > 0))"
| "f_mult PInf PInf = PInf"
| "f_mult PInf MInf = MInf"
| "f_mult MInf PInf = MInf"
| "f_mult MInf MInf = PInf"

text \<open>Division by a positive number, the only one the code needs.\<close>

fun f_div_pos :: "float64 \<Rightarrow> rat \<Rightarrow> float64" where
  "f_div_pos (Fin a) b = round64 (a / b)"
| "f_div_pos v b = v"

fun f_less :: "float64 \<Rightarrow> float64 \<Rightarrow> bool" where
  "f_less NaN _ = False"
| "f_less _ NaN = False"
| "f_less (Fin a) (Fin b) = (a < b)"
| "f_less MInf v = (v \<noteq> MInf)"
| "f_less _ MInf = False"
| "f_less v PInf = (v \<noteq> PInf)"
| "f_less PInf _ = False"

text \<open>\<^verbatim>\<open>math.Ceil\<close>; the result is an integer of at most the same magnitude class, so exact.\<close>

fun f_ceil :: "float64 \<Rightarrow> float64" where
  "f_ceil (Fin a) = Fin (of_int \<lceil>a\<rceil>)"
| "f_ceil v = v"

text \<open>The conversion to int of a value within the range of int.\<close>

fun f_to_int :: "float64 \<Rightarrow> int" where
  "f_to_int (Fin a) = (if a \<ge> 0 then \<lfloor>a\<rfloor> else \<lceil>a\<rceil>)"
| "f_to_int v = 0"

definition f_is_finite :: "float64 \<Rightarrow> bool" where
  "f_is_finite v = (case v of Fin _ \<Rightarrow> True | _ \<Rightarrow> False)"

section \<open>Rounding laws\<close>

lemma bitlen_powi:
  assumes "p > 0"
  shows "(2 :: rat) powi (bitlen p - 1) \<le> of_int p" and "of_int p < (2 :: rat) powi bitlen p"
proof -
  have b: "bitlen p \<ge> 1" using assms bitlen_eq_zero_iff [of p] bitlen_nonneg [of p] by linarith
  have pw: "n \<ge> 0 \<Longrightarrow> (2 :: rat) powi n = of_int (2 ^ nat n)" for n by (simp add: power_int_def)
  have "2 ^ nat (bitlen p - 1) \<le> p" "p < 2 ^ nat (bitlen p)" using bitlen_bounds [OF assms] by auto
  then show "(2 :: rat) powi (bitlen p - 1) \<le> of_int p" and "of_int p < (2 :: rat) powi bitlen p"
    using b by (simp_all only: pw of_int_le_iff of_int_less_iff)
qed

lemma log2_rat_bounds:
  assumes "x > 0"
  shows "2 powi (log2_rat x) \<le> x" and "x < 2 powi (log2_rat x + 1)"
proof -
  obtain p q where pq: "quotient_of x = (p, q)" by fastforce
  have q: "q > 0" using quotient_of_denom_pos [OF pq] .
  have x: "x = of_int p / of_int q" using quotient_of_div [OF pq] .
  with assms q have p: "p > 0" by (simp add: zero_less_divide_iff)
  let ?k = "bitlen p - bitlen q"
  note bp = bitlen_powi [OF p] and bq = bitlen_powi [OF q]
  have low: "2 powi (?k - 1) \<le> x"
  proof -
    have "(2 :: rat) powi (?k - 1) * of_int q \<le> 2 powi (?k - 1) * 2 powi bitlen q"
      using bq(2) by (intro mult_left_mono) auto
    also have "\<dots> = 2 powi (bitlen p - 1)" by (simp flip: power_int_add)
    also have "\<dots> \<le> of_int p" using bp(1) .
    finally show ?thesis using q by (simp add: x pos_le_divide_eq)
  qed
  have high: "x < 2 powi (?k + 1)"
  proof -
    have "(of_int p :: rat) < 2 powi bitlen p" using bp(2) .
    also have "\<dots> = 2 powi (?k + 1) * 2 powi (bitlen q - 1)" by (simp flip: power_int_add)
    also have "\<dots> \<le> 2 powi (?k + 1) * of_int q" using bq(1) by (intro mult_left_mono) auto
    finally show ?thesis using q by (simp add: x pos_divide_less_eq)
  qed
  have "log2_rat x = (if (2 :: rat) powi ?k \<le> x then ?k else ?k - 1)" by (simp add: log2_rat_def pq)
  with low high show "2 powi (log2_rat x) \<le> x" and "x < 2 powi (log2_rat x + 1)" by (auto split: if_splits)
qed

lemma ulp64_pos [simp]: "ulp64 x > 0"
  by (simp add: ulp64_def)

lemma ulp64_simps [simp]: "0 \<le> ulp64 x" "ulp64 x \<noteq> 0"
  using ulp64_pos [of x] by linarith+

lemma round_even_close: "\<bar>of_int (round_even x) - x\<bar> \<le> 1 / 2"
proof -
  have "of_int \<lfloor>x\<rfloor> \<le> x" "x < of_int \<lfloor>x\<rfloor> + 1" by linarith+
  then show ?thesis by (auto simp: round_even_def Let_def abs_le_iff)
qed

lemma round_even_int [simp]: "round_even (of_int n) = n"
  by (simp add: round_even_def Let_def)

text \<open>The rounding error is at most half the distance of neighbouring values.\<close>

lemma round64_close:
  assumes "round64 x = Fin y"
  shows "\<bar>y - x\<bar> \<le> ulp64 x / 2"
proof (cases "x = 0")
  case True
  with assms show ?thesis using less_imp_le [OF ulp64_pos, of 0] by (simp add: round64_def)
next
  case False
  let ?u = "ulp64 x"
  from False assms have y: "y = of_int (round_even (x / ?u)) * ?u"
    by (simp add: round64_def Let_def split: if_splits)
  have "\<bar>of_int (round_even (x / ?u)) - x / ?u\<bar> * ?u \<le> 1 / 2 * ?u"
    using round_even_close [of "x / ?u"] ulp64_pos [of x] by (intro mult_right_mono) auto
  moreover have "\<bar>of_int (round_even (x / ?u)) - x / ?u\<bar> * ?u = \<bar>y - x\<bar>"
    using ulp64_pos [of x] unfolding y by (simp add: abs_mult_pos left_diff_distrib)
  ultimately show ?thesis by simp
qed

lemma powi_le: "m \<le> n \<Longrightarrow> (2 :: rat) powi m \<le> 2 powi n"
  by (simp add: power_int_increasing)

lemma log2_rat_le:
  assumes "x > 0" and "x < 2 powi n"
  shows "log2_rat x < n"
proof (rule ccontr)
  assume "\<not> log2_rat x < n"
  then have "(2 :: rat) powi n \<le> 2 powi log2_rat x" by (intro powi_le) simp
  with log2_rat_bounds(1) [OF assms(1)] assms(2) show False by simp
qed

lemma log2_rat_ge:
  assumes "2 powi n \<le> x"
  shows "n \<le> log2_rat x"
proof (rule ccontr)
  assume "\<not> n \<le> log2_rat x"
  then have "(2 :: rat) powi (log2_rat x + 1) \<le> 2 powi n" by (intro powi_le) simp
  moreover have "x > 0" using assms by (meson less_le_trans zero_less_power_int zero_less_numeral)
  ultimately show False using log2_rat_bounds(2) [of x] assms by simp
qed

lemma ulp64_normal:
  assumes "2 powi (- 1022) \<le> x"
  shows "ulp64 x = 2 powi (log2_rat x - 52)" and "x > 0"
proof -
  show x: "x > 0" using assms by (meson less_le_trans zero_less_power_int zero_less_numeral)
  with log2_rat_ge [OF assms] show "ulp64 x = 2 powi (log2_rat x - 52)" by (simp add: ulp64_def)
qed

text \<open>A normal positive number is not rounded to less than half of it.\<close>

lemma round64_ge_half:
  assumes "2 powi (- 1022) \<le> x" and "round64 x = Fin y"
  shows "x / 2 \<le> y"
proof -
  note u = ulp64_normal [OF assms(1)]
  have "ulp64 x \<le> 2 powi log2_rat x" unfolding u(1) by (rule powi_le) simp
  then have "ulp64 x \<le> x" using log2_rat_bounds(1) [OF u(2)] by simp
  moreover have "- (y - x) \<le> ulp64 x / 2" using round64_close [OF assms(2)] by (rule abs_le_D2)
  ultimately show ?thesis using u(2) by linarith
qed

text \<open>Below \<^verbatim>\<open>2 ^ n\<close> the error is at most \<^verbatim>\<open>2 ^ (n - 54)\<close>.\<close>

lemma round64_error:
  assumes "2 powi (- 1022) \<le> x" and "x < 2 powi n" and "round64 x = Fin y"
  shows "\<bar>y - x\<bar> \<le> 2 powi (n - 53) / 2"
proof -
  note u = ulp64_normal [OF assms(1)]
  have "ulp64 x \<le> 2 powi (n - 53)"
    unfolding u(1) using log2_rat_le [OF u(2) assms(2)] by (intro powi_le) simp
  with round64_close [OF assms(3)] show ?thesis by simp
qed

lemma round64_finite:
  assumes "2 powi (- 1022) \<le> x" and "x < 2 ^ 1000"
  shows "\<exists>y. round64 x = Fin y"
proof -
  let ?y = "of_int (round_even (x / ulp64 x)) * ulp64 x"
  note u = ulp64_normal [OF assms(1)]
  have "ulp64 x \<le> 2 powi log2_rat x" unfolding u(1) by (rule powi_le) simp
  then have ux: "ulp64 x \<le> x" using log2_rat_bounds(1) [OF u(2)] by simp
  have "of_int (round_even (x / ulp64 x)) \<le> x / ulp64 x + 1 / 2"
    "x / ulp64 x - 1 / 2 \<le> of_int (round_even (x / ulp64 x))"
    using abs_le_D1 [OF round_even_close, of "x / ulp64 x"] abs_le_D2 [OF round_even_close, of "x / ulp64 x"]
    by linarith+
  then have "?y \<le> (x / ulp64 x + 1 / 2) * ulp64 x" "(x / ulp64 x - 1 / 2) * ulp64 x \<le> ?y"
    using ulp64_pos [of x] by (auto intro!: mult_right_mono less_imp_le)
  then have "?y \<le> x + ulp64 x / 2" "x - ulp64 x / 2 \<le> ?y"
    using ulp64_pos [of x] by (simp_all add: distrib_right left_diff_distrib)
  with ux u(2) have bounds: "?y \<le> 2 * x" "0 \<le> ?y" by simp_all
  have "(2 :: rat) * 2 ^ 1000 < 2 ^ 1024" by simp
  then have "\<not> ?y \<ge> 2 ^ 1024" using bounds(1) assms(2) by linarith
  moreover have "\<not> ?y \<le> - (2 ^ 1024)" using bounds(2) by (simp add: not_le less_le_trans [of _ 0])
  ultimately show ?thesis using u(2) by (simp add: round64_def Let_def)
qed

text \<open>Integers below \<^verbatim>\<open>2 ^ 53\<close> are represented exactly.\<close>

lemma f_of_int_exact:
  assumes "0 \<le> n" and "n < 2 ^ 53"
  shows "f_of_int n = Fin (of_int n)"
proof (cases "n = 0")
  case True
  then show ?thesis by (simp add: f_of_int_def round64_def)
next
  case False
  let ?x = "of_int n :: rat"
  have x1: "1 \<le> ?x" using assms(1) False by simp
  have "(2 :: rat) powi (- 1022) \<le> 2 powi 0" by (rule powi_le) simp
  with x1 have normal: "2 powi (- 1022) \<le> ?x" by simp
  have lt: "?x < 2 powi 53" using assms(2) by (simp add: power_int_def)
  note u = ulp64_normal [OF normal]
  have e: "0 \<le> log2_rat ?x" "log2_rat ?x < 53"
    using log2_rat_ge [of 0 ?x] x1 log2_rat_le [OF u(2) lt] by auto
  have "?x / ulp64 ?x = ?x * 2 powi (52 - log2_rat ?x)"
    unfolding u(1) by (simp add: power_int_diff field_simps)
  also have "\<dots> = of_int (n * 2 ^ nat (52 - log2_rat ?x))"
    using e by (simp add: power_int_def)
  finally have "of_int (round_even (?x / ulp64 ?x)) = ?x / ulp64 ?x" by (metis round_even_int)
  then have y: "of_int (round_even (?x / ulp64 ?x)) * ulp64 ?x = ?x" using ulp64_pos [of ?x] by simp
  have "?x < 2 ^ 1024" using lt by (simp add: power_int_def less_trans [of _ "2 ^ 53"])
  moreover have "\<not> ?x \<le> - (2 ^ 1024)" using x1 by (simp add: not_le less_le_trans [of _ 0])
  ultimately show ?thesis using u(2) y by (simp add: f_of_int_def round64_def Let_def)
qed

end
