(* ===== verification/Circuit_Breaker.thy ===== *)
theory Circuit_Breaker
  imports Go_Float Go_Error NVS_Prelude
begin

text \<open>
  The sliding-window circuit breaker of fault-quarantine
  (\<^verbatim>\<open>fault-quarantine/pkg/breaker/breaker.go\<close> and \<^verbatim>\<open>types.go\<close>), which stops cordoning when too
  many nodes were cordoned recently or are held at once.

  A time is a number of nanoseconds; every operation that reads the clock takes the reading
  as an argument. The map \<^verbatim>\<open>indexToNodes\<close>, whose keys are always the bucket indices, is a list.
  The Kubernetes operations are a record of functions over the state \<^verbatim>\<open>'w\<close> outside. Each
  operation is one atomic step, as the mutex makes it; metrics and logs are left out, and an
  error text carries no formatted value.
\<close>

section \<open>Configuration and interface\<close>

type_synonym State = string

definition StateClosed :: State where "StateClosed = ''CLOSED''"
definition StateTripped :: State where "StateTripped = ''TRIPPED''"

datatype CursorMode = CursorModeResume | CursorModeCreate | CursorModeOther string

record 'w K8sClientOperations =
  GetTotalNodes :: "'w \<Rightarrow> error + int"
  GetCordonedNodes :: "'w \<Rightarrow> error + int"
  EnsureCircuitBreakerConfigMap :: "'w \<Rightarrow> string \<Rightarrow> string \<Rightarrow> State \<Rightarrow> 'w \<times> error option"
  ReadCircuitBreakerState :: "'w \<Rightarrow> string \<Rightarrow> string \<Rightarrow> error + State"
  WriteCircuitBreakerState :: "'w \<Rightarrow> string \<Rightarrow> string \<Rightarrow> State \<Rightarrow> 'w \<times> error option"
  ReadCursorMode :: "'w \<Rightarrow> string \<Rightarrow> string \<Rightarrow> error + CursorMode"
  WriteCursorMode :: "'w \<Rightarrow> string \<Rightarrow> string \<Rightarrow> CursorMode \<Rightarrow> 'w \<times> error option"

record 'w Config =
  Window :: int
  TripPercentage :: float64
  TripMaxNodes :: int
  TripMaxCordonedNodes :: int
  TripMaxCordonedPercentage :: float64
  K8sClient :: "'w K8sClientOperations"
  ConfigMapName :: string
  ConfigMapNamespace :: string

definition validatePercentageBound :: "string \<Rightarrow> float64 \<Rightarrow> error option" where
  "validatePercentageBound name percentage =
     (if \<not> f_is_finite percentage
      then Some (EText (''circuit breaker '' @ name @ '' must be a finite number''))
      else if f_less percentage (Fin 0)
      then Some (EText (''circuit breaker '' @ name @ '' must not be negative''))
      else None)"

definition validateBounds :: "'w Config \<Rightarrow> error option" where
  "validateBounds c =
     (case validatePercentageBound ''percentage'' (TripPercentage c) of Some e \<Rightarrow> Some e
      | None \<Rightarrow>
        (case validatePercentageBound ''maxCordonedPercentage'' (TripMaxCordonedPercentage c) of Some e \<Rightarrow> Some e
         | None \<Rightarrow>
           if TripMaxNodes c < 0 then Some (EText ''circuit breaker maxNodes must not be negative'')
           else if TripMaxCordonedNodes c < 0
           then Some (EText ''circuit breaker maxCordonedNodes must not be negative'')
           else if TripPercentage c = Fin 0 \<and> TripMaxNodes c = 0 \<and> TripMaxCordonedNodes c = 0 \<and>
             TripMaxCordonedPercentage c = Fin 0
           then Some (EText ''circuit breaker requires a bound to be set to a positive value'')
           else None))"

section \<open>The breaker and its window\<close>

record 'w slidingWindowBreaker =
  cfg :: "'w Config"
  bucketSize :: int
  buckets :: "int list"
  startTime :: int
  nodeToIndex :: "(string, int) gomap"
  indexToNodes :: "string list list"
  state :: State

definition second :: int where "second = 1000000000"

text \<open>\<^verbatim>\<open>for nodeName, index := range b.nodeToIndex { b.nodeToIndex[nodeName] = index - 1 }\<close>\<close>

definition decrement_indices :: "(string, int) gomap \<Rightarrow> (string, int) gomap" where
  "decrement_indices m = map (\<lambda>(n, i). (n, i - 1)) m"

text \<open>One round of the loop that shifts the buckets.\<close>

definition shift_once :: "'w slidingWindowBreaker \<Rightarrow> 'w slidingWindowBreaker" where
  "shift_once b =
     (let expired = (case indexToNodes b of [] \<Rightarrow> [] | e # _ \<Rightarrow> e) in
      b\<lparr>nodeToIndex := decrement_indices (fold AList.delete expired (nodeToIndex b)),
        buckets := tl (buckets b) @ [0],
        indexToNodes := tl (indexToNodes b) @ [[]],
        startTime := startTime b + bucketSize b\<rparr>)"

definition clear_window :: "int \<Rightarrow> 'w slidingWindowBreaker \<Rightarrow> 'w slidingWindowBreaker" where
  "clear_window now b =
     b\<lparr>buckets := map (\<lambda>_. 0) (buckets b), nodeToIndex := [],
       indexToNodes := map (\<lambda>_. []) (indexToNodes b), startTime := now - now mod bucketSize b\<rparr>"

definition slideWindow :: "int \<Rightarrow> 'w slidingWindowBreaker \<Rightarrow> 'w slidingWindowBreaker" where
  "slideWindow now b =
     (let elapsed = now - startTime b in
      if elapsed \<le> 0 then b
      else let steps = elapsed div bucketSize b in
        if steps \<ge> int (length (buckets b)) then clear_window now b
        else (shift_once ^^ nat steps) b)"

definition remove_old :: "string \<Rightarrow> 'w slidingWindowBreaker \<Rightarrow> 'w slidingWindowBreaker" where
  "remove_old nodeName b =
     (case map_of (nodeToIndex b) nodeName of
        None \<Rightarrow> b
      | Some oldIndex \<Rightarrow>
          if 0 \<le> oldIndex \<and> oldIndex < int (length (indexToNodes b)) then
            (let i = nat oldIndex in
             b\<lparr>indexToNodes := (indexToNodes b)[i := removeAll nodeName (indexToNodes b ! i)],
               buckets := (buckets b)[i := buckets b ! i - 1]\<rparr>)
          else b)"

definition AddCordonEvent :: "int \<Rightarrow> string \<Rightarrow> 'w slidingWindowBreaker \<Rightarrow> 'w slidingWindowBreaker" where
  "AddCordonEvent now nodeName b =
     (let b1 = slideWindow now b;
          cur = length (buckets b1) - 1;
          b2 = remove_old nodeName b1
      in b2\<lparr>nodeToIndex := AList.update nodeName (int cur) (nodeToIndex b2),
            indexToNodes := (indexToNodes b2)[cur := List.insert nodeName (indexToNodes b2 ! cur)],
            buckets := (buckets b2)[cur := buckets b2 ! cur + 1]\<rparr>)"

definition sumBuckets :: "'w slidingWindowBreaker \<Rightarrow> int" where
  "sumBuckets b = fold (\<lambda>v sum. sum + v) (buckets b) 0"

section \<open>Thresholds\<close>

datatype Bound = boundNone | boundPercentage | boundMaxNodes | boundFleetSize
  | boundMaxCordonedNodes | boundMaxCordonedPercentage | boundNoGPUNodes

definition resolveThreshold :: "int \<Rightarrow> float64 \<Rightarrow> Bound \<Rightarrow> int \<Rightarrow> Bound \<Rightarrow> int \<times> Bound" where
  "resolveThreshold totalNodes percentage percentageBound maxNodes maxNodesBound =
     (let (threshold, bound) =
        (if f_less (Fin 0) percentage then
           (let scaled = f_ceil (f_div_pos (f_mult (f_of_int totalNodes) percentage) 100) in
            if f_less (f_of_int totalNodes) scaled then (totalNodes, boundFleetSize)
            else (f_to_int scaled, percentageBound))
         else (0, boundNone))
      in if maxNodes > 0 \<and> (threshold = 0 \<or> maxNodes < threshold) then (maxNodes, maxNodesBound)
         else (threshold, bound))"

definition tripThreshold :: "'w Config \<Rightarrow> int \<Rightarrow> int \<times> Bound" where
  "tripThreshold c totalNodes =
     (let (threshold, bound) = resolveThreshold totalNodes (TripPercentage c) boundPercentage
        (TripMaxNodes c) boundMaxNodes
      in if threshold > totalNodes then (totalNodes, boundFleetSize) else (threshold, bound))"

definition standingThreshold :: "'w Config \<Rightarrow> int \<Rightarrow> int \<times> Bound" where
  "standingThreshold c totalNodes =
     resolveThreshold totalNodes (TripMaxCordonedPercentage c) boundMaxCordonedPercentage
       (TripMaxCordonedNodes c) boundMaxCordonedNodes"

definition standingBoundReached :: "'w Config \<Rightarrow> 'w \<Rightarrow> int \<Rightarrow> Bound \<Rightarrow> error + (int \<times> bool)" where
  "standingBoundReached c w threshold bound =
     (if bound = boundNone then Inr (- 1, False)
      else case GetCordonedNodes (K8sClient c) w of
          Inl e \<Rightarrow> Inl (EWrap ''failed to get cordoned node count'' e)
        | Inr cordonedNodes \<Rightarrow> Inr (cordonedNodes, cordonedNodes \<ge> threshold))"

section \<open>Evaluation\<close>

definition ForceState ::
  "State \<Rightarrow> 'w slidingWindowBreaker \<Rightarrow> 'w \<Rightarrow> 'w slidingWindowBreaker \<times> 'w \<times> error option" where
  "ForceState s b w =
     (let b' = b\<lparr>state := s\<rparr>;
          (w', err) = WriteCircuitBreakerState (K8sClient (cfg b)) w
             (ConfigMapName (cfg b)) (ConfigMapNamespace (cfg b)) s
      in (b', w', map_option (EWrap ''error writing circuit breaker state'') err))"

definition CurrentState :: "'w slidingWindowBreaker \<Rightarrow> State" where
  "CurrentState b = state b"

definition GetCursorMode :: "'w slidingWindowBreaker \<Rightarrow> 'w \<Rightarrow> error + CursorMode" where
  "GetCursorMode b w = ReadCursorMode (K8sClient (cfg b)) w (ConfigMapName (cfg b)) (ConfigMapNamespace (cfg b))"

definition SetCursorMode :: "CursorMode \<Rightarrow> 'w slidingWindowBreaker \<Rightarrow> 'w \<Rightarrow> 'w \<times> error option" where
  "SetCursorMode mode b w =
     WriteCursorMode (K8sClient (cfg b)) w (ConfigMapName (cfg b)) (ConfigMapNamespace (cfg b)) mode"

definition getTotalNodes :: "'w slidingWindowBreaker \<Rightarrow> 'w \<Rightarrow> error + int" where
  "getTotalNodes b w =
     (case GetTotalNodes (K8sClient (cfg b)) w of
        Inl e \<Rightarrow> Inl (EWrap ''GetTotalNodes failed'' e) | Inr n \<Rightarrow> Inr n)"

text \<open>Forcing the TRIPPED state reports a trip even when the state cannot be persisted.\<close>

definition trip ::
  "'w slidingWindowBreaker \<Rightarrow> 'w \<Rightarrow> 'w slidingWindowBreaker \<times> 'w \<times> bool \<times> error option" where
  "trip b w =
     (let (b', w', err) = ForceState StateTripped b w
      in (b', w', True, map_option (EWrap ''error forcing circuit breaker state to TRIPPED'') err))"

definition isTrippedByRecentCordons ::
  "int \<Rightarrow> 'w slidingWindowBreaker \<Rightarrow> 'w \<Rightarrow> 'w slidingWindowBreaker \<times> 'w \<times> bool \<times> error option" where
  "isTrippedByRecentCordons now b w =
     (let b' = slideWindow now b in
      if sumBuckets b' = 0 then (b', w, False, None) else trip b' w)"

definition IsTripped ::
  "int \<Rightarrow> 'w slidingWindowBreaker \<Rightarrow> 'w \<Rightarrow> 'w slidingWindowBreaker \<times> 'w \<times> bool \<times> error option" where
  "IsTripped now b w =
     (if state b = StateTripped then (b, w, True, None)
      else case getTotalNodes b w of
          Inl e \<Rightarrow> (b, w, False, Some (EWrap ''failed to get total nodes'' e))
        | Inr totalNodes \<Rightarrow>
            if totalNodes = 0 then isTrippedByRecentCordons now b w
            else
              (let b' = slideWindow now b;
                   recentCordonedNodes = sumBuckets b';
                   (threshold, bindingBound) = tripThreshold (cfg b) totalNodes
               in if bindingBound \<noteq> boundNone \<and> recentCordonedNodes \<ge> threshold then trip b' w
                  else (let (standingLimit, standingBound) = standingThreshold (cfg b) totalNodes in
                        case standingBoundReached (cfg b) w standingLimit standingBound of
                          Inl e \<Rightarrow> (b', w, False, Some e)
                        | Inr (_, reached) \<Rightarrow> if reached then trip b' w else (b', w, False, None))))"

section \<open>Creation\<close>

definition new_breaker :: "int \<Rightarrow> 'w Config \<Rightarrow> nat \<Rightarrow> 'w slidingWindowBreaker" where
  "new_breaker now c numBuckets =
     \<lparr>cfg = c, bucketSize = second, buckets = replicate numBuckets 0, startTime = now,
      nodeToIndex = [], indexToNodes = replicate numBuckets [], state = StateClosed\<rparr>"

definition NewSlidingWindowBreaker :: "int \<Rightarrow> 'w Config \<Rightarrow> 'w \<Rightarrow> 'w \<times> (error + 'w slidingWindowBreaker)" where
  "NewSlidingWindowBreaker now c w =
     (case validateBounds c of
        Some e \<Rightarrow> (w, Inl (EWrap ''validate circuit breaker bounds'' e))
      | None \<Rightarrow>
          if Window c \<le> 0 then (w, Inl (EText ''circuit breaker window must be a positive duration''))
          else
            (let numBuckets = nat ((Window c + second - 1) div second);
                 b = new_breaker now c numBuckets;
                 (w', err) = EnsureCircuitBreakerConfigMap (K8sClient c) w (ConfigMapName c) (ConfigMapNamespace c) StateClosed
             in case err of
                  Some e \<Rightarrow> (w', Inl (EWrap ''error ensuring circuit breaker config map'' e))
                | None \<Rightarrow>
                    (case ReadCircuitBreakerState (K8sClient c) w' (ConfigMapName c) (ConfigMapNamespace c) of
                       Inl _ \<Rightarrow> (w', Inr b)
                     | Inr s \<Rightarrow> (w', Inr (if s = StateClosed \<or> s = StateTripped then b\<lparr>state := s\<rparr> else b)))))"

end
