(* ===== verification/Breaker_Properties.thy ===== *)
theory Breaker_Properties
  imports Circuit_Breaker
begin

text \<open>
  Correctness of the circuit breaker: the consistency of its three window structures, the
  meaning of the recent-cordon count in terms of the history of cordons, the thresholds in
  terms of the configured bounds (through the rounding of float64), and the decisions and the
  latching of an evaluation.
\<close>

section \<open>The window invariant\<close>

definition num_buckets :: "'w slidingWindowBreaker \<Rightarrow> nat" where
  "num_buckets b = length (buckets b)"

text \<open>
  The counters agree with the node sets of the buckets, and the index of a node is the one
  bucket that holds it.
\<close>

definition window_inv :: "'w slidingWindowBreaker \<Rightarrow> bool" where
  "window_inv b \<longleftrightarrow>
     buckets b \<noteq> [] \<and> length (indexToNodes b) = num_buckets b \<and> bucketSize b = second \<and>
     wf_gomap (nodeToIndex b) \<and>
     map (\<lambda>ns. int (length ns)) (indexToNodes b) = buckets b \<and>
     (\<forall>ns \<in> set (indexToNodes b). distinct ns) \<and>
     (\<forall>n i. map_of (nodeToIndex b) n = Some i \<longleftrightarrow>
        0 \<le> i \<and> nat i < num_buckets b \<and> n \<in> set (indexToNodes b ! nat i))"

lemma map_of_decrement: "map_of (decrement_indices m) n = map_option (\<lambda>i. i - 1) (map_of m n)"
  by (induction m) (auto simp: decrement_indices_def)

lemma wf_decrement: "wf_gomap m \<Longrightarrow> wf_gomap (decrement_indices m)"
  by (simp add: decrement_indices_def comp_def case_prod_unfold)

lemma window_inv_index:
  assumes "window_inv b"
  shows "map_of (nodeToIndex b) n = Some i \<longleftrightarrow> 0 \<le> i \<and> nat i < num_buckets b \<and> n \<in> set (indexToNodes b ! nat i)"
  using assms unfolding window_inv_def by blast

lemma window_inv_nonempty: "window_inv b \<Longrightarrow> num_buckets b > 0"
  by (simp add: window_inv_def num_buckets_def)

text \<open>Shifting the window moves every node one bucket down and forgets the oldest bucket.\<close>

lemma shift_once_inv:
  assumes inv: "window_inv b"
  shows "window_inv (shift_once b)" and "num_buckets (shift_once b) = num_buckets b"
    and "map_of (nodeToIndex (shift_once b)) n = Some j \<longleftrightarrow> 0 \<le> j \<and> map_of (nodeToIndex b) n = Some (j + 1)"
    and "map_of (nodeToIndex (shift_once b)) n = None \<longleftrightarrow>
      map_of (nodeToIndex b) n = None \<or> map_of (nodeToIndex b) n = Some 0"
proof -
  obtain e es where nodes: "indexToNodes b = e # es"
    using inv by (cases "indexToNodes b") (auto simp: window_inv_def num_buckets_def)
  obtain c cs where bk: "buckets b = c # cs"
    using window_inv_nonempty [OF inv] by (cases "buckets b") (auto simp: num_buckets_def)
  show num: "num_buckets (shift_once b) = num_buckets b"
    by (simp add: num_buckets_def shift_once_def bk)
  have expired: "map_of (nodeToIndex b) n = Some 0 \<longleftrightarrow> n \<in> set e" for n
    using window_inv_index [OF inv, of n 0] window_inv_nonempty [OF inv] by (simp add: nodes del: map_of_eq_Some_iff)
  have look: "map_of (nodeToIndex (shift_once b)) n =
      (if n \<in> set e then None else map_option (\<lambda>i. i - 1) (map_of (nodeToIndex b) n))" for n
    by (simp add: shift_once_def nodes map_of_decrement al.get_del_keys)
  show none: "map_of (nodeToIndex (shift_once b)) n = None \<longleftrightarrow>
      map_of (nodeToIndex b) n = None \<or> map_of (nodeToIndex b) n = Some 0" for n
    using look expired by auto
  have nonneg: "map_of (nodeToIndex b) n = Some i \<Longrightarrow> 0 \<le> i" for n i
    using window_inv_index [OF inv] by blast
  show idx: "map_of (nodeToIndex (shift_once b)) n = Some j \<longleftrightarrow> 0 \<le> j \<and> map_of (nodeToIndex b) n = Some (j + 1)" for n j
  proof (cases "map_of (nodeToIndex b) n")
    case None
    then show ?thesis using look by simp
  next
    case (Some i)
    then have "n \<in> set e \<longleftrightarrow> i = 0" using expired [of n] by (metis option.inject)
    moreover have "0 \<le> i" using nonneg [OF Some] .
    ultimately show ?thesis using Some look [of n] by auto
  qed
  have len: "length es + 1 = num_buckets b" using inv nodes by (simp add: window_inv_def)
  have "0 \<le> j \<and> map_of (nodeToIndex b) n = Some (j + 1) \<longleftrightarrow>
      0 \<le> j \<and> nat j < num_buckets b \<and> n \<in> set ((es @ [[]]) ! nat j)" for n j
    using window_inv_index [OF inv, of n "j + 1"] len
    by (auto simp: nodes nat_add_distrib nth_append split: if_splits)
  moreover have "wf_gomap (nodeToIndex (shift_once b))"
    using inv by (simp add: shift_once_def wf_decrement al.inv_del_keys window_inv_def)
  ultimately show "window_inv (shift_once b)"
    unfolding window_inv_def num idx
    using inv by (simp add: shift_once_def nodes bk num_buckets_def window_inv_def)
qed

lemma clear_window_inv:
  assumes "window_inv b"
  shows "window_inv (clear_window now b)" and "num_buckets (clear_window now b) = num_buckets b"
proof -
  show num: "num_buckets (clear_window now b) = num_buckets b" by (simp add: clear_window_def num_buckets_def)
  have "map (\<lambda>ns. int (length ns)) (indexToNodes b) = buckets b" "length (indexToNodes b) = num_buckets b"
    "bucketSize b = second" "buckets b \<noteq> []"
    using assms by (auto simp: window_inv_def)
  then show "window_inv (clear_window now b)"
    unfolding window_inv_def num by (auto simp: clear_window_def num_buckets_def map_replicate_const comp_def)
qed

section \<open>The window and the history of cordons\<close>

text \<open>
  The history is abstracted to the time of the last cordon of each node. A node in bucket i was
  last cordoned within the second of that bucket; a node in no bucket was never cordoned or
  its last cordon is at least one bucket short of the window in the past.
\<close>

definition slot_start :: "'w slidingWindowBreaker \<Rightarrow> int \<Rightarrow> int" where
  "slot_start b i = startTime b - (int (num_buckets b) - 1 - i) * second"

definition tracks :: "(string \<rightharpoonup> int) \<Rightarrow> int \<Rightarrow> 'w slidingWindowBreaker \<Rightarrow> bool" where
  "tracks seen clock b \<longleftrightarrow> window_inv b \<and> startTime b \<le> clock \<and>
     (\<forall>n i. map_of (nodeToIndex b) n = Some i \<longrightarrow>
        (\<exists>t. seen n = Some t \<and> slot_start b i \<le> t \<and> t < slot_start b i + second)) \<and>
     (\<forall>n t. map_of (nodeToIndex b) n = None \<longrightarrow> seen n = Some t \<longrightarrow> t + (int (num_buckets b) - 1) * second \<le> clock)"

lemma second_pos [simp]: "0 < second" "0 \<le> second" "second \<noteq> 0"
  by (simp_all add: second_def)

lemma shift_once_tracks:
  assumes tr: "tracks seen clock b" and now: "startTime b + second \<le> clock"
  shows "tracks seen clock (shift_once b)"
proof -
  have inv: "window_inv b" using tr by (simp add: tracks_def)
  note sh = shift_once_inv [OF inv]
  have start: "startTime (shift_once b) = startTime b + second"
    using inv by (simp add: shift_once_def window_inv_def)
  have slot: "slot_start (shift_once b) j = slot_start b (j + 1)" for j
    by (simp add: slot_start_def start sh(2) algebra_simps)
  have "t + (int (num_buckets b) - 1) * second \<le> clock"
    if "map_of (nodeToIndex b) n = None \<or> map_of (nodeToIndex b) n = Some 0" "seen n = Some t" for n t
  proof (cases "map_of (nodeToIndex b) n")
    case None
    with that tr show ?thesis unfolding tracks_def by blast
  next
    case (Some i)
    with that(1) have "map_of (nodeToIndex b) n = Some 0" by simp
    with tr that(2) have "t < slot_start b 0 + second" unfolding tracks_def by (metis option.inject)
    then show ?thesis using now by (simp add: slot_start_def algebra_simps)
  qed
  moreover have "\<exists>t. seen n = Some t \<and> slot_start b (j + 1) \<le> t \<and> t < slot_start b (j + 1) + second"
    if "map_of (nodeToIndex b) n = Some (j + 1)" for n j
    using tr that unfolding tracks_def by blast
  ultimately show ?thesis
    unfolding tracks_def slot sh(2) sh(4) sh(3) start using sh(1) now by blast
qed

lemma shift_once_keeps [simp]: "cfg (shift_once b) = cfg b" "state (shift_once b) = state b"
  by (simp_all add: shift_once_def Let_def)

lemma shift_once_start: "window_inv b \<Longrightarrow> startTime (shift_once b) = startTime b + second"
  by (simp add: shift_once_def window_inv_def)

lemma shift_many_tracks:
  assumes "tracks seen clock b" and "startTime b + int k * second \<le> clock"
  shows "tracks seen clock ((shift_once ^^ k) b) \<and> startTime ((shift_once ^^ k) b) = startTime b + int k * second \<and>
    num_buckets ((shift_once ^^ k) b) = num_buckets b \<and> cfg ((shift_once ^^ k) b) = cfg b \<and>
    state ((shift_once ^^ k) b) = state b"
  using assms
proof (induction k)
  case (Suc k)
  let ?b = "(shift_once ^^ k) b"
  have "int k * second \<le> int (Suc k) * second" by simp
  with Suc have ih: "tracks seen clock ?b" "startTime ?b = startTime b + int k * second"
    "num_buckets ?b = num_buckets b" "cfg ?b = cfg b" "state ?b = state b" by auto
  then have inv: "window_inv ?b" by (simp add: tracks_def)
  have "startTime ?b + second \<le> clock" using Suc.prems(2) ih(2) by (simp add: algebra_simps)
  from shift_once_tracks [OF ih(1) this] shift_once_start [OF inv] shift_once_inv(2) [OF inv] ih
  show ?case by (simp add: algebra_simps)
qed simp

lemma tracks_later: "tracks seen clock b \<Longrightarrow> clock \<le> now \<Longrightarrow> tracks seen now b"
  unfolding tracks_def by force

text \<open>After a slide the newest bucket is the current second.\<close>

lemma slideWindow_tracks:
  assumes tr: "tracks seen clock b" and mono: "clock \<le> now"
  shows "tracks seen now (slideWindow now b)" and "now < startTime (slideWindow now b) + second"
    and "num_buckets (slideWindow now b) = num_buckets b"
    and "cfg (slideWindow now b) = cfg b" and "state (slideWindow now b) = state b"
proof -
  let ?e = "now - startTime b"
  have inv: "window_inv b" and start: "startTime b \<le> now"
    using tr mono by (auto simp: tracks_def)
  have size: "bucketSize b = second" using inv by (simp add: window_inv_def)
  have ediv: "?e = ?e div second * second + ?e mod second" "0 \<le> ?e mod second" "?e mod second < second"
    by simp_all
  have "tracks seen now (slideWindow now b) \<and> now < startTime (slideWindow now b) + second \<and>
    num_buckets (slideWindow now b) = num_buckets b \<and> cfg (slideWindow now b) = cfg b \<and>
    state (slideWindow now b) = state b"
  proof (cases "?e div second \<ge> int (num_buckets b)")
    case True
    then have "int (num_buckets b) * second \<le> ?e div second * second" by (intro mult_right_mono) auto
    with ediv have far: "startTime b + int (num_buckets b) * second \<le> now" by linarith
    moreover have "0 < int (num_buckets b) * second" using window_inv_nonempty [OF inv] by simp
    ultimately have "\<not> ?e \<le> 0" by linarith
    with True size have eq: "slideWindow now b = clear_window now b"
      by (simp add: slideWindow_def Let_def num_buckets_def)
    have "u + (int (num_buckets b) - 1) * second \<le> now" if u: "seen n = Some u" for n u
    proof (cases "map_of (nodeToIndex b) n")
      case None
      with tr u mono show ?thesis unfolding tracks_def by force
    next
      case (Some j)
      with tr u have "u < slot_start b j + second" unfolding tracks_def by (metis option.inject)
      moreover have "j \<le> int (num_buckets b) - 1" using window_inv_index [OF inv, of n j] Some by auto
      then have "0 \<le> (int (num_buckets b) - 1 - j) * second" by simp
      ultimately have "u < startTime b + second" unfolding slot_start_def by linarith
      with far show ?thesis by (simp add: algebra_simps)
    qed
    moreover have "now - now mod second \<le> now" "now < now - now mod second + second" by simp_all
    ultimately show ?thesis
      using clear_window_inv [OF inv, of now] unfolding eq tracks_def
      by (auto simp: clear_window_def size num_buckets_def)
  next
    case False
    let ?k = "nat (?e div second)"
    have k: "int ?k = ?e div second" using start by (simp add: pos_imp_zdiv_nonneg_iff)
    have eq: "slideWindow now b = (shift_once ^^ ?k) b"
      using False size start by (cases "?e = 0") (auto simp: slideWindow_def Let_def num_buckets_def)
    have "startTime b + int ?k * second \<le> now" using ediv unfolding k by linarith
    from shift_many_tracks [OF tracks_later [OF tr mono] this] ediv show ?thesis
      unfolding eq k by linarith
  qed
  then show "tracks seen now (slideWindow now b)" and "now < startTime (slideWindow now b) + second"
    and "num_buckets (slideWindow now b) = num_buckets b"
    and "cfg (slideWindow now b) = cfg b" and "state (slideWindow now b) = state b" by auto
qed

lemma remove_old_nodes:
  assumes inv: "window_inv b"
  shows "indexToNodes (remove_old n b) = map (removeAll n) (indexToNodes b)"
    and "buckets (remove_old n b) = map (\<lambda>ns. int (length ns)) (map (removeAll n) (indexToNodes b))"
    and "nodeToIndex (remove_old n b) = nodeToIndex b" and "startTime (remove_old n b) = startTime b"
    and "bucketSize (remove_old n b) = bucketSize b" and "cfg (remove_old n b) = cfg b"
    and "state (remove_old n b) = state b"
proof -
  let ?nodes = "indexToNodes b"
  have len: "length ?nodes = num_buckets b" and cnt: "buckets b = map (\<lambda>ns. int (length ns)) ?nodes"
    and dist: "\<And>ns. ns \<in> set ?nodes \<Longrightarrow> distinct ns"
    using inv by (auto simp: window_inv_def)
  have mem: "n \<in> set (?nodes ! i) \<longleftrightarrow> map_of (nodeToIndex b) n = Some (int i)" if "i < num_buckets b" for i
    using window_inv_index [OF inv, of n "int i"] that by (simp del: map_of_eq_Some_iff)
  have both: "indexToNodes (remove_old n b) = map (removeAll n) ?nodes \<and>
    buckets (remove_old n b) = map (\<lambda>ns. int (length ns)) (map (removeAll n) ?nodes)"
  proof (cases "map_of (nodeToIndex b) n")
    case None
    have "n \<notin> set ns" if "ns \<in> set ?nodes" for ns
      using mem None that len by (auto simp: in_set_conv_nth)
    then have "map (removeAll n) ?nodes = ?nodes" by (simp add: map_idI)
    with None cnt show ?thesis by (simp add: remove_old_def)
  next
    case (Some j)
    define k where "k = nat j"
    have k: "j = int k" "k < length ?nodes" "n \<in> set (?nodes ! k)"
      using window_inv_index [OF inv, of n j] Some len unfolding k_def by auto
    have other: "removeAll n (?nodes ! i) = ?nodes ! i" if "i < length ?nodes" "i \<noteq> k" for i
      using mem [of i] Some that len k(1) by (simp add: removeAll_id)
    have nodes: "?nodes[k := removeAll n (?nodes ! k)] = map (removeAll n) ?nodes"
    proof (rule nth_equalityI)
      fix i
      assume "i < length (?nodes[k := removeAll n (?nodes ! k)])"
      then show "?nodes[k := removeAll n (?nodes ! k)] ! i = map (removeAll n) ?nodes ! i"
        using other [of i] by (cases "i = k") simp_all
    qed simp
    have "length (removeAll n (?nodes ! k)) = length (?nodes ! k) - 1" "length (?nodes ! k) > 0"
      using k dist [of "?nodes ! k"] by (auto simp: distinct_remove1_removeAll [symmetric] length_remove1)
    then have "int (length (removeAll n (?nodes ! k))) = int (length (?nodes ! k)) - 1" by arith
    then have "(buckets b)[k := buckets b ! k - 1] = map (\<lambda>ns. int (length ns)) (?nodes[k := removeAll n (?nodes ! k)])"
      using k(2) by (simp add: cnt map_update)
    with Some k nodes show ?thesis by (simp add: remove_old_def Let_def)
  qed
  then show "indexToNodes (remove_old n b) = map (removeAll n) (indexToNodes b)"
    and "buckets (remove_old n b) = map (\<lambda>ns. int (length ns)) (map (removeAll n) (indexToNodes b))" by auto
  show "nodeToIndex (remove_old n b) = nodeToIndex b" "startTime (remove_old n b) = startTime b"
    "bucketSize (remove_old n b) = bucketSize b" "cfg (remove_old n b) = cfg b" "state (remove_old n b) = state b"
    by (simp_all add: remove_old_def Let_def split: option.splits)
qed

text \<open>The last step of \<^verbatim>\<open>AddCordonEvent\<close>, after the slide.\<close>

definition record_node :: "string \<Rightarrow> 'w slidingWindowBreaker \<Rightarrow> 'w slidingWindowBreaker" where
  "record_node n b =
     (let cur = length (buckets b) - 1; b2 = remove_old n b in
      b2\<lparr>nodeToIndex := AList.update n (int cur) (nodeToIndex b2),
         indexToNodes := (indexToNodes b2)[cur := List.insert n (indexToNodes b2 ! cur)],
         buckets := (buckets b2)[cur := buckets b2 ! cur + 1]\<rparr>)"

lemma AddCordonEvent_record: "AddCordonEvent now n b = record_node n (slideWindow now b)"
  by (simp add: AddCordonEvent_def record_node_def Let_def)

lemma record_node_inv:
  assumes inv: "window_inv b"
  shows "window_inv (record_node n b)" and "num_buckets (record_node n b) = num_buckets b"
    and "startTime (record_node n b) = startTime b" and "cfg (record_node n b) = cfg b"
    and "state (record_node n b) = state b"
    and "map_of (nodeToIndex (record_node n b)) = (map_of (nodeToIndex b))(n \<mapsto> int (num_buckets b) - 1)"
proof -
  let ?nodes = "indexToNodes b" and ?cur = "num_buckets b - 1"
  note ro = remove_old_nodes [OF inv, of n]
  have pos: "num_buckets b > 0" using window_inv_nonempty [OF inv] .
  have len: "length ?nodes = num_buckets b" using inv by (simp add: window_inv_def)
  have cur: "?cur < length ?nodes" using pos len by simp
  let ?ns = "(map (removeAll n) ?nodes)[?cur := n # removeAll n (?nodes ! ?cur)]"
  have nodes: "indexToNodes (record_node n b) = ?ns"
    using cur by (simp add: record_node_def Let_def ro num_buckets_def)
  have bks: "buckets (record_node n b) = map (\<lambda>ns. int (length ns)) ?ns"
    using cur by (simp add: record_node_def Let_def ro num_buckets_def map_update add.commute)
  show num: "num_buckets (record_node n b) = num_buckets b" using len by (simp add: num_buckets_def [of "record_node n b"] bks)
  show st: "startTime (record_node n b) = startTime b" "cfg (record_node n b) = cfg b" "state (record_node n b) = state b"
    by (simp_all add: record_node_def Let_def ro)
  show look: "map_of (nodeToIndex (record_node n b)) = (map_of (nodeToIndex b))(n \<mapsto> int (num_buckets b) - 1)"
  proof -
    have "int (length (buckets b) - 1) = int (num_buckets b) - 1"
      using pos unfolding num_buckets_def by arith
    then show ?thesis by (simp add: record_node_def Let_def ro update_conv')
  qed
  have "bucketSize (record_node n b) = second"
    using inv by (simp add: record_node_def Let_def ro window_inv_def)
  moreover have "wf_gomap (nodeToIndex (record_node n b))"
    using inv by (simp add: record_node_def Let_def ro distinct_update window_inv_def)
  moreover have "distinct ns" if "ns \<in> set ?ns" for ns
  proof -
    have "\<forall>ns \<in> set ?nodes. distinct ns" using inv by (simp add: window_inv_def)
    with that cur show ?thesis
      by (auto dest!: set_update_subset_insert [THEN subsetD] simp: distinct_removeAll)
  qed
  moreover have "map_of (nodeToIndex (record_node n b)) m = Some i \<longleftrightarrow>
      0 \<le> i \<and> nat i < num_buckets b \<and> m \<in> set (?ns ! nat i)" for m i
  proof (cases "m = n")
    case True
    have "m \<in> set (?ns ! j) \<longleftrightarrow> j = ?cur" if "j < num_buckets b" for j
      using True that cur len by (simp add: nth_list_update)
    with pos show ?thesis unfolding look by (auto simp: True)
  next
    case False
    have "m \<in> set (?ns ! j) \<longleftrightarrow> m \<in> set (?nodes ! j)" if "j < num_buckets b" for j
      using False that cur len by (simp add: nth_list_update)
    then show ?thesis unfolding look using False window_inv_index [OF inv, of m i]
      by (simp del: map_of_eq_Some_iff) blast
  qed
  moreover have "buckets (record_node n b) \<noteq> []" using pos num by (auto simp: num_buckets_def)
  ultimately show "window_inv (record_node n b)"
    unfolding window_inv_def num nodes using bks len by simp
qed

lemma AddCordonEvent_tracks:
  assumes "tracks seen clock b" and "clock \<le> now"
  shows "tracks (seen(n \<mapsto> now)) now (AddCordonEvent now n b)"
proof -
  let ?b = "slideWindow now b"
  note sl = slideWindow_tracks [OF assms]
  have inv: "window_inv ?b" and start: "startTime ?b \<le> now" using sl(1) by (auto simp: tracks_def)
  note rec = record_node_inv [OF inv, of n]
  have slot: "slot_start (record_node n ?b) i = slot_start ?b i" for i
    by (simp add: slot_start_def rec)
  have cur: "slot_start ?b (int (num_buckets ?b) - 1) = startTime ?b" by (simp add: slot_start_def)
  have "\<exists>t. (seen(n \<mapsto> now)) m = Some t \<and> slot_start ?b i \<le> t \<and> t < slot_start ?b i + second"
    if "((map_of (nodeToIndex ?b))(n \<mapsto> int (num_buckets ?b) - 1)) m = Some i" for m i
  proof (cases "m = n")
    case True
    with that have "i = int (num_buckets ?b) - 1" by simp
    with True cur start sl(2) show ?thesis by simp
  next
    case False
    with that sl(1) show ?thesis unfolding tracks_def by simp
  qed
  moreover have "t + (int (num_buckets ?b) - 1) * second \<le> now"
    if "((map_of (nodeToIndex ?b))(n \<mapsto> int (num_buckets ?b) - 1)) m = None" "(seen(n \<mapsto> now)) m = Some t" for m t
  proof -
    from that(1) have "m \<noteq> n" "map_of (nodeToIndex ?b) m = None" by (auto split: if_splits)
    with that(2) sl(1) show ?thesis unfolding tracks_def by simp
  qed
  ultimately show ?thesis
    unfolding AddCordonEvent_record tracks_def slot rec(2,3,6) using rec(1) start by blast
qed

section \<open>The recent-cordon count\<close>

lemma fold_sum: "fold (\<lambda>v sum. sum + v) vs (a :: int) = a + sum_list vs"
  by (induction vs arbitrary: a) simp_all

lemma card_union_buckets:
  assumes "\<forall>ns \<in> set nss. distinct ns" and "\<And>i j n. i < length nss \<Longrightarrow> j < length nss \<Longrightarrow> n \<in> set (nss ! i) \<Longrightarrow> n \<in> set (nss ! j) \<Longrightarrow> i = j"
  shows "int (card (\<Union>ns \<in> set nss. set ns)) = sum_list (map (\<lambda>ns. int (length ns)) nss)"
  using assms
proof (induction nss rule: rev_induct)
  case (snoc ns nss)
  have disj: "(\<Union>ns \<in> set nss. set ns) \<inter> set ns = {}"
  proof (rule ccontr)
    assume "(\<Union>ns \<in> set nss. set ns) \<inter> set ns \<noteq> {}"
    then obtain n i where "i < length nss" "n \<in> set (nss ! i)" "n \<in> set ns"
      by (auto simp: in_set_conv_nth) (metis in_set_conv_nth)
    with snoc.prems(2) [of i "length nss" n] show False by (simp add: nth_append)
  qed
  moreover have "i = j" if "i < length nss" "j < length nss" "n \<in> set (nss ! i)" "n \<in> set (nss ! j)" for i j n
    using snoc.prems(2) [of i j n] that by (simp add: nth_append)
  ultimately have "int (card (\<Union>ns \<in> set nss. set ns)) = sum_list (map (\<lambda>ns. int (length ns)) nss)"
    using snoc by simp
  moreover have "card ((\<Union>ns \<in> set nss. set ns) \<union> set ns) = card (\<Union>ns \<in> set nss. set ns) + card (set ns)"
    using disj by (intro card_Un_disjoint) auto
  moreover have "card (set ns) = length ns" using snoc.prems(1) by (simp add: distinct_card)
  ultimately show ?case by (simp add: Un_commute)
qed simp

lemma sumBuckets_card:
  assumes inv: "window_inv b"
  shows "sumBuckets b = int (card (dom (map_of (nodeToIndex b))))"
proof -
  let ?nodes = "indexToNodes b"
  have len: "length ?nodes = num_buckets b" using inv by (simp add: window_inv_def)
  have mem: "n \<in> set (?nodes ! i) \<longleftrightarrow> map_of (nodeToIndex b) n = Some (int i)" if "i < length ?nodes" for i n
    using window_inv_index [OF inv, of n "int i"] that len by (simp del: map_of_eq_Some_iff)
  have "dom (map_of (nodeToIndex b)) = (\<Union>ns \<in> set ?nodes. set ns)"
  proof (intro set_eqI iffI)
    fix n assume "n \<in> dom (map_of (nodeToIndex b))"
    then obtain i where "map_of (nodeToIndex b) n = Some i" by blast
    then have "nat i < length ?nodes" "n \<in> set (?nodes ! nat i)" using window_inv_index [OF inv, of n i] len by auto
    then show "n \<in> (\<Union>ns \<in> set ?nodes. set ns)" by (auto intro: nth_mem)
  next
    fix n assume "n \<in> (\<Union>ns \<in> set ?nodes. set ns)"
    then obtain i where "i < length ?nodes" "n \<in> set (?nodes ! i)" by (auto simp: in_set_conv_nth) (metis in_set_conv_nth)
    with mem show "n \<in> dom (map_of (nodeToIndex b))" by blast
  qed
  moreover have "int (card (\<Union>ns \<in> set ?nodes. set ns)) = sum_list (map (\<lambda>ns. int (length ns)) ?nodes)"
  proof (rule card_union_buckets)
    show "\<forall>ns \<in> set ?nodes. distinct ns" using inv by (simp add: window_inv_def)
    fix i j n
    assume "i < length ?nodes" "j < length ?nodes" "n \<in> set (?nodes ! i)" "n \<in> set (?nodes ! j)"
    then have "map_of (nodeToIndex b) n = Some (int i)" "map_of (nodeToIndex b) n = Some (int j)"
      using mem by blast+
    then show "i = j" by simp
  qed
  moreover have "sumBuckets b = sum_list (map (\<lambda>ns. int (length ns)) ?nodes)"
    using inv by (simp add: sumBuckets_def fold_sum window_inv_def)
  ultimately show ?thesis by simp
qed

section \<open>Runs\<close>

text \<open>The calls other components make, with the clock readings they see.\<close>

datatype breaker_op = OpCordon int string | OpCheck int | OpForce State

fun run_op :: "breaker_op \<Rightarrow> 'w slidingWindowBreaker \<times> 'w \<Rightarrow> 'w slidingWindowBreaker \<times> 'w" where
  "run_op (OpCordon t n) (b, w) = (AddCordonEvent t n b, w)"
| "run_op (OpCheck t) (b, w) = (let (b', w', _, _) = IsTripped t b w in (b', w'))"
| "run_op (OpForce s) (b, w) = (let (b', w', _) = ForceState s b w in (b', w'))"

definition run_ops :: "breaker_op list \<Rightarrow> 'w slidingWindowBreaker \<times> 'w \<Rightarrow> 'w slidingWindowBreaker \<times> 'w" where
  "run_ops ops bw = fold run_op ops bw"

fun op_time :: "breaker_op \<Rightarrow> int list" where
  "op_time (OpCordon t _) = [t]"
| "op_time (OpCheck t) = [t]"
| "op_time (OpForce _) = []"

fun note_cordon :: "breaker_op \<Rightarrow> (string \<rightharpoonup> int) \<Rightarrow> (string \<rightharpoonup> int)" where
  "note_cordon (OpCordon t n) m = m(n \<mapsto> t)"
| "note_cordon _ m = m"

definition last_cordon :: "breaker_op list \<Rightarrow> string \<rightharpoonup> int" where
  "last_cordon ops = fold note_cordon ops (\<lambda>_. None)"

lemma tracks_state [simp]: "tracks seen clock (b\<lparr>state := s\<rparr>) = tracks seen clock b"
  by (simp add: tracks_def window_inv_def slot_start_def num_buckets_def)

text \<open>An evaluation leaves the window alone or slides it; only the state may change beside.\<close>

lemma IsTripped_window:
  "\<exists>s b1. fst (IsTripped now b w) = b1\<lparr>state := s\<rparr> \<and> (b1 = b \<or> b1 = slideWindow now b)"
proof -
  have trip: "fst (trip b1 w) = b1\<lparr>state := StateTripped\<rparr>" for b1
    by (simp add: trip_def ForceState_def Let_def case_prod_unfold)
  have same: "(b1 :: 'a slidingWindowBreaker) = b1\<lparr>state := state b1\<rparr>" for b1 by simp
  show ?thesis
    unfolding IsTripped_def isTrippedByRecentCordons_def Let_def
    by (auto simp: trip split: sum.splits prod.splits if_splits) (metis same)+
qed

lemma run_op_tracks:
  assumes "tracks seen clock b" and "\<forall>t \<in> set (op_time p). clock \<le> t" and "run_op p (b, w) = (b', w')"
  shows "tracks (note_cordon p seen) (last (clock # op_time p)) b' \<and> num_buckets b' = num_buckets b"
proof (cases p)
  case (OpCordon t n)
  have inv: "window_inv (slideWindow t b)" using slideWindow_tracks(1) [OF assms(1), of t] assms(2) OpCordon by (simp add: tracks_def)
  with AddCordonEvent_tracks [OF assms(1), of t n] slideWindow_tracks(3) [OF assms(1), of t] record_node_inv(2) [OF inv] assms OpCordon
  show ?thesis by (auto simp: AddCordonEvent_record)
next
  case (OpCheck t)
  then have b': "b' = fst (IsTripped t b w)" using assms(3) by (simp add: Let_def case_prod_unfold)
  obtain s b1 where b1: "b' = b1\<lparr>state := s\<rparr>" "b1 = b \<or> b1 = slideWindow t b"
    using IsTripped_window [of t b w] b' by auto
  have "tracks seen t b1 \<and> num_buckets b1 = num_buckets b"
    using b1(2) slideWindow_tracks [OF assms(1), of t] tracks_later [OF assms(1), of t] assms(2) OpCheck by auto
  with b1(1) OpCheck show ?thesis by (simp add: num_buckets_def)
next
  case (OpForce s)
  then have "b' = b\<lparr>state := s\<rparr>" using assms(3) by (simp add: ForceState_def Let_def case_prod_unfold)
  with assms(1) OpForce show ?thesis by (simp add: num_buckets_def)
qed

lemma run_ops_tracks:
  assumes "tracks seen clock b" and "sorted (clock # concat (map op_time ops))" and "run_ops ops (b, w) = (b', w')"
  shows "tracks (fold note_cordon ops seen) (last (clock # concat (map op_time ops))) b' \<and> num_buckets b' = num_buckets b"
  using assms
proof (induction ops arbitrary: seen clock b w)
  case Nil
  then show ?case by (simp add: run_ops_def)
next
  case (Cons p ops)
  obtain b1 w1 where one: "run_op p (b, w) = (b1, w1)" by fastforce
  have "\<forall>t \<in> set (op_time p). clock \<le> t" using Cons.prems(2) by auto
  from run_op_tracks [OF Cons.prems(1) this one] have tr: "tracks (note_cordon p seen) (last (clock # op_time p)) b1"
    and num: "num_buckets b1 = num_buckets b" by auto
  have srt: "sorted (last (clock # op_time p) # concat (map op_time ops))"
    using Cons.prems(2) by (cases p) auto
  have "run_ops ops (b1, w1) = (b', w')" using Cons.prems(3) one by (simp add: run_ops_def)
  note ih = Cons.IH [OF tr srt this]
  have "last (last (clock # op_time p) # ts) = last ((clock # op_time p) @ ts)" for ts by (cases ts) auto
  with ih num show ?case by (simp only: fold_simps list.map concat.simps append_Cons)
qed

lemma new_breaker_tracks:
  assumes "N > 0"
  shows "tracks (\<lambda>_. None) now (new_breaker now c N)" and "num_buckets (new_breaker now c N) = N"
  using assms by (auto simp: tracks_def window_inv_def new_breaker_def num_buckets_def)

lemma NewSlidingWindowBreaker_tracks:
  assumes "NewSlidingWindowBreaker t0 c w = (w0, Inr b)"
  shows "tracks (\<lambda>_. None) t0 b" and "int (num_buckets b) = (Window c + second - 1) div second" and "Window c > 0"
proof -
  let ?N = "nat ((Window c + second - 1) div second)"
  from assms have win: "Window c > 0" and b: "\<exists>s. b = (new_breaker t0 c ?N)\<lparr>state := s\<rparr>"
    by (auto simp: NewSlidingWindowBreaker_def Let_def new_breaker_def split: option.splits if_splits sum.splits prod.splits)
  have "(Window c + second - 1) div second > 0" using win by (simp add: pos_imp_zdiv_pos_iff)
  then have N: "?N > 0" "int ?N = (Window c + second - 1) div second" by auto
  from b new_breaker_tracks [OF N(1), of t0 c] N(2)
  show "tracks (\<lambda>_. None) t0 b" and "int (num_buckets b) = (Window c + second - 1) div second" and "Window c > 0"
    using win by (auto simp: num_buckets_def)
qed

lemma IsTripped_trip:
  assumes "IsTripped now b w = (b', w', True, err)"
  shows "state b' = StateTripped"
proof -
  have trip: "trip b1 w1 = (b2, w2, r, e) \<Longrightarrow> state b2 = StateTripped" for b1 w1 b2 w2 r e
    by (auto simp: trip_def ForceState_def Let_def split: prod.splits)
  show ?thesis
    using assms unfolding IsTripped_def isTrippedByRecentCordons_def Let_def
    by (auto split: if_splits sum.splits prod.splits dest: trip)
qed

lemma slide_keeps: "state (slideWindow now b) = state b" "cfg (slideWindow now b) = cfg b"
proof -
  have "state ((shift_once ^^ k) b) = state b" "cfg ((shift_once ^^ k) b) = cfg b" for k by (induction k) auto
  then show "state (slideWindow now b) = state b" "cfg (slideWindow now b) = cfg b"
    by (simp_all add: slideWindow_def clear_window_def Let_def)
qed

lemma AddCordonEvent_keeps: "state (AddCordonEvent now n b) = state b" "cfg (AddCordonEvent now n b) = cfg b"
  using slide_keeps [of now b]
  by (simp_all add: AddCordonEvent_def remove_old_def Let_def split: option.splits)

lemma tripped_run:
  assumes "state b = StateTripped" and "\<forall>s. OpForce s \<notin> set ops" and "run_ops ops (b, w) = (b', w')"
  shows "state b' = StateTripped"
  using assms
proof (induction ops arbitrary: b w)
  case (Cons p ops)
  obtain b1 w1 where one: "run_op p (b, w) = (b1, w1)" by fastforce
  have "state b1 = StateTripped"
    using Cons.prems(1,2) one
    by (cases p) (auto simp: AddCordonEvent_keeps IsTripped_def Let_def)
  with Cons one show ?case by (auto simp: run_ops_def)
qed (simp add: run_ops_def)

section \<open>Thresholds\<close>

text \<open>
  For an integral number of hundredths below \<^verbatim>\<open>2 ^ 40\<close> the rounded division by 100 has the same
  ceiling as the exact one.
\<close>

lemma scaled_exact:
  assumes "0 < a" and "a < 2 ^ 40"
  shows "f_ceil (f_div_pos (Fin (of_int a)) 100) = Fin (of_int ((a + 99) div 100))"
proof -
  let ?x = "of_int a / 100 :: rat"
  have x: "1 / 100 \<le> ?x" using assms(1) by simp
  have "(2 :: rat) powi (- 1022) \<le> 2 powi (- 7)" by (rule powi_le) simp
  also have "\<dots> \<le> 1 / 100" by (simp add: power_int_def power_one_over)
  finally have normal: "2 powi (- 1022) \<le> ?x" using x by simp
  have lt: "?x < 2 powi 34" using assms(2) by (simp add: power_int_def)
  have "?x < 2 ^ 1000"
  proof -
    have "(2 :: rat) powi 34 \<le> 2 powi 1000" by (rule powi_le) simp
    with lt show ?thesis by (simp add: power_int_def)
  qed
  then obtain y where y: "round64 ?x = Fin y" using round64_finite [OF normal] by blast
  let ?k = "a div 100"
  have "\<lceil>y\<rceil> = (a + 99) div 100"
  proof (cases "100 dvd a")
    case True
    then have "?x = of_int ?k" by (metis dvd_div_mult_self nonzero_mult_div_cancel_right of_int_mult of_int_numeral zero_neq_numeral)
    moreover have "f_of_int ?k = Fin (of_int ?k)" using assms by (intro f_of_int_exact) auto
    ultimately have "y = of_int ?k" using y by (simp add: f_of_int_def)
    with True show ?thesis by auto
  next
    case False
    have ka: "100 * ?k + 1 \<le> a" "a \<le> 100 * ?k + 99" using False by presburger+
    then have "(of_int (100 * ?k + 1) :: rat) \<le> of_int a" "(of_int a :: rat) \<le> of_int (100 * ?k + 99)"
      by (simp_all only: of_int_le_iff)
    then have xk: "of_int ?k + 1 / 100 \<le> ?x" "?x \<le> of_int ?k + 99 / 100" by (simp_all add: field_simps)
    have "\<bar>y - ?x\<bar> \<le> 2 powi (34 - 53) / 2" by (rule round64_error [OF normal lt y])
    moreover have "(2 :: rat) powi (34 - 53) / 2 < 1 / 200" by (simp add: power_int_def power_one_over)
    ultimately have "y - ?x < 1 / 200" "- (y - ?x) < 1 / 200"
      using abs_le_D1 abs_le_D2 by (metis le_less_trans)+
    with xk have "of_int ?k < y" "y \<le> of_int ?k + 1" by linarith+
    then have "\<lceil>y\<rceil> = ?k + 1" by (simp add: ceiling_unique)
    moreover have "(a + 99) div 100 = ?k + 1" using ka by linarith
    ultimately show ?thesis by simp
  qed
  then show ?thesis using y by simp
qed

text \<open>The threshold of an integral percentage up to 100, for fleets below \<^verbatim>\<open>2 ^ 32\<close>.\<close>

lemma resolve_exact:
  assumes "0 < fleet" and "fleet < 2 ^ 32" and "0 \<le> p" and "p \<le> 100" and "0 \<le> mx"
  shows "resolveThreshold fleet (Fin (of_int p)) pb mx mb =
    (let pct = (fleet * p + 99) div 100 in
     if p > 0 \<and> (mx = 0 \<or> pct \<le> mx) then (pct, pb) else if mx > 0 then (mx, mb) else (0, boundNone))"
proof (cases "p = 0")
  case True
  with assms show ?thesis by (simp add: resolveThreshold_def)
next
  case False
  with assms have p: "p > 0" by simp
  let ?a = "fleet * p" and ?pct = "(fleet * p + 99) div 100"
  have "?a \<le> fleet * 100" using assms by (intro mult_left_mono) auto
  moreover have "0 < ?a" using assms(1) p by simp
  moreover have "fleet * 100 < 2 ^ 40" using assms(2) by simp
  ultimately have a: "0 < ?a" "?a < 2 ^ 40" "?pct \<le> fleet" "0 < ?pct" by linarith+
  have tot: "f_of_int fleet = Fin (of_int fleet)" using assms by (intro f_of_int_exact) auto
  have "f_mult (f_of_int fleet) (Fin (of_int p)) = f_of_int ?a" unfolding tot by (simp add: f_of_int_def)
  also have "\<dots> = Fin (of_int ?a)" using a by (intro f_of_int_exact) auto
  finally have scaled: "f_ceil (f_div_pos (f_mult (f_of_int fleet) (Fin (of_int p))) 100) = Fin (of_int ?pct)"
    using scaled_exact [OF a(1,2)] by simp
  show ?thesis
    unfolding resolveThreshold_def Let_def scaled unfolding tot using p a(3,4) assms(5) by auto
qed

section \<open>Example\<close>

text \<open>A cluster of four nodes whose state cannot be persisted, a window of five seconds, a bound
  of half the fleet, and two cordons.\<close>

definition example_client :: "unit K8sClientOperations" where
  "example_client = \<lparr>GetTotalNodes = (\<lambda>_. Inr 4), GetCordonedNodes = (\<lambda>_. Inr 0),
     EnsureCircuitBreakerConfigMap = (\<lambda>_ _ _ _. ((), None)), ReadCircuitBreakerState = (\<lambda>_ _ _. Inr ''CLOSED''),
     WriteCircuitBreakerState = (\<lambda>_ _ _ _. ((), Some (EText ''conflict''))),
     ReadCursorMode = (\<lambda>_ _ _. Inr CursorModeResume), WriteCursorMode = (\<lambda>_ _ _ _. ((), None))\<rparr>"

definition example_config :: "unit Config" where
  "example_config = \<lparr>Window = 5 * second, TripPercentage = Fin (of_int 50), TripMaxNodes = 0, TripMaxCordonedNodes = 0,
     TripMaxCordonedPercentage = Fin 0, K8sClient = example_client, ConfigMapName = ''cb'', ConfigMapNamespace = ''ns''\<rparr>"

definition example_breaker :: "unit slidingWindowBreaker" where
  "example_breaker = new_breaker 0 example_config 5"

definition example_ops :: "breaker_op list" where
  "example_ops = [OpCordon second ''n1'', OpCordon (2 * second) ''n2'']"

lemma example_new: "NewSlidingWindowBreaker 0 example_config () = ((), Inr example_breaker)"
  by (simp add: NewSlidingWindowBreaker_def example_config_def validateBounds_def validatePercentageBound_def
      f_is_finite_def example_client_def example_breaker_def StateClosed_def StateTripped_def second_def new_breaker_def)

lemma example_run: "run_ops example_ops (example_breaker, ()) = (fst (run_ops example_ops (example_breaker, ())), ())"
  by (simp add: prod_eq_iff)

lemma example_count: "sumBuckets (slideWindow (3 * second) (fst (run_ops example_ops (example_breaker, ())))) = 2"
  by code_simp

lemma example_fields:
  "cfg (fst (run_ops example_ops (example_breaker, ()))) = example_config"
  "state (fst (run_ops example_ops (example_breaker, ()))) = StateClosed"
  by (simp_all add: run_ops_def example_ops_def AddCordonEvent_keeps example_breaker_def new_breaker_def)

lemma example_threshold: "tripThreshold example_config 4 = (2, boundPercentage)"
  using resolve_exact [of 4 50 0 boundPercentage boundMaxNodes]
  by (simp add: tripThreshold_def example_config_def)

section \<open>Properties\<close>

text \<open>
  C10. The recent-cordon count is what it claims to be. For every sequence of calls with a
  clock that does not go back, the count at an evaluation is the number of distinct nodes of
  a set that holds every node last cordoned less than the window minus one bucket ago, and
  only nodes last cordoned less than the window plus one bucket ago.
\<close>

theorem breaker_counts_recent:
  assumes "NewSlidingWindowBreaker t0 c w = (w0, Inr b0)" and "run_ops ops (b0, w0) = (b, w')"
    and "sorted (t0 # concat (map op_time ops) @ [now])"
  shows "\<exists>S. sumBuckets (slideWindow now b) = int (card S) \<and>
    {n. \<exists>t. last_cordon ops n = Some t \<and> now - t < Window c - second} \<subseteq> S \<and>
    S \<subseteq> {n. \<exists>t. last_cordon ops n = Some t \<and> now - t < Window c + second}"
proof -
  note new = NewSlidingWindowBreaker_tracks [OF assms(1)]
  let ?clock = "last (t0 # concat (map op_time ops))" and ?N = "int (num_buckets b0)" and ?b = "slideWindow now b"
  have srt: "sorted (t0 # concat (map op_time ops))" "?clock \<le> now"
  proof -
    have "sorted ((t0 # concat (map op_time ops)) @ [now])" using assms(3) by simp
    then show "sorted (t0 # concat (map op_time ops))" "?clock \<le> now"
      unfolding sorted_append by (blast, metis last_in_set list.distinct(1) list.set_intros(1))
  qed
  from run_ops_tracks [OF new(1) srt(1) assms(2)] have run: "tracks (last_cordon ops) ?clock b" "num_buckets b = num_buckets b0"
    by (auto simp: last_cordon_def)
  note sl = slideWindow_tracks [OF run(1) srt(2)]
  let ?S = "dom (map_of (nodeToIndex ?b))"
  have N: "Window c \<le> ?N * second" "?N * second < Window c + second"
    using new(2) by (simp_all add: second_def)
  have inv: "window_inv ?b" using sl(1) by (simp add: tracks_def)
  have numb: "int (num_buckets ?b) = ?N" using sl(3) run(2) by simp
  have "n \<in> ?S" if "last_cordon ops n = Some t" "now - t < Window c - second" for n t
  proof (rule ccontr)
    assume "n \<notin> ?S"
    then have "map_of (nodeToIndex ?b) n = None" by blast
    with that(1) sl(1) numb have "t + (?N - 1) * second \<le> now" unfolding tracks_def by metis
    with that(2) N show False by (simp add: left_diff_distrib)
  qed
  moreover have "\<exists>t. last_cordon ops n = Some t \<and> now - t < Window c + second" if "n \<in> ?S" for n
  proof -
    from that obtain i where i: "map_of (nodeToIndex ?b) n = Some i" by blast
    with sl(1) obtain t where t: "last_cordon ops n = Some t" "slot_start ?b i \<le> t" unfolding tracks_def by blast
    have "0 \<le> i" using window_inv_index [OF inv, of n i] i by blast
    then have "0 \<le> i * second" by simp
    with t(2) sl(2) numb N(2) have "now - t < Window c + second"
      by (simp add: slot_start_def left_diff_distrib)
    with t(1) show ?thesis by blast
  qed
  ultimately show ?thesis using sumBuckets_card [OF inv] by blast
qed

theorem breaker_counts_recent_witness:
  "\<exists>S. sumBuckets (slideWindow (3 * second) (fst (run_ops example_ops (example_breaker, ())))) = int (card S) \<and>
    {n. \<exists>t. last_cordon example_ops n = Some t \<and> 3 * second - t < 4 * second} \<subseteq> S"
  using breaker_counts_recent [OF example_new, of example_ops "fst (run_ops example_ops (example_breaker, ()))" "()" "3 * second", OF example_run]
  by (auto simp: example_ops_def example_config_def second_def)

text \<open>
  The window structures agree after every sequence of calls: the counters are the sizes
  of the buckets' node sets, no node is in two buckets or twice in one, and the index of a
  node names its bucket.
\<close>

theorem breaker_window_consistent:
  assumes "NewSlidingWindowBreaker t0 c w = (w0, Inr b0)" and "run_ops ops (b0, w0) = (b, w')"
    and "sorted (t0 # concat (map op_time ops))"
  shows "window_inv b \<and> length (buckets b) = length (buckets b0)"
  using run_ops_tracks [OF NewSlidingWindowBreaker_tracks(1) [OF assms(1)] assms(3) assms(2)]
  by (simp add: tracks_def num_buckets_def)

theorem breaker_window_consistent_witness:
  "window_inv (fst (run_ops example_ops (example_breaker, ())))"
  using breaker_window_consistent [OF example_new, OF example_run]
  by (simp add: example_ops_def second_def)

text \<open>
  C11. A trip latches: after an evaluation reported a trip, even one whose persistence failed,
  every later evaluation reports a trip without consulting the cluster, until the state is
  forced.
\<close>

theorem breaker_latches:
  assumes "IsTripped now b w = (b1, w1, True, err)" and "run_ops ops (b1, w1) = (b2, w2)"
    and "\<forall>s. OpForce s \<notin> set ops"
  shows "IsTripped t b2 w2 = (b2, w2, True, None)"
  using tripped_run [OF IsTripped_trip [OF assms(1)] assms(3) assms(2)] by (simp add: IsTripped_def)

definition example_trip :: "unit slidingWindowBreaker" where
  "example_trip = fst (IsTripped (3 * second) (fst (run_ops example_ops (example_breaker, ()))) ())"

theorem breaker_latches_witness:
  "IsTripped (99 * second) (AddCordonEvent (98 * second) ''n3'' example_trip) () =
    (AddCordonEvent (98 * second) ''n3'' example_trip, (), True, None)"
proof -
  have client: "GetTotalNodes (K8sClient example_config) () = Inr 4"
    "WriteCircuitBreakerState (K8sClient example_config) () n s v = ((), Some (EText ''conflict''))" for n s v
    by (simp_all add: example_config_def example_client_def)
  have "snd (snd (IsTripped (3 * second) (fst (run_ops example_ops (example_breaker, ()))) ())) =
      (True, Some (EWrap ''error forcing circuit breaker state to TRIPPED''
        (EWrap ''error writing circuit breaker state'' (EText ''conflict''))))"
    by (simp add: IsTripped_def example_fields slide_keeps getTotalNodes_def client Let_def example_threshold example_count
        trip_def ForceState_def StateClosed_def StateTripped_def)
  then have "IsTripped (3 * second) (fst (run_ops example_ops (example_breaker, ()))) () =
      (example_trip, (), True, Some (EWrap ''error forcing circuit breaker state to TRIPPED''
        (EWrap ''error writing circuit breaker state'' (EText ''conflict''))))"
    by (simp add: example_trip_def prod_eq_iff)
  from breaker_latches [OF this, of "[OpCordon (98 * second) ''n3'']"] show ?thesis
    by (simp add: run_ops_def)
qed

text \<open>
  C12. For an integral percentage of at most 100 and a fleet below \<^verbatim>\<open>2 ^ 32\<close> nodes the float64
  arithmetic is exact: the rate threshold is the least of the rounded-up percentage of the
  fleet, the absolute bound and the fleet size, over the bounds that are set; it is at least
  one node, and no bound is reported exactly when none is set.
\<close>

theorem trip_threshold_exact:
  assumes "0 < fleet" and "fleet < 2 ^ 32" and "TripPercentage c = Fin (of_int p)" and "0 \<le> p" and "p \<le> 100"
    and "0 \<le> TripMaxNodes c" and "tripThreshold c fleet = (threshold, bound)"
  shows "if p = 0 \<and> TripMaxNodes c = 0 then threshold = 0 \<and> bound = boundNone
    else bound \<noteq> boundNone \<and> 1 \<le> threshold \<and>
      threshold = Min ({fleet} \<union> (if p = 0 then {} else {(fleet * p + 99) div 100}) \<union>
        (if TripMaxNodes c = 0 then {} else {TripMaxNodes c}))"
proof -
  let ?pct = "(fleet * p + 99) div 100" and ?m = "TripMaxNodes c"
  have "0 \<le> fleet * p" "p > 0 \<Longrightarrow> 0 < fleet * p" "fleet * p \<le> fleet * 100"
    using assms by (auto intro!: mult_left_mono)
  then have pct: "?pct \<le> fleet" "p > 0 \<Longrightarrow> 1 \<le> ?pct" by linarith+
  show ?thesis
    using assms(7) pct assms(1,4,6) unfolding tripThreshold_def assms(3) resolve_exact [OF assms(1,2,4,5,6)]
    by (auto simp: Let_def min_def split: if_splits)
qed

theorem trip_threshold_exact_witness:
  "fst (tripThreshold example_config 7) = 4"
  using trip_threshold_exact [of 7 example_config 50 "fst (tripThreshold example_config 7)" "snd (tripThreshold example_config 7)"]
  by (simp add: example_config_def)

text \<open>
  An evaluation of a closed breaker over a non-empty fleet trips exactly when a rate bound
  is set and the recent-cordon count reached it, or a standing bound is set and the number of
  nodes held reached it; it is tripped afterwards exactly when it reports so, and without a
  trip nothing outside changes. A failing lookup of the standing count never hides a trip of
  the rate bound and is reported as an error.
\<close>

theorem breaker_decision:
  assumes "state b \<noteq> StateTripped" and "GetTotalNodes (K8sClient (cfg b)) w = Inr fleet" and "fleet \<noteq> 0"
    and "tripThreshold (cfg b) fleet = (threshold, bound)" and "standingThreshold (cfg b) fleet = (limit, standing)"
    and "IsTripped now b w = (b', w', tripped, err)"
  shows "(tripped \<longleftrightarrow> (bound \<noteq> boundNone \<and> sumBuckets (slideWindow now b) \<ge> threshold) \<or>
      (standing \<noteq> boundNone \<and> (\<exists>held. GetCordonedNodes (K8sClient (cfg b)) w = Inr held \<and> held \<ge> limit))) \<and>
    (tripped \<longleftrightarrow> state b' = StateTripped) \<and> (tripped \<or> w' = w) \<and>
    (tripped \<or> (err \<noteq> None \<longleftrightarrow> standing \<noteq> boundNone \<and> (\<exists>e. GetCordonedNodes (K8sClient (cfg b)) w = Inl e)))"
proof -
  let ?b = "slideWindow now b"
  have closed: "state ?b \<noteq> StateTripped" using assms(1) slide_keeps(1) by metis
  have trip: "trip ?b w = (c, u, r, e) \<Longrightarrow> r \<and> state c = StateTripped" for c u r e
    by (auto simp: trip_def ForceState_def Let_def split: prod.splits)
  have run: "IsTripped now b w =
      (if bound \<noteq> boundNone \<and> sumBuckets ?b \<ge> threshold then trip ?b w
       else case standingBoundReached (cfg b) w limit standing of
           Inl e \<Rightarrow> (?b, w, False, Some e)
         | Inr (_, reached) \<Rightarrow> if reached then trip ?b w else (?b, w, False, None))"
    using assms(1-5) by (simp add: IsTripped_def getTotalNodes_def Let_def)
  show ?thesis
  proof (cases "bound \<noteq> boundNone \<and> sumBuckets ?b \<ge> threshold")
    case True
    with assms(6) run trip show ?thesis by auto
  next
    case False
    with assms(6) run trip closed show ?thesis
      by (auto simp: standingBoundReached_def split: if_splits sum.splits)
  qed
qed

theorem breaker_decision_witness:
  "fst (snd (snd (IsTripped (3 * second) (fst (run_ops example_ops (example_breaker, ()))) ())))"
proof -
  let ?b = "fst (run_ops example_ops (example_breaker, ()))"
  let ?r = "IsTripped (3 * second) ?b ()"
  have "GetTotalNodes (K8sClient (cfg ?b)) () = Inr 4" "state ?b \<noteq> StateTripped"
    by (simp_all add: example_fields example_config_def example_client_def StateClosed_def StateTripped_def)
  with breaker_decision [of ?b "()" 4 2 boundPercentage "fst (standingThreshold example_config 4)"
      "snd (standingThreshold example_config 4)" "3 * second" "fst ?r" "()" "fst (snd (snd ?r))" "snd (snd (snd ?r))"]
  show ?thesis by (simp add: example_fields example_threshold example_count prod_eq_iff)
qed

text \<open>
  Outside the range of the exactness property a positive percentage can vanish: when the scaled
  percentage underflows to zero the threshold is zero with a bound reported, and an evaluation
  trips although no node was cordoned.
\<close>

lemma ulp64_subnormal: "0 < x \<Longrightarrow> x < 2 powi (- 1022) \<Longrightarrow> ulp64 x = 2 powi (- 1074)"
  using log2_rat_le [of x "- 1022"] by (simp add: ulp64_def)

lemma vanishing_percentage:
  assumes x: "x = 2 powi (- 1074)"
  shows "resolveThreshold 1 (Fin x) pb 0 mb = (0, pb)"
proof -
  have pos: "0 < x" "0 < x / 100" by (simp_all add: x)
  have "x < 2 powi (- 1022)" unfolding x by (rule power_int_strict_increasing) simp_all
  moreover have "x / 100 < x" using pos(1) by (simp add: divide_less_eq)
  ultimately have ulp: "ulp64 x = x" "ulp64 (x / 100) = x"
    using ulp64_subnormal [OF pos(1)] ulp64_subnormal [OF pos(2)] unfolding x [symmetric] by linarith+
  have "x < 2 powi 0" unfolding x by (rule power_int_strict_increasing) simp_all
  then have "x < 1" by simp
  moreover have "(1 :: rat) \<le> 2 ^ 1024" by (rule one_le_power) simp
  ultimately have "x < 2 ^ 1024" "\<not> x \<le> - (2 ^ 1024)" using pos(1) by linarith+
  moreover have "round_even (x / ulp64 x) = 1" using round_even_int [of 1] pos(1) by (simp add: ulp)
  ultimately have one: "round64 x = Fin x" using pos(1) by (simp add: round64_def Let_def ulp)
  have "\<lfloor>1 / 100 :: rat\<rfloor> = 0" by (simp add: floor_eq_iff)
  then have "round_even (1 / 100) = 0" by (simp add: round_even_def Let_def)
  moreover have "x / 100 / ulp64 (x / 100) = 1 / 100" unfolding ulp using pos(1) by simp
  ultimately have "round64 (x / 100) = Fin 0" using pos(2) by (simp add: round64_def Let_def)
  moreover have "f_of_int 1 = Fin 1" using f_of_int_exact [of 1] by simp
  ultimately show ?thesis using pos(1) one by (simp add: resolveThreshold_def Let_def)
qed

end
