(* ===== verification/State_Manager.thy ===== *)
theory State_Manager
  imports Go_Error NVS_Prelude
begin

text \<open>
  The manager of the node label \<^verbatim>\<open>dgxc.nvidia.com/nvsentinel-state\<close>
  (\<^verbatim>\<open>commons/pkg/statemanager/statemanager.go\<close>), through which node-drainer and
  fault-remediation record how far the handling of a node has come.

  A node carries its name, its resource version and its labels; the labels of a Go object may
  be a nil map, which reads as empty and panics when it is assigned to. The Kubernetes client is
  a record of functions over the state \<^verbatim>\<open>'w\<close> of the API server and of the other writers, and
  \<^verbatim>\<open>retry.OnError\<close> is a function argument; what the proofs use of them is stated where it is
  used. The captured variable \<^verbatim>\<open>nodeModified\<close> is threaded beside the state outside.
\<close>

section \<open>Label values\<close>

definition NVSentinelStateLabelKey :: string where
  "NVSentinelStateLabelKey = ''dgxc.nvidia.com/nvsentinel-state''"

type_synonym NVSentinelStateLabelValue = string

definition QuarantinedLabelValue :: NVSentinelStateLabelValue where
  "QuarantinedLabelValue = ''quarantined''"
definition DrainingLabelValue :: NVSentinelStateLabelValue where
  "DrainingLabelValue = ''draining''"
definition DrainSucceededLabelValue :: NVSentinelStateLabelValue where
  "DrainSucceededLabelValue = ''drain-succeeded''"
definition DrainFailedLabelValue :: NVSentinelStateLabelValue where
  "DrainFailedLabelValue = ''drain-failed''"
definition RemediatingLabelValue :: NVSentinelStateLabelValue where
  "RemediatingLabelValue = ''remediating''"
definition RemediationSucceededLabelValue :: NVSentinelStateLabelValue where
  "RemediationSucceededLabelValue = ''remediation-succeeded''"
definition RemediationFailedLabelValue :: NVSentinelStateLabelValue where
  "RemediationFailedLabelValue = ''remediation-failed''"

lemmas label_value_defs = QuarantinedLabelValue_def DrainingLabelValue_def
  DrainSucceededLabelValue_def DrainFailedLabelValue_def RemediatingLabelValue_def
  RemediationSucceededLabelValue_def RemediationFailedLabelValue_def

section \<open>Validation of a transition\<close>

definition validTransitions :: "(NVSentinelStateLabelValue, NVSentinelStateLabelValue list) gomap" where
  "validTransitions =
     [(QuarantinedLabelValue, [DrainingLabelValue, DrainSucceededLabelValue]),
      (DrainingLabelValue, [DrainSucceededLabelValue, DrainFailedLabelValue]),
      (DrainSucceededLabelValue, [RemediatingLabelValue, RemediationFailedLabelValue]),
      (DrainFailedLabelValue, []),
      (RemediatingLabelValue, [RemediationSucceededLabelValue, RemediationFailedLabelValue]),
      (RemediationSucceededLabelValue, [RemediationFailedLabelValue, RemediatingLabelValue]),
      (RemediationFailedLabelValue, [RemediationSucceededLabelValue, RemediatingLabelValue])]"

text \<open>The verb \<^verbatim>\<open>%v\<close> on a slice of strings.\<close>

fun join_spaces :: "string list \<Rightarrow> string" where
  "join_spaces [] = []"
| "join_spaces [x] = x"
| "join_spaces (x # xs) = x @ '' '' @ join_spaces xs"

definition validateStateTransition :: "string \<Rightarrow> bool \<Rightarrow> NVSentinelStateLabelValue \<Rightarrow> error option" where
  "validateStateTransition currentValue exists targetState =
     (let fromState = (if exists then currentValue else ''none'') in
      if \<not> exists then
        (if targetState \<noteq> QuarantinedLabelValue
         then Some (EText (''unexpected state transition: '' @ fromState @ '' -> '' @ targetState @
                '' (expected first state: '' @ QuarantinedLabelValue @ '')''))
         else None)
      else
        case map_of validTransitions currentValue of
          None \<Rightarrow> Some (EText (''unexpected state transition: unknown current state '' @
                    currentValue @ '' -> '' @ targetState))
        | Some allowedStates \<Rightarrow>
            if targetState \<in> set allowedStates then None
            else Some (EText (''unexpected state transition: '' @ currentValue @ '' -> '' @ targetState @
                   '' (expected one of: ['' @ join_spaces allowedStates @ ''])'')))"

section \<open>Nodes, the client and the retry helper\<close>

record node =
  Name :: string
  ResourceVersion :: string
  Labels :: "(string, string) gomap option"

record 'w NodeClient =
  GetNode :: "'w \<Rightarrow> string \<Rightarrow> 'w \<times> (error + node)"
  UpdateNode :: "'w \<Rightarrow> node \<Rightarrow> 'w \<times> error option"

text \<open>A Go function either returns its error (None is nil) or panics.\<close>

datatype completion = Returned "error option" | Panicked

type_synonym 'w on_error =
  "(error \<Rightarrow> bool) \<Rightarrow> ('w \<times> bool \<Rightarrow> ('w \<times> bool) \<times> completion) \<Rightarrow> 'w \<times> bool \<Rightarrow> ('w \<times> bool) \<times> completion"

definition label_of :: "node \<Rightarrow> string option" where
  "label_of n = (case Labels n of None \<Rightarrow> None | Some m \<Rightarrow> map_of m NVSentinelStateLabelKey)"

definition delete_label :: "node \<Rightarrow> node" where
  "delete_label n = n\<lparr>Labels := map_option (AList.delete NVSentinelStateLabelKey) (Labels n)\<rparr>"

text \<open>Assigning an entry of a nil map panics.\<close>

definition assign_label :: "string \<Rightarrow> node \<Rightarrow> node option" where
  "assign_label v n = (case Labels n of None \<Rightarrow> None
     | Some m \<Rightarrow> Some (n\<lparr>Labels := Some (AList.update NVSentinelStateLabelKey v m)\<rparr>))"

section \<open>Operations\<close>

definition update_attempt ::
  "'w NodeClient \<Rightarrow> string \<Rightarrow> NVSentinelStateLabelValue \<Rightarrow> bool \<Rightarrow> 'w \<times> bool \<Rightarrow> ('w \<times> bool) \<times> completion" where
  "update_attempt client nodeName newStateLabelValue removeStateLabel st =
     (let (w, nodeModified) = st;
          (w1, got) = GetNode client w nodeName in
      case got of
        Inl err \<Rightarrow> ((w1, nodeModified), Returned (Some err))
      | Inr node \<Rightarrow>
          let current = label_of node; exists = (current \<noteq> None);
              currentValue = (case current of None \<Rightarrow> [] | Some v \<Rightarrow> v) in
          if removeStateLabel then
            (if \<not> exists then ((w1, nodeModified), Returned None)
             else let (w2, err) = UpdateNode client w1 (delete_label node) in
               case err of
                 Some e \<Rightarrow> ((w2, nodeModified),
                   Returned (Some (EWrap (''failed to update node '' @ nodeName @ '' to remove label'') e)))
               | None \<Rightarrow> ((w2, True), Returned None))
          else if exists \<and> currentValue = newStateLabelValue then ((w1, nodeModified), Returned None)
          else
            let validationErr = validateStateTransition currentValue exists newStateLabelValue in
            case assign_label newStateLabelValue node of
              None \<Rightarrow> ((w1, nodeModified), Panicked)
            | Some node' \<Rightarrow>
                let (w2, err) = UpdateNode client w1 node' in
                case err of
                  Some e \<Rightarrow> ((w2, nodeModified),
                    Returned (Some (EWrap (''failed to update node '' @ nodeName @ '' with new label'') e)))
                | None \<Rightarrow> ((w2, True), Returned validationErr))"

definition UpdateNVSentinelStateNodeLabel ::
  "'w on_error \<Rightarrow> 'w NodeClient \<Rightarrow> string \<Rightarrow> NVSentinelStateLabelValue \<Rightarrow> bool \<Rightarrow> 'w
     \<Rightarrow> ('w \<times> bool) \<times> completion" where
  "UpdateNVSentinelStateNodeLabel onError client nodeName newStateLabelValue removeStateLabel w =
     onError IsConflict (update_attempt client nodeName newStateLabelValue removeStateLabel) (w, False)"

definition remove_attempt ::
  "'w NodeClient \<Rightarrow> string \<Rightarrow> string list \<Rightarrow> 'w \<times> bool \<Rightarrow> ('w \<times> bool) \<times> completion" where
  "remove_attempt client nodeName expected st =
     (let (w, nodeModified) = st;
          (w1, got) = GetNode client w nodeName in
      case got of
        Inl err \<Rightarrow> ((w1, nodeModified), Returned (Some err))
      | Inr node \<Rightarrow>
          (case label_of node of
             None \<Rightarrow> ((w1, nodeModified), Returned None)
           | Some currentValue \<Rightarrow>
               if currentValue \<notin> set expected then ((w1, nodeModified), Returned None)
               else let (w2, err) = UpdateNode client w1 (delete_label node) in
                 case err of
                   Some e \<Rightarrow> ((w2, nodeModified), Returned (Some
                     (EWrap (''failed to update node '' @ nodeName @ '' to conditionally remove label'') e)))
                 | None \<Rightarrow> ((w2, True), Returned None)))"

definition RemoveNVSentinelStateNodeLabelIfMatch ::
  "'w on_error \<Rightarrow> 'w NodeClient \<Rightarrow> string \<Rightarrow> NVSentinelStateLabelValue list \<Rightarrow> 'w
     \<Rightarrow> ('w \<times> bool) \<times> completion" where
  "RemoveNVSentinelStateNodeLabelIfMatch onError client nodeName expectedValues w =
     onError IsConflict (remove_attempt client nodeName expectedValues) (w, False)"

end
