(* ===== verification/Retry_Contract.thy ===== *)
theory Retry_Contract
  imports Go_Error
begin

text \<open>
  What \<^verbatim>\<open>retry.OnError\<close> and \<^verbatim>\<open>retry.RetryOnConflict\<close> of client-go report of the function they retry. An error
  that is not retriable and comes from an ended context is replaced by the last retriable error, which is nil
  when there was none (the comment of \<^verbatim>\<open>RetryNodePatch\<close> in \<^verbatim>\<open>commons/pkg/kubeclient/nodepatch.go\<close>); every other
  outcome of the last call is reported as it is. The contracts of the state label and of the remediation
  state both rest on it.
\<close>

definition hides_outcome :: "(error \<Rightarrow> bool) \<Rightarrow> error option \<Rightarrow> bool" where
  "hides_outcome retriable outcome \<longleftrightarrow>
     (case outcome of None \<Rightarrow> False | Some e \<Rightarrow> \<not> retriable e \<and> context_done e)"

definition retry_reports :: "(error \<Rightarrow> bool) \<Rightarrow> error option \<Rightarrow> error option \<Rightarrow> bool" where
  "retry_reports retriable outcome report \<longleftrightarrow>
     (if hides_outcome retriable outcome then case report of None \<Rightarrow> True | Some e \<Rightarrow> retriable e
      else report = outcome)"

lemma hides_outcome_simps [simp]:
  "\<not> hides_outcome retriable None"
  "hides_outcome retriable (Some e) \<longleftrightarrow> \<not> retriable e \<and> context_done e"
  by (simp_all add: hides_outcome_def)

lemma retry_reports_refl [intro]: "\<not> hides_outcome retriable outcome \<Longrightarrow> retry_reports retriable outcome outcome"
  by (simp add: retry_reports_def)

lemma retry_reports_hidden [intro]:
  "hides_outcome retriable outcome \<Longrightarrow> (\<And>e. report = Some e \<Longrightarrow> retriable e) \<Longrightarrow> retry_reports retriable outcome report"
  by (simp add: retry_reports_def split: option.splits)

lemma retry_reportsE:
  assumes "retry_reports retriable outcome report"
  obtains (faithful) "report = outcome" "\<not> hides_outcome retriable outcome"
    | (hidden) e where "outcome = Some e" "\<not> retriable e" "context_done e" "\<And>r. report = Some r \<Longrightarrow> retriable r"
  using assms by (cases outcome) (auto simp: retry_reports_def split: if_splits option.splits)

lemma context_done_text [simp]: "\<not> context_done (EText s)"
  by (simp add: context_done_def)

end
