(* ===== verification/State_Properties.thy ===== *)
theory State_Properties
  imports State_Manager Retry_Contract
begin

text \<open>
  Correctness of the node-state label: the accepted transitions are the documented ones, a node
  whose transitions were all accepted was drained before it was remediated, and both operations
  are atomic read-modify-write changes of the node in the presence of other writers.
\<close>

section \<open>The documented state machine\<close>

text \<open>The list \<^verbatim>\<open>Valid State Transitions\<close> of the package documentation, a rule per line.\<close>

inductive documented :: "string option \<Rightarrow> string \<Rightarrow> bool" where
  entry: "documented None ''quarantined''"
| drain_start: "documented (Some ''quarantined'') ''draining''"
| drain_skip: "documented (Some ''quarantined'') ''drain-succeeded''"
| drain_done: "documented (Some ''draining'') ''drain-succeeded''"
| drain_fail: "documented (Some ''draining'') ''drain-failed''"
| remediate: "documented (Some ''drain-succeeded'') ''remediating''"
| unsupported: "documented (Some ''drain-succeeded'') ''remediation-failed''"
| success: "documented (Some ''remediating'') ''remediation-succeeded''"
| failure: "documented (Some ''remediating'') ''remediation-failed''"
| recovered: "documented (Some ''remediation-failed'') ''remediation-succeeded''"
| recomputed: "documented (Some ''remediation-succeeded'') ''remediation-failed''"
| again: "documented (Some ''remediation-succeeded'') ''remediating''"
| retried: "documented (Some ''remediation-failed'') ''remediating''"

inductive_simps documented_none: "documented None t"
inductive_simps documented_some: "documented (Some s) t"

lemma validate_none: "validateStateTransition v False t = None \<longleftrightarrow> documented None t"
  by (simp add: validateStateTransition_def documented_none QuarantinedLabelValue_def)

lemma validate_some: "validateStateTransition v True t = None \<longleftrightarrow> documented (Some v) t"
  by (simp add: validateStateTransition_def documented_some validTransitions_def label_value_defs)

text \<open>
  A transition passes validation exactly when the package documentation lists it: from no
  label only to quarantined, and from a label value to the targets documented for it; every
  other target, and every target of an unknown value, is an error.
\<close>
theorem transitions_documented:
  "validateStateTransition currentValue exists targetState = None \<longleftrightarrow>
     documented (if exists then Some currentValue else None) targetState"
  by (cases exists) (simp_all add: validate_none validate_some)

text \<open>
  The life of the label of one node as its writers see it: a change accepted by the validation,
  or a removal, which is not validated. The second argument is the sequence of values since the
  label was last absent, newest first.
\<close>

inductive label_run :: "string option \<Rightarrow> string list \<Rightarrow> bool" where
  absent: "label_run None []"
| removal: "label_run l past \<Longrightarrow> label_run None []"
| change: "\<lbrakk>label_run l past;
     validateStateTransition (case l of None \<Rightarrow> [] | Some v \<Rightarrow> v) (l \<noteq> None) t = None\<rbrakk>
     \<Longrightarrow> label_run (Some t) (t # past)"

lemma accepted_documented:
  "validateStateTransition (case l of None \<Rightarrow> [] | Some v \<Rightarrow> v) (l \<noteq> None) t = None
     \<Longrightarrow> documented l t"
  by (cases l) (simp_all add: validate_none validate_some)

definition remediation_values :: "string list" where
  "remediation_values = [''remediating'', ''remediation-succeeded'', ''remediation-failed'']"

lemma label_run_past:
  assumes "label_run l past" and "l = Some v"
  shows "past \<noteq> [] \<and> hd past = v \<and> List.last past = ''quarantined'' \<and>
    (v \<in> set remediation_values \<longrightarrow> ''drain-succeeded'' \<in> set past) \<and>
    (v \<noteq> ''drain-failed'' \<longrightarrow> ''drain-failed'' \<notin> set past)"
  using assms
proof (induction arbitrary: v rule: label_run.induct)
  case (change l past t)
  then have "documented l t" by (simp add: accepted_documented)
  then show ?case using change
    by (cases rule: documented.cases) (auto simp: remediation_values_def elim: label_run.cases)
qed simp_all

text \<open>
  C15. On a node whose label changes all passed validation, a remediation value is only ever
  reached after the drain succeeded in the same quarantine session, every session starts
  with quarantined, and nothing but a removal follows a failed drain.
\<close>
theorem remediation_only_after_drain:
  assumes "label_run (Some v) past"
  shows "hd past = v \<and> List.last past = QuarantinedLabelValue \<and>
    (v \<in> {RemediatingLabelValue, RemediationSucceededLabelValue, RemediationFailedLabelValue} \<longrightarrow>
       DrainSucceededLabelValue \<in> set past) \<and>
    DrainFailedLabelValue \<notin> set (tl past)"
proof -
  from assms have hist: "past \<noteq> []" "hd past = v" "List.last past = ''quarantined''"
    "v \<in> set remediation_values \<longrightarrow> ''drain-succeeded'' \<in> set past"
    using label_run_past [OF assms refl] by simp_all
  from assms obtain l t where pre: "label_run l t" "past = v # t" "documented l v"
    by (cases rule: label_run.cases) (use accepted_documented in blast)
  have "''drain-failed'' \<notin> set t"
  proof (cases l)
    case None
    with pre show ?thesis by (auto elim: label_run.cases)
  next
    case (Some u)
    with pre have "u \<noteq> ''drain-failed''" by (auto simp: documented_some)
    with label_run_past [of l t u] pre Some show ?thesis by simp
  qed
  with hist pre show ?thesis by (auto simp: label_value_defs remediation_values_def)
qed

theorem remediation_only_after_drain_witness:
  "DrainSucceededLabelValue \<in> set [''remediating'', ''drain-succeeded'', ''quarantined'']"
proof -
  have "label_run (Some ''remediating'') [''remediating'', ''drain-succeeded'', ''quarantined'']"
    by (intro label_run.change [where l = "Some ''drain-succeeded''"]
        label_run.change [where l = "Some ''quarantined''"] label_run.change [where l = None]
        label_run.absent) (simp_all add: validate_none validate_some documented_none documented_some)
  from remediation_only_after_drain [OF this] show ?thesis
    by (simp add: label_value_defs)
qed

section \<open>What the operations rely on\<close>

text \<open>
  The documented behaviour of \<^verbatim>\<open>retry.OnError\<close> with a backoff of the given number of steps: it
  calls the function again while its error is retriable and steps are left. It reports the
  outcome of the last call, unless that is the error of an ended context: then it reports nil or an
  earlier retriable error. Another writer may act between two calls; its writes show at the next read.
\<close>

fun retry_run :: "nat \<Rightarrow> (error \<Rightarrow> bool) \<Rightarrow> ('s \<Rightarrow> 's \<times> completion) \<Rightarrow> 's \<Rightarrow> 's \<times> completion" where
  "retry_run 0 retriable fn s = (s, Returned None)"
| "retry_run (Suc k) retriable fn s =
     (case fn s of
        (s', Returned (Some e)) \<Rightarrow>
          if retriable e \<and> k > 0 then retry_run k retriable fn s' else (s', Returned (Some e))
      | (s', c) \<Rightarrow> (s', c))"

definition completion_reports :: "(error \<Rightarrow> bool) \<Rightarrow> completion \<Rightarrow> completion \<Rightarrow> bool" where
  "completion_reports retriable outcome c \<longleftrightarrow>
     (case outcome of Panicked \<Rightarrow> c = Panicked
      | Returned r \<Rightarrow> (case c of Panicked \<Rightarrow> False | Returned r' \<Rightarrow> retry_reports retriable r r'))"

definition retries :: "nat \<Rightarrow> 'w on_error \<Rightarrow> bool" where
  "retries steps onError \<longleftrightarrow>
     steps > 0 \<and> (\<forall>retriable fn s s' c. onError retriable fn s = (s', c) \<longrightarrow>
       (\<exists>outcome. retry_run steps retriable fn s = (s', outcome) \<and> completion_reports retriable outcome c))"

lemma completion_reportsE:
  assumes "completion_reports retriable outcome c"
  obtains (same) "c = outcome"
    | (cut) e r where "outcome = Returned (Some e)" "\<not> retriable e" "context_done e" "c = Returned r"
        "\<And>e'. r = Some e' \<Longrightarrow> retriable e'"
proof (cases outcome)
  case (Returned o0)
  with assms obtain r where r: "c = Returned r" "retry_reports retriable o0 r"
    by (auto simp: completion_reports_def split: completion.splits)
  from r(2) show ?thesis by (cases rule: retry_reportsE) (use r Returned that in auto)
qed (use assms that in \<open>auto simp: completion_reports_def\<close>)

text \<open>
  The history of a node on the API server is the list of its committed versions, oldest first,
  each marked with whether the operation under study wrote it. The documented concurrency
  control: a read returns the latest version; an update that names a resource version is
  committed only if that version is still the latest, a conflict commits nothing, and a failure
  of another kind (a timeout) may or may not have committed; versions are never reused.
\<close>

type_synonym commit = "bool \<times> node"

abbreviation foreign :: "commit list \<Rightarrow> bool" where
  "foreign h \<equiv> list_all (\<lambda>c. \<not> fst c) h"

definition reads_latest :: "'w NodeClient \<Rightarrow> ('w \<Rightarrow> string \<Rightarrow> commit list) \<Rightarrow> bool" where
  "reads_latest client commits \<longleftrightarrow>
     (\<forall>w name w' r. GetNode client w name = (w', r) \<longrightarrow>
        (\<exists>others. commits w' name = commits w name @ others \<and> foreign others) \<and>
        (\<forall>n. r = Inr n \<longrightarrow> commits w' name \<noteq> [] \<and> snd (List.last (commits w' name)) = n \<and> Name n = name))"

definition compares_versions :: "'w NodeClient \<Rightarrow> ('w \<Rightarrow> string \<Rightarrow> commit list) \<Rightarrow> bool" where
  "compares_versions client commits \<longleftrightarrow>
     (\<forall>w n w' r. UpdateNode client w n = (w', r) \<longrightarrow>
        (\<exists>before mine after. commits w' (Name n) = commits w (Name n) @ before @ mine @ after \<and>
           foreign before \<and> foreign after \<and>
           (mine = [] \<or>
              (\<exists>v. mine = [(True, n\<lparr>ResourceVersion := v\<rparr>)] \<and>
                 commits w (Name n) @ before \<noteq> [] \<and>
                 ResourceVersion (snd (List.last (commits w (Name n) @ before))) = ResourceVersion n)) \<and>
           (r = None \<longrightarrow> mine = [] \<longrightarrow> n \<in> snd ` set (commits w' (Name n))) \<and>
           (\<forall>e. r = Some e \<longrightarrow> IsConflict e \<longrightarrow> mine = [])))"

definition fresh_versions :: "('w \<Rightarrow> string \<Rightarrow> commit list) \<Rightarrow> bool" where
  "fresh_versions commits \<longleftrightarrow>
     (\<forall>w name. distinct (map (\<lambda>c. ResourceVersion (snd c)) (commits w name)))"

definition optimistic :: "'w NodeClient \<Rightarrow> ('w \<Rightarrow> string \<Rightarrow> commit list) \<Rightarrow> bool" where
  "optimistic client commits \<longleftrightarrow>
     reads_latest client commits \<and> compares_versions client commits \<and> fresh_versions commits"

section \<open>A read-modify-write change\<close>

text \<open>
  What one call did to the history: either it wrote nothing, and failed or found (in the latest
  version it read) nothing to do; or it wrote once, directly on top of a version that passed
  its guard.
\<close>

definition rmw_result ::
  "(node \<Rightarrow> bool) \<Rightarrow> (node \<Rightarrow> node) \<Rightarrow> (node \<Rightarrow> error option) \<Rightarrow> (node \<Rightarrow> completion \<Rightarrow> bool) \<Rightarrow>
     commit list \<Rightarrow> commit list \<Rightarrow> bool \<Rightarrow> completion \<Rightarrow> bool" where
  "rmw_result guard change verdict idle hist hist' modified c \<longleftrightarrow>
     (\<exists>new. hist' = hist @ new \<and>
        (foreign new \<and> \<not> modified \<and>
           ((\<exists>e. c = Returned (Some e)) \<or>
            (\<exists>before after. new = before @ after \<and> hist @ before \<noteq> [] \<and>
               idle (snd (List.last (hist @ before))) c)) \<or>
         (\<exists>before after v n. new = before @ (True, (change n)\<lparr>ResourceVersion := v\<rparr>) # after \<and>
            foreign before \<and> foreign after \<and> hist @ before \<noteq> [] \<and>
            n = snd (List.last (hist @ before)) \<and> guard n \<and>
            (if modified then c = Returned (verdict n)
             else \<exists>e. c = Returned (Some e) \<and> \<not> IsConflict e))))"

lemma rmw_quiet:
  "\<lbrakk>foreign new; (\<exists>e. c = Returned (Some e)) \<or>
     (\<exists>before after. new = before @ after \<and> hist @ before \<noteq> [] \<and> idle (snd (List.last (hist @ before))) c)\<rbrakk>
   \<Longrightarrow> rmw_result guard change verdict idle hist (hist @ new) False c"
  unfolding rmw_result_def by blast

lemma rmw_wrote:
  "\<lbrakk>foreign before; foreign after; hist @ before \<noteq> []; n = snd (List.last (hist @ before)); guard n;
    if modified then c = Returned (verdict n) else \<exists>e. c = Returned (Some e) \<and> \<not> IsConflict e\<rbrakk>
   \<Longrightarrow> rmw_result guard change verdict idle hist
        (hist @ before @ (True, (change n)\<lparr>ResourceVersion := v\<rparr>) # after) modified c"
  unfolding rmw_result_def by blast

lemma rmw_failed:
  "foreign new \<Longrightarrow> rmw_result guard change verdict idle hist (hist @ new) False (Returned (Some e))"
  by (rule rmw_quiet) simp_all

text \<open>A failed try that wrote nothing, followed by another call, is a call.\<close>

lemma rmw_prepend:
  assumes "rmw_result guard change verdict idle (hist @ new0) hist' modified c" and "foreign new0"
  shows "rmw_result guard change verdict idle hist hist' modified c"
  using assms(1) unfolding rmw_result_def [of _ _ _ _ "hist @ new0"]
proof (elim exE conjE disjE)
  fix new e
  assume "hist' = (hist @ new0) @ new" "foreign new" "\<not> modified" "c = Returned (Some e)"
  then show ?thesis using assms(2) rmw_failed [of "new0 @ new"] by simp
next
  fix new before after
  assume h: "hist' = (hist @ new0) @ new" "foreign new" "\<not> modified" "new = before @ after"
    "(hist @ new0) @ before \<noteq> []" "idle (snd (List.last ((hist @ new0) @ before))) c"
  then have "\<exists>b a. new0 @ new = b @ a \<and> hist @ b \<noteq> [] \<and> idle (snd (List.last (hist @ b))) c"
    by (intro exI [of _ "new0 @ before"] exI [of _ after]) auto
  then show ?thesis using h assms(2) rmw_quiet [of "new0 @ new" c hist idle] by simp
next
  fix new before after v n
  assume "hist' = (hist @ new0) @ new"
    "new = before @ (True, (change n)\<lparr>ResourceVersion := v\<rparr>) # after"
    "foreign before" "foreign after" "(hist @ new0) @ before \<noteq> []"
    "n = snd (List.last ((hist @ new0) @ before))" "guard n"
    "if modified then c = Returned (verdict n) else \<exists>e. c = Returned (Some e) \<and> \<not> IsConflict e"
  then show ?thesis
    using assms(2) rmw_wrote [of "new0 @ before" after hist n guard modified c verdict change idle v]
    by simp
qed

lemma rmw_conflict:
  assumes "rmw_result guard change verdict idle hist hist' modified (Returned (Some e))"
    and "IsConflict e" and "\<And>n. verdict n \<noteq> Some e"
  shows "\<not> modified \<and> (\<exists>new. hist' = hist @ new \<and> foreign new)"
  using assms(1) unfolding rmw_result_def
proof (elim exE conjE disjE)
  fix new before after v n
  assume "if modified then Returned (Some e) = Returned (verdict n)
    else \<exists>e'. Returned (Some e) = Returned (Some e') \<and> \<not> IsConflict e'"
  with assms(2) assms(3) [of n] show ?thesis by (simp split: if_splits)
qed blast+

section \<open>One try of each operation\<close>

lemma reads_latestE:
  assumes "reads_latest client commits" and "GetNode client w name = (w', r)"
  obtains others where "commits w' name = commits w name @ others" and "foreign others"
    and "\<And>n. r = Inr n \<Longrightarrow> commits w' name \<noteq> [] \<and> snd (List.last (commits w' name)) = n \<and> Name n = name"
  using assms(1) [unfolded reads_latest_def, rule_format, OF assms(2)] that by auto

lemma distinct_map_inj: "distinct (map f xs) \<Longrightarrow> x \<in> set xs \<Longrightarrow> y \<in> set xs \<Longrightarrow> f x = f y \<Longrightarrow> x = y"
  by (auto simp: distinct_map inj_on_def)

text \<open>An update on top of the version just read: nobody can have come in between.\<close>

lemma update_latest:
  assumes opt: "optimistic client commits"
    and latest: "commits w name \<noteq> []" "snd (List.last (commits w name)) = n" "Name n = name"
    and n': "Name n' = Name n" "ResourceVersion n' = ResourceVersion n" "n' \<noteq> n"
    and upd: "UpdateNode client w n' = (w', r)"
  shows "\<exists>new. commits w' name = commits w name @ new \<and>
    ((foreign new \<and> r \<noteq> None) \<or>
     (\<exists>v after. new = (True, n'\<lparr>ResourceVersion := v\<rparr>) # after \<and> foreign after \<and>
        (\<forall>e. r = Some e \<longrightarrow> \<not> IsConflict e)))"
proof -
  have cmp: "compares_versions client commits" and dist: "distinct (map (\<lambda>c. ResourceVersion (snd c)) (commits w' name))"
    using opt by (auto simp: optimistic_def fresh_versions_def)
  obtain before mine after where hist: "commits w' name = commits w name @ before @ mine @ after"
    and fb: "foreign before" and fa: "foreign after"
    and mine: "mine = [] \<or> (\<exists>v. mine = [(True, n'\<lparr>ResourceVersion := v\<rparr>)] \<and> commits w name @ before \<noteq> [] \<and>
       ResourceVersion (snd (List.last (commits w name @ before))) = ResourceVersion n')"
    and noop: "r = None \<longrightarrow> mine = [] \<longrightarrow> n' \<in> snd ` set (commits w' name)"
    and confl: "\<forall>e. r = Some e \<longrightarrow> IsConflict e \<longrightarrow> mine = []"
    using cmp upd latest(3) n'(1) unfolding compares_versions_def by metis
  have mem: "List.last (commits w name) \<in> set (commits w' name)" using latest(1) hist by simp
  show ?thesis
  proof (cases "mine = []")
    case True
    have "r \<noteq> None"
    proof
      assume "r = None"
      with True noop obtain c where c: "c \<in> set (commits w' name)" "n' = snd c" by auto
      with distinct_map_inj [OF dist c(1) mem] latest(2) n'(2) have "c = List.last (commits w name)"
        by simp
      with c(2) latest(2) n'(3) show False by simp
    qed
    with True hist fb fa show ?thesis by auto
  next
    case False
    with mine obtain v where v: "mine = [(True, n'\<lparr>ResourceVersion := v\<rparr>)]"
      "ResourceVersion (snd (List.last (commits w name @ before))) = ResourceVersion n'" by blast
    have "before = []"
    proof (rule ccontr)
      assume ne: "before \<noteq> []"
      then have "List.last before \<in> set (commits w' name)" using hist by simp
      from distinct_map_inj [OF dist this mem] v(2) ne n'(2) latest(2)
      have same: "List.last before = List.last (commits w name)" by simp
      from dist have "distinct (commits w' name)" by (simp add: distinct_map)
      with hist have "distinct (commits w name @ before)" by (simp add: Int_Un_distrib)
      with ne latest(1) same show False
        by (metis IntI distinct_append empty_iff last_in_set)
    qed
    with False v hist fa confl show ?thesis by auto
  qed
qed

text \<open>A try that reads, and then either leaves the node alone or updates it.\<close>

definition rmw_try ::
  "'w NodeClient \<Rightarrow> string \<Rightarrow> (node \<Rightarrow> bool) \<Rightarrow> (node \<Rightarrow> node) \<Rightarrow> (node \<Rightarrow> error option) \<Rightarrow> (node \<Rightarrow> completion) \<Rightarrow>
     string \<Rightarrow> 'w \<times> bool \<Rightarrow> ('w \<times> bool) \<times> completion" where
  "rmw_try client name guard change verdict rest what st =
     (case GetNode client (fst st) name of
        (w1, Inl err) \<Rightarrow> ((w1, snd st), Returned (Some err))
      | (w1, Inr n) \<Rightarrow>
          if guard n then
            (case UpdateNode client w1 (change n) of
               (w2, Some e) \<Rightarrow> ((w2, snd st), Returned (Some (EWrap what e)))
             | (w2, None) \<Rightarrow> ((w2, True), Returned (verdict n)))
          else ((w1, snd st), rest n))"

lemma rmw_try_result:
  assumes opt: "optimistic client commits"
    and change: "\<And>n. guard n \<Longrightarrow> Name (change n) = Name n \<and>
       ResourceVersion (change n) = ResourceVersion n \<and> change n \<noteq> n"
    and idle: "\<And>n. \<not> guard n \<Longrightarrow> idle n (rest n)"
    and run: "rmw_try client name guard change verdict rest what (w, False) = ((w', m), c)"
  shows "rmw_result guard change verdict idle (commits w name) (commits w' name) m c"
proof -
  obtain w1 r where get: "GetNode client w name = (w1, r)" by (metis prod.exhaust)
  with opt obtain others where o: "commits w1 name = commits w name @ others" "foreign others"
    and latest: "\<And>n. r = Inr n \<Longrightarrow> commits w1 name \<noteq> [] \<and> snd (List.last (commits w1 name)) = n \<and> Name n = name"
    using reads_latestE [of client commits w name w1 r] unfolding optimistic_def by metis
  show ?thesis
  proof (cases r)
    case (Inl e)
    with run get o rmw_failed show ?thesis by (auto simp: rmw_try_def)
  next
    case (Inr n)
    note l = latest [OF Inr]
    show ?thesis
    proof (cases "guard n")
      case False
      with run get Inr have "w' = w1" "\<not> m" "c = rest n" by (auto simp: rmw_try_def)
      moreover have "\<exists>b a. others = b @ a \<and> commits w name @ b \<noteq> [] \<and>
          idle (snd (List.last (commits w name @ b))) (rest n)"
        using l o(1) idle [OF False] by (intro exI [of _ others] exI [of _ "[]"]) simp
      ultimately show ?thesis using o rmw_quiet [of others c "commits w name" idle] by simp
    next
      case True
      obtain r' where upd: "UpdateNode client w1 (change n) = (w', r')"
        and mc: "case r' of Some e \<Rightarrow> \<not> m \<and> c = Returned (Some (EWrap what e)) | None \<Rightarrow> m \<and> c = Returned (verdict n)"
        using run get Inr True by (auto simp: rmw_try_def split: prod.splits option.splits)
      from update_latest [OF opt, of w1 name n "change n" w' r'] l change [OF True] upd
      obtain new where new: "commits w' name = commits w1 name @ new"
        and alt: "(foreign new \<and> r' \<noteq> None) \<or> (\<exists>v after. new = (True, (change n)\<lparr>ResourceVersion := v\<rparr>) # after \<and>
          foreign after \<and> (\<forall>e. r' = Some e \<longrightarrow> \<not> IsConflict e))" by auto
      from alt show ?thesis
      proof (elim disjE exE conjE)
        assume "foreign new" "r' \<noteq> None"
        with mc new o rmw_failed [of "others @ new"] show ?thesis by auto
      next
        fix v after
        assume "new = (True, (change n)\<lparr>ResourceVersion := v\<rparr>) # after" "foreign after"
          "\<forall>e. r' = Some e \<longrightarrow> \<not> IsConflict e"
        with mc new o l True
          rmw_wrote [of others after "commits w name" n guard m c verdict change idle v]
        show ?thesis by (cases r') auto
      qed
    qed
  qed
qed

text \<open>The whole call, under the documented retry.\<close>

lemma rmw_retry_result:
  assumes opt: "optimistic client commits"
    and change: "\<And>n. guard n \<Longrightarrow> Name (change n) = Name n \<and>
       ResourceVersion (change n) = ResourceVersion n \<and> change n \<noteq> n"
    and idle: "\<And>n. \<not> guard n \<Longrightarrow> idle n (rest n)"
    and verdict: "\<And>n e. verdict n = Some e \<Longrightarrow> \<not> IsConflict e"
  shows "retry_run (Suc k) IsConflict (rmw_try client name guard change verdict rest what) (w, False) = ((w', m), c)
     \<Longrightarrow> rmw_result guard change verdict idle (commits w name) (commits w' name) m c"
proof (induction k arbitrary: w)
  let ?f = "rmw_try client name guard change verdict rest what"
  case (Suc k)
  obtain w1 m1 c1 where f: "?f (w, False) = ((w1, m1), c1)" by (metis prod.exhaust)
  have once: "rmw_result guard change verdict idle (commits w name) (commits w1 name) m1 c1"
    by (rule rmw_try_result [OF opt _ _ f]) (use change idle in auto)
  show ?case
  proof (cases "\<exists>e. c1 = Returned (Some e) \<and> IsConflict e")
    case True
    then obtain e where e: "c1 = Returned (Some e)" "IsConflict e" by blast
    with verdict have "verdict n \<noteq> Some e" for n by blast
    with rmw_conflict [OF once [unfolded e(1)] e(2)] obtain new
      where new: "\<not> m1" "commits w1 name = commits w name @ new" "foreign new" by blast
    with Suc.prems f e have "retry_run (Suc k) IsConflict ?f (w1, False) = ((w', m), c)" by simp
    from Suc.IH [OF this] new rmw_prepend show ?thesis by metis
  next
    case False
    with Suc.prems f have "w' = w1" "m = m1" "c = c1"
      by (auto split: completion.splits option.splits)
    with once show ?thesis by simp
  qed
next
  case 0
  then have "rmw_try client name guard change verdict rest what (w, False) = ((w', m), c)"
    by (auto split: prod.splits completion.splits option.splits)
  from rmw_try_result [OF opt _ _ this] change idle show ?case by blast
qed

text \<open>
  A call is cut off when the request that led to its final state failed because the context had
  ended. Only then may the retry helper report something else than the outcome of the last try, and
  then no try has modified the node.
\<close>

definition cut_off :: "'w NodeClient \<Rightarrow> string \<Rightarrow> 'w \<Rightarrow> bool" where
  "cut_off client name w' \<longleftrightarrow>
     (\<exists>w0 e. context_done e \<and>
        (GetNode client w0 name = (w', Inl e) \<or> (\<exists>n. Name n = name \<and> UpdateNode client w0 n = (w', Some e))))"

definition reported :: "'w NodeClient \<Rightarrow> string \<Rightarrow> 'w \<Rightarrow> bool \<Rightarrow> completion \<Rightarrow> completion \<Rightarrow> bool" where
  "reported client name w' modified outcome c \<longleftrightarrow>
     c = outcome \<or>
     cut_off client name w' \<and> \<not> modified \<and> (\<exists>e. outcome = Returned (Some e) \<and> context_done e) \<and>
       (c = Returned None \<or> (\<exists>e. c = Returned (Some e) \<and> IsConflict e))"

lemma rmw_try_cut:
  assumes opt: "optimistic client commits" and change: "\<And>n. guard n \<Longrightarrow> Name (change n) = Name n"
    and rest: "\<And>n e. rest n \<noteq> Returned (Some e)"
    and run: "rmw_try client name guard change verdict rest what (w, m0) = ((w', m), Returned (Some e))"
    and verdict: "\<And>n. verdict n \<noteq> Some e"
  shows "m = m0" and "context_done e \<Longrightarrow> cut_off client name w'"
proof -
  obtain w1 r where get: "GetNode client w name = (w1, r)" by (metis prod.exhaust)
  have named: "Name n = name" if "r = Inr n" for n
    using opt get that unfolding optimistic_def reads_latest_def by blast
  have "m = m0 \<and> (context_done e \<longrightarrow> cut_off client name w')"
  proof (cases r)
    case (Inl e')
    with run get show ?thesis by (auto simp: rmw_try_def cut_off_def)
  next
    case (Inr n)
    with run get rest obtain e' where "guard n" "UpdateNode client w1 (change n) = (w', Some e')" "e = EWrap what e'" "m = m0"
      using verdict by (auto simp: rmw_try_def split: if_splits prod.splits option.splits)
    with named [OF Inr] change show ?thesis by (auto simp: cut_off_def)
  qed
  then show "m = m0" and "context_done e \<Longrightarrow> cut_off client name w'" by blast+
qed

lemma rmw_retry_cut:
  assumes opt: "optimistic client commits" and change: "\<And>n. guard n \<Longrightarrow> Name (change n) = Name n"
    and rest: "\<And>n e. rest n \<noteq> Returned (Some e)"
    and verdict: "\<And>n e. verdict n = Some e \<Longrightarrow> \<not> IsConflict e \<and> \<not> context_done e"
    and ended: "context_done e"
  shows "retry_run (Suc k) IsConflict (rmw_try client name guard change verdict rest what) (w, False) =
     ((w', m), Returned (Some e)) \<Longrightarrow> cut_off client name w' \<and> \<not> m"
proof (induction k arbitrary: w)
  let ?f = "rmw_try client name guard change verdict rest what"
  have cut: "m1 = False \<and> (context_done e1 \<longrightarrow> cut_off client name w1)"
    if "?f (w, False) = ((w1, m1), Returned (Some e1))" "IsConflict e1 \<or> context_done e1" for w w1 m1 e1
  proof -
    have "verdict n \<noteq> Some e1" for n using verdict that(2) by blast
    then show ?thesis using rmw_try_cut [OF opt _ _ that(1)] change rest by blast
  qed
  have last: "cut_off client name w' \<and> \<not> m" if "?f (w, False) = ((w', m), Returned (Some e))" for w
    using cut [OF that] ended by blast
  {
    case 0
    then show ?case using last by (auto split: prod.splits completion.splits option.splits)
  next
    case (Suc k)
    obtain w1 m1 c1 where f: "?f (w, False) = ((w1, m1), c1)" by (metis prod.exhaust)
    show ?case
    proof (cases "\<exists>e1. c1 = Returned (Some e1) \<and> IsConflict e1")
      case True
      then obtain e1 where e1: "c1 = Returned (Some e1)" "IsConflict e1" by blast
      with cut [OF f [unfolded e1(1)]] have "\<not> m1" by blast
      with Suc.prems f e1 have "retry_run (Suc k) IsConflict ?f (w1, False) = ((w', m), Returned (Some e))" by simp
      then show ?thesis by (rule Suc.IH)
    next
      case False
      with Suc.prems f have "?f (w, False) = ((w', m), Returned (Some e))"
        by (auto split: completion.splits option.splits)
      then show ?thesis by (rule last)
    qed
  }
qed

lemma rmw_call:
  assumes opt: "optimistic client commits" and ret: "retries steps onError"
    and change: "\<And>n. guard n \<Longrightarrow> Name (change n) = Name n \<and>
       ResourceVersion (change n) = ResourceVersion n \<and> change n \<noteq> n"
    and idle: "\<And>n. \<not> guard n \<Longrightarrow> idle n (rest n)" and rest: "\<And>n e. rest n \<noteq> Returned (Some e)"
    and verdict: "\<And>n e. verdict n = Some e \<Longrightarrow> \<not> IsConflict e \<and> \<not> context_done e"
    and run: "onError IsConflict (rmw_try client name guard change verdict rest what) (w, False) = ((w', m), c)"
  shows "\<exists>outcome. rmw_result guard change verdict idle (commits w name) (commits w' name) m outcome \<and>
    reported client name w' m outcome c"
proof -
  let ?f = "rmw_try client name guard change verdict rest what"
  obtain k outcome where tries: "retry_run (Suc k) IsConflict ?f (w, False) = ((w', m), outcome)"
    and rep: "completion_reports IsConflict outcome c"
    using ret run unfolding retries_def by (metis gr0_implies_Suc)
  have "rmw_result guard change verdict idle (commits w name) (commits w' name) m outcome"
    by (rule rmw_retry_result [OF opt _ _ _ tries]) (use change idle verdict in blast)+
  moreover from rep have "reported client name w' m outcome c"
  proof (cases rule: completion_reportsE)
    case same
    then show ?thesis by (simp add: reported_def)
  next
    case (cut e r)
    have "cut_off client name w' \<and> \<not> m"
      by (rule rmw_retry_cut [OF opt _ rest verdict cut(3) tries [unfolded cut(1)]]) (use change in blast)
    with cut show ?thesis by (cases r) (auto simp: reported_def)
  qed
  ultimately show ?thesis by blast
qed

section \<open>The operations as read-modify-write changes\<close>

definition set_label :: "string \<Rightarrow> node \<Rightarrow> node" where
  "set_label v n = n\<lparr>Labels := map_option (AList.update NVSentinelStateLabelKey v) (Labels n)\<rparr>"

definition transition_verdict :: "string \<Rightarrow> node \<Rightarrow> error option" where
  "transition_verdict t n =
     validateStateTransition (case label_of n of None \<Rightarrow> [] | Some v \<Rightarrow> v) (label_of n \<noteq> None) t"

lemma label_of_delete [simp]: "label_of (delete_label n) = None"
  by (cases "Labels n") (simp_all add: label_of_def delete_label_def delete_conv')

lemma label_of_set: "Labels n \<noteq> None \<Longrightarrow> label_of (set_label v n) = Some v"
  by (auto simp: label_of_def set_label_def update_conv')

lemma transition_verdict_text: "transition_verdict t n = Some e \<Longrightarrow> \<not> IsConflict e \<and> \<not> context_done e"
  by (auto simp: transition_verdict_def validateStateTransition_def Let_def
      split: if_splits option.splits)

lemma remove_attempt_rmw:
  "remove_attempt client name expected =
     rmw_try client name (\<lambda>n. label_of n \<in> Some ` set expected) delete_label (\<lambda>_. None)
       (\<lambda>_. Returned None) (''failed to update node '' @ name @ '' to conditionally remove label'')"
  by (rule ext) (auto simp: remove_attempt_def rmw_try_def Let_def split: prod.splits sum.splits option.splits)

lemma update_attempt_remove_rmw:
  "update_attempt client name v True =
     rmw_try client name (\<lambda>n. label_of n \<noteq> None) delete_label (\<lambda>_. None) (\<lambda>_. Returned None)
       (''failed to update node '' @ name @ '' to remove label'')"
  by (rule ext) (auto simp: update_attempt_def rmw_try_def Let_def split: prod.splits sum.splits option.splits)

lemma update_attempt_set_rmw:
  "update_attempt client name v False =
     rmw_try client name (\<lambda>n. Labels n \<noteq> None \<and> label_of n \<noteq> Some v) (set_label v) (transition_verdict v)
       (\<lambda>n. if Labels n = None then Panicked else Returned None)
       (''failed to update node '' @ name @ '' with new label'')"
  by (rule ext)
    (auto simp: update_attempt_def rmw_try_def Let_def set_label_def assign_label_def transition_verdict_def
      label_of_def split: prod.splits sum.splits option.splits)

lemma delete_label_change:
  "label_of n \<noteq> None \<Longrightarrow> Name (delete_label n) = Name n \<and>
     ResourceVersion (delete_label n) = ResourceVersion n \<and> delete_label n \<noteq> n"
  by (metis delete_label_def label_of_delete node.select_convs(1,2) node.surjective node.update_convs(3))

lemma set_label_change:
  "Labels n \<noteq> None \<and> label_of n \<noteq> Some v \<Longrightarrow> Name (set_label v n) = Name n \<and>
     ResourceVersion (set_label v n) = ResourceVersion n \<and> set_label v n \<noteq> n"
  by (metis label_of_set set_label_def node.select_convs(1,2) node.surjective node.update_convs(3))

text \<open>
  C13. However other writers interleave with its reads, updates and retries, a conditional
  removal writes at most once, and that write is committed directly on top of a version whose
  label is one of the expected values: a newer state is never removed. It reports the node
  as modified only after such a write, and reports neither a modification nor an error only
  if the latest version it read did not carry an expected value, or its last request was cut off
  by the end of the context.
\<close>
theorem conditional_removal_atomic:
  assumes "optimistic client commits" and "retries steps onError"
    and "RemoveNVSentinelStateNodeLabelIfMatch onError client nodeName expectedValues w = ((w', modified), c)"
  shows "\<exists>outcome. rmw_result (\<lambda>n. label_of n \<in> Some ` set expectedValues) delete_label (\<lambda>_. None)
     (\<lambda>n c. c = Returned None \<and> label_of n \<notin> Some ` set expectedValues)
     (commits w nodeName) (commits w' nodeName) modified outcome \<and>
     reported client nodeName w' modified outcome c"
  using assms(3) unfolding RemoveNVSentinelStateNodeLabelIfMatch_def remove_attempt_rmw
  by (rule rmw_call [OF assms(1,2), rotated -1]) (auto simp: delete_label_change)

text \<open>
  C14. An update of the label commits at most one version, the latest one with the new value and
  every other label kept. When it reports the node as modified it has committed one, and its error is
  exactly the verdict of the transition from the value it replaced: the label is written even
  when the transition is unexpected. It reports no modification and no error only if the latest
  version it read had the value already or its last request was cut off by the end of the context,
  and panics only on a node without a label map.
\<close>
theorem label_update_atomic:
  assumes "optimistic client commits" and "retries steps onError"
    and "UpdateNVSentinelStateNodeLabel onError client nodeName newValue False w = ((w', modified), c)"
  shows "\<exists>outcome. rmw_result (\<lambda>n. Labels n \<noteq> None \<and> label_of n \<noteq> Some newValue) (set_label newValue)
     (transition_verdict newValue)
     (\<lambda>n c. c = Returned None \<and> label_of n = Some newValue \<or> c = Panicked \<and> Labels n = None)
     (commits w nodeName) (commits w' nodeName) modified outcome \<and>
     reported client nodeName w' modified outcome c"
  using assms(3) unfolding UpdateNVSentinelStateNodeLabel_def update_attempt_set_rmw
  by (rule rmw_call [OF assms(1,2), rotated -1])
    (auto dest: transition_verdict_text simp: set_label_change split: if_splits)

text \<open>The unconditional removal is the same change with the presence of the label as its guard.\<close>

lemma label_removal_atomic:
  assumes "optimistic client commits" and "retries steps onError"
    and "UpdateNVSentinelStateNodeLabel onError client nodeName v True w = ((w', modified), c)"
  shows "\<exists>outcome. rmw_result (\<lambda>n. label_of n \<noteq> None) delete_label (\<lambda>_. None)
     (\<lambda>n c. c = Returned None \<and> label_of n = None)
     (commits w nodeName) (commits w' nodeName) modified outcome \<and>
     reported client nodeName w' modified outcome c"
  using assms(3) unfolding UpdateNVSentinelStateNodeLabel_def update_attempt_remove_rmw
  by (rule rmw_call [OF assms(1,2), rotated -1]) (auto simp: delete_label_change)

section \<open>Progress\<close>

text \<open>
  Documented for the API server: an update is refused with a conflict only if the named version
  is not the latest one, that is, if somebody wrote in between; a read is never a conflict.
\<close>

definition conflicts_explained :: "'w NodeClient \<Rightarrow> ('w \<Rightarrow> string \<Rightarrow> commit list) \<Rightarrow> bool" where
  "conflicts_explained client commits \<longleftrightarrow>
     (\<forall>w name w' e. GetNode client w name = (w', Inl e) \<longrightarrow> \<not> IsConflict e) \<and>
     (\<forall>w n w' e. UpdateNode client w n = (w', Some e) \<longrightarrow> IsConflict e \<longrightarrow> commits w (Name n) \<noteq> [] \<longrightarrow>
        ResourceVersion (snd (List.last (commits w (Name n)))) = ResourceVersion n \<longrightarrow>
        commits w' (Name n) \<noteq> commits w (Name n))"

lemma rmw_try_conflict:
  assumes opt: "optimistic client commits" and expl: "conflicts_explained client commits"
    and change: "\<And>n. guard n \<Longrightarrow> Name (change n) = Name n \<and>
       ResourceVersion (change n) = ResourceVersion n \<and> change n \<noteq> n"
    and verdict: "\<And>n e. verdict n = Some e \<Longrightarrow> \<not> IsConflict e"
    and rest: "\<And>n e. rest n \<noteq> Returned (Some e)"
    and run: "rmw_try client name guard change verdict rest what (w, False) = ((w', m), Returned (Some e))"
    and confl: "IsConflict e"
  shows "length (commits w name) < length (commits w' name) \<and> \<not> m"
proof -
  obtain w1 r where get: "GetNode client w name = (w1, r)" by (metis prod.exhaust)
  with opt obtain others where o: "commits w1 name = commits w name @ others" "foreign others"
    and latest: "\<And>n. r = Inr n \<Longrightarrow> commits w1 name \<noteq> [] \<and> snd (List.last (commits w1 name)) = n \<and> Name n = name"
    using reads_latestE [of client commits w name w1 r] unfolding optimistic_def by metis
  have "\<exists>n. r = Inr n \<and> guard n"
    using run get confl expl rest unfolding conflicts_explained_def
    by (cases r) (auto simp: rmw_try_def split: if_splits)
  then obtain n where n: "r = Inr n" "guard n" by blast
  then obtain e' where upd: "UpdateNode client w1 (change n) = (w', Some e')" and e': "IsConflict e'" and "\<not> m"
    using run get confl verdict by (auto simp: rmw_try_def split: prod.splits option.splits)
  have "commits w' name \<noteq> commits w1 name"
    using expl upd e' latest [OF n(1)] change [OF n(2)] unfolding conflicts_explained_def by metis
  moreover obtain new where "commits w' name = commits w1 name @ new"
    using update_latest [OF opt, of w1 name n "change n" w' "Some e'"] latest [OF n(1)] change [OF n(2)] upd
    by auto
  ultimately show ?thesis using o(1) \<open>\<not> m\<close> by auto
qed

lemma rmw_retry_progress:
  assumes opt: "optimistic client commits" and expl: "conflicts_explained client commits"
    and change: "\<And>n. guard n \<Longrightarrow> Name (change n) = Name n \<and>
       ResourceVersion (change n) = ResourceVersion n \<and> change n \<noteq> n"
    and verdict: "\<And>n e. verdict n = Some e \<Longrightarrow> \<not> IsConflict e"
    and rest: "\<And>n e. rest n \<noteq> Returned (Some e)"
    and confl: "IsConflict e"
  shows "retry_run (Suc k) IsConflict (rmw_try client name guard change verdict rest what) (w, False) =
     ((w', m), Returned (Some e)) \<Longrightarrow> length (commits w name) + k < length (commits w' name)"
proof (induction k arbitrary: w)
  let ?f = "rmw_try client name guard change verdict rest what"
  have grows: "length (commits w name) < length (commits w1 name) \<and> \<not> m1"
    if "?f (w, False) = ((w1, m1), Returned (Some e'))" "IsConflict e'" for w w1 m1 e'
    by (rule rmw_try_conflict [OF opt expl _ _ _ that]) (use change verdict rest in blast)+
  {
    case 0
    then have "?f (w, False) = ((w', m), Returned (Some e))"
      by (auto split: prod.splits completion.splits option.splits)
    from grows [OF this confl] show ?case by simp
  next
    case (Suc k)
    obtain w1 m1 c1 where f: "?f (w, False) = ((w1, m1), c1)" by (metis prod.exhaust)
    with Suc.prems confl obtain e1 where e1: "c1 = Returned (Some e1)" "IsConflict e1"
      and again: "retry_run (Suc k) IsConflict ?f (w1, m1) = ((w', m), Returned (Some e))"
      by (auto split: completion.splits option.splits if_splits)
    from grows [OF f [unfolded e1(1)] e1(2)] again Suc.IH [of w1] show ?case by auto
  }
qed

lemma rmw_call_progress:
  assumes opt: "optimistic client commits" and expl: "conflicts_explained client commits" and ret: "retries steps onError"
    and change: "\<And>n. guard n \<Longrightarrow> Name (change n) = Name n \<and>
       ResourceVersion (change n) = ResourceVersion n \<and> change n \<noteq> n"
    and rest: "\<And>n e. rest n \<noteq> Returned (Some e)"
    and verdict: "\<And>n e. verdict n = Some e \<Longrightarrow> \<not> IsConflict e \<and> \<not> context_done e"
    and live: "\<not> cut_off client name w'" and confl: "IsConflict e"
    and run: "onError IsConflict (rmw_try client name guard change verdict rest what) (w, False) = ((w', m), Returned (Some e))"
  shows "length (commits w name) + steps \<le> length (commits w' name)"
proof -
  let ?f = "rmw_try client name guard change verdict rest what"
  obtain k outcome where k: "steps = Suc k" and tries: "retry_run (Suc k) IsConflict ?f (w, False) = ((w', m), outcome)"
    and rep: "completion_reports IsConflict outcome (Returned (Some e))"
    using ret run unfolding retries_def by (metis gr0_implies_Suc)
  from rep have "outcome = Returned (Some e)"
  proof (cases rule: completion_reportsE)
    case (cut e' r)
    have "cut_off client name w' \<and> \<not> m"
      by (rule rmw_retry_cut [OF opt _ rest verdict cut(3) tries [unfolded cut(1)]]) (use change in blast)
    with live show ?thesis by blast
  qed simp
  with tries have "retry_run (Suc k) IsConflict ?f (w, False) = ((w', m), Returned (Some e))" by simp
  then have "length (commits w name) + k < length (commits w' name)"
    by (rule rmw_retry_progress [OF opt expl _ _ _ confl, rotated -1]) (use change rest verdict in blast)+
  with k show ?thesis by simp
qed

text \<open>
  Neither operation, unless it is cut off, gives up with a conflict before at least as many
  versions of the node were committed by others during the call as the retry has steps: when the
  other writers pause, the call completes.
\<close>
theorem label_operations_progress:
  assumes "optimistic client commits" and "conflicts_explained client commits" and "retries steps onError"
    and "UpdateNVSentinelStateNodeLabel onError client nodeName newValue removeLabel w = ((w', modified), c) \<or>
         RemoveNVSentinelStateNodeLabelIfMatch onError client nodeName expectedValues w = ((w', modified), c)"
    and "length (commits w' nodeName) < length (commits w nodeName) + steps" and "\<not> cut_off client nodeName w'"
  shows "\<nexists>e. c = Returned (Some e) \<and> IsConflict e"
proof
  assume "\<exists>e. c = Returned (Some e) \<and> IsConflict e"
  then obtain e where c: "c = Returned (Some e)" and confl: "IsConflict e" by blast
  note progress = rmw_call_progress [OF assms(1-3) _ _ _ assms(6) confl]
  consider
      "onError IsConflict (update_attempt client nodeName newValue True) (w, False) = ((w', modified), c)"
    | "onError IsConflict (update_attempt client nodeName newValue False) (w, False) = ((w', modified), c)"
    | "onError IsConflict (remove_attempt client nodeName expectedValues) (w, False) = ((w', modified), c)"
    using assms(4) unfolding UpdateNVSentinelStateNodeLabel_def RemoveNVSentinelStateNodeLabelIfMatch_def
    by (cases removeLabel) auto
  then have "length (commits w nodeName) + steps \<le> length (commits w' nodeName)"
  proof cases
    case 1
    then show ?thesis unfolding update_attempt_remove_rmw c
      by (rule progress [rotated -1]) (auto simp: delete_label_change)
  next
    case 2
    then show ?thesis unfolding update_attempt_set_rmw c
      by (rule progress [rotated -1]) (auto dest: transition_verdict_text simp: set_label_change split: if_splits)
  next
    case 3
    then show ?thesis unfolding remove_attempt_rmw c
      by (rule progress [rotated -1]) (auto simp: delete_label_change)
  qed
  with assms(5) show False by simp
qed

section \<open>A server that satisfies the contract\<close>

text \<open>
  A server with the single node \<^verbatim>\<open>a\<close>: the label maps committed so far, each with its author,
  and the writes that another writer will commit, one before each update it serves. The
  resource version of a version is its position.
\<close>

type_synonym labels = "(string, string) gomap option"
type_synonym server = "(bool \<times> labels) list \<times> labels list"

definition version_node :: "nat \<Rightarrow> labels \<Rightarrow> node" where
  "version_node i l = \<lparr>Name = ''a'', ResourceVersion = fmt_nat i, Labels = l\<rparr>"

definition server_commits :: "server \<Rightarrow> string \<Rightarrow> commit list" where
  "server_commits w name =
     (if name = ''a'' then map (\<lambda>i. (fst (fst w ! i), version_node i (snd (fst w ! i)))) [0..<length (fst w)]
      else [])"

definition server_write :: "bool \<Rightarrow> labels \<Rightarrow> server \<Rightarrow> server" where
  "server_write own l w = (fst w @ [(own, l)], snd w)"

definition server_interfere :: "server \<Rightarrow> server" where
  "server_interfere w = (case snd w of [] \<Rightarrow> w | l # ls \<Rightarrow> (fst w @ [(False, l)], ls))"

definition server_client :: "server NodeClient" where
  "server_client = \<lparr>
     GetNode = (\<lambda>w name. if name = ''a'' \<and> fst w \<noteq> []
       then (w, Inr (version_node (length (fst w) - 1) (snd (List.last (fst w)))))
       else (w, Inl (EStatus ''NotFound''))),
     UpdateNode = (\<lambda>w n. if Name n \<noteq> ''a'' \<or> fst w = [] then (w, Some (EStatus ''NotFound''))
       else let w1 = server_interfere w in
         if ResourceVersion n = fmt_nat (length (fst w1) - 1) then (server_write True (Labels n) w1, None)
         else (w1, Some (EStatus ''Conflict'')))\<rparr>"

lemma server_commits_write [simp]:
  "server_commits (server_write own l w) ''a'' =
     server_commits w ''a'' @ [(own, version_node (length (fst w)) l)]"
  by (auto simp: server_commits_def server_write_def nth_append)

lemma server_commits_length: "length (server_commits w ''a'') = length (fst w)"
  by (simp add: server_commits_def)

lemma server_commits_last:
  "fst w \<noteq> [] \<Longrightarrow> server_commits w ''a'' \<noteq> [] \<and>
     snd (List.last (server_commits w ''a'')) = version_node (length (fst w) - 1) (snd (List.last (fst w)))"
  by (simp add: server_commits_def last_map last_conv_nth)

lemma server_interfere_commits:
  "\<exists>others. server_commits (server_interfere w) ''a'' = server_commits w ''a'' @ others \<and> foreign others \<and>
     (others = [] \<longleftrightarrow> snd w = []) \<and> length (fst (server_interfere w)) = length (fst w) + length others"
proof (cases "snd w")
  case (Cons l ls)
  have "server_commits (server_interfere w) ''a'' = server_commits (server_write False l w) ''a''"
    using Cons by (simp add: server_interfere_def server_write_def server_commits_def)
  with Cons show ?thesis by (simp add: server_interfere_def)
qed (simp add: server_interfere_def)

lemma server_fresh: "fresh_versions server_commits"
  unfolding fresh_versions_def server_commits_def
  by (auto simp: comp_def version_node_def distinct_map inj_on_def dest: fmt_nat_inj)

lemma server_reads: "reads_latest server_client server_commits"
  unfolding reads_latest_def server_client_def
  by (auto simp: server_commits_last version_node_def)

lemma server_updates: "compares_versions server_client server_commits"
  unfolding compares_versions_def
proof (intro allI impI)
  fix w n w' r
  assume upd: "UpdateNode server_client w n = (w', r)"
  obtain others where o: "server_commits (server_interfere w) ''a'' = server_commits w ''a'' @ others"
    "foreign others" "length (fst (server_interfere w)) = length (fst w) + length others"
    using server_interfere_commits by blast
  let ?w1 = "server_interfere w"
  consider (none) "Name n \<noteq> ''a'' \<or> fst w = []"
    | (ok) "Name n = ''a''" "fst w \<noteq> []" "ResourceVersion n = fmt_nat (length (fst ?w1) - 1)"
    | (conflict) "Name n = ''a''" "fst w \<noteq> []" "ResourceVersion n \<noteq> fmt_nat (length (fst ?w1) - 1)"
    by blast
  then show "\<exists>before mine after. server_commits w' (Name n) = server_commits w (Name n) @ before @ mine @ after \<and>
       foreign before \<and> foreign after \<and>
       (mine = [] \<or> (\<exists>v. mine = [(True, n\<lparr>ResourceVersion := v\<rparr>)] \<and> server_commits w (Name n) @ before \<noteq> [] \<and>
          ResourceVersion (snd (List.last (server_commits w (Name n) @ before))) = ResourceVersion n)) \<and>
       (r = None \<longrightarrow> mine = [] \<longrightarrow> n \<in> snd ` set (server_commits w' (Name n))) \<and>
       (\<forall>e. r = Some e \<longrightarrow> IsConflict e \<longrightarrow> mine = [])"
  proof cases
    case none
    with upd show ?thesis by (intro exI [of _ "[]"]) (auto simp: server_client_def)
  next
    case ok
    with o(3) have ne: "fst ?w1 \<noteq> []" by auto
    from ok upd have w': "w' = server_write True (Labels n) ?w1" "r = None"
      by (auto simp: server_client_def Let_def)
    have "version_node (length (fst ?w1)) (Labels n) = n\<lparr>ResourceVersion := fmt_nat (length (fst ?w1))\<rparr>"
      using ok by (simp add: version_node_def)
    with w' o ok server_commits_last [OF ne] show ?thesis
      by (intro exI [of _ others] exI [of _ "[(True, n\<lparr>ResourceVersion := fmt_nat (length (fst ?w1))\<rparr>)]"]
          exI [of _ "[]"]) (auto simp: version_node_def)
  next
    case conflict
    with upd have "w' = ?w1" "r \<noteq> None" by (auto simp: server_client_def Let_def)
    with o conflict show ?thesis by (intro exI [of _ others] exI [of _ "[]"]) auto
  qed
qed

lemma server_optimistic: "optimistic server_client server_commits"
  by (simp add: optimistic_def server_fresh server_reads server_updates)

lemma server_conflicts: "conflicts_explained server_client server_commits"
  unfolding conflicts_explained_def
proof (intro conjI allI impI)
  fix w name w' e
  assume "GetNode server_client w name = (w', Inl e)"
  then show "\<not> IsConflict e" by (auto simp: server_client_def IsConflict_def split: if_splits)
next
  fix w n w' e
  assume upd: "UpdateNode server_client w n = (w', Some e)" and confl: "IsConflict e"
    and ne: "server_commits w (Name n) \<noteq> []"
    and rv: "ResourceVersion (snd (List.last (server_commits w (Name n)))) = ResourceVersion n"
  from ne have n: "Name n = ''a''" "fst w \<noteq> []" by (auto simp: server_commits_def split: if_splits)
  have "ResourceVersion n \<noteq> fmt_nat (length (fst (server_interfere w)) - 1)" and w': "w' = server_interfere w"
    using upd n by (auto simp: server_client_def Let_def split: if_splits)
  with rv n server_commits_last [of w] have "length (fst (server_interfere w)) \<noteq> length (fst w)"
    by (auto simp: version_node_def)
  with n w' show "server_commits w' (Name n) \<noteq> server_commits w (Name n)"
    by (metis server_commits_length)
qed

text \<open>The loop of \<^verbatim>\<open>retry.OnError\<close>, with the last retriable error it keeps, and five steps of it.\<close>

fun on_error_loop :: "nat \<Rightarrow> (error \<Rightarrow> bool) \<Rightarrow> ('s \<Rightarrow> 's \<times> completion) \<Rightarrow> error option \<Rightarrow> 's \<Rightarrow> 's \<times> completion" where
  "on_error_loop 0 retriable fn lastErr s = (s, Returned lastErr)"
| "on_error_loop (Suc k) retriable fn lastErr s =
     (case fn s of
        (s', Returned (Some e)) \<Rightarrow>
          if retriable e then on_error_loop k retriable fn (Some e) s'
          else (s', Returned (if context_done e then lastErr else Some e))
      | (s', c) \<Rightarrow> (s', c))"

lemma on_error_loop_retries:
  assumes "\<And>e. lastErr = Some e \<Longrightarrow> retriable e"
  shows "on_error_loop (Suc k) retriable fn lastErr s = (s', c) \<Longrightarrow>
    \<exists>outcome. retry_run (Suc k) retriable fn s = (s', outcome) \<and> completion_reports retriable outcome c"
  using assms
proof (induction k arbitrary: lastErr s)
  case 0
  obtain s1 c1 where fn: "fn s = (s1, c1)" by (cases "fn s")
  with 0 show ?case
    by (cases c1) (auto simp: completion_reports_def split: option.splits if_splits intro!: retry_reports_refl retry_reports_hidden)
next
  case (Suc k)
  obtain s1 c1 where fn: "fn s = (s1, c1)" by (cases "fn s")
  show ?case
  proof (cases "\<exists>e. c1 = Returned (Some e) \<and> retriable e")
    case True
    then obtain e where e: "c1 = Returned (Some e)" "retriable e" by blast
    with fn Suc.prems(1) have "on_error_loop (Suc k) retriable fn (Some e) s1 = (s', c)" by simp
    from Suc.IH [OF this] e fn show ?thesis by simp
  next
    case False
    with fn Suc.prems show ?thesis
      by (cases c1) (auto simp: completion_reports_def split: option.splits if_splits intro!: retry_reports_refl retry_reports_hidden)
  qed
qed

definition five_steps :: "'w on_error" where
  "five_steps retriable fn s = on_error_loop 5 retriable fn None s"

lemma five_steps_retries: "retries 5 five_steps"
  unfolding retries_def five_steps_def
proof (intro conjI allI impI)
  fix retriable :: "error \<Rightarrow> bool" and fn and s s' :: "'a \<times> bool" and c
  assume "on_error_loop 5 retriable fn None s = (s', c)"
  then show "\<exists>outcome. retry_run 5 retriable fn s = (s', outcome) \<and> completion_reports retriable outcome c"
    using on_error_loop_retries [where lastErr = None and k = 4] by simp
qed simp

definition racing :: server where
  "racing = ([(False, Some [(NVSentinelStateLabelKey, DrainingLabelValue)])],
     [Some [(NVSentinelStateLabelKey, DrainSucceededLabelValue)]])"

definition raced :: server where
  "raced = ([(False, Some [(NVSentinelStateLabelKey, DrainingLabelValue)]),
     (False, Some [(NVSentinelStateLabelKey, DrainSucceededLabelValue)])], [])"

lemma racing_removal:
  "RemoveNVSentinelStateNodeLabelIfMatch five_steps server_client ''a'' [DrainingLabelValue] racing =
     ((raced, False), Returned None)"
  by code_simp

definition jumped :: server where
  "jumped = (fst raced @ [(True, Some [(NVSentinelStateLabelKey, QuarantinedLabelValue)])], [])"

lemma racing_update:
  "UpdateNVSentinelStateNodeLabel five_steps server_client ''a'' QuarantinedLabelValue False racing =
     ((jumped, True), Returned (validateStateTransition DrainSucceededLabelValue True QuarantinedLabelValue))"
  by code_simp

lemma server_never_cut [simp]: "\<not> cut_off server_client name w"
  by (auto simp: cut_off_def server_client_def Let_def context_done_def split: if_splits)

theorem conditional_removal_atomic_witness:
  "rmw_result (\<lambda>n. label_of n \<in> Some ` set [DrainingLabelValue]) delete_label (\<lambda>_. None)
     (\<lambda>n c. c = Returned None \<and> label_of n \<notin> Some ` set [DrainingLabelValue])
     (server_commits racing ''a'') (server_commits raced ''a'') False (Returned None)"
  using conditional_removal_atomic [OF server_optimistic five_steps_retries racing_removal]
  by (auto simp: reported_def)

theorem label_update_atomic_witness:
  "rmw_result (\<lambda>n. Labels n \<noteq> None \<and> label_of n \<noteq> Some QuarantinedLabelValue)
     (set_label QuarantinedLabelValue) (transition_verdict QuarantinedLabelValue)
     (\<lambda>n c. c = Returned None \<and> label_of n = Some QuarantinedLabelValue \<or> c = Panicked \<and> Labels n = None)
     (server_commits racing ''a'') (server_commits jumped ''a'') True
     (Returned (validateStateTransition DrainSucceededLabelValue True QuarantinedLabelValue))"
  using label_update_atomic [OF server_optimistic five_steps_retries racing_update]
  by (auto simp: reported_def)

theorem label_operations_progress_witness:
  "\<nexists>e. Returned (validateStateTransition DrainSucceededLabelValue True QuarantinedLabelValue) =
     Returned (Some e) \<and> IsConflict e"
proof (rule label_operations_progress [OF server_optimistic server_conflicts five_steps_retries])
  show "UpdateNVSentinelStateNodeLabel five_steps server_client ''a'' QuarantinedLabelValue False racing =
      ((jumped, True), Returned (validateStateTransition DrainSucceededLabelValue True QuarantinedLabelValue)) \<or>
    RemoveNVSentinelStateNodeLabelIfMatch five_steps server_client ''a'' [] racing =
      ((jumped, True), Returned (validateStateTransition DrainSucceededLabelValue True QuarantinedLabelValue))"
    using racing_update by blast
  show "length (server_commits jumped ''a'') < length (server_commits racing ''a'') + 5"
    by (simp add: server_commits_length jumped_def raced_def racing_def)
qed simp

text \<open>A node without any label makes the update panic, whatever the value.\<close>

lemma update_panics_without_labels:
  "UpdateNVSentinelStateNodeLabel five_steps server_client ''a'' v False ([(False, None)], []) =
     ((([(False, None)], []), False), Panicked)"
  by (simp add: UpdateNVSentinelStateNodeLabel_def five_steps_def numeral_eq_Suc update_attempt_def
      server_client_def version_node_def label_of_def assign_label_def)

text \<open>
  A client whose context ends during the update: the call reports neither a modification nor an
  error although the node keeps its old label.
\<close>

definition dying_client :: "server NodeClient" where
  "dying_client = server_client\<lparr>UpdateNode := (\<lambda>w n. (w, Some EDeadlineExceeded))\<rparr>"

lemma cut_off_update_looks_idle:
  "UpdateNVSentinelStateNodeLabel five_steps dying_client ''a'' DrainSucceededLabelValue False
     ([(False, Some [(NVSentinelStateLabelKey, DrainingLabelValue)])], []) =
   ((([(False, Some [(NVSentinelStateLabelKey, DrainingLabelValue)])], []), False), Returned None)"
  by code_simp

end
