(* ===== verification/Pod_Informers.thy ===== *)
theory Pod_Informers
  imports Health_Event Go_Error
begin

text \<open>
  The pod view of node-drainer (\<^verbatim>\<open>node-drainer/pkg/informers/informers.go\<close>): what the caches
  keep of pods and nodes, which pods of a node a drain covers, and the requests that evict or
  delete them.

  A pod is a record with the fields the package reads and a field for everything else. The
  state outside (the caches, the API server, the clock) is a value of type \<^verbatim>\<open>'w\<close>. Reading
  the pod cache returns the objects it holds and the state afterwards, so the cache may
  change arbitrarily between two reads. The goroutines that send one request per pod are run
  in the order of the list. Times and durations are nanoseconds, and the clock is read once per
  selection; logs and metrics are left out.
\<close>

section \<open>Pods\<close>

record owner_reference =
  or_Kind :: string
  or_Name :: string
  or_Controller :: "bool option"

text \<open>A resource quantity; only its sign is read.\<close>

record container =
  c_Name :: string
  c_Limits :: "(string, int) gomap"

record pod_condition =
  pc_Type :: string
  pc_Status :: string
  pc_LastTransitionTime :: int
  pc_Message :: string

record pod_resource_claim =
  rc_Name :: string
  rc_ClaimName :: "string option"

record pod =
  p_TypeMeta :: string
  p_Name :: string
  p_Namespace :: string
  p_UID :: string
  p_ResourceVersion :: string
  p_Labels :: "(string, string) gomap"
  p_Annotations :: "(string, string) gomap"
  p_OwnerReferences :: "owner_reference list"
  p_DeletionTimestamp :: "int option"
  p_NodeName :: string
  p_TerminationGracePeriodSeconds :: "int option"
  p_Containers :: "container list"
  p_InitContainers :: "container list"
  p_ResourceClaims :: "pod_resource_claim list"
  p_Phase :: string
  p_Conditions :: "pod_condition list"
  p_ResourceClaimStatuses :: "pod_resource_claim list"
  p_Other :: string

type_synonym PodFilter = "pod \<Rightarrow> bool"

definition PodDeviceAnnotationName :: string where
  "PodDeviceAnnotationName = ''dgxc.nvidia.com/devices''"

definition GPUDRADriverName :: string where
  "GPUDRADriverName = ''gpu.nvidia.com''"

definition EntityTypeToResourceNames :: "(string, string list) gomap" where
  "EntityTypeToResourceNames =
     [(''GPU_UUID'', [''nvidia.com/gpu'', ''nvidia.com/pgpu'', GPUDRADriverName])]"

definition sec :: int where "sec = 1000000000"
definition minute :: int where "minute = 60 * sec"

text \<open>
  A \<^verbatim>\<open>time.Duration\<close> is a signed 64-bit number of nanoseconds: products and differences wrap around, and the
  difference of two times stops at the limits.
\<close>

definition duration :: "int \<Rightarrow> int" where
  "duration n = (n + 2 ^ 63) mod 2 ^ 64 - 2 ^ 63"

definition time_since :: "int \<Rightarrow> int \<Rightarrow> int" where
  "time_since now t = max (- (2 ^ 63)) (min (2 ^ 63 - 1) (now - t))"

lemma duration_id: "- (2 ^ 63) \<le> n \<Longrightarrow> n < 2 ^ 63 \<Longrightarrow> duration n = n"
  by (simp add: duration_def)

section \<open>What the caches keep\<close>

definition isDaemonSetOwned :: "owner_reference list \<Rightarrow> bool" where
  "isDaemonSetOwned ownerReferences = list_ex (\<lambda>owner. or_Kind owner = ''DaemonSet'') ownerReferences"

definition zero_pod :: pod where
  "zero_pod = \<lparr>p_TypeMeta = [], p_Name = [], p_Namespace = [], p_UID = [], p_ResourceVersion = [],
     p_Labels = [], p_Annotations = [], p_OwnerReferences = [], p_DeletionTimestamp = None,
     p_NodeName = [], p_TerminationGracePeriodSeconds = None, p_Containers = [], p_InitContainers = [],
     p_ResourceClaims = [], p_Phase = [], p_Conditions = [], p_ResourceClaimStatuses = [], p_Other = []\<rparr>"

text \<open>The entries of a map under the listed keys, the loop over \<^verbatim>\<open>podLabelKeys\<close> and \<^verbatim>\<open>nodeLabelKeys\<close>.\<close>

definition retain_keys :: "string list \<Rightarrow> (string, string) gomap \<Rightarrow> (string, string) gomap" where
  "retain_keys keys m =
     fold (\<lambda>key kept. case map_of m key of None \<Rightarrow> kept | Some v \<Rightarrow> AList.update key v kept) keys []"

definition trimContainers :: "container list \<Rightarrow> container list" where
  "trimContainers containers = map (\<lambda>c. \<lparr>c_Name = [], c_Limits = c_Limits c\<rparr>) containers"

definition trimPodReadyConditions :: "pod_condition list \<Rightarrow> pod_condition list" where
  "trimPodReadyConditions conditions =
     map (\<lambda>c. \<lparr>pc_Type = pc_Type c, pc_Status = pc_Status c,
            pc_LastTransitionTime = pc_LastTransitionTime c, pc_Message = []\<rparr>)
       (filter (\<lambda>c. pc_Type c = ''Ready'') conditions)"

definition drainEligiblePodCacheObject :: "string list \<Rightarrow> pod \<Rightarrow> pod" where
  "drainEligiblePodCacheObject podLabelKeys pod =
     \<lparr>p_TypeMeta = p_TypeMeta pod, p_Name = p_Name pod, p_Namespace = p_Namespace pod,
      p_UID = p_UID pod, p_ResourceVersion = p_ResourceVersion pod,
      p_Labels = retain_keys podLabelKeys (p_Labels pod),
      p_Annotations = (case map_of (p_Annotations pod) PodDeviceAnnotationName of
         None \<Rightarrow> [] | Some devices \<Rightarrow> [(PodDeviceAnnotationName, devices)]),
      p_OwnerReferences = map (\<lambda>owner. \<lparr>or_Kind = or_Kind owner, or_Name = [],
         or_Controller = or_Controller owner\<rparr>) (p_OwnerReferences pod),
      p_DeletionTimestamp = p_DeletionTimestamp pod,
      p_NodeName = p_NodeName pod,
      p_TerminationGracePeriodSeconds = p_TerminationGracePeriodSeconds pod,
      p_Containers = trimContainers (p_Containers pod),
      p_InitContainers = trimContainers (p_InitContainers pod),
      p_ResourceClaims = p_ResourceClaims pod,
      p_Phase = p_Phase pod,
      p_Conditions = trimPodReadyConditions (p_Conditions pod),
      p_ResourceClaimStatuses = p_ResourceClaimStatuses pod, p_Other = []\<rparr>"

text \<open>The regular expression of the system namespaces is a predicate; None is a nil expression.\<close>

definition excludedPodTransform :: "(string \<Rightarrow> bool) option \<Rightarrow> string list \<Rightarrow> pod \<Rightarrow> pod" where
  "excludedPodTransform systemNamespacesRegex podLabelKeys pod =
     (let isSystemNamespace = (case systemNamespacesRegex of None \<Rightarrow> False | Some matches \<Rightarrow> matches (p_Namespace pod)) in
      if \<not> isSystemNamespace \<and> \<not> isDaemonSetOwned (p_OwnerReferences pod)
      then drainEligiblePodCacheObject podLabelKeys pod
      else zero_pod\<lparr>p_Name := p_Name pod, p_Namespace := p_Namespace pod, p_UID := p_UID pod,
             p_ResourceVersion := p_ResourceVersion pod\<rparr>)"

definition QuarantineHealthEventAnnotationKey :: string where
  "QuarantineHealthEventAnnotationKey = ''quarantineHealthEvent''"

record cached_node =
  n_Name :: string
  n_UID :: string
  n_ResourceVersion :: string
  n_Labels :: "(string, string) gomap"
  n_Annotations :: "(string, string) gomap"
  n_Other :: string

definition nodeTransform :: "string list \<Rightarrow> cached_node \<Rightarrow> cached_node" where
  "nodeTransform nodeLabelKeys node =
     \<lparr>n_Name = n_Name node, n_UID = n_UID node, n_ResourceVersion = n_ResourceVersion node,
      n_Labels = retain_keys nodeLabelKeys (n_Labels node),
      n_Annotations = (case map_of (n_Annotations node) QuarantineHealthEventAnnotationKey of
         None \<Rightarrow> [] | Some ev \<Rightarrow> [(QuarantineHealthEventAnnotationKey, ev)]),
      n_Other = []\<rparr>"

section \<open>Indexes\<close>

definition NodeIndexFunc :: "pod \<Rightarrow> string list" where
  "NodeIndexFunc pod = (if p_NodeName pod = [] then [] else [p_NodeName pod])"

definition NamespaceNodeIndexFunc :: "pod \<Rightarrow> string list" where
  "NamespaceNodeIndexFunc pod =
     (if p_NodeName pod = [] then [] else [p_Namespace pod @ ''/'' @ p_NodeName pod])"

text \<open>What \<^verbatim>\<open>ByIndex\<close> of a cache indexer returns: the objects whose index values contain the key.\<close>

definition by_index :: "(pod \<Rightarrow> string list) \<Rightarrow> string \<Rightarrow> pod list \<Rightarrow> pod list" where
  "by_index f key objs = filter (\<lambda>pod. key \<in> set (f pod)) objs"

section \<open>The state outside\<close>

record device_request =
  Exactly :: "string option"
  FirstAvailable :: "string list"

record preconditions =
  pre_UID :: "string option"
  pre_ResourceVersion :: "string option"

record delete_options =
  GracePeriodSeconds :: int
  DryRun :: "string list"
  Preconditions :: preconditions

record 'w cluster =
  read_pods :: "'w \<Rightarrow> 'w \<times> (error + pod list)"
  read_node :: "'w \<Rightarrow> string \<Rightarrow> error + cached_node option"
  time_now :: "'w \<Rightarrow> int"
  get_claim :: "'w \<Rightarrow> string \<Rightarrow> string \<Rightarrow> error + device_request list"
  decode_devices :: "string \<Rightarrow> error + (string, string list) gomap"
  evict_request :: "'w \<Rightarrow> string \<Rightarrow> string \<Rightarrow> delete_options \<Rightarrow> 'w \<times> error option"
  delete_request :: "'w \<Rightarrow> string \<Rightarrow> string \<Rightarrow> delete_options \<Rightarrow> 'w \<times> error option"
  record_event :: "'w \<Rightarrow> string \<Rightarrow> string \<Rightarrow> string \<Rightarrow> 'w"

record 'w Informers =
  cluster :: "'w cluster"
  notReadyTimeoutMinutes :: "int option"
  drainGPUPods :: bool
  dryRunMode :: "string list"

section \<open>Which pods a drain covers\<close>

definition isPodStuckInTerminating :: "int \<Rightarrow> pod \<Rightarrow> bool" where
  "isPodStuckInTerminating now pod =
     (case p_DeletionTimestamp pod of
        None \<Rightarrow> False
      | Some deletionTimestamp \<Rightarrow>
          (let gracePeriod = (case p_TerminationGracePeriodSeconds pod of None \<Rightarrow> 30 | Some g \<Rightarrow> g);
               timeoutThreshold = deletionTimestamp + duration (gracePeriod * sec)
           in now > timeoutThreshold))"

definition isPodNotReady :: "int option \<Rightarrow> int \<Rightarrow> pod \<Rightarrow> bool" where
  "isPodNotReady timeoutMinutes now pod =
     (let notReadyTimeout = (case timeoutMinutes of None \<Rightarrow> 5 * minute | Some m \<Rightarrow> duration (m * minute)) in
      list_ex (\<lambda>condition. pc_Type condition = ''Ready'' \<and> pc_Status condition = ''False'' \<and>
        pc_LastTransitionTime condition + notReadyTimeout < now) (p_Conditions pod))"

definition filterEvictablePods :: "'w Informers \<Rightarrow> int \<Rightarrow> entity option \<Rightarrow> pod list \<Rightarrow> pod list" where
  "filterEvictablePods i now partialDrainEntity pods =
     filter (\<lambda>pod. \<not> isDaemonSetOwned (p_OwnerReferences pod) \<and>
        \<not> (p_Phase pod = ''Succeeded'' \<or> p_Phase pod = ''Failed'') \<and>
        \<not> (partialDrainEntity = None \<and>
           (isPodStuckInTerminating now pod \<or> isPodNotReady (notReadyTimeoutMinutes i) now pod))) pods"

definition areContainersRequestingDevice :: "container list \<Rightarrow> string list \<Rightarrow> bool" where
  "areContainersRequestingDevice containers resourceNames =
     list_ex (\<lambda>resourceName. list_ex (\<lambda>c.
       case map_of (c_Limits c) resourceName of None \<Rightarrow> False | Some qty \<Rightarrow> qty > 0) containers) resourceNames"

definition isClaimRequestingDeviceClass :: "device_request list \<Rightarrow> string list \<Rightarrow> bool" where
  "isClaimRequestingDeviceClass requests deviceClassNames =
     list_ex (\<lambda>request.
       (case Exactly request of None \<Rightarrow> False | Some c \<Rightarrow> c \<in> set deviceClassNames) \<or>
       list_ex (\<lambda>c. c \<in> set deviceClassNames) (FirstAvailable request)) requests"

text \<open>
  The name of the claim a pod claim uses: Inl is an error, Inr None that no claim is needed.
  The first status of that name decides.
\<close>

definition bound_claim_name :: "pod \<Rightarrow> pod_resource_claim \<Rightarrow> error + string option" where
  "bound_claim_name pod podClaim =
     (case rc_ClaimName podClaim of
        Some n \<Rightarrow> Inr (Some n)
      | None \<Rightarrow>
          (case List.find (\<lambda>s. rc_Name s = rc_Name podClaim) (p_ResourceClaimStatuses pod) of
             None \<Rightarrow> Inl (EText (''no ResourceClaim is bound to claim '' @ rc_Name podClaim))
           | Some s \<Rightarrow> Inr (rc_ClaimName s)))"

definition getPodResourceClaimSpec ::
  "'w Informers \<Rightarrow> 'w \<Rightarrow> pod \<Rightarrow> pod_resource_claim \<Rightarrow> error + device_request list option" where
  "getPodResourceClaimSpec i w pod podClaim =
     (case bound_claim_name pod podClaim of
        Inl e \<Rightarrow> Inl e
      | Inr None \<Rightarrow> Inr None
      | Inr (Some claimName) \<Rightarrow>
          (case get_claim (cluster i) w (p_Namespace pod) claimName of
             Inl e \<Rightarrow> Inl (EWrap (''failed to get ResourceClaim '' @ claimName) e)
           | Inr spec \<Rightarrow> Inr (Some spec)))"

fun claiming_loop ::
  "'w Informers \<Rightarrow> 'w \<Rightarrow> pod \<Rightarrow> string list \<Rightarrow> pod_resource_claim list \<Rightarrow> error + bool" where
  "claiming_loop i w pod deviceClassNames [] = Inr False"
| "claiming_loop i w pod deviceClassNames (podClaim # rest) =
     (case getPodResourceClaimSpec i w pod podClaim of
        Inl e \<Rightarrow> Inl (EWrap (''failed to resolve claim '' @ rc_Name podClaim) e)
      | Inr (Some spec) \<Rightarrow>
          if isClaimRequestingDeviceClass spec deviceClassNames then Inr True
          else claiming_loop i w pod deviceClassNames rest
      | Inr None \<Rightarrow> claiming_loop i w pod deviceClassNames rest)"

definition isPodClaimingDeviceClass :: "'w Informers \<Rightarrow> 'w \<Rightarrow> pod \<Rightarrow> string list \<Rightarrow> error + bool" where
  "isPodClaimingDeviceClass i w pod deviceClassNames =
     claiming_loop i w pod deviceClassNames (p_ResourceClaims pod)"

definition isPodRequestingDevices :: "'w Informers \<Rightarrow> 'w \<Rightarrow> pod \<Rightarrow> string list \<Rightarrow> error + bool" where
  "isPodRequestingDevices i w pod resourceNames =
     (if areContainersRequestingDevice (p_Containers pod) resourceNames \<or>
         areContainersRequestingDevice (p_InitContainers pod) resourceNames then Inr True
      else isPodClaimingDeviceClass i w pod resourceNames)"

definition GPU_resource_names :: "string list" where
  "GPU_resource_names = (case map_of EntityTypeToResourceNames ''GPU_UUID'' of None \<Rightarrow> [] | Some ns \<Rightarrow> ns)"

fun filterPodsWithGPURequests :: "'w Informers \<Rightarrow> 'w \<Rightarrow> pod list \<Rightarrow> error + pod list" where
  "filterPodsWithGPURequests i w [] = Inr []"
| "filterPodsWithGPURequests i w (pod # rest) =
     (case (if map_of (p_Annotations pod) PodDeviceAnnotationName \<noteq> None then Inr True
            else isPodRequestingDevices i w pod GPU_resource_names) of
        Inl e \<Rightarrow> Inl (EWrap (''failed to check GPU requests for pod '' @ p_Name pod) e)
      | Inr isPodRequestingGPU \<Rightarrow>
          (case filterPodsWithGPURequests i w rest of
             Inl e \<Rightarrow> Inl e
           | Inr kept \<Rightarrow> Inr (if isPodRequestingGPU then pod # kept else kept)))"

definition isPodUsingPartialDrainEntity :: "(string, string list) gomap \<Rightarrow> string list \<Rightarrow> entity \<Rightarrow> bool" where
  "isPodUsingPartialDrainEntity devices resourceNames partialDrainEntity =
     list_ex (\<lambda>resourceName. case map_of devices resourceName of
        None \<Rightarrow> False | Some ds \<Rightarrow> EntityValue partialDrainEntity \<in> set ds) resourceNames"

text \<open>The body of the loop over the pods: whether the pod uses the entity.\<close>

definition pod_uses_entity :: "'w Informers \<Rightarrow> 'w \<Rightarrow> string list \<Rightarrow> entity \<Rightarrow> pod \<Rightarrow> error + bool" where
  "pod_uses_entity i w resourceNames partialDrainEntity pod =
     (case map_of (p_Annotations pod) PodDeviceAnnotationName of
        None \<Rightarrow>
          (case isPodRequestingDevices i w pod resourceNames of
             Inl e \<Rightarrow> Inl (EWrap (''failed to check device requests for pod '' @ p_Name pod) e)
           | Inr True \<Rightarrow> Inl (EText (''pod '' @ p_Name pod @
                '' is requesting devices but is missing device annotation''))
           | Inr False \<Rightarrow> Inr False)
      | Some deviceAnnotationJSON \<Rightarrow>
          (case decode_devices (cluster i) deviceAnnotationJSON of
             Inl e \<Rightarrow> Inl (EWrap (''error unmarshalling device annotation for pod '' @ p_Name pod) e)
           | Inr devices \<Rightarrow> Inr (isPodUsingPartialDrainEntity devices resourceNames partialDrainEntity)))"

fun filter_entity_loop :: "(pod \<Rightarrow> error + bool) \<Rightarrow> pod list \<Rightarrow> error + pod list" where
  "filter_entity_loop uses [] = Inr []"
| "filter_entity_loop uses (pod # rest) =
     (case uses pod of
        Inl e \<Rightarrow> Inl e
      | Inr used \<Rightarrow>
          (case filter_entity_loop uses rest of
             Inl e \<Rightarrow> Inl e
           | Inr kept \<Rightarrow> Inr (if used then pod # kept else kept)))"

definition filterPodsUsingEntity ::
  "'w Informers \<Rightarrow> 'w \<Rightarrow> entity option \<Rightarrow> pod list \<Rightarrow> error + pod list" where
  "filterPodsUsingEntity i w partialDrainEntity pods =
     (case partialDrainEntity of
        None \<Rightarrow> Inr pods
      | Some en \<Rightarrow>
          (case map_of EntityTypeToResourceNames (EntityType en) of
             None \<Rightarrow> Inl (EText (''unsupported impacted entity for partial drains: '' @ EntityType en))
           | Some resourceNames \<Rightarrow> filter_entity_loop (pod_uses_entity i w resourceNames en) pods))"

definition matchesPodFilters :: "pod \<Rightarrow> PodFilter option list \<Rightarrow> bool" where
  "matchesPodFilters pod filters =
     list_all (\<lambda>f. case f of None \<Rightarrow> True | Some accepts \<Rightarrow> accepts pod) filters"

text \<open>The selection made of the objects one read of the cache returned.\<close>

definition evictable_pods ::
  "'w Informers \<Rightarrow> 'w \<Rightarrow> string \<Rightarrow> string \<Rightarrow> entity option \<Rightarrow> PodFilter option list \<Rightarrow> pod list
     \<Rightarrow> error + pod list" where
  "evictable_pods i w namespace nodeName partialDrainEntity podFilters cached =
     (let objs = by_index NamespaceNodeIndexFunc (namespace @ ''/'' @ nodeName) cached;
          pods = filter (\<lambda>pod. matchesPodFilters pod podFilters) objs;
          pods1 = filterEvictablePods i (time_now (cluster i) w) partialDrainEntity pods in
      case (if drainGPUPods i \<and> partialDrainEntity = None then filterPodsWithGPURequests i w pods1
            else Inr pods1) of
        Inl e \<Rightarrow> Inl (EWrap ''failed to filter pods with GPU requests'' e)
      | Inr pods2 \<Rightarrow>
          (case filterPodsUsingEntity i w partialDrainEntity pods2 of
             Inl e \<Rightarrow> Inl (EWrap ''failed to filter pods using entity'' e)
           | Inr pods3 \<Rightarrow> Inr pods3))"

definition FindEvictablePodsInNamespaceAndNode ::
  "'w Informers \<Rightarrow> 'w \<Rightarrow> string \<Rightarrow> string \<Rightarrow> entity option \<Rightarrow> PodFilter option list
     \<Rightarrow> 'w \<times> (error + pod list)" where
  "FindEvictablePodsInNamespaceAndNode i w namespace nodeName partialDrainEntity podFilters =
     (case read_pods (cluster i) w of
        (w1, Inl e) \<Rightarrow> (w1, Inl (EWrap ''failed to get pods by index'' e))
      | (w1, Inr cached) \<Rightarrow>
          (w1, evictable_pods i w1 namespace nodeName partialDrainEntity podFilters cached))"

section \<open>Requests\<close>

definition podDeletionPreconditions :: "pod \<Rightarrow> preconditions" where
  "podDeletionPreconditions pod =
     \<lparr>pre_UID = (if p_UID pod \<noteq> [] then Some (p_UID pod) else None),
      pre_ResourceVersion = (if p_ResourceVersion pod \<noteq> [] then Some (p_ResourceVersion pod) else None)\<rparr>"

text \<open>\<^verbatim>\<open>int64(timeout.Seconds())\<close> truncates towards zero.\<close>

definition sendEvictionRequestForPod :: "'w Informers \<Rightarrow> 'w \<Rightarrow> string \<Rightarrow> int \<Rightarrow> pod \<Rightarrow> 'w \<times> error option" where
  "sendEvictionRequestForPod i w namespace timeout pod =
     (let (w', err) = evict_request (cluster i) w (p_Namespace pod) (p_Name pod)
        \<lparr>GracePeriodSeconds = (if timeout < 0 then - (- timeout div sec) else timeout div sec),
         DryRun = dryRunMode i, Preconditions = podDeletionPreconditions pod\<rparr>
      in case err of
           None \<Rightarrow> (w', None)
         | Some e \<Rightarrow> if IsNotFound e then (w', None)
             else (w', Some (EWrap (''error evicting pod '' @ p_Name pod) e)))"

text \<open>One request per pod; errors other than a missing pod are collected.\<close>

fun for_each_pod :: "('w \<Rightarrow> pod \<Rightarrow> 'w \<times> error option) \<Rightarrow> pod list \<Rightarrow> 'w \<Rightarrow> error list \<Rightarrow> 'w \<times> error list" where
  "for_each_pod request [] w result = (w, result)"
| "for_each_pod request (pod # rest) w result =
     (let (w', err) = request w pod in
      for_each_pod request rest w'
        (case err of None \<Rightarrow> result
         | Some e \<Rightarrow> if IsNotFound e then result
             else result @ [EWrap (''pod '' @ p_Namespace pod @ ''/'' @ p_Name pod) e]))"

definition ErrorOrNil :: "error list \<Rightarrow> error option" where
  "ErrorOrNil errs = (if errs = [] then None else Some (EMulti errs))"

definition evictPodsInNamespaceAndNode ::
  "'w Informers \<Rightarrow> 'w \<Rightarrow> string \<Rightarrow> int \<Rightarrow> pod list \<Rightarrow> 'w \<times> error option" where
  "evictPodsInNamespaceAndNode i w namespace timeout pods =
     (let (w', errs) = for_each_pod (\<lambda>w. sendEvictionRequestForPod i w namespace timeout) pods w []
      in (w', ErrorOrNil errs))"

definition EvictAllPodsInImmediateMode ::
  "'w Informers \<Rightarrow> 'w \<Rightarrow> string \<Rightarrow> string \<Rightarrow> int \<Rightarrow> entity option \<Rightarrow> PodFilter option list \<Rightarrow> 'w \<times> error option" where
  "EvictAllPodsInImmediateMode i w namespace nodeName timeout partialDrainEntity podFilters =
     (case FindEvictablePodsInNamespaceAndNode i w namespace nodeName partialDrainEntity podFilters of
        (w1, Inl e) \<Rightarrow> (w1, Some (EWrap (''failed to find evictable pods in namespace '' @ namespace) e))
      | (w1, Inr pods) \<Rightarrow>
          if pods = [] then (w1, None)
          else (case evictPodsInNamespaceAndNode i w1 namespace timeout pods of
                  (w2, None) \<Rightarrow> (w2, None)
                | (w2, Some e) \<Rightarrow> (w2, Some (EWrap (''failed to evict pods in namespace '' @ namespace) e))))"

definition force_delete_request :: "'w Informers \<Rightarrow> 'w \<Rightarrow> pod \<Rightarrow> 'w \<times> error option" where
  "force_delete_request i w p =
     delete_request (cluster i) w (p_Namespace p) (p_Name p)
       \<lparr>GracePeriodSeconds = 0, DryRun = dryRunMode i, Preconditions = podDeletionPreconditions p\<rparr>"

definition forceDeletePods :: "'w Informers \<Rightarrow> 'w \<Rightarrow> pod list \<Rightarrow> 'w \<times> error option" where
  "forceDeletePods i w pods =
     (let (w', errs) = for_each_pod (force_delete_request i) pods w [] in (w', ErrorOrNil errs))"

section \<open>Nodes and namespaces\<close>

definition GetNode :: "'w Informers \<Rightarrow> 'w \<Rightarrow> string \<Rightarrow> error + cached_node" where
  "GetNode i w nodeName =
     (case read_node (cluster i) w nodeName of
        Inl e \<Rightarrow> Inl (EWrap (''error getting node '' @ nodeName @ '' from cache'') e)
      | Inr None \<Rightarrow> Inl (EText (''node '' @ nodeName @ '' not found in cache''))
      | Inr (Some node) \<Rightarrow> Inr node)"

definition UpdateNodeEvent :: "'w Informers \<Rightarrow> 'w \<Rightarrow> string \<Rightarrow> string \<Rightarrow> string \<Rightarrow> 'w \<times> error option" where
  "UpdateNodeEvent i w nodeName reason message =
     (case GetNode i w nodeName of
        Inl e \<Rightarrow> (w, Some (EWrap (''error getting node from cache '' @ nodeName) e))
      | Inr node \<Rightarrow> (record_event (cluster i) w (n_Name node) reason message, None))"

text \<open>
  The two pattern languages of the standard library, regular expressions and shell globs, are
  arguments: a compiler of expressions and a matcher of globs (Inl is a malformed pattern).
\<close>

record patterns =
  regexp_compile :: "string \<Rightarrow> error + (string \<Rightarrow> bool)"
  filepath_match :: "string \<Rightarrow> string \<Rightarrow> error + bool"

definition compileExcludePattern :: "patterns \<Rightarrow> string \<Rightarrow> error + (string \<Rightarrow> bool) option" where
  "compileExcludePattern pt excludePattern =
     (if excludePattern = [] then Inr None
      else case regexp_compile pt excludePattern of
          Inl e \<Rightarrow> Inl (EWrap (''invalid exclude regex '' @ excludePattern) e)
        | Inr matches \<Rightarrow> Inr (Some matches))"

definition shouldIncludeNamespace ::
  "patterns \<Rightarrow> string \<Rightarrow> string \<Rightarrow> (string \<Rightarrow> bool) option \<Rightarrow> error + bool" where
  "shouldIncludeNamespace pt namespace includePattern excludeRegex =
     (if (case excludeRegex of None \<Rightarrow> False | Some matches \<Rightarrow> matches namespace) then Inr False
      else case filepath_match pt includePattern namespace of
          Inl e \<Rightarrow> Inl (EWrap ''failed to match include pattern'' e)
        | Inr b \<Rightarrow> Inr b)"

fun extractNamespacesFromPods ::
  "patterns \<Rightarrow> pod list \<Rightarrow> string \<Rightarrow> (string \<Rightarrow> bool) option \<Rightarrow> string list \<Rightarrow> error + string list" where
  "extractNamespacesFromPods pt [] includePattern excludeRegex namespaceSet = Inr namespaceSet"
| "extractNamespacesFromPods pt (pod # objs) includePattern excludeRegex namespaceSet =
     (case shouldIncludeNamespace pt (p_Namespace pod) includePattern excludeRegex of
        Inl e \<Rightarrow> Inl (EWrap (''failed to check if namespace '' @ p_Namespace pod @ '' should be included'') e)
      | Inr include \<Rightarrow>
          extractNamespacesFromPods pt objs includePattern excludeRegex
            (if include then List.insert (p_Namespace pod) namespaceSet else namespaceSet))"

text \<open>The slice of a set lists its elements in the order of one iteration.\<close>

definition GetNamespacesMatchingPattern ::
  "patterns \<Rightarrow> 'w Informers \<Rightarrow> 'w \<Rightarrow> string \<Rightarrow> string \<Rightarrow> string \<Rightarrow> 'w \<times> (error + string list)" where
  "GetNamespacesMatchingPattern pt i w includePattern excludePattern nodeName =
     (case read_pods (cluster i) w of
        (w1, Inl e) \<Rightarrow> (w1, Inl (EWrap (''failed to get pods on node '' @ nodeName) e))
      | (w1, Inr cached) \<Rightarrow>
          (w1, case compileExcludePattern pt excludePattern of
             Inl e \<Rightarrow> Inl (EWrap ''failed to compile exclude pattern'' e)
           | Inr excludeRegex \<Rightarrow>
               (case extractNamespacesFromPods pt (by_index NodeIndexFunc nodeName cached) includePattern excludeRegex [] of
                  Inl e \<Rightarrow> Inl (EWrap ''failed to extract namespaces from pods'' e)
                | Inr namespaces \<Rightarrow> Inr namespaces)))"

section \<open>Checking the drain scope\<close>

fun checkIfPodsPresentInNamespaceAndNode ::
  "'w Informers \<Rightarrow> 'w \<Rightarrow> string list \<Rightarrow> string \<Rightarrow> entity option \<Rightarrow> PodFilter option list \<Rightarrow> 'w \<times> bool \<times> pod list" where
  "checkIfPodsPresentInNamespaceAndNode i w [] nodeName partialDrainEntity podFilters = (w, True, [])"
| "checkIfPodsPresentInNamespaceAndNode i w (namespace # rest) nodeName partialDrainEntity podFilters =
     (let (w1, found) = FindEvictablePodsInNamespaceAndNode i w namespace nodeName partialDrainEntity podFilters;
          (w2, allEvicted, remainingPods) =
            checkIfPodsPresentInNamespaceAndNode i w1 rest nodeName partialDrainEntity podFilters
      in case found of
           Inl e \<Rightarrow> (w2, False, remainingPods)
         | Inr pods \<Rightarrow> (w2, pods = [] \<and> allEvicted, pods @ remainingPods))"

definition past_deadline :: "int \<Rightarrow> int \<Rightarrow> pod \<Rightarrow> bool" where
  "past_deadline now timeout pod =
     (case p_DeletionTimestamp pod of
        None \<Rightarrow> False
      | Some deletionTimestamp \<Rightarrow>
          (let gracePeriod = (case p_TerminationGracePeriodSeconds pod of None \<Rightarrow> 30 * sec | Some g \<Rightarrow> duration (g * sec));
               deletionDeadline = deletionTimestamp + gracePeriod + timeout
           in now > deletionDeadline))"

definition CheckIfObservedPodsAreEvictedInImmediateMode ::
  "'w Informers \<Rightarrow> 'w \<Rightarrow> string list \<Rightarrow> string \<Rightarrow> int \<Rightarrow> entity option \<Rightarrow> pod list \<Rightarrow> PodFilter option list
     \<Rightarrow> 'w \<times> bool" where
  "CheckIfObservedPodsAreEvictedInImmediateMode i w namespaces nodeName timeout partialDrainEntity remainingPods podFilters =
     (if remainingPods = [] then (w, True)
      else if list_ex (past_deadline (time_now (cluster i) w) timeout) remainingPods then
        (case forceDeletePods i w remainingPods of
           (w1, Some e) \<Rightarrow> (w1, False)
         | (w1, None) \<Rightarrow>
             (let (w2, allEvicted, _) =
                checkIfPodsPresentInNamespaceAndNode i w1 namespaces nodeName partialDrainEntity podFilters
              in (w2, allEvicted)))
      else (w, False))"

definition CheckIfAllPodsAreEvictedInImmediateMode ::
  "'w Informers \<Rightarrow> 'w \<Rightarrow> string list \<Rightarrow> string \<Rightarrow> int \<Rightarrow> entity option \<Rightarrow> PodFilter option list \<Rightarrow> 'w \<times> bool" where
  "CheckIfAllPodsAreEvictedInImmediateMode i w namespaces nodeName timeout partialDrainEntity podFilters =
     (let (w1, allEvicted, remainingPods) =
        checkIfPodsPresentInNamespaceAndNode i w namespaces nodeName partialDrainEntity podFilters
      in if allEvicted then (w1, True)
         else if remainingPods = [] then (w1, False)
         else CheckIfObservedPodsAreEvictedInImmediateMode i w1 namespaces nodeName timeout partialDrainEntity
                remainingPods podFilters)"

section \<open>Deletion after a timeout\<close>

definition getNodeDrainTimeout :: "'w Informers \<Rightarrow> 'w \<Rightarrow> int \<Rightarrow> int \<Rightarrow> int" where
  "getNodeDrainTimeout i w timeout createdAt =
     (let elapsed = time_since (time_now (cluster i) w) createdAt; drainTimeout = duration (timeout * minute)
      in duration (drainTimeout - elapsed))"

definition waiting_message :: "pod list \<Rightarrow> string list \<Rightarrow> string" where
  "waiting_message remainingPods namespaces =
     ''Waiting for following pods to finish: '' @ concat (map (\<lambda>n. n @ '' '') (sort (map p_Name remainingPods)))"

definition DeletePodsAfterTimeout ::
  "'w Informers \<Rightarrow> 'w \<Rightarrow> string \<Rightarrow> string list \<Rightarrow> int \<Rightarrow> int \<Rightarrow> entity option \<Rightarrow> PodFilter option list
     \<Rightarrow> 'w \<times> error option" where
  "DeletePodsAfterTimeout i w nodeName namespaces timeout createdAt partialDrainEntity podFilters =
     (let timeoutReached = getNodeDrainTimeout i w timeout createdAt \<le> 0;
          (w1, evicted, remainingPods) =
            checkIfPodsPresentInNamespaceAndNode i w namespaces nodeName partialDrainEntity podFilters in
      if evicted then (w1, None)
      else if remainingPods = [] then
        (w1, Some (EText (''could not check every namespace on node '' @ nodeName @ '', requeuing'')))
      else if timeoutReached then
        (case forceDeletePods i w1 remainingPods of
           (w2, Some e) \<Rightarrow> (w2, Some (EWrap (''failed to force delete pods on node '' @ nodeName) e))
         | (w2, None) \<Rightarrow> (w2, Some (EText (''force deleted pods, requeuing to verify deletion on node '' @ nodeName))))
      else
        (let (w2, _) = UpdateNodeEvent i w1 nodeName ''WaitingBeforeForceDelete'' (waiting_message remainingPods namespaces)
         in (w2, Some (EText (''waiting for pods to complete or timeout on node '' @ nodeName)))))"

end
