(* ===== verification/Drain_Config.thy ===== *)
theory Drain_Config
  imports Pod_Informers
begin

text \<open>
  The configuration of node-drainer (\<^verbatim>\<open>node-drainer/pkg/config\<close>): the drain modes, the pod drain
  policies with their compilation and matching, the selector of custom drain, and the
  validation of a configuration. TOML decoding is not modelled: a configuration is the record
  that decoding yields. Label selectors belong to \<^verbatim>\<open>k8s.io/apimachinery/pkg/labels\<close>: a parsed
  selector is a predicate on label sets with the keys its requirements name, and the parser
  is an argument.
\<close>

section \<open>Modes and policies\<close>

type_synonym EvictMode = string

definition ModeImmediateEvict :: EvictMode where "ModeImmediateEvict = ''Immediate''"
definition ModeAllowCompletion :: EvictMode where "ModeAllowCompletion = ''AllowCompletion''"
definition ModeDeleteAfterTimeout :: EvictMode where "ModeDeleteAfterTimeout = ''DeleteAfterTimeout''"

lemmas mode_defs = ModeImmediateEvict_def ModeAllowCompletion_def ModeDeleteAfterTimeout_def

record selector =
  sel_Matches :: "(string, string) gomap \<Rightarrow> bool"
  sel_Keys :: "string list"

definition Everything :: selector where
  "Everything = \<lparr>sel_Matches = (\<lambda>_. True), sel_Keys = []\<rparr>"

record label_lang =
  globs :: patterns
  labels_Parse :: "string \<Rightarrow> error + selector"

record PodDrainPolicy =
  pdp_Name :: string
  pdp_Namespace :: string
  pdp_PodSelector :: string
  pdp_OwnerKinds :: "string list"
  pdp_Mode :: EvictMode

text \<open>A nil set of owner kinds (None) means that the policy does not match on owners.\<close>

record compiledPodDrainPolicy =
  cp_namespace :: string
  cp_selector :: selector
  cp_ownerKinds :: "string list option"
  cp_mode :: EvictMode

record PodPolicyMatcher =
  policies :: "compiledPodDrainPolicy list"
  labelKeys :: "string list"

text \<open>\<^verbatim>\<open>strings.TrimSpace\<close> on ASCII white space.\<close>

definition is_space :: "char \<Rightarrow> bool" where
  "is_space c \<longleftrightarrow> c \<in> {CHR '' '', CHR 0x09, CHR 0x0A, CHR 0x0B, CHR 0x0C, CHR 0x0D}"

definition TrimSpace :: "string \<Rightarrow> string" where
  "TrimSpace s = rev (dropWhile is_space (rev (dropWhile is_space s)))"

definition compileOwnerKinds :: "string list \<Rightarrow> error + string list option" where
  "compileOwnerKinds kinds =
     (if kinds = [] then Inr None
      else if list_ex (\<lambda>kind. kind = [] \<or> TrimSpace kind \<noteq> kind) kinds
      then Inl (EText ''ownerKinds: invalid kind'')
      else Inr (Some kinds))"

definition compilePodDrainPolicy :: "label_lang \<Rightarrow> PodDrainPolicy \<Rightarrow> error + compiledPodDrainPolicy" where
  "compilePodDrainPolicy lang policy =
     (if pdp_Mode policy \<notin> {ModeImmediateEvict, ModeAllowCompletion, ModeDeleteAfterTimeout}
      then Inl (EText (''unsupported mode '' @ pdp_Mode policy))
      else
        let namespace = (if pdp_Namespace policy = [] then ''*'' else pdp_Namespace policy) in
        case filepath_match (globs lang) namespace [] of
          Inl e \<Rightarrow> Inl (EWrap ''invalid namespace pattern'' e)
        | Inr _ \<Rightarrow>
            (case compileOwnerKinds (pdp_OwnerKinds policy) of
               Inl e \<Rightarrow> Inl e
             | Inr ownerKinds \<Rightarrow>
                 if TrimSpace (pdp_PodSelector policy) = [] then
                   (if ownerKinds = None then Inl (EText ''podSelector and ownerKinds must not both be empty'')
                    else Inr \<lparr>cp_namespace = namespace, cp_selector = Everything,
                           cp_ownerKinds = ownerKinds, cp_mode = pdp_Mode policy\<rparr>)
                 else
                   (case labels_Parse lang (pdp_PodSelector policy) of
                      Inl e \<Rightarrow> Inl (EWrap ''invalid podSelector'' e)
                    | Inr sel \<Rightarrow> Inr \<lparr>cp_namespace = namespace, cp_selector = sel,
                           cp_ownerKinds = ownerKinds, cp_mode = pdp_Mode policy\<rparr>)))"

text \<open>The loop of \<^verbatim>\<open>CompilePodDrainPolicies\<close> with the names and the label keys seen so far.\<close>

fun compile_policies ::
  "label_lang \<Rightarrow> PodDrainPolicy list \<Rightarrow> string list \<Rightarrow> string list \<Rightarrow> compiledPodDrainPolicy list
     \<Rightarrow> error + (compiledPodDrainPolicy list \<times> string list)" where
  "compile_policies lang [] names keys compiled = Inr (compiled, keys)"
| "compile_policies lang (policy # rest) names keys compiled =
     (if TrimSpace (pdp_Name policy) = [] \<or> pdp_Name policy \<in> set names
      then Inl (EText ''podDrainPolicies: name must be non-empty and unique'')
      else case compilePodDrainPolicy lang policy of
          Inl e \<Rightarrow> Inl (EWrap ''podDrainPolicies'' e)
        | Inr c \<Rightarrow>
            compile_policies lang rest (pdp_Name policy # names)
              (fold List.insert (sel_Keys (cp_selector c)) keys) (compiled @ [c]))"

definition CompilePodDrainPolicies :: "label_lang \<Rightarrow> PodDrainPolicy list \<Rightarrow> error + PodPolicyMatcher" where
  "CompilePodDrainPolicies lang ps =
     (case compile_policies lang ps [] [] [] of
        Inl e \<Rightarrow> Inl e
      | Inr (compiled, keys) \<Rightarrow> Inr \<lparr>policies = compiled, labelKeys = sort keys\<rparr>)"

definition LabelKeys :: "PodPolicyMatcher \<Rightarrow> string list" where
  "LabelKeys m = labelKeys m"

text \<open>\<^verbatim>\<open>metav1.GetControllerOfNoCopy\<close>: the first owner reference whose controller flag is true.\<close>

definition matchesOwner :: "compiledPodDrainPolicy \<Rightarrow> pod \<Rightarrow> bool" where
  "matchesOwner p pod =
     (case cp_ownerKinds p of
        None \<Rightarrow> True
      | Some kinds \<Rightarrow>
          (case List.find (\<lambda>owner. or_Controller owner = Some True) (p_OwnerReferences pod) of
             None \<Rightarrow> False
           | Some controller \<Rightarrow> or_Kind controller \<in> set kinds))"

definition policy_matches :: "label_lang \<Rightarrow> pod \<Rightarrow> compiledPodDrainPolicy \<Rightarrow> bool" where
  "policy_matches lang pod policy =
     ((case filepath_match (globs lang) (cp_namespace policy) (p_Namespace pod) of Inl _ \<Rightarrow> False | Inr b \<Rightarrow> b) \<and>
      sel_Matches (cp_selector policy) (p_Labels pod) \<and> matchesOwner policy pod)"

definition Match :: "label_lang \<Rightarrow> PodPolicyMatcher \<Rightarrow> pod \<Rightarrow> EvictMode option" where
  "Match lang m pod = map_option cp_mode (List.find (policy_matches lang pod) (policies m))"

section \<open>Custom drain\<close>

record CustomDrainConfig =
  cd_Enabled :: bool
  cd_NodeSelector :: string
  cd_required :: "(string, string) gomap"
  cd_Timeout :: int

record CustomDrainNodeMatcher =
  cm_enabled :: bool
  cm_selector :: "selector option"
  cm_labelKeys :: "string list"

text \<open>The flag \<^verbatim>\<open>scoped\<close> says whether a selector is set.\<close>

definition CompileCustomDrainNodeSelector :: "label_lang \<Rightarrow> CustomDrainConfig \<Rightarrow> error + CustomDrainNodeMatcher" where
  "CompileCustomDrainNodeSelector lang cfg =
     (let matcher = \<lparr>cm_enabled = cd_Enabled cfg, cm_selector = None, cm_labelKeys = []\<rparr> in
      if \<not> cd_Enabled cfg \<or> TrimSpace (cd_NodeSelector cfg) = [] then Inr matcher
      else case labels_Parse lang (cd_NodeSelector cfg) of
          Inl e \<Rightarrow> Inl (EWrap ''invalid customDrain.nodeSelector'' e)
        | Inr sel \<Rightarrow>
            if sel_Keys sel = [] then Inr matcher
            else Inr (matcher\<lparr>cm_selector := Some sel, cm_labelKeys := sort (remdups (sel_Keys sel))\<rparr>))"

definition IsScoped :: "CustomDrainNodeMatcher \<Rightarrow> bool" where
  "IsScoped m \<longleftrightarrow> cm_selector m \<noteq> None"

definition custom_Matches :: "CustomDrainNodeMatcher \<Rightarrow> cached_node \<Rightarrow> bool" where
  "custom_Matches m node =
     (cm_enabled m \<and> (case cm_selector m of None \<Rightarrow> True | Some sel \<Rightarrow> sel_Matches sel (n_Labels node)))"

section \<open>Validation\<close>

record UserNamespace =
  un_Name :: string
  un_Mode :: EvictMode

record TomlConfig =
  EvictionTimeoutInSeconds :: int
  SystemNamespaces :: string
  DeleteAfterTimeoutMinutes :: int
  NotReadyTimeoutMinutes :: int
  DrainGPUPods :: bool
  UserNamespaces :: "UserNamespace list"
  PodDrainPolicies :: "PodDrainPolicy list"
  CustomDrain :: CustomDrainConfig
  PartialDrainEnabled :: bool

definition validateCustomDrainScope :: "TomlConfig \<Rightarrow> bool \<Rightarrow> error option" where
  "validateCustomDrainScope config scoped =
     (if scoped then
        (if UserNamespaces config = [] \<and> PodDrainPolicies config = []
         then Some (EText ''customDrain.nodeSelector requires userNamespaces or podDrainPolicies'')
         else None)
      else if UserNamespaces config \<noteq> []
      then Some (EText ''cannot use both customDrain.enabled=true and userNamespaces configuration'')
      else if PodDrainPolicies config \<noteq> []
      then Some (EText ''cannot use both customDrain.enabled=true and podDrainPolicies configuration'')
      else None)"

text \<open>The eight required fields are the entries of \<open>cd_required\<close>, under their configuration names.\<close>

definition validateCustomDrainConfig :: "label_lang \<Rightarrow> TomlConfig \<Rightarrow> error + TomlConfig" where
  "validateCustomDrainConfig lang config =
     (if \<not> cd_Enabled (CustomDrain config) then Inr config
      else case CompileCustomDrainNodeSelector lang (CustomDrain config) of
          Inl e \<Rightarrow> Inl e
        | Inr matcher \<Rightarrow>
            (case validateCustomDrainScope config (IsScoped matcher) of
               Some e \<Rightarrow> Inl e
             | None \<Rightarrow>
                 (case List.find (\<lambda>(field, v). v = []) (cd_required (CustomDrain config)) of
                    Some (field, _) \<Rightarrow> Inl (EText (''customDrain.'' @ field @ '' is required when customDrain.enabled=true''))
                  | None \<Rightarrow>
                      Inr (if cd_Timeout (CustomDrain config) = 0
                           then config\<lparr>CustomDrain := (CustomDrain config)\<lparr>cd_Timeout := 3600 * sec\<rparr>\<rparr>
                           else config))))"

definition validateAndSetDefaults :: "label_lang \<Rightarrow> TomlConfig \<Rightarrow> error + TomlConfig" where
  "validateAndSetDefaults lang config =
     (if UserNamespaces config \<noteq> [] \<and> PodDrainPolicies config \<noteq> []
      then Inl (EText ''cannot use both userNamespaces and podDrainPolicies configuration'')
      else case CompilePodDrainPolicies lang (PodDrainPolicies config) of
          Inl e \<Rightarrow> Inl (EWrap ''validate pod drain policies'' e)
        | Inr _ \<Rightarrow>
            (case validateCustomDrainConfig lang config of
               Inl e \<Rightarrow> Inl e
             | Inr config1 \<Rightarrow>
                 let config2 = (if DeleteAfterTimeoutMinutes config1 = 0
                       then config1\<lparr>DeleteAfterTimeoutMinutes := 60\<rparr> else config1) in
                 if DeleteAfterTimeoutMinutes config2 \<le> 0
                 then Inl (EText ''deleteAfterTimeout must be a positive integer'')
                 else
                   let config3 = (if NotReadyTimeoutMinutes config2 = 0
                         then config2\<lparr>NotReadyTimeoutMinutes := 5\<rparr> else config2) in
                   if NotReadyTimeoutMinutes config3 \<le> 0
                   then Inl (EText ''notReadyTimeoutMinutes must be a positive integer'')
                   else Inr config3))"

end
