(* ===== verification/Drain_Evaluator.thy ===== *)
theory Drain_Evaluator
  imports Drain_Config Annotation_Map Query_Builder
begin

text \<open>
  The drain decision of node-drainer (\<^verbatim>\<open>node-drainer/pkg/evaluator\<close>) and the shared drain
  bookkeeping it rests on (\<^verbatim>\<open>commons/pkg/drain/drain.go\<close>): for a health event on a quarantined
  node, which action to take next, given what the caches, the event store and the custom
  drain resources show.

  The event store answers a query with raw documents; the JSON conversions of a document and of
  the quarantine annotation are arguments. The event under evaluation is present (the
  evaluator dereferences it first); its status may be nil. Logs, spans and metrics are left out.
\<close>

section \<open>Event status\<close>

type_synonym Status = string

definition StatusSucceeded :: Status where "StatusSucceeded = ''Succeeded''"
definition StatusFailed :: Status where "StatusFailed = ''Failed''"
definition AlreadyDrained :: Status where "AlreadyDrained = ''AlreadyDrained''"
definition UnQuarantined :: Status where "UnQuarantined = ''UnQuarantined''"
definition Quarantined :: Status where "Quarantined = ''Quarantined''"
definition AlreadyQuarantined :: Status where "AlreadyQuarantined = ''AlreadyQuarantined''"
definition Cancelled :: Status where "Cancelled = ''Cancelled''"

lemmas status_defs = StatusSucceeded_def StatusFailed_def AlreadyDrained_def UnQuarantined_def
  Quarantined_def AlreadyQuarantined_def Cancelled_def

record HealthEventStatus =
  NodeQuarantined :: Status
  UserPodsEvictionStatus :: "Status option"

record HealthEventWithStatus =
  ev_CreatedAt :: int
  ev_HealthEvent :: health_event
  ev_HealthEventStatus :: "HealthEventStatus option"

section \<open>Drain bookkeeping\<close>

record 'doc stored_event =
  se_document :: 'doc
  se_drainStatus :: Status

record ('w, 'doc) event_store =
  FindHealthEventsByQuery :: "'w \<Rightarrow> Builder \<Rightarrow> error + 'doc stored_event list"
  decode_document :: "'doc \<Rightarrow> error + health_event"

definition PartialDrainEntity :: "health_event \<Rightarrow> bool \<Rightarrow> error + entity option" where
  "PartialDrainEntity healthEvent partialDrainEnabled =
     (if \<not> partialDrainEnabled \<or> RecommendedAction healthEvent \<noteq> COMPONENT_RESET then Inr None
      else case List.find (\<lambda>en. map_of EntityTypeToResourceNames (EntityType en) \<noteq> None \<and>
             EntityValue en \<noteq> []) (EntitiesImpacted healthEvent) of
          Some en \<Rightarrow> Inr (Some en)
        | None \<Rightarrow> Inl (EText (''no supported entities for a partial drain found in health event for node: '' @
              NodeName healthEvent)))"

definition doesDrainCoverPartialEntity :: "bool \<Rightarrow> entity option \<Rightarrow> entity option \<Rightarrow> bool" where
  "doesDrainCoverPartialEntity drainCompleted partialEntity currentPartialEntity =
     (drainCompleted \<and>
      (case partialEntity of
         None \<Rightarrow> True
       | Some p \<Rightarrow>
           (case currentPartialEntity of
              None \<Rightarrow> False
            | Some c \<Rightarrow> EntityType p = EntityType c \<and> EntityValue p = EntityValue c)))"

definition getHealthEventFromId ::
  "('w, 'doc) event_store \<Rightarrow> 'w \<Rightarrow> string \<Rightarrow> error + ('doc stored_event \<times> health_event)" where
  "getHealthEventFromId store w ident =
     (case FindHealthEventsByQuery store w (Build (Eq ''_id'' (VString ident)) New) of
        Inl e \<Rightarrow> Inl (EWrap (''failed to query health events for event ID '' @ ident) e)
      | Inr [stored] \<Rightarrow>
          (case decode_document store (se_document stored) of
             Inl e \<Rightarrow> Inl (EWrap ''failed to unmarshal health event'' e)
           | Inr healthEvent \<Rightarrow> Inr (stored, healthEvent))
      | Inr _ \<Rightarrow> Inl (EText (''unexpected number of events for event ID '' @ ident)))"

definition didDrainCompleteForEvent ::
  "('w, 'doc) event_store \<Rightarrow> 'w \<Rightarrow> string \<Rightarrow> entity option \<Rightarrow> bool \<Rightarrow> error + bool" where
  "didDrainCompleteForEvent store w eventID currentPartialEntity partialDrainEnabled =
     (case getHealthEventFromId store w eventID of
        Inl e \<Rightarrow> Inl (EWrap (''looking up health event '' @ eventID) e)
      | Inr (stored, healthEvent) \<Rightarrow>
          (case PartialDrainEntity healthEvent partialDrainEnabled of
             Inl e \<Rightarrow> Inl (EWrap (''evaluating partial drain entity for health event '' @ eventID) e)
           | Inr en \<Rightarrow>
               (let wasSkipped = (case DrainOverrides healthEvent of None \<Rightarrow> False | Some d \<Rightarrow> Skip d);
                    drainCompletedForEvent = (se_drainStatus stored = StatusSucceeded \<or>
                      (se_drainStatus stored = AlreadyDrained \<and> \<not> wasSkipped))
                in Inr (doesDrainCoverPartialEntity drainCompletedForEvent en currentPartialEntity))))"

fun IsNodeDrained ::
  "('w, 'doc) event_store \<Rightarrow> 'w \<Rightarrow> health_event list \<Rightarrow> string \<Rightarrow> entity option \<Rightarrow> bool \<Rightarrow> error + bool" where
  "IsNodeDrained store w [] excludeEventID currentPartialEntity partialDrainEnabled = Inr False"
| "IsNodeDrained store w (event # events) excludeEventID currentPartialEntity partialDrainEnabled =
     (if Id event = [] \<or> Id event = excludeEventID
      then IsNodeDrained store w events excludeEventID currentPartialEntity partialDrainEnabled
      else case didDrainCompleteForEvent store w (Id event) currentPartialEntity partialDrainEnabled of
          Inl e \<Rightarrow> Inl e
        | Inr True \<Rightarrow> Inr True
        | Inr False \<Rightarrow> IsNodeDrained store w events excludeEventID currentPartialEntity partialDrainEnabled)"

section \<open>Actions\<close>

datatype DrainAction = ActionSkip | ActionWait | ActionCreateCR | ActionEvictImmediate
  | ActionEvictWithTimeout | ActionCheckCompletion | ActionMarkAlreadyDrained
  | ActionUpdateStatus | ActionCancel

record DrainActionResult =
  Action :: DrainAction
  Namespaces :: "string list"
  Timeout :: int
  WaitDelay :: int
  ResultStatus :: Status
  ResultEntity :: "entity option"
  ResultFilter :: "PodFilter option"

definition result_of :: "DrainAction \<Rightarrow> DrainActionResult" where
  "result_of a = \<lparr>Action = a, Namespaces = [], Timeout = 0, WaitDelay = 0, ResultStatus = [],
     ResultEntity = None, ResultFilter = None\<rparr>"

definition wait_for :: "int \<Rightarrow> DrainActionResult" where
  "wait_for d = (result_of ActionWait)\<lparr>WaitDelay := d\<rparr>"

definition with_status :: "DrainAction \<Rightarrow> Status \<Rightarrow> DrainActionResult" where
  "with_status a s = (result_of a)\<lparr>ResultStatus := s\<rparr>"

record namespaces =
  immediateEvictionNamespaces :: "string list"
  allowCompletionNamespaces :: "string list"
  deleteAfterTimeoutNamespaces :: "string list"

record 'w custom_client =
  ExistsForNode :: "'w \<Rightarrow> string \<Rightarrow> error + bool \<times> bool"
  GetCRStatus :: "'w \<Rightarrow> string \<Rightarrow> error + bool \<times> bool"

record 'w NodeDrainEvaluator =
  config :: TomlConfig
  informers :: "'w Informers"
  customDrainClient :: "'w custom_client option"
  podPolicies :: PodPolicyMatcher
  customDrainNodes :: CustomDrainNodeMatcher
  lang :: label_lang
  decode_annotation :: "string \<Rightarrow> error + health_event list"

definition NewNodeDrainEvaluator ::
  "label_lang \<Rightarrow> (string \<Rightarrow> error + health_event list) \<Rightarrow> TomlConfig \<Rightarrow> 'w Informers \<Rightarrow> 'w custom_client option
     \<Rightarrow> error + 'w NodeDrainEvaluator" where
  "NewNodeDrainEvaluator l dec cfg infs custom =
     (case CompilePodDrainPolicies l (PodDrainPolicies cfg) of
        Inl e \<Rightarrow> Inl (EWrap ''compile pod drain policies'' e)
      | Inr pols \<Rightarrow>
          (case CompileCustomDrainNodeSelector l (CustomDrain cfg) of
             Inl e \<Rightarrow> Inl (EWrap ''compile custom drain node selector'' e)
           | Inr nodes \<Rightarrow> Inr \<lparr>config = cfg, informers = infs, customDrainClient = custom, podPolicies = pols,
               customDrainNodes = nodes, lang = l, decode_annotation = dec\<rparr>))"

section \<open>Preconditions\<close>

definition isTerminalStatus :: "Status \<Rightarrow> bool" where
  "isTerminalStatus s \<longleftrightarrow> s = StatusSucceeded \<or> s = StatusFailed \<or> s = Cancelled \<or> s = AlreadyDrained"

definition checkPreconditions :: "HealthEventWithStatus \<Rightarrow> DrainActionResult option" where
  "checkPreconditions healthEvent =
     (case ev_HealthEventStatus healthEvent of
        None \<Rightarrow> Some (wait_for minute)
      | Some st \<Rightarrow>
          if NodeQuarantined st = [] \<or> NodeQuarantined st = UnQuarantined then Some (result_of ActionSkip)
          else (case UserPodsEvictionStatus st of
              None \<Rightarrow> Some (wait_for minute)
            | Some s \<Rightarrow>
                if isTerminalStatus s then Some (result_of ActionSkip)
                else if IsHealthy (ev_HealthEvent healthEvent) then Some (with_status ActionMarkAlreadyDrained AlreadyDrained)
                else if (case DrainOverrides (ev_HealthEvent healthEvent) of None \<Rightarrow> False | Some d \<Rightarrow> Skip d)
                then Some (with_status ActionMarkAlreadyDrained AlreadyDrained)
                else None))"

section \<open>Nodes that are quarantined already\<close>

definition isNodeAlreadyDrained ::
  "'w NodeDrainEvaluator \<Rightarrow> ('w, 'doc) event_store \<Rightarrow> 'w \<Rightarrow> string \<Rightarrow> entity option \<Rightarrow> string
     \<Rightarrow> error + bool \<times> bool" where
  "isNodeAlreadyDrained e store w currentEventId currentPartialDrainEntity nodeName =
     (case GetNode (informers e) w nodeName of
        Inl err \<Rightarrow> Inl (EWrap (''failed to get node '' @ nodeName) err)
      | Inr node \<Rightarrow>
          (case map_of (n_Annotations node) QuarantineHealthEventAnnotationKey of
             None \<Rightarrow> Inr (False, False)
           | Some s \<Rightarrow>
               (case decode_annotation e s of
                  Inl err \<Rightarrow> Inl (EWrap (''failed to unmarshal quarantine annotation for node '' @ nodeName) err)
                | Inr decoded \<Rightarrow>
                    (let healthEventsMap = UnmarshalJSON decoded;
                         events = filter (\<lambda>ev. Id ev \<noteq> []) (map (\<lambda>(_, p). snd p) (Events healthEventsMap))
                     in case IsNodeDrained store w events currentEventId currentPartialDrainEntity
                               (PartialDrainEnabled (config e)) of
                          Inl err \<Rightarrow> Inl err
                        | Inr alreadyDrained \<Rightarrow> Inr (alreadyDrained, True)))))"

definition handleAlreadyQuarantined ::
  "'w NodeDrainEvaluator \<Rightarrow> ('w, 'doc) event_store \<Rightarrow> 'w \<Rightarrow> Status \<Rightarrow> HealthEventWithStatus \<Rightarrow> entity option
     \<Rightarrow> DrainActionResult option" where
  "handleAlreadyQuarantined e store w statusStr healthEvent partialDrainEntity =
     (if statusStr \<noteq> AlreadyQuarantined then None
      else case isNodeAlreadyDrained e store w (Id (ev_HealthEvent healthEvent)) partialDrainEntity
                  (NodeName (ev_HealthEvent healthEvent)) of
          Inl err \<Rightarrow> Some (wait_for minute)
        | Inr (isDrained, hasQuarantineAnnotation) \<Rightarrow>
            if \<not> hasQuarantineAnnotation then Some (with_status ActionCancel Cancelled)
            else if isDrained then Some (with_status ActionMarkAlreadyDrained AlreadyDrained)
            else None)"

section \<open>Custom drain\<close>

definition GenerateCRName :: "string \<Rightarrow> string \<Rightarrow> string" where
  "GenerateCRName nodeName eventID = ''drain-'' @ nodeName @ ''-'' @ eventID"

definition customDrainPollInterval :: int where
  "customDrainPollInterval = 30 * sec"

text \<open>Whether custom drain owns the node, or Inr with the result of a retry.\<close>

definition shouldUseCustomDrain :: "'w NodeDrainEvaluator \<Rightarrow> 'w \<Rightarrow> string \<Rightarrow> bool + DrainActionResult" where
  "shouldUseCustomDrain e w nodeName =
     (if \<not> cd_Enabled (CustomDrain (config e)) \<or> customDrainClient e = None then Inl False
      else if \<not> IsScoped (customDrainNodes e) then Inl True
      else case GetNode (informers e) w nodeName of
          Inl err \<Rightarrow> Inr (wait_for minute)
        | Inr node \<Rightarrow> Inl (custom_Matches (customDrainNodes e) node))"

definition evaluateCustomDrain ::
  "'w NodeDrainEvaluator \<Rightarrow> 'w custom_client \<Rightarrow> 'w \<Rightarrow> HealthEventWithStatus \<Rightarrow> entity option
     \<Rightarrow> 'w \<times> (error + DrainActionResult)" where
  "evaluateCustomDrain e client w healthEvent partialDrainEntity =
     (let nodeName = NodeName (ev_HealthEvent healthEvent); eventID = Id (ev_HealthEvent healthEvent) in
      if eventID = [] then (w, Inl (EText (''health event for node '' @ nodeName @ '' is missing Id'')))
      else
        case ExistsForNode client w nodeName of
          Inl err \<Rightarrow> (w, Inr (wait_for customDrainPollInterval))
        | Inr (nodeHasCR, nodeDrainComplete) \<Rightarrow>
            if \<not> nodeHasCR then
              (case GetNamespacesMatchingPattern (globs (lang e)) (informers e) w ''*''
                      (SystemNamespaces (config e)) nodeName of
                 (w1, Inl err) \<Rightarrow> (w1, Inl (EWrap ''failed to get user namespaces'' err))
               | (w1, Inr ns) \<Rightarrow>
                   (w1, Inr ((result_of ActionCreateCR)\<lparr>Namespaces := ns, ResultEntity := partialDrainEntity\<rparr>)))
            else
              (case GetCRStatus client w (GenerateCRName nodeName eventID) of
                 Inl err \<Rightarrow> (w, Inr (wait_for customDrainPollInterval))
               | Inr (crExists, isComplete) \<Rightarrow>
                   (w, Inr (if \<not> crExists then
                              (if nodeDrainComplete then with_status ActionMarkAlreadyDrained AlreadyDrained
                               else wait_for customDrainPollInterval)
                            else if \<not> isComplete then wait_for customDrainPollInterval
                            else with_status ActionMarkAlreadyDrained AlreadyDrained))))"

section \<open>Namespace rules\<close>

definition mapUserNamespacesToMode :: "bool \<Rightarrow> UserNamespace \<Rightarrow> string list \<Rightarrow> namespaces \<Rightarrow> namespaces" where
  "mapUserNamespacesToMode forceImmediateEviction userNamespace matched ns =
     (if forceImmediateEviction \<or> un_Mode userNamespace = ModeImmediateEvict
      then ns\<lparr>immediateEvictionNamespaces := immediateEvictionNamespaces ns @ matched\<rparr>
      else if un_Mode userNamespace = ModeAllowCompletion
      then ns\<lparr>allowCompletionNamespaces := allowCompletionNamespaces ns @ matched\<rparr>
      else if un_Mode userNamespace = ModeDeleteAfterTimeout
      then ns\<lparr>deleteAfterTimeoutNamespaces := deleteAfterTimeoutNamespaces ns @ matched\<rparr>
      else ns)"

text \<open>The loop that looks for remaining pods; a lookup error counts as remaining pods.\<close>

fun has_remaining_pods :: "'w Informers \<Rightarrow> 'w \<Rightarrow> string list \<Rightarrow> string \<Rightarrow> entity option \<Rightarrow> 'w \<times> bool" where
  "has_remaining_pods i w [] nodeName partialDrainEntity = (w, False)"
| "has_remaining_pods i w (namespace # rest) nodeName partialDrainEntity =
     (case FindEvictablePodsInNamespaceAndNode i w namespace nodeName partialDrainEntity [None] of
        (w1, Inl _) \<Rightarrow> (w1, True)
      | (w1, Inr pods) \<Rightarrow> if pods \<noteq> [] then (w1, True) else has_remaining_pods i w1 rest nodeName partialDrainEntity)"

definition handleAllowCompletionNamespaces ::
  "'w NodeDrainEvaluator \<Rightarrow> 'w \<Rightarrow> namespaces \<Rightarrow> string \<Rightarrow> entity option \<Rightarrow> 'w \<times> DrainActionResult option" where
  "handleAllowCompletionNamespaces e w ns nodeName partialDrainEntity =
     (let (w1, hasRemainingPods) = has_remaining_pods (informers e) w (allowCompletionNamespaces ns) nodeName partialDrainEntity
      in (w1, if hasRemainingPods
              then Some ((result_of ActionCheckCompletion)\<lparr>Namespaces := allowCompletionNamespaces ns,
                     ResultEntity := partialDrainEntity\<rparr>)
              else None))"

definition handleDeleteAfterTimeoutNamespaces ::
  "'w NodeDrainEvaluator \<Rightarrow> 'w \<Rightarrow> namespaces \<Rightarrow> string \<Rightarrow> entity option \<Rightarrow> 'w \<times> DrainActionResult option" where
  "handleDeleteAfterTimeoutNamespaces e w ns nodeName partialDrainEntity =
     (let (w1, hasRemainingPods) = has_remaining_pods (informers e) w (deleteAfterTimeoutNamespaces ns) nodeName partialDrainEntity
      in (w1, if hasRemainingPods
              then Some ((result_of ActionEvictWithTimeout)\<lparr>Namespaces := deleteAfterTimeoutNamespaces ns,
                     Timeout := duration (DeleteAfterTimeoutMinutes (config e) * minute), ResultEntity := partialDrainEntity\<rparr>)
              else None))"

text \<open>The namespace rules have no pod filters: \<^verbatim>\<open>ns.podFilters\<close> is the nil map.\<close>

definition getAction ::
  "'w NodeDrainEvaluator \<Rightarrow> 'w \<Rightarrow> namespaces \<Rightarrow> string \<Rightarrow> entity option \<Rightarrow> 'w \<times> DrainActionResult" where
  "getAction e w ns nodeName partialDrainEntity =
     (let timeout = EvictionTimeoutInSeconds (config e);
          (w1, immediateDone) =
            (if immediateEvictionNamespaces ns = [] then (w, True)
             else CheckIfAllPodsAreEvictedInImmediateMode (informers e) w (immediateEvictionNamespaces ns) nodeName
                    timeout partialDrainEntity [None])
      in if \<not> immediateDone then
           (w1, (result_of ActionEvictImmediate)\<lparr>Namespaces := immediateEvictionNamespaces ns, Timeout := timeout,
              ResultEntity := partialDrainEntity\<rparr>)
         else
           (let (w2, deleteAction) =
              (if deleteAfterTimeoutNamespaces ns = [] then (w1, None)
               else handleDeleteAfterTimeoutNamespaces e w1 ns nodeName partialDrainEntity)
            in case deleteAction of
                 Some a \<Rightarrow> (w2, a)
               | None \<Rightarrow>
                   (let (w3, completionAction) =
                      (if allowCompletionNamespaces ns = [] then (w2, None)
                       else handleAllowCompletionNamespaces e w2 ns nodeName partialDrainEntity)
                    in case completionAction of
                         Some a \<Rightarrow> (w3, a)
                       | None \<Rightarrow> (w3, with_status ActionUpdateStatus StatusSucceeded))))"

text \<open>The loop over the configured namespaces; Inl when a pattern cannot be resolved.\<close>

fun collect_namespaces ::
  "'w NodeDrainEvaluator \<Rightarrow> 'w \<Rightarrow> bool \<Rightarrow> string \<Rightarrow> UserNamespace list \<Rightarrow> namespaces \<Rightarrow> 'w \<times> (error + namespaces)" where
  "collect_namespaces e w force nodeName [] ns = (w, Inr ns)"
| "collect_namespaces e w force nodeName (userNamespace # rest) ns =
     (case GetNamespacesMatchingPattern (globs (lang e)) (informers e) w (un_Name userNamespace)
             (SystemNamespaces (config e)) nodeName of
        (w1, Inl err) \<Rightarrow> (w1, Inl err)
      | (w1, Inr matched) \<Rightarrow>
          collect_namespaces e w1 force nodeName rest (mapUserNamespacesToMode force userNamespace matched ns))"

section \<open>Pod policies\<close>

text \<open>An empty mode selects the whole drain scope.\<close>

definition podModeFilter :: "'w NodeDrainEvaluator \<Rightarrow> EvictMode \<Rightarrow> bool \<Rightarrow> PodFilter" where
  "podModeFilter e mode force pod =
     (case Match (lang e) (podPolicies e) pod of
        None \<Rightarrow> False
      | Some selected \<Rightarrow> mode = [] \<or> (if force then ModeImmediateEvict else selected) = mode)"

text \<open>\<^verbatim>\<open>podsByMode\<close> is a map from a mode to its pods; a missing mode has none.\<close>

definition group_pod ::
  "'w NodeDrainEvaluator \<Rightarrow> bool \<Rightarrow> pod \<Rightarrow> (EvictMode \<Rightarrow> pod list) \<Rightarrow> EvictMode \<Rightarrow> pod list" where
  "group_pod e force pod podsByMode =
     (case Match (lang e) (podPolicies e) pod of
        None \<Rightarrow> podsByMode
      | Some selected \<Rightarrow>
          (let mode = (if force then ModeImmediateEvict else selected)
           in podsByMode(mode := podsByMode mode @ [pod])))"

fun listPodsByMode ::
  "'w NodeDrainEvaluator \<Rightarrow> 'w \<Rightarrow> string list \<Rightarrow> string \<Rightarrow> entity option \<Rightarrow> bool \<Rightarrow> (EvictMode \<Rightarrow> pod list)
     \<Rightarrow> 'w \<times> (error + (EvictMode \<Rightarrow> pod list))" where
  "listPodsByMode e w [] nodeName partialDrainEntity force podsByMode = (w, Inr podsByMode)"
| "listPodsByMode e w (namespace # rest) nodeName partialDrainEntity force podsByMode =
     (case FindEvictablePodsInNamespaceAndNode (informers e) w namespace nodeName partialDrainEntity
             [Some (podModeFilter e [] force)] of
        (w1, Inl err) \<Rightarrow> (w1, Inl (EWrap (''list pods for drain policies in namespace '' @ namespace) err))
      | (w1, Inr pods) \<Rightarrow>
          listPodsByMode e w1 rest nodeName partialDrainEntity force (fold (group_pod e force) pods podsByMode))"

definition policy_candidates :: "TomlConfig \<Rightarrow> (EvictMode \<times> DrainAction \<times> int) list" where
  "policy_candidates cfg =
     [(ModeImmediateEvict, ActionEvictImmediate, EvictionTimeoutInSeconds cfg),
      (ModeDeleteAfterTimeout, ActionEvictWithTimeout, duration (DeleteAfterTimeoutMinutes cfg * minute)),
      (ModeAllowCompletion, ActionCheckCompletion, 0)]"

text \<open>The loop over the modes: the first one with work left gives the action.\<close>

fun first_candidate ::
  "'w NodeDrainEvaluator \<Rightarrow> 'w \<Rightarrow> string list \<Rightarrow> string \<Rightarrow> entity option \<Rightarrow> bool \<Rightarrow> (EvictMode \<Rightarrow> pod list)
     \<Rightarrow> (EvictMode \<times> DrainAction \<times> int) list \<Rightarrow> 'w \<times> DrainActionResult option" where
  "first_candidate e w allNamespaces nodeName partialDrainEntity force podsByMode [] = (w, None)"
| "first_candidate e w allNamespaces nodeName partialDrainEntity force podsByMode ((mode, action, timeout) # rest) =
     (if podsByMode mode = []
      then first_candidate e w allNamespaces nodeName partialDrainEntity force podsByMode rest
      else
        (let fltr = podModeFilter e mode force;
             (w1, evicted) =
               (if mode = ModeImmediateEvict
                then CheckIfObservedPodsAreEvictedInImmediateMode (informers e) w allNamespaces nodeName timeout
                       partialDrainEntity (podsByMode mode) [Some fltr]
                else (w, False))
         in if evicted then first_candidate e w1 allNamespaces nodeName partialDrainEntity force podsByMode rest
            else (w1, Some ((result_of action)\<lparr>Namespaces := allNamespaces, Timeout := timeout,
                     ResultEntity := partialDrainEntity, ResultFilter := Some fltr\<rparr>))))"

fun recheck_scope ::
  "'w NodeDrainEvaluator \<Rightarrow> 'w \<Rightarrow> string list \<Rightarrow> string \<Rightarrow> entity option \<Rightarrow> bool
     \<Rightarrow> 'w \<times> (error + DrainActionResult)" where
  "recheck_scope e w [] nodeName partialDrainEntity force = (w, Inr (with_status ActionUpdateStatus StatusSucceeded))"
| "recheck_scope e w (namespace # rest) nodeName partialDrainEntity force =
     (case FindEvictablePodsInNamespaceAndNode (informers e) w namespace nodeName partialDrainEntity
             [Some (podModeFilter e [] force)] of
        (w1, Inl err) \<Rightarrow> (w1, Inl (EWrap ''check remaining selected pods'' err))
      | (w1, Inr pods) \<Rightarrow>
          if pods \<noteq> [] then (w1, Inr (wait_for sec))
          else recheck_scope e w1 rest nodeName partialDrainEntity force)"

definition force_of :: "HealthEventWithStatus \<Rightarrow> bool" where
  "force_of healthEvent = (case DrainOverrides (ev_HealthEvent healthEvent) of None \<Rightarrow> False | Some d \<Rightarrow> Force d)"

definition evaluatePodPolicyActions ::
  "'w NodeDrainEvaluator \<Rightarrow> 'w \<Rightarrow> HealthEventWithStatus \<Rightarrow> entity option \<Rightarrow> 'w \<times> (error + DrainActionResult)" where
  "evaluatePodPolicyActions e w healthEvent partialDrainEntity =
     (let nodeName = NodeName (ev_HealthEvent healthEvent); force = force_of healthEvent in
      case GetNamespacesMatchingPattern (globs (lang e)) (informers e) w ''*'' (SystemNamespaces (config e)) nodeName of
        (w1, Inl err) \<Rightarrow> (w1, Inl (EWrap ''find namespaces for pod drain policies'' err))
      | (w1, Inr allNamespaces) \<Rightarrow>
          (case listPodsByMode e w1 allNamespaces nodeName partialDrainEntity force (\<lambda>_. []) of
             (w2, Inl err) \<Rightarrow> (w2, Inl err)
           | (w2, Inr podsByMode) \<Rightarrow>
               (case first_candidate e w2 allNamespaces nodeName partialDrainEntity force podsByMode
                       (policy_candidates (config e)) of
                  (w3, Some action) \<Rightarrow> (w3, Inr action)
                | (w3, None) \<Rightarrow> recheck_scope e w3 allNamespaces nodeName partialDrainEntity force)))"

definition evaluateUserNamespaceActions ::
  "'w NodeDrainEvaluator \<Rightarrow> 'w \<Rightarrow> HealthEventWithStatus \<Rightarrow> entity option \<Rightarrow> 'w \<times> (error + DrainActionResult)" where
  "evaluateUserNamespaceActions e w healthEvent partialDrainEntity =
     (if PodDrainPolicies (config e) \<noteq> [] then evaluatePodPolicyActions e w healthEvent partialDrainEntity
      else
        (let nodeName = NodeName (ev_HealthEvent healthEvent) in
         case collect_namespaces e w (force_of healthEvent) nodeName (UserNamespaces (config e))
                \<lparr>immediateEvictionNamespaces = [], allowCompletionNamespaces = [], deleteAfterTimeoutNamespaces = []\<rparr> of
           (w1, Inl err) \<Rightarrow> (w1, Inr (wait_for minute))
         | (w1, Inr ns) \<Rightarrow>
             (let (w2, action) = getAction e w1 ns nodeName partialDrainEntity in (w2, Inr action))))"

section \<open>The evaluation\<close>

definition EvaluateEventWithDatabase ::
  "'w NodeDrainEvaluator \<Rightarrow> ('w, 'doc) event_store \<Rightarrow> 'w \<Rightarrow> HealthEventWithStatus
     \<Rightarrow> 'w \<times> (error + DrainActionResult)" where
  "EvaluateEventWithDatabase e store w healthEvent =
     (case checkPreconditions healthEvent of
        Some result \<Rightarrow> (w, Inr result)
      | None \<Rightarrow>
          (case PartialDrainEntity (ev_HealthEvent healthEvent) (PartialDrainEnabled (config e)) of
             Inl err \<Rightarrow> (w, Inr (with_status ActionUpdateStatus StatusFailed))
           | Inr partialDrainEntity \<Rightarrow>
               (let statusStr = (case ev_HealthEventStatus healthEvent of None \<Rightarrow> [] | Some st \<Rightarrow> NodeQuarantined st) in
                case handleAlreadyQuarantined e store w statusStr healthEvent partialDrainEntity of
                  Some result \<Rightarrow> (w, Inr result)
                | None \<Rightarrow>
                    (case shouldUseCustomDrain e w (NodeName (ev_HealthEvent healthEvent)) of
                       Inr retry \<Rightarrow> (w, Inr retry)
                     | Inl useCustomDrain \<Rightarrow>
                         (case (useCustomDrain, customDrainClient e) of
                            (True, Some client) \<Rightarrow> evaluateCustomDrain e client w healthEvent partialDrainEntity
                          | _ \<Rightarrow> evaluateUserNamespaceActions e w healthEvent partialDrainEntity)))))"

datatype DrainScope = DrainScopeFull | DrainScopePartial

definition DrainScopeFor :: "health_event \<Rightarrow> bool \<Rightarrow> DrainScope \<times> entity option" where
  "DrainScopeFor healthEvent partialDrainEnabled =
     (case PartialDrainEntity healthEvent partialDrainEnabled of
        Inr (Some en) \<Rightarrow> (DrainScopePartial, Some en)
      | _ \<Rightarrow> (DrainScopeFull, None))"

end
