(* ===== verification/Custom_Drain.thy ===== *)
theory Custom_Drain
  imports Drain_Evaluator
begin

text \<open>
  The client of node-drainer for custom drain resources (\<^verbatim>\<open>node-drainer/pkg/customdrain\<close>). Rendering the
  template into an object, the mapping of a kind to a resource and the dynamic API client are
  arguments; a resource is an object with the fields that the client reads or sets.
\<close>

type_synonym group_version_kind = "string \<times> string \<times> string"

text \<open>A condition that is not a map is \<^verbatim>\<open>None\<close>; so is a list of conditions that is missing or malformed.\<close>

record cr_condition =
  cc_type :: "string option"
  cc_status :: "string option"

record drain_cr =
  cr_Name :: string
  cr_Namespace :: string
  cr_Labels :: "(string, string) gomap option"
  cr_Kind :: group_version_kind
  cr_Conditions :: "cr_condition option list option"

record TemplateData =
  td_HealthEvent :: health_event
  td_EventID :: string
  td_PodsToDrain :: "(string, string list) gomap"

record 'w Client =
  template :: "TemplateData \<Rightarrow> error + drain_cr"
  RESTMapping :: "group_version_kind \<Rightarrow> error + string"
  cr_create :: "'w \<Rightarrow> string \<Rightarrow> string \<Rightarrow> drain_cr \<Rightarrow> string list \<Rightarrow> 'w \<times> error option"
  cr_list :: "'w \<Rightarrow> string \<Rightarrow> string \<Rightarrow> string \<Rightarrow> error + drain_cr list"
  cr_get :: "'w \<Rightarrow> string \<Rightarrow> string \<Rightarrow> string \<Rightarrow> error + drain_cr"
  cr_delete :: "'w \<Rightarrow> string \<Rightarrow> string \<Rightarrow> string \<Rightarrow> string list \<Rightarrow> 'w \<times> error option"
  client_Namespace :: string
  client_Kind :: group_version_kind
  StatusConditionType :: string
  StatusConditionStatus :: string
  client_dryRunMode :: "string list"

definition NodeNameLabelKey :: string where
  "NodeNameLabelKey = ''nvsentinel.nvidia.com/node-name''"

text \<open>Comparison of ASCII texts up to case.\<close>

definition EqualFold :: "string \<Rightarrow> string \<Rightarrow> bool" where
  "EqualFold a b \<longleftrightarrow> ToLower a = ToLower b"

definition CreateDrainCR :: "'w Client \<Rightarrow> TemplateData \<Rightarrow> 'w \<Rightarrow> 'w \<times> (error + string)" where
  "CreateDrainCR c data w =
     (case template c data of
        Inl e \<Rightarrow> (w, Inl e)
      | Inr obj \<Rightarrow>
          (let crName = GenerateCRName (NodeName (td_HealthEvent data)) (td_EventID data);
               cr = obj\<lparr>cr_Name := crName,
                 cr_Namespace := (if cr_Namespace obj = [] then client_Namespace c else cr_Namespace obj),
                 cr_Labels := Some (AList.update NodeNameLabelKey (NodeName (td_HealthEvent data))
                   (case cr_Labels obj of None \<Rightarrow> [] | Some m \<Rightarrow> m)),
                 cr_Kind := client_Kind c\<rparr>
           in case RESTMapping c (client_Kind c) of
                Inl e \<Rightarrow> (w, Inl (EWrap ''failed to get REST mapping'' e))
              | Inr resource \<Rightarrow>
                  (let (w', err) = cr_create c w resource (client_Namespace c) cr (client_dryRunMode c) in
                   (w', case err of Some e \<Rightarrow> Inl (EWrap ''failed to create CR'' e) | None \<Rightarrow> Inr crName))))"

definition matchesCondition :: "'w Client \<Rightarrow> cr_condition \<Rightarrow> bool" where
  "matchesCondition c cond \<longleftrightarrow>
     cc_type cond = Some (StatusConditionType c) \<and>
     (case cc_status cond of None \<Rightarrow> False | Some s \<Rightarrow> EqualFold s (StatusConditionStatus c))"

definition isCRComplete :: "'w Client \<Rightarrow> drain_cr \<Rightarrow> bool" where
  "isCRComplete c cr =
     (case cr_Conditions cr of
        None \<Rightarrow> False
      | Some conditions \<Rightarrow> list_ex (\<lambda>cond. case cond of None \<Rightarrow> False | Some m \<Rightarrow> matchesCondition c m) conditions)"

definition custom_ExistsForNode :: "'w Client \<Rightarrow> 'w \<Rightarrow> string \<Rightarrow> error + bool \<times> bool" where
  "custom_ExistsForNode c w nodeName =
     (case RESTMapping c (client_Kind c) of
        Inl e \<Rightarrow> Inl (EWrap ''failed to get REST mapping'' e)
      | Inr resource \<Rightarrow>
          (case cr_list c w resource (client_Namespace c) (NodeNameLabelKey @ ''='' @ nodeName) of
             Inl e \<Rightarrow> Inl (EWrap (''failed to list drain CRs for node '' @ nodeName) e)
           | Inr items \<Rightarrow>
               if items = [] then Inr (False, False)
               else Inr (True, list_all (isCRComplete c) items)))"

definition custom_GetCRStatus :: "'w Client \<Rightarrow> 'w \<Rightarrow> string \<Rightarrow> error + bool \<times> bool" where
  "custom_GetCRStatus c w crName =
     (case RESTMapping c (client_Kind c) of
        Inl e \<Rightarrow> Inl (EWrap ''failed to get REST mapping'' e)
      | Inr resource \<Rightarrow>
          (case cr_get c w resource (client_Namespace c) crName of
             Inl e \<Rightarrow> if IsNotFound e then Inr (False, False) else Inl (EWrap ''failed to get CR'' e)
           | Inr cr \<Rightarrow> Inr (True, isCRComplete c cr)))"

definition DeleteDrainCR :: "'w Client \<Rightarrow> string \<Rightarrow> 'w \<Rightarrow> 'w \<times> error option" where
  "DeleteDrainCR c crName w =
     (case RESTMapping c (client_Kind c) of
        Inl e \<Rightarrow> (w, Some (EWrap ''failed to get REST mapping'' e))
      | Inr resource \<Rightarrow>
          (let (w', err) = cr_delete c w resource (client_Namespace c) crName (client_dryRunMode c) in
           (w', case err of None \<Rightarrow> None
              | Some e \<Rightarrow> if IsNotFound e then None else Some (EWrap ''failed to delete CR'' e))))"

text \<open>What the evaluator uses of the client.\<close>

definition evaluator_client :: "'w Client \<Rightarrow> 'w custom_client" where
  "evaluator_client c = \<lparr>ExistsForNode = custom_ExistsForNode c, GetCRStatus = custom_GetCRStatus c\<rparr>"

end
