(* ===== verification/Drain_Queue.thy ===== *)
theory Drain_Queue
  imports NVS_Prelude
begin

text \<open>
  The ready queue of node-drainer (\<^verbatim>\<open>node-drainer/pkg/queue/priority_queue.go\<close>): two lanes and a state per
  node that decides the lane of an item. Each operation holds the lock of the state, so it is atomic. The
  document id of an item is of type \<^verbatim>\<open>'id\<close>; whether its database and event store are set is a flag.
\<close>

section \<open>Items and node states\<close>

record 'id NodeEvent =
  qe_NodeName :: string
  qe_EventID :: string
  qe_DocumentID :: 'id
  qe_hasStores :: bool

datatype queuePriority = queuePriorityHigh | queuePriorityLow

datatype nodePriorityStateKind = nodePriorityStateNone | nodePriorityStateDraining | nodePriorityStateRepresented

record nodePriorityStateEntry =
  pe_kind :: nodePriorityStateKind
  pe_representativeKey :: string

type_synonym nodePriorityState = "(string, nodePriorityStateEntry) gomap"

text \<open>A missing entry reads as the zero value.\<close>

definition node_entry :: "nodePriorityState \<Rightarrow> string \<Rightarrow> nodePriorityStateEntry" where
  "node_entry s nodeName = (case map_of s nodeName of
     None \<Rightarrow> \<lparr>pe_kind = nodePriorityStateNone, pe_representativeKey = []\<rparr> | Some e \<Rightarrow> e)"

definition representativeKey :: "'id NodeEvent \<Rightarrow> string" where
  "representativeKey item = qe_NodeName item @ '':'' @ qe_EventID item"

definition classifyForEnqueue :: "'id NodeEvent \<Rightarrow> nodePriorityState \<Rightarrow> nodePriorityState \<times> queuePriority" where
  "classifyForEnqueue item s =
     (let entry = node_entry s (qe_NodeName item) in
      if pe_kind entry = nodePriorityStateDraining then (s, queuePriorityLow)
      else if pe_kind entry = nodePriorityStateRepresented then (s, queuePriorityLow)
      else (AList.update (qe_NodeName item)
              \<lparr>pe_kind = nodePriorityStateRepresented, pe_representativeKey = representativeKey item\<rparr> s, queuePriorityHigh))"

definition releaseRepresentative :: "'id NodeEvent \<Rightarrow> nodePriorityState \<Rightarrow> nodePriorityState" where
  "releaseRepresentative item s =
     (let entry = node_entry s (qe_NodeName item) in
      if pe_kind entry \<noteq> nodePriorityStateRepresented \<or> pe_representativeKey entry \<noteq> representativeKey item then s
      else AList.delete (qe_NodeName item) s)"

definition markNodeDraining :: "string \<Rightarrow> nodePriorityState \<Rightarrow> nodePriorityState" where
  "markNodeDraining nodeName s =
     AList.update nodeName \<lparr>pe_kind = nodePriorityStateDraining, pe_representativeKey = []\<rparr> s"

definition clearNodeDraining :: "string \<Rightarrow> nodePriorityState \<Rightarrow> nodePriorityState" where
  "clearNodeDraining nodeName s =
     (if pe_kind (node_entry s nodeName) = nodePriorityStateDraining then AList.delete nodeName s else s)"

section \<open>The queue\<close>

record 'id nodeEventPriorityQueue =
  pq_state :: nodePriorityState
  pq_high :: "'id NodeEvent list"
  pq_low :: "'id NodeEvent list"

definition newNodeEventPriorityQueue :: "'id nodeEventPriorityQueue" where
  "newNodeEventPriorityQueue = \<lparr>pq_state = [], pq_high = [], pq_low = []\<rparr>"

definition Push :: "'id NodeEvent \<Rightarrow> 'id nodeEventPriorityQueue \<Rightarrow> 'id nodeEventPriorityQueue" where
  "Push item q =
     (let (s, priority) = classifyForEnqueue item (pq_state q) in
      if priority = queuePriorityHigh then q\<lparr>pq_state := s, pq_high := pq_high q @ [item]\<rparr>
      else q\<lparr>pq_state := s, pq_low := pq_low q @ [item]\<rparr>)"

definition Len :: "'id nodeEventPriorityQueue \<Rightarrow> nat" where
  "Len q = length (pq_high q) + length (pq_low q)"

text \<open>Taking an item from an empty slice panics.\<close>

definition Pop :: "'id nodeEventPriorityQueue \<Rightarrow> ('id nodeEventPriorityQueue \<times> 'id NodeEvent) option" where
  "Pop q =
     (case pq_high q of
        item # rest \<Rightarrow> Some (q\<lparr>pq_high := rest\<rparr>, item)
      | [] \<Rightarrow>
          (case pq_low q of
             item # rest \<Rightarrow> Some (q\<lparr>pq_low := rest\<rparr>, item)
           | [] \<Rightarrow> None))"

section \<open>Traces\<close>

text \<open>The operations that the work queue and the reconciler perform on the queue, in the order they take the lock.\<close>

datatype 'id queue_op = OpPush "'id NodeEvent" | OpPop | OpRelease "'id NodeEvent" | OpMark string | OpClear string

fun queue_step :: "'id queue_op \<Rightarrow> 'id nodeEventPriorityQueue \<Rightarrow> 'id nodeEventPriorityQueue" where
  "queue_step (OpPush item) q = Push item q"
| "queue_step OpPop q = (case Pop q of None \<Rightarrow> q | Some (q', _) \<Rightarrow> q')"
| "queue_step (OpRelease item) q = q\<lparr>pq_state := releaseRepresentative item (pq_state q)\<rparr>"
| "queue_step (OpMark n) q = q\<lparr>pq_state := markNodeDraining n (pq_state q)\<rparr>"
| "queue_step (OpClear n) q = q\<lparr>pq_state := clearNodeDraining n (pq_state q)\<rparr>"

definition queue_run :: "'id queue_op list \<Rightarrow> 'id nodeEventPriorityQueue" where
  "queue_run ops = fold queue_step ops newNodeEventPriorityQueue"

text \<open>What was pushed, into which lane, and what was popped, over a trace.\<close>

fun pushed_to :: "queuePriority \<Rightarrow> 'id queue_op list \<Rightarrow> 'id nodeEventPriorityQueue \<Rightarrow> 'id NodeEvent list" where
  "pushed_to lane [] q = []"
| "pushed_to lane (op # ops) q =
     (case op of OpPush item \<Rightarrow> if snd (classifyForEnqueue item (pq_state q)) = lane then [item] else [] | _ \<Rightarrow> []) @
     pushed_to lane ops (queue_step op q)"

fun popped_from :: "queuePriority \<Rightarrow> 'id queue_op list \<Rightarrow> 'id nodeEventPriorityQueue \<Rightarrow> 'id NodeEvent list" where
  "popped_from lane [] q = []"
| "popped_from lane (op # ops) q =
     (case op of
        OpPop \<Rightarrow> (case Pop q of None \<Rightarrow> []
          | Some (_, item) \<Rightarrow> if (pq_high q \<noteq> []) = (lane = queuePriorityHigh) then [item] else [])
      | _ \<Rightarrow> []) @ popped_from lane ops (queue_step op q)"

definition lane_items :: "queuePriority \<Rightarrow> 'id nodeEventPriorityQueue \<Rightarrow> 'id NodeEvent list" where
  "lane_items lane q = (case lane of queuePriorityHigh \<Rightarrow> pq_high q | queuePriorityLow \<Rightarrow> pq_low q)"

lemma lane_conserved:
  "popped_from lane ops q @ lane_items lane (fold queue_step ops q) = lane_items lane q @ pushed_to lane ops q"
proof (induction ops arbitrary: q)
  case (Cons op ops)
  show ?case
  proof (cases op)
    case (OpPush item)
    then show ?thesis using Cons [of "Push item q"]
      by (cases lane; cases "snd (classifyForEnqueue item (pq_state q))") (auto simp: Push_def lane_items_def split: prod.splits)
  next
    case OpPop
    show ?thesis
    proof (cases "pq_high q")
      case Nil
      then show ?thesis using OpPop Cons [of "queue_step OpPop q"]
        by (cases lane; cases "pq_low q") (auto simp: Pop_def lane_items_def)
    next
      case (Cons a list)
      then show ?thesis using OpPop Cons.IH [of "queue_step OpPop q"]
        by (cases lane) (auto simp: Pop_def lane_items_def)
    qed
  qed (use Cons [of "queue_step op q"] in \<open>auto simp: lane_items_def split: queuePriority.splits\<close>)
qed simp

text \<open>A node keeps its representative until that one is released or the node is marked as draining.\<close>

definition frees :: "string \<Rightarrow> string \<Rightarrow> 'id queue_op \<Rightarrow> bool" where
  "frees node key op \<longleftrightarrow> op = OpMark node \<or> (\<exists>item. op = OpRelease item \<and> qe_NodeName item = node \<and> representativeKey item = key)"

definition represented :: "string \<Rightarrow> string \<Rightarrow> 'id nodeEventPriorityQueue \<Rightarrow> bool" where
  "represented node key q \<longleftrightarrow> node_entry (pq_state q) node = \<lparr>pe_kind = nodePriorityStateRepresented, pe_representativeKey = key\<rparr>"

lemma node_entry_update: "node_entry (AList.update n e s) m = (if m = n then e else node_entry s m)"
  by (simp add: node_entry_def update_conv')

lemma node_entry_delete: "node_entry (AList.delete n s) m =
    (if m = n then \<lparr>pe_kind = nodePriorityStateNone, pe_representativeKey = []\<rparr> else node_entry s m)"
  by (simp add: node_entry_def delete_conv')

lemma represented_step: "represented node key q \<Longrightarrow> \<not> frees node key op \<Longrightarrow> represented node key (queue_step op q)"
  by (cases op) (auto simp: represented_def frees_def Push_def Pop_def classifyForEnqueue_def releaseRepresentative_def
      markNodeDraining_def clearNodeDraining_def node_entry_update node_entry_delete Let_def
      split: list.splits if_splits prod.splits)

lemma represented_run:
  "represented node key q \<Longrightarrow> \<forall>op \<in> set ops. \<not> frees node key op \<Longrightarrow> represented node key (fold queue_step ops q)"
  by (induction ops arbitrary: q) (auto intro: represented_step)

lemma high_push:
  assumes "snd (classifyForEnqueue item (pq_state q)) = queuePriorityHigh"
  shows "represented (qe_NodeName item) (representativeKey item) (Push item q)"
    and "\<not> represented (qe_NodeName item) key q"
  using assms by (auto simp: classifyForEnqueue_def Push_def represented_def node_entry_update Let_def split: if_splits)

text \<open>
  C24. Whatever sequence of operations the work queue and the reconciler perform, each lane delivers exactly
  what was put into it, in order, an item of the low lane is taken only when the high lane is empty, and
  a node gets a second item into the high lane only after the first was released or the node was marked as draining.
\<close>

theorem queue_lanes:
  "popped_from lane ops newNodeEventPriorityQueue @ lane_items lane (queue_run ops) = pushed_to lane ops newNodeEventPriorityQueue \<and>
   (Pop (queue_run ops) = None \<longleftrightarrow> Len (queue_run ops) = 0) \<and>
   (pq_high (queue_run ops) \<noteq> [] \<longrightarrow> (\<exists>q'. Pop (queue_run ops) = Some (q', hd (pq_high (queue_run ops))) \<and> pq_low q' = pq_low (queue_run ops))) \<and>
   (\<forall>before i between j rest. ops = before @ OpPush i # between @ OpPush j # rest \<longrightarrow> qe_NodeName i = qe_NodeName j \<longrightarrow>
      snd (classifyForEnqueue i (pq_state (queue_run before))) = queuePriorityHigh \<longrightarrow>
      snd (classifyForEnqueue j (pq_state (queue_run (before @ OpPush i # between)))) = queuePriorityHigh \<longrightarrow>
      (\<exists>op \<in> set between. frees (qe_NodeName i) (representativeKey i) op))"
proof (intro conjI allI impI)
  show "popped_from lane ops newNodeEventPriorityQueue @ lane_items lane (queue_run ops) = pushed_to lane ops newNodeEventPriorityQueue"
    using lane_conserved [of lane ops newNodeEventPriorityQueue]
    by (cases lane) (simp_all add: queue_run_def lane_items_def newNodeEventPriorityQueue_def)
  show "Pop (queue_run ops) = None \<longleftrightarrow> Len (queue_run ops) = 0" by (auto simp: Pop_def Len_def split: list.splits)
  show "\<exists>q'. Pop (queue_run ops) = Some (q', hd (pq_high (queue_run ops))) \<and> pq_low q' = pq_low (queue_run ops)"
    if "pq_high (queue_run ops) \<noteq> []" using that by (auto simp: Pop_def split: list.splits)
next
  fix before between rest :: "'a queue_op list" and i j :: "'a NodeEvent"
  let ?q = "queue_run before"
  assume same: "qe_NodeName i = qe_NodeName j"
    and i: "snd (classifyForEnqueue i (pq_state ?q)) = queuePriorityHigh"
    and j: "snd (classifyForEnqueue j (pq_state (queue_run (before @ OpPush i # between)))) = queuePriorityHigh"
  have run: "queue_run (before @ OpPush i # between) = fold queue_step between (Push i ?q)" by (simp add: queue_run_def)
  show "\<exists>op \<in> set between. frees (qe_NodeName i) (representativeKey i) op"
  proof (rule ccontr)
    assume "\<not> ?thesis"
    then have "represented (qe_NodeName i) (representativeKey i) (queue_run (before @ OpPush i # between))"
      unfolding run by (intro represented_run high_push(1) [OF i]) blast
    with high_push(2) [OF j] same show False by simp
  qed
qed

definition small_item :: "string \<Rightarrow> nat NodeEvent" where
  "small_item e = \<lparr>qe_NodeName = ''a'', qe_EventID = e, qe_DocumentID = 0, qe_hasStores = True\<rparr>"

theorem queue_lanes_witness:
  "popped_from queuePriorityHigh [OpPush (small_item ''1''), OpPop, OpRelease (small_item ''1''), OpPush (small_item ''2'')] newNodeEventPriorityQueue @
     lane_items queuePriorityHigh (queue_run [OpPush (small_item ''1''), OpPop, OpRelease (small_item ''1''), OpPush (small_item ''2'')]) =
     [small_item ''1'', small_item ''2''] \<and>
   (\<exists>op \<in> set [OpPop, OpRelease (small_item ''1'')]. frees ''a'' (representativeKey (small_item ''1'')) op)"
proof -
  let ?ops = "[OpPush (small_item ''1''), OpPop, OpRelease (small_item ''1''), OpPush (small_item ''2'')]"
  note lanes = queue_lanes [of queuePriorityHigh ?ops]
  have "pushed_to queuePriorityHigh ?ops newNodeEventPriorityQueue = [small_item ''1'', small_item ''2'']" by code_simp
  moreover have "snd (classifyForEnqueue (small_item ''1'') (pq_state (queue_run []))) = queuePriorityHigh" by code_simp
  moreover have "snd (classifyForEnqueue (small_item ''2'') (pq_state (queue_run ([] @ OpPush (small_item ''1'') # [OpPop, OpRelease (small_item ''1'')])))) =
      queuePriorityHigh" by code_simp
  ultimately show ?thesis
    using lanes [THEN conjunct1] lanes [THEN conjunct2, THEN conjunct2, THEN conjunct2, rule_format, of "[]" "small_item ''1''"
        "[OpPop, OpRelease (small_item ''1'')]" "small_item ''2''" "[]"]
    by (simp add: small_item_def)
qed

end
