(* ===== verification/Drain_Worker.thy ===== *)
theory Drain_Worker
  imports Custom_Drain Drain_Queue State_Manager
begin

text \<open>
  The worker of node-drainer (\<^verbatim>\<open>node-drainer/pkg/reconciler/reconciler.go\<close> and \<^verbatim>\<open>pkg/queue/worker.go\<close>): it takes
  an event from the queue, reads its document, asks the evaluator for the next action, carries it out, and
  either records a terminal status or puts the event back.

  The watcher of the change stream tracks cancellations in a table that the worker reads and
  writes under a lock; cancellations that arrive while an event is processed are an argument,
  given for each point between two such accesses. A handler may panic, on a nil label map or a nil
  event. Documents are of type \<^verbatim>\<open>'doc\<close> with ids of type \<^verbatim>\<open>'id\<close>; decoding them, the database and the
  work queue of the Kubernetes client are arguments. A time is in nanoseconds since Go's zero time.
\<close>

section \<open>Documents\<close>

definition StatusNotStarted :: Status where "StatusNotStarted = ''NotStarted''"
definition StatusInProgress :: Status where "StatusInProgress = ''InProgress''"

record raw_event =
  raw_CreatedAt :: int
  raw_HealthEvent :: "health_event option"
  raw_Status :: "HealthEventStatus option"

record ('doc, 'id) document_codec =
  decode_normalized :: "'doc \<Rightarrow> error + raw_event"
  decode_generic :: "'doc \<Rightarrow> error + raw_event"
  eviction_message :: "'doc \<Rightarrow> string"
  ExtractDocumentIDNative :: "'doc \<Rightarrow> error + 'id"
  ExtractDocumentID :: "'doc \<Rightarrow> error + string"
  ExtractEventID :: "'doc \<Rightarrow> string"
  id_text :: "'id \<Rightarrow> string"
  ensure_id :: "'id \<Rightarrow> 'doc \<Rightarrow> 'doc"

datatype 'id filter_value = FIs 'id | FNe string

datatype update_value = UText string | UMap "(string, string) gomap" | UTime int

type_synonym 'id document_filter = "(string, 'id filter_value) gomap"
type_synonym document_update = "(string, update_value) gomap"

definition ParseHealthEventFromEvent :: "('doc, 'id) document_codec \<Rightarrow> 'doc \<Rightarrow> error + HealthEventWithStatus" where
  "ParseHealthEventFromEvent cd event =
     (case decode_normalized cd event of
        Inl e \<Rightarrow> Inl e
      | Inr raw \<Rightarrow>
          (case raw_HealthEvent raw of
             None \<Rightarrow> Inl (EText ''health event is nil after unmarshaling'')
           | Some he \<Rightarrow>
               (case raw_Status raw of
                  None \<Rightarrow> Inl (EText ''health event status is nil after unmarshaling'')
                | Some st \<Rightarrow> Inr \<lparr>ev_CreatedAt = raw_CreatedAt raw, ev_HealthEvent = he,
                    ev_HealthEventStatus = Some (if NodeQuarantined st = [] then st\<lparr>NodeQuarantined := StatusNotStarted\<rparr> else st)\<rparr>)))"

section \<open>Cancellations\<close>

record eventStatus =
  es_status :: Status
  es_createdAt :: int

type_synonym eventStatusMap = "(string, eventStatus) gomap"

record tracker =
  nodeEventsMap :: "(string, eventStatusMap) gomap"
  cancelledNodes :: "(string, int) gomap"

definition node_events :: "tracker \<Rightarrow> string \<Rightarrow> eventStatusMap" where
  "node_events t nodeName = (case map_of (nodeEventsMap t) nodeName of None \<Rightarrow> [] | Some m \<Rightarrow> m)"

definition track :: "string \<Rightarrow> string \<Rightarrow> eventStatus \<Rightarrow> tracker \<Rightarrow> tracker" where
  "track eventID nodeName es t =
     t\<lparr>nodeEventsMap := AList.update nodeName (AList.update eventID es (node_events t nodeName)) (nodeEventsMap t)\<rparr>"

definition eventAtOrBeforeCutoff :: "int \<Rightarrow> int \<Rightarrow> bool" where
  "eventAtOrBeforeCutoff eventCreatedAt cutoff \<longleftrightarrow> eventCreatedAt = 0 \<or> cutoff = 0 \<or> \<not> eventCreatedAt > cutoff"

definition cancellationCutoffFrom :: "int \<Rightarrow> int option \<Rightarrow> int" where
  "cancellationCutoffFrom now eventCreatedAt =
     (case eventCreatedAt of None \<Rightarrow> now | Some t \<Rightarrow> if t = 0 then now else t)"

definition markSpecificEventCancelledLocked :: "string \<Rightarrow> string \<Rightarrow> tracker \<Rightarrow> tracker" where
  "markSpecificEventCancelledLocked eventID nodeName t = track eventID nodeName \<lparr>es_status = Cancelled, es_createdAt = 0\<rparr> t"

definition cancelTrackedEventsAtOrBeforeCutoffLocked :: "string \<Rightarrow> int \<Rightarrow> tracker \<Rightarrow> tracker" where
  "cancelTrackedEventsAtOrBeforeCutoffLocked nodeName cutoff t =
     (case map_of (nodeEventsMap t) nodeName of
        None \<Rightarrow> t
      | Some eventsMap \<Rightarrow>
          t\<lparr>nodeEventsMap := AList.update nodeName
              (map (\<lambda>(evtID, tracked). (evtID, if eventAtOrBeforeCutoff (es_createdAt tracked) cutoff
                 then \<lparr>es_status = Cancelled, es_createdAt = es_createdAt tracked\<rparr> else tracked)) eventsMap) (nodeEventsMap t)\<rparr>)"

definition handleUnQuarantinedCancellationLocked :: "int \<Rightarrow> string \<Rightarrow> int option \<Rightarrow> tracker \<Rightarrow> tracker" where
  "handleUnQuarantinedCancellationLocked now nodeName eventCreatedAt t =
     (let cutoff = cancellationCutoffFrom now eventCreatedAt
      in cancelTrackedEventsAtOrBeforeCutoffLocked nodeName cutoff
           (t\<lparr>cancelledNodes := AList.update nodeName cutoff (cancelledNodes t)\<rparr>))"

definition HandleCancellation :: "int \<Rightarrow> string \<Rightarrow> string \<Rightarrow> Status \<Rightarrow> int option \<Rightarrow> tracker \<Rightarrow> tracker" where
  "HandleCancellation now eventID nodeName status eventCreatedAt t =
     (if status = Cancelled then markSpecificEventCancelledLocked eventID nodeName t
      else if status = UnQuarantined then handleUnQuarantinedCancellationLocked now nodeName eventCreatedAt t
      else t)"

definition isEventCancelled :: "string \<Rightarrow> string \<Rightarrow> Status option \<Rightarrow> int \<Rightarrow> tracker \<Rightarrow> tracker \<times> bool" where
  "isEventCancelled eventID nodeName nodeQuarantinedStatus eventCreatedAt t =
     (let isUnQuarantinedEvent = (nodeQuarantinedStatus = Some UnQuarantined);
          atNode = (case map_of (cancelledNodes t) nodeName of
            None \<Rightarrow> False | Some cutoff \<Rightarrow> eventAtOrBeforeCutoff eventCreatedAt cutoff) in
      if \<not> isUnQuarantinedEvent \<and> atNode then
        ((if map_of (node_events t nodeName) eventID = None
          then track eventID nodeName \<lparr>es_status = Cancelled, es_createdAt = eventCreatedAt\<rparr> t
          else t), True)
      else
        (t, case map_of (node_events t nodeName) eventID of
              None \<Rightarrow> False | Some tracked \<Rightarrow> es_status tracked = Cancelled))"

definition markEventInProgress :: "string \<Rightarrow> string \<Rightarrow> int \<Rightarrow> tracker \<Rightarrow> tracker" where
  "markEventInProgress eventID nodeName eventCreatedAt t =
     track eventID nodeName \<lparr>es_status = StatusInProgress, es_createdAt = eventCreatedAt\<rparr> t"

definition clearEventStatus :: "string \<Rightarrow> string \<Rightarrow> tracker \<Rightarrow> tracker" where
  "clearEventStatus eventID nodeName t =
     (case map_of (nodeEventsMap t) nodeName of
        None \<Rightarrow> t
      | Some eventsMap \<Rightarrow>
          (let eventsMap' = AList.delete eventID eventsMap
           in t\<lparr>nodeEventsMap := (if eventsMap' = [] then AList.delete nodeName (nodeEventsMap t)
                else AList.update nodeName eventsMap' (nodeEventsMap t))\<rparr>))"

definition isTimeoutEvictionCancelled :: "string \<Rightarrow> string \<Rightarrow> int \<Rightarrow> tracker \<Rightarrow> bool" where
  "isTimeoutEvictionCancelled eventID nodeName eventCreatedAt t \<longleftrightarrow>
     (case map_of (node_events t nodeName) eventID of None \<Rightarrow> False | Some tracked \<Rightarrow> es_status tracked = Cancelled) \<or>
     (case map_of (cancelledNodes t) nodeName of None \<Rightarrow> False | Some cutoff \<Rightarrow> eventAtOrBeforeCutoff eventCreatedAt cutoff)"

record cancellation =
  cn_eventID :: string
  cn_nodeName :: string
  cn_status :: Status
  cn_createdAt :: "int option"
  cn_now :: int

definition apply_cancellation :: "cancellation \<Rightarrow> tracker \<Rightarrow> tracker" where
  "apply_cancellation c = HandleCancellation (cn_now c) (cn_eventID c) (cn_nodeName c) (cn_status c) (cn_createdAt c)"

section \<open>The worker's state\<close>

record ('w, 'id) worker_state =
  ws_world :: 'w
  ws_tracker :: tracker
  ws_queue :: "'id nodeEventPriorityQueue"

record ('w, 'doc, 'id) drain_reconciler =
  dr_evaluator :: "'w NodeDrainEvaluator"
  dr_healthEventStore :: "('w, 'doc) event_store"
  dr_codec :: "('doc, 'id) document_codec"
  dr_UpdateDocument :: "'w \<Rightarrow> 'id document_filter \<Rightarrow> document_update \<Rightarrow> 'w \<times> error option"
  dr_FindDocument :: "'w \<Rightarrow> 'id \<Rightarrow> error + error + error + 'doc"
  dr_onError :: "'w on_error"
  dr_nodes :: "'w NodeClient"
  dr_customDrainClient :: "'w Client option"
  isNoKindMatch :: "error \<Rightarrow> bool"
  dr_error_text :: "error \<Rightarrow> string"
  dr_now :: "'w \<Rightarrow> int"
  dr_span :: "'w \<Rightarrow> string"

abbreviation dr_informers :: "('w, 'doc, 'id) drain_reconciler \<Rightarrow> 'w Informers" where
  "dr_informers r \<equiv> informers (dr_evaluator r)"

type_synonym ('w, 'id) handler = "('w, 'id) worker_state \<Rightarrow> ('w, 'id) worker_state \<times> completion"

definition with_tracker :: "(tracker \<Rightarrow> tracker) \<Rightarrow> ('w, 'id) worker_state \<Rightarrow> ('w, 'id) worker_state" where
  "with_tracker f s = s\<lparr>ws_tracker := f (ws_tracker s)\<rparr>"

definition arrive :: "cancellation list \<Rightarrow> ('w, 'id) worker_state \<Rightarrow> ('w, 'id) worker_state" where
  "arrive cs = with_tracker (fold apply_cancellation cs)"

definition with_nodes :: "(nodePriorityState \<Rightarrow> nodePriorityState) \<Rightarrow> ('w, 'id) worker_state \<Rightarrow> ('w, 'id) worker_state" where
  "with_nodes f s = s\<lparr>ws_queue := (ws_queue s)\<lparr>pq_state := f (pq_state (ws_queue s))\<rparr>\<rparr>"

definition update_state_label ::
  "('w, 'doc, 'id) drain_reconciler \<Rightarrow> string \<Rightarrow> NVSentinelStateLabelValue \<Rightarrow> bool \<Rightarrow> ('w, 'id) worker_state
     \<Rightarrow> ('w, 'id) worker_state \<times> bool \<times> completion" where
  "update_state_label r nodeName val remove s =
     (let ((w, modified), c) = UpdateNVSentinelStateNodeLabel (dr_onError r) (dr_nodes r) nodeName val remove (ws_world s)
      in (s\<lparr>ws_world := w\<rparr>, modified, c))"

definition updateNodeDrainStatus :: "('w, 'doc, 'id) drain_reconciler \<Rightarrow> string \<Rightarrow> Status \<Rightarrow> bool \<Rightarrow> ('w, 'id) handler" where
  "updateNodeDrainStatus r nodeName nodeQuarantined isDraining s =
     (if nodeQuarantined = UnQuarantined then
        (case update_state_label r nodeName DrainingLabelValue True s of
           (s1, _, Panicked) \<Rightarrow> (s1, Panicked)
         | (s1, _, Returned (Some _)) \<Rightarrow> (s1, Returned None)
         | (s1, _, Returned None) \<Rightarrow> (with_nodes (clearNodeDraining nodeName) s1, Returned None))
      else if isDraining then
        (case update_state_label r nodeName DrainingLabelValue False s of
           (s1, _, Panicked) \<Rightarrow> (s1, Panicked)
         | (s1, _, Returned (Some _)) \<Rightarrow> (s1, Returned None)
         | (s1, _, Returned None) \<Rightarrow> (with_nodes (markNodeDraining nodeName) s1, Returned None))
      else (s, Returned None))"

definition evictionStatusPath :: string where
  "evictionStatusPath = ''healtheventstatus.userpodsevictionstatus''"

definition evicted_update :: "('w, 'doc, 'id) drain_reconciler \<Rightarrow> 'doc \<Rightarrow> Status \<Rightarrow> 'w \<Rightarrow> document_update" where
  "evicted_update r event status w =
     (let fields = [(evictionStatusPath, UMap [(''status'', status), (''message'', eviction_message (dr_codec r) event)]),
            (''healtheventstatus.spanids.node-drainer'', UText (dr_span r w))]
      in if status = StatusSucceeded \<or> status = AlreadyDrained
         then fields @ [(''healtheventstatus.drainfinishtimestamp'', UTime (dr_now r w))] else fields)"

definition updateNodeUserPodsEvictedStatus :: "('w, 'doc, 'id) drain_reconciler \<Rightarrow> 'doc \<Rightarrow> Status \<Rightarrow> ('w, 'id) handler" where
  "updateNodeUserPodsEvictedStatus r event status s =
     (case ExtractDocumentIDNative (dr_codec r) event of
        Inl e \<Rightarrow> (s, Returned (Some (EWrap ''failed to extract document ID'' e)))
      | Inr documentID \<Rightarrow>
          (let (w, err) = dr_UpdateDocument r (ws_world s) [(''_id'', FIs documentID)] (evicted_update r event status (ws_world s))
           in (s\<lparr>ws_world := w\<rparr>, Returned (map_option (EWrap ''error updating document'') err))))"

definition deleteCustomDrainCRIfEnabled :: "('w, 'doc, 'id) drain_reconciler \<Rightarrow> string \<Rightarrow> 'doc \<Rightarrow> ('w, 'id) handler" where
  "deleteCustomDrainCRIfEnabled r nodeName event s =
     (if \<not> cd_Enabled (CustomDrain (config (dr_evaluator r))) then (s, Returned None)
      else case ExtractDocumentID (dr_codec r) event of
          Inl _ \<Rightarrow> (s, Returned None)
        | Inr eventID \<Rightarrow>
            (case dr_customDrainClient r of
               None \<Rightarrow> (s, Panicked)
             | Some c \<Rightarrow> (s\<lparr>ws_world := fst (DeleteDrainCR c (GenerateCRName nodeName eventID) (ws_world s))\<rparr>, Returned None)))"

section \<open>Actions\<close>

definition missing_status :: error where
  "missing_status = EText ''missing UserPodsEvictionStatus''"

definition executeSkip :: "('w, 'doc, 'id) drain_reconciler \<Rightarrow> string \<Rightarrow> HealthEventStatus \<Rightarrow> 'doc \<Rightarrow> ('w, 'id) handler" where
  "executeSkip r nodeName st event s =
     (if NodeQuarantined st = UnQuarantined then
        (if UserPodsEvictionStatus st = None then (s, Returned (Some missing_status))
         else case updateNodeUserPodsEvictedStatus r event StatusSucceeded s of
             (s1, Returned None) \<Rightarrow> updateNodeDrainStatus r nodeName (NodeQuarantined st) False s1
           | (s1, Returned (Some e)) \<Rightarrow> (s1, Returned (Some (EWrap (''failed to update MongoDB status for node '' @ nodeName) e)))
           | (s1, Panicked) \<Rightarrow> (s1, Panicked))
      else updateNodeDrainStatus r nodeName (NodeQuarantined st) False s)"

definition executeMarkAlreadyDrained :: "('w, 'doc, 'id) drain_reconciler \<Rightarrow> HealthEventStatus \<Rightarrow> 'doc \<Rightarrow> Status \<Rightarrow> ('w, 'id) handler" where
  "executeMarkAlreadyDrained r st event status s =
     (if UserPodsEvictionStatus st = None then (s, Returned (Some missing_status))
      else updateNodeUserPodsEvictedStatus r event status s)"

definition handleMarkAlreadyDrained ::
  "('w, 'doc, 'id) drain_reconciler \<Rightarrow> string \<Rightarrow> string \<Rightarrow> HealthEventStatus \<Rightarrow> 'doc \<Rightarrow> Status \<Rightarrow> ('w, 'id) handler" where
  "handleMarkAlreadyDrained r eventID nodeName st event status s =
     (case executeMarkAlreadyDrained r st event status (with_tracker (clearEventStatus eventID nodeName) s) of
        (s1, Returned None) \<Rightarrow> deleteCustomDrainCRIfEnabled r nodeName event s1
      | (s1, c) \<Rightarrow> (s1, c))"

definition executeCancelStatus :: "('w, 'doc, 'id) drain_reconciler \<Rightarrow> string \<Rightarrow> HealthEventStatus \<Rightarrow> 'doc \<Rightarrow> Status \<Rightarrow> ('w, 'id) handler" where
  "executeCancelStatus r nodeName st event status s =
     (if UserPodsEvictionStatus st = None then (s, Returned (Some missing_status))
      else case updateNodeUserPodsEvictedStatus r event status s of
          (s1, Returned (Some e)) \<Rightarrow> (s1, Returned (Some (EWrap (''failed to update cancelled status for node '' @ nodeName) e)))
        | (s1, c) \<Rightarrow> (s1, c))"

definition executeUpdateStatus :: "('w, 'doc, 'id) drain_reconciler \<Rightarrow> string \<Rightarrow> HealthEventStatus \<Rightarrow> 'doc \<Rightarrow> Status \<Rightarrow> ('w, 'id) handler" where
  "executeUpdateStatus r nodeName st event status s =
     (if UserPodsEvictionStatus st = None then (s, Returned (Some missing_status))
      else
        let terminalDrainLabelValue = (if status = StatusFailed then DrainFailedLabelValue else DrainSucceededLabelValue) in
        case update_state_label r nodeName terminalDrainLabelValue False s of
          (s1, _, Panicked) \<Rightarrow> (s1, Panicked)
        | (s1, modified, Returned (Some e)) \<Rightarrow>
            if \<not> modified then (s1, Returned (Some (EWrap (''failed to update node '' @ nodeName @ '' label to '' @ terminalDrainLabelValue) e)))
            else updateNodeUserPodsEvictedStatus r event status s1
        | (s1, _, Returned None) \<Rightarrow>
            updateNodeUserPodsEvictedStatus r event status (with_nodes (clearNodeDraining nodeName) s1))"

fun evict_namespaces ::
  "'w Informers \<Rightarrow> string list \<Rightarrow> string \<Rightarrow> int \<Rightarrow> entity option \<Rightarrow> PodFilter option \<Rightarrow> 'w \<Rightarrow> 'w \<times> error option" where
  "evict_namespaces i [] nodeName timeout partialDrainEntity podFilter w = (w, None)"
| "evict_namespaces i (namespace # rest) nodeName timeout partialDrainEntity podFilter w =
     (case EvictAllPodsInImmediateMode i w namespace nodeName timeout partialDrainEntity [podFilter] of
        (w1, Some e) \<Rightarrow> (w1, Some (EWrap (''failed immediate eviction for namespace '' @ namespace @ '' on node '' @ nodeName) e))
      | (w1, None) \<Rightarrow> evict_namespaces i rest nodeName timeout partialDrainEntity podFilter w1)"

definition executeImmediateEviction ::
  "('w, 'doc, 'id) drain_reconciler \<Rightarrow> DrainActionResult \<Rightarrow> string \<Rightarrow> ('w, 'id) handler" where
  "executeImmediateEviction r action nodeName s =
     (let (w, err) = evict_namespaces (dr_informers r) (Namespaces action) nodeName (Timeout action)
            (ResultEntity action) (ResultFilter action) (ws_world s)
      in (s\<lparr>ws_world := w\<rparr>, Returned (Some (case err of
            Some e \<Rightarrow> e | None \<Rightarrow> EText ''immediate eviction completed, requeuing for status verification''))))"

definition whole_minutes :: "int \<Rightarrow> int" where
  "whole_minutes d = (if 0 \<le> d then d div minute else - ((- d) div minute))"

definition executeTimeoutEviction ::
  "(nat \<Rightarrow> cancellation list) \<Rightarrow> ('w, 'doc, 'id) drain_reconciler \<Rightarrow> DrainActionResult \<Rightarrow> HealthEventWithStatus \<Rightarrow> string \<Rightarrow> ('w, 'id) handler" where
  "executeTimeoutEviction arrivals r action healthEvent eventID s0 =
     (let nodeName = NodeName (ev_HealthEvent healthEvent); timeoutMinutes = whole_minutes (Timeout action); s = arrive (arrivals 1) s0 in
      if isTimeoutEvictionCancelled eventID nodeName (ev_CreatedAt healthEvent) (ws_tracker s) then (s, Returned None)
      else
        let (w, err) = DeletePodsAfterTimeout (dr_informers r) (ws_world s) nodeName (Namespaces action) timeoutMinutes
              (ev_CreatedAt healthEvent) (ResultEntity action) [ResultFilter action];
            s1 = arrive (arrivals 2) (s\<lparr>ws_world := w\<rparr>) in
        case err of
          Some e \<Rightarrow>
            if isTimeoutEvictionCancelled eventID nodeName (ev_CreatedAt healthEvent) (ws_tracker s1) then (s1, Returned None)
            else (s1, Returned (Some (EWrap (''failed timeout eviction for node '' @ nodeName) e)))
        | None \<Rightarrow> (s1, Returned (Some (EText ''timeout eviction initiated, requeuing for status verification''))))"

fun remaining_pods ::
  "'w Informers \<Rightarrow> string list \<Rightarrow> string \<Rightarrow> entity option \<Rightarrow> PodFilter option \<Rightarrow> 'w \<Rightarrow> 'w \<times> (error + string list)" where
  "remaining_pods i [] nodeName partialDrainEntity podFilter w = (w, Inr [])"
| "remaining_pods i (namespace # rest) nodeName partialDrainEntity podFilter w =
     (case FindEvictablePodsInNamespaceAndNode i w namespace nodeName partialDrainEntity [podFilter] of
        (w1, Inl e) \<Rightarrow> (w1, Inl (EWrap (''failed to check pods in namespace '' @ namespace @ '' on node '' @ nodeName) e))
      | (w1, Inr pods) \<Rightarrow>
          (case remaining_pods i rest nodeName partialDrainEntity podFilter w1 of
             (w2, Inl e) \<Rightarrow> (w2, Inl e)
           | (w2, Inr names) \<Rightarrow> (w2, Inr (map (\<lambda>p. namespace @ ''/'' @ p_Name p) pods @ names))))"

definition executeCheckCompletion :: "('w, 'doc, 'id) drain_reconciler \<Rightarrow> DrainActionResult \<Rightarrow> string \<Rightarrow> ('w, 'id) handler" where
  "executeCheckCompletion r action nodeName s =
     (case remaining_pods (dr_informers r) (Namespaces action) nodeName (ResultEntity action) (ResultFilter action) (ws_world s) of
        (w, Inl e) \<Rightarrow> (s\<lparr>ws_world := w\<rparr>, Returned (Some e))
      | (w, Inr remainingPods) \<Rightarrow>
          if remainingPods \<noteq> [] then
            (let (w', _) = UpdateNodeEvent (dr_informers r) w nodeName ''AwaitingPodCompletion''
                   (''Waiting for following pods to finish: ['' @ join_spaces (sort remainingPods) @ '']'')
             in (s\<lparr>ws_world := w'\<rparr>, Returned (Some (EText (''waiting for pods to complete: '' @ fmt_nat (length remainingPods) @ '' pods remaining'')))))
          else (s\<lparr>ws_world := w\<rparr>, Returned (Some (EText ''pod completion verified, requeuing for status update''))))"

section \<open>Custom drain\<close>

fun pods_to_drain ::
  "'w Informers \<Rightarrow> string list \<Rightarrow> string \<Rightarrow> entity option \<Rightarrow> (string, string list) gomap \<Rightarrow> 'w \<Rightarrow> 'w \<times> (error + (string, string list) gomap)" where
  "pods_to_drain i [] nodeName partialDrainEntity acc w = (w, Inr acc)"
| "pods_to_drain i (ns # rest) nodeName partialDrainEntity acc w =
     (case FindEvictablePodsInNamespaceAndNode i w ns nodeName partialDrainEntity [] of
        (w1, Inl e) \<Rightarrow> (w1, Inl (EWrap (''failed to find evictable pods in namespace '' @ ns @ '' on node '' @ nodeName) e))
      | (w1, Inr pods) \<Rightarrow>
          pods_to_drain i rest nodeName partialDrainEntity (if pods \<noteq> [] then AList.update ns (map p_Name pods) acc else acc) w1)"

definition setDrainFailedStatus :: "('w, 'doc, 'id) drain_reconciler \<Rightarrow> 'doc \<Rightarrow> string \<Rightarrow> ('w, 'id) handler" where
  "setDrainFailedStatus r event reason s =
     (case ExtractDocumentIDNative (dr_codec r) event of
        Inl e \<Rightarrow> (s, Returned (Some (EWrap ''failed to extract document ID'' e)))
      | Inr documentID \<Rightarrow>
          (let (w, err) = dr_UpdateDocument r (ws_world s) [(''_id'', FIs documentID)]
                 [(evictionStatusPath, UMap [(''status'', StatusFailed), (''message'', reason)]),
                  (''healtheventstatus.spanids.node-drainer'', UText (dr_span r (ws_world s)))]
           in (s\<lparr>ws_world := w\<rparr>, Returned (map_option (EWrap ''failed to update MongoDB drain failed status'') err))))"

definition handleCustomDrainCRCreationError ::
  "('w, 'doc, 'id) drain_reconciler \<Rightarrow> error \<Rightarrow> string \<Rightarrow> 'doc \<Rightarrow> ('w, 'id) handler" where
  "handleCustomDrainCRCreationError r err nodeName event s =
     (if \<not> isNoKindMatch r err then (s, Returned (Some (EWrap (''failed to create custom drain CR for node '' @ nodeName) err)))
      else case setDrainFailedStatus r event (''Custom drain CRD not found: '' @ dr_error_text r err) s of
          (s1, Panicked) \<Rightarrow> (s1, Panicked)
        | (s1, Returned (Some e)) \<Rightarrow> (s1, Returned (Some (EWrap ''failed to update drain failed status'' e)))
        | (s1, Returned None) \<Rightarrow>
            (case update_state_label r nodeName DrainFailedLabelValue False s1 of
               (s2, _, Panicked) \<Rightarrow> (s2, Panicked)
             | (s2, _, Returned (Some e)) \<Rightarrow> (s2, Returned (Some (EWrap ''failed to update node label to drain-failed'' e)))
             | (s2, _, Returned None) \<Rightarrow> (with_nodes (clearNodeDraining nodeName) s2, Returned None)))"

definition executeCustomDrain ::
  "('w, 'doc, 'id) drain_reconciler \<Rightarrow> DrainActionResult \<Rightarrow> health_event \<Rightarrow> 'doc \<Rightarrow> ('w, 'id) handler" where
  "executeCustomDrain r action healthEvent event s =
     (case ExtractDocumentID (dr_codec r) event of
        Inl e \<Rightarrow> (s, Returned (Some (EWrap ''failed to extract document ID for custom drain'' e)))
      | Inr eventID \<Rightarrow>
          (case pods_to_drain (dr_informers r) (Namespaces action) (NodeName healthEvent) (ResultEntity action) [] (ws_world s) of
             (w, Inl e) \<Rightarrow> (s\<lparr>ws_world := w\<rparr>, Returned (Some e))
           | (w, Inr podsToDrain) \<Rightarrow>
               (case dr_customDrainClient r of
                  None \<Rightarrow> (s\<lparr>ws_world := w\<rparr>, Panicked)
                | Some c \<Rightarrow>
                    (let (w', got) = CreateDrainCR c \<lparr>td_HealthEvent = healthEvent, td_EventID = eventID, td_PodsToDrain = podsToDrain\<rparr> w;
                         s' = s\<lparr>ws_world := w'\<rparr> in
                     case got of
                       Inl e \<Rightarrow> handleCustomDrainCRCreationError r e (NodeName healthEvent) event s'
                     | Inr crName \<Rightarrow> (s', Returned (Some (EText (''waiting for custom drain CR to complete: '' @ crName))))))))"

section \<open>Processing an event\<close>

definition isTerminalAction :: "DrainAction \<Rightarrow> bool" where
  "isTerminalAction a \<longleftrightarrow> a \<in> {ActionSkip, ActionMarkAlreadyDrained, ActionUpdateStatus, ActionCancel}"

definition unknown_action :: error where
  "unknown_action = EText ''unknown action''"

definition executeTerminalAction ::
  "('w, 'doc, 'id) drain_reconciler \<Rightarrow> DrainActionResult \<Rightarrow> HealthEventWithStatus \<Rightarrow> HealthEventStatus \<Rightarrow> 'doc \<Rightarrow> string \<Rightarrow> ('w, 'id) handler" where
  "executeTerminalAction r action healthEvent st event eventID s =
     (let nodeName = NodeName (ev_HealthEvent healthEvent); cleared = with_tracker (clearEventStatus eventID nodeName) s in
      case Action action of
        ActionSkip \<Rightarrow> executeSkip r nodeName st event cleared
      | ActionMarkAlreadyDrained \<Rightarrow> handleMarkAlreadyDrained r eventID nodeName st event (ResultStatus action) s
      | ActionUpdateStatus \<Rightarrow> executeUpdateStatus r nodeName st event (ResultStatus action) cleared
      | ActionCancel \<Rightarrow> executeCancelStatus r nodeName st event (ResultStatus action) cleared
      | _ \<Rightarrow> (s, Returned (Some unknown_action)))"

definition and_then :: "('w, 'id) worker_state \<times> completion \<Rightarrow> ('w, 'id) handler \<Rightarrow> ('w, 'id) worker_state \<times> completion" where
  "and_then p h = (case p of (s, Panicked) \<Rightarrow> (s, Panicked) | (s, _) \<Rightarrow> h s)"

definition executeDrainAction ::
  "(nat \<Rightarrow> cancellation list) \<Rightarrow> ('w, 'doc, 'id) drain_reconciler \<Rightarrow> DrainActionResult \<Rightarrow> HealthEventWithStatus \<Rightarrow> HealthEventStatus
     \<Rightarrow> 'doc \<Rightarrow> string \<Rightarrow> ('w, 'id) handler" where
  "executeDrainAction arrivals r action healthEvent st event eventID s =
     (let nodeName = NodeName (ev_HealthEvent healthEvent); draining = updateNodeDrainStatus r nodeName (NodeQuarantined st) True s in
      case Action action of
        ActionWait \<Rightarrow> (s, Returned (Some (EText ''waiting for retry delay'')))
      | ActionCreateCR \<Rightarrow> and_then draining (executeCustomDrain r action (ev_HealthEvent healthEvent) event)
      | ActionEvictImmediate \<Rightarrow> and_then draining (executeImmediateEviction r action nodeName)
      | ActionEvictWithTimeout \<Rightarrow> and_then draining (executeTimeoutEviction arrivals r action healthEvent eventID)
      | ActionCheckCompletion \<Rightarrow> and_then draining (executeCheckCompletion r action nodeName)
      | _ \<Rightarrow> (s, Returned (Some unknown_action)))"

definition executeAction ::
  "(nat \<Rightarrow> cancellation list) \<Rightarrow> ('w, 'doc, 'id) drain_reconciler \<Rightarrow> DrainActionResult \<Rightarrow> HealthEventWithStatus \<Rightarrow> HealthEventStatus
     \<Rightarrow> 'doc \<Rightarrow> string \<Rightarrow> ('w, 'id) handler" where
  "executeAction arrivals r action healthEvent st event eventID s =
     (if isTerminalAction (Action action) then executeTerminalAction r action healthEvent st event eventID s
      else executeDrainAction arrivals r action healthEvent st event eventID s)"

definition handleCancelledEvent ::
  "('w, 'doc, 'id) drain_reconciler \<Rightarrow> string \<Rightarrow> HealthEventStatus \<Rightarrow> 'doc \<Rightarrow> string \<Rightarrow> ('w, 'id) handler" where
  "handleCancelledEvent r nodeName st event eventID s0 =
     (let s = with_tracker (clearEventStatus eventID nodeName) s0 in
      if UserPodsEvictionStatus st = None then (s, Returned (Some missing_status))
      else case updateNodeUserPodsEvictedStatus r event Cancelled s of
          (s1, Panicked) \<Rightarrow> (s1, Panicked)
        | (s1, Returned (Some e)) \<Rightarrow>
            (s1, Returned (Some (EWrap (''failed to update MongoDB status for cancelled event on node '' @ nodeName) e)))
        | (s1, Returned None) \<Rightarrow>
            and_then (deleteCustomDrainCRIfEnabled r nodeName event s1) (\<lambda>s2.
              case update_state_label r nodeName DrainingLabelValue True s2 of
                (s3, _, Panicked) \<Rightarrow> (s3, Panicked)
              | (s3, _, Returned (Some _)) \<Rightarrow> (s3, Returned None)
              | (s3, _, Returned None) \<Rightarrow> (with_nodes (clearNodeDraining nodeName) s3, Returned None)))"

text \<open>An event without an id gets that of its document.\<close>

definition with_document_id :: "('doc, 'id) document_codec \<Rightarrow> 'doc \<Rightarrow> HealthEventWithStatus \<Rightarrow> HealthEventWithStatus" where
  "with_document_id cd event he =
     (if Id (ev_HealthEvent he) = [] then
        (case ExtractDocumentID cd event of
           Inl _ \<Rightarrow> he | Inr docID \<Rightarrow> he\<lparr>ev_HealthEvent := (ev_HealthEvent he)\<lparr>Id := docID\<rparr>\<rparr>)
      else he)"

definition ProcessEventGeneric ::
  "(nat \<Rightarrow> cancellation list) \<Rightarrow> ('w, 'doc, 'id) drain_reconciler \<Rightarrow> 'doc \<Rightarrow> string \<Rightarrow> ('w, 'id) handler" where
  "ProcessEventGeneric arrivals r event nodeName s =
     (case ParseHealthEventFromEvent (dr_codec r) event of
        Inl e \<Rightarrow> (s, Returned (Some e))
      | Inr parsed \<Rightarrow>
          (case ev_HealthEventStatus parsed of
             None \<Rightarrow> (s, Panicked)
           | Some st \<Rightarrow>
               (let eventID = ExtractEventID (dr_codec r) event; he = with_document_id (dr_codec r) event parsed;
                    (t, cancelled) = isEventCancelled eventID nodeName (Some (NodeQuarantined st)) (ev_CreatedAt he) (ws_tracker s);
                    s1 = s\<lparr>ws_tracker := t\<rparr> in
                if cancelled then handleCancelledEvent r nodeName st event eventID s1
                else
                  let s2 = with_tracker (markEventInProgress eventID nodeName (ev_CreatedAt he)) (arrive (arrivals 0) s1);
                      (w, got) = EvaluateEventWithDatabase (dr_evaluator r) (dr_healthEventStore r) (ws_world s2) he;
                      s3 = s2\<lparr>ws_world := w\<rparr> in
                  case got of
                    Inl e \<Rightarrow> (s3, Returned (Some (EWrap ''failed to evaluate event'' e)))
                  | Inr action \<Rightarrow> executeAction arrivals r action he st event eventID s3)))"

section \<open>Enqueueing\<close>

record ('s, 'id) work_queue =
  wq_Add :: "'id NodeEvent \<Rightarrow> 's \<Rightarrow> 's"
  wq_Get :: "'s \<Rightarrow> 's \<times> 'id NodeEvent option"
  wq_Done :: "'id NodeEvent \<Rightarrow> 's \<Rightarrow> 's"
  wq_Forget :: "'id NodeEvent \<Rightarrow> 's \<Rightarrow> 's"
  wq_AddRateLimited :: "'id NodeEvent \<Rightarrow> 's \<Rightarrow> 's"
  wq_ctxErr :: "'s \<Rightarrow> error option"
  wq_shutdown :: "'s \<Rightarrow> bool"

type_synonym ('w, 'id) worker_queue = "(('w, 'id) worker_state, 'id) work_queue"

definition EnqueueEventGeneric ::
  "('w, 'id) worker_queue \<Rightarrow> ('doc, 'id) document_codec \<Rightarrow> string \<Rightarrow> 'doc \<Rightarrow> 'id \<Rightarrow> ('w, 'id) handler" where
  "EnqueueEventGeneric q cd nodeName event documentID s =
     (case wq_ctxErr q s of
        Some e \<Rightarrow> (s, Returned (Some (EWrap (''context cancelled while enqueueing event for node '' @ nodeName) e)))
      | None \<Rightarrow>
          if wq_shutdown q s then (s, Returned (Some (EText ''queue is shutting down'')))
          else (wq_Add q \<lparr>qe_NodeName = nodeName, qe_EventID = ExtractEventID cd event, qe_DocumentID = documentID, qe_hasStores = True\<rparr> s,
                Returned None))"

definition handleEventCancellation :: "int \<Rightarrow> string \<Rightarrow> string \<Rightarrow> Status \<Rightarrow> int \<Rightarrow> tracker \<Rightarrow> tracker \<times> bool" where
  "handleEventCancellation now eventID nodeName status eventCreatedAt t =
     (if status = Cancelled then (HandleCancellation now eventID nodeName Cancelled None t, True)
      else if status = UnQuarantined then (HandleCancellation now eventID nodeName UnQuarantined (Some eventCreatedAt) t, False)
      else (t, False))"

definition setInitialStatusAndEnqueue ::
  "('w, 'id) worker_queue \<Rightarrow> ('w, 'doc, 'id) drain_reconciler \<Rightarrow> 'doc \<Rightarrow> 'id \<Rightarrow> string \<Rightarrow> ('w, 'id) handler" where
  "setInitialStatusAndEnqueue q r document documentID nodeName s =
     (let (w, err) = dr_UpdateDocument r (ws_world s)
            [(''_id'', FIs documentID), (evictionStatusPath @ ''.status'', FNe StatusInProgress)]
            [(evictionStatusPath @ ''.status'', UText StatusInProgress)];
          s1 = s\<lparr>ws_world := w\<rparr> in
      case err of
        Some e \<Rightarrow> (s1, Returned (Some (EWrap ''failed to update initial status'' e)))
      | None \<Rightarrow> EnqueueEventGeneric q (dr_codec r) nodeName document documentID s1)"

definition PreprocessAndEnqueueEvent ::
  "('w, 'id) worker_queue \<Rightarrow> ('w, 'doc, 'id) drain_reconciler \<Rightarrow> (error + 'doc) \<Rightarrow> ('w, 'id) handler" where
  "PreprocessAndEnqueueEvent q r got s =
     (case got of
        Inl e \<Rightarrow> (s, Returned (Some (EWrap ''failed to unmarshal event document'' e)))
      | Inr document \<Rightarrow>
          (case decode_generic (dr_codec r) document of
             Inl e \<Rightarrow> (s, Returned (Some (EWrap ''failed to extract health event with status'' e)))
           | Inr raw \<Rightarrow>
               (case (raw_HealthEvent raw, raw_Status raw) of
                  (Some he, Some st) \<Rightarrow>
                    (case ExtractDocumentIDNative (dr_codec r) document of
                       Inl e \<Rightarrow> (s, Returned (Some (EWrap ''failed to extract document ID'' e)))
                     | Inr documentID \<Rightarrow>
                         if (case UserPodsEvictionStatus st of None \<Rightarrow> False | Some x \<Rightarrow> isTerminalStatus x) then (s, Returned None)
                         else
                           let (t, shouldSkip) = handleEventCancellation (dr_now r (ws_world s)) (id_text (dr_codec r) documentID)
                                 (NodeName he) (NodeQuarantined st) (raw_CreatedAt raw) (ws_tracker s);
                               s1 = s\<lparr>ws_tracker := t\<rparr> in
                           if shouldSkip then (s1, Returned None)
                           else setInitialStatusAndEnqueue q r document documentID (NodeName he) s1)
                | _ \<Rightarrow> (s, Panicked))))"

section \<open>The worker loop\<close>

definition fetchEventFromDB :: "('w, 'doc, 'id) drain_reconciler \<Rightarrow> 'id \<Rightarrow> 'w \<Rightarrow> error + 'doc" where
  "fetchEventFromDB r documentID w =
     (case dr_FindDocument r w documentID of
        Inl e \<Rightarrow> Inl (EWrap ''failed to fetch event from database'' e)
      | Inr (Inl e) \<Rightarrow> Inl (EWrap ''event not found in database'' e)
      | Inr (Inr (Inl e)) \<Rightarrow> Inl (EWrap ''failed to decode event'' e)
      | Inr (Inr (Inr event)) \<Rightarrow> Inr (ensure_id (dr_codec r) documentID event))"

text \<open>The result says whether the loop goes on; after a panic there is none.\<close>

definition processNextWorkItem ::
  "(nat \<Rightarrow> cancellation list) \<Rightarrow> ('w, 'id) worker_queue \<Rightarrow> ('w, 'doc, 'id) drain_reconciler \<Rightarrow> ('w, 'id) worker_state
     \<Rightarrow> ('w, 'id) worker_state \<times> bool option" where
  "processNextWorkItem arrivals q r s =
     (case wq_Get q s of
        (s1, None) \<Rightarrow> (s1, Some False)
      | (s1, Some nodeEvent) \<Rightarrow>
          (let finish = (\<lambda>s. wq_Done q nodeEvent (with_nodes (releaseRepresentative nodeEvent) s)) in
           if \<not> qe_hasStores nodeEvent then (finish (wq_Forget q nodeEvent s1), Some True)
           else case fetchEventFromDB r (qe_DocumentID nodeEvent) (ws_world s1) of
               Inl _ \<Rightarrow> (finish (wq_AddRateLimited q nodeEvent s1), Some True)
             | Inr event \<Rightarrow>
                 (case ProcessEventGeneric arrivals r event (qe_NodeName nodeEvent) s1 of
                    (s2, Panicked) \<Rightarrow> (finish s2, None)
                  | (s2, Returned (Some _)) \<Rightarrow> (finish (wq_AddRateLimited q nodeEvent s2), Some True)
                  | (s2, Returned None) \<Rightarrow> (finish (wq_Forget q nodeEvent s2), Some True))))"

end
