(* ===== verification/Drain_Scope.thy ===== *)
theory Drain_Scope
  imports Drain_Evaluator
begin

text \<open>
  Which pods a drain covers: the selection made by the loops of the informers is the set given
  by one predicate, it fails rather than miss a pod whose device use is unknown, and making it
  on the trimmed objects of the cache gives the same pods as making it on the full objects.
\<close>

section \<open>The selection as a predicate\<close>

definition on_node :: "string \<Rightarrow> string \<Rightarrow> pod \<Rightarrow> bool" where
  "on_node namespace nodeName pod \<longleftrightarrow>
     p_NodeName pod \<noteq> [] \<and> p_NodeName pod = nodeName \<and> p_Namespace pod = namespace"

definition eligible :: "'w Informers \<Rightarrow> int \<Rightarrow> entity option \<Rightarrow> PodFilter option list \<Rightarrow> pod \<Rightarrow> bool" where
  "eligible i now en fs pod \<longleftrightarrow>
     (\<forall>f. Some f \<in> set fs \<longrightarrow> f pod) \<and>
     (\<forall>owner \<in> set (p_OwnerReferences pod). or_Kind owner \<noteq> ''DaemonSet'') \<and>
     p_Phase pod \<noteq> ''Succeeded'' \<and> p_Phase pod \<noteq> ''Failed'' \<and>
     (en = None \<longrightarrow> \<not> isPodStuckInTerminating now pod \<and> \<not> isPodNotReady (notReadyTimeoutMinutes i) now pod)"

definition annotated :: "pod \<Rightarrow> bool" where
  "annotated pod \<longleftrightarrow> map_of (p_Annotations pod) PodDeviceAnnotationName \<noteq> None"

definition uses_device :: "'w Informers \<Rightarrow> entity \<Rightarrow> pod \<Rightarrow> bool" where
  "uses_device i en pod \<longleftrightarrow>
     (\<exists>text devices names rn ds. map_of (p_Annotations pod) PodDeviceAnnotationName = Some text \<and>
        decode_devices (cluster i) text = Inr devices \<and>
        map_of EntityTypeToResourceNames (EntityType en) = Some names \<and> rn \<in> set names \<and>
        map_of devices rn = Some ds \<and> EntityValue en \<in> set ds)"

definition drain_covers :: "'w Informers \<Rightarrow> 'w \<Rightarrow> entity option \<Rightarrow> PodFilter option list \<Rightarrow> pod \<Rightarrow> bool" where
  "drain_covers i w en fs pod \<longleftrightarrow>
     eligible i (time_now (cluster i) w) en fs pod \<and>
     (case en of
        None \<Rightarrow> drainGPUPods i \<longrightarrow> annotated pod \<or> isPodRequestingDevices i w pod GPU_resource_names = Inr True
      | Some entity \<Rightarrow> uses_device i entity pod)"

section \<open>The loops\<close>

lemma filter_entity_loop_Inr:
  "filter_entity_loop uses pods = Inr kept \<longleftrightarrow>
     (\<forall>p \<in> set pods. \<exists>b. uses p = Inr b) \<and> kept = filter (\<lambda>p. uses p = Inr True) pods"
proof (induction pods arbitrary: kept)
  case (Cons p pods)
  then show ?case using Cons.IH [of "filter (\<lambda>p. uses p = Inr True) pods"]
    by (cases "uses p"; cases "filter_entity_loop uses pods") auto
qed auto

lemma filterPodsWithGPURequests_loop:
  "filterPodsWithGPURequests i w pods =
     filter_entity_loop (\<lambda>pod. if annotated pod then Inr True
       else (case isPodRequestingDevices i w pod GPU_resource_names of
          Inl e \<Rightarrow> Inl (EWrap (''failed to check GPU requests for pod '' @ p_Name pod) e) | Inr b \<Rightarrow> Inr b)) pods"
  by (induction pods) (auto simp: annotated_def split: sum.splits)

lemma filterPodsWithGPURequests_Inr:
  "filterPodsWithGPURequests i w pods = Inr kept \<longleftrightarrow>
     (\<forall>p \<in> set pods. annotated p \<or> (\<exists>b. isPodRequestingDevices i w p GPU_resource_names = Inr b)) \<and>
     kept = filter (\<lambda>p. annotated p \<or> isPodRequestingDevices i w p GPU_resource_names = Inr True) pods"
  unfolding filterPodsWithGPURequests_loop filter_entity_loop_Inr
  by (intro conj_cong ball_cong arg_cong2 [where f = "(=)"] filter_cong)
    (auto split: sum.splits if_splits)

lemma pod_uses_entity_Inr:
  assumes "map_of EntityTypeToResourceNames (EntityType en) = Some names"
  shows "pod_uses_entity i w names en pod = Inr b \<longleftrightarrow>
     (if annotated pod
      then (\<exists>text devices. map_of (p_Annotations pod) PodDeviceAnnotationName = Some text \<and>
              decode_devices (cluster i) text = Inr devices \<and>
              b = isPodUsingPartialDrainEntity devices names en)
      else isPodRequestingDevices i w pod names = Inr False \<and> \<not> b)"
  by (auto simp: pod_uses_entity_def annotated_def split: option.splits sum.splits bool.splits)

lemma pod_uses_entity_True:
  assumes "map_of EntityTypeToResourceNames (EntityType en) = Some names"
  shows "pod_uses_entity i w names en pod = Inr True \<longleftrightarrow> uses_device i en pod"
  unfolding pod_uses_entity_Inr [OF assms] uses_device_def isPodUsingPartialDrainEntity_def annotated_def
  using assms by (auto simp: list_ex_iff split: option.splits) (metis not_None_eq option.inject sum.inject(2))+

lemma filterEvictablePods_eligible:
  "filterEvictablePods i now en (filter (\<lambda>pod. matchesPodFilters pod fs) pods) = filter (eligible i now en fs) pods"
  unfolding filterEvictablePods_def filter_filter
  by (rule filter_cong) (auto simp: eligible_def matchesPodFilters_def isDaemonSetOwned_def list_all_iff
      list_ex_iff split: option.splits)

lemma by_index_namespace:
  assumes "CHR ''/'' \<notin> set namespace" and "\<forall>p \<in> set cached. CHR ''/'' \<notin> set (p_Namespace p)"
  shows "by_index NamespaceNodeIndexFunc (namespace @ CHR ''/'' # nodeName) cached = filter (on_node namespace nodeName) cached"
  unfolding by_index_def
proof (rule filter_cong)
  fix p
  assume "p \<in> set cached"
  with assms have "CHR ''/'' \<notin> set (p_Namespace p)" by blast
  with assms(1) show "(namespace @ CHR ''/'' # nodeName \<in> set (NamespaceNodeIndexFunc p)) = on_node namespace nodeName p"
    using append_sep_eq [of namespace "CHR ''/''" nodeName "p_Namespace p" "p_NodeName p"]
    by (auto simp: NamespaceNodeIndexFunc_def on_node_def)
qed simp

lemma evictable_pods_Inr:
  "evictable_pods i w namespace nodeName en fs cached = Inr pods \<longleftrightarrow>
     (let objs = filter (eligible i (time_now (cluster i) w) en fs)
                   (by_index NamespaceNodeIndexFunc (namespace @ ''/'' @ nodeName) cached) in
      case en of
        None \<Rightarrow> if drainGPUPods i then filterPodsWithGPURequests i w objs = Inr pods else pods = objs
      | Some entity \<Rightarrow>
          (\<exists>names. map_of EntityTypeToResourceNames (EntityType entity) = Some names \<and>
             filter_entity_loop (pod_uses_entity i w names entity) objs = Inr pods))"
  by (auto simp: evictable_pods_def Let_def filterPodsUsingEntity_def filterEvictablePods_eligible
      split: sum.splits option.splits)

text \<open>
  When the pods of a namespace and node can be listed, they are exactly the cached pods
  of that namespace and node that pass the filters, are not owned by a DaemonSet, have not
  completed, in a full drain are neither stuck in termination nor unready past the timeout and
  (where only GPU pods are drained) carry a device annotation or request a GPU, and in a
  partial drain are assigned the entity. A partial drain that lists pods at all knows of every
  eligible pod without a device annotation that it requests no such device.
\<close>
theorem evictable_pods_exact:
  assumes "FindEvictablePodsInNamespaceAndNode i w namespace nodeName en fs = (w1, Inr pods)"
    and "CHR ''/'' \<notin> set namespace"
    and "read_pods (cluster i) w = (w1, Inr cached)"
    and "\<forall>p \<in> set cached. CHR ''/'' \<notin> set (p_Namespace p)"
  shows "pods = filter (\<lambda>p. on_node namespace nodeName p \<and> drain_covers i w1 en fs p) cached \<and>
    (\<forall>entity. en = Some entity \<longrightarrow>
       (\<exists>names. map_of EntityTypeToResourceNames (EntityType entity) = Some names \<and>
          (\<forall>p \<in> set cached. on_node namespace nodeName p \<longrightarrow> eligible i (time_now (cluster i) w1) en fs p \<longrightarrow>
             annotated p \<or> isPodRequestingDevices i w1 p names = Inr False)))"
proof (cases en)
  case None
  with assms have "if drainGPUPods i
      then filterPodsWithGPURequests i w1 (filter (eligible i (time_now (cluster i) w1) None fs)
             (filter (on_node namespace nodeName) cached)) = Inr pods
      else pods = filter (eligible i (time_now (cluster i) w1) None fs) (filter (on_node namespace nodeName) cached)"
    by (simp add: FindEvictablePodsInNamespaceAndNode_def evictable_pods_Inr by_index_namespace Let_def)
  then show ?thesis using None
    by (auto simp: filterPodsWithGPURequests_Inr drain_covers_def conj_ac split: if_splits intro!: filter_cong)
next
  case (Some entity)
  let ?objs = "filter (eligible i (time_now (cluster i) w1) en fs) (filter (on_node namespace nodeName) cached)"
  from assms Some obtain names where names: "map_of EntityTypeToResourceNames (EntityType entity) = Some names"
    and loop: "filter_entity_loop (pod_uses_entity i w1 names entity) ?objs = Inr pods"
    by (auto simp: FindEvictablePodsInNamespaceAndNode_def evictable_pods_Inr by_index_namespace Let_def)
  from loop have known: "\<forall>p \<in> set ?objs. \<exists>b. pod_uses_entity i w1 names entity p = Inr b"
    and pods: "pods = filter (uses_device i entity) ?objs"
    by (simp_all add: filter_entity_loop_Inr pod_uses_entity_True [OF names])
  have "annotated p \<or> isPodRequestingDevices i w1 p names = Inr False" if "p \<in> set ?objs" for p
    using known that by (auto simp: pod_uses_entity_Inr [OF names] split: if_splits)
  with pods Some names show ?thesis
    by (auto simp: drain_covers_def conj_ac intro!: filter_cong)
qed

section \<open>Deciding on the objects of the cache\<close>

lemma retain_keys_lookup:
  "map_of (retain_keys keys m) k = (if k \<in> set keys then map_of m k else None)"
proof -
  have "map_of (fold (\<lambda>key kept. case map_of m key of None \<Rightarrow> kept | Some v \<Rightarrow> AList.update key v kept) keys acc) k =
      (if k \<in> set keys \<and> map_of m k \<noteq> None then map_of m k else map_of acc k)" for acc
    by (induction keys arbitrary: acc) (auto simp: update_conv' split: option.splits)
  from this [of "[]"] show ?thesis by (auto simp: retain_keys_def)
qed

named_theorems trimmed \<open>what the trimmed object of a pod keeps\<close>

lemma trimmed_fields [trimmed]:
  "p_Name (drainEligiblePodCacheObject keys p) = p_Name p"
  "p_Namespace (drainEligiblePodCacheObject keys p) = p_Namespace p"
  "p_NodeName (drainEligiblePodCacheObject keys p) = p_NodeName p"
  "p_Phase (drainEligiblePodCacheObject keys p) = p_Phase p"
  "p_UID (drainEligiblePodCacheObject keys p) = p_UID p"
  "p_ResourceVersion (drainEligiblePodCacheObject keys p) = p_ResourceVersion p"
  "p_ResourceClaims (drainEligiblePodCacheObject keys p) = p_ResourceClaims p"
  "p_ResourceClaimStatuses (drainEligiblePodCacheObject keys p) = p_ResourceClaimStatuses p"
  "p_DeletionTimestamp (drainEligiblePodCacheObject keys p) = p_DeletionTimestamp p"
  "p_TerminationGracePeriodSeconds (drainEligiblePodCacheObject keys p) = p_TerminationGracePeriodSeconds p"
  by (simp_all add: drainEligiblePodCacheObject_def)

lemma trimmed_annotation [trimmed]:
  "map_of (p_Annotations (drainEligiblePodCacheObject keys p)) PodDeviceAnnotationName =
     map_of (p_Annotations p) PodDeviceAnnotationName"
  by (simp add: drainEligiblePodCacheObject_def split: option.splits)

lemma trimmed_daemon_set [trimmed]:
  "isDaemonSetOwned (p_OwnerReferences (drainEligiblePodCacheObject keys p)) = isDaemonSetOwned (p_OwnerReferences p)"
  by (simp add: drainEligiblePodCacheObject_def isDaemonSetOwned_def list_ex_iff)

lemma trimmed_stuck [trimmed]:
  "isPodStuckInTerminating now (drainEligiblePodCacheObject keys p) = isPodStuckInTerminating now p"
  by (simp add: isPodStuckInTerminating_def trimmed split: option.splits)

lemma trimmed_not_ready [trimmed]:
  "isPodNotReady t now (drainEligiblePodCacheObject keys p) = isPodNotReady t now p"
  by (auto simp: drainEligiblePodCacheObject_def isPodNotReady_def trimPodReadyConditions_def list_ex_iff)

lemma trimmed_deadline [trimmed]:
  "past_deadline now t (drainEligiblePodCacheObject keys p) = past_deadline now t p"
  by (simp add: past_deadline_def trimmed split: option.splits)

lemma trimContainers_requesting: "areContainersRequestingDevice (trimContainers cs) ns = areContainersRequestingDevice cs ns"
  by (simp add: areContainersRequestingDevice_def trimContainers_def list_ex_iff)

lemma trimmed_claiming:
  "claiming_loop i w (drainEligiblePodCacheObject keys p) ns claims = claiming_loop i w p ns claims"
  by (induction claims)
    (simp_all add: getPodResourceClaimSpec_def bound_claim_name_def trimmed split: sum.splits option.splits)

lemma trimmed_requesting [trimmed]:
  "isPodRequestingDevices i w (drainEligiblePodCacheObject keys p) ns = isPodRequestingDevices i w p ns"
proof -
  have "p_Containers (drainEligiblePodCacheObject keys p) = trimContainers (p_Containers p)"
    and "p_InitContainers (drainEligiblePodCacheObject keys p) = trimContainers (p_InitContainers p)"
    by (simp_all add: drainEligiblePodCacheObject_def)
  then show ?thesis
    by (simp add: isPodRequestingDevices_def isPodClaimingDeviceClass_def trimContainers_requesting
        trimmed_claiming trimmed)
qed

lemma trimmed_uses_entity [trimmed]:
  "pod_uses_entity i w names en (drainEligiblePodCacheObject keys p) = pod_uses_entity i w names en p"
  by (simp add: pod_uses_entity_def trimmed split: option.splits sum.splits bool.splits)

text \<open>
  The documented behaviour of a label selector: whether it matches depends only on the labels
  that its requirements name.
\<close>

definition selector_local :: "selector \<Rightarrow> bool" where
  "selector_local sel \<longleftrightarrow> (\<forall>m m'. (\<forall>k \<in> set (sel_Keys sel). map_of m k = map_of m' k) \<longrightarrow> sel_Matches sel m = sel_Matches sel m')"

definition selectors_local :: "label_lang \<Rightarrow> bool" where
  "selectors_local l \<longleftrightarrow> (\<forall>s sel. labels_Parse l s = Inr sel \<longrightarrow> selector_local sel)"

lemma selector_local_Everything: "selector_local Everything"
  by (simp add: selector_local_def Everything_def)

lemma compile_policies_keys:
  "compile_policies l ps names keys compiled = Inr (cs, ks) \<Longrightarrow>
     set keys \<subseteq> set ks \<and> set compiled \<subseteq> set cs \<and>
     (\<forall>c \<in> set cs. c \<in> set compiled \<or>
        (set (sel_Keys (cp_selector c)) \<subseteq> set ks \<and>
         (\<exists>p \<in> set ps. compilePodDrainPolicy l p = Inr c)))"
proof (induction ps arbitrary: names keys compiled)
  case (Cons p ps)
  then obtain c where c: "compilePodDrainPolicy l p = Inr c"
    and rest: "compile_policies l ps (pdp_Name p # names) (fold List.insert (sel_Keys (cp_selector c)) keys) (compiled @ [c]) = Inr (cs, ks)"
    by (auto split: if_splits sum.splits)
  have ins: "set (fold List.insert xs ys) = set xs \<union> set ys" for xs ys :: "string list"
    by (induction xs arbitrary: ys) auto
  from Cons.IH [OF rest] c show ?case by (auto simp: ins)
qed auto

lemma compilePodDrainPolicy_mode:
  "compilePodDrainPolicy l p = Inr c \<Longrightarrow> cp_mode c \<in> {ModeImmediateEvict, ModeAllowCompletion, ModeDeleteAfterTimeout}"
  by (auto simp: compilePodDrainPolicy_def Let_def split: if_splits sum.splits)

lemma compilePodDrainPolicy_local:
  "selectors_local l \<Longrightarrow> compilePodDrainPolicy l p = Inr c \<Longrightarrow> selector_local (cp_selector c)"
  unfolding selectors_local_def
  by (auto simp: compilePodDrainPolicy_def Let_def selector_local_Everything split: if_splits sum.splits)

lemma compiled_policy:
  assumes "CompilePodDrainPolicies l ps = Inr m" and "c \<in> set (policies m)"
  obtains p where "p \<in> set ps" "compilePodDrainPolicy l p = Inr c" "set (sel_Keys (cp_selector c)) \<subseteq> set (LabelKeys m)"
  using assms compile_policies_keys [of l ps "[]" "[]" "[]"]
  by (auto simp: CompilePodDrainPolicies_def LabelKeys_def split: sum.splits) blast

lemma find_cong: "(\<And>x. x \<in> set xs \<Longrightarrow> P x = Q x) \<Longrightarrow> List.find P xs = List.find Q xs"
  by (induction xs) auto

lemma trimmed_owner [trimmed]: "matchesOwner c (drainEligiblePodCacheObject keys p) = matchesOwner c p"
proof -
  let ?trim = "\<lambda>owner. \<lparr>or_Kind = or_Kind owner, or_Name = [], or_Controller = or_Controller owner\<rparr>"
  have refs: "p_OwnerReferences (drainEligiblePodCacheObject keys p) = map ?trim (p_OwnerReferences p)"
    by (simp add: drainEligiblePodCacheObject_def)
  have "List.find (\<lambda>owner. or_Controller owner = Some True) (map ?trim owners) =
      map_option ?trim (List.find (\<lambda>owner. or_Controller owner = Some True) owners)" for owners
    by (induction owners) auto
  then have controller: "List.find (\<lambda>owner. or_Controller owner = Some True)
        (p_OwnerReferences (drainEligiblePodCacheObject keys p)) =
      map_option ?trim (List.find (\<lambda>owner. or_Controller owner = Some True) (p_OwnerReferences p))"
    unfolding refs .
  show ?thesis unfolding matchesOwner_def controller by (simp split: option.splits)
qed

lemma trimmed_match:
  assumes "selectors_local l" and "CompilePodDrainPolicies l ps = Inr m"
  shows "Match l m (drainEligiblePodCacheObject (LabelKeys m) p) = Match l m p"
proof -
  have "policy_matches l (drainEligiblePodCacheObject (LabelKeys m) p) c = policy_matches l p c"
    if c: "c \<in> set (policies m)" for c
  proof -
    from compiled_policy [OF assms(2) c] obtain q where q: "compilePodDrainPolicy l q = Inr c"
      and keys: "set (sel_Keys (cp_selector c)) \<subseteq> set (LabelKeys m)" by blast
    from compilePodDrainPolicy_local [OF assms(1) q] have "selector_local (cp_selector c)" .
    moreover have "p_Labels (drainEligiblePodCacheObject (LabelKeys m) p) = retain_keys (LabelKeys m) (p_Labels p)"
      by (simp add: drainEligiblePodCacheObject_def)
    ultimately have "sel_Matches (cp_selector c) (p_Labels (drainEligiblePodCacheObject (LabelKeys m) p)) =
        sel_Matches (cp_selector c) (p_Labels p)"
      using keys unfolding selector_local_def by (metis retain_keys_lookup subsetD)
    then show ?thesis by (simp add: policy_matches_def trimmed)
  qed
  then show ?thesis unfolding Match_def by (metis (no_types, lifting) find_cong)
qed

text \<open>A filter that decides the same on a pod and on its trimmed object.\<close>

definition trim_invariant :: "string list \<Rightarrow> PodFilter option list \<Rightarrow> bool" where
  "trim_invariant keys fs \<longleftrightarrow> (\<forall>f p. Some f \<in> set fs \<longrightarrow> f (drainEligiblePodCacheObject keys p) = f p)"

lemma trimmed_eligible:
  "trim_invariant keys fs \<Longrightarrow> eligible i now en fs (drainEligiblePodCacheObject keys p) = eligible i now en fs p"
proof -
  assume "trim_invariant keys fs"
  then have "(\<forall>f. Some f \<in> set fs \<longrightarrow> f (drainEligiblePodCacheObject keys p)) = (\<forall>f. Some f \<in> set fs \<longrightarrow> f p)"
    unfolding trim_invariant_def by blast
  then show ?thesis using trimmed_daemon_set [of keys p]
    unfolding eligible_def trimmed isDaemonSetOwned_def list_ex_iff by blast
qed

lemma filter_entity_loop_map:
  "(\<And>p. p \<in> set pods \<Longrightarrow> uses (f p) = uses p) \<Longrightarrow>
     filter_entity_loop uses (map f pods) = map_sum id (map f) (filter_entity_loop uses pods)"
  by (induction pods) (auto split: sum.splits)

text \<open>
  The cached objects of a namespace and node come from the pods of that namespace and node
  that no DaemonSet owns: the others are reduced to their identity and not indexed.
\<close>

lemma cached_index:
  assumes "CHR ''/'' \<notin> set namespace" and "\<forall>p \<in> set pods. CHR ''/'' \<notin> set (p_Namespace p)"
    and "case regex of None \<Rightarrow> True | Some matches \<Rightarrow> \<not> matches namespace"
  shows "filter (eligible i now en fs) (by_index NamespaceNodeIndexFunc (namespace @ CHR ''/'' # nodeName)
           (map (excludedPodTransform regex keys) pods)) =
     filter (eligible i now en fs) (map (drainEligiblePodCacheObject keys)
       (filter (\<lambda>p. on_node namespace nodeName p \<and> \<not> isDaemonSetOwned (p_OwnerReferences p)) pods))"
proof -
  let ?sys = "\<lambda>p. case regex of None \<Rightarrow> False | Some matches \<Rightarrow> matches (p_Namespace p)"
  have ns: "p_Namespace (excludedPodTransform regex keys p) = p_Namespace p" for p
    by (simp add: excludedPodTransform_def Let_def trimmed)
  have sys: "on_node namespace nodeName p \<Longrightarrow> \<not> ?sys p" for p
    using assms(3) by (auto simp: on_node_def split: option.splits)
  have node: "on_node namespace nodeName (excludedPodTransform regex keys p) =
      (on_node namespace nodeName p \<and> \<not> isDaemonSetOwned (p_OwnerReferences p))" for p
    using sys [of p] by (auto simp: excludedPodTransform_def Let_def on_node_def trimmed zero_pod_def)
  have "by_index NamespaceNodeIndexFunc (namespace @ CHR ''/'' # nodeName) (map (excludedPodTransform regex keys) pods) =
      filter (on_node namespace nodeName) (map (excludedPodTransform regex keys) pods)"
    by (rule by_index_namespace [OF assms(1)]) (use assms(2) ns in auto)
  also have "\<dots> = map (excludedPodTransform regex keys)
      (filter (\<lambda>p. on_node namespace nodeName p \<and> \<not> isDaemonSetOwned (p_OwnerReferences p)) pods)"
    by (simp add: filter_map comp_def node)
  also have "\<dots> = map (drainEligiblePodCacheObject keys)
      (filter (\<lambda>p. on_node namespace nodeName p \<and> \<not> isDaemonSetOwned (p_OwnerReferences p)) pods)"
    using sys by (intro map_cong refl) (auto simp: excludedPodTransform_def Let_def)
  finally show ?thesis by simp
qed

definition select_pods :: "'w Informers \<Rightarrow> 'w \<Rightarrow> entity option \<Rightarrow> pod list \<Rightarrow> error + pod list" where
  "select_pods i w en objs =
     (case (if drainGPUPods i \<and> en = None then filterPodsWithGPURequests i w objs else Inr objs) of
        Inl e \<Rightarrow> Inl (EWrap ''failed to filter pods with GPU requests'' e)
      | Inr pods2 \<Rightarrow>
          (case filterPodsUsingEntity i w en pods2 of
             Inl e \<Rightarrow> Inl (EWrap ''failed to filter pods using entity'' e)
           | Inr pods3 \<Rightarrow> Inr pods3))"

lemma evictable_pods_select:
  "evictable_pods i w namespace nodeName en fs cached =
     select_pods i w en (filter (eligible i (time_now (cluster i) w) en fs)
       (by_index NamespaceNodeIndexFunc (namespace @ CHR ''/'' # nodeName) cached))"
  by (simp add: evictable_pods_def select_pods_def Let_def filterEvictablePods_eligible)

lemma select_pods_trimmed:
  "select_pods i w en (map (drainEligiblePodCacheObject keys) objs) =
     map_sum id (map (drainEligiblePodCacheObject keys)) (select_pods i w en objs)"
proof (cases en)
  case None
  have "filterPodsWithGPURequests i w (map (drainEligiblePodCacheObject keys) objs) =
      map_sum id (map (drainEligiblePodCacheObject keys)) (filterPodsWithGPURequests i w objs)"
    unfolding filterPodsWithGPURequests_loop
    by (rule filter_entity_loop_map) (simp add: annotated_def trimmed split: sum.splits)
  with None show ?thesis
    by (cases "filterPodsWithGPURequests i w objs") (simp_all add: select_pods_def filterPodsUsingEntity_def)
next
  case (Some entity)
  have loop: "filter_entity_loop (pod_uses_entity i w names entity) (map (drainEligiblePodCacheObject keys) objs) =
      map_sum id (map (drainEligiblePodCacheObject keys)) (filter_entity_loop (pod_uses_entity i w names entity) objs)"
    for names
    by (rule filter_entity_loop_map) (simp add: trimmed)
  show ?thesis
  proof (cases "map_of EntityTypeToResourceNames (EntityType entity)")
    case (Some names)
    with \<open>en = Some entity\<close> loop [of names] show ?thesis
      by (cases "filter_entity_loop (pod_uses_entity i w names entity) objs")
        (simp_all add: select_pods_def filterPodsUsingEntity_def)
  qed (simp add: Some select_pods_def filterPodsUsingEntity_def)
qed

lemma evictable_on_cache:
  assumes inv: "trim_invariant keys fs"
    and ns: "CHR ''/'' \<notin> set namespace" "\<forall>p \<in> set pods. CHR ''/'' \<notin> set (p_Namespace p)"
    and user: "case regex of None \<Rightarrow> True | Some matches \<Rightarrow> \<not> matches namespace"
  shows "evictable_pods i w namespace nodeName en fs (map (excludedPodTransform regex keys) pods) =
     map_sum id (map (drainEligiblePodCacheObject keys)) (evictable_pods i w namespace nodeName en fs pods)"
proof -
  let ?trim = "drainEligiblePodCacheObject keys"
  let ?el = "eligible i (time_now (cluster i) w) en fs"
  have "?el p \<Longrightarrow> \<not> isDaemonSetOwned (p_OwnerReferences p)" for p
    by (auto simp: eligible_def isDaemonSetOwned_def list_ex_iff)
  then have "filter ?el (by_index NamespaceNodeIndexFunc (namespace @ CHR ''/'' # nodeName)
        (map (excludedPodTransform regex keys) pods)) = map ?trim (filter ?el (filter (on_node namespace nodeName) pods))"
    unfolding cached_index [OF ns user]
    by (auto simp: filter_map comp_def trimmed_eligible [OF inv] intro!: arg_cong [where f = "map ?trim"] filter_cong)
  then show ?thesis
    unfolding evictable_pods_select by_index_namespace [OF ns] by (simp only: select_pods_trimmed)
qed

lemma podModeFilter_trimmed:
  assumes "selectors_local (lang e)" and "CompilePodDrainPolicies (lang e) ps = Inr (podPolicies e)"
  shows "podModeFilter e mode force (drainEligiblePodCacheObject (LabelKeys (podPolicies e)) p) =
     podModeFilter e mode force p"
  unfolding podModeFilter_def trimmed_match [OF assms] ..

text \<open>
  Selecting on the cache is selecting on the full objects: for a namespace that is not a
  system namespace, the pods chosen from the trimmed cache objects, with no filter or with
  the filter of the compiled pod policies, are the trimmed objects of the pods chosen from the
  full pods, with the same error when there is one. The cache keeps all that decides.
\<close>
theorem cache_selection_faithful:
  assumes "selectors_local (lang e)" and "CompilePodDrainPolicies (lang e) ps = Inr (podPolicies e)"
    and "fs = [None] \<or> fs = [Some (podModeFilter e mode force)]"
    and "CHR ''/'' \<notin> set namespace" and "\<forall>p \<in> set pods. CHR ''/'' \<notin> set (p_Namespace p)"
    and "case regex of None \<Rightarrow> True | Some matches \<Rightarrow> \<not> matches namespace"
  shows "evictable_pods i w namespace nodeName en fs
       (map (excludedPodTransform regex (LabelKeys (podPolicies e))) pods) =
     map_sum id (map (drainEligiblePodCacheObject (LabelKeys (podPolicies e))))
       (evictable_pods i w namespace nodeName en fs pods)"
proof (rule evictable_on_cache [OF _ assms(4-6)])
  show "trim_invariant (LabelKeys (podPolicies e)) fs"
    using assms(3) podModeFilter_trimmed [OF assms(1,2)] by (auto simp: trim_invariant_def)
qed

section \<open>A small cluster\<close>

text \<open>
  A cluster whose state is the list of its pods, all of them cached: a deletion removes the
  pod, every node carries the annotation text \<^verbatim>\<open>past\<close>, and a device annotation is read as the one
  GPU it names. A selector tests for the presence of a label.
\<close>

definition small_cluster :: "pod list cluster" where
  "small_cluster = \<lparr>
     read_pods = (\<lambda>w. (w, Inr w)),
     read_node = (\<lambda>w n. Inr (Some \<lparr>n_Name = n, n_UID = [], n_ResourceVersion = [], n_Labels = [],
        n_Annotations = [(QuarantineHealthEventAnnotationKey, ''past'')], n_Other = []\<rparr>)),
     time_now = (\<lambda>_. 1000 * minute),
     get_claim = (\<lambda>_ _ _. Inr []),
     decode_devices = (\<lambda>s. Inr [(''nvidia.com/gpu'', [s])]),
     evict_request = (\<lambda>w _ _ _. (w, None)),
     delete_request = (\<lambda>w ns n _. (filter (\<lambda>p. \<not> (p_Namespace p = ns \<and> p_Name p = n)) w, None)),
     record_event = (\<lambda>w _ _ _. w)\<rparr>"

definition small_informers :: "pod list Informers" where
  "small_informers = \<lparr>cluster = small_cluster, notReadyTimeoutMinutes = None, drainGPUPods = False, dryRunMode = []\<rparr>"

definition small_lang :: label_lang where
  "small_lang = \<lparr>
     globs = \<lparr>regexp_compile = (\<lambda>r. Inr (\<lambda>s. s = r)), filepath_match = (\<lambda>p n. Inr (p = ''*'' \<or> p = n))\<rparr>,
     labels_Parse = (\<lambda>s. Inr \<lparr>sel_Matches = (\<lambda>m. map_of m s \<noteq> None), sel_Keys = [s]\<rparr>)\<rparr>"

definition gpu_pod :: pod where
  "gpu_pod = zero_pod\<lparr>p_Name := ''a'', p_Namespace := ''team'', p_NodeName := ''n1'', p_Phase := ''Running'',
     p_Labels := [(''app'', ''x''), (''other'', ''y'')], p_Annotations := [(PodDeviceAnnotationName, ''G1'')]\<rparr>"

definition agent_pod :: pod where
  "agent_pod = gpu_pod\<lparr>p_Name := ''b'', p_OwnerReferences := [\<lparr>or_Kind = ''DaemonSet'', or_Name = ''d'', or_Controller = Some True\<rparr>]\<rparr>"

definition gpu_entity :: entity where
  "gpu_entity = \<lparr>EntityType = ''GPU_UUID'', EntityValue = ''G1''\<rparr>"

definition small_policy :: PodDrainPolicy where
  "small_policy = \<lparr>pdp_Name = ''p'', pdp_Namespace = [], pdp_PodSelector = ''app'', pdp_OwnerKinds = [],
     pdp_Mode = ModeImmediateEvict\<rparr>"

definition small_config :: TomlConfig where
  "small_config = \<lparr>EvictionTimeoutInSeconds = 60 * sec, SystemNamespaces = [], DeleteAfterTimeoutMinutes = 60,
     NotReadyTimeoutMinutes = 5, DrainGPUPods = False, UserNamespaces = [], PodDrainPolicies = [small_policy],
     CustomDrain = \<lparr>cd_Enabled = False, cd_NodeSelector = [], cd_required = [], cd_Timeout = 0\<rparr>,
     PartialDrainEnabled = True\<rparr>"

definition small_matcher :: PodPolicyMatcher where
  "small_matcher = \<lparr>policies = [\<lparr>cp_namespace = ''*'',
      cp_selector = \<lparr>sel_Matches = (\<lambda>m. map_of m ''app'' \<noteq> None), sel_Keys = [''app'']\<rparr>,
      cp_ownerKinds = None, cp_mode = ModeImmediateEvict\<rparr>], labelKeys = [''app'']\<rparr>"

definition small_evaluator :: "pod list NodeDrainEvaluator" where
  "small_evaluator = \<lparr>config = small_config, informers = small_informers, customDrainClient = None,
     podPolicies = small_matcher, customDrainNodes = \<lparr>cm_enabled = False, cm_selector = None, cm_labelKeys = []\<rparr>,
     lang = small_lang, decode_annotation = (\<lambda>s. Inr [zero_event\<lparr>Id := s, NodeName := ''n1''\<rparr>])\<rparr>"

lemma small_compile: "CompilePodDrainPolicies small_lang [small_policy] = Inr small_matcher"
  by (simp add: CompilePodDrainPolicies_def compilePodDrainPolicy_def compileOwnerKinds_def small_policy_def
      small_lang_def small_matcher_def TrimSpace_def is_space_def mode_defs Let_def)

lemma small_local: "selectors_local small_lang"
  by (auto simp: selectors_local_def selector_local_def small_lang_def)

lemmas small_defs = small_informers_def small_cluster_def gpu_pod_def agent_pod_def gpu_entity_def zero_pod_def

lemma small_partial:
  "FindEvictablePodsInNamespaceAndNode small_informers [gpu_pod, agent_pod] ''team'' ''n1'' (Some gpu_entity) [None] =
     ([gpu_pod, agent_pod], Inr [gpu_pod])"
  by (simp add: FindEvictablePodsInNamespaceAndNode_def evictable_pods_def by_index_def NamespaceNodeIndexFunc_def
      matchesPodFilters_def filterEvictablePods_def isDaemonSetOwned_def filterPodsUsingEntity_def
      EntityTypeToResourceNames_def pod_uses_entity_def isPodUsingPartialDrainEntity_def small_defs)

theorem evictable_pods_exact_witness:
  "[gpu_pod] = filter (\<lambda>p. on_node ''team'' ''n1'' p \<and>
     drain_covers small_informers [gpu_pod, agent_pod] (Some gpu_entity) [None] p) [gpu_pod, agent_pod]"
  using evictable_pods_exact [OF small_partial, of "[gpu_pod, agent_pod]"] by (simp add: small_defs)

theorem cache_selection_faithful_witness:
  "evictable_pods small_informers [] ''team'' ''n1'' None [Some (podModeFilter small_evaluator [] False)]
     (map (excludedPodTransform None [''app'']) [gpu_pod, agent_pod]) =
   map_sum id (map (drainEligiblePodCacheObject [''app'']))
     (evictable_pods small_informers [] ''team'' ''n1'' None [Some (podModeFilter small_evaluator [] False)] [gpu_pod, agent_pod])"
proof -
  have keys: "LabelKeys (podPolicies small_evaluator) = [''app'']"
    by (simp add: small_evaluator_def small_matcher_def LabelKeys_def)
  have "selectors_local (lang small_evaluator)" "CompilePodDrainPolicies (lang small_evaluator) [small_policy] = Inr (podPolicies small_evaluator)"
    by (simp_all add: small_evaluator_def small_local small_compile)
  from cache_selection_faithful [OF this, of "[Some (podModeFilter small_evaluator [] False)]" "[]" False "''team''"
      "[gpu_pod, agent_pod]" None small_informers "[]" "''n1''" None]
  show ?thesis unfolding keys by (simp add: gpu_pod_def agent_pod_def)
qed

end
