(* ===== verification/Drain_Properties.thy ===== *)
theory Drain_Properties
  imports Drain_Scope
begin

text \<open>
  Correctness of the drain decision: success is reported only after every namespace in the
  drain scope was seen without a pod to drain, pods are deleted only after their deadline
  and only as observed, and a drain is skipped only on proof of an earlier one.
\<close>

section \<open>Runs\<close>

text \<open>The interactions of a call with the cluster, in order.\<close>

datatype request =
    ReadPods
  | DeletePod string string delete_options
  | EvictPod string string delete_options
  | RecordEvent string string string

inductive runs :: "'w cluster \<Rightarrow> 'w \<Rightarrow> request list \<Rightarrow> 'w \<Rightarrow> bool" for c where
  none: "runs c w [] w"
| read: "\<lbrakk>read_pods c w = (w1, r); runs c w1 acts w'\<rbrakk> \<Longrightarrow> runs c w (ReadPods # acts) w'"
| delete: "\<lbrakk>delete_request c w ns name opts = (w1, r); runs c w1 acts w'\<rbrakk>
     \<Longrightarrow> runs c w (DeletePod ns name opts # acts) w'"
| evict: "\<lbrakk>evict_request c w ns name opts = (w1, r); runs c w1 acts w'\<rbrakk>
     \<Longrightarrow> runs c w (EvictPod ns name opts # acts) w'"
| event: "runs c (record_event c w node reason message) acts w'
     \<Longrightarrow> runs c w (RecordEvent node reason message # acts) w'"

lemma runs_append: "runs c w acts w1 \<Longrightarrow> runs c w1 acts' w' \<Longrightarrow> runs c w (acts @ acts') w'"
  by (induction rule: runs.induct) (auto intro: runs.intros)

lemma read_runs: "read_pods c w = (w', r) \<Longrightarrow> runs c w [ReadPods] w'"
  by (auto intro: runs.intros)

text \<open>During the run from one state to another, the namespace was seen to hold these pods.\<close>

definition observed ::
  "'w Informers \<Rightarrow> 'w \<Rightarrow> 'w \<Rightarrow> string \<Rightarrow> string \<Rightarrow> entity option \<Rightarrow> PodFilter option list \<Rightarrow> pod list \<Rightarrow> bool" where
  "observed i w w' namespace nodeName en fs pods \<longleftrightarrow>
     (\<exists>before wa wb after. runs (cluster i) w before wa \<and>
        FindEvictablePodsInNamespaceAndNode i wa namespace nodeName en fs = (wb, Inr pods) \<and>
        runs (cluster i) wb after w')"

lemma observed_extend:
  assumes "observed i w1 w2 namespace nodeName en fs pods"
    and "runs (cluster i) w a w1" and "runs (cluster i) w2 b w'"
  shows "observed i w w' namespace nodeName en fs pods"
  using assms runs_append unfolding observed_def by metis

lemma find_runs:
  "FindEvictablePodsInNamespaceAndNode i w namespace nodeName en fs = (w', r) \<Longrightarrow> runs (cluster i) w [ReadPods] w'"
  by (auto simp: FindEvictablePodsInNamespaceAndNode_def split: prod.splits sum.splits intro: read_runs)

lemma find_observed:
  "FindEvictablePodsInNamespaceAndNode i w namespace nodeName en fs = (w', Inr pods) \<Longrightarrow>
     observed i w w' namespace nodeName en fs pods"
  unfolding observed_def by (intro exI conjI) (rule runs.none, assumption, rule runs.none)

lemma namespaces_runs:
  "GetNamespacesMatchingPattern pt i w inc exc nodeName = (w', r) \<Longrightarrow> runs (cluster i) w [ReadPods] w'"
  by (auto simp: GetNamespacesMatchingPattern_def split: prod.splits sum.splits intro: read_runs)

section \<open>Checking the scope\<close>

lemma check_present:
  assumes "checkIfPodsPresentInNamespaceAndNode i w nss nodeName en fs = (w', allEvicted, remaining)"
  shows "\<exists>acts. runs (cluster i) w acts w' \<and> set acts \<subseteq> {ReadPods} \<and>
    (allEvicted \<longrightarrow> (\<forall>ns \<in> set nss. observed i w w' ns nodeName en fs [])) \<and>
    (\<forall>p \<in> set remaining. \<exists>ns \<in> set nss. \<exists>pods. observed i w w' ns nodeName en fs pods \<and> p \<in> set pods)"
  using assms
proof (induction nss arbitrary: w w' allEvicted remaining)
  case Nil
  then show ?case using runs.none by fastforce
next
  case (Cons ns nss)
  obtain w1 found where f: "FindEvictablePodsInNamespaceAndNode i w ns nodeName en fs = (w1, found)"
    by (metis prod.exhaust)
  obtain w2 all2 rem2 where c: "checkIfPodsPresentInNamespaceAndNode i w1 nss nodeName en fs = (w2, all2, rem2)"
    by (metis prod.exhaust)
  from Cons.IH [OF c] obtain acts where acts: "runs (cluster i) w1 acts w2" "set acts \<subseteq> {ReadPods}"
    and all2: "all2 \<longrightarrow> (\<forall>ns \<in> set nss. observed i w1 w2 ns nodeName en fs [])"
    and rem2: "\<forall>p \<in> set rem2. \<exists>ns \<in> set nss. \<exists>pods. observed i w1 w2 ns nodeName en fs pods \<and> p \<in> set pods"
    by blast
  have w2: "w' = w2" using Cons.prems f c by (auto split: sum.splits)
  note later = observed_extend [OF _ find_runs [OF f] runs.none]
  have here: "observed i w w2 ns nodeName en fs pods" if "found = Inr pods" for pods
    using observed_extend [OF find_observed runs.none acts(1)] f that by blast
  have "runs (cluster i) w ([ReadPods] @ acts) w'"
    using runs_append [OF find_runs [OF f] acts(1)] w2 by simp
  moreover have "set ([ReadPods] @ acts) \<subseteq> {ReadPods}" using acts(2) by simp
  moreover have "\<forall>ns' \<in> set (ns # nss). observed i w w' ns' nodeName en fs []" if "allEvicted"
    using that Cons.prems f c all2 here later w2 by (auto split: sum.splits)
  moreover have "\<exists>ns' \<in> set (ns # nss). \<exists>pods. observed i w w' ns' nodeName en fs pods \<and> p \<in> set pods"
    if p: "p \<in> set remaining" for p
  proof (cases "p \<in> set rem2")
    case True
    with rem2 later w2 show ?thesis by (meson list.set_intros(2))
  next
    case False
    with p Cons.prems f c here w2 show ?thesis by (auto split: sum.splits)
  qed
  ultimately show ?case by blast
qed

section \<open>Deleting pods\<close>

definition delete_of :: "'w Informers \<Rightarrow> pod \<Rightarrow> request" where
  "delete_of i p = DeletePod (p_Namespace p) (p_Name p)
     \<lparr>GracePeriodSeconds = 0, DryRun = dryRunMode i, Preconditions = podDeletionPreconditions p\<rparr>"

lemma for_each_delete_runs:
  "for_each_pod (force_delete_request i) pods w errs = (w', errs') \<Longrightarrow> runs (cluster i) w (map (delete_of i) pods) w'"
  by (induction pods arbitrary: w errs)
    (auto simp: force_delete_request_def delete_of_def split: prod.splits intro: runs.intros)

lemma force_delete_runs:
  "forceDeletePods i w pods = (w', r) \<Longrightarrow> runs (cluster i) w (map (delete_of i) pods) w'"
  by (auto simp: forceDeletePods_def split: prod.splits intro: for_each_delete_runs)

text \<open>The time left is zero or less only after the deadline, unless the arithmetic wraps around.\<close>

lemma deadline_reached:
  assumes "getNodeDrainTimeout i w timeout createdAt \<le> 0"
    and "0 \<le> timeout * minute" and "timeout * minute < 2 ^ 63" and "createdAt \<le> time_now (cluster i) w"
  shows "createdAt + timeout * minute \<le> time_now (cluster i) w"
proof -
  let ?since = "time_since (time_now (cluster i) w) createdAt"
  have since: "0 \<le> ?since" "?since \<le> time_now (cluster i) w - createdAt" "?since < 2 ^ 63"
    using assms(4) by (auto simp: time_since_def)
  have "duration (timeout * minute) = timeout * minute" using assms(2,3) by (intro duration_id) auto
  moreover have "duration (timeout * minute - ?since) = timeout * minute - ?since"
    using assms(2,3) since by (intro duration_id) auto
  ultimately show ?thesis using assms(1) since by (simp add: getNodeDrainTimeout_def Let_def)
qed

text \<open>
  C17. The deadline drain requests the deletion of a pod only when the event is at least the
  configured number of minutes old, provided that this time fits a Go duration and the event is not dated
  in the future; only for a pod it has just seen in a namespace and scope
  it was given, and only with the resource version and identity it saw; it evicts nothing, and
  reports success only after it saw every namespace without a pod to drain.
\<close>
theorem delete_only_after_deadline:
  assumes "DeletePodsAfterTimeout i w nodeName nss timeout createdAt en fs = (w', r)"
  shows "\<exists>acts. runs (cluster i) w acts w' \<and>
    (\<forall>ns name opts. EvictPod ns name opts \<notin> set acts) \<and>
    (\<forall>ns name opts. DeletePod ns name opts \<in> set acts \<longrightarrow>
       (0 \<le> timeout * minute \<and> timeout * minute < 2 ^ 63 \<and> createdAt \<le> time_now (cluster i) w \<longrightarrow>
          time_now (cluster i) w \<ge> createdAt + timeout * minute) \<and>
       (\<exists>p pods seen_ns. seen_ns \<in> set nss \<and> observed i w w' seen_ns nodeName en fs pods \<and> p \<in> set pods \<and>
          DeletePod ns name opts = delete_of i p)) \<and>
    (r = None \<longrightarrow> (\<forall>ns \<in> set nss. observed i w w' ns nodeName en fs []))"
proof -
  obtain w1 evicted remaining where
    c: "checkIfPodsPresentInNamespaceAndNode i w nss nodeName en fs = (w1, evicted, remaining)"
    by (metis prod.exhaust)
  from check_present [OF c] obtain acts where acts: "runs (cluster i) w acts w1" "set acts \<subseteq> {ReadPods}"
    and all: "evicted \<longrightarrow> (\<forall>ns \<in> set nss. observed i w w1 ns nodeName en fs [])"
    and rem: "\<forall>p \<in> set remaining. \<exists>ns \<in> set nss. \<exists>pods. observed i w w1 ns nodeName en fs pods \<and> p \<in> set pods"
    by blast
  consider (stay) "w' = w1" "r = None \<longrightarrow> evicted"
    | (force) "getNodeDrainTimeout i w timeout createdAt \<le> 0" "\<exists>r'. forceDeletePods i w1 remaining = (w', r')" "r \<noteq> None"
    | (event) node msg where "w' = record_event (cluster i) w1 node ''WaitingBeforeForceDelete'' msg" "r \<noteq> None"
    using assms c
    by (auto simp: DeletePodsAfterTimeout_def Let_def UpdateNodeEvent_def split: if_splits prod.splits option.splits sum.splits)
  then show ?thesis
  proof cases
    case stay
    with acts all show ?thesis by (intro exI [of _ acts]) auto
  next
    case force
    then have del: "runs (cluster i) w1 (map (delete_of i) remaining) w'" by (auto intro: force_delete_runs)
    have seen: "\<exists>ns \<in> set nss. \<exists>pods. observed i w w' ns nodeName en fs pods \<and> p \<in> set pods"
      if "p \<in> set remaining" for p
      using rem that observed_extend [OF _ runs.none del] by blast
    have "0 \<le> timeout * minute \<and> timeout * minute < 2 ^ 63 \<and> createdAt \<le> time_now (cluster i) w \<longrightarrow>
        time_now (cluster i) w \<ge> createdAt + timeout * minute"
      using deadline_reached [OF force(1)] by blast
    moreover have "\<exists>p pods seen_ns. seen_ns \<in> set nss \<and> observed i w w' seen_ns nodeName en fs pods \<and>
        p \<in> set pods \<and> a = delete_of i p" if "a \<in> delete_of i ` set remaining" for a
      using that seen by blast
    moreover have "EvictPod ns name opts \<notin> delete_of i ` set remaining" for ns name opts
      by (auto simp: delete_of_def)
    ultimately show ?thesis using runs_append [OF acts(1) del] acts(2) force(3)
      by (intro exI [of _ "acts @ map (delete_of i) remaining"]) auto
  next
    case (event node msg)
    then have "runs (cluster i) w1 [RecordEvent node ''WaitingBeforeForceDelete'' msg] w'"
      by (simp add: runs.event runs.none)
    with runs_append [OF acts(1) this] acts(2) event(2) show ?thesis
      by (intro exI [of _ "acts @ [RecordEvent node ''WaitingBeforeForceDelete'' msg]"]) auto
  qed
qed

section \<open>Immediate eviction\<close>

text \<open>
  The immediate mode force-deletes only what it was shown, and only when a shown pod is past
  its deadline; it reports an empty scope only after seeing every namespace empty.
\<close>

lemma check_observed:
  assumes "CheckIfObservedPodsAreEvictedInImmediateMode i w nss nodeName timeout en shown fs = (w', b)"
  shows "\<exists>acts. runs (cluster i) w acts w' \<and>
    (\<forall>ns name opts. DeletePod ns name opts \<in> set acts \<longrightarrow>
       (\<exists>p \<in> set shown. past_deadline (time_now (cluster i) w) timeout p) \<and>
       DeletePod ns name opts \<in> delete_of i ` set shown) \<and>
    (b \<and> shown \<noteq> [] \<longrightarrow> (\<forall>ns \<in> set nss. observed i w w' ns nodeName en fs []))"
proof (cases "shown \<noteq> [] \<and> list_ex (past_deadline (time_now (cluster i) w) timeout) shown")
  case False
  with assms runs.none show ?thesis
    by (intro exI [of _ "[]"]) (auto simp: CheckIfObservedPodsAreEvictedInImmediateMode_def split: if_splits)
next
  case True
  then have late: "\<exists>p \<in> set shown. past_deadline (time_now (cluster i) w) timeout p" by (simp add: list_ex_iff)
  obtain w1 e where del: "forceDeletePods i w shown = (w1, e)" by (metis prod.exhaust)
  note runs1 = force_delete_runs [OF del]
  show ?thesis
  proof (cases e)
    case (Some err)
    with True assms del have "w' = w1" "\<not> b"
      by (auto simp: CheckIfObservedPodsAreEvictedInImmediateMode_def)
    with runs1 late show ?thesis by (intro exI [of _ "map (delete_of i) shown"]) auto
  next
    case None
    obtain w2 all2 rem2 where c: "checkIfPodsPresentInNamespaceAndNode i w1 nss nodeName en fs = (w2, all2, rem2)"
      by (metis prod.exhaust)
    with True None assms del have w2: "w' = w2" "b = all2"
      by (auto simp: CheckIfObservedPodsAreEvictedInImmediateMode_def)
    from check_present [OF c] obtain acts where acts: "runs (cluster i) w1 acts w2" "set acts \<subseteq> {ReadPods}"
      and all2: "all2 \<longrightarrow> (\<forall>ns \<in> set nss. observed i w1 w2 ns nodeName en fs [])" by blast
    have "b \<longrightarrow> (\<forall>ns \<in> set nss. observed i w w' ns nodeName en fs [])"
      using all2 w2 observed_extend [OF _ runs1 runs.none] by blast
    with runs_append [OF runs1 acts(1)] acts(2) w2 late show ?thesis
      by (intro exI [of _ "map (delete_of i) shown @ acts"]) auto
  qed
qed

lemma check_observed_runs:
  assumes "CheckIfObservedPodsAreEvictedInImmediateMode i w nss nodeName timeout en shown fs = (w', b)"
  shows "\<exists>acts. runs (cluster i) w acts w'"
  using check_observed [OF assms] by blast

lemma check_all_evicted:
  assumes "CheckIfAllPodsAreEvictedInImmediateMode i w nss nodeName timeout en fs = (w', b)"
  shows "\<exists>acts. runs (cluster i) w acts w' \<and> (b \<longrightarrow> (\<forall>ns \<in> set nss. observed i w w' ns nodeName en fs []))"
proof -
  obtain w1 all1 rem1 where c: "checkIfPodsPresentInNamespaceAndNode i w nss nodeName en fs = (w1, all1, rem1)"
    by (metis prod.exhaust)
  from check_present [OF c] obtain acts where acts: "runs (cluster i) w acts w1"
    and all1: "all1 \<longrightarrow> (\<forall>ns \<in> set nss. observed i w w1 ns nodeName en fs [])" by blast
  consider "w' = w1" "b = all1"
    | "rem1 \<noteq> []" "CheckIfObservedPodsAreEvictedInImmediateMode i w1 nss nodeName timeout en rem1 fs = (w', b)"
    using assms c by (auto simp: CheckIfAllPodsAreEvictedInImmediateMode_def split: if_splits)
  then show ?thesis
  proof cases
    case 1
    with acts all1 show ?thesis by blast
  next
    case 2
    from check_observed [OF 2(2)] obtain acts2 where acts2: "runs (cluster i) w1 acts2 w'"
      and all2: "b \<longrightarrow> (\<forall>ns \<in> set nss. observed i w1 w' ns nodeName en fs [])" using 2(1) by blast
    have "b \<longrightarrow> (\<forall>ns \<in> set nss. observed i w w' ns nodeName en fs [])"
      using all2 observed_extend [OF _ acts runs.none] by blast
    with runs_append [OF acts acts2] show ?thesis by blast
  qed
qed

section \<open>The built-in drain\<close>

lemma no_remaining_pods:
  assumes "has_remaining_pods i w nss nodeName en = (w', b)"
  shows "\<exists>acts. runs (cluster i) w acts w' \<and> (\<not> b \<longrightarrow> (\<forall>ns \<in> set nss. observed i w w' ns nodeName en [None] []))"
  using assms
proof (induction nss arbitrary: w)
  case Nil
  then show ?case using runs.none by fastforce
next
  case (Cons ns nss)
  obtain w1 found where f: "FindEvictablePodsInNamespaceAndNode i w ns nodeName en [None] = (w1, found)"
    by (metis prod.exhaust)
  note step = find_runs [OF f]
  show ?case
  proof (cases "found = Inr []")
    case True
    with Cons.prems f have "has_remaining_pods i w1 nss nodeName en = (w', b)" by simp
    from Cons.IH [OF this] obtain acts where acts: "runs (cluster i) w1 acts w'"
      and rest: "\<not> b \<longrightarrow> (\<forall>ns \<in> set nss. observed i w1 w' ns nodeName en [None] [])" by blast
    have "observed i w w' ns nodeName en [None] []"
      using observed_extend [OF find_observed runs.none acts] f True by blast
    with rest observed_extend [OF _ step runs.none] have "\<not> b \<longrightarrow> (\<forall>ns' \<in> set (ns # nss). observed i w w' ns' nodeName en [None] [])"
      by auto
    with runs_append [OF step acts] show ?thesis by blast
  next
    case False
    with Cons.prems f have "w' = w1" "b" by (auto split: sum.splits if_splits)
    with step show ?thesis by blast
  qed
qed

definition all_namespaces :: "namespaces \<Rightarrow> string set" where
  "all_namespaces ns = set (immediateEvictionNamespaces ns) \<union> set (deleteAfterTimeoutNamespaces ns) \<union>
     set (allowCompletionNamespaces ns)"

lemma result_of_Action [simp]: "Action (result_of a) = a"
  by (simp add: result_of_def)

lemma wait_for_Action [simp]: "Action (wait_for d) = ActionWait"
  by (simp add: wait_for_def)

lemma with_status_simps [simp]: "Action (with_status a s) = a" "ResultStatus (with_status a s) = s"
  by (simp_all add: with_status_def)

text \<open>Three checks in a row: the success action is returned only when none had work left.\<close>

lemma getAction_success:
  assumes "getAction e w ns nodeName en = (w', r)"
  shows "\<exists>acts. runs (cluster (informers e)) w acts w' \<and>
    (Action r = ActionUpdateStatus \<longrightarrow>
       (\<forall>n \<in> all_namespaces ns. observed (informers e) w w' n nodeName en [None] []))"
proof -
  let ?i = "informers e"
  obtain w1 imm where imm: "(if immediateEvictionNamespaces ns = [] then (w, True)
      else CheckIfAllPodsAreEvictedInImmediateMode ?i w (immediateEvictionNamespaces ns) nodeName
             (EvictionTimeoutInSeconds (config e)) en [None]) = (w1, imm)" by (metis prod.exhaust)
  obtain w2 del where del: "(if deleteAfterTimeoutNamespaces ns = [] then (w1, None)
      else handleDeleteAfterTimeoutNamespaces e w1 ns nodeName en) = (w2, del)" by (metis prod.exhaust)
  obtain w3 com where com: "(if allowCompletionNamespaces ns = [] then (w2, None)
      else handleAllowCompletionNamespaces e w2 ns nodeName en) = (w3, com)" by (metis prod.exhaust)
  have r1: "\<exists>a. runs (cluster ?i) w a w1 \<and> (imm \<longrightarrow> (\<forall>n \<in> set (immediateEvictionNamespaces ns). observed ?i w w1 n nodeName en [None] []))"
    using imm check_all_evicted runs.none by (auto split: if_splits) fastforce+
  have r2: "\<exists>a. runs (cluster ?i) w1 a w2 \<and> (del = None \<longrightarrow> (\<forall>n \<in> set (deleteAfterTimeoutNamespaces ns). observed ?i w1 w2 n nodeName en [None] []))
      \<and> (\<forall>x. del = Some x \<longrightarrow> Action x = ActionEvictWithTimeout)"
    using del no_remaining_pods runs.none
    by (auto simp: handleDeleteAfterTimeoutNamespaces_def split: if_splits prod.splits) fastforce+
  have r3: "\<exists>a. runs (cluster ?i) w2 a w3 \<and> (com = None \<longrightarrow> (\<forall>n \<in> set (allowCompletionNamespaces ns). observed ?i w2 w3 n nodeName en [None] []))
      \<and> (\<forall>x. com = Some x \<longrightarrow> Action x = ActionCheckCompletion)"
    using com no_remaining_pods runs.none
    by (auto simp: handleAllowCompletionNamespaces_def split: if_splits prod.splits) fastforce+
  from r1 r2 r3 obtain a1 a2 a3 where a: "runs (cluster ?i) w a1 w1" "runs (cluster ?i) w1 a2 w2" "runs (cluster ?i) w2 a3 w3"
    by blast
  have res: "(w', r) = (if \<not> imm then (w1, (result_of ActionEvictImmediate)\<lparr>Namespaces := immediateEvictionNamespaces ns,
         Timeout := EvictionTimeoutInSeconds (config e), ResultEntity := en\<rparr>)
      else case del of Some x \<Rightarrow> (w2, x) | None \<Rightarrow>
        (case com of Some x \<Rightarrow> (w3, x) | None \<Rightarrow> (w3, with_status ActionUpdateStatus StatusSucceeded)))"
    using assms by (simp only: getAction_def Let_def imm del com prod.case split: if_split)
  show ?thesis
  proof (cases "imm \<and> del = None \<and> com = None")
    case True
    with res have w': "w' = w3" by simp
    have "observed ?i w w3 n nodeName en [None] []" if "n \<in> all_namespaces ns" for n
      using that True r1 r2 r3 observed_extend [OF _ runs.none runs_append [OF a(2,3)]]
        observed_extend [OF _ a(1) a(3)] observed_extend [OF _ runs_append [OF a(1,2)] runs.none]
      unfolding all_namespaces_def by auto
    with runs_append [OF runs_append [OF a(1,2)] a(3)] w' show ?thesis by blast
  next
    case False
    with res r2 r3 have "Action r \<noteq> ActionUpdateStatus" by (auto split: if_splits option.splits)
    moreover have "\<exists>acts. runs (cluster ?i) w acts w'"
      using res a runs_append [OF a(1,2)] runs_append [OF runs_append [OF a(1,2)] a(3)]
      by (auto split: if_splits option.splits)
    ultimately show ?thesis by blast
  qed
qed

text \<open>During the run, the pattern was resolved to these namespaces of the node.\<close>

definition matched_during ::
  "'w NodeDrainEvaluator \<Rightarrow> 'w \<Rightarrow> 'w \<Rightarrow> string \<Rightarrow> string \<Rightarrow> string list \<Rightarrow> bool" where
  "matched_during e w w' pattern nodeName nss \<longleftrightarrow>
     (\<exists>before wa wb after. runs (cluster (informers e)) w before wa \<and>
        GetNamespacesMatchingPattern (globs (lang e)) (informers e) wa pattern (SystemNamespaces (config e)) nodeName =
          (wb, Inr nss) \<and>
        runs (cluster (informers e)) wb after w')"

lemma matched_extend:
  assumes "matched_during e w1 w2 pattern nodeName nss"
    and "runs (cluster (informers e)) w a w1" and "runs (cluster (informers e)) w2 b w'"
  shows "matched_during e w w' pattern nodeName nss"
  using assms runs_append unfolding matched_during_def by metis

lemma matched_here:
  "GetNamespacesMatchingPattern (globs (lang e)) (informers e) w pattern (SystemNamespaces (config e)) nodeName = (w', Inr nss)
     \<Longrightarrow> matched_during e w w' pattern nodeName nss"
  unfolding matched_during_def by (intro exI conjI) (rule runs.none, assumption, rule runs.none)

definition supported_mode :: "EvictMode \<Rightarrow> bool" where
  "supported_mode m \<longleftrightarrow> m \<in> {ModeImmediateEvict, ModeAllowCompletion, ModeDeleteAfterTimeout}"

lemma mapUserNamespaces_all:
  "all_namespaces (mapUserNamespacesToMode force un matched ns) =
     all_namespaces ns \<union> (if force \<or> supported_mode (un_Mode un) then set matched else {})"
  by (auto simp: all_namespaces_def mapUserNamespacesToMode_def supported_mode_def)

lemma collect_namespaces_all:
  assumes "collect_namespaces e w force nodeName uns ns0 = (w', r)"
  shows "\<exists>acts. runs (cluster (informers e)) w acts w' \<and>
    (\<forall>ns. r = Inr ns \<longrightarrow> all_namespaces ns0 \<subseteq> all_namespaces ns \<and>
       (\<forall>un \<in> set uns. \<exists>nss. matched_during e w w' (un_Name un) nodeName nss \<and>
          (force \<or> supported_mode (un_Mode un) \<longrightarrow> set nss \<subseteq> all_namespaces ns)))"
  using assms
proof (induction uns arbitrary: w ns0)
  case Nil
  then show ?case using runs.none by fastforce
next
  case (Cons un uns)
  obtain w1 found where f: "GetNamespacesMatchingPattern (globs (lang e)) (informers e) w (un_Name un)
      (SystemNamespaces (config e)) nodeName = (w1, found)" by (metis prod.exhaust)
  note step = namespaces_runs [OF f]
  show ?case
  proof (cases found)
    case (Inl err)
    with Cons.prems f step show ?thesis by auto
  next
    case (Inr matched)
    let ?ns1 = "mapUserNamespacesToMode force un matched ns0"
    from Inr Cons.prems f have rest: "collect_namespaces e w1 force nodeName uns ?ns1 = (w', r)" by simp
    from Cons.IH [OF this] obtain acts where acts: "runs (cluster (informers e)) w1 acts w'"
      and IH: "\<forall>ns. r = Inr ns \<longrightarrow> all_namespaces ?ns1 \<subseteq> all_namespaces ns \<and>
       (\<forall>un \<in> set uns. \<exists>nss. matched_during e w1 w' (un_Name un) nodeName nss \<and>
          (force \<or> supported_mode (un_Mode un) \<longrightarrow> set nss \<subseteq> all_namespaces ns))" by blast
    have here: "matched_during e w w' (un_Name un) nodeName matched"
      using matched_extend [OF matched_here runs.none acts] f Inr by blast
    have "all_namespaces ns0 \<subseteq> all_namespaces ns \<and>
       (\<forall>un \<in> set (un # uns). \<exists>nss. matched_during e w w' (un_Name un) nodeName nss \<and>
          (force \<or> supported_mode (un_Mode un) \<longrightarrow> set nss \<subseteq> all_namespaces ns))" if "r = Inr ns" for ns
      using IH [rule_format, OF that] here matched_extend [OF _ step runs.none]
      by (auto simp: mapUserNamespaces_all split: if_splits) (meson subset_trans)+
    with runs_append [OF step acts] show ?thesis by blast
  qed
qed

section \<open>The drain by pod policies\<close>

lemma listPodsByMode_runs:
  "listPodsByMode e w nss nodeName en force m = (w', r) \<Longrightarrow> \<exists>acts. runs (cluster (informers e)) w acts w'"
proof (induction nss arbitrary: w m)
  case Nil
  then show ?case using runs.none by fastforce
next
  case (Cons ns nss)
  obtain w1 found where f: "FindEvictablePodsInNamespaceAndNode (informers e) w ns nodeName en
      [Some (podModeFilter e [] force)] = (w1, found)" by (metis prod.exhaust)
  with Cons show ?case using find_runs [OF f] runs_append [OF find_runs [OF f]]
    by (cases found) (auto, blast)
qed

lemma first_candidate_runs:
  "first_candidate e w nss nodeName en force m cs = (w', r) \<Longrightarrow>
     (\<exists>acts. runs (cluster (informers e)) w acts w') \<and> (\<forall>a. r = Some a \<longrightarrow> Action a \<in> (fst \<circ> snd) ` set cs)"
proof (induction cs arbitrary: w)
  case Nil
  then show ?case using runs.none by fastforce
next
  case (Cons c cs)
  obtain mode action timeout where c: "c = (mode, action, timeout)" by (metis prod.exhaust)
  show ?case
  proof (cases "m mode = []")
    case True
    with Cons c show ?thesis by auto
  next
    case False
    let ?check = "if mode = ModeImmediateEvict
      then CheckIfObservedPodsAreEvictedInImmediateMode (informers e) w nss nodeName timeout en (m mode)
        [Some (podModeFilter e mode force)] else (w, False)"
    obtain w1 evicted where ck: "?check = (w1, evicted)" by (metis prod.exhaust)
    have step: "\<exists>a. runs (cluster (informers e)) w a w1"
      using ck check_observed_runs runs.none by (auto split: if_splits) fastforce+
    have body: "first_candidate e w nss nodeName en force m (c # cs) =
        (if evicted then first_candidate e w1 nss nodeName en force m cs
         else (w1, Some ((result_of action)\<lparr>Namespaces := nss, Timeout := timeout, ResultEntity := en,
                ResultFilter := Some (podModeFilter e mode force)\<rparr>)))"
      unfolding c first_candidate.simps Let_def ck using False by simp
    show ?thesis
    proof (cases evicted)
      case True
      with body Cons.prems have "first_candidate e w1 nss nodeName en force m cs = (w', r)" by simp
      from Cons.IH [OF this] step runs_append show ?thesis by fastforce
    next
      case False
      with body Cons.prems step c show ?thesis by auto
    qed
  qed
qed

lemma recheck_scope_success:
  assumes "recheck_scope e w nss nodeName en force = (w', Inr r)" and "Action r = ActionUpdateStatus"
  shows "(\<exists>acts. runs (cluster (informers e)) w acts w') \<and>
    (\<forall>ns \<in> set nss. observed (informers e) w w' ns nodeName en [Some (podModeFilter e [] force)] [])"
  using assms
proof (induction nss arbitrary: w)
  case Nil
  then show ?case using runs.none by fastforce
next
  case (Cons ns nss)
  obtain w1 found where f: "FindEvictablePodsInNamespaceAndNode (informers e) w ns nodeName en
      [Some (podModeFilter e [] force)] = (w1, found)" by (metis prod.exhaust)
  with Cons.prems have found: "found = Inr []" and rest: "recheck_scope e w1 nss nodeName en force = (w', Inr r)"
    by (auto split: sum.splits if_splits)
  from Cons.IH [OF rest Cons.prems(2)] obtain acts where acts: "runs (cluster (informers e)) w1 acts w'"
    and later: "\<forall>ns \<in> set nss. observed (informers e) w1 w' ns nodeName en [Some (podModeFilter e [] force)] []" by blast
  note step = find_runs [OF f]
  have "observed (informers e) w w' ns nodeName en [Some (podModeFilter e [] force)] []"
    using observed_extend [OF find_observed runs.none acts] f found by blast
  with later observed_extend [OF _ step runs.none] runs_append [OF step acts] show ?case by auto
qed

lemma policy_success:
  assumes "evaluatePodPolicyActions e w ev en = (w', Inr r)" and "Action r = ActionUpdateStatus"
  shows "\<exists>nss. matched_during e w w' ''*'' (NodeName (ev_HealthEvent ev)) nss \<and>
    (\<forall>ns \<in> set nss. observed (informers e) w w' ns (NodeName (ev_HealthEvent ev)) en
       [Some (podModeFilter e [] (force_of ev))] [])"
proof -
  let ?node = "NodeName (ev_HealthEvent ev)" and ?force = "force_of ev"
  obtain w1 nss where g: "GetNamespacesMatchingPattern (globs (lang e)) (informers e) w ''*'' (SystemNamespaces (config e)) ?node = (w1, Inr nss)"
    using assms(1) by (auto simp: evaluatePodPolicyActions_def Let_def split: prod.splits sum.splits)
  obtain w2 m where l: "listPodsByMode e w1 nss ?node en ?force (\<lambda>_. []) = (w2, Inr m)"
    using assms(1) g by (auto simp: evaluatePodPolicyActions_def Let_def split: prod.splits sum.splits)
  obtain w3 c where fc: "first_candidate e w2 nss ?node en ?force m (policy_candidates (config e)) = (w3, c)"
    by (metis prod.exhaust)
  have "c = None"
    using assms g l fc first_candidate_runs [OF fc]
    by (auto simp: evaluatePodPolicyActions_def Let_def policy_candidates_def split: option.splits)
  with assms g l fc have rc: "recheck_scope e w3 nss ?node en ?force = (w', Inr r)"
    by (simp add: evaluatePodPolicyActions_def Let_def)
  from recheck_scope_success [OF rc assms(2)] obtain a3 where a3: "runs (cluster (informers e)) w3 a3 w'"
    and seen: "\<forall>ns \<in> set nss. observed (informers e) w3 w' ns ?node en [Some (podModeFilter e [] ?force)] []" by blast
  from listPodsByMode_runs [OF l] first_candidate_runs [OF fc] obtain a1 a2 where
    a: "runs (cluster (informers e)) w1 a1 w2" "runs (cluster (informers e)) w2 a2 w3" by blast
  note to3 = runs_append [OF namespaces_runs [OF g] runs_append [OF a]]
  have "matched_during e w w' ''*'' ?node nss"
    by (rule matched_extend [OF matched_here [OF g] runs.none runs_append [OF runs_append [OF a] a3]])
  moreover have "observed (informers e) w w' ns ?node en [Some (podModeFilter e [] ?force)] []" if "ns \<in> set nss" for ns
    using observed_extend [OF _ to3 runs.none] seen that by blast
  ultimately show ?thesis by blast
qed

section \<open>The evaluation\<close>

lemma evaluate_updates_status:
  assumes "EvaluateEventWithDatabase e store w ev = (w', Inr r)" and "Action r = ActionUpdateStatus"
    and "ResultStatus r = StatusSucceeded"
  obtains en where "PartialDrainEntity (ev_HealthEvent ev) (PartialDrainEnabled (config e)) = Inr en"
    and "evaluateUserNamespaceActions e w ev en = (w', Inr r)"
proof -
  have pre: "checkPreconditions ev = None"
    using assms(1,2) by (auto simp: EvaluateEventWithDatabase_def checkPreconditions_def
        split: option.splits if_splits)
  obtain en where en: "PartialDrainEntity (ev_HealthEvent ev) (PartialDrainEnabled (config e)) = Inr en"
    using assms pre by (auto simp: EvaluateEventWithDatabase_def status_defs split: sum.splits)
  have custom: "Action x \<noteq> ActionUpdateStatus" if "evaluateCustomDrain e c w ev en = (w', Inr x)" for c x
    using that by (auto simp: evaluateCustomDrain_def Let_def split: if_splits sum.splits prod.splits)
  have "evaluateUserNamespaceActions e w ev en = (w', Inr r)"
    using assms(1,2) pre en custom
    by (auto simp: EvaluateEventWithDatabase_def Let_def handleAlreadyQuarantined_def shouldUseCustomDrain_def
        split: option.splits sum.splits if_splits bool.splits)
  with en that show thesis by blast
qed

text \<open>
  C16. When an evaluation reports a successful drain, then during
  this evaluation, the node was seen without a pod to drain in every namespace that the configuration selects:
  under pod policies in every non-system namespace with a pod on the node, and under namespace
  rules in every namespace that a rule of a supported mode (any mode, when eviction is forced)
  matched. A rule of another mode is ignored by the code, and nothing is said of its namespaces. No pod is left
  out because of a lookup error or a cache that changed meanwhile.
\<close>
theorem drain_success_sound:
  assumes "EvaluateEventWithDatabase e store w ev = (w', Inr r)" and "Action r = ActionUpdateStatus"
    and "ResultStatus r = StatusSucceeded"
  shows "\<exists>en. PartialDrainEntity (ev_HealthEvent ev) (PartialDrainEnabled (config e)) = Inr en \<and>
    (if PodDrainPolicies (config e) \<noteq> [] then
       \<exists>nss. matched_during e w w' ''*'' (NodeName (ev_HealthEvent ev)) nss \<and>
         (\<forall>ns \<in> set nss. observed (informers e) w w' ns (NodeName (ev_HealthEvent ev)) en
            [Some (podModeFilter e [] (force_of ev))] [])
     else
       \<forall>un \<in> set (UserNamespaces (config e)). force_of ev \<or> supported_mode (un_Mode un) \<longrightarrow>
         (\<exists>nss. matched_during e w w' (un_Name un) (NodeName (ev_HealthEvent ev)) nss \<and>
            (\<forall>ns \<in> set nss. observed (informers e) w w' ns (NodeName (ev_HealthEvent ev)) en [None] [])))"
proof -
  let ?node = "NodeName (ev_HealthEvent ev)"
  obtain en where en: "PartialDrainEntity (ev_HealthEvent ev) (PartialDrainEnabled (config e)) = Inr en"
    and run: "evaluateUserNamespaceActions e w ev en = (w', Inr r)" by (rule evaluate_updates_status [OF assms])
  show ?thesis
  proof (cases "PodDrainPolicies (config e) = []")
    case False
    with run have "evaluatePodPolicyActions e w ev en = (w', Inr r)" by (simp add: evaluateUserNamespaceActions_def)
    from policy_success [OF this assms(2)] en False show ?thesis by auto
  next
    case True
    let ?ns0 = "\<lparr>immediateEvictionNamespaces = [], allowCompletionNamespaces = [], deleteAfterTimeoutNamespaces = []\<rparr>"
    obtain w1 ns where col: "collect_namespaces e w (force_of ev) ?node (UserNamespaces (config e)) ?ns0 = (w1, Inr ns)"
      and act: "getAction e w1 ns ?node en = (w', r)"
      using run True assms(2) by (auto simp: evaluateUserNamespaceActions_def Let_def split: prod.splits sum.splits)
    from collect_namespaces_all [OF col] obtain a where a: "runs (cluster (informers e)) w a w1"
      and found: "\<forall>un \<in> set (UserNamespaces (config e)). \<exists>nss. matched_during e w w1 (un_Name un) ?node nss \<and>
          (force_of ev \<or> supported_mode (un_Mode un) \<longrightarrow> set nss \<subseteq> all_namespaces ns)" by blast
    from getAction_success [OF act] assms(2) obtain b where b: "runs (cluster (informers e)) w1 b w'"
      and seen: "\<forall>n \<in> all_namespaces ns. observed (informers e) w1 w' n ?node en [None] []" by blast
    have "\<exists>nss. matched_during e w w' (un_Name un) ?node nss \<and> (\<forall>n \<in> set nss. observed (informers e) w w' n ?node en [None] [])"
      if un: "un \<in> set (UserNamespaces (config e))" "force_of ev \<or> supported_mode (un_Mode un)" for un
    proof -
      from found un obtain nss where nss: "matched_during e w w1 (un_Name un) ?node nss" "set nss \<subseteq> all_namespaces ns"
        by blast
      have "matched_during e w w' (un_Name un) ?node nss" by (rule matched_extend [OF nss(1) runs.none b])
      moreover have "observed (informers e) w w' n ?node en [None] []" if "n \<in> set nss" for n
        using observed_extend [OF _ a runs.none] seen nss(2) that by blast
      ultimately show ?thesis by blast
    qed
    with True en show ?thesis by auto
  qed
qed

section \<open>Skipping a drain\<close>

lemma getAction_never_marks: "getAction e w ns nodeName en = (w', r) \<Longrightarrow> Action r \<noteq> ActionMarkAlreadyDrained"
  by (auto simp: getAction_def Let_def handleDeleteAfterTimeoutNamespaces_def handleAllowCompletionNamespaces_def
      split: if_splits prod.splits option.splits)

lemma recheck_scope_action:
  "recheck_scope e w nss nodeName en force = (w', Inr r) \<Longrightarrow> Action r \<in> {ActionUpdateStatus, ActionWait}"
  by (induction nss arbitrary: w) (auto split: prod.splits sum.splits if_splits)

lemma builtin_never_marks:
  "evaluateUserNamespaceActions e w ev en = (w', Inr r) \<Longrightarrow> Action r \<noteq> ActionMarkAlreadyDrained"
  by (auto simp: evaluateUserNamespaceActions_def evaluatePodPolicyActions_def Let_def policy_candidates_def
      split: if_splits prod.splits sum.splits option.splits
      dest: getAction_never_marks first_candidate_runs recheck_scope_action)

text \<open>The stored record of an event proves that a drain covering the scope has completed.\<close>

definition proves_drained ::
  "('w, 'doc) event_store \<Rightarrow> 'w \<Rightarrow> string \<Rightarrow> entity option \<Rightarrow> bool \<Rightarrow> bool" where
  "proves_drained store w ident scope partialEnabled \<longleftrightarrow>
     (\<exists>stored event en. FindHealthEventsByQuery store w (Build (Eq ''_id'' (VString ident)) New) = Inr [stored] \<and>
        decode_document store (se_document stored) = Inr event \<and>
        PartialDrainEntity event partialEnabled = Inr en \<and>
        (se_drainStatus stored = StatusSucceeded \<or>
         se_drainStatus stored = AlreadyDrained \<and> (\<forall>d. DrainOverrides event = Some d \<longrightarrow> \<not> Skip d)) \<and>
        (en = None \<or> (\<exists>p c. en = Some p \<and> scope = Some c \<and> EntityType p = EntityType c \<and> EntityValue p = EntityValue c)))"

lemma didDrainComplete_True:
  "didDrainCompleteForEvent store w ident scope enabled = Inr True \<longleftrightarrow> proves_drained store w ident scope enabled"
  unfolding didDrainCompleteForEvent_def getHealthEventFromId_def doesDrainCoverPartialEntity_def
    proves_drained_def Let_def
  by (auto split: sum.splits list.splits option.splits)

lemma IsNodeDrained_True:
  "IsNodeDrained store w events exclude scope enabled = Inr True \<Longrightarrow>
     \<exists>event \<in> set events. Id event \<noteq> [] \<and> Id event \<noteq> exclude \<and> proves_drained store w (Id event) scope enabled"
  by (induction events) (auto simp: didDrainComplete_True split: if_splits sum.splits bool.splits)

lemma update_values: "snd ` set (AList.update k v m) \<subseteq> insert v (snd ` set m)"
  by (induction m) auto

lemma put_keys_values: "snd ` set (fold (\<lambda>k. AList.update k v) ks m) \<subseteq> insert v (snd ` set m)"
proof (induction ks arbitrary: m)
  case (Cons k ks)
  from Cons [of "AList.update k v m"] update_values [of k v m] show ?case by auto
qed auto

lemma put_all_values: "snd ` set (fold (\<lambda>x. fold (\<lambda>k. AList.update k x) (f x)) xs m) \<subseteq> set xs \<union> snd ` set m"
proof (induction xs arbitrary: m)
  case (Cons x xs)
  from Cons [of "fold (\<lambda>k. AList.update k x) (f x) m"] put_keys_values [of x "f x" m] show ?case
    by (simp only: fold_simps list.set) blast
qed auto

lemma unmarshal_events:
  assumes "(k, p) \<in> set (Events (UnmarshalJSON decoded))"
  shows "snd p \<in> set decoded"
proof -
  from assms put_all_values [of "\<lambda>p. createEventKeys (snd p)" "enumerate 0 decoded" "[]"]
  have "p \<in> set (enumerate 0 decoded)" by (force simp: UnmarshalJSON_def)
  then show ?thesis by (metis imageI list.set_map map_snd_enumerate)
qed

text \<open>
  The built-in drain of an unhealthy event that does not ask to be skipped is marked as
  already done only for a node that was quarantined before, and only if its quarantine
  annotation holds another event whose stored record proves a completed drain of the same
  scope: a full drain, or a partial one of the same entity. A drain that an override skipped
  is no proof, and neither is the event itself.
\<close>
theorem already_drained_sound:
  assumes "EvaluateEventWithDatabase e store w ev = (w', Inr r)" and "Action r = ActionMarkAlreadyDrained"
    and "\<not> IsHealthy (ev_HealthEvent ev)" and "\<forall>d. DrainOverrides (ev_HealthEvent ev) = Some d \<longrightarrow> \<not> Skip d"
    and "\<not> cd_Enabled (CustomDrain (config e))"
  shows "\<exists>scope node json decoded event.
    PartialDrainEntity (ev_HealthEvent ev) (PartialDrainEnabled (config e)) = Inr scope \<and>
    map_option NodeQuarantined (ev_HealthEventStatus ev) = Some AlreadyQuarantined \<and>
    GetNode (informers e) w (NodeName (ev_HealthEvent ev)) = Inr node \<and>
    map_of (n_Annotations node) QuarantineHealthEventAnnotationKey = Some json \<and>
    decode_annotation e json = Inr decoded \<and> event \<in> set decoded \<and>
    Id event \<noteq> [] \<and> Id event \<noteq> Id (ev_HealthEvent ev) \<and>
    proves_drained store w (Id event) scope (PartialDrainEnabled (config e))"
proof -
  have pre: "checkPreconditions ev = None"
    using assms(1-4) by (auto simp: EvaluateEventWithDatabase_def checkPreconditions_def split: option.splits if_splits)
  obtain scope where scope: "PartialDrainEntity (ev_HealthEvent ev) (PartialDrainEnabled (config e)) = Inr scope"
    using assms(1,2) pre by (auto simp: EvaluateEventWithDatabase_def split: sum.splits)
  obtain st where st: "ev_HealthEventStatus ev = Some st"
    using pre by (auto simp: checkPreconditions_def split: option.splits)
  have builtin: "Action x \<noteq> ActionMarkAlreadyDrained" if "evaluateUserNamespaceActions e w ev scope = (w', Inr x)" for x
    using that by (rule builtin_never_marks)
  have res: "handleAlreadyQuarantined e store w (NodeQuarantined st) ev scope = Some r"
    using assms(1,2,5) pre scope st builtin
    by (auto simp: EvaluateEventWithDatabase_def Let_def shouldUseCustomDrain_def split: option.splits)
  then have "NodeQuarantined st = AlreadyQuarantined"
    and drained: "isNodeAlreadyDrained e store w (Id (ev_HealthEvent ev)) scope (NodeName (ev_HealthEvent ev)) = Inr (True, True)"
    using assms(2) by (auto simp: handleAlreadyQuarantined_def split: if_splits sum.splits)
  from drained obtain node json decoded where node: "GetNode (informers e) w (NodeName (ev_HealthEvent ev)) = Inr node"
    "map_of (n_Annotations node) QuarantineHealthEventAnnotationKey = Some json" "decode_annotation e json = Inr decoded"
    and all: "IsNodeDrained store w (filter (\<lambda>ev. Id ev \<noteq> []) (map (\<lambda>(_, p). snd p) (Events (UnmarshalJSON decoded))))
      (Id (ev_HealthEvent ev)) scope (PartialDrainEnabled (config e)) = Inr True"
    by (auto simp: isNodeAlreadyDrained_def Let_def split: sum.splits option.splits)
  from IsNodeDrained_True [OF all] obtain event where "event \<in> set decoded" "Id event \<noteq> []"
    "Id event \<noteq> Id (ev_HealthEvent ev)" "proves_drained store w (Id event) scope (PartialDrainEnabled (config e))"
    by (auto dest: unmarshal_events)
  with scope st node \<open>NodeQuarantined st = AlreadyQuarantined\<close> show ?thesis by auto
qed

section \<open>Validated configurations\<close>

text \<open>Defaults change only the timeouts.\<close>

lemma validateCustomDrainConfig_keeps:
  "validateCustomDrainConfig l c = Inr c' \<Longrightarrow>
     PodDrainPolicies c' = PodDrainPolicies c \<and> UserNamespaces c' = UserNamespaces c \<and>
     cd_Enabled (CustomDrain c') = cd_Enabled (CustomDrain c) \<and> cd_NodeSelector (CustomDrain c') = cd_NodeSelector (CustomDrain c) \<and>
     (cd_Enabled (CustomDrain c) \<longrightarrow> cd_Timeout (CustomDrain c') \<noteq> 0 \<and>
        (\<exists>m. CompileCustomDrainNodeSelector l (CustomDrain c) = Inr m \<and>
           validateCustomDrainScope c (IsScoped m) = None))"
  by (auto simp: validateCustomDrainConfig_def sec_def split: if_splits sum.splits option.splits)

lemma CompileCustomDrain_cong:
  "cd_Enabled a = cd_Enabled b \<Longrightarrow> cd_NodeSelector a = cd_NodeSelector b \<Longrightarrow>
     CompileCustomDrainNodeSelector l a = CompileCustomDrainNodeSelector l b"
  by (simp add: CompileCustomDrainNodeSelector_def Let_def)

lemma validated_config:
  assumes "validateAndSetDefaults l c = Inr c'"
  obtains m where "CompilePodDrainPolicies l (PodDrainPolicies c') = Inr m"
    and "DeleteAfterTimeoutMinutes c' > 0" and "NotReadyTimeoutMinutes c' > 0"
    and "UserNamespaces c' = [] \<or> PodDrainPolicies c' = []"
    and "cd_Enabled (CustomDrain c') \<Longrightarrow> cd_Timeout (CustomDrain c') \<noteq> 0 \<and>
      (\<exists>m. CompileCustomDrainNodeSelector l (CustomDrain c') = Inr m \<and> validateCustomDrainScope c' (IsScoped m) = None)"
proof -
  from assms obtain m c1 where m: "CompilePodDrainPolicies l (PodDrainPolicies c) = Inr m"
    and one: "UserNamespaces c = [] \<or> PodDrainPolicies c = []"
    and c1: "validateCustomDrainConfig l c = Inr c1"
    by (auto simp: validateAndSetDefaults_def split: if_splits sum.splits)
  from assms m c1 one have
    c': "PodDrainPolicies c' = PodDrainPolicies c1" "UserNamespaces c' = UserNamespaces c1"
      "CustomDrain c' = CustomDrain c1"
    and pos: "DeleteAfterTimeoutMinutes c' > 0" "NotReadyTimeoutMinutes c' > 0"
    by (auto simp: validateAndSetDefaults_def Let_def split: if_splits)
  note keeps = validateCustomDrainConfig_keeps [OF c1]
  have cust: "cd_Timeout (CustomDrain c') \<noteq> 0 \<and>
      (\<exists>m. CompileCustomDrainNodeSelector l (CustomDrain c') = Inr m \<and> validateCustomDrainScope c' (IsScoped m) = None)"
    if "cd_Enabled (CustomDrain c')"
  proof -
    from that keeps c' obtain m where "cd_Timeout (CustomDrain c') \<noteq> 0" "CompileCustomDrainNodeSelector l (CustomDrain c) = Inr m"
      "validateCustomDrainScope c (IsScoped m) = None" by auto
    moreover have "validateCustomDrainScope c' scoped = validateCustomDrainScope c scoped" for scoped
      using keeps c' by (simp add: validateCustomDrainScope_def)
    moreover have "CompileCustomDrainNodeSelector l (CustomDrain c') = CompileCustomDrainNodeSelector l (CustomDrain c)"
      using keeps c' by (intro CompileCustomDrain_cong) simp_all
    ultimately show ?thesis by simp
  qed
  show thesis by (rule that [OF _ pos _ cust]) (use m one keeps c' in auto)
qed

text \<open>
  C18. A configuration that passed validation is well formed: an evaluator can be built from
  it, the delete-after and the not-ready timeout are positive, an enabled custom drain has a timeout other than
  zero, every compiled policy has a supported mode, namespace rules
  and pod policies are never mixed, and exactly one drain path owns a node: custom drain
  without a selector excludes built-in rules, and custom drain with one requires them. The eviction
  timeout, which may be left at zero, and the modes of namespace rules are not checked.
\<close>
theorem validated_config_well_formed:
  assumes "validateAndSetDefaults l c = Inr c'"
  shows "(\<exists>e. NewNodeDrainEvaluator l dec c' i custom = Inr e \<and> config e = c' \<and>
       (\<forall>p \<in> set (policies (podPolicies e)). supported_mode (cp_mode p)) \<and>
       (cd_Enabled (CustomDrain c') \<longrightarrow>
          (IsScoped (customDrainNodes e) \<longleftrightarrow> UserNamespaces c' \<noteq> [] \<or> PodDrainPolicies c' \<noteq> []))) \<and>
    DeleteAfterTimeoutMinutes c' > 0 \<and> NotReadyTimeoutMinutes c' > 0 \<and>
    (cd_Enabled (CustomDrain c') \<longrightarrow> cd_Timeout (CustomDrain c') \<noteq> 0) \<and>
    (UserNamespaces c' = [] \<or> PodDrainPolicies c' = [])"
proof -
  obtain m where m: "CompilePodDrainPolicies l (PodDrainPolicies c') = Inr m"
    and pos: "DeleteAfterTimeoutMinutes c' > 0" "NotReadyTimeoutMinutes c' > 0"
      "UserNamespaces c' = [] \<or> PodDrainPolicies c' = []"
    and custom: "cd_Enabled (CustomDrain c') \<Longrightarrow> cd_Timeout (CustomDrain c') \<noteq> 0 \<and>
      (\<exists>m. CompileCustomDrainNodeSelector l (CustomDrain c') = Inr m \<and> validateCustomDrainScope c' (IsScoped m) = None)"
    using validated_config [OF assms] by metis
  have modes: "\<forall>p \<in> set (policies m). supported_mode (cp_mode p)"
    using compiled_policy [OF m] compilePodDrainPolicy_mode unfolding supported_mode_def by metis
  obtain nodes where nodes: "CompileCustomDrainNodeSelector l (CustomDrain c') = Inr nodes"
    using custom by (cases "cd_Enabled (CustomDrain c')") (auto simp: CompileCustomDrainNodeSelector_def)
  have "IsScoped nodes \<longleftrightarrow> UserNamespaces c' \<noteq> [] \<or> PodDrainPolicies c' \<noteq> []" if "cd_Enabled (CustomDrain c')"
    using custom [OF that] nodes by (auto simp: validateCustomDrainScope_def split: if_splits)
  with m nodes modes pos custom show ?thesis by (simp add: NewNodeDrainEvaluator_def)
qed

section \<open>The properties on the small cluster\<close>

lemma small_gone: "FindEvictablePodsInNamespaceAndNode small_informers [gpu_pod] ''team'' ''n1'' None [None] = ([gpu_pod], Inr [gpu_pod])"
  by (simp add: FindEvictablePodsInNamespaceAndNode_def evictable_pods_def by_index_def NamespaceNodeIndexFunc_def
      matchesPodFilters_def filterEvictablePods_def isDaemonSetOwned_def filterPodsUsingEntity_def
      isPodStuckInTerminating_def isPodNotReady_def small_defs)

lemma small_delete:
  "DeletePodsAfterTimeout small_informers [gpu_pod] ''n1'' [''team''] 1 0 None [None] =
     ([], Some (EText ''force deleted pods, requeuing to verify deletion on node n1''))"
  unfolding DeletePodsAfterTimeout_def checkIfPodsPresentInNamespaceAndNode.simps small_gone
  by (simp add: getNodeDrainTimeout_def duration_def time_since_def minute_def sec_def forceDeletePods_def force_delete_request_def ErrorOrNil_def small_defs)

theorem delete_only_after_deadline_witness:
  "\<exists>acts. runs small_cluster [gpu_pod] acts [] \<and> EvictPod ''team'' ''a''
     \<lparr>GracePeriodSeconds = 0, DryRun = [], Preconditions = \<lparr>pre_UID = None, pre_ResourceVersion = None\<rparr>\<rparr> \<notin> set acts"
  using delete_only_after_deadline [OF small_delete] by (auto simp: small_informers_def)

definition small_event :: HealthEventWithStatus where
  "small_event = \<lparr>ev_CreatedAt = 0, ev_HealthEvent = zero_event\<lparr>NodeName := ''n1'', Id := ''now''\<rparr>,
     ev_HealthEventStatus = Some \<lparr>NodeQuarantined = AlreadyQuarantined, UserPodsEvictionStatus = Some ''InProgress''\<rparr>\<rparr>"

definition small_store :: "Status \<Rightarrow> (pod list, health_event) event_store" where
  "small_store st = \<lparr>FindHealthEventsByQuery = (\<lambda>_ _. Inr [\<lparr>se_document = zero_event, se_drainStatus = st\<rparr>]),
     decode_document = (\<lambda>ev. Inr ev)\<rparr>"

lemmas evaluate_defs = EvaluateEventWithDatabase_def checkPreconditions_def isTerminalStatus_def PartialDrainEntity_def
  handleAlreadyQuarantined_def isNodeAlreadyDrained_def GetNode_def UnmarshalJSON_def createEventKeys_def
  createCheckLevelKeys_def didDrainCompleteForEvent_def getHealthEventFromId_def doesDrainCoverPartialEntity_def
  small_event_def small_store_def small_evaluator_def small_config_def small_informers_def small_cluster_def
  zero_event_def status_defs

lemma small_already:
  "EvaluateEventWithDatabase small_evaluator (small_store StatusSucceeded) [] small_event =
     ([], Inr (with_status ActionMarkAlreadyDrained AlreadyDrained))"
  by (simp add: evaluate_defs)

theorem already_drained_sound_witness:
  "\<exists>ident. ident \<noteq> ''now'' \<and> proves_drained (small_store StatusSucceeded) [] ident None True"
proof -
  from already_drained_sound [OF small_already] show ?thesis
    by (auto simp: small_event_def zero_event_def small_evaluator_def small_config_def PartialDrainEntity_def)
qed

text \<open>A node whose only pod belongs to a daemon set counts as drained.\<close>

lemma small_find_none:
  "FindEvictablePodsInNamespaceAndNode small_informers [agent_pod] ''team'' ''n1'' None [Some (podModeFilter small_evaluator [] False)] =
     ([agent_pod], Inr [])"
  by (simp add: FindEvictablePodsInNamespaceAndNode_def evictable_pods_def by_index_def NamespaceNodeIndexFunc_def
      matchesPodFilters_def filterEvictablePods_def isDaemonSetOwned_def filterPodsUsingEntity_def small_defs)

lemma small_namespaces:
  "GetNamespacesMatchingPattern (globs small_lang) small_informers [agent_pod] ''*'' [] ''n1'' = ([agent_pod], Inr [''team''])"
  by code_simp

lemma small_parts:
  "informers small_evaluator = small_informers" "lang small_evaluator = small_lang" "config small_evaluator = small_config"
  by (simp_all add: small_evaluator_def)

lemma small_policy_scope:
  "evaluatePodPolicyActions small_evaluator [agent_pod] small_event None =
     ([agent_pod], Inr (with_status ActionUpdateStatus StatusSucceeded))"
proof -
  have "NodeName (ev_HealthEvent small_event) = ''n1''" "force_of small_event = False" "SystemNamespaces small_config = []"
    by (simp_all add: small_event_def zero_event_def force_of_def small_config_def)
  then show ?thesis
    by (simp add: evaluatePodPolicyActions_def Let_def small_parts small_namespaces small_find_none policy_candidates_def)
qed

lemma small_success:
  "EvaluateEventWithDatabase small_evaluator (small_store ''InProgress'') [agent_pod] small_event =
     ([agent_pod], Inr (with_status ActionUpdateStatus StatusSucceeded))"
proof -
  have "evaluateUserNamespaceActions small_evaluator [agent_pod] small_event None =
      evaluatePodPolicyActions small_evaluator [agent_pod] small_event None"
    by (simp add: evaluateUserNamespaceActions_def small_parts small_config_def)
  with small_policy_scope have builtin: "evaluateUserNamespaceActions small_evaluator [agent_pod] small_event None =
      ([agent_pod], Inr (with_status ActionUpdateStatus StatusSucceeded))" by simp
  have pre: "checkPreconditions small_event = None" "PartialDrainEntity (ev_HealthEvent small_event) (PartialDrainEnabled (config small_evaluator)) = Inr None"
    by (simp_all add: evaluate_defs)
  have entered: "handleAlreadyQuarantined small_evaluator (small_store ''InProgress'') [agent_pod] AlreadyQuarantined small_event None = None"
    by (simp add: evaluate_defs)
  have path: "shouldUseCustomDrain small_evaluator [agent_pod] (NodeName (ev_HealthEvent small_event)) = Inl False"
    by (simp add: shouldUseCustomDrain_def small_parts small_config_def)
  have "ev_HealthEventStatus small_event = Some \<lparr>NodeQuarantined = AlreadyQuarantined, UserPodsEvictionStatus = Some ''InProgress''\<rparr>"
    by (simp add: small_event_def)
  then show ?thesis by (simp add: EvaluateEventWithDatabase_def pre entered path builtin)
qed

theorem drain_success_sound_witness:
  "\<exists>nss. matched_during small_evaluator [agent_pod] [agent_pod] ''*'' ''n1'' nss \<and>
     list_all (\<lambda>ns. observed small_informers [agent_pod] [agent_pod] ns ''n1'' None [Some (podModeFilter small_evaluator [] False)] []) nss"
  using drain_success_sound [OF small_success]
  by (auto simp: small_evaluator_def small_config_def small_event_def PartialDrainEntity_def zero_event_def force_of_def list_all_iff)

text \<open>
  A timeout that does not fit a duration is accepted by the validation, wraps around, and is over at once.
\<close>

lemma long_timeout_wraps:
  "validateAndSetDefaults small_lang (small_config\<lparr>DeleteAfterTimeoutMinutes := 153722868\<rparr>) =
     Inr (small_config\<lparr>DeleteAfterTimeoutMinutes := 153722868\<rparr>)"
  "getNodeDrainTimeout small_informers w 153722868 (1000 * minute) < 0"
  by (simp_all add: validateAndSetDefaults_def small_config_def small_compile validateCustomDrainConfig_def
      getNodeDrainTimeout_def duration_def time_since_def minute_def sec_def small_informers_def small_cluster_def)

theorem validated_config_well_formed_witness:
  "\<exists>e. NewNodeDrainEvaluator small_lang (\<lambda>_. Inr []) small_config small_informers None = Inr e \<and> config e = small_config"
proof -
  have "validateAndSetDefaults small_lang small_config = Inr small_config"
    by (simp add: validateAndSetDefaults_def small_config_def small_compile validateCustomDrainConfig_def)
  from validated_config_well_formed [OF this] show ?thesis by blast
qed

end
