(* ===== verification/Worker_Properties.thy ===== *)
theory Worker_Properties
  imports Drain_Worker Drain_Properties State_Properties
begin

text \<open>
  What the worker of node-drainer guarantees: which events a cancellation reaches, however the watcher and
  the worker interleave, and that its handler finishes an event only when it is settled.
\<close>

section \<open>The tracker\<close>

text \<open>The accesses to the tracker, in the order they take its lock.\<close>

datatype tracker_op =
    Arrive cancellation
  | Check string string "Status option" int
  | Begin string string int
  | Finish string string

fun tracker_step :: "tracker_op \<Rightarrow> tracker \<Rightarrow> tracker" where
  "tracker_step (Arrive c) t = apply_cancellation c t"
| "tracker_step (Check e n st k) t = fst (isEventCancelled e n st k t)"
| "tracker_step (Begin e n k) t = markEventInProgress e n k t"
| "tracker_step (Finish e n) t = clearEventStatus e n t"

definition empty_tracker :: tracker where
  "empty_tracker = \<lparr>nodeEventsMap = [], cancelledNodes = []\<rparr>"

definition tracker_run :: "tracker_op list \<Rightarrow> tracker" where
  "tracker_run ops = fold tracker_step ops empty_tracker"

text \<open>The release of a node up to a cutoff.\<close>

definition releases :: "string \<Rightarrow> int \<Rightarrow> tracker_op \<Rightarrow> bool" where
  "releases n cutoff op \<longleftrightarrow> (\<exists>c. op = Arrive c \<and> cn_nodeName c = n \<and> cn_status c = UnQuarantined \<and>
     cutoff = cancellationCutoffFrom (cn_now c) (cn_createdAt c))"

definition cutoff_of :: "string \<Rightarrow> tracker \<Rightarrow> int option" where
  "cutoff_of n t = map_of (cancelledNodes t) n"

definition tracked :: "string \<Rightarrow> string \<Rightarrow> tracker \<Rightarrow> eventStatus option" where
  "tracked e n t = map_of (node_events t n) e"

lemma tracked_track: "tracked e n (track e' n' es t) = (if e = e' \<and> n = n' then Some es else tracked e n t)"
  by (auto simp: tracked_def track_def node_events_def update_conv')

lemma cutoff_track [simp]: "cutoff_of n (track e' n' es t) = cutoff_of n t"
  by (simp add: cutoff_of_def track_def)

lemma map_of_map_entries: "map_of (map (\<lambda>(k, v). (k, f v)) m) k = map_option f (map_of m k)"
  by (induction m) auto

lemma tracked_release:
  "tracked e n (handleUnQuarantinedCancellationLocked now n' created t) =
     (if n = n' then map_option (\<lambda>es. if eventAtOrBeforeCutoff (es_createdAt es) (cancellationCutoffFrom now created)
        then \<lparr>es_status = Cancelled, es_createdAt = es_createdAt es\<rparr> else es) (tracked e n t)
      else tracked e n t)"
  by (auto simp: tracked_def handleUnQuarantinedCancellationLocked_def cancelTrackedEventsAtOrBeforeCutoffLocked_def node_events_def
      Let_def update_conv' map_of_map_entries split: option.splits)

lemma cutoff_release:
  "cutoff_of n (handleUnQuarantinedCancellationLocked now n' created t) =
     (if n = n' then Some (cancellationCutoffFrom now created) else cutoff_of n t)"
  by (auto simp: cutoff_of_def handleUnQuarantinedCancellationLocked_def cancelTrackedEventsAtOrBeforeCutoffLocked_def Let_def
      update_conv' split: option.splits)

lemma tracked_clear: "tracked e n (clearEventStatus e' n' t) = (if e = e' \<and> n = n' then None else tracked e n t)"
proof (cases "map_of (nodeEventsMap t) n'")
  case (Some m)
  have "map_of m e = None" if "AList.delete e' m = []" "e \<noteq> e'"
    using that delete_conv' [of e' m] by (metis fun_upd_other map_of.simps(1))
  with Some show ?thesis
    by (auto simp: tracked_def clearEventStatus_def node_events_def Let_def update_conv' delete_conv' split: option.splits if_splits)
qed (auto simp: tracked_def clearEventStatus_def node_events_def)

lemma cutoff_clear [simp]: "cutoff_of n (clearEventStatus e' n' t) = cutoff_of n t"
  by (auto simp: cutoff_of_def clearEventStatus_def Let_def split: option.splits)

lemmas tracker_ops = apply_cancellation_def HandleCancellation_def markSpecificEventCancelledLocked_def isEventCancelled_def
  markEventInProgress_def tracked_track tracked_release tracked_clear cutoff_release

lemma cutoff_step:
  "cutoff_of n (tracker_step op t) = (if \<exists>c. releases n c op then Some (THE c. releases n c op) else cutoff_of n t)"
proof (cases "\<exists>c. releases n c op")
  case True
  then obtain c where c: "op = Arrive c" "cn_nodeName c = n" "cn_status c = UnQuarantined" unfolding releases_def by blast
  then have "(THE x. releases n x op) = cancellationCutoffFrom (cn_now c) (cn_createdAt c)"
    unfolding releases_def by (intro the_equality) auto
  with c True show ?thesis by (simp add: tracker_ops status_defs)
next
  case False
  then show ?thesis by (cases op) (auto simp: tracker_ops releases_def Let_def)
qed

lemma releases_unique: "releases n c op \<Longrightarrow> releases n c' op \<Longrightarrow> c = c'"
  by (auto simp: releases_def)

lemma cutoff_kept:
  "\<forall>op \<in> set ops. \<forall>c. \<not> releases n c op \<Longrightarrow> cutoff_of n (fold tracker_step ops t) = cutoff_of n t"
  by (induction ops arbitrary: t) (auto simp: cutoff_step)

text \<open>An operation that gives no reason to cancel the event \<^verbatim>\<open>e\<close> of node \<^verbatim>\<open>n\<close>, created at \<^verbatim>\<open>k\<close>.\<close>

fun spares :: "string \<Rightarrow> string \<Rightarrow> int \<Rightarrow> tracker_op \<Rightarrow> bool" where
  "spares e n k (Arrive c) \<longleftrightarrow>
     (cn_nodeName c = n \<longrightarrow> \<not> (cn_status c = Cancelled \<and> cn_eventID c = e) \<and>
        (cn_status c = UnQuarantined \<longrightarrow> \<not> eventAtOrBeforeCutoff k (cancellationCutoffFrom (cn_now c) (cn_createdAt c))))"
| "spares e n k (Check e' n' st k') \<longleftrightarrow> (e' = e \<and> n' = n \<longrightarrow> k' = k)"
| "spares e n k (Begin e' n' k') \<longleftrightarrow> (e' = e \<and> n' = n \<longrightarrow> k' = k)"
| "spares e n k (Finish e' n') \<longleftrightarrow> True"

definition spared :: "string \<Rightarrow> string \<Rightarrow> int \<Rightarrow> tracker \<Rightarrow> bool" where
  "spared e n k t \<longleftrightarrow>
     (\<forall>c. cutoff_of n t = Some c \<longrightarrow> \<not> eventAtOrBeforeCutoff k c) \<and>
     (\<forall>es. tracked e n t = Some es \<longrightarrow> es_status es \<noteq> Cancelled \<and> es_createdAt es = k)"

lemma spared_step: "spared e n k t \<Longrightarrow> spares e n k op \<Longrightarrow> spared e n k (tracker_step op t)"
  by (cases op) (auto simp: spared_def tracker_ops cutoff_of_def [symmetric] tracked_def [symmetric] Let_def status_defs StatusInProgress_def
      split: option.splits if_splits)

lemma spared_run: "spared e n k t \<Longrightarrow> list_all (spares e n k) ops \<Longrightarrow> spared e n k (fold tracker_step ops t)"
  by (induction ops arbitrary: t) (auto intro: spared_step)

text \<open>
  C25. However the watcher and the worker interleave, from the moment a release of a node is handled until the next
  release of the node is handled (which replaces the cutoff, also by an earlier one), every event of the node that was
  not created after the cutoff of the release is reported as cancelled when it is processed and before its pods are
  deleted (an event that itself announces a release excepted); and an event that was created after the cutoffs of
  all releases handled so far, and for which no cancellation of its own was handled, is not (its creation time being read
  the same each time it is handled).
\<close>

theorem cancellation_reaches:
  assumes "releases n c op" and "list_all (\<lambda>op. \<not> (\<exists>c. releases n c op)) later" and "st \<noteq> Some UnQuarantined"
    and "t = tracker_run (earlier @ op # later)"
  shows "(eventAtOrBeforeCutoff k c \<longrightarrow> snd (isEventCancelled e n st k t) \<and> isTimeoutEvictionCancelled e n k t) \<and>
    (list_all (spares e n k) (earlier @ op # later) \<longrightarrow> \<not> snd (isEventCancelled e n st k t) \<and> \<not> isTimeoutEvictionCancelled e n k t)"
proof -
  let ?t = "fold tracker_step earlier empty_tracker"
  have t: "t = fold tracker_step later (tracker_step op ?t)" by (simp add: assms(4) tracker_run_def)
  have "(THE x. releases n x op) = c" using assms(1) releases_unique by (intro the_equality) auto
  then have "cutoff_of n (tracker_step op ?t) = Some c" using assms(1) by (auto simp: cutoff_step)
  then have cut: "map_of (cancelledNodes t) n = Some c"
    using assms(2) unfolding t by (simp add: cutoff_kept list_all_iff cutoff_of_def [symmetric])
  have "spared e n k t" if "list_all (spares e n k) (earlier @ op # later)"
    unfolding assms(4) tracker_run_def
    by (rule spared_run [OF _ that]) (simp add: spared_def cutoff_of_def tracked_def node_events_def empty_tracker_def)
  with cut assms(3) show ?thesis
    by (auto simp: isEventCancelled_def isTimeoutEvictionCancelled_def spared_def cutoff_of_def tracked_def Let_def
        split: option.splits)
qed

theorem cancellation_reaches_witness:
  "snd (isEventCancelled ''old'' ''a'' (Some Quarantined) 5 (tracker_run [Begin ''old'' ''a'' 5,
      Arrive \<lparr>cn_eventID = ''r'', cn_nodeName = ''a'', cn_status = UnQuarantined, cn_createdAt = Some 7, cn_now = 9\<rparr>, Begin ''new'' ''a'' 8])) \<and>
   \<not> snd (isEventCancelled ''new'' ''a'' (Some Quarantined) 8 (tracker_run [Begin ''old'' ''a'' 5,
      Arrive \<lparr>cn_eventID = ''r'', cn_nodeName = ''a'', cn_status = UnQuarantined, cn_createdAt = Some 7, cn_now = 9\<rparr>, Begin ''new'' ''a'' 8]))"
proof -
  let ?c = "Arrive \<lparr>cn_eventID = ''r'', cn_nodeName = ''a'', cn_status = UnQuarantined, cn_createdAt = Some 7, cn_now = 9\<rparr>"
  have rel: "releases ''a'' 7 ?c" by (simp add: releases_def cancellationCutoffFrom_def)
  have later: "list_all (\<lambda>op. \<not> (\<exists>c. releases ''a'' c op)) [Begin ''new'' ''a'' 8]" by (simp add: releases_def)
  note reach = cancellation_reaches [OF rel later _ refl, where earlier = "[Begin ''old'' ''a'' 5]" and st = "Some Quarantined"]
  show ?thesis using reach [where k = 5 and e = "''old''"] reach [where k = 8 and e = "''new''"]
    by (simp add: eventAtOrBeforeCutoff_def status_defs cancellationCutoffFrom_def)
qed

section \<open>Results that settle an event\<close>

text \<open>A result that settles an event carries a terminal status.\<close>

definition settling :: "DrainActionResult \<Rightarrow> bool" where
  "settling res \<longleftrightarrow> Action res \<noteq> ActionSkip \<and>
     (Action res \<in> {ActionMarkAlreadyDrained, ActionUpdateStatus, ActionCancel} \<longrightarrow> isTerminalStatus (ResultStatus res))"

lemma settling_simps [simp]:
  "settling (wait_for d)" "isTerminalStatus s \<Longrightarrow> a \<noteq> ActionSkip \<Longrightarrow> settling (with_status a s)"
  "isTerminalStatus StatusSucceeded" "isTerminalStatus StatusFailed" "isTerminalStatus AlreadyDrained" "isTerminalStatus Cancelled"
  by (simp_all add: settling_def isTerminalStatus_def)

lemma getAction_settling: "getAction e w ns nodeName en = (w', res) \<Longrightarrow> settling res"
  by (auto simp: getAction_def Let_def handleDeleteAfterTimeoutNamespaces_def handleAllowCompletionNamespaces_def settling_def isTerminalStatus_def
      split: if_splits prod.splits option.splits)

lemma first_candidate_settling: "first_candidate e w nss nodeName en force m (policy_candidates cfg) = (w', Some res) \<Longrightarrow> settling res"
  by (auto simp: policy_candidates_def Let_def settling_def split: if_splits prod.splits)

lemma recheck_settling: "recheck_scope e w nss nodeName en force = (w', Inr res) \<Longrightarrow> settling res"
  by (induction nss arbitrary: w) (auto split: prod.splits sum.splits if_splits)

lemma builtin_settling: "evaluateUserNamespaceActions e w he en = (w', Inr res) \<Longrightarrow> settling res"
  by (auto simp: evaluateUserNamespaceActions_def evaluatePodPolicyActions_def Let_def
      split: if_splits prod.splits sum.splits option.splits
      dest: getAction_settling first_candidate_settling recheck_settling)

lemma custom_settling: "evaluateCustomDrain e c w he en = (w', Inr res) \<Longrightarrow> settling res"
  by (auto simp: evaluateCustomDrain_def Let_def settling_def isTerminalStatus_def split: if_splits prod.splits sum.splits)

lemma evaluate_settling:
  assumes "EvaluateEventWithDatabase e store w he = (w', Inr res)" and "ev_HealthEventStatus he = Some st"
  shows "settling res \<or> Action res = ActionSkip \<and>
    (NodeQuarantined st = [] \<or> NodeQuarantined st = UnQuarantined \<or> (\<exists>x. UserPodsEvictionStatus st = Some x \<and> isTerminalStatus x))"
    and "NodeQuarantined st = UnQuarantined \<Longrightarrow> Action res = ActionSkip"
proof -
  have pre: "settling x \<or> Action x = ActionSkip \<and>
      (NodeQuarantined st = [] \<or> NodeQuarantined st = UnQuarantined \<or> (\<exists>y. UserPodsEvictionStatus st = Some y \<and> isTerminalStatus y))"
    if "checkPreconditions he = Some x" for x
    using that assms(2) by (auto simp: checkPreconditions_def split: if_splits option.splits)
  have quar: "settling x" if "handleAlreadyQuarantined e store w q he en = Some x" for q en x
    using that by (auto simp: handleAlreadyQuarantined_def split: if_splits sum.splits prod.splits)
  have use: "settling x" if "shouldUseCustomDrain e w n = Inr x" for n x
    using that by (auto simp: shouldUseCustomDrain_def split: if_splits sum.splits)
  show "settling res \<or> Action res = ActionSkip \<and>
    (NodeQuarantined st = [] \<or> NodeQuarantined st = UnQuarantined \<or> (\<exists>x. UserPodsEvictionStatus st = Some x \<and> isTerminalStatus x))"
    using assms(1) pre quar use unfolding EvaluateEventWithDatabase_def Let_def
    by (auto split: option.splits sum.splits bool.splits dest: builtin_settling custom_settling)
  show "Action res = ActionSkip" if "NodeQuarantined st = UnQuarantined"
    using assms that by (auto simp: EvaluateEventWithDatabase_def checkPreconditions_def)
qed

text \<open>
  The journal of a world: the document updates that the database has accepted so far. What the worker relies on:
  an update that is reported as done is in the journal, and no other request takes anything out of it (other
  clients may add to it at any time).
\<close>

type_synonym 'id journal = "('id document_filter \<times> document_update) list"

definition grows :: "('w \<Rightarrow> 'j list) \<Rightarrow> 'w \<Rightarrow> 'w \<Rightarrow> bool" where
  "grows journal w w' \<longleftrightarrow> (\<exists>rest. journal w' = journal w @ rest)"

lemma grows_refl [simp]: "grows journal w w"
  by (simp add: grows_def)

lemma grows_trans: "grows journal w w1 \<Longrightarrow> grows journal w1 w' \<Longrightarrow> grows journal w w'"
  by (auto simp: grows_def)

definition quiet_cluster :: "'w cluster \<Rightarrow> ('w \<Rightarrow> 'j list) \<Rightarrow> bool" where
  "quiet_cluster c journal \<longleftrightarrow>
     (\<forall>w. grows journal w (fst (read_pods c w))) \<and>
     (\<forall>w ns name opts. grows journal w (fst (delete_request c w ns name opts)) \<and> grows journal w (fst (evict_request c w ns name opts))) \<and>
     (\<forall>w n reason msg. grows journal w (record_event c w n reason msg))"

definition quiet_nodes :: "'w NodeClient \<Rightarrow> ('w \<Rightarrow> 'j list) \<Rightarrow> bool" where
  "quiet_nodes client journal \<longleftrightarrow>
     (\<forall>w name. grows journal w (fst (NodeClient.GetNode client w name))) \<and> (\<forall>w n. grows journal w (fst (UpdateNode client w n)))"

definition quiet_custom :: "'w Client \<Rightarrow> ('w \<Rightarrow> 'j list) \<Rightarrow> bool" where
  "quiet_custom c journal \<longleftrightarrow>
     (\<forall>w res ns cr dry. grows journal w (fst (cr_create c w res ns cr dry))) \<and>
     (\<forall>w res ns name dry. grows journal w (fst (cr_delete c w res ns name dry)))"

definition journalled :: "('w, 'doc, 'id) drain_reconciler \<Rightarrow> ('w \<Rightarrow> 'id journal) \<Rightarrow> bool" where
  "journalled r journal \<longleftrightarrow>
     quiet_cluster (cluster (dr_informers r)) journal \<and> quiet_nodes (dr_nodes r) journal \<and> (\<exists>steps. retries steps (dr_onError r)) \<and>
     (\<forall>c. dr_customDrainClient r = Some c \<longrightarrow> quiet_custom c journal) \<and>
     (\<forall>w f u w' e. dr_UpdateDocument r w f u = (w', e) \<longrightarrow> grows journal w w' \<and>
        (e = None \<longrightarrow> (\<exists>pre post. journal w' = journal w @ pre @ (f, u) # post)))"

text \<open>Between two states the database accepted an update of the document of the event to a terminal eviction status.\<close>

definition records_terminal :: "('w, 'doc, 'id) drain_reconciler \<Rightarrow> ('w \<Rightarrow> 'id journal) \<Rightarrow> 'doc \<Rightarrow> 'w \<Rightarrow> 'w \<Rightarrow> bool" where
  "records_terminal r journal event w w' \<longleftrightarrow>
     (\<exists>documentID status message rest pre post. ExtractDocumentIDNative (dr_codec r) event = Inr documentID \<and> isTerminalStatus status \<and>
        journal w' = journal w @ pre @
          ([(''_id'', FIs documentID)], (evictionStatusPath, UMap [(''status'', status), (''message'', message)]) # rest) # post)"

lemma records_before: "grows journal w0 w \<Longrightarrow> records_terminal r journal event w w' \<Longrightarrow> records_terminal r journal event w0 w'"
  unfolding grows_def records_terminal_def by (elim exE conjE) (simp, metis append.assoc)

lemma records_after: "records_terminal r journal event w w' \<Longrightarrow> grows journal w' w1 \<Longrightarrow> records_terminal r journal event w w1"
  unfolding grows_def records_terminal_def by (elim exE conjE) (simp, blast)

text \<open>Reads, deletions and label updates leave the journal alone.\<close>

lemma runs_grows: "runs c w acts w' \<Longrightarrow> quiet_cluster c journal \<Longrightarrow> grows journal w w'"
proof (induction rule: runs.induct)
  case (read w w1 r acts w')
  then have "grows journal w w1" unfolding quiet_cluster_def by (metis fst_conv)
  from grows_trans [OF this read.IH [OF read.prems]] show ?case .
next
  case (delete w ns name opts w1 r acts w')
  then have "grows journal w w1" unfolding quiet_cluster_def by (metis fst_conv)
  from grows_trans [OF this delete.IH [OF delete.prems]] show ?case .
next
  case (evict w ns name opts w1 r acts w')
  then have "grows journal w w1" unfolding quiet_cluster_def by (metis fst_conv)
  from grows_trans [OF this evict.IH [OF evict.prems]] show ?case .
next
  case (event w node reason message acts w')
  then have "grows journal w (record_event c w node reason message)" unfolding quiet_cluster_def by blast
  from grows_trans [OF this event.IH [OF event.prems]] show ?case .
qed simp

lemma collect_grows:
  "collect_namespaces e w force nodeName uns ns = (w', res) \<Longrightarrow> quiet_cluster (cluster (informers e)) journal \<Longrightarrow> grows journal w w'"
  by (induction uns arbitrary: w ns)
    (auto split: prod.splits sum.splits dest!: namespaces_runs runs_grows intro: grows_trans)

lemma recheck_grows:
  "recheck_scope e w nss nodeName en force = (w', res) \<Longrightarrow> quiet_cluster (cluster (informers e)) journal \<Longrightarrow> grows journal w w'"
  by (induction nss arbitrary: w)
    (auto split: prod.splits sum.splits if_splits dest!: find_runs runs_grows intro: grows_trans)

lemma policy_grows:
  assumes "evaluatePodPolicyActions e w he en = (w', res)" and q: "quiet_cluster (cluster (informers e)) journal"
  shows "grows journal w w'"
proof -
  have ns: "grows journal x y" if "GetNamespacesMatchingPattern pt (informers e) x inc exc n = (y, z)" for pt x y z inc exc n
    using runs_grows [OF namespaces_runs [OF that] q] .
  have ls: "grows journal x y" if "listPodsByMode e x nss n en f m = (y, z)" for x y z nss n f m
    using listPodsByMode_runs [OF that] runs_grows [OF _ q] by blast
  have fc: "grows journal x y" if "first_candidate e x nss n en f m cs = (y, z)" for x y z nss n f m cs
    using first_candidate_runs [OF that] runs_grows [OF _ q] by blast
  show ?thesis using assms(1) unfolding evaluatePodPolicyActions_def Let_def
    by (auto split: prod.splits sum.splits option.splits dest!: ns ls fc recheck_grows [OF _ q] intro: grows_trans)
qed

lemma evaluate_grows:
  assumes "EvaluateEventWithDatabase e store w he = (w', res)" and q: "quiet_cluster (cluster (informers e)) journal"
  shows "grows journal w w'"
proof -
  have act: "grows journal x y" if "getAction e x ns n en = (y, z)" for x y z ns n en
    using getAction_success [OF that] runs_grows [OF _ q] by blast
  have rules: "grows journal w w'" if "evaluateUserNamespaceActions e w he en = (w', x)" for en x
    using that unfolding evaluateUserNamespaceActions_def Let_def
    by (auto split: if_splits prod.splits sum.splits dest!: act collect_grows [OF _ q] policy_grows [OF _ q] intro: grows_trans)
  have custom: "grows journal w w'" if "evaluateCustomDrain e c w he en = (w', x)" for c en x
    using that runs_grows [OF _ q] unfolding evaluateCustomDrain_def Let_def
    by (auto split: if_splits sum.splits prod.splits dest!: namespaces_runs)
  show ?thesis using assms(1) unfolding EvaluateEventWithDatabase_def Let_def
    by (auto split: option.splits sum.splits prod.splits bool.splits dest: rules custom)
qed

lemma retry_run_grows:
  assumes "\<And>s s' c. fn s = (s', c) \<Longrightarrow> grows journal (fst s) (fst s')"
  shows "retry_run k retriable fn s = (s', c) \<Longrightarrow> grows journal (fst s) (fst s')"
proof (induction k arbitrary: s)
  case (Suc k)
  obtain s1 c1 where f: "fn s = (s1, c1)" by (cases "fn s")
  have "s' = s1 \<or> retry_run k retriable fn s1 = (s', c)"
    using Suc.prems f by (auto split: completion.splits option.splits if_splits)
  then show ?case
  proof
    assume "s' = s1"
    with assms [OF f] show ?thesis by simp
  next
    assume "retry_run k retriable fn s1 = (s', c)"
    from grows_trans [OF assms [OF f] Suc.IH [OF this]] show ?thesis .
  qed
qed simp

lemma label_attempt_grows:
  assumes "quiet_nodes client journal" and "update_attempt client n v rm s = (s', c)"
  shows "grows journal (fst s) (fst s')"
proof -
  have get: "grows journal x y" if "NodeClient.GetNode client x n = (y, z)" for x y z
    using assms(1) that unfolding quiet_nodes_def by (metis fst_conv)
  have upd: "grows journal x y" if "UpdateNode client x m = (y, z)" for x y z m
    using assms(1) that unfolding quiet_nodes_def by (metis fst_conv)
  show ?thesis using assms(2) unfolding update_attempt_def Let_def
    by (auto split: prod.splits sum.splits if_splits option.splits dest!: get upd intro: grows_trans)
qed

lemma label_grows:
  assumes "journalled r journal" and "update_state_label r nodeName v rm s = (s', m, c)"
  shows "grows journal (ws_world s) (ws_world s')"
proof -
  obtain w' where run: "dr_onError r IsConflict (update_attempt (dr_nodes r) nodeName v rm) (ws_world s, False) = ((w', m), c)"
    and s': "s' = s\<lparr>ws_world := w'\<rparr>"
    using assms(2) by (auto simp: update_state_label_def UpdateNVSentinelStateNodeLabel_def split: prod.splits)
  obtain steps outcome where "retry_run steps IsConflict (update_attempt (dr_nodes r) nodeName v rm) (ws_world s, False) = ((w', m), outcome)"
    using assms(1) run unfolding journalled_def retries_def by blast
  with retry_run_grows [OF label_attempt_grows] assms(1) s' show ?thesis unfolding journalled_def by fastforce
qed

lemma worlds_kept [simp]:
  "ws_world (with_tracker f s) = ws_world s" "ws_world (with_nodes g s) = ws_world s" "ws_world (arrive cs s) = ws_world s"
  by (simp_all add: with_tracker_def with_nodes_def arrive_def)

lemma drain_status_grows:
  assumes "journalled r journal" and "updateNodeDrainStatus r nodeName q b s = (s', c)"
  shows "grows journal (ws_world s) (ws_world s')"
  using assms(2) label_grows [OF assms(1)]
  by (auto simp: updateNodeDrainStatus_def split: if_splits prod.splits completion.splits option.splits)

lemma delete_cr_grows:
  assumes "journalled r journal" and "deleteCustomDrainCRIfEnabled r nodeName event s = (s', c)"
  shows "grows journal (ws_world s) (ws_world s')"
proof -
  have "grows journal w (fst (DeleteDrainCR cl name w))" if "dr_customDrainClient r = Some cl" for cl name w
    using assms(1) that by (auto simp: DeleteDrainCR_def Let_def journalled_def quiet_custom_def split: sum.split prod.split) (metis fst_conv)
  with assms(2) show ?thesis by (auto simp: deleteCustomDrainCRIfEnabled_def split: if_splits sum.splits option.splits)
qed

lemma pods_to_drain_grows:
  "pods_to_drain i nss nodeName en acc w = (w', res) \<Longrightarrow> quiet_cluster (cluster i) journal \<Longrightarrow> grows journal w w'"
  by (induction nss arbitrary: w acc)
    (auto split: prod.splits sum.splits dest!: find_runs runs_grows intro: grows_trans)

lemma create_cr_grows:
  assumes "journalled r journal" and "dr_customDrainClient r = Some cl" and "CreateDrainCR cl d w = (w', res)"
  shows "grows journal w w'"
  using assms by (auto simp: CreateDrainCR_def Let_def journalled_def quiet_custom_def split: sum.splits prod.splits) (metis fst_conv)

section \<open>What a finished handler has stored\<close>

lemma accepted:
  assumes "journalled r journal" and "ExtractDocumentIDNative (dr_codec r) event = Inr i" and "isTerminalStatus status"
    and "dr_UpdateDocument r w [(''_id'', FIs i)] ((evictionStatusPath, UMap [(''status'', status), (''message'', message)]) # rest) = (w', None)"
  shows "records_terminal r journal event w w'"
  using assms unfolding journalled_def records_terminal_def by metis

lemma update_records:
  assumes "journalled r journal" and "updateNodeUserPodsEvictedStatus r event status s = (s', Returned None)" and "isTerminalStatus status"
  shows "records_terminal r journal event (ws_world s) (ws_world s')"
proof -
  from assms(2) obtain i w' where i: "ExtractDocumentIDNative (dr_codec r) event = Inr i"
    and upd: "dr_UpdateDocument r (ws_world s) [(''_id'', FIs i)] (evicted_update r event status (ws_world s)) = (w', None)" "s' = s\<lparr>ws_world := w'\<rparr>"
    by (auto simp: updateNodeUserPodsEvictedStatus_def split: sum.splits prod.splits)
  have "\<exists>rest. evicted_update r event status (ws_world s) =
      (evictionStatusPath, UMap [(''status'', status), (''message'', eviction_message (dr_codec r) event)]) # rest"
    by (simp add: evicted_update_def Let_def)
  with accepted [OF assms(1) i assms(3)] upd show ?thesis by auto
qed

lemma failed_records:
  assumes "journalled r journal" and "setDrainFailedStatus r event reason s = (s', Returned None)"
  shows "records_terminal r journal event (ws_world s) (ws_world s')"
proof -
  from assms(2) obtain i w' where i: "ExtractDocumentIDNative (dr_codec r) event = Inr i" and s': "s' = s\<lparr>ws_world := w'\<rparr>"
    and upd: "dr_UpdateDocument r (ws_world s) [(''_id'', FIs i)] [(evictionStatusPath, UMap [(''status'', StatusFailed), (''message'', reason)]),
       (''healtheventstatus.spanids.node-drainer'', UText (dr_span r (ws_world s)))] = (w', None)"
    unfolding setDrainFailedStatus_def by (auto split: sum.splits prod.splits)
  from accepted [OF assms(1) i settling_simps(4) upd] s' show ?thesis by simp
qed

lemma skip_records:
  assumes j: "journalled r journal" and "executeSkip r nodeName st event s = (s', Returned None)" and "NodeQuarantined st = UnQuarantined"
  shows "records_terminal r journal event (ws_world s) (ws_world s')"
  using assms(2,3)
  by (auto simp: executeSkip_def split: if_splits prod.splits completion.splits option.splits
      dest!: update_records [OF j _ settling_simps(3)] drain_status_grows [OF j] intro: records_after)

lemma mark_records:
  assumes j: "journalled r journal" and "handleMarkAlreadyDrained r eventID nodeName st event status s = (s', Returned None)" and t: "isTerminalStatus status"
  shows "records_terminal r journal event (ws_world s) (ws_world s')"
  using assms(2)
  by (auto simp: handleMarkAlreadyDrained_def executeMarkAlreadyDrained_def split: if_splits prod.splits completion.splits option.splits
      dest!: update_records [OF j _ t] delete_cr_grows [OF j] intro: records_after)

lemma status_records:
  assumes j: "journalled r journal" and "executeUpdateStatus r nodeName st event status s = (s', Returned None)" and t: "isTerminalStatus status"
  shows "records_terminal r journal event (ws_world s) (ws_world s')"
proof -
  have after: "records_terminal r journal event (ws_world s) (ws_world s')"
    if "updateNodeUserPodsEvictedStatus r event status s2 = (s', Returned None)"
      and "update_state_label r nodeName v False s = (s1, m, c)" and "ws_world s2 = ws_world s1" for s1 s2 m c v
    using records_before [OF label_grows [OF j that(2)]] update_records [OF j that(1) t] that(3) by simp
  show ?thesis using assms(2)
    by (auto simp: executeUpdateStatus_def Let_def split: if_splits prod.splits completion.splits option.splits intro: after)
qed

lemma cancel_records:
  assumes j: "journalled r journal" and "executeCancelStatus r nodeName st event status s = (s', Returned None)" and t: "isTerminalStatus status"
  shows "records_terminal r journal event (ws_world s) (ws_world s')"
  using assms(2)
  by (auto simp: executeCancelStatus_def split: if_splits prod.splits completion.splits option.splits dest!: update_records [OF j _ t])

lemma terminal_action_records:
  assumes j: "journalled r journal" and run: "executeTerminalAction r action he st event eventID s = (s', Returned None)" and set: "settling action"
  shows "records_terminal r journal event (ws_world s) (ws_world s')"
proof (cases "isTerminalStatus (ResultStatus action)")
  case True
  note records = mark_records [OF j _ True] status_records [OF j _ True] cancel_records [OF j _ True]
  show ?thesis using run set
    by (auto simp: executeTerminalAction_def settling_def Let_def split: DrainAction.splits dest!: records)
next
  case False
  then show ?thesis using run set by (auto simp: executeTerminalAction_def settling_def Let_def split: DrainAction.splits)
qed

lemma cancelled_records:
  assumes j: "journalled r journal" and "handleCancelledEvent r nodeName st event eventID s = (s', Returned None)"
  shows "records_terminal r journal event (ws_world s) (ws_world s')"
  using assms(2)
  by (auto simp: handleCancelledEvent_def Let_def and_then_def split: if_splits prod.splits completion.splits option.splits
      dest!: update_records [OF j _ settling_simps(6)] delete_cr_grows [OF j] label_grows [OF j]
      elim!: records_after intro: grows_trans)

lemma custom_records:
  assumes j: "journalled r journal" and "executeCustomDrain r action he event s = (s', Returned None)"
  shows "records_terminal r journal event (ws_world s) (ws_world s')"
proof -
  have q: "quiet_cluster (cluster (dr_informers r)) journal" using j by (simp add: journalled_def)
  have err: "records_terminal r journal event (ws_world s1) (ws_world s')"
    if "handleCustomDrainCRCreationError r e n event s1 = (s', Returned None)" for e n s1
    using that by (auto simp: handleCustomDrainCRCreationError_def split: if_splits prod.splits completion.splits option.splits
        dest!: failed_records [OF j] label_grows [OF j] intro: records_after)
  have made: "records_terminal r journal event (ws_world s) (ws_world s')"
    if "pods_to_drain (dr_informers r) nss (NodeName he) en [] (ws_world s) = (w1, pods)" "dr_customDrainClient r = Some cl"
      "CreateDrainCR cl d w1 = (w2, Inl e)" "handleCustomDrainCRCreationError r e (NodeName he) event (s\<lparr>ws_world := w2\<rparr>) = (s', Returned None)"
    for nss en w1 pods cl d w2 e
    using records_before [OF grows_trans [OF pods_to_drain_grows [OF that(1) q] create_cr_grows [OF j that(2,3)]]] err [OF that(4)] by simp
  show ?thesis using assms(2) unfolding executeCustomDrain_def Let_def
    by (auto split: sum.splits prod.splits option.splits intro: made)
qed

section \<open>When a handler finishes an event\<close>

text \<open>Cancellations of other nodes leave the state of the event as it is.\<close>

definition about :: "string \<Rightarrow> cancellation \<Rightarrow> bool" where
  "about n c \<longleftrightarrow> cn_nodeName c = n \<and> cn_status c \<in> {Cancelled, UnQuarantined}"

lemma unrelated_arrivals:
  assumes "\<forall>c \<in> set cs. \<not> about n c"
  shows "tracked e n (fold apply_cancellation cs t) = tracked e n t \<and> cutoff_of n (fold apply_cancellation cs t) = cutoff_of n t"
  using assms by (induction cs arbitrary: t) (auto simp: about_def tracker_ops)

lemma not_cancelled_iff:
  "isTimeoutEvictionCancelled e n k t \<longleftrightarrow>
    (\<exists>es. tracked e n t = Some es \<and> es_status es = Cancelled) \<or> (\<exists>c. cutoff_of n t = Some c \<and> eventAtOrBeforeCutoff k c)"
  by (auto simp: isTimeoutEvictionCancelled_def tracked_def cutoff_of_def split: option.splits)

lemma timeout_settled:
  assumes "executeTimeoutEviction arrivals r action he eventID s = (s', Returned None)"
    and "\<not> isTimeoutEvictionCancelled eventID (NodeName (ev_HealthEvent he)) (ev_CreatedAt he) (ws_tracker s)"
  shows "\<exists>c \<in> set (arrivals 1 @ arrivals 2). about (NodeName (ev_HealthEvent he)) c"
proof (rule ccontr)
  let ?n = "NodeName (ev_HealthEvent he)"
  assume "\<not> ?thesis"
  then have none: "\<forall>c \<in> set (arrivals 1). \<not> about ?n c" "\<forall>c \<in> set (arrivals 2). \<not> about ?n c" by auto
  have "\<not> isTimeoutEvictionCancelled eventID ?n (ev_CreatedAt he) (fold apply_cancellation (arrivals 1) (ws_tracker s))"
    "\<not> isTimeoutEvictionCancelled eventID ?n (ev_CreatedAt he) (fold apply_cancellation (arrivals 2) (fold apply_cancellation (arrivals 1) (ws_tracker s)))"
    using assms(2) unfolding not_cancelled_iff by (simp_all add: unrelated_arrivals none)
  with assms(1) show False
    by (auto simp: executeTimeoutEviction_def Let_def arrive_def with_tracker_def split: prod.splits option.splits if_splits)
qed

lemma drain_status_tracker: "updateNodeDrainStatus r nodeName q b s = (s', c) \<Longrightarrow> ws_tracker s' = ws_tracker s"
  by (auto simp: updateNodeDrainStatus_def update_state_label_def with_nodes_def split: if_splits prod.splits completion.splits option.splits)

lemma drain_action_settled:
  assumes j: "journalled r journal" and "executeDrainAction arrivals r action he st event eventID s = (s', Returned None)"
    and "\<not> isTimeoutEvictionCancelled eventID (NodeName (ev_HealthEvent he)) (ev_CreatedAt he) (ws_tracker s)"
  shows "records_terminal r journal event (ws_world s) (ws_world s') \<or> (\<exists>c \<in> set (arrivals 1 @ arrivals 2). about (NodeName (ev_HealthEvent he)) c)"
proof (cases "Action action")
  case ActionEvictWithTimeout
  with assms(2) obtain s1 where s1: "ws_tracker s1 = ws_tracker s" and run: "executeTimeoutEviction arrivals r action he eventID s1 = (s', Returned None)"
    by (auto simp: executeDrainAction_def and_then_def Let_def split: prod.splits completion.splits dest: drain_status_tracker)
  from timeout_settled [OF run] assms(3) s1 show ?thesis by simp
next
  case ActionCreateCR
  with assms(2) show ?thesis
    by (auto simp: executeDrainAction_def and_then_def Let_def split: prod.splits completion.splits
        dest!: custom_records [OF j] drain_status_grows [OF j] intro: records_before)
qed (use assms(2) in \<open>auto simp: executeDrainAction_def and_then_def Let_def executeImmediateEviction_def executeCheckCompletion_def
    split: prod.splits completion.splits sum.splits if_splits\<close>)

lemma with_document_id_simps [simp]:
  "ev_CreatedAt (with_document_id cd event he) = ev_CreatedAt he" "ev_HealthEventStatus (with_document_id cd event he) = ev_HealthEventStatus he"
  "NodeName (ev_HealthEvent (with_document_id cd event he)) = NodeName (ev_HealthEvent he)"
  by (simp_all add: with_document_id_def split: sum.split)

lemma not_cancelled_begun:
  assumes "isEventCancelled e n (Some q) k t = (t', False)" and "q \<noteq> UnQuarantined" and "\<forall>c \<in> set cs. \<not> about n c"
  shows "\<not> isTimeoutEvictionCancelled e n k (markEventInProgress e n k (fold apply_cancellation cs t'))"
proof -
  have t': "t' = t" and "\<not> (\<exists>c. cutoff_of n t = Some c \<and> eventAtOrBeforeCutoff k c)"
    using assms(1,2) by (auto simp: isEventCancelled_def cutoff_of_def Let_def split: if_splits option.splits)
  then show ?thesis unfolding not_cancelled_iff
    by (simp add: markEventInProgress_def tracked_track t' unrelated_arrivals [OF assms(3)] StatusInProgress_def status_defs)
qed

text \<open>
  C26. A run of the handler of node-drainer that returns no error, for an event queued under its own node, has settled the
  event: during the run the database accepted an update of its document to a terminal eviction
  status (succeeded, failed, cancelled or already drained), or the document was read with one; the only exception is that a
  cancellation for the node arrived while the handler ran. After any other run the worker puts the event back.
\<close>

theorem finished_event_settled:
  assumes j: "journalled r journal" and "ProcessEventGeneric arrivals r event nodeName s = (s', Returned None)"
    and "ParseHealthEventFromEvent (dr_codec r) event = Inr he" and "ev_HealthEventStatus he = Some st"
    and "NodeName (ev_HealthEvent he) = nodeName"
  shows "records_terminal r journal event (ws_world s) (ws_world s') \<or> (\<exists>x. UserPodsEvictionStatus st = Some x \<and> isTerminalStatus x) \<or>
    (\<exists>c \<in> set (arrivals 0 @ arrivals 1 @ arrivals 2). about nodeName c)"
proof -
  let ?e = "ExtractEventID (dr_codec r) event" and ?he = "with_document_id (dr_codec r) event he"
  obtain t cancelled where check: "isEventCancelled ?e nodeName (Some (NodeQuarantined st)) (ev_CreatedAt he) (ws_tracker s) = (t, cancelled)"
    by (metis prod.exhaust)
  have default: "NodeQuarantined st \<noteq> []"
    using assms(3,4) by (auto simp: ParseHealthEventFromEvent_def StatusNotStarted_def split: sum.splits option.splits if_splits)
  show ?thesis
  proof (cases cancelled)
    case True
    with assms check show ?thesis by (auto simp: ProcessEventGeneric_def Let_def dest!: cancelled_records [OF j])
  next
    case False
    let ?s2 = "with_tracker (markEventInProgress ?e nodeName (ev_CreatedAt he)) (arrive (arrivals 0) (s\<lparr>ws_tracker := t\<rparr>))"
    obtain w got where ev: "EvaluateEventWithDatabase (dr_evaluator r) (dr_healthEventStore r) (ws_world ?s2) ?he = (w, got)" by (metis prod.exhaust)
    then obtain action where got: "got = Inr action"
      and run: "executeAction arrivals r action ?he st event ?e (?s2\<lparr>ws_world := w\<rparr>) = (s', Returned None)"
      using assms check False by (auto simp: ProcessEventGeneric_def Let_def split: sum.splits)
    note sound = evaluate_settling [OF ev [unfolded got], of st]
    have "quiet_cluster (cluster (dr_informers r)) journal" using j by (simp add: journalled_def)
    from evaluate_grows [OF ev this] have first: "grows journal (ws_world s) (ws_world (?s2\<lparr>ws_world := w\<rparr>))" by simp
    show ?thesis
    proof (cases "isTerminalAction (Action action)")
      case True
      with run have fin: "executeTerminalAction r action ?he st event ?e (?s2\<lparr>ws_world := w\<rparr>) = (s', Returned None)"
        by (simp add: executeAction_def)
      show ?thesis
      proof (cases "settling action")
        case True
        from records_before [OF first terminal_action_records [OF j fin True]] show ?thesis ..
      next
        case False
        with sound(1) assms(4) default have skip: "Action action = ActionSkip"
          "NodeQuarantined st = UnQuarantined \<or> (\<exists>x. UserPodsEvictionStatus st = Some x \<and> isTerminalStatus x)" by auto
        with fin show ?thesis
          by (auto simp: executeTerminalAction_def Let_def dest!: skip_records [OF j] intro: records_before [OF first])
      qed
    next
      case False
      with run have drain: "executeDrainAction arrivals r action ?he st event ?e (?s2\<lparr>ws_world := w\<rparr>) = (s', Returned None)"
        by (simp add: executeAction_def)
      have live: "NodeQuarantined st \<noteq> UnQuarantined" using False sound(2) assms(4) by (auto simp: isTerminalAction_def)
      show ?thesis
      proof (cases "\<exists>c \<in> set (arrivals 0). about nodeName c")
        case False
        with not_cancelled_begun [OF _ live, of ?e nodeName "ev_CreatedAt he" "ws_tracker s" t "arrivals 0"] check \<open>\<not> cancelled\<close>
        have "\<not> isTimeoutEvictionCancelled ?e nodeName (ev_CreatedAt he) (ws_tracker (?s2\<lparr>ws_world := w\<rparr>))"
          by (simp add: with_tracker_def arrive_def)
        with drain_action_settled [OF j drain] assms(5) show ?thesis using records_before [OF first, of r event] by auto
      qed auto
    qed
  qed
qed


text \<open>A small worker: the document is the decoded event, the database accepts or refuses every update.\<close>

definition plain_codec :: "(raw_event, nat) document_codec" where
  "plain_codec = \<lparr>decode_normalized = Inr, decode_generic = Inr, eviction_message = (\<lambda>_. []), ExtractDocumentIDNative = (\<lambda>_. Inr 1),
     ExtractDocumentID = (\<lambda>_. Inr ''1''), ExtractEventID = (\<lambda>_. ''1''), id_text = (\<lambda>_. ''1''), ensure_id = (\<lambda>_ d. d)\<rparr>"

definition small_worker :: "error option \<Rightarrow> (pod list, raw_event, nat) drain_reconciler" where
  "small_worker answer = \<lparr>dr_evaluator = small_evaluator\<lparr>config := small_config\<lparr>PodDrainPolicies := [], UserNamespaces :=
       [\<lparr>un_Name = ''*'', un_Mode = ModeDeleteAfterTimeout\<rparr>]\<rparr>\<rparr>,
     dr_healthEventStore = \<lparr>FindHealthEventsByQuery = (\<lambda>_ _. Inr []), decode_document = (\<lambda>_. Inl (EText ''none''))\<rparr>,
     dr_codec = plain_codec, dr_UpdateDocument = (\<lambda>w _ _. (w, answer)), dr_FindDocument = (\<lambda>_ _. Inl (EText ''none'')),
     dr_onError = (\<lambda>_ fn st. fn st),
     dr_nodes = \<lparr>NodeClient.GetNode = (\<lambda>w _. (w, Inl (EText ''down''))), NodeClient.UpdateNode = (\<lambda>w _. (w, Some (EText ''down'')))\<rparr>,
     dr_customDrainClient = None, isNoKindMatch = (\<lambda>_. False), dr_error_text = (\<lambda>_. []), dr_now = (\<lambda>_. 9), dr_span = (\<lambda>_. [])\<rparr>"

definition quarantined_event :: "Status \<Rightarrow> raw_event" where
  "quarantined_event q = \<lparr>raw_CreatedAt = 5, raw_HealthEvent = Some (zero_event\<lparr>NodeName := ''n1'', IsFatal := True\<rparr>),
     raw_Status = Some \<lparr>NodeQuarantined = q, UserPodsEvictionStatus = Some StatusInProgress\<rparr>\<rparr>"

definition worker_start :: "pod list \<Rightarrow> (pod list, nat) worker_state" where
  "worker_start pods = \<lparr>ws_world = pods, ws_tracker = empty_tracker, ws_queue = newNodeEventPriorityQueue\<rparr>"

text \<open>A worker whose world is the journal itself, in a cluster without pods.\<close>

definition idle_cluster :: "'w cluster" where
  "idle_cluster = \<lparr>read_pods = (\<lambda>w. (w, Inr [])), read_node = (\<lambda>w n. Inr None), time_now = (\<lambda>_. 9), get_claim = (\<lambda>_ _ _. Inr []),
     decode_devices = (\<lambda>s. Inr []), evict_request = (\<lambda>w _ _ _. (w, None)), delete_request = (\<lambda>w _ _ _. (w, None)),
     record_event = (\<lambda>w _ _ _. w)\<rparr>"

definition journal_worker :: "(nat journal, raw_event, nat) drain_reconciler" where
  "journal_worker = \<lparr>dr_evaluator = \<lparr>config = small_config, informers = \<lparr>cluster = idle_cluster, notReadyTimeoutMinutes = None,
         drainGPUPods = False, dryRunMode = []\<rparr>, customDrainClient = None, podPolicies = small_matcher,
       customDrainNodes = \<lparr>cm_enabled = False, cm_selector = None, cm_labelKeys = []\<rparr>, lang = small_lang,
       decode_annotation = (\<lambda>_. Inr [])\<rparr>,
     dr_healthEventStore = \<lparr>FindHealthEventsByQuery = (\<lambda>_ _. Inr []), decode_document = (\<lambda>_. Inl (EText ''none''))\<rparr>,
     dr_codec = plain_codec, dr_UpdateDocument = (\<lambda>w f u. (w @ [(f, u)], None)), dr_FindDocument = (\<lambda>_ _. Inl (EText ''none'')),
     dr_onError = five_steps,
     dr_nodes = \<lparr>NodeClient.GetNode = (\<lambda>w _. (w, Inl (EText ''down''))), NodeClient.UpdateNode = (\<lambda>w _. (w, Some (EText ''down'')))\<rparr>,
     dr_customDrainClient = None, isNoKindMatch = (\<lambda>_. False), dr_error_text = (\<lambda>_. []), dr_now = (\<lambda>_. 9), dr_span = (\<lambda>_. [])\<rparr>"

definition journal_start :: "(nat journal, nat) worker_state" where
  "journal_start = \<lparr>ws_world = [], ws_tracker = empty_tracker, ws_queue = newNodeEventPriorityQueue\<rparr>"

lemma journal_worker_journalled: "journalled journal_worker (\<lambda>w. w)"
  using five_steps_retries
  by (auto simp: journalled_def journal_worker_def quiet_cluster_def quiet_nodes_def idle_cluster_def grows_def)

abbreviation "released_run \<equiv> ProcessEventGeneric (\<lambda>_. []) journal_worker (quarantined_event UnQuarantined) ''n1'' journal_start"

lemma journal_worker_released: "snd released_run = Returned None"
  by code_simp

theorem finished_event_settled_witness:
  "records_terminal journal_worker (\<lambda>w. w) (quarantined_event UnQuarantined) [] (ws_world (fst released_run))"
proof -
  have run: "released_run = (fst released_run, Returned None)"
    using journal_worker_released by (simp add: prod_eq_iff)
  have parsed: "ParseHealthEventFromEvent (dr_codec journal_worker) (quarantined_event UnQuarantined) =
      Inr \<lparr>ev_CreatedAt = 5, ev_HealthEvent = zero_event\<lparr>NodeName := ''n1'', IsFatal := True\<rparr>,
        ev_HealthEventStatus = Some \<lparr>NodeQuarantined = UnQuarantined, UserPodsEvictionStatus = Some StatusInProgress\<rparr>\<rparr>" by code_simp
  have start: "ws_world journal_start = []" by (simp add: journal_start_def)
  show ?thesis using finished_event_settled [OF journal_worker_journalled run parsed] unfolding start
    by (simp add: isTerminalStatus_def status_defs StatusInProgress_def)
qed

text \<open>
  The exception is real: a node that is released between the start of the handler and the deletion of its pods makes
  the handler return nil although every update of the document fails, so its status stays in progress.
\<close>

lemma cancelled_timeout_not_settled:
  "snd (ProcessEventGeneric (\<lambda>i. if i = 1 then [\<lparr>cn_eventID = ''2'', cn_nodeName = ''n1'', cn_status = UnQuarantined, cn_createdAt = Some 7, cn_now = 9\<rparr>] else [])
     (small_worker (Some (EText ''refused''))) (quarantined_event Quarantined) ''n1'' (worker_start [gpu_pod])) = Returned None"
  by code_simp

text \<open>A cancellation that arrives between the check and the mark of an event is overwritten: the next check does not report it.\<close>

lemma cancellation_overwritten:
  "let t = apply_cancellation \<lparr>cn_eventID = ''1'', cn_nodeName = ''n1'', cn_status = Cancelled, cn_createdAt = None, cn_now = 9\<rparr>
         (fst (isEventCancelled ''1'' ''n1'' (Some Quarantined) 5 empty_tracker))
   in snd (isEventCancelled ''1'' ''n1'' (Some Cancelled) 5 t) \<and> \<not> snd (isEventCancelled ''1'' ''n1'' (Some Cancelled) 5 (markEventInProgress ''1'' ''n1'' 5 t))"
  by code_simp

end
