(* ===== verification/Rule_Sets.thy ===== *)
theory Rule_Sets
  imports Cold_Start State_Manager
begin

text \<open>
  The rule sets of fault-quarantine (\<^verbatim>\<open>fault-quarantine/pkg/evaluator\<close> and the rule part of
  \<^verbatim>\<open>fault-quarantine/pkg/reconciler/reconciler.go\<close>): compiling the configured rules, evaluating
  them against an event, collecting the taints, labels and the cordon of the matching rule sets
  from concurrent goroutines, and narrowing them to what a quarantined node lacks.

  CEL expressions are compiled and evaluated by code that is a parameter. A goroutine is a list
  of atomic actions on the shared maps: each access to a \<^verbatim>\<open>sync.Map\<close> or an atomic flag, and each
  critical section of a mutex, is one action. A schedule says which goroutine moves next.
  Label values that carry the wall clock take its rendering as an argument.
\<close>

section \<open>Configuration\<close>

record Rule =
  Kind :: string
  Expression :: string

record Taint =
  t_Key :: string
  t_Value :: string
  t_Effect :: string
  t_PreExisting :: bool

record Label =
  l_Key :: string
  l_Value :: string

record AppliedLabel =
  al_Key :: string
  al_Value :: string
  al_Priority :: int
  al_Order :: nat

record RuleSet =
  rs_Enabled :: bool
  rs_Name :: string
  rs_Priority :: int
  rs_Any :: "Rule list"
  rs_All :: "Rule list"
  rs_Taint :: Taint
  rs_Label :: Label
  rs_ShouldCordon :: bool

record rulesetsConfig =
  TaintConfigMap :: "(string, Taint) gomap"
  LabelConfigMap :: "(string, Label) gomap"
  CordonConfigMap :: "(string, bool) gomap"
  RuleSetPriorityMap :: "(string, int) gomap"
  RuleSetOrderMap :: "(string, nat) gomap"

definition empty_config :: rulesetsConfig where
  "empty_config = \<lparr>TaintConfigMap = [], LabelConfigMap = [], CordonConfigMap = [],
     RuleSetPriorityMap = [], RuleSetOrderMap = []\<rparr>"

definition add_ruleset :: "nat \<times> RuleSet \<Rightarrow> rulesetsConfig \<Rightarrow> rulesetsConfig" where
  "add_ruleset = (\<lambda>(order, ruleSet) c.
     c\<lparr>RuleSetOrderMap := AList.update (rs_Name ruleSet) order (RuleSetOrderMap c),
       TaintConfigMap := (if t_Key (rs_Taint ruleSet) \<noteq> [] then AList.update (rs_Name ruleSet) (rs_Taint ruleSet) (TaintConfigMap c)
         else TaintConfigMap c),
       LabelConfigMap := (if l_Key (rs_Label ruleSet) \<noteq> [] then AList.update (rs_Name ruleSet) (rs_Label ruleSet) (LabelConfigMap c)
         else LabelConfigMap c),
       CordonConfigMap := (if rs_ShouldCordon ruleSet then AList.update (rs_Name ruleSet) True (CordonConfigMap c)
         else CordonConfigMap c),
       RuleSetPriorityMap := (if rs_Priority ruleSet > 0 then AList.update (rs_Name ruleSet) (rs_Priority ruleSet) (RuleSetPriorityMap c)
         else RuleSetPriorityMap c)\<rparr>)"

definition buildRulesetsConfig :: "RuleSet list \<Rightarrow> rulesetsConfig" where
  "buildRulesetsConfig ruleSets = fold add_ruleset (enumerate 0 ruleSets) empty_config"

text \<open>Reading a missing entry of a Go map gives the zero value.\<close>

definition priority_of :: "rulesetsConfig \<Rightarrow> string \<Rightarrow> int" where
  "priority_of c n = (case map_of (RuleSetPriorityMap c) n of None \<Rightarrow> 0 | Some p \<Rightarrow> p)"

definition order_of :: "rulesetsConfig \<Rightarrow> string \<Rightarrow> nat" where
  "order_of c n = (case map_of (RuleSetOrderMap c) n of None \<Rightarrow> 0 | Some p \<Rightarrow> p)"

section \<open>Rules\<close>

type_synonym RuleEvaluator = "health_event \<Rightarrow> bool \<times> error option"

record 'n cel =
  NewHealthEventRule :: "string \<Rightarrow> error + (health_event \<Rightarrow> bool \<times> error option)"
  NewNodeRule :: "string \<Rightarrow> error + ('n \<Rightarrow> bool \<times> error option)"
  IsEvaluationError :: "error \<Rightarrow> bool"

text \<open>The node informer reads the node a rule is evaluated on.\<close>

type_synonym 'n node_informer = "string \<Rightarrow> error + 'n"

definition nodeRule_Evaluate :: "'n node_informer \<Rightarrow> ('n \<Rightarrow> bool \<times> error option) \<Rightarrow> RuleEvaluator" where
  "nodeRule_Evaluate GetRuleNode rule event =
     (case GetRuleNode (NodeName event) of
        Inl e \<Rightarrow> (False, Some (EWrap ''failed to get node metadata'' e))
      | Inr node \<Rightarrow> rule node)"

definition create_evaluator :: "'n cel \<Rightarrow> 'n node_informer option \<Rightarrow> Rule \<Rightarrow> error + RuleEvaluator" where
  "create_evaluator c nodeInformer rule =
     (if Kind rule = ''HealthEvent'' then NewHealthEventRule c (Expression rule)
      else if Kind rule = ''Node'' then
        (case nodeInformer of
           None \<Rightarrow> Inl (EText ''NodeInformer must be provided for Node rule kind'')
         | Some reader \<Rightarrow>
             (case NewNodeRule c (Expression rule) of
                Inl e \<Rightarrow> Inl e
              | Inr r \<Rightarrow> Inr (nodeRule_Evaluate reader r)))
      else Inl (EText (''unknown evaluator kind: '' @ Kind rule)))"

text \<open>All errors are collected, and the evaluators are used only when there are none.\<close>

definition createEvaluators :: "'n cel \<Rightarrow> 'n node_informer option \<Rightarrow> Rule list \<Rightarrow> error + RuleEvaluator list" where
  "createEvaluators c nodeInformer rules =
     (let results = map (create_evaluator c nodeInformer) rules;
          errs = concat (map (\<lambda>r. case r of Inl e \<Rightarrow> [e] | Inr _ \<Rightarrow> []) results);
          evaluators = concat (map (\<lambda>r. case r of Inl _ \<Rightarrow> [] | Inr ev \<Rightarrow> [ev]) results)
      in if errs = [] then Inr evaluators else Inl (EMulti errs))"

datatype RuleEvaluationResult = RuleEvaluationSuccess | RuleEvaluationFailed

definition evaluateRule ::
  "(error \<Rightarrow> bool) \<Rightarrow> RuleEvaluator \<Rightarrow> health_event \<Rightarrow> RuleEvaluationResult \<times> error option" where
  "evaluateRule isEvaluationError evaluator event =
     (let (matched, err) = evaluator event;
          err' = (case err of None \<Rightarrow> None | Some e \<Rightarrow> if isEvaluationError e then PermanentError (Some e) else Some e)
      in (if matched then RuleEvaluationSuccess else RuleEvaluationFailed, err'))"

datatype RuleSetEvaluator =
    AnyRuleSetEvaluator (GetName: string) (evaluators: "RuleEvaluator list")
  | AllRuleSetEvaluator (GetName: string) (evaluators: "RuleEvaluator list")

definition append_error :: "error list \<Rightarrow> error option \<Rightarrow> error list" where
  "append_error errs err = (case err of None \<Rightarrow> errs | Some e \<Rightarrow> errs @ [e])"

definition multi_error :: "error list \<Rightarrow> error option" where
  "multi_error errs = (if errs = [] then None else Some (EMulti errs))"

fun any_loop ::
  "(error \<Rightarrow> bool) \<Rightarrow> health_event \<Rightarrow> RuleEvaluator list \<Rightarrow> error list \<Rightarrow> RuleEvaluationResult \<times> error option" where
  "any_loop iee event [] errs = (RuleEvaluationFailed, multi_error errs)"
| "any_loop iee event (evaluator # rest) errs =
     (let (result, err) = evaluateRule iee evaluator event in
      if result = RuleEvaluationSuccess then (RuleEvaluationSuccess, None)
      else any_loop iee event rest (append_error errs err))"

fun all_loop ::
  "(error \<Rightarrow> bool) \<Rightarrow> health_event \<Rightarrow> RuleEvaluator list \<Rightarrow> error list \<Rightarrow> RuleEvaluationResult \<times> error option" where
  "all_loop iee event [] errs = (RuleEvaluationSuccess, multi_error errs)"
| "all_loop iee event (evaluator # rest) errs =
     (let (result, err) = evaluateRule iee evaluator event; errs' = append_error errs err in
      if result \<noteq> RuleEvaluationSuccess then (result, multi_error errs')
      else all_loop iee event rest errs')"

fun Evaluate :: "(error \<Rightarrow> bool) \<Rightarrow> RuleSetEvaluator \<Rightarrow> health_event \<Rightarrow> RuleEvaluationResult \<times> error option" where
  "Evaluate iee (AnyRuleSetEvaluator _ evs) event = any_loop iee event evs []"
| "Evaluate iee (AllRuleSetEvaluator _ evs) event = all_loop iee event evs []"

text \<open>The evaluators of one rule set, for its two lists of rules, and the errors of compiling them.\<close>

definition ruleset_evaluators ::
  "'n cel \<Rightarrow> 'n node_informer option \<Rightarrow> RuleSet \<Rightarrow> RuleSetEvaluator list \<times> error list" where
  "ruleset_evaluators c nodeInformer ruleSet =
     (if \<not> rs_Enabled ruleSet then ([], [])
      else
        let build = (\<lambda>mk rules. if rules = [] then ([], [])
              else case createEvaluators c nodeInformer rules of
                  Inl e \<Rightarrow> ([], [e])
                | Inr evs \<Rightarrow> ([mk (rs_Name ruleSet) evs], []));
            (anyEvals, anyErrs) = build AnyRuleSetEvaluator (rs_Any ruleSet);
            (allEvals, allErrs) = build AllRuleSetEvaluator (rs_All ruleSet)
        in (anyEvals @ allEvals, anyErrs @ allErrs))"

definition InitializeRuleSetEvaluators ::
  "'n cel \<Rightarrow> 'n node_informer option \<Rightarrow> RuleSet list \<Rightarrow> RuleSetEvaluator list \<times> error option" where
  "InitializeRuleSetEvaluators c nodeInformer ruleSets =
     (let results = map (ruleset_evaluators c nodeInformer) ruleSets
      in (concat (map fst results), multi_error (concat (map snd results))))"

section \<open>Evaluating an event\<close>

text \<open>\<^verbatim>\<open>errors.Join\<close> drops nil errors and returns nil when none is left.\<close>

definition join_errors :: "error option \<Rightarrow> error option \<Rightarrow> error option" where
  "join_errors a b = (case (a, b) of (None, None) \<Rightarrow> None
     | (Some x, None) \<Rightarrow> Some (EJoin [x]) | (None, Some y) \<Rightarrow> Some (EJoin [y])
     | (Some x, Some y) \<Rightarrow> Some (EJoin [x, y]))"

fun projected_loop ::
  "(health_event \<Rightarrow> RuleEvaluationResult \<times> error option) \<Rightarrow> health_event list \<Rightarrow> bool \<Rightarrow> error option \<Rightarrow> bool \<times> error option" where
  "projected_loop eval [] matched evaluationErr = (matched, evaluationErr)"
| "projected_loop eval (projectedEvent # rest) matched evaluationErr =
     (case eval projectedEvent of
        (_, Some err) \<Rightarrow> projected_loop eval rest matched (join_errors evaluationErr (Some err))
      | (result, None) \<Rightarrow> projected_loop eval rest (matched \<or> result = RuleEvaluationSuccess) evaluationErr)"

definition evaluateRuleAgainstRecoveryEffects ::
  "eventCoverage option \<Rightarrow> (error \<Rightarrow> bool) \<Rightarrow> health_event \<Rightarrow> RuleSetEvaluator \<Rightarrow> bool \<times> error option" where
  "evaluateRuleAgainstRecoveryEffects ctx iee event eval =
     projected_loop (Evaluate iee eval) (ProjectHealthEvent ctx event) False None"

fun eventMatchesAnyRule ::
  "eventCoverage option \<Rightarrow> (error \<Rightarrow> bool) \<Rightarrow> health_event \<Rightarrow> RuleSetEvaluator list \<Rightarrow> bool \<Rightarrow> error option
     \<Rightarrow> bool \<times> error option" where
  "eventMatchesAnyRule ctx iee event [] matched evaluationErr = (matched, evaluationErr)"
| "eventMatchesAnyRule ctx iee event (eval # rest) matched evaluationErr =
     (let (evalMatched, err) = evaluateRuleAgainstRecoveryEffects ctx iee event eval
      in eventMatchesAnyRule ctx iee event rest (matched \<or> evalMatched) (join_errors evaluationErr err))"

section \<open>Collecting actions concurrently\<close>

type_synonym keyValTaint = "string \<times> string"

record selectedLabel =
  sl_Value :: string
  sl_Priority :: int
  sl_Order :: nat

record label_keys =
  cordonedByLabelKey :: string
  cordonedReasonLabelKey :: string
  cordonedTimestampLabelKey :: string

record collected =
  taintAppliedMap :: "(keyValTaint, string) gomap"
  taintEffectPriorityMap :: "(keyValTaint, int) gomap"
  labelsMap :: "(string, string) gomap"
  appliedLabelsMap :: "(string, AppliedLabel) gomap"
  selectedLabels :: "(string, selectedLabel) gomap"
  isCordoned :: bool
  errCh :: "error list"

text \<open>The characters that the label regular expression keeps, on ASCII text.\<close>

definition label_char :: "char \<Rightarrow> bool" where
  "label_char c \<longleftrightarrow> (let n = (of_char c :: nat) in
     (97 \<le> n \<and> n \<le> 122) \<or> (65 \<le> n \<and> n \<le> 90) \<or> (48 \<le> n \<and> n \<le> 57)) \<or> c \<in> {CHR ''_'', CHR ''.'', CHR ''-''}"

definition formatCordonOrUncordonReasonValue :: "string \<Rightarrow> nat \<Rightarrow> string" where
  "formatCordonOrUncordonReasonValue input len =
     (let formatted = take len (map (\<lambda>c. if label_char c then c else CHR ''-'') input);
          dash = (\<lambda>c. c = CHR ''-'')
      in rev (dropWhile dash (rev (dropWhile dash formatted))))"

definition selectRuleLabel ::
  "(string, selectedLabel) gomap \<Rightarrow> Label \<Rightarrow> int \<Rightarrow> nat \<Rightarrow> (string, selectedLabel) gomap" where
  "selectRuleLabel selected candidate priority order =
     (let keep = (case map_of selected (l_Key candidate) of
          None \<Rightarrow> False
        | Some current \<Rightarrow> sl_Priority current > priority \<or> (sl_Priority current = priority \<and> sl_Order current > order))
      in if keep then selected
         else AList.update (l_Key candidate) \<lparr>sl_Value = l_Value candidate, sl_Priority = priority, sl_Order = order\<rparr> selected)"

definition updateTaintMaps :: "rulesetsConfig \<Rightarrow> string \<Rightarrow> Taint \<Rightarrow> collected \<Rightarrow> collected" where
  "updateTaintMaps cfg evalName taintConfig s =
     (let keyVal = (t_Key taintConfig, t_Value taintConfig);
          newPriority = priority_of cfg evalName;
          currentEffect = (case map_of (taintAppliedMap s) keyVal of None \<Rightarrow> [] | Some e \<Rightarrow> e);
          currentPriority = (case map_of (taintEffectPriorityMap s) keyVal of None \<Rightarrow> 0 | Some p \<Rightarrow> p)
      in if currentEffect = [] \<or> newPriority > currentPriority
         then s\<lparr>taintEffectPriorityMap := AList.update keyVal newPriority (taintEffectPriorityMap s),
                taintAppliedMap := AList.update keyVal (t_Effect taintConfig) (taintAppliedMap s)\<rparr>
         else s)"

text \<open>The critical section of the label mutex.\<close>

definition update_label :: "rulesetsConfig \<Rightarrow> string \<Rightarrow> Label \<Rightarrow> collected \<Rightarrow> collected" where
  "update_label cfg evalName labelConfig s =
     (let sel = selectRuleLabel (selectedLabels s) labelConfig (priority_of cfg evalName) (order_of cfg evalName);
          selected = (case map_of sel (l_Key labelConfig) of
             None \<Rightarrow> \<lparr>sl_Value = [], sl_Priority = 0, sl_Order = 0\<rparr> | Some x \<Rightarrow> x)
      in s\<lparr>selectedLabels := sel,
           labelsMap := AList.update (l_Key labelConfig) (sl_Value selected) (labelsMap s),
           appliedLabelsMap := AList.update (l_Key labelConfig)
             \<lparr>al_Key = l_Key labelConfig, al_Value = sl_Value selected, al_Priority = sl_Priority selected,
              al_Order = sl_Order selected\<rparr> (appliedLabelsMap s)\<rparr>)"

datatype action = StoreCordoned | LoadReason | StoreReason string | UpdateTaint string Taint
  | UpdateLabel string Label | SendError error

text \<open>The actions of a goroutine in order, and the reason it has loaded.\<close>

record goroutine =
  loaded_reason :: "string option"
  todo :: "action list"

definition rule_actions :: "rulesetsConfig \<Rightarrow> string \<Rightarrow> action list" where
  "rule_actions cfg evalName =
     (if map_of (CordonConfigMap cfg) evalName = Some True then [StoreCordoned, LoadReason, StoreReason evalName] else []) @
     (case map_of (TaintConfigMap cfg) evalName of None \<Rightarrow> [] | Some t \<Rightarrow> [UpdateTaint evalName t]) @
     (case map_of (LabelConfigMap cfg) evalName of None \<Rightarrow> [] | Some l \<Rightarrow> [UpdateLabel evalName l])"

definition rule_goroutine ::
  "eventCoverage option \<Rightarrow> (error \<Rightarrow> bool) \<Rightarrow> rulesetsConfig \<Rightarrow> health_event \<Rightarrow> RuleSetEvaluator \<Rightarrow> goroutine" where
  "rule_goroutine ctx iee cfg event eval =
     (let (matched, err) = evaluateRuleAgainstRecoveryEffects ctx iee event eval
      in \<lparr>loaded_reason = None,
          todo = (if matched then rule_actions cfg (GetName eval) else []) @
                 (case err of None \<Rightarrow> [] | Some e \<Rightarrow> [SendError e])\<rparr>)"

fun exec_action ::
  "label_keys \<Rightarrow> rulesetsConfig \<Rightarrow> action \<Rightarrow> string option \<Rightarrow> collected \<Rightarrow> collected \<times> string option" where
  "exec_action ks cfg StoreCordoned r s = (s\<lparr>isCordoned := True\<rparr>, r)"
| "exec_action ks cfg LoadReason r s = (s, map_of (labelsMap s) (cordonedReasonLabelKey ks))"
| "exec_action ks cfg (StoreReason evalName) r s =
     (let newCordonReason = (case r of None \<Rightarrow> evalName | Some old \<Rightarrow> old @ ''-'' @ evalName)
      in (s\<lparr>labelsMap := AList.update (cordonedReasonLabelKey ks)
              (formatCordonOrUncordonReasonValue newCordonReason 63) (labelsMap s)\<rparr>, r))"
| "exec_action ks cfg (UpdateTaint evalName t) r s = (updateTaintMaps cfg evalName t s, r)"
| "exec_action ks cfg (UpdateLabel evalName l) r s = (update_label cfg evalName l s, r)"
| "exec_action ks cfg (SendError e) r s = (s\<lparr>errCh := errCh s @ [e]\<rparr>, r)"

text \<open>Goroutine \<^verbatim>\<open>i\<close> moves; a number out of range or a finished goroutine changes nothing.\<close>

definition go_step ::
  "label_keys \<Rightarrow> rulesetsConfig \<Rightarrow> nat \<Rightarrow> collected \<times> goroutine list \<Rightarrow> collected \<times> goroutine list" where
  "go_step ks cfg i = (\<lambda>(s, gs).
     if i < length gs then
       (case todo (gs ! i) of
          [] \<Rightarrow> (s, gs)
        | a # rest \<Rightarrow>
            (let (s', r') = exec_action ks cfg a (loaded_reason (gs ! i)) s
             in (s', gs[i := \<lparr>loaded_reason = r', todo = rest\<rparr>])))
     else (s, gs))"

text \<open>
  A schedule, after which \<^verbatim>\<open>wg.Wait()\<close> lets every goroutine that is left run to its end: every
  interleaving is the run of some schedule.
\<close>

definition run_schedule ::
  "label_keys \<Rightarrow> rulesetsConfig \<Rightarrow> nat list \<Rightarrow> collected \<times> goroutine list \<Rightarrow> collected \<times> goroutine list" where
  "run_schedule ks cfg sched st = fold (go_step ks cfg) sched st"

definition finish_all :: "goroutine list \<Rightarrow> nat list" where
  "finish_all gs = concat (map (\<lambda>i. replicate (length (todo (gs ! i))) i) [0..<length gs])"

definition run_all :: "label_keys \<Rightarrow> rulesetsConfig \<Rightarrow> nat list \<Rightarrow> collected \<times> goroutine list \<Rightarrow> collected" where
  "run_all ks cfg sched st =
     (let st' = run_schedule ks cfg sched st in fst (run_schedule ks cfg (finish_all (snd st')) st'))"

definition precomputeTaintInitKeys :: "RuleSetEvaluator list \<Rightarrow> rulesetsConfig \<Rightarrow> keyValTaint list" where
  "precomputeTaintInitKeys evals cfg =
     concat (map (\<lambda>eval. case map_of (TaintConfigMap cfg) (GetName eval) of
        None \<Rightarrow> [] | Some t \<Rightarrow> [(t_Key t, t_Value t)]) evals)"

definition init_collected :: "keyValTaint list \<Rightarrow> collected" where
  "init_collected taintInitKeys =
     \<lparr>taintAppliedMap = fold (\<lambda>kv. AList.update kv []) taintInitKeys [],
      taintEffectPriorityMap = fold (\<lambda>kv. AList.update kv (- 1)) taintInitKeys [],
      labelsMap = [], appliedLabelsMap = [], selectedLabels = [], isCordoned = False, errCh = []\<rparr>"

definition is_force :: "health_event \<Rightarrow> bool" where
  "is_force event = (case QuarantineOverrides event of None \<Rightarrow> False | Some q \<Rightarrow> Force q)"

definition force_override :: "label_keys \<Rightarrow> health_event \<Rightarrow> collected \<Rightarrow> collected" where
  "force_override ks event s =
     (if is_force event then
        (let creatorID = (case map_of (Metadata event) ''creator_id'' of None \<Rightarrow> [] | Some v \<Rightarrow> v);
             labels1 = (if map_of (labelsMap s) (cordonedByLabelKey ks) = None
               then AList.update (cordonedByLabelKey ks) (Agent event @ ''-'' @ creatorID) (labelsMap s) else labelsMap s)
         in s\<lparr>isCordoned := True,
              labelsMap := AList.update (cordonedReasonLabelKey ks)
                (formatCordonOrUncordonReasonValue (Message event) 63) labels1\<rparr>)
      else s)"

definition evaluateRulesets ::
  "nat list \<Rightarrow> eventCoverage option \<Rightarrow> (error \<Rightarrow> bool) \<Rightarrow> label_keys \<Rightarrow> rulesetsConfig \<Rightarrow> health_event
     \<Rightarrow> RuleSetEvaluator list \<Rightarrow> collected \<Rightarrow> collected \<times> error option" where
  "evaluateRulesets sched ctx iee ks cfg event evals s =
     (let s' = run_all ks cfg sched (force_override ks event s, map (rule_goroutine ctx iee cfg event) evals)
      in (s', fold (\<lambda>e acc. join_errors acc (Some e)) (errCh s') None))"

definition collectTaintsToApply :: "(keyValTaint, string) gomap \<Rightarrow> Taint list" where
  "collectTaintsToApply applied =
     map (\<lambda>((k, v), effect). \<lparr>t_Key = k, t_Value = v, t_Effect = effect, t_PreExisting = False\<rparr>)
       (filter (\<lambda>(_, effect). effect \<noteq> []) applied)"

definition collectLabelsToApply :: "(string, AppliedLabel) gomap \<Rightarrow> AppliedLabel list" where
  "collectLabelsToApply m = map snd m"

section \<open>Applying actions to a node\<close>

record node_taint =
  nt_Key :: string
  nt_Value :: string
  nt_Effect :: string

record quarantine_node =
  qn_Annotations :: "(string, string) gomap"
  qn_Taints :: "node_taint list"
  qn_Unschedulable :: bool

text \<open>\<^verbatim>\<open>encoding/json\<close> on the lists that the annotations hold.\<close>

record json_codec =
  marshal_taints :: "Taint list \<Rightarrow> error + string"
  unmarshal_taints :: "string \<Rightarrow> error + Taint list"
  marshal_labels :: "AppliedLabel list \<Rightarrow> error + string"

definition AppliedTaintsKey :: string where "AppliedTaintsKey = ''quarantineHealthEventAppliedTaints''"
definition AppliedLabelsKey :: string where "AppliedLabelsKey = ''quarantineHealthEventAppliedLabels''"
definition IsCordonedKey :: string where "IsCordonedKey = ''quarantineHealthEventIsCordoned''"
definition CordonPreExistingKey :: string where "CordonPreExistingKey = ''quarantineHealthEventCordonPreExisting''"
definition DryRunKey :: string where "DryRunKey = ''quarantineHealthEventDryRun''"
definition ServiceName :: string where "ServiceName = ''NVSentinel''"

lemmas annotation_keys = AppliedTaintsKey_def AppliedLabelsKey_def IsCordonedKey_def CordonPreExistingKey_def DryRunKey_def

definition markPreExistingTaints :: "quarantine_node \<Rightarrow> Taint list \<Rightarrow> Taint list" where
  "markPreExistingTaints node taintsToBeApplied =
     map (\<lambda>t. if list_ex (\<lambda>n. nt_Key n = t_Key t \<and> nt_Value n = t_Value t \<and> nt_Effect n = t_Effect t) (qn_Taints node)
              then t\<lparr>t_PreExisting := True\<rparr> else t) taintsToBeApplied"

definition prepareAnnotations ::
  "json_codec \<Rightarrow> string \<Rightarrow> label_keys \<Rightarrow> quarantine_node \<Rightarrow> Taint list \<Rightarrow> AppliedLabel list \<Rightarrow> collected
     \<Rightarrow> collected \<times> Taint list \<times> (string, string) gomap" where
  "prepareAnnotations js timestamp ks node taints labels s =
     (let taints' = (if taints \<noteq> [] then markPreExistingTaints node taints else taints);
          a1 = (if taints \<noteq> [] then (case marshal_taints js taints' of Inl _ \<Rightarrow> [] | Inr txt \<Rightarrow> [(AppliedTaintsKey, txt)]) else []);
          a2 = (if labels \<noteq> [] then (case marshal_labels js labels of Inl _ \<Rightarrow> a1 | Inr txt \<Rightarrow> AList.update AppliedLabelsKey txt a1) else a1);
          (s1, a3) = (if isCordoned s then
              (let a = AList.update IsCordonedKey ''True'' a2 in
               if qn_Unschedulable node
               then (s\<lparr>labelsMap := AList.delete (cordonedReasonLabelKey ks) (AList.delete (cordonedByLabelKey ks) (labelsMap s))\<rparr>,
                     AList.update CordonPreExistingKey ''True'' a)
               else (s\<lparr>labelsMap := AList.update (cordonedTimestampLabelKey ks) timestamp
                         (if map_of (labelsMap s) (cordonedByLabelKey ks) = None
                          then AList.update (cordonedByLabelKey ks) ServiceName (labelsMap s) else labelsMap s)\<rparr>, a))
            else (s, a2));
          s2 = (if taints \<noteq> [] \<or> labels \<noteq> [] \<or> isCordoned s
            then s1\<lparr>labelsMap := AList.update NVSentinelStateLabelKey QuarantinedLabelValue (labelsMap s1)\<rparr> else s1)
      in (s2, taints', a3))"

record sessionActionUpdate =
  sa_taints :: "Taint list"
  sa_cordon :: bool
  sa_annotations :: "(string, string) gomap"
  sa_labels :: "(string, string) gomap"

definition isEmpty :: "sessionActionUpdate \<Rightarrow> bool" where
  "isEmpty u \<longleftrightarrow> sa_taints u = [] \<and> \<not> sa_cordon u \<and> sa_annotations u = [] \<and> sa_labels u = []"

definition evaluateSessionActions ::
  "json_codec \<Rightarrow> keyValTaint list \<Rightarrow> nat list \<Rightarrow> eventCoverage option \<Rightarrow> (error \<Rightarrow> bool) \<Rightarrow> label_keys \<Rightarrow> rulesetsConfig
     \<Rightarrow> health_event \<Rightarrow> RuleSetEvaluator list \<Rightarrow> sessionActionUpdate \<times> error option" where
  "evaluateSessionActions js taintInitKeys sched ctx iee ks cfg event evals =
     (let (s, evaluationErr) = evaluateRulesets sched ctx iee ks cfg event evals (init_collected taintInitKeys);
          required = \<lparr>sa_taints = collectTaintsToApply (taintAppliedMap s), sa_cordon = isCordoned s,
            sa_annotations = [], sa_labels = labelsMap s\<rparr>;
          appliedLabels = collectLabelsToApply (appliedLabelsMap s)
      in if appliedLabels = [] then (required, evaluationErr)
         else case marshal_labels js appliedLabels of
             Inl e \<Rightarrow> (\<lparr>sa_taints = [], sa_cordon = False, sa_annotations = [], sa_labels = []\<rparr>,
                join_errors evaluationErr (Some (EWrap ''marshal session applied labels'' e)))
           | Inr txt \<Rightarrow> (required\<lparr>sa_annotations := [(AppliedLabelsKey, txt)]\<rparr>, evaluationErr))"

text \<open>The node map keeps the last value of a key and effect; the annotation may be missing or empty.\<close>

definition session_taint :: "(string \<times> string) list \<Rightarrow> quarantine_node \<Rightarrow> Taint \<Rightarrow> Taint list" where
  "session_taint recorded node t =
     (if (t_Key t, t_Effect t) \<in> set recorded then []
      else case map_of (rev (map (\<lambda>n. ((nt_Key n, nt_Effect n), nt_Value n)) (qn_Taints node))) (t_Key t, t_Effect t) of
          None \<Rightarrow> [t]
        | Some v \<Rightarrow> if v \<noteq> t_Value t then [] else [t\<lparr>t_PreExisting := True\<rparr>])"

definition sessionTaintsToAdd :: "json_codec \<Rightarrow> quarantine_node \<Rightarrow> Taint list \<Rightarrow> error + Taint list" where
  "sessionTaintsToAdd js node desired =
     (let recordedJSON = (case map_of (qn_Annotations node) AppliedTaintsKey of None \<Rightarrow> [] | Some s \<Rightarrow> s) in
      case (if recordedJSON = [] then Inr [] else unmarshal_taints js recordedJSON) of
        Inl e \<Rightarrow> Inl (EWrap ''unmarshal applied taints annotation for node'' e)
      | Inr recordedTaints \<Rightarrow>
          Inr (concat (map (session_taint (map (\<lambda>t. (t_Key t, t_Effect t)) recordedTaints) node) desired)))"

definition deleteCordonLabels :: "label_keys \<Rightarrow> (string, string) gomap \<Rightarrow> (string, string) gomap" where
  "deleteCordonLabels ks labels =
     AList.delete (cordonedTimestampLabelKey ks) (AList.delete (cordonedReasonLabelKey ks)
       (AList.delete (cordonedByLabelKey ks) labels))"

definition addSessionCordon ::
  "string \<Rightarrow> label_keys \<Rightarrow> quarantine_node \<Rightarrow> bool \<Rightarrow> bool \<Rightarrow> sessionActionUpdate \<Rightarrow> sessionActionUpdate" where
  "addSessionCordon timestamp ks node requiresCordon recordActions u =
     (let sessionCordoned = (map_of (qn_Annotations node) IsCordonedKey = Some ''True'') in
      if \<not> requiresCordon \<or> sessionCordoned \<or> \<not> recordActions then u\<lparr>sa_labels := deleteCordonLabels ks (sa_labels u)\<rparr>
      else
        (let u1 = u\<lparr>sa_annotations := AList.update IsCordonedKey ''True'' (sa_annotations u)\<rparr> in
         if qn_Unschedulable node then
           u1\<lparr>sa_annotations := AList.update CordonPreExistingKey ''True'' (sa_annotations u1),
              sa_labels := deleteCordonLabels ks (sa_labels u1)\<rparr>
         else
           u1\<lparr>sa_cordon := True,
              sa_labels := AList.update (cordonedTimestampLabelKey ks) timestamp
                (if map_of (sa_labels u1) (cordonedByLabelKey ks) = None
                 then AList.update (cordonedByLabelKey ks) ServiceName (sa_labels u1) else sa_labels u1)\<rparr>))"

definition buildSessionActionUpdate ::
  "json_codec \<Rightarrow> bool \<Rightarrow> string \<Rightarrow> label_keys \<Rightarrow> quarantine_node \<Rightarrow> sessionActionUpdate \<Rightarrow> error + sessionActionUpdate" where
  "buildSessionActionUpdate js dryRun timestamp ks node required =
     (let u = \<lparr>sa_taints = [], sa_cordon = False, sa_annotations = sa_annotations required, sa_labels = sa_labels required\<rparr>;
          dryRunSession = (map_of (qn_Annotations node) DryRunKey \<noteq> None);
          recordActions = (\<not> dryRun \<or> dryRunSession) in
      case (if recordActions then
              (case sessionTaintsToAdd js node (sa_taints required) of
                 Inl e \<Rightarrow> Inl e
               | Inr taints \<Rightarrow>
                   if taints = [] then Inr u
                   else case marshal_taints js taints of
                       Inl e \<Rightarrow> Inl (EWrap ''marshal session applied taints'' e)
                     | Inr txt \<Rightarrow> Inr (u\<lparr>sa_taints := taints,
                         sa_annotations := AList.update AppliedTaintsKey txt (sa_annotations u)\<rparr>))
            else Inr u) of
        Inl e \<Rightarrow> Inl e
      | Inr u' \<Rightarrow> Inr (addSessionCordon timestamp ks node (sa_cordon required) recordActions u'))"

end
