(* ===== verification/Rule_Properties.thy ===== *)
theory Rule_Properties
  imports Rule_Sets
begin

text \<open>
  Correctness of rule evaluation: what the rule sets of an event ask for does not depend on how
  the goroutines that evaluate them interleave, and the update of a node that is already
  quarantined only adds what the node lacks.
\<close>

section \<open>Rule sets\<close>

lemma evaluateRule_success: "fst (evaluateRule iee ev event) = RuleEvaluationSuccess \<longleftrightarrow> fst (ev event)"
  by (simp add: evaluateRule_def split: prod.splits)

lemma any_loop_success:
  "fst (any_loop iee event evs errs) = RuleEvaluationSuccess \<longleftrightarrow> (\<exists>ev \<in> set evs. fst (ev event))"
proof (induction evs arbitrary: errs)
  case (Cons ev evs)
  then show ?case using evaluateRule_success [of iee ev event]
    by (cases "evaluateRule iee ev event") auto
qed simp

lemma all_loop_success:
  "fst (all_loop iee event evs errs) = RuleEvaluationSuccess \<longleftrightarrow> (\<forall>ev \<in> set evs. fst (ev event))"
proof (induction evs arbitrary: errs)
  case (Cons ev evs)
  then show ?case using evaluateRule_success [of iee ev event]
    by (cases "evaluateRule iee ev event") auto
qed simp

section \<open>Runs of the goroutines\<close>

definition remaining_actions :: "goroutine list \<Rightarrow> action multiset" where
  "remaining_actions gs = (\<Sum>g \<leftarrow> gs. mset (todo g))"

text \<open>
  An invariant of the shared maps that speaks of the actions executed so far: if every action
  keeps it, it holds at the end of every schedule for exactly the actions of the goroutines.
\<close>

locale schedule_invariant =
  fixes ks :: label_keys and cfg :: rulesetsConfig and inv :: "action list \<Rightarrow> collected \<Rightarrow> bool"
  assumes step: "inv tr s \<Longrightarrow> inv (tr @ [a]) (fst (exec_action ks cfg a r s))"
begin

lemma go_step_inv:
  assumes "inv tr s" and "go_step ks cfg i (s, gs) = (s', gs')"
  shows "\<exists>tr'. inv (tr @ tr') s' \<and> mset tr' + remaining_actions gs' = remaining_actions gs"
proof (cases "i < length gs \<and> todo (gs ! i) \<noteq> []")
  case False
  with assms have "s' = s" "gs' = gs" by (auto simp: go_step_def split: if_splits list.splits)
  with assms(1) show ?thesis by (intro exI [of _ "[]"]) simp
next
  case True
  then obtain a rest where t: "todo (gs ! i) = a # rest" by (cases "todo (gs ! i)") auto
  obtain r' where s': "exec_action ks cfg a (loaded_reason (gs ! i)) s = (s', r')"
    and gs': "gs' = gs[i := \<lparr>loaded_reason = r', todo = rest\<rparr>]"
    using assms(2) True t by (auto simp: go_step_def split: prod.splits)
  have "inv (tr @ [a]) s'" using step [OF assms(1), of a "loaded_reason (gs ! i)"] s' by simp
  moreover have "mset [a] + remaining_actions gs' = remaining_actions gs"
  proof -
    have split: "gs = take i gs @ gs ! i # drop (Suc i) gs" using True id_take_nth_drop by blast
    have "gs' = take i gs @ \<lparr>loaded_reason = r', todo = rest\<rparr> # drop (Suc i) gs"
      unfolding gs' using True by (simp add: upd_conv_take_nth_drop)
    then have "mset [a] + remaining_actions gs' = remaining_actions (take i gs) + mset (todo (gs ! i)) + remaining_actions (drop (Suc i) gs)"
      using t by (simp add: remaining_actions_def)
    also have "\<dots> = remaining_actions gs"
      by (subst (4) split) (simp add: remaining_actions_def)
    finally show ?thesis .
  qed
  ultimately show ?thesis by blast
qed

lemma run_schedule_inv:
  assumes "inv tr s" and "run_schedule ks cfg sched (s, gs) = (s', gs')"
  shows "\<exists>tr'. inv (tr @ tr') s' \<and> mset tr' + remaining_actions gs' = remaining_actions gs"
  using assms
proof (induction sched arbitrary: tr s gs)
  case Nil
  then show ?case by (intro exI [of _ "[]"]) (simp add: run_schedule_def)
next
  case (Cons i sched)
  obtain s1 gs1 where one: "go_step ks cfg i (s, gs) = (s1, gs1)" by (metis prod.exhaust)
  with Cons.prems(2) have rest: "run_schedule ks cfg sched (s1, gs1) = (s', gs')" by (simp add: run_schedule_def)
  from go_step_inv [OF Cons.prems(1) one] obtain tr1 where
    tr1: "inv (tr @ tr1) s1" "mset tr1 + remaining_actions gs1 = remaining_actions gs" by blast
  from Cons.IH [OF tr1(1) rest] obtain tr2 where
    "inv ((tr @ tr1) @ tr2) s'" "mset tr2 + remaining_actions gs' = remaining_actions gs1" by blast
  with tr1(2) show ?case
    by (intro exI [of _ "tr1 @ tr2"]) (simp add: ac_simps)
qed

end

text \<open>Running each goroutine as often as it has actions left ends all of them.\<close>

lemma run_one:
  assumes "i < length gs"
  shows "\<exists>s' g'. fold (go_step ks cfg) (replicate (length (todo (gs ! i))) i) (s, gs) = (s', gs[i := g']) \<and> todo g' = []"
  using assms
proof (induction "length (todo (gs ! i))" arbitrary: s gs)
  case 0
  then show ?case by (intro exI [of _ s] exI [of _ "gs ! i"]) simp
next
  case (Suc n)
  then obtain a rest where t: "todo (gs ! i) = a # rest" by (cases "todo (gs ! i)") auto
  obtain s1 r1 where e: "exec_action ks cfg a (loaded_reason (gs ! i)) s = (s1, r1)" by (metis prod.exhaust)
  let ?g1 = "\<lparr>loaded_reason = r1, todo = rest\<rparr>"
  have one: "go_step ks cfg i (s, gs) = (s1, gs[i := ?g1])" using Suc.prems t e by (simp add: go_step_def)
  have "n = length (todo (gs[i := ?g1] ! i))" using Suc.hyps(2) Suc.prems t by simp
  from Suc.hyps(1) [OF this, of s1] Suc.prems obtain s' g' where
    "fold (go_step ks cfg) (replicate (length rest) i) (s1, gs[i := ?g1]) = (s', gs[i := g'])" "todo g' = []" by auto
  with one t show ?case by auto
qed

lemma run_prefix:
  assumes "k \<le> length gs"
  shows "\<exists>s' gs'. fold (go_step ks cfg) (concat (map (\<lambda>i. replicate (length (todo (gs ! i))) i) [0..<k])) (s, gs) = (s', gs') \<and>
    length gs' = length gs \<and> (\<forall>j < length gs. if j < k then todo (gs' ! j) = [] else gs' ! j = gs ! j)"
  using assms
proof (induction k)
  case (Suc k)
  then obtain s1 gs1 where one: "fold (go_step ks cfg) (concat (map (\<lambda>i. replicate (length (todo (gs ! i))) i) [0..<k])) (s, gs) = (s1, gs1)"
    and gs1: "length gs1 = length gs" "\<forall>j < length gs. if j < k then todo (gs1 ! j) = [] else gs1 ! j = gs ! j" by auto
  from Suc.prems gs1 have k: "k < length gs1" "gs1 ! k = gs ! k" by auto
  from run_one [OF k(1), of ks cfg s1] k(2) obtain s2 g where
    "fold (go_step ks cfg) (replicate (length (todo (gs ! k))) k) (s1, gs1) = (s2, gs1[k := g])" "todo g = []" by auto
  with one gs1 k show ?case by (auto simp: nth_list_update)
qed simp

lemma finish_all_ends:
  "remaining_actions (snd (run_schedule ks cfg (finish_all gs) (s, gs))) = {#}"
proof -
  obtain s' gs' where run: "run_schedule ks cfg (finish_all gs) (s, gs) = (s', gs')"
    and ended: "length gs' = length gs" "\<forall>j < length gs. todo (gs' ! j) = []"
    using run_prefix [of "length gs" gs ks cfg s] unfolding run_schedule_def finish_all_def by auto
  have "\<forall>g \<in> set gs'. todo g = []" using ended by (metis in_set_conv_nth)
  then have "remaining_actions gs' = {#}" unfolding remaining_actions_def by (induction gs') auto
  with run show ?thesis by simp
qed

context schedule_invariant
begin

lemma run_all_inv:
  assumes "inv [] s"
  shows "\<exists>tr. inv tr (run_all ks cfg sched (s, gs)) \<and> mset tr = remaining_actions gs"
proof -
  obtain s1 gs1 where one: "run_schedule ks cfg sched (s, gs) = (s1, gs1)" by (metis prod.exhaust)
  obtain s2 gs2 where two: "run_schedule ks cfg (finish_all gs1) (s1, gs1) = (s2, gs2)" by (metis prod.exhaust)
  from run_schedule_inv [OF assms one] obtain tr1 where tr1: "inv tr1 s1" "mset tr1 + remaining_actions gs1 = remaining_actions gs"
    by auto
  from run_schedule_inv [OF tr1(1) two] obtain tr2 where tr2: "inv (tr1 @ tr2) s2" "mset tr2 + remaining_actions gs2 = remaining_actions gs1"
    by auto
  have "remaining_actions gs2 = {#}" using finish_all_ends [of ks cfg gs1 s1] two by simp
  with tr1 tr2 one two show ?thesis
    by (intro exI [of _ "tr1 @ tr2"]) (simp add: run_all_def Let_def ac_simps)
qed

end

section \<open>The invariants\<close>

text \<open>
  The selected label of a key is the one of greatest priority, and of these the one configured
  last, among the label actions executed so far.
\<close>

definition outranked :: "rulesetsConfig \<Rightarrow> string \<Rightarrow> selectedLabel \<Rightarrow> bool" where
  "outranked cfg n sel \<longleftrightarrow> priority_of cfg n < sl_Priority sel \<or> priority_of cfg n = sl_Priority sel \<and> order_of cfg n \<le> sl_Order sel"

definition label_inv :: "rulesetsConfig \<Rightarrow> action list \<Rightarrow> collected \<Rightarrow> bool" where
  "label_inv cfg tr s \<longleftrightarrow>
     (\<forall>k. (map_of (selectedLabels s) k = None \<longrightarrow> (\<forall>n l. UpdateLabel n l \<in> set tr \<longrightarrow> l_Key l \<noteq> k)) \<and>
        (\<forall>sel. map_of (selectedLabels s) k = Some sel \<longrightarrow>
           (\<exists>n l. UpdateLabel n l \<in> set tr \<and> l_Key l = k \<and>
              sel = \<lparr>sl_Value = l_Value l, sl_Priority = priority_of cfg n, sl_Order = order_of cfg n\<rparr>) \<and>
           (\<forall>n l. UpdateLabel n l \<in> set tr \<longrightarrow> l_Key l = k \<longrightarrow> outranked cfg n sel)) \<and>
        map_of (appliedLabelsMap s) k = map_option (\<lambda>sel. \<lparr>al_Key = k, al_Value = sl_Value sel,
           al_Priority = sl_Priority sel, al_Order = sl_Order sel\<rparr>) (map_of (selectedLabels s) k))"

lemma label_inv_update:
  assumes "label_inv cfg tr s"
  shows "label_inv cfg (tr @ [UpdateLabel n l]) (update_label cfg n l s)"
proof -
  let ?new = "\<lparr>sl_Value = l_Value l, sl_Priority = priority_of cfg n, sl_Order = order_of cfg n\<rparr>"
  let ?keep = "\<exists>cur. map_of (selectedLabels s) (l_Key l) = Some cur \<and>
    (sl_Priority cur > priority_of cfg n \<or> sl_Priority cur = priority_of cfg n \<and> sl_Order cur > order_of cfg n)"
  note old = assms [unfolded label_inv_def, rule_format]
  show ?thesis
  proof (cases ?keep)
    case True
    then obtain cur where cur: "map_of (selectedLabels s) (l_Key l) = Some cur" and
      better: "sl_Priority cur > priority_of cfg n \<or> sl_Priority cur = priority_of cfg n \<and> sl_Order cur > order_of cfg n" by blast
    then have sel: "selectedLabels (update_label cfg n l s) = selectedLabels s"
      and app: "map_of (appliedLabelsMap (update_label cfg n l s)) = map_of (appliedLabelsMap s)"
      using old [of "l_Key l"] by (auto simp: update_label_def selectRuleLabel_def Let_def update_conv' fun_eq_iff)
    show ?thesis unfolding label_inv_def sel app
    proof (intro allI conjI impI)
      fix k sel n' l'
      assume "map_of (selectedLabels s) k = Some sel" "UpdateLabel n' l' \<in> set (tr @ [UpdateLabel n l])" "l_Key l' = k"
      with old [of k] cur better show "outranked cfg n' sel" by (auto simp: outranked_def)
    next
      fix k sel
      assume "map_of (selectedLabels s) k = Some sel"
      with old [of k] have "\<exists>n l. UpdateLabel n l \<in> set tr \<and> l_Key l = k \<and>
          sel = \<lparr>sl_Value = l_Value l, sl_Priority = priority_of cfg n, sl_Order = order_of cfg n\<rparr>" by blast
      then show "\<exists>n' l'. UpdateLabel n' l' \<in> set (tr @ [UpdateLabel n l]) \<and> l_Key l' = k \<and>
          sel = \<lparr>sl_Value = l_Value l', sl_Priority = priority_of cfg n', sl_Order = order_of cfg n'\<rparr>" by auto
    next
      fix k n' l'
      assume "map_of (selectedLabels s) k = None" "UpdateLabel n' l' \<in> set (tr @ [UpdateLabel n l])"
      with old [of k] cur show "l_Key l' \<noteq> k" by auto
    qed (use old in auto)
  next
    case False
    then have keep: "\<not> (case map_of (selectedLabels s) (l_Key l) of None \<Rightarrow> False | Some current \<Rightarrow>
        sl_Priority current > priority_of cfg n \<or> sl_Priority current = priority_of cfg n \<and> sl_Order current > order_of cfg n)"
      by (auto split: option.splits)
    then have sel: "map_of (selectedLabels (update_label cfg n l s)) = (map_of (selectedLabels s))(l_Key l \<mapsto> ?new)"
      and app: "map_of (appliedLabelsMap (update_label cfg n l s)) = (map_of (appliedLabelsMap s))(l_Key l \<mapsto>
        \<lparr>al_Key = l_Key l, al_Value = l_Value l, al_Priority = priority_of cfg n, al_Order = order_of cfg n\<rparr>)"
      by (simp_all add: update_label_def selectRuleLabel_def Let_def update_conv')
    have beat: "outranked cfg n' ?new" if "UpdateLabel n' l' \<in> set tr" "l_Key l' = l_Key l" for n' l'
    proof (cases "map_of (selectedLabels s) (l_Key l)")
      case None
      with old [of "l_Key l"] that show ?thesis by blast
    next
      case (Some cur)
      with old [of "l_Key l"] that have "outranked cfg n' cur" by blast
      with keep Some show ?thesis by (auto simp: outranked_def)
    qed
    show ?thesis unfolding label_inv_def sel app
    proof (intro allI conjI impI)
      fix k sel
      assume "((map_of (selectedLabels s))(l_Key l \<mapsto> ?new)) k = Some sel"
      then show "\<exists>n' l'. UpdateLabel n' l' \<in> set (tr @ [UpdateLabel n l]) \<and> l_Key l' = k \<and>
          sel = \<lparr>sl_Value = l_Value l', sl_Priority = priority_of cfg n', sl_Order = order_of cfg n'\<rparr>"
        using old [of k] by (cases "k = l_Key l") auto
    next
      fix k sel n' l'
      assume "((map_of (selectedLabels s))(l_Key l \<mapsto> ?new)) k = Some sel"
        "UpdateLabel n' l' \<in> set (tr @ [UpdateLabel n l])" "l_Key l' = k"
      then show "outranked cfg n' sel" using old [of k] beat
        by (cases "k = l_Key l") (auto simp: outranked_def)
    next
      fix k n' l'
      assume "((map_of (selectedLabels s))(l_Key l \<mapsto> ?new)) k = None" "UpdateLabel n' l' \<in> set (tr @ [UpdateLabel n l])"
      with old [of k] show "l_Key l' \<noteq> k" by (auto split: if_splits)
    qed (use old in \<open>auto split: if_splits\<close>)
  qed
qed

interpretation labels: schedule_invariant ks cfg "label_inv cfg" for ks cfg
proof
  fix tr s a r
  assume I: "label_inv cfg tr s"
  show "label_inv cfg (tr @ [a]) (fst (exec_action ks cfg a r s))"
  proof (cases a)
    case (UpdateLabel n l)
    with label_inv_update [OF I] show ?thesis by simp
  next
    case (UpdateTaint n t)
    have "selectedLabels (updateTaintMaps cfg n t s) = selectedLabels s"
      "appliedLabelsMap (updateTaintMaps cfg n t s) = appliedLabelsMap s" by (simp_all add: updateTaintMaps_def Let_def)
    with I UpdateTaint show ?thesis by (simp add: label_inv_def)
  qed (use I in \<open>simp_all add: label_inv_def Let_def\<close>)
qed

text \<open>
  The effect of a taint is that of a rule of greatest priority among the taint actions executed
  so far, and is empty exactly as long as there is none.
\<close>

definition effect_of :: "collected \<Rightarrow> keyValTaint \<Rightarrow> string" where
  "effect_of s kv = (case map_of (taintAppliedMap s) kv of None \<Rightarrow> [] | Some e \<Rightarrow> e)"

definition effect_priority :: "collected \<Rightarrow> keyValTaint \<Rightarrow> int" where
  "effect_priority s kv = (case map_of (taintEffectPriorityMap s) kv of None \<Rightarrow> 0 | Some p \<Rightarrow> p)"

definition taint_inv :: "rulesetsConfig \<Rightarrow> action list \<Rightarrow> collected \<Rightarrow> bool" where
  "taint_inv cfg tr s \<longleftrightarrow>
     ((\<forall>n t. UpdateTaint n t \<in> set tr \<longrightarrow> t_Effect t \<noteq> []) \<longrightarrow>
      (\<forall>kv. (effect_of s kv = [] \<longrightarrow> (\<forall>n t. UpdateTaint n t \<in> set tr \<longrightarrow> (t_Key t, t_Value t) \<noteq> kv)) \<and>
         (effect_of s kv \<noteq> [] \<longrightarrow>
            (\<exists>n t. UpdateTaint n t \<in> set tr \<and> (t_Key t, t_Value t) = kv \<and> t_Effect t = effect_of s kv \<and>
               priority_of cfg n = effect_priority s kv) \<and>
            (\<forall>n t. UpdateTaint n t \<in> set tr \<longrightarrow> (t_Key t, t_Value t) = kv \<longrightarrow> priority_of cfg n \<le> effect_priority s kv))))"

lemma updateTaintMaps_effect:
  "effect_of (updateTaintMaps cfg n t s) kv =
     (if kv = (t_Key t, t_Value t) \<and> (effect_of s kv = [] \<or> priority_of cfg n > effect_priority s kv)
      then t_Effect t else effect_of s kv)"
  "effect_priority (updateTaintMaps cfg n t s) kv =
     (if kv = (t_Key t, t_Value t) \<and> (effect_of s kv = [] \<or> priority_of cfg n > effect_priority s kv)
      then priority_of cfg n else effect_priority s kv)"
  by (auto simp: updateTaintMaps_def effect_of_def effect_priority_def Let_def update_conv' split: option.splits)

lemma taint_inv_update:
  assumes "taint_inv cfg tr s"
  shows "taint_inv cfg (tr @ [UpdateTaint n t]) (updateTaintMaps cfg n t s)"
  unfolding taint_inv_def
proof (rule impI, rule allI)
  fix kv
  assume eff: "\<forall>n' t'. UpdateTaint n' t' \<in> set (tr @ [UpdateTaint n t]) \<longrightarrow> t_Effect t' \<noteq> []"
  then have "\<forall>n t. UpdateTaint n t \<in> set tr \<longrightarrow> t_Effect t \<noteq> []" by simp
  note old = spec [OF mp [OF assms [unfolded taint_inv_def] this], of kv]
  from eff have te: "t_Effect t \<noteq> []" by simp
  consider (other) "kv \<noteq> (t_Key t, t_Value t)"
    | (replace) "kv = (t_Key t, t_Value t)" "effect_of s kv = [] \<or> priority_of cfg n > effect_priority s kv"
    | (keep) "kv = (t_Key t, t_Value t)" "effect_of s kv \<noteq> []" "priority_of cfg n \<le> effect_priority s kv"
    by force
  then show "(effect_of (updateTaintMaps cfg n t s) kv = [] \<longrightarrow>
        (\<forall>n' t'. UpdateTaint n' t' \<in> set (tr @ [UpdateTaint n t]) \<longrightarrow> (t_Key t', t_Value t') \<noteq> kv)) \<and>
      (effect_of (updateTaintMaps cfg n t s) kv \<noteq> [] \<longrightarrow>
        (\<exists>n' t'. UpdateTaint n' t' \<in> set (tr @ [UpdateTaint n t]) \<and> (t_Key t', t_Value t') = kv \<and>
           t_Effect t' = effect_of (updateTaintMaps cfg n t s) kv \<and>
           priority_of cfg n' = effect_priority (updateTaintMaps cfg n t s) kv) \<and>
        (\<forall>n' t'. UpdateTaint n' t' \<in> set (tr @ [UpdateTaint n t]) \<longrightarrow> (t_Key t', t_Value t') = kv \<longrightarrow>
           priority_of cfg n' \<le> effect_priority (updateTaintMaps cfg n t s) kv))"
  proof cases
    case other
    with old show ?thesis unfolding updateTaintMaps_effect by auto
  next
    case replace
    then have "priority_of cfg n' \<le> priority_of cfg n" if "UpdateTaint n' t' \<in> set tr" "(t_Key t', t_Value t') = kv" for n' t'
      using old that by (cases "effect_of s kv = []") force+
    with replace te show ?thesis unfolding updateTaintMaps_effect by auto
  next
    case keep
    with old show ?thesis unfolding updateTaintMaps_effect by auto
  qed
qed

interpretation taints: schedule_invariant ks cfg "taint_inv cfg" for ks cfg
proof
  fix tr s a r
  assume I: "taint_inv cfg tr s"
  show "taint_inv cfg (tr @ [a]) (fst (exec_action ks cfg a r s))"
  proof (cases a)
    case (UpdateTaint n t)
    with taint_inv_update [OF I] show ?thesis by simp
  qed (use I in \<open>simp_all add: taint_inv_def effect_of_def effect_priority_def update_label_def Let_def\<close>)
qed

text \<open>The cordon flag and the errors.\<close>

definition sent :: "action \<Rightarrow> error list" where
  "sent a = (case a of SendError e \<Rightarrow> [e] | _ \<Rightarrow> [])"

definition flag_inv :: "bool \<Rightarrow> error multiset \<Rightarrow> action list \<Rightarrow> collected \<Rightarrow> bool" where
  "flag_inv c0 e0 tr s \<longleftrightarrow> isCordoned s = (c0 \<or> StoreCordoned \<in> set tr) \<and>
     mset (errCh s) = e0 + mset (concat (map sent tr))"

interpretation flags: schedule_invariant ks cfg "flag_inv c0 e0" for ks cfg c0 e0
proof
  fix tr s a r
  assume "flag_inv c0 e0 tr s"
  then show "flag_inv c0 e0 (tr @ [a]) (fst (exec_action ks cfg a r s))"
    by (cases a) (auto simp: flag_inv_def sent_def update_label_def updateTaintMaps_def Let_def)
qed

section \<open>The configuration\<close>

text \<open>Orders identify names, and every rule set with a label or a taint has an order.\<close>

definition config_inv :: "nat \<Rightarrow> RuleSet list \<Rightarrow> rulesetsConfig \<Rightarrow> bool" where
  "config_inv k rss c \<longleftrightarrow>
     (\<forall>n i. map_of (RuleSetOrderMap c) n = Some i \<longrightarrow> i < k) \<and>
     (\<forall>n n' i. map_of (RuleSetOrderMap c) n = Some i \<longrightarrow> map_of (RuleSetOrderMap c) n' = Some i \<longrightarrow> n = n') \<and>
     (\<forall>n l. map_of (LabelConfigMap c) n = Some l \<longrightarrow> map_of (RuleSetOrderMap c) n \<noteq> None) \<and>
     (\<forall>n t. map_of (TaintConfigMap c) n = Some t \<longrightarrow> (\<exists>r \<in> set rss. t = rs_Taint r \<and> t_Key t \<noteq> []))"

lemma config_inv_add:
  assumes "config_inv k rss c" and "r \<in> set rss"
  shows "config_inv (Suc k) rss (add_ruleset (k, r) c)"
  using assms unfolding config_inv_def add_ruleset_def
  by (auto simp: update_conv' less_Suc_eq split: if_splits)

lemma config_inv_fold:
  "config_inv k rss c \<Longrightarrow> set rs \<subseteq> set rss \<Longrightarrow> config_inv (k + length rs) rss (fold add_ruleset (enumerate k rs) c)"
proof (induction rs arbitrary: k c)
  case (Cons r rs)
  then have "config_inv (Suc k) rss (add_ruleset (k, r) c)" by (intro config_inv_add) auto
  with Cons.IH [of "Suc k"] Cons.prems show ?case by simp
qed simp

lemma buildRulesetsConfig_inv: "config_inv (length rss) rss (buildRulesetsConfig rss)"
  using config_inv_fold [of 0 rss empty_config rss] by (simp add: buildRulesetsConfig_def config_inv_def empty_config_def)

lemma order_identifies:
  assumes "map_of (LabelConfigMap (buildRulesetsConfig rss)) n = Some l"
    and "map_of (LabelConfigMap (buildRulesetsConfig rss)) n' = Some l'"
    and "order_of (buildRulesetsConfig rss) n = order_of (buildRulesetsConfig rss) n'"
  shows "n = n'"
  using buildRulesetsConfig_inv [of rss] assms unfolding config_inv_def order_of_def
  by (auto split: option.splits)

section \<open>The actions of the goroutines\<close>

definition matched_names :: "eventCoverage option \<Rightarrow> (error \<Rightarrow> bool) \<Rightarrow> health_event \<Rightarrow> RuleSetEvaluator list \<Rightarrow> string set" where
  "matched_names ctx iee event evals =
     {GetName ev | ev. ev \<in> set evals \<and> fst (evaluateRuleAgainstRecoveryEffects ctx iee event ev)}"

lemma remaining_mem: "a \<in># remaining_actions gs \<longleftrightarrow> (\<exists>g \<in> set gs. a \<in> set (todo g))"
  unfolding remaining_actions_def by (induction gs) auto

lemma goroutine_todo:
  "todo (rule_goroutine ctx iee cfg event ev) =
     (if fst (evaluateRuleAgainstRecoveryEffects ctx iee event ev) then rule_actions cfg (GetName ev) else []) @
     (case snd (evaluateRuleAgainstRecoveryEffects ctx iee event ev) of None \<Rightarrow> [] | Some e \<Rightarrow> [SendError e])"
  by (simp add: rule_goroutine_def split: prod.splits)

lemma rule_actions_mem:
  "UpdateLabel n l \<in> set (rule_actions cfg m) \<longleftrightarrow> n = m \<and> map_of (LabelConfigMap cfg) m = Some l"
  "UpdateTaint n t \<in> set (rule_actions cfg m) \<longleftrightarrow> n = m \<and> map_of (TaintConfigMap cfg) m = Some t"
  "StoreCordoned \<in> set (rule_actions cfg m) \<longleftrightarrow> map_of (CordonConfigMap cfg) m = Some True"
  "SendError e \<notin> set (rule_actions cfg m)"
  by (auto simp: rule_actions_def split: option.splits)

lemma goroutine_actions:
  "UpdateLabel n l \<in># remaining_actions (map (rule_goroutine ctx iee cfg event) evals) \<longleftrightarrow>
     n \<in> matched_names ctx iee event evals \<and> map_of (LabelConfigMap cfg) n = Some l"
  "UpdateTaint n t \<in># remaining_actions (map (rule_goroutine ctx iee cfg event) evals) \<longleftrightarrow>
     n \<in> matched_names ctx iee event evals \<and> map_of (TaintConfigMap cfg) n = Some t"
  "StoreCordoned \<in># remaining_actions (map (rule_goroutine ctx iee cfg event) evals) \<longleftrightarrow>
     (\<exists>n \<in> matched_names ctx iee event evals. map_of (CordonConfigMap cfg) n = Some True)"
  "SendError e \<in># remaining_actions (map (rule_goroutine ctx iee cfg event) evals) \<longleftrightarrow>
     (\<exists>ev \<in> set evals. snd (evaluateRuleAgainstRecoveryEffects ctx iee event ev) = Some e)"
  unfolding remaining_mem matched_names_def
  by (auto simp: goroutine_todo rule_actions_mem eq_commute [of "Some e"] split: if_splits option.splits)

lemma init_collected_effect: "effect_of (force_override ks event (init_collected keys)) kv = []"
  by (simp add: effect_of_def force_override_def init_collected_def Let_def al.get_put_keys)

lemma join_errors_None: "join_errors a b = None \<longleftrightarrow> a = None \<and> b = None"
  by (auto simp: join_errors_def split: option.splits)

lemma fold_join_None: "fold (\<lambda>e acc. join_errors acc (Some e)) es acc = None \<longleftrightarrow> es = [] \<and> acc = None"
  by (induction es arbitrary: acc) (auto simp: join_errors_None)


text \<open>The keys of the taint map stay distinct, so the collected taints are the entries of the map.\<close>

interpretation taint_keys: schedule_invariant ks cfg "\<lambda>_ s. distinct (map fst (taintAppliedMap s))" for ks cfg
proof
  fix tr :: "action list" and s :: collected and a r
  assume "distinct (map fst (taintAppliedMap s))"
  then show "distinct (map fst (taintAppliedMap (fst (exec_action ks cfg a r s))))"
    by (cases a) (auto simp: update_label_def updateTaintMaps_def Let_def distinct_update)
qed

lemma init_collected_distinct: "distinct (map fst (taintAppliedMap (force_override ks event (init_collected keys))))"
proof -
  have "distinct (map fst (fold (\<lambda>kv. AList.update kv []) ks m))" if "distinct (map fst m)" for ks and m :: "(keyValTaint, string) gomap"
    using that by (induction ks arbitrary: m) (simp_all add: distinct_update)
  then show ?thesis by (simp add: force_override_def init_collected_def Let_def)
qed

lemma collectTaintsToApply_mem:
  assumes "distinct (map fst (taintAppliedMap s))"
  shows "t \<in> set (collectTaintsToApply (taintAppliedMap s)) \<longleftrightarrow>
    \<not> t_PreExisting t \<and> t_Effect t \<noteq> [] \<and> effect_of s (t_Key t, t_Value t) = t_Effect t"
proof -
  have "t \<in> set (collectTaintsToApply (taintAppliedMap s)) \<longleftrightarrow>
    \<not> t_PreExisting t \<and> t_Effect t \<noteq> [] \<and> ((t_Key t, t_Value t), t_Effect t) \<in> set (taintAppliedMap s)"
    by (cases t) (force simp: collectTaintsToApply_def image_iff)
  also have "\<dots> \<longleftrightarrow> \<not> t_PreExisting t \<and> t_Effect t \<noteq> [] \<and> map_of (taintAppliedMap s) (t_Key t, t_Value t) = Some (t_Effect t)"
    using assms by simp
  also have "\<dots> \<longleftrightarrow> \<not> t_PreExisting t \<and> t_Effect t \<noteq> [] \<and> effect_of s (t_Key t, t_Value t) = t_Effect t"
    by (auto simp: effect_of_def split: option.splits)
  finally show ?thesis .
qed

section \<open>What the rule sets ask for\<close>

text \<open>The label of a matched rule set that no matched rule set for the same key outranks.\<close>

definition label_wins :: "rulesetsConfig \<Rightarrow> string set \<Rightarrow> AppliedLabel \<Rightarrow> bool" where
  "label_wins cfg M a \<longleftrightarrow> (\<exists>n \<in> M. \<exists>l. map_of (LabelConfigMap cfg) n = Some l \<and>
     a = \<lparr>al_Key = l_Key l, al_Value = l_Value l, al_Priority = priority_of cfg n, al_Order = order_of cfg n\<rparr> \<and>
     (\<forall>n' \<in> M. \<forall>l'. map_of (LabelConfigMap cfg) n' = Some l' \<longrightarrow> l_Key l' = l_Key l \<longrightarrow>
        priority_of cfg n' < priority_of cfg n \<or> priority_of cfg n' = priority_of cfg n \<and> order_of cfg n' \<le> order_of cfg n))"

text \<open>The taint of a matched rule set that no matched rule set for the same key and value exceeds in priority.\<close>

definition taint_wins :: "rulesetsConfig \<Rightarrow> string set \<Rightarrow> Taint \<Rightarrow> bool" where
  "taint_wins cfg M t \<longleftrightarrow> (\<exists>n \<in> M. \<exists>c. map_of (TaintConfigMap cfg) n = Some c \<and>
     t = \<lparr>t_Key = t_Key c, t_Value = t_Value c, t_Effect = t_Effect c, t_PreExisting = False\<rparr> \<and>
     (\<forall>n' \<in> M. \<forall>c'. map_of (TaintConfigMap cfg) n' = Some c' \<longrightarrow> t_Key c' = t_Key c \<longrightarrow> t_Value c' = t_Value c \<longrightarrow>
        priority_of cfg n' \<le> priority_of cfg n))"

lemma mset_eq_empty_iff: "mset xs = mset (concat (map f ys)) \<Longrightarrow> xs = [] \<longleftrightarrow> (\<forall>y \<in> set ys. f y = [])"
  by (metis mset_zero_iff concat_eq_Nil_conv imageI imageE set_map)

lemma sent_Nil: "sent a = [] \<longleftrightarrow> (\<nexists>e. a = SendError e)"
  by (cases a) (simp_all add: sent_def)

lemma trace_mem: "mset tr = remaining_actions gs \<Longrightarrow> a \<in> set tr \<longleftrightarrow> a \<in># remaining_actions gs"
  by (metis set_mset_mset)


definition rules_result ::
  "nat list \<Rightarrow> eventCoverage option \<Rightarrow> (error \<Rightarrow> bool) \<Rightarrow> label_keys \<Rightarrow> rulesetsConfig \<Rightarrow> health_event \<Rightarrow> RuleSetEvaluator list \<Rightarrow> collected \<times> error option" where
  "rules_result sched ctx iee ks cfg event evals =
     evaluateRulesets sched ctx iee ks cfg event evals (init_collected (precomputeTaintInitKeys evals cfg))"

lemma rules_result_run:
  "fst (rules_result sched ctx iee ks cfg event evals) =
     run_all ks cfg sched (force_override ks event (init_collected (precomputeTaintInitKeys evals cfg)), map (rule_goroutine ctx iee cfg event) evals)"
  "snd (rules_result sched ctx iee ks cfg event evals) = None \<longleftrightarrow> errCh (fst (rules_result sched ctx iee ks cfg event evals)) = []"
  by (simp_all add: rules_result_def evaluateRulesets_def Let_def fold_join_None)

lemma rules_cordon_error:
  "isCordoned (fst (rules_result sched ctx iee ks cfg event evals)) \<longleftrightarrow>
     is_force event \<or> (\<exists>n \<in> matched_names ctx iee event evals. map_of (CordonConfigMap cfg) n = Some True)" (is ?cordon)
  "snd (rules_result sched ctx iee ks cfg event evals) = None \<longleftrightarrow>
     (\<forall>ev \<in> set evals. snd (evaluateRuleAgainstRecoveryEffects ctx iee event ev) = None)" (is ?error)
proof -
  let ?gs = "map (rule_goroutine ctx iee cfg event) evals"
  let ?init = "force_override ks event (init_collected (precomputeTaintInitKeys evals cfg))"
  have "flag_inv (is_force event) {#} [] ?init"
    by (simp add: flag_inv_def force_override_def init_collected_def Let_def)
  from flags.run_all_inv [OF this, of ks cfg sched ?gs] obtain tr where
    inv: "flag_inv (is_force event) {#} tr (fst (rules_result sched ctx iee ks cfg event evals))" and tr: "mset tr = remaining_actions ?gs"
    unfolding rules_result_run by blast
  then show ?cordon by (simp add: flag_inv_def trace_mem [OF tr] goroutine_actions)
  from inv have "mset (errCh (fst (rules_result sched ctx iee ks cfg event evals))) = mset (concat (map sent tr))"
    by (simp add: flag_inv_def)
  from mset_eq_empty_iff [OF this]
  have "errCh (fst (rules_result sched ctx iee ks cfg event evals)) = [] \<longleftrightarrow> (\<forall>e. SendError e \<notin> set tr)"
    unfolding sent_Nil by blast
  then show ?error unfolding rules_result_run(2) trace_mem [OF tr] goroutine_actions by (metis not_Some_eq)
qed

lemma rules_labels:
  "map_of (appliedLabelsMap (fst (rules_result sched ctx iee ks (buildRulesetsConfig rss) event evals))) k = Some a \<longleftrightarrow>
     al_Key a = k \<and> label_wins (buildRulesetsConfig rss) (matched_names ctx iee event evals) a" (is "?l \<longleftrightarrow> ?r")
proof -
  let ?cfg = "buildRulesetsConfig rss"
  let ?gs = "map (rule_goroutine ctx iee ?cfg event) evals"
  let ?init = "force_override ks event (init_collected (precomputeTaintInitKeys evals ?cfg))"
  let ?s = "fst (rules_result sched ctx iee ks ?cfg event evals)"
  have "label_inv ?cfg [] ?init"
    by (simp add: label_inv_def force_override_def init_collected_def Let_def)
  from labels.run_all_inv [OF this, of ks sched ?gs] obtain tr where
    inv: "label_inv ?cfg tr ?s" and tr: "mset tr = remaining_actions ?gs"
    unfolding rules_result_run by blast
  note mem = trace_mem [OF tr] goroutine_actions
  note at = spec [OF inv [unfolded label_inv_def mem outranked_def], of k]
  show ?thesis
  proof
    assume ?l
    then obtain sel where sel: "map_of (selectedLabels ?s) k = Some sel"
      and a: "a = \<lparr>al_Key = k, al_Value = sl_Value sel, al_Priority = sl_Priority sel, al_Order = sl_Order sel\<rparr>"
      using at by auto
    with at show ?r unfolding label_wins_def by fastforce
  next
    assume ?r
    then obtain n l where n: "n \<in> matched_names ctx iee event evals" "map_of (LabelConfigMap ?cfg) n = Some l" "l_Key l = k"
      and a: "a = \<lparr>al_Key = l_Key l, al_Value = l_Value l, al_Priority = priority_of ?cfg n, al_Order = order_of ?cfg n\<rparr>"
      and top: "\<forall>n' \<in> matched_names ctx iee event evals. \<forall>l'. map_of (LabelConfigMap ?cfg) n' = Some l' \<longrightarrow> l_Key l' = l_Key l \<longrightarrow>
        priority_of ?cfg n' < priority_of ?cfg n \<or> priority_of ?cfg n' = priority_of ?cfg n \<and> order_of ?cfg n' \<le> order_of ?cfg n"
      unfolding label_wins_def by auto
    from at n obtain sel where sel: "map_of (selectedLabels ?s) k = Some sel" by (cases "map_of (selectedLabels ?s) k") auto
    with at obtain n' l' where n': "n' \<in> matched_names ctx iee event evals" "map_of (LabelConfigMap ?cfg) n' = Some l'" "l_Key l' = k"
      "sel = \<lparr>sl_Value = l_Value l', sl_Priority = priority_of ?cfg n', sl_Order = order_of ?cfg n'\<rparr>" by auto
    have "priority_of ?cfg n < priority_of ?cfg n' \<or> priority_of ?cfg n = priority_of ?cfg n' \<and> order_of ?cfg n \<le> order_of ?cfg n'"
      using at sel n n'(4) by auto
    with top n' n have "order_of ?cfg n = order_of ?cfg n'" by force
    from order_identifies [OF n(2) n'(2) this] n' n a at sel show ?l by auto
  qed
qed

lemma configured_effect:
  assumes "\<forall>r \<in> set rss. t_Key (rs_Taint r) \<noteq> [] \<longrightarrow> t_Effect (rs_Taint r) \<noteq> []"
    and "map_of (TaintConfigMap (buildRulesetsConfig rss)) n = Some c"
  shows "t_Effect c \<noteq> []"
  using buildRulesetsConfig_inv [of rss] assms unfolding config_inv_def by blast

lemma rules_taints:
  fixes sched ctx iee ks event evals
  assumes eff: "\<forall>r \<in> set rss. t_Key (rs_Taint r) \<noteq> [] \<longrightarrow> t_Effect (rs_Taint r) \<noteq> []"
  defines "cfg \<equiv> buildRulesetsConfig rss"
  defines "L \<equiv> collectTaintsToApply (taintAppliedMap (fst (rules_result sched ctx iee ks cfg event evals)))"
  shows "t \<in> set L \<Longrightarrow> taint_wins cfg (matched_names ctx iee event evals) t" (is "_ \<Longrightarrow> ?sound")
    and "n \<in> matched_names ctx iee event evals \<Longrightarrow> map_of (TaintConfigMap cfg) n = Some c \<Longrightarrow>
      \<exists>t \<in> set L. t_Key t = t_Key c \<and> t_Value t = t_Value c"
    and "t \<in> set L \<Longrightarrow> t' \<in> set L \<Longrightarrow> t_Key t = t_Key t' \<Longrightarrow> t_Value t = t_Value t' \<Longrightarrow> t = t'"
proof -
  let ?gs = "map (rule_goroutine ctx iee cfg event) evals"
  let ?init = "force_override ks event (init_collected (precomputeTaintInitKeys evals cfg))"
  let ?s = "fst (rules_result sched ctx iee ks cfg event evals)"
  have "taint_inv cfg [] ?init" by (simp add: taint_inv_def init_collected_effect)
  from taints.run_all_inv [OF this, of ks sched ?gs] obtain tr where
    inv: "taint_inv cfg tr ?s" and tr: "mset tr = remaining_actions ?gs"
    unfolding rules_result_run by blast
  note mem = trace_mem [OF tr] goroutine_actions
  have "\<forall>n t. UpdateTaint n t \<in> set tr \<longrightarrow> t_Effect t \<noteq> []"
    using configured_effect [OF eff] by (auto simp: mem cfg_def)
  note at = spec [OF mp [OF inv [unfolded taint_inv_def] this], unfolded mem]
  have D: "distinct (map fst (taintAppliedMap ?s))"
    using taint_keys.run_all_inv [OF init_collected_distinct, where gs = ?gs] unfolding rules_result_run by blast
  note L = collectTaintsToApply_mem [OF D]
  show ?sound if "t \<in> set L"
  proof -
    from that have t: "\<not> t_PreExisting t" "t_Effect t \<noteq> []" "effect_of ?s (t_Key t, t_Value t) = t_Effect t"
      unfolding L_def L by auto
    with at [of "(t_Key t, t_Value t)"] obtain n c where
      n: "n \<in> matched_names ctx iee event evals" "map_of (TaintConfigMap cfg) n = Some c" "t_Key c = t_Key t" "t_Value c = t_Value t"
        "t_Effect c = t_Effect t" "priority_of cfg n = effect_priority ?s (t_Key t, t_Value t)"
      and top: "\<forall>n t'. n \<in> matched_names ctx iee event evals \<and> map_of (TaintConfigMap cfg) n = Some t' \<longrightarrow>
        (t_Key t', t_Value t') = (t_Key t, t_Value t) \<longrightarrow> priority_of cfg n \<le> effect_priority ?s (t_Key t, t_Value t)" by auto
    with t(1) show ?thesis unfolding taint_wins_def by (intro bexI [OF _ n(1)] exI [of _ c]) (auto intro: Taint.equality)
  qed
  show "\<exists>t \<in> set L. t_Key t = t_Key c \<and> t_Value t = t_Value c"
    if "n \<in> matched_names ctx iee event evals" "map_of (TaintConfigMap cfg) n = Some c"
  proof (rule bexI)
    let ?t = "\<lparr>t_Key = t_Key c, t_Value = t_Value c, t_Effect = effect_of ?s (t_Key c, t_Value c), t_PreExisting = False\<rparr>"
    show "t_Key ?t = t_Key c \<and> t_Value ?t = t_Value c" by simp
    show "?t \<in> set L" using at [of "(t_Key c, t_Value c)"] that unfolding L_def L by auto
  qed
  show "t = t'" if "t \<in> set L" "t' \<in> set L" "t_Key t = t_Key t'" "t_Value t = t_Value t'"
    using that unfolding L_def L by (intro Taint.equality) auto
qed


text \<open>
  C19. However the goroutines of an evaluation interleave, the node is cordoned exactly if the
  event forces it or a matched rule set asks for it; the label applied for a key is the one of
  the matched rule set of greatest priority and, among these, the one configured last; the taints
  applied are one for each key and value that a matched rule set configures, each with the effect
  of a matched rule set of greatest priority for it; and an error is returned exactly if some rule
  set failed to evaluate. Configured taints have an effect.
\<close>

theorem rules_schedule_independent:
  assumes "\<forall>r \<in> set ruleSets. t_Key (rs_Taint r) \<noteq> [] \<longrightarrow> t_Effect (rs_Taint r) \<noteq> []"
    and "cfg = buildRulesetsConfig ruleSets"
    and "M = matched_names ctx iee event evals"
    and "evaluateRulesets sched ctx iee ks cfg event evals (init_collected (precomputeTaintInitKeys evals cfg)) = (s, err)"
    and "L = collectTaintsToApply (taintAppliedMap s)"
  shows "(isCordoned s \<longleftrightarrow> is_force event \<or> (\<exists>n \<in> M. map_of (CordonConfigMap cfg) n = Some True)) \<and>
    (\<forall>k a. map_of (appliedLabelsMap s) k = Some a \<longleftrightarrow> al_Key a = k \<and> label_wins cfg M a) \<and>
    (\<forall>t \<in> set L. taint_wins cfg M t) \<and>
    (\<forall>n \<in> M. \<forall>c. map_of (TaintConfigMap cfg) n = Some c \<longrightarrow> (\<exists>!t. t \<in> set L \<and> t_Key t = t_Key c \<and> t_Value t = t_Value c)) \<and>
    (err = None \<longleftrightarrow> (\<forall>ev \<in> set evals. snd (evaluateRuleAgainstRecoveryEffects ctx iee event ev) = None))"
proof -
  from assms(4) have s: "s = fst (rules_result sched ctx iee ks cfg event evals)" "err = snd (rules_result sched ctx iee ks cfg event evals)"
    by (simp_all add: rules_result_def)
  note taints = rules_taints [OF assms(1), where sched = sched and ctx = ctx and iee = iee and ks = ks and event = event and evals = evals, folded assms(2), folded s assms(5), folded assms(3)]
  have "\<exists>!t. t \<in> set L \<and> t_Key t = t_Key c \<and> t_Value t = t_Value c" if "n \<in> M" "map_of (TaintConfigMap cfg) n = Some c" for n c
    using taints(2) [OF that] taints(3) by metis
  moreover have "\<forall>t \<in> set L. taint_wins cfg M t" using taints(1) by blast
  ultimately show ?thesis
    using rules_cordon_error [of sched ctx iee ks cfg event evals, folded s assms(3)]
      rules_labels [of sched ctx iee ks ruleSets event evals, folded assms(2), folded s assms(3)] by simp
qed

definition demo_rule_sets :: "RuleSet list" where
  "demo_rule_sets =
     [\<lparr>rs_Enabled = True, rs_Name = ''xid'', rs_Priority = 20, rs_Any = [], rs_All = [],
       rs_Taint = \<lparr>t_Key = ''gpu'', t_Value = ''bad'', t_Effect = ''NoExecute'', t_PreExisting = False\<rparr>,
       rs_Label = \<lparr>l_Key = ''fault'', l_Value = ''xid''\<rparr>, rs_ShouldCordon = True\<rparr>,
      \<lparr>rs_Enabled = True, rs_Name = ''fatal'', rs_Priority = 20, rs_Any = [], rs_All = [],
       rs_Taint = \<lparr>t_Key = [], t_Value = [], t_Effect = [], t_PreExisting = False\<rparr>,
       rs_Label = \<lparr>l_Key = ''fault'', l_Value = ''fatal''\<rparr>, rs_ShouldCordon = False\<rparr>]"

definition demo_evaluators :: "RuleSetEvaluator list" where
  "demo_evaluators = [AnyRuleSetEvaluator ''xid'' [\<lambda>e. (IsFatal e, None)],
     AllRuleSetEvaluator ''fatal'' [\<lambda>e. (IsFatal e, None)]]"

definition demo_label_keys :: label_keys where
  "demo_label_keys = \<lparr>cordonedByLabelKey = ''cordon-by'', cordonedReasonLabelKey = ''cordon-reason'',
     cordonedTimestampLabelKey = ''cordon-timestamp''\<rparr>"

definition demo_rules_result :: "collected \<times> error option" where
  "demo_rules_result = evaluateRulesets [1, 0, 0, 1] None (\<lambda>_. True) demo_label_keys (buildRulesetsConfig demo_rule_sets)
     (zero_event\<lparr>IsFatal := True\<rparr>) demo_evaluators
     (init_collected (precomputeTaintInitKeys demo_evaluators (buildRulesetsConfig demo_rule_sets)))"

lemma demo_evaluation:
  "ev \<in> set demo_evaluators \<Longrightarrow>
     evaluateRuleAgainstRecoveryEffects None (\<lambda>_. True) (zero_event\<lparr>IsFatal := True\<rparr>) ev = (True, None)"
  by (auto simp: demo_evaluators_def evaluateRuleAgainstRecoveryEffects_def ProjectHealthEvent_def evaluateRule_def multi_error_def append_error_def)

lemma demo_matched:
  "matched_names None (\<lambda>_. True) (zero_event\<lparr>IsFatal := True\<rparr>) demo_evaluators = {''xid'', ''fatal''}"
proof -
  have "matched_names None (\<lambda>_. True) (zero_event\<lparr>IsFatal := True\<rparr>) demo_evaluators = GetName ` set demo_evaluators"
    unfolding matched_names_def by (auto simp: demo_evaluation)
  then show ?thesis by (simp add: demo_evaluators_def)
qed

lemmas demo_config = buildRulesetsConfig_def demo_rule_sets_def add_ruleset_def empty_config_def priority_of_def order_of_def

theorem rules_schedule_independent_witness:
  "isCordoned (fst demo_rules_result) \<and> snd demo_rules_result = None \<and>
   map_of (appliedLabelsMap (fst demo_rules_result)) ''fault'' =
     Some \<lparr>al_Key = ''fault'', al_Value = ''fatal'', al_Priority = 20, al_Order = 1\<rparr> \<and>
   (\<exists>!t. t \<in> set (collectTaintsToApply (taintAppliedMap (fst demo_rules_result))) \<and> t_Key t = ''gpu'' \<and> t_Value t = ''bad'')"
proof -
  note result = rules_schedule_independent [of demo_rule_sets _ _ None "\<lambda>_. True" "zero_event\<lparr>IsFatal := True\<rparr>" demo_evaluators
      "[1, 0, 0, 1]" demo_label_keys, OF _ refl demo_matched [symmetric] prod.collapse [symmetric] refl, folded demo_rules_result_def]
  have "\<forall>r \<in> set demo_rule_sets. t_Key (rs_Taint r) \<noteq> [] \<longrightarrow> t_Effect (rs_Taint r) \<noteq> []"
    by (simp add: demo_rule_sets_def)
  note result = result [OF this]
  have "label_wins (buildRulesetsConfig demo_rule_sets) {''xid'', ''fatal''} \<lparr>al_Key = ''fault'', al_Value = ''fatal'', al_Priority = 20, al_Order = 1\<rparr>"
    by (simp add: label_wins_def demo_config)
  moreover have "map_of (CordonConfigMap (buildRulesetsConfig demo_rule_sets)) ''xid'' = Some True"
    "map_of (TaintConfigMap (buildRulesetsConfig demo_rule_sets)) ''xid'' =
      Some \<lparr>t_Key = ''gpu'', t_Value = ''bad'', t_Effect = ''NoExecute'', t_PreExisting = False\<rparr>"
    by (simp_all add: demo_config)
  ultimately show ?thesis using result by (auto simp: demo_evaluation)
qed

section \<open>Updating a quarantined node\<close>

definition recorded_taints :: "json_codec \<Rightarrow> quarantine_node \<Rightarrow> error + Taint list" where
  "recorded_taints js node = (case map_of (qn_Annotations node) AppliedTaintsKey of
     None \<Rightarrow> Inr [] | Some txt \<Rightarrow> if txt = [] then Inr [] else unmarshal_taints js txt)"

definition is_recorded :: "json_codec \<Rightarrow> quarantine_node \<Rightarrow> Taint \<Rightarrow> bool" where
  "is_recorded js node t \<longleftrightarrow> (case recorded_taints js node of Inl _ \<Rightarrow> False
     | Inr ts \<Rightarrow> \<exists>r \<in> set ts. t_Key r = t_Key t \<and> t_Effect r = t_Effect t)"

definition on_node :: "quarantine_node \<Rightarrow> Taint \<Rightarrow> bool" where
  "on_node node t \<longleftrightarrow> (\<exists>n \<in> set (qn_Taints node). nt_Key n = t_Key t \<and> nt_Effect n = t_Effect t \<and> nt_Value n = t_Value t)"

text \<open>The node has the key and the effect with another value.\<close>

definition conflicts :: "quarantine_node \<Rightarrow> Taint \<Rightarrow> bool" where
  "conflicts node t \<longleftrightarrow> (\<exists>n \<in> set (qn_Taints node). nt_Key n = t_Key t \<and> nt_Effect n = t_Effect t \<and> nt_Value n \<noteq> t_Value t)"

lemma node_taint_lookup:
  assumes "distinct (map (\<lambda>n. (nt_Key n, nt_Effect n)) ns)"
  shows "map_of (rev (map (\<lambda>n. ((nt_Key n, nt_Effect n), nt_Value n)) ns)) (k, e) = Some v \<longleftrightarrow>
    (\<exists>n \<in> set ns. nt_Key n = k \<and> nt_Effect n = e \<and> nt_Value n = v)"
proof -
  let ?m = "rev (map (\<lambda>n. ((nt_Key n, nt_Effect n), nt_Value n)) ns)"
  have "map fst ?m = rev (map (\<lambda>n. (nt_Key n, nt_Effect n)) ns)" by (simp add: rev_map comp_def)
  with assms have "distinct (map fst ?m)" by simp
  from map_of_eq_Some_iff [OF this] show ?thesis by force
qed

lemma session_taint_cases:
  assumes "distinct (map (\<lambda>n. (nt_Key n, nt_Effect n)) (qn_Taints node))"
  shows "session_taint recorded node t =
    (if (t_Key t, t_Effect t) \<in> set recorded \<or> conflicts node t then []
     else [t\<lparr>t_PreExisting := t_PreExisting t \<or> on_node node t\<rparr>])"
proof (cases "map_of (rev (map (\<lambda>n. ((nt_Key n, nt_Effect n), nt_Value n)) (qn_Taints node))) (t_Key t, t_Effect t)")
  case None
  with node_taint_lookup [OF assms, of "t_Key t" "t_Effect t"]
  have "\<forall>n \<in> set (qn_Taints node). \<not> (nt_Key n = t_Key t \<and> nt_Effect n = t_Effect t)" by auto
  then have "\<not> on_node node t" "\<not> conflicts node t" unfolding on_node_def conflicts_def by blast+
  with None show ?thesis by (simp add: session_taint_def)
next
  case (Some v)
  note lookup = node_taint_lookup [OF assms, of "t_Key t" "t_Effect t", unfolded Some]
  then have "conflicts node t \<longleftrightarrow> v \<noteq> t_Value t" "on_node node t \<longleftrightarrow> v = t_Value t"
    unfolding on_node_def conflicts_def by (metis option.inject)+
  with Some show ?thesis by (simp add: session_taint_def)
qed

lemma sessionTaintsToAdd_exact:
  assumes "distinct (map (\<lambda>n. (nt_Key n, nt_Effect n)) (qn_Taints node))"
    and "sessionTaintsToAdd js node desired = Inr ts"
  shows "ts = map (\<lambda>t. t\<lparr>t_PreExisting := t_PreExisting t \<or> on_node node t\<rparr>)
    (filter (\<lambda>t. \<not> is_recorded js node t \<and> \<not> conflicts node t) desired)"
proof -
  from assms(2) obtain rs where rs: "recorded_taints js node = Inr rs"
    and ts: "ts = concat (map (session_taint (map (\<lambda>t. (t_Key t, t_Effect t)) rs) node) desired)"
    by (auto simp: sessionTaintsToAdd_def recorded_taints_def Let_def split: option.splits sum.splits if_splits)
  have rec: "(t_Key t, t_Effect t) \<in> set (map (\<lambda>t. (t_Key t, t_Effect t)) rs) \<longleftrightarrow> is_recorded js node t" for t
    by (simp add: is_recorded_def rs image_iff) metis
  show ?thesis unfolding ts session_taint_cases [OF assms(1)] rec
    by (induction desired) auto
qed

lemma deleteCordonLabels_keys:
  "k \<in> {cordonedByLabelKey ks, cordonedReasonLabelKey ks, cordonedTimestampLabelKey ks} \<Longrightarrow> map_of (deleteCordonLabels ks m) k = None"
  by (auto simp: deleteCordonLabels_def delete_conv')

lemma addSessionCordon_spec:
  fixes req rec node
  defines "on \<equiv> req \<and> rec \<and> map_of (qn_Annotations node) IsCordonedKey \<noteq> Some ''True'' \<and> \<not> qn_Unschedulable node"
  assumes "\<not> sa_cordon u"
  shows "sa_taints (addSessionCordon ts ks node req rec u) = sa_taints u"
    and "sa_cordon (addSessionCordon ts ks node req rec u) \<longleftrightarrow> on"
    and "map_of (sa_annotations (addSessionCordon ts ks node req rec u)) AppliedTaintsKey = map_of (sa_annotations u) AppliedTaintsKey"
    and "\<not> on \<Longrightarrow> k \<in> {cordonedByLabelKey ks, cordonedReasonLabelKey ks, cordonedTimestampLabelKey ks} \<Longrightarrow>
      map_of (sa_labels (addSessionCordon ts ks node req rec u)) k = None"
  using assms deleteCordonLabels_keys [of k ks]
  by (auto simp: addSessionCordon_def Let_def update_conv' annotation_keys)

text \<open>
  C20. The update of a node that is already quarantined only adds what the node lacks: its taints
  are the required ones that are neither recorded as applied (same key and effect) nor present with
  another value, and each is marked as pre-existing exactly if the node already has it; they are
  recorded in the annotation that is written with them; the node is cordoned exactly if that is required,
  not yet recorded, and the node is schedulable, and labels that say who cordoned it are written
  only then. A dry run changes taints and cordon only of a node whose session is itself a dry run.
\<close>

theorem session_update_only_adds:
  assumes "buildSessionActionUpdate js dryRun timestamp ks node required = Inr u"
    and "distinct (map (\<lambda>n. (nt_Key n, nt_Effect n)) (qn_Taints node))"
    and "recording \<longleftrightarrow> \<not> dryRun \<or> map_of (qn_Annotations node) DryRunKey \<noteq> None"
  shows "sa_taints u = (if recording then map (\<lambda>t. t\<lparr>t_PreExisting := t_PreExisting t \<or> on_node node t\<rparr>)
      (filter (\<lambda>t. \<not> is_recorded js node t \<and> \<not> conflicts node t) (sa_taints required)) else []) \<and>
    (sa_taints u = [] \<or> (\<exists>txt. marshal_taints js (sa_taints u) = Inr txt \<and> map_of (sa_annotations u) AppliedTaintsKey = Some txt)) \<and>
    (sa_cordon u \<longleftrightarrow> sa_cordon required \<and> recording \<and>
      map_of (qn_Annotations node) IsCordonedKey \<noteq> Some ''True'' \<and> \<not> qn_Unschedulable node) \<and>
    (\<forall>k \<in> {cordonedByLabelKey ks, cordonedReasonLabelKey ks, cordonedTimestampLabelKey ks}.
      \<not> sa_cordon u \<longrightarrow> map_of (sa_labels u) k = None)"
proof -
  let ?u0 = "\<lparr>sa_taints = [], sa_cordon = False, sa_annotations = sa_annotations required, sa_labels = sa_labels required\<rparr>"
  let ?ts = "if recording then map (\<lambda>t. t\<lparr>t_PreExisting := t_PreExisting t \<or> on_node node t\<rparr>)
      (filter (\<lambda>t. \<not> is_recorded js node t \<and> \<not> conflicts node t) (sa_taints required)) else []"
  let ?step = "if recording then (case sessionTaintsToAdd js node (sa_taints required) of Inl e \<Rightarrow> Inl e
      | Inr taints \<Rightarrow> if taints = [] then Inr ?u0
          else case marshal_taints js taints of Inl e \<Rightarrow> Inl (EWrap ''marshal session applied taints'' e)
            | Inr txt \<Rightarrow> Inr (?u0\<lparr>sa_taints := taints, sa_annotations := AList.update AppliedTaintsKey txt (sa_annotations ?u0)\<rparr>))
     else Inr ?u0"
  from assms(1) obtain u' where u: "u = addSessionCordon timestamp ks node (sa_cordon required) recording u'" and step: "?step = Inr u'"
    unfolding buildSessionActionUpdate_def Let_def assms(3) [symmetric] by (cases ?step) (simp_all only: sum.case sum.inject sum.distinct(1) sum.distinct(2) simp_thms, blast)
  have u': "sa_taints u' = ?ts \<and> \<not> sa_cordon u' \<and>
      (?ts = [] \<or> (\<exists>txt. marshal_taints js ?ts = Inr txt \<and> map_of (sa_annotations u') AppliedTaintsKey = Some txt))"
  proof (cases recording)
    case True
    then obtain taints where taints: "sessionTaintsToAdd js node (sa_taints required) = Inr taints"
      using step by (cases "sessionTaintsToAdd js node (sa_taints required)") simp_all
    have ts: "?ts = taints" using True sessionTaintsToAdd_exact [OF assms(2) taints] by simp
    show ?thesis unfolding ts using step True taints
      by (cases "marshal_taints js taints") (auto simp: update_conv' split: if_splits)
  qed (use step in auto)
  have "\<not> sa_cordon u'" using u' by blast
  note cordon = addSessionCordon_spec [OF this, where ts = timestamp and ks = ks and node = node and req = "sa_cordon required"
      and rec = recording, folded u]
  show ?thesis
  proof (intro conjI ballI impI)
    show "sa_taints u = ?ts" unfolding cordon(1) using u' by (rule conjunct1)
    show "sa_taints u = [] \<or> (\<exists>txt. marshal_taints js (sa_taints u) = Inr txt \<and> map_of (sa_annotations u) AppliedTaintsKey = Some txt)"
      unfolding cordon(1,3) using u' by presburger
    show "sa_cordon u \<longleftrightarrow> sa_cordon required \<and> recording \<and>
      map_of (qn_Annotations node) IsCordonedKey \<noteq> Some ''True'' \<and> \<not> qn_Unschedulable node" by (rule cordon(2))
    show "map_of (sa_labels u) k = None"
      if "k \<in> {cordonedByLabelKey ks, cordonedReasonLabelKey ks, cordonedTimestampLabelKey ks}" "\<not> sa_cordon u" for k
      using cordon(4) [OF _ that(1)] that(2) unfolding cordon(2) by blast
  qed
qed


text \<open>A codec that is enough for one concrete node.\<close>

definition demo_json :: json_codec where
  "demo_json = \<lparr>marshal_taints = (\<lambda>ts. Inr (concat (map t_Key ts))),
     unmarshal_taints = (\<lambda>txt. Inr [\<lparr>t_Key = txt, t_Value = ''bad'', t_Effect = ''NoSchedule'', t_PreExisting = False\<rparr>]),
     marshal_labels = (\<lambda>ls. Inr (concat (map al_Key ls)))\<rparr>"

definition demo_quarantined :: quarantine_node where
  "demo_quarantined = \<lparr>qn_Annotations = [(AppliedTaintsKey, ''gpu'')],
     qn_Taints = [\<lparr>nt_Key = ''nic'', nt_Value = ''down'', nt_Effect = ''NoSchedule''\<rparr>], qn_Unschedulable = False\<rparr>"

definition demo_required :: sessionActionUpdate where
  "demo_required = \<lparr>sa_taints = [\<lparr>t_Key = ''gpu'', t_Value = ''bad'', t_Effect = ''NoSchedule'', t_PreExisting = False\<rparr>,
       \<lparr>t_Key = ''nic'', t_Value = ''down'', t_Effect = ''NoSchedule'', t_PreExisting = False\<rparr>],
     sa_cordon = True, sa_annotations = [], sa_labels = []\<rparr>"

theorem session_update_only_adds_witness:
  "\<exists>u. buildSessionActionUpdate demo_json False ''now'' demo_label_keys demo_quarantined demo_required = Inr u \<and>
     sa_taints u = [\<lparr>t_Key = ''nic'', t_Value = ''down'', t_Effect = ''NoSchedule'', t_PreExisting = True\<rparr>] \<and> sa_cordon u"
proof -
  have "\<exists>u. buildSessionActionUpdate demo_json False ''now'' demo_label_keys demo_quarantined demo_required = Inr u"
    by (simp add: buildSessionActionUpdate_def sessionTaintsToAdd_def session_taint_def demo_json_def demo_quarantined_def
        demo_required_def annotation_keys)
  then obtain u where u: "buildSessionActionUpdate demo_json False ''now'' demo_label_keys demo_quarantined demo_required = Inr u"
    by blast
  have "distinct (map (\<lambda>n. (nt_Key n, nt_Effect n)) (qn_Taints demo_quarantined))" by (simp add: demo_quarantined_def)
  note spec = session_update_only_adds [OF u this, of True, simplified, THEN conjunct1]
    session_update_only_adds [OF u this, of True, simplified, THEN conjunct2, THEN conjunct2, THEN conjunct1]
  have "sa_taints u = [\<lparr>t_Key = ''nic'', t_Value = ''down'', t_Effect = ''NoSchedule'', t_PreExisting = True\<rparr>]"
    unfolding spec(1) by (simp add: is_recorded_def recorded_taints_def conflicts_def on_node_def demo_json_def
        demo_quarantined_def demo_required_def annotation_keys)
  moreover have "sa_cordon u"
    unfolding spec(2) by (simp add: demo_quarantined_def demo_required_def annotation_keys)
  ultimately show ?thesis using u by blast
qed

end
