(* ===== verification/Node_Patch.thy ===== *)
theory Node_Patch
  imports Rule_Sets
begin

text \<open>
  How fault-quarantine writes a node (\<^verbatim>\<open>commons/pkg/kubeclient/nodepatch.go\<close> and \<^verbatim>\<open>UpdateNode\<close> of
  \<^verbatim>\<open>fault-quarantine/pkg/informer/k8s_client.go\<close>): a change is computed on the cached node, sent
  as a merge patch of what it changed, and computed again on the live node after a conflict.

  The API server is a record of functions over a state \<^verbatim>\<open>'w\<close>, and \<^verbatim>\<open>retry.OnError\<close>, the library
  function that diffs two documents and its predicates for broken connections are arguments. A
  mutation may set variables of its caller, so it maps the captured variables \<^verbatim>\<open>'c\<close> and a node to
  new ones and to an error or the node. Node taints carry no time. Encoding maps, lists and
  strings does not fail.
\<close>

section \<open>Nodes\<close>

record kube_node =
  kn_Name :: string
  kn_ResourceVersion :: string
  kn_Labels :: "(string, string) gomap option"
  kn_Annotations :: "(string, string) gomap option"
  kn_Taints :: "node_taint list"
  kn_Unschedulable :: bool

text \<open>A nil map or list reads as an empty one.\<close>

definition entries :: "'a list option \<Rightarrow> 'a list" where
  "entries m = (case m of None \<Rightarrow> [] | Some xs \<Rightarrow> xs)"

type_synonym ('c, 'n) mutation = "'c \<Rightarrow> 'n \<Rightarrow> 'c \<times> (error + 'n)"

section \<open>Building the patch\<close>

definition projectNodePatchableFields :: "kube_node \<Rightarrow> kube_node" where
  "projectNodePatchableFields n = \<lparr>kn_Name = [], kn_ResourceVersion = [], kn_Labels = kn_Labels n,
     kn_Annotations = kn_Annotations n, kn_Taints = kn_Taints n, kn_Unschedulable = kn_Unschedulable n\<rparr>"

text \<open>The JSON document of a projection; a field that is absent from it is \<^verbatim>\<open>None\<close>.\<close>

record patch_document =
  pd_labels :: "(string, string) gomap option"
  pd_annotations :: "(string, string) gomap option"
  pd_resourceVersion :: "string option"
  pd_taints :: "node_taint list option"
  pd_unschedulable :: "bool option"

text \<open>The tag \<^verbatim>\<open>omitempty\<close>.\<close>

definition omit_empty :: "'a list \<Rightarrow> 'a list option" where
  "omit_empty xs = (if xs = [] then None else Some xs)"

definition marshal_projection :: "kube_node \<Rightarrow> patch_document" where
  "marshal_projection n = \<lparr>pd_labels = omit_empty (entries (kn_Labels n)),
     pd_annotations = omit_empty (entries (kn_Annotations n)),
     pd_resourceVersion = omit_empty (kn_ResourceVersion n),
     pd_taints = omit_empty (kn_Taints n),
     pd_unschedulable = (if kn_Unschedulable n then Some True else None)\<rparr>"

definition keep_map :: "bool \<Rightarrow> ('k, 'v) gomap option \<Rightarrow> ('k, 'v) gomap option" where
  "keep_map keep m = (if keep \<and> m = None then Some [] else m)"

definition patchProjectionJSON :: "kube_node \<Rightarrow> bool \<Rightarrow> bool \<Rightarrow> patch_document" where
  "patchProjectionJSON projection keepLabels keepAnnotations =
     (let document = marshal_projection projection
      in document\<lparr>pd_labels := keep_map keepLabels (pd_labels document),
                  pd_annotations := keep_map keepAnnotations (pd_annotations document)\<rparr>)"

definition specChanged :: "kube_node \<Rightarrow> kube_node \<Rightarrow> bool" where
  "specChanged original modified \<longleftrightarrow>
     kn_Taints original \<noteq> kn_Taints modified \<or> kn_Unschedulable original \<noteq> kn_Unschedulable modified"

type_synonym create_patch = "patch_document \<Rightarrow> patch_document \<Rightarrow> error + string"

definition NodeMergePatch :: "create_patch \<Rightarrow> kube_node \<Rightarrow> kube_node \<Rightarrow> error + string option" where
  "NodeMergePatch CreateTwoWayMergePatch original modified =
     (let originalProjection = projectNodePatchableFields original;
          modifiedProjection = (projectNodePatchableFields modified)\<lparr>kn_ResourceVersion :=
            (if specChanged original modified then kn_ResourceVersion original else [])\<rparr>;
          keepLabels = (kn_Labels original \<noteq> None \<or> kn_Labels modified \<noteq> None);
          keepAnnotations = (kn_Annotations original \<noteq> None \<or> kn_Annotations modified \<noteq> None)
      in case CreateTwoWayMergePatch (patchProjectionJSON originalProjection keepLabels keepAnnotations)
              (patchProjectionJSON modifiedProjection keepLabels keepAnnotations) of
           Inl e \<Rightarrow> Inl (EWrap (''build strategic merge patch for node '' @ kn_Name original) e)
         | Inr patch \<Rightarrow> Inr (if patch = ''{}'' then None else Some patch))"

section \<open>Retries\<close>

definition IsRetryableNodePatchError :: "(error \<Rightarrow> bool) \<Rightarrow> error \<Rightarrow> bool" where
  "IsRetryableNodePatchError connection_lost err \<longleftrightarrow>
     IsConflict err \<or>
     status_reason err \<in> {Some ''ServerTimeout'', Some ''TooManyRequests'', Some ''Timeout'', Some ''ServiceUnavailable''} \<or>
     connection_lost err"

type_synonym 's retry_on_error =
  "(error \<Rightarrow> bool) \<Rightarrow> ('s \<times> error option \<Rightarrow> ('s \<times> error option) \<times> error option)
     \<Rightarrow> 's \<times> error option \<Rightarrow> ('s \<times> error option) \<times> error option"

text \<open>The captured variable \<^verbatim>\<open>lastErr\<close> is threaded beside the state.\<close>

definition RetryNodePatch ::
  "'s retry_on_error \<Rightarrow> (error \<Rightarrow> bool) \<Rightarrow> ('s \<Rightarrow> 's \<times> error option) \<Rightarrow> 's \<Rightarrow> 's \<times> error option" where
  "RetryNodePatch onError connection_lost fn s =
     (let ((s', lastErr), err) = onError (IsRetryableNodePatchError connection_lost)
            (\<lambda>(s, _). let (s', e) = fn s in ((s', e), e)) (s, None)
      in (s', if err = None \<and> lastErr \<noteq> None then lastErr else err))"

section \<open>The patcher\<close>

record 'w nodes_api =
  api_Get :: "'w \<Rightarrow> string \<Rightarrow> 'w \<times> (error + kube_node)"
  api_Patch :: "'w \<Rightarrow> string \<Rightarrow> string \<Rightarrow> 'w \<times> (error + kube_node)"

record ('w, 'c) patch_state =
  ps_world :: 'w
  pendingVersions :: "(string, string) gomap"
  ps_current :: kube_node
  ps_changed :: bool
  ps_captured :: 'c

definition currentNode ::
  "'w nodes_api \<Rightarrow> string \<Rightarrow> kube_node option \<Rightarrow> ('w, 'c) patch_state \<Rightarrow> ('w, 'c) patch_state \<times> error option" where
  "currentNode api nodeName cached st =
     (let fetch = (\<lambda>what. let (w, got) = api_Get api (ps_world st) nodeName in
            case got of
              Inl e \<Rightarrow> (st\<lparr>ps_world := w\<rparr>, Some (EWrap what e))
            | Inr n \<Rightarrow> (st\<lparr>ps_world := w, ps_current := n\<rparr>, None))
      in case map_of (pendingVersions st) nodeName of
           None \<Rightarrow>
             (case cached of
                Some n \<Rightarrow> (st\<lparr>ps_current := n\<rparr>, None)
              | None \<Rightarrow> fetch (''get node '' @ nodeName @ '' from API server''))
         | Some writtenVersion \<Rightarrow>
             (case cached of
                Some n \<Rightarrow>
                  if writtenVersion \<noteq> [] \<and> kn_ResourceVersion n = writtenVersion
                  then (st\<lparr>pendingVersions := AList.delete nodeName (pendingVersions st), ps_current := n\<rparr>, None)
                  else fetch (''refresh node '' @ nodeName @ '' while pending write is not in cache'')
              | None \<Rightarrow> fetch (''refresh node '' @ nodeName @ '' while pending write is not in cache'')))"

definition patch_attempt ::
  "'w nodes_api \<Rightarrow> create_patch \<Rightarrow> string \<Rightarrow> ('c, kube_node) mutation \<Rightarrow> ('w, 'c) patch_state
     \<Rightarrow> ('w, 'c) patch_state \<times> error option" where
  "patch_attempt api create nodeName mutate st =
     (let (captured, result) = mutate (ps_captured st) (ps_current st); st1 = st\<lparr>ps_captured := captured\<rparr> in
      case result of
        Inl e \<Rightarrow> (st1, Some (EWrap (''mutate node '' @ nodeName) e))
      | Inr desired \<Rightarrow>
          (case NodeMergePatch create (ps_current st) desired of
             Inl e \<Rightarrow> (st1, Some (EWrap (''build merge patch for node '' @ nodeName) e))
           | Inr None \<Rightarrow> (st1, None)
           | Inr (Some patch) \<Rightarrow>
               (let (w, patched) = api_Patch api (ps_world st1) nodeName patch; st2 = st1\<lparr>ps_world := w\<rparr> in
                case patched of
                  Inr updated \<Rightarrow>
                    (st2\<lparr>pendingVersions := AList.update nodeName (kn_ResourceVersion updated) (pendingVersions st2),
                         ps_changed := True\<rparr>, None)
                | Inl err \<Rightarrow>
                    if IsConflict err then
                      (let (w', got) = api_Get api (ps_world st2) nodeName; st3 = st2\<lparr>ps_world := w'\<rparr> in
                       case got of
                         Inl e \<Rightarrow> (st3, Some (EWrap (''refresh node '' @ nodeName @ '' after patch conflict'') e))
                       | Inr refreshed \<Rightarrow> (st3\<lparr>ps_current := refreshed\<rparr>, Some (EWrap (''patch node '' @ nodeName) err)))
                    else (st2, Some (EWrap (''patch node '' @ nodeName) err)))))"

definition Patch ::
  "('w, 'c) patch_state retry_on_error \<Rightarrow> (error \<Rightarrow> bool) \<Rightarrow> 'w nodes_api \<Rightarrow> create_patch \<Rightarrow> string \<Rightarrow> kube_node option
     \<Rightarrow> ('c, kube_node) mutation \<Rightarrow> ('w, 'c) patch_state \<Rightarrow> ('w, 'c) patch_state \<times> (error + bool)" where
  "Patch onError connection_lost api create nodeName cached mutate st =
     (let (st1, err) = RetryNodePatch onError connection_lost (currentNode api nodeName cached) st in
      case err of
        Some e \<Rightarrow> (st1, Inl e)
      | None \<Rightarrow>
          (let (st2, err2) = RetryNodePatch onError connection_lost (patch_attempt api create nodeName mutate)
                 (st1\<lparr>ps_changed := False\<rparr>) in
           case err2 of
             Some e \<Rightarrow> (st2, Inl e)
           | None \<Rightarrow> (st2, Inr (ps_changed st2))))"

end
