(* ===== verification/Quarantine_Client.thy ===== *)
theory Quarantine_Client
  imports Node_Patch Drain_Evaluator
begin

text \<open>
  The node updates of fault-quarantine (\<^verbatim>\<open>fault-quarantine/pkg/informer/k8s_client.go\<close>): each is a
  mutation of a node that \<^verbatim>\<open>UpdateNode\<close> carries out through the node patcher. Mutations may set
  variables of their callers, kept in a record; the texts in annotations are read and written
  by a codec that is an argument. \<^verbatim>\<open>UpdateNode\<close> holds a lock per node, so the calls for one node
  follow one another.
\<close>

section \<open>Annotation texts\<close>

text \<open>An event of the validation annotation; the embedded pointer may be nil.\<close>

record HealthEventWithTests =
  hewt_HealthEvent :: "health_event option"
  hewt_Tests :: "string list"

record quarantine_codec =
  qc_lists :: json_codec
  unmarshal_labels :: "string \<Rightarrow> error + AppliedLabel list"
  unmarshal_events :: "string \<Rightarrow> error + health_event list"
  marshal_events :: "health_event list \<Rightarrow> error + string"
  unmarshal_event :: "string \<Rightarrow> error + health_event"
  unmarshal_tests :: "string \<Rightarrow> error + HealthEventWithTests list"
  marshal_tests :: "HealthEventWithTests list \<Rightarrow> error + string"
  qc_slots :: slot_codec

definition IsEmptyValue :: "string \<Rightarrow> bool" where
  "IsEmptyValue val = (let trimmed = TrimSpace val in trimmed = [] \<or> trimmed = ''[]'')"

definition annotation :: "kube_node \<Rightarrow> string \<Rightarrow> string" where
  "annotation node key = (case map_of (entries (kn_Annotations node)) key of None \<Rightarrow> [] | Some v \<Rightarrow> v)"

definition label_text :: "kube_node \<Rightarrow> string \<Rightarrow> string" where
  "label_text node key = (case map_of (entries (kn_Labels node)) key of None \<Rightarrow> [] | Some v \<Rightarrow> v)"

definition ValidationEventKey :: string where "ValidationEventKey = ''quarantineValidationHealthEvent''"
definition UncordonedManuallyKey :: string where "UncordonedManuallyKey = ''quarantinedNodeUncordonedManually''"
definition UntaintedManuallyKey :: string where "UntaintedManuallyKey = ''quarantinedNodeUntaintedManually''"

text \<open>Adding an event that the decoder has allocated: its address is the next unused one.\<close>

definition add_decoded :: "slot_codec \<Rightarrow> HealthEventsAnnotationMap \<Rightarrow> health_event \<Rightarrow> (HealthEventKey \<Rightarrow> bool) option
    \<Rightarrow> HealthEventsAnnotationMap \<times> bool" where
  "add_decoded J he event keep = AddOrUpdateEventFiltered J (he\<lparr>fresh := Suc (fresh he)\<rparr>) (fresh he, event) keep"

definition parseHealthEventsAnnotation :: "quarantine_codec \<Rightarrow> string \<Rightarrow> error + HealthEventsAnnotationMap" where
  "parseHealthEventsAnnotation qc val =
     (case unmarshal_events qc val of
        Inr events \<Rightarrow> Inr (UnmarshalJSON events)
      | Inl _ \<Rightarrow>
          (case unmarshal_event qc val of
             Inl e \<Rightarrow> Inl e
           | Inr singleEvent \<Rightarrow> Inr (fst (add_decoded (qc_slots qc) NewHealthEventsAnnotationMap singleEvent None))))"

text \<open>The incoming events live beside the existing ones, so their addresses are shifted.\<close>

definition mergeHealthEventsAnnotations ::
  "slot_codec \<Rightarrow> HealthEventsAnnotationMap \<Rightarrow> HealthEventsAnnotationMap \<Rightarrow> HealthEventsAnnotationMap" where
  "mergeHealthEventsAnnotations J existing incoming =
     fold (\<lambda>(_, p) he. fst (AddOrUpdateEvent J he (fresh existing + fst p, snd p))) (Events incoming)
       (existing\<lparr>fresh := fresh existing + fresh incoming\<rparr>)"

type_synonym taintIdentity = "string \<times> string"

definition merge_taint :: "Taint \<Rightarrow> (taintIdentity, Taint) gomap \<Rightarrow> (taintIdentity, Taint) gomap" where
  "merge_taint taint mergedByKey =
     (let key = (t_Key taint, t_Effect taint) in
      case map_of mergedByKey key of
        None \<Rightarrow> AList.update key taint mergedByKey
      | Some existing \<Rightarrow> AList.update key (taint\<lparr>t_PreExisting := t_PreExisting existing \<or> t_PreExisting taint\<rparr>) mergedByKey)"

definition mergeAppliedTaints :: "Taint list \<Rightarrow> Taint list \<Rightarrow> Taint list" where
  "mergeAppliedTaints existingTaints incomingTaints = map snd (fold merge_taint (existingTaints @ incomingTaints) [])"

definition merge_label :: "AppliedLabel \<Rightarrow> (string, AppliedLabel) gomap \<Rightarrow> (string, AppliedLabel) gomap" where
  "merge_label incoming mergedByKey =
     (let keep = (case map_of mergedByKey (al_Key incoming) of
          None \<Rightarrow> False
        | Some existing \<Rightarrow> al_Priority existing > al_Priority incoming \<or>
            (al_Priority existing = al_Priority incoming \<and> al_Order existing > al_Order incoming))
      in if keep then mergedByKey else AList.update (al_Key incoming) incoming mergedByKey)"

definition mergeAppliedLabels :: "AppliedLabel list \<Rightarrow> AppliedLabel list \<Rightarrow> AppliedLabel list" where
  "mergeAppliedLabels existingLabels incomingLabels =
     (let mergedByKey = fold merge_label incomingLabels (fold (\<lambda>l. AList.update (al_Key l) l) existingLabels []);
          keys = sort (map_keys mergedByKey)
      in map (\<lambda>key. the (map_of mergedByKey key)) keys)"

definition mergeQuarantineValidationHealthEvents ::
  "HealthEventWithTests list \<Rightarrow> HealthEventWithTests list \<Rightarrow> HealthEventWithTests list" where
  "mergeQuarantineValidationHealthEvents existing incoming = existing @ incoming"

definition mergeAnnotation ::
  "string \<Rightarrow> (string \<Rightarrow> error + 't) \<Rightarrow> ('t \<Rightarrow> 't \<Rightarrow> 't) \<Rightarrow> ('t \<Rightarrow> error + string) \<Rightarrow> string \<Rightarrow> string \<Rightarrow> error + string" where
  "mergeAnnotation annotationName parse merge marshal existingValue incomingValue =
     (if IsEmptyValue existingValue then Inr incomingValue
      else if IsEmptyValue incomingValue then Inr existingValue
      else case parse existingValue of
          Inl e \<Rightarrow> Inl (EWrap (''failed to parse existing '' @ annotationName @ '' annotation'') e)
        | Inr existing \<Rightarrow>
            (case parse incomingValue of
               Inl e \<Rightarrow> Inl (EWrap (''failed to parse incoming '' @ annotationName @ '' annotation'') e)
             | Inr incoming \<Rightarrow>
                 (case marshal (merge existing incoming) of
                    Inl e \<Rightarrow> Inl (EWrap (''failed to marshal merged '' @ annotationName @ '' annotation'') e)
                  | Inr txt \<Rightarrow> Inr txt)))"

text \<open>The table of mergers; a key without one is overwritten.\<close>

definition annotationMergers :: "quarantine_codec \<Rightarrow> string \<Rightarrow> (string \<Rightarrow> string \<Rightarrow> error + string) option" where
  "annotationMergers qc key =
     (if key = QuarantineHealthEventAnnotationKey then
        Some (mergeAnnotation ''quarantine health event'' (parseHealthEventsAnnotation qc)
          (mergeHealthEventsAnnotations (qc_slots qc)) (\<lambda>he. marshal_events qc (MarshalJSON he)))
      else if key = AppliedTaintsKey then
        Some (mergeAnnotation ''applied taints'' (unmarshal_taints (qc_lists qc)) mergeAppliedTaints (marshal_taints (qc_lists qc)))
      else if key = AppliedLabelsKey then
        Some (mergeAnnotation ''applied labels'' (unmarshal_labels qc) mergeAppliedLabels (marshal_labels (qc_lists qc)))
      else if key = ValidationEventKey then
        Some (mergeAnnotation ''quarantine validation health event'' (unmarshal_tests qc)
          mergeQuarantineValidationHealthEvents (marshal_tests qc))
      else None)"

section \<open>Quarantine\<close>

record FaultQuarantineClient =
  DryRunMode :: bool
  client_cordonedReasonLabelKey :: string
  client_uncordonedReasonLabelKey :: string

record captured =
  alreadyQuarantined :: bool
  updatedMap :: HealthEventsAnnotationMap

definition same_identity :: "node_taint \<Rightarrow> string \<Rightarrow> string \<Rightarrow> bool" where
  "same_identity n key effect \<longleftrightarrow> nt_Key n = key \<and> nt_Effect n = effect"

definition unique_taints :: "node_taint list \<Rightarrow> node_taint list" where
  "unique_taints ts = fold (\<lambda>t acc. if list_ex (\<lambda>u. same_identity u (nt_Key t) (nt_Effect t)) acc then acc else acc @ [t]) ts []"

fun upsert_taint :: "Taint \<Rightarrow> node_taint list \<Rightarrow> node_taint list" where
  "upsert_taint t [] = [\<lparr>nt_Key = t_Key t, nt_Value = t_Value t, nt_Effect = t_Effect t\<rparr>]"
| "upsert_taint t (n # ns) =
     (if same_identity n (t_Key t) (t_Effect t) then n\<lparr>nt_Value := t_Value t\<rparr> # ns else n # upsert_taint t ns)"

definition applyTaints :: "FaultQuarantineClient \<Rightarrow> Taint list \<Rightarrow> kube_node \<Rightarrow> kube_node" where
  "applyTaints c taints node =
     (if DryRunMode c then node else node\<lparr>kn_Taints := fold upsert_taint taints (unique_taints (kn_Taints node))\<rparr>)"

definition handleCordon :: "FaultQuarantineClient \<Rightarrow> kube_node \<Rightarrow> kube_node" where
  "handleCordon c node =
     (if kn_Unschedulable node then node
      else if DryRunMode c then node
      else node\<lparr>kn_Unschedulable := True\<rparr>)"

fun apply_annotations ::
  "quarantine_codec \<Rightarrow> (string, string) gomap \<Rightarrow> (string, string) gomap \<Rightarrow> error + (string, string) gomap" where
  "apply_annotations qc [] m = Inr m"
| "apply_annotations qc ((key, val) # rest) m =
     (case annotationMergers qc key of
        None \<Rightarrow> apply_annotations qc rest (AList.update key val m)
      | Some merge \<Rightarrow>
          (case merge (case map_of m key of None \<Rightarrow> [] | Some v \<Rightarrow> v) val of
             Inl e \<Rightarrow> Inl (EWrap (''failed to merge annotation '' @ key) e)
           | Inr merged \<Rightarrow> apply_annotations qc rest (AList.update key merged m)))"

definition applyAnnotations :: "quarantine_codec \<Rightarrow> (string, string) gomap \<Rightarrow> kube_node \<Rightarrow> error + kube_node" where
  "applyAnnotations qc annotations node =
     (case apply_annotations qc annotations (entries (kn_Annotations node)) of
        Inl e \<Rightarrow> Inl e
      | Inr m \<Rightarrow> Inr (node\<lparr>kn_Annotations := Some m\<rparr>))"

definition hasNonEmptyQuarantineHealthEvent :: "kube_node \<Rightarrow> bool" where
  "hasNonEmptyQuarantineHealthEvent node \<longleftrightarrow> \<not> IsEmptyValue (annotation node QuarantineHealthEventAnnotationKey)"

definition labelsWithSessionWinners ::
  "quarantine_codec \<Rightarrow> kube_node \<Rightarrow> (string, string) gomap \<Rightarrow> error + (string, string) gomap" where
  "labelsWithSessionWinners qc node labels =
     (let appliedLabelsJSON = annotation node AppliedLabelsKey in
      if IsEmptyValue appliedLabelsJSON then Inr labels
      else case unmarshal_labels qc appliedLabelsJSON of
          Inl e \<Rightarrow> Inl e
        | Inr appliedLabels \<Rightarrow> Inr (fold (\<lambda>l. AList.update (al_Key l) (al_Value l)) appliedLabels labels))"

text \<open>\<^verbatim>\<open>maps.Copy\<close>\<close>

definition copy_entries :: "('k, 'v) gomap \<Rightarrow> ('k, 'v) gomap \<Rightarrow> ('k, 'v) gomap" where
  "copy_entries src dst = fold (\<lambda>(k, v). AList.update k v) src dst"

definition applyLabels :: "FaultQuarantineClient \<Rightarrow> (string, string) gomap \<Rightarrow> kube_node \<Rightarrow> kube_node" where
  "applyLabels c labels node =
     (if DryRunMode c then node else node\<lparr>kn_Labels := Some (copy_entries labels (entries (kn_Labels node)))\<rparr>)"

definition delete_annotation :: "string \<Rightarrow> kube_node \<Rightarrow> kube_node" where
  "delete_annotation key node = node\<lparr>kn_Annotations := map_option (AList.delete key) (kn_Annotations node)\<rparr>"

definition quarantine_update ::
  "FaultQuarantineClient \<Rightarrow> quarantine_codec \<Rightarrow> Taint list \<Rightarrow> bool \<Rightarrow> (string, string) gomap \<Rightarrow> (string, string) gomap
     \<Rightarrow> (captured, kube_node) mutation" where
  "quarantine_update c qc taints isCordon annotations labels cap node =
     (let cap' = cap\<lparr>alreadyQuarantined := hasNonEmptyQuarantineHealthEvent node\<rparr>;
          n1 = (if DryRunMode c then node else delete_annotation DryRunKey node);
          n2 = (if taints \<noteq> [] then applyTaints c taints n1 else n1);
          n3 = (if isCordon then handleCordon c n2 else n2) in
      case (if annotations \<noteq> [] then applyAnnotations qc annotations n3 else Inr n3) of
        Inl e \<Rightarrow> (cap', Inl e)
      | Inr n4 \<Rightarrow>
          if labels \<noteq> [] then
            (case labelsWithSessionWinners qc n4 labels of
               Inl e \<Rightarrow> (cap', Inl (EWrap ''failed to get merged applied labels on node'' e))
             | Inr labelsToApply \<Rightarrow> (cap', Inr (applyLabels c labelsToApply n4)))
          else (cap', Inr n4))"

section \<open>Release\<close>

definition removeLabels :: "FaultQuarantineClient \<Rightarrow> string list \<Rightarrow> kube_node \<Rightarrow> kube_node" where
  "removeLabels c keys node =
     (if keys = [] then node
      else if DryRunMode c then node
      else node\<lparr>kn_Labels := map_option (fold AList.delete keys) (kn_Labels node)\<rparr>)"

text \<open>A taint of the configuration as a key: its three texts, and never pre-existing.\<close>

definition taint_key :: "node_taint \<Rightarrow> Taint" where
  "taint_key n = \<lparr>t_Key = nt_Key n, t_Value = nt_Value n, t_Effect = nt_Effect n, t_PreExisting = False\<rparr>"

definition removeNodeTaints :: "FaultQuarantineClient \<Rightarrow> Taint list \<Rightarrow> kube_node \<Rightarrow> kube_node" where
  "removeNodeTaints c taintsToRemove node =
     (if DryRunMode c then node
      else node\<lparr>kn_Taints := filter (\<lambda>n. taint_key n \<notin> set taintsToRemove) (kn_Taints node)\<rparr>)"

definition removeTaints :: "FaultQuarantineClient \<Rightarrow> Taint list \<Rightarrow> kube_node \<Rightarrow> kube_node" where
  "removeTaints c taints node =
     (if DryRunMode c then node
      else
        let taintsToActuallyRemove = filter (\<lambda>t. t\<lparr>t_PreExisting := False\<rparr> \<in> set (map taint_key (kn_Taints node))) taints
        in if taintsToActuallyRemove = [] then node else removeNodeTaints c taintsToActuallyRemove node)"

definition handleUncordon :: "FaultQuarantineClient \<Rightarrow> (string, string) gomap \<Rightarrow> kube_node \<Rightarrow> kube_node" where
  "handleUncordon c labels node =
     (let n1 = (if DryRunMode c then node else node\<lparr>kn_Unschedulable := False\<rparr>) in
      if labels \<noteq> [] then
        (let n2 = applyLabels c labels n1; uncordonReason = label_text n2 (client_cordonedReasonLabelKey c) in
         if uncordonReason \<noteq> [] then
           n2\<lparr>kn_Labels := Some (AList.update (client_uncordonedReasonLabelKey c) (take 55 uncordonReason @ ''-removed'')
                (entries (kn_Labels n2)))\<rparr>
         else n2)
      else n1)"

definition unquarantine_update ::
  "FaultQuarantineClient \<Rightarrow> Taint list \<Rightarrow> bool \<Rightarrow> string list \<Rightarrow> string list \<Rightarrow> (string, string) gomap
     \<Rightarrow> (captured, kube_node) mutation" where
  "unquarantine_update c taints shouldUncordon annotationKeys labelsToRemove labels cap node =
     (let n1 = (if taints \<noteq> [] then removeTaints c taints node else node);
          n2 = (if shouldUncordon then handleUncordon c labels n1 else n1);
          n3 = fold delete_annotation annotationKeys n2
      in (cap, Inr (removeLabels c labelsToRemove n3)))"

section \<open>Manual changes\<close>

record ConditionalLabelRemoval =
  clr_Keys :: "string list"
  clr_GuardKey :: string
  clr_GuardValue :: string

definition updateNodeAnnotationsForManualUncordon ::
  "string list \<Rightarrow> (string, string) gomap \<Rightarrow> kube_node \<Rightarrow> kube_node" where
  "updateNodeAnnotationsForManualUncordon annotationsToRemove annotationsToAdd node =
     node\<lparr>kn_Annotations := Some (copy_entries annotationsToAdd (fold AList.delete annotationsToRemove (entries (kn_Annotations node))))\<rparr>"

definition manual_cleanup ::
  "FaultQuarantineClient \<Rightarrow> string list \<Rightarrow> (string, string) gomap \<Rightarrow> string list \<Rightarrow> kube_node \<Rightarrow> kube_node" where
  "manual_cleanup c annotationsToRemove annotationsToAdd labelsToRemove node =
     removeLabels c labelsToRemove
       (if annotationsToRemove \<noteq> [] \<or> annotationsToAdd \<noteq> []
        then updateNodeAnnotationsForManualUncordon annotationsToRemove annotationsToAdd node else node)"

definition manual_untaint_update ::
  "FaultQuarantineClient \<Rightarrow> string list \<Rightarrow> (string, string) gomap \<Rightarrow> string list \<Rightarrow> (captured, kube_node) mutation" where
  "manual_untaint_update c annotationsToRemove annotationsToAdd labelsToRemove cap node =
     (cap, Inr (manual_cleanup c annotationsToRemove annotationsToAdd labelsToRemove node))"

definition manual_uncordon_update ::
  "FaultQuarantineClient \<Rightarrow> string list \<Rightarrow> (string, string) gomap \<Rightarrow> string list \<Rightarrow> ConditionalLabelRemoval option
     \<Rightarrow> (captured, kube_node) mutation" where
  "manual_uncordon_update c annotationsToRemove annotationsToAdd labelsToRemove conditionalLabels cap node =
     (let n1 = manual_cleanup c annotationsToRemove annotationsToAdd labelsToRemove node in
      (cap, Inr (case conditionalLabels of
         None \<Rightarrow> n1
       | Some cl \<Rightarrow>
           if clr_Keys cl \<noteq> [] \<and> label_text n1 (clr_GuardKey cl) = clr_GuardValue cl
           then removeLabels c (clr_Keys cl) n1 else n1)))"

section \<open>Carrying out an update\<close>

record 'w cluster =
  cl_onError :: "('w, captured) patch_state retry_on_error"
  cl_connection_lost :: "error \<Rightarrow> bool"
  cl_api :: "'w nodes_api"
  cl_create :: create_patch
  cl_synced :: "'w \<Rightarrow> bool"
  cl_informer :: "'w \<Rightarrow> string \<Rightarrow> error + kube_node"

type_synonym 'w fq_state = "('w, captured) patch_state"

definition cachedNodeForPatch :: "'w cluster \<Rightarrow> 'w \<Rightarrow> string \<Rightarrow> kube_node option" where
  "cachedNodeForPatch cl w nodeName =
     (if \<not> cl_synced cl w then None
      else case cl_informer cl w nodeName of Inl _ \<Rightarrow> None | Inr n \<Rightarrow> Some n)"

definition fq_UpdateNode ::
  "'w cluster \<Rightarrow> string \<Rightarrow> (captured, kube_node) mutation \<Rightarrow> 'w fq_state \<Rightarrow> 'w fq_state \<times> error option" where
  "fq_UpdateNode cl nodeName updateFn st =
     (let (st', result) = Patch (cl_onError cl) (cl_connection_lost cl) (cl_api cl) (cl_create cl) nodeName
            (cachedNodeForPatch cl (ps_world st) nodeName) updateFn st
      in (st', case result of Inl e \<Rightarrow> Some e | Inr _ \<Rightarrow> None))"

definition QuarantineNodeAndSetAnnotations ::
  "FaultQuarantineClient \<Rightarrow> quarantine_codec \<Rightarrow> 'w cluster \<Rightarrow> string \<Rightarrow> Taint list \<Rightarrow> bool \<Rightarrow> (string, string) gomap
     \<Rightarrow> (string, string) gomap \<Rightarrow> 'w fq_state \<Rightarrow> 'w fq_state \<times> bool \<times> error option" where
  "QuarantineNodeAndSetAnnotations c qc cl nodename taints isCordon annotations labels st =
     (let (st', err) = fq_UpdateNode cl nodename (quarantine_update c qc taints isCordon annotations labels)
            (st\<lparr>ps_captured := (ps_captured st)\<lparr>alreadyQuarantined := False\<rparr>\<rparr>)
      in (st', alreadyQuarantined (ps_captured st'), err))"

definition UnQuarantineNodeAndRemoveAnnotations ::
  "FaultQuarantineClient \<Rightarrow> 'w cluster \<Rightarrow> string \<Rightarrow> Taint list \<Rightarrow> bool \<Rightarrow> string list \<Rightarrow> string list
     \<Rightarrow> (string, string) gomap \<Rightarrow> 'w fq_state \<Rightarrow> 'w fq_state \<times> error option" where
  "UnQuarantineNodeAndRemoveAnnotations c cl nodename taints shouldUncordon annotationKeys labelsToRemove labels st =
     fq_UpdateNode cl nodename (unquarantine_update c taints shouldUncordon annotationKeys labelsToRemove labels) st"

definition HandleManualUncordonCleanup ::
  "FaultQuarantineClient \<Rightarrow> 'w cluster \<Rightarrow> string \<Rightarrow> string list \<Rightarrow> (string, string) gomap \<Rightarrow> string list
     \<Rightarrow> ConditionalLabelRemoval option \<Rightarrow> 'w fq_state \<Rightarrow> 'w fq_state \<times> error option" where
  "HandleManualUncordonCleanup c cl nodename annotationsToRemove annotationsToAdd labelsToRemove conditionalLabels st =
     fq_UpdateNode cl nodename (manual_uncordon_update c annotationsToRemove annotationsToAdd labelsToRemove conditionalLabels) st"

definition HandleManualUntaintCleanup ::
  "FaultQuarantineClient \<Rightarrow> 'w cluster \<Rightarrow> string \<Rightarrow> string list \<Rightarrow> (string, string) gomap \<Rightarrow> string list
     \<Rightarrow> 'w fq_state \<Rightarrow> 'w fq_state \<times> error option" where
  "HandleManualUntaintCleanup c cl nodename annotationsToRemove annotationsToAdd labelsToRemove st =
     fq_UpdateNode cl nodename (manual_untaint_update c annotationsToRemove annotationsToAdd labelsToRemove) st"

end
