(* ===== verification/Quarantine_Session.thy ===== *)
theory Quarantine_Session
  imports Quarantine_Client
begin

text \<open>
  The quarantine session of a node in fault-quarantine
  (\<^verbatim>\<open>fault-quarantine/pkg/reconciler/reconciler.go\<close> and \<^verbatim>\<open>pkg/validation/validation.go\<close>): from the
  first event that quarantines a node, through later faults and partial recoveries, to its
  release, and the end of a session by hand.

  The state threaded through a handler is the state of the node patcher and, in a replay, the
  node snapshots of the recovery context; the coverage of the replayed event is a separate
  argument. The circuit breaker and the event watcher are interfaces in the code and records of
  functions here. Waiting for the end of the process after the breaker tripped is a result of its own.
\<close>

section \<open>Validation of released nodes\<close>

record ('w, 'doc) ValidationClient =
  vc_store :: "('w, 'doc) event_store"
  validationRuleSets :: "RuleSetEvaluator list"
  validationRuleSetTestsMap :: "(string, string list) gomap"
  vc_partialDrainEnabled :: bool
  vc_isEvaluationError :: "error \<Rightarrow> bool"
  vc_sha256_hex :: "string \<Rightarrow> string"
  vc_render :: "kube_node \<Rightarrow> string list \<Rightarrow> string \<Rightarrow> error + string"
  vc_Create :: "'w \<Rightarrow> string \<Rightarrow> 'w \<times> error option"

definition maxQuarantineValidationHealthEvents :: nat where
  "maxQuarantineValidationHealthEvents = 10"

definition append_new :: "string list \<Rightarrow> string list \<Rightarrow> string list" where
  "append_new tests seen = fold (\<lambda>t acc. if t \<in> set acc then acc else acc @ [t]) tests seen"

definition getTestsForHealthEvent :: "('w, 'doc) ValidationClient \<Rightarrow> health_event \<Rightarrow> string list" where
  "getTestsForHealthEvent vc event =
     fold (\<lambda>eval tests.
       (case Evaluate (vc_isEvaluationError vc) eval event of
          (RuleEvaluationSuccess, None) \<Rightarrow>
            append_new (case map_of (validationRuleSetTestsMap vc) (GetName eval) of None \<Rightarrow> [] | Some ts \<Rightarrow> ts) tests
        | _ \<Rightarrow> tests)) (validationRuleSets vc) []"

definition UpdateQuarantineValidationAnnotation ::
  "quarantine_codec \<Rightarrow> ('w, 'doc) ValidationClient \<Rightarrow> string \<Rightarrow> health_event \<Rightarrow> error + string" where
  "UpdateQuarantineValidationAnnotation qc vc existing event =
     (let tests = getTestsForHealthEvent vc event in
      if tests = [] then Inr existing
      else case (if existing \<noteq> [] then unmarshal_tests qc existing else Inr []) of
          Inl e \<Rightarrow> Inl (EWrap ''failed to parse validation annotation'' e)
        | Inr events \<Rightarrow>
            (let events1 = events @ [\<lparr>hewt_HealthEvent = Some event, hewt_Tests = tests\<rparr>];
                 events2 = drop (length events1 - maxQuarantineValidationHealthEvents) events1
             in case marshal_tests qc events2 of
                  Inl e \<Rightarrow> Inl (EWrap (''failed to marshal validation annotation for node '' @ NodeName event) e)
                | Inr txt \<Rightarrow> Inr txt))"

fun join_commas :: "string list \<Rightarrow> string" where
  "join_commas [] = []"
| "join_commas [x] = x"
| "join_commas (x # xs) = x @ '','' @ join_commas xs"

definition sessionID :: "('w, 'doc) ValidationClient \<Rightarrow> string list \<Rightarrow> string" where
  "sessionID vc eventIDs = take 12 (vc_sha256_hex vc (join_commas eventIDs))"

definition FetchValidationTestsFromQuarantineSession ::
  "quarantine_codec \<Rightarrow> ('w, 'doc) ValidationClient \<Rightarrow> 'w \<Rightarrow> string \<Rightarrow> string \<Rightarrow> error + string list \<times> string" where
  "FetchValidationTestsFromQuarantineSession qc vc w nodeName annotationText =
     (if annotationText = [] then Inr ([], [])
      else case unmarshal_tests qc annotationText of
          Inl e \<Rightarrow> Inl (EWrap (''failed to parse validation annotation for node '' @ nodeName) e)
        | Inr eventsWithTests \<Rightarrow>
            (let present = filter (\<lambda>x. hewt_HealthEvent x \<noteq> None) eventsWithTests;
                 events = map (\<lambda>x. the (hewt_HealthEvent x)) present;
                 contributing = filter (\<lambda>x. hewt_Tests x \<noteq> []) present;
                 eventIDs = map (\<lambda>x. Id (the (hewt_HealthEvent x))) contributing;
                 tests = fold (\<lambda>x. append_new (hewt_Tests x)) contributing []
             in case IsNodeDrained (vc_store vc) w events [] None (vc_partialDrainEnabled vc) of
                  Inl e \<Rightarrow> Inl (EWrap (''failed to look up drain status for node '' @ nodeName) e)
                | Inr isDrained \<Rightarrow>
                    if \<not> isDrained then Inr ([], [])
                    else Inr (sort tests, sessionID vc (sort eventIDs))))"

definition CreateValidationRequestResource ::
  "FaultQuarantineClient \<Rightarrow> ('w, 'doc) ValidationClient \<Rightarrow> string \<Rightarrow> 'w \<Rightarrow> 'w \<times> error option" where
  "CreateValidationRequestResource c vc obj w =
     (if DryRunMode c then (w, None)
      else let (w', err) = vc_Create vc w obj in
        (w', case err of None \<Rightarrow> None
           | Some e \<Rightarrow> if status_reason e = Some ''AlreadyExists'' then None
               else Some (EWrap ''failed to create ValidationRequest'' e)))"

definition CreateValidationRequest ::
  "FaultQuarantineClient \<Rightarrow> ('w, 'doc) ValidationClient \<Rightarrow> kube_node \<Rightarrow> string list \<Rightarrow> string \<Rightarrow> 'w \<Rightarrow> 'w \<times> error option" where
  "CreateValidationRequest c vc node tests session w =
     (case vc_render vc node tests session of
        Inl e \<Rightarrow> (w, Some (EWrap (''failed to render ValidationRequest for node '' @ kn_Name node) e))
      | Inr obj \<Rightarrow> CreateValidationRequestResource c vc obj w)"

section \<open>The reconciler\<close>

record uncordon_keys =
  uncordonedByLabelKey :: string
  uncordonedTimestampLabelKey :: string

record ('w, 'doc) Reconciler =
  rc_client :: FaultQuarantineClient
  rc_codec :: quarantine_codec
  rc_cluster :: "'w cluster"
  rc_DryRun :: bool
  CircuitBreakerEnabled :: bool
  cb_AddCordonEvent :: "'w \<Rightarrow> string \<Rightarrow> 'w"
  cb_IsTripped :: "'w \<Rightarrow> 'w \<times> (error + bool)"
  CancelLatestQuarantiningEvents :: "('w \<Rightarrow> string \<Rightarrow> string \<Rightarrow> 'w \<times> error option) option"
  validationClient :: "('w, 'doc) ValidationClient option"
  rc_keys :: label_keys
  rc_uncordon_keys :: uncordon_keys
  taintInitKeys :: "keyValTaint list"
  rc_isEvaluationError :: "error \<Rightarrow> bool"
  rc_timestamp :: "'w \<Rightarrow> string"

record 'w session_state =
  ss_patch :: "'w fq_state"
  ss_recovery :: "(kube_node, unit) recoveryState option"

definition ss_world :: "'w session_state \<Rightarrow> 'w" where
  "ss_world s = ps_world (ss_patch s)"

definition set_world :: "'w \<Rightarrow> 'w session_state \<Rightarrow> 'w session_state" where
  "set_world w s = s\<lparr>ss_patch := (ss_patch s)\<lparr>ps_world := w\<rparr>\<rparr>"

definition session_UpdateNode ::
  "('w, 'doc) Reconciler \<Rightarrow> string \<Rightarrow> (captured, kube_node) mutation \<Rightarrow> 'w session_state \<Rightarrow> 'w session_state \<times> error option" where
  "session_UpdateNode r nodeName updateFn s =
     (let (st, err) = fq_UpdateNode (rc_cluster r) nodeName updateFn (ss_patch s) in (s\<lparr>ss_patch := st\<rparr>, err))"

definition errNoQuarantineAnnotation :: error where
  "errNoQuarantineAnnotation = EText ''no quarantine annotation''"

definition errQuarantinedNodeNotUpdated :: error where
  "errQuarantinedNodeNotUpdated = EText ''quarantined node was not updated''"

text \<open>\<^verbatim>\<open>fmt.Errorf("%w: %w", errQuarantinedNodeNotUpdated, err)\<close> wraps both errors.\<close>

definition not_updated :: "error \<Rightarrow> error" where
  "not_updated e = EJoin [errQuarantinedNodeNotUpdated, e]"

definition manualUnquarantineAnnotationKeys :: "string list" where
  "manualUnquarantineAnnotationKeys = [AppliedTaintsKey, QuarantineHealthEventAnnotationKey, IsCordonedKey,
     CordonPreExistingKey, ValidationEventKey, DryRunKey]"

definition QuarantineAnnotationKeys :: "string list" where
  "QuarantineAnnotationKeys = [QuarantineHealthEventAnnotationKey, AppliedTaintsKey, AppliedLabelsKey, IsCordonedKey,
     CordonPreExistingKey, UncordonedManuallyKey, UntaintedManuallyKey, ValidationEventKey, DryRunKey]"

definition breakerActive :: "('w, 'doc) Reconciler \<Rightarrow> bool" where
  "breakerActive r \<longleftrightarrow> CircuitBreakerEnabled r \<and> \<not> rc_DryRun r"

definition recordCordonEventInCircuitBreaker ::
  "('w, 'doc) Reconciler \<Rightarrow> health_event \<Rightarrow> 'w session_state \<Rightarrow> 'w session_state" where
  "recordCordonEventInCircuitBreaker r event s =
     (if breakerActive r \<and> \<not> is_force event then set_world (cb_AddCordonEvent r (ss_world s) (NodeName event)) s else s)"

definition shouldDeferRecoveryActions :: "'w session_state \<Rightarrow> error option \<Rightarrow> bool" where
  "shouldDeferRecoveryActions s err \<longleftrightarrow> IsRecoveryContext (ss_recovery s) \<and> err \<noteq> None \<and> \<not> IsPermanentError err"

definition recoveryEffectFilter :: "eventCoverage option \<Rightarrow> HealthEventKey \<Rightarrow> bool" where
  "recoveryEffectFilter ctx key = ShouldRecoverEffect ctx (hk_EntityType key) (hk_EntityValue key) (hk_ErrorCode key)"

section \<open>Reading the node\<close>

definition load_node :: "'w nodes_api \<Rightarrow> string \<Rightarrow> 'w \<Rightarrow> 'w \<times> (kube_node, unit) loaded" where
  "load_node api nodeName w =
     (let (w', got) = api_Get api w nodeName in
      (w', case got of Inl e \<Rightarrow> (None, Some e) | Inr n \<Rightarrow> (Some \<lparr>node_body = n, node_status = None\<rparr>, None)))"

definition getNode :: "('w, 'doc) Reconciler \<Rightarrow> string \<Rightarrow> 'w session_state \<Rightarrow> 'w session_state \<times> (error + kube_node)" where
  "getNode r nodeName s =
     (if IsRecoveryContext (ss_recovery s) then
        (let (ctx', w', n, err) = GetRecoveryNode (ss_recovery s) nodeName (load_node (cl_api (rc_cluster r)) nodeName) (ss_world s);
             s' = set_world w' (s\<lparr>ss_recovery := ctx'\<rparr>)
         in (s', case err of
               Some e \<Rightarrow>
                 (let wrappedErr = EWrap ''failed to get node from API server during cold start'' e
                  in if IsNotFound e then Inl (EPermanent wrappedErr) else Inl wrappedErr)
             | None \<Rightarrow> (case n of None \<Rightarrow> Inl (EText ''nil node'') | Some x \<Rightarrow> Inr (node_body x))))
      else (s, cl_informer (rc_cluster r) (ss_world s) nodeName))"

definition quarantine_annotations :: "kube_node \<Rightarrow> (string, string) gomap" where
  "quarantine_annotations node =
     concat (map (\<lambda>key. case map_of (entries (kn_Annotations node)) key of None \<Rightarrow> [] | Some v \<Rightarrow> [(key, v)]) QuarantineAnnotationKeys)"

definition getNodeQuarantineAnnotations ::
  "('w, 'doc) Reconciler \<Rightarrow> string \<Rightarrow> 'w session_state \<Rightarrow> 'w session_state \<times> (error + (string, string) gomap)" where
  "getNodeQuarantineAnnotations r nodeName s =
     (let (s', got) = getNode r nodeName s in
      (s', case got of Inl e \<Rightarrow> Inl (EWrap ''failed to get node'' e) | Inr node \<Rightarrow> Inr (quarantine_annotations node)))"

definition isEmptyHealthEventAnnotation :: "string \<Rightarrow> bool" where
  "isEmptyHealthEventAnnotation annotationVal = IsEmptyValue annotationVal"

definition hasExistingQuarantine ::
  "('w, 'doc) Reconciler \<Rightarrow> string \<Rightarrow> 'w session_state \<Rightarrow> 'w session_state \<times> (error + (string, string) gomap \<times> bool)" where
  "hasExistingQuarantine r nodeName s =
     (let (s', got) = getNodeQuarantineAnnotations r nodeName s in
      (s', case got of
         Inl e \<Rightarrow> Inl (EWrap (''failed to fetch annotations for node '' @ nodeName) e)
       | Inr annotations \<Rightarrow>
           Inr (annotations, case map_of annotations QuarantineHealthEventAnnotationKey of
             None \<Rightarrow> False | Some v \<Rightarrow> \<not> isEmptyHealthEventAnnotation v)))"

definition getHealthEventsFromAnnotation ::
  "('w, 'doc) Reconciler \<Rightarrow> string \<Rightarrow> 'w session_state
     \<Rightarrow> 'w session_state \<times> (error + HealthEventsAnnotationMap \<times> (string, string) gomap)" where
  "getHealthEventsFromAnnotation r nodeName s =
     (let (s', got) = getNodeQuarantineAnnotations r nodeName s in
      (s', case got of
         Inl e \<Rightarrow> Inl (EWrap ''failed to get annotations'' e)
       | Inr annotations \<Rightarrow>
           (case map_of annotations QuarantineHealthEventAnnotationKey of
              None \<Rightarrow> Inl errNoQuarantineAnnotation
            | Some str \<Rightarrow>
                if str = [] then Inl errNoQuarantineAnnotation
                else case unmarshal_events (rc_codec r) str of
                    Inr events \<Rightarrow> Inr (UnmarshalJSON events, annotations)
                  | Inl err \<Rightarrow>
                      (case unmarshal_event (rc_codec r) str of
                         Inr single \<Rightarrow> Inr (fst (add_decoded (qc_slots (rc_codec r)) NewHealthEventsAnnotationMap single None), annotations)
                       | Inl _ \<Rightarrow> Inl (EWrap (''failed to unmarshal annotation for node '' @ nodeName) err)))))"

definition sourceDocIDsFromAnnotation :: "('w, 'doc) Reconciler \<Rightarrow> string \<Rightarrow> 'w session_state \<Rightarrow> 'w session_state \<times> string list" where
  "sourceDocIDsFromAnnotation r nodeName s =
     (let (s', got) = getHealthEventsFromAnnotation r nodeName s in
      (s', case got of Inl _ \<Rightarrow> []
         | Inr (he, _) \<Rightarrow> append_new (filter (\<lambda>i. i \<noteq> []) (map (\<lambda>(k, p). Id (snd p)) (Events he))) []))"


section \<open>Annotation updates\<close>

definition updateValidationAnnotation ::
  "('w, 'doc) Reconciler \<Rightarrow> health_event \<Rightarrow> (string, string) gomap \<Rightarrow> error + (string, string) gomap" where
  "updateValidationAnnotation r event annotationsMap =
     (case validationClient r of
        None \<Rightarrow> Inr annotationsMap
      | Some vc \<Rightarrow>
          (case UpdateQuarantineValidationAnnotation (rc_codec r) vc
                  (case map_of annotationsMap ValidationEventKey of None \<Rightarrow> [] | Some v \<Rightarrow> v) event of
             Inl e \<Rightarrow> Inl (EWrap (''failed to merge validation annotation for node '' @ NodeName event) e)
           | Inr updated \<Rightarrow> Inr (if updated \<noteq> [] then AList.update ValidationEventKey updated annotationsMap else annotationsMap)))"

text \<open>Reading the annotation in either format.\<close>

definition parse_existing :: "quarantine_codec \<Rightarrow> string \<Rightarrow> error + HealthEventsAnnotationMap" where
  "parse_existing qc str =
     (case unmarshal_events qc str of
        Inr events \<Rightarrow> Inr (UnmarshalJSON events)
      | Inl err \<Rightarrow>
          (case unmarshal_event qc str of
             Inr single \<Rightarrow> Inr (fst (add_decoded (qc_slots qc) NewHealthEventsAnnotationMap single None))
           | Inl _ \<Rightarrow> Inl (EWrap ''failed to parse existing annotation (tried both formats)'' err)))"

definition add_event_update ::
  "('w, 'doc) Reconciler \<Rightarrow> eventCoverage option \<Rightarrow> health_event \<Rightarrow> (captured, kube_node) mutation" where
  "add_event_update r ctx event cap node =
     (let m0 = entries (kn_Annotations node);
          m1 = (if rc_DryRun r then m0 else AList.delete DryRunKey m0);
          existing = (case map_of m1 QuarantineHealthEventAnnotationKey of None \<Rightarrow> [] | Some v \<Rightarrow> v) in
      (cap,
       case (if existing \<noteq> [] then parse_existing (rc_codec r) existing else Inr NewHealthEventsAnnotationMap) of
         Inl e \<Rightarrow> Inl e
       | Inr he \<Rightarrow>
           (let (he', added) = add_decoded (qc_slots (rc_codec r)) he event (Some (recoveryEffectFilter ctx)) in
            if \<not> added then Inr (node\<lparr>kn_Annotations := Some m1\<rparr>)
            else case marshal_events (rc_codec r) (MarshalJSON he') of
                Inl e \<Rightarrow> Inl (EWrap ''failed to marshal health events'' e)
              | Inr txt \<Rightarrow>
                  (case updateValidationAnnotation r event (AList.update QuarantineHealthEventAnnotationKey txt m1) of
                     Inl e \<Rightarrow> Inl e
                   | Inr m2 \<Rightarrow> Inr (node\<lparr>kn_Annotations := Some m2\<rparr>)))))"

definition addEventToAnnotation ::
  "('w, 'doc) Reconciler \<Rightarrow> eventCoverage option \<Rightarrow> health_event \<Rightarrow> 'w session_state \<Rightarrow> 'w session_state \<times> error option" where
  "addEventToAnnotation r ctx event s = session_UpdateNode r (NodeName event) (add_event_update r ctx event) s"

text \<open>The last tracked failure stays in the annotation until the node is released.\<close>

definition remove_event_update ::
  "('w, 'doc) Reconciler \<Rightarrow> eventCoverage option \<Rightarrow> health_event \<Rightarrow> (captured, kube_node) mutation" where
  "remove_event_update r ctx event cap node =
     (let existing = annotation node QuarantineHealthEventAnnotationKey in
      if existing = [] then (cap\<lparr>updatedMap := NewHealthEventsAnnotationMap\<rparr>, Inr node)
      else case parse_existing (rc_codec r) existing of
          Inl e \<Rightarrow> (cap, Inl e)
        | Inr he \<Rightarrow>
            (let (he', removed) = RemoveEventFiltered (qc_slots (rc_codec r)) he event (Some (recoveryEffectFilter ctx)) in
             if removed = 0 \<or> IsEmpty he' then (cap\<lparr>updatedMap := he'\<rparr>, Inr node)
             else case marshal_events (rc_codec r) (MarshalJSON he') of
                 Inl e \<Rightarrow> (cap, Inl (EWrap ''failed to marshal health events after removal'' e))
               | Inr txt \<Rightarrow> (cap\<lparr>updatedMap := he'\<rparr>,
                   Inr (node\<lparr>kn_Annotations := Some (AList.update QuarantineHealthEventAnnotationKey txt (entries (kn_Annotations node)))\<rparr>))))"

definition removeEventFromAnnotation ::
  "('w, 'doc) Reconciler \<Rightarrow> eventCoverage option \<Rightarrow> health_event \<Rightarrow> 'w session_state
     \<Rightarrow> 'w session_state \<times> HealthEventsAnnotationMap \<times> error option" where
  "removeEventFromAnnotation r ctx event s =
     (let s0 = s\<lparr>ss_patch := (ss_patch s)\<lparr>ps_captured := (ps_captured (ss_patch s))\<lparr>updatedMap := NewHealthEventsAnnotationMap\<rparr>\<rparr>\<rparr>;
          (s', err) = session_UpdateNode r (NodeName event) (remove_event_update r ctx event) s0
      in (s', updatedMap (ps_captured (ss_patch s')), err))"

definition delete_annotation_update :: "string \<Rightarrow> (captured, kube_node) mutation" where
  "delete_annotation_update key cap node = (cap, Inr (delete_annotation key node))"

definition cleanupManualAnnotation ::
  "('w, 'doc) Reconciler \<Rightarrow> string \<Rightarrow> (string, string) gomap \<Rightarrow> string \<Rightarrow> 'w session_state \<Rightarrow> 'w session_state \<times> error option" where
  "cleanupManualAnnotation r nodeName annotations annotationKey s =
     (if map_of annotations annotationKey = None then (s, None)
      else let (s', err) = session_UpdateNode r nodeName (delete_annotation_update annotationKey) s in
        (s', map_option (EWrap (''failed to remove manual annotation '' @ annotationKey)) err))"

section \<open>A first fault\<close>

definition node_view :: "kube_node \<Rightarrow> quarantine_node" where
  "node_view n = \<lparr>qn_Annotations = entries (kn_Annotations n), qn_Taints = kn_Taints n, qn_Unschedulable = kn_Unschedulable n\<rparr>"

definition addHealthEventAnnotation ::
  "quarantine_codec \<Rightarrow> HealthEventsAnnotationMap \<Rightarrow> (string, string) gomap \<Rightarrow> error + (string, string) gomap" where
  "addHealthEventAnnotation qc healthEvents annotationsMap =
     (case marshal_events qc (MarshalJSON healthEvents) of
        Inl e \<Rightarrow> Inl (EWrap ''failed to marshal health events'' e)
      | Inr txt \<Rightarrow> Inr (AList.update QuarantineHealthEventAnnotationKey txt annotationsMap))"

fun cleanup_all ::
  "('w, 'doc) Reconciler \<Rightarrow> string \<Rightarrow> (string, string) gomap \<Rightarrow> string list \<Rightarrow> 'w session_state \<Rightarrow> 'w session_state \<times> error option" where
  "cleanup_all r nodeName annotations [] s = (s, None)"
| "cleanup_all r nodeName annotations (key # keys) s =
     (let (s', err) = cleanupManualAnnotation r nodeName annotations key s in
      if err \<noteq> None then (s', err) else cleanup_all r nodeName annotations keys s')"

definition applyQuarantine ::
  "('w, 'doc) Reconciler \<Rightarrow> eventCoverage option \<Rightarrow> health_event \<Rightarrow> (string, string) gomap \<Rightarrow> Taint list
     \<Rightarrow> (string, string) gomap \<Rightarrow> (string, string) gomap \<Rightarrow> bool \<Rightarrow> 'w session_state
     \<Rightarrow> 'w session_state \<times> Status option \<times> error option" where
  "applyQuarantine r ctx event annotations taints annotationsMap labels cordoned s =
     (let s1 = recordCordonEventInCircuitBreaker r event s;
          (healthEvents, updated) = add_decoded (qc_slots (rc_codec r)) NewHealthEventsAnnotationMap event (Some (recoveryEffectFilter ctx)) in
      if \<not> updated then (s1, None, None)
      else
        let a1 = (if rc_DryRun r then AList.update DryRunKey ''True'' annotationsMap else annotationsMap) in
        case addHealthEventAnnotation (rc_codec r) healthEvents a1 of
          Inl e \<Rightarrow> (s1, None, Some e)
        | Inr a2 \<Rightarrow>
            (case updateValidationAnnotation r event a2 of
               Inl e \<Rightarrow> (s1, None, Some e)
             | Inr a3 \<Rightarrow>
                 (let (s2, err) = cleanup_all r (NodeName event) annotations [UncordonedManuallyKey, UntaintedManuallyKey] s1 in
                  if err \<noteq> None then (s2, None, err)
                  else
                    let (st, already, err2) = QuarantineNodeAndSetAnnotations (rc_client r) (rc_codec r) (rc_cluster r)
                          (NodeName event) taints cordoned a3 labels (ss_patch s2);
                        s3 = s2\<lparr>ss_patch := st\<rparr> in
                    if err2 \<noteq> None then (s3, None, err2)
                    else (s3, Some (if already then AlreadyQuarantined else Quarantined), None))))"

section \<open>Later faults\<close>

definition applyRuleActionsForEvent ::
  "nat list \<Rightarrow> ('w, 'doc) Reconciler \<Rightarrow> eventCoverage option \<Rightarrow> rulesetsConfig \<Rightarrow> health_event \<Rightarrow> RuleSetEvaluator list
     \<Rightarrow> 'w session_state \<Rightarrow> 'w session_state \<times> error option" where
  "applyRuleActionsForEvent sched r ctx cfg event evals s =
     (let (required, evaluationErr) = evaluateSessionActions (qc_lists (rc_codec r)) (taintInitKeys r) sched ctx
            (rc_isEvaluationError r) (rc_keys r) cfg event evals in
      if shouldDeferRecoveryActions s evaluationErr then (s, join_errors evaluationErr (Some errQuarantinedNodeNotUpdated))
      else
        let (s1, got) = getNode r (NodeName event) s in
        case got of
          Inl e \<Rightarrow> (s1, join_errors evaluationErr (Some (not_updated (EWrap (''get node '' @ NodeName event) e))))
        | Inr node \<Rightarrow>
            (case buildSessionActionUpdate (qc_lists (rc_codec r)) (rc_DryRun r) (rc_timestamp r (ss_world s1)) (rc_keys r) (node_view node) required of
               Inl e \<Rightarrow> (s1, join_errors evaluationErr (Some (not_updated e)))
             | Inr upd \<Rightarrow>
                 if isEmpty upd then (s1, evaluationErr)
                 else
                   let s2 = (if sa_cordon upd then recordCordonEventInCircuitBreaker r event s1 else s1);
                       (st, _, err) = QuarantineNodeAndSetAnnotations (rc_client r) (rc_codec r) (rc_cluster r) (NodeName event)
                         (sa_taints upd) (sa_cordon upd) (sa_annotations upd) (sa_labels upd) (ss_patch s2);
                       s3 = s2\<lparr>ss_patch := st\<rparr> in
                   (case err of
                      Some e \<Rightarrow> (s3, join_errors evaluationErr
                        (Some (not_updated (EWrap (''apply session actions to node '' @ NodeName event) e))))
                    | None \<Rightarrow> (s3, evaluationErr))))"

definition handleUnhealthyEventOnQuarantinedNode ::
  "nat list \<Rightarrow> ('w, 'doc) Reconciler \<Rightarrow> eventCoverage option \<Rightarrow> rulesetsConfig \<Rightarrow> health_event \<Rightarrow> RuleSetEvaluator list
     \<Rightarrow> HealthEventsAnnotationMap \<Rightarrow> 'w session_state \<Rightarrow> 'w session_state \<times> bool \<times> error option" where
  "handleUnhealthyEventOnQuarantinedNode sched r ctx cfg event evals he s =
     (let (matched, evaluationErr) = (if is_force event then (False, None)
            else eventMatchesAnyRule ctx (rc_isEvaluationError r) event evals False None) in
      if \<not> is_force event \<and> \<not> matched then (s, True, evaluationErr)
      else
        let added = snd (add_decoded (qc_slots (rc_codec r)) he event (Some (recoveryEffectFilter ctx)));
            (s1, err) = (if added then addEventToAnnotation r ctx event s else (s, None)) in
        case err of
          Some e \<Rightarrow> (s1, True, join_errors evaluationErr (Some (not_updated e)))
        | None \<Rightarrow>
            (let (s2, err2) = applyRuleActionsForEvent sched r ctx cfg event evals s1 in
             case err2 of
               Some e \<Rightarrow> (s2, True, join_errors evaluationErr (Some e))
             | None \<Rightarrow> (s2, True, evaluationErr)))"


section \<open>Release\<close>

definition appliedLabelsRemovalParams ::
  "quarantine_codec \<Rightarrow> (string, string) gomap \<Rightarrow> error + Label list \<times> string list" where
  "appliedLabelsRemovalParams qc annotations =
     (let txt = (case map_of annotations AppliedLabelsKey of None \<Rightarrow> [] | Some v \<Rightarrow> v) in
      if txt = [] then Inr ([], [])
      else case unmarshal_labels qc txt of
          Inl e \<Rightarrow> Inl (EWrap ''unmarshal applied labels annotation'' e)
        | Inr persisted \<Rightarrow> Inr (map (\<lambda>l. \<lparr>l_Key = al_Key l, l_Value = al_Value l\<rparr>) persisted, [AppliedLabelsKey]))"

definition appliedLabelCleanupParams ::
  "quarantine_codec \<Rightarrow> (string, string) gomap \<Rightarrow> error + string list \<times> string list" where
  "appliedLabelCleanupParams qc annotations =
     (case appliedLabelsRemovalParams qc annotations of
        Inl e \<Rightarrow> Inl e
      | Inr (applied, annotationKeys) \<Rightarrow> Inr (annotationKeys, filter (\<lambda>k. k \<noteq> []) (map l_Key applied)))"

definition appendIfPresent :: "(string, string) gomap \<Rightarrow> string list \<Rightarrow> string list \<Rightarrow> string list" where
  "appendIfPresent annotations toRemove keys = toRemove @ filter (\<lambda>k. map_of annotations k \<noteq> None) keys"

record uncordon_params =
  up_taints :: "Taint list"
  up_annotations :: "string list"
  up_labels :: "Label list"
  up_uncordon :: bool
  up_newLabels :: "(string, string) gomap"

definition prepareUncordonParams ::
  "('w, 'doc) Reconciler \<Rightarrow> string \<Rightarrow> string \<Rightarrow> (string, string) gomap \<Rightarrow> error + uncordon_params" where
  "prepareUncordonParams r nodeName timestamp annotations =
     (let txt = (case map_of annotations AppliedTaintsKey of None \<Rightarrow> [] | Some v \<Rightarrow> v) in
      case (if txt \<noteq> [] then unmarshal_taints (qc_lists (rc_codec r)) txt else Inr []) of
        Inl e \<Rightarrow> Inl (EWrap (''failed to unmarshal taints annotation for node '' @ nodeName) e)
      | Inr allTaints \<Rightarrow>
          (case appliedLabelsRemovalParams (rc_codec r) annotations of
             Inl e \<Rightarrow> Inl (EWrap (''failed to unmarshal labels annotation for node '' @ nodeName) e)
           | Inr (labelsToBeRemoved, labelAnnotations) \<Rightarrow>
               (let a1 = (if txt \<noteq> [] then [AppliedTaintsKey] else []) @ labelAnnotations;
                    cordoned = (map_of annotations IsCordonedKey = Some ''True'');
                    preExisting = (map_of annotations CordonPreExistingKey = Some ''True'');
                    uncordon = (cordoned \<and> \<not> preExisting)
                in Inr \<lparr>up_taints = filter (\<lambda>t. \<not> t_PreExisting t) allTaints,
                   up_annotations = a1 @ (if cordoned then IsCordonedKey # (if preExisting then [CordonPreExistingKey] else []) else []),
                   up_labels = labelsToBeRemoved, up_uncordon = uncordon,
                   up_newLabels = (if uncordon
                     then AList.update (uncordonedTimestampLabelKey (rc_uncordon_keys r)) timestamp
                            [(uncordonedByLabelKey (rc_uncordon_keys r), ServiceName)] else [])\<rparr>)))"

definition createValidationRequestIfRequested ::
  "('w, 'doc) Reconciler \<Rightarrow> string \<Rightarrow> (string, string) gomap \<Rightarrow> 'w session_state \<Rightarrow> 'w session_state \<times> (error + bool)" where
  "createValidationRequestIfRequested r nodeName annotations s =
     (case validationClient r of
        None \<Rightarrow> (s, Inr False)
      | Some vc \<Rightarrow>
          (case FetchValidationTestsFromQuarantineSession (rc_codec r) vc (ss_world s) nodeName
                  (case map_of annotations ValidationEventKey of None \<Rightarrow> [] | Some v \<Rightarrow> v) of
             Inl e \<Rightarrow> (s, Inl (EWrap (''failed to aggregate validation session for node '' @ nodeName) e))
           | Inr (tests, session) \<Rightarrow>
               if tests = [] then (s, Inr False)
               else case cl_informer (rc_cluster r) (ss_world s) nodeName of
                   Inl e \<Rightarrow> (s, Inl (EWrap (''failed to get node '' @ nodeName) e))
                 | Inr node \<Rightarrow>
                     (let (w', err) = CreateValidationRequest (rc_client r) vc node tests session (ss_world s) in
                      (set_world w' s, case err of Some e \<Rightarrow> Inl e | None \<Rightarrow> Inr True))))"

record validation_outcome =
  vo_annotations :: "string list"
  vo_taints :: "Taint list"
  vo_uncordon :: bool
  vo_created :: bool

definition triggerValidationOnUnquarantine ::
  "('w, 'doc) Reconciler \<Rightarrow> string \<Rightarrow> (string, string) gomap \<Rightarrow> string list \<Rightarrow> Taint list \<Rightarrow> bool \<Rightarrow> 'w session_state
     \<Rightarrow> 'w session_state \<times> (error + validation_outcome)" where
  "triggerValidationOnUnquarantine r nodeName annotations annotationsToBeRemoved taints uncordon s =
     (if map_of annotations ValidationEventKey = None
      then (s, Inr \<lparr>vo_annotations = annotationsToBeRemoved, vo_taints = taints, vo_uncordon = uncordon, vo_created = False\<rparr>)
      else let (s', got) = createValidationRequestIfRequested r nodeName annotations s in
        (s', case got of
           Inl e \<Rightarrow> Inl e
         | Inr created \<Rightarrow> Inr \<lparr>vo_annotations = annotationsToBeRemoved @ [ValidationEventKey],
             vo_taints = (if created then [] else taints), vo_uncordon = (uncordon \<and> \<not> created), vo_created = created\<rparr>))"

definition buildUncordonLabelsToRemove :: "label_keys \<Rightarrow> Label list \<Rightarrow> bool \<Rightarrow> string list" where
  "buildUncordonLabelsToRemove ks ruleLabelsToRemove validationRequestCreated =
     [NVSentinelStateLabelKey] @
     (if validationRequestCreated then [] else [cordonedByLabelKey ks, cordonedReasonLabelKey ks, cordonedTimestampLabelKey ks]) @
     map l_Key ruleLabelsToRemove"

text \<open>The first result says whether the node stays quarantined.\<close>

definition performUncordon ::
  "('w, 'doc) Reconciler \<Rightarrow> health_event \<Rightarrow> (string, string) gomap \<Rightarrow> 'w session_state \<Rightarrow> 'w session_state \<times> bool \<times> error option" where
  "performUncordon r event annotations s =
     (case prepareUncordonParams r (NodeName event) (rc_timestamp r (ss_world s)) annotations of
        Inl e \<Rightarrow> (s, True, Some (EWrap (''failed to prepare uncordon params for node '' @ NodeName event) e))
      | Inr p \<Rightarrow>
          (let toRemove = appendIfPresent annotations (up_annotations p) [QuarantineHealthEventAnnotationKey, DryRunKey] in
           if up_taints p = [] \<and> up_labels p = [] \<and> \<not> up_uncordon p \<and> toRemove = [] then (s, False, None)
           else
             let (s1, got) = triggerValidationOnUnquarantine r (NodeName event) annotations toRemove (up_taints p) (up_uncordon p) s in
             case got of
               Inl e \<Rightarrow> (s1, True, Some e)
             | Inr v \<Rightarrow>
                 (let (st, err) = UnQuarantineNodeAndRemoveAnnotations (rc_client r) (rc_cluster r) (NodeName event)
                        (vo_taints v) (vo_uncordon v) (vo_annotations v)
                        (buildUncordonLabelsToRemove (rc_keys r) (up_labels p) (vo_created v)) (up_newLabels p) (ss_patch s1);
                      s2 = s1\<lparr>ss_patch := st\<rparr> in
                  case err of
                    Some e \<Rightarrow> (s2, True, Some (EWrap (''failed to untaint and uncordon node '' @ NodeName event) e))
                  | None \<Rightarrow> (s2, False, None))))"

section \<open>Events on a quarantined node\<close>

definition handleQuarantinedNode ::
  "nat list \<Rightarrow> ('w, 'doc) Reconciler \<Rightarrow> eventCoverage option \<Rightarrow> rulesetsConfig \<Rightarrow> health_event \<Rightarrow> RuleSetEvaluator list
     \<Rightarrow> 'w session_state \<Rightarrow> 'w session_state \<times> bool \<times> error option" where
  "handleQuarantinedNode sched r ctx cfg event evals s =
     (let (s1, got) = getHealthEventsFromAnnotation r (NodeName event) s in
      case got of
        Inl e \<Rightarrow> if error_is e errNoQuarantineAnnotation then (s1, False, None) else (s1, True, Some e)
      | Inr (he, annotations) \<Rightarrow>
          if \<not> IsHealthy event then handleUnhealthyEventOnQuarantinedNode sched r ctx cfg event evals he s1
          else if GetEvent (qc_slots (rc_codec r)) he event = None then (s1, True, None)
          else
            let (s2, updated, err) = removeEventFromAnnotation r ctx event s1 in
            case err of
              Some e \<Rightarrow> (s2, True, Some e)
            | None \<Rightarrow> if IsEmpty updated then performUncordon r event annotations s2 else (s2, True, None))"

definition shouldProcessAlreadyQuarantinedEvent ::
  "('w, 'doc) Reconciler \<Rightarrow> eventCoverage option \<Rightarrow> health_event \<Rightarrow> RuleSetEvaluator list \<Rightarrow> 'w session_state
     \<Rightarrow> 'w session_state \<times> bool \<times> error option" where
  "shouldProcessAlreadyQuarantinedEvent r ctx event evals s =
     (let (s1, got) = getHealthEventsFromAnnotation r (NodeName event) s in
      case got of
        Inl e \<Rightarrow> if error_is e errNoQuarantineAnnotation then (s1, False, None) else (s1, False, Some e)
      | Inr (he, _) \<Rightarrow>
          if IsHealthy event then (s1, GetEvent (qc_slots (rc_codec r)) he event \<noteq> None, None)
          else if is_force event then (s1, True, None)
          else let (matched, err) = eventMatchesAnyRule ctx (rc_isEvaluationError r) event evals False None in (s1, matched, err))"

definition resolveAlreadyQuarantinedStatus :: "bool \<Rightarrow> Status" where
  "resolveAlreadyQuarantinedStatus stayQuarantined = (if stayQuarantined then AlreadyQuarantined else UnQuarantined)"

definition handleAlreadyQuarantinedNode ::
  "nat list \<Rightarrow> ('w, 'doc) Reconciler \<Rightarrow> eventCoverage option \<Rightarrow> rulesetsConfig \<Rightarrow> health_event \<Rightarrow> RuleSetEvaluator list
     \<Rightarrow> 'w session_state \<Rightarrow> 'w session_state \<times> Status option \<times> error option" where
  "handleAlreadyQuarantinedNode sched r ctx cfg event evals s =
     (let (s1, shouldProcess, eligibilityErr) = shouldProcessAlreadyQuarantinedEvent r ctx event evals s in
      if \<not> shouldProcess then (s1, None, eligibilityErr)
      else
        let (s2, stayQuarantined, processingErr) = handleQuarantinedNode sched r ctx cfg event evals s1 in
        if (case processingErr of None \<Rightarrow> False | Some e \<Rightarrow> error_is e errQuarantinedNodeNotUpdated)
        then (s2, None, join_errors eligibilityErr processingErr)
        else (s2, Some (resolveAlreadyQuarantinedStatus stayQuarantined), join_errors eligibilityErr processingErr))"

section \<open>An event\<close>

definition handleEvent ::
  "nat list \<Rightarrow> ('w, 'doc) Reconciler \<Rightarrow> eventCoverage option \<Rightarrow> rulesetsConfig \<Rightarrow> health_event \<Rightarrow> RuleSetEvaluator list
     \<Rightarrow> 'w session_state \<Rightarrow> 'w session_state \<times> Status option \<times> error option" where
  "handleEvent sched r ctx cfg event evals s =
     (let (s1, got) = hasExistingQuarantine r (NodeName event) s in
      case got of
        Inl e \<Rightarrow> (s1, None, Some e)
      | Inr (annotations, exists) \<Rightarrow>
          if exists then handleAlreadyQuarantinedNode sched r ctx cfg event evals s1
          else if IsHealthy event then (s1, None, None)
          else
            let (collected, evaluationErr) = evaluateRulesets sched ctx (rc_isEvaluationError r) (rc_keys r) cfg event evals
                  (init_collected (taintInitKeys r)) in
            if shouldDeferRecoveryActions s1 evaluationErr then (s1, None, evaluationErr)
            else
              let taints = collectTaintsToApply (taintAppliedMap collected);
                  labels = collectLabelsToApply (appliedLabelsMap collected);
                  (s2, got2) = getNode r (NodeName event) s1 in
              case got2 of
                Inl e \<Rightarrow> (s2, None, join_errors evaluationErr (Some e))
              | Inr node \<Rightarrow>
                  (let (collected', taints', annotationsMap) = prepareAnnotations (qc_lists (rc_codec r)) (rc_timestamp r (ss_world s2))
                         (rc_keys r) (node_view node) taints labels collected in
                   if \<not> (taints \<noteq> [] \<or> labels \<noteq> [] \<or> isCordoned collected) then (s2, None, evaluationErr)
                   else
                     let (s3, status, quarantineErr) = applyQuarantine r ctx event annotations taints' annotationsMap
                           (labelsMap collected') (isCordoned collected) s2
                     in (s3, status, join_errors evaluationErr quarantineErr)))"

datatype processing = Halted "error option" | Processed "Status option" "error option"

definition checkCircuitBreakerAndHalt ::
  "('w, 'doc) Reconciler \<Rightarrow> 'w session_state \<Rightarrow> 'w session_state \<times> bool \<times> error option" where
  "checkCircuitBreakerAndHalt r s =
     (if \<not> breakerActive r then (s, False, None)
      else
        let (w, got) = cb_IsTripped r (ss_world s); s' = set_world w s; recovering = IsRecoveryContext (ss_recovery s) in
        case got of
          Inl e \<Rightarrow> (s', True, if recovering then Some (EWrap ''check circuit breaker state'' e) else None)
        | Inr tripped \<Rightarrow>
            if tripped then (s', True, if recovering then Some (EText ''circuit breaker is tripped'') else None)
            else (s', False, None))"

definition ProcessEvent ::
  "nat list \<Rightarrow> ('w, 'doc) Reconciler \<Rightarrow> eventCoverage option \<Rightarrow> rulesetsConfig \<Rightarrow> health_event \<Rightarrow> RuleSetEvaluator list
     \<Rightarrow> 'w session_state \<Rightarrow> 'w session_state \<times> processing" where
  "ProcessEvent sched r ctx cfg event evals s =
     (let (s1, halt, err) = checkCircuitBreakerAndHalt r s in
      if halt then (s1, Halted err)
      else let (s2, status, err2) = handleEvent sched r ctx cfg event evals s1 in (s2, Processed status err2))"

section \<open>Changes by hand\<close>

text \<open>Cancelling the stored events is best effort: its error is logged.\<close>

definition cancel_events :: "('w, 'doc) Reconciler \<Rightarrow> string \<Rightarrow> string \<Rightarrow> 'w session_state \<Rightarrow> 'w session_state" where
  "cancel_events r nodeName reason s =
     (case CancelLatestQuarantiningEvents r of
        None \<Rightarrow> s
      | Some cancel \<Rightarrow> set_world (fst (cancel (ss_world s) nodeName reason)) s)"

definition handleDryRunQuarantineOnNodeChange ::
  "('w, 'doc) Reconciler \<Rightarrow> string \<Rightarrow> (string, string) gomap \<Rightarrow> 'w session_state \<Rightarrow> 'w session_state \<times> error option" where
  "handleDryRunQuarantineOnNodeChange r nodeName annotations s =
     (if rc_DryRun r then (s, None)
      else
        let keys = appendIfPresent annotations [] manualUnquarantineAnnotationKeys in
        case appliedLabelCleanupParams (rc_codec r) annotations of
          Inl e \<Rightarrow> (s, Some (EWrap (''failed to read applied labels for dry-run quarantine on node '' @ nodeName) e))
        | Inr (labelAnnotations, _) \<Rightarrow>
            (let (st, err) = HandleManualUntaintCleanup (rc_client r) (rc_cluster r) nodeName (keys @ labelAnnotations) [] [] (ss_patch s);
                 s1 = s\<lparr>ss_patch := st\<rparr> in
             case err of
               Some e \<Rightarrow> (s1, Some (EWrap (''failed to discard dry-run quarantine on node '' @ nodeName) e))
             | None \<Rightarrow> (cancel_events r nodeName ''Dry-run quarantine discarded'' s1, None)))"

definition handleManualUncordon ::
  "('w, 'doc) Reconciler \<Rightarrow> string \<Rightarrow> 'w session_state \<Rightarrow> 'w session_state \<times> error option" where
  "handleManualUncordon r nodeName s =
     (let (s1, got) = getNodeQuarantineAnnotations r nodeName s in
      case got of
        Inl e \<Rightarrow> (s1, Some (EWrap (''failed to get annotations for manually uncordoned node '' @ nodeName) e))
      | Inr annotations \<Rightarrow>
          if map_of annotations DryRunKey \<noteq> None then handleDryRunQuarantineOnNodeChange r nodeName annotations s1
          else
            let keys = appendIfPresent annotations [] manualUnquarantineAnnotationKeys; ks = rc_keys r;
                cordonLabels = \<lparr>clr_Keys = [cordonedByLabelKey ks, cordonedReasonLabelKey ks, cordonedTimestampLabelKey ks],
                  clr_GuardKey = cordonedByLabelKey ks, clr_GuardValue = ServiceName\<rparr> in
            case appliedLabelCleanupParams (rc_codec r) annotations of
              Inl e \<Rightarrow> (s1, Some (EWrap (''failed to read applied labels for manually uncordoned node '' @ nodeName) e))
            | Inr (labelAnnotations, _) \<Rightarrow>
                (let (st, err) = HandleManualUncordonCleanup (rc_client r) (rc_cluster r) nodeName (keys @ labelAnnotations)
                       [(UncordonedManuallyKey, ''True'')] [NVSentinelStateLabelKey] (Some cordonLabels) (ss_patch s1);
                     s2 = s1\<lparr>ss_patch := st\<rparr> in
                 case err of
                   Some e \<Rightarrow> (s2, Some (EWrap (''failed to clean up manually uncordoned node '' @ nodeName) e))
                 | None \<Rightarrow> (cancel_events r nodeName ''Manual uncordoning detected'' s2, None)))"

definition handleManualUntaint ::
  "('w, 'doc) Reconciler \<Rightarrow> string \<Rightarrow> 'w session_state \<Rightarrow> 'w session_state \<times> error option" where
  "handleManualUntaint r nodeName s =
     (let (s1, got) = getNodeQuarantineAnnotations r nodeName s in
      case got of
        Inl e \<Rightarrow> (s1, Some (EWrap (''failed to get annotations for manually untainted node '' @ nodeName) e))
      | Inr annotations \<Rightarrow>
          if map_of annotations DryRunKey \<noteq> None then handleDryRunQuarantineOnNodeChange r nodeName annotations s1
          else
            let keys = appendIfPresent annotations [] manualUnquarantineAnnotationKeys in
            case appliedLabelCleanupParams (rc_codec r) annotations of
              Inl e \<Rightarrow> (s1, Some (EWrap (''failed to read applied labels for manually untainted node '' @ nodeName) e))
            | Inr (labelAnnotations, _) \<Rightarrow>
                (let (st, err) = HandleManualUntaintCleanup (rc_client r) (rc_cluster r) nodeName (keys @ labelAnnotations)
                       [(UntaintedManuallyKey, ''True'')] [NVSentinelStateLabelKey] (ss_patch s1);
                     s2 = s1\<lparr>ss_patch := st\<rparr> in
                 case err of
                   Some e \<Rightarrow> (s2, Some (EWrap (''failed to clean up manually untainted node '' @ nodeName) e))
                 | None \<Rightarrow> (cancel_events r nodeName ''Manual untainting detected'' s2, None)))"

end
