(* ===== verification/Session_Laws.thy ===== *)
theory Session_Laws
  imports Quarantine_Session Rule_Properties
begin

text \<open>
  The laws of a quarantine session: what its updates do to the taints, the cordon and the session
  annotations of a node, and the invariant that relates a quarantined node to the node as it
  was before the session.
\<close>

section \<open>Taints of a node\<close>

definition nt_identity :: "node_taint \<Rightarrow> string \<times> string" where
  "nt_identity n = (nt_Key n, nt_Effect n)"

definition t_identity :: "Taint \<Rightarrow> string \<times> string" where
  "t_identity t = (t_Key t, t_Effect t)"

definition as_node_taint :: "Taint \<Rightarrow> node_taint" where
  "as_node_taint t = \<lparr>nt_Key = t_Key t, nt_Value = t_Value t, nt_Effect = t_Effect t\<rparr>"

lemma nt_identity_as_node_taint [simp]: "nt_identity (as_node_taint t) = t_identity t"
  by (simp add: nt_identity_def t_identity_def as_node_taint_def)

lemma same_identity_iff: "same_identity n (t_Key t) (t_Effect t) \<longleftrightarrow> nt_identity n = t_identity t"
  by (simp add: same_identity_def nt_identity_def t_identity_def)

lemma unique_taints_id:
  assumes "distinct (map nt_identity ts)"
  shows "unique_taints ts = ts"
proof -
  have "fold (\<lambda>t acc. if list_ex (\<lambda>u. same_identity u (nt_Key t) (nt_Effect t)) acc then acc else acc @ [t]) ts acc = acc @ ts"
    if "distinct (map nt_identity (acc @ ts))" for acc
    using that
  proof (induction ts arbitrary: acc)
    case (Cons t ts)
    then have "\<not> list_ex (\<lambda>u. same_identity u (nt_Key t) (nt_Effect t)) acc"
      by (auto simp: list_ex_iff same_identity_def nt_identity_def image_iff)
    with Cons.IH [of "acc @ [t]"] Cons.prems show ?case by simp
  qed simp
  from this [of "[]"] assms show ?thesis by (simp add: unique_taints_def)
qed

text \<open>A taint that is on the node stays as it is; one whose identity is not there is appended.\<close>

lemma upsert_present:
  assumes "as_node_taint t \<in> set ts" and "distinct (map nt_identity ts)"
  shows "upsert_taint t ts = ts"
  using assms
proof (induction ts)
  case (Cons n ns)
  show ?case
  proof (cases "nt_identity n = t_identity t")
    case True
    with Cons.prems have "n = as_node_taint t"
      by (metis (no_types, lifting) distinct.simps(2) image_eqI list.set_map list.simps(9) nt_identity_as_node_taint set_ConsD)
    then show ?thesis by (simp add: same_identity_def as_node_taint_def)
  next
    case False
    with Cons show ?thesis by (auto simp: same_identity_iff)
  qed
qed simp

lemma upsert_absent: "t_identity t \<notin> nt_identity ` set ts \<Longrightarrow> upsert_taint t ts = ts @ [as_node_taint t]"
  by (induction ts) (auto simp: same_identity_iff as_node_taint_def)

text \<open>Applying taints none of which conflicts with the node appends those that are not there.\<close>

lemma fold_upsert:
  assumes "distinct (map nt_identity ts)" and "distinct (map t_identity us)"
    and "\<And>u n. u \<in> set us \<Longrightarrow> n \<in> set ts \<Longrightarrow> nt_identity n = t_identity u \<Longrightarrow> n = as_node_taint u"
  shows "fold upsert_taint us ts = ts @ map as_node_taint (filter (\<lambda>u. as_node_taint u \<notin> set ts) us)"
  using assms
proof (induction us rule: rev_induct)
  case (snoc u us)
  let ?X = "map as_node_taint (filter (\<lambda>u. as_node_taint u \<notin> set ts) us)"
  have IH: "fold upsert_taint us ts = ts @ ?X" using snoc.prems by (intro snoc.IH) simp_all
  have notX: "t_identity u \<notin> nt_identity ` set ?X" using snoc.prems(2) by (auto simp: image_iff)
  show ?case
  proof (cases "as_node_taint u \<in> set ts")
    case True
    have "distinct (map nt_identity (ts @ ?X))"
    proof -
      have "distinct (map nt_identity ?X)" using snoc.prems(2) by (simp add: comp_def distinct_map_filter)
      moreover have "nt_identity ` set ts \<inter> nt_identity ` set ?X = {}"
        using snoc.prems(3) by (auto simp: image_iff)
      ultimately show ?thesis using snoc.prems(1) by (simp add: image_image)
    qed
    with True IH show ?thesis using upsert_present [of u "ts @ ?X"] by simp
  next
    case False
    then have "t_identity u \<notin> nt_identity ` set ts" using snoc.prems(3) by (auto simp: image_iff)
    with notX have "t_identity u \<notin> nt_identity ` set (ts @ ?X)" by auto
    from upsert_absent [OF this] IH False show ?thesis by simp
  qed
qed simp

section \<open>Merging annotations\<close>

lemma apply_annotations_entry:
  assumes "apply_annotations qc as m = Inr m'" and "distinct (map fst as)"
  shows "map_of as k = None \<Longrightarrow> map_of m' k = map_of m k"
    and "map_of as k = Some v \<Longrightarrow> annotationMergers qc k = None \<Longrightarrow> map_of m' k = Some v"
    and "map_of as k = Some v \<Longrightarrow> annotationMergers qc k = Some merge \<Longrightarrow>
      \<exists>merged. merge (case map_of m k of None \<Rightarrow> [] | Some x \<Rightarrow> x) v = Inr merged \<and> map_of m' k = Some merged"
  using assms
proof (atomize (full), induction as arbitrary: m)
  case (Cons a as)
  obtain key val where a: "a = (key, val)" by (cases a)
  obtain x where step: "apply_annotations qc as (AList.update key x m) = Inr m'"
    and x: "annotationMergers qc key = None \<longrightarrow> x = val"
      "\<forall>merge. annotationMergers qc key = Some merge \<longrightarrow> merge (case map_of m key of None \<Rightarrow> [] | Some x \<Rightarrow> x) val = Inr x"
    using Cons.prems a by (auto split: option.splits sum.splits)
  have "map_of as key = None" using Cons.prems a by (simp add: map_of_eq_None_iff)
  with Cons.IH [of "AList.update key x m"] Cons.prems a step x show ?case by (auto simp: update_conv' split: if_splits)
qed simp

lemma merge_taint_new:
  "t_identity t \<notin> fst ` set m \<Longrightarrow> merge_taint t m = m @ [(t_identity t, t)]"
proof -
  assume new: "t_identity t \<notin> fst ` set m"
  then have "map_of m (t_identity t) = None" by (simp add: map_of_eq_None_iff)
  moreover have "AList.update k v m = m @ [(k, v)]" if "k \<notin> fst ` set m" for k and v :: Taint
    using that by (induction m) auto
  ultimately show ?thesis using new by (simp add: merge_taint_def t_identity_def)
qed

lemma mergeAppliedTaints_disjoint:
  assumes "distinct (map t_identity (R @ N))"
  shows "mergeAppliedTaints R N = R @ N"
proof -
  have "fold merge_taint us acc = acc @ map (\<lambda>t. (t_identity t, t)) us"
    if "distinct (map fst acc @ map t_identity us)" for us acc
    using that
  proof (induction us arbitrary: acc)
    case (Cons u us)
    then have "merge_taint u acc = acc @ [(t_identity u, u)]" by (intro merge_taint_new) auto
    with Cons.IH [of "acc @ [(t_identity u, u)]"] Cons.prems show ?case by auto
  qed simp
  from this [of "[]" "R @ N"] assms show ?thesis by (simp add: mergeAppliedTaints_def comp_def)
qed


section \<open>The session updates\<close>

lemma annotationMergers_simps:
  "annotationMergers qc AppliedTaintsKey =
     Some (mergeAnnotation ''applied taints'' (unmarshal_taints (qc_lists qc)) mergeAppliedTaints (marshal_taints (qc_lists qc)))"
  "annotationMergers qc IsCordonedKey = None"
  "annotationMergers qc CordonPreExistingKey = None"
  by (simp_all add: annotationMergers_def annotation_keys QuarantineHealthEventAnnotationKey_def ValidationEventKey_def)

text \<open>What a mutation of the session leaves as it was: taints, cordon and the annotations that record them.\<close>

definition recording_keys :: "string list" where
  "recording_keys = [AppliedTaintsKey, IsCordonedKey, CordonPreExistingKey]"

definition ann :: "kube_node \<Rightarrow> string \<Rightarrow> string option" where
  "ann n = map_of (entries (kn_Annotations n))"

definition keeps_record :: "kube_node \<Rightarrow> kube_node \<Rightarrow> bool" where
  "keeps_record n n' \<longleftrightarrow> kn_Taints n' = kn_Taints n \<and> kn_Unschedulable n' = kn_Unschedulable n \<and>
     (\<forall>k \<in> set recording_keys. ann n' k = ann n k)"

lemma map_of_delete_option: "map_of (entries (map_option (AList.delete k) m)) k' = (if k' = k then None else map_of (entries m) k')"
  by (cases m) (auto simp: entries_def delete_conv')

lemma quarantine_update_effect:
  assumes "quarantine_update c qc taints cordon as labels cap n = (cap', Inr n')" and "\<not> DryRunMode c"
    and "distinct (map fst as)" and "distinct (map nt_identity (kn_Taints n))"
  shows "kn_Taints n' = fold upsert_taint taints (kn_Taints n)"
    and "kn_Unschedulable n' \<longleftrightarrow> kn_Unschedulable n \<or> cordon"
    and "k \<noteq> DryRunKey \<Longrightarrow> map_of as k = None \<Longrightarrow> ann n' k = ann n k"
    and "k \<noteq> DryRunKey \<Longrightarrow> map_of as k = Some v \<Longrightarrow> annotationMergers qc k = None \<Longrightarrow> ann n' k = Some v"
    and "k \<noteq> DryRunKey \<Longrightarrow> map_of as k = Some v \<Longrightarrow> annotationMergers qc k = Some merge \<Longrightarrow>
      \<exists>merged. merge (case ann n k of None \<Rightarrow> [] | Some x \<Rightarrow> x) v = Inr merged \<and> ann n' k = Some merged"
proof -
  let ?n1 = "delete_annotation DryRunKey n"
  let ?n2 = "if taints \<noteq> [] then applyTaints c taints ?n1 else ?n1"
  let ?n3 = "if cordon then handleCordon c ?n2 else ?n2"
  obtain n4 where n4: "(if as \<noteq> [] then applyAnnotations qc as ?n3 else Inr ?n3) = Inr n4"
    and n': "kn_Taints n' = kn_Taints n4" "kn_Unschedulable n' = kn_Unschedulable n4" "kn_Annotations n' = kn_Annotations n4"
    using assms(1,2) unfolding quarantine_update_def Let_def
    by (auto simp: applyLabels_def split: sum.splits if_splits)
  have n3: "kn_Taints ?n3 = fold upsert_taint taints (kn_Taints n)" "kn_Unschedulable ?n3 \<longleftrightarrow> kn_Unschedulable n \<or> cordon"
    "kn_Annotations ?n3 = map_option (AList.delete DryRunKey) (kn_Annotations n)"
    using assms(2) unique_taints_id [OF assms(4)]
    by (auto simp: applyTaints_def handleCordon_def delete_annotation_def)
  have spec: "kn_Taints n4 = kn_Taints ?n3 \<and> kn_Unschedulable n4 = kn_Unschedulable ?n3 \<and>
      apply_annotations qc as (entries (kn_Annotations ?n3)) = Inr (entries (kn_Annotations n4))"
    using n4 by (auto simp: applyAnnotations_def entries_def split: if_splits sum.splits)
  then show "kn_Taints n' = fold upsert_taint taints (kn_Taints n)" "kn_Unschedulable n' \<longleftrightarrow> kn_Unschedulable n \<or> cordon"
    using n3 n' by auto
  have entry: "map_of (entries (kn_Annotations ?n3)) k = ann n k" if "k \<noteq> DryRunKey" for k
    using that by (simp only: n3(3) map_of_delete_option ann_def if_False)
  note merged = apply_annotations_entry [OF conjunct2 [OF conjunct2 [OF spec]] assms(3)]
  have ann': "ann n' k = map_of (entries (kn_Annotations n4)) k" for k by (simp add: ann_def n'(3))
  show "ann n' k = ann n k" if "k \<noteq> DryRunKey" "map_of as k = None"
    using merged(1) [OF that(2)] entry [OF that(1)] ann' by simp
  show "ann n' k = Some v" if "k \<noteq> DryRunKey" "map_of as k = Some v" "annotationMergers qc k = None"
    using merged(2) [OF that(2,3)] ann' by simp
  show "\<exists>merged. merge (case ann n k of None \<Rightarrow> [] | Some x \<Rightarrow> x) v = Inr merged \<and> ann n' k = Some merged"
    if "k \<noteq> DryRunKey" "map_of as k = Some v" "annotationMergers qc k = Some merge"
    using merged(3) [OF that(2,3)] entry [OF that(1)] ann' by simp
qed


section \<open>The invariant of a session\<close>

text \<open>A text that was written for a list of taints is read as that list, and is not taken for an empty one.\<close>

definition taint_codec_ok :: "quarantine_codec \<Rightarrow> bool" where
  "taint_codec_ok qc \<longleftrightarrow> (\<forall>ts txt. ts \<noteq> [] \<longrightarrow> marshal_taints (qc_lists qc) ts = Inr txt \<longrightarrow>
     unmarshal_taints (qc_lists qc) txt = Inr ts \<and> \<not> IsEmptyValue txt)"

text \<open>\<^verbatim>\<open>R\<close> are the recorded taints and \<^verbatim>\<open>X\<close> the taints the session has added to the node.\<close>

definition session_inv :: "quarantine_codec \<Rightarrow> kube_node \<Rightarrow> kube_node \<Rightarrow> Taint list \<Rightarrow> node_taint list \<Rightarrow> bool" where
  "session_inv qc n0 n R X \<longleftrightarrow>
     distinct (map nt_identity (kn_Taints n)) \<and> kn_Taints n = kn_Taints n0 @ X \<and>
     set X = as_node_taint ` {t \<in> set R. \<not> t_PreExisting t} \<and> distinct (map t_identity R) \<and>
     (\<forall>t \<in> set R. t_PreExisting t \<longrightarrow> as_node_taint t \<in> set (kn_Taints n0)) \<and>
     (case ann n AppliedTaintsKey of None \<Rightarrow> R = []
      | Some txt \<Rightarrow> \<not> IsEmptyValue txt \<and> unmarshal_taints (qc_lists qc) txt = Inr R) \<and>
     (if ann n IsCordonedKey = None then ann n CordonPreExistingKey = None \<and> kn_Unschedulable n = kn_Unschedulable n0
      else ann n IsCordonedKey = Some ''True'' \<and> kn_Unschedulable n \<and>
        ann n CordonPreExistingKey = (if kn_Unschedulable n0 then Some ''True'' else None))"

lemma session_inv_keeps: "session_inv qc n0 n R X \<Longrightarrow> keeps_record n n' \<Longrightarrow> session_inv qc n0 n' R X"
proof -
  assume inv: "session_inv qc n0 n R X" and "keeps_record n n'"
  then have eqs: "kn_Taints n' = kn_Taints n" "kn_Unschedulable n' = kn_Unschedulable n"
    "ann n' AppliedTaintsKey = ann n AppliedTaintsKey" "ann n' IsCordonedKey = ann n IsCordonedKey"
    "ann n' CordonPreExistingKey = ann n CordonPreExistingKey" by (simp_all add: keeps_record_def recording_keys_def)
  from inv show ?thesis unfolding session_inv_def eqs .
qed

lemma session_inv_recorded:
  assumes "session_inv qc n0 n R X"
  shows "(case ann n AppliedTaintsKey of None \<Rightarrow> Inr [] | Some txt \<Rightarrow> if txt = [] then Inr [] else unmarshal_taints (qc_lists qc) txt) = Inr R"
  using assms by (auto simp: session_inv_def IsEmptyValue_def TrimSpace_def split: option.splits)

text \<open>
  One recorded action. The new taints are not recorded yet, none conflicts with the node, and they
  are marked as pre-existing if the node has them; a new cordon is recorded with the state it found.
\<close>

lemma session_inv_record:
  assumes inv: "session_inv qc n0 n R X" and codec: "taint_codec_ok qc"
    and upd: "quarantine_update c qc N cordon as labels cap n = (cap', Inr n')" "\<not> DryRunMode c" "distinct (map fst as)"
    and new: "distinct (map t_identity (R @ N))"
      "\<And>u m. u \<in> set N \<Longrightarrow> m \<in> set (kn_Taints n) \<Longrightarrow> nt_identity m = t_identity u \<Longrightarrow> m = as_node_taint u"
      "\<And>u. u \<in> set N \<Longrightarrow> t_PreExisting u \<longleftrightarrow> as_node_taint u \<in> set (kn_Taints n)"
    and recd: "if N = [] then map_of as AppliedTaintsKey = None
       else \<exists>txt. marshal_taints (qc_lists qc) N = Inr txt \<and> map_of as AppliedTaintsKey = Some txt"
    and cord: "map_of as IsCordonedKey = None \<and> map_of as CordonPreExistingKey = None \<and> \<not> cordon \<or>
       ann n IsCordonedKey = None \<and> map_of as IsCordonedKey = Some ''True'' \<and>
       map_of as CordonPreExistingKey = (if kn_Unschedulable n then Some ''True'' else None) \<and> (cordon \<or> kn_Unschedulable n)"
  shows "session_inv qc n0 n' (R @ N) (X @ map as_node_taint (filter (\<lambda>u. as_node_taint u \<notin> set (kn_Taints n)) N))"
proof -
  have dist: "distinct (map nt_identity (kn_Taints n))" and T: "kn_Taints n = kn_Taints n0 @ X"
    and X: "set X = as_node_taint ` {t \<in> set R. \<not> t_PreExisting t}"
    and pre: "\<forall>t \<in> set R. t_PreExisting t \<longrightarrow> as_node_taint t \<in> set (kn_Taints n0)"
    using inv unfolding session_inv_def by blast+
  note eff = quarantine_update_effect [OF upd dist]
  have keys: "AppliedTaintsKey \<noteq> DryRunKey" "IsCordonedKey \<noteq> DryRunKey" "CordonPreExistingKey \<noteq> DryRunKey"
    by (simp_all add: annotation_keys)
  let ?Y = "map as_node_taint (filter (\<lambda>u. as_node_taint u \<notin> set (kn_Taints n)) N)"
  have T': "kn_Taints n' = kn_Taints n @ ?Y"
    unfolding eff(1) using fold_upsert [OF dist _ new(2)] new(1) by simp
  have ids: "nt_identity ` set (kn_Taints n) \<inter> t_identity ` {u \<in> set N. as_node_taint u \<notin> set (kn_Taints n)} = {}"
    using new(2) by (auto simp: image_iff)
  have "distinct (map nt_identity (kn_Taints n'))"
    using dist new(1) ids by (simp add: T' comp_def distinct_map_filter image_image)
  moreover have "set (X @ ?Y) = as_node_taint ` {t \<in> set (R @ N). \<not> t_PreExisting t}"
    using X new(3) by auto
  moreover have "\<forall>t \<in> set (R @ N). t_PreExisting t \<longrightarrow> as_node_taint t \<in> set (kn_Taints n0)"
  proof (intro ballI impI)
    fix t assume t: "t \<in> set (R @ N)" "t_PreExisting t"
    show "as_node_taint t \<in> set (kn_Taints n0)"
    proof (cases "t \<in> set R")
      case False
      with t have tN: "t \<in> set N" by simp
      with t new(3) have "as_node_taint t \<in> set (kn_Taints n0) \<or> as_node_taint t \<in> set X" by (auto simp: T)
      moreover have "as_node_taint t \<notin> set X"
      proof
        assume "as_node_taint t \<in> set X"
        then obtain u where "u \<in> set R" "as_node_taint t = as_node_taint u" by (auto simp: X)
        then have "t_identity t \<in> t_identity ` set R" by (metis image_eqI nt_identity_as_node_taint)
        with tN new(1) show False by auto
      qed
      ultimately show ?thesis by blast
    qed (use t pre in blast)
  qed
  moreover have "case ann n' AppliedTaintsKey of None \<Rightarrow> R @ N = []
      | Some txt \<Rightarrow> \<not> IsEmptyValue txt \<and> unmarshal_taints (qc_lists qc) txt = Inr (R @ N)"
  proof (cases "N = []")
    case True
    with recd eff(3) [OF keys(1)] inv show ?thesis by (simp add: session_inv_def split: option.splits)
  next
    case False
    with recd obtain body where body: "marshal_taints (qc_lists qc) N = Inr body" "map_of as AppliedTaintsKey = Some body" by auto
    from codec False body(1) have ok: "unmarshal_taints (qc_lists qc) body = Inr N" "\<not> IsEmptyValue body"
      unfolding taint_codec_ok_def by blast+
    from eff(5) [OF keys(1) body(2) annotationMergers_simps(1)] obtain merged where
      m: "mergeAnnotation ''applied taints'' (unmarshal_taints (qc_lists qc)) mergeAppliedTaints (marshal_taints (qc_lists qc))
            (case ann n AppliedTaintsKey of None \<Rightarrow> [] | Some x \<Rightarrow> x) body = Inr merged" "ann n' AppliedTaintsKey = Some merged" by blast
    show ?thesis
    proof (cases "ann n AppliedTaintsKey")
      case None
      with inv have "R = []" by (simp add: session_inv_def)
      with None m ok show ?thesis by (simp add: mergeAnnotation_def IsEmptyValue_def TrimSpace_def)
    next
      case (Some old)
      with inv have old: "\<not> IsEmptyValue old" "unmarshal_taints (qc_lists qc) old = Inr R" by (simp_all add: session_inv_def)
      with Some m ok have "marshal_taints (qc_lists qc) (R @ N) = Inr merged"
        by (simp add: mergeAnnotation_def mergeAppliedTaints_disjoint [OF new(1)] split: sum.splits)
      with codec False have "unmarshal_taints (qc_lists qc) merged = Inr (R @ N) \<and> \<not> IsEmptyValue merged"
        unfolding taint_codec_ok_def by blast
      with m(2) show ?thesis by simp
    qed
  qed
  moreover have "if ann n' IsCordonedKey = None then ann n' CordonPreExistingKey = None \<and> kn_Unschedulable n' = kn_Unschedulable n0
      else ann n' IsCordonedKey = Some ''True'' \<and> kn_Unschedulable n' \<and>
        ann n' CordonPreExistingKey = (if kn_Unschedulable n0 then Some ''True'' else None)"
  proof (rule disjE [OF cord])
    assume "map_of as IsCordonedKey = None \<and> map_of as CordonPreExistingKey = None \<and> \<not> cordon"
    with eff(2) eff(3) [OF keys(2)] eff(3) [OF keys(3)] inv show ?thesis by (simp add: session_inv_def)
  next
    assume a: "ann n IsCordonedKey = None \<and> map_of as IsCordonedKey = Some ''True'' \<and>
      map_of as CordonPreExistingKey = (if kn_Unschedulable n then Some ''True'' else None) \<and> (cordon \<or> kn_Unschedulable n)"
    with inv have n0: "kn_Unschedulable n = kn_Unschedulable n0" "ann n CordonPreExistingKey = None" by (simp_all add: session_inv_def)
    have "ann n' IsCordonedKey = Some ''True''" using a by (intro eff(4) [OF keys(2) _ annotationMergers_simps(2)]) blast
    moreover have "ann n' CordonPreExistingKey = (if kn_Unschedulable n0 then Some ''True'' else None)"
      using a n0 eff(3) [OF keys(3)] eff(4) [OF keys(3) _ annotationMergers_simps(3)] by (simp split: if_splits)
    moreover have "kn_Unschedulable n'" using eff(2) a by blast
    ultimately show ?thesis by simp
  qed
  ultimately show ?thesis using new(1) T T' by (simp add: session_inv_def)
qed


section \<open>Release\<close>

lemma quarantine_annotations_entry:
  "map_of (quarantine_annotations n) k = (if k \<in> set QuarantineAnnotationKeys then ann n k else None)"
proof -
  have "map_of (concat (map (\<lambda>key. case m key of None \<Rightarrow> [] | Some v \<Rightarrow> [(key, v)]) ks)) k = (if k \<in> set ks then m k else None)"
    for m :: "string \<Rightarrow> string option" and ks
    by (induction ks) (auto split: option.splits)
  then show ?thesis by (simp add: quarantine_annotations_def ann_def)
qed

lemma recorded_annotation [simp]:
  "map_of (quarantine_annotations n) AppliedTaintsKey = ann n AppliedTaintsKey"
  "map_of (quarantine_annotations n) IsCordonedKey = ann n IsCordonedKey"
  "map_of (quarantine_annotations n) CordonPreExistingKey = ann n CordonPreExistingKey"
  "map_of (quarantine_annotations n) QuarantineHealthEventAnnotationKey = ann n QuarantineHealthEventAnnotationKey"
  "map_of (quarantine_annotations n) DryRunKey = ann n DryRunKey"
  by (simp_all add: quarantine_annotations_entry QuarantineAnnotationKeys_def)

lemma unquarantine_update_effect:
  assumes "unquarantine_update c taints uncordon keys removed labels cap n = (cap', Inr n')" and "\<not> DryRunMode c"
  shows "kn_Taints n' = filter (\<lambda>m. taint_key m \<notin> set taints) (kn_Taints n)"
    and "kn_Unschedulable n' \<longleftrightarrow> kn_Unschedulable n \<and> \<not> uncordon"
    and "ann n' k = (if k \<in> set keys then None else ann n k)"
proof -
  let ?n1 = "if taints \<noteq> [] then removeTaints c taints n else n"
  let ?n2 = "if uncordon then handleUncordon c labels ?n1 else ?n1"
  let ?n3 = "fold delete_annotation keys ?n2"
  from assms(1) have n': "n' = removeLabels c removed ?n3" by (simp add: unquarantine_update_def Let_def)
  let ?rm = "filter (\<lambda>t. t\<lparr>t_PreExisting := False\<rparr> \<in> set (map taint_key (kn_Taints n))) taints"
  have hit: "filter (\<lambda>m. taint_key m \<notin> set ?rm) (kn_Taints n) = filter (\<lambda>m. taint_key m \<notin> set taints) (kn_Taints n)"
    by (intro filter_cong) (auto simp: taint_key_def)
  have n1: "kn_Taints ?n1 = filter (\<lambda>m. taint_key m \<notin> set taints) (kn_Taints n)"
    "kn_Unschedulable ?n1 = kn_Unschedulable n" "kn_Annotations ?n1 = kn_Annotations n"
  proof -
    show "kn_Taints ?n1 = filter (\<lambda>m. taint_key m \<notin> set taints) (kn_Taints n)"
    proof (cases "?rm = []")
      case True
      then have "removeTaints c taints n = n" by (simp add: removeTaints_def Let_def)
      moreover have "filter (\<lambda>m. taint_key m \<notin> set taints) (kn_Taints n) = kn_Taints n" using hit unfolding True by simp
      ultimately show ?thesis by simp
    next
      case False
      then have "kn_Taints (removeTaints c taints n) = filter (\<lambda>m. taint_key m \<notin> set ?rm) (kn_Taints n)"
        using assms(2) unfolding removeTaints_def removeNodeTaints_def Let_def by simp
      with False show ?thesis unfolding hit by (auto split: if_splits)
    qed
  qed (auto simp: removeTaints_def removeNodeTaints_def Let_def)
  have n2: "kn_Taints ?n2 = kn_Taints ?n1" "kn_Unschedulable ?n2 \<longleftrightarrow> kn_Unschedulable ?n1 \<and> \<not> uncordon" "kn_Annotations ?n2 = kn_Annotations ?n1"
    using assms(2) by (auto simp: handleUncordon_def applyLabels_def Let_def)
  have n3: "kn_Taints (fold delete_annotation ks m) = kn_Taints m \<and> kn_Unschedulable (fold delete_annotation ks m) = kn_Unschedulable m \<and>
      ann (fold delete_annotation ks m) k = (if k \<in> set ks then None else ann m k)" for ks m k
    by (induction ks arbitrary: m) (auto simp: delete_annotation_def ann_def map_of_delete_option)
  have lab: "kn_Taints n' = kn_Taints ?n3" "kn_Unschedulable n' = kn_Unschedulable ?n3" "kn_Annotations n' = kn_Annotations ?n3"
    by (simp_all add: n' removeLabels_def)
  show "kn_Taints n' = filter (\<lambda>m. taint_key m \<notin> set taints) (kn_Taints n)" using lab n3 n2 n1 by metis
  show "kn_Unschedulable n' \<longleftrightarrow> kn_Unschedulable n \<and> \<not> uncordon" using lab n3 n2 n1 by metis
  have "ann n' k = ann ?n3 k" by (simp add: ann_def lab(3))
  also have "\<dots> = (if k \<in> set keys then None else ann ?n2 k)" using n3 by blast
  also have "ann ?n2 k = ann n k" unfolding ann_def n2(3) n1(3) by (rule refl)
  finally show "ann n' k = (if k \<in> set keys then None else ann n k)" .
qed

lemma released_taints:
  assumes "distinct (map nt_identity (B @ X))" and "set X = as_node_taint ` {t \<in> set R. \<not> t_PreExisting t}"
  shows "filter (\<lambda>m. taint_key m \<notin> set (filter (\<lambda>t. \<not> t_PreExisting t) R)) (B @ X) = B"
proof -
  have key: "taint_key m \<in> set (filter (\<lambda>t. \<not> t_PreExisting t) R) \<longleftrightarrow> m \<in> set X" for m
  proof
    assume "taint_key m \<in> set (filter (\<lambda>t. \<not> t_PreExisting t) R)"
    moreover have "m = as_node_taint (taint_key m)" by (simp add: as_node_taint_def taint_key_def)
    ultimately show "m \<in> set X" unfolding assms(2) by (intro image_eqI [of _ _ "taint_key m"]) auto
  next
    assume "m \<in> set X"
    then obtain t where "m = as_node_taint t" "t \<in> set R" "\<not> t_PreExisting t" unfolding assms(2) by blast
    then show "taint_key m \<in> set (filter (\<lambda>t. \<not> t_PreExisting t) R)"
      by (cases t) (simp add: as_node_taint_def taint_key_def)
  qed
  have "set B \<inter> set X = {}" using assms(1) by auto
  then have "filter (\<lambda>m. m \<notin> set X) B = B" by (intro filter_True) auto
  then show ?thesis unfolding key by simp
qed

lemma session_inv_release:
  assumes inv: "session_inv (rc_codec r) n0 n R X"
    and p: "prepareUncordonParams r name timestamp (quarantine_annotations n) = Inr p"
    and keys: "set (appendIfPresent (quarantine_annotations n) (up_annotations p) [QuarantineHealthEventAnnotationKey, DryRunKey]) \<subseteq> set keys"
    and upd: "unquarantine_update c (up_taints p) (up_uncordon p) keys removed labels cap n = (cap', Inr n')" "\<not> DryRunMode c"
  shows "kn_Taints n' = kn_Taints n0 \<and> kn_Unschedulable n' = kn_Unschedulable n0 \<and>
    (\<forall>k \<in> {QuarantineHealthEventAnnotationKey, AppliedTaintsKey, IsCordonedKey, CordonPreExistingKey, DryRunKey}. ann n' k = None)"
proof -
  have T: "distinct (map nt_identity (kn_Taints n0 @ X))" "kn_Taints n = kn_Taints n0 @ X"
    "set X = as_node_taint ` {t \<in> set R. \<not> t_PreExisting t}"
    using inv unfolding session_inv_def by metis+
  have cord: "if ann n IsCordonedKey = None then ann n CordonPreExistingKey = None \<and> kn_Unschedulable n = kn_Unschedulable n0
      else ann n IsCordonedKey = Some ''True'' \<and> kn_Unschedulable n \<and>
        ann n CordonPreExistingKey = (if kn_Unschedulable n0 then Some ''True'' else None)"
    using inv unfolding session_inv_def by blast
  have read: "(if (case ann n AppliedTaintsKey of None \<Rightarrow> [] | Some v \<Rightarrow> v) \<noteq> []
      then unmarshal_taints (qc_lists (rc_codec r)) (case ann n AppliedTaintsKey of None \<Rightarrow> [] | Some v \<Rightarrow> v) else Inr []) = Inr R"
    using session_inv_recorded [OF inv] by (auto split: option.splits)
  obtain q where "appliedLabelsRemovalParams (rc_codec r) (quarantine_annotations n) = Inr q"
    using p unfolding prepareUncordonParams_def Let_def recorded_annotation read by (auto split: sum.splits)
  then obtain ls la where "appliedLabelsRemovalParams (rc_codec r) (quarantine_annotations n) = Inr (ls, la)" by (cases q) blast
  with p have up: "up_taints p = filter (\<lambda>t. \<not> t_PreExisting t) R"
    "up_uncordon p \<longleftrightarrow> ann n IsCordonedKey = Some ''True'' \<and> ann n CordonPreExistingKey \<noteq> Some ''True''"
    "up_annotations p = ((if (case ann n AppliedTaintsKey of None \<Rightarrow> [] | Some v \<Rightarrow> v) \<noteq> [] then [AppliedTaintsKey] else []) @ la) @
       (if ann n IsCordonedKey = Some ''True'' then IsCordonedKey # (if ann n CordonPreExistingKey = Some ''True'' then [CordonPreExistingKey] else []) else [])"
    unfolding prepareUncordonParams_def Let_def recorded_annotation read by (simp_all del: filter_True filter_False) (auto simp del: filter_True)
  note eff = unquarantine_update_effect [OF upd]
  let ?removed = "set (appendIfPresent (quarantine_annotations n) (up_annotations p) [QuarantineHealthEventAnnotationKey, DryRunKey])"
  have gone: "ann n' k = None" if "ann n k \<noteq> None \<Longrightarrow> k \<in> ?removed" for k
    using that keys unfolding eff(3) by (cases "ann n k") auto
  have "ann n AppliedTaintsKey \<noteq> Some []"
    using inv unfolding session_inv_def by (auto simp: IsEmptyValue_def TrimSpace_def)
  then have "AppliedTaintsKey \<in> ?removed" if "ann n AppliedTaintsKey \<noteq> None"
    using that by (auto simp: up(3) appendIfPresent_def)
  moreover have "IsCordonedKey \<in> ?removed" if "ann n IsCordonedKey \<noteq> None"
    using that cord by (auto simp: up(3) appendIfPresent_def)
  moreover have "CordonPreExistingKey \<in> ?removed" if "ann n CordonPreExistingKey \<noteq> None"
  proof -
    from that cord have "ann n IsCordonedKey = Some ''True'' \<and> ann n CordonPreExistingKey = Some ''True''"
      by (auto split: if_splits)
    then show ?thesis by (simp add: up(3) appendIfPresent_def)
  qed
  moreover have "QuarantineHealthEventAnnotationKey \<in> ?removed" if "ann n QuarantineHealthEventAnnotationKey \<noteq> None"
    using that by (simp add: appendIfPresent_def)
  moreover have "DryRunKey \<in> ?removed" if "ann n DryRunKey \<noteq> None" using that by (simp add: appendIfPresent_def)
  ultimately have "k \<in> ?removed" if "k \<in> {QuarantineHealthEventAnnotationKey, AppliedTaintsKey, IsCordonedKey, CordonPreExistingKey, DryRunKey}"
    "ann n k \<noteq> None" for k
    using that by (elim insertE emptyE) simp_all
  then have "\<forall>k \<in> {QuarantineHealthEventAnnotationKey, AppliedTaintsKey, IsCordonedKey, CordonPreExistingKey, DryRunKey}. ann n' k = None"
    by (intro ballI gone)
  moreover have "kn_Taints n' = kn_Taints n0" unfolding eff(1) T(2) up(1) by (rule released_taints [OF T(1,3)])
  moreover have "kn_Unschedulable n' = kn_Unschedulable n0"
    using cord up(2) unfolding eff(2) by (cases "kn_Unschedulable n0"; cases "ann n IsCordonedKey") simp_all
  ultimately show ?thesis by blast
qed

end
