(* ===== verification/Patch_Properties.thy ===== *)
theory Patch_Properties
  imports Node_Patch
begin

text \<open>
  What a patch of a node does in the presence of other writers: a change of labels or
  annotations touches only the entries that the mutation changed, and a change of taints or of
  the cordon is applied only on top of the very version it was computed from.
\<close>

section \<open>What the patcher relies on\<close>

text \<open>
  The documented meaning of a merge patch between two documents: entries and fields that differ
  are set to the new value or removed, everything else stays as it is on the patched object.
\<close>

definition map_patched :: "('k, 'v) gomap option \<Rightarrow> ('k, 'v) gomap option \<Rightarrow> ('k, 'v) gomap option \<Rightarrow> ('k, 'v) gomap option \<Rightarrow> bool" where
  "map_patched old new live result \<longleftrightarrow>
     (\<forall>k. map_of (entries result) k =
        (if new = None \<and> old \<noteq> None then None
         else if map_of (entries old) k = map_of (entries new) k then map_of (entries live) k
         else map_of (entries new) k))"

definition document_patched :: "patch_document \<Rightarrow> patch_document \<Rightarrow> kube_node \<Rightarrow> kube_node \<Rightarrow> bool" where
  "document_patched old new live result \<longleftrightarrow>
     map_patched (pd_labels old) (pd_labels new) (kn_Labels live) (kn_Labels result) \<and>
     map_patched (pd_annotations old) (pd_annotations new) (kn_Annotations live) (kn_Annotations result) \<and>
     kn_Taints result = (if pd_taints old = pd_taints new then kn_Taints live else entries (pd_taints new)) \<and>
     kn_Unschedulable result = (if pd_unschedulable old = pd_unschedulable new then kn_Unschedulable live
       else pd_unschedulable new = Some True) \<and>
     kn_Name result = kn_Name live"

definition same_document :: "patch_document \<Rightarrow> patch_document \<Rightarrow> bool" where
  "same_document old new \<longleftrightarrow>
     map_of (entries (pd_labels old)) = map_of (entries (pd_labels new)) \<and>
     map_of (entries (pd_annotations old)) = map_of (entries (pd_annotations new)) \<and>
     pd_taints old = pd_taints new \<and> pd_unschedulable old = pd_unschedulable new"

text \<open>
  \<^verbatim>\<open>requires p\<close> is the resource version a patch carries, and \<^verbatim>\<open>patched p\<close> relates a node to the
  node that applying the patch gives. The empty patch says that the documents agree.
\<close>

definition merge_patches ::
  "create_patch \<Rightarrow> (string \<Rightarrow> string option) \<Rightarrow> (string \<Rightarrow> kube_node \<Rightarrow> kube_node \<Rightarrow> bool) \<Rightarrow> bool" where
  "merge_patches create requires patched \<longleftrightarrow>
     (\<forall>old new p. create old new = Inr p \<longrightarrow>
        (p = ''{}'' \<longrightarrow> same_document old new) \<and>
        requires p = (if pd_resourceVersion old = pd_resourceVersion new then None else pd_resourceVersion new) \<and>
        (\<forall>live result. patched p live result \<longrightarrow> document_patched old new live result))"

text \<open>
  The versions of a node in the order they were committed, each with a flag that marks the
  writes of this patcher. Between any two steps others may commit versions. A read returns the
  latest version. A patch is applied to the latest version, provided that it has the version the
  patch requires; a patch that is reported to have failed may have been applied all the same.
\<close>

type_synonym versions = "(bool \<times> kube_node) list"

definition by_others :: "versions \<Rightarrow> bool" where
  "by_others vs \<longleftrightarrow> (\<forall>v \<in> set vs. \<not> fst v)"

definition reads_live :: "'w nodes_api \<Rightarrow> ('w \<Rightarrow> versions) \<Rightarrow> string \<Rightarrow> bool" where
  "reads_live api hist name \<longleftrightarrow>
     (\<forall>w w' r. api_Get api w name = (w', r) \<longrightarrow>
        (\<exists>xs. by_others xs \<and> hist w' = hist w @ xs) \<and>
        (\<forall>n. r = Inr n \<longrightarrow> hist w' \<noteq> [] \<and> n = snd (last (hist w'))))"

lemma reads_liveE:
  assumes "reads_live api hist name" and "api_Get api w name = (w', r)"
  obtains xs where "by_others xs" "hist w' = hist w @ xs" "\<And>n. r = Inr n \<Longrightarrow> hist w' \<noteq> [] \<and> n = snd (last (hist w'))"
  using assms(1) [unfolded reads_live_def, rule_format, OF assms(2)] by blast

definition applies_patches ::
  "(string \<Rightarrow> string option) \<Rightarrow> (string \<Rightarrow> kube_node \<Rightarrow> kube_node \<Rightarrow> bool) \<Rightarrow> 'w nodes_api \<Rightarrow> ('w \<Rightarrow> versions) \<Rightarrow> string \<Rightarrow> bool" where
  "applies_patches requires patched api hist name \<longleftrightarrow>
     (\<forall>w w' p r. api_Patch api w name p = (w', r) \<longrightarrow>
        (\<exists>xs. by_others xs \<and>
           (hist w' = hist w @ xs \<and> (\<forall>n. r \<noteq> Inr n) \<or>
            (\<exists>n. hist w' = hist w @ xs @ [(True, n)] \<and> hist w @ xs \<noteq> [] \<and>
               (\<forall>v. requires p = Some v \<longrightarrow> kn_ResourceVersion (snd (last (hist w @ xs))) = v) \<and>
               patched p (snd (last (hist w @ xs))) n \<and> (\<forall>m. r = Inr m \<longrightarrow> m = n)))))"

text \<open>
  \<^verbatim>\<open>retry.OnError\<close> calls the function at least once, again only after a retriable error, and
  returns nil when the last call did; it may also return nil when the last call failed.
\<close>

inductive retried :: "(error \<Rightarrow> bool) \<Rightarrow> ('s \<Rightarrow> 's \<times> error option) \<Rightarrow> 's \<Rightarrow> 's \<Rightarrow> error option \<Rightarrow> bool" for retriable fn where
  finished: "fn s = (s', e) \<Longrightarrow> retried retriable fn s s' e"
| again: "fn s = (s1, Some e1) \<Longrightarrow> retriable e1 \<Longrightarrow> retried retriable fn s1 s' e \<Longrightarrow> retried retriable fn s s' e"

definition retry_contract :: "'s retry_on_error \<Rightarrow> bool" where
  "retry_contract onError \<longleftrightarrow>
     (\<forall>retriable fn s s' err. onError retriable fn s = (s', err) \<longrightarrow>
        (\<exists>e. retried retriable fn s s' e \<and> (e = None \<longrightarrow> err = None)))"

section \<open>The patch of a mutation\<close>

text \<open>The node that a mutation of \<^verbatim>\<open>base\<close> into \<^verbatim>\<open>desired\<close> makes of the live node.\<close>

definition overlaid :: "kube_node \<Rightarrow> kube_node \<Rightarrow> kube_node \<Rightarrow> kube_node \<Rightarrow> bool" where
  "overlaid base desired live result \<longleftrightarrow>
     (\<forall>k. map_of (entries (kn_Labels result)) k =
        (if map_of (entries (kn_Labels base)) k = map_of (entries (kn_Labels desired)) k
         then map_of (entries (kn_Labels live)) k else map_of (entries (kn_Labels desired)) k)) \<and>
     (\<forall>k. map_of (entries (kn_Annotations result)) k =
        (if map_of (entries (kn_Annotations base)) k = map_of (entries (kn_Annotations desired)) k
         then map_of (entries (kn_Annotations live)) k else map_of (entries (kn_Annotations desired)) k)) \<and>
     kn_Taints result = (if kn_Taints base = kn_Taints desired then kn_Taints live else kn_Taints desired) \<and>
     kn_Unschedulable result = (if kn_Unschedulable base = kn_Unschedulable desired then kn_Unschedulable live
       else kn_Unschedulable desired) \<and>
     kn_Name result = kn_Name live"

definition same_fields :: "kube_node \<Rightarrow> kube_node \<Rightarrow> bool" where
  "same_fields a b \<longleftrightarrow>
     map_of (entries (kn_Labels a)) = map_of (entries (kn_Labels b)) \<and>
     map_of (entries (kn_Annotations a)) = map_of (entries (kn_Annotations b)) \<and>
     kn_Taints a = kn_Taints b \<and> kn_Unschedulable a = kn_Unschedulable b"

lemma entries_simps [simp]: "entries None = []" "entries (Some m) = m"
  by (simp_all add: entries_def)

lemma entries_omit_empty [simp]: "entries (omit_empty xs) = xs"
  by (simp add: omit_empty_def)

lemma omit_empty_eq [simp]: "omit_empty xs = omit_empty ys \<longleftrightarrow> xs = ys"
  by (auto simp: omit_empty_def)

lemma entries_keep_map [simp]: "entries (keep_map keep m) = entries m"
  by (cases m) (simp_all add: keep_map_def)

lemma map_patched_kept:
  assumes "map_patched (keep_map (a \<noteq> None \<or> b \<noteq> None) (omit_empty (entries a)))
      (keep_map (a \<noteq> None \<or> b \<noteq> None) (omit_empty (entries b))) live result"
  shows "map_of (entries result) k =
    (if map_of (entries a) k = map_of (entries b) k then map_of (entries live) k else map_of (entries b) k)"
proof -
  have "\<not> (keep_map (a \<noteq> None \<or> b \<noteq> None) (omit_empty (entries b)) = None \<and>
      keep_map (a \<noteq> None \<or> b \<noteq> None) (omit_empty (entries a)) \<noteq> None)"
    by (cases a; cases b) (auto simp: keep_map_def omit_empty_def)
  with assms show ?thesis unfolding map_patched_def by (metis entries_keep_map entries_omit_empty)
qed

lemma NodeMergePatch_meaning:
  assumes "merge_patches create requires patched" and "NodeMergePatch create original modified = Inr p"
  shows "p = None \<Longrightarrow> same_fields original modified"
    and "p = Some q \<Longrightarrow> patched q live result \<Longrightarrow> overlaid original modified live result"
    and "p = Some q \<Longrightarrow> specChanged original modified \<Longrightarrow> kn_ResourceVersion original \<noteq> [] \<Longrightarrow>
      requires q = Some (kn_ResourceVersion original)"
proof -
  let ?kl = "kn_Labels original \<noteq> None \<or> kn_Labels modified \<noteq> None"
  let ?ka = "kn_Annotations original \<noteq> None \<or> kn_Annotations modified \<noteq> None"
  let ?rv = "if specChanged original modified then kn_ResourceVersion original else []"
  let ?old = "patchProjectionJSON (projectNodePatchableFields original) ?kl ?ka"
  let ?new = "patchProjectionJSON ((projectNodePatchableFields modified)\<lparr>kn_ResourceVersion := ?rv\<rparr>) ?kl ?ka"
  from assms(2) obtain body where body: "create ?old ?new = Inr body" and p: "p = (if body = ''{}'' then None else Some body)"
    unfolding NodeMergePatch_def Let_def by (auto split: sum.splits)
  have law: "body = ''{}'' \<longrightarrow> same_document ?old ?new"
    "requires body = (if pd_resourceVersion ?old = pd_resourceVersion ?new then None else pd_resourceVersion ?new)"
    "\<And>live result. patched body live result \<Longrightarrow> document_patched ?old ?new live result"
    using assms(1) body unfolding merge_patches_def by blast+
  note fields = patchProjectionJSON_def marshal_projection_def projectNodePatchableFields_def Let_def
  show "same_fields original modified" if "p = None"
    using law(1) that p unfolding same_document_def same_fields_def fields by (auto split: if_splits)
  show "requires q = Some (kn_ResourceVersion original)"
    if "p = Some q" "specChanged original modified" "kn_ResourceVersion original \<noteq> []"
    using law(2) that p by (auto simp: fields omit_empty_def split: if_splits)
  show "overlaid original modified live result" if "p = Some q" "patched q live result"
  proof -
    from that p have "patched body live result" by (auto split: if_splits)
    note doc = law(3) [OF this, unfolded document_patched_def fields, simplified]
    show ?thesis unfolding overlaid_def
      using map_patched_kept [of "kn_Labels original" "kn_Labels modified"]
        map_patched_kept [of "kn_Annotations original" "kn_Annotations modified"] doc
      by (auto split: if_splits)
  qed
qed


section \<open>Histories\<close>

text \<open>
  A base a mutation is computed from: the cached node, provided that it does not miss a write
  of this patcher, or a version that was current at the start of the call or later.
\<close>

definition fresh_base :: "kube_node option \<Rightarrow> string option \<Rightarrow> nat \<Rightarrow> versions \<Rightarrow> kube_node \<Rightarrow> bool" where
  "fresh_base cached pending start h base \<longleftrightarrow>
     cached = Some base \<and> (pending = None \<or> pending = Some (kn_ResourceVersion base)) \<or>
     (\<exists>i. start \<le> Suc i \<and> i < length h \<and> base = snd (h ! i))"

lemma fresh_base_extend: "fresh_base cached pending start h base \<Longrightarrow> fresh_base cached pending start (h @ xs) base"
  unfolding fresh_base_def by (metis length_append nth_append trans_less_add1)

lemma fresh_base_last: "h \<noteq> [] \<Longrightarrow> start \<le> length h \<Longrightarrow> fresh_base cached pending start h (snd (last h))"
  unfolding fresh_base_def by (intro disjI2 exI [of _ "length h - 1"]) (auto simp: last_conv_nth)

definition good_write ::
  "kube_node option \<Rightarrow> string option \<Rightarrow> nat \<Rightarrow> ('c, kube_node) mutation \<Rightarrow> versions \<Rightarrow> kube_node \<Rightarrow> kube_node \<Rightarrow> bool" where
  "good_write cached pending start mutate h prev n \<longleftrightarrow>
     (\<exists>base desired c c'. fresh_base cached pending start h base \<and> mutate c base = (c', Inr desired) \<and>
        overlaid base desired prev n \<and>
        (specChanged base desired \<longrightarrow> kn_ResourceVersion base \<noteq> [] \<longrightarrow> kn_ResourceVersion prev = kn_ResourceVersion base))"

lemma good_write_extend: "good_write cached pending start mutate h prev n \<Longrightarrow> good_write cached pending start mutate (h @ xs) prev n"
  unfolding good_write_def using fresh_base_extend by blast

text \<open>Every write of this patcher after the first \<^verbatim>\<open>start\<close> versions is good.\<close>

definition writes_good ::
  "kube_node option \<Rightarrow> string option \<Rightarrow> nat \<Rightarrow> ('c, kube_node) mutation \<Rightarrow> versions \<Rightarrow> bool" where
  "writes_good cached pending start mutate h \<longleftrightarrow>
     (\<forall>i < length h. start \<le> i \<longrightarrow> fst (h ! i) \<longrightarrow>
        0 < i \<and> good_write cached pending start mutate h (snd (h ! (i - 1))) (snd (h ! i)))"

lemma writes_good_others:
  assumes "writes_good cached pending start mutate h" and "by_others xs"
  shows "writes_good cached pending start mutate (h @ xs)"
  unfolding writes_good_def
proof (intro allI impI)
  fix i assume i: "i < length (h @ xs)" "start \<le> i" "fst ((h @ xs) ! i)"
  have "i < length h"
  proof (rule ccontr)
    assume "\<not> i < length h"
    then have "(h @ xs) ! i = xs ! (i - length h)" "i - length h < length xs" using i(1) by (auto simp: nth_append)
    with i(3) assms(2) show False by (simp add: by_others_def)
  qed
  then show "0 < i \<and> good_write cached pending start mutate (h @ xs) (snd ((h @ xs) ! (i - 1))) (snd ((h @ xs) ! i))"
    using i assms(1) good_write_extend unfolding writes_good_def by (fastforce simp: nth_append)
qed

lemma writes_good_own:
  assumes "writes_good cached pending start mutate h" and "h \<noteq> []"
    and "good_write cached pending start mutate h (snd (last h)) n"
  shows "writes_good cached pending start mutate (h @ [(True, n)])"
  unfolding writes_good_def
proof (intro allI impI)
  fix i assume i: "i < length (h @ [(True, n)])" "start \<le> i" "fst ((h @ [(True, n)]) ! i)"
  show "0 < i \<and> good_write cached pending start mutate (h @ [(True, n)]) (snd ((h @ [(True, n)]) ! (i - 1))) (snd ((h @ [(True, n)]) ! i))"
  proof (cases "i < length h")
    case True
    with i assms(1) good_write_extend show ?thesis unfolding writes_good_def by (fastforce simp: nth_append)
  next
    case False
    with i have "i = length h" by simp
    with assms(2) good_write_extend [OF assms(3)] show ?thesis by (simp add: nth_append last_conv_nth)
  qed
qed

section \<open>One attempt\<close>

definition patch_inv ::
  "('w \<Rightarrow> versions) \<Rightarrow> kube_node option \<Rightarrow> string option \<Rightarrow> versions \<Rightarrow> ('c, kube_node) mutation \<Rightarrow> ('w, 'c) patch_state \<Rightarrow> bool" where
  "patch_inv hist cached pending h0 mutate st \<longleftrightarrow>
     (\<exists>new. hist (ps_world st) = h0 @ new) \<and> writes_good cached pending (length h0) mutate (hist (ps_world st)) \<and>
     fresh_base cached pending (length h0) (hist (ps_world st)) (ps_current st)"

text \<open>What a successful attempt has done.\<close>

definition patch_done ::
  "('w \<Rightarrow> versions) \<Rightarrow> kube_node option \<Rightarrow> string option \<Rightarrow> versions \<Rightarrow> ('c, kube_node) mutation \<Rightarrow> ('w, 'c) patch_state \<Rightarrow> bool" where
  "patch_done hist cached pending h0 mutate st \<longleftrightarrow>
     (\<exists>base desired c. fresh_base cached pending (length h0) (hist (ps_world st)) base \<and>
        mutate c base = (ps_captured st, Inr desired) \<and>
        (if ps_changed st then
           \<exists>i. 0 < i \<and> length h0 \<le> i \<and> i < length (hist (ps_world st)) \<and> fst (hist (ps_world st) ! i) \<and>
             overlaid base desired (snd (hist (ps_world st) ! (i - 1))) (snd (hist (ps_world st) ! i))
         else same_fields base desired))"

lemma patch_inv_read:
  assumes "patch_inv hist cached pending h0 mutate st" and "reads_live api hist name"
    and "api_Get api (ps_world st) name = (w', r)"
  shows "patch_inv hist cached pending h0 mutate (st\<lparr>ps_world := w'\<rparr>)"
    and "r = Inr n \<Longrightarrow> patch_inv hist cached pending h0 mutate (st\<lparr>ps_world := w', ps_current := n\<rparr>)"
proof -
  from reads_liveE [OF assms(2,3)] obtain xs where xs: "by_others xs" "hist w' = hist (ps_world st) @ xs"
    and live: "r = Inr n \<Longrightarrow> hist w' \<noteq> [] \<and> n = snd (last (hist w'))" by blast
  from assms(1) obtain new where new: "hist (ps_world st) = h0 @ new"
    and good: "writes_good cached pending (length h0) mutate (hist (ps_world st))"
    and base: "fresh_base cached pending (length h0) (hist (ps_world st)) (ps_current st)" unfolding patch_inv_def by blast
  note ext = writes_good_others [OF good xs(1)] fresh_base_extend [OF base, of xs]
  show "patch_inv hist cached pending h0 mutate (st\<lparr>ps_world := w'\<rparr>)"
    using ext new by (simp add: patch_inv_def xs(2))
  show "patch_inv hist cached pending h0 mutate (st\<lparr>ps_world := w', ps_current := n\<rparr>)" if "r = Inr n"
    using ext(1) new fresh_base_last [of "hist w'"] live [OF that] by (simp add: patch_inv_def xs(2))
qed

lemma nth_snoc: "g \<noteq> [] \<Longrightarrow> (g @ [x]) ! length g = x \<and> (g @ [x]) ! (length g - 1) = last g"
  by (simp add: nth_append last_conv_nth)

lemma patch_inv_patch:
  assumes inv: "patch_inv hist cached pending h0 mutate st"
    and laws: "merge_patches create requires patched" "applies_patches requires patched api hist name"
    and m: "mutate c (ps_current st) = (c', Inr desired)"
    and p: "NodeMergePatch create (ps_current st) desired = Inr (Some q)"
    and call: "api_Patch api (ps_world st) name q = (w', r)"
  shows "patch_inv hist cached pending h0 mutate (st\<lparr>ps_world := w'\<rparr>)"
    and "r = Inr n \<Longrightarrow> \<exists>i. 0 < i \<and> length h0 \<le> i \<and> i < length (hist w') \<and> fst (hist w' ! i) \<and>
      overlaid (ps_current st) desired (snd (hist w' ! (i - 1))) (snd (hist w' ! i))"
proof -
  from inv obtain new where new: "hist (ps_world st) = h0 @ new"
    and good: "writes_good cached pending (length h0) mutate (hist (ps_world st))"
    and base: "fresh_base cached pending (length h0) (hist (ps_world st)) (ps_current st)" unfolding patch_inv_def by blast
  from laws(2) [unfolded applies_patches_def, THEN spec, THEN spec, THEN spec, THEN spec, THEN mp, OF call]
  obtain xs where xs: "by_others xs" and cases:
    "hist w' = hist (ps_world st) @ xs \<and> (\<forall>n. r \<noteq> Inr n) \<or>
      (\<exists>n. hist w' = hist (ps_world st) @ xs @ [(True, n)] \<and> hist (ps_world st) @ xs \<noteq> [] \<and>
         (\<forall>v. requires q = Some v \<longrightarrow> kn_ResourceVersion (snd (last (hist (ps_world st) @ xs))) = v) \<and>
         patched q (snd (last (hist (ps_world st) @ xs))) n \<and> (\<forall>m. r = Inr m \<longrightarrow> m = n))"
    by (elim exE conjE) (rule that)
  let ?h = "hist (ps_world st) @ xs"
  note good' = writes_good_others [OF good xs] and base' = fresh_base_extend [OF base, of xs]
  have both: "patch_inv hist cached pending h0 mutate (st\<lparr>ps_world := w'\<rparr>) \<and> (\<forall>n. r = Inr n \<longrightarrow>
      (\<exists>i. 0 < i \<and> length h0 \<le> i \<and> i < length (hist w') \<and> fst (hist w' ! i) \<and>
        overlaid (ps_current st) desired (snd (hist w' ! (i - 1))) (snd (hist w' ! i))))"
    using cases
  proof (elim disjE exE conjE)
    assume "hist w' = ?h" "\<forall>n. r \<noteq> Inr n"
    with good' base' new show ?thesis by (simp add: patch_inv_def)
  next
    fix n' assume h: "hist w' = hist (ps_world st) @ xs @ [(True, n')]" "?h \<noteq> []"
      and req: "\<forall>v. requires q = Some v \<longrightarrow> kn_ResourceVersion (snd (last ?h)) = v"
      and ap: "patched q (snd (last ?h)) n'"
    have over: "overlaid (ps_current st) desired (snd (last ?h)) n'"
      by (rule NodeMergePatch_meaning(2) [OF laws(1) p refl ap])
    moreover have "kn_ResourceVersion (snd (last ?h)) = kn_ResourceVersion (ps_current st)"
      if "specChanged (ps_current st) desired" "kn_ResourceVersion (ps_current st) \<noteq> []"
      using req NodeMergePatch_meaning(3) [OF laws(1) p refl that] by blast
    ultimately have "good_write cached pending (length h0) mutate ?h (snd (last ?h)) n'"
      unfolding good_write_def using base' m by blast
    from writes_good_own [OF good' h(2) this] have "writes_good cached pending (length h0) mutate (hist w')" by (simp add: h(1))
    moreover have "fresh_base cached pending (length h0) (hist w') (ps_current st)"
      using fresh_base_extend [OF base'] by (simp add: h(1))
    ultimately have "patch_inv hist cached pending h0 mutate (st\<lparr>ps_world := w'\<rparr>)" using new h(1) by (simp add: patch_inv_def)
    moreover have "hist w' ! length ?h = (True, n')" "hist w' ! (length ?h - 1) = last ?h"
      using nth_snoc [OF h(2), of "(True, n')"] h(1) by simp_all
    then have "0 < length ?h \<and> length h0 \<le> length ?h \<and> length ?h < length (hist w') \<and> fst (hist w' ! length ?h) \<and>
        overlaid (ps_current st) desired (snd (hist w' ! (length ?h - 1))) (snd (hist w' ! length ?h))"
      using over h new by simp
    ultimately show ?thesis by blast
  qed
  then show "patch_inv hist cached pending h0 mutate (st\<lparr>ps_world := w'\<rparr>)" by blast
  show "\<exists>i. 0 < i \<and> length h0 \<le> i \<and> i < length (hist w') \<and> fst (hist w' ! i) \<and>
      overlaid (ps_current st) desired (snd (hist w' ! (i - 1))) (snd (hist w' ! i))" if "r = Inr n"
    using both that by blast
qed


lemma patch_attempt_step:
  assumes inv: "patch_inv hist cached pending h0 mutate st" "\<not> ps_changed st"
    and laws: "merge_patches create requires patched" "applies_patches requires patched api hist name" "reads_live api hist name"
    and call: "patch_attempt api create name mutate st = (st', e)"
  shows "patch_inv hist cached pending h0 mutate st' \<and> (e \<noteq> None \<longrightarrow> \<not> ps_changed st') \<and>
    (e = None \<longrightarrow> patch_done hist cached pending h0 mutate st')"
proof -
  obtain c res where m: "mutate (ps_captured st) (ps_current st) = (c, res)" by (metis prod.exhaust)
  let ?st1 = "st\<lparr>ps_captured := c\<rparr>"
  have inv1: "patch_inv hist cached pending h0 mutate ?st1" using inv(1) by (simp add: patch_inv_def)
  have base: "fresh_base cached pending (length h0) (hist (ps_world st)) (ps_current st)" using inv(1) by (simp add: patch_inv_def)
  consider (mutate_error) e0 where "res = Inl e0"
    | (patch_error) d e0 where "res = Inr d" "NodeMergePatch create (ps_current st) d = Inl e0"
    | (unchanged) d where "res = Inr d" "NodeMergePatch create (ps_current st) d = Inr None"
    | (patch) d q where "res = Inr d" "NodeMergePatch create (ps_current st) d = Inr (Some q)"
    by (cases res) (auto, metis not_Some_eq sum.exhaust)
  then show ?thesis
  proof cases
    case mutate_error
    then have "st' = ?st1" "e \<noteq> None" using call m by (auto simp: patch_attempt_def)
    with inv1 inv(2) show ?thesis by auto
  next
    case patch_error
    then have "st' = ?st1" "e \<noteq> None" using call m by (auto simp: patch_attempt_def)
    with inv1 inv(2) show ?thesis by auto
  next
    case unchanged
    then have "st' = ?st1" "e = None" using call m by (auto simp: patch_attempt_def)
    moreover have "patch_done hist cached pending h0 mutate ?st1"
      unfolding patch_done_def using base m unchanged inv(2) NodeMergePatch_meaning(1) [OF laws(1) unchanged(2) refl] by auto
    ultimately show ?thesis using inv1 by simp
  next
    case patch
    obtain w r where w: "api_Patch api (ps_world st) name q = (w, r)" by (metis prod.exhaust)
    note m' = m [unfolded patch(1)]
    note inv2 = patch_inv_patch(1) [OF inv1 laws(1,2), of _ _ _ q w r] and wrote = patch_inv_patch(2) [OF inv1 laws(1,2), of _ _ _ q w r]
    have i2: "patch_inv hist cached pending h0 mutate (?st1\<lparr>ps_world := w\<rparr>)"
      by (rule inv2) (use m' patch(2) w in simp_all)
    show ?thesis
    proof (cases r)
      case (Inr n)
      then have st': "ps_world st' = w" "ps_current st' = ps_current st" "ps_captured st' = c" "ps_changed st'" "e = None"
        using call m' patch w by (auto simp: patch_attempt_def Let_def)
      have "\<exists>i. 0 < i \<and> length h0 \<le> i \<and> i < length (hist w) \<and> fst (hist w ! i) \<and>
          overlaid (ps_current st) d (snd (hist w ! (i - 1))) (snd (hist w ! i))"
        using wrote [of "ps_captured st" c d n] m' patch(2) w Inr by simp
      moreover have "fresh_base cached pending (length h0) (hist w) (ps_current st)" using i2 by (simp add: patch_inv_def)
      ultimately have "patch_done hist cached pending h0 mutate st'"
        unfolding patch_done_def using m' st' by (intro exI [of _ "ps_current st"] exI [of _ d] exI [of _ "ps_captured st"]) auto
      with i2 st' show ?thesis by (simp add: patch_inv_def)
    next
      case (Inl err)
      show ?thesis
      proof (cases "IsConflict err")
        case False
        with Inl have "st' = ?st1\<lparr>ps_world := w\<rparr>" "e \<noteq> None" using call m' patch w by (auto simp: patch_attempt_def Let_def)
        with i2 inv(2) show ?thesis by auto
      next
        case True
        obtain w2 g where g: "api_Get api w name = (w2, g)" by (metis prod.exhaust)
        note r = patch_inv_read [OF i2 laws(3), of w2 g]
        show ?thesis
        proof (cases g)
          case (Inl e1)
          with True \<open>r = Inl err\<close> g have "st' = ?st1\<lparr>ps_world := w2\<rparr>" "e \<noteq> None"
            using call m' patch w by (auto simp: patch_attempt_def Let_def)
          with r(1) g inv(2) show ?thesis by auto
        next
          case (Inr n)
          with True \<open>r = Inl err\<close> g have "st' = ?st1\<lparr>ps_world := w2, ps_current := n\<rparr>" "e \<noteq> None"
            using call m' patch w by (auto simp: patch_attempt_def Let_def)
          with r(2) [of n] g Inr inv(2) show ?thesis by auto
        qed
      qed
    qed
  qed
qed

section \<open>The whole call\<close>

lemma retried_pair:
  assumes "retried R (\<lambda>(s, _). let (s', e) = fn s in ((s', e), e)) sl sl' e"
  shows "retried R fn (fst sl) (fst sl') e \<and> snd sl' = e"
  using assms
proof induction
  case (finished s s' e)
  obtain a b x y where "s = (a, b)" "fn a = (x, y)" by (metis prod.exhaust)
  with finished show ?case by (auto intro: retried.finished)
next
  case (again s s1 e1 s' e)
  obtain a b x y where "s = (a, b)" "fn a = (x, y)" by (metis prod.exhaust)
  with again show ?case by (auto intro: retried.again)
qed

lemma RetryNodePatch_retried:
  assumes "retry_contract onError" and "RetryNodePatch onError lost fn s = (s', err)"
  shows "\<exists>e. retried (IsRetryableNodePatchError lost) fn s s' e \<and> (err = None \<longrightarrow> e = None)"
proof -
  let ?fn = "\<lambda>(s, _). let (s', e) = fn s in ((s', e), e)"
  define r where "r = onError (IsRetryableNodePatchError lost) ?fn (s, None)"
  obtain s1 l1 e1 where "r = ((s1, l1), e1)" by (metis prod.exhaust)
  with r_def have run: "onError (IsRetryableNodePatchError lost) ?fn (s, None) = ((s1, l1), e1)" by simp
  from assms(1) [unfolded retry_contract_def, rule_format, OF run]
  obtain e where "retried (IsRetryableNodePatchError lost) ?fn (s, None) (s1, l1) e" by (elim exE conjE) (rule that)
  from retried_pair [OF this] run assms(2) show ?thesis
    unfolding RetryNodePatch_def by (auto split: if_splits)
qed

lemma patch_loop:
  assumes "retried R (patch_attempt api create name mutate) st st' e"
    and "patch_inv hist cached pending h0 mutate st" "\<not> ps_changed st"
    and laws: "merge_patches create requires patched" "applies_patches requires patched api hist name" "reads_live api hist name"
  shows "patch_inv hist cached pending h0 mutate st' \<and> (e = None \<longrightarrow> patch_done hist cached pending h0 mutate st')"
  using assms(1-3)
proof induction
  case (finished s s' e)
  from patch_attempt_step [OF finished.prems laws finished.hyps] show ?case by blast
next
  case (again s s1 e1 s' e)
  from patch_attempt_step [OF again.prems laws again.hyps(1)] again.IH show ?case by simp
qed

text \<open>Before the first base is read, only other writers have acted.\<close>

lemma read_loop:
  assumes "retried R (currentNode api name cached) st st' e"
    and "\<exists>new. hist (ps_world st) = h0 @ new \<and> by_others new" "map_of (pendingVersions st) name = pending"
    and live: "reads_live api hist name"
  shows "(\<exists>new. hist (ps_world st') = h0 @ new \<and> by_others new) \<and>
    (e = None \<longrightarrow> fresh_base cached pending (length h0) (hist (ps_world st')) (ps_current st'))"
proof -
  have step: "(\<exists>new. hist (ps_world s') = h0 @ new \<and> by_others new) \<and>
      (e = None \<longrightarrow> fresh_base cached pending (length h0) (hist (ps_world s')) (ps_current s')) \<and>
      (e \<noteq> None \<longrightarrow> map_of (pendingVersions s') name = pending)"
    if call: "currentNode api name cached s = (s', e)"
      and new: "\<exists>new. hist (ps_world s) = h0 @ new \<and> by_others new" and pend: "map_of (pendingVersions s) name = pending" for s s' e
  proof -
    obtain w g where g: "api_Get api (ps_world s) name = (w, g)" by (metis prod.exhaust)
    from reads_liveE [OF live g] obtain xs where xs: "by_others xs" "hist w = hist (ps_world s) @ xs"
      and latest: "\<And>n. g = Inr n \<Longrightarrow> hist w \<noteq> [] \<and> n = snd (last (hist w))" by blast
    from new xs have neww: "\<exists>new. hist w = h0 @ new \<and> by_others new" by (auto simp: by_others_def)
    have at: "fresh_base cached pending (length h0) (hist w) n" if "g = Inr n" for n
      using fresh_base_last [of "hist w"] latest [OF that] neww by auto
    consider (failed) e' where "g = Inl e'" "ps_world s' = w" "e \<noteq> None" "pendingVersions s' = pendingVersions s"
      | (fetched) n where "g = Inr n" "ps_world s' = w" "ps_current s' = n" "e = None"
      | (cached) n where "cached = Some n" "ps_world s' = ps_world s" "ps_current s' = n" "e = None"
          "pending = None \<or> pending = Some (kn_ResourceVersion n)"
      using call g pend unfolding currentNode_def Let_def
      by (auto split: option.splits if_splits sum.splits)
    then show ?thesis
    proof cases
      case cached
      then have "fresh_base cached pending (length h0) (hist (ps_world s')) (ps_current s')" by (simp add: fresh_base_def)
      with new cached show ?thesis by simp
    qed (use neww at pend in auto)
  qed
  from assms(1-3) show ?thesis
  proof induction
    case (finished s s' e)
    from step [OF finished.hyps finished.prems] show ?case by blast
  next
    case (again s s1 e1 s' e)
    from step [OF again.hyps(1) again.prems] again.IH show ?case by simp
  qed
qed

lemma Patch_guarded:
  assumes "merge_patches create requires patched" and "applies_patches requires patched api hist name"
    and "reads_live api hist name" and "retry_contract onError"
    and "Patch onError lost api create name cached mutate st = (st', result)"
    and "h0 = hist (ps_world st)" and "h = hist (ps_world st')" and "pending = map_of (pendingVersions st) name"
  shows "(\<exists>new. h = h0 @ new) \<and> writes_good cached pending (length h0) mutate h \<and>
    (\<forall>changed. result = Inr changed \<longrightarrow>
      (\<exists>base desired c. fresh_base cached pending (length h0) h base \<and> mutate c base = (ps_captured st', Inr desired) \<and>
        (if changed then \<exists>i. 0 < i \<and> length h0 \<le> i \<and> i < length h \<and> fst (h ! i) \<and> overlaid base desired (snd (h ! (i - 1))) (snd (h ! i))
         else same_fields base desired)))"
proof -
  obtain st1 e1 where one: "RetryNodePatch onError lost (currentNode api name cached) st = (st1, e1)" by (metis prod.exhaust)
  from RetryNodePatch_retried [OF assms(4) one] obtain e where
    r1: "retried (IsRetryableNodePatchError lost) (currentNode api name cached) st st1 e" "e1 = None \<longrightarrow> e = None" by blast
  from read_loop [OF r1(1), of hist h0 pending] assms have
    s1: "\<exists>new. hist (ps_world st1) = h0 @ new \<and> by_others new"
      "e1 = None \<Longrightarrow> fresh_base cached pending (length h0) (hist (ps_world st1)) (ps_current st1)"
    using r1(2) by (auto simp: by_others_def)
  have start: "writes_good cached pending (length h0) mutate h0" by (simp add: writes_good_def)
  have good1: "writes_good cached pending (length h0) mutate (hist (ps_world st1))"
    using s1(1) writes_good_others [OF start] by auto
  show ?thesis
  proof (cases e1)
    case (Some x)
    with assms(5) one have "st' = st1" "result = Inl x" by (simp_all add: Patch_def)
    with s1(1) good1 assms(7) show ?thesis by auto
  next
    case None
    let ?st1 = "st1\<lparr>ps_changed := False\<rparr>"
    have inv: "patch_inv hist cached pending h0 mutate ?st1" using s1 good1 None by (auto simp: patch_inv_def)
    obtain st2 e2 where two: "RetryNodePatch onError lost (patch_attempt api create name mutate) ?st1 = (st2, e2)" by (metis prod.exhaust)
    from RetryNodePatch_retried [OF assms(4) two] obtain e' where
      r2: "retried (IsRetryableNodePatchError lost) (patch_attempt api create name mutate) ?st1 st2 e'" "e2 = None \<longrightarrow> e' = None" by blast
    have st2: "st' = st2" "result = (case e2 of None \<Rightarrow> Inr (ps_changed st2) | Some x \<Rightarrow> Inl x)"
      using assms(5) one None two by (auto simp: Patch_def split: option.splits)
    from patch_loop [OF r2(1) inv _ assms(1-3)] r2(2)
    have fin: "patch_inv hist cached pending h0 mutate st2" "e2 = None \<Longrightarrow> patch_done hist cached pending h0 mutate st2" by auto
    show ?thesis
    proof (intro conjI allI impI)
      show "\<exists>new. h = h0 @ new" "writes_good cached pending (length h0) mutate h"
        using fin(1) assms(7) st2(1) by (simp_all add: patch_inv_def)
      fix changed assume "result = Inr changed"
      with st2 fin(2) have "patch_done hist cached pending h0 mutate st2" "changed = ps_changed st2" by (auto split: option.splits)
      then show "\<exists>base desired c. fresh_base cached pending (length h0) h base \<and> mutate c base = (ps_captured st', Inr desired) \<and>
        (if changed then \<exists>i. 0 < i \<and> length h0 \<le> i \<and> i < length h \<and> fst (h ! i) \<and> overlaid base desired (snd (h ! (i - 1))) (snd (h ! i))
         else same_fields base desired)"
        unfolding assms(7) st2(1) patch_done_def by (simp only:)
    qed
  qed
qed

text \<open>
  C21. However other writers interleave and whatever fails, every version that a patch of a node
  commits is the version before it with just those labels and annotations replaced that the
  mutation changed in its base, and with taints and cordon either left alone or computed from
  exactly the version before it. The base is the cached node only if it shows the patcher's last
  write, otherwise a version that was current during the call. A nil error is returned only if the last
  mutation was committed, or changed nothing.
\<close>

theorem node_patch_guarded:
  assumes "merge_patches create requires patched" and "applies_patches requires patched api hist name"
    and "reads_live api hist name" and "retry_contract onError"
    and "Patch onError lost api create name cached mutate st = (st', result)"
    and "h0 = hist (ps_world st)" and "h = hist (ps_world st')" and "pending = map_of (pendingVersions st) name"
  shows "(\<exists>new. h = h0 @ new) \<and> writes_good cached pending (length h0) mutate h \<and>
    (\<forall>changed. result = Inr changed \<longrightarrow>
      (\<exists>base desired c. fresh_base cached pending (length h0) h base \<and> mutate c base = (ps_captured st', Inr desired) \<and>
        (if changed then \<exists>i. 0 < i \<and> length h0 \<le> i \<and> i < length h \<and> fst (h ! i) \<and> overlaid base desired (snd (h ! (i - 1))) (snd (h ! i))
         else same_fields base desired)))"
  using assms by (rule Patch_guarded)

section \<open>A server with one node\<close>

text \<open>
  Patches of the cordon alone, written as a letter and the required version; other differences are
  refused. The world is the history of the one node.
\<close>

definition cordon_patch :: create_patch where
  "cordon_patch old new =
     (if pd_labels old = pd_labels new \<and> pd_annotations old = pd_annotations new \<and> pd_taints old = pd_taints new \<and>
         pd_resourceVersion old = None then
        (if pd_unschedulable old = pd_unschedulable new then
           (if pd_resourceVersion new = None then Inr ''{}'' else Inl (EText ''unsupported''))
         else case pd_resourceVersion new of
             None \<Rightarrow> Inl (EText ''unsupported'')
           | Some v \<Rightarrow> if v = [] then Inl (EText ''unsupported'')
               else Inr ((if pd_unschedulable new = Some True then CHR ''c'' else CHR ''u'') # v))
      else Inl (EText ''unsupported''))"

definition cordon_requires :: "string \<Rightarrow> string option" where
  "cordon_requires p = (if p = ''{}'' then None else Some (tl p))"

definition cordon_patched :: "string \<Rightarrow> kube_node \<Rightarrow> kube_node \<Rightarrow> bool" where
  "cordon_patched p live result \<longleftrightarrow>
     (\<exists>v. result = live\<lparr>kn_ResourceVersion := v, kn_Unschedulable := (if p = ''{}'' then kn_Unschedulable live else hd p = CHR ''c'')\<rparr>)"

definition one_node_api :: "versions nodes_api" where
  "one_node_api = \<lparr>
     api_Get = (\<lambda>h name. (h, if h = [] then Inl (EStatus ''NotFound'') else Inr (snd (last h)))),
     api_Patch = (\<lambda>h name p.
       if h = [] then (h, Inl (EStatus ''NotFound''))
       else let live = snd (last h) in
         if cordon_requires p \<noteq> None \<and> cordon_requires p \<noteq> Some (kn_ResourceVersion live)
         then (h, Inl (EStatus ''Conflict''))
         else let n = live\<lparr>kn_ResourceVersion := kn_ResourceVersion live @ ''0'',
                 kn_Unschedulable := (if p = ''{}'' then kn_Unschedulable live else hd p = CHR ''c'')\<rparr>
              in (h @ [(True, n)], Inr n))\<rparr>"

fun retry_steps :: "nat \<Rightarrow> 's retry_on_error" where
  "retry_steps 0 retriable fn s = fn s"
| "retry_steps (Suc k) retriable fn s =
     (case fn s of (s', e) \<Rightarrow> (case e of None \<Rightarrow> (s', None)
        | Some err \<Rightarrow> if retriable err then retry_steps k retriable fn s' else (s', Some err)))"

lemma retry_steps_contract: "retry_contract (retry_steps k)"
proof -
  have "\<exists>e. retried retriable fn s s' e \<and> (e = None \<longrightarrow> err = None)" if "retry_steps k retriable fn s = (s', err)" for retriable fn s s' err
    using that
  proof (induction k arbitrary: s)
    case 0
    then show ?case by (intro exI [of _ err]) (simp add: retried.finished)
  next
    case (Suc k)
    obtain s1 e1 where one: "fn s = (s1, e1)" by (metis prod.exhaust)
    show ?case
    proof (cases "\<exists>x. e1 = Some x \<and> retriable x")
      case True
      then obtain x where x: "e1 = Some x" "retriable x" by blast
      with Suc.prems one have "retry_steps k retriable fn s1 = (s', err)" by simp
      from Suc.IH [OF this] retried.again [of fn s s1 x retriable, OF one [unfolded x(1)] x(2)] show ?thesis by blast
    next
      case False
      with Suc.prems one have "s' = s1" "err = e1" by (auto split: option.splits if_splits)
      with retried.finished [of fn s s1 e1 retriable, OF one] show ?thesis by blast
    qed
  qed
  then show ?thesis unfolding retry_contract_def by blast
qed

lemma cordon_merge_patches: "merge_patches cordon_patch cordon_requires cordon_patched"
  unfolding merge_patches_def cordon_patch_def
  by (auto simp: same_document_def document_patched_def map_patched_def cordon_requires_def cordon_patched_def
      split: if_splits option.splits)

lemma one_node_reads: "reads_live one_node_api id name"
  unfolding reads_live_def one_node_api_def by (auto simp: by_others_def split: if_splits)

lemma one_node_patches: "applies_patches cordon_requires cordon_patched one_node_api id name"
  unfolding applies_patches_def
proof (intro allI impI)
  fix h h' p r assume call: "api_Patch one_node_api h name p = (h', r)"
  let ?n = "snd (last h)\<lparr>kn_ResourceVersion := kn_ResourceVersion (snd (last h)) @ ''0'',
    kn_Unschedulable := (if p = ''{}'' then kn_Unschedulable (snd (last h)) else hd p = CHR ''c'')\<rparr>"
  have "h' = h \<and> (\<forall>n. r \<noteq> Inr n) \<or>
      h' = h @ [(True, ?n)] \<and> h \<noteq> [] \<and> (cordon_requires p = None \<or> cordon_requires p = Some (kn_ResourceVersion (snd (last h)))) \<and> r = Inr ?n"
    using call unfolding one_node_api_def Let_def by (auto split: if_splits)
  moreover have "cordon_patched p (snd (last h)) ?n" unfolding cordon_patched_def by blast
  ultimately show "\<exists>xs. by_others xs \<and> (id h' = id h @ xs \<and> (\<forall>n. r \<noteq> Inr n) \<or>
      (\<exists>n. id h' = id h @ xs @ [(True, n)] \<and> id h @ xs \<noteq> [] \<and>
        (\<forall>v. cordon_requires p = Some v \<longrightarrow> kn_ResourceVersion (snd (last (id h @ xs))) = v) \<and>
        cordon_patched p (snd (last (id h @ xs))) n \<and> (\<forall>m. r = Inr m \<longrightarrow> m = n)))"
    by (intro exI [of _ "[]"]) (auto simp: by_others_def)
qed

text \<open>The cache misses the label that another controller has added.\<close>

definition stale_node :: kube_node where
  "stale_node = \<lparr>kn_Name = ''a'', kn_ResourceVersion = ''1'', kn_Labels = None, kn_Annotations = None, kn_Taints = [], kn_Unschedulable = False\<rparr>"

definition live_node :: kube_node where
  "live_node = stale_node\<lparr>kn_ResourceVersion := ''2'', kn_Labels := Some [(''zone'', ''b'')]\<rparr>"

definition cordon_mutation :: "(unit, kube_node) mutation" where
  "cordon_mutation c n = (c, Inr (n\<lparr>kn_Unschedulable := True\<rparr>))"

definition stale_start :: "(versions, unit) patch_state" where
  "stale_start = \<lparr>ps_world = [(False, stale_node), (False, live_node)], pendingVersions = [], ps_current = stale_node, ps_changed = False, ps_captured = ()\<rparr>"

definition cordon_result :: "(versions, unit) patch_state \<times> (error + bool)" where
  "cordon_result = Patch (retry_steps 9) (\<lambda>_. False) one_node_api cordon_patch ''a'' (Some stale_node) cordon_mutation stale_start"

lemma cordon_result_value:
  "snd cordon_result = Inr True \<and> ps_world (fst cordon_result) =
     [(False, stale_node), (False, live_node), (True, live_node\<lparr>kn_ResourceVersion := ''20'', kn_Unschedulable := True\<rparr>)]"
  by code_simp

theorem node_patch_guarded_witness:
  "writes_good (Some stale_node) None 2 cordon_mutation
     [(False, stale_node), (False, live_node), (True, live_node\<lparr>kn_ResourceVersion := ''20'', kn_Unschedulable := True\<rparr>)] \<and>
   (\<exists>base desired. fresh_base (Some stale_node) None 2
     [(False, stale_node), (False, live_node), (True, live_node\<lparr>kn_ResourceVersion := ''20'', kn_Unschedulable := True\<rparr>)] base \<and>
     cordon_mutation () base = ((), Inr desired))"
proof -
  have run: "Patch (retry_steps 9) (\<lambda>_. False) one_node_api cordon_patch ''a'' (Some stale_node) cordon_mutation stale_start =
      (fst cordon_result, Inr True)"
    using cordon_result_value by (simp add: cordon_result_def prod_eq_iff)
  from node_patch_guarded [OF cordon_merge_patches one_node_patches one_node_reads retry_steps_contract run refl refl refl]
  show ?thesis using cordon_result_value by (auto simp: stale_start_def numeral_2_eq_2)
qed

end
