(* ===== verification/Session_Properties.thy ===== *)
theory Session_Properties
  imports Session_Laws Patch_Properties
begin

text \<open>
  A quarantine session as a whole: the steps that may change a node during it, that releasing the
  node gives it back as it was, and that it is released only when no tracked failure is left.
\<close>

section \<open>The steps of a session\<close>

text \<open>
  \<^verbatim>\<open>n0\<close> is the node before the session and \<^verbatim>\<open>n\<close> the node now. Each step writes what the handler computed
  for the node as it is: the first quarantine (\<^verbatim>\<open>applyQuarantine\<close>), the actions of a later fault
  (\<^verbatim>\<open>applyRuleActionsForEvent\<close>), tracking one more failure, the recovery of some, and changes by others that
  leave taints, cordon and the record alone. The taints that the matching rules ask for have different
  keys or effects, and at the first quarantine the node has none of them with another value.
\<close>

inductive session :: "('w, 'doc) Reconciler \<Rightarrow> kube_node \<Rightarrow> kube_node \<Rightarrow> bool" for r n0 where
  before: "distinct (map nt_identity (kn_Taints n0)) \<Longrightarrow> list_all (\<lambda>k. ann n0 k = None) recording_keys \<Longrightarrow> session r n0 n0"
| first: "session r n0 n \<Longrightarrow> list_all (\<lambda>k. ann n k = None) recording_keys \<Longrightarrow>
    evaluateRulesets sched ctx (rc_isEvaluationError r) (rc_keys r) cfg event evals (init_collected (taintInitKeys r)) = (col, err) \<Longrightarrow>
    taints = collectTaintsToApply (taintAppliedMap col) \<Longrightarrow> list_all (\<lambda>t. \<not> conflicts (node_view n) t) taints \<Longrightarrow>
    distinct (map t_identity taints) \<Longrightarrow>
    prepareAnnotations (qc_lists (rc_codec r)) now (rc_keys r) (node_view n) taints (collectLabelsToApply (appliedLabelsMap col)) col = (col', taints', a1) \<Longrightarrow>
    marshal_taints (qc_lists (rc_codec r)) taints' = Inr body \<Longrightarrow>
    addHealthEventAnnotation (rc_codec r) he a1 = Inr a2 \<Longrightarrow> updateValidationAnnotation r event a2 = Inr a3 \<Longrightarrow>
    quarantine_update (rc_client r) (rc_codec r) taints' (isCordoned col) a3 (labelsMap col') cap n = (cap', Inr n') \<Longrightarrow> session r n0 n'"
| later: "session r n0 n \<Longrightarrow>
    evaluateSessionActions (qc_lists (rc_codec r)) (taintInitKeys r) sched ctx (rc_isEvaluationError r) (rc_keys r) cfg event evals = (required, err) \<Longrightarrow>
    distinct (map t_identity (sa_taints required)) \<Longrightarrow>
    buildSessionActionUpdate (qc_lists (rc_codec r)) (rc_DryRun r) now (rc_keys r) (node_view n) required = Inr u \<Longrightarrow>
    quarantine_update (rc_client r) (rc_codec r) (sa_taints u) (sa_cordon u) (sa_annotations u) (sa_labels u) cap n = (cap', Inr n') \<Longrightarrow>
    session r n0 n'"
| tracked: "session r n0 n \<Longrightarrow> add_event_update r ctx event cap n = (cap', Inr n') \<Longrightarrow> session r n0 n'"
| recovered: "session r n0 n \<Longrightarrow> remove_event_update r ctx event cap n = (cap', Inr n') \<Longrightarrow> session r n0 n'"
| elsewhere: "session r n0 n \<Longrightarrow> keeps_record n n' \<Longrightarrow> session r n0 n'"

lemma validation_annotation_keeps:
  assumes "updateValidationAnnotation r event m = Inr m'"
  shows "k \<noteq> ValidationEventKey \<Longrightarrow> map_of m' k = map_of m k" and "distinct (map fst m) \<Longrightarrow> distinct (map fst m')"
  using assms by (auto simp: updateValidationAnnotation_def update_conv' distinct_update split: option.splits sum.splits if_splits)

lemma health_annotation_keeps:
  assumes "addHealthEventAnnotation qc he m = Inr m'"
  shows "k \<noteq> QuarantineHealthEventAnnotationKey \<Longrightarrow> map_of m' k = map_of m k" and "distinct (map fst m) \<Longrightarrow> distinct (map fst m')"
  using assms by (auto simp: addHealthEventAnnotation_def update_conv' distinct_update split: sum.splits)

lemma recording_keys_apart:
  assumes "k \<in> set recording_keys"
  shows "k \<noteq> QuarantineHealthEventAnnotationKey" "k \<noteq> ValidationEventKey" "k \<noteq> DryRunKey" "k \<noteq> AppliedLabelsKey"
  using assms by (auto simp: recording_keys_def annotation_keys QuarantineHealthEventAnnotationKey_def ValidationEventKey_def)

lemma recording_keys_members: "AppliedTaintsKey \<in> set recording_keys" "IsCordonedKey \<in> set recording_keys" "CordonPreExistingKey \<in> set recording_keys"
  by (simp_all add: recording_keys_def)

lemma tracked_keeps_record: "add_event_update r ctx event cap n = (cap', Inr n') \<Longrightarrow> keeps_record n n'"
proof -
  assume upd: "add_event_update r ctx event cap n = (cap', Inr n')"
  let ?m = "if rc_DryRun r then entries (kn_Annotations n) else AList.delete DryRunKey (entries (kn_Annotations n))"
  from upd obtain m' where n': "n' = n\<lparr>kn_Annotations := Some m'\<rparr>"
    and m': "m' = ?m \<or> (\<exists>body. updateValidationAnnotation r event (AList.update QuarantineHealthEventAnnotationKey body ?m) = Inr m')"
    unfolding add_event_update_def Let_def by (auto split: sum.splits prod.splits if_splits)
  have "ann n' k = ann n k" if k: "k \<in> set recording_keys" for k
  proof -
    have "map_of ?m k = ann n k" using recording_keys_apart [OF k] by (simp add: ann_def delete_conv')
    moreover have "map_of m' k = map_of ?m k" using m'
    proof (elim disjE exE)
      fix body assume "updateValidationAnnotation r event (AList.update QuarantineHealthEventAnnotationKey body ?m) = Inr m'"
      from validation_annotation_keeps(1) [OF this recording_keys_apart(2) [OF k]] recording_keys_apart(1) [OF k]
      show ?thesis by (simp add: update_conv')
    qed simp
    ultimately show ?thesis by (simp add: n' ann_def)
  qed
  then show ?thesis by (simp add: keeps_record_def n')
qed

lemma recovered_keeps_record: "remove_event_update r ctx event cap n = (cap', Inr n') \<Longrightarrow> keeps_record n n'"
proof -
  assume upd: "remove_event_update r ctx event cap n = (cap', Inr n')"
  then have "n' = n \<or> (\<exists>body. n' = n\<lparr>kn_Annotations := Some (AList.update QuarantineHealthEventAnnotationKey body (entries (kn_Annotations n)))\<rparr>)"
    unfolding remove_event_update_def Let_def by (auto split: sum.splits prod.splits if_splits)
  then show ?thesis by (auto simp: keeps_record_def ann_def update_conv' dest: recording_keys_apart(1))
qed

section \<open>The steps keep the invariant\<close>

lemma node_view_simps [simp]:
  "qn_Annotations (node_view n) = entries (kn_Annotations n)" "qn_Taints (node_view n) = kn_Taints n"
  "qn_Unschedulable (node_view n) = kn_Unschedulable n"
  by (simp_all add: node_view_def)

lemma as_node_taint_iff: "m = as_node_taint t \<longleftrightarrow> nt_Key m = t_Key t \<and> nt_Effect m = t_Effect t \<and> nt_Value m = t_Value t"
  by (cases m) (auto simp: as_node_taint_def)

lemma on_node_view: "on_node (node_view n) t \<longleftrightarrow> as_node_taint t \<in> set (kn_Taints n)"
  unfolding on_node_def node_view_simps as_node_taint_iff [symmetric] by blast

lemma conflicts_view: "\<not> conflicts (node_view n) t \<longleftrightarrow>
    (\<forall>m \<in> set (kn_Taints n). nt_identity m = t_identity t \<longrightarrow> m = as_node_taint t)"
  unfolding conflicts_def node_view_simps as_node_taint_iff nt_identity_def t_identity_def by blast

lemma collected_taints_new: "t \<in> set (collectTaintsToApply m) \<Longrightarrow> \<not> t_PreExisting t"
  by (auto simp: collectTaintsToApply_def)

lemma markPreExisting_eq:
  "markPreExistingTaints (node_view n) ts = map (\<lambda>t. if as_node_taint t \<in> set (kn_Taints n) then t\<lparr>t_PreExisting := True\<rparr> else t) ts"
proof -
  have "list_ex (\<lambda>m. nt_Key m = t_Key t \<and> nt_Value m = t_Value t \<and> nt_Effect m = t_Effect t) (qn_Taints (node_view n)) \<longleftrightarrow>
      as_node_taint t \<in> set (kn_Taints n)" for t
    using on_node_view [of n t] by (auto simp: list_ex_iff on_node_def)
  then show ?thesis unfolding markPreExistingTaints_def by simp
qed

lemma marked_taint [simp]:
  "t_identity (t\<lparr>t_PreExisting := b\<rparr>) = t_identity t" "as_node_taint (t\<lparr>t_PreExisting := b\<rparr>) = as_node_taint t"
  by (simp_all add: t_identity_def as_node_taint_def)

lemma recorded_cordon:
  fixes cordon off m
  assumes "map_of m AppliedTaintsKey = t" "map_of m IsCordonedKey = None" "map_of m CordonPreExistingKey = None" "distinct (map fst m)"
  defines "m' \<equiv> (if cordon then
      if off then AList.update CordonPreExistingKey ''True'' (AList.update IsCordonedKey ''True'' m)
      else AList.update IsCordonedKey ''True'' m else m)"
  shows "map_of m' AppliedTaintsKey = t" "map_of m' IsCordonedKey = (if cordon then Some ''True'' else None)"
    "map_of m' CordonPreExistingKey = (if cordon \<and> off then Some ''True'' else None)" "distinct (map fst m')"
  using assms by (auto simp: update_conv' distinct_update annotation_keys simp del: map_of_eq_Some_iff)

lemma prepared_annotations:
  assumes "prepareAnnotations js now ks (node_view n) taints labels col = (col', taints', a)" and "marshal_taints js taints' = Inr body"
  shows "taints' = map (\<lambda>t. if as_node_taint t \<in> set (kn_Taints n) then t\<lparr>t_PreExisting := True\<rparr> else t) taints"
    and "map_of a AppliedTaintsKey = (if taints' = [] then None else Some body)"
    and "map_of a IsCordonedKey = (if isCordoned col then Some ''True'' else None)"
    and "map_of a CordonPreExistingKey = (if isCordoned col \<and> kn_Unschedulable n then Some ''True'' else None)"
    and "distinct (map fst a)"
proof -
  let ?t = "if taints \<noteq> [] then markPreExistingTaints (node_view n) taints else taints"
  let ?a1 = "if taints \<noteq> [] then [(AppliedTaintsKey, body)] else []"
  let ?a2 = "if labels \<noteq> [] then (case marshal_labels js labels of Inl _ \<Rightarrow> ?a1 | Inr txt \<Rightarrow> AList.update AppliedLabelsKey txt ?a1) else ?a1"
  from assms(1) have t: "taints' = ?t" by (auto simp: prepareAnnotations_def Let_def split: prod.splits if_splits)
  then show "taints' = map (\<lambda>t. if as_node_taint t \<in> set (kn_Taints n) then t\<lparr>t_PreExisting := True\<rparr> else t) taints"
    by (simp add: markPreExisting_eq)
  then have empty: "taints' = [] \<longleftrightarrow> taints = []" by simp
  from assms(2) have m: "marshal_taints js ?t = Inr body" unfolding t .
  have a: "a = (if isCordoned col then
      if kn_Unschedulable n then AList.update CordonPreExistingKey ''True'' (AList.update IsCordonedKey ''True'' ?a2)
      else AList.update IsCordonedKey ''True'' ?a2 else ?a2)"
    using assms(1) m by (cases "marshal_labels js labels"; cases "taints = []") (auto simp: prepareAnnotations_def Let_def split: if_splits)
  have a2: "map_of ?a2 AppliedTaintsKey = (if taints = [] then None else Some body)" "map_of ?a2 IsCordonedKey = None"
    "map_of ?a2 CordonPreExistingKey = None" "distinct (map fst ?a2)"
    by (auto simp: annotation_keys split: sum.splits)
  show "map_of a AppliedTaintsKey = (if taints' = [] then None else Some body)"
    "map_of a IsCordonedKey = (if isCordoned col then Some ''True'' else None)"
    "map_of a CordonPreExistingKey = (if isCordoned col \<and> kn_Unschedulable n then Some ''True'' else None)" "distinct (map fst a)"
    unfolding empty by (simp_all only: a recorded_cordon [OF a2])
qed

lemma first_keeps_inv:
  assumes inv: "session_inv (rc_codec r) n0 n R X" and codec: "taint_codec_ok (rc_codec r)" and "\<not> DryRunMode (rc_client r)"
    and none: "list_all (\<lambda>k. ann n k = None) recording_keys"
    and clash: "list_all (\<lambda>t. \<not> conflicts (node_view n) t) taints" and ids: "distinct (map t_identity taints)"
    and new: "\<And>t. t \<in> set taints \<Longrightarrow> \<not> t_PreExisting t"
    and prep: "prepareAnnotations (qc_lists (rc_codec r)) now ks (node_view n) taints labels col = (col', taints', a1)"
      "marshal_taints (qc_lists (rc_codec r)) taints' = Inr body"
    and more: "addHealthEventAnnotation (rc_codec r) he a1 = Inr a2" "updateValidationAnnotation r event a2 = Inr a3"
    and upd: "quarantine_update (rc_client r) (rc_codec r) taints' (isCordoned col) a3 ls cap n = (cap', Inr n')"
  shows "\<exists>R X. session_inv (rc_codec r) n0 n' R X"
proof -
  note p = prepared_annotations [OF prep]
  have none': "ann n AppliedTaintsKey = None" "ann n IsCordonedKey = None"
    using none by (simp_all add: recording_keys_def)
  with inv have R: "R = []" by (simp add: session_inv_def)
  have dist: "distinct (map fst a3)" by (intro validation_annotation_keeps(2) [OF more(2)] health_annotation_keeps(2) [OF more(1)] p(5))
  have keep: "map_of a3 k = map_of a1 k" if "k \<in> set recording_keys" for k
    using validation_annotation_keeps(1) [OF more(2) recording_keys_apart(2) [OF that]]
      health_annotation_keeps(1) [OF more(1) recording_keys_apart(1) [OF that]] by simp
  have ids': "distinct (map t_identity taints')"
  proof -
    have "map t_identity taints' = map t_identity taints" unfolding p(1) by (simp add: comp_def)
    with ids show ?thesis by metis
  qed
  have u: "u \<in> set taints' \<Longrightarrow> \<exists>t \<in> set taints. t_identity u = t_identity t \<and> as_node_taint u = as_node_taint t \<and>
      (t_PreExisting u \<longleftrightarrow> as_node_taint t \<in> set (kn_Taints n))" for u
    unfolding p(1) using new by auto
  have "session_inv (rc_codec r) n0 n' (R @ taints') (X @ map as_node_taint (filter (\<lambda>u. as_node_taint u \<notin> set (kn_Taints n)) taints'))"
  proof (rule session_inv_record [OF inv codec upd assms(3) dist])
    show "distinct (map t_identity (R @ taints'))" using ids' R by simp
    show "m = as_node_taint u" if "u \<in> set taints'" "m \<in> set (kn_Taints n)" "nt_identity m = t_identity u" for u m
      using u [OF that(1)] that(2,3) clash conflicts_view by (metis list_all_iff)
    show "t_PreExisting u \<longleftrightarrow> as_node_taint u \<in> set (kn_Taints n)" if "u \<in> set taints'" for u using u [OF that] by auto
    show "if taints' = [] then map_of a3 AppliedTaintsKey = None
      else \<exists>txt. marshal_taints (qc_lists (rc_codec r)) taints' = Inr txt \<and> map_of a3 AppliedTaintsKey = Some txt"
      using prep(2) p(2) keep [OF recording_keys_members(1)] by simp
    show "map_of a3 IsCordonedKey = None \<and> map_of a3 CordonPreExistingKey = None \<and> \<not> isCordoned col \<or>
      ann n IsCordonedKey = None \<and> map_of a3 IsCordonedKey = Some ''True'' \<and>
      map_of a3 CordonPreExistingKey = (if kn_Unschedulable n then Some ''True'' else None) \<and> (isCordoned col \<or> kn_Unschedulable n)"
      using none' p(3,4) keep [OF recording_keys_members(2)] keep [OF recording_keys_members(3)] by (cases "isCordoned col") simp_all
  qed
  then show ?thesis by blast
qed

text \<open>A later action of the session, from the rule results to the update that is written.\<close>

lemma session_annotations:
  assumes "buildSessionActionUpdate js False now ks node required = Inr u"
    and "distinct (map (\<lambda>n. (nt_Key n, nt_Effect n)) (qn_Taints node))"
    and "set (map fst (sa_annotations required)) \<subseteq> {AppliedLabelsKey}" "distinct (map fst (sa_annotations required))"
  shows "sa_taints u = map (\<lambda>t. t\<lparr>t_PreExisting := t_PreExisting t \<or> on_node node t\<rparr>)
      (filter (\<lambda>t. \<not> is_recorded js node t \<and> \<not> conflicts node t) (sa_taints required))"
    and "if sa_taints u = [] then map_of (sa_annotations u) AppliedTaintsKey = None
      else \<exists>txt. marshal_taints js (sa_taints u) = Inr txt \<and> map_of (sa_annotations u) AppliedTaintsKey = Some txt"
    and "if sa_cordon required \<and> map_of (qn_Annotations node) IsCordonedKey \<noteq> Some ''True''
      then map_of (sa_annotations u) IsCordonedKey = Some ''True'' \<and> (sa_cordon u \<longleftrightarrow> \<not> qn_Unschedulable node) \<and>
        map_of (sa_annotations u) CordonPreExistingKey = (if qn_Unschedulable node then Some ''True'' else None)
      else map_of (sa_annotations u) IsCordonedKey = None \<and> map_of (sa_annotations u) CordonPreExistingKey = None \<and> \<not> sa_cordon u"
    and "distinct (map fst (sa_annotations u))"
proof -
  let ?u0 = "\<lparr>sa_taints = [], sa_cordon = False, sa_annotations = sa_annotations required, sa_labels = sa_labels required\<rparr>"
  have none: "map_of (sa_annotations required) k = None" if "k \<noteq> AppliedLabelsKey" for k
    using assms(3) that by (auto simp: map_of_eq_None_iff)
  obtain ts u' where ts: "sessionTaintsToAdd js node (sa_taints required) = Inr ts"
    and u': "u' = ?u0 \<and> ts = [] \<or> ts \<noteq> [] \<and>
      (\<exists>txt. marshal_taints js ts = Inr txt \<and> u' = ?u0\<lparr>sa_taints := ts, sa_annotations := AList.update AppliedTaintsKey txt (sa_annotations required)\<rparr>)"
    and u: "u = addSessionCordon now ks node (sa_cordon required) True u'"
    using assms(1) unfolding buildSessionActionUpdate_def Let_def by (auto split: sum.splits if_splits)
  have c: "\<not> sa_cordon u'" "sa_taints u' = ts" using u' by auto
  note spec = addSessionCordon_spec [OF c(1), where ts = now and ks = ks and node = node and req = "sa_cordon required" and rec = True, folded u]
  show "sa_taints u = map (\<lambda>t. t\<lparr>t_PreExisting := t_PreExisting t \<or> on_node node t\<rparr>)
      (filter (\<lambda>t. \<not> is_recorded js node t \<and> \<not> conflicts node t) (sa_taints required))"
    unfolding spec(1) c(2) by (rule sessionTaintsToAdd_exact [OF assms(2) ts])
  show "if sa_taints u = [] then map_of (sa_annotations u) AppliedTaintsKey = None
      else \<exists>txt. marshal_taints js (sa_taints u) = Inr txt \<and> map_of (sa_annotations u) AppliedTaintsKey = Some txt"
    unfolding spec(1,3) c(2) using u' none [of AppliedTaintsKey] by (auto simp: update_conv' annotation_keys)
  have au: "map_of (sa_annotations u') IsCordonedKey = None" "map_of (sa_annotations u') CordonPreExistingKey = None" "distinct (map fst (sa_annotations u'))"
    using u' none [of IsCordonedKey] none [of CordonPreExistingKey] assms(4) by (auto simp: update_conv' annotation_keys distinct_update)
  show "if sa_cordon required \<and> map_of (qn_Annotations node) IsCordonedKey \<noteq> Some ''True''
      then map_of (sa_annotations u) IsCordonedKey = Some ''True'' \<and> (sa_cordon u \<longleftrightarrow> \<not> qn_Unschedulable node) \<and>
        map_of (sa_annotations u) CordonPreExistingKey = (if qn_Unschedulable node then Some ''True'' else None)
      else map_of (sa_annotations u) IsCordonedKey = None \<and> map_of (sa_annotations u) CordonPreExistingKey = None \<and> \<not> sa_cordon u"
    unfolding u addSessionCordon_def Let_def using au c(1) by (auto simp: update_conv' annotation_keys)
  show "distinct (map fst (sa_annotations u))"
    unfolding u addSessionCordon_def Let_def using au(3) by (auto simp: distinct_update)
qed

lemma session_actions_shape:
  assumes "evaluateSessionActions js init sched ctx iee ks cfg event evals = (required, err)"
  shows "set (map fst (sa_annotations required)) \<subseteq> {AppliedLabelsKey}" "distinct (map fst (sa_annotations required))"
    "t \<in> set (sa_taints required) \<Longrightarrow> \<not> t_PreExisting t"
  using assms unfolding evaluateSessionActions_def Let_def
  by (auto dest: collected_taints_new split: prod.splits if_splits sum.splits)

lemma later_keeps_inv:
  assumes inv: "session_inv (rc_codec r) n0 n R X" and codec: "taint_codec_ok (rc_codec r)" and "\<not> DryRunMode (rc_client r)"
    and act: "evaluateSessionActions (qc_lists (rc_codec r)) init sched ctx iee ks cfg event evals = (required, err)"
    and ids: "distinct (map t_identity (sa_taints required))"
    and u: "buildSessionActionUpdate (qc_lists (rc_codec r)) False now ks (node_view n) required = Inr u"
    and upd: "quarantine_update (rc_client r) (rc_codec r) (sa_taints u) (sa_cordon u) (sa_annotations u) ls cap n = (cap', Inr n')"
  shows "\<exists>R X. session_inv (rc_codec r) n0 n' R X"
proof -
  let ?js = "qc_lists (rc_codec r)" and ?v = "node_view n"
  note shape = session_actions_shape [OF act]
  have dist: "distinct (map nt_identity (kn_Taints n))" and R: "distinct (map t_identity R)" using inv unfolding session_inv_def by blast+
  then have "distinct (map (\<lambda>n. (nt_Key n, nt_Effect n)) (qn_Taints ?v))" by (simp add: nt_identity_def [abs_def])
  note su = session_annotations [OF u this shape(1,2)]
  have "recorded_taints ?js ?v = Inr R" using session_inv_recorded [OF inv] by (simp add: recorded_taints_def ann_def)
  then have rec: "is_recorded ?js ?v t \<longleftrightarrow> t_identity t \<in> t_identity ` set R" for t
    by (auto simp: is_recorded_def t_identity_def image_iff) metis+
  have mem: "\<exists>t \<in> set (sa_taints required). \<not> t_PreExisting t \<and> t_identity t = t_identity v \<and> as_node_taint t = as_node_taint v \<and>
      t_identity v \<notin> t_identity ` set R \<and> \<not> conflicts ?v t \<and> (t_PreExisting v \<longleftrightarrow> on_node ?v t)" if "v \<in> set (sa_taints u)" for v
    using that shape(3) unfolding su(1) rec by auto
  have "session_inv (rc_codec r) n0 n' (R @ sa_taints u)
      (X @ map as_node_taint (filter (\<lambda>u. as_node_taint u \<notin> set (kn_Taints n)) (sa_taints u)))"
  proof (rule session_inv_record [OF inv codec upd assms(3) su(4) _ _ _ su(2)])
    have "distinct (map t_identity (sa_taints u))" unfolding su(1) by (simp add: comp_def distinct_map_filter [OF ids])
    with R show "distinct (map t_identity (R @ sa_taints u))" using mem by fastforce
    show "m = as_node_taint v" if "v \<in> set (sa_taints u)" "m \<in> set (kn_Taints n)" "nt_identity m = t_identity v" for v m
      using mem [OF that(1)] that(2,3) conflicts_view by metis
    show "t_PreExisting v \<longleftrightarrow> as_node_taint v \<in> set (kn_Taints n)" if "v \<in> set (sa_taints u)" for v
      using mem [OF that] on_node_view by metis
    have "ann n IsCordonedKey = None \<or> ann n IsCordonedKey = Some ''True''" using inv unfolding session_inv_def by metis
    then show "map_of (sa_annotations u) IsCordonedKey = None \<and> map_of (sa_annotations u) CordonPreExistingKey = None \<and> \<not> sa_cordon u \<or>
      ann n IsCordonedKey = None \<and> map_of (sa_annotations u) IsCordonedKey = Some ''True'' \<and>
      map_of (sa_annotations u) CordonPreExistingKey = (if kn_Unschedulable n then Some ''True'' else None) \<and> (sa_cordon u \<or> kn_Unschedulable n)"
      using su(3) unfolding node_view_simps ann_def [symmetric] by (auto simp: ann_def split: if_splits)
  qed
  then show ?thesis by blast
qed

lemma session_has_inv:
  assumes "session r n0 n" and "taint_codec_ok (rc_codec r)" and "\<not> DryRunMode (rc_client r)" and "\<not> rc_DryRun r"
  shows "\<exists>R X. session_inv (rc_codec r) n0 n R X"
  using assms(1)
proof induction
  case before
  then have "session_inv (rc_codec r) n0 n0 [] []" by (simp add: session_inv_def recording_keys_def)
  then show ?case by blast
next
  case (first n)
  then obtain R X where "session_inv (rc_codec r) n0 n R X" by blast
  from first_keeps_inv [OF this assms(2,3) first.hyps(2) first.hyps(5,6) _ first.hyps(7-11)] collected_taints_new
  show ?case unfolding first.hyps(4) by metis
next
  case (later n)
  then obtain R X where "session_inv (rc_codec r) n0 n R X" by blast
  from later_keeps_inv [OF this assms(2,3) later.hyps(2,3) _ later.hyps(5)] later.hyps(4) assms(4) show ?case by simp
next
  case (tracked n)
  then show ?case using session_inv_keeps tracked_keeps_record by blast
next
  case (recovered n)
  then show ?case using session_inv_keeps recovered_keeps_record by blast
next
  case (elsewhere n)
  then show ?case using session_inv_keeps by blast
qed

section \<open>A session restores the node\<close>

lemma labels_annotation_listed:
  assumes "prepareUncordonParams r name now annotations = Inr p" and "map_of annotations AppliedLabelsKey = Some txt" and "txt \<noteq> []"
  shows "AppliedLabelsKey \<in> set (up_annotations p)"
  using assms by (auto simp: prepareUncordonParams_def appliedLabelsRemovalParams_def Let_def split: sum.splits)

text \<open>
  C22. A quarantine session that meets no conflict gives the node back as it was. The session: the node has no record of an
  earlier session and at most one taint per key and effect; the first fault, if it taints, meets no taint of the same key
  and effect with another value, and the rules that match one fault ask for taints of different keys or effects; every update is written
  on the version of the node it was computed for, and meanwhile others change neither taints, cordon nor the record; no
  dry run. Then, however many faults were handled, tracked and partly recovered in between, the
  release computed from the annotations of the node, when it requests no validation, removes exactly the taints that
  the session added, keeps those that were there before, uncordons the node exactly if the session had cordoned
  it, and leaves none of the annotations of the session behind: neither the tracked faults, the applied taints, the two
  cordon records, the validation request and the dry-run mark, nor an applied-labels annotation with a value.
\<close>

theorem session_restores_node:
  assumes "session r n0 n" and "taint_codec_ok (rc_codec r)" and "\<not> DryRunMode (rc_client r)" and "\<not> rc_DryRun r"
    and "prepareUncordonParams r name now (quarantine_annotations n) = Inr p"
    and "toRemove = appendIfPresent (quarantine_annotations n) (up_annotations p) [QuarantineHealthEventAnnotationKey, DryRunKey]"
    and "triggerValidationOnUnquarantine r name (quarantine_annotations n) toRemove (up_taints p) (up_uncordon p) s = (s', Inr v)"
    and "\<not> vo_created v"
    and "unquarantine_update (rc_client r) (vo_taints v) (vo_uncordon v) (vo_annotations v)
      (buildUncordonLabelsToRemove (rc_keys r) (up_labels p) (vo_created v)) (up_newLabels p) cap n = (cap', Inr n')"
  shows "kn_Taints n' = kn_Taints n0 \<and> kn_Unschedulable n' = kn_Unschedulable n0 \<and>
    list_all (\<lambda>k. ann n' k = None) [QuarantineHealthEventAnnotationKey, AppliedTaintsKey, IsCordonedKey,
      CordonPreExistingKey, ValidationEventKey, DryRunKey] \<and>
    (ann n AppliedLabelsKey \<noteq> Some [] \<longrightarrow> ann n' AppliedLabelsKey = None)"
proof -
  obtain R X where inv: "session_inv (rc_codec r) n0 n R X" using session_has_inv [OF assms(1-4)] by blast
  have v: "vo_taints v = up_taints p" "vo_uncordon v = up_uncordon p"
    "vo_annotations v = toRemove @ (if map_of (quarantine_annotations n) ValidationEventKey = None then [] else [ValidationEventKey])"
    using assms(7,8) unfolding triggerValidationOnUnquarantine_def by (auto split: if_splits prod.splits sum.splits)
  note upd = assms(9) [unfolded v(1,2)]
  have "set toRemove \<subseteq> set (vo_annotations v)" by (simp add: v(3))
  note restored = session_inv_release [OF inv assms(5) this [unfolded assms(6)] upd assms(3)]
  have "ann n' ValidationEventKey = None"
  proof (cases "map_of (quarantine_annotations n) ValidationEventKey")
    case None
    then have "ann n ValidationEventKey = None" by (simp add: quarantine_annotations_entry QuarantineAnnotationKeys_def)
    then show ?thesis unfolding unquarantine_update_effect(3) [OF upd assms(3)] by simp
  next
    case (Some x)
    then have "ValidationEventKey \<in> set (vo_annotations v)" by (simp add: v(3))
    then show ?thesis unfolding unquarantine_update_effect(3) [OF upd assms(3)] by simp
  qed
  moreover have "ann n' AppliedLabelsKey = None" if "ann n AppliedLabelsKey \<noteq> Some []"
  proof (cases "ann n AppliedLabelsKey")
    case None
    then show ?thesis unfolding unquarantine_update_effect(3) [OF upd assms(3)] by simp
  next
    case (Some body)
    then have "map_of (quarantine_annotations n) AppliedLabelsKey = Some body"
      by (simp add: quarantine_annotations_entry QuarantineAnnotationKeys_def)
    from labels_annotation_listed [OF assms(5) this] Some that have "AppliedLabelsKey \<in> set (vo_annotations v)"
      by (simp add: v(3) assms(6) appendIfPresent_def)
    then show ?thesis unfolding unquarantine_update_effect(3) [OF upd assms(3)] by simp
  qed
  ultimately show ?thesis using restored by simp
qed


text \<open>A node with a taint of its own is quarantined by one rule, which taints and cordons it, and released.\<close>

definition nic_taint :: node_taint where
  "nic_taint = \<lparr>nt_Key = ''nic'', nt_Value = ''down'', nt_Effect = ''NoSchedule''\<rparr>"

definition gpu_taint :: Taint where
  "gpu_taint = \<lparr>t_Key = ''gpu'', t_Value = ''bad'', t_Effect = ''NoSchedule'', t_PreExisting = False\<rparr>"

definition one_taint_codec :: quarantine_codec where
  "one_taint_codec = \<lparr>qc_lists = \<lparr>marshal_taints = (\<lambda>ts. if ts = [gpu_taint] then Inr ''[gpu]'' else Inl (EText ''unsupported'')),
       unmarshal_taints = (\<lambda>body. if body = ''[gpu]'' then Inr [gpu_taint] else Inl (EText ''syntax'')),
       marshal_labels = (\<lambda>_. Inl (EText ''unsupported''))\<rparr>,
     unmarshal_labels = (\<lambda>_. Inl (EText ''syntax'')), unmarshal_events = (\<lambda>_. Inl (EText ''syntax'')),
     marshal_events = (\<lambda>_. Inr ''[fault]''), unmarshal_event = (\<lambda>_. Inl (EText ''syntax'')),
     unmarshal_tests = (\<lambda>_. Inl (EText ''syntax'')), marshal_tests = (\<lambda>_. Inl (EText ''unsupported'')),
     qc_slots = \<lparr>marshal_slot = (\<lambda>_. None), unmarshal_slot = (\<lambda>_. None)\<rparr>\<rparr>"

definition one_rule :: rulesetsConfig where
  "one_rule = empty_config\<lparr>TaintConfigMap := [(''xid'', gpu_taint)], CordonConfigMap := [(''xid'', True)]\<rparr>"

definition one_evaluator :: "RuleSetEvaluator list" where
  "one_evaluator = [AnyRuleSetEvaluator ''xid'' [\<lambda>e. (IsFatal e, None)]]"

definition demo_reconciler :: "(unit, unit) Reconciler" where
  "demo_reconciler = \<lparr>rc_client = \<lparr>DryRunMode = False, client_cordonedReasonLabelKey = ''cordon-reason'',
       client_uncordonedReasonLabelKey = ''uncordon-reason''\<rparr>, rc_codec = one_taint_codec,
     rc_cluster = \<lparr>cl_onError = (\<lambda>_ fn s. fn s), cl_connection_lost = (\<lambda>_. False),
       cl_api = \<lparr>api_Get = (\<lambda>w _. (w, Inl (EText ''down''))), api_Patch = (\<lambda>w _ _. (w, Inl (EText ''down'')))\<rparr>,
       cl_create = (\<lambda>_ _. Inr ''{}''), cl_synced = (\<lambda>_. False), cl_informer = (\<lambda>_ _. Inl (EText ''down''))\<rparr>,
     rc_DryRun = False, CircuitBreakerEnabled = False, cb_AddCordonEvent = (\<lambda>w _. w), cb_IsTripped = (\<lambda>w. (w, Inr False)),
     CancelLatestQuarantiningEvents = None, validationClient = None, rc_keys = demo_label_keys,
     rc_uncordon_keys = \<lparr>uncordonedByLabelKey = ''uncordon-by'', uncordonedTimestampLabelKey = ''uncordon-timestamp''\<rparr>,
     taintInitKeys = [(''gpu'', ''bad'')], rc_isEvaluationError = (\<lambda>_. False), rc_timestamp = (\<lambda>_. ''now'')\<rparr>"

definition healthy_node :: kube_node where
  "healthy_node = \<lparr>kn_Name = ''a'', kn_ResourceVersion = ''1'', kn_Labels = None, kn_Annotations = None, kn_Taints = [nic_taint], kn_Unschedulable = False\<rparr>"

definition fatal_fault :: health_event where
  "fatal_fault = zero_event\<lparr>NodeName := ''a'', IsFatal := True\<rparr>"

definition first_result :: collected where
  "first_result = fst (evaluateRulesets [] None (rc_isEvaluationError demo_reconciler) (rc_keys demo_reconciler) one_rule fatal_fault one_evaluator
     (init_collected (taintInitKeys demo_reconciler)))"

definition first_annotations :: "collected \<times> Taint list \<times> (string, string) gomap" where
  "first_annotations = prepareAnnotations (qc_lists (rc_codec demo_reconciler)) ''now'' (rc_keys demo_reconciler) (node_view healthy_node)
     (collectTaintsToApply (taintAppliedMap first_result)) (collectLabelsToApply (appliedLabelsMap first_result)) first_result"

definition first_written :: "(string, string) gomap" where
  "first_written = AList.update QuarantineHealthEventAnnotationKey ''[fault]'' (snd (snd first_annotations))"

definition start_captured :: captured where
  "start_captured = \<lparr>alreadyQuarantined = False, updatedMap = NewHealthEventsAnnotationMap\<rparr>"

definition quarantined_node :: kube_node where
  "quarantined_node = projr (snd (quarantine_update (rc_client demo_reconciler) (rc_codec demo_reconciler) (fst (snd first_annotations))
     (isCordoned first_result) first_written (labelsMap (fst first_annotations)) start_captured healthy_node))"

definition release_params :: uncordon_params where
  "release_params = projr (prepareUncordonParams demo_reconciler ''a'' ''now'' (quarantine_annotations quarantined_node))"

definition release_keys :: "string list" where
  "release_keys = appendIfPresent (quarantine_annotations quarantined_node) (up_annotations release_params) [QuarantineHealthEventAnnotationKey, DryRunKey]"

definition released_node :: kube_node where
  "released_node = projr (snd (unquarantine_update (rc_client demo_reconciler) (up_taints release_params) (up_uncordon release_params) release_keys
     (buildUncordonLabelsToRemove (rc_keys demo_reconciler) (up_labels release_params) False) (up_newLabels release_params) start_captured quarantined_node))"

lemma first_result_value: "snd (evaluateRulesets [] None (rc_isEvaluationError demo_reconciler) (rc_keys demo_reconciler) one_rule fatal_fault one_evaluator
     (init_collected (taintInitKeys demo_reconciler))) = None \<and> collectTaintsToApply (taintAppliedMap first_result) = [gpu_taint] \<and> isCordoned first_result"
  by code_simp

lemma quarantined_node_value: "kn_Taints quarantined_node = [nic_taint, as_node_taint gpu_taint] \<and> kn_Unschedulable quarantined_node"
  by code_simp

lemma one_taint_codec_ok: "taint_codec_ok (rc_codec demo_reconciler)"
  by (auto simp: taint_codec_ok_def demo_reconciler_def one_taint_codec_def IsEmptyValue_def TrimSpace_def is_space_def split: if_splits)

lemma quarantined_session: "session demo_reconciler healthy_node quarantined_node"
proof (rule session.first [OF session.before])
  show "evaluateRulesets [] None (rc_isEvaluationError demo_reconciler) (rc_keys demo_reconciler) one_rule fatal_fault one_evaluator
      (init_collected (taintInitKeys demo_reconciler)) = (first_result, None)"
    using first_result_value by (simp add: first_result_def prod_eq_iff)
  show "prepareAnnotations (qc_lists (rc_codec demo_reconciler)) ''now'' (rc_keys demo_reconciler) (node_view healthy_node)
      (collectTaintsToApply (taintAppliedMap first_result)) (collectLabelsToApply (appliedLabelsMap first_result)) first_result =
      (fst first_annotations, fst (snd first_annotations), snd (snd first_annotations))" by (simp add: first_annotations_def)
  show "addHealthEventAnnotation (rc_codec demo_reconciler) NewHealthEventsAnnotationMap (snd (snd first_annotations)) = Inr first_written"
    by (simp add: addHealthEventAnnotation_def first_written_def demo_reconciler_def one_taint_codec_def)
  show "updateValidationAnnotation demo_reconciler fatal_fault first_written = Inr first_written"
    by (simp add: updateValidationAnnotation_def demo_reconciler_def)
  show "distinct (map nt_identity (kn_Taints healthy_node))" by code_simp
  show "list_all (\<lambda>k. ann healthy_node k = None) recording_keys" by code_simp
  show "list_all (\<lambda>k. ann healthy_node k = None) recording_keys" by code_simp
  show "list_all (\<lambda>t. \<not> conflicts (node_view healthy_node) t) (collectTaintsToApply (taintAppliedMap first_result))" by code_simp
  show "distinct (map t_identity (collectTaintsToApply (taintAppliedMap first_result)))" by code_simp
  show "marshal_taints (qc_lists (rc_codec demo_reconciler)) (fst (snd first_annotations)) = Inr ''[gpu]''" by code_simp
  show "quarantine_update (rc_client demo_reconciler) (rc_codec demo_reconciler) (fst (snd first_annotations)) (isCordoned first_result)
      first_written (labelsMap (fst first_annotations)) start_captured healthy_node =
      (start_captured, Inr quarantined_node)" by code_simp
qed (rule refl)

theorem session_restores_node_witness:
  "kn_Taints quarantined_node = [nic_taint, as_node_taint gpu_taint] \<and> kn_Unschedulable quarantined_node \<and>
   kn_Taints released_node = [nic_taint] \<and> \<not> kn_Unschedulable released_node \<and> ann released_node AppliedTaintsKey = None"
proof -
  let ?s = "\<lparr>ss_patch = \<lparr>ps_world = (), pendingVersions = [], ps_current = healthy_node, ps_changed = False, ps_captured = start_captured\<rparr>,
    ss_recovery = None\<rparr>"
  let ?v = "\<lparr>vo_annotations = release_keys, vo_taints = up_taints release_params, vo_uncordon = up_uncordon release_params, vo_created = False\<rparr>"
  have "prepareUncordonParams demo_reconciler ''a'' ''now'' (quarantine_annotations quarantined_node) = Inr release_params" by code_simp
  moreover have "map_of (quarantine_annotations quarantined_node) ValidationEventKey = None" by code_simp
  then have "triggerValidationOnUnquarantine demo_reconciler ''a'' (quarantine_annotations quarantined_node) release_keys
      (up_taints release_params) (up_uncordon release_params) ?s = (?s, Inr ?v)"
    by (simp add: triggerValidationOnUnquarantine_def)
  moreover have "unquarantine_update (rc_client demo_reconciler) (vo_taints ?v) (vo_uncordon ?v) (vo_annotations ?v)
      (buildUncordonLabelsToRemove (rc_keys demo_reconciler) (up_labels release_params) (vo_created ?v)) (up_newLabels release_params)
      start_captured quarantined_node = (start_captured, Inr released_node)"
    by (simp add: released_node_def unquarantine_update_def Let_def)
  ultimately have "kn_Taints released_node = kn_Taints healthy_node \<and> kn_Unschedulable released_node = kn_Unschedulable healthy_node \<and>
      list_all (\<lambda>k. ann released_node k = None) [QuarantineHealthEventAnnotationKey, AppliedTaintsKey, IsCordonedKey,
        CordonPreExistingKey, ValidationEventKey, DryRunKey]"
    using session_restores_node [OF quarantined_session one_taint_codec_ok, of "''a''" "''now''" release_params release_keys ?s ?s ?v
        start_captured start_captured released_node]
    by (simp add: release_keys_def demo_reconciler_def)
  then show ?thesis using quarantined_node_value by (simp add: healthy_node_def)
qed

section \<open>Recoveries\<close>

text \<open>On this version of the node the recovery leaves no tracked failure.\<close>

definition nothing_left :: "('w, 'doc) Reconciler \<Rightarrow> eventCoverage option \<Rightarrow> health_event \<Rightarrow> kube_node \<Rightarrow> bool" where
  "nothing_left r ctx event base \<longleftrightarrow>
     annotation base QuarantineHealthEventAnnotationKey = [] \<or>
     (case parse_existing (rc_codec r) (annotation base QuarantineHealthEventAnnotationKey) of
        Inl _ \<Rightarrow> False
      | Inr he \<Rightarrow> IsEmpty (fst (RemoveEventFiltered (qc_slots (rc_codec r)) he event (Some (recoveryEffectFilter ctx)))))"

lemma remove_event_captured:
  assumes "remove_event_update r ctx event c base = (c', Inr desired)" and "IsEmpty (updatedMap c')"
  shows "nothing_left r ctx event base"
  using assms unfolding remove_event_update_def nothing_left_def Let_def
  by (auto split: if_splits sum.splits prod.splits)

text \<open>The versions committed from \<^verbatim>\<open>start\<close> on by this process have the taints and the cordon of the version before.\<close>

definition spec_untouched :: "nat \<Rightarrow> versions \<Rightarrow> bool" where
  "spec_untouched start h \<longleftrightarrow> (\<forall>i < length h. start \<le> i \<longrightarrow> fst (h ! i) \<longrightarrow> 0 < i \<and>
     kn_Taints (snd (h ! i)) = kn_Taints (snd (h ! (i - 1))) \<and> kn_Unschedulable (snd (h ! i)) = kn_Unschedulable (snd (h ! (i - 1))))"

lemma writes_untouched:
  assumes "writes_good cached pending start mutate h"
    and "\<And>c n c' n'. mutate c n = (c', Inr n') \<Longrightarrow> kn_Taints n' = kn_Taints n \<and> kn_Unschedulable n' = kn_Unschedulable n"
  shows "spec_untouched start h"
  unfolding spec_untouched_def
proof (intro allI impI)
  fix i assume "i < length h" "start \<le> i" "fst (h ! i)"
  with assms(1) have "0 < i" and "good_write cached pending start mutate h (snd (h ! (i - 1))) (snd (h ! i))"
    unfolding writes_good_def by blast+
  then obtain base desired c c' where "mutate c base = (c', Inr desired)" "overlaid base desired (snd (h ! (i - 1))) (snd (h ! i))"
    unfolding good_write_def by blast
  with assms(2) \<open>0 < i\<close> show "0 < i \<and> kn_Taints (snd (h ! i)) = kn_Taints (snd (h ! (i - 1))) \<and>
      kn_Unschedulable (snd (h ! i)) = kn_Unschedulable (snd (h ! (i - 1)))"
    unfolding overlaid_def by fastforce
qed

lemma removal_guarded:
  assumes laws: "merge_patches (cl_create (rc_cluster r)) requires patched"
      "applies_patches requires patched (cl_api (rc_cluster r)) hist (NodeName event)"
      "reads_live (cl_api (rc_cluster r)) hist (NodeName event)" "retry_contract (cl_onError (rc_cluster r))"
    and call: "removeEventFromAnnotation r ctx event s = (s', updated, err)"
  shows "spec_untouched (length (hist (ss_world s))) (hist (ss_world s'))"
    and "err = None \<Longrightarrow> IsEmpty updated \<Longrightarrow> \<exists>base. nothing_left r ctx event base \<and>
      fresh_base (cachedNodeForPatch (rc_cluster r) (ss_world s) (NodeName event)) (map_of (pendingVersions (ss_patch s)) (NodeName event))
        (length (hist (ss_world s))) (hist (ss_world s')) base"
proof -
  let ?st = "(ss_patch s)\<lparr>ps_captured := (ps_captured (ss_patch s))\<lparr>updatedMap := NewHealthEventsAnnotationMap\<rparr>\<rparr>"
  let ?cl = "rc_cluster r"
  obtain st result where run: "Patch (cl_onError ?cl) (cl_connection_lost ?cl) (cl_api ?cl) (cl_create ?cl) (NodeName event)
      (cachedNodeForPatch ?cl (ss_world s) (NodeName event)) (remove_event_update r ctx event) ?st = (st, result)" by (metis prod.exhaust)
  with call have s': "ss_patch s' = st" "updated = updatedMap (ps_captured st)" "err = None \<Longrightarrow> \<exists>x. result = Inr x"
    by (auto simp: removeEventFromAnnotation_def session_UpdateNode_def fq_UpdateNode_def ss_world_def Let_def split: sum.splits)
  note guarded = Patch_guarded [OF laws run refl refl refl]
  have "kn_Taints n' = kn_Taints n \<and> kn_Unschedulable n' = kn_Unschedulable n"
    if "remove_event_update r ctx event c n = (c', Inr n')" for c n c' n'
    using recovered_keeps_record [OF that] by (simp add: keeps_record_def)
  from writes_untouched [OF conjunct1 [OF conjunct2 [OF guarded]] this]
  show "spec_untouched (length (hist (ss_world s))) (hist (ss_world s'))" by (simp add: ss_world_def s'(1))
  assume "err = None" "IsEmpty updated"
  with s'(3) obtain x where "result = Inr x" by blast
  with guarded obtain base desired c where
    "fresh_base (cachedNodeForPatch ?cl (ss_world s) (NodeName event)) (map_of (pendingVersions ?st) (NodeName event))
       (length (hist (ps_world ?st))) (hist (ps_world st)) base"
    "remove_event_update r ctx event c base = (ps_captured st, Inr desired)" by blast
  moreover from this(2) have "nothing_left r ctx event base" by (rule remove_event_captured) (use \<open>IsEmpty updated\<close> s'(2) in simp)
  ultimately show "\<exists>base. nothing_left r ctx event base \<and>
      fresh_base (cachedNodeForPatch (rc_cluster r) (ss_world s) (NodeName event)) (map_of (pendingVersions (ss_patch s)) (NodeName event))
        (length (hist (ss_world s))) (hist (ss_world s')) base"
    using s'(1) by (auto simp: ss_world_def)
qed

text \<open>
  C23. A recovery on a quarantined node releases it only if it leaves no tracked failure: either the node stays
  quarantined and no version committed by the handler touches its taints or its cordon, or there is a version
  of the node, not older than this process's last write and otherwise current during the call, whose tracked failures are all removed by the
  event, and only then the release is attempted. This holds whatever other writers do meanwhile.
\<close>

theorem release_only_when_recovered:
  assumes "merge_patches (cl_create (rc_cluster r)) requires patched"
    and "applies_patches requires patched (cl_api (rc_cluster r)) hist (NodeName event)"
    and "reads_live (cl_api (rc_cluster r)) hist (NodeName event)" and "retry_contract (cl_onError (rc_cluster r))"
    and "IsHealthy event" and "handleQuarantinedNode sched r ctx cfg event evals s = (s', stay, err)"
    and "getHealthEventsFromAnnotation r (NodeName event) s = (s1, Inr (he, annotations))"
    and "h1 = hist (ss_world s1)"
  shows "spec_untouched (length h1) (hist (ss_world s')) \<and> stay \<or>
    (\<exists>s2 updated base. removeEventFromAnnotation r ctx event s1 = (s2, updated, None) \<and> nothing_left r ctx event base \<and>
       fresh_base (cachedNodeForPatch (rc_cluster r) (ss_world s1) (NodeName event)) (map_of (pendingVersions (ss_patch s1)) (NodeName event))
         (length h1) (hist (ss_world s2)) base \<and>
       performUncordon r event annotations s2 = (s', stay, err))"
proof (cases "GetEvent (qc_slots (rc_codec r)) he event")
  case None
  with assms(5-7) have "s' = s1" "stay" by (simp_all add: handleQuarantinedNode_def)
  then show ?thesis unfolding assms(8) spec_untouched_def by simp
next
  case (Some x)
  obtain s2 updated e where rem: "removeEventFromAnnotation r ctx event s1 = (s2, updated, e)" by (metis prod.exhaust)
  note g = removal_guarded [OF assms(1-4) rem]
  show ?thesis
  proof (cases "e = None \<and> IsEmpty updated")
    case True
    with Some rem assms(5-7) have "performUncordon r event annotations s2 = (s', stay, err)" by (simp add: handleQuarantinedNode_def)
    with True g(2) rem show ?thesis unfolding assms(8) by blast
  next
    case False
    with Some rem assms(5-7) have "s' = s2" "stay" by (auto simp: handleQuarantinedNode_def split: option.splits)
    with g(1) show ?thesis unfolding assms(8) by blast
  qed
qed


text \<open>A server that applies the one patch of this release to the quarantined node, and refuses every other.\<close>

definition release_documents :: "patch_document \<times> patch_document" where
  "release_documents = (patchProjectionJSON (projectNodePatchableFields quarantined_node) True True,
     patchProjectionJSON ((projectNodePatchableFields released_node)\<lparr>kn_ResourceVersion := ''1''\<rparr>) True True)"

definition release_patch :: create_patch where
  "release_patch old new =
     (if (old, new) = release_documents then Inr ''release''
      else if old = new then Inr ''{}'' else Inl (EText ''unsupported''))"

definition release_requires :: "string \<Rightarrow> string option" where
  "release_requires p = (if p = ''release'' then Some ''1'' else None)"

definition release_patched :: "string \<Rightarrow> kube_node \<Rightarrow> kube_node \<Rightarrow> bool" where
  "release_patched p live result \<longleftrightarrow>
     (if p = ''release'' then document_patched (fst release_documents) (snd release_documents) live result
      else result = live)"

definition release_api :: "versions nodes_api" where
  "release_api = \<lparr>api_Get = (\<lambda>h _. (h, if h = [] then Inl (EText ''missing'') else Inr (snd (last h)))),
     api_Patch = (\<lambda>h _ p. if h \<noteq> [] \<and> p = ''release'' \<and> snd (last h) = quarantined_node
        then (h @ [(True, released_node\<lparr>kn_ResourceVersion := ''2''\<rparr>)], Inr (released_node\<lparr>kn_ResourceVersion := ''2''\<rparr>))
        else (h, Inl (EText ''refused'')))\<rparr>"

definition recovery :: health_event where
  "recovery = fatal_fault\<lparr>IsHealthy := True\<rparr>"

definition release_reconciler :: "(versions, unit) Reconciler" where
  "release_reconciler = \<lparr>rc_client = rc_client demo_reconciler,
     rc_codec = one_taint_codec\<lparr>unmarshal_events := (\<lambda>body. if body = ''[fault]'' then Inr [fatal_fault] else Inl (EText ''syntax''))\<rparr>,
     rc_cluster = \<lparr>cl_onError = retry_steps 3, cl_connection_lost = (\<lambda>_. False), cl_api = release_api, cl_create = release_patch,
       cl_synced = (\<lambda>_. False), cl_informer = (\<lambda>h _. if h = [] then Inl (EText ''missing'') else Inr (snd (last h)))\<rparr>,
     rc_DryRun = False, CircuitBreakerEnabled = False, cb_AddCordonEvent = (\<lambda>w _. w), cb_IsTripped = (\<lambda>w. (w, Inr False)),
     CancelLatestQuarantiningEvents = None, validationClient = None, rc_keys = demo_label_keys, rc_uncordon_keys = rc_uncordon_keys demo_reconciler,
     taintInitKeys = [(''gpu'', ''bad'')], rc_isEvaluationError = (\<lambda>_. False), rc_timestamp = (\<lambda>_. ''now'')\<rparr>"

definition release_start :: "versions session_state" where
  "release_start = \<lparr>ss_patch = \<lparr>ps_world = [(False, quarantined_node)], pendingVersions = [], ps_current = quarantined_node, ps_changed = False,
     ps_captured = start_captured\<rparr>, ss_recovery = None\<rparr>"

definition release_result :: "versions session_state \<times> bool \<times> error option" where
  "release_result = handleQuarantinedNode [] release_reconciler None one_rule recovery one_evaluator release_start"

lemma quarantined_node_code [code]:
  "quarantined_node = \<lparr>kn_Name = ''a'', kn_ResourceVersion = ''1'',
     kn_Labels = Some [(''cordon-reason'', ''xid''), (''cordon-by'', ''NVSentinel''), (''cordon-timestamp'', ''now''),
       (''dgxc.nvidia.com/nvsentinel-state'', ''quarantined'')],
     kn_Annotations = Some [(''quarantineHealthEventAppliedTaints'', ''[gpu]''), (''quarantineHealthEventIsCordoned'', ''True''),
       (''quarantineHealthEvent'', ''[fault]'')],
     kn_Taints = [nic_taint, \<lparr>nt_Key = ''gpu'', nt_Value = ''bad'', nt_Effect = ''NoSchedule''\<rparr>], kn_Unschedulable = True\<rparr>"
  by code_simp

lemma released_node_code [code]:
  "released_node = \<lparr>kn_Name = ''a'', kn_ResourceVersion = ''1'',
     kn_Labels = Some [(''uncordon-by'', ''NVSentinel''), (''uncordon-timestamp'', ''now''), (''uncordon-reason'', ''xid-removed'')],
     kn_Annotations = Some [], kn_Taints = [nic_taint], kn_Unschedulable = False\<rparr>"
  by code_simp

lemma release_documents_code [code]:
  "release_documents =
    (\<lparr>pd_labels = Some [(''cordon-reason'', ''xid''), (''cordon-by'', ''NVSentinel''), (''cordon-timestamp'', ''now''),
        (''dgxc.nvidia.com/nvsentinel-state'', ''quarantined'')],
      pd_annotations = Some [(''quarantineHealthEventAppliedTaints'', ''[gpu]''), (''quarantineHealthEventIsCordoned'', ''True''),
        (''quarantineHealthEvent'', ''[fault]'')],
      pd_resourceVersion = None, pd_taints = Some [nic_taint, \<lparr>nt_Key = ''gpu'', nt_Value = ''bad'', nt_Effect = ''NoSchedule''\<rparr>],
      pd_unschedulable = Some True\<rparr>,
     \<lparr>pd_labels = Some [(''uncordon-by'', ''NVSentinel''), (''uncordon-timestamp'', ''now''), (''uncordon-reason'', ''xid-removed'')],
      pd_annotations = Some [], pd_resourceVersion = Some ''1'', pd_taints = Some [nic_taint], pd_unschedulable = None\<rparr>)"
  by code_simp

lemma release_result_value: "snd release_result = (False, None) \<and> ss_world (fst release_result) = [(False, quarantined_node), (True, released_node\<lparr>kn_ResourceVersion := ''2''\<rparr>)]"
  by code_simp

lemma release_merge_patches: "merge_patches release_patch release_requires release_patched"
  unfolding merge_patches_def
proof (intro allI impI)
  fix old new p assume "release_patch old new = Inr p"
  then have "(old, new) = release_documents \<and> p = ''release'' \<or> old = new \<and> p = ''{}''"
    by (auto simp: release_patch_def split: if_splits)
  then show "(p = ''{}'' \<longrightarrow> same_document old new) \<and>
      release_requires p = (if pd_resourceVersion old = pd_resourceVersion new then None else pd_resourceVersion new) \<and>
      (\<forall>live result. release_patched p live result \<longrightarrow> document_patched old new live result)"
  proof (elim disjE conjE)
    assume d: "(old, new) = release_documents" and p: "p = ''release''"
    then have "pd_resourceVersion old = None" "pd_resourceVersion new = Some ''1''"
      by (simp_all add: release_documents_code)
    moreover have "release_patched p live result = document_patched old new live result" for live result
      unfolding release_patched_def p d [symmetric] by simp
    ultimately show ?thesis using p by (simp add: release_requires_def)
  qed (auto simp: same_document_def document_patched_def map_patched_def release_requires_def release_patched_def)
qed

lemma release_reads: "reads_live release_api id name"
  unfolding reads_live_def release_api_def by (auto simp: by_others_def split: if_splits)

lemma released_version: "release_patched ''release'' quarantined_node (released_node\<lparr>kn_ResourceVersion := ''2''\<rparr>)"
  by (simp add: release_patched_def document_patched_def map_patched_def release_documents_code quarantined_node_code released_node_code)

lemma release_applies: "applies_patches release_requires release_patched release_api id name"
  unfolding applies_patches_def
proof (intro allI impI)
  fix h h' p r assume call: "api_Patch release_api h name p = (h', r)"
  let ?n = "released_node\<lparr>kn_ResourceVersion := ''2''\<rparr>"
  have "h' = h \<and> (\<forall>n. r \<noteq> Inr n) \<or> h' = h @ [(True, ?n)] \<and> h \<noteq> [] \<and> p = ''release'' \<and> snd (last h) = quarantined_node \<and> r = Inr ?n"
    using call unfolding release_api_def by (auto split: if_splits)
  moreover have "kn_ResourceVersion quarantined_node = ''1''" by (simp add: quarantined_node_code)
  ultimately show "\<exists>xs. by_others xs \<and> (id h' = id h @ xs \<and> (\<forall>n. r \<noteq> Inr n) \<or>
      (\<exists>n. id h' = id h @ xs @ [(True, n)] \<and> id h @ xs \<noteq> [] \<and>
        (\<forall>v. release_requires p = Some v \<longrightarrow> kn_ResourceVersion (snd (last (id h @ xs))) = v) \<and>
        release_patched p (snd (last (id h @ xs))) n \<and> (\<forall>m. r = Inr m \<longrightarrow> m = n)))"
    using released_version by (intro exI [of _ "[]"]) (auto simp: by_others_def release_requires_def)
qed

theorem release_only_when_recovered_witness:
  "snd release_result = (False, None) \<and>
   (\<exists>base. fresh_base None None 1 [(False, quarantined_node)] base \<and> nothing_left release_reconciler None recovery base)"
proof -
  have cl: "cl_create (rc_cluster release_reconciler) = release_patch" "cl_api (rc_cluster release_reconciler) = release_api"
    "cl_onError (rc_cluster release_reconciler) = retry_steps 3"
    by (simp_all add: release_reconciler_def)
  have annotations: "quarantine_annotations quarantined_node = [(QuarantineHealthEventAnnotationKey, ''[fault]''),
      (AppliedTaintsKey, ''[gpu]''), (IsCordonedKey, ''True'')]" by code_simp
  have got: "getHealthEventsFromAnnotation release_reconciler (NodeName recovery) release_start =
      (release_start, Inr (UnmarshalJSON [fatal_fault], quarantine_annotations quarantined_node))"
    by (simp add: getHealthEventsFromAnnotation_def getNodeQuarantineAnnotations_def getNode_def IsRecoveryContext_def release_start_def
        release_reconciler_def ss_world_def annotations)
  have removed: "ss_world (fst (removeEventFromAnnotation release_reconciler None recovery release_start)) = [(False, quarantined_node)]"
    by code_simp
  have "handleQuarantinedNode [] release_reconciler None one_rule recovery one_evaluator release_start = (fst release_result, False, None)"
    using release_result_value by (simp add: release_result_def prod_eq_iff)
  from release_only_when_recovered [where hist = id, OF _ _ _ _ _ this got refl, unfolded cl, OF release_merge_patches release_applies release_reads retry_steps_contract]
  show ?thesis using release_result_value removed
    by (auto simp: recovery_def release_start_def ss_world_def cachedNodeForPatch_def release_reconciler_def)
qed

end
