(* ===== verification/Remediation_State.thy ===== *)
theory Remediation_State
  imports Node_Patch
begin

text \<open>
  The remediation state that fault-remediation keeps in an annotation of the node
  (\<^verbatim>\<open>fault-remediation/pkg/annotation\<close>): for each equivalence group the maintenance resource in charge and the
  number of attempts of the session, and the counts kept for post-remediation validation.

  The Kubernetes client, \<^verbatim>\<open>retry.RetryOnConflict\<close> and the JSON conversions are arguments. Every operation
  is a function that the retry helper may run several times; the variables it sets outside are threaded
  beside the state \<^verbatim>\<open>'w\<close> of the API server. A nil map decodes to the empty map, and a time is in nanoseconds since
  Go's zero time.
\<close>

section \<open>The annotation\<close>

definition AnnotationKey :: string where
  "AnnotationKey = ''latestFaultRemediationState''"

definition ValidationSessionKey :: string where
  "ValidationSessionKey = ''nvsentinel.nvidia.com/validation-session''"

record EquivalenceGroupState =
  MaintenanceCR :: string
  gs_CreatedAt :: int
  gs_ActionName :: string
  AttemptCount :: int

definition no_group :: EquivalenceGroupState where
  "no_group = \<lparr>MaintenanceCR = [], gs_CreatedAt = 0, gs_ActionName = [], AttemptCount = 0\<rparr>"

record RemediationStateAnnotation =
  EquivalenceGroups :: "(string, EquivalenceGroupState) gomap"
  ValidationAttempts :: "(string, int) gomap"
  ValidationRequests :: "string list"

definition no_remediation :: RemediationStateAnnotation where
  "no_remediation = \<lparr>EquivalenceGroups = [], ValidationAttempts = [], ValidationRequests = []\<rparr>"

text \<open>A missing key reads as the zero value.\<close>

definition group_state :: "RemediationStateAnnotation \<Rightarrow> string \<Rightarrow> EquivalenceGroupState" where
  "group_state st grp = (case map_of (EquivalenceGroups st) grp of None \<Rightarrow> no_group | Some gs \<Rightarrow> gs)"

definition set_group :: "string \<Rightarrow> EquivalenceGroupState \<Rightarrow> RemediationStateAnnotation \<Rightarrow> RemediationStateAnnotation" where
  "set_group grp gs st = st\<lparr>EquivalenceGroups := AList.update grp gs (EquivalenceGroups st)\<rparr>"

section \<open>Changes of the state\<close>

definition endGroupSessions :: "string list \<Rightarrow> RemediationStateAnnotation \<Rightarrow> RemediationStateAnnotation" where
  "endGroupSessions groups st =
     fold (\<lambda>grp st. case map_of (EquivalenceGroups st) grp of
         None \<Rightarrow> st
       | Some gs \<Rightarrow>
           if AttemptCount gs = 0 then st\<lparr>EquivalenceGroups := AList.delete grp (EquivalenceGroups st)\<rparr>
           else set_group grp (no_group\<lparr>AttemptCount := AttemptCount gs\<rparr>) st) groups st"

definition record_attempt :: "string \<Rightarrow> RemediationStateAnnotation \<Rightarrow> RemediationStateAnnotation" where
  "record_attempt grp st =
     (let gs = group_state st grp in set_group grp (gs\<lparr>AttemptCount := AttemptCount gs + 1\<rparr>) st)"

definition record_resource :: "string \<Rightarrow> string \<Rightarrow> string \<Rightarrow> int \<Rightarrow> RemediationStateAnnotation \<Rightarrow> RemediationStateAnnotation" where
  "record_resource grp crName actionName now st =
     set_group grp \<lparr>MaintenanceCR = crName, gs_CreatedAt = now, gs_ActionName = actionName,
       AttemptCount = AttemptCount (group_state st grp)\<rparr> st"

text \<open>The counts that a session hands to validation.\<close>

definition kept_attempts :: "string list \<Rightarrow> RemediationStateAnnotation \<Rightarrow> RemediationStateAnnotation" where
  "kept_attempts session st = \<lparr>EquivalenceGroups = [],
     ValidationAttempts = map (\<lambda>(grp, gs). (grp, AttemptCount gs)) (filter (\<lambda>(_, gs). AttemptCount gs > 0) (EquivalenceGroups st)),
     ValidationRequests = session\<rparr>"

definition resumeValidationAttempts :: "string list \<Rightarrow> RemediationStateAnnotation \<Rightarrow> RemediationStateAnnotation" where
  "resumeValidationAttempts session st =
     (if ValidationAttempts st = [] then st
      else
        let held = list_ex (\<lambda>name. name \<in> set session) (ValidationRequests st);
            resumed = (if held then
                fold (\<lambda>(grp, count) st. let gs = group_state st grp in
                    set_group grp (gs\<lparr>AttemptCount := max (AttemptCount gs) count\<rparr>) st) (ValidationAttempts st) st
              else st)
        in resumed\<lparr>ValidationAttempts := [], ValidationRequests := []\<rparr>)"

section \<open>The manager\<close>

record attempt_vars =
  cap_attemptCount :: int
  cap_state :: RemediationStateAnnotation

type_synonym 'w attempt = "'w \<times> attempt_vars \<Rightarrow> ('w \<times> attempt_vars) \<times> error option"

record 'w NodeAnnotationManager =
  am_Get :: "'w \<Rightarrow> string \<Rightarrow> 'w \<times> (error + kube_node)"
  am_Update :: "'w \<Rightarrow> kube_node \<Rightarrow> 'w \<times> error option"
  am_RetryOnConflict :: "'w attempt \<Rightarrow> 'w attempt"
  am_now :: "'w \<Rightarrow> int"
  unmarshal_state :: "string \<Rightarrow> error + RemediationStateAnnotation"
  marshal_state :: "RemediationStateAnnotation \<Rightarrow> error + string"
  unmarshal_session :: "string \<Rightarrow> error + string list"

definition ParseValidationSession :: "'w NodeAnnotationManager \<Rightarrow> string \<Rightarrow> error + string list" where
  "ParseValidationSession m val =
     (if val = [] then Inr []
      else case unmarshal_session m val of
          Inl e \<Rightarrow> Inl (EWrap (''unmarshal '' @ [CHR 0x22] @ ValidationSessionKey @ [CHR 0x22] @ '' annotation'') e)
        | Inr names \<Rightarrow> Inr names)"

definition annotation_value :: "kube_node \<Rightarrow> string \<Rightarrow> string" where
  "annotation_value n key = (case map_of (entries (kn_Annotations n)) key of None \<Rightarrow> [] | Some v \<Rightarrow> v)"

definition validationSessionRequests :: "'w NodeAnnotationManager \<Rightarrow> kube_node \<Rightarrow> string list" where
  "validationSessionRequests m n =
     (case ParseValidationSession m (annotation_value n ValidationSessionKey) of
        Inl _ \<Rightarrow> []
      | Inr names \<Rightarrow> filter (\<lambda>name. name \<noteq> []) names)"

definition node_remediation_state :: "'w NodeAnnotationManager \<Rightarrow> kube_node \<Rightarrow> RemediationStateAnnotation" where
  "node_remediation_state m n =
     (case map_of (entries (kn_Annotations n)) AnnotationKey of
        None \<Rightarrow> no_remediation
      | Some val \<Rightarrow> (case unmarshal_state m val of Inl _ \<Rightarrow> no_remediation | Inr st \<Rightarrow> st))"

definition GetRemediationState ::
  "'w NodeAnnotationManager \<Rightarrow> string \<Rightarrow> 'w \<Rightarrow> 'w \<times> (error + RemediationStateAnnotation \<times> kube_node)" where
  "GetRemediationState m nodeName w =
     (case am_Get m w nodeName of
        (w1, Inl e) \<Rightarrow> (w1, Inl (EWrap (''failed to get node '' @ nodeName) e))
      | (w1, Inr n) \<Rightarrow> (w1, Inr (node_remediation_state m n, n)))"

definition annotate :: "string \<Rightarrow> string \<Rightarrow> kube_node \<Rightarrow> kube_node" where
  "annotate key val n = n\<lparr>kn_Annotations := Some (AList.update key val (entries (kn_Annotations n)))\<rparr>"

definition delete_annotation :: "string \<Rightarrow> kube_node \<Rightarrow> kube_node" where
  "delete_annotation key n = n\<lparr>kn_Annotations := map_option (AList.delete key) (kn_Annotations n)\<rparr>"

text \<open>The end of every operation that writes a state.\<close>

definition write_state ::
  "'w NodeAnnotationManager \<Rightarrow> RemediationStateAnnotation \<Rightarrow> kube_node \<Rightarrow> 'w \<Rightarrow> 'w \<times> error option" where
  "write_state m st n w =
     (case marshal_state m st of
        Inl e \<Rightarrow> (w, Some e)
      | Inr stateJSON \<Rightarrow> am_Update m w (annotate AnnotationKey stateJSON n))"

definition removeStateAnnotation :: "'w NodeAnnotationManager \<Rightarrow> kube_node \<Rightarrow> 'w \<Rightarrow> 'w \<times> error option" where
  "removeStateAnnotation m n w =
     (if kn_Annotations n = None then (w, None) else am_Update m w (delete_annotation AnnotationKey n))"

definition start :: attempt_vars where
  "start = \<lparr>cap_attemptCount = 0, cap_state = no_remediation\<rparr>"

definition beside :: "attempt_vars \<Rightarrow> 'w \<times> error option \<Rightarrow> ('w \<times> attempt_vars) \<times> error option" where
  "beside c r = ((fst r, c), snd r)"

definition update_state_attempt ::
  "'w NodeAnnotationManager \<Rightarrow> string \<Rightarrow> string \<Rightarrow> string \<Rightarrow> string \<Rightarrow> 'w attempt" where
  "update_state_attempt m nodeName grp crName actionName s =
     (let (w, c) = s in
      case GetRemediationState m nodeName w of
        (w1, Inl e) \<Rightarrow> ((w1, c), Some e)
      | (w1, Inr (st, n)) \<Rightarrow> beside c (write_state m (record_resource grp crName actionName (am_now m w1) st) n w1))"

definition UpdateRemediationState ::
  "'w NodeAnnotationManager \<Rightarrow> string \<Rightarrow> string \<Rightarrow> string \<Rightarrow> string \<Rightarrow> 'w \<Rightarrow> 'w \<times> error option" where
  "UpdateRemediationState m nodeName grp crName actionName w =
     (case am_RetryOnConflict m (update_state_attempt m nodeName grp crName actionName) (w, start) of
        ((w1, _), err) \<Rightarrow> (w1, map_option (EWrap (''failed to update remediation state for node '' @ nodeName)) err))"

definition record_attempt_once :: "'w NodeAnnotationManager \<Rightarrow> string \<Rightarrow> string \<Rightarrow> 'w attempt" where
  "record_attempt_once m nodeName grp s =
     (let (w, c) = s in
      case GetRemediationState m nodeName w of
        (w1, Inl e) \<Rightarrow> ((w1, c), Some e)
      | (w1, Inr (st, n)) \<Rightarrow>
          (let st' = record_attempt grp (resumeValidationAttempts (validationSessionRequests m n) st)
           in beside (c\<lparr>cap_attemptCount := AttemptCount (group_state st' grp)\<rparr>) (write_state m st' n w1)))"

definition RecordRemediationAttempt ::
  "'w NodeAnnotationManager \<Rightarrow> string \<Rightarrow> string \<Rightarrow> 'w \<Rightarrow> 'w \<times> (error + int)" where
  "RecordRemediationAttempt m nodeName grp w =
     (case am_RetryOnConflict m (record_attempt_once m nodeName grp) (w, start) of
        ((w1, _), Some e) \<Rightarrow> (w1, Inl (EWrap (''failed to record remediation attempt for node '' @ nodeName) e))
      | ((w1, c), None) \<Rightarrow> (w1, Inr (cap_attemptCount c)))"

definition clear_attempt :: "'w NodeAnnotationManager \<Rightarrow> string \<Rightarrow> 'w attempt" where
  "clear_attempt m nodeName s =
     (let (w, c) = s in
      case am_Get m w nodeName of
        (w1, Inl e) \<Rightarrow> ((w1, c), Some e)
      | (w1, Inr n) \<Rightarrow> beside c (removeStateAnnotation m n w1))"

definition ClearRemediationState :: "'w NodeAnnotationManager \<Rightarrow> string \<Rightarrow> 'w \<Rightarrow> 'w \<times> error option" where
  "ClearRemediationState m nodeName w =
     (case am_RetryOnConflict m (clear_attempt m nodeName) (w, start) of
        ((w1, _), err) \<Rightarrow> (w1, map_option (EWrap (''failed to clear remediation state for node '' @ nodeName)) err))"

definition keep_attempt :: "'w NodeAnnotationManager \<Rightarrow> string \<Rightarrow> 'w attempt" where
  "keep_attempt m nodeName s =
     (let (w, c) = s in
      case GetRemediationState m nodeName w of
        (w1, Inl e) \<Rightarrow> ((w1, c), Some e)
      | (w1, Inr (st, n)) \<Rightarrow>
          (let session = validationSessionRequests m n; kept = kept_attempts session st in
           if session = [] then beside c (removeStateAnnotation m n w1)
           else if EquivalenceGroups st = [] then ((w1, c), None)
           else if ValidationAttempts kept = [] then beside c (am_Update m w1 (delete_annotation AnnotationKey n))
           else beside c (write_state m kept n w1)))"

definition KeepAttemptsForValidation :: "'w NodeAnnotationManager \<Rightarrow> string \<Rightarrow> 'w \<Rightarrow> 'w \<times> error option" where
  "KeepAttemptsForValidation m nodeName w =
     (case am_RetryOnConflict m (keep_attempt m nodeName) (w, start) of
        ((w1, _), err) \<Rightarrow> (w1, map_option (EWrap (''failed to keep remediation attempts for node '' @ nodeName)) err))"

definition prepare_attempt :: "'w NodeAnnotationManager \<Rightarrow> string \<Rightarrow> 'w attempt" where
  "prepare_attempt m nodeName s =
     (let (w, c) = s in
      case GetRemediationState m nodeName w of
        (w1, Inl e) \<Rightarrow> ((w1, c), Some e)
      | (w1, Inr (st, n)) \<Rightarrow>
          if ValidationAttempts st = [] then ((w1, c\<lparr>cap_state := st\<rparr>), None)
          else
            let st' = resumeValidationAttempts (validationSessionRequests m n) st; c' = c\<lparr>cap_state := st'\<rparr> in
            if EquivalenceGroups st' = [] then beside c' (am_Update m w1 (delete_annotation AnnotationKey n))
            else beside c' (write_state m st' n w1))"

definition PrepareRemediationAttempt ::
  "'w NodeAnnotationManager \<Rightarrow> string \<Rightarrow> 'w \<Rightarrow> 'w \<times> (error + RemediationStateAnnotation)" where
  "PrepareRemediationAttempt m nodeName w =
     (case am_RetryOnConflict m (prepare_attempt m nodeName) (w, start) of
        ((w1, _), Some e) \<Rightarrow> (w1, Inl (EWrap (''failed to prepare remediation attempt for node '' @ nodeName) e))
      | ((w1, c), None) \<Rightarrow> (w1, Inr (cap_state c)))"

definition remove_groups_attempt :: "'w NodeAnnotationManager \<Rightarrow> string \<Rightarrow> string list \<Rightarrow> 'w attempt" where
  "remove_groups_attempt m nodeName groups s =
     (let (w, c) = s in
      case GetRemediationState m nodeName w of
        (w1, Inl e) \<Rightarrow> ((w1, c), Some e)
      | (w1, Inr (st, n)) \<Rightarrow>
          (let st' = endGroupSessions groups st in
           if EquivalenceGroups st' = [] \<and> ValidationAttempts st' = []
           then beside c (am_Update m w1 (delete_annotation AnnotationKey n))
           else beside c (write_state m st' n w1)))"

definition RemoveGroupsFromState :: "'w NodeAnnotationManager \<Rightarrow> string \<Rightarrow> string list \<Rightarrow> 'w \<Rightarrow> 'w \<times> error option" where
  "RemoveGroupsFromState m nodeName groups w =
     (case am_RetryOnConflict m (remove_groups_attempt m nodeName groups) (w, start) of
        ((w1, _), err) \<Rightarrow> (w1, map_option (EWrap (''failed to remove groups from remediation state for node '' @ nodeName)) err))"

end
