(* ===== verification/Remediation_Laws.thy ===== *)
theory Remediation_Laws
  imports Remediation_State Patch_Properties Retry_Contract
begin

text \<open>
  Laws of the remediation state: what each change does to the attempts of a group, and that every operation of the
  annotation manager is an atomic change of the node, whatever other writers do and however stale the
  cache is that it reads.
\<close>

section \<open>Attempts of a group\<close>

abbreviation attempts :: "string \<Rightarrow> RemediationStateAnnotation \<Rightarrow> int" where
  "attempts g st \<equiv> AttemptCount (group_state st g)"

lemma group_state_set [simp]: "group_state (set_group g gs st) h = (if h = g then gs else group_state st h)"
  by (simp add: group_state_def set_group_def update_conv')

lemma group_state_validation [simp]: "group_state (st\<lparr>ValidationAttempts := a, ValidationRequests := b\<rparr>) h = group_state st h"
  by (simp add: group_state_def)

lemma group_state_delete [simp]:
  "group_state (st\<lparr>EquivalenceGroups := AList.delete g (EquivalenceGroups st)\<rparr>) h = (if h = g then no_group else group_state st h)"
  by (simp add: group_state_def delete_conv')

lemma no_group_simps [simp]: "AttemptCount no_group = 0" "MaintenanceCR no_group = []"
  by (simp_all add: no_group_def)

lemma attempts_record: "attempts g (record_attempt h st) = (if g = h then attempts g st + 1 else attempts g st)"
  by (simp add: record_attempt_def Let_def)

lemma attempts_resource: "attempts g (record_resource h cr action now st) = attempts g st"
  by (simp add: record_resource_def)

text \<open>The loops over groups, one step at a time.\<close>

definition end_group :: "string \<Rightarrow> RemediationStateAnnotation \<Rightarrow> RemediationStateAnnotation" where
  "end_group g st = (case map_of (EquivalenceGroups st) g of
       None \<Rightarrow> st
     | Some gs \<Rightarrow>
         if AttemptCount gs = 0 then st\<lparr>EquivalenceGroups := AList.delete g (EquivalenceGroups st)\<rparr>
         else set_group g (no_group\<lparr>AttemptCount := AttemptCount gs\<rparr>) st)"

lemma endGroupSessions_fold: "endGroupSessions gs = fold end_group gs"
  unfolding endGroupSessions_def end_group_def [abs_def] ..

lemma attempts_end_group: "attempts g (end_group h st) = attempts g st"
  by (auto simp: end_group_def group_state_def set_group_def update_conv' delete_conv' split: option.splits)

lemma resource_end_group: "MaintenanceCR (group_state (end_group h st) g) = (if g = h then [] else MaintenanceCR (group_state st g))"
  by (auto simp: end_group_def group_state_def set_group_def update_conv' delete_conv' split: option.splits)

lemma attempts_end: "attempts g (endGroupSessions gs st) = attempts g st"
  unfolding endGroupSessions_fold by (induction gs arbitrary: st) (simp_all add: attempts_end_group)

lemma resource_end:
  "MaintenanceCR (group_state (endGroupSessions gs st) g) = (if g \<in> set gs then [] else MaintenanceCR (group_state st g))"
  unfolding endGroupSessions_fold by (induction gs arbitrary: st) (simp_all add: resource_end_group)

definition resume_group :: "string \<times> int \<Rightarrow> RemediationStateAnnotation \<Rightarrow> RemediationStateAnnotation" where
  "resume_group p st = set_group (fst p) ((group_state st (fst p))\<lparr>AttemptCount := max (attempts (fst p) st) (snd p)\<rparr>) st"

lemma resume_fold:
  "fold (\<lambda>(grp, count) st. let gs = group_state st grp in set_group grp (gs\<lparr>AttemptCount := max (AttemptCount gs) count\<rparr>) st) ps =
   fold resume_group ps"
  by (rule arg_cong [where f = "\<lambda>f. fold f ps"]) (auto simp: resume_group_def Let_def fun_eq_iff)

lemma resume_group_mono: "attempts g st \<le> attempts g (resume_group p st)"
  by (simp add: resume_group_def)

lemma resume_groups_mono: "attempts g st \<le> attempts g (fold resume_group ps st)"
  by (induction ps arbitrary: st) (auto intro: order_trans resume_group_mono)

lemma attempts_resume: "attempts g st \<le> attempts g (resumeValidationAttempts session st)"
  using resume_groups_mono [where g = g and st = st and ps = "ValidationAttempts st"]
  by (simp add: resumeValidationAttempts_def Let_def resume_fold [unfolded Let_def])

lemma resume_fields:
  "ValidationAttempts (resumeValidationAttempts session st) = []"
  "MaintenanceCR (group_state (resumeValidationAttempts session st) g) = MaintenanceCR (group_state st g)"
proof -
  have "MaintenanceCR (group_state (fold resume_group ps st) g) = MaintenanceCR (group_state st g)" for ps
    by (induction ps arbitrary: st) (auto simp: resume_group_def)
  then show "ValidationAttempts (resumeValidationAttempts session st) = []"
    "MaintenanceCR (group_state (resumeValidationAttempts session st) g) = MaintenanceCR (group_state st g)"
    by (auto simp: resumeValidationAttempts_def Let_def resume_fold [unfolded Let_def])
qed

text \<open>The groups that a resumed hand-off knows.\<close>

lemma resume_distinct:
  "wf_gomap ps \<Longrightarrow> attempts g (fold resume_group ps st) =
     (case map_of ps g of None \<Rightarrow> attempts g st | Some n \<Rightarrow> max (attempts g st) n)"
proof (induction ps arbitrary: st)
  case (Cons p ps)
  then show ?case by (cases p) (auto simp: resume_group_def map_of_eq_None_iff [THEN iffD2] split: option.splits
        simp del: map_of_eq_Some_iff)
qed simp

section \<open>A budget\<close>

text \<open>The number of attempts of a trace that leave the counter within the limit.\<close>

fun within_budget :: "('s \<Rightarrow> int) \<Rightarrow> ('x \<Rightarrow> 's \<Rightarrow> 's) \<Rightarrow> ('x \<Rightarrow> bool) \<Rightarrow> int \<Rightarrow> 'x list \<Rightarrow> 's \<Rightarrow> nat" where
  "within_budget counter change is_attempt limit [] s = 0"
| "within_budget counter change is_attempt limit (x # xs) s =
     (if is_attempt x \<and> counter (change x s) \<le> limit then 1 else 0) + within_budget counter change is_attempt limit xs (change x s)"

text \<open>
  What a bounded number of attempts rests on: each attempt raises a counter, and nothing else lowers it
  before the session ends.
\<close>

locale attempt_budget =
  fixes counter :: "'s \<Rightarrow> int" and change :: "'x \<Rightarrow> 's \<Rightarrow> 's" and is_attempt :: "'x \<Rightarrow> bool"
  assumes attempt_counts: "is_attempt x \<Longrightarrow> counter s + 1 \<le> counter (change x s)"
    and change_keeps: "counter s \<le> counter (change x s)"
begin

lemma exhausted: "limit < counter s \<Longrightarrow> within_budget counter change is_attempt limit xs s = 0"
proof (induction xs arbitrary: s)
  case (Cons x xs)
  then show ?case using change_keeps [of s x] by simp
qed simp

lemma bounded: "counter s \<le> limit \<Longrightarrow> counter s + int (within_budget counter change is_attempt limit xs s) \<le> limit"
proof (induction xs arbitrary: s)
  case (Cons x xs)
  show ?case
  proof (cases "counter (change x s) \<le> limit")
    case True
    then show ?thesis using Cons.IH [OF True] change_keeps [of s x] attempt_counts [of x s] by auto
  next
    case False
    then show ?thesis using exhausted [of limit "change x s" xs] Cons.prems by simp
  qed
qed simp

lemma monotone: "counter s \<le> counter (fold change xs s)"
  by (induction xs arbitrary: s) (auto intro: order_trans change_keeps)

end

text \<open>The changes of a session, as the operations of the manager make them.\<close>

datatype ann_change =
    Attempt string "string list"
  | Resource string string string int
  | EndGroups "string list"
  | Resume "string list"

fun apply_change :: "ann_change \<Rightarrow> RemediationStateAnnotation \<Rightarrow> RemediationStateAnnotation" where
  "apply_change (Attempt g session) st = record_attempt g (resumeValidationAttempts session st)"
| "apply_change (Resource g cr action now) st = record_resource g cr action now st"
| "apply_change (EndGroups gs) st = endGroupSessions gs st"
| "apply_change (Resume session) st = resumeValidationAttempts session st"

fun attempt_on :: "string \<Rightarrow> ann_change \<Rightarrow> bool" where
  "attempt_on g (Attempt h session) \<longleftrightarrow> h = g"
| "attempt_on g _ \<longleftrightarrow> False"

interpretation remediation: attempt_budget "attempts g" apply_change "attempt_on g" for g
proof
  fix x st
  have "attempts g st \<le> attempts g (apply_change x st) \<and> (attempt_on g x \<longrightarrow> attempts g st + 1 \<le> attempts g (apply_change x st))"
  proof (cases x)
    case (Attempt h session)
    then show ?thesis using attempts_resume [where g = g and st = st and session = session] by (auto simp: attempts_record)
  qed (simp_all add: attempts_resource attempts_end attempts_resume)
  then show "attempts g st \<le> attempts g (apply_change x st)"
    and "attempt_on g x \<Longrightarrow> attempts g st + 1 \<le> attempts g (apply_change x st)" by auto
qed

section \<open>Operations as atomic changes\<close>

text \<open>
  What the manager relies on. The client reads from a cache: it may return any committed version of the
  node. An update is committed only on top of the version it names, and reports success without a commit only when
  the latest version is that very node; a conflict commits nothing. Versions are never reused. The retry
  helper calls the function again only after a conflict, and reports the last outcome unless that is the error
  of an ended context. A state survives encoding, which fails for no reason of a context.
\<close>

definition cached_reads :: "'w NodeAnnotationManager \<Rightarrow> ('w \<Rightarrow> versions) \<Rightarrow> string \<Rightarrow> bool" where
  "cached_reads m hist name \<longleftrightarrow>
     (\<forall>w w' r. am_Get m w name = (w', r) \<longrightarrow>
        (\<exists>xs. by_others xs \<and> hist w' = hist w @ xs) \<and> (\<forall>n. r = Inr n \<longrightarrow> n \<in> snd ` set (hist w') \<and> kn_Name n = name))"

definition guarded_updates :: "'w NodeAnnotationManager \<Rightarrow> ('w \<Rightarrow> versions) \<Rightarrow> string \<Rightarrow> bool" where
  "guarded_updates m hist name \<longleftrightarrow>
     (\<forall>w w' n r. kn_Name n = name \<longrightarrow> am_Update m w n = (w', r) \<longrightarrow>
        (\<exists>before after. by_others before \<and> by_others after \<and>
           (hist w' = hist w @ before @ after \<and> (r = None \<longrightarrow> hist w @ before \<noteq> [] \<and> snd (last (hist w @ before)) = n) \<or>
            (\<exists>v. hist w' = hist w @ before @ (True, n\<lparr>kn_ResourceVersion := v\<rparr>) # after \<and> hist w @ before \<noteq> [] \<and>
               kn_ResourceVersion (snd (last (hist w @ before))) = kn_ResourceVersion n \<and> (\<forall>e. r = Some e \<longrightarrow> \<not> IsConflict e)))))"

definition unique_versions :: "('w \<Rightarrow> versions) \<Rightarrow> bool" where
  "unique_versions hist \<longleftrightarrow> (\<forall>w. distinct (map (\<lambda>v. kn_ResourceVersion (snd v)) (hist w)))"

definition retries_conflicts :: "'w NodeAnnotationManager \<Rightarrow> bool" where
  "retries_conflicts m \<longleftrightarrow> 
     (\<forall>fn s s' err. am_RetryOnConflict m fn s = (s', err) \<longrightarrow>
        (\<exists>outcome. retried IsConflict fn s s' outcome \<and> retry_reports IsConflict outcome err))"

definition encodes_states :: "'w NodeAnnotationManager \<Rightarrow> bool" where
  "encodes_states m \<longleftrightarrow> (\<forall>st json. marshal_state m st = Inr json \<longrightarrow> unmarshal_state m json = Inr st) \<and>
     (\<forall>st e. marshal_state m st = Inl e \<longrightarrow> \<not> context_done e)"

definition manager_contract :: "'w NodeAnnotationManager \<Rightarrow> ('w \<Rightarrow> versions) \<Rightarrow> string \<Rightarrow> bool" where
  "manager_contract m hist name \<longleftrightarrow> cached_reads m hist name \<and> guarded_updates m hist name \<and> unique_versions hist \<and>
     retries_conflicts m \<and> encodes_states m"

text \<open>The shape of every attempt: read the node, compute a change, write it.\<close>

type_synonym 'w node_change = "'w \<Rightarrow> attempt_vars \<Rightarrow> kube_node \<Rightarrow> attempt_vars \<times> (error + kube_node option)"

definition annotation_try :: "'w NodeAnnotationManager \<Rightarrow> string \<Rightarrow> (error \<Rightarrow> error) \<Rightarrow> 'w node_change \<Rightarrow> 'w attempt" where
  "annotation_try m name wrap f s =
     (case am_Get m (fst s) name of
        (w1, Inl e) \<Rightarrow> ((w1, snd s), Some (wrap e))
      | (w1, Inr n) \<Rightarrow>
          (case f w1 (snd s) n of
             (c, Inl e) \<Rightarrow> ((w1, c), Some e)
           | (c, Inr None) \<Rightarrow> ((w1, c), None)
           | (c, Inr (Some n')) \<Rightarrow> beside c (am_Update m w1 n')))"

definition same_identity :: "'w node_change \<Rightarrow> bool" where
  "same_identity f \<longleftrightarrow> (\<forall>w c n c' n'. f w c n = (c', Inr (Some n')) \<longrightarrow>
     kn_Name n' = kn_Name n \<and> kn_ResourceVersion n' = kn_ResourceVersion n)"

text \<open>The call wrote nothing, or wrote once, on top of the latest version.\<close>

definition quiet_call :: "'w node_change \<Rightarrow> versions \<Rightarrow> versions \<Rightarrow> attempt_vars \<Rightarrow> error option \<Rightarrow> bool" where
  "quiet_call f h h' c r \<longleftrightarrow> (\<exists>new. h' = h @ new \<and> by_others new \<and>
     (r = None \<longrightarrow> (\<exists>wr c0 n. n \<in> snd ` set h' \<and> (f wr c0 n = (c, Inr None) \<or> f wr c0 n = (c, Inr (Some n))))))"

definition writing_call :: "'w node_change \<Rightarrow> versions \<Rightarrow> versions \<Rightarrow> attempt_vars \<Rightarrow> error option \<Rightarrow> bool" where
  "writing_call f h h' c r \<longleftrightarrow>
     (\<exists>before after wr c0 n n' v. h' = h @ before @ (True, n'\<lparr>kn_ResourceVersion := v\<rparr>) # after \<and> by_others before \<and> by_others after \<and>
        h @ before \<noteq> [] \<and> n = snd (last (h @ before)) \<and> f wr c0 n = (c, Inr (Some n')) \<and> (\<forall>e. r = Some e \<longrightarrow> \<not> IsConflict e))"

lemma by_others_append [simp]: "by_others (xs @ ys) \<longleftrightarrow> by_others xs \<and> by_others ys"
  by (auto simp: by_others_def)

lemma version_unique:
  assumes "unique_versions hist" and "x \<in> set (hist w)" and "y \<in> set (hist w)"
    and "kn_ResourceVersion (snd x) = kn_ResourceVersion (snd y)"
  shows "x = y"
  using assms unfolding unique_versions_def by (auto simp: distinct_map inj_on_def)

lemma try_atomic:
  assumes con: "manager_contract m hist name" and f: "same_identity f"
    and call: "annotation_try m name wrap f (w, c) = ((w', c'), r)"
  shows "quiet_call f (hist w) (hist w') c' r \<or> writing_call f (hist w) (hist w') c' r"
proof -
  obtain w1 got where get: "am_Get m w name = (w1, got)" by (cases "am_Get m w name")
  from con get obtain xs where xs: "by_others xs" "hist w1 = hist w @ xs"
    and read: "\<And>n. got = Inr n \<Longrightarrow> n \<in> snd ` set (hist w1) \<and> kn_Name n = name"
    unfolding manager_contract_def cached_reads_def by metis
  show ?thesis
  proof (cases got)
    case (Inl e)
    with call get xs show ?thesis by (auto simp: annotation_try_def quiet_call_def)
  next
    case (Inr n)
    obtain c1 out where out: "f w1 c n = (c1, out)" by (cases "f w1 c n")
    show ?thesis
    proof (cases "\<exists>n'. out = Inr (Some n')")
      case False
      with call get Inr out have "w' = w1" "c' = c1" "r = None \<longrightarrow> out = Inr None"
        by (auto simp: annotation_try_def split: sum.splits option.splits)
      with xs out read [OF Inr] show ?thesis unfolding quiet_call_def by blast
    next
      case True
      then obtain n' where n': "out = Inr (Some n')" by blast
      obtain w2 r2 where upd: "am_Update m w1 n' = (w2, r2)" by (cases "am_Update m w1 n'")
      have res: "w' = w2" "c' = c1" "r = r2" using call get Inr out n' upd by (simp_all add: annotation_try_def beside_def)
      have id: "kn_Name n' = name" "kn_ResourceVersion n' = kn_ResourceVersion n"
        using f out n' read [OF Inr] unfolding same_identity_def by auto
      have upds: "guarded_updates m hist name" and uniq: "unique_versions hist"
        using con by (simp_all add: manager_contract_def)
      obtain before after where b: "by_others before" "by_others after"
        and cases: "hist w2 = hist w1 @ before @ after \<and> (r2 = None \<longrightarrow> hist w1 @ before \<noteq> [] \<and> snd (last (hist w1 @ before)) = n') \<or>
          (\<exists>v. hist w2 = hist w1 @ before @ (True, n'\<lparr>kn_ResourceVersion := v\<rparr>) # after \<and> hist w1 @ before \<noteq> [] \<and>
             kn_ResourceVersion (snd (last (hist w1 @ before))) = kn_ResourceVersion n' \<and> (\<forall>e. r2 = Some e \<longrightarrow> \<not> IsConflict e))"
        using upds [unfolded guarded_updates_def, rule_format, OF id(1) upd] by (elim exE conjE) (rule that)
      obtain vn where vn: "vn \<in> set (hist w1)" "snd vn = n" using read [OF Inr] by auto
      have latest: "n = snd (last (hist w1 @ before))"
        if "hist w1 @ before \<noteq> []" "kn_ResourceVersion (snd (last (hist w1 @ before))) = kn_ResourceVersion n'"
          "set (hist w1 @ before) \<subseteq> set (hist w2)"
      proof -
        have "last (hist w1 @ before) \<in> set (hist w2)" using that(1,3) last_in_set by blast
        moreover have "vn \<in> set (hist w2)" using vn that(3) by auto
        ultimately have "last (hist w1 @ before) = vn" using version_unique [OF uniq, of _ w2] that(2) id(2) vn by metis
        then show ?thesis using vn by simp
      qed
      from cases show ?thesis
      proof
        assume q: "hist w2 = hist w1 @ before @ after \<and> (r2 = None \<longrightarrow> hist w1 @ before \<noteq> [] \<and> snd (last (hist w1 @ before)) = n')"
        then have "r2 = None \<longrightarrow> n' = n" using latest by auto
        then show ?thesis using q xs b out n' res vn unfolding quiet_call_def by (auto 0 4 intro: exI [of _ w1] exI [of _ c])
      next
        assume "\<exists>v. hist w2 = hist w1 @ before @ (True, n'\<lparr>kn_ResourceVersion := v\<rparr>) # after \<and> hist w1 @ before \<noteq> [] \<and>
             kn_ResourceVersion (snd (last (hist w1 @ before))) = kn_ResourceVersion n' \<and> (\<forall>e. r2 = Some e \<longrightarrow> \<not> IsConflict e)"
        then obtain v where v: "hist w2 = hist w1 @ before @ (True, n'\<lparr>kn_ResourceVersion := v\<rparr>) # after" "hist w1 @ before \<noteq> []"
             "kn_ResourceVersion (snd (last (hist w1 @ before))) = kn_ResourceVersion n'" "\<forall>e. r2 = Some e \<longrightarrow> \<not> IsConflict e" by blast
        then have "n = snd (last (hist w1 @ before))" using latest by auto
        then have "writing_call f (hist w) (hist w2) c1 r2" unfolding writing_call_def
          using v xs b out n' by (intro exI [of _ "xs @ before"] exI [of _ after] exI [of _ w1] exI [of _ c] exI [of _ n] exI [of _ n'] exI [of _ v]) auto
        with res show ?thesis by simp
      qed
    qed
  qed
qed

text \<open>A conflict wrote nothing, so a retried call is a call.\<close>

lemma quiet_prepend: "h1 = h @ new0 \<Longrightarrow> by_others new0 \<Longrightarrow> quiet_call f h1 h' c r \<Longrightarrow> quiet_call f h h' c r"
  unfolding quiet_call_def by (elim exE conjE, rule_tac x = "new0 @ new" in exI) simp

lemma writing_prepend: "h1 = h @ new0 \<Longrightarrow> by_others new0 \<Longrightarrow> writing_call f h1 h' c r \<Longrightarrow> writing_call f h h' c r"
  unfolding writing_call_def
  by (elim exE, rule_tac x = "new0 @ before" in exI) auto

lemma retried_atomic:
  assumes "retried IsConflict (annotation_try m name wrap f) s s' r" and "manager_contract m hist name" and "same_identity f"
  shows "quiet_call f (hist (fst s)) (hist (fst s')) (snd s') r \<or> writing_call f (hist (fst s)) (hist (fst s')) (snd s') r"
  using assms(1)
proof (induction rule: retried.induct)
  case (finished s s' e)
  then show ?case using try_atomic [OF assms(2,3), of wrap "fst s" "snd s" "fst s'" "snd s'" e] by simp
next
  case (again s s1 e1 s' e)
  from again(1) have "quiet_call f (hist (fst s)) (hist (fst s1)) (snd s1) (Some e1) \<or> writing_call f (hist (fst s)) (hist (fst s1)) (snd s1) (Some e1)"
    using try_atomic [OF assms(2,3), of wrap "fst s" "snd s" "fst s1" "snd s1" "Some e1"] by simp
  with again(2) obtain new0 where "hist (fst s1) = hist (fst s) @ new0" "by_others new0"
    unfolding quiet_call_def writing_call_def by blast
  with again.IH show ?case using quiet_prepend writing_prepend by metis
qed

text \<open>A call is cut off when the request that led to its final state failed because the context had ended.\<close>

definition request_cut_off :: "'w NodeAnnotationManager \<Rightarrow> string \<Rightarrow> 'w \<Rightarrow> bool" where
  "request_cut_off m name w' \<longleftrightarrow>
     (\<exists>w0 e. context_done e \<and>
        (am_Get m w0 name = (w', Inl e) \<or> (\<exists>n. kn_Name n = name \<and> am_Update m w0 n = (w', Some e))))"

lemma try_cut_off:
  assumes con: "manager_contract m hist name" and id: "same_identity f"
    and f: "\<And>w c n c' e. f w c n = (c', Inl e) \<Longrightarrow> \<not> context_done e" and wrap: "\<And>e. context_done (wrap e) \<Longrightarrow> context_done e"
    and call: "annotation_try m name wrap f s = (s', Some e)" and ended: "context_done e"
  shows "request_cut_off m name (fst s')"
proof -
  obtain w1 got where get: "am_Get m (fst s) name = (w1, got)" by (cases "am_Get m (fst s) name")
  show ?thesis
  proof (cases got)
    case (Inl e0)
    with call get have res: "am_Get m (fst s) name = (fst s', Inl e0)" "e = wrap e0" by (auto simp: annotation_try_def)
    with ended wrap have "context_done e0" by blast
    with res show ?thesis unfolding request_cut_off_def by blast
  next
    case (Inr n)
    with con get have name: "kn_Name n = name" unfolding manager_contract_def cached_reads_def by blast
    from call get Inr f ended obtain c n' where fn: "f w1 (snd s) n = (c, Inr (Some n'))" and "am_Update m w1 n' = (fst s', Some e)"
      by (auto simp: annotation_try_def beside_def split: prod.splits sum.splits option.splits) (metis prod.collapse)
    moreover from id fn name have "kn_Name n' = name" unfolding same_identity_def by blast
    ultimately show ?thesis using ended by (auto simp: request_cut_off_def)
  qed
qed

lemma retried_last:
  "retried retriable fn s s' outcome \<Longrightarrow> \<exists>s0. fn s0 = (s', outcome)"
  by (induction rule: retried.induct) blast+

section \<open>The operations of a session\<close>

definition written :: "'w NodeAnnotationManager \<Rightarrow> RemediationStateAnnotation \<Rightarrow> kube_node \<Rightarrow> error + kube_node option" where
  "written m st n = (case marshal_state m st of Inl e \<Rightarrow> Inl e | Inr json \<Rightarrow> Inr (Some (annotate AnnotationKey json n)))"

definition attempt_change :: "'w NodeAnnotationManager \<Rightarrow> string \<Rightarrow> 'w node_change" where
  "attempt_change m g w c n =
     (let st = apply_change (Attempt g (validationSessionRequests m n)) (node_remediation_state m n)
      in (c\<lparr>cap_attemptCount := attempts g st\<rparr>, written m st n))"

definition resource_change :: "'w NodeAnnotationManager \<Rightarrow> string \<Rightarrow> string \<Rightarrow> string \<Rightarrow> 'w node_change" where
  "resource_change m g cr action w c n = (c, written m (apply_change (Resource g cr action (am_now m w)) (node_remediation_state m n)) n)"

definition remove_change :: "'w NodeAnnotationManager \<Rightarrow> string list \<Rightarrow> 'w node_change" where
  "remove_change m gs w c n =
     (let st = apply_change (EndGroups gs) (node_remediation_state m n)
      in (c, if EquivalenceGroups st = [] \<and> ValidationAttempts st = [] then Inr (Some (delete_annotation AnnotationKey n)) else written m st n))"

definition prepare_change :: "'w NodeAnnotationManager \<Rightarrow> 'w node_change" where
  "prepare_change m w c n =
     (let st = node_remediation_state m n; st' = apply_change (Resume (validationSessionRequests m n)) st in
      if ValidationAttempts st = [] then (c\<lparr>cap_state := st\<rparr>, Inr None)
      else (c\<lparr>cap_state := st'\<rparr>, if EquivalenceGroups st' = [] then Inr (Some (delete_annotation AnnotationKey n)) else written m st' n))"

abbreviation get_failed :: "string \<Rightarrow> error \<Rightarrow> error" where
  "get_failed name \<equiv> EWrap (''failed to get node '' @ name)"

lemmas try_defs = annotation_try_def GetRemediationState_def written_def write_state_def beside_def Let_def
lemmas change_defs = attempt_change_def resource_change_def remove_change_def prepare_change_def

lemma attempts_are_tries:
  "record_attempt_once m name g = annotation_try m name (get_failed name) (attempt_change m g)"
  "update_state_attempt m name g cr action = annotation_try m name (get_failed name) (resource_change m g cr action)"
  "remove_groups_attempt m name gs = annotation_try m name (get_failed name) (remove_change m gs)"
  "prepare_attempt m name = annotation_try m name (get_failed name) (prepare_change m)"
  by (auto simp: fun_eq_iff record_attempt_once_def update_state_attempt_def remove_groups_attempt_def prepare_attempt_def
      change_defs try_defs split: prod.splits sum.splits)

lemma changes_identity:
  "same_identity (attempt_change m g)" "same_identity (resource_change m g cr action)"
  "same_identity (remove_change m gs)" "same_identity (prepare_change m)"
  by (auto simp: same_identity_def change_defs written_def annotate_def delete_annotation_def Let_def split: sum.splits if_splits)

text \<open>Two states that no operation tells apart, and what a write leaves alone.\<close>

definition agrees :: "RemediationStateAnnotation \<Rightarrow> RemediationStateAnnotation \<Rightarrow> bool" where
  "agrees a b \<longleftrightarrow> EquivalenceGroups a = EquivalenceGroups b \<and> ValidationAttempts a = ValidationAttempts b \<and>
     (ValidationAttempts a \<noteq> [] \<longrightarrow> ValidationRequests a = ValidationRequests b)"

definition annotation_only :: "kube_node \<Rightarrow> kube_node \<Rightarrow> bool" where
  "annotation_only n n' \<longleftrightarrow> kn_Name n' = kn_Name n \<and> kn_Labels n' = kn_Labels n \<and> kn_Taints n' = kn_Taints n \<and>
     kn_Unschedulable n' = kn_Unschedulable n \<and>
     (\<forall>k. k \<noteq> AnnotationKey \<longrightarrow> map_of (entries (kn_Annotations n')) k = map_of (entries (kn_Annotations n)) k)"

lemma entries_map_option: "entries (map_option (AList.delete k) x) = AList.delete k (entries x)"
  by (cases x) (simp_all add: entries_def)

lemma written_state:
  assumes "encodes_states m" and "written m st n = Inr (Some n')"
  shows "node_remediation_state m (n'\<lparr>kn_ResourceVersion := v\<rparr>) = st" and "annotation_only n (n'\<lparr>kn_ResourceVersion := v\<rparr>)"
  using assms by (auto simp: written_def encodes_states_def node_remediation_state_def annotate_def annotation_only_def entries_def update_conv'
      split: sum.splits)

lemma deleted_state:
  "node_remediation_state m ((delete_annotation AnnotationKey n)\<lparr>kn_ResourceVersion := v\<rparr>) = no_remediation"
  "annotation_only n ((delete_annotation AnnotationKey n)\<lparr>kn_ResourceVersion := v\<rparr>)"
  by (auto simp: node_remediation_state_def delete_annotation_def annotation_only_def entries_map_option delete_conv')

datatype session_op = OpRecord string | OpResource string string string | OpRemove "string list" | OpPrepare

definition counted :: "'w \<times> error option \<Rightarrow> 'w \<times> (error + int)" where
  "counted p = (fst p, case snd p of Some e \<Rightarrow> Inl e | None \<Rightarrow> Inr 0)"

fun run_session_op :: "'w NodeAnnotationManager \<Rightarrow> string \<Rightarrow> session_op \<Rightarrow> 'w \<Rightarrow> 'w \<times> (error + int)" where
  "run_session_op m name (OpRecord g) w = RecordRemediationAttempt m name g w"
| "run_session_op m name (OpResource g cr action) w = counted (UpdateRemediationState m name g cr action w)"
| "run_session_op m name (OpRemove gs) w = counted (RemoveGroupsFromState m name gs w)"
| "run_session_op m name OpPrepare w = (case PrepareRemediationAttempt m name w of (w1, res) \<Rightarrow> (w1, map_sum id (\<lambda>_. 0) res))"

text \<open>The change that an operation makes of a version.\<close>

fun op_changes :: "'w NodeAnnotationManager \<Rightarrow> session_op \<Rightarrow> kube_node \<Rightarrow> ann_change \<Rightarrow> bool" where
  "op_changes m (OpRecord g) n x \<longleftrightarrow> x = Attempt g (validationSessionRequests m n)"
| "op_changes m (OpResource g cr action) n x \<longleftrightarrow> (\<exists>now. x = Resource g cr action now)"
| "op_changes m (OpRemove gs) n x \<longleftrightarrow> x = EndGroups gs"
| "op_changes m OpPrepare n x \<longleftrightarrow> x = Resume (validationSessionRequests m n)"

fun op_change :: "'w NodeAnnotationManager \<Rightarrow> session_op \<Rightarrow> 'w node_change" where
  "op_change m (OpRecord g) = attempt_change m g"
| "op_change m (OpResource g cr action) = resource_change m g cr action"
| "op_change m (OpRemove gs) = remove_change m gs"
| "op_change m OpPrepare = prepare_change m"

lemma op_identity: "same_identity (op_change m op)"
  by (cases op) (simp_all add: changes_identity)

lemma op_change_plain:
  assumes "encodes_states m" and "op_change m op w c n = (c', Inl e)"
  shows "\<not> context_done e"
  using assms by (cases op) (auto simp: encodes_states_def change_defs written_def Let_def split: sum.splits if_splits)

lemma op_retried:
  assumes con: "manager_contract m hist name" and op: "run_session_op m name op w = (w', res)"
  obtains c r where "retried IsConflict (annotation_try m name (get_failed name) (op_change m op)) (w, start) (w', c) r"
    and "(\<exists>k. res = Inr k) \<longrightarrow> r = None \<or> request_cut_off m name w'"
    and "\<forall>g k. op = OpRecord g \<longrightarrow> res = Inr k \<longrightarrow> k = cap_attemptCount c"
proof -
  let ?fn = "annotation_try m name (get_failed name) (op_change m op)"
  obtain w2 c err where run: "am_RetryOnConflict m ?fn (w, start) = ((w2, c), err)" by (metis prod.exhaust)
  then obtain r where r: "retried IsConflict ?fn (w, start) (w2, c) r" "retry_reports IsConflict r err"
    using con unfolding manager_contract_def retries_conflicts_def by blast
  have res: "w' = w2 \<and> (err = None) = (\<exists>k. res = Inr k) \<and> (\<forall>g k. op = OpRecord g \<longrightarrow> res = Inr k \<longrightarrow> k = cap_attemptCount c)"
    using op run by (cases op) (auto simp: RecordRemediationAttempt_def UpdateRemediationState_def RemoveGroupsFromState_def
        PrepareRemediationAttempt_def attempts_are_tries counted_def split: prod.splits option.splits)
  have enc: "encodes_states m" using con by (simp add: manager_contract_def)
  have "r = None \<or> request_cut_off m name w'" if "err = None"
    using r(2)
  proof (cases rule: retry_reportsE)
    case (hidden e)
    with retried_last [OF r(1)] obtain s0 where "?fn s0 = ((w2, c), Some e)" by blast
    from try_cut_off [OF con op_identity _ _ this hidden(3)] op_change_plain [OF enc] have "request_cut_off m name w2" by auto
    with res show ?thesis by simp
  qed (use that in simp)
  then show ?thesis using r(1) res that by blast
qed

lemma op_effect:
  assumes "encodes_states m" and "op_change m op w c n = (c', Inr (Some n'))"
  shows "\<exists>x. op_changes m op n x \<and> agrees (node_remediation_state m (n'\<lparr>kn_ResourceVersion := v\<rparr>)) (apply_change x (node_remediation_state m n))"
    and "annotation_only n (n'\<lparr>kn_ResourceVersion := v\<rparr>)"
    and "op = OpRecord g \<Longrightarrow> cap_attemptCount c' = attempts g (node_remediation_state m (n'\<lparr>kn_ResourceVersion := v\<rparr>))"
proof -
  note ws = written_state [OF assms(1), where v = v]
  show "\<exists>x. op_changes m op n x \<and> agrees (node_remediation_state m (n'\<lparr>kn_ResourceVersion := v\<rparr>)) (apply_change x (node_remediation_state m n))"
    using assms(2) resume_fields(1) [of "validationSessionRequests m n" "node_remediation_state m n"]
    by (cases op) (auto simp: change_defs agrees_def Let_def ws(1) deleted_state no_remediation_def split: if_splits simp del: apply_change.simps(1,2)
        dest: ws(1))
  show "annotation_only n (n'\<lparr>kn_ResourceVersion := v\<rparr>)"
    using assms(2) by (cases op) (auto simp: change_defs Let_def deleted_state split: if_splits dest: ws(2))
  show "op = OpRecord g \<Longrightarrow> cap_attemptCount c' = attempts g (node_remediation_state m (n'\<lparr>kn_ResourceVersion := v\<rparr>))"
    using assms(2) by (auto simp: change_defs Let_def dest: ws(1))
qed

lemma record_not_idle:
  assumes "encodes_states m" and "attempt_change m g w c n = (c', out)"
  shows "out \<noteq> Inr None \<and> out \<noteq> Inr (Some n)"
proof -
  have "out \<noteq> Inr (Some n)"
  proof
    assume "out = Inr (Some n)"
    with assms(2) have w: "written m (apply_change (Attempt g (validationSessionRequests m n)) (node_remediation_state m n)) n = Inr (Some n)"
      by (auto simp: attempt_change_def Let_def)
    from written_state(1) [OF assms(1) w, of "kn_ResourceVersion n"]
    have "node_remediation_state m n = apply_change (Attempt g (validationSessionRequests m n)) (node_remediation_state m n)" by simp
    then have "attempts g (node_remediation_state m n) = attempts g (apply_change (Attempt g (validationSessionRequests m n)) (node_remediation_state m n))"
      by simp
    then show False
      using remediation.attempt_counts [of g "Attempt g (validationSessionRequests m n)" "node_remediation_state m n"] by simp
  qed
  with assms(2) show ?thesis by (auto simp: attempt_change_def written_def Let_def split: sum.splits)
qed

end
