(* ===== verification/Remediation_Config.thy ===== *)
theory Remediation_Config
  imports Remediation_State Custom_Drain
begin

text \<open>
  The configuration of fault-remediation and its validation (\<^verbatim>\<open>fault-remediation/pkg/config/config.go\<close>), the equivalence
  groups of an event (\<^verbatim>\<open>pkg/common/equivalence_groups.go\<close>) and the state of a maintenance resource
  (\<^verbatim>\<open>pkg/crstatus/checker.go\<close>). The file system and the Kubernetes client are arguments.
\<close>

section \<open>Configuration\<close>

record MaintenanceResource =
  mr_Namespace :: string
  mr_Version :: string
  mr_ApiGroup :: string
  mr_Kind :: string
  CompleteConditionType :: string
  mr_Scope :: string
  TemplateFileName :: string
  EquivalenceGroup :: string
  ImpactedEntityScope :: string
  mr_SupersedingEquivalenceGroups :: "string list"

record fr_TomlConfig =
  MountPath :: string
  RemediationActions :: "(string, MaintenanceResource) gomap"
  MaxRemediationAttempts :: int

definition sortedActionNames :: "(string, MaintenanceResource) gomap \<Rightarrow> string list" where
  "sortedActionNames actions = sort (map_keys actions)"

definition apostrophes :: "string \<Rightarrow> string" where
  "apostrophes s = CHR 0x27 # s @ [CHR 0x27]"

definition about_action :: "string \<Rightarrow> string" where
  "about_action actionName = ''action '' @ apostrophes actionName"

definition validateTemplate :: "fr_TomlConfig \<Rightarrow> error option" where
  "validateTemplate c = (if MountPath c = [] then Some (EText ''template mountPath must be non-empty'') else None)"

definition builtin_actions :: "string list" where
  "builtin_actions = map recommended_action_name [RA_NONE, COMPONENT_RESET, CONTACT_SUPPORT, RUN_FIELDDIAG, RESTART_VM,
     RESTART_BM, REPLACE_VM, RUN_DCGMEUD, CUSTOM, RA_UNKNOWN]"

definition validateResourceImpactedEntityScope :: "string \<Rightarrow> MaintenanceResource \<Rightarrow> error option" where
  "validateResourceImpactedEntityScope actionName resource =
     (if ImpactedEntityScope resource = [] then None
      else if actionName \<in> set builtin_actions \<and> actionName \<noteq> recommended_action_name COMPONENT_RESET then
        Some (EText (''built-in '' @ about_action actionName @ '' cannot have an ImpactedEntityScope; only COMPONENT_RESET and custom actions support this''))
      else if map_of EntityTypeToResourceNames (ImpactedEntityScope resource) = None then
        Some (EText (about_action actionName @ '' cannot use ImpactedEntityScope '' @ apostrophes (ImpactedEntityScope resource) @
          '': entity type does not support partial draining''))
      else None)"

datatype file_status = FileExists | FileNotExist | FileError error

type_synonym file_system = "string \<Rightarrow> string \<Rightarrow> string \<times> file_status"

definition validateTemplateFileExists :: "file_system \<Rightarrow> fr_TomlConfig \<Rightarrow> string \<Rightarrow> string \<Rightarrow> error option" where
  "validateTemplateFileExists stat c actionName templateFileName =
     (case stat (MountPath c) templateFileName of
        (templatePath, FileExists) \<Rightarrow> None
      | (templatePath, FileNotExist) \<Rightarrow>
          Some (EText (about_action actionName @ '' references template file '' @ apostrophes templateFileName @
            '' which does not exist at path '' @ apostrophes templatePath))
      | (templatePath, FileError err) \<Rightarrow>
          Some (EWrap (about_action actionName @ '' cannot access template file '' @ apostrophes templateFileName @
            '' at path '' @ apostrophes templatePath) err))"

definition validateScope :: "string \<Rightarrow> string \<Rightarrow> string \<Rightarrow> error option" where
  "validateScope actionName scope namespace =
     (if scope = [] \<or> scope = ''Cluster'' then None
      else if scope = ''Namespaced'' then
        (if namespace = [] then Some (EText (about_action actionName @ '' is Namespaced but no namespace is specified'')) else None)
      else Some (EText (about_action actionName @ '' has invalid scope '' @ apostrophes scope @ '', must be '' @
        apostrophes ''Cluster'' @ '' or '' @ apostrophes ''Namespaced'')))"

definition validateRemediationAction :: "file_system \<Rightarrow> fr_TomlConfig \<Rightarrow> string \<Rightarrow> MaintenanceResource \<Rightarrow> error option" where
  "validateRemediationAction stat c actionName resource =
     (if EquivalenceGroup resource = [] then Some (EText (about_action actionName @ '' must have a non-empty EquivalenceGroup''))
      else case validateResourceImpactedEntityScope actionName resource of
          Some e \<Rightarrow> Some e
        | None \<Rightarrow>
            if TemplateFileName resource = [] then Some (EText (about_action actionName @ '' must have a non-empty templateFileName''))
            else case validateTemplateFileExists stat c actionName (TemplateFileName resource) of
                Some e \<Rightarrow> Some e
              | None \<Rightarrow> validateScope actionName (mr_Scope resource) (mr_Namespace resource))"

text \<open>A loop that stops at the first error.\<close>

fun first_error :: "('a \<Rightarrow> error option) \<Rightarrow> 'a list \<Rightarrow> error option" where
  "first_error f [] = None"
| "first_error f (x # xs) = (case f x of Some e \<Rightarrow> Some e | None \<Rightarrow> first_error f xs)"

fun find_superseding :: "string \<Rightarrow> string \<Rightarrow> (string, MaintenanceResource) gomap \<Rightarrow> string list \<Rightarrow> bool \<Rightarrow> error option" where
  "find_superseding actionName grp actions [] foundGroup =
     (if foundGroup then None
      else Some (EText (about_action actionName @ '': superseding EquivalenceGroup '' @ grp @ '' must be defined in config'')))"
| "find_superseding actionName grp actions (name # names) foundGroup =
     (case map_of actions name of
        None \<Rightarrow> find_superseding actionName grp actions names foundGroup
      | Some resource \<Rightarrow>
          if grp \<noteq> EquivalenceGroup resource then find_superseding actionName grp actions names foundGroup
          else if ImpactedEntityScope resource \<noteq> [] then
            Some (EText (about_action actionName @ '': superseding EquivalenceGroup '' @ EquivalenceGroup resource @
              '' cannot have an ImpactedEntityScope defined: '' @ ImpactedEntityScope resource))
          else find_superseding actionName grp actions names True)"

definition validateOneSupersedingGroup ::
  "string \<Rightarrow> string \<Rightarrow> MaintenanceResource \<Rightarrow> (string, MaintenanceResource) gomap \<Rightarrow> error option" where
  "validateOneSupersedingGroup actionName grp resource actions =
     (if grp = EquivalenceGroup resource then
        Some (EText (about_action actionName @ '': SupersedingEquivalenceGroup cannot include the EquivalenceGroup itself: '' @ grp))
      else find_superseding actionName grp actions (sortedActionNames actions) False)"

definition validateSupersedingGroups :: "fr_TomlConfig \<Rightarrow> string \<Rightarrow> MaintenanceResource \<Rightarrow> error option" where
  "validateSupersedingGroups c actionName resource =
     first_error (\<lambda>grp. validateOneSupersedingGroup actionName grp resource (RemediationActions c)) (mr_SupersedingEquivalenceGroups resource)"

text \<open>The names come from the map, so every lookup succeeds.\<close>

definition at_action :: "fr_TomlConfig \<Rightarrow> (string \<Rightarrow> MaintenanceResource \<Rightarrow> error option) \<Rightarrow> string \<Rightarrow> error option" where
  "at_action c check actionName = (case map_of (RemediationActions c) actionName of None \<Rightarrow> None | Some r \<Rightarrow> check actionName r)"

definition fr_Validate :: "file_system \<Rightarrow> fr_TomlConfig \<Rightarrow> error option" where
  "fr_Validate stat c =
     (if MaxRemediationAttempts c < 0 then
        Some (EText (''maxRemediationAttempts must be non-negative (got '' @ fmt_int (MaxRemediationAttempts c) @ ''); use 0 to disable the cap''))
      else case validateTemplate c of
          Some e \<Rightarrow> Some e
        | None \<Rightarrow>
            (let actionNames = sortedActionNames (RemediationActions c) in
             case first_error (at_action c (validateRemediationAction stat c)) actionNames of
               Some e \<Rightarrow> Some e
             | None \<Rightarrow> first_error (at_action c (validateSupersedingGroups c)) actionNames))"

section \<open>Equivalence groups\<close>

record EquivalenceGroupConfig =
  EffectiveEquivalenceGroup :: string
  ImpactedEntityScopeValue :: string
  SupersedingEquivalenceGroups :: "string list"

text \<open>The loop keeps the last entity of the type.\<close>

definition scoped_group :: "MaintenanceResource \<Rightarrow> entity list \<Rightarrow> string \<times> string" where
  "scoped_group actionConfig entities =
     fold (\<lambda>en acc. if EntityType en = ImpactedEntityScope actionConfig
         then (EquivalenceGroup actionConfig @ ''-'' @ EntityValue en, EntityValue en) else acc) entities ([], [])"

definition GetGroupConfigForEvent ::
  "(string, MaintenanceResource) gomap \<Rightarrow> health_event \<Rightarrow> error + EquivalenceGroupConfig option" where
  "GetGroupConfigForEvent remediationActions healthEvent =
     (let actionName = GetEffectiveActionName healthEvent in
      case map_of remediationActions actionName of
        None \<Rightarrow> Inr None
      | Some actionConfig \<Rightarrow>
          if ImpactedEntityScope actionConfig \<noteq> [] then
            (let (equivalenceGroupName, val) = scoped_group actionConfig (EntitiesImpacted healthEvent) in
             if equivalenceGroupName = [] then
               Inl (EText (''HealthEvent is missing impacted entity for '' @ ImpactedEntityScope actionConfig @ '' required by action '' @ actionName))
             else Inr (Some \<lparr>EffectiveEquivalenceGroup = equivalenceGroupName, ImpactedEntityScopeValue = val,
               SupersedingEquivalenceGroups = mr_SupersedingEquivalenceGroups actionConfig\<rparr>))
          else Inr (Some \<lparr>EffectiveEquivalenceGroup = EquivalenceGroup actionConfig, ImpactedEntityScopeValue = [],
            SupersedingEquivalenceGroups = mr_SupersedingEquivalenceGroups actionConfig\<rparr>))"

definition all_groups :: "EquivalenceGroupConfig \<Rightarrow> string list" where
  "all_groups groupConfig = EffectiveEquivalenceGroup groupConfig # SupersedingEquivalenceGroups groupConfig"

definition FilterEquivalenceGroupStates ::
  "EquivalenceGroupConfig \<Rightarrow> RemediationStateAnnotation \<Rightarrow> (string, EquivalenceGroupState) gomap" where
  "FilterEquivalenceGroupStates groupConfig remediationState =
     fold (\<lambda>currentGroup matching. case map_of (EquivalenceGroups remediationState) currentGroup of
         None \<Rightarrow> matching | Some gs \<Rightarrow> AList.update currentGroup gs matching) (all_groups groupConfig) []"

section \<open>The state of a maintenance resource\<close>

datatype CRState = CRStateNotFound | CRStateInProgress | CRStateSucceeded | CRStateFailed

text \<open>A resource is what its status conditions are: \<^verbatim>\<open>None\<close> when they are missing or malformed.\<close>

record 'w CRStatusChecker =
  cs_Get :: "'w \<Rightarrow> group_version_kind \<Rightarrow> string \<Rightarrow> string \<Rightarrow> 'w \<times> (error + cr_condition option list option)"
  cs_remediationActions :: "(string, MaintenanceResource) gomap"
  cs_dryRun :: bool

definition text_or_empty :: "string option \<Rightarrow> string" where
  "text_or_empty v = (case v of None \<Rightarrow> [] | Some s \<Rightarrow> s)"

fun findConditionStatus :: "cr_condition option list \<Rightarrow> string \<Rightarrow> string" where
  "findConditionStatus [] completeConditionType = []"
| "findConditionStatus (cond # rest) completeConditionType =
     (case cond of
        None \<Rightarrow> findConditionStatus rest completeConditionType
      | Some c \<Rightarrow> if text_or_empty (cc_type c) = completeConditionType then text_or_empty (cc_status c)
          else findConditionStatus rest completeConditionType)"

definition checkCondition :: "cr_condition option list option \<Rightarrow> MaintenanceResource \<Rightarrow> CRState" where
  "checkCondition obj resource =
     (case obj of
        None \<Rightarrow> CRStateInProgress
      | Some conditions \<Rightarrow>
          (let conditionStatus = findConditionStatus conditions (CompleteConditionType resource) in
           if conditionStatus = ''True'' then CRStateSucceeded
           else if conditionStatus = ''False'' then CRStateFailed
           else CRStateInProgress))"

definition GetCRState :: "'w CRStatusChecker \<Rightarrow> string \<Rightarrow> string \<Rightarrow> 'w \<Rightarrow> 'w \<times> (error + CRState)" where
  "GetCRState c actionName crName w =
     (case map_of (cs_remediationActions c) actionName of
        None \<Rightarrow> (w, Inr CRStateNotFound)
      | Some resource \<Rightarrow>
          if cs_dryRun c then (w, Inr CRStateNotFound)
          else
            case cs_Get c w (mr_ApiGroup resource, mr_Version resource, mr_Kind resource) (mr_Namespace resource) crName of
              (w1, Inl err) \<Rightarrow>
                if IsNotFound err then (w1, Inr CRStateNotFound)
                else (w1, Inl (EWrap (''failed to get '' @ mr_Kind resource @ '' '' @ crName) err))
            | (w1, Inr obj) \<Rightarrow> (w1, Inr (checkCondition obj resource)))"

end
