(* ===== verification/Remediation_Client.thy ===== *)
theory Remediation_Client
  imports Remediation_Config
begin

text \<open>
  The client of fault-remediation (\<^verbatim>\<open>fault-remediation/pkg/remediation/remediation.go\<close>, with the templates of
  \<^verbatim>\<open>commons/pkg/templates\<close>): it creates the maintenance resource of an event and runs the log collector.

  The Kubernetes client, the template engine, YAML decoding, the file system, the environment, the
  hash function and the tracer are arguments. A rendered object has a name, owner references
  and a body of type \<^verbatim>\<open>'b\<close>. Metrics are left out, except for the annotation on the job that guards them.
\<close>

section \<open>Data\<close>

text \<open>What a reconcile function returns: a result with its delay, an error, or a panic.\<close>

datatype reconcile_result = ResultAfter int | ResultError error | ResultPanic

definition zero_result :: reconcile_result where
  "zero_result = ResultAfter 0"

record owner_node =
  on_Name :: string
  on_UID :: string

record 'b cr_object =
  co_Name :: string
  co_OwnerReferences :: "owner_node list"
  co_Body :: 'b

record fr_TemplateData =
  ft_NodeName :: string
  ft_ImpactedEntityScopeValue :: string
  ft_HealthEventID :: string
  ft_RecommendedAction :: recommended_action
  ft_RecommendedActionName :: string
  ft_TraceID :: string
  ft_SpanID :: string
  ft_HealthEvent :: health_event
  ft_ApiGroup :: string
  ft_Version :: string
  ft_Kind :: string
  ft_Namespace :: string

record job =
  jb_Name :: string
  jb_Namespace :: string
  jb_Labels :: "(string, string) gomap option"
  jb_Annotations :: "(string, string) gomap option"
  jb_NodeName :: string
  jb_Conditions :: "(string \<times> string) list"
  jb_CreationTimestamp :: int
  jb_StartTime :: "int option"
  jb_CompletionTime :: "int option"

record ('w, 't, 'b) FaultRemediationClient =
  rc_annotationManager :: "'w NodeAnnotationManager"
  rc_statusChecker :: "'w CRStatusChecker"
  remediationConfig :: fr_TomlConfig
  rc_dryRun :: bool
  rc_templates :: "(string, 't) gomap"
  template_Execute :: "'t \<Rightarrow> fr_TemplateData \<Rightarrow> error + string"
  yaml_Unmarshal :: "string \<Rightarrow> error + 'b cr_object"
  rc_GetNode :: "'w \<Rightarrow> string \<Rightarrow> 'w \<times> (error + owner_node)"
  rc_Create :: "'w \<Rightarrow> 'b cr_object \<Rightarrow> 'w \<times> error option"
  rc_manifest :: "'w \<Rightarrow> error + error + job"
  rc_ListJobs :: "'w \<Rightarrow> (string, string) gomap \<Rightarrow> string \<Rightarrow> 'w \<times> (error + job list)"
  rc_CreateJob :: "'w \<Rightarrow> job \<Rightarrow> 'w \<times> error option"
  rc_UpdateJob :: "'w \<Rightarrow> job \<Rightarrow> 'w \<times> error option"
  FindStatusCondition :: "(string \<times> string) list \<Rightarrow> string \<Rightarrow> string option"
  sha256_hex :: "string \<Rightarrow> string"
  timeoutEnv :: string
  ParseDuration :: "string \<Rightarrow> int option"
  rc_now :: "'w \<Rightarrow> int"
  TraceIDFromMetadata :: "(string, string) gomap \<Rightarrow> string"
  rc_SpanID :: "'w \<Rightarrow> string"

definition IsAlreadyExists :: "error \<Rightarrow> bool" where
  "IsAlreadyExists e \<longleftrightarrow> status_reason e = Some ''AlreadyExists''"

section \<open>Templates\<close>

record 't template_loader =
  tl_Stat :: file_system
  tl_ReadFile :: "string \<Rightarrow> error + string"
  tl_Parse :: "string \<Rightarrow> string \<Rightarrow> error + 't"

definition LoadTemplate :: "'t template_loader \<Rightarrow> string \<Rightarrow> string \<Rightarrow> string \<Rightarrow> error + 't" where
  "LoadTemplate l mountPath fileName templateName =
     (let (templatePath, stat) = tl_Stat l mountPath fileName in
      if stat = FileNotExist then Inl (EText (''template file does not exist: '' @ templatePath))
      else case tl_ReadFile l templatePath of
          Inl e \<Rightarrow> Inl (EWrap ''error reading template file'' e)
        | Inr content \<Rightarrow>
            (case tl_Parse l templateName content of
               Inl e \<Rightarrow> Inl (EWrap ''error parsing template'' e)
             | Inr tmpl \<Rightarrow> Inr tmpl))"

definition Render :: "('w, 't, 'b) FaultRemediationClient \<Rightarrow> 't \<Rightarrow> fr_TemplateData \<Rightarrow> error + 'b cr_object" where
  "Render c tmpl data =
     (case template_Execute c tmpl data of
        Inl e \<Rightarrow> Inl (EWrap ''error rendering template'' e)
      | Inr out \<Rightarrow>
          (case yaml_Unmarshal c out of
             Inl e \<Rightarrow> Inl (EWrap ''error unmarshalling rendered template'' e)
           | Inr obj \<Rightarrow> Inr obj))"

definition SetNodeOwnerRef :: "'b cr_object \<Rightarrow> owner_node \<Rightarrow> 'b cr_object" where
  "SetNodeOwnerRef obj node = obj\<lparr>co_OwnerReferences := [node]\<rparr>"

fun load_templates :: "'t template_loader \<Rightarrow> string \<Rightarrow> (string, MaintenanceResource) gomap \<Rightarrow> error + (string, 't) gomap" where
  "load_templates l mountPath [] = Inr []"
| "load_templates l mountPath ((actionName, resource) # rest) =
     (if TemplateFileName resource = [] then
        Inl (EText (''remediation action '' @ actionName @ '' is missing template file configuration''))
      else case LoadTemplate l mountPath (TemplateFileName resource) actionName of
          Inl e \<Rightarrow> Inl (EWrap (''failed to load template for action '' @ actionName) e)
        | Inr tmpl \<Rightarrow>
            (case load_templates l mountPath rest of
               Inl e \<Rightarrow> Inl e
             | Inr templates \<Rightarrow> Inr (AList.update actionName tmpl templates)))"

text \<open>The base has the arguments from outside; the constructor sets the rest.\<close>

definition NewRemediationClient ::
  "'t template_loader \<Rightarrow> ('w, 't, 'b) FaultRemediationClient \<Rightarrow> bool \<Rightarrow> fr_TomlConfig \<Rightarrow> error + ('w, 't, 'b) FaultRemediationClient" where
  "NewRemediationClient l base dryRun cfg =
     (if MountPath cfg = [] then Inl (EText ''template mount path is not configured'')
      else case load_templates l (MountPath cfg) (RemediationActions cfg) of
          Inl e \<Rightarrow> Inl e
        | Inr templates \<Rightarrow>
            (case List.find (\<lambda>(_, resource). mr_Scope resource = ''Namespaced'' \<and> mr_Namespace resource = []) (RemediationActions cfg) of
               Some (actionName, _) \<Rightarrow>
                 Inl (EText (''remediation action '' @ actionName @ '' is namespaced but missing namespace configuration''))
             | None \<Rightarrow> Inr (base\<lparr>rc_templates := templates, remediationConfig := cfg, rc_dryRun := dryRun,
                 rc_statusChecker := (rc_statusChecker base)\<lparr>cs_remediationActions := RemediationActions cfg, cs_dryRun := dryRun\<rparr>\<rparr>)))"

section \<open>The maintenance resource\<close>

definition templateDataFromEvent ::
  "health_event \<Rightarrow> string \<Rightarrow> string \<Rightarrow> string \<Rightarrow> string \<Rightarrow> string \<Rightarrow> MaintenanceResource \<Rightarrow> fr_TemplateData" where
  "templateDataFromEvent healthEvent healthEventID traceID spanID recommendedActionName impactedEntityScopeValue resource =
     \<lparr>ft_NodeName = NodeName healthEvent, ft_ImpactedEntityScopeValue = impactedEntityScopeValue,
      ft_HealthEventID = healthEventID, ft_RecommendedAction = RecommendedAction healthEvent,
      ft_RecommendedActionName = recommendedActionName, ft_TraceID = traceID, ft_SpanID = spanID,
      ft_HealthEvent = healthEvent, ft_ApiGroup = mr_ApiGroup resource, ft_Version = mr_Version resource,
      ft_Kind = mr_Kind resource, ft_Namespace = mr_Namespace resource\<rparr>"

definition selectRemediationActionAndTemplate ::
  "('w, 't, 'b) FaultRemediationClient \<Rightarrow> string \<Rightarrow> error + MaintenanceResource \<times> 't" where
  "selectRemediationActionAndTemplate c recommendedActionName =
     (case map_of (RemediationActions (remediationConfig c)) recommendedActionName of
        None \<Rightarrow> Inl (EText ''no remediation config for action'')
      | Some resource \<Rightarrow>
          (case map_of (rc_templates c) recommendedActionName of
             None \<Rightarrow> Inl (EText ''no template available for remediation action'')
           | Some tmpl \<Rightarrow> Inr (resource, tmpl)))"

definition getNodeForOwnerReference ::
  "('w, 't, 'b) FaultRemediationClient \<Rightarrow> string \<Rightarrow> 'w \<Rightarrow> 'w \<times> (error + owner_node)" where
  "getNodeForOwnerReference c nodeName w =
     (case rc_GetNode c w nodeName of
        (w1, Inl e) \<Rightarrow> (w1, Inl (EWrap (if IsNotFound e then ''node not found'' else ''failed to get node'') e))
      | (w1, Inr node) \<Rightarrow> (w1, Inr node))"

definition createMaintenanceCR ::
  "('w, 't, 'b) FaultRemediationClient \<Rightarrow> 't \<Rightarrow> fr_TemplateData \<Rightarrow> owner_node \<Rightarrow> 'w \<Rightarrow> 'w \<times> (error + string)" where
  "createMaintenanceCR c selectedTemplate templateData node w =
     (case Render c selectedTemplate templateData of
        Inl e \<Rightarrow> (w, Inl (EWrap ''error rendering maintenance template'' e))
      | Inr maintenance \<Rightarrow>
          (case rc_Create c w (SetNodeOwnerRef maintenance node) of
             (w1, None) \<Rightarrow> (w1, Inr (co_Name maintenance))
           | (w1, Some err) \<Rightarrow>
               if IsAlreadyExists err then (w1, Inr (co_Name maintenance))
               else (w1, Inl (EWrap ''failed to create maintenance CR'' err))))"

definition updateRemediationAnnotationIfNeeded ::
  "('w, 't, 'b) FaultRemediationClient \<Rightarrow> string \<Rightarrow> string \<Rightarrow> string \<Rightarrow> string \<Rightarrow> 'w \<Rightarrow> 'w \<times> error option" where
  "updateRemediationAnnotationIfNeeded c nodeName effectiveEquivalenceGroup actualCRName recommendedActionName w =
     (if effectiveEquivalenceGroup = [] then (w, None)
      else case UpdateRemediationState (rc_annotationManager c) nodeName effectiveEquivalenceGroup actualCRName recommendedActionName w of
          (w1, err) \<Rightarrow> (w1, map_option (EWrap ''failed to update node annotation'') err))"

definition CreateMaintenanceResource ::
  "('w, 't, 'b) FaultRemediationClient \<Rightarrow> health_event \<Rightarrow> string \<Rightarrow> EquivalenceGroupConfig \<Rightarrow> 'w \<Rightarrow> 'w \<times> (error + string)" where
  "CreateMaintenanceResource c healthEvent healthEventID groupConfig w =
     (if rc_dryRun c then (w, Inr (''maintenance-'' @ NodeName healthEvent @ ''-'' @ healthEventID))
      else
        let recommendedActionName = GetEffectiveActionName healthEvent in
        case selectRemediationActionAndTemplate c recommendedActionName of
          Inl e \<Rightarrow> (w, Inl (EWrap ''error selecting remediation action and template'' e))
        | Inr (resource, selectedTemplate) \<Rightarrow>
            (case getNodeForOwnerReference c (NodeName healthEvent) w of
               (w1, Inl e) \<Rightarrow> (w1, Inl (EWrap ''failed to get node for owner reference'' e))
             | (w1, Inr node) \<Rightarrow>
                 (let templateData = templateDataFromEvent healthEvent healthEventID (TraceIDFromMetadata c (Metadata healthEvent))
                        (rc_SpanID c w1) recommendedActionName (ImpactedEntityScopeValue groupConfig) resource in
                  case createMaintenanceCR c selectedTemplate templateData node w1 of
                    (w2, Inl e) \<Rightarrow> (w2, Inl e)
                  | (w2, Inr actualCRName) \<Rightarrow>
                      (case updateRemediationAnnotationIfNeeded c (NodeName healthEvent) (EffectiveEquivalenceGroup groupConfig)
                             actualCRName recommendedActionName w2 of
                         (w3, Some e) \<Rightarrow> (w3, Inl e)
                       | (w3, None) \<Rightarrow> (w3, Inr actualCRName)))))"

section \<open>The log collector\<close>

definition logCollectorNodeLabel :: string where
  "logCollectorNodeLabel = ''dgxc.nvidia.com/node-name''"
definition logCollectorEventLabel :: string where
  "logCollectorEventLabel = ''dgxc.nvidia.com/event-id''"
definition jobMetricsAlreadyCountedAnnotation :: string where
  "jobMetricsAlreadyCountedAnnotation = ''dgxc.nvidia.com/logcollector-metrics-recorded''"
definition controllerRequeueDuration :: int where
  "controllerRequeueDuration = 10 * 1000000000"
definition labelValueCharactersLimit :: nat where
  "labelValueCharactersLimit = 63"

definition trim_right :: "string \<Rightarrow> string \<Rightarrow> string" where
  "trim_right s cutset = rev (dropWhile (\<lambda>ch. ch \<in> set cutset) (rev s))"

definition logCollectorNodeLabelValue :: "(string \<Rightarrow> string) \<Rightarrow> string \<Rightarrow> string" where
  "logCollectorNodeLabelValue hash nodeName =
     (if length nodeName \<le> labelValueCharactersLimit then nodeName
      else
        let suffix = take 8 (hash nodeName);
            prefix = trim_right (take (labelValueCharactersLimit - length suffix - 1) nodeName) ''-_.''
        in prefix @ ''-'' @ suffix)"

definition launchLogCollectorJob ::
  "('w, 't, 'b) FaultRemediationClient \<Rightarrow> string \<Rightarrow> string \<Rightarrow> 'w \<Rightarrow> 'w \<times> (error + job option)" where
  "launchLogCollectorJob c nodeName eventUID w =
     (case rc_manifest c w of
        Inl e \<Rightarrow> (w, Inl (EWrap ''failed to read log collector manifest'' e))
      | Inr (Inl e) \<Rightarrow> (w, Inl (EWrap ''failed to unmarshal Job manifest'' e))
      | Inr (Inr manifest) \<Rightarrow>
          (let labels = [(logCollectorNodeLabel, logCollectorNodeLabelValue (sha256_hex c) nodeName), (logCollectorEventLabel, eventUID)];
               jb = manifest\<lparr>jb_NodeName := nodeName,
                 jb_Labels := Some (fold (\<lambda>(k, v). AList.update k v) labels (entries (jb_Labels manifest)))\<rparr> in
           case rc_ListJobs c w labels (jb_Namespace jb) of
             (w1, Inl e) \<Rightarrow> (w1, Inl e)
           | (w1, Inr items) \<Rightarrow>
               if length items > 1 then
                 (w1, Inl (EText (''expecting zero or one log collector job per event per node, found '' @ fmt_nat (length items))))
               else if items = [] then
                 (case rc_CreateJob c w1 jb of
                    (w2, Some e) \<Rightarrow> (w2, Inl e)
                  | (w2, None) \<Rightarrow> (w2, Inr None))
               else (w1, Inr (Some (hd items)))))"

definition already_counted :: "job \<Rightarrow> bool" where
  "already_counted jb \<longleftrightarrow> map_of (entries (jb_Annotations jb)) jobMetricsAlreadyCountedAnnotation = Some ''true''"

definition counted_job :: "job \<Rightarrow> job" where
  "counted_job jb = jb\<lparr>jb_Annotations := Some (AList.update jobMetricsAlreadyCountedAnnotation ''true'' (entries (jb_Annotations jb)))\<rparr>"

definition ConditionTrue :: string where
  "ConditionTrue = ''True''"

datatype 'a check = Checked 'a | CheckError error | CheckPanic

text \<open>A complete job with a start time but no completion time is dereferenced.\<close>

definition checkLogCollectorComplete :: "('w, 't, 'b) FaultRemediationClient \<Rightarrow> job \<Rightarrow> 'w \<Rightarrow> 'w \<times> bool check" where
  "checkLogCollectorComplete c jb w =
     (if FindStatusCondition c (jb_Conditions jb) ''Complete'' \<noteq> Some ConditionTrue then (w, Checked False)
      else if already_counted jb then (w, Checked True)
      else case rc_UpdateJob c w (counted_job jb) of
          (w1, Some e) \<Rightarrow> (w1, CheckError e)
        | (w1, None) \<Rightarrow> if jb_StartTime jb \<noteq> None \<and> jb_CompletionTime jb = None then (w1, CheckPanic) else (w1, Checked True))"

definition recordLogCollectorFailureMetrics :: "('w, 't, 'b) FaultRemediationClient \<Rightarrow> job \<Rightarrow> 'w \<Rightarrow> 'w \<times> error option" where
  "recordLogCollectorFailureMetrics c jb w = rc_UpdateJob c w (counted_job jb)"

definition checkLogCollectorFailed :: "('w, 't, 'b) FaultRemediationClient \<Rightarrow> job \<Rightarrow> 'w \<Rightarrow> 'w \<times> bool check" where
  "checkLogCollectorFailed c jb w =
     (if FindStatusCondition c (jb_Conditions jb) ''Failed'' \<noteq> Some ConditionTrue then (w, Checked False)
      else if already_counted jb then (w, Checked True)
      else case recordLogCollectorFailureMetrics c jb w of
          (w1, Some e) \<Rightarrow> (w1, CheckError e)
        | (w1, None) \<Rightarrow> (w1, Checked True))"

definition collector_timeout :: "('w, 't, 'b) FaultRemediationClient \<Rightarrow> int" where
  "collector_timeout c =
     (let default = 10 * 60 * 1000000000 in
      if timeoutEnv c = [] then default else case ParseDuration c (timeoutEnv c) of None \<Rightarrow> default | Some parsed \<Rightarrow> parsed)"

definition checkLogCollectorTimedOut :: "('w, 't, 'b) FaultRemediationClient \<Rightarrow> job \<Rightarrow> 'w \<Rightarrow> 'w \<times> bool check" where
  "checkLogCollectorTimedOut c jb w =
     (if rc_now c w - jb_CreationTimestamp jb \<le> collector_timeout c then (w, Checked False)
      else if already_counted jb then (w, Checked True)
      else case rc_UpdateJob c w (counted_job jb) of
          (w1, Some e) \<Rightarrow> (w1, CheckError e)
        | (w1, None) \<Rightarrow> (w1, Checked True))"

text \<open>The three checks in turn: the first that finds the job finished ends the collection.\<close>

fun first_finished :: "('w \<Rightarrow> 'w \<times> bool check) list \<Rightarrow> 'w \<Rightarrow> 'w \<times> reconcile_result" where
  "first_finished [] w = (w, ResultAfter controllerRequeueDuration)"
| "first_finished (check # checks) w =
     (case check w of
        (w1, CheckError e) \<Rightarrow> (w1, ResultError (EWrap ''failed to check log collector status'' e))
      | (w1, CheckPanic) \<Rightarrow> (w1, ResultPanic)
      | (w1, Checked True) \<Rightarrow> (w1, zero_result)
      | (w1, Checked False) \<Rightarrow> first_finished checks w1)"

definition checkLogCollectorStatus :: "('w, 't, 'b) FaultRemediationClient \<Rightarrow> job \<Rightarrow> 'w \<Rightarrow> 'w \<times> reconcile_result" where
  "checkLogCollectorStatus c jb =
     first_finished [checkLogCollectorComplete c jb, checkLogCollectorFailed c jb, checkLogCollectorTimedOut c jb]"

definition RunLogCollectorJob :: "('w, 't, 'b) FaultRemediationClient \<Rightarrow> string \<Rightarrow> string \<Rightarrow> 'w \<Rightarrow> 'w \<times> reconcile_result" where
  "RunLogCollectorJob c nodeName eventUID w =
     (if rc_dryRun c then (w, zero_result)
      else case launchLogCollectorJob c nodeName eventUID w of
          (w1, Inl e) \<Rightarrow> (w1, ResultError e)
        | (w1, Inr None) \<Rightarrow> (w1, ResultAfter controllerRequeueDuration)
        | (w1, Inr (Some jb)) \<Rightarrow> checkLogCollectorStatus c jb w1)"

end
