(* ===== verification/Remediation_Reconciler.thy ===== *)
theory Remediation_Reconciler
  imports Remediation_Client Drain_Worker Quarantine_Client
begin

text \<open>
  The reconciler of fault-remediation (\<^verbatim>\<open>fault-remediation/pkg/reconciler\<close>): it takes the id of a health event from the
  work queue, loads the event, and either cleans up after a cancellation, recomputes the node label after a
  partial recovery, or creates the maintenance resource that the recommended action calls for.

  The Kubernetes clients, the event store, the change stream and the work queue are arguments; so is the
  order in which a range over a map visits it. The store, the status checker and the annotation manager
  are set by the constructors, so the checks for nil ones are left out, as are spans, logs, metrics and
  the tracing sessions. The parser rejects documents without an event or a status, so later checks for these are
  left out too.
\<close>

section \<open>Data\<close>

record HealthEventDoc =
  hd_ID :: string
  hd_Event :: HealthEventWithStatus
  hd_FaultRemediated :: "bool option"

abbreviation hd_HealthEvent :: "HealthEventDoc \<Rightarrow> health_event" where
  "hd_HealthEvent d \<equiv> ev_HealthEvent (hd_Event d)"

definition hd_NodeQuarantined :: "HealthEventDoc \<Rightarrow> Status" where
  "hd_NodeQuarantined d = (case ev_HealthEventStatus (hd_Event d) of None \<Rightarrow> [] | Some st \<Rightarrow> NodeQuarantined st)"

record 'doc EventWithToken =
  et_Event :: 'doc
  et_ResumeToken :: string

record reconcileRequest =
  rq_documentID :: string
  rq_resumeToken :: string

record 'doc stored_record =
  sr_RawEvent :: 'doc
  sr_FaultRemediated :: "bool option"
  sr_NodeQuarantined :: "Status option"

record status_update =
  su_FaultRemediated :: bool
  su_LastRemediationTimestamp :: "int option"

record ('w, 't, 'b, 'doc, 'id) FaultRemediationReconciler =
  RemediationClient :: "('w, 't, 'b) FaultRemediationClient"
  fr_onError :: "'w on_error"
  fr_labels :: "'w NodeClient"
  NodeReader :: "'w \<Rightarrow> string \<Rightarrow> 'w \<times> (error + kube_node)"
  EnableLogCollector :: bool
  StartFresh :: bool
  ColdStartAfterTime :: int
  InProgressRequeueDelay :: int
  fr_codec :: "('doc, 'id) document_codec"
  fr_remediated_of :: "'doc \<Rightarrow> bool option"
  fr_empty_document :: "'doc \<Rightarrow> bool"
  fr_slots :: slot_codec
  decode_events :: "string \<Rightarrow> error + health_event list"
  decode_event :: "string \<Rightarrow> error + health_event"
  fr_Find :: "'w \<Rightarrow> Builder \<Rightarrow> 'w \<times> (error + 'doc stored_record list)"
  fr_FindBatched :: "'w \<Rightarrow> Builder \<Rightarrow> nat \<Rightarrow> ('doc stored_record list \<Rightarrow> 'w \<Rightarrow> 'w \<times> error option) \<Rightarrow> 'w \<times> error option"
  fr_UpdateStatus :: "'w \<Rightarrow> string \<Rightarrow> status_update \<Rightarrow> 'w \<times> error option"
  fr_UpdateSpanID :: "'w \<Rightarrow> string \<Rightarrow> string \<Rightarrow> 'w \<times> error option"
  fr_MarkProcessed :: "'w \<Rightarrow> string \<Rightarrow> 'w \<times> error option"
  fr_now :: "'w \<Rightarrow> int"
  fr_span :: "'w \<Rightarrow> string"
  range_groups :: "(string, EquivalenceGroupState) gomap \<Rightarrow> (string, EquivalenceGroupState) gomap"
  range_events :: "(HealthEventKey, eptr) gomap \<Rightarrow> (HealthEventKey, eptr) gomap"

abbreviation annotationManager :: "('w, 't, 'b, 'doc, 'id) FaultRemediationReconciler \<Rightarrow> 'w NodeAnnotationManager" where
  "annotationManager r \<equiv> rc_annotationManager (RemediationClient r)"

abbreviation fr_config :: "('w, 't, 'b, 'doc, 'id) FaultRemediationReconciler \<Rightarrow> fr_TomlConfig" where
  "fr_config r \<equiv> remediationConfig (RemediationClient r)"

definition coldStartBatchSize :: nat where "coldStartBatchSize = 1000"
definition defaultInProgressRequeueDelay :: int where "defaultInProgressRequeueDelay = 30 * 1000000000"

text \<open>An intermediate step either finishes the event or lets the handler go on.\<close>

type_synonym 'w step = "'w \<times> reconcile_result option"

definition fr_update_label ::
  "('w, 't, 'b, 'doc, 'id) FaultRemediationReconciler \<Rightarrow> string \<Rightarrow> NVSentinelStateLabelValue \<Rightarrow> 'w \<Rightarrow> 'w \<times> bool \<times> completion" where
  "fr_update_label r nodeName val w =
     (let ((w1, modified), c) = UpdateNVSentinelStateNodeLabel (fr_onError r) (fr_labels r) nodeName val False w in (w1, modified, c))"

section \<open>Finishing an event\<close>

definition safeMarkProcessed ::
  "('w, 't, 'b, 'doc, 'id) FaultRemediationReconciler \<Rightarrow> string \<Rightarrow> 'w \<Rightarrow> 'w \<times> error option" where
  "safeMarkProcessed r token w =
     (if token = [] then (w, None)
      else case fr_MarkProcessed r w token of
          (w1, err) \<Rightarrow> (w1, map_option (EWrap ''failed to mark event as processed'') err))"

definition markProcessedOrError ::
  "('w, 't, 'b, 'doc, 'id) FaultRemediationReconciler \<Rightarrow> string \<Rightarrow> 'w \<Rightarrow> 'w \<times> reconcile_result" where
  "markProcessedOrError r token w =
     (case safeMarkProcessed r token w of
        (w1, Some e) \<Rightarrow> (w1, ResultError e)
      | (w1, None) \<Rightarrow> (w1, zero_result))"

definition status_of :: "('w, 't, 'b, 'doc, 'id) FaultRemediationReconciler \<Rightarrow> bool \<Rightarrow> 'w \<Rightarrow> status_update" where
  "status_of r remediated w = \<lparr>su_FaultRemediated = remediated, su_LastRemediationTimestamp = (if remediated then Some (fr_now r w) else None)\<rparr>"

definition updateNodeRemediatedStatus ::
  "('w, 't, 'b, 'doc, 'id) FaultRemediationReconciler \<Rightarrow> 'doc \<Rightarrow> bool \<Rightarrow> 'w \<Rightarrow> 'w \<times> error option" where
  "updateNodeRemediatedStatus r event nodeRemediatedStatus w =
     (case ExtractDocumentID (fr_codec r) event of
        Inl e \<Rightarrow> (w, Some e)
      | Inr documentID \<Rightarrow>
          (case fr_UpdateStatus r w documentID (status_of r nodeRemediatedStatus w) of
             (w1, Some e) \<Rightarrow> (w1, Some (EWrap (''error updating document with ID: '' @ documentID @ '', error'') e))
           | (w1, None) \<Rightarrow>
               if fr_span r w1 \<noteq> [] then (fst (fr_UpdateSpanID r w1 documentID (fr_span r w1)), None) else (w1, None)))"

definition markEventTerminalAndProcessed ::
  "('w, 't, 'b, 'doc, 'id) FaultRemediationReconciler \<Rightarrow> 'doc EventWithToken \<Rightarrow> bool \<Rightarrow> 'w \<Rightarrow> 'w \<times> reconcile_result" where
  "markEventTerminalAndProcessed r ev remediated w =
     (case updateNodeRemediatedStatus r (et_Event ev) remediated w of
        (w1, Some e) \<Rightarrow> (w1, ResultError e)
      | (w1, None) \<Rightarrow> markProcessedOrError r (et_ResumeToken ev) w1)"

definition parseHealthEvent ::
  "('w, 't, 'b, 'doc, 'id) FaultRemediationReconciler \<Rightarrow> 'doc EventWithToken \<Rightarrow> 'w \<Rightarrow> 'w \<times> (error + HealthEventDoc)" where
  "parseHealthEvent r ev w =
     (case ParseHealthEventFromEvent (fr_codec r) (et_Event ev) of
        Inl e \<Rightarrow> (fst (safeMarkProcessed r (et_ResumeToken ev) w), Inl (EWrap ''error parsing health event'' e))
      | Inr healthEventWithStatus \<Rightarrow>
          (case ExtractDocumentID (fr_codec r) (et_Event ev) of
             Inl e \<Rightarrow> (fst (safeMarkProcessed r (et_ResumeToken ev) w), Inl (EWrap ''error extracting document ID'' e))
           | Inr documentID \<Rightarrow> (w, Inr \<lparr>hd_ID = documentID, hd_Event = healthEventWithStatus,
               hd_FaultRemediated = fr_remediated_of r (et_Event ev)\<rparr>)))"

section \<open>The live quarantine\<close>

definition dedupe_key :: "HealthEventKey \<Rightarrow> health_event \<Rightarrow> string" where
  "dedupe_key key event =
     (if Id event \<noteq> [] then Id event
      else join_with ''/'' [hk_Agent key, hk_ComponentClass key, hk_CheckName key, hk_EntityType key, hk_EntityValue key,
        fmt_nat (unat (hk_Version key))])"

fun distinct_events :: "(HealthEventKey, eptr) gomap \<Rightarrow> string list \<Rightarrow> health_event list" where
  "distinct_events [] seen = []"
| "distinct_events ((key, p) # rest) seen =
     (let k = dedupe_key key (snd p) in
      if k \<in> set seen then distinct_events rest seen else snd p # distinct_events rest (k # seen))"

definition activeQuarantineEvents ::
  "('w, 't, 'b, 'doc, 'id) FaultRemediationReconciler \<Rightarrow> (string, string) gomap \<Rightarrow> error + health_event list" where
  "activeQuarantineEvents r annotations =
     (case map_of annotations QuarantineHealthEventAnnotationKey of
        None \<Rightarrow> Inr []
      | Some annotationValue \<Rightarrow>
          if annotationValue = [] then Inr []
          else case decode_events r annotationValue of
              Inl err \<Rightarrow>
                (case decode_event r annotationValue of
                   Inl _ \<Rightarrow> Inl (EWrap ''failed to parse quarantine annotation'' err)
                 | Inr singleEvent \<Rightarrow> Inr [singleEvent])
            | Inr events \<Rightarrow> Inr (distinct_events (range_events r (Events (UnmarshalJSON events))) []))"

definition matches_active :: "slot_codec \<Rightarrow> health_event \<Rightarrow> health_event \<Rightarrow> bool" where
  "matches_active J incomingEvent activeEvent \<longleftrightarrow>
     (if Id activeEvent \<noteq> [] \<and> Id incomingEvent \<noteq> [] then Id activeEvent = Id incomingEvent
      else GetEvent J (fst (AddOrUpdateEvent J (NewHealthEventsAnnotationMap\<lparr>fresh := 1\<rparr>) (0, activeEvent))) incomingEvent \<noteq> None)"

definition activeQuarantineContainsEvent ::
  "('w, 't, 'b, 'doc, 'id) FaultRemediationReconciler \<Rightarrow> (string, string) gomap \<Rightarrow> health_event \<Rightarrow> error + bool" where
  "activeQuarantineContainsEvent r annotations incomingEvent =
     (case activeQuarantineEvents r annotations of
        Inl e \<Rightarrow> Inl e
      | Inr activeEvents \<Rightarrow> Inr (list_ex (matches_active (fr_slots r) incomingEvent) activeEvents))"

definition readLiveNode ::
  "('w, 't, 'b, 'doc, 'id) FaultRemediationReconciler \<Rightarrow> string \<Rightarrow> 'w \<Rightarrow> 'w \<times> (error + kube_node)" where
  "readLiveNode r nodeName w =
     (case NodeReader r w nodeName of
        (w1, Inl e) \<Rightarrow> (w1, Inl (EWrap (''failed to read node '' @ nodeName @ '' from the API'') e))
      | (w1, Inr n) \<Rightarrow> (w1, Inr n))"

definition nodeHasActiveQuarantine ::
  "('w, 't, 'b, 'doc, 'id) FaultRemediationReconciler \<Rightarrow> health_event \<Rightarrow> 'w \<Rightarrow> 'w \<times> (error + bool)" where
  "nodeHasActiveQuarantine r healthEvent w =
     (case readLiveNode r (NodeName healthEvent) w of
        (w1, Inl e) \<Rightarrow>
          if IsNotFound e then (w1, Inr False)
          else (w1, Inl (EWrap (''failed to get live node state for '' @ NodeName healthEvent) e))
      | (w1, Inr n) \<Rightarrow>
          (case activeQuarantineContainsEvent r (entries (kn_Annotations n)) healthEvent of
             Inl e \<Rightarrow> (w1, Inl (EWrap (''failed to read active quarantine events for node '' @ NodeName healthEvent) e))
           | Inr active \<Rightarrow> (w1, Inr active)))"

definition findHealthEventStatusByID ::
  "('w, 't, 'b, 'doc, 'id) FaultRemediationReconciler \<Rightarrow> string \<Rightarrow> string \<Rightarrow> 'w \<Rightarrow> 'w \<times> (error + 'doc stored_record option)" where
  "findHealthEventStatusByID r nodeName eventID w =
     (if eventID = [] then (w, Inr None)
      else case fr_Find r w (Build (Eq ''_id'' (VString eventID)) New) of
          (w1, Inl e) \<Rightarrow> (w1, Inl (EWrap (''failed to query active health event '' @ eventID @ '' for node '' @ nodeName) e))
        | (w1, Inr []) \<Rightarrow> (w1, Inr None)
        | (w1, Inr [record]) \<Rightarrow> (w1, Inr (Some record))
        | (w1, Inr events) \<Rightarrow>
            (w1, Inl (EText (''unexpected number of events for node '' @ nodeName @ '' and event ID '' @ eventID @ '': '' @ fmt_nat (length events)))))"

section \<open>Maintenance resources in charge\<close>

record existingCRDecision =
  shouldCreate :: bool
  crName :: string
  remediated :: bool
  removeGroup :: bool
  inProgress :: bool

definition no_decision :: existingCRDecision where
  "no_decision = \<lparr>shouldCreate = False, crName = [], remediated = False, removeGroup = False, inProgress = False\<rparr>"

definition allowCreate :: existingCRDecision where
  "allowCreate = no_decision\<lparr>shouldCreate := True\<rparr>"

definition eventCoveredByRemediationSession :: "int \<Rightarrow> int \<Rightarrow> bool" where
  "eventCoveredByRemediationSession eventCreatedAt remediationCreatedAt \<longleftrightarrow>
     \<not> (eventCreatedAt = 0 \<or> remediationCreatedAt = 0) \<and> \<not> eventCreatedAt > remediationCreatedAt"

definition evaluateSucceededCR :: "EquivalenceGroupState \<Rightarrow> int \<Rightarrow> existingCRDecision" where
  "evaluateSucceededCR gs eventCreatedAt =
     (if eventCoveredByRemediationSession eventCreatedAt (gs_CreatedAt gs)
      then no_decision\<lparr>crName := MaintenanceCR gs, remediated := True\<rparr>
      else allowCreate\<lparr>removeGroup := True\<rparr>)"

definition evaluateExistingCR ::
  "'w CRStatusChecker \<Rightarrow> EquivalenceGroupState \<Rightarrow> int \<Rightarrow> 'w \<Rightarrow> 'w \<times> (error + existingCRDecision)" where
  "evaluateExistingCR statusChecker gs eventCreatedAt w =
     (case GetCRState statusChecker (gs_ActionName gs) (MaintenanceCR gs) w of
        (w1, Inl e) \<Rightarrow> (w1, Inl e)
      | (w1, Inr CRStateInProgress) \<Rightarrow> (w1, Inr (no_decision\<lparr>crName := MaintenanceCR gs, inProgress := True\<rparr>))
      | (w1, Inr CRStateSucceeded) \<Rightarrow> (w1, Inr (evaluateSucceededCR gs eventCreatedAt))
      | (w1, Inr _) \<Rightarrow> (w1, Inr (allowCreate\<lparr>removeGroup := True\<rparr>)))"

definition sortedEquivalenceGroupStates ::
  "(string, EquivalenceGroupState) gomap \<Rightarrow> (string \<times> EquivalenceGroupState) list" where
  "sortedEquivalenceGroupStates groupStates = sort_key (\<lambda>(_, gs). - gs_CreatedAt gs) groupStates"

fun evaluateExistingCRs ::
  "'w CRStatusChecker \<Rightarrow> (string \<times> EquivalenceGroupState) list \<Rightarrow> int \<Rightarrow> string list \<Rightarrow> 'w
     \<Rightarrow> 'w \<times> (error + existingCRDecision \<times> string list)" where
  "evaluateExistingCRs statusChecker [] eventCreatedAt groupsToRemove w = (w, Inr (allowCreate, groupsToRemove))"
| "evaluateExistingCRs statusChecker ((name, gs) # rest) eventCreatedAt groupsToRemove w =
     (if MaintenanceCR gs = [] then evaluateExistingCRs statusChecker rest eventCreatedAt groupsToRemove w
      else case evaluateExistingCR statusChecker gs eventCreatedAt w of
          (w1, Inl e) \<Rightarrow> (w1, Inl e)
        | (w1, Inr decision) \<Rightarrow>
            if \<not> shouldCreate decision then (w1, Inr (decision, []))
            else evaluateExistingCRs statusChecker rest eventCreatedAt
              (if removeGroup decision then groupsToRemove @ [name] else groupsToRemove) w1)"

definition checkExistingCRStatus ::
  "('w, 't, 'b, 'doc, 'id) FaultRemediationReconciler \<Rightarrow> health_event \<Rightarrow> int \<Rightarrow> EquivalenceGroupConfig option \<Rightarrow> 'w
     \<Rightarrow> 'w \<times> (error + existingCRDecision)" where
  "checkExistingCRStatus r healthEvent eventCreatedAt groupConfig w =
     (case groupConfig of
        None \<Rightarrow> (w, Inr allowCreate)
      | Some gc \<Rightarrow>
          (case GetRemediationState (annotationManager r) (NodeName healthEvent) w of
             (w1, Inl e) \<Rightarrow> (w1, Inl (EWrap ''error getting remediation state'' e))
           | (w1, Inr (st, _)) \<Rightarrow>
               (let groupStates = sortedEquivalenceGroupStates (range_groups r (FilterEquivalenceGroupStates gc st)) in
                case evaluateExistingCRs (rc_statusChecker (RemediationClient r)) groupStates eventCreatedAt [] w1 of
                  (w2, Inl e) \<Rightarrow> (w2, Inl e)
                | (w2, Inr (decision, groupsToRemove)) \<Rightarrow>
                    if \<not> shouldCreate decision then (w2, Inr decision)
                    else if groupsToRemove \<noteq> [] then
                      (case RemoveGroupsFromState (annotationManager r) (NodeName healthEvent) groupsToRemove w2 of
                         (w3, Some e) \<Rightarrow> (w3, Inl (EWrap ''failed to remove groups from annotation'' e))
                       | (w3, None) \<Rightarrow> (w3, Inr allowCreate))
                    else (w2, Inr allowCreate))))"

definition inProgressRequeueDelay :: "('w, 't, 'b, 'doc, 'id) FaultRemediationReconciler \<Rightarrow> int" where
  "inProgressRequeueDelay r = (if InProgressRequeueDelay r > 0 then InProgressRequeueDelay r else defaultInProgressRequeueDelay)"

definition handleExistingCRInProgress :: "('w, 't, 'b, 'doc, 'id) FaultRemediationReconciler \<Rightarrow> 'w \<Rightarrow> 'w \<times> reconcile_result" where
  "handleExistingCRInProgress r w = (w, ResultAfter (inProgressRequeueDelay r))"

definition handleExistingCRSkip ::
  "('w, 't, 'b, 'doc, 'id) FaultRemediationReconciler \<Rightarrow> 'doc EventWithToken \<Rightarrow> bool \<Rightarrow> 'w \<Rightarrow> 'w \<times> reconcile_result" where
  "handleExistingCRSkip r ev existingCRRemediated w =
     (if existingCRRemediated then
        (case updateNodeRemediatedStatus r (et_Event ev) True w of
           (w1, Some e) \<Rightarrow> (w1, ResultError e)
         | (w1, None) \<Rightarrow> markProcessedOrError r (et_ResumeToken ev) w1)
      else markProcessedOrError r (et_ResumeToken ev) w)"

definition handleEventCoveredByExistingCR ::
  "('w, 't, 'b, 'doc, 'id) FaultRemediationReconciler \<Rightarrow> existingCRDecision \<Rightarrow> 'doc EventWithToken \<Rightarrow> 'w \<Rightarrow> 'w \<times> reconcile_result" where
  "handleEventCoveredByExistingCR r decision ev w =
     (if inProgress decision then handleExistingCRInProgress r w else handleExistingCRSkip r ev (remediated decision) w)"

definition tryHandleExistingCR ::
  "('w, 't, 'b, 'doc, 'id) FaultRemediationReconciler \<Rightarrow> HealthEventDoc \<Rightarrow> EquivalenceGroupConfig option \<Rightarrow> 'doc EventWithToken \<Rightarrow> 'w \<Rightarrow> 'w step" where
  "tryHandleExistingCR r d groupConfig ev w =
     (case checkExistingCRStatus r (hd_HealthEvent d) (ev_CreatedAt (hd_Event d)) groupConfig w of
        (w1, Inl e) \<Rightarrow>
          if IsNotFound e then (let (w2, res) = markEventTerminalAndProcessed r ev False w1 in (w2, Some res))
          else (w1, Some (ResultError (EWrap ''error checking existing CR status'' e)))
      | (w1, Inr decision) \<Rightarrow>
          if \<not> shouldCreate decision then (let (w2, res) = handleEventCoveredByExistingCR r decision ev w1 in (w2, Some res))
          else (w1, None))"

section \<open>Skipping\<close>

definition already_remediated :: "HealthEventDoc \<Rightarrow> bool" where
  "already_remediated d \<longleftrightarrow> hd_FaultRemediated d = Some True"

definition shouldSkipEvent ::
  "('w, 't, 'b, 'doc, 'id) FaultRemediationReconciler \<Rightarrow> HealthEventDoc \<Rightarrow> EquivalenceGroupConfig option \<Rightarrow> 'w \<Rightarrow> 'w \<times> bool check" where
  "shouldSkipEvent r d groupConfig w =
     (if RecommendedAction (hd_HealthEvent d) = RA_NONE then (w, Checked True)
      else if already_remediated d then (w, Checked True)
      else if groupConfig \<noteq> None then (w, Checked False)
      else case nodeHasActiveQuarantine r (hd_HealthEvent d) w of
          (w1, Inl e) \<Rightarrow> (w1, CheckError e)
        | (w1, Inr False) \<Rightarrow> (w1, Checked True)
        | (w1, Inr True) \<Rightarrow>
            (case fr_update_label r (NodeName (hd_HealthEvent d)) RemediationFailedLabelValue w1 of
               (w2, _, Panicked) \<Rightarrow> (w2, CheckPanic)
             | (w2, _, Returned None) \<Rightarrow> (w2, Checked True)
             | (w2, modified, Returned (Some e)) \<Rightarrow>
                 if \<not> modified then
                   (w2, CheckError (EWrap (''failed to label unsupported remediation action for node '' @ NodeName (hd_HealthEvent d)) e))
                 else (w2, Checked True)))"

definition shouldMarkSkippedEventUnsupported :: "HealthEventDoc \<Rightarrow> EquivalenceGroupConfig option \<Rightarrow> bool" where
  "shouldMarkSkippedEventUnsupported d groupConfig \<longleftrightarrow>
     groupConfig = None \<and> RecommendedAction (hd_HealthEvent d) \<noteq> RA_NONE \<and> \<not> already_remediated d"

definition trySkipEvent ::
  "('w, 't, 'b, 'doc, 'id) FaultRemediationReconciler \<Rightarrow> HealthEventDoc \<Rightarrow> EquivalenceGroupConfig option \<Rightarrow> 'doc EventWithToken \<Rightarrow> 'w \<Rightarrow> 'w step" where
  "trySkipEvent r d groupConfig ev w =
     (case shouldSkipEvent r d groupConfig w of
        (w1, CheckError e) \<Rightarrow> (w1, Some (ResultError e))
      | (w1, CheckPanic) \<Rightarrow> (w1, Some ResultPanic)
      | (w1, Checked False) \<Rightarrow> (w1, None)
      | (w1, Checked True) \<Rightarrow>
          if shouldMarkSkippedEventUnsupported d groupConfig then
            (let (w2, res) = markEventTerminalAndProcessed r ev False w1 in (w2, Some res))
          else (let (w2, res) = markProcessedOrError r (et_ResumeToken ev) w1 in (w2, Some res)))"

definition eventResolvedInStore ::
  "('w, 't, 'b, 'doc, 'id) FaultRemediationReconciler \<Rightarrow> health_event \<Rightarrow> string \<Rightarrow> 'w \<Rightarrow> 'w \<times> (error + bool)" where
  "eventResolvedInStore r healthEvent eventID w =
     (case findHealthEventStatusByID r (NodeName healthEvent) eventID w of
        (w1, Inl e) \<Rightarrow> (w1, Inl e)
      | (w1, Inr None) \<Rightarrow> (w1, Inr False)
      | (w1, Inr (Some status)) \<Rightarrow>
          if sr_FaultRemediated status = Some True then (w1, Inr True)
          else if sr_NodeQuarantined status = Some UnQuarantined \<or> sr_NodeQuarantined status = Some Cancelled then (w1, Inr True)
          else if sr_FaultRemediated status \<noteq> None then
            (case nodeHasActiveQuarantine r healthEvent w1 of
               (w2, Inl e) \<Rightarrow> (w2, Inl e)
             | (w2, Inr activeQuarantine) \<Rightarrow> (w2, Inr (\<not> activeQuarantine)))
          else (w1, Inr False))"

definition trySkipResolvedEvent ::
  "('w, 't, 'b, 'doc, 'id) FaultRemediationReconciler \<Rightarrow> HealthEventDoc \<Rightarrow> 'doc EventWithToken \<Rightarrow> 'w \<Rightarrow> 'w step" where
  "trySkipResolvedEvent r d ev w =
     (case eventResolvedInStore r (hd_HealthEvent d) (hd_ID d) w of
        (w1, Inl e) \<Rightarrow> (w1, Some (ResultError (EWrap ''error re-reading event status'' e)))
      | (w1, Inr False) \<Rightarrow> (w1, None)
      | (w1, Inr True) \<Rightarrow> (let (w2, res) = markProcessedOrError r (et_ResumeToken ev) w1 in (w2, Some res)))"

section \<open>Attempts\<close>

definition giveUpAtMaxAttempts ::
  "('w, 't, 'b, 'doc, 'id) FaultRemediationReconciler \<Rightarrow> string \<Rightarrow> 'doc EventWithToken \<Rightarrow> 'w \<Rightarrow> 'w \<times> reconcile_result" where
  "giveUpAtMaxAttempts r nodeName ev w =
     (case fr_update_label r nodeName RemediationFailedLabelValue w of
        (w1, _, Panicked) \<Rightarrow> (w1, ResultPanic)
      | (w1, _, Returned (Some e)) \<Rightarrow> (w1, ResultError (EWrap (''failed to label node '' @ nodeName @ '' as remediation-failed'') e))
      | (w1, _, Returned None) \<Rightarrow> markEventTerminalAndProcessed r ev False w1)"

definition tryStopAtMaxAttempts ::
  "('w, 't, 'b, 'doc, 'id) FaultRemediationReconciler \<Rightarrow> string \<Rightarrow> string \<Rightarrow> int \<Rightarrow> 'doc EventWithToken \<Rightarrow> 'w \<Rightarrow> 'w step" where
  "tryStopAtMaxAttempts r nodeName effectiveEquivalenceGroup maxAttempts ev w =
     (case RecordRemediationAttempt (annotationManager r) nodeName effectiveEquivalenceGroup w of
        (w1, Inl e) \<Rightarrow>
          if IsNotFound e then (let (w2, res) = markEventTerminalAndProcessed r ev False w1 in (w2, Some res))
          else (w1, Some (ResultError (EWrap ''failed to record remediation attempt'' e)))
      | (w1, Inr attemptCount) \<Rightarrow>
          if attemptCount \<le> maxAttempts then (w1, None)
          else (let (w2, res) = giveUpAtMaxAttempts r nodeName ev w1 in (w2, Some res)))"

definition tryStopIfAlreadyCapped ::
  "('w, 't, 'b, 'doc, 'id) FaultRemediationReconciler \<Rightarrow> string \<Rightarrow> string \<Rightarrow> int \<Rightarrow> 'doc EventWithToken \<Rightarrow> 'w \<Rightarrow> 'w step" where
  "tryStopIfAlreadyCapped r nodeName effectiveEquivalenceGroup maxAttempts ev w =
     (case PrepareRemediationAttempt (annotationManager r) nodeName w of
        (w1, Inl _) \<Rightarrow> (w1, None)
      | (w1, Inr st) \<Rightarrow>
          if AttemptCount (group_state st effectiveEquivalenceGroup) < maxAttempts then (w1, None)
          else (let (w2, res) = giveUpAtMaxAttempts r nodeName ev w1 in (w2, Some res)))"

section \<open>Remediating\<close>

definition runLogCollector ::
  "('w, 't, 'b, 'doc, 'id) FaultRemediationReconciler \<Rightarrow> health_event \<Rightarrow> string \<Rightarrow> 'w \<Rightarrow> 'w \<times> reconcile_result" where
  "runLogCollector r healthEvent eventUID w =
     (if RecommendedAction healthEvent = RA_NONE \<or> \<not> EnableLogCollector r then (w, zero_result)
      else case RunLogCollectorJob (RemediationClient r) (NodeName healthEvent) eventUID w of
          (w1, ResultError e) \<Rightarrow> (w1, ResultError (EWrap ''failed to launch log collector on node'' e))
        | (w1, res) \<Rightarrow> (w1, res))"

definition performRemediation ::
  "('w, 't, 'b, 'doc, 'id) FaultRemediationReconciler \<Rightarrow> HealthEventDoc \<Rightarrow> EquivalenceGroupConfig \<Rightarrow> 'w \<Rightarrow> 'w \<times> string check" where
  "performRemediation r d groupConfig w =
     (let nodeName = NodeName (hd_HealthEvent d) in
      case fr_update_label r nodeName RemediatingLabelValue w of
        (w1, _, Panicked) \<Rightarrow> (w1, CheckPanic)
      | (w1, _, Returned (Some e)) \<Rightarrow> (w1, CheckError (EWrap ''error updating node label to remediating'' e))
      | (w1, _, Returned None) \<Rightarrow>
          (let (w2, created) = CreateMaintenanceResource (RemediationClient r) (hd_HealthEvent d) (hd_ID d) groupConfig w1;
               remediationLabelValue = (case created of Inl _ \<Rightarrow> RemediationFailedLabelValue | Inr _ \<Rightarrow> RemediationSucceededLabelValue) in
           case fr_update_label r nodeName remediationLabelValue w2 of
             (w3, _, Panicked) \<Rightarrow> (w3, CheckPanic)
           | (w3, _, Returned (Some e)) \<Rightarrow>
               (w3, CheckError (EJoin (case created of Inl createError \<Rightarrow> [createError, e] | Inr _ \<Rightarrow> [e])))
           | (w3, _, Returned None) \<Rightarrow>
               (w3, case created of
                  Inl createError \<Rightarrow> CheckError (EWrap ''error creating maintenance resource'' createError)
                | Inr name \<Rightarrow> Checked name)))"

definition remediate_and_record ::
  "('w, 't, 'b, 'doc, 'id) FaultRemediationReconciler \<Rightarrow> HealthEventDoc \<Rightarrow> 'doc EventWithToken \<Rightarrow> EquivalenceGroupConfig \<Rightarrow> 'w \<Rightarrow> 'w \<times> reconcile_result" where
  "remediate_and_record r d ev groupConfig w =
     (case performRemediation r d groupConfig w of
        (w1, CheckPanic) \<Rightarrow> (w1, ResultPanic)
      | (w1, Checked _) \<Rightarrow>
          (case updateNodeRemediatedStatus r (et_Event ev) True w1 of
             (w2, Some e) \<Rightarrow> (w2, ResultError (EJoin [e]))
           | (w2, None) \<Rightarrow> (w2, zero_result))
      | (w1, CheckError performRemediationErr) \<Rightarrow>
          (case updateNodeRemediatedStatus r (et_Event ev) False w1 of
             (w2, Some e) \<Rightarrow> (w2, ResultError (EJoin [performRemediationErr, e]))
           | (w2, None) \<Rightarrow> (w2, ResultError performRemediationErr)))"

definition runLogCollectorAndRemediate ::
  "('w, 't, 'b, 'doc, 'id) FaultRemediationReconciler \<Rightarrow> HealthEventDoc \<Rightarrow> 'doc EventWithToken \<Rightarrow> EquivalenceGroupConfig \<Rightarrow> 'w \<Rightarrow> 'w \<times> reconcile_result" where
  "runLogCollectorAndRemediate r d ev groupConfig w =
     (let nodeName = NodeName (hd_HealthEvent d); grp = EffectiveEquivalenceGroup groupConfig;
          maxAttempts = MaxRemediationAttempts (fr_config r) in
      case (if maxAttempts > 0 then tryStopIfAlreadyCapped r nodeName grp maxAttempts ev w else (w, None)) of
        (w1, Some res) \<Rightarrow> (w1, res)
      | (w1, None) \<Rightarrow>
          (case runLogCollector r (hd_HealthEvent d) (hd_ID d) w1 of
             (w2, ResultPanic) \<Rightarrow> (w2, ResultPanic)
           | (w2, ResultError e) \<Rightarrow> (w2, ResultError (EWrap ''error running log collector'' e))
           | (w2, ResultAfter delay) \<Rightarrow>
               if delay \<noteq> 0 then (w2, ResultAfter delay)
               else case (if maxAttempts > 0 then tryStopAtMaxAttempts r nodeName grp maxAttempts ev w2 else (w2, None)) of
                   (w3, Some res) \<Rightarrow> (w3, res)
                 | (w3, None) \<Rightarrow> remediate_and_record r d ev groupConfig w3))"

section \<open>Partial recoveries\<close>

definition currentNodeStateLabel :: "kube_node \<Rightarrow> string" where
  "currentNodeStateLabel n = (case map_of (entries (kn_Labels n)) NVSentinelStateLabelKey of None \<Rightarrow> [] | Some v \<Rightarrow> v)"

definition isTerminalRemediationLabel :: "string \<Rightarrow> bool" where
  "isTerminalRemediationLabel label \<longleftrightarrow> label = RemediationFailedLabelValue \<or> label = RemediationSucceededLabelValue"

definition unsupportedRemediationAction :: "health_event \<Rightarrow> EquivalenceGroupConfig option \<Rightarrow> bool" where
  "unsupportedRemediationAction healthEvent groupConfig \<longleftrightarrow> RecommendedAction healthEvent \<noteq> RA_NONE \<and> groupConfig = None"

text \<open>The result is \<^verbatim>\<open>None\<close> when the action is not supported.\<close>

definition partialRecoveryGroupConfig ::
  "('w, 't, 'b, 'doc, 'id) FaultRemediationReconciler \<Rightarrow> health_event \<Rightarrow> EquivalenceGroupConfig option option" where
  "partialRecoveryGroupConfig r healthEvent =
     (case GetGroupConfigForEvent (RemediationActions (fr_config r)) healthEvent of
        Inl _ \<Rightarrow> None
      | Inr groupConfig \<Rightarrow> if unsupportedRemediationAction healthEvent groupConfig then None else Some groupConfig)"

fun covering_resource ::
  "'w CRStatusChecker \<Rightarrow> (string \<times> EquivalenceGroupState) list \<Rightarrow> error option \<Rightarrow> 'w \<Rightarrow> 'w \<times> (error + bool)" where
  "covering_resource statusChecker [] first_err w = (w, case first_err of None \<Rightarrow> Inr False | Some e \<Rightarrow> Inl e)"
| "covering_resource statusChecker ((_, gs) # rest) first_err w =
     (case GetCRState statusChecker (gs_ActionName gs) (MaintenanceCR gs) w of
        (w1, Inl e) \<Rightarrow> covering_resource statusChecker rest (if first_err = None then Some e else first_err) w1
      | (w1, Inr st) \<Rightarrow>
          if st = CRStateInProgress \<or> st = CRStateSucceeded then (w1, Inr True)
          else covering_resource statusChecker rest first_err w1)"

definition coveredByActiveRemediationCR ::
  "('w, 't, 'b, 'doc, 'id) FaultRemediationReconciler \<Rightarrow> EquivalenceGroupConfig option \<Rightarrow> RemediationStateAnnotation \<Rightarrow> 'w \<Rightarrow> 'w \<times> (error + bool)" where
  "coveredByActiveRemediationCR r groupConfig remediationState w =
     (case groupConfig of
        None \<Rightarrow> (w, Inr False)
      | Some gc \<Rightarrow>
          covering_resource (rc_statusChecker (RemediationClient r)) (range_groups r (FilterEquivalenceGroupStates gc remediationState)) None w)"

text \<open>The result is whether the event forces the failed label, and the flag for a remediation that succeeded.\<close>

definition activeEventForcesRemediationFailed ::
  "('w, 't, 'b, 'doc, 'id) FaultRemediationReconciler \<Rightarrow> string \<Rightarrow> health_event \<Rightarrow> RemediationStateAnnotation \<Rightarrow> bool \<Rightarrow> 'w
     \<Rightarrow> 'w \<times> (error + bool \<times> bool)" where
  "activeEventForcesRemediationFailed r nodeName activeEvent remediationState sawRemediationSuccess w =
     (case findHealthEventStatusByID r nodeName (Id activeEvent) w of
        (w1, Inl e) \<Rightarrow> (w1, Inl (EWrap (''failed to evaluate active event '' @ Id activeEvent) e))
      | (w1, Inr status) \<Rightarrow>
          (case partialRecoveryGroupConfig r activeEvent of
             None \<Rightarrow> (w1, Inr (True, sawRemediationSuccess))
           | Some groupConfig \<Rightarrow>
               (case (case status of None \<Rightarrow> None | Some st \<Rightarrow> sr_FaultRemediated st) of
                  Some False \<Rightarrow> (w1, Inr (True, sawRemediationSuccess))
                | Some True \<Rightarrow> (w1, Inr (False, True))
                | None \<Rightarrow>
                    (case coveredByActiveRemediationCR r groupConfig remediationState w1 of
                       (w2, Inl e) \<Rightarrow> (w2, Inl (EWrap (''failed to evaluate active event '' @ Id activeEvent) e))
                     | (w2, Inr covered) \<Rightarrow> (w2, Inr (False, covered \<or> sawRemediationSuccess))))))"

fun recompute_label ::
  "('w, 't, 'b, 'doc, 'id) FaultRemediationReconciler \<Rightarrow> string \<Rightarrow> health_event list \<Rightarrow> RemediationStateAnnotation \<Rightarrow> bool \<Rightarrow> 'w
     \<Rightarrow> 'w \<times> (error + NVSentinelStateLabelValue option)" where
  "recompute_label r nodeName [] remediationState sawRemediationSuccess w =
     (w, Inr (if sawRemediationSuccess then Some RemediationSucceededLabelValue else None))"
| "recompute_label r nodeName (activeEvent # rest) remediationState sawRemediationSuccess w =
     (case activeEventForcesRemediationFailed r nodeName activeEvent remediationState sawRemediationSuccess w of
        (w1, Inl e) \<Rightarrow> (w1, Inl e)
      | (w1, Inr (failed, saw)) \<Rightarrow>
          if failed then (w1, Inr (Some RemediationFailedLabelValue)) else recompute_label r nodeName rest remediationState saw w1)"

definition recomputePartialRecoveryNodeLabel ::
  "('w, 't, 'b, 'doc, 'id) FaultRemediationReconciler \<Rightarrow> string \<Rightarrow> (string, string) gomap \<Rightarrow> RemediationStateAnnotation \<Rightarrow> 'w
     \<Rightarrow> 'w \<times> (error + NVSentinelStateLabelValue option)" where
  "recomputePartialRecoveryNodeLabel r nodeName annotations remediationState w =
     (case activeQuarantineEvents r annotations of
        Inl e \<Rightarrow> (w, Inl e)
      | Inr activeEvents \<Rightarrow>
          if activeEvents = [] then (w, Inr None) else recompute_label r nodeName activeEvents remediationState False w)"

definition reconcilePartialRecoveryLabel ::
  "('w, 't, 'b, 'doc, 'id) FaultRemediationReconciler \<Rightarrow> string \<Rightarrow> kube_node \<Rightarrow> RemediationStateAnnotation \<Rightarrow> 'w \<Rightarrow> 'w \<times> completion" where
  "reconcilePartialRecoveryLabel r nodeName n remediationState w =
     (case recomputePartialRecoveryNodeLabel r nodeName (entries (kn_Annotations n)) remediationState w of
        (w1, Inl e) \<Rightarrow> (w1, Returned (Some (EWrap (''failed to recompute partial recovery label for node '' @ nodeName) e)))
      | (w1, Inr None) \<Rightarrow> (w1, Returned None)
      | (w1, Inr (Some targetLabel)) \<Rightarrow>
          (case fr_update_label r nodeName targetLabel w1 of
             (w2, _, Panicked) \<Rightarrow> (w2, Panicked)
           | (w2, modified, Returned (Some e)) \<Rightarrow>
               (w2, Returned (if \<not> modified then Some (EWrap ''failed to update partial recovery label'' e) else None))
           | (w2, _, Returned None) \<Rightarrow> (w2, Returned None)))"

definition isPartialRecoveryRemediationEvent :: "HealthEventDoc \<Rightarrow> bool" where
  "isPartialRecoveryRemediationEvent d \<longleftrightarrow>
     IsHealthy (hd_HealthEvent d) \<and> (hd_NodeQuarantined d = Quarantined \<or> hd_NodeQuarantined d = AlreadyQuarantined)"

definition finish_with_marker ::
  "('w, 't, 'b, 'doc, 'id) FaultRemediationReconciler \<Rightarrow> string \<Rightarrow> 'doc EventWithToken \<Rightarrow> 'w \<Rightarrow> 'w \<times> reconcile_result" where
  "finish_with_marker r what ev w =
     (case updateNodeRemediatedStatus r (et_Event ev) True w of
        (w1, Some e) \<Rightarrow> (w1, ResultError (EWrap (''failed to write completion marker for '' @ what) e))
      | (w1, None) \<Rightarrow> markProcessedOrError r (et_ResumeToken ev) w1)"

definition handlePartialRecoveryEvent ::
  "('w, 't, 'b, 'doc, 'id) FaultRemediationReconciler \<Rightarrow> string \<Rightarrow> 'doc EventWithToken \<Rightarrow> 'w \<Rightarrow> 'w \<times> reconcile_result" where
  "handlePartialRecoveryEvent r nodeName ev w =
     (case GetRemediationState (annotationManager r) nodeName w of
        (w1, Inl e) \<Rightarrow>
          if IsNotFound e then markEventTerminalAndProcessed r ev True w1
          else (w1, ResultError (EWrap ''failed to get remediation state for partial recovery'' e))
      | (w1, Inr (remediationState, n)) \<Rightarrow>
          (case (if isTerminalRemediationLabel (currentNodeStateLabel n)
                 then reconcilePartialRecoveryLabel r nodeName n remediationState w1 else (w1, Returned None)) of
             (w2, Panicked) \<Rightarrow> (w2, ResultPanic)
           | (w2, Returned (Some e)) \<Rightarrow> (w2, ResultError e)
           | (w2, Returned None) \<Rightarrow> finish_with_marker r ''partial recovery event'' ev w2))"

section \<open>Cancellations\<close>

definition groupConfigMatchesAny :: "EquivalenceGroupConfig \<Rightarrow> string list \<Rightarrow> bool" where
  "groupConfigMatchesAny groupConfig groups \<longleftrightarrow> list_ex (\<lambda>g. g \<in> set groups) (all_groups groupConfig)"

definition unresolvedRemediationReadyEventsCondition :: "string \<Rightarrow> condition" where
  "unresolvedRemediationReadyEventsCondition nodeName =
     (let conditions = [In ''healtheventstatus.nodequarantined'' [VString Quarantined, VString AlreadyQuarantined],
            In ''healtheventstatus.userpodsevictionstatus.status'' [VString StatusSucceeded, VString AlreadyDrained],
            Eq ''healtheventstatus.faultremediated'' VNil]
      in And (if nodeName \<noteq> [] then Eq ''healthevent.nodename'' (VString nodeName) # conditions else conditions))"

definition unresolvedRemediationReadyEventsQuery :: "string \<Rightarrow> Builder" where
  "unresolvedRemediationReadyEventsQuery nodeName = Build (unresolvedRemediationReadyEventsCondition nodeName) New"

fun closeStaleEquivalentEventBatch ::
  "('w, 't, 'b, 'doc, 'id) FaultRemediationReconciler \<Rightarrow> string \<Rightarrow> string list \<Rightarrow> bool \<Rightarrow> int \<Rightarrow> 'doc stored_record list \<Rightarrow> 'w
     \<Rightarrow> 'w \<times> error option" where
  "closeStaleEquivalentEventBatch r nodeName coveredGroups closed now [] w = (w, None)"
| "closeStaleEquivalentEventBatch r nodeName coveredGroups closed now (event # rest) w =
     (let continue = closeStaleEquivalentEventBatch r nodeName coveredGroups closed now rest in
      case ParseHealthEventFromEvent (fr_codec r) (sr_RawEvent event) of
        Inl _ \<Rightarrow> continue w
      | Inr parsedEvent \<Rightarrow>
          (case GetGroupConfigForEvent (RemediationActions (fr_config r)) (ev_HealthEvent parsedEvent) of
             Inl _ \<Rightarrow> continue w
           | Inr None \<Rightarrow> continue w
           | Inr (Some groupConfig) \<Rightarrow>
               if \<not> groupConfigMatchesAny groupConfig coveredGroups then continue w
               else case ExtractDocumentID (fr_codec r) (sr_RawEvent event) of
                   Inl _ \<Rightarrow> continue w
                 | Inr documentID \<Rightarrow>
                     (case fr_UpdateStatus r w documentID
                            \<lparr>su_FaultRemediated = closed, su_LastRemediationTimestamp = (if closed then Some now else None)\<rparr> of
                        (w1, Some e) \<Rightarrow>
                          (w1, Some (EWrap (''failed to close stale equivalent event '' @ documentID @ '' for node '' @ nodeName) e))
                      | (w1, None) \<Rightarrow> continue w1)))"

definition covered_groups :: "RemediationStateAnnotation \<Rightarrow> string list" where
  "covered_groups st = map fst (filter (\<lambda>(_, gs). MaintenanceCR gs \<noteq> []) (EquivalenceGroups st))"

definition closeStaleEquivalentEvents ::
  "('w, 't, 'b, 'doc, 'id) FaultRemediationReconciler \<Rightarrow> string \<Rightarrow> Status \<Rightarrow> RemediationStateAnnotation \<Rightarrow> 'w \<Rightarrow> 'w \<times> error option" where
  "closeStaleEquivalentEvents r nodeName status remediationState w =
     (if EquivalenceGroups remediationState = [] then (w, None)
      else fr_FindBatched r w (unresolvedRemediationReadyEventsQuery nodeName) coldStartBatchSize
        (closeStaleEquivalentEventBatch r nodeName (covered_groups remediationState) (status = UnQuarantined) (fr_now r w)))"

definition clearFaultRemediationNodeLabel :: "('w, 't, 'b, 'doc, 'id) FaultRemediationReconciler \<Rightarrow> string \<Rightarrow> 'w \<Rightarrow> 'w \<times> completion" where
  "clearFaultRemediationNodeLabel r nodeName w =
     (case RemoveNVSentinelStateNodeLabelIfMatch (fr_onError r) (fr_labels r) nodeName
             [RemediatingLabelValue, RemediationSucceededLabelValue, RemediationFailedLabelValue] w of
        ((w1, _), Panicked) \<Rightarrow> (w1, Panicked)
      | ((w1, _), Returned err) \<Rightarrow>
          (w1, Returned (map_option (EWrap (''failed to clear fault-remediation label for node '' @ nodeName)) err)))"

definition handleCancellationEvent ::
  "('w, 't, 'b, 'doc, 'id) FaultRemediationReconciler \<Rightarrow> string \<Rightarrow> Status \<Rightarrow> 'doc EventWithToken \<Rightarrow> 'w \<Rightarrow> 'w \<times> reconcile_result" where
  "handleCancellationEvent r nodeName status ev w =
     (case GetRemediationState (annotationManager r) nodeName w of
        (w1, Inl e) \<Rightarrow>
          if IsNotFound e then markEventTerminalAndProcessed r ev True w1
          else (w1, ResultError (EWrap ''failed to get remediation state for node'' e))
      | (w1, Inr (remediationState, _)) \<Rightarrow>
          (case closeStaleEquivalentEvents r nodeName status remediationState w1 of
             (w2, Some e) \<Rightarrow> (w2, ResultError e)
           | (w2, None) \<Rightarrow>
               (case (if status = UnQuarantined \<and> MaxRemediationAttempts (fr_config r) > 0
                      then KeepAttemptsForValidation (annotationManager r) nodeName w2
                      else ClearRemediationState (annotationManager r) nodeName w2) of
                  (w3, Some e) \<Rightarrow> (w3, ResultError (EWrap ''failed to clear remediation state for node'' e))
                | (w3, None) \<Rightarrow>
                    (case clearFaultRemediationNodeLabel r nodeName w3 of
                       (w4, Panicked) \<Rightarrow> (w4, ResultPanic)
                     | (w4, Returned (Some e)) \<Rightarrow> (w4, ResultError e)
                     | (w4, Returned None) \<Rightarrow> finish_with_marker r ''cancellation event'' ev w4))))"

section \<open>Reconciling\<close>

text \<open>An event whose group is not known is skipped before its group is used.\<close>

definition handleRemediationEvent ::
  "('w, 't, 'b, 'doc, 'id) FaultRemediationReconciler \<Rightarrow> HealthEventDoc \<Rightarrow> 'doc EventWithToken \<Rightarrow> 'w \<Rightarrow> 'w \<times> reconcile_result" where
  "handleRemediationEvent r d ev w =
     (if isPartialRecoveryRemediationEvent d then handlePartialRecoveryEvent r (NodeName (hd_HealthEvent d)) ev w
      else
        let groupConfig = (case GetGroupConfigForEvent (RemediationActions (fr_config r)) (hd_HealthEvent d) of Inl _ \<Rightarrow> None | Inr gc \<Rightarrow> gc) in
        case trySkipEvent r d groupConfig ev w of
          (w1, Some res) \<Rightarrow> (w1, res)
        | (w1, None) \<Rightarrow>
            (case trySkipResolvedEvent r d ev w1 of
               (w2, Some res) \<Rightarrow> (w2, res)
             | (w2, None) \<Rightarrow>
                 (case tryHandleExistingCR r d groupConfig ev w2 of
                    (w3, Some res) \<Rightarrow> (w3, res)
                  | (w3, None) \<Rightarrow>
                      (case groupConfig of
                         None \<Rightarrow> (w3, ResultPanic)
                       | Some gc \<Rightarrow>
                           (case runLogCollectorAndRemediate r d ev gc w3 of
                              (w4, ResultAfter delay) \<Rightarrow>
                                if delay \<noteq> 0 then (w4, ResultAfter delay) else markProcessedOrError r (et_ResumeToken ev) w4
                            | (w4, res) \<Rightarrow> (w4, res))))))"

definition reconcileEvent :: "('w, 't, 'b, 'doc, 'id) FaultRemediationReconciler \<Rightarrow> 'doc EventWithToken \<Rightarrow> 'w \<Rightarrow> 'w \<times> reconcile_result" where
  "reconcileEvent r ev w =
     (case parseHealthEvent r ev w of
        (w1, Inl _) \<Rightarrow> (w1, zero_result)
      | (w1, Inr d) \<Rightarrow>
          if hd_NodeQuarantined d = UnQuarantined \<or> hd_NodeQuarantined d = Cancelled
          then handleCancellationEvent r (NodeName (hd_HealthEvent d)) (hd_NodeQuarantined d) ev w1
          else handleRemediationEvent r d ev w1)"

definition Reconcile :: "('w, 't, 'b, 'doc, 'id) FaultRemediationReconciler \<Rightarrow> reconcileRequest \<Rightarrow> 'w \<Rightarrow> 'w \<times> reconcile_result" where
  "Reconcile r request w =
     (if rq_documentID request = [] then (w, zero_result)
      else case fr_Find r w (Build (Eq ''_id'' (VString (rq_documentID request))) New) of
          (w1, Inl e) \<Rightarrow> (w1, ResultError (EWrap (''fetch health event '' @ rq_documentID request) e))
        | (w1, Inr []) \<Rightarrow> markProcessedOrError r (rq_resumeToken request) w1
        | (w1, Inr (event # _)) \<Rightarrow>
            if fr_empty_document r (sr_RawEvent event) then markProcessedOrError r (rq_resumeToken request) w1
            else reconcileEvent r \<lparr>et_Event = sr_RawEvent event, et_ResumeToken = rq_resumeToken request\<rparr> w1)"

section \<open>Filling the queue\<close>

text \<open>A send on a channel fails when the context is done.\<close>

type_synonym 'w send = "reconcileRequest \<Rightarrow> 'w \<Rightarrow> 'w \<times> error option"

fun enqueue_cold :: "('w, 't, 'b, 'doc, 'id) FaultRemediationReconciler \<Rightarrow> 'w send \<Rightarrow> 'doc stored_record list \<Rightarrow> 'w \<Rightarrow> 'w \<times> error option" where
  "enqueue_cold r send [] w = (w, None)"
| "enqueue_cold r send (healthEvent # rest) w =
     (case ExtractDocumentID (fr_codec r) (sr_RawEvent healthEvent) of
        Inl _ \<Rightarrow> enqueue_cold r send rest w
      | Inr documentID \<Rightarrow>
          (case send \<lparr>rq_documentID = documentID, rq_resumeToken = []\<rparr> w of
             (w1, Some e) \<Rightarrow> (w1, Some e)
           | (w1, None) \<Rightarrow> enqueue_cold r send rest w1))"

definition cold_start_condition :: "('w, 't, 'b, 'doc, 'id) FaultRemediationReconciler \<Rightarrow> condition" where
  "cold_start_condition r =
     (let condition = Or [unresolvedRemediationReadyEventsCondition [],
            And [In ''healtheventstatus.nodequarantined'' [VString UnQuarantined, VString Cancelled],
                 Eq ''healtheventstatus.faultremediated'' VNil]]
      in if ColdStartAfterTime r \<noteq> 0 then And [Gt ''createdAt'' (VTime (ColdStartAfterTime r)), condition] else condition)"

definition HandleColdStart :: "('w, 't, 'b, 'doc, 'id) FaultRemediationReconciler \<Rightarrow> 'w send \<Rightarrow> 'w \<Rightarrow> 'w" where
  "HandleColdStart r send w =
     (if StartFresh r then w
      else fst (fr_FindBatched r w (Build (cold_start_condition r) New) coldStartBatchSize (enqueue_cold r send)))"

text \<open>The result says whether to go on reading.\<close>

definition queueEventByDocumentID :: "('w, 't, 'b, 'doc, 'id) FaultRemediationReconciler \<Rightarrow> 'w send \<Rightarrow> 'doc EventWithToken \<Rightarrow> 'w \<Rightarrow> 'w \<times> bool" where
  "queueEventByDocumentID r send e w =
     (case ExtractDocumentID (fr_codec r) (et_Event e) of
        Inl _ \<Rightarrow> (fst (safeMarkProcessed r (et_ResumeToken e) w), True)
      | Inr documentID \<Rightarrow>
          (case send \<lparr>rq_documentID = documentID, rq_resumeToken = et_ResumeToken e\<rparr> w of
             (w1, None) \<Rightarrow> (w1, True)
           | (w1, Some _) \<Rightarrow> (w1, False)))"

text \<open>The events that the stream delivers until it closes.\<close>

fun AdaptEvents :: "('w, 't, 'b, 'doc, 'id) FaultRemediationReconciler \<Rightarrow> 'w send \<Rightarrow> 'doc EventWithToken list \<Rightarrow> 'w \<Rightarrow> 'w" where
  "AdaptEvents r send [] w = w"
| "AdaptEvents r send (e # es) w =
     (case queueEventByDocumentID r send e w of
        (w1, True) \<Rightarrow> AdaptEvents r send es w1
      | (w1, False) \<Rightarrow> w1)"

end
