(* ===== verification/Remediation_Properties.thy ===== *)
theory Remediation_Properties
  imports Remediation_Laws Remediation_Reconciler
begin

text \<open>
  What the remediation state guarantees: attempts are recorded atomically and bounded, and their counts survive the
  hand-off to validation.
\<close>

section \<open>Attempts\<close>

text \<open>
  C27. However stale the cache is and whatever other writers do, an operation of a session (recording an attempt
  or a resource, ending groups, resuming kept counts) commits at most one version of the node; that version is the
  latest one with only the state annotation changed, and the change is the one the operation stands for. An
  operation that reports success without a commit found nothing to change, which a recorded attempt never does, or
  its last request was cut off by the end of the context. When an attempt was committed, the reported count is the
  count in the committed version.
\<close>

theorem session_operations_atomic:
  assumes con: "manager_contract m hist name" and run: "run_session_op m name op w = (w', res)"
  shows "\<exists>new. hist w' = hist w @ new \<and>
    (by_others new \<and>
       (\<forall>k. res = Inr k \<longrightarrow> request_cut_off m name w' \<or>
          (\<forall>g. op \<noteq> OpRecord g) \<and> (\<exists>wr c0 n c. n \<in> snd ` set (hist w') \<and> op_change m op wr c0 n \<in> {(c, Inr None), (c, Inr (Some n))})) \<or>
     (\<exists>before after n n' x. new = before @ (True, n') # after \<and> by_others before \<and> by_others after \<and> hist w @ before \<noteq> [] \<and>
        n = snd (last (hist w @ before)) \<and> annotation_only n n' \<and> op_changes m op n x \<and>
        agrees (node_remediation_state m n') (apply_change x (node_remediation_state m n)) \<and>
        (\<forall>g k. op = OpRecord g \<longrightarrow> res = Inr k \<longrightarrow> k = attempts g (node_remediation_state m n'))))"
proof -
  from con have enc: "encodes_states m" by (simp add: manager_contract_def)
  obtain c r where ret: "retried IsConflict (annotation_try m name (get_failed name) (op_change m op)) (w, start) (w', c) r"
    and ok: "(\<exists>k. res = Inr k) \<longrightarrow> r = None \<or> request_cut_off m name w'"
    and k: "\<forall>g k. op = OpRecord g \<longrightarrow> res = Inr k \<longrightarrow> k = cap_attemptCount c"
    by (rule op_retried [OF con run])
  from retried_atomic [OF ret con op_identity] have
    "quiet_call (op_change m op) (hist w) (hist w') c r \<or> writing_call (op_change m op) (hist w) (hist w') c r" by simp
  then show ?thesis
  proof
    assume q: "quiet_call (op_change m op) (hist w) (hist w') c r"
    have idle: "request_cut_off m name w' \<or> (\<forall>g. op \<noteq> OpRecord g) \<and>
        (\<exists>wr c0 n c. n \<in> snd ` set (hist w') \<and> op_change m op wr c0 n \<in> {(c, Inr None), (c, Inr (Some n))})" if "res = Inr k" for k
    proof (cases "request_cut_off m name w'")
      case False
      with ok that q obtain wr c0 n where n: "n \<in> snd ` set (hist w')"
        "op_change m op wr c0 n = (c, Inr None) \<or> op_change m op wr c0 n = (c, Inr (Some n))" unfolding quiet_call_def by blast
      have "op \<noteq> OpRecord g" for g using n(2) record_not_idle [OF enc, of g wr c0 n c] by auto
      with n show ?thesis by blast
    qed simp
    from q obtain new where "hist w' = hist w @ new" "by_others new" unfolding quiet_call_def by (elim exE conjE) (rule that)
    with idle show ?thesis by (intro exI [of _ new] conjI disjI1) simp_all
  next
    assume "writing_call (op_change m op) (hist w) (hist w') c r"
    then obtain before after wr c0 n n' v where h: "hist w' = hist w @ before @ (True, n'\<lparr>kn_ResourceVersion := v\<rparr>) # after"
      "by_others before" "by_others after" "hist w @ before \<noteq> []" "n = snd (last (hist w @ before))"
      and f: "op_change m op wr c0 n = (c, Inr (Some n'))" unfolding writing_call_def by blast
    obtain x where "op_changes m op n x" "agrees (node_remediation_state m (n'\<lparr>kn_ResourceVersion := v\<rparr>)) (apply_change x (node_remediation_state m n))"
      using op_effect(1) [OF enc f] by blast
    moreover have "\<forall>g k. op = OpRecord g \<longrightarrow> res = Inr k \<longrightarrow> k = attempts g (node_remediation_state m (n'\<lparr>kn_ResourceVersion := v\<rparr>))"
      using op_effect(3) [OF enc f] k by metis
    moreover note op_effect(2) [OF enc f, of v] h
    ultimately show ?thesis
      by (intro exI [of _ "before @ (True, n'\<lparr>kn_ResourceVersion := v\<rparr>) # after"] conjI disjI2 exI [of _ before] exI [of _ after] exI [of _ n]
          exI [of _ "n'\<lparr>kn_ResourceVersion := v\<rparr>"] exI [of _ x] refl) simp_all
  qed
qed

text \<open>A server with one node \<^verbatim>\<open>a\<close>, whose cache catches up after every read.\<close>

type_synonym cached_server = "nat \<times> versions"

definition server_versions :: "cached_server \<Rightarrow> versions" where
  "server_versions s = map (\<lambda>(i, own, n). (own, n\<lparr>kn_Name := ''a'', kn_ResourceVersion := fmt_nat i\<rparr>)) (enumerate 0 (snd s))"

text \<open>The loop of \<^verbatim>\<open>retry.RetryOnConflict\<close>, with the last conflict it keeps.\<close>

fun retry_conflicts :: "nat \<Rightarrow> error option \<Rightarrow> ('s \<Rightarrow> 's \<times> error option) \<Rightarrow> 's \<Rightarrow> 's \<times> error option" where
  "retry_conflicts 0 lastErr fn s = (case fn s of
       (s', Some e) \<Rightarrow> (s', if \<not> IsConflict e \<and> context_done e then lastErr else Some e)
     | (s', None) \<Rightarrow> (s', None))"
| "retry_conflicts (Suc k) lastErr fn s = (case fn s of
       (s', Some e) \<Rightarrow>
         if IsConflict e then retry_conflicts k (Some e) fn s'
         else (s', if context_done e then lastErr else Some e)
     | (s', None) \<Rightarrow> (s', None))"

definition one_attempt :: RemediationStateAnnotation where
  "one_attempt = record_attempt ''restart'' no_remediation"

definition cached_manager :: "cached_server NodeAnnotationManager" where
  "cached_manager = \<lparr>
     am_Get = (\<lambda>s name. if name = ''a'' \<and> fst s < length (snd s)
       then ((length (snd s) - 1, snd s), Inr (snd (server_versions s ! fst s))) else (s, Inl (EStatus ''NotFound''))),
     am_Update = (\<lambda>s n. if snd s \<noteq> [] \<and> kn_ResourceVersion n = fmt_nat (length (snd s) - 1)
       then ((fst s, snd s @ [(True, n)]), None) else (s, Some (EStatus ''Conflict''))),
     am_RetryOnConflict = retry_conflicts 9 None, am_now = (\<lambda>_. 7),
     unmarshal_state = (\<lambda>json. if json = ''one'' then Inr one_attempt else Inl (EText ''syntax'')),
     marshal_state = (\<lambda>st. if st = one_attempt then Inr ''one'' else Inl (EText ''unsupported'')),
     unmarshal_session = (\<lambda>_. Inr [])\<rparr>"

lemma reports_last:
  assumes "fn s = (s1, e1)" and "\<And>e. lastErr = Some e \<Longrightarrow> IsConflict e"
    and "err = (case e1 of Some e \<Rightarrow> if \<not> IsConflict e \<and> context_done e then lastErr else Some e | None \<Rightarrow> None)"
  shows "\<exists>outcome. retried IsConflict fn s s1 outcome \<and> retry_reports IsConflict outcome err"
proof (intro exI conjI)
  show "retried IsConflict fn s s1 e1" using assms(1) by (rule retried.finished)
  show "retry_reports IsConflict e1 err"
    using assms(2,3) by (cases e1) (auto simp: retry_reports_def split: option.splits)
qed

lemma retry_conflicts_retried:
  assumes "\<And>e. lastErr = Some e \<Longrightarrow> IsConflict e"
  shows "retry_conflicts k lastErr fn s = (s', err) \<Longrightarrow> \<exists>outcome. retried IsConflict fn s s' outcome \<and> retry_reports IsConflict outcome err"
  using assms
proof (induction k arbitrary: s lastErr)
  case 0
  obtain s1 e1 where one: "fn s = (s1, e1)" by (cases "fn s")
  with 0(1) have "s1 = s'" "err = (case e1 of Some e \<Rightarrow> if \<not> IsConflict e \<and> context_done e then lastErr else Some e | None \<Rightarrow> None)"
    by (cases e1; simp)+
  with one 0(2) reports_last [of fn s s1 e1 lastErr err] show ?case by simp
next
  case (Suc k)
  obtain s1 e1 where one: "fn s = (s1, e1)" by (cases "fn s")
  show ?case
  proof (cases "\<exists>e. e1 = Some e \<and> IsConflict e")
    case True
    then obtain e where e: "e1 = Some e" "IsConflict e" by blast
    with one Suc.prems(1) have "retry_conflicts k (Some e) fn s1 = (s', err)" by simp
    from Suc.IH [OF this] e one show ?thesis using retried.again [of fn s s1 e IsConflict] by auto
  next
    case False
    with one Suc.prems(1) have "s1 = s'" "err = (case e1 of Some e \<Rightarrow> if \<not> IsConflict e \<and> context_done e then lastErr else Some e | None \<Rightarrow> None)"
      by (cases e1; simp)+
    with one Suc.prems(2) reports_last [of fn s s1 e1 lastErr err] show ?thesis by simp
  qed
qed

lemma server_versions_length [simp]: "length (server_versions s) = length (snd s)"
  by (simp add: server_versions_def)

lemma server_versions_nth:
  "i < length (snd s) \<Longrightarrow> server_versions s ! i = (fst (snd s ! i), (snd (snd s ! i))\<lparr>kn_Name := ''a'', kn_ResourceVersion := fmt_nat i\<rparr>)"
  by (simp add: server_versions_def nth_enumerate_eq split: prod.splits)

lemma cached_contract: "manager_contract cached_manager server_versions ''a''"
  unfolding manager_contract_def
proof (intro conjI)
  show "cached_reads cached_manager server_versions ''a''"
    unfolding cached_reads_def
  proof (intro allI impI)
    fix s s' r assume get: "am_Get cached_manager s ''a'' = (s', r)"
    have same: "server_versions s' = server_versions s" using get by (auto simp: cached_manager_def server_versions_def split: if_splits)
    have "n \<in> snd ` set (server_versions s') \<and> kn_Name n = ''a''" if "r = Inr n" for n
    proof -
      have i: "fst s < length (snd s)" "n = snd (server_versions s ! fst s)"
        using get that by (auto simp: cached_manager_def split: if_splits)
      then have "server_versions s ! fst s \<in> set (server_versions s)" by (intro nth_mem) simp
      then have "n \<in> snd ` set (server_versions s')" unfolding same i(2) by (rule imageI)
      with i show ?thesis by (simp add: server_versions_nth)
    qed
    with same show "(\<exists>xs. by_others xs \<and> server_versions s' = server_versions s @ xs) \<and>
      (\<forall>n. r = Inr n \<longrightarrow> n \<in> snd ` set (server_versions s') \<and> kn_Name n = ''a'')" by (auto simp: by_others_def)
  qed
  show "guarded_updates cached_manager server_versions ''a''"
    unfolding guarded_updates_def
  proof (intro allI impI)
    fix s s' n r
    assume name: "kn_Name n = ''a''" and upd: "am_Update cached_manager s n = (s', r)"
    show "\<exists>before after. by_others before \<and> by_others after \<and>
      (server_versions s' = server_versions s @ before @ after \<and>
         (r = None \<longrightarrow> server_versions s @ before \<noteq> [] \<and> snd (last (server_versions s @ before)) = n) \<or>
       (\<exists>v. server_versions s' = server_versions s @ before @ (True, n\<lparr>kn_ResourceVersion := v\<rparr>) # after \<and> server_versions s @ before \<noteq> [] \<and>
          kn_ResourceVersion (snd (last (server_versions s @ before))) = kn_ResourceVersion n \<and> (\<forall>e. r = Some e \<longrightarrow> \<not> IsConflict e)))"
    proof (cases "snd s \<noteq> [] \<and> kn_ResourceVersion n = fmt_nat (length (snd s) - 1)")
      case True
      then have res: "s' = (fst s, snd s @ [(True, n)])" "r = None" using upd by (simp_all add: cached_manager_def)
      have ne: "server_versions s \<noteq> []" using True server_versions_length [of s] by (metis length_0_conv)
      have "server_versions s' = server_versions s @ [(True, n\<lparr>kn_ResourceVersion := fmt_nat (length (snd s))\<rparr>)]"
        using res name by (simp add: server_versions_def enumerate_append_eq)
      moreover have "kn_ResourceVersion (snd (last (server_versions s))) = kn_ResourceVersion n"
        using True ne by (simp add: last_conv_nth server_versions_nth)
      ultimately show ?thesis using res ne
        by - (rule exI [of _ "[]"], rule exI [of _ "[]"], auto simp: by_others_def)
    next
      case False
      then have "s' = s" "r = Some (EStatus ''Conflict'')" using upd by (auto simp: cached_manager_def)
      then show ?thesis by (intro exI [of _ "[]"]) (auto simp: by_others_def)
    qed
  qed
  show "unique_versions server_versions"
    unfolding unique_versions_def
    by (auto simp: distinct_conv_nth server_versions_nth dest!: fmt_nat_inj)
  show "retries_conflicts cached_manager"
    unfolding retries_conflicts_def
  proof (intro allI impI)
    fix fn :: "cached_server attempt" and s s' err
    assume "am_RetryOnConflict cached_manager fn s = (s', err)"
    then have "retry_conflicts 9 None fn s = (s', err)" by (simp add: cached_manager_def)
    then show "\<exists>outcome. retried IsConflict fn s s' outcome \<and> retry_reports IsConflict outcome err"
      by (rule retry_conflicts_retried [rotated]) simp
  qed
  show "encodes_states cached_manager"
    unfolding encodes_states_def cached_manager_def by (auto split: if_splits)
qed

text \<open>The cache misses a label that another controller has added.\<close>

definition lagging :: cached_server where
  "lagging = (0, [(False, stale_node), (False, live_node)])"

lemma lagging_run:
  "run_session_op cached_manager ''a'' (OpRecord ''restart'') lagging =
     ((1, [(False, stale_node), (False, live_node), (True, (annotate AnnotationKey ''one'' live_node)\<lparr>kn_ResourceVersion := fmt_nat 1\<rparr>)]), Inr 1)"
  by code_simp

lemma cached_never_cut: "\<not> request_cut_off cached_manager name s"
  by (auto simp: request_cut_off_def cached_manager_def context_done_def split: if_splits)

theorem session_operations_atomic_witness:
  "\<exists>n'. server_versions (fst (run_session_op cached_manager ''a'' (OpRecord ''restart'') lagging)) = server_versions lagging @ [(True, n')] \<and>
     annotation_only (snd (last (server_versions lagging))) n' \<and> attempts ''restart'' (node_remediation_state cached_manager n') = 1"
proof -
  let ?run = "run_session_op cached_manager ''a'' (OpRecord ''restart'') lagging"
  have run: "?run = (fst ?run, Inr 1)" unfolding lagging_run by simp
  have len: "length (server_versions (fst ?run)) = Suc (length (server_versions lagging))" unfolding lagging_run by (simp add: lagging_def)
  from session_operations_atomic [OF cached_contract run] cached_never_cut obtain before after n'
    where new: "server_versions (fst ?run) = server_versions lagging @ before @ (True, n') # after"
      "annotation_only (snd (last (server_versions lagging @ before))) n'"
      "attempts ''restart'' (node_remediation_state cached_manager n') = 1" by (elim exE conjE disjE) auto
  moreover from new(1) len have "before = []" "after = []" by auto
  ultimately show ?thesis by auto
qed

text \<open>
  When the context ends during the request, recording an attempt reports a count that no version of the node holds:
  the counter of the last try when its update was cut off, and zero when its read was.
\<close>

lemma cut_off_attempt_reported:
  "RecordRemediationAttempt (cached_manager\<lparr>am_Update := (\<lambda>s n. (s, Some EDeadlineExceeded))\<rparr>) ''a'' ''restart''
     (1, [(False, stale_node), (False, live_node)]) = ((1, [(False, stale_node), (False, live_node)]), Inr 1)"
  "RecordRemediationAttempt (cached_manager\<lparr>am_Get := (\<lambda>s name. (s, Inl EDeadlineExceeded))\<rparr>) ''a'' ''restart'' lagging =
     (lagging, Inr 0)"
  by code_simp+

text \<open>
  C28. Between two resets of its counter, whatever the sequence of attempts, recorded resources, ended groups and resumed
  counts, no more attempts on a group are granted than the limit leaves after those counted before.
\<close>

theorem attempts_capped:
  assumes "attempts g st \<le> limit"
  shows "int (within_budget (attempts g) apply_change (attempt_on g) limit changes st) \<le> limit - attempts g st"
  using remediation.bounded [OF assms, where xs = changes] by simp

theorem attempts_capped_witness:
  "int (within_budget (attempts ''restart'') apply_change (attempt_on ''restart'') 2
     [Attempt ''restart'' [], Resource ''restart'' ''m1'' ''RESTART_VM'' 5, EndGroups [''restart''], Attempt ''reset'' [],
      Attempt ''restart'' [], EndGroups [''restart''], Attempt ''restart'' []] no_remediation) = 2 \<and>
   int (within_budget (attempts ''restart'') apply_change (attempt_on ''restart'') 2
     [Attempt ''restart'' [], Resource ''restart'' ''m1'' ''RESTART_VM'' 5, EndGroups [''restart''], Attempt ''reset'' [],
      Attempt ''restart'' [], EndGroups [''restart''], Attempt ''restart'' []] no_remediation) \<le> 2 - attempts ''restart'' no_remediation"
proof
  show "int (within_budget (attempts ''restart'') apply_change (attempt_on ''restart'') 2
     [Attempt ''restart'' [], Resource ''restart'' ''m1'' ''RESTART_VM'' 5, EndGroups [''restart''], Attempt ''reset'' [],
      Attempt ''restart'' [], EndGroups [''restart''], Attempt ''restart'' []] no_remediation) = 2" by code_simp
  show "int (within_budget (attempts ''restart'') apply_change (attempt_on ''restart'') 2
     [Attempt ''restart'' [], Resource ''restart'' ''m1'' ''RESTART_VM'' 5, EndGroups [''restart''], Attempt ''reset'' [],
      Attempt ''restart'' [], EndGroups [''restart''], Attempt ''restart'' []] no_remediation) \<le> 2 - attempts ''restart'' no_remediation"
    by (rule attempts_capped) (simp add: group_state_def no_remediation_def no_group_def)
qed

section \<open>The hand-off to validation\<close>

lemma kept_lookup:
  assumes "wf_gomap (EquivalenceGroups st)"
  shows "map_of (ValidationAttempts (kept_attempts session st)) g = (if 0 < attempts g st then Some (attempts g st) else None)"
proof -
  have "map_of (map (\<lambda>(grp, gs). (grp, AttemptCount gs)) (filter (\<lambda>(_, gs). AttemptCount gs > 0) m)) g =
      (case map_of m g of None \<Rightarrow> None | Some gs \<Rightarrow> if 0 < AttemptCount gs then Some (AttemptCount gs) else None)" if "wf_gomap m" for m
    using that by (induction m) (auto split: option.splits simp: map_of_eq_None_iff [THEN iffD2] simp del: map_of_eq_Some_iff)
  from this [OF assms] show ?thesis by (auto simp: kept_attempts_def group_state_def split: option.splits simp del: map_of_eq_Some_iff)
qed

lemma kept_wf:
  assumes "wf_gomap (EquivalenceGroups st)"
  shows "wf_gomap (ValidationAttempts (kept_attempts session st))"
proof -
  have "map_keys (ValidationAttempts (kept_attempts session st)) = map_keys (filter (\<lambda>(_, gs). AttemptCount gs > 0) (EquivalenceGroups st))"
    by (auto simp: kept_attempts_def)
  then show ?thesis using assms by (simp only: distinct_map_filter)
qed

text \<open>
  C29. A session that ends while validation holds the node keeps the attempt counts of every group and
  nothing else: the next fault finds them again when one of the requests of the hand-off still holds
  the node, finds no attempts when all of them have released it, and in neither case a resource of the old session.
\<close>

theorem validation_handoff:
  assumes "wf_gomap (EquivalenceGroups st)" and "\<forall>(g, gs) \<in> set (EquivalenceGroups st). 0 \<le> AttemptCount gs"
  shows "attempts g (resumeValidationAttempts later (kept_attempts session st)) =
      (if set session \<inter> set later \<noteq> {} then attempts g st else 0) \<and>
    MaintenanceCR (group_state (resumeValidationAttempts later (kept_attempts session st)) g) = [] \<and>
    ValidationAttempts (resumeValidationAttempts later (kept_attempts session st)) = []"
proof -
  let ?k = "kept_attempts session st"
  have groups: "group_state ?k h = no_group" for h by (simp add: kept_attempts_def group_state_def)
  have nonneg: "0 \<le> attempts g st"
    using assms(2) by (auto simp: group_state_def no_group_def split: option.splits dest!: map_of_SomeD simp del: map_of_eq_Some_iff)
  have held: "list_ex (\<lambda>name. name \<in> set later) (ValidationRequests ?k) \<longleftrightarrow> set session \<inter> set later \<noteq> {}"
    by (auto simp: kept_attempts_def list_ex_iff)
  have none: "ValidationAttempts ?k = [] \<Longrightarrow> attempts g st = 0"
    using kept_lookup [OF assms(1), of session g] nonneg by (auto split: if_splits)
  have "attempts g (fold resume_group (ValidationAttempts ?k) ?k) = attempts g st"
    using resume_distinct [OF kept_wf [OF assms(1)], where g = g and st = ?k] kept_lookup [OF assms(1), of session g] nonneg groups by simp
  then have "attempts g (resumeValidationAttempts later ?k) = (if set session \<inter> set later \<noteq> {} then attempts g st else 0)"
    using none groups by (auto simp: resumeValidationAttempts_def Let_def resume_fold [unfolded Let_def] held)
  then show ?thesis using resume_fields [of later ?k] groups by simp
qed

definition spent :: RemediationStateAnnotation where
  "spent = \<lparr>EquivalenceGroups = [(''restart'', \<lparr>MaintenanceCR = ''m1'', gs_CreatedAt = 5, gs_ActionName = ''RESTART_VM'', AttemptCount = 3\<rparr>)],
     ValidationAttempts = [], ValidationRequests = []\<rparr>"

theorem validation_handoff_witness:
  "attempts ''restart'' (resumeValidationAttempts [''v2'', ''v1''] (kept_attempts [''v1''] spent)) = 3 \<and>
   attempts ''restart'' (resumeValidationAttempts [''v2''] (kept_attempts [''v1''] spent)) = 0"
  using validation_handoff [where st = spent and g = "''restart''" and later = "[''v2'', ''v1'']" and session = "[''v1'']"] validation_handoff [where st = spent and g = "''restart''" and later = "[''v2'']" and session = "[''v1'']"]
  by (simp add: spent_def group_state_def)

end
