(* ===== verification/Remediation_Calls.thy ===== *)
theory Remediation_Calls
  imports Remediation_Reconciler
begin

text \<open>
  What the reconciler of fault-remediation does to the outside: the calls that create a maintenance
  resource, write the status of an event and advance the change stream, in their order and with their outcomes,
  for every handler.
\<close>

section \<open>The log of calls\<close>

datatype 'b call =
    is_Created: Created "'b cr_object" "error option"
  | is_Written: Written string status_update "error option"
  | is_Marked: Marked string "error option"

text \<open>
  The state outside carries a log of these three calls; all other calls leave it alone, and the functions of the
  library that call back leave it alone if the callback does.
\<close>

definition keeps :: "('w \<Rightarrow> 'l) \<Rightarrow> ('s \<Rightarrow> 'w) \<Rightarrow> ('s \<Rightarrow> 's \<times> 'e) \<Rightarrow> bool" where
  "keeps log world fn \<longleftrightarrow> (\<forall>s. log (world (fst (fn s))) = log (world s))"

definition silent_client :: "('w, 't, 'b) FaultRemediationClient \<Rightarrow> ('w \<Rightarrow> 'l) \<Rightarrow> bool" where
  "silent_client c log \<longleftrightarrow>
     (\<forall>w n. log (fst (am_Get (rc_annotationManager c) w n)) = log w) \<and>
     (\<forall>w n. log (fst (am_Update (rc_annotationManager c) w n)) = log w) \<and>
     (\<forall>fn. keeps log fst fn \<longrightarrow> keeps log fst (am_RetryOnConflict (rc_annotationManager c) fn)) \<and>
     (\<forall>w k ns n. log (fst (cs_Get (rc_statusChecker c) w k ns n)) = log w) \<and>
     (\<forall>w n. log (fst (rc_GetNode c w n)) = log w) \<and>
     (\<forall>w ls ns. log (fst (rc_ListJobs c w ls ns)) = log w) \<and>
     (\<forall>w j. log (fst (rc_CreateJob c w j)) = log w) \<and>
     (\<forall>w j. log (fst (rc_UpdateJob c w j)) = log w)"

definition silent_store :: "('w, 't, 'b, 'doc, 'id) FaultRemediationReconciler \<Rightarrow> ('w \<Rightarrow> 'b call list) \<Rightarrow> bool" where
  "silent_store r log \<longleftrightarrow>
     (\<forall>w n. log (fst (NodeClient.GetNode (fr_labels r) w n)) = log w) \<and>
     (\<forall>w n. log (fst (UpdateNode (fr_labels r) w n)) = log w) \<and>
     (\<forall>R fn. keeps log fst fn \<longrightarrow> keeps log fst (fr_onError r R fn)) \<and>
     (\<forall>w n. log (fst (NodeReader r w n)) = log w) \<and>
     (\<forall>w q. log (fst (fr_Find r w q)) = log w) \<and>
     (\<forall>w d s. log (fst (fr_UpdateSpanID r w d s)) = log w) \<and>
     (\<forall>w q n f Q. (\<forall>b w. \<exists>evs. log (fst (f b w)) = log w @ evs \<and> list_all Q evs) \<longrightarrow>
        (\<exists>evs. log (fst (fr_FindBatched r w q n f)) = log w @ evs \<and> list_all Q evs))"

definition logs :: "('w, 't, 'b, 'doc, 'id) FaultRemediationReconciler \<Rightarrow> ('w \<Rightarrow> 'b call list) \<Rightarrow> bool" where
  "logs r log \<longleftrightarrow> silent_client (RemediationClient r) log \<and> silent_store r log \<and>
     (\<forall>w obj. log (fst (rc_Create (RemediationClient r) w obj)) = log w @ [Created obj (snd (rc_Create (RemediationClient r) w obj))]) \<and>
     (\<forall>w d u. log (fst (fr_UpdateStatus r w d u)) = log w @ [Written d u (snd (fr_UpdateStatus r w d u))]) \<and>
     (\<forall>w t. log (fst (fr_MarkProcessed r w t)) = log w @ [Marked t (snd (fr_MarkProcessed r w t))])"

section \<open>Silent operations\<close>

text \<open>The form in which the calls appear in the definitions.\<close>

lemma keepsD: "keeps log world fn \<Longrightarrow> fn s = (s', e) \<Longrightarrow> log (world s') = log (world s)"
  unfolding keeps_def by (metis fst_conv)

lemma keepsI: "(\<And>s s' e. fn s = (s', e) \<Longrightarrow> log (world s') = log (world s)) \<Longrightarrow> keeps log world fn"
  unfolding keeps_def by (metis prod.collapse)

lemma client_calls:
  assumes "silent_client c log"
  shows "am_Get (rc_annotationManager c) w n = (w', x1) \<Longrightarrow> log w' = log w"
    and "am_Update (rc_annotationManager c) w nd = (w', x2) \<Longrightarrow> log w' = log w"
    and "cs_Get (rc_statusChecker c) w k ns n = (w', x3) \<Longrightarrow> log w' = log w"
    and "rc_GetNode c w n = (w', x4) \<Longrightarrow> log w' = log w"
    and "rc_ListJobs c w ls ns = (w', x5) \<Longrightarrow> log w' = log w"
    and "rc_CreateJob c w j = (w', x2) \<Longrightarrow> log w' = log w"
    and "rc_UpdateJob c w j = (w', x2) \<Longrightarrow> log w' = log w"
  using assms unfolding silent_client_def by (metis fst_conv)+

lemma client_retry:
  assumes "silent_client c log" and "keeps log fst fn" and "am_RetryOnConflict (rc_annotationManager c) fn s = (s', e)"
  shows "log (fst s') = log (fst s)"
  using assms unfolding silent_client_def by (blast intro: keepsD)

lemma state_read:
  assumes c: "silent_client c log"
  shows "GetRemediationState (rc_annotationManager c) n w = (w', x) \<Longrightarrow> log w' = log w"
  by (auto simp: GetRemediationState_def split: prod.splits sum.splits dest!: client_calls [OF c])

lemma state_written:
  assumes c: "silent_client c log"
  shows "write_state (rc_annotationManager c) st n w = (w', x) \<Longrightarrow> log w' = log w"
  by (auto simp: write_state_def split: sum.splits dest!: client_calls [OF c])

lemma beside_iff: "beside c p = ((w, c'), e) \<longleftrightarrow> p = (w, e) \<and> c' = c"
  by (auto simp: beside_def)

lemma annotation_attempts:
  assumes c: "silent_client c log"
  shows "keeps log fst (update_state_attempt (rc_annotationManager c) n g cr a)"
    and "keeps log fst (record_attempt_once (rc_annotationManager c) n g)"
    and "keeps log fst (clear_attempt (rc_annotationManager c) n)"
    and "keeps log fst (keep_attempt (rc_annotationManager c) n)"
    and "keeps log fst (prepare_attempt (rc_annotationManager c) n)"
    and "keeps log fst (remove_groups_attempt (rc_annotationManager c) n gs)"
  by (rule keepsI; auto simp: update_state_attempt_def record_attempt_once_def clear_attempt_def keep_attempt_def prepare_attempt_def
      remove_groups_attempt_def removeStateAnnotation_def beside_iff Let_def split: prod.splits sum.splits if_splits
      dest!: state_read [OF c] state_written [OF c] client_calls [OF c])+

lemma annotation_silent:
  assumes c: "silent_client c log"
  shows "UpdateRemediationState (rc_annotationManager c) n g cr a w = (w', x1) \<Longrightarrow> log w' = log w"
    and "RecordRemediationAttempt (rc_annotationManager c) n g w = (w', x2) \<Longrightarrow> log w' = log w"
    and "ClearRemediationState (rc_annotationManager c) n w = (w', x1) \<Longrightarrow> log w' = log w"
    and "KeepAttemptsForValidation (rc_annotationManager c) n w = (w', x1) \<Longrightarrow> log w' = log w"
    and "PrepareRemediationAttempt (rc_annotationManager c) n w = (w', x3) \<Longrightarrow> log w' = log w"
    and "RemoveGroupsFromState (rc_annotationManager c) n gs w = (w', x1) \<Longrightarrow> log w' = log w"
  by (auto simp: UpdateRemediationState_def RecordRemediationAttempt_def ClearRemediationState_def KeepAttemptsForValidation_def
      PrepareRemediationAttempt_def RemoveGroupsFromState_def split: prod.splits option.splits
      dest!: client_retry [OF c annotation_attempts(1) [OF c]] client_retry [OF c annotation_attempts(2) [OF c]]
        client_retry [OF c annotation_attempts(3) [OF c]] client_retry [OF c annotation_attempts(4) [OF c]]
        client_retry [OF c annotation_attempts(5) [OF c]] client_retry [OF c annotation_attempts(6) [OF c]])

lemma crstate_silent:
  assumes c: "silent_client c log"
  shows "GetCRState (rc_statusChecker c) a n w = (w', x) \<Longrightarrow> log w' = log w"
  by (auto simp: GetCRState_def split: option.splits prod.splits sum.splits if_splits dest!: client_calls [OF c])

lemma finished_silent:
  assumes "\<forall>f \<in> set fs. \<forall>w w' x. f w = (w', x) \<longrightarrow> log w' = log w" and "first_finished fs w = (w', res)"
  shows "log w' = log w"
  using assms
proof (induction fs arbitrary: w)
  case (Cons f fs)
  obtain w1 x where f: "f w = (w1, x)" by (cases "f w")
  then have "log w1 = log w" using Cons.prems(1) by auto
  moreover have "log w' = log w1"
  proof (cases x)
    case (Checked b)
    with f Cons show ?thesis by (cases b) auto
  qed (use f Cons.prems(2) in auto)
  ultimately show ?case by simp
qed simp

lemma collector_silent:
  assumes c: "silent_client c log" and "RunLogCollectorJob c n e w = (w', res)"
  shows "log w' = log w"
proof -
  have launch: "launchLogCollectorJob c n e w = (w1, x) \<Longrightarrow> log w1 = log w" for w1 x
    by (auto simp: launchLogCollectorJob_def Let_def split: sum.splits prod.splits if_splits option.splits dest!: client_calls [OF c])
  have checks: "checkLogCollectorStatus c jb w1 = (w2, res') \<Longrightarrow> log w2 = log w1" for jb w1 w2 res'
    unfolding checkLogCollectorStatus_def
    by (erule finished_silent [rotated]) (auto simp: checkLogCollectorComplete_def checkLogCollectorFailed_def checkLogCollectorTimedOut_def
        recordLogCollectorFailureMetrics_def split: if_splits prod.splits option.splits dest!: client_calls [OF c])
  show ?thesis using assms(2) launch checks
    by (auto simp: RunLogCollectorJob_def split: if_splits prod.splits sum.splits option.splits)
qed

lemma logsD:
  assumes "logs r log"
  shows "silent_client (RemediationClient r) log" and "silent_store r log"
    and "rc_Create (RemediationClient r) w obj = (w', e) \<Longrightarrow> log w' = log w @ [Created obj e]"
    and "fr_UpdateStatus r w d u = (w', e) \<Longrightarrow> log w' = log w @ [Written d u e]"
    and "fr_MarkProcessed r w t = (w', e) \<Longrightarrow> log w' = log w @ [Marked t e]"
  using assms unfolding logs_def by (metis fst_conv snd_conv)+

lemma store_calls:
  assumes "silent_store r log"
  shows "NodeClient.GetNode (fr_labels r) w n = (w', x1) \<Longrightarrow> log w' = log w"
    and "UpdateNode (fr_labels r) w nd = (w', x2) \<Longrightarrow> log w' = log w"
    and "NodeReader r w n = (w', x3) \<Longrightarrow> log w' = log w"
    and "fr_Find r w q = (w', x4) \<Longrightarrow> log w' = log w"
    and "fr_UpdateSpanID r w d sp = (w', x2) \<Longrightarrow> log w' = log w"
  using assms unfolding silent_store_def by (metis fst_conv)+

lemma label_attempts:
  assumes s: "silent_store r log"
  shows "keeps log fst (update_attempt (fr_labels r) n v rm)" and "keeps log fst (remove_attempt (fr_labels r) n vs)"
  by (rule keepsI; auto simp: update_attempt_def remove_attempt_def Let_def split: prod.splits sum.splits option.splits if_splits
      dest!: store_calls [OF s])+

lemma label_retry:
  assumes "silent_store r log" and "keeps log fst fn" and "fr_onError r R fn s = (s', c)"
  shows "log (fst s') = log (fst s)"
  using assms unfolding silent_store_def by (blast intro: keepsD)

lemma label_silent:
  assumes s: "silent_store r log"
  shows "fr_update_label r n v w = (w', x) \<Longrightarrow> log w' = log w"
    and "clearFaultRemediationNodeLabel r n w = (w', y) \<Longrightarrow> log w' = log w"
  by (auto simp: fr_update_label_def clearFaultRemediationNodeLabel_def UpdateNVSentinelStateNodeLabel_def
      RemoveNVSentinelStateNodeLabelIfMatch_def Let_def split: prod.splits completion.splits
      dest!: label_retry [OF s label_attempts(1) [OF s]] label_retry [OF s label_attempts(2) [OF s]])

lemma read_silent:
  assumes s: "silent_store r log"
  shows "nodeHasActiveQuarantine r he w = (w', x1) \<Longrightarrow> log w' = log w"
    and "findHealthEventStatusByID r n i w = (w', x2) \<Longrightarrow> log w' = log w"
proof -
  show quarantine: "nodeHasActiveQuarantine r he w = (w', x1) \<Longrightarrow> log w' = log w" for w w' x1
    by (auto simp: nodeHasActiveQuarantine_def readLiveNode_def split: prod.splits sum.splits if_splits dest!: store_calls [OF s])
  show "findHealthEventStatusByID r n i w = (w', x2) \<Longrightarrow> log w' = log w"
    by (auto simp: findHealthEventStatusByID_def split: prod.splits sum.splits if_splits list.splits dest!: store_calls [OF s])
qed

lemma resolved_silent:
  assumes s: "silent_store r log"
  shows "eventResolvedInStore r he i w = (w', x) \<Longrightarrow> log w' = log w"
  by (auto simp: eventResolvedInStore_def split: prod.splits sum.splits if_splits option.splits dest!: read_silent [OF s])

lemma evaluate_silent:
  assumes c: "silent_client c log"
  shows "evaluateExistingCRs (rc_statusChecker c) gss t rem w = (w', x) \<Longrightarrow> log w' = log w"
proof (induction gss arbitrary: rem w)
  case (Cons p gss)
  obtain name gs where p: "p = (name, gs)" by (cases p)
  have one: "evaluateExistingCR (rc_statusChecker c) gs t w = (w1, y) \<Longrightarrow> log w1 = log w" for w w1 y
    by (auto simp: evaluateExistingCR_def split: prod.splits sum.splits CRState.splits dest!: crstate_silent [OF c])
  from Cons.prems show ?case unfolding p
    by (auto split: if_splits prod.splits sum.splits dest!: one Cons.IH)
qed simp

lemma existing_silent:
  assumes c: "silent_client (RemediationClient r) log"
  shows "checkExistingCRStatus r he t gc w = (w', x) \<Longrightarrow> log w' = log w"
  by (auto simp: checkExistingCRStatus_def Let_def split: option.splits prod.splits sum.splits if_splits
      dest!: state_read [OF c] evaluate_silent [OF c] annotation_silent [OF c])

lemma covering_silent:
  assumes c: "silent_client c log"
  shows "covering_resource (rc_statusChecker c) gss e w = (w', x) \<Longrightarrow> log w' = log w"
proof (induction gss arbitrary: e w)
  case (Cons p gss)
  obtain name gs where p: "p = (name, gs)" by (cases p)
  from Cons.prems show ?case unfolding p
    by (auto split: if_splits prod.splits sum.splits dest!: crstate_silent [OF c] Cons.IH)
qed simp

lemma recompute_silent:
  assumes c: "silent_client (RemediationClient r) log" and s: "silent_store r log"
  shows "recompute_label r n evs st saw w = (w', x) \<Longrightarrow> log w' = log w"
proof (induction evs arbitrary: saw w)
  case (Cons ev evs)
  have one: "activeEventForcesRemediationFailed r n ev st saw w = (w1, y) \<Longrightarrow> log w1 = log w" for saw w w1 y
    by (auto simp: activeEventForcesRemediationFailed_def coveredByActiveRemediationCR_def split: prod.splits sum.splits option.splits bool.splits
        dest!: read_silent [OF s] covering_silent [OF c])
  from Cons.prems show ?case by (auto split: if_splits prod.splits sum.splits dest!: one Cons.IH)
qed simp

lemma relabel_silent:
  assumes c: "silent_client (RemediationClient r) log" and s: "silent_store r log"
  shows "reconcilePartialRecoveryLabel r n nd st w = (w', x) \<Longrightarrow> log w' = log w"
  by (auto simp: reconcilePartialRecoveryLabel_def recomputePartialRecoveryNodeLabel_def split: prod.splits sum.splits option.splits completion.splits if_splits
      dest!: recompute_silent [OF c s] label_silent [OF s])

lemma collect_silent:
  assumes c: "silent_client (RemediationClient r) log"
  shows "runLogCollector r he i w = (w', x) \<Longrightarrow> log w' = log w"
  by (auto simp: runLogCollector_def split: if_splits prod.splits reconcile_result.splits dest!: collector_silent [OF c])

lemma skip_silent:
  assumes s: "silent_store r log"
  shows "shouldSkipEvent r d gc w = (w', x) \<Longrightarrow> log w' = log w"
  by (auto simp: shouldSkipEvent_def split: if_splits prod.splits sum.splits bool.splits completion.splits option.splits
      dest!: read_silent [OF s] label_silent [OF s])

end
