(* ===== verification/Remediation_Safety.thy ===== *)
theory Remediation_Safety
  imports Remediation_Calls
begin

text \<open>
  What a pass over a request of fault-remediation does to the outside: when it moves the position in the change stream
  past an event, and when it creates a maintenance resource.
\<close>

section \<open>Effects of the operations\<close>

text \<open>
  A pass ends in a run of marks for its own token, and it marks the event, or finishes without asking for another
  pass, only after calls that make it acceptable to do so.
\<close>

definition checkpointed :: "('b call list \<Rightarrow> bool) \<Rightarrow> string \<Rightarrow> 'b call list \<Rightarrow> reconcile_result \<Rightarrow> bool" where
  "checkpointed ok token evs res \<longleftrightarrow>
     (\<exists>pre marks. evs = pre @ marks \<and> list_all (\<lambda>c. \<not> is_Marked c) pre \<and> list_all (\<lambda>c. \<exists>e. c = Marked token e) marks \<and>
        (marks \<noteq> [] \<or> res = zero_result \<longrightarrow> ok pre) \<and> (res = zero_result \<longrightarrow> token = [] \<or> marks \<noteq> []))"

abbreviation uncreated :: "'b call list \<Rightarrow> bool" where
  "uncreated evs \<equiv> list_all (\<lambda>c. \<not> is_Created c) evs"

text \<open>The event is settled: a status was stored for it, or it needs none.\<close>

definition settled_by :: "string \<Rightarrow> bool \<Rightarrow> 'b call list \<Rightarrow> bool" where
  "settled_by documentID settled pre \<longleftrightarrow> settled \<or> (\<exists>u. Written documentID u None \<in> set pre)"

definition concludes :: "string \<Rightarrow> bool \<Rightarrow> string \<Rightarrow> 'b call list \<Rightarrow> 'b call list \<Rightarrow> reconcile_result \<Rightarrow> bool" where
  "concludes documentID settled token before after res \<longleftrightarrow>
     (\<exists>evs. after = before @ evs \<and> checkpointed (settled_by documentID settled) token evs res \<and> uncreated evs)"

lemma checkpointed_prefix:
  "list_all (\<lambda>c. \<not> is_Marked c) pre \<Longrightarrow> checkpointed (\<lambda>p. ok (pre @ p)) token evs res \<Longrightarrow> checkpointed ok token (pre @ evs) res"
proof -
  assume pre: "list_all (\<lambda>c. \<not> is_Marked c) pre" and "checkpointed (\<lambda>p. ok (pre @ p)) token evs res"
  from this(2) obtain pre' marks where "evs = pre' @ marks" "list_all (\<lambda>c. \<not> is_Marked c) pre'" "list_all (\<lambda>c. \<exists>e. c = Marked token e) marks"
    "marks \<noteq> [] \<or> res = zero_result \<longrightarrow> ok (pre @ pre')" "res = zero_result \<longrightarrow> token = [] \<or> marks \<noteq> []"
    unfolding checkpointed_def by blast
  with pre show ?thesis unfolding checkpointed_def by (intro exI [of _ "pre @ pre'"] exI [of _ marks]) simp
qed

lemma checkpointed_open: "list_all (\<lambda>c. \<not> is_Marked c) evs \<Longrightarrow> res \<noteq> zero_result \<Longrightarrow> checkpointed ok token evs res"
  unfolding checkpointed_def by (intro exI [of _ evs] exI [of _ "[]"]) simp

lemma concludes_failed [simp]:
  "concludes i S token l l (ResultError e)" "concludes i S token l l ResultPanic" "delay \<noteq> 0 \<Longrightarrow> concludes i S token l l (ResultAfter delay)"
  unfolding concludes_def by (rule exI [of _ "[]"]; simp add: checkpointed_open zero_result_def)+

lemma checkpointed_again:
  assumes "checkpointed ok token evs zero_result" and "evs' = (if token = [] then [] else [Marked token e])"
    and "res = zero_result \<longrightarrow> token = [] \<or> e = None"
  shows "checkpointed ok token (evs @ evs') res"
proof -
  from assms(1) obtain pre marks where "evs = pre @ marks" "list_all (\<lambda>c. \<not> is_Marked c) pre" "list_all (\<lambda>c. \<exists>e. c = Marked token e) marks"
    "ok pre" unfolding checkpointed_def by blast
  with assms(2,3) show ?thesis unfolding checkpointed_def by (intro exI [of _ pre] exI [of _ "marks @ evs'"]) auto
qed

lemma checkpointed_mono: "checkpointed ok token evs res \<Longrightarrow> (\<And>pre. ok pre \<Longrightarrow> ok' pre) \<Longrightarrow> checkpointed ok' token evs res"
  unfolding checkpointed_def by (elim exE conjE) (rule exI, rule exI, intro conjI, assumption, auto)

lemma mark_effect:
  assumes "logs r log" and "markProcessedOrError r token w = (w', res)"
  shows "\<exists>e. log w' = log w @ (if token = [] then [] else [Marked token e]) \<and> (res = zero_result \<longrightarrow> token = [] \<or> e = None)"
  using assms(2) by (auto simp: markProcessedOrError_def safeMarkProcessed_def zero_result_def split: if_splits prod.splits option.splits
      dest!: logsD(5) [OF assms(1)])

lemma mark_checkpoint:
  assumes "logs r log" and "markProcessedOrError r token w = (w', res)" and "ok []"
  shows "\<exists>evs. log w' = log w @ evs \<and> checkpointed ok token evs res \<and> uncreated evs"
proof -
  obtain e where e: "log w' = log w @ (if token = [] then [] else [Marked token e])" "res = zero_result \<longrightarrow> token = [] \<or> e = None"
    using mark_effect [OF assms(1,2)] by blast
  let ?m = "if token = [] then [] else [Marked token e]"
  have "checkpointed ok token ?m res" unfolding checkpointed_def using assms(3) e(2) by (intro exI [of _ "[]"] exI [of _ ?m]) auto
  moreover have "uncreated ?m" by simp
  ultimately show ?thesis using e(1) by blast
qed

text \<open>Storing the status of an event.\<close>

lemma write_effect:
  assumes l: "logs r log" and "updateNodeRemediatedStatus r doc rem w = (w', e)" and id: "ExtractDocumentID (fr_codec r) doc = Inr i"
  shows "\<exists>u x. log w' = log w @ [Written i u x] \<and> (e = None \<longrightarrow> x = None)"
  using assms(2) id
  by (auto simp: updateNodeRemediatedStatus_def split: prod.splits option.splits if_splits dest!: logsD(4) [OF l])
     (metis prod.collapse store_calls(5) [OF logsD(2) [OF l]])

lemma write_mark_checkpoint:
  assumes l: "logs r log" and id: "ExtractDocumentID (fr_codec r) doc = Inr i"
    and run: "(case updateNodeRemediatedStatus r doc rem w of
        (w1, Some e) \<Rightarrow> (w1, ResultError (f e)) | (w1, None) \<Rightarrow> markProcessedOrError r token w1) = (w', res)"
  shows "concludes i S token (log w) (log w') res"
proof -
  obtain w1 e where upd: "updateNodeRemediatedStatus r doc rem w = (w1, e)" by (cases "updateNodeRemediatedStatus r doc rem w")
  obtain u x where x: "log w1 = log w @ [Written i u x]" "e = None \<longrightarrow> x = None" using write_effect [OF l upd id] by blast
  show ?thesis
  proof (cases e)
    case None
    then have m: "markProcessedOrError r token w1 = (w', res)" using run upd by simp
    have "settled_by i S ([Written i u x] @ [])" using x(2) None by (simp add: settled_by_def)
    then obtain evs where "log w' = log w1 @ evs" "checkpointed (\<lambda>p. settled_by i S ([Written i u x] @ p)) token evs res" "uncreated evs"
      using mark_checkpoint [OF l m, of "\<lambda>p. settled_by i S ([Written i u x] @ p)"] by blast
    then show ?thesis unfolding concludes_def using x(1)
      by (intro exI [of _ "[Written i u x] @ evs"]) (auto intro: checkpointed_prefix [of "[Written i u x]", simplified])
  next
    case (Some err)
    then have "w' = w1" "res = ResultError (f err)" using run upd by simp_all
    then show ?thesis unfolding concludes_def using x(1)
      by (intro exI [of _ "[Written i u x]"]) (auto intro: checkpointed_open simp: zero_result_def)
  qed
qed

lemma terminal_checkpoint:
  assumes "logs r log" and "ExtractDocumentID (fr_codec r) (et_Event ev) = Inr i" and "markEventTerminalAndProcessed r ev rem w = (w', res)"
  shows "concludes i S (et_ResumeToken ev) (log w) (log w') res"
  using assms(3) unfolding markEventTerminalAndProcessed_def by (rule write_mark_checkpoint [OF assms(1,2), where f = "\<lambda>e. e"])

lemma marker_checkpoint:
  assumes "logs r log" and "ExtractDocumentID (fr_codec r) (et_Event ev) = Inr i" and "finish_with_marker r what ev w = (w', res)"
  shows "concludes i S (et_ResumeToken ev) (log w) (log w') res"
  using assms(3) unfolding finish_with_marker_def by (rule write_mark_checkpoint [OF assms(1,2)])

section \<open>Cancellations and partial recoveries\<close>

lemma batch_writes:
  assumes l: "logs r log" and "closeStaleEquivalentEventBatch r nodeName groups closed now batch w = (w', e)"
  shows "\<exists>evs. log w' = log w @ evs \<and> list_all is_Written evs"
  using assms(2)
proof (induction batch arbitrary: w)
  case (Cons event rest)
  have silent: "\<exists>evs. log w' = log w @ evs \<and> list_all is_Written evs"
    if "closeStaleEquivalentEventBatch r nodeName groups closed now rest w = (w', e)" using Cons.IH [OF that] .
  have stored: "\<exists>evs. log w' = log w @ evs \<and> list_all is_Written evs"
    if "fr_UpdateStatus r w i u = (w1, None)" "closeStaleEquivalentEventBatch r nodeName groups closed now rest w1 = (w', e)" for i u w1
  proof -
    from Cons.IH [OF that(2)] obtain evs where "log w' = log w1 @ evs" "list_all is_Written evs" by blast
    then show ?thesis using logsD(4) [OF l that(1)] by (intro exI [of _ "Written i u None # evs"]) simp
  qed
  have failed: "\<exists>evs. log w' = log w @ evs \<and> list_all is_Written evs"
    if "fr_UpdateStatus r w i u = (w', Some x)" for i u x
    using logsD(4) [OF l that] by (intro exI [of _ "[Written i u (Some x)]"]) simp
  from Cons.prems show ?case
    by (auto simp: Let_def split: sum.splits option.splits prod.splits if_splits intro: silent stored failed)
qed (simp add: exI [of _ "[]"])

lemma stale_writes:
  assumes l: "logs r log" and "closeStaleEquivalentEvents r nodeName status st w = (w', e)"
  shows "\<exists>evs. log w' = log w @ evs \<and> list_all is_Written evs"
proof (cases "EquivalenceGroups st = []")
  case False
  let ?f = "closeStaleEquivalentEventBatch r nodeName (covered_groups st) (status = UnQuarantined) (fr_now r w)"
  have "\<forall>b w. \<exists>evs. log (fst (?f b w)) = log w @ evs \<and> list_all is_Written evs" using batch_writes [OF l] by (metis prod.collapse)
  then have "\<exists>evs. log (fst (fr_FindBatched r w (unresolvedRemediationReadyEventsQuery nodeName) coldStartBatchSize ?f)) = log w @ evs \<and> list_all is_Written evs"
    using logsD(2) [OF l] unfolding silent_store_def by blast
  with False assms(2) show ?thesis by (simp add: closeStaleEquivalentEvents_def)
qed (use assms(2) in \<open>simp add: closeStaleEquivalentEvents_def\<close>)

lemma written_harmless: "list_all is_Written evs \<Longrightarrow> list_all (\<lambda>c. \<not> is_Marked c) evs \<and> uncreated evs"
  by (induction evs) (auto simp: is_Written_def)

text \<open>Harmless calls come before the rest of a pass.\<close>

lemma concludes_after:
  assumes "list_all is_Written pre" and "concludes i S token (l @ pre) l' res"
  shows "concludes i S token l l' res"
proof -
  from assms(2) obtain evs where evs: "l' = (l @ pre) @ evs" "checkpointed (settled_by i S) token evs res" "uncreated evs"
    unfolding concludes_def by blast
  have "checkpointed (\<lambda>p. settled_by i S (pre @ p)) token evs res"
    by (rule checkpointed_mono [OF evs(2)]) (auto simp: settled_by_def)
  from checkpointed_prefix [OF _ this] evs written_harmless [OF assms(1)] show ?thesis unfolding concludes_def by (intro exI [of _ "pre @ evs"]) simp
qed

lemma partial_checkpoint:
  assumes l: "logs r log" and id: "ExtractDocumentID (fr_codec r) (et_Event ev) = Inr i"
    and run: "handlePartialRecoveryEvent r nodeName ev w = (w', res)"
  shows "concludes i S (et_ResumeToken ev) (log w) (log w') res"
proof -
  note c = logsD(1) [OF l] and s = logsD(2) [OF l]
  obtain w1 x where get: "GetRemediationState (annotationManager r) nodeName w = (w1, x)" by (cases "GetRemediationState (annotationManager r) nodeName w")
  note same = state_read [OF c get]
  show ?thesis
  proof (cases x)
    case (Inl e)
    with run get terminal_checkpoint [OF l id, of True w1 w' res S] same show ?thesis
      by (auto simp: handlePartialRecoveryEvent_def split: if_splits)
  next
    case (Inr p)
    obtain st n where p: "p = (st, n)" by (cases p)
    obtain w2 y where lab: "(if isTerminalRemediationLabel (currentNodeStateLabel n) then reconcilePartialRecoveryLabel r nodeName n st w1
        else (w1, Returned None)) = (w2, y)" by fastforce
    have same2: "log w2 = log w" using lab same by (auto split: if_splits dest!: relabel_silent [OF c s])
    have "(case y of Panicked \<Rightarrow> (w2, ResultPanic) | Returned (Some e) \<Rightarrow> (w2, ResultError e)
        | Returned None \<Rightarrow> finish_with_marker r ''partial recovery event'' ev w2) = (w', res)"
      using run get Inr p lab by (simp add: handlePartialRecoveryEvent_def split: completion.splits option.splits)
    then show ?thesis
      using marker_checkpoint [OF l id, of _ w2 w' res S] same2
      by (auto split: completion.splits option.splits)
  qed
qed

lemma cancellation_checkpoint:
  assumes l: "logs r log" and id: "ExtractDocumentID (fr_codec r) (et_Event ev) = Inr i"
    and run: "handleCancellationEvent r nodeName status ev w = (w', res)"
  shows "concludes i S (et_ResumeToken ev) (log w) (log w') res"
proof -
  note c = logsD(1) [OF l] and s = logsD(2) [OF l]
  obtain w1 x where get: "GetRemediationState (annotationManager r) nodeName w = (w1, x)" by (cases "GetRemediationState (annotationManager r) nodeName w")
  note same = state_read [OF c get]
  show ?thesis
  proof (cases x)
    case (Inl e)
    with run get terminal_checkpoint [OF l id, of True w1 w' res S] same show ?thesis
      by (auto simp: handleCancellationEvent_def split: if_splits)
  next
    case (Inr p)
    obtain st n where p: "p = (st, n)" by (cases p)
    obtain w2 e where stale: "closeStaleEquivalentEvents r nodeName status st w1 = (w2, e)" by (cases "closeStaleEquivalentEvents r nodeName status st w1")
    obtain pre where pre: "log w2 = log w @ pre" "list_all is_Written pre" using stale_writes [OF l stale] unfolding same by blast
    have "concludes i S (et_ResumeToken ev) (log w2) (log w') res"
    proof (cases e)
      case None
      with run get Inr p stale show ?thesis
        by (auto simp: handleCancellationEvent_def split: if_splits prod.splits option.splits completion.splits
            dest!: annotation_silent [OF c] label_silent [OF s] dest: marker_checkpoint [OF l id, where S = S])
    next
      case (Some err)
      with run get Inr p stale show ?thesis by (auto simp: handleCancellationEvent_def)
    qed
    with pre show ?thesis by (auto intro: concludes_after)
  qed
qed

section \<open>Events covered by a resource\<close>

lemma covered_decision:
  assumes "evaluateExistingCRs k gss t rem w = (w', Inr (decision, gs))" and "\<not> shouldCreate decision"
  shows "inProgress decision \<or> remediated decision"
  using assms
proof (induction gss arbitrary: rem w)
  case (Cons p gss)
  obtain name g where p: "p = (name, g)" by (cases p)
  from Cons show ?case unfolding p
    by (auto simp: evaluateExistingCR_def evaluateSucceededCR_def allowCreate_def no_decision_def
        split: if_splits prod.splits sum.splits CRState.splits)
qed (auto simp: allowCreate_def)

lemma existing_checkpoint:
  assumes l: "logs r log" and id: "ExtractDocumentID (fr_codec r) (et_Event ev) = Inr i"
    and run: "tryHandleExistingCR r d gc ev w = (w', Some res)"
  shows "concludes i S (et_ResumeToken ev) (log w) (log w') res"
proof -
  let ?check = "checkExistingCRStatus r (hd_HealthEvent d) (ev_CreatedAt (hd_Event d)) gc w"
  obtain w1 x where check: "?check = (w1, x)" by (cases ?check)
  note same = existing_silent [OF logsD(1) [OF l] check]
  show ?thesis
  proof (cases x)
    case (Inl e)
    with run check terminal_checkpoint [OF l id, of False w1 w' res S] same show ?thesis
      by (auto simp: tryHandleExistingCR_def split: if_splits prod.splits)
  next
    case (Inr decision)
    have no: "\<not> shouldCreate decision" using run check Inr by (auto simp: tryHandleExistingCR_def split: if_splits)
    have "inProgress decision \<or> remediated decision"
      using check Inr no by (auto simp: checkExistingCRStatus_def Let_def allowCreate_def split: option.splits prod.splits sum.splits if_splits
          dest: covered_decision)
    moreover have "handleEventCoveredByExistingCR r decision ev w1 = (w', res)"
      using run check Inr no by (auto simp: tryHandleExistingCR_def split: prod.splits)
    moreover have "inProgressRequeueDelay r \<noteq> 0" by (simp add: inProgressRequeueDelay_def defaultInProgressRequeueDelay_def)
    ultimately show ?thesis using same write_mark_checkpoint [OF l id, where f = "\<lambda>e. e" and rem = True and w = w1 and S = S]
      by (auto simp: handleEventCoveredByExistingCR_def handleExistingCRSkip_def handleExistingCRInProgress_def
          split: if_splits)
  qed
qed

section \<open>Skipped and capped events\<close>

lemma mark_concludes:
  assumes "logs r log" and "markProcessedOrError r token w = (w', res)" and "S"
  shows "concludes i S token (log w) (log w') res"
  unfolding concludes_def by (rule mark_checkpoint [OF assms(1,2)]) (simp add: settled_by_def assms(3))

lemma skip_concludes:
  assumes l: "logs r log" and id: "ExtractDocumentID (fr_codec r) (et_Event ev) = Inr i"
    and run: "trySkipEvent r d gc ev w = (w', Some res)"
    and S: "RecommendedAction (hd_HealthEvent d) = RA_NONE \<or> already_remediated d \<Longrightarrow> S"
  shows "concludes i S (et_ResumeToken ev) (log w) (log w') res"
proof -
  obtain w1 x where skip: "shouldSkipEvent r d gc w = (w1, x)" by (cases "shouldSkipEvent r d gc w")
  note same = skip_silent [OF logsD(2) [OF l] skip]
  have needless: "RecommendedAction (hd_HealthEvent d) = RA_NONE \<or> already_remediated d"
    if "x = Checked True" "\<not> shouldMarkSkippedEventUnsupported d gc"
    using skip that by (auto simp: shouldSkipEvent_def shouldMarkSkippedEventUnsupported_def split: if_splits)
  have "case x of CheckError e \<Rightarrow> w' = w1 \<and> res = ResultError e | CheckPanic \<Rightarrow> w' = w1 \<and> res = ResultPanic | Checked b \<Rightarrow>
      (if shouldMarkSkippedEventUnsupported d gc then markEventTerminalAndProcessed r ev False w1 = (w', res)
       else markProcessedOrError r (et_ResumeToken ev) w1 = (w', res))"
    using run skip by (auto simp: trySkipEvent_def split: check.splits bool.splits if_splits prod.splits)
  then show ?thesis
    using terminal_checkpoint [OF l id, of False w1 w' res S] mark_concludes [OF l, of "et_ResumeToken ev" w1 w' res S i] needless same S run skip
    by (auto simp: trySkipEvent_def split: check.splits if_splits bool.splits)
qed

lemma resolved_concludes:
  assumes l: "logs r log" and run: "trySkipResolvedEvent r d ev w = (w', Some res)"
    and S: "\<And>w1. eventResolvedInStore r (hd_HealthEvent d) (hd_ID d) w = (w1, Inr True) \<Longrightarrow> S"
  shows "concludes i S (et_ResumeToken ev) (log w) (log w') res"
proof -
  let ?check = "eventResolvedInStore r (hd_HealthEvent d) (hd_ID d) w"
  obtain w1 x where check: "?check = (w1, x)" by (cases ?check)
  note same = resolved_silent [OF logsD(2) [OF l] check]
  from run check show ?thesis
    by (auto simp: trySkipResolvedEvent_def same [symmetric] split: sum.splits bool.splits prod.splits
        dest: mark_concludes [OF l, where S = S and i = i] intro: S)
qed

lemma give_up_concludes:
  assumes l: "logs r log" and id: "ExtractDocumentID (fr_codec r) (et_Event ev) = Inr i"
    and run: "giveUpAtMaxAttempts r nodeName ev w = (w', res)"
  shows "concludes i S (et_ResumeToken ev) (log w) (log w') res"
  using run by (auto simp: giveUpAtMaxAttempts_def split: prod.splits completion.splits option.splits
      dest!: label_silent [OF logsD(2) [OF l]] dest: terminal_checkpoint [OF l id, where S = S])

lemma stop_concludes:
  assumes l: "logs r log" and id: "ExtractDocumentID (fr_codec r) (et_Event ev) = Inr i"
  shows "tryStopAtMaxAttempts r nodeName grp k ev w = (w', Some res) \<Longrightarrow> concludes i S (et_ResumeToken ev) (log w) (log w') res"
    and "tryStopIfAlreadyCapped r nodeName grp k ev w = (w', Some res) \<Longrightarrow> concludes i S (et_ResumeToken ev) (log w) (log w') res"
  by (auto simp: tryStopAtMaxAttempts_def tryStopIfAlreadyCapped_def split: prod.splits sum.splits if_splits
      dest!: annotation_silent [OF logsD(1) [OF l]] dest: terminal_checkpoint [OF l id, where S = S] give_up_concludes [OF l id, where S = S])

lemma stop_passes:
  assumes l: "logs r log"
  shows "tryStopAtMaxAttempts r nodeName grp k ev w = (w', None) \<Longrightarrow>
      log w' = log w \<and> (\<exists>n \<le> k. RecordRemediationAttempt (annotationManager r) nodeName grp w = (w', Inr n))"
    and "tryStopIfAlreadyCapped r nodeName grp k ev w = (w', None) \<Longrightarrow> log w' = log w"
  by (auto simp: tryStopAtMaxAttempts_def tryStopIfAlreadyCapped_def split: prod.splits sum.splits if_splits
      dest: annotation_silent [OF logsD(1) [OF l]])

section \<open>Creating a resource\<close>

text \<open>The server holds the resource: it was created now, or it was there already.\<close>

definition accepted :: "error option \<Rightarrow> bool" where
  "accepted e \<longleftrightarrow> (case e of None \<Rightarrow> True | Some err \<Rightarrow> IsAlreadyExists err)"

lemma accepted_simps [simp]: "accepted None" "accepted (Some err) \<longleftrightarrow> IsAlreadyExists err"
  by (simp_all add: accepted_def)

lemma create_effect:
  assumes l: "logs r log" and "CreateMaintenanceResource (RemediationClient r) he i gc w = (w', x)"
  shows "log w' = log w \<or> (\<exists>obj e. log w' = log w @ [Created obj e] \<and> (\<forall>name. x = Inr name \<longrightarrow> accepted e))"
  using assms(2)
  by (auto simp: CreateMaintenanceResource_def createMaintenanceCR_def getNodeForOwnerReference_def updateRemediationAnnotationIfNeeded_def Let_def
      split: if_splits sum.splits prod.splits option.splits
      dest!: client_calls [OF logsD(1) [OF l]] annotation_silent [OF logsD(1) [OF l]] logsD(3) [OF l])

lemma perform_effect:
  assumes l: "logs r log" and run: "performRemediation r d gc w = (w', x)"
  shows "log w' = log w \<or> (\<exists>obj e. log w' = log w @ [Created obj e] \<and> (\<forall>name. x = Checked name \<longrightarrow> accepted e))"
proof -
  note s = logsD(2) [OF l]
  show ?thesis using run
    by (auto simp: performRemediation_def Let_def split: prod.splits completion.splits option.splits sum.splits
        dest!: label_silent [OF s] dest: create_effect [OF l])
qed

lemma remediate_effect:
  assumes l: "logs r log" and id: "ExtractDocumentID (fr_codec r) (et_Event ev) = Inr i"
    and run: "remediate_and_record r d ev gc w = (w', res)"
  shows "\<exists>pre post. log w' = log w @ pre @ post \<and> (pre = [] \<or> (\<exists>obj e. pre = [Created obj e] \<and> (res = zero_result \<longrightarrow> accepted e))) \<and>
    list_all is_Written post \<and> (res = zero_result \<longrightarrow> (\<exists>u. Written i u None \<in> set post)) \<and> (\<forall>delay. res = ResultAfter delay \<longrightarrow> delay = 0)"
proof -
  obtain w1 x where perf: "performRemediation r d gc w = (w1, x)" by (cases "performRemediation r d gc w")
  have ok: "res = zero_result \<Longrightarrow> \<exists>name. x = Checked name"
    using run perf by (auto simp: remediate_and_record_def zero_result_def split: check.splits prod.splits option.splits)
  obtain pre where pre: "log w1 = log w @ pre" "pre = [] \<or> (\<exists>obj e. pre = [Created obj e] \<and> (res = zero_result \<longrightarrow> accepted e))"
    using perform_effect [OF l perf] ok by auto
  have "\<exists>post. log w' = log w1 @ post \<and> list_all is_Written post \<and> (res = zero_result \<longrightarrow> (\<exists>u. Written i u None \<in> set post)) \<and>
    (\<forall>delay. res = ResultAfter delay \<longrightarrow> delay = 0)"
  proof (cases "x = CheckPanic")
    case True
    with run perf show ?thesis by (intro exI [of _ "[]"]) (auto simp: remediate_and_record_def zero_result_def)
  next
    case False
    then obtain rem w2 e where upd: "updateNodeRemediatedStatus r (et_Event ev) rem w1 = (w2, e)" and "w' = w2"
      "res = zero_result \<longrightarrow> e = None" "\<forall>delay. res = ResultAfter delay \<longrightarrow> delay = 0"
      using run perf by (auto simp: remediate_and_record_def zero_result_def split: check.splits prod.splits option.splits)
    moreover obtain u y where "log w2 = log w1 @ [Written i u y]" "e = None \<longrightarrow> y = None" using write_effect [OF l upd id] by blast
    ultimately show ?thesis by (intro exI [of _ "[Written i u y]"]) auto
  qed
  then obtain post where "log w' = log w1 @ post" "list_all is_Written post" "res = zero_result \<longrightarrow> (\<exists>u. Written i u None \<in> set post)"
    "\<forall>delay. res = ResultAfter delay \<longrightarrow> delay = 0" by (elim exE conjE) (rule that)
  with pre show ?thesis by (intro exI [of _ pre] exI [of _ post] conjI) (simp_all only: append.assoc)
qed

section \<open>Passes\<close>

text \<open>
  The recorded resources were looked at one after another, and none of them is in progress or has succeeded for a session that
  covers the event.
\<close>

fun none_in_charge :: "'w CRStatusChecker \<Rightarrow> int \<Rightarrow> (string \<times> EquivalenceGroupState) list \<Rightarrow> 'w \<Rightarrow> 'w \<Rightarrow> bool" where
  "none_in_charge k t [] w w' \<longleftrightarrow> w' = w"
| "none_in_charge k t ((_, gs) # rest) w w' \<longleftrightarrow>
     (if MaintenanceCR gs = [] then none_in_charge k t rest w w'
      else \<exists>w1 c. GetCRState k (gs_ActionName gs) (MaintenanceCR gs) w = (w1, Inr c) \<and> c \<noteq> CRStateInProgress \<and>
        (c = CRStateSucceeded \<longrightarrow> \<not> eventCoveredByRemediationSession t (gs_CreatedAt gs)) \<and> none_in_charge k t rest w1 w')"

text \<open>What was found out about the event, in this order, before it is remediated.\<close>

definition past_checks ::
  "('w, 't, 'b, 'doc, 'id) FaultRemediationReconciler \<Rightarrow> HealthEventDoc \<Rightarrow> 'w \<Rightarrow> EquivalenceGroupConfig \<Rightarrow> bool" where
  "past_checks r d w gc \<longleftrightarrow>
     \<not> isPartialRecoveryRemediationEvent d \<and> RecommendedAction (hd_HealthEvent d) \<noteq> RA_NONE \<and> \<not> already_remediated d \<and>
     GetGroupConfigForEvent (RemediationActions (fr_config r)) (hd_HealthEvent d) = Inr (Some gc) \<and>
     (\<exists>w1 w2 w3 st n. eventResolvedInStore r (hd_HealthEvent d) (hd_ID d) w = (w1, Inr False) \<and>
        GetRemediationState (annotationManager r) (NodeName (hd_HealthEvent d)) w1 = (w2, Inr (st, n)) \<and>
        none_in_charge (rc_statusChecker (RemediationClient r)) (ev_CreatedAt (hd_Event d))
          (sortedEquivalenceGroupStates (range_groups r (FilterEquivalenceGroupStates gc st))) w2 w3)"

text \<open>A resource is created after these checks, and within the limit of attempts.\<close>

definition remediation_due ::
  "('w, 't, 'b, 'doc, 'id) FaultRemediationReconciler \<Rightarrow> HealthEventDoc \<Rightarrow> 'doc EventWithToken \<Rightarrow> 'w \<Rightarrow> bool" where
  "remediation_due r d ev w \<longleftrightarrow>
     (\<exists>gc w4 w5 w6 res. past_checks r d w gc \<and>
        (if MaxRemediationAttempts (fr_config r) > 0
         then \<exists>k \<le> MaxRemediationAttempts (fr_config r).
           RecordRemediationAttempt (annotationManager r) (NodeName (hd_HealthEvent d)) (EffectiveEquivalenceGroup gc) w4 = (w5, Inr k)
         else w5 = w4) \<and>
        remediate_and_record r d ev gc w5 = (w6, res))"

definition passes ::
  "string \<Rightarrow> bool \<Rightarrow> string \<Rightarrow> bool \<Rightarrow> 'b call list \<Rightarrow> 'b call list \<Rightarrow> reconcile_result \<Rightarrow> bool" where
  "passes documentID settled token due before after res \<longleftrightarrow>
     (\<exists>evs. after = before @ evs \<and> checkpointed (settled_by documentID settled) token evs res \<and>
        (uncreated evs \<or> due \<and> (\<exists>obj e rest. evs = Created obj e # rest \<and> uncreated rest \<and> (list_ex is_Marked rest \<longrightarrow> accepted e))))"

lemma concludes_passes: "concludes i S token l l' res \<Longrightarrow> passes i S token due l l' res"
  unfolding concludes_def passes_def by blast

lemma evaluate_free:
  assumes "evaluateExistingCRs k gss t rem w = (w', Inr (decision, gs))" and "shouldCreate decision"
  shows "none_in_charge k t gss w w'"
  using assms
proof (induction gss arbitrary: rem w)
  case (Cons p gss)
  obtain name g where p: "p = (name, g)" by (cases p)
  from Cons show ?case unfolding p
    by (auto simp: evaluateExistingCR_def evaluateSucceededCR_def allowCreate_def no_decision_def
        split: if_splits prod.splits sum.splits CRState.splits)
qed simp

lemma existing_free:
  assumes "tryHandleExistingCR r d (Some gc) ev w = (w', None)"
  shows "\<exists>w1 w2 st n. GetRemediationState (annotationManager r) (NodeName (hd_HealthEvent d)) w = (w1, Inr (st, n)) \<and>
    none_in_charge (rc_statusChecker (RemediationClient r)) (ev_CreatedAt (hd_Event d))
      (sortedEquivalenceGroupStates (range_groups r (FilterEquivalenceGroupStates gc st))) w1 w2"
  using assms
  by (auto simp: tryHandleExistingCR_def checkExistingCRStatus_def Let_def split: prod.splits sum.splits if_splits dest!: evaluate_free)

lemma collector_or_remediation:
  assumes l: "logs r log" and id: "ExtractDocumentID (fr_codec r) (et_Event ev) = Inr i"
    and run: "runLogCollectorAndRemediate r d ev gc w = (w', res)"
  shows "concludes i S (et_ResumeToken ev) (log w) (log w') res \<or>
    (\<exists>w4 w5. log w5 = log w \<and>
       (if MaxRemediationAttempts (fr_config r) > 0
        then \<exists>k \<le> MaxRemediationAttempts (fr_config r).
          RecordRemediationAttempt (annotationManager r) (NodeName (hd_HealthEvent d)) (EffectiveEquivalenceGroup gc) w4 = (w5, Inr k)
        else w5 = w4) \<and> remediate_and_record r d ev gc w5 = (w', res))"
proof -
  let ?max = "MaxRemediationAttempts (fr_config r)" and ?node = "NodeName (hd_HealthEvent d)" and ?grp = "EffectiveEquivalenceGroup gc"
  obtain w1 x where cap: "(if ?max > 0 then tryStopIfAlreadyCapped r ?node ?grp ?max ev w else (w, None)) = (w1, x)" by fastforce
  show ?thesis
  proof (cases x)
    case (Some y)
    then show ?thesis using run cap stop_concludes(2) [OF l id, of ?node ?grp ?max w w' res S]
      by (auto simp: runLogCollectorAndRemediate_def Let_def split: if_splits)
  next
    case None
    have same1: "log w1 = log w" using cap None stop_passes(2) [OF l] by (auto split: if_splits)
    obtain w2 y where coll: "runLogCollector r (hd_HealthEvent d) (hd_ID d) w1 = (w2, y)" by fastforce
    have same2: "log w2 = log w" using collect_silent [OF logsD(1) [OF l] coll] same1 by simp
    show ?thesis
    proof (cases "y = ResultAfter 0")
      case False
      then have "concludes i S (et_ResumeToken ev) (log w) (log w') res"
        using run cap None coll same2 by (auto simp: runLogCollectorAndRemediate_def Let_def split: reconcile_result.splits if_splits)
      then show ?thesis ..
    next
      case True
      obtain w3 z where stop: "(if ?max > 0 then tryStopAtMaxAttempts r ?node ?grp ?max ev w2 else (w2, None)) = (w3, z)" by fastforce
      have rest: "(case z of Some res \<Rightarrow> (w3, res) | None \<Rightarrow> remediate_and_record r d ev gc w3) = (w', res)"
        using run cap None coll True stop by (simp add: runLogCollectorAndRemediate_def Let_def split: option.splits)
      show ?thesis
      proof (cases z)
        case None
        have "log w3 = log w" using stop None stop_passes(1) [OF l] same2 by (auto split: if_splits)
        moreover have "if ?max > 0 then \<exists>k \<le> ?max. RecordRemediationAttempt (annotationManager r) ?node ?grp w2 = (w3, Inr k) else w3 = w2"
          using stop None stop_passes(1) [OF l] by (auto split: if_splits)
        ultimately show ?thesis using rest None by (intro disjI2 exI [of _ w2] exI [of _ w3]) simp
      next
        case (Some res')
        with rest stop stop_concludes(1) [OF l id, of ?node ?grp ?max w2 w' res S] same2 show ?thesis by (auto split: if_splits)
      qed
    qed
  qed
qed

lemma concludes_again:
  assumes "logs r log" and "concludes i S token l (log w) zero_result" and "markProcessedOrError r token w = (w', res)"
  shows "concludes i S token l (log w') res"
proof -
  from assms(2) obtain evs where evs: "log w = l @ evs" "checkpointed (settled_by i S) token evs zero_result" "uncreated evs"
    unfolding concludes_def by blast
  obtain e where "log w' = log w @ (if token = [] then [] else [Marked token e])" "res = zero_result \<longrightarrow> token = [] \<or> e = None"
    using mark_effect [OF assms(1,3)] by blast
  with evs checkpointed_again [OF evs(2) refl, of res e] show ?thesis
    unfolding concludes_def by (intro exI [of _ "evs @ (if token = [] then [] else [Marked token e])"]) auto
qed

lemma remediate_passes:
  assumes l: "logs r log" and id: "ExtractDocumentID (fr_codec r) (et_Event ev) = Inr i"
    and rem: "remediate_and_record r d ev gc w = (w1, x)"
    and fin: "(case x of ResultAfter delay \<Rightarrow> if delay \<noteq> 0 then (w1, x) else markProcessedOrError r (et_ResumeToken ev) w1 | _ \<Rightarrow> (w1, x)) = (w', res)"
  shows "passes i S (et_ResumeToken ev) True (log w) (log w') res"
proof -
  obtain pre post where eff: "log w1 = log w @ pre @ post" "pre = [] \<or> (\<exists>obj e. pre = [Created obj e] \<and> (x = zero_result \<longrightarrow> accepted e))"
    "list_all is_Written post" "x = zero_result \<longrightarrow> (\<exists>u. Written i u None \<in> set post)" "\<forall>delay. x = ResultAfter delay \<longrightarrow> delay = 0"
    using remediate_effect [OF l id rem] by (elim exE conjE) (rule that)
  note harmless = written_harmless [OF eff(3)]
  have unmarked: "list_all (\<lambda>c. \<not> is_Marked c) (pre @ post)" using eff(2) harmless by auto
  show ?thesis
  proof (cases "x = zero_result")
    case True
    then have "markProcessedOrError r (et_ResumeToken ev) w1 = (w', res)" using fin by (simp add: zero_result_def)
    from mark_checkpoint [OF l this, of "\<lambda>p. settled_by i S ((pre @ post) @ p)"] eff(4) True obtain evs
      where evs: "log w' = log w1 @ evs" "checkpointed (\<lambda>p. settled_by i S ((pre @ post) @ p)) (et_ResumeToken ev) evs res" "uncreated evs"
      by (auto simp: settled_by_def)
    from checkpointed_prefix [OF unmarked evs(2)] have "checkpointed (settled_by i S) (et_ResumeToken ev) ((pre @ post) @ evs) res" .
    then show ?thesis unfolding passes_def using eff(1,2) harmless evs(1,3) True
      by (intro exI [of _ "(pre @ post) @ evs"]) auto
  next
    case False
    then have "w' = w1" "res = x" using fin eff(5) by (auto simp: zero_result_def split: reconcile_result.splits if_splits)
    moreover have "\<not> list_ex is_Marked post" using harmless by (simp add: list_all_iff list_ex_iff)
    ultimately show ?thesis unfolding passes_def using eff(1,2) harmless unmarked False checkpointed_open [OF unmarked False]
      by (intro exI [of _ "pre @ post"]) auto
  qed
qed

text \<open>The event needs no status: it asks for nothing, was remediated before, or is resolved in the store.\<close>

definition needs_nothing :: "('w, 't, 'b, 'doc, 'id) FaultRemediationReconciler \<Rightarrow> HealthEventDoc \<Rightarrow> 'w \<Rightarrow> bool" where
  "needs_nothing r d w \<longleftrightarrow> \<not> isPartialRecoveryRemediationEvent d \<and>
     (RecommendedAction (hd_HealthEvent d) = RA_NONE \<or> already_remediated d \<or>
      (\<exists>w1. eventResolvedInStore r (hd_HealthEvent d) (hd_ID d) w = (w1, Inr True)))"

lemma skip_passes:
  assumes "trySkipEvent r d gc ev w = (w', None)"
  shows "w' = w \<and> gc \<noteq> None \<and> RecommendedAction (hd_HealthEvent d) \<noteq> RA_NONE \<and> \<not> already_remediated d"
proof -
  have "shouldSkipEvent r d gc w = (w', Checked False)"
    using assms by (auto simp: trySkipEvent_def split: prod.splits check.splits bool.splits if_splits)
  then show ?thesis
    by (auto simp: shouldSkipEvent_def split: if_splits prod.splits sum.splits bool.splits completion.splits option.splits)
qed

lemma checks_or_collector:
  assumes l: "logs r log" and id: "ExtractDocumentID (fr_codec r) (et_Event ev) = Inr i"
    and np: "\<not> isPartialRecoveryRemediationEvent d" and run: "handleRemediationEvent r d ev w = (w', res)"
  shows "concludes i (needs_nothing r d w) (et_ResumeToken ev) (log w) (log w') res \<or>
    (\<exists>gc w3 w4 v. past_checks r d w gc \<and> log w3 = log w \<and> runLogCollectorAndRemediate r d ev gc w3 = (w4, v) \<and>
       (case v of ResultAfter delay \<Rightarrow> if delay \<noteq> 0 then (w4, v) else markProcessedOrError r (et_ResumeToken ev) w4 | _ \<Rightarrow> (w4, v)) = (w', res))"
proof -
  let ?S = "needs_nothing r d w"
  define gc where "gc = (case GetGroupConfigForEvent (RemediationActions (fr_config r)) (hd_HealthEvent d) of Inl _ \<Rightarrow> None | Inr gc \<Rightarrow> gc)"
  note steps = run [unfolded handleRemediationEvent_def Let_def, folded gc_def]
  obtain w1 x where skip: "trySkipEvent r d gc ev w = (w1, x)" by fastforce
  obtain w2 y where res2: "trySkipResolvedEvent r d ev w = (w2, y)" by fastforce
  obtain w3 z where ex: "tryHandleExistingCR r d gc ev w2 = (w3, z)" by fastforce
  consider v where "x = Some v" | v where "x = None" "y = Some v" | v where "x = None" "y = None" "z = Some v" | "x = None" "y = None" "z = None"
    by (cases x; cases y; cases z) auto
  then show ?thesis
  proof cases
    case 1
    with steps np skip have "trySkipEvent r d gc ev w = (w', Some res)" by simp
    then show ?thesis by (intro disjI1 skip_concludes [OF l id, of d gc]) (auto simp: needs_nothing_def np)
  next
    case 2
    with skip skip_passes have "w1 = w" by metis
    with 2 steps np skip res2 have "trySkipResolvedEvent r d ev w = (w', Some res)" by simp
    then show ?thesis by (intro disjI1 resolved_concludes [OF l, of d]) (auto simp: needs_nothing_def np)
  next
    case 3
    with skip skip_passes have "w1 = w" by metis
    with 3 steps np skip res2 ex have "tryHandleExistingCR r d gc ev w2 = (w', Some res)" by simp
    moreover from 3 res2 have "eventResolvedInStore r (hd_HealthEvent d) (hd_ID d) w = (w2, Inr False)"
      by (auto simp: trySkipResolvedEvent_def split: prod.splits sum.splits bool.splits)
    from resolved_silent [OF logsD(2) [OF l] this] have "log w2 = log w" .
    ultimately show ?thesis using existing_checkpoint [OF l id, of d gc w2 w' res ?S] by simp
  next
    case 4
    then have w1: "w1 = w" "RecommendedAction (hd_HealthEvent d) \<noteq> RA_NONE" "\<not> already_remediated d" "gc \<noteq> None"
      using skip_passes skip by metis+
    then obtain g where g: "gc = Some g" "GetGroupConfigForEvent (RemediationActions (fr_config r)) (hd_HealthEvent d) = Inr (Some g)"
      unfolding gc_def by (auto split: sum.splits)
    from 4 res2 have unresolved: "eventResolvedInStore r (hd_HealthEvent d) (hd_ID d) w = (w2, Inr False)"
      by (auto simp: trySkipResolvedEvent_def split: prod.splits sum.splits bool.splits)
    have same: "log w3 = log w" using ex 4 resolved_silent [OF logsD(2) [OF l] unresolved] existing_silent [OF logsD(1) [OF l]]
      by (auto simp: tryHandleExistingCR_def split: prod.splits sum.splits if_splits)
    have "past_checks r d w g" unfolding past_checks_def
      using np w1 g(2) unresolved existing_free [OF ex [unfolded g \<open>z = None\<close>]] by blast
    moreover obtain w4 v where coll: "runLogCollectorAndRemediate r d ev g w3 = (w4, v)" by fastforce
    moreover have "(case v of ResultAfter delay \<Rightarrow> if delay \<noteq> 0 then (w4, v) else markProcessedOrError r (et_ResumeToken ev) w4 | _ \<Rightarrow> (w4, v)) = (w', res)"
      using steps np skip w1(1) res2 ex 4 g(1) coll by (cases v) auto
    ultimately show ?thesis using same by blast
  qed
qed

lemma handler_passes:
  assumes l: "logs r log" and id: "ExtractDocumentID (fr_codec r) (et_Event ev) = Inr i"
    and run: "handleRemediationEvent r d ev w = (w', res)"
  shows "passes i (needs_nothing r d w) (et_ResumeToken ev) (remediation_due r d ev w) (log w) (log w') res"
proof (cases "isPartialRecoveryRemediationEvent d")
  case True
  with run have "handlePartialRecoveryEvent r (NodeName (hd_HealthEvent d)) ev w = (w', res)" by (simp add: handleRemediationEvent_def)
  then show ?thesis by (rule partial_checkpoint [OF l id, THEN concludes_passes])
next
  case False
  let ?S = "needs_nothing r d w" and ?token = "et_ResumeToken ev"
  from checks_or_collector [OF l id False run] show ?thesis
  proof (elim disjE exE conjE)
    assume "concludes i ?S ?token (log w) (log w') res"
    then show ?thesis by (rule concludes_passes)
  next
    fix gc w3 w4 v
    assume chk: "past_checks r d w gc" and same: "log w3 = log w" and coll: "runLogCollectorAndRemediate r d ev gc w3 = (w4, v)"
      and fin: "(case v of ResultAfter delay \<Rightarrow> if delay \<noteq> 0 then (w4, v) else markProcessedOrError r ?token w4 | _ \<Rightarrow> (w4, v)) = (w', res)"
    from collector_or_remediation [OF l id coll, of ?S] show ?thesis
    proof (elim disjE exE conjE)
      assume c: "concludes i ?S ?token (log w3) (log w4) v"
      have "concludes i ?S ?token (log w) (log w') res"
        using fin c same concludes_again [OF l, of i ?S ?token "log w" w4 w' res]
        by (auto simp: zero_result_def split: reconcile_result.splits if_splits)
      then show ?thesis by (rule concludes_passes)
    next
      fix w4' w5
      assume log5: "log w5 = log w3" and rem: "remediate_and_record r d ev gc w5 = (w4, v)"
        and "if MaxRemediationAttempts (fr_config r) > 0
          then \<exists>k \<le> MaxRemediationAttempts (fr_config r).
            RecordRemediationAttempt (annotationManager r) (NodeName (hd_HealthEvent d)) (EffectiveEquivalenceGroup gc) w4' = (w5, Inr k)
          else w5 = w4'"
      with chk have "remediation_due r d ev w" unfolding remediation_due_def by blast
      with remediate_passes [OF l id rem fin, of ?S] log5 same show ?thesis by simp
    qed
  qed
qed

section \<open>Requests\<close>

text \<open>The event of a request, as far as it can be read.\<close>

definition request_event :: "reconcileRequest \<Rightarrow> 'doc stored_record \<Rightarrow> 'doc EventWithToken" where
  "request_event rq rec = \<lparr>et_Event = sr_RawEvent rec, et_ResumeToken = rq_resumeToken rq\<rparr>"

definition request_query :: "reconcileRequest \<Rightarrow> Builder" where
  "request_query rq = Build (Eq ''_id'' (VString (rq_documentID rq))) New"

definition cancels :: "HealthEventDoc \<Rightarrow> bool" where
  "cancels d \<longleftrightarrow> hd_NodeQuarantined d = UnQuarantined \<or> hd_NodeQuarantined d = Cancelled"

text \<open>
  The request is settled: it names no event, or the event is gone, empty or unreadable, or its status was stored during this pass, or
  it is an event to remediate that needs nothing.
\<close>

definition settled_request ::
  "('w, 't, 'b, 'doc, 'id) FaultRemediationReconciler \<Rightarrow> reconcileRequest \<Rightarrow> 'w \<Rightarrow> 'b call list \<Rightarrow> bool" where
  "settled_request r rq w pre \<longleftrightarrow> rq_documentID rq = [] \<or>
     (\<exists>w1 recs. fr_Find r w (request_query rq) = (w1, Inr recs) \<and>
        (case recs of [] \<Rightarrow> True
         | rec # _ \<Rightarrow> fr_empty_document r (sr_RawEvent rec) \<or>
             (case (ParseHealthEventFromEvent (fr_codec r) (sr_RawEvent rec), ExtractDocumentID (fr_codec r) (sr_RawEvent rec)) of
                (Inr he, Inr i) \<Rightarrow>
                  (\<exists>u. Written i u None \<in> set pre) \<or>
                  (let d = \<lparr>hd_ID = i, hd_Event = he, hd_FaultRemediated = fr_remediated_of r (sr_RawEvent rec)\<rparr>
                   in \<not> cancels d \<and> needs_nothing r d w1)
              | _ \<Rightarrow> True)))"

text \<open>The event of the request, and what was found out about it.\<close>

definition request_due :: "('w, 't, 'b, 'doc, 'id) FaultRemediationReconciler \<Rightarrow> reconcileRequest \<Rightarrow> 'w \<Rightarrow> bool" where
  "request_due r rq w \<longleftrightarrow>
     (\<exists>w1 rec recs he i. fr_Find r w (request_query rq) = (w1, Inr (rec # recs)) \<and>
        ParseHealthEventFromEvent (fr_codec r) (sr_RawEvent rec) = Inr he \<and> ExtractDocumentID (fr_codec r) (sr_RawEvent rec) = Inr i \<and>
        (let d = \<lparr>hd_ID = i, hd_Event = he, hd_FaultRemediated = fr_remediated_of r (sr_RawEvent rec)\<rparr>
         in \<not> cancels d \<and> remediation_due r d (request_event rq rec) w1))"

lemma parse_failed:
  assumes l: "logs r log" and "fst (safeMarkProcessed r token w) = w'"
  shows "\<exists>evs. log w' = log w @ evs \<and> list_all (\<lambda>c. \<exists>e. c = Marked token e) evs \<and> (token \<noteq> [] \<longrightarrow> evs \<noteq> [])"
  using assms(2) by (auto simp: safeMarkProcessed_def split: if_splits prod.splits dest: logsD(5) [OF l])

lemma marked_uncreated: "list_all (\<lambda>c. \<exists>e. c = Marked token e) evs \<Longrightarrow> uncreated evs"
  by (induction evs) auto

text \<open>A pass over any event, with its condition for being settled.\<close>

lemma event_passes:
  assumes l: "logs r log" and find: "fr_Find r w (request_query rq) = (w1, Inr (rec # recs))" and doc: "rq_documentID rq \<noteq> []"
    and run: "reconcileEvent r (request_event rq rec) w1 = (w', res)"
  shows "\<exists>evs. log w' = log w @ evs \<and> checkpointed (settled_request r rq w) (rq_resumeToken rq) evs res \<and>
    (uncreated evs \<or> request_due r rq w \<and> (\<exists>obj e rest. evs = Created obj e # rest \<and> uncreated rest \<and> (list_ex is_Marked rest \<longrightarrow> accepted e)))"
proof -
  have same: "log w1 = log w" by (rule store_calls(4) [OF logsD(2) [OF l] find])
  let ?ev = "request_event rq rec" and ?doc = "sr_RawEvent rec" and ?cd = "fr_codec r"
  have tok: "et_ResumeToken ?ev = rq_resumeToken rq" "et_Event ?ev = ?doc" by (simp_all add: request_event_def)
  show ?thesis
  proof (cases "\<exists>he i. ParseHealthEventFromEvent ?cd ?doc = Inr he \<and> ExtractDocumentID ?cd ?doc = Inr i")
    case False
    then have "fst (safeMarkProcessed r (rq_resumeToken rq) w1) = w'" and zero: "res = zero_result"
      using run by (auto simp: reconcileEvent_def parseHealthEvent_def tok split: sum.splits)
    from parse_failed [OF l this(1)] obtain evs where evs: "log w' = log w @ evs" "list_all (\<lambda>c. \<exists>e. c = Marked (rq_resumeToken rq) e) evs"
      "rq_resumeToken rq \<noteq> [] \<longrightarrow> evs \<noteq> []" unfolding same by blast
    have "settled_request r rq w []" unfolding settled_request_def using find False by (auto split: sum.splits)
    with evs have "checkpointed (settled_request r rq w) (rq_resumeToken rq) evs res"
      unfolding checkpointed_def by (intro exI [of _ "[]"] exI [of _ evs]) auto
    with evs marked_uncreated show ?thesis by blast
  next
    case True
    then obtain he i where p: "ParseHealthEventFromEvent ?cd ?doc = Inr he" and i: "ExtractDocumentID ?cd ?doc = Inr i" by blast
    define d where "d = \<lparr>hd_ID = i, hd_Event = he, hd_FaultRemediated = fr_remediated_of r ?doc\<rparr>"
    have id: "ExtractDocumentID ?cd (et_Event ?ev) = Inr i" using i by (simp add: tok)
    have parsed: "parseHealthEvent r ?ev w1 = (w1, Inr d)" by (simp add: parseHealthEvent_def tok p i d_def)
    have step: "(if cancels d then handleCancellationEvent r (NodeName (hd_HealthEvent d)) (hd_NodeQuarantined d) ?ev w1
        else handleRemediationEvent r d ?ev w1) = (w', res)"
      using run unfolding reconcileEvent_def parsed cancels_def prod.case sum.case .
    let ?S = "\<not> cancels d \<and> needs_nothing r d w1" and ?due = "\<not> cancels d \<and> remediation_due r d ?ev w1"
    have "passes i ?S (rq_resumeToken rq) ?due (log w1) (log w') res"
    proof (cases "cancels d")
      case True
      with step have "handleCancellationEvent r (NodeName (hd_HealthEvent d)) (hd_NodeQuarantined d) ?ev w1 = (w', res)" by simp
      then show ?thesis unfolding tok(1) [symmetric] by (rule cancellation_checkpoint [OF l id, THEN concludes_passes])
    next
      case False
      with step have "handleRemediationEvent r d ?ev w1 = (w', res)" by simp
      from handler_passes [OF l id this] False show ?thesis by (simp add: tok)
    qed
    then obtain evs where evs: "log w' = log w @ evs" "checkpointed (settled_by i ?S) (rq_resumeToken rq) evs res"
      "uncreated evs \<or> ?due \<and> (\<exists>obj e rest. evs = Created obj e # rest \<and> uncreated rest \<and> (list_ex is_Marked rest \<longrightarrow> accepted e))"
      unfolding passes_def same by (elim exE conjE) (rule that)
    have "settled_by i ?S pre \<Longrightarrow> settled_request r rq w pre" for pre
      unfolding settled_by_def settled_request_def using find p i by (auto simp: d_def Let_def)
    from checkpointed_mono [OF evs(2) this] have "checkpointed (settled_request r rq w) (rq_resumeToken rq) evs res" .
    moreover have "?due \<Longrightarrow> request_due r rq w" unfolding request_due_def using find p i by (auto simp: d_def Let_def)
    ultimately show ?thesis using evs(1,3) by blast
  qed
qed

lemma request_passes:
  assumes l: "logs r log" and run: "Reconcile r rq w = (w', res)" and doc: "rq_documentID rq \<noteq> []"
  shows "\<exists>evs. log w' = log w @ evs \<and> checkpointed (settled_request r rq w) (rq_resumeToken rq) evs res \<and>
    (uncreated evs \<or> request_due r rq w \<and> (\<exists>obj e rest. evs = Created obj e # rest \<and> uncreated rest \<and> (list_ex is_Marked rest \<longrightarrow> accepted e)))"
proof -
  obtain w1 x where find: "fr_Find r w (request_query rq) = (w1, x)" by fastforce
  have same: "log w1 = log w" by (rule store_calls(4) [OF logsD(2) [OF l] find])
  have marked: ?thesis if "markProcessedOrError r (rq_resumeToken rq) w1 = (w', res)" "settled_request r rq w []"
    using mark_checkpoint [OF l that(1), of "settled_request r rq w"] that(2) unfolding same by blast
  show ?thesis
  proof (cases x)
    case (Inl e)
    with run find doc same show ?thesis
      by (intro exI [of _ "[]"]) (auto simp: Reconcile_def request_query_def zero_result_def intro: checkpointed_open)
  next
    case (Inr recs)
    show ?thesis
    proof (cases recs)
      case Nil
      with run find Inr doc show ?thesis by (intro marked) (simp_all add: Reconcile_def request_query_def settled_request_def)
    next
      case (Cons rec rest)
      show ?thesis
      proof (cases "fr_empty_document r (sr_RawEvent rec)")
        case True
        with run find Inr Cons doc show ?thesis by (intro marked) (simp_all add: Reconcile_def request_query_def settled_request_def)
      next
        case False
        with run find Inr Cons doc have "reconcileEvent r (request_event rq rec) w1 = (w', res)"
          by (simp add: Reconcile_def request_query_def request_event_def)
        from event_passes [OF l find [unfolded Inr Cons] doc this] show ?thesis .
      qed
    qed
  qed
qed

end
