(* ===== verification/Checkpoint_Properties.thy ===== *)
theory Checkpoint_Properties
  imports Remediation_Safety
begin

text \<open>
  The two promises of fault-remediation to the rest of the system: the change stream moves past an event only when the event
  is settled, and a maintenance resource is created only for an event that is due for one.
\<close>

section \<open>The change stream\<close>

text \<open>
  C30. A pass over a request marks the stream with the token of the request only, as the last thing it does, and only when the
  request is settled: its event is gone, empty or unreadable, its status was stored in this pass, or it needs no status. Nor does a
  request leave the queue before it is settled, also one without a token; and one that leaves it with a token has marked the stream.
\<close>

theorem checkpoint_only_when_settled:
  assumes "logs r log" and "Reconcile r rq w = (w', res)"
  shows "\<exists>pre marks. log w' = log w @ pre @ marks \<and> list_all (\<lambda>c. \<not> is_Marked c) pre \<and>
    list_all (\<lambda>c. \<exists>e. c = Marked (rq_resumeToken rq) e) marks \<and>
    (marks \<noteq> [] \<or> res = zero_result \<longrightarrow> settled_request r rq w pre) \<and>
    (res = zero_result \<longrightarrow> rq_documentID rq = [] \<or> rq_resumeToken rq = [] \<or> marks \<noteq> [])"
proof (cases "rq_documentID rq = []")
  case True
  with assms(2) show ?thesis by (intro exI [of _ "[]"]) (simp add: Reconcile_def settled_request_def)
next
  case False
  from request_passes [OF assms False] obtain evs where "log w' = log w @ evs" "checkpointed (settled_request r rq w) (rq_resumeToken rq) evs res" by blast
  then show ?thesis unfolding checkpointed_def by (elim exE conjE) (rule exI, rule exI, intro conjI, auto)
qed

text \<open>One node, one event to restart it, and a server that keeps what it is told.\<close>

type_synonym small_cluster = "kube_node \<times> node \<times> unit call list"

definition calls :: "small_cluster \<Rightarrow> unit call list" where
  "calls w = snd (snd w)"

definition calling :: "unit call \<Rightarrow> small_cluster \<Rightarrow> small_cluster" where
  "calling c w = (fst w, fst (snd w), calls w @ [c])"

definition restart_resource :: MaintenanceResource where
  "restart_resource = \<lparr>mr_Namespace = ''ns'', mr_Version = ''v1'', mr_ApiGroup = ''g'', mr_Kind = ''Reboot'', CompleteConditionType = ''Done'',
     mr_Scope = ''Cluster'', TemplateFileName = ''t'', EquivalenceGroup = ''restart'', ImpactedEntityScope = [], mr_SupersedingEquivalenceGroups = []\<rparr>"

definition small_client :: "(small_cluster, unit, unit) FaultRemediationClient" where
  "small_client = \<lparr>
     rc_annotationManager = \<lparr>am_Get = (\<lambda>w _. (w, Inr (fst w))), am_Update = (\<lambda>w n. ((n, snd w), None)), am_RetryOnConflict = (\<lambda>fn. fn),
       am_now = (\<lambda>_. 7), unmarshal_state = (\<lambda>_. Inr (record_attempt ''restart'' no_remediation)), marshal_state = (\<lambda>_. Inr ''state''),
       unmarshal_session = (\<lambda>_. Inr [])\<rparr>,
     rc_statusChecker = \<lparr>cs_Get = (\<lambda>w _ _ _. (w, Inr None)), cs_remediationActions = [(''RESTART_VM'', restart_resource)], cs_dryRun = False\<rparr>,
     remediationConfig = \<lparr>MountPath = ''/'', RemediationActions = [(''RESTART_VM'', restart_resource)], MaxRemediationAttempts = 2\<rparr>,
     rc_dryRun = False, rc_templates = [(''RESTART_VM'', ())], template_Execute = (\<lambda>_ _. Inr ''y''),
     yaml_Unmarshal = (\<lambda>_. Inr \<lparr>co_Name = ''m1'', co_OwnerReferences = [], co_Body = ()\<rparr>),
     rc_GetNode = (\<lambda>w name. (w, Inr \<lparr>on_Name = name, on_UID = ''u''\<rparr>)), rc_Create = (\<lambda>w obj. (calling (Created obj None) w, None)),
     rc_manifest = (\<lambda>_. Inl (EText ''none'')), rc_ListJobs = (\<lambda>w _ _. (w, Inr [])), rc_CreateJob = (\<lambda>w _. (w, None)),
     rc_UpdateJob = (\<lambda>w _. (w, None)), FindStatusCondition = (\<lambda>_ _. None), sha256_hex = (\<lambda>s. s), timeoutEnv = [], ParseDuration = (\<lambda>_. None),
     rc_now = (\<lambda>_. 9), TraceIDFromMetadata = (\<lambda>_. []), rc_SpanID = (\<lambda>_. [])\<rparr>"

definition restart_event :: raw_event where
  "restart_event = \<lparr>raw_CreatedAt = 5, raw_HealthEvent = Some (zero_event\<lparr>NodeName := ''n1'', IsFatal := True, RecommendedAction := RESTART_VM\<rparr>),
     raw_Status = Some \<lparr>NodeQuarantined = Quarantined, UserPodsEvictionStatus = Some StatusSucceeded\<rparr>\<rparr>"

definition small_reconciler :: "(small_cluster, unit, unit, raw_event, nat) FaultRemediationReconciler" where
  "small_reconciler = \<lparr>RemediationClient = small_client, fr_onError = (\<lambda>_ fn. fn),
     fr_labels = \<lparr>NodeClient.GetNode = (\<lambda>w _. (w, Inr (fst (snd w)))), NodeClient.UpdateNode = (\<lambda>w n. ((fst w, n, calls w), None))\<rparr>,
     NodeReader = (\<lambda>w _. (w, Inr (fst w))), EnableLogCollector = False, StartFresh = False, ColdStartAfterTime = 0, InProgressRequeueDelay = 0,
     fr_codec = \<lparr>decode_normalized = Inr, decode_generic = Inr, eviction_message = (\<lambda>_. []), ExtractDocumentIDNative = (\<lambda>_. Inr 1),
       ExtractDocumentID = (\<lambda>_. Inr ''1''), ExtractEventID = (\<lambda>_. ''1''), id_text = (\<lambda>_. ''1''), ensure_id = (\<lambda>_ d. d)\<rparr>,
     fr_remediated_of = (\<lambda>_. None), fr_empty_document = (\<lambda>_. False),
     fr_slots = \<lparr>marshal_slot = (\<lambda>_. None), unmarshal_slot = (\<lambda>_. None)\<rparr>,
     decode_events = (\<lambda>_. Inr []), decode_event = (\<lambda>_. Inl (EText ''none'')),
     fr_Find = (\<lambda>w _. (w, Inr [\<lparr>sr_RawEvent = restart_event, sr_FaultRemediated = None, sr_NodeQuarantined = Some Quarantined\<rparr>])),
     fr_FindBatched = (\<lambda>w _ _ f. f [] w), fr_UpdateStatus = (\<lambda>w d u. (calling (Written d u None) w, None)),
     fr_UpdateSpanID = (\<lambda>w _ _. (w, None)), fr_MarkProcessed = (\<lambda>w t. (calling (Marked t None) w, None)), fr_now = (\<lambda>_. 9), fr_span = (\<lambda>_. []),
     range_groups = (\<lambda>m. m), range_events = (\<lambda>m. m)\<rparr>"

lemma small_logs: "logs small_reconciler calls"
  unfolding logs_def silent_client_def silent_store_def
  by (auto simp: small_reconciler_def small_client_def calls_def calling_def)

definition drained_cluster :: small_cluster where
  "drained_cluster = (\<lparr>kn_Name = ''n1'', kn_ResourceVersion = ''1'', kn_Labels = None, kn_Annotations = None, kn_Taints = [], kn_Unschedulable = True\<rparr>,
     \<lparr>Name = ''n1'', ResourceVersion = ''1'', Labels = Some [(NVSentinelStateLabelKey, DrainSucceededLabelValue)]\<rparr>, [])"

definition restart_request :: reconcileRequest where
  "restart_request = \<lparr>rq_documentID = ''1'', rq_resumeToken = ''t''\<rparr>"

definition restart_object :: "unit cr_object" where
  "restart_object = \<lparr>co_Name = ''m1'', co_OwnerReferences = [\<lparr>on_Name = ''n1'', on_UID = ''u''\<rparr>], co_Body = ()\<rparr>"

lemma restart_run:
  "calls (fst (Reconcile small_reconciler restart_request drained_cluster)) =
     [Created restart_object None, Written ''1'' \<lparr>su_FaultRemediated = True, su_LastRemediationTimestamp = Some 9\<rparr> None, Marked ''t'' None] \<and>
   snd (Reconcile small_reconciler restart_request drained_cluster) = zero_result"
  by code_simp

lemma marks_split:
  assumes "[Created obj x, Written i u y, Marked t z] = pre @ marks" and "list_all (\<lambda>c. \<not> is_Marked c) pre"
    and "list_all (\<lambda>c. \<exists>e. c = Marked t e) marks"
  shows "pre = [Created obj x, Written i u y] \<and> marks = [Marked t z]"
  using assms by (auto simp: Cons_eq_append_conv)

theorem checkpoint_only_when_settled_witness:
  "\<exists>pre. calls (fst (Reconcile small_reconciler restart_request drained_cluster)) = pre @ [Marked ''t'' None] \<and>
     settled_request small_reconciler restart_request drained_cluster pre"
proof -
  let ?run = "Reconcile small_reconciler restart_request drained_cluster"
  have start: "calls drained_cluster = []" by (simp add: drained_cluster_def calls_def)
  have run: "?run = (fst ?run, zero_result)" using restart_run by (metis prod.collapse)
  from checkpoint_only_when_settled [OF small_logs run] obtain pre marks where
    pm: "calls (fst ?run) = pre @ marks" "list_all (\<lambda>c. \<not> is_Marked c) pre" "list_all (\<lambda>c. \<exists>e. c = Marked ''t'' e) marks"
    and settled: "settled_request small_reconciler restart_request drained_cluster pre"
    unfolding start by (auto simp: restart_request_def)
  from marks_split [OF trans [OF conjunct1 [OF restart_run, symmetric] pm(1)] pm(2,3)] pm(1) settled show ?thesis by blast
qed

section \<open>Maintenance resources\<close>

text \<open>
  C31. A pass creates at most one maintenance resource, before any other call, and only for an event that is due for one: it is
  stored, readable, neither a cancellation nor a partial recovery, asks for a supported action, was not remediated before, was found
  unresolved in the store; no resource that the annotation records for its groups is in progress or has succeeded for a session
  that covers the event; and with a limit on attempts, this attempt was recorded within it. If the server does not hold the resource
  afterwards, the stream is not moved past the event.
\<close>

theorem resource_created_only_when_due:
  assumes "logs r log" and "Reconcile r rq w = (w', res)" and "log w' = log w @ evs" and "Created obj e \<in> set evs"
  shows "request_due r rq w \<and> (\<exists>rest. evs = Created obj e # rest \<and> uncreated rest \<and> (list_ex is_Marked rest \<longrightarrow> accepted e))"
proof -
  have "rq_documentID rq \<noteq> []"
  proof
    assume "rq_documentID rq = []"
    with assms(2) have "w' = w" by (simp add: Reconcile_def)
    with assms(3,4) show False by simp
  qed
  from request_passes [OF assms(1,2) this] assms(3)
  have "uncreated evs \<or> request_due r rq w \<and> (\<exists>obj e rest. evs = Created obj e # rest \<and> uncreated rest \<and> (list_ex is_Marked rest \<longrightarrow> accepted e))"
    by auto
  with assms(4) show ?thesis by (fastforce simp: list_all_iff)
qed

theorem resource_created_only_when_due_witness:
  "Created restart_object None \<in> set (calls (fst (Reconcile small_reconciler restart_request drained_cluster))) \<and>
   request_due small_reconciler restart_request drained_cluster"
proof -
  let ?run = "Reconcile small_reconciler restart_request drained_cluster"
  have mem: "Created restart_object None \<in> set (calls (fst ?run))" using restart_run by simp
  have "calls (fst ?run) = calls drained_cluster @ calls (fst ?run)" by (simp add: drained_cluster_def calls_def)
  from resource_created_only_when_due [OF small_logs prod.collapse [symmetric] this mem] mem show ?thesis by simp
qed

end
