(* ===== verification/Condition_Messages.thy ===== *)
theory Condition_Messages
  imports Custom_Drain Drain_Config "HOL-Library.Option_ord"
begin

text \<open>
  The messages of node conditions (\<^verbatim>\<open>platform-connectors/pkg/connectors/kubernetes/process_node_events.go\<close>). A condition lists
  the faults of a check in one text of bounded length, one entry per fault: error codes, entities, free text and recommended
  action. Faults are added, recoveries remove the entries of their entities, and a text that is too long is shortened in steps
  that keep what recoveries match on.

  White space and case folding are those of ASCII.
\<close>

section \<open>Strings\<close>

definition HasPrefix :: "string \<Rightarrow> string \<Rightarrow> bool" where
  "HasPrefix s p \<longleftrightarrow> prefix p s"

definition HasSuffix :: "string \<Rightarrow> string \<Rightarrow> bool" where
  "HasSuffix s p \<longleftrightarrow> suffix p s"

definition Contains :: "string \<Rightarrow> string \<Rightarrow> bool" where
  "Contains s sub \<longleftrightarrow> list_ex (\<lambda>i. prefix sub (drop i s)) [0 ..< Suc (length s)]"

text \<open>The functions for an index return \<^verbatim>\<open>None\<close> for \<^verbatim>\<open>-1\<close>.\<close>

definition LastIndex :: "string \<Rightarrow> string \<Rightarrow> nat option" where
  "LastIndex s sub = List.find (\<lambda>i. prefix sub (drop i s)) (rev [0 ..< Suc (length s)])"

definition Index :: "string \<Rightarrow> string \<Rightarrow> nat option" where
  "Index s sub = List.find (\<lambda>i. prefix sub (drop i s)) [0 ..< Suc (length s)]"

fun pieces :: "(char \<Rightarrow> bool) \<Rightarrow> string \<Rightarrow> string list" where
  "pieces f [] = [[]]"
| "pieces f (c # cs) = (if f c then [] # pieces f cs else (case pieces f cs of [] \<Rightarrow> [[c]] | p # ps \<Rightarrow> (c # p) # ps))"

definition Fields :: "string \<Rightarrow> string list" where
  "Fields s = filter (\<lambda>p. p \<noteq> []) (pieces is_space s)"

definition TrimRight :: "string \<Rightarrow> string \<Rightarrow> string" where
  "TrimRight s cutset = rev (dropWhile (\<lambda>c. c \<in> set cutset) (rev s))"

definition TrimSuffix :: "string \<Rightarrow> string \<Rightarrow> string" where
  "TrimSuffix s p = (if HasSuffix s p then take (length s - length p) s else s)"

definition CutSuffix :: "string \<Rightarrow> string \<Rightarrow> string option" where
  "CutSuffix s p = (if HasSuffix s p then Some (take (length s - length p) s) else None)"

definition CutPrefix :: "string \<Rightarrow> string \<Rightarrow> string option" where
  "CutPrefix s p = (if HasPrefix s p then Some (drop (length p) s) else None)"

section \<open>The entries of a condition\<close>

definition NoHealthFailureMsg :: string where "NoHealthFailureMsg = ''No Health Failures''"
definition truncationSuffix :: string where "truncationSuffix = ''...''"
definition recommendedActionMarker :: string where "recommendedActionMarker = ''Recommended Action=''"
definition error_code_prefix :: string where "error_code_prefix = ''ErrorCode:''"

definition isNoHealthFailureMessage :: "string \<Rightarrow> bool" where
  "isNoHealthFailureMessage msg \<longleftrightarrow> EqualFold (TrimSpace msg) NoHealthFailureMsg"

definition parseMessages :: "string \<Rightarrow> string list" where
  "parseMessages message =
     (if message = [] then []
      else filter (\<lambda>msg. \<not> (msg = [] \<or> msg = truncationSuffix \<or> isNoHealthFailureMessage msg)) (split_on (CHR '';'') message))"

definition entity_token :: "entity \<Rightarrow> string" where
  "entity_token en = EntityType en @ '':'' @ EntityValue en"

definition constructHealthEventMessage :: "health_event \<Rightarrow> string" where
  "constructHealthEventMessage healthEvent =
     concat (map (\<lambda>code. error_code_prefix @ code @ '' '') (ErrorCode healthEvent)) @
     concat (map (\<lambda>en. entity_token en @ '' '') (EntitiesImpacted healthEvent)) @
     (if Message healthEvent \<noteq> [] then map (\<lambda>c. if c = CHR '';'' then CHR ''.'' else c) (Message healthEvent) @ '' '' else []) @
     recommendedActionMarker @ recommended_action_name (RecommendedAction healthEvent) @ '';''"

section \<open>Identity of an entry\<close>

definition isStructuredEntityToken :: "string \<Rightarrow> bool" where
  "isStructuredEntityToken token \<longleftrightarrow>
     \<not> HasPrefix token error_code_prefix \<and>
     (case Index token '':'' of None \<Rightarrow> False | Some colonIdx \<Rightarrow> colonIdx > 0 \<and> colonIdx + 1 < length token)"

definition identity_token :: "string \<Rightarrow> bool" where
  "identity_token tok \<longleftrightarrow> HasPrefix tok error_code_prefix \<or> isStructuredEntityToken tok"

definition splitIdentityAndDiagnostic :: "string \<Rightarrow> string \<times> string" where
  "splitIdentityAndDiagnostic beforeRA =
     (let tokens = Fields beforeRA in
      (join_with '' '' (takeWhile identity_token tokens), join_with '' '' (dropWhile identity_token tokens)))"

definition extractMessageIdentity :: "string \<Rightarrow> string list \<times> string list \<times> string" where
  "extractMessageIdentity msg =
     (let (recommendedAction, pre) =
            (case LastIndex msg recommendedActionMarker of
               None \<Rightarrow> ([], msg)
             | Some raIdx \<Rightarrow> (TrimRight (drop raIdx msg) '' '', take raIdx msg));
          (identityPrefix, _) = splitIdentityAndDiagnostic (TrimRight pre '' '');
          tokens = Fields identityPrefix
      in (filter (\<lambda>token. HasPrefix token error_code_prefix) tokens,
          filter (\<lambda>token. \<not> HasPrefix token error_code_prefix) tokens, recommendedAction))"

definition sameEntity :: "string \<Rightarrow> string \<Rightarrow> bool" where
  "sameEntity a b \<longleftrightarrow>
     (if a = b then True
      else case CutSuffix a truncationSuffix of
          Some stem \<Rightarrow> HasPrefix b stem
        | None \<Rightarrow> (case CutSuffix b truncationSuffix of Some stem \<Rightarrow> HasPrefix a stem | None \<Rightarrow> False))"

definition messagesMatchByIdentity :: "string \<Rightarrow> string \<Rightarrow> bool" where
  "messagesMatchByIdentity a b \<longleftrightarrow>
     (let (aErr, aEnt, aRA) = extractMessageIdentity a; (bErr, bEnt, bRA) = extractMessageIdentity b in
      if aRA \<noteq> bRA \<or> aErr \<noteq> bErr \<or> length aEnt \<noteq> length bEnt then False else list_all2 sameEntity (sort aEnt) (sort bEnt))"

definition addMessageIfNotExist :: "string list \<Rightarrow> health_event \<Rightarrow> string list" where
  "addMessageIfNotExist messages healthEvent =
     (let newMessage = constructHealthEventMessage healthEvent in
      if list_ex (\<lambda>msg. msg @ '';'' = newMessage \<or> messagesMatchByIdentity msg (butlast newMessage)) messages then messages
      else messages @ [butlast newMessage])"

fun deduplicateMessagesByIdentity :: "string list \<Rightarrow> string list" where
  "deduplicateMessagesByIdentity [] = []"
| "deduplicateMessagesByIdentity (msg # rest) =
     (if list_ex (messagesMatchByIdentity msg) rest then deduplicateMessagesByIdentity rest
      else msg # deduplicateMessagesByIdentity rest)"

section \<open>Recoveries\<close>

definition truncated_match :: "bool \<Rightarrow> nat \<Rightarrow> entity \<Rightarrow> nat \<times> string \<Rightarrow> bool" where
  "truncated_match hasRecommendedAction n en p \<longleftrightarrow>
     (let (i, tok) = p; typePrefix = EntityType en @ '':'';
          isTruncated = HasSuffix tok truncationSuffix \<or> (\<not> hasRecommendedAction \<and> i + 1 = n);
          candidate = TrimSuffix tok truncationSuffix
      in HasPrefix tok typePrefix \<and> isTruncated \<and> length candidate > length typePrefix \<and> HasPrefix (entity_token en) candidate)"

definition entityMatchesMessage :: "string \<Rightarrow> entity \<Rightarrow> bool" where
  "entityMatchesMessage msg en \<longleftrightarrow>
     (if Contains msg (entity_token en @ '' '') then True
      else
        let (hasRecommendedAction, pre) =
              (case LastIndex msg recommendedActionMarker of None \<Rightarrow> (False, msg) | Some raIdx \<Rightarrow> (True, take raIdx msg));
            tokens = Fields pre
        in list_ex (truncated_match hasRecommendedAction (length tokens) en) (enumerate 0 tokens))"

definition entitiesMatchMessage :: "string \<Rightarrow> entity list \<Rightarrow> bool" where
  "entitiesMatchMessage msg entities \<longleftrightarrow> entities \<noteq> [] \<and> list_all (entityMatchesMessage msg) entities"

definition messageMatchesAnyErrorCode :: "string \<Rightarrow> string list \<Rightarrow> bool" where
  "messageMatchesAnyErrorCode msg errorCodes \<longleftrightarrow>
     errorCodes = [] \<or> list_ex (\<lambda>code. Contains msg (error_code_prefix @ code @ '' '')) errorCodes"

definition removeImpactedEntitiesMessagesScoped :: "string list \<Rightarrow> entity list \<Rightarrow> string list \<Rightarrow> string list" where
  "removeImpactedEntitiesMessagesScoped messages entities errorCodes =
     filter (\<lambda>msg. \<not> (entitiesMatchMessage msg entities \<and> messageMatchesAnyErrorCode msg errorCodes)) messages"

text \<open>\<^verbatim>\<open>None\<close> stands for a result that is not ok; the tokens are then not used.\<close>

definition legacyIdentityTokens :: "string \<Rightarrow> string list option" where
  "legacyIdentityTokens msg =
     (case LastIndex msg recommendedActionMarker of
        None \<Rightarrow> None
      | Some raIdx \<Rightarrow>
          (let (identity, diagnostic) = splitIdentityAndDiagnostic (take raIdx msg);
               tokens = filter (\<lambda>token. \<not> HasPrefix token error_code_prefix) (Fields identity);
               hasPCI = list_ex (\<lambda>token. HasPrefix token ''PCI:'') tokens
           in if tokens \<noteq> [] \<and> \<not> hasPCI \<and> \<not> HasPrefix diagnostic ''PCI:'' then Some tokens else None))"

fun legacy_entities :: "string list \<Rightarrow> entity list \<Rightarrow> bool \<Rightarrow> bool" where
  "legacy_entities tokens [] hasGPU = hasGPU"
| "legacy_entities tokens (en # rest) hasGPU =
     (if EntityType en = ''PCI'' then legacy_entities tokens rest hasGPU
      else if EntityType en = ''GPU'' then (if hd tokens \<noteq> entity_token en then False else legacy_entities tokens rest True)
      else if entity_token en \<notin> set tokens then False
      else legacy_entities tokens rest hasGPU)"

definition legacyGPUMessageMatches :: "string \<Rightarrow> entity list \<Rightarrow> bool" where
  "legacyGPUMessageMatches msg entities =
     (case legacyIdentityTokens msg of None \<Rightarrow> False | Some tokens \<Rightarrow> legacy_entities tokens entities False)"

definition removeLegacyGPUMessages :: "string list \<Rightarrow> entity list \<Rightarrow> string list \<Rightarrow> string list" where
  "removeLegacyGPUMessages messages entities errorCodes =
     filter (\<lambda>msg. \<not> legacyGPUMessageMatches msg entities \<or> \<not> messageMatchesAnyErrorCode msg errorCodes) messages"

definition recoveryEntities :: "health_event \<Rightarrow> entity list" where
  "recoveryEntities event =
     (if \<not> EqualFold (ComponentClass event) ''GPU'' then EntitiesImpacted event
      else
        let hasStableGPUIdentity = list_ex (\<lambda>en. EqualFold (EntityType en) ''GPU'' \<or> EqualFold (EntityType en) ''PCI'') (EntitiesImpacted event);
            entities = filter (\<lambda>en. \<not> EqualFold (EntityType en) ''GPU_UUID'') (EntitiesImpacted event)
        in if \<not> hasStableGPUIdentity then EntitiesImpacted event else entities)"

definition aggregate_event :: "health_event \<Rightarrow> string list \<Rightarrow> string list" where
  "aggregate_event event messages =
     (if \<not> IsHealthy event then addMessageIfNotExist messages event
      else if EntitiesImpacted event \<noteq> [] then
        (let entities = recoveryEntities event;
             kept = removeImpactedEntitiesMessagesScoped messages entities (ErrorCode event)
         in if EqualFold (ComponentClass event) ''GPU'' then removeLegacyGPUMessages kept entities (ErrorCode event) else kept)
      else [])"

definition aggregateEventMessages :: "string list \<Rightarrow> health_event list \<Rightarrow> string list" where
  "aggregateEventMessages messages events = fold aggregate_event events messages"

section \<open>Shortening\<close>

definition totalMessageLength :: "string list \<Rightarrow> nat" where
  "totalMessageLength messages = (\<Sum>msg \<leftarrow> messages. length msg) + (length messages - 1) + 1"

definition shortIdentityUUIDLen :: nat where "shortIdentityUUIDLen = 8"

definition shorten_token :: "string \<Rightarrow> string" where
  "shorten_token tok =
     (case CutPrefix tok ''GPU_UUID:'' of
        None \<Rightarrow> tok
      | Some val \<Rightarrow> if length val \<le> shortIdentityUUIDLen + length truncationSuffix then tok
          else ''GPU_UUID:'' @ take shortIdentityUUIDLen val @ truncationSuffix)"

definition shortenIdentityForSpace :: "string \<Rightarrow> string" where
  "shortenIdentityForSpace msg =
     (case LastIndex msg recommendedActionMarker of
        None \<Rightarrow> msg
      | Some raIdx \<Rightarrow>
          (let (identity, _) = splitIdentityAndDiagnostic (TrimRight (take raIdx msg) '' '');
               tokens = Fields identity
           in if tokens = [] then msg
              else
                let hasStableGPUIdentity = list_ex (\<lambda>tok. HasPrefix tok ''GPU:'' \<or> HasPrefix tok ''PCI:'') tokens;
                    tokens' = (if hasStableGPUIdentity then map shorten_token tokens else tokens);
                    shortened = join_with '' '' tokens' @ '' '' @ truncationSuffix @ '' '' @ drop raIdx msg
                in if length shortened \<ge> length msg then msg else shortened))"

definition truncateWithSuffix :: "string \<Rightarrow> int \<Rightarrow> string" where
  "truncateWithSuffix txt maxLen =
     (if maxLen \<le> int (length truncationSuffix) then truncationSuffix
      else if int (length txt) > maxLen - int (length truncationSuffix)
      then take (nat (maxLen - int (length truncationSuffix))) txt @ truncationSuffix
      else txt)"

definition compactMessagePrefix :: "string \<Rightarrow> string \<Rightarrow> int \<Rightarrow> string" where
  "compactMessagePrefix identityPrefix diagnosticText maxLen =
     (if identityPrefix = [] then truncateWithSuffix diagnosticText maxLen
      else if int (length identityPrefix) \<ge> maxLen then identityPrefix @ '' '' @ truncationSuffix
      else
        let available = maxLen - int (length identityPrefix) - 1 in
        if available \<le> 0 \<or> diagnosticText = [] then identityPrefix @ '' '' @ truncationSuffix
        else identityPrefix @ '' '' @ truncateWithSuffix diagnosticText available)"

definition compactMessageField :: "string \<Rightarrow> int \<Rightarrow> string" where
  "compactMessageField msg maxLen =
     (case LastIndex msg recommendedActionMarker of
        None \<Rightarrow> msg
      | Some raIdx \<Rightarrow>
          (let beforeRA = TrimRight (take raIdx msg) '' ''; raPart = drop raIdx msg in
           if int (length beforeRA) \<le> maxLen then msg
           else
             let (identityPrefix, diagnosticText) = splitIdentityAndDiagnostic beforeRA in
             compactMessagePrefix identityPrefix diagnosticText maxLen @ '' '' @ raPart))"

record K8sConnectorConfig =
  MaxNodeConditionMessageLength :: int
  CompactedHealthEventMsgLen :: int
  kc_MaxRetries :: int
  kc_MaxRetryDuration :: int

text \<open>The text written so far, and whether the loop was cut off; the separator goes before every entry but the first.\<close>

fun write_messages :: "int \<Rightarrow> string \<Rightarrow> string list \<Rightarrow> string \<Rightarrow> string \<times> bool" where
  "write_messages maxLen separator [] result = (result, False)"
| "write_messages maxLen separator (msg # rest) result =
     (if int (length result + length separator + length msg + 1) > maxLen then
        (let available = maxLen - int (length result) - int (length separator) - 1 - int (length truncationSuffix) in
         (if available > 0 then result @ separator @ take (nat available) msg else result, True))
      else write_messages maxLen '';'' rest (result @ separator @ msg))"

definition shrink_messages :: "K8sConnectorConfig \<Rightarrow> string list \<Rightarrow> string list" where
  "shrink_messages c messages =
     (let maxLen = MaxNodeConditionMessageLength c;
          compacted = (if int (totalMessageLength messages) > maxLen
            then map (\<lambda>msg. compactMessageField msg (CompactedHealthEventMsgLen c)) (deduplicateMessagesByIdentity messages) else messages)
      in if int (totalMessageLength compacted) > maxLen then map shortenIdentityForSpace compacted else compacted)"

definition truncateNodeConditionMessage :: "K8sConnectorConfig \<Rightarrow> string list \<Rightarrow> string" where
  "truncateNodeConditionMessage c messages =
     (let (result, truncated) = write_messages (MaxNodeConditionMessageLength c) [] (shrink_messages c messages) []
      in result @ '';'' @ (if truncated then truncationSuffix else []))"

end
