(* ===== verification/Message_Laws.thy ===== *)
theory Message_Laws
  imports Condition_Messages
begin

text \<open>
  Laws of the texts of node conditions: words and their separators, the place of the recommended action, and what
  shortening an entry keeps.
\<close>

section \<open>Words\<close>

definition word :: "string \<Rightarrow> bool" where
  "word t \<longleftrightarrow> t \<noteq> [] \<and> list_all (\<lambda>c. \<not> is_space c) t"

lemma pieces_ne [simp]: "pieces f s \<noteq> []"
  by (induction s) (auto split: list.splits)

lemma pieces_sound: "p \<in> set (pieces f s) \<Longrightarrow> list_all (\<lambda>c. \<not> f c) p"
proof (induction s arbitrary: p)
  case (Cons c s)
  obtain q qs where q: "pieces f s = q # qs" by (cases "pieces f s") auto
  with Cons show ?case by (cases "f c") auto
qed simp

lemma Fields_words: "list_all word (Fields s)"
  by (auto simp: Fields_def word_def list_all_iff dest: pieces_sound)

lemma pieces_append:
  "list_all (\<lambda>c. \<not> f c) t \<Longrightarrow> f d \<Longrightarrow> pieces f (t @ d # s) = t # pieces f s"
  by (induction t) auto

lemma pieces_plain: "list_all (\<lambda>c. \<not> f c) t \<Longrightarrow> pieces f t = [t]"
  by (induction t) auto

lemma Fields_Nil [simp]: "Fields [] = []"
  by (simp add: Fields_def)

lemma Fields_word: "word t \<Longrightarrow> Fields t = [t]"
  by (simp add: Fields_def word_def pieces_plain)

lemma Fields_Cons: "word t \<Longrightarrow> is_space d \<Longrightarrow> Fields (t @ d # s) = t # Fields s"
  by (simp add: Fields_def word_def pieces_append)

lemma Fields_space: "is_space d \<Longrightarrow> Fields (d # s) = Fields s"
  by (simp add: Fields_def)

lemma space_is_space [simp]: "is_space (CHR '' '')"
  by (simp add: is_space_def)

lemma pieces_app:
  "pieces f (s @ u) = butlast (pieces f s) @ (last (pieces f s) @ hd (pieces f u)) # tl (pieces f u)"
proof (induction s)
  case Nil
  show ?case by (simp add: hd_Cons_tl)
next
  case (Cons c s)
  obtain q qs where q: "pieces f s = q # qs" by (cases "pieces f s") auto
  show ?case
  proof (cases "f c")
    case True
    with Cons show ?thesis by simp
  next
    case False
    with Cons q show ?thesis by (cases qs) auto
  qed
qed

lemma Fields_app: "is_space d \<Longrightarrow> Fields (s @ d # u) = Fields s @ Fields u"
proof -
  assume d: "is_space d"
  have "pieces is_space (s @ d # u) = butlast (pieces is_space s) @ last (pieces is_space s) # pieces is_space u"
    using d by (simp add: pieces_app)
  also have "\<dots> = pieces is_space s @ pieces is_space u" by (metis append.assoc append_Cons append_Nil append_butlast_last_id pieces_ne)
  finally show ?thesis by (simp add: Fields_def)
qed

lemma Fields_spaces: "list_all is_space u \<Longrightarrow> Fields (s @ u) = Fields s"
proof (induction u arbitrary: s)
  case (Cons d u)
  then have d: "is_space d" and u: "list_all is_space u" by simp_all
  from Fields_app [OF d] Cons.IH [OF u, of "[]"] show ?case by simp
qed simp

lemma TrimRight_split: "\<exists>u. s = TrimRight s cutset @ u \<and> set u \<subseteq> set cutset"
proof (intro exI conjI)
  let ?u = "rev (takeWhile (\<lambda>c. c \<in> set cutset) (rev s))"
  show "s = TrimRight s cutset @ ?u" unfolding TrimRight_def by (metis rev_append rev_rev_ident takeWhile_dropWhile_id)
  show "set ?u \<subseteq> set cutset" by (auto dest: set_takeWhileD)
qed

lemma Fields_TrimRight [simp]: "Fields (TrimRight s '' '') = Fields s"
proof -
  obtain u where u: "s = TrimRight s '' '' @ u" "set u \<subseteq> set '' ''" using TrimRight_split by blast
  then have "list_all is_space u" by (auto simp: list_all_iff)
  from Fields_spaces [OF this] u(1) show ?thesis by metis
qed

lemma Fields_join: "list_all word ts \<Longrightarrow> Fields (join_with '' '' ts) = ts"
  by (induction "'' ''" ts rule: join_with.induct) (simp_all add: Fields_word Fields_Cons)

lemma join_append: "xs \<noteq> [] \<Longrightarrow> ys \<noteq> [] \<Longrightarrow> join_with sep (xs @ ys) = join_with sep xs @ sep @ join_with sep ys"
proof (induction sep xs rule: join_with.induct)
  case (2 sep x)
  then show ?case by (cases ys) simp_all
qed auto

lemma join_Nil_iff: "list_all (\<lambda>t. t \<noteq> []) ts \<Longrightarrow> join_with '' '' ts = [] \<longleftrightarrow> ts = []"
  by (induction "'' ''" ts rule: join_with.induct) auto

text \<open>The words of an identity, and the rest.\<close>

lemma split_identity:
  "splitIdentityAndDiagnostic s = (join_with '' '' (takeWhile identity_token (Fields s)), join_with '' '' (dropWhile identity_token (Fields s)))"
  by (simp add: splitIdentityAndDiagnostic_def Let_def)

lemma words_takeWhile: "list_all word (takeWhile P (Fields s))" and words_dropWhile: "list_all word (dropWhile P (Fields s))"
  using Fields_words [of s] by (auto simp: list_all_iff dest: set_takeWhileD set_dropWhileD)

section \<open>The place of the recommended action\<close>

lemma find_rev_upt:
  "List.find P (rev [0 ..< n]) = Some i \<longleftrightarrow> i < n \<and> P i \<and> (\<forall>j. i < j \<and> j < n \<longrightarrow> \<not> P j)"
proof (induction n)
  case (Suc n)
  then show ?case by (auto simp: less_Suc_eq)
qed simp

lemma find_rev_upt_None: "List.find P (rev [0 ..< n]) = None \<longleftrightarrow> (\<forall>j < n. \<not> P j)"
  by (auto simp: find_None_iff)

lemma LastIndex_Some:
  "LastIndex s sub = Some i \<longleftrightarrow> i \<le> length s \<and> prefix sub (drop i s) \<and> (\<forall>j. i < j \<and> j \<le> length s \<longrightarrow> \<not> prefix sub (drop j s))"
  unfolding LastIndex_def find_rev_upt by (simp add: less_Suc_eq_le)

text \<open>An entry ends with its action: the marker and what follows it.\<close>

definition action :: "string \<Rightarrow> bool" where
  "action ra \<longleftrightarrow> LastIndex ra recommendedActionMarker = Some 0"

lemma action_of: "LastIndex s recommendedActionMarker = Some i \<Longrightarrow> action (drop i s)"
  unfolding action_def LastIndex_Some
proof (intro conjI allI impI)
  fix j assume i: "i \<le> length s \<and> prefix recommendedActionMarker (drop i s) \<and>
      (\<forall>j. i < j \<and> j \<le> length s \<longrightarrow> \<not> prefix recommendedActionMarker (drop j s))" and "0 < j \<and> j \<le> length (drop i s)"
  then have "\<not> prefix recommendedActionMarker (drop (j + i) s)" by auto
  then show "\<not> prefix recommendedActionMarker (drop j (drop i s))" by simp
qed auto

lemma LastIndex_action: "action ra \<Longrightarrow> LastIndex (x @ ra) recommendedActionMarker = Some (length x)"
  unfolding action_def LastIndex_Some
proof (intro conjI allI impI)
  fix j assume ra: "0 \<le> length ra \<and> prefix recommendedActionMarker (drop 0 ra) \<and>
      (\<forall>j. 0 < j \<and> j \<le> length ra \<longrightarrow> \<not> prefix recommendedActionMarker (drop j ra))"
    and j: "length x < j \<and> j \<le> length (x @ ra)"
  then have "drop j (x @ ra) = drop (j - length x) ra" "0 < j - length x" "j - length x \<le> length ra" by auto
  with ra show "\<not> prefix recommendedActionMarker (drop j (x @ ra))" by simp
qed auto

text \<open>An entry is its words and its action.\<close>

definition entry :: "string \<Rightarrow> string \<Rightarrow> string \<Rightarrow> bool" where
  "entry msg before ra \<longleftrightarrow> msg = before @ ra \<and> action ra"

abbreviation identity_of :: "string \<Rightarrow> string list" where
  "identity_of before \<equiv> takeWhile identity_token (Fields before)"

abbreviation diagnostic_of :: "string \<Rightarrow> string list" where
  "diagnostic_of before \<equiv> dropWhile identity_token (Fields before)"

lemma entry_index [simp]: "entry msg before ra \<Longrightarrow> LastIndex msg recommendedActionMarker = Some (length before)"
  by (auto simp: entry_def LastIndex_action)

lemma entry_parts [simp]: "entry msg before ra \<Longrightarrow> take (length before) msg = before \<and> drop (length before) msg = ra"
  by (auto simp: entry_def)

lemma entry_ex: "(\<exists>before ra. entry msg before ra) \<longleftrightarrow> LastIndex msg recommendedActionMarker \<noteq> None"
proof
  assume "LastIndex msg recommendedActionMarker \<noteq> None"
  then obtain i where "LastIndex msg recommendedActionMarker = Some i" by blast
  then have "entry msg (take i msg) (drop i msg)" by (simp add: entry_def action_of)
  then show "\<exists>before ra. entry msg before ra" by blast
qed auto

lemma entry_identity:
  assumes "entry msg before ra"
  shows "extractMessageIdentity msg =
    (filter (\<lambda>t. HasPrefix t error_code_prefix) (identity_of before), filter (\<lambda>t. \<not> HasPrefix t error_code_prefix) (identity_of before),
     TrimRight ra '' '')"
  using assms by (simp add: extractMessageIdentity_def split_identity Fields_join words_takeWhile Let_def)

section \<open>What shortening keeps\<close>

text \<open>Words that are no part of an identity, also when they are cut.\<close>

definition loose :: "string \<Rightarrow> bool" where
  "loose t \<longleftrightarrow> \<not> identity_token t \<and> last t \<noteq> CHR '':''"

definition loose_text :: "string list \<Rightarrow> bool" where
  "loose_text ts \<longleftrightarrow> (case ts of [] \<Rightarrow> True | t # _ \<Rightarrow> loose t)"

lemma find_upt_Some: "List.find P [0 ..< n] = Some i \<longleftrightarrow> i < n \<and> P i \<and> (\<forall>j < i. \<not> P j)"
  by (auto simp: find_Some_iff)

lemma Index_colon: "Index t '':'' = Some i \<longleftrightarrow> i < length t \<and> t ! i = CHR '':'' \<and> (\<forall>j < i. t ! j \<noteq> CHR '':'')"
proof -
  have "prefix '':'' (drop j t) \<longleftrightarrow> j < length t \<and> t ! j = CHR '':''" for j
    by (cases "drop j t") (auto simp: drop_eq_Nil hd_drop_conv_nth [symmetric] not_le [symmetric], (metis drop_eq_Nil list.distinct(1) list.sel(1) hd_drop_conv_nth not_le)+)
  then show ?thesis unfolding Index_def find_upt_Some by auto
qed

lemma cut_loose:
  assumes "loose t"
  shows "loose (take j t @ truncationSuffix)"
proof -
  let ?x = "take j t @ truncationSuffix"
  have nt: "\<not> HasPrefix t error_code_prefix" "\<not> isStructuredEntityToken t" "last t \<noteq> CHR '':''"
    using assms by (auto simp: loose_def identity_token_def)
  have "\<not> HasPrefix ?x error_code_prefix"
  proof
    assume px: "HasPrefix ?x error_code_prefix"
    show False
    proof (cases "length error_code_prefix \<le> length (take j t)")
      case True
      with px have "prefix error_code_prefix (take j t)" unfolding HasPrefix_def by (metis prefix_length_prefix prefixI)
      then have "prefix error_code_prefix t" by (metis prefix_order.trans take_is_prefix)
      with nt(1) show False by (simp add: HasPrefix_def)
    next
      case False
      from px obtain zs where "?x = error_code_prefix @ zs" by (auto simp: HasPrefix_def prefix_def)
      with False have "error_code_prefix ! length (take j t) = ?x ! length (take j t)" by (metis not_le nth_append)
      also have "\<dots> = CHR ''.''" by (simp add: truncationSuffix_def nth_append)
      finally have "CHR ''.'' \<in> set error_code_prefix" using False by (metis not_le nth_mem)
      then show False by (simp add: error_code_prefix_def)
    qed
  qed
  moreover have "\<not> isStructuredEntityToken ?x"
  proof
    assume "isStructuredEntityToken ?x"
    then obtain i where i: "Index ?x '':'' = Some i" "i > 0" by (auto simp: isStructuredEntityToken_def split: option.splits)
    have "i < length (take j t)"
    proof (rule ccontr)
      assume out: "\<not> i < length (take j t)"
      have "i < length ?x" using i(1) unfolding Index_colon by blast
      then have "i - length (take j t) < length truncationSuffix" using out unfolding length_append by linarith
      moreover have "?x ! i = truncationSuffix ! (i - length (take j t))" using out by (simp only: nth_append if_False)
      ultimately have "?x ! i \<in> set truncationSuffix" by (simp only: nth_mem)
      then show False using i(1) unfolding Index_colon by (auto simp: truncationSuffix_def)
    qed
    moreover from this have "\<forall>k \<le> i. ?x ! k = t ! k" by (auto simp: nth_append)
    ultimately have at: "Index t '':'' = Some i" using i(1) unfolding Index_colon by auto
    then have "\<not> i + 1 < length t" using nt(1,2) i(2) by (simp add: isStructuredEntityToken_def)
    moreover have "i < length t" "t ! i = CHR '':''" using at by (auto simp: Index_colon)
    ultimately have "i = length t - 1" "t \<noteq> []" "t ! i = CHR '':''" by auto
    then show False using nt(3) by (simp add: last_conv_nth)
  qed
  moreover have "last ?x \<noteq> CHR '':''" by (simp add: truncationSuffix_def)
  ultimately show ?thesis by (simp add: loose_def identity_token_def)
qed

lemma suffix_loose: "loose truncationSuffix"
  by code_simp

lemma suffix_word: "word truncationSuffix"
  by code_simp

text \<open>Cutting a text keeps its first word loose.\<close>

lemma truncated_loose:
  assumes words: "list_all word ts" and loose: "loose_text ts"
  shows "loose_text (Fields (truncateWithSuffix (join_with '' '' ts) n))"
proof (cases "n \<le> int (length truncationSuffix)")
  case True
  then show ?thesis by (simp add: truncateWithSuffix_def Fields_word suffix_word suffix_loose loose_text_def)
next
  case False
  note room = False
  show ?thesis
  proof (cases ts)
    case Nil
    with False show ?thesis by (simp add: truncateWithSuffix_def loose_text_def truncationSuffix_def)
  next
    case (Cons t rest)
    define rest' where "rest' = (if rest = [] then [] else '' '' @ join_with '' '' rest)"
    have all: "join_with '' '' ts = t @ rest'" unfolding Cons rest'_def by (cases rest) simp_all
    have t: "word t" "loose t" using words loose Cons by (simp_all add: loose_text_def)
    have whole: "loose_text (Fields (t @ u))" if "u = [] \<or> (\<exists>d v. u = d # v \<and> is_space d)" for u
      using that t by (auto simp: Fields_word Fields_Cons loose_text_def)
    show ?thesis
    proof (cases "int (length (t @ rest')) > n - int (length truncationSuffix)")
      case False
      with room all show ?thesis
        using whole [of rest'] by (auto simp: truncateWithSuffix_def rest'_def)
    next
      case True
      let ?k = "nat (n - int (length truncationSuffix))"
      have cut: "truncateWithSuffix (join_with '' '' ts) n = take ?k (t @ rest') @ truncationSuffix"
        using True room all by (simp add: truncateWithSuffix_def)
      show ?thesis
      proof (cases "?k \<le> length t")
        case True
        then have eq: "take ?k (t @ rest') @ truncationSuffix = take ?k t @ truncationSuffix" by simp
        have "word (take ?k t @ truncationSuffix)"
          using t(1) suffix_word by (auto simp: word_def list_all_iff dest: in_set_takeD)
        then show ?thesis using cut_loose [OF t(2), of ?k] unfolding cut eq by (simp add: Fields_word loose_text_def)
      next
        case False
        then have "take ?k (t @ rest') = t @ take (?k - length t) rest'" by simp
        moreover have "\<exists>d v. take (?k - length t) rest' = d # v \<and> is_space d"
          using False True unfolding rest'_def by (cases "?k - length t") auto
        ultimately obtain d v where "take ?k (t @ rest') = t @ d # v" "is_space d" by auto
        then show ?thesis unfolding cut using whole [of "(d # v) @ truncationSuffix"] by simp
      qed
    qed
  qed
qed

text \<open>Compaction keeps the identity; shortening cuts unique ids.\<close>

lemma loose_takeWhile: "loose_text ts \<Longrightarrow> takeWhile identity_token ts = [] \<and> dropWhile identity_token ts = ts"
  by (cases ts) (simp_all add: loose_text_def loose_def)

lemma identity_prefix: "list_all identity_token is \<Longrightarrow>
    takeWhile identity_token (is @ ds) = is @ takeWhile identity_token ds \<and> dropWhile identity_token (is @ ds) = dropWhile identity_token ds"
  by (induction "is") simp_all

lemma identity_append: "list_all identity_token is \<Longrightarrow> loose_text ds \<Longrightarrow>
    takeWhile identity_token (is @ ds) = is \<and> dropWhile identity_token (is @ ds) = ds"
  using identity_prefix [of "is" ds] loose_takeWhile [of ds] by simp

lemma takeWhile_identity: "list_all identity_token (identity_of s)"
  by (auto simp: list_all_iff dest: set_takeWhileD)

lemma compact_prefix_words:
  assumes ids: "list_all word is" and ds: "list_all word ds"
  shows "\<exists>ds'. Fields (compactMessagePrefix (join_with '' '' is) (join_with '' '' ds) n) = is @ ds' \<and> (loose_text ds \<longrightarrow> loose_text ds') \<and>
    (is \<noteq> [] \<longrightarrow> (\<exists>u. compactMessagePrefix (join_with '' '' is) (join_with '' '' ds) n = join_with '' '' is @ '' '' @ u))"
proof (cases "is = []")
  case True
  then show ?thesis using truncated_loose [OF ds, of n] by (simp add: compactMessagePrefix_def)
next
  case False
  have ne: "join_with '' '' is \<noteq> []" using join_Nil_iff [of "is"] ids False by (auto simp: word_def list_all_iff)
  have app: "Fields (join_with '' '' is @ '' '' @ u) = is @ Fields u" for u using Fields_app [of "CHR '' ''"] Fields_join [OF ids] by simp
  have "loose_text (Fields truncationSuffix)" by (simp add: Fields_word suffix_word suffix_loose loose_text_def)
  then show ?thesis
    using ne app truncated_loose [OF ds] unfolding compactMessagePrefix_def Let_def by (auto simp: app simp del: append_Cons append.simps)
qed

lemma compact_entry:
  assumes e: "entry msg before ra"
  shows "\<exists>before' more. entry (compactMessageField msg k) before' ra \<and> identity_of before' = identity_of before @ more \<and>
    (loose_text (diagnostic_of before) \<longrightarrow> more = [] \<and> loose_text (diagnostic_of before')) \<and>
    (compactMessageField msg k = msg \<or> identity_of before = [] \<or> (\<exists>u. compactMessageField msg k = join_with '' '' (identity_of before) @ '' '' @ u))"
proof (cases "int (length (TrimRight before '' '')) \<le> k")
  case True
  with e have "compactMessageField msg k = msg" by (simp add: compactMessageField_def)
  with e show ?thesis by (intro exI [of _ before] exI [of _ "[]"]) simp
next
  case False
  let ?p = "compactMessagePrefix (join_with '' '' (identity_of before)) (join_with '' '' (diagnostic_of before)) k"
  from e False have m: "compactMessageField msg k = ?p @ '' '' @ ra" by (simp add: compactMessageField_def split_identity)
  obtain ds' where ds: "Fields ?p = identity_of before @ ds'" "loose_text (diagnostic_of before) \<longrightarrow> loose_text ds'"
    "identity_of before \<noteq> [] \<longrightarrow> (\<exists>u. ?p = join_with '' '' (identity_of before) @ '' '' @ u)"
    using compact_prefix_words [OF words_takeWhile words_dropWhile, where n = k] by blast
  have "Fields (?p @ '' '') = identity_of before @ ds'" using Fields_app [of "CHR '' ''" ?p "[]"] ds(1) by simp
  with identity_prefix [OF takeWhile_identity [of before], of ds']
  have fields: "identity_of (?p @ '' '') = identity_of before @ takeWhile identity_token ds'" "diagnostic_of (?p @ '' '') = dropWhile identity_token ds'"
    by simp_all
  have "entry (compactMessageField msg k) (?p @ '' '') ra" using e unfolding m by (simp add: entry_def)
  moreover have "identity_of before = [] \<or> (\<exists>u. compactMessageField msg k = join_with '' '' (identity_of before) @ '' '' @ u)"
    using ds(3) unfolding m by auto
  moreover have "loose_text (diagnostic_of before) \<longrightarrow> takeWhile identity_token ds' = [] \<and> loose_text (dropWhile identity_token ds')"
    using ds(2) loose_takeWhile [of ds'] by simp
  ultimately show ?thesis using fields by (intro exI [of _ "?p @ '' ''"] exI [of _ "takeWhile identity_token ds'"]) simp
qed

text \<open>A shortened word keeps the place of a unique id.\<close>

lemma shorten_cases:
  obtains "shorten_token t = t"
  | v where "t = ''GPU_UUID:'' @ v" "length v > 11" "shorten_token t = ''GPU_UUID:'' @ take 8 v @ ''...''"
proof (cases "CutPrefix t ''GPU_UUID:''")
  case None
  then show ?thesis by (intro that(1)) (simp add: shorten_token_def)
next
  case (Some v)
  then have t: "t = ''GPU_UUID:'' @ v" by (auto simp: CutPrefix_def HasPrefix_def prefix_def split: if_splits)
  show ?thesis
  proof (cases "length v \<le> 11")
    case True
    with Some show ?thesis by (intro that(1)) (simp add: shorten_token_def shortIdentityUUIDLen_def truncationSuffix_def)
  next
    case False
    with Some t show ?thesis by (intro that(2) [of v]) (simp_all add: shorten_token_def shortIdentityUUIDLen_def truncationSuffix_def)
  qed
qed

lemma shorten_twice [simp]: "shorten_token (shorten_token t) = shorten_token t"
  by (cases t rule: shorten_cases) (simp_all add: shorten_token_def CutPrefix_def HasPrefix_def shortIdentityUUIDLen_def truncationSuffix_def)

lemma uuid_not_code: "\<not> HasPrefix (''GPU_UUID:'' @ v) error_code_prefix"
  by (simp add: HasPrefix_def error_code_prefix_def)

lemma uuid_structured: "v \<noteq> [] \<Longrightarrow> isStructuredEntityToken (''GPU_UUID:'' @ v)"
proof -
  assume v: "v \<noteq> []"
  have "Index (''GPU_UUID:'' @ v) '':'' = Some 8" 
  proof -
    have "(''GPU_UUID:'' @ v) ! 8 = CHR '':''" by (simp add: nth_append)
    moreover have "(''GPU_UUID:'' @ v) ! j \<noteq> CHR '':''" if "j < 8" for j
    proof -
      from that have "j \<in> {0, 1, 2, 3, 4, 5, 6, 7}" by auto
      then show ?thesis by (auto simp: nth_append)
    qed
    ultimately show ?thesis unfolding Index_colon by simp
  qed
  then show ?thesis using v uuid_not_code [of v] by (simp add: isStructuredEntityToken_def)
qed

lemma shorten_identity: "identity_token t \<Longrightarrow> identity_token (shorten_token t)"
  by (cases t rule: shorten_cases) (auto simp: identity_token_def intro: uuid_structured [of "take 8 _ @ ''...''", simplified])

lemma shorten_code: "HasPrefix (shorten_token t) error_code_prefix \<longleftrightarrow> HasPrefix t error_code_prefix"
proof (cases t rule: shorten_cases)
  case (2 v)
  then show ?thesis using uuid_not_code [of v] uuid_not_code [of "take 8 v @ ''...''"] by simp
qed simp

lemma shorten_word: "word t \<Longrightarrow> word (shorten_token t)"
  by (cases t rule: shorten_cases) (auto simp: word_def is_space_def dest: in_set_takeD simp: list_all_iff)

lemma shorten_entry:
  assumes e: "entry msg before ra"
  shows "\<exists>before'. entry (shortenIdentityForSpace msg) before' ra \<and> (loose_text (diagnostic_of before) \<longrightarrow> loose_text (diagnostic_of before')) \<and>
    (identity_of before' = identity_of before \<or> identity_of before' = map shorten_token (identity_of before)) \<and>
    (shortenIdentityForSpace msg = msg \<or> (\<exists>u. shortenIdentityForSpace msg = join_with '' '' (identity_of before') @ '' '' @ u))"
proof (cases "shortenIdentityForSpace msg = msg")
  case True
  with e show ?thesis by (intro exI [of _ before]) simp
next
  case False
  let ?ids = "identity_of before"
  define ts where "ts = (if list_ex (\<lambda>tok. HasPrefix tok ''GPU:'' \<or> HasPrefix tok ''PCI:'') ?ids then map shorten_token ?ids else ?ids)"
  have words: "list_all word ts" using words_takeWhile [of identity_token before] shorten_word by (auto simp: ts_def list_all_iff)
  have ids: "list_all identity_token ts" using takeWhile_identity [of before] shorten_identity by (auto simp: ts_def list_all_iff)
  have m: "shortenIdentityForSpace msg = (join_with '' '' ts @ '' '' @ truncationSuffix @ '' '') @ ra"
    using False e by (auto simp: shortenIdentityForSpace_def split_identity Fields_join words_takeWhile Let_def ts_def split: if_splits)
  have "Fields (join_with '' '' ts @ '' '' @ truncationSuffix @ '' '') = ts @ [truncationSuffix]"
    using Fields_app [of "CHR '' ''" "join_with '' '' ts" "truncationSuffix @ '' ''"] Fields_app [of "CHR '' ''" truncationSuffix "[]"]
    by (simp add: Fields_join words Fields_word suffix_word)
  with identity_append [OF ids, of "[truncationSuffix]"] have
    "identity_of (join_with '' '' ts @ '' '' @ truncationSuffix @ '' '') = ts"
    "diagnostic_of (join_with '' '' ts @ '' '' @ truncationSuffix @ '' '') = [truncationSuffix]"
    by (simp_all add: loose_text_def suffix_loose)
  moreover have "entry (shortenIdentityForSpace msg) (join_with '' '' ts @ '' '' @ truncationSuffix @ '' '') ra"
    using e unfolding m by (simp add: entry_def)
  moreover have "ts = ?ids \<or> ts = map shorten_token ?ids" by (simp add: ts_def)
  ultimately show ?thesis
    by (intro exI [of _ "join_with '' '' ts @ '' '' @ truncationSuffix @ '' ''"]) (auto simp: m loose_text_def suffix_loose)
qed

lemma Contains_iff: "Contains s sub \<longleftrightarrow> (\<exists>a b. s = a @ sub @ b)"
proof
  assume "Contains s sub"
  then obtain i where "prefix sub (drop i s)" by (auto simp: Contains_def list_ex_iff)
  then obtain b where "drop i s = sub @ b" by (auto simp: prefix_def)
  then show "\<exists>a b. s = a @ sub @ b" by (metis append_take_drop_id)
next
  assume "\<exists>a b. s = a @ sub @ b"
  then obtain a b where s: "s = a @ sub @ b" by blast
  then have "prefix sub (drop (length a) s)" "length a \<in> set [0 ..< Suc (length s)]" by auto
  then show "Contains s sub" unfolding Contains_def list_ex_iff by blast
qed

lemma join_contains: "t \<in> set ts \<Longrightarrow> Contains (join_with '' '' ts @ '' '' @ u) (t @ '' '')"
proof (induction "'' ''" ts rule: join_with.induct)
  case (3 x y ys)
  show ?case
  proof (cases "t = x")
    case True
    then show ?thesis unfolding Contains_iff by (intro exI [of _ "[]"] exI [of _ "join_with '' '' (y # ys) @ '' '' @ u"]) simp
  next
    case False
    with 3 obtain a b where "join_with '' '' (y # ys) @ '' '' @ u = a @ (t @ '' '') @ b" unfolding Contains_iff by auto
    then show ?thesis unfolding Contains_iff by (intro exI [of _ "x @ '' '' @ a"] exI [of _ b]) simp
  qed
qed (auto simp: Contains_iff)

section \<open>Rewritten entries\<close>

text \<open>What an entry becomes while the text of its condition is written again and again.\<close>

inductive rewritten :: "K8sConnectorConfig \<Rightarrow> string \<Rightarrow> string \<Rightarrow> bool" for c msg where
  same: "rewritten c msg msg"
| compacted: "rewritten c msg m \<Longrightarrow> rewritten c msg (compactMessageField m (CompactedHealthEventMsgLen c))"
| shortened: "rewritten c msg m \<Longrightarrow> rewritten c msg (shortenIdentityForSpace m)"

lemma rewritten_entry:
  assumes "rewritten c msg m" and e: "entry msg before ra" and loose: "loose_text (diagnostic_of before)"
  shows "\<exists>before'. entry m before' ra \<and> loose_text (diagnostic_of before') \<and>
    (identity_of before' = identity_of before \<or> identity_of before' = map shorten_token (identity_of before))"
  using assms(1)
proof induction
  case same
  with e loose show ?case by blast
next
  case (compacted m)
  then obtain b where b: "entry m b ra" "loose_text (diagnostic_of b)"
    "identity_of b = identity_of before \<or> identity_of b = map shorten_token (identity_of before)" by (elim exE conjE) (rule that)
  from compact_entry [OF b(1), of "CompactedHealthEventMsgLen c"] obtain b' more where
    "entry (compactMessageField m (CompactedHealthEventMsgLen c)) b' ra" "identity_of b' = identity_of b @ more"
    "loose_text (diagnostic_of b) \<longrightarrow> more = [] \<and> loose_text (diagnostic_of b')" by (elim exE conjE) (rule that)
  with b(2,3) show ?case by (intro exI [of _ b']) auto
next
  case (shortened m)
  then obtain b where b: "entry m b ra" "loose_text (diagnostic_of b)"
    "identity_of b = identity_of before \<or> identity_of b = map shorten_token (identity_of before)" by (elim exE conjE) (rule that)
  from shorten_entry [OF b(1)] obtain b' where "entry (shortenIdentityForSpace m) b' ra" "loose_text (diagnostic_of b) \<longrightarrow> loose_text (diagnostic_of b')"
    "identity_of b' = identity_of b \<or> identity_of b' = map shorten_token (identity_of b)" by (elim exE conjE) (rule that)
  with b(2,3) show ?case by (intro exI [of _ b']) auto
qed

text \<open>Whatever its free text is, a rewritten entry shows the words of the identity, unique ids at least by their start.\<close>

definition shows_word :: "string \<Rightarrow> string \<Rightarrow> string \<Rightarrow> bool" where
  "shows_word m before t \<longleftrightarrow> (\<exists>t'. (t' = t \<or> t' = shorten_token t) \<and> t' \<in> set (identity_of before) \<and> Contains m (t' @ '' ''))"

lemma compact_shows:
  assumes e: "entry m b ra"
  shows "\<exists>b'. entry (compactMessageField m k) b' ra \<and> (\<forall>t. shows_word m b t \<longrightarrow> shows_word (compactMessageField m k) b' t)"
proof -
  obtain b' more where b': "entry (compactMessageField m k) b' ra" "identity_of b' = identity_of b @ more"
    "compactMessageField m k = m \<or> identity_of b = [] \<or> (\<exists>u. compactMessageField m k = join_with '' '' (identity_of b) @ '' '' @ u)"
    using compact_entry [OF e, of k] by (elim exE conjE) (rule that)
  have "shows_word (compactMessageField m k) b' t" if w: "shows_word m b t" for t
  proof -
    from w obtain t' where t': "t' = t \<or> t' = shorten_token t" "t' \<in> set (identity_of b)" "Contains m (t' @ '' '')" unfolding shows_word_def by blast
    then have "Contains (compactMessageField m k) (t' @ '' '')" using b'(3) join_contains by fastforce
    with t'(1,2) b'(2) show ?thesis unfolding shows_word_def by (intro exI [of _ t']) simp
  qed
  with b'(1) show ?thesis by blast
qed

lemma shorten_shows:
  assumes e: "entry m b ra"
  shows "\<exists>b'. entry (shortenIdentityForSpace m) b' ra \<and> (\<forall>t. shows_word m b t \<longrightarrow> shows_word (shortenIdentityForSpace m) b' t)"
proof (cases "shortenIdentityForSpace m = m")
  case False
  obtain b' where b': "entry (shortenIdentityForSpace m) b' ra"
    "identity_of b' = identity_of b \<or> identity_of b' = map shorten_token (identity_of b)"
    "shortenIdentityForSpace m = m \<or> (\<exists>u. shortenIdentityForSpace m = join_with '' '' (identity_of b') @ '' '' @ u)"
    using shorten_entry [OF e] by (elim exE conjE) (rule that)
  then obtain u where u: "shortenIdentityForSpace m = join_with '' '' (identity_of b') @ '' '' @ u" using False by blast
  have "shows_word (shortenIdentityForSpace m) b' t" if w: "shows_word m b t" for t
  proof -
    from w obtain t' where t': "t' = t \<or> t' = shorten_token t" "t' \<in> set (identity_of b)" unfolding shows_word_def by blast
    then have "t' \<in> set (identity_of b') \<or> shorten_token t' \<in> set (identity_of b')" using b'(2) by (metis image_eqI set_map)
    then obtain t'' where "t'' = t \<or> t'' = shorten_token t" "t'' \<in> set (identity_of b')" using t'(1) shorten_twice by metis
    then show ?thesis unfolding shows_word_def u using join_contains by blast
  qed
  with b'(1) show ?thesis by blast
qed (use e in auto)

lemma rewritten_shows_words:
  assumes "rewritten c msg m" and e: "entry msg before ra"
  shows "\<exists>b. entry m b ra \<and> (\<forall>t. shows_word msg before t \<longrightarrow> shows_word m b t)"
  using assms(1)
proof induction
  case (compacted m)
  then obtain b where "entry m b ra" "\<forall>t. shows_word msg before t \<longrightarrow> shows_word m b t" by blast
  with compact_shows [of m b ra "CompactedHealthEventMsgLen c"] show ?case by blast
next
  case (shortened m)
  then obtain b where "entry m b ra" "\<forall>t. shows_word msg before t \<longrightarrow> shows_word m b t" by blast
  with shorten_shows [of m b ra] show ?case by blast
qed (use e in blast)

text \<open>Unique ids are longer than what a shortened one keeps.\<close>

definition long_uuid :: "string \<Rightarrow> bool" where
  "long_uuid t \<longleftrightarrow> (case CutPrefix t ''GPU_UUID:'' of None \<Rightarrow> True | Some v \<Rightarrow> length v > 11)"

lemma prefix_below: "\<not> prefix p y \<Longrightarrow> p @ v \<le> y \<Longrightarrow> p @ w \<le> y" for y :: string
  by (induction p arbitrary: y) (auto simp: prefix_def, (case_tac y, auto)+)

lemma prefix_above: "\<not> prefix p y \<Longrightarrow> y \<le> p @ v \<Longrightarrow> y \<le> p @ w" for y :: string
  by (induction p arbitrary: y) (auto simp: prefix_def, (case_tac y, auto)+)

lemma take_mono: "x \<le> y \<Longrightarrow> take n x \<le> take n y" for x y :: string
proof (induction n arbitrary: x y)
  case (Suc n)
  show ?case
  proof (cases x)
    case (Cons a x')
    with Suc show ?thesis by (cases y) auto
  qed simp
qed simp

lemma append_mono: "length x = length y \<Longrightarrow> x \<le> y \<Longrightarrow> x @ z \<le> y @ z" for x y z :: string
  by (induction x y rule: list_induct2) auto

lemma append_left: "x \<le> y \<Longrightarrow> p @ x \<le> p @ y" and append_left_D: "p @ x \<le> p @ y \<Longrightarrow> x \<le> y" for x y p :: string
  by (induction p) auto

lemma shorten_long: "long_uuid (''GPU_UUID:'' @ v) \<Longrightarrow> shorten_token (''GPU_UUID:'' @ v) = ''GPU_UUID:'' @ take 8 v @ ''...'' \<and> length v > 11"
  by (simp add: long_uuid_def shorten_token_def CutPrefix_def HasPrefix_def shortIdentityUUIDLen_def truncationSuffix_def)

lemma shorten_other: "\<not> prefix ''GPU_UUID:'' t \<Longrightarrow> shorten_token t = t"
  by (simp add: shorten_token_def CutPrefix_def HasPrefix_def)

lemma shorten_mono:
  assumes le: "x \<le> y" and long: "long_uuid x" "long_uuid y"
  shows "shorten_token x \<le> shorten_token y"
proof (cases "prefix ''GPU_UUID:'' x")
  case True
  then obtain v where x: "x = ''GPU_UUID:'' @ v" by (auto simp: prefix_def)
  show ?thesis
  proof (cases "prefix ''GPU_UUID:'' y")
    case True
    then obtain u where y: "y = ''GPU_UUID:'' @ u" by (auto simp: prefix_def)
    have vu: "v \<le> u" using le unfolding x y by (rule append_left_D)
    have len: "length (take 8 v) = length (take 8 u)" using shorten_long [OF long(1) [unfolded x]] shorten_long [OF long(2) [unfolded y]] by simp
    have "take 8 v @ ''...'' \<le> take 8 u @ ''...''" by (rule append_mono [OF len take_mono [OF vu]])
    then show ?thesis using shorten_long [OF long(1) [unfolded x]] shorten_long [OF long(2) [unfolded y]] unfolding x y
      by (simp only: append_left)
  next
    case False
    then show ?thesis using prefix_below [OF False le [unfolded x], of "take 8 v @ ''...''"] shorten_long [OF long(1) [unfolded x]] shorten_other [OF False]
      unfolding x by simp
  qed
next
  case False
  show ?thesis
  proof (cases "prefix ''GPU_UUID:'' y")
    case True
    then obtain u where y: "y = ''GPU_UUID:'' @ u" by (auto simp: prefix_def)
    show ?thesis using prefix_above [OF False le [unfolded y], of "take 8 u @ ''...''"] shorten_long [OF long(2) [unfolded y]] shorten_other [OF False]
      unfolding y by simp
  qed (use False le shorten_other in simp)
qed

lemma sort_shortened:
  assumes "list_all long_uuid xs"
  shows "sort (map shorten_token xs) = map shorten_token (sort xs)"
proof (rule properties_for_sort)
  show "mset (map shorten_token (sort xs)) = mset (map shorten_token xs)" by simp
  have "sorted_wrt (\<lambda>x y. shorten_token x \<le> shorten_token y) (sort xs)"
    by (rule sorted_wrt_mono_rel [OF _ sorted_sort [of xs]]) (use assms in \<open>auto simp: list_all_iff intro: shorten_mono\<close>)
  then show "sorted (map shorten_token (sort xs))" by (simp add: sorted_map)
qed

lemma same_shortened: "sameEntity (shorten_token t) t"
proof (cases t rule: shorten_cases)
  case (2 v)
  then have "CutSuffix (shorten_token t) truncationSuffix = Some (''GPU_UUID:'' @ take 8 v)"
    by (simp add: CutSuffix_def HasSuffix_def truncationSuffix_def suffix_def)
  moreover have "HasPrefix t (''GPU_UUID:'' @ take 8 v)" using 2(1) by (simp add: HasPrefix_def take_is_prefix)
  ultimately show ?thesis by (simp add: sameEntity_def)
qed (simp add: sameEntity_def)

lemma filter_shortened:
  "filter (\<lambda>t. HasPrefix t error_code_prefix) (map shorten_token ts) = filter (\<lambda>t. HasPrefix t error_code_prefix) ts"
  "filter (\<lambda>t. \<not> HasPrefix t error_code_prefix) (map shorten_token ts) = map shorten_token (filter (\<lambda>t. \<not> HasPrefix t error_code_prefix) ts)"
proof -
  have code: "HasPrefix t error_code_prefix \<Longrightarrow> shorten_token t = t" for t
    by (cases t rule: shorten_cases) (auto simp: HasPrefix_def error_code_prefix_def)
  show "filter (\<lambda>t. HasPrefix t error_code_prefix) (map shorten_token ts) = filter (\<lambda>t. HasPrefix t error_code_prefix) ts"
    by (induction ts) (simp_all add: shorten_code code)
  show "filter (\<lambda>t. \<not> HasPrefix t error_code_prefix) (map shorten_token ts) = map shorten_token (filter (\<lambda>t. \<not> HasPrefix t error_code_prefix) ts)"
    by (induction ts) (simp_all add: shorten_code)
qed

lemma rewritten_recognised:
  assumes "rewritten c msg m" and e: "entry msg before ra" and "loose_text (diagnostic_of before)"
    and long: "list_all long_uuid (identity_of before)"
  shows "messagesMatchByIdentity m msg"
proof -
  from rewritten_entry [OF assms(1-3)] obtain b where b: "entry m b ra"
    "identity_of b = identity_of before \<or> identity_of b = map shorten_token (identity_of before)" by blast
  let ?ents = "filter (\<lambda>t. \<not> HasPrefix t error_code_prefix) (identity_of before)"
  have same: "list_all2 sameEntity xs xs" for xs by (simp add: sameEntity_def list.rel_refl)
  have "list_all2 sameEntity (map shorten_token ys) ys" for ys by (induction ys) (simp_all add: same_shortened)
  moreover have "sort (map shorten_token ?ents) = map shorten_token (sort ?ents)"
    by (rule sort_shortened) (use long in \<open>simp add: list_all_iff\<close>)
  ultimately show ?thesis
    using b(2) by (auto simp: messagesMatchByIdentity_def entry_identity [OF e] entry_identity [OF b(1)] filter_shortened same)
qed

section \<open>The entry of a fault\<close>

definition fault_words :: "health_event \<Rightarrow> string list" where
  "fault_words f = map (\<lambda>code. error_code_prefix @ code) (ErrorCode f) @ map entity_token (EntitiesImpacted f)"

definition fault_text :: "health_event \<Rightarrow> string" where
  "fault_text f = map (\<lambda>c. if c = CHR '';'' then CHR ''.'' else c) (Message f)"

definition fault_entry :: "health_event \<Rightarrow> string" where
  "fault_entry f = butlast (constructHealthEventMessage f)"

definition before_action :: "health_event \<Rightarrow> string" where
  "before_action f = concat (map (\<lambda>t. t @ '' '') (fault_words f)) @ (if Message f \<noteq> [] then fault_text f @ '' '' else [])"

text \<open>Codes and entities are words, and entity types have no colon.\<close>

definition plain_entity :: "entity \<Rightarrow> bool" where
  "plain_entity en \<longleftrightarrow> word (EntityType en) \<and> word (EntityValue en) \<and> CHR '':'' \<notin> set (EntityType en)"

definition plain_fault :: "health_event \<Rightarrow> bool" where
  "plain_fault f \<longleftrightarrow> list_all (list_all (\<lambda>c. \<not> is_space c)) (ErrorCode f) \<and> list_all plain_entity (EntitiesImpacted f)"

lemma fault_message: "constructHealthEventMessage f = fault_entry f @ '';''"
  and fault_entry_split: "fault_entry f = before_action f @ recommendedActionMarker @ recommended_action_name (RecommendedAction f)"
proof -
  have c: "constructHealthEventMessage f = (before_action f @ recommendedActionMarker @ recommended_action_name (RecommendedAction f)) @ '';''"
    by (simp add: constructHealthEventMessage_def before_action_def fault_words_def fault_text_def comp_def)
  then show split: "fault_entry f = before_action f @ recommendedActionMarker @ recommended_action_name (RecommendedAction f)"
    unfolding fault_entry_def c by (simp add: butlast_append)
  show "constructHealthEventMessage f = fault_entry f @ '';''" unfolding split c ..
qed

lemma digits_only: "CHR ''e'' \<notin> set (fmt_nat n)"
proof (induction n rule: fmt_nat.induct)
  case (1 n)
  have "k < 10 \<Longrightarrow> digit_char k \<noteq> CHR ''e''" for k by (simp add: digit_char_def char_of_eq_iff take_bit_eq_mod)
  from this [of n] this [of "n mod 10"] 1 show ?case by (subst fmt_nat.simps) (auto simp del: One_nat_def)
qed

lemma action_name_letters: "CHR ''e'' \<notin> set (recommended_action_name a)"
  by (cases a) (simp_all add: fmt_int_def digits_only)

lemma marker_letters:
  "length recommendedActionMarker = 19" "recommendedActionMarker ! 0 = CHR ''R''" "recommendedActionMarker ! 1 = CHR ''e''"
  "j \<in> {1 ..< 19} \<Longrightarrow> recommendedActionMarker ! j \<noteq> CHR ''R''"
proof -
  have "\<forall>j \<in> set [1 ..< 19]. recommendedActionMarker ! j \<noteq> CHR ''R''" by code_simp
  then show "j \<in> {1 ..< 19} \<Longrightarrow> recommendedActionMarker ! j \<noteq> CHR ''R''" by simp
qed (simp_all add: recommendedActionMarker_def)

lemma fault_action: "action (recommendedActionMarker @ recommended_action_name a)"
  unfolding action_def LastIndex_Some
proof (intro conjI allI impI)
  let ?s = "recommendedActionMarker @ recommended_action_name a"
  fix j assume j: "0 < j \<and> j \<le> length ?s"
  show "\<not> prefix recommendedActionMarker (drop j ?s)"
  proof
    assume "prefix recommendedActionMarker (drop j ?s)"
    then obtain z where z: "drop j ?s = recommendedActionMarker @ z" by (auto simp: prefix_def)
    then have "length ?s - j = 19 + length z" by (metis length_append length_drop marker_letters(1))
    then have len: "j + 19 \<le> length ?s" using j by linarith
    have at: "?s ! j = CHR ''R''" "?s ! Suc j = CHR ''e''"
      using arg_cong [OF z, of "\<lambda>l. l ! 0"] arg_cong [OF z, of "\<lambda>l. l ! 1"] len marker_letters(1-3)
      by (simp_all add: nth_append del: drop_append)
    show False
    proof (cases "j < 19")
      case True
      then have "?s ! j = recommendedActionMarker ! j" by (simp add: nth_append marker_letters(1))
      with marker_letters(4) [of j] True j at(1) show False by simp
    next
      case False
      then have "?s ! Suc j = recommended_action_name a ! (Suc j - 19)" by (simp add: nth_append marker_letters(1))
      moreover have "Suc j - 19 < length (recommended_action_name a)" using False len by (simp add: marker_letters(1))
      ultimately show False using at(2) action_name_letters nth_mem by metis
    qed
  qed
qed auto

lemma fault_is_entry: "entry (fault_entry f) (before_action f) (recommendedActionMarker @ recommended_action_name (RecommendedAction f))"
  by (simp add: entry_def fault_entry_split fault_action)

lemma Fields_prefix_words: "list_all word ts \<Longrightarrow> Fields (concat (map (\<lambda>t. t @ '' '') ts) @ s) = ts @ Fields s"
  by (induction ts) (simp_all add: Fields_Cons)

lemma code_word: "list_all (\<lambda>c. \<not> is_space c) code \<Longrightarrow> word (error_code_prefix @ code) \<and> identity_token (error_code_prefix @ code)"
  by (simp add: word_def error_code_prefix_def is_space_def identity_token_def HasPrefix_def)

lemma entity_word: "plain_entity en \<Longrightarrow> word (entity_token en) \<and> identity_token (entity_token en)"
proof -
  assume p: "plain_entity en"
  have "word (entity_token en)" using p by (auto simp: plain_entity_def word_def entity_token_def is_space_def)
  moreover have "Index (entity_token en) '':'' = Some (length (EntityType en))"
    unfolding Index_colon using p by (auto simp: plain_entity_def entity_token_def nth_append dest!: nth_mem)
  ultimately show ?thesis using p by (auto simp: identity_token_def isStructuredEntityToken_def entity_token_def plain_entity_def word_def)
qed

lemma fault_words_ok: "plain_fault f \<Longrightarrow> list_all word (fault_words f) \<and> list_all identity_token (fault_words f)"
  using code_word entity_word by (auto simp: plain_fault_def fault_words_def list_all_iff)

lemma fault_fields:
  assumes "plain_fault f"
  shows "identity_of (before_action f) = fault_words f @ identity_of (fault_text f)" "diagnostic_of (before_action f) = diagnostic_of (fault_text f)"
proof -
  have "Fields (before_action f) = fault_words f @ Fields (fault_text f)"
    using fault_words_ok [OF assms] Fields_app [of "CHR '' ''" "fault_text f" "[]"]
    by (simp add: before_action_def Fields_prefix_words) (simp add: fault_text_def)
  moreover have "takeWhile identity_token (ts @ us) = ts @ takeWhile identity_token us \<and> dropWhile identity_token (ts @ us) = dropWhile identity_token us"
    if "list_all identity_token ts" for ts us using that by (induction ts) auto
  ultimately show "identity_of (before_action f) = fault_words f @ identity_of (fault_text f)"
    "diagnostic_of (before_action f) = diagnostic_of (fault_text f)" using fault_words_ok [OF assms] by simp_all
qed

lemma words_contain: "t \<in> set ts \<Longrightarrow> Contains (concat (map (\<lambda>t. t @ '' '') ts) @ s) (t @ '' '')"
proof -
  assume "t \<in> set ts"
  then obtain xs ys where ts: "ts = xs @ t # ys" by (meson split_list)
  show ?thesis unfolding Contains_iff ts
    by (rule exI [of _ "concat (map (\<lambda>t. t @ '' '') xs)"], rule exI [of _ "concat (map (\<lambda>t. t @ '' '') ys) @ s"]) simp
qed

lemma rewritten_shows:
  assumes r: "rewritten c (fault_entry f) m" and p: "plain_fault f" and t: "t \<in> set (fault_words f)"
  shows "\<exists>before ra. entry m before ra \<and> shows_word m before t"
proof -
  have "t \<in> set (identity_of (before_action f))" using t fault_fields(1) [OF p] by simp
  moreover have "Contains (fault_entry f) (t @ '' '')"
    unfolding fault_entry_split before_action_def append.assoc by (rule words_contain [OF t])
  ultimately have "shows_word (fault_entry f) (before_action f) t" unfolding shows_word_def by blast
  with rewritten_shows_words [OF r fault_is_entry] show ?thesis by blast
qed

lemma rewritten_matches_entity:
  assumes r: "rewritten c (fault_entry f) m" and p: "plain_fault f" and en: "en \<in> set (EntitiesImpacted f)"
  shows "entityMatchesMessage m en"
proof -
  have "entity_token en \<in> set (fault_words f)" using en by (auto simp: fault_words_def)
  from rewritten_shows [OF r p this] obtain before ra t' where e: "entry m before ra" and t': "t' = entity_token en \<or> t' = shorten_token (entity_token en)"
    "t' \<in> set (identity_of before)" "Contains m (t' @ '' '')" unfolding shows_word_def by blast
  show ?thesis
  proof (cases "t' = entity_token en")
    case True
    with t'(3) show ?thesis by (simp add: entityMatchesMessage_def)
  next
    case False
    with t'(1) obtain v where v: "entity_token en = ''GPU_UUID:'' @ v" "length v > 11" "t' = ''GPU_UUID:'' @ take 8 v @ ''...''"
      by (cases "entity_token en" rule: shorten_cases) auto
    have "plain_entity en" using p en by (auto simp: plain_fault_def list_all_iff)
    then have "EntityType en = ''GPU_UUID''"
      using v(1) append_sep_eq [of "EntityType en" "CHR '':''" "EntityValue en" "''GPU_UUID''" v] by (auto simp: entity_token_def plain_entity_def)
    then have match: "truncated_match True n en (i, t')" for n i
      using v by (simp add: truncated_match_def HasPrefix_def HasSuffix_def TrimSuffix_def truncationSuffix_def suffix_def take_is_prefix)
    from set_takeWhileD [OF t'(2)] obtain i where "i < length (Fields before)" "Fields before ! i = t'" by (auto simp: in_set_conv_nth)
    then have "(i, t') \<in> set (enumerate 0 (Fields before))" by (simp add: in_set_enumerate_eq)
    then have "list_ex (truncated_match True (length (Fields before)) en) (enumerate 0 (Fields before))"
      unfolding list_ex_iff using match by blast
    then show ?thesis using e by (simp add: entityMatchesMessage_def)
  qed
qed

lemma rewritten_matches_code:
  assumes r: "rewritten c (fault_entry f) m" and p: "plain_fault f" and code: "code \<in> set (ErrorCode f)"
  shows "Contains m (error_code_prefix @ code @ '' '')"
proof -
  have "error_code_prefix @ code \<in> set (fault_words f)" using code by (auto simp: fault_words_def)
  from rewritten_shows [OF r p this] obtain t' where
    t': "t' = error_code_prefix @ code \<or> t' = shorten_token (error_code_prefix @ code)" "Contains m (t' @ '' '')" unfolding shows_word_def by blast
  moreover have "shorten_token (error_code_prefix @ code) = error_code_prefix @ code"
    by (rule shorten_other) (simp add: error_code_prefix_def)
  ultimately show ?thesis by auto
qed

end
