(* ===== verification/Message_Properties.thy ===== *)
theory Message_Properties
  imports Message_Laws
begin

text \<open>
  What the texts of node conditions promise: they stay within their limit up to the mark of a cut, can be read back, show a
  repeated fault once, and let the recovery of a fault find its entry however often it was shortened.
\<close>

section \<open>Recoveries\<close>

lemma recovery_names_something: "EntitiesImpacted r \<noteq> [] \<Longrightarrow> recoveryEntities r \<noteq> []"
proof -
  assume ne: "EntitiesImpacted r \<noteq> []"
  have "\<not> EqualFold t ''GPU_UUID''" if "EqualFold t ''GPU'' \<or> EqualFold t ''PCI''" for t
  proof -
    have "length t = 3" using that by (auto simp: EqualFold_def ToLower_def dest!: arg_cong [of _ _ length])
    then show ?thesis by (auto simp: EqualFold_def ToLower_def dest!: arg_cong [of _ _ length])
  qed
  then have kept: "filter (\<lambda>en. \<not> EqualFold (EntityType en) ''GPU_UUID'') (EntitiesImpacted r) \<noteq> []"
    if "list_ex (\<lambda>en. EqualFold (EntityType en) ''GPU'' \<or> EqualFold (EntityType en) ''PCI'') (EntitiesImpacted r)"
    using that unfolding list_ex_iff filter_empty_conv by blast
  show ?thesis
  proof (cases "EqualFold (ComponentClass r) ''GPU''")
    case True
    then show ?thesis using ne kept unfolding recoveryEntities_def Let_def by (simp only: not_True_eq_False if_False split: if_split) blast
  qed (use ne in \<open>simp add: recoveryEntities_def\<close>)
qed

text \<open>
  C32. A recovery removes every form of the entry of a fault that it covers: when the entities by which it is matched are among those of the fault, and
  it names no error code or one of the fault, the entry is not in the list any more, whatever its free text, however
  often it was compacted and shortened before, and whatever else is in the condition and the batch.
\<close>

theorem recovery_clears_fault:
  assumes "rewritten c (fault_entry f) m" and "plain_fault f" and "IsHealthy r"
    and "set (recoveryEntities r) \<subseteq> set (EntitiesImpacted f)" and "ErrorCode r = [] \<or> set (ErrorCode r) \<inter> set (ErrorCode f) \<noteq> {}"
  shows "m \<notin> set (aggregateEventMessages messages (events @ [r]))"
proof (cases "EntitiesImpacted r = []")
  case True
  then show ?thesis using assms(3) by (simp add: aggregateEventMessages_def aggregate_event_def)
next
  case False
  have "entitiesMatchMessage m (recoveryEntities r)"
    using recovery_names_something [OF False] rewritten_matches_entity [OF assms(1,2)] assms(4) by (auto simp: entitiesMatchMessage_def list_all_iff)
  moreover have "messageMatchesAnyErrorCode m (ErrorCode r)"
    using assms(5) rewritten_matches_code [OF assms(1,2)] by (auto simp: messageMatchesAnyErrorCode_def list_ex_iff)
  ultimately show ?thesis using False assms(3)
    by (auto simp: aggregateEventMessages_def aggregate_event_def removeImpactedEntitiesMessagesScoped_def removeLegacyGPUMessages_def Let_def)
qed

definition xid_fault :: health_event where
  "xid_fault = zero_event\<lparr>CheckName := ''GpuXidError'', ComponentClass := ''GPU'', IsFatal := True, ErrorCode := [''79''],
     EntitiesImpacted := [\<lparr>EntityType = ''PCI'', EntityValue = ''0000:b3:00''\<rparr>, \<lparr>EntityType = ''GPU_UUID'', EntityValue = ''GPU-123e4567-e89b''\<rparr>],
     Message := ''GPU has fallen off the bus; see the log'', RecommendedAction := RESTART_BM\<rparr>"

definition xid_recovery :: health_event where
  "xid_recovery = xid_fault\<lparr>IsHealthy := True, IsFatal := False, ErrorCode := []\<rparr>"

definition tight :: K8sConnectorConfig where
  "tight = \<lparr>MaxNodeConditionMessageLength = 100, CompactedHealthEventMsgLen = 60, kc_MaxRetries = 0, kc_MaxRetryDuration = 0\<rparr>"

theorem recovery_clears_fault_witness:
  "''ErrorCode:79 PCI:0000:b3:00 GPU_UUID:GPU-123e... ... Recommended Action=RESTART_BM''
     \<notin> set (aggregateEventMessages [''ErrorCode:79 PCI:0000:b3:00 GPU_UUID:GPU-123e... ... Recommended Action=RESTART_BM''] ([] @ [xid_recovery]))"
proof (rule recovery_clears_fault)
  have "shortenIdentityForSpace (compactMessageField (fault_entry xid_fault) (CompactedHealthEventMsgLen tight)) =
      ''ErrorCode:79 PCI:0000:b3:00 GPU_UUID:GPU-123e... ... Recommended Action=RESTART_BM''" by code_simp
  then show "rewritten tight (fault_entry xid_fault) ''ErrorCode:79 PCI:0000:b3:00 GPU_UUID:GPU-123e... ... Recommended Action=RESTART_BM''"
    using rewritten.shortened [OF rewritten.compacted [OF rewritten.same]] by metis
qed (code_simp+)

section \<open>Repeats\<close>

text \<open>
  A fault that is reported again is recognised by its entry, also after that was compacted and shortened, so the list does
  not change: provided that the first word of the free text that is no code or entity does not end with a colon, and unique ids have more than eleven
  characters.
\<close>

theorem repeated_fault_recognised:
  assumes "rewritten c (fault_entry f) m" and "m \<in> set messages" and "loose_text (diagnostic_of (before_action f))"
    and "list_all long_uuid (identity_of (before_action f))"
  shows "addMessageIfNotExist messages f = messages"
proof -
  have "messagesMatchByIdentity m (fault_entry f)" by (rule rewritten_recognised [OF assms(1) fault_is_entry assms(3,4)])
  then show ?thesis using assms(2) by (auto simp: addMessageIfNotExist_def Let_def fault_message list_ex_iff)
qed

theorem repeated_fault_recognised_witness:
  "addMessageIfNotExist [''ErrorCode:79 PCI:0000:b3:00 GPU_UUID:GPU-123e... ... Recommended Action=RESTART_BM''] xid_fault =
     [''ErrorCode:79 PCI:0000:b3:00 GPU_UUID:GPU-123e... ... Recommended Action=RESTART_BM'']"
proof (rule repeated_fault_recognised)
  have "shortenIdentityForSpace (compactMessageField (fault_entry xid_fault) (CompactedHealthEventMsgLen tight)) =
      ''ErrorCode:79 PCI:0000:b3:00 GPU_UUID:GPU-123e... ... Recommended Action=RESTART_BM''" by code_simp
  then show "rewritten tight (fault_entry xid_fault) ''ErrorCode:79 PCI:0000:b3:00 GPU_UUID:GPU-123e... ... Recommended Action=RESTART_BM''"
    using rewritten.shortened [OF rewritten.compacted [OF rewritten.same]] by metis
qed (code_simp+)

text \<open>
  Without the first condition a repeat is not recognised: a text that is cut right after a colon, here in a message of the driver,
  makes the cut word look like an entity, and the fault is listed again.
\<close>

definition driver_fault :: health_event where
  "driver_fault = xid_fault\<lparr>Message := ''NVRM: Xid 79, GPU has fallen off the bus''\<rparr>"

lemma cut_at_colon_listed_again:
  "let compacted = compactMessageField (fault_entry driver_fault) 63 in
     compacted = ''ErrorCode:79 PCI:0000:b3:00 GPU_UUID:GPU-123e4567-e89b NVRM:... Recommended Action=RESTART_BM'' \<and>
     length (addMessageIfNotExist [compacted] driver_fault) = 2"
  by code_simp

section \<open>Reading a text back\<close>

text \<open>The entries a condition lists: with an action, and without the separator.\<close>

definition listed :: "string \<Rightarrow> bool" where
  "listed m \<longleftrightarrow> CHR '';'' \<notin> set m \<and> LastIndex m recommendedActionMarker \<noteq> None"

lemma join_chars: "set (join_with '' '' ts) \<subseteq> insert (CHR '' '') (\<Union> (set ` set ts))"
  by (induction "'' ''" ts rule: join_with.induct) auto

lemma pieces_chars: "p \<in> set (pieces f s) \<Longrightarrow> set p \<subseteq> set s"
proof (induction s arbitrary: p)
  case (Cons c s)
  obtain q qs where q: "pieces f s = q # qs" by (cases "pieces f s") auto
  then have "set q \<subseteq> set s" "r \<in> set qs \<Longrightarrow> set r \<subseteq> set s" for r using Cons.IH by simp_all
  with Cons q show ?case by (cases "f c") fastforce+
qed simp

lemma Fields_chars: "t \<in> set (Fields s) \<Longrightarrow> set t \<subseteq> set s"
  unfolding Fields_def by (auto dest: pieces_chars)

lemma split_chars:
  "set (fst (splitIdentityAndDiagnostic s)) \<subseteq> insert (CHR '' '') (set s)" "set (snd (splitIdentityAndDiagnostic s)) \<subseteq> insert (CHR '' '') (set s)"
  using join_chars [of "identity_of s"] join_chars [of "diagnostic_of s"] Fields_chars [of _ s]
  by (auto simp: split_identity dest!: set_takeWhileD set_dropWhileD)

lemma TrimRight_chars: "set (TrimRight s cutset) \<subseteq> set s"
  using TrimRight_split [of s cutset] by (metis Un_iff set_append subsetI)

lemma cut_chars: "set (truncateWithSuffix s n) \<subseteq> insert (CHR ''.'') (set s)"
  by (auto simp: truncateWithSuffix_def truncationSuffix_def dest: in_set_takeD)

lemma compact_listed:
  assumes "listed m"
  shows "listed (compactMessageField m k)"
proof -
  obtain i where i: "LastIndex m recommendedActionMarker = Some i" using assms by (auto simp: listed_def)
  let ?b = "TrimRight (take i m) '' ''"
  show ?thesis
  proof (cases "int (length ?b) \<le> k")
    case True
    with i assms show ?thesis by (simp add: compactMessageField_def)
  next
    case False
    obtain x y where xy: "splitIdentityAndDiagnostic ?b = (x, y)" by fastforce
    have m: "compactMessageField m k = (compactMessagePrefix x y k @ '' '') @ drop i m" using i False xy by (simp add: compactMessageField_def)
    have "set x \<union> set y \<subseteq> insert (CHR '' '') (set m)"
      using split_chars [of ?b] TrimRight_chars [of "take i m" "'' ''"] set_take_subset [of i m] unfolding xy by auto
    then have "set (compactMessagePrefix x y k) \<subseteq> {CHR '' '', CHR ''.''} \<union> set m"
      using cut_chars [of y] by (auto simp: compactMessagePrefix_def Let_def truncationSuffix_def split: if_splits)
    moreover have "set (drop i m) \<subseteq> set m" by (rule set_drop_subset)
    ultimately have "CHR '';'' \<notin> set (compactMessageField m k)" using assms unfolding m by (auto simp: listed_def)
    moreover have "LastIndex (compactMessageField m k) recommendedActionMarker \<noteq> None" unfolding m LastIndex_action [OF action_of [OF i]] by simp
    ultimately show ?thesis by (simp add: listed_def)
  qed
qed

lemma shorten_chars: "set (shorten_token t) \<subseteq> insert (CHR ''.'') (set t)"
  by (cases t rule: shorten_cases) (auto dest: in_set_takeD)

lemma shorten_listed:
  assumes "listed m"
  shows "listed (shortenIdentityForSpace m)"
proof (cases "shortenIdentityForSpace m = m")
  case False
  obtain i where i: "LastIndex m recommendedActionMarker = Some i" using assms by (auto simp: listed_def)
  obtain ts where ts: "shortenIdentityForSpace m = (join_with '' '' ts @ '' '' @ truncationSuffix @ '' '') @ drop i m"
    "ts = identity_of (take i m) \<or> ts = map shorten_token (identity_of (take i m))"
    using False i by (auto simp: shortenIdentityForSpace_def split_identity Fields_join words_takeWhile Let_def split: if_splits)
  have "set t \<subseteq> insert (CHR ''.'') (set m)" if "t \<in> set ts" for t
    using that ts(2) Fields_chars [of _ "take i m"] set_take_subset [of i m] shorten_chars by (fastforce dest: set_takeWhileD)
  then have "set (join_with '' '' ts) \<subseteq> {CHR '' '', CHR ''.''} \<union> set m" using join_chars [of ts] by blast
  moreover have "set (drop i m) \<subseteq> set m" by (rule set_drop_subset)
  ultimately have "CHR '';'' \<notin> set (shortenIdentityForSpace m)" using assms unfolding ts(1) by (auto simp: listed_def truncationSuffix_def)
  moreover have "LastIndex (shortenIdentityForSpace m) recommendedActionMarker \<noteq> None"
    unfolding ts(1) LastIndex_action [OF action_of [OF i]] by simp
  ultimately show ?thesis by (simp add: listed_def)
qed (use assms in simp)

lemma shrink_cases:
  assumes "m \<in> set (shrink_messages c messages)"
  obtains m0 where "m0 \<in> set messages" "rewritten c m0 m" "listed m0 \<Longrightarrow> listed m"
proof -
  have dedup: "set (deduplicateMessagesByIdentity ms) \<subseteq> set ms" for ms by (induction ms) auto
  have "\<exists>m0 \<in> set messages. \<exists>m1 \<in> {m0, compactMessageField m0 (CompactedHealthEventMsgLen c)}. m \<in> {m1, shortenIdentityForSpace m1}"
    using assms dedup [of messages] by (auto simp: shrink_messages_def Let_def split: if_splits)
  then obtain m0 m1 where m0: "m0 \<in> set messages" "m1 \<in> {m0, compactMessageField m0 (CompactedHealthEventMsgLen c)}" "m \<in> {m1, shortenIdentityForSpace m1}"
    by (elim bexE) (rule that)
  have "rewritten c m0 m1 \<and> (listed m0 \<longrightarrow> listed m1)" using m0(2) compact_listed rewritten.same rewritten.compacted [OF rewritten.same] by fastforce
  then have "rewritten c m0 m \<and> (listed m0 \<longrightarrow> listed m)" using m0(3) shorten_listed rewritten.shortened by fastforce
  with m0(1) show ?thesis by (intro that [of m0]) auto
qed

lemma join_length: "messages \<noteq> [] \<Longrightarrow> length (join_with '';'' messages) + 1 = totalMessageLength messages"
proof (induction "'';''" messages rule: join_with.induct)
  case (3 x y ys)
  then show ?case by (simp add: totalMessageLength_def)
qed (simp_all add: totalMessageLength_def)

lemma write_fits:
  assumes "int (length result + (if messages = [] then 0 else length separator + length (join_with '';'' messages)) + 1) \<le> maxLen"
  shows "write_messages maxLen separator messages result =
    (result @ (if messages = [] then [] else separator @ join_with '';'' messages), False)"
  using assms
proof (induction maxLen separator messages result rule: write_messages.induct)
  case (2 maxLen separator msg rest result)
  then show ?case by (cases rest) auto
qed simp

lemma split_joined: "list_all (\<lambda>m. CHR '';'' \<notin> set m) messages \<Longrightarrow> messages \<noteq> [] \<Longrightarrow>
    split_on (CHR '';'') (join_with '';'' messages @ '';'') = messages @ [[]]"
proof (induction "'';''" messages rule: join_with.induct)
  case (2 x)
  then show ?case by (induction x) auto
next
  case (3 x y ys)
  have "split_on (CHR '';'') (x @ '';'' @ s) = x # split_on (CHR '';'') s" for s using 3(2) by (induction x) auto
  with 3 show ?case by simp
qed simp

lemma listed_kept: "listed m \<Longrightarrow> \<not> (m = [] \<or> m = truncationSuffix \<or> isNoHealthFailureMessage m)"
proof -
  assume "listed m"
  then obtain i where "LastIndex m recommendedActionMarker = Some i" by (auto simp: listed_def)
  then obtain b where "drop i m = recommendedActionMarker @ b" by (auto simp: LastIndex_Some prefix_def)
  then have m: "m = take i m @ recommendedActionMarker @ b" by (metis append_take_drop_id)
  have eq: "CHR ''='' \<in> set m" by (subst m) (simp add: recommendedActionMarker_def)
  have "CHR ''='' \<in> set (dropWhile is_space s)" if "CHR ''='' \<in> set s" for s using that by (induction s) (auto simp: is_space_def)
  then have "CHR ''='' \<in> set (TrimSpace m)" using eq by (simp add: TrimSpace_def)
  then have "to_lower (CHR ''='') \<in> set (ToLower (TrimSpace m))" unfolding ToLower_def set_map by (rule imageI)
  moreover have "to_lower (CHR ''='') \<notin> set (ToLower NoHealthFailureMsg)" by code_simp
  ultimately have "\<not> isNoHealthFailureMessage m" unfolding isNoHealthFailureMessage_def EqualFold_def by metis
  with eq show ?thesis by (auto simp: truncationSuffix_def)
qed

text \<open>
  C33. When the entries fit, if need be after they were compacted and shortened, the text of the condition read back gives exactly
  these entries, each a form of one of the entries that were written; and entries that fit as they are come back unchanged.
\<close>

theorem condition_text_roundtrip:
  assumes "list_all listed messages" and "int (totalMessageLength (shrink_messages c messages)) \<le> MaxNodeConditionMessageLength c"
  shows "parseMessages (truncateNodeConditionMessage c messages) = shrink_messages c messages \<and>
    (\<forall>m \<in> set (shrink_messages c messages). \<exists>m0 \<in> set messages. rewritten c m0 m) \<and>
    (int (totalMessageLength messages) \<le> MaxNodeConditionMessageLength c \<longrightarrow> shrink_messages c messages = messages)"
proof (intro conjI impI ballI)
  let ?ms = "shrink_messages c messages"
  have listed: "list_all listed ?ms" using assms(1) shrink_cases unfolding list_all_iff by metis
  then have kept: "filter (\<lambda>m. \<not> (m = [] \<or> m = truncationSuffix \<or> isNoHealthFailureMessage m)) ?ms = ?ms"
    using listed_kept by (auto simp: filter_id_conv list_all_iff)
  have "write_messages (MaxNodeConditionMessageLength c) [] ?ms [] = (join_with '';'' ?ms, False)"
    using write_fits [of "[]" ?ms "[]" "MaxNodeConditionMessageLength c"] join_length [of ?ms] assms(2)
    by (cases "?ms = []") (simp_all add: totalMessageLength_def)
  then have whole: "truncateNodeConditionMessage c messages = join_with '';'' ?ms @ '';''" by (simp add: truncateNodeConditionMessage_def)
  have "list_all (\<lambda>m. CHR '';'' \<notin> set m) ?ms" using listed by (auto simp: list_all_iff listed_def)
  with whole kept show "parseMessages (truncateNodeConditionMessage c messages) = ?ms"
    by (cases "?ms = []") (simp_all add: parseMessages_def split_joined)
  show "\<exists>m0 \<in> set messages. rewritten c m0 m" if "m \<in> set ?ms" for m using that by (elim shrink_cases) blast
  show "?ms = messages" if "int (totalMessageLength messages) \<le> MaxNodeConditionMessageLength c"
    using that by (simp add: shrink_messages_def)
qed

theorem condition_text_roundtrip_witness:
  "parseMessages (truncateNodeConditionMessage tight [fault_entry xid_fault]) =
     [''ErrorCode:79 PCI:0000:b3:00 GPU_UUID:GPU-123e4567-e89b GP... Recommended Action=RESTART_BM'']"
proof -
  have "list_all listed [fault_entry xid_fault]" "int (totalMessageLength (shrink_messages tight [fault_entry xid_fault])) \<le> MaxNodeConditionMessageLength tight"
    by code_simp+
  from condition_text_roundtrip [OF this] have "parseMessages (truncateNodeConditionMessage tight [fault_entry xid_fault]) =
      shrink_messages tight [fault_entry xid_fault]" by blast
  moreover have "shrink_messages tight [fault_entry xid_fault] =
      [''ErrorCode:79 PCI:0000:b3:00 GPU_UUID:GPU-123e4567-e89b GP... Recommended Action=RESTART_BM'']" by code_simp
  ultimately show ?thesis by simp
qed

section \<open>The limit\<close>

lemma write_bounded:
  assumes "int (length result + 1) \<le> maxLen" and "write_messages maxLen separator messages result = (result', truncated)"
  shows "int (length result' + 1) \<le> maxLen \<and> (truncated \<longrightarrow> maxLen < int (length result + length separator + length (join_with '';'' messages) + 1))"
  using assms
proof (induction maxLen separator messages result rule: write_messages.induct)
  case (2 maxLen separator msg rest result)
  show ?case
  proof (cases "int (length result + length separator + length msg + 1) > maxLen")
    case True
    have "length msg \<le> length (join_with '';'' (msg # rest))" by (cases rest) simp_all
    with True 2(2,3) show ?thesis by (auto simp: Let_def split: if_splits)
  next
    case False
    have "rest \<noteq> [] \<Longrightarrow> length (join_with '';'' (msg # rest)) = length msg + 1 + length (join_with '';'' rest)" by (cases rest) simp_all
    with False 2 show ?thesis by (cases "rest = []") auto
  qed
qed simp

text \<open>
  The text of a condition is at most three characters longer than the limit, and within the limit whenever the compacted
  and shortened entries fit.
\<close>

theorem condition_text_bounded:
  assumes "0 < MaxNodeConditionMessageLength c"
  shows "int (length (truncateNodeConditionMessage c messages)) \<le> MaxNodeConditionMessageLength c + 3 \<and>
    (int (totalMessageLength (shrink_messages c messages)) \<le> MaxNodeConditionMessageLength c \<longrightarrow>
     int (length (truncateNodeConditionMessage c messages)) \<le> MaxNodeConditionMessageLength c)"
proof -
  obtain result truncated where w: "write_messages (MaxNodeConditionMessageLength c) [] (shrink_messages c messages) [] = (result, truncated)" by fastforce
  from write_bounded [OF _ w] assms have b: "int (length result + 1) \<le> MaxNodeConditionMessageLength c"
    "truncated \<longrightarrow> MaxNodeConditionMessageLength c < int (length (join_with '';'' (shrink_messages c messages)) + 1)" by simp_all
  have "length (join_with '';'' (shrink_messages c messages)) + 1 \<le> totalMessageLength (shrink_messages c messages)"
    using join_length [of "shrink_messages c messages"] by (cases "shrink_messages c messages = []") (simp_all add: totalMessageLength_def)
  with w b show ?thesis by (auto simp: truncateNodeConditionMessage_def truncationSuffix_def)
qed

text \<open>The limit can be exceeded: the mark of a cut is written also when there is no room for it.\<close>

definition narrow :: K8sConnectorConfig where
  "narrow = \<lparr>MaxNodeConditionMessageLength = 36, CompactedHealthEventMsgLen = 60, kc_MaxRetries = 0, kc_MaxRetryDuration = 0\<rparr>"

definition two_entries :: "string list" where
  "two_entries = [''ErrorCode:1 Recommended Action=NONE'', ''ErrorCode:2 Recommended Action=NONE'']"

theorem condition_text_bounded_witness:
  "length (truncateNodeConditionMessage narrow two_entries) = 39 \<and>
   int (length (truncateNodeConditionMessage narrow two_entries)) \<le> 39"
proof
  show "length (truncateNodeConditionMessage narrow two_entries) = 39" by code_simp
  show "int (length (truncateNodeConditionMessage narrow two_entries)) \<le> 39"
    using condition_text_bounded [of narrow two_entries] by (simp add: narrow_def)
qed

end
