(* ===== verification/Node_Conditions.thy ===== *)
theory Node_Conditions
  imports Condition_Messages "HOL-Library.Word"
begin

text \<open>
  The Kubernetes connector of platform-connectors (\<^verbatim>\<open>platform-connectors/pkg/connectors/kubernetes\<close>): a batch of health events becomes
  one update of the conditions of each node and one Kubernetes Event for each fault that is not fatal, written one after another
  with their own retries.

  The API server, client-go's backoff, the clock, the context, the memory of written Events (an expiring cache of the library golang-lru) and
  what the network errors are arguments; so is the order in which a range over the map of conditions visits it. A
  tick of the clock is a nanosecond. Spans, logs and metrics are left out, and so are nil events, which the server rejects.
\<close>

unbundle bit_operations_syntax

section \<open>Data\<close>

record NodeCondition =
  nc_Type :: string
  nc_Status :: string
  nc_Reason :: string
  nc_Message :: string
  nc_LastHeartbeatTime :: int
  nc_LastTransitionTime :: int

definition ConditionTrue :: string where "ConditionTrue = ''True''"
definition ConditionFalse :: string where "ConditionFalse = ''False''"

text \<open>A node as far as the connector reads or writes it, with everything else in one field.\<close>

record status_node =
  sn_Name :: string
  sn_ResourceVersion :: string
  sn_Conditions :: "NodeCondition list"
  sn_Rest :: string

datatype patch_op = PatchTest string "NodeCondition list" | PatchAdd string "NodeCondition list"

record object_reference =
  or_Kind :: string
  or_Name :: string
  or_UID :: string

record k8s_event =
  ke_Name :: string
  ke_Namespace :: string
  ke_InvolvedObject :: object_reference
  ke_Reason :: string
  ke_ReportingController :: string
  ke_ReportingInstance :: string
  ke_Message :: string
  ke_Count :: "32 word"
  ke_Source :: "string \<times> string"
  ke_FirstTimestamp :: int
  ke_LastTimestamp :: int
  ke_Type :: string

record rememberedEvent =
  re_entities :: "string list"
  re_writtenAt :: int

type_synonym 'w try_state = "'w \<times> bool \<times> bool"
type_synonym 'w backoff_state = "'w try_state \<times> error option"

record 'w K8sConnector =
  kc_config :: K8sConnectorConfig
  kc_GetNode :: "'w \<Rightarrow> string \<Rightarrow> 'w \<times> (error + status_node)"
  kc_UpdateStatus :: "'w \<Rightarrow> status_node \<Rightarrow> 'w \<times> error option"
  kc_Patch :: "'w \<Rightarrow> string \<Rightarrow> patch_op list \<Rightarrow> 'w \<times> error option"
  marshal_error :: "patch_op list \<Rightarrow> error option"
  kc_GetEvent :: "'w \<Rightarrow> string \<Rightarrow> 'w \<times> (error + k8s_event)"
  kc_CreateEvent :: "'w \<Rightarrow> k8s_event \<Rightarrow> 'w \<times> error option"
  kc_UpdateEvent :: "'w \<Rightarrow> k8s_event \<Rightarrow> 'w \<times> error option"
  kc_backoff :: "('w backoff_state \<Rightarrow> 'w backoff_state \<times> (error + bool)) \<Rightarrow> 'w backoff_state \<Rightarrow> 'w backoff_state \<times> error option"
  Interrupted :: "error \<Rightarrow> bool"
  kc_ctxErr :: "'w \<Rightarrow> error option"
  kc_parentErr :: "'w \<Rightarrow> error option"
  kc_interrupt :: "'w \<Rightarrow> error option"
  kc_wait :: "'w \<Rightarrow> int \<Rightarrow> 'w \<times> error option"
  kc_now :: "'w \<Rightarrow> int"
  memory_Get :: "'w \<Rightarrow> string \<Rightarrow> (string, rememberedEvent) gomap option"
  memory_Add :: "'w \<Rightarrow> string \<Rightarrow> (string, rememberedEvent) gomap \<Rightarrow> 'w"
  memory_Set :: "'w \<Rightarrow> string \<Rightarrow> (string, rememberedEvent) gomap \<Rightarrow> 'w"
  memory_Remove :: "'w \<Rightarrow> string \<Rightarrow> 'w"
  error_text :: "error \<Rightarrow> string"
  net_timeout :: "error \<Rightarrow> bool"
  is_syscall :: "error \<Rightarrow> bool"
  is_EOF :: "error \<Rightarrow> bool"
  range_conditions :: "(string, health_event list) gomap \<Rightarrow> (string, health_event list) gomap"
  kc_retryBaseDelay :: int
  kc_retryMaxDelay :: int

definition DefaultMaxRetries :: int where "DefaultMaxRetries = 25"
definition DefaultMaxRetryDuration :: int where "DefaultMaxRetryDuration = 60 * 1000000000"
definition MaxAllowedRetryDuration :: int where "MaxAllowedRetryDuration = 5 * 60 * 1000000000"
definition DefaultBaseDelay :: int where "DefaultBaseDelay = 500 * 1000000"
definition DefaultMaxDelay :: int where "DefaultMaxDelay = 3 * 1000000000"

text \<open>The base has the arguments from outside.\<close>

definition NewK8sConnector :: "'w K8sConnector \<Rightarrow> K8sConnectorConfig \<Rightarrow> 'w K8sConnector" where
  "NewK8sConnector base cfg =
     (let cfg1 = (if kc_MaxRetries cfg = 0 then cfg\<lparr>kc_MaxRetries := DefaultMaxRetries\<rparr> else cfg);
          cfg2 = (if kc_MaxRetryDuration cfg1 = 0 then cfg1\<lparr>kc_MaxRetryDuration := DefaultMaxRetryDuration\<rparr> else cfg1)
      in base\<lparr>kc_config := cfg2, kc_retryBaseDelay := DefaultBaseDelay, kc_retryMaxDelay := DefaultMaxDelay\<rparr>)"

text \<open>The checks of the constructor before it loads the configuration of the client.\<close>

definition InitializeK8sConnector :: "'w K8sConnector \<Rightarrow> K8sConnectorConfig \<Rightarrow> error + 'w K8sConnector" where
  "InitializeK8sConnector base cfg =
     (if MaxNodeConditionMessageLength cfg \<le> 0 then
        Inl (EText (''maxNodeConditionMessageLength must be greater than 0, got '' @ fmt_int (MaxNodeConditionMessageLength cfg)))
      else if CompactedHealthEventMsgLen cfg \<le> 0 then
        Inl (EText (''CompactedHealthEventMsgLen must be greater than 0, got '' @ fmt_int (CompactedHealthEventMsgLen cfg)))
      else if kc_MaxRetries cfg < 0 then Inl (EText (''maxRetries must not be negative, got '' @ fmt_int (kc_MaxRetries cfg)))
      else if kc_MaxRetryDuration cfg < 0 \<or> kc_MaxRetryDuration cfg > MaxAllowedRetryDuration then
        Inl (EText ''maxRetryDuration must be between 0 and 5m0s'')
      else Inr (NewK8sConnector base cfg))"

section \<open>Errors\<close>

definition IsInvalid :: "error \<Rightarrow> bool" where
  "IsInvalid e \<longleftrightarrow> status_reason e = Some ''Invalid''"

definition event_exists :: "error \<Rightarrow> bool" where
  "event_exists e \<longleftrightarrow> status_reason e = Some ''AlreadyExists''"

definition isKubernetesAPIError :: "error \<Rightarrow> bool" where
  "isKubernetesAPIError e \<longleftrightarrow>
     (case status_reason e of
        None \<Rightarrow> False
      | Some reason \<Rightarrow> reason \<in> set [''Timeout'', ''ServerTimeout'', ''ServiceUnavailable'', ''TooManyRequests'', ''InternalError''])"

definition isHTTPConnectionError :: "string \<Rightarrow> bool" where
  "isHTTPConnectionError errStr \<longleftrightarrow> list_ex (Contains errStr)
     [''http2: client connection lost'', ''http2: server connection lost'', ''http2: connection closed'', ''connection reset by peer'',
      ''broken pipe'', ''connection refused'', ''connection timed out'', ''i/o timeout'', ''network is unreachable'', ''host is unreachable'']"

definition isTLSError :: "string \<Rightarrow> bool" where
  "isTLSError errStr \<longleftrightarrow> list_ex (Contains errStr)
     [''tls: handshake timeout'', ''tls: oversized record received'', ''remote error: tls:'']"

definition isDNSError :: "string \<Rightarrow> bool" where
  "isDNSError errStr \<longleftrightarrow> list_ex (Contains errStr)
     [''no such host'', ''dns: no answer'', ''temporary failure in name resolution'']"

definition isLoadBalancerError :: "string \<Rightarrow> bool" where
  "isLoadBalancerError errStr \<longleftrightarrow> list_ex (Contains errStr)
     [''502 Bad Gateway'', ''503 Service Unavailable'', ''504 Gateway Timeout'']"

definition isKubernetesStringError :: "string \<Rightarrow> bool" where
  "isKubernetesStringError errStr \<longleftrightarrow> list_ex (Contains errStr)
     [''the server is currently unable to handle the request'', ''etcd cluster is unavailable'', ''unable to connect to the server'',
      ''server is not ready'']"

definition isStringBasedError :: "string \<Rightarrow> bool" where
  "isStringBasedError errStr \<longleftrightarrow> isHTTPConnectionError errStr \<or> isTLSError errStr \<or> isDNSError errStr \<or> isLoadBalancerError errStr \<or>
     isKubernetesStringError errStr"

definition isTemporaryError :: "'w K8sConnector \<Rightarrow> error \<Rightarrow> bool" where
  "isTemporaryError r e \<longleftrightarrow>
     context_done e \<or> isKubernetesAPIError e \<or> net_timeout r e \<or> is_syscall r e \<or> isStringBasedError (error_text r e) \<or> is_EOF r e \<or>
     Contains (error_text r e) ''EOF''"

definition isKubernetesConnectorRetryableError :: "'w K8sConnector \<Rightarrow> error \<Rightarrow> bool" where
  "isKubernetesConnectorRetryableError r e \<longleftrightarrow> IsConflict e \<or> isTemporaryError r e"

definition retryKubernetesAPIWrite ::
  "'w K8sConnector \<Rightarrow> (error \<Rightarrow> bool) \<Rightarrow> ('w try_state \<Rightarrow> 'w try_state \<times> error option) \<Rightarrow> 'w try_state \<Rightarrow> 'w try_state \<times> error option" where
  "retryKubernetesAPIWrite r retryable run st =
     (let ((st1, lastErr), err) = kc_backoff r
            (\<lambda>(st, _). case run st of
                 (st1, None) \<Rightarrow> ((st1, None), Inr True)
               | (st1, Some e) \<Rightarrow> ((st1, Some e), if retryable e then Inr False else Inl e)) (st, None)
      in (st1, if (case err of None \<Rightarrow> False | Some e \<Rightarrow> Interrupted r e) \<and> kc_ctxErr r (fst st1) = None then lastErr else err))"

section \<open>Conditions\<close>

text \<open>Events without a timestamp come first; equal timestamps keep their order.\<close>

definition sortHealthEventsByTimestamp :: "health_event list \<Rightarrow> health_event list" where
  "sortHealthEventsByTimestamp events = sort_key GeneratedTimestamp events"

definition buildConditionEventsMap :: "health_event list \<Rightarrow> (string, health_event list) gomap" where
  "buildConditionEventsMap events = group_by CheckName (filter (\<lambda>e. IsHealthy e \<or> IsFatal e) events)"

definition safeTimestamp :: "int \<Rightarrow> int option \<Rightarrow> int" where
  "safeTimestamp now ts = (case ts of None \<Rightarrow> now | Some t \<Rightarrow> t)"

definition updateHealthEventReason :: "string \<Rightarrow> bool \<Rightarrow> string" where
  "updateHealthEventReason checkName isHealthy = checkName @ (if isHealthy then ''IsHealthy'' else ''IsNotHealthy'')"

definition condition_index :: "NodeCondition list \<Rightarrow> string \<Rightarrow> nat option" where
  "condition_index conditions conditionType = List.find (\<lambda>i. nc_Type (conditions ! i) = conditionType) [0 ..< length conditions]"

definition folded_condition :: "K8sConnectorConfig \<Rightarrow> int \<Rightarrow> NodeCondition \<Rightarrow> health_event list \<Rightarrow> NodeCondition" where
  "folded_condition c now matched events =
     (let latestEvent = last events;
          messages = aggregateEventMessages (parseMessages (nc_Message matched)) events
      in (if messages \<noteq> [] then
            matched\<lparr>nc_Message := truncateNodeConditionMessage c messages, nc_Status := ConditionTrue,
              nc_Reason := updateHealthEventReason (CheckName latestEvent) False\<rparr>
          else
            matched\<lparr>nc_Message := NoHealthFailureMsg, nc_Status := ConditionFalse,
              nc_Reason := updateHealthEventReason (CheckName latestEvent) True\<rparr>)
         \<lparr>nc_LastHeartbeatTime := safeTimestamp now (GeneratedTimestamp latestEvent)\<rparr>)"

definition processNodeCondition ::
  "K8sConnectorConfig \<Rightarrow> int \<Rightarrow> string \<Rightarrow> health_event list \<Rightarrow> NodeCondition list \<Rightarrow> NodeCondition list \<times> bool" where
  "processNodeCondition c now conditionType events conditions =
     (if events = [] then (conditions, False)
      else
        let latestTime = safeTimestamp now (GeneratedTimestamp (last events)) in
        case condition_index conditions conditionType of
          None \<Rightarrow>
            (conditions @ [folded_condition c now
               \<lparr>nc_Type = conditionType, nc_Status = [], nc_Reason = [], nc_Message = [], nc_LastHeartbeatTime = latestTime,
                nc_LastTransitionTime = latestTime\<rparr> events], True)
        | Some i \<Rightarrow>
            (let previous = conditions ! i; folded = folded_condition c now previous events;
                 updated = (if nc_Status folded \<noteq> nc_Status previous then folded\<lparr>nc_LastTransitionTime := latestTime\<rparr> else folded)
             in (conditions[i := updated],
                 nc_Status previous \<noteq> nc_Status updated \<or> nc_Reason previous \<noteq> nc_Reason updated \<or> nc_Message previous \<noteq> nc_Message updated)))"

fun fold_conditions ::
  "K8sConnectorConfig \<Rightarrow> int \<Rightarrow> (string, health_event list) gomap \<Rightarrow> NodeCondition list \<times> bool \<Rightarrow> NodeCondition list \<times> bool" where
  "fold_conditions c now [] st = st"
| "fold_conditions c now ((conditionType, events) # rest) (conditions, changed) =
     (let (conditions', changed') = processNodeCondition c now conditionType events conditions in
      fold_conditions c now rest (conditions', changed \<or> changed'))"

definition conditionsPatch :: "NodeCondition list \<Rightarrow> NodeCondition list \<Rightarrow> patch_op list" where
  "conditionsPatch before updated = [PatchTest ''/status/conditions'' before, PatchAdd ''/status/conditions'' updated]"

definition conditionTestFailedAsConflict :: "'w K8sConnector \<Rightarrow> string \<Rightarrow> string \<Rightarrow> error option \<Rightarrow> 'w \<Rightarrow> 'w \<times> error option" where
  "conditionTestFailedAsConflict r nodeName readResourceVersion err w =
     (case err of
        None \<Rightarrow> (w, None)
      | Some e \<Rightarrow>
          if \<not> IsInvalid e then (w, Some e)
          else case kc_GetNode r w nodeName of
              (w1, Inl getErr) \<Rightarrow> (w1, Some (EWrap ''re-reading node after rejected conditions patch'' getErr))
            | (w1, Inr n) \<Rightarrow> if sn_ResourceVersion n = readResourceVersion then (w1, Some e) else (w1, Some (EStatus ''Conflict'')))"

text \<open>The first component of the result says whether the update was skipped.\<close>

definition readAndUpdateNode ::
  "'w K8sConnector \<Rightarrow> string \<Rightarrow> (string, health_event list) gomap \<Rightarrow> 'w \<Rightarrow> 'w \<times> bool \<times> error option" where
  "readAndUpdateNode r nodeName conditionEventsMap w =
     (case kc_GetNode r w nodeName of
        (w1, Inl e) \<Rightarrow> (w1, False, Some e)
      | (w1, Inr n) \<Rightarrow>
          (let before = sn_Conditions n;
               (updated, changed) = fold_conditions (kc_config r) (kc_now r w1) (range_conditions r conditionEventsMap) (before, False) in
           if \<not> changed then (w1, True, None)
           else if before = [] then
             (let (w2, err) = kc_UpdateStatus r w1 (n\<lparr>sn_Conditions := updated\<rparr>) in (w2, False, err))
           else
             let patch = conditionsPatch before updated in
             case marshal_error r patch of
               Some e \<Rightarrow> (w1, False, Some e)
             | None \<Rightarrow>
                 (let (w2, err) = kc_Patch r w1 nodeName patch;
                      (w3, err') = conditionTestFailedAsConflict r nodeName (sn_ResourceVersion n) err w2
                  in (w3, False, err'))))"

text \<open>The first component of the result says whether there was anything to do.\<close>

definition updateNodeConditions :: "'w K8sConnector \<Rightarrow> health_event list \<Rightarrow> 'w \<Rightarrow> 'w \<times> bool \<times> error option" where
  "updateNodeConditions r healthEvents w =
     (let nodeName = (case healthEvents of [] \<Rightarrow> [] | e # _ \<Rightarrow> NodeName e);
          conditionEventsMap = buildConditionEventsMap healthEvents in
      if conditionEventsMap = [] then (w, False, None)
      else
        let ((w1, skipped, _), err) = retryKubernetesAPIWrite r (\<lambda>e. IsConflict e \<or> isTemporaryError r e)
              (\<lambda>(w, _, x). let (w1, skipped, err) = readAndUpdateNode r nodeName conditionEventsMap w in ((w1, skipped, x), err)) (w, False, False) in
        if skipped then (w1, False, None)
        else case err of
            Some e \<Rightarrow> (w1, True, Some (EWrap (''failed to update node '' @ nodeName @ '' conditions'') e))
          | None \<Rightarrow> (w1, True, None))"

definition processNodeConditionUpdates :: "'w K8sConnector \<Rightarrow> health_event list \<Rightarrow> 'w \<Rightarrow> 'w \<times> error option" where
  "processNodeConditionUpdates r events w = (let (w1, _, err) = updateNodeConditions r events w in (w1, err))"

end
