(* ===== verification/Node_Events.thy ===== *)
theory Node_Events
  imports Node_Conditions
begin

text \<open>
  The Kubernetes Events of the connector and its work list (\<^verbatim>\<open>process_node_events.go\<close>, \<^verbatim>\<open>k8s_connector.go\<close>): the memory of
  recent Events, writing an Event under a name that is derived from its fault, the writes of a batch and their retries.

  The memory hands out its maps by reference, so a deletion from such a map is a write to the entry (\<^verbatim>\<open>memory_Set\<close>) that does
  not renew its expiry.
\<close>

section \<open>The memory of written Events\<close>

definition nodeEventRefreshInterval :: int where
  "nodeEventRefreshInterval = 10 * 60 * 1000000000"

definition nodeCheckKey :: "string \<Rightarrow> string \<Rightarrow> string" where
  "nodeCheckKey nodeName checkName = nodeName @ [CHR 0x00] @ checkName"

definition entityKeys :: "health_event \<Rightarrow> string list" where
  "entityKeys healthEvent = map entity_token (EntitiesImpacted healthEvent)"

definition sharesEntity :: "string list \<Rightarrow> string list \<Rightarrow> bool" where
  "sharesEntity a b \<longleftrightarrow> list_ex (\<lambda>x. x \<in> set b) a"

definition rememberedNodeEvent :: "'w K8sConnector \<Rightarrow> string \<Rightarrow> k8s_event \<Rightarrow> 'w \<Rightarrow> rememberedEvent option" where
  "rememberedNodeEvent r nodeName event w =
     (case memory_Get r w (nodeCheckKey nodeName (ke_Type event)) of None \<Rightarrow> None | Some written \<Rightarrow> map_of written (ke_Message event))"

definition rememberNodeEvent :: "'w K8sConnector \<Rightarrow> string \<Rightarrow> k8s_event \<Rightarrow> string list \<Rightarrow> 'w \<Rightarrow> 'w" where
  "rememberNodeEvent r nodeName event entities w =
     (let key = nodeCheckKey nodeName (ke_Type event); now = kc_now r w;
          written = (case memory_Get r w key of None \<Rightarrow> [] | Some m \<Rightarrow> m);
          fresh = filter (\<lambda>(_, remembered). \<not> now - re_writtenAt remembered \<ge> nodeEventRefreshInterval) written
      in memory_Add r w key (AList.update (ke_Message event) \<lparr>re_entities = entities, re_writtenAt = now\<rparr> fresh))"

definition keep_or_remove :: "'w K8sConnector \<Rightarrow> string \<Rightarrow> (string, rememberedEvent) gomap \<Rightarrow> 'w \<Rightarrow> 'w" where
  "keep_or_remove r key written w = (if written = [] then memory_Remove r (memory_Set r w key written) key else memory_Set r w key written)"

definition forgetNodeEvent :: "'w K8sConnector \<Rightarrow> string \<Rightarrow> k8s_event \<Rightarrow> 'w \<Rightarrow> 'w" where
  "forgetNodeEvent r nodeName event w =
     (let key = nodeCheckKey nodeName (ke_Type event) in
      case memory_Get r w key of
        None \<Rightarrow> w
      | Some written \<Rightarrow> keep_or_remove r key (AList.delete (ke_Message event) written) w)"

definition forgetNodeCheck :: "'w K8sConnector \<Rightarrow> string \<Rightarrow> string \<Rightarrow> string list \<Rightarrow> 'w \<Rightarrow> 'w" where
  "forgetNodeCheck r nodeName checkName recovered w =
     (let key = nodeCheckKey nodeName checkName in
      if recovered = [] then memory_Remove r w key
      else case memory_Get r w key of
          None \<Rightarrow> w
        | Some written \<Rightarrow> keep_or_remove r key (filter (\<lambda>(_, remembered). \<not> sharesEntity (re_entities remembered) recovered) written) w)"

section \<open>Writing an Event\<close>

text \<open>FNV-1a on 64 bits, as \<^verbatim>\<open>hash/fnv\<close> computes it.\<close>

definition fnv_byte :: "char \<Rightarrow> 64 word \<Rightarrow> 64 word" where
  "fnv_byte c h = (h XOR word_of_nat (of_char c)) * 1099511628211"

definition fnv64a :: "string \<Rightarrow> 64 word" where
  "fnv64a s = fold fnv_byte s 14695981039346656037"

definition hex_digit :: "nat \<Rightarrow> char" where
  "hex_digit d = char_of (if d < 10 then 48 + d else 87 + d)"

text \<open>The verb \<^verbatim>\<open>%016x\<close>.\<close>

definition hex16 :: "64 word \<Rightarrow> string" where
  "hex16 h = map (\<lambda>i. hex_digit (unat (drop_bit (4 * i) h AND 15))) (rev [0 ..< 16])"

definition nodeEventName :: "string \<Rightarrow> string \<Rightarrow> string \<Rightarrow> string \<Rightarrow> string" where
  "nodeEventName nodeName checkName reason message =
     nodeName @ ''.'' @ hex16 (fnv64a (concat (map (\<lambda>part. part @ [CHR 0x00]) [nodeName, checkName, reason, message])))"

definition fetchHealthEventMessage :: "health_event \<Rightarrow> string" where
  "fetchHealthEventMessage healthEvent = (if IsHealthy healthEvent then NoHealthFailureMsg else constructHealthEventMessage healthEvent)"

definition DefaultNamespace :: string where "DefaultNamespace = ''default''"

definition createK8sEvent :: "int \<Rightarrow> health_event \<Rightarrow> k8s_event" where
  "createK8sEvent now healthEvent =
     (let ts = safeTimestamp now (GeneratedTimestamp healthEvent);
          reason = updateHealthEventReason (CheckName healthEvent) (IsHealthy healthEvent);
          message = fetchHealthEventMessage healthEvent
      in \<lparr>ke_Name = nodeEventName (NodeName healthEvent) (CheckName healthEvent) reason message, ke_Namespace = DefaultNamespace,
          ke_InvolvedObject = \<lparr>or_Kind = ''Node'', or_Name = NodeName healthEvent, or_UID = NodeName healthEvent\<rparr>,
          ke_Reason = reason, ke_ReportingController = Agent healthEvent, ke_ReportingInstance = NodeName healthEvent, ke_Message = message,
          ke_Count = 1, ke_Source = (Agent healthEvent, NodeName healthEvent), ke_FirstTimestamp = ts, ke_LastTimestamp = ts,
          ke_Type = CheckName healthEvent\<rparr>)"

definition sameNodeEventFault :: "k8s_event \<Rightarrow> k8s_event \<Rightarrow> bool" where
  "sameNodeEventFault existing expected \<longleftrightarrow>
     ke_InvolvedObject existing = ke_InvolvedObject expected \<and> ke_Source existing = ke_Source expected \<and>
     ke_Type existing = ke_Type expected \<and> ke_Reason existing = ke_Reason expected \<and> ke_Message existing = ke_Message expected \<and>
     ke_ReportingController existing = ke_ReportingController expected \<and> ke_ReportingInstance existing = ke_ReportingInstance expected"

definition unix_seconds :: "int \<Rightarrow> int" where
  "unix_seconds t = t div 1000000000"

definition reconcileNodeEvent :: "'w K8sConnector \<Rightarrow> k8s_event \<Rightarrow> 'w \<Rightarrow> 'w \<times> error option" where
  "reconcileNodeEvent r event w =
     (case kc_GetEvent r w (ke_Name event) of
        (w1, Inl e) \<Rightarrow> (w1, Some (EWrap (''look up pending event '' @ ke_Name event) e))
      | (w1, Inr existing) \<Rightarrow>
          if \<not> sameNodeEventFault existing event then
            (w1, Some (EText (''existing event '' @ ke_Name event @ '' does not match the pending write'')))
          else if unix_seconds (ke_LastTimestamp existing) \<ge> unix_seconds (ke_LastTimestamp event) then (w1, None)
          else
            (case kc_UpdateEvent r w1 (existing\<lparr>ke_Count := ke_Count existing + 1, ke_LastTimestamp := ke_LastTimestamp event\<rparr>) of
               (w2, Some e) \<Rightarrow> (w2, Some (EWrap (''refresh pending event '' @ ke_Name event) e))
             | (w2, None) \<Rightarrow> (w2, None)))"

text \<open>The result says whether the Event was there.\<close>

definition refreshNodeEvent :: "'w K8sConnector \<Rightarrow> k8s_event \<Rightarrow> string \<Rightarrow> 'w \<Rightarrow> 'w \<times> bool \<times> error option" where
  "refreshNodeEvent r event nodeName w =
     (case reconcileNodeEvent r event w of
        (w1, Some e) \<Rightarrow> if IsNotFound e then (forgetNodeEvent r nodeName event w1, False, None) else (w1, True, Some e)
      | (w1, None) \<Rightarrow> (w1, True, None))"

text \<open>The flag says whether a create was attempted before; it outlives the retries.\<close>

definition createOrReconcileNodeEvent :: "'w K8sConnector \<Rightarrow> k8s_event \<Rightarrow> 'w \<times> bool \<Rightarrow> ('w \<times> bool) \<times> error option" where
  "createOrReconcileNodeEvent r event s =
     (let (w, createAttempted) = s;
          create = (\<lambda>w. case kc_CreateEvent r w event of
              (w1, None) \<Rightarrow> ((w1, True), None)
            | (w1, Some e) \<Rightarrow>
                if \<not> event_exists e then ((w1, True), Some e)
                else
                  (case reconcileNodeEvent r event w1 of
                     (w2, Some lookupErr) \<Rightarrow> ((w2, True), Some (if IsNotFound lookupErr then EStatus ''Conflict'' else lookupErr))
                   | (w2, None) \<Rightarrow> ((w2, True), None)))
      in if createAttempted then
           (case reconcileNodeEvent r event w of
              (w1, Some e) \<Rightarrow> if IsNotFound e then create w1 else ((w1, True), Some e)
            | (w1, None) \<Rightarrow> ((w1, True), None))
         else create w)"

definition write_attempt :: "'w K8sConnector \<Rightarrow> k8s_event \<Rightarrow> string \<Rightarrow> 'w try_state \<Rightarrow> 'w try_state \<times> error option" where
  "write_attempt r event nodeName st =
     (let (w, known, createAttempted) = st in
      case (if known then refreshNodeEvent r event nodeName w else (w, False, None)) of
        (w1, True, err) \<Rightarrow> ((w1, known, createAttempted), err)
      | (w1, False, _) \<Rightarrow>
          (let ((w2, createAttempted'), err) = createOrReconcileNodeEvent r event (w1, createAttempted)
           in ((w2, False, createAttempted'), err)))"

text \<open>The first component of the result is the new flag, the second says whether the write was skipped.\<close>

definition writeNodeEvent ::
  "'w K8sConnector \<Rightarrow> k8s_event \<Rightarrow> string list \<Rightarrow> string \<Rightarrow> 'w \<times> bool \<Rightarrow> ('w \<times> bool) \<times> bool \<times> error option" where
  "writeNodeEvent r event entities nodeName s =
     (let (w, createAttempted) = s; remembered = rememberedNodeEvent r nodeName event w in
      if (case remembered of None \<Rightarrow> False | Some re \<Rightarrow> kc_now r w - re_writtenAt re < nodeEventRefreshInterval) then (s, True, None)
      else
        let ((w1, _, createAttempted'), err) = retryKubernetesAPIWrite r (\<lambda>e. IsConflict e \<or> isTemporaryError r e)
              (write_attempt r event nodeName) (w, remembered \<noteq> None, createAttempted) in
        case err of
          Some e \<Rightarrow> ((w1, createAttempted'), False, Some (EWrap (''failed to write event for node '' @ nodeName) e))
        | None \<Rightarrow> ((rememberNodeEvent r nodeName event entities w1, createAttempted'), False, None))"

section \<open>The writes of a batch\<close>

datatype kubernetesWrite =
    WriteConditions string "health_event list"
  | ForgetCheck string string "string list"
  | WriteEvent string k8s_event "string list"

definition WriteNodeCondition :: string where "WriteNodeCondition = ''node_condition''"
definition WriteNodeEvent :: string where "WriteNodeEvent = ''node_event''"

fun write_operation :: "kubernetesWrite \<Rightarrow> string" where
  "write_operation (WriteConditions _ _) = WriteNodeCondition"
| "write_operation (ForgetCheck _ _ _) = WriteNodeEvent"
| "write_operation (WriteEvent _ _ _) = WriteNodeEvent"

fun write_node :: "kubernetesWrite \<Rightarrow> string" where
  "write_node (WriteConditions n _) = n"
| "write_node (ForgetCheck n _ _) = n"
| "write_node (WriteEvent n _ _) = n"

fun run_write :: "'w K8sConnector \<Rightarrow> kubernetesWrite \<Rightarrow> 'w \<times> bool \<Rightarrow> ('w \<times> bool) \<times> error option" where
  "run_write r (WriteConditions _ nodeEvents) s = (let (w, b) = s; (w1, err) = processNodeConditionUpdates r nodeEvents w in ((w1, b), err))"
| "run_write r (ForgetCheck nodeName checkName entities) s = (let (w, b) = s in ((forgetNodeCheck r nodeName checkName entities w, b), None))"
| "run_write r (WriteEvent nodeName event entities) s = (let (s1, _, err) = writeNodeEvent r event entities nodeName s in (s1, err))"

definition filterProcessableEvents :: "health_event list \<Rightarrow> health_event list" where
  "filterProcessableEvents healthEvents =
     filter (\<lambda>e. \<not> (ProcessingStrategy e = STORE_ONLY \<or> ProcessingStrategy e = STORE_AND_ANALYSE)) healthEvents"

definition event_writes :: "int \<Rightarrow> health_event \<Rightarrow> kubernetesWrite list" where
  "event_writes now e =
     (if IsHealthy e then [ForgetCheck (NodeName e) (CheckName e) (entityKeys e)]
      else if IsFatal e then []
      else [WriteEvent (NodeName e) (createK8sEvent now e) (entityKeys e)])"

definition prepareHealthEventWrites :: "int \<Rightarrow> health_event list \<Rightarrow> kubernetesWrite list" where
  "prepareHealthEventWrites now healthEvents =
     (let processableEvents = sortHealthEventsByTimestamp (filterProcessableEvents healthEvents);
          eventsByNode = group_by NodeName (filter (\<lambda>e. IsHealthy e \<or> IsFatal e) processableEvents);
          nodeNames = sort (map_keys eventsByNode)
      in map (\<lambda>n. WriteConditions n (case map_of eventsByNode n of None \<Rightarrow> [] | Some es \<Rightarrow> es)) nodeNames @
         concat (map (event_writes now) processableEvents))"

section \<open>Retries\<close>

definition retryDelays :: "'w K8sConnector \<Rightarrow> int \<times> int" where
  "retryDelays r =
     (if kc_retryBaseDelay r \<le> 0 then DefaultBaseDelay else kc_retryBaseDelay r,
      if kc_retryMaxDelay r \<le> 0 then DefaultMaxDelay else kc_retryMaxDelay r)"

text \<open>One round of the loop ends it with an error or none, or asks for another one.\<close>

function retry_loop ::
  "'w K8sConnector \<Rightarrow> ('w \<times> bool \<Rightarrow> ('w \<times> bool) \<times> error option) \<Rightarrow> int \<Rightarrow> int \<Rightarrow> int \<Rightarrow> 'w \<times> bool \<Rightarrow> ('w \<times> bool) \<times> int \<times> error option" where
  "retry_loop r run retries retryDelay maxRetryDelay s =
     (case kc_interrupt r (fst s) of
        Some e \<Rightarrow> (s, retries, Some e)
      | None \<Rightarrow>
          (case run s of
             (s1, None) \<Rightarrow> (s1, retries, None)
           | (s1, Some e) \<Rightarrow>
               (case kc_ctxErr r (fst s1) of
                  Some ctxErr \<Rightarrow> (s1, retries, Some ctxErr)
                | None \<Rightarrow>
                    if \<not> isKubernetesConnectorRetryableError r e \<or> retries \<ge> kc_MaxRetries (kc_config r) then (s1, retries, Some e)
                    else
                      (case kc_wait r (fst s1) retryDelay of
                         (w2, Some e) \<Rightarrow> ((w2, snd s1), retries + 1, Some e)
                       | (w2, None) \<Rightarrow> retry_loop r run (retries + 1) (min (retryDelay * 2) maxRetryDelay) maxRetryDelay (w2, snd s1)))))"
  by pat_completeness auto
termination
  by (relation "measure (\<lambda>(r, _, retries, _). nat (kc_MaxRetries (kc_config r) - retries))") auto

declare retry_loop.simps [simp del]

definition processWriteWithRetry ::
  "'w K8sConnector \<Rightarrow> ('w \<times> bool \<Rightarrow> ('w \<times> bool) \<times> error option) \<Rightarrow> 'w \<times> bool \<Rightarrow> ('w \<times> bool) \<times> int \<times> error option" where
  "processWriteWithRetry r run s = (let (retryDelay, maxRetryDelay) = retryDelays r in retry_loop r run 0 retryDelay maxRetryDelay s)"

definition DropReasonShutdown :: string where "DropReasonShutdown = ''shutdown''"
definition DropReasonRetryTimeout :: string where "DropReasonRetryTimeout = ''retry_timeout''"
definition DropReasonRetryExhausted :: string where "DropReasonRetryExhausted = ''retry_exhausted''"
definition DropReasonPermanentError :: string where "DropReasonPermanentError = ''permanent_error''"

definition writeDropReason :: "'w K8sConnector \<Rightarrow> error option \<Rightarrow> error \<Rightarrow> string" where
  "writeDropReason r parentErr e =
     (let parent_is = (\<lambda>target. case parentErr of None \<Rightarrow> False | Some p \<Rightarrow> error_is p target) in
      if parent_is ECanceled \<or> error_is e ECanceled then DropReasonShutdown
      else if error_is e EDeadlineExceeded \<or> parent_is EDeadlineExceeded then DropReasonRetryTimeout
      else if isKubernetesConnectorRetryableError r e then DropReasonRetryExhausted
      else DropReasonPermanentError)"

fun process_writes :: "'w K8sConnector \<Rightarrow> kubernetesWrite list \<Rightarrow> 'w \<Rightarrow> 'w \<times> int \<times> error list" where
  "process_writes r [] w = (w, 0, [])"
| "process_writes r (write # rest) w =
     (let ((w1, _), retries, err) = processWriteWithRetry r (run_write r write) (w, False);
          (w2, totalRetries, failures) = process_writes r rest w1
      in (w2, retries + totalRetries,
          case err of
            None \<Rightarrow> failures
          | Some e \<Rightarrow> EWrap (write_operation write @ '' write for node '' @ write_node write @ '' ('' @ writeDropReason r (kc_parentErr r w1) e @ '')'') e
              # failures))"

definition processHealthEventsWithRetry :: "'w K8sConnector \<Rightarrow> health_event list \<Rightarrow> 'w \<Rightarrow> 'w \<times> int \<times> error option" where
  "processHealthEventsWithRetry r healthEvents w =
     (let (w1, totalRetries, failures) = process_writes r (prepareHealthEventWrites (kc_now r w) healthEvents) w
      in (w1, totalRetries, if failures = [] then None else Some (EJoin failures)))"

definition ProcessBatch :: "'w K8sConnector \<Rightarrow> health_event list \<Rightarrow> 'w \<Rightarrow> 'w \<times> error option" where
  "ProcessBatch r healthEvents w = (let (w1, _, err) = processHealthEventsWithRetry r healthEvents w in (w1, err))"

end
