(* ===== verification/Condition_Properties.thy ===== *)
theory Condition_Properties
  imports Message_Properties Node_Events
begin

text \<open>
  What the Kubernetes connector promises: its updates of node conditions are atomic although other writers change the node, a
  batch of faults that is sent again changes nothing, and a write ends after a bounded number of tries.
\<close>

section \<open>The API server\<close>

text \<open>
  The versions of the node, those that the connector committed marked. A read gives some version. A patch commits only on
  top of a version whose conditions pass its test, a status update only on top of the version it carries; a commit may still be
  reported as an error.
\<close>

type_synonym node_versions = "(bool \<times> status_node) list"

definition by_other_writers :: "node_versions \<Rightarrow> bool" where
  "by_other_writers vs \<longleftrightarrow> (\<forall>v \<in> set vs. \<not> fst v)"

definition reads_versions :: "'w K8sConnector \<Rightarrow> ('w \<Rightarrow> node_versions) \<Rightarrow> string \<Rightarrow> bool" where
  "reads_versions r hist name \<longleftrightarrow>
     (\<forall>w w' x. kc_GetNode r w name = (w', x) \<longrightarrow>
        (\<exists>xs. by_other_writers xs \<and> hist w' = hist w @ xs) \<and> (\<forall>n. x = Inr n \<longrightarrow> n \<in> snd ` set (hist w')))"

definition commits :: "node_versions \<Rightarrow> node_versions \<Rightarrow> (status_node \<Rightarrow> status_node \<Rightarrow> bool) \<Rightarrow> error option \<Rightarrow> bool" where
  "commits old new_hist ok err \<longleftrightarrow>
     (\<exists>before after. by_other_writers before \<and> by_other_writers after \<and>
        (new_hist = old @ before @ after \<and> err \<noteq> None \<or>
         (\<exists>n'. new_hist = old @ before @ (True, n') # after \<and> old @ before \<noteq> [] \<and> ok (snd (last (old @ before))) n')))"

definition patches_tested :: "'w K8sConnector \<Rightarrow> ('w \<Rightarrow> node_versions) \<Rightarrow> string \<Rightarrow> bool" where
  "patches_tested r hist name \<longleftrightarrow>
     (\<forall>w w' a b e. a \<noteq> b \<longrightarrow> kc_Patch r w name [PatchTest ''/status/conditions'' a, PatchAdd ''/status/conditions'' b] = (w', e) \<longrightarrow>
        commits (hist w) (hist w')
          (\<lambda>v n'. sn_Conditions v = a \<and> (\<exists>rv. n' = v\<lparr>sn_Conditions := b, sn_ResourceVersion := rv\<rparr>)) e)"

definition updates_guarded :: "'w K8sConnector \<Rightarrow> ('w \<Rightarrow> node_versions) \<Rightarrow> bool" where
  "updates_guarded r hist \<longleftrightarrow>
     (\<forall>w w' n e. kc_UpdateStatus r w n = (w', e) \<longrightarrow>
        commits (hist w) (hist w')
          (\<lambda>v n'. sn_ResourceVersion v = sn_ResourceVersion n \<and> (\<exists>rv. n' = v\<lparr>sn_Conditions := sn_Conditions n, sn_ResourceVersion := rv\<rparr>)) e)"

definition versions_unique :: "('w \<Rightarrow> node_versions) \<Rightarrow> bool" where
  "versions_unique hist \<longleftrightarrow> (\<forall>w. distinct (map (\<lambda>v. sn_ResourceVersion (snd v)) (hist w)))"

text \<open>
  The backoff calls its function until that is done or fails, or it gives up after a call that was neither; with a context that is
  done it may not call it at all.
\<close>

inductive backed_off :: "('s \<Rightarrow> 's \<times> (error + bool)) \<Rightarrow> 's \<Rightarrow> 's \<Rightarrow> error option \<Rightarrow> bool" for fn where
  gave_up: "fn s = (s', Inr False) \<Longrightarrow> backed_off fn s s' (Some e)"
| succeeded: "fn s = (s', Inr True) \<Longrightarrow> backed_off fn s s' None"
| failed: "fn s = (s', Inl e) \<Longrightarrow> backed_off fn s s' (Some e)"
| again: "fn s = (s1, Inr False) \<Longrightarrow> backed_off fn s1 s' e \<Longrightarrow> backed_off fn s s' e"

definition backs_off :: "'w K8sConnector \<Rightarrow> bool" where
  "backs_off r \<longleftrightarrow>
     (\<forall>fn s s' e. kc_backoff r fn s = (s', e) \<longrightarrow> backed_off fn s s' e \<or> s' = s \<and> e \<noteq> None \<and> kc_ctxErr r (fst (fst s)) \<noteq> None)"

definition server_contract :: "'w K8sConnector \<Rightarrow> ('w \<Rightarrow> node_versions) \<Rightarrow> string \<Rightarrow> bool" where
  "server_contract r hist name \<longleftrightarrow> reads_versions r hist name \<and> patches_tested r hist name \<and> updates_guarded r hist \<and>
     versions_unique hist \<and> backs_off r"

section \<open>Atomic updates\<close>

text \<open>A version that the connector may commit: its predecessor with the batch folded into its conditions, and nothing else changed.\<close>

definition folded_version :: "'w K8sConnector \<Rightarrow> (string, health_event list) gomap \<Rightarrow> status_node \<Rightarrow> status_node \<Rightarrow> bool" where
  "folded_version r m v n' \<longleftrightarrow>
     (\<exists>now rv. fold_conditions (kc_config r) now (range_conditions r m) (sn_Conditions v, False) = (sn_Conditions n', True) \<and>
        n' = v\<lparr>sn_Conditions := sn_Conditions n', sn_ResourceVersion := rv\<rparr>)"

text \<open>The batch changes nothing on a version.\<close>

definition shown_by :: "'w K8sConnector \<Rightarrow> (string, health_event list) gomap \<Rightarrow> status_node \<Rightarrow> bool" where
  "shown_by r m v \<longleftrightarrow> (\<exists>now. \<not> snd (fold_conditions (kc_config r) now (range_conditions r m) (sn_Conditions v, False)))"

definition only_folds :: "(status_node \<Rightarrow> status_node \<Rightarrow> bool) \<Rightarrow> node_versions \<Rightarrow> node_versions \<Rightarrow> bool" where
  "only_folds ok old new \<longleftrightarrow>
     (\<forall>before n' after. new = before @ (True, n') # after \<longrightarrow> old @ before \<noteq> [] \<and> ok (snd (last (old @ before))) n')"

lemma only_folds_others: "by_other_writers new \<Longrightarrow> only_folds ok old new"
  by (auto simp: only_folds_def by_other_writers_def)

lemma only_folds_append:
  assumes "only_folds ok old xs" and "only_folds ok (old @ xs) ys"
  shows "only_folds ok old (xs @ ys)"
  unfolding only_folds_def
proof (intro allI impI)
  fix before n' after assume split: "xs @ ys = before @ (True, n') # after"
  then consider us where "xs = before @ (True, n') # us" | us where "before = xs @ us" "ys = us @ (True, n') # after"
    by (auto simp: append_eq_append_conv2 Cons_eq_append_conv append_eq_Cons_conv)
  then show "old @ before \<noteq> [] \<and> ok (snd (last (old @ before))) n'"
  proof cases
    case 1
    with assms(1) show ?thesis unfolding only_folds_def by blast
  next
    case 2
    with assms(2) show ?thesis unfolding only_folds_def by (metis append.assoc)
  qed
qed

lemma commits_folds:
  assumes "commits old new_hist ok err"
  shows "\<exists>new. new_hist = old @ new \<and> only_folds ok old new \<and> (err = None \<longrightarrow> (\<exists>n' \<in> set new. fst n'))"
proof -
  from assms obtain before after where o: "by_other_writers before" "by_other_writers after"
    and c: "new_hist = old @ before @ after \<and> err \<noteq> None \<or>
      (\<exists>n'. new_hist = old @ before @ (True, n') # after \<and> old @ before \<noteq> [] \<and> ok (snd (last (old @ before))) n')"
    unfolding commits_def by blast
  from c show ?thesis
  proof (elim disjE exE conjE)
    assume "new_hist = old @ before @ after" "err \<noteq> None"
    moreover have "by_other_writers (before @ after)" using o by (auto simp: by_other_writers_def)
    ultimately show ?thesis using only_folds_others by blast
  next
    fix n' assume n: "new_hist = old @ before @ (True, n') # after" "old @ before \<noteq> []" "ok (snd (last (old @ before))) n'"
    have "only_folds ok (old @ before) [(True, n')]" using n(2,3) by (auto simp: only_folds_def Cons_eq_append_conv)
    from only_folds_append [OF this only_folds_others [OF o(2)]] have "only_folds ok (old @ before) ((True, n') # after)" by simp
    from only_folds_append [OF only_folds_others [OF o(1)] this] n(1) show ?thesis by (intro exI [of _ "before @ (True, n') # after"]) auto
  qed
qed

subsection \<open>A reported change is a change\<close>

abbreviation shown :: "NodeCondition \<Rightarrow> string \<times> string \<times> string" where
  "shown c \<equiv> (nc_Status c, nc_Reason c, nc_Message c)"

lemma condition_index_Some: "condition_index cs t = Some i \<Longrightarrow> i < length cs \<and> nc_Type (cs ! i) = t"
  by (auto simp: condition_index_def find_Some_iff)

lemma folded_type [simp]: "nc_Type (folded_condition c now m es) = nc_Type m"
  by (simp add: folded_condition_def Let_def)

lemma process_effect:
  assumes "processNodeCondition c now t events cs = (cs', changed)"
  shows "length cs \<le> length cs' \<and> (\<forall>i < length cs. nc_Type (cs' ! i) = nc_Type (cs ! i) \<and> (nc_Type (cs ! i) \<noteq> t \<longrightarrow> cs' ! i = cs ! i)) \<and>
    (changed \<longrightarrow> length cs < length cs' \<or> (\<exists>i < length cs. nc_Type (cs ! i) = t \<and> shown (cs' ! i) \<noteq> shown (cs ! i)))"
proof (cases "condition_index cs t")
  case None
  with assms show ?thesis by (auto simp: processNodeCondition_def Let_def nth_append split: if_splits)
next
  case (Some i)
  with assms condition_index_Some [OF Some] show ?thesis
    by (auto simp: processNodeCondition_def Let_def nth_list_update split: if_splits)
qed

lemma fold_effect:
  assumes "fold_conditions c now m (cs, ch) = (cs', ch')"
  shows "length cs \<le> length cs' \<and> (\<forall>i < length cs. nc_Type (cs' ! i) = nc_Type (cs ! i) \<and> (nc_Type (cs ! i) \<notin> fst ` set m \<longrightarrow> cs' ! i = cs ! i))"
  using assms
proof (induction m arbitrary: cs ch)
  case (Cons p m)
  obtain t es where p: "p = (t, es)" by (cases p)
  obtain cs1 ch1 where step: "processNodeCondition c now t es cs = (cs1, ch1)" by fastforce
  from Cons.prems step p have rest: "fold_conditions c now m (cs1, ch \<or> ch1) = (cs', ch')" by simp
  from process_effect [OF step] Cons.IH [OF rest] p show ?case by auto
qed simp

lemma fold_changed:
  assumes "distinct (map fst m)" and "fold_conditions c now m (cs, False) = (cs', True)"
  shows "cs' \<noteq> cs"
  using assms
proof (induction m arbitrary: cs)
  case (Cons p m)
  obtain t es where p: "p = (t, es)" by (cases p)
  obtain cs1 ch1 where step: "processNodeCondition c now t es cs = (cs1, ch1)" by fastforce
  from Cons.prems(2) step p have rest: "fold_conditions c now m (cs1, ch1) = (cs', True)" by simp
  note first = process_effect [OF step] and others = fold_effect [OF rest]
  show ?case
  proof (cases ch1)
    case True
    with first consider "length cs < length cs1" | i where "i < length cs" "nc_Type (cs ! i) = t" "shown (cs1 ! i) \<noteq> shown (cs ! i)" by blast
    then show ?thesis
    proof cases
      case 1
      with others show ?thesis by auto
    next
      case 2
      have "t \<notin> fst ` set m" using Cons.prems(1) p by auto
      with 2 first others have "cs' ! i = cs1 ! i" by auto
      with 2 show ?thesis by auto
    qed
  next
    case False
    with rest Cons have "cs' \<noteq> cs1" by simp
    moreover have "cs1 \<noteq> cs \<Longrightarrow> cs' \<noteq> cs"
    proof
      assume ne: "cs1 \<noteq> cs" and "cs' = cs"
      then have len: "length cs1 = length cs" using first others by simp
      with ne obtain i where i: "i < length cs" "cs1 ! i \<noteq> cs ! i" by (metis nth_equalityI)
      then have "nc_Type (cs ! i) = t" "nc_Type (cs1 ! i) = t" using first by auto
      moreover have "t \<notin> fst ` set m" using Cons.prems(1) p by auto
      ultimately have "cs' ! i = cs1 ! i" using others i len by auto
      with i \<open>cs' = cs\<close> show False by simp
    qed
    ultimately show ?thesis by blast
  qed
qed simp

subsection \<open>One attempt\<close>

definition ranges_over :: "'w K8sConnector \<Rightarrow> bool" where
  "ranges_over r \<longleftrightarrow> (\<forall>m. mset (range_conditions r m) = mset m)"

lemma range_distinct: "ranges_over r \<Longrightarrow> distinct (map fst (range_conditions r (buildConditionEventsMap events)))"
proof -
  assume "ranges_over r"
  then have "mset (map fst (range_conditions r (buildConditionEventsMap events))) = mset (map fst (buildConditionEventsMap events))"
    by (simp add: ranges_over_def flip: mset_map) (simp add: ranges_over_def)
  then show ?thesis using wf_group_by mset_eq_imp_distinct_iff unfolding buildConditionEventsMap_def by blast
qed

definition attempted :: "'w K8sConnector \<Rightarrow> (string, health_event list) gomap \<Rightarrow> node_versions \<Rightarrow> node_versions \<Rightarrow> error option \<Rightarrow> bool" where
  "attempted r m old new_hist err \<longleftrightarrow>
     (\<exists>new. new_hist = old @ new \<and> only_folds (folded_version r m) old new \<and>
        (err = None \<longrightarrow> (\<exists>v \<in> snd ` set new_hist. shown_by r m v) \<or> (\<exists>v \<in> set new. fst v)))"

lemma attempted_others: "by_other_writers xs \<Longrightarrow> attempted r m (old @ xs) h err \<Longrightarrow> attempted r m old h err"
  unfolding attempted_def using only_folds_append only_folds_others by (metis (no_types, opaque_lifting) Un_iff append.assoc set_append)

lemma attempted_after: "attempted r m old h err \<Longrightarrow> by_other_writers ys \<Longrightarrow> (err' = None \<longrightarrow> err = None) \<Longrightarrow> attempted r m old (h @ ys) err'"
proof -
  assume a: "attempted r m old h err" and ys: "by_other_writers ys" and e: "err' = None \<longrightarrow> err = None"
  from a obtain new where new: "h = old @ new" "only_folds (folded_version r m) old new"
    "err = None \<longrightarrow> (\<exists>v \<in> snd ` set h. shown_by r m v) \<or> (\<exists>v \<in> set new. fst v)" unfolding attempted_def by (elim exE conjE) (rule that)
  have "only_folds (folded_version r m) old (new @ ys)" by (rule only_folds_append [OF new(2) only_folds_others [OF ys]])
  moreover have "err' = None \<longrightarrow> (\<exists>v \<in> snd ` set (h @ ys). shown_by r m v) \<or> (\<exists>v \<in> set (new @ ys). fst v)" using new(3) e by auto
  ultimately show ?thesis unfolding attempted_def using new(1) by (intro exI [of _ "new @ ys"]) simp
qed

lemma committed_attempted:
  assumes "commits old h ok err" and "\<And>v n'. v \<in> snd ` set h \<Longrightarrow> ok v n' \<Longrightarrow> folded_version r m v n'"
  shows "attempted r m old h err"
proof -
  from commits_folds [OF assms(1)] obtain new where new: "h = old @ new" "only_folds ok old new" "err = None \<longrightarrow> (\<exists>n' \<in> set new. fst n')" by blast
  have "only_folds (folded_version r m) old new"
    unfolding only_folds_def
  proof (intro allI impI)
    fix before n' after assume split: "new = before @ (True, n') # after"
    then have ok: "old @ before \<noteq> [] \<and> ok (snd (last (old @ before))) n'" using new(2) unfolding only_folds_def by blast
    then have "last (old @ before) \<in> set (old @ before)" by (intro last_in_set) blast
    then have "snd (last (old @ before)) \<in> snd ` set h" unfolding new(1) split by auto
    with ok assms(2) show "old @ before \<noteq> [] \<and> folded_version r m (snd (last (old @ before))) n'" by blast
  qed
  with new show ?thesis unfolding attempted_def by blast
qed

lemma unique_version:
  assumes "versions_unique hist" and "v \<in> snd ` set (hist w)" and "n \<in> snd ` set (hist w)" and "sn_ResourceVersion v = sn_ResourceVersion n"
  shows "v = n"
proof -
  from assms(2,3) obtain i j where i: "i < length (hist w)" "v = snd (hist w ! i)" and j: "j < length (hist w)" "n = snd (hist w ! j)"
    by (auto simp: in_set_conv_nth)
  have "map (\<lambda>v. sn_ResourceVersion (snd v)) (hist w) ! i = map (\<lambda>v. sn_ResourceVersion (snd v)) (hist w) ! j"
    using i j assms(4) by simp
  moreover have "distinct (map (\<lambda>v. sn_ResourceVersion (snd v)) (hist w))" using assms(1) by (simp add: versions_unique_def)
  ultimately have "i = j" using i(1) j(1) by (metis length_map nth_eq_iff_index_eq)
  with i j show ?thesis by simp
qed

lemma attempt_folds:
  assumes con: "server_contract r hist name" and dist: "distinct (map fst (range_conditions r m))"
    and run: "readAndUpdateNode r name m w = (w', skipped, err)"
  shows "attempted r m (hist w) (hist w') err \<and> (skipped \<longrightarrow> err = None)"
proof -
  from con have reads: "reads_versions r hist name" and patches: "patches_tested r hist name" and updates: "updates_guarded r hist"
    and unique: "versions_unique hist" by (simp_all add: server_contract_def)
  obtain w1 x where get: "kc_GetNode r w name = (w1, x)" by fastforce
  then obtain xs where xs: "by_other_writers xs" "hist w1 = hist w @ xs" using reads unfolding reads_versions_def by blast
  have idle: "attempted r m (hist w) (hist w1) (Some e)" for e
    unfolding attempted_def using xs only_folds_others by blast
  show ?thesis
  proof (cases x)
    case (Inl e)
    with run get idle show ?thesis by (auto simp: readAndUpdateNode_def)
  next
    case (Inr n)
    then have n: "n \<in> snd ` set (hist w1)" using reads get unfolding reads_versions_def by blast
    obtain updated changed where fold: "fold_conditions (kc_config r) (kc_now r w1) (range_conditions r m) (sn_Conditions n, False) = (updated, changed)"
      by fastforce
    have folded: "folded_version r m v n'" if "sn_Conditions v = sn_Conditions n" "n' = v\<lparr>sn_Conditions := updated, sn_ResourceVersion := rv\<rparr>" changed
      for v n' rv using fold that unfolding folded_version_def by (intro exI [of _ "kc_now r w1"] exI [of _ rv]) simp
    consider (same) "\<not> changed" | (fresh) "changed" "sn_Conditions n = []" | (bad) e where "changed" "sn_Conditions n \<noteq> []" "marshal_error r (conditionsPatch (sn_Conditions n) updated) = Some e"
      | (patch) "changed" "sn_Conditions n \<noteq> []" "marshal_error r (conditionsPatch (sn_Conditions n) updated) = None" by blast
    then show ?thesis
    proof cases
      case same
      with run get Inr fold have r: "w' = w1" "err = None" by (simp_all add: readAndUpdateNode_def)
      have "shown_by r m n" using fold same unfolding shown_by_def by (metis snd_conv)
      then show ?thesis using r n xs only_folds_others unfolding attempted_def by blast
    next
      case fresh
      with run get Inr fold have up: "kc_UpdateStatus r w1 (n\<lparr>sn_Conditions := updated\<rparr>) = (w', err)" and "\<not> skipped"
        by (auto simp: readAndUpdateNode_def split: prod.splits)
      from updates up have c: "commits (hist w1) (hist w')
          (\<lambda>v n'. sn_ResourceVersion v = sn_ResourceVersion n \<and> (\<exists>rv. n' = v\<lparr>sn_Conditions := updated, sn_ResourceVersion := rv\<rparr>)) err"
        unfolding updates_guarded_def by fastforce
      from commits_folds [OF c] have "set (hist w1) \<subseteq> set (hist w')" by auto
      then have "v = n" if "v \<in> snd ` set (hist w')" "sn_ResourceVersion v = sn_ResourceVersion n" for v
        using unique_version [OF unique that(1) _ that(2)] n by blast
      then have "attempted r m (hist w1) (hist w') err" using committed_attempted [OF c] folded fresh(1) by metis
      with xs \<open>\<not> skipped\<close> show ?thesis by (metis attempted_others)
    next
      case bad
      with run get Inr fold have "w' = w1" "err = Some e" "\<not> skipped" by (simp_all add: readAndUpdateNode_def)
      with idle show ?thesis by simp
    next
      case patch
      obtain w2 e2 where pt: "kc_Patch r w1 name (conditionsPatch (sn_Conditions n) updated) = (w2, e2)" by fastforce
      with run get Inr fold patch have check: "conditionTestFailedAsConflict r name (sn_ResourceVersion n) e2 w2 = (w', err)" and "\<not> skipped"
        by (auto simp: readAndUpdateNode_def split: prod.splits)
      have ne: "sn_Conditions n \<noteq> updated" using fold_changed [OF dist] fold patch(1) by auto
      have c: "commits (hist w1) (hist w2)
          (\<lambda>v n'. sn_Conditions v = sn_Conditions n \<and> (\<exists>rv. n' = v\<lparr>sn_Conditions := updated, sn_ResourceVersion := rv\<rparr>)) e2"
        by (rule patches [unfolded patches_tested_def, rule_format, OF ne pt [unfolded conditionsPatch_def]])
      have "attempted r m (hist w1) (hist w2) e2" using committed_attempted [OF c] folded patch(1) by metis
      moreover have "\<exists>ys. by_other_writers ys \<and> hist w' = hist w2 @ ys" "err = None \<longrightarrow> e2 = None"
        using check reads unfolding reads_versions_def conditionTestFailedAsConflict_def
        by (auto simp: by_other_writers_def split: option.splits if_splits prod.splits sum.splits)
      ultimately have "attempted r m (hist w1) (hist w') err" using attempted_after by metis
      with xs \<open>\<not> skipped\<close> show ?thesis by (metis attempted_others)
    qed
  qed
qed

subsection \<open>All attempts\<close>

lemma attempted_trans: "attempted r m old h e1 \<Longrightarrow> attempted r m h h' err \<Longrightarrow> attempted r m old h' err"
proof -
  assume "attempted r m old h e1" "attempted r m h h' err"
  then obtain xs ys where xs: "h = old @ xs" "only_folds (folded_version r m) old xs" and ys: "h' = h @ ys" "only_folds (folded_version r m) h ys"
    "err = None \<longrightarrow> (\<exists>v \<in> snd ` set h'. shown_by r m v) \<or> (\<exists>v \<in> set ys. fst v)" unfolding attempted_def by (elim exE conjE) (rule that)
  have "only_folds (folded_version r m) old (xs @ ys)" by (rule only_folds_append [OF xs(2) ys(2) [unfolded xs(1)]])
  with xs(1) ys(1,3) show ?thesis unfolding attempted_def by (intro exI [of _ "xs @ ys"]) auto
qed

definition condition_try :: "'w K8sConnector \<Rightarrow> string \<Rightarrow> (string, health_event list) gomap \<Rightarrow> 'w backoff_state \<Rightarrow> 'w backoff_state \<times> (error + bool)" where
  "condition_try r name m = (\<lambda>(st, _).
     case (\<lambda>(w, _, x). let (w1, skipped, err) = readAndUpdateNode r name m w in ((w1, skipped, x), err)) st of
       (st1, None) \<Rightarrow> ((st1, None), Inr True)
     | (st1, Some e) \<Rightarrow> ((st1, Some e), if IsConflict e \<or> isTemporaryError r e then Inr False else Inl e))"

lemma try_folds:
  assumes "server_contract r hist name" and "distinct (map fst (range_conditions r m))"
    and "condition_try r name m ((w, k, x), le) = (((w', k', x'), le'), res)"
  shows "attempted r m (hist w) (hist w') le' \<and> (k' \<longrightarrow> le' = None) \<and> (res = Inr True \<longleftrightarrow> le' = None)"
proof -
  obtain w1 sk err where run: "readAndUpdateNode r name m w = (w1, sk, err)" by (metis prod_cases3)
  with assms(3) have "w1 = w'" "sk = k'" "err = le'" "res = Inr True \<longleftrightarrow> le' = None"
    by (auto simp: condition_try_def split: option.splits if_splits)
  with attempt_folds [OF assms(1,2) run] show ?thesis by simp
qed

lemma tries_fold:
  assumes con: "server_contract r hist name" and dist: "distinct (map fst (range_conditions r m))"
    and "backed_off (condition_try r name m) s s' e"
  shows "attempted r m (hist (fst (fst s))) (hist (fst (fst s'))) (snd s') \<and> (fst (snd (fst s')) \<longrightarrow> snd s' = None) \<and> (e = None \<longleftrightarrow> snd s' = None)"
proof -
  have one: "attempted r m (hist (fst (fst s))) (hist (fst (fst s1))) (snd s1) \<and> (fst (snd (fst s1)) \<longrightarrow> snd s1 = None) \<and> (res = Inr True \<longleftrightarrow> snd s1 = None)"
    if "condition_try r name m s = (s1, res)" for s s1 res
  proof -
    obtain w k x le w' k' x' le' where "s = ((w, k, x), le)" "s1 = ((w', k', x'), le')" by (metis prod.collapse)
    with try_folds [OF con dist, of w k x le w' k' x' le' res] that show ?thesis by simp
  qed
  show ?thesis using assms(3)
  proof induction
    case (gave_up s s' e)
    with one [OF gave_up] show ?case by auto
  next
    case (succeeded s s')
    with one [OF succeeded] show ?case by auto
  next
    case (failed s s' e)
    with one [OF failed] show ?case by auto
  next
    case (again s s1 s' e)
    with one [OF again(1)] attempted_trans show ?case by blast
  qed
qed

text \<open>
  C34. Whatever other writers do to the node, and whether or not the outcome of a write is reported, every version of the node that
  an update of its conditions commits is the version before it with the batch folded into its conditions and nothing else changed,
  so no change by another writer is undone. If the update reports success, it has committed a version, or there is a version on which the batch
  changes nothing.
\<close>

theorem condition_update_atomic:
  assumes con: "server_contract r hist (NodeName (hd events))" and range: "ranges_over r" and events: "events \<noteq> []"
    and run: "updateNodeConditions r events w = (w', processed, err)"
  shows "\<exists>new. hist w' = hist w @ new \<and>
    (\<forall>before n' after. new = before @ (True, n') # after \<longrightarrow>
       hist w @ before \<noteq> [] \<and> folded_version r (buildConditionEventsMap events) (snd (last (hist w @ before))) n') \<and>
    (err = None \<longrightarrow> buildConditionEventsMap events = [] \<or> (\<exists>v \<in> snd ` set (hist w'). shown_by r (buildConditionEventsMap events) v) \<or>
       (\<exists>v \<in> set new. fst v))"
proof (cases "buildConditionEventsMap events = []")
  case True
  with run show ?thesis by (auto simp: updateNodeConditions_def)
next
  case False
  let ?m = "buildConditionEventsMap events" and ?name = "NodeName (hd events)"
  have name: "(case events of [] \<Rightarrow> [] | e # _ \<Rightarrow> NodeName e) = ?name" using events by (cases events) simp_all
  obtain w1 k x le e where boff: "kc_backoff r (condition_try r ?name ?m) ((w, False, False), None) = (((w1, k, x), le), e)" by (metis prod.collapse)
  define err' where "err' = (if (case e of None \<Rightarrow> False | Some e \<Rightarrow> Interrupted r e) \<and> kc_ctxErr r w1 = None then le else e)"
  have res: "w' = w1" "err = None \<Longrightarrow> k \<or> err' = None"
    using run boff False unfolding updateNodeConditions_def retryKubernetesAPIWrite_def name condition_try_def [symmetric]
    by (auto simp: Let_def err'_def condition_try_def split: if_splits option.splits)
  have "backed_off (condition_try r ?name ?m) ((w, False, False), None) ((w1, k, x), le) e \<or>
      ((w1, k, x), le) = ((w, False, False), None) \<and> e \<noteq> None \<and> kc_ctxErr r w \<noteq> None"
    using con boff unfolding server_contract_def backs_off_def by fastforce
  then have "attempted r ?m (hist w) (hist w') err"
  proof
    assume "backed_off (condition_try r ?name ?m) ((w, False, False), None) ((w1, k, x), le) e"
    from tries_fold [OF con range_distinct [OF range] this] have t: "attempted r ?m (hist w) (hist w1) le" "k \<longrightarrow> le = None" "e = None \<longleftrightarrow> le = None" by simp_all
    have "err = None \<longrightarrow> le = None" using res(2) t(2,3) by (auto simp: err'_def split: if_splits)
    with attempted_after [OF t(1), of "[]" err] res(1) show ?thesis by (simp add: by_other_writers_def)
  next
    assume n: "((w1, k, x), le) = ((w, False, False), None) \<and> e \<noteq> None \<and> kc_ctxErr r w \<noteq> None"
    have "err \<noteq> None"
    proof
      assume "err = None"
      with n res(2) show False by (auto simp: err'_def)
    qed
    with n res(1) show ?thesis unfolding attempted_def by (auto simp: only_folds_def)
  qed
  then show ?thesis unfolding attempted_def only_folds_def by blast
qed

text \<open>A server with one node, whose conditions another controller may change before a patch arrives.\<close>

type_synonym node_server = "node_versions \<times> NodeCondition list list"

definition numbered :: "node_server \<Rightarrow> node_versions" where
  "numbered s = map (\<lambda>(i, own, n). (own, n\<lparr>sn_ResourceVersion := fmt_nat i\<rparr>)) (enumerate 0 (fst s))"

definition meanwhile :: "node_server \<Rightarrow> node_server" where
  "meanwhile s = (case snd s of [] \<Rightarrow> s | cs # rest \<Rightarrow> (fst s @ [(False, (snd (last (fst s)))\<lparr>sn_Conditions := cs\<rparr>)], rest))"

fun try_again :: "nat \<Rightarrow> ('s \<Rightarrow> 's \<times> (error + bool)) \<Rightarrow> 's \<Rightarrow> 's \<times> error option" where
  "try_again k fn s =
     (case fn s of
        (s', Inr True) \<Rightarrow> (s', None)
      | (s', Inl e) \<Rightarrow> (s', Some e)
      | (s', Inr False) \<Rightarrow> (case k of 0 \<Rightarrow> (s', Some (EText ''timed out'')) | Suc k' \<Rightarrow> try_again k' fn s'))"

declare try_again.simps [simp del]

definition small_connector :: "node_server K8sConnector" where
  "small_connector = \<lparr>kc_config = \<lparr>MaxNodeConditionMessageLength = 1024, CompactedHealthEventMsgLen = 72, kc_MaxRetries = 2, kc_MaxRetryDuration = 1\<rparr>,
     kc_GetNode = (\<lambda>s _. (s, if fst s = [] then Inl (EStatus ''NotFound'') else Inr (snd (last (numbered s))))),
     kc_UpdateStatus = (\<lambda>s n. (s, Some (EStatus ''Conflict''))),
     kc_Patch = (\<lambda>s _ ops. let s1 = meanwhile s in
        case ops of [PatchTest _ a, PatchAdd _ b] \<Rightarrow>
          if fst s1 \<noteq> [] \<and> sn_Conditions (snd (last (fst s1))) = a
          then ((fst s1 @ [(True, (snd (last (fst s1)))\<lparr>sn_Conditions := b\<rparr>)], snd s1), None) else (s1, Some (EStatus ''Invalid''))
        | _ \<Rightarrow> (s1, Some (EStatus ''Invalid''))),
     marshal_error = (\<lambda>_. None), kc_GetEvent = (\<lambda>s _. (s, Inl (EStatus ''NotFound''))), kc_CreateEvent = (\<lambda>s _. (s, None)),
     kc_UpdateEvent = (\<lambda>s _. (s, None)), kc_backoff = try_again 4, Interrupted = (\<lambda>_. True), kc_ctxErr = (\<lambda>_. None), kc_parentErr = (\<lambda>_. None),
     kc_interrupt = (\<lambda>_. None), kc_wait = (\<lambda>s _. (s, None)), kc_now = (\<lambda>_. 9), memory_Get = (\<lambda>_ _. None), memory_Add = (\<lambda>s _ _. s),
     memory_Set = (\<lambda>s _ _. s), memory_Remove = (\<lambda>s _. s), error_text = (\<lambda>_. []), net_timeout = (\<lambda>_. False), is_syscall = (\<lambda>_. False),
     is_EOF = (\<lambda>_. False), range_conditions = (\<lambda>m. m), kc_retryBaseDelay = 1, kc_retryMaxDelay = 1\<rparr>"

definition ready :: NodeCondition where
  "ready = \<lparr>nc_Type = ''Ready'', nc_Status = ''True'', nc_Reason = ''KubeletReady'', nc_Message = [], nc_LastHeartbeatTime = 1, nc_LastTransitionTime = 1\<rparr>"

definition contended :: node_server where
  "contended = ([(False, \<lparr>sn_Name = ''n1'', sn_ResourceVersion = [], sn_Conditions = [ready], sn_Rest = ''labels''\<rparr>)], [[ready\<lparr>nc_LastHeartbeatTime := 2\<rparr>]])"

lemma contended_run:
  "(let (s, processed, err) = updateNodeConditions small_connector [xid_fault\<lparr>NodeName := ''n1''\<rparr>] contended in
      processed \<and> err = None \<and> map fst (fst s) = [False, False, True] \<and>
      map nc_Type (sn_Conditions (snd (last (fst s)))) = [''Ready'', ''GpuXidError''] \<and> sn_Conditions (snd (last (fst s))) ! 0 = ready\<lparr>nc_LastHeartbeatTime := 2\<rparr>)"
  by code_simp

lemma numbered_snoc: "numbered (vs @ [(own, n)], q) = numbered (vs, q') @ [(own, n\<lparr>sn_ResourceVersion := fmt_nat (length vs)\<rparr>)]"
  by (simp add: numbered_def enumerate_append_eq)

lemma numbered_last: "vs \<noteq> [] \<Longrightarrow> numbered (vs, q) \<noteq> [] \<and> (\<exists>rv. snd (last (numbered (vs, q))) = (snd (last vs))\<lparr>sn_ResourceVersion := rv\<rparr>)"
  by (cases vs rule: rev_cases) (auto simp: numbered_def enumerate_append_eq)

lemma numbered_meanwhile: "\<exists>xs. by_other_writers xs \<and> numbered (meanwhile s) = numbered s @ xs"
proof (cases "snd s")
  case Nil
  then show ?thesis by (auto simp: meanwhile_def by_other_writers_def)
next
  case (Cons cs rest)
  then have "meanwhile s = (fst s @ [(False, (snd (last (fst s)))\<lparr>sn_Conditions := cs\<rparr>)], rest)" by (simp add: meanwhile_def)
  moreover have "numbered (fst s, snd s) = numbered s" by simp
  ultimately show ?thesis using numbered_snoc [of "fst s" False "(snd (last (fst s)))\<lparr>sn_Conditions := cs\<rparr>" rest "snd s"]
    by (intro exI [of _ "[(False, (snd (last (fst s)))\<lparr>sn_Conditions := cs, sn_ResourceVersion := fmt_nat (length (fst s))\<rparr>)]"])
      (simp add: by_other_writers_def)
qed

lemma small_patches: "patches_tested small_connector numbered name"
  unfolding patches_tested_def
proof (intro allI impI)
  fix s s' a b e
  assume "kc_Patch small_connector s name [PatchTest ''/status/conditions'' a, PatchAdd ''/status/conditions'' b] = (s', e)"
  then have run: "(if fst (meanwhile s) \<noteq> [] \<and> sn_Conditions (snd (last (fst (meanwhile s)))) = a
      then ((fst (meanwhile s) @ [(True, (snd (last (fst (meanwhile s))))\<lparr>sn_Conditions := b\<rparr>)], snd (meanwhile s)), None)
      else (meanwhile s, Some (EStatus ''Invalid''))) = (s', e)" by (simp add: small_connector_def Let_def)
  obtain xs where xs: "by_other_writers xs" "numbered (meanwhile s) = numbered s @ xs" using numbered_meanwhile by blast
  let ?ok = "\<lambda>v n'. sn_Conditions v = a \<and> (\<exists>rv. n' = v\<lparr>sn_Conditions := b, sn_ResourceVersion := rv\<rparr>)"
  have none: "by_other_writers []" by (simp add: by_other_writers_def)
  show "commits (numbered s) (numbered s') ?ok e"
  proof (cases "fst (meanwhile s) \<noteq> [] \<and> sn_Conditions (snd (last (fst (meanwhile s)))) = a")
    case False
    with run xs none show ?thesis unfolding commits_def by (intro exI [of _ xs] exI [of _ "[]"]) auto
  next
    case True
    let ?n = "(snd (last (fst (meanwhile s))))\<lparr>sn_Conditions := b, sn_ResourceVersion := fmt_nat (length (fst (meanwhile s)))\<rparr>"
    have "numbered s' = numbered s @ xs @ [(True, ?n)]"
      using run True xs(2) numbered_snoc [of "fst (meanwhile s)" True _ "snd (meanwhile s)" "snd (meanwhile s)"] by auto
    moreover from numbered_last [of "fst (meanwhile s)" "snd (meanwhile s)"] True xs(2) obtain rv where
      "numbered s @ xs \<noteq> []" "snd (last (numbered s @ xs)) = (snd (last (fst (meanwhile s))))\<lparr>sn_ResourceVersion := rv\<rparr>" by auto
    moreover from this(2) have "?ok (snd (last (numbered s @ xs))) ?n" using True by auto
    ultimately show ?thesis using xs(1) none unfolding commits_def by (intro exI [of _ xs] exI [of _ "[]"]) auto
  qed
qed

lemma try_again_backs_off: "try_again k fn s = (s', e) \<Longrightarrow> backed_off fn s s' e"
proof (induction k arbitrary: s)
  case 0
  then show ?case by (subst (asm) try_again.simps) (auto split: prod.splits sum.splits bool.splits intro: backed_off.intros)
next
  case (Suc k)
  from Suc.prems show ?case
    by (subst (asm) try_again.simps) (auto split: prod.splits sum.splits bool.splits intro: backed_off.succeeded backed_off.failed backed_off.again Suc.IH)
qed

lemma small_contract: "server_contract small_connector numbered name"
  unfolding server_contract_def
proof (intro conjI small_patches)
  show "reads_versions small_connector numbered name"
  proof -
    have "snd (last (numbered s)) \<in> snd ` set (numbered s)" if "fst s \<noteq> []" for s
      using numbered_last [of "fst s" "snd s"] that by simp
    then show ?thesis by (auto simp: reads_versions_def small_connector_def by_other_writers_def split: if_splits)
  qed
  show "updates_guarded small_connector numbered"
    unfolding updates_guarded_def commits_def by (auto simp: small_connector_def by_other_writers_def intro!: exI [of _ "[]"])
  show "versions_unique numbered"
    by (auto simp: versions_unique_def numbered_def distinct_conv_nth nth_enumerate_eq split: prod.splits dest!: fmt_nat_inj)
  show "backs_off small_connector"
    unfolding backs_off_def by (simp add: small_connector_def try_again_backs_off)
qed

theorem condition_update_atomic_witness:
  "\<exists>v n'. numbered (fst (updateNodeConditions small_connector [xid_fault\<lparr>NodeName := ''n1''\<rparr>] contended)) = numbered contended @ [(False, v), (True, n')] \<and>
     folded_version small_connector (buildConditionEventsMap [xid_fault\<lparr>NodeName := ''n1''\<rparr>]) v n'"
proof -
  let ?events = "[xid_fault\<lparr>NodeName := ''n1''\<rparr>]"
  let ?run = "updateNodeConditions small_connector ?events contended"
  have run: "?run = (fst ?run, fst (snd ?run), snd (snd ?run))" by simp
  have "map fst (numbered (fst ?run)) = [False, False, True]" by code_simp
  moreover have "length (numbered contended) = 1" by code_simp
  moreover obtain new where new: "numbered (fst ?run) = numbered contended @ new"
    "\<forall>before n' after. new = before @ (True, n') # after \<longrightarrow> numbered contended @ before \<noteq> [] \<and>
       folded_version small_connector (buildConditionEventsMap ?events) (snd (last (numbered contended @ before))) n'"
    using condition_update_atomic [OF small_contract _ _ run] by (auto simp: ranges_over_def small_connector_def)
  ultimately obtain v n' where "new = [(False, v), (True, n')]"
    by (cases "numbered contended"; cases new; cases "tl new") auto
  moreover from this have "folded_version small_connector (buildConditionEventsMap ?events) v n'"
    using new(2) [rule_format, of "[(False, v)]" n' "[]"] by simp
  ultimately show ?thesis using new(1) by blast
qed

section \<open>Batches sent again\<close>

definition separate :: "string \<Rightarrow> bool" where
  "separate m \<longleftrightarrow> CHR '';'' \<notin> set m \<and> \<not> (m = [] \<or> m = truncationSuffix \<or> isNoHealthFailureMessage m)"

lemma fitting_text:
  assumes "list_all separate messages" and "int (totalMessageLength messages) \<le> MaxNodeConditionMessageLength c"
  shows "parseMessages (truncateNodeConditionMessage c messages) = messages"
proof -
  have shrink: "shrink_messages c messages = messages" using assms(2) by (simp add: shrink_messages_def)
  have "write_messages (MaxNodeConditionMessageLength c) [] messages [] = (join_with '';'' messages, False)"
    using write_fits [of "[]" messages "[]" "MaxNodeConditionMessageLength c"] join_length [of messages] assms(2)
    by (cases "messages = []") (simp_all add: totalMessageLength_def)
  then have "truncateNodeConditionMessage c messages = join_with '';'' messages @ '';''" by (simp add: truncateNodeConditionMessage_def shrink)
  moreover have "list_all (\<lambda>m. CHR '';'' \<notin> set m) messages"
    "filter (\<lambda>m. \<not> (m = [] \<or> m = truncationSuffix \<or> isNoHealthFailureMessage m)) messages = messages"
    using assms(1) by (auto simp: list_all_iff separate_def filter_id_conv)
  ultimately show ?thesis by (cases "messages = []") (simp_all add: parseMessages_def split_joined)
qed

lemma split_separate: "p \<in> set (split_on sep s) \<Longrightarrow> sep \<notin> set p"
proof (induction s arbitrary: p)
  case (Cons c s)
  have "split_on sep s \<noteq> []" by (induction s) (auto split: list.splits)
  then obtain q qs where "split_on sep s = q # qs" by (cases "split_on sep s") auto
  with Cons show ?case by (cases "c = sep") auto
qed simp

lemma parse_separate: "list_all separate (parseMessages s)"
  by (auto simp: parseMessages_def separate_def list_all_iff dest: split_separate)

lemma faults_appended: "list_all (\<lambda>e. \<not> IsHealthy e) es \<Longrightarrow> \<exists>xs. aggregateEventMessages ms es = ms @ xs"
proof (induction es arbitrary: ms)
  case (Cons e es)
  have "\<exists>xs. aggregate_event e ms = ms @ xs" using Cons.prems by (auto simp: aggregate_event_def addMessageIfNotExist_def Let_def)
  then obtain xs where "aggregate_event e ms = ms @ xs" by blast
  moreover obtain ys where "aggregateEventMessages (ms @ xs) es = (ms @ xs) @ ys" using Cons.IH [of "ms @ xs"] Cons.prems by auto
  ultimately show ?case by (auto simp: aggregateEventMessages_def)
qed (simp add: aggregateEventMessages_def)

lemma fault_listed: "list_ex (\<lambda>m. m @ '';'' = constructHealthEventMessage e \<or> messagesMatchByIdentity m (butlast (constructHealthEventMessage e))) (addMessageIfNotExist ms e)"
  by (auto simp: addMessageIfNotExist_def Let_def fault_message)

lemma faults_twice:
  assumes "list_all (\<lambda>e. \<not> IsHealthy e) es" and "prefix (aggregateEventMessages ms es) ms'"
  shows "aggregateEventMessages ms' es = ms'"
  using assms
proof (induction es arbitrary: ms)
  case (Cons e es)
  have e: "aggregate_event e ms = addMessageIfNotExist ms e" "aggregate_event e ms' = addMessageIfNotExist ms' e"
    using Cons.prems(1) by (simp_all add: aggregate_event_def)
  from faults_appended [of es "aggregate_event e ms"] Cons.prems obtain zs where "ms' = aggregate_event e ms @ zs"
    by (auto simp: aggregateEventMessages_def prefix_def)
  then have "aggregate_event e ms' = ms'" using fault_listed [of e ms] unfolding e by (simp add: addMessageIfNotExist_def Let_def)
  moreover have "aggregateEventMessages ms' es = ms'" using Cons by (simp add: aggregateEventMessages_def)
  ultimately show ?case by (simp add: aggregateEventMessages_def)
qed (simp add: aggregateEventMessages_def)

lemma condition_written:
  assumes "events \<noteq> []" and "processNodeCondition c now t events conditions = (conditions', changed)"
  obtains i old where "i < length conditions'" and "condition_index conditions' t = Some i"
    and "shown (conditions' ! i) = shown (folded_condition c now old events)" and "old \<in> set conditions \<or> nc_Message old = []"
proof (cases "condition_index conditions t")
  case None
  let ?old = "\<lparr>nc_Type = t, nc_Status = [], nc_Reason = [], nc_Message = [], nc_LastHeartbeatTime = safeTimestamp now (GeneratedTimestamp (last events)),
    nc_LastTransitionTime = safeTimestamp now (GeneratedTimestamp (last events))\<rparr>"
  have cs: "conditions' = conditions @ [folded_condition c now ?old events]" using assms(1,2) None by (simp add: processNodeCondition_def Let_def)
  have "\<forall>j < length conditions. nc_Type (conditions ! j) \<noteq> t" using None by (auto simp: condition_index_def find_None_iff)
  then have "condition_index conditions' t = Some (length conditions)"
    unfolding condition_index_def cs find_upt_Some by (simp add: nth_append)
  then show ?thesis using cs by (intro that [of "length conditions" ?old]) simp_all
next
  case (Some i)
  have i: "i < length conditions" "nc_Type (conditions ! i) = t" "\<forall>j < i. nc_Type (conditions ! j) \<noteq> t"
    using Some unfolding condition_index_def find_upt_Some by simp_all
  let ?f = "folded_condition c now (conditions ! i) events"
  let ?x = "if nc_Status ?f \<noteq> nc_Status (conditions ! i)
    then ?f\<lparr>nc_LastTransitionTime := safeTimestamp now (GeneratedTimestamp (last events))\<rparr> else ?f"
  have cs: "conditions' = conditions[i := ?x]" using assms(1,2) Some by (simp add: processNodeCondition_def Let_def)
  have x: "shown ?x = shown ?f" "nc_Type ?x = t" using i(2) by simp_all
  then have "condition_index conditions' t = Some i" using i unfolding condition_index_def find_upt_Some cs by simp
  then show ?thesis using i x by (intro that [of i "conditions ! i"]) (simp_all add: cs)
qed

lemma faults_listed:
  assumes "events \<noteq> []" and "list_all (\<lambda>e. \<not> IsHealthy e) events"
  shows "aggregateEventMessages messages events \<noteq> []"
proof -
  obtain e es where es: "events = e # es" using assms(1) by (cases events) auto
  let ?m1 = "addMessageIfNotExist (messages) e"
  have "?m1 \<noteq> []" using fault_listed [of e "messages"] by auto
  moreover obtain xs where "aggregateEventMessages ?m1 es = ?m1 @ xs" using faults_appended [of es ?m1] assms(2) es by auto
  ultimately show ?thesis using es assms(2) by (simp add: aggregateEventMessages_def aggregate_event_def)
qed

text \<open>
  C35. A batch of faults of a check that is sent again changes nothing that the condition shows, so it is not written again, as long as the
  entries fit and no code or entity has a semicolon.
\<close>

theorem resent_faults_change_nothing:
  assumes "list_all (\<lambda>e. \<not> IsHealthy e \<and> separate (fault_entry e)) events" and "events \<noteq> []"
    and "processNodeCondition c now t events conditions = (conditions', changed)"
    and "\<forall>message \<in> insert [] (nc_Message ` set conditions).
      int (totalMessageLength (aggregateEventMessages (parseMessages message) events)) \<le> MaxNodeConditionMessageLength c"
  shows "\<not> snd (processNodeCondition c now' t events conditions')"
proof -
  obtain i old where i: "i < length conditions'" "condition_index conditions' t = Some i" "shown (conditions' ! i) = shown (folded_condition c now old events)"
    "old \<in> set conditions \<or> nc_Message old = []"
    using assms(2,3) by (rule condition_written)
  let ?ms = "aggregateEventMessages (parseMessages (nc_Message old)) events"
  have fits: "int (totalMessageLength ?ms) \<le> MaxNodeConditionMessageLength c" using assms(4) i(4) by auto
  have faults: "list_all (\<lambda>e. \<not> IsHealthy e) events" using assms(1) by (simp add: list_all_iff)
  have sep: "list_all separate (aggregateEventMessages ms events)" if "list_all separate ms" for ms
    using assms(1) that by (induction events arbitrary: ms)
      (auto simp: aggregateEventMessages_def aggregate_event_def addMessageIfNotExist_def Let_def fault_entry_def)
  have ne: "?ms \<noteq> []" using assms(2) faults by (rule faults_listed)
  have text1: "shown (conditions' ! i) = (ConditionTrue, updateHealthEventReason (CheckName (last events)) False, truncateNodeConditionMessage c ?ms)"
    using i(3) ne by (simp add: folded_condition_def Let_def)
  have "aggregateEventMessages (parseMessages (nc_Message (conditions' ! i))) events = ?ms"
    using text1 fitting_text [OF sep [OF parse_separate] fits] faults_twice [OF faults prefix_order.refl] by simp
  then have "shown (folded_condition c now' (conditions' ! i) events) = shown (conditions' ! i)"
    using text1 ne by (simp add: folded_condition_def Let_def)
  then show ?thesis using i(2) assms(2) by (auto simp: processNodeCondition_def Let_def split: if_splits)
qed

theorem resent_faults_change_nothing_witness:
  "snd (processNodeCondition (kc_config small_connector) 9 ''GpuXidError'' [xid_fault, driver_fault] [ready]) \<and>
   \<not> snd (processNodeCondition (kc_config small_connector) 10 ''GpuXidError'' [xid_fault, driver_fault]
     (fst (processNodeCondition (kc_config small_connector) 9 ''GpuXidError'' [xid_fault, driver_fault] [ready])))"
proof
  show "snd (processNodeCondition (kc_config small_connector) 9 ''GpuXidError'' [xid_fault, driver_fault] [ready])" by code_simp
  show "\<not> snd (processNodeCondition (kc_config small_connector) 10 ''GpuXidError'' [xid_fault, driver_fault]
     (fst (processNodeCondition (kc_config small_connector) 9 ''GpuXidError'' [xid_fault, driver_fault] [ready])))"
  proof (rule resent_faults_change_nothing [OF _ _ prod.collapse [symmetric]])
    show "list_all (\<lambda>e. \<not> IsHealthy e \<and> separate (fault_entry e)) [xid_fault, driver_fault]" by code_simp
    show "\<forall>message \<in> insert [] (nc_Message ` set [ready]). int (totalMessageLength (aggregateEventMessages (parseMessages message) [xid_fault, driver_fault]))
        \<le> MaxNodeConditionMessageLength (kc_config small_connector)" by code_simp
  qed simp
qed

text \<open>
  With a recovery in the batch this fails: a fault that the batch first clears and then reports again moves behind a fault that
  follows it when the batch is sent again.
\<close>

definition flapping :: "health_event list" where
  "flapping = [xid_recovery, xid_fault, xid_fault\<lparr>ErrorCode := [''48''], EntitiesImpacted := [\<lparr>EntityType = ''PCI'', EntityValue = ''0000:3b:00''\<rparr>]\<rparr>]"

lemma resent_recovery_moves_entries:
  "snd (processNodeCondition (kc_config small_connector) 10 ''GpuXidError'' flapping
     (fst (processNodeCondition (kc_config small_connector) 9 ''GpuXidError'' flapping [ready])))"
  by code_simp

section \<open>Retries\<close>

lemma loop_ends:
  assumes counted: "\<forall>s. tries (fst (fst (run s))) = Suc (tries (fst s))" and idle: "\<forall>w delay. tries (fst (kc_wait r w delay)) = tries w"
    and "retry_loop r run n d md s = (s', k, err)" and "n \<le> kc_MaxRetries (kc_config r)"
  shows "n \<le> k \<and> k \<le> kc_MaxRetries (kc_config r) \<and> tries (fst s') \<le> tries (fst s) + nat (k - n) + 1 \<and>
    (err = None \<longrightarrow> (\<exists>before. run before = (s', None) \<and> tries (fst before) = tries (fst s) + nat (k - n)))"
  using assms
proof (induction r run n d md s rule: retry_loop.induct)
  case (1 r run n d md s)
  obtain s1 e where run: "run s = (s1, e)" by fastforce
  then have t1: "tries (fst s1) = Suc (tries (fst s))" using "1.prems"(1) by (metis fst_conv)
  note loop = "1.prems"(3) [unfolded retry_loop.simps [of r run n d md s]]
  show ?case
  proof (cases "kc_interrupt r (fst s) \<noteq> None")
    case True
    with loop "1.prems"(4) show ?thesis by auto
  next
    case False
    show ?thesis
    proof (cases "e = None \<or> kc_ctxErr r (fst s1) \<noteq> None \<or> \<not> isKubernetesConnectorRetryableError r (the e) \<or> n \<ge> kc_MaxRetries (kc_config r)")
      case True
      with loop False run have "s' = s1" "k = n" "err = None \<longrightarrow> e = None" by (auto split: option.splits) (metis option.exhaust)
      moreover have "err = None \<longrightarrow> (\<exists>before. run before = (s', None) \<and> tries (fst before) = tries (fst s) + nat (k - n))"
        using calculation run by (intro impI exI [of _ s]) simp
      ultimately show ?thesis using "1.prems"(4) t1 by simp
    next
      case more: False
      from more obtain x where e: "e = Some x" and go: "kc_ctxErr r (fst s1) = None" "isKubernetesConnectorRetryableError r x" "n < kc_MaxRetries (kc_config r)" by auto
      obtain w2 y where w2: "kc_wait r (fst s1) d = (w2, y)" by fastforce
      then have t2: "tries w2 = Suc (tries (fst s))" using "1.prems"(2) t1 by (metis fst_conv)
      show ?thesis
      proof (cases y)
        case (Some z)
        with loop False run e go w2 have "s' = (w2, snd s1)" "k = n + 1" "err = Some z" by auto
        with t2 go(3) show ?thesis by simp
      next
        case None
        with loop False run e go w2 have rest: "retry_loop r run (n + 1) (min (d * 2) md) md (w2, snd s1) = (s', k, err)" by simp
        have ih: "n + 1 \<le> k \<and> k \<le> kc_MaxRetries (kc_config r) \<and> tries (fst s') \<le> tries (fst (w2, snd s1)) + nat (k - (n + 1)) + 1 \<and>
            (err = None \<longrightarrow> (\<exists>before. run before = (s', None) \<and> tries (fst before) = tries (fst (w2, snd s1)) + nat (k - (n + 1))))"
          by (rule "1.IH" [of s1 e x w2 y]) (use False run e go w2 None rest "1.prems"(1,2) in simp_all)
        then have "nat (k - n) = Suc (nat (k - (n + 1)))" by linarith
        then have sum: "tries (fst (w2, snd s1)) + nat (k - (n + 1)) = tries (fst s) + nat (k - n)" using t2 by simp
        from ih [unfolded sum] show ?thesis by (intro conjI) (linarith | blast)+
      qed
    qed
  qed
qed

text \<open>
  C36. Every write ends: whatever its outcomes are, it is tried at most once more than the configured number of retries, its reported retries are within
  that number, and it reports success only when its last try succeeded, after exactly the reported retries.
\<close>

theorem write_retries_end:
  assumes "\<forall>s. tries (fst (fst (run s))) = Suc (tries (fst s))" and "\<forall>w delay. tries (fst (kc_wait r w delay)) = tries w"
    and "0 \<le> kc_MaxRetries (kc_config r)" and "processWriteWithRetry r run s = (s', retries, err)"
  shows "tries (fst s') \<le> tries (fst s) + nat (kc_MaxRetries (kc_config r)) + 1 \<and> 0 \<le> retries \<and> retries \<le> kc_MaxRetries (kc_config r) \<and>
    (err = None \<longrightarrow> (\<exists>before. run before = (s', None) \<and> tries (fst before) = tries (fst s) + nat retries))"
proof -
  obtain d md where "retry_loop r run 0 d md s = (s', retries, err)" using assms(4) by (auto simp: processWriteWithRetry_def split: prod.splits)
  from loop_ends [OF assms(1,2) this assms(3)] show ?thesis by auto
qed

text \<open>A write that conflicts twice and then succeeds.\<close>

definition flaky_connector :: "nat K8sConnector" where
  "flaky_connector = \<lparr>kc_config = \<lparr>MaxNodeConditionMessageLength = 1024, CompactedHealthEventMsgLen = 72, kc_MaxRetries = 3, kc_MaxRetryDuration = 1\<rparr>,
     kc_GetNode = (\<lambda>s _. (s, Inl (EStatus ''NotFound''))), kc_UpdateStatus = (\<lambda>s _. (s, None)), kc_Patch = (\<lambda>s _ _. (s, None)),
     marshal_error = (\<lambda>_. None), kc_GetEvent = (\<lambda>s _. (s, Inl (EStatus ''NotFound''))), kc_CreateEvent = (\<lambda>s _. (s, None)),
     kc_UpdateEvent = (\<lambda>s _. (s, None)), kc_backoff = try_again 4, Interrupted = (\<lambda>_. True), kc_ctxErr = (\<lambda>_. None), kc_parentErr = (\<lambda>_. None),
     kc_interrupt = (\<lambda>_. None), kc_wait = (\<lambda>s _. (s, None)), kc_now = (\<lambda>_. 9), memory_Get = (\<lambda>_ _. None), memory_Add = (\<lambda>s _ _. s),
     memory_Set = (\<lambda>s _ _. s), memory_Remove = (\<lambda>s _. s), error_text = (\<lambda>_. []), net_timeout = (\<lambda>_. False), is_syscall = (\<lambda>_. False),
     is_EOF = (\<lambda>_. False), range_conditions = (\<lambda>m. m), kc_retryBaseDelay = 1, kc_retryMaxDelay = 1\<rparr>"

definition flaky_write :: "nat \<times> bool \<Rightarrow> (nat \<times> bool) \<times> error option" where
  "flaky_write s = ((Suc (fst s), snd s), if fst s < 2 then Some (EStatus ''Conflict'') else None)"

theorem write_retries_end_witness:
  "fst (snd (processWriteWithRetry flaky_connector flaky_write (0, False))) = 2 \<and>
   fst (fst (processWriteWithRetry flaky_connector flaky_write (0, False))) \<le> 4"
proof
  let ?run = "processWriteWithRetry flaky_connector flaky_write (0, False)"
  show "fst (snd ?run) = 2" by code_simp
  have "?run = (fst ?run, fst (snd ?run), snd (snd ?run))" by simp
  from write_retries_end [where tries = id, OF _ _ _ this] show "fst (fst ?run) \<le> 4"
    by (simp add: flaky_write_def flaky_connector_def)
qed

end
