(* ===== verification/Go_Json.thy ===== *)
theory Go_Json
  imports NVS_Prelude Go_Float
begin

text \<open>
  The values that \<^verbatim>\<open>encoding/json\<close> decodes into \<^verbatim>\<open>any\<close> and encodes from it, with the type assertions that the code makes on
  them. A JSON object is an association list in the order in which Go visits it.
\<close>

datatype json_any = JNull | JBool bool | JNumber float64 | JString string | JArray "json_any list" | JObject "(string \<times> json_any) list"

definition json_member :: "(string \<times> json_any) list \<Rightarrow> string \<Rightarrow> json_any" where
  "json_member obj key = (case map_of obj key of None \<Rightarrow> JNull | Some v \<Rightarrow> v)"

fun as_object :: "json_any \<Rightarrow> (string \<times> json_any) list option" where
  "as_object (JObject obj) = Some obj"
| "as_object v = None"

fun as_pair :: "json_any \<Rightarrow> (json_any \<times> json_any) option" where
  "as_pair (JArray [a, b]) = Some (a, b)"
| "as_pair v = None"

fun as_number :: "json_any \<Rightarrow> float64 option" where
  "as_number (JNumber x) = Some x"
| "as_number v = None"

end
