(* ===== verification/Xid_Bursts.thy ===== *)
theory Xid_Bursts
  imports Health_Event Go_Json
begin

text \<open>
  The detector of repeated XID errors of health-events-analyzer
  (\<^verbatim>\<open>health-events-analyzer/pkg/analyzer/xid_burst_detector.go\<close>): the history of XID events of every GPU, the split of a
  history into bursts, and the configuration that is read from the stages of the aggregation pipeline.

  Times are nanoseconds since the epoch; the difference of two times saturates as \<^verbatim>\<open>Time.Sub\<close> does. The histories
  are not shared, so a pointer to one is its value. The decoding of a stage from its JSON text is a parameter, and so is the
  conversion of a float64 to int64, which the language defines only for values in range.
\<close>

section \<open>Times\<close>

definition minDuration :: int where "minDuration = - (2 ^ 63)"
definition maxDuration :: int where "maxDuration = 2 ^ 63 - 1"

definition time_Sub :: "int \<Rightarrow> int \<Rightarrow> int" where
  "time_Sub t u = max minDuration (min maxDuration (t - u))"

definition nanos_per_second :: int where "nanos_per_second = 1000000000"

text \<open>The product of two durations wraps around.\<close>

definition seconds_duration :: "int \<Rightarrow> int" where
  "seconds_duration n = sint (word_of_int (n * nanos_per_second) :: 64 word)"

section \<open>State\<close>

record XidBurstDetectorConfig =
  xc_BurstWindow :: int
  xc_StickyWindow :: int
  xc_LookbackWindow :: int
  xc_BurstThreshold :: int

record XidEvent =
  x_timestamp :: int
  x_errorCode :: string
  x_gpuIDs :: "string list"

type_synonym NodeXidHistory = "XidEvent list"

record Burst =
  b_startTime :: int
  b_events :: "XidEvent list"
  b_xidCodes :: "string list"

record XidBurstDetector =
  nodeEvents :: "(string, (string, NodeXidHistory) gomap) gomap"
  burstWindow :: int
  stickyWindow :: int
  lookbackWindow :: int
  burstThreshold :: int
  stickyXids :: "string list"

definition unknownGPUKey :: string where "unknownGPUKey = []"

definition DefaultXidBurstDetectorConfig :: XidBurstDetectorConfig where
  "DefaultXidBurstDetectorConfig = \<lparr>xc_BurstWindow = 180 * nanos_per_second, xc_StickyWindow = 10800 * nanos_per_second,
     xc_LookbackWindow = 86400 * nanos_per_second, xc_BurstThreshold = 5\<rparr>"

definition NewXidBurstDetectorWithConfig :: "XidBurstDetectorConfig \<Rightarrow> XidBurstDetector" where
  "NewXidBurstDetectorWithConfig cfg = \<lparr>nodeEvents = [], burstWindow = xc_BurstWindow cfg, stickyWindow = xc_StickyWindow cfg,
     lookbackWindow = xc_LookbackWindow cfg, burstThreshold = xc_BurstThreshold cfg,
     stickyXids = [''74'', ''79'', ''95'', ''109'', ''119'']\<rparr>"

definition NewXidBurstDetector :: XidBurstDetector where
  "NewXidBurstDetector = NewXidBurstDetectorWithConfig DefaultXidBurstDetectorConfig"

section \<open>Configuration from the pipeline\<close>

definition extractLookbackWindow :: "(float64 \<Rightarrow> int) \<Rightarrow> (string \<times> json_any) list \<Rightarrow> XidBurstDetectorConfig \<Rightarrow> XidBurstDetectorConfig" where
  "extractLookbackWindow conv match cfg =
     (case as_object (json_member match ''$expr'') of None \<Rightarrow> cfg | Some expr \<Rightarrow>
      (case as_pair (json_member expr ''$gte'') of None \<Rightarrow> cfg | Some gte \<Rightarrow>
       (case as_object (snd gte) of None \<Rightarrow> cfg | Some subtract \<Rightarrow>
        (case as_pair (json_member subtract ''$subtract'') of None \<Rightarrow> cfg | Some sub \<Rightarrow>
         (case as_number (snd sub) of None \<Rightarrow> cfg
          | Some seconds \<Rightarrow> cfg\<lparr>xc_LookbackWindow := seconds_duration (conv seconds)\<rparr>)))))"

definition extractBurstThreshold :: "(float64 \<Rightarrow> int) \<Rightarrow> (string \<times> json_any) list \<Rightarrow> XidBurstDetectorConfig \<Rightarrow> XidBurstDetectorConfig" where
  "extractBurstThreshold conv match cfg =
     (case as_object (json_member match ''count'') of None \<Rightarrow> cfg | Some cnt \<Rightarrow>
      (case as_number (json_member cnt ''$gte'') of None \<Rightarrow> cfg | Some gte \<Rightarrow> cfg\<lparr>xc_BurstThreshold := conv gte\<rparr>))"

definition parseMatchStage :: "(float64 \<Rightarrow> int) \<Rightarrow> (string \<times> json_any) list \<Rightarrow> XidBurstDetectorConfig \<Rightarrow> XidBurstDetectorConfig" where
  "parseMatchStage conv stage cfg =
     (case as_object (json_member stage ''$match'') of None \<Rightarrow> cfg
      | Some match \<Rightarrow> extractBurstThreshold conv match (extractLookbackWindow conv match cfg))"

definition checkGtOperator :: "(float64 \<Rightarrow> int) \<Rightarrow> (string \<times> json_any) list \<Rightarrow> int" where
  "checkGtOperator conv val =
     (case as_pair (json_member val ''$gt'') of None \<Rightarrow> 0 | Some gt \<Rightarrow>
      (case as_object (fst gt) of None \<Rightarrow> 0 | Some subtract \<Rightarrow>
        if map_of subtract ''$subtract'' = None then 0
        else (case as_number (snd gt) of None \<Rightarrow> 0 | Some seconds \<Rightarrow> seconds_duration (conv seconds))))"

definition checkLteOperator :: "(float64 \<Rightarrow> int) \<Rightarrow> (string \<times> json_any) list \<Rightarrow> int" where
  "checkLteOperator conv val =
     (case as_pair (json_member val ''$lte'') of None \<Rightarrow> 0 | Some lte \<Rightarrow>
      (case as_number (snd lte) of None \<Rightarrow> 0 | Some seconds \<Rightarrow> seconds_duration (conv seconds)))"

text \<open>The first positive value, zero when there is none.\<close>

fun first_positive :: "int list \<Rightarrow> int" where
  "first_positive [] = 0"
| "first_positive (x # xs) = (if x > 0 then x else first_positive xs)"

fun findGtInValue :: "(float64 \<Rightarrow> int) \<Rightarrow> json_any \<Rightarrow> int" where
  "findGtInValue conv (JObject obj) =
     (if checkGtOperator conv obj > 0 then checkGtOperator conv obj else first_positive (map (\<lambda>kv. findGtInValue conv (snd kv)) obj))"
| "findGtInValue conv (JArray vs) = first_positive (map (findGtInValue conv) vs)"
| "findGtInValue conv v = 0"

fun findLteInValue :: "(float64 \<Rightarrow> int) \<Rightarrow> json_any \<Rightarrow> int" where
  "findLteInValue conv (JObject obj) =
     (if checkLteOperator conv obj > 0 then checkLteOperator conv obj else first_positive (map (\<lambda>kv. findLteInValue conv (snd kv)) obj))"
| "findLteInValue conv (JArray vs) = first_positive (map (findLteInValue conv) vs)"
| "findLteInValue conv v = 0"

definition parseSetWindowFieldsStage :: "(float64 \<Rightarrow> int) \<Rightarrow> (string \<times> json_any) list \<Rightarrow> XidBurstDetectorConfig \<Rightarrow> XidBurstDetectorConfig" where
  "parseSetWindowFieldsStage conv stage cfg =
     (case as_object (json_member stage ''$setWindowFields'') of None \<Rightarrow> cfg | Some swf \<Rightarrow>
      (case as_object (json_member swf ''output'') of None \<Rightarrow> cfg | Some output \<Rightarrow>
       (case as_object (json_member output ''burstId'') of None \<Rightarrow> cfg | Some burstID \<Rightarrow>
        let window = findGtInValue conv (JObject burstID) in if window > 0 then cfg\<lparr>xc_BurstWindow := window\<rparr> else cfg)))"

definition sticky_field :: "(float64 \<Rightarrow> int) \<Rightarrow> string \<times> json_any \<Rightarrow> XidBurstDetectorConfig \<Rightarrow> XidBurstDetectorConfig" where
  "sticky_field conv kv cfg =
     (if fst kv = ''stickyXidWithin3Hours'' \<or> fst kv = ''stickyXidWithin20s''
      then let window = findLteInValue conv (snd kv) in if window > 0 then cfg\<lparr>xc_StickyWindow := window\<rparr> else cfg
      else cfg)"

definition parseAddFieldsStage :: "(float64 \<Rightarrow> int) \<Rightarrow> (string \<times> json_any) list \<Rightarrow> XidBurstDetectorConfig \<Rightarrow> XidBurstDetectorConfig" where
  "parseAddFieldsStage conv stage cfg =
     (case as_object (json_member stage ''$addFields'') of None \<Rightarrow> cfg | Some addFields \<Rightarrow> fold (sticky_field conv) addFields cfg)"

definition ParseXidConfigFromPipeline ::
  "(float64 \<Rightarrow> int) \<Rightarrow> (string \<Rightarrow> (string \<times> json_any) list option) \<Rightarrow> string list \<Rightarrow> XidBurstDetectorConfig" where
  "ParseXidConfigFromPipeline conv unmarshal stages =
     fold (\<lambda>stageStr cfg. case unmarshal stageStr of None \<Rightarrow> cfg
         | Some stage \<Rightarrow> parseAddFieldsStage conv stage (parseSetWindowFieldsStage conv stage (parseMatchStage conv stage cfg)))
       stages DefaultXidBurstDetectorConfig"

section \<open>Bursts\<close>

definition addEvent :: "XidEvent \<Rightarrow> Burst \<Rightarrow> Burst" where
  "addEvent event b = b\<lparr>b_events := b_events b @ [event], b_xidCodes := List.insert (x_errorCode event) (b_xidCodes b)\<rparr>"

definition hasXid :: "Burst \<Rightarrow> string \<Rightarrow> bool" where
  "hasXid b xidCode \<longleftrightarrow> List.member (b_xidCodes b) xidCode"

text \<open>The loop over the earlier events, latest first.\<close>

fun sticky_before :: "XidBurstDetector \<Rightarrow> XidEvent \<Rightarrow> XidEvent list \<Rightarrow> bool" where
  "sticky_before d event [] = False"
| "sticky_before d event (prev # rest) =
     (if time_Sub (x_timestamp event) (x_timestamp prev) > stickyWindow d then False
      else if List.member (stickyXids d) (x_errorCode prev) then True
      else sticky_before d event rest)"

definition isStickyXidContinuation :: "XidBurstDetector \<Rightarrow> XidEvent \<Rightarrow> XidEvent list \<Rightarrow> bool" where
  "isStickyXidContinuation d event previousEvents =
     (if \<not> List.member (stickyXids d) (x_errorCode event) then False else sticky_before d event (rev previousEvents))"

definition shouldStartNewBurst :: "XidBurstDetector \<Rightarrow> XidEvent \<Rightarrow> XidEvent \<Rightarrow> XidEvent list \<Rightarrow> bool" where
  "shouldStartNewBurst d event prevEvent previousEvents =
     (if time_Sub (x_timestamp event) (x_timestamp prevEvent) > burstWindow d
      then \<not> isStickyXidContinuation d event previousEvents else False)"

definition new_burst :: "int \<Rightarrow> Burst" where
  "new_burst t = \<lparr>b_startTime = t, b_events = [], b_xidCodes = []\<rparr>"

definition save_burst :: "string \<Rightarrow> Burst \<Rightarrow> Burst list \<Rightarrow> Burst list" where
  "save_burst targetXid b bursts = (if hasXid b targetXid then bursts @ [b] else bursts)"

text \<open>The loop over the history: the events before the current one, those from it on, the current burst and the saved ones.\<close>

fun burst_loop :: "XidBurstDetector \<Rightarrow> string \<Rightarrow> XidEvent list \<Rightarrow> XidEvent list \<Rightarrow> Burst \<Rightarrow> Burst list \<Rightarrow> Burst \<times> Burst list" where
  "burst_loop d targetXid previous [] currentBurst bursts = (currentBurst, bursts)"
| "burst_loop d targetXid previous (event # rest) currentBurst bursts =
     (if previous \<noteq> [] \<and> shouldStartNewBurst d event (last previous) previous
      then burst_loop d targetXid (previous @ [event]) rest (addEvent event (new_burst (x_timestamp event))) (save_burst targetXid currentBurst bursts)
      else burst_loop d targetXid (previous @ [event]) rest (addEvent event currentBurst) bursts)"

definition detectBursts :: "XidBurstDetector \<Rightarrow> NodeXidHistory \<Rightarrow> string \<Rightarrow> Burst list" where
  "detectBursts d history targetXid =
     (case history of [] \<Rightarrow> []
      | first # _ \<Rightarrow>
          let (currentBurst, bursts) = burst_loop d targetXid [] history (new_burst (x_timestamp first)) []
          in save_burst targetXid currentBurst bursts)"

section \<open>Operations\<close>

definition extractGPUIDs :: "entity list \<Rightarrow> string list" where
  "extractGPUIDs entities =
     fold (\<lambda>en uuids. if EntityType en \<noteq> ''GPU_UUID'' then uuids
         else if List.member uuids (EntityValue en) then uuids else uuids @ [EntityValue en]) entities []"

definition cleanupOldEvents :: "XidBurstDetector \<Rightarrow> NodeXidHistory \<Rightarrow> int \<Rightarrow> NodeXidHistory" where
  "cleanupOldEvents d history currentTime =
     (let cutoff = currentTime - lookbackWindow d in filter (\<lambda>event. x_timestamp event > cutoff) history)"

definition gpu_histories :: "XidBurstDetector \<Rightarrow> string \<Rightarrow> (string, NodeXidHistory) gomap" where
  "gpu_histories d nodeName = (case map_of (nodeEvents d) nodeName of None \<Rightarrow> [] | Some m \<Rightarrow> m)"

definition getOrCreateHistory :: "XidBurstDetector \<Rightarrow> string \<Rightarrow> string \<Rightarrow> NodeXidHistory" where
  "getOrCreateHistory d nodeName gpuKey = (case map_of (gpu_histories d nodeName) gpuKey of None \<Rightarrow> [] | Some h \<Rightarrow> h)"

definition set_history :: "string \<Rightarrow> string \<Rightarrow> NodeXidHistory \<Rightarrow> XidBurstDetector \<Rightarrow> XidBurstDetector" where
  "set_history nodeName gpuKey history d =
     d\<lparr>nodeEvents := AList.update nodeName (AList.update gpuKey history (gpu_histories d nodeName)) (nodeEvents d)\<rparr>"

fun gpu_loop :: "string \<Rightarrow> XidEvent \<Rightarrow> string list \<Rightarrow> XidBurstDetector \<times> int \<times> bool \<Rightarrow> XidBurstDetector \<times> int \<times> bool" where
  "gpu_loop nodeName xidEvent [] acc = acc"
| "gpu_loop nodeName xidEvent (gpuKey # gpuKeys) (d, maxBursts, triggered) =
     (let history = cleanupOldEvents d (getOrCreateHistory d nodeName gpuKey @ [xidEvent]) (x_timestamp xidEvent);
          bursts = int (length (detectBursts d history (x_errorCode xidEvent)))
      in gpu_loop nodeName xidEvent gpuKeys
           (set_history nodeName gpuKey history d, max maxBursts bursts, triggered \<or> bursts \<ge> burstThreshold d))"

definition xid_event :: "health_event \<Rightarrow> int \<Rightarrow> XidEvent" where
  "xid_event event ts = \<lparr>x_timestamp = ts div nanos_per_second * nanos_per_second, x_errorCode = hd (ErrorCode event),
     x_gpuIDs = extractGPUIDs (EntitiesImpacted event)\<rparr>"

definition gpu_keys :: "health_event \<Rightarrow> string list" where
  "gpu_keys event = (let gpuIDs = extractGPUIDs (EntitiesImpacted event) in if gpuIDs = [] then [unknownGPUKey] else gpuIDs)"

definition ProcessXidEvent :: "health_event \<Rightarrow> XidBurstDetector \<Rightarrow> XidBurstDetector \<times> bool \<times> int" where
  "ProcessXidEvent event d =
     (if ErrorCode event = [] then (d, False, 0)
      else case GeneratedTimestamp event of
        None \<Rightarrow> (d, False, 0)
      | Some ts \<Rightarrow>
          let (d', maxBursts, triggered) = gpu_loop (NodeName event) (xid_event event ts) (gpu_keys event) (d, 0, False)
          in (d', triggered, maxBursts))"

definition GetBurstStats :: "XidBurstDetector \<Rightarrow> (string, int) gomap" where
  "GetBurstStats d = map (\<lambda>(nodeName, gpuHistories). (nodeName, sum_list (map (\<lambda>(_, h). int (length h)) gpuHistories))) (nodeEvents d)"

definition GetPerGPUBurstStats :: "XidBurstDetector \<Rightarrow> (string, (string, int) gomap) gomap" where
  "GetPerGPUBurstStats d = map (\<lambda>(nodeName, gpuHistories). (nodeName, map (\<lambda>(gpuKey, h). (gpuKey, int (length h))) gpuHistories)) (nodeEvents d)"

definition ClearNodeHistory :: "string \<Rightarrow> XidBurstDetector \<Rightarrow> XidBurstDetector" where
  "ClearNodeHistory nodeName d = d\<lparr>nodeEvents := AList.delete nodeName (nodeEvents d)\<rparr>"

end
