(* ===== verification/Xid_Properties.thy ===== *)
theory Xid_Properties
  imports Xid_Bursts
begin

text \<open>
  What the detector of repeated XID errors counts: the history that it keeps of a GPU is determined by the events since
  the node was last cleared, and the number that it reports is the number of bursts in which the code occurs.
\<close>

section \<open>Histories\<close>

text \<open>
  The specification. A history keeps an event as long as no event from it on is later than it by the lookback window or more.
\<close>

fun kept :: "int \<Rightarrow> XidEvent list \<Rightarrow> XidEvent list" where
  "kept l [] = []"
| "kept l (e # es) = (if \<forall>e' \<in> set (e # es). x_timestamp e > x_timestamp e' - l then e # kept l es else kept l es)"

lemma kept_snoc: "kept l (es @ [e]) = filter (\<lambda>x. x_timestamp x > x_timestamp e - l) (kept l es @ [e])"
  by (induction es) auto

datatype xid_op = Observe health_event | Clear string

definition observe_op :: "string \<Rightarrow> string \<Rightarrow> xid_op \<Rightarrow> XidEvent list \<Rightarrow> XidEvent list" where
  "observe_op node gpu op seen =
     (case op of
        Clear n \<Rightarrow> if n = node then [] else seen
      | Observe e \<Rightarrow> (case GeneratedTimestamp e of None \<Rightarrow> seen
          | Some ts \<Rightarrow> if NodeName e = node \<and> ErrorCode e \<noteq> [] \<and> gpu \<in> set (gpu_keys e) then seen @ [xid_event e ts] else seen))"

definition gpu_observed :: "string \<Rightarrow> string \<Rightarrow> xid_op list \<Rightarrow> XidEvent list" where
  "gpu_observed node gpu ops = fold (observe_op node gpu) ops []"

definition xid_step :: "xid_op \<Rightarrow> XidBurstDetector \<Rightarrow> XidBurstDetector" where
  "xid_step op d = (case op of Clear n \<Rightarrow> ClearNodeHistory n d | Observe e \<Rightarrow> fst (ProcessXidEvent e d))"

definition detector_after :: "XidBurstDetectorConfig \<Rightarrow> xid_op list \<Rightarrow> XidBurstDetector" where
  "detector_after cfg ops = fold xid_step ops (NewXidBurstDetectorWithConfig cfg)"

lemma history_set [simp]:
  "getOrCreateHistory (set_history n g h d) n' g' = (if n = n' \<and> g = g' then h else getOrCreateHistory d n' g')"
  by (auto simp: getOrCreateHistory_def set_history_def gpu_histories_def update_conv' split: option.splits)

lemma history_clear [simp]:
  "getOrCreateHistory (ClearNodeHistory n d) n' g = (if n = n' then [] else getOrCreateHistory d n' g)"
  by (auto simp: getOrCreateHistory_def ClearNodeHistory_def gpu_histories_def delete_conv' split: option.splits)

text \<open>The parameters of a detector never change.\<close>

definition windows :: "XidBurstDetector \<Rightarrow> int \<times> int \<times> int \<times> int \<times> string list" where
  "windows d = (burstWindow d, stickyWindow d, lookbackWindow d, burstThreshold d, stickyXids d)"

lemma windows_kept [simp]: "windows (set_history n g h d) = windows d" "windows (ClearNodeHistory n d) = windows d"
  by (simp_all add: windows_def set_history_def ClearNodeHistory_def)

lemma cleanup_windows: "windows d = windows d' \<Longrightarrow> cleanupOldEvents d = cleanupOldEvents d'"
  by (intro ext) (simp add: windows_def cleanupOldEvents_def)

lemma sticky_before_windows: "windows d = windows d' \<Longrightarrow> sticky_before d event prev = sticky_before d' event prev"
  by (induction prev) (auto simp: windows_def)

lemma burst_loop_windows: "windows d = windows d' \<Longrightarrow> burst_loop d x prev es b bs = burst_loop d' x prev es b bs"
proof (induction es arbitrary: prev b bs)
  case (Cons e es)
  have "shouldStartNewBurst d e (last prev) prev = shouldStartNewBurst d' e (last prev) prev"
    using sticky_before_windows [OF Cons.prems] Cons.prems by (auto simp: shouldStartNewBurst_def isStickyXidContinuation_def windows_def)
  then show ?case using Cons.IH [OF Cons.prems] by simp
qed simp

lemma detect_windows: "windows d = windows d' \<Longrightarrow> detectBursts d = detectBursts d'"
  by (intro ext) (simp add: detectBursts_def burst_loop_windows [of d d'] split: list.split)

text \<open>One event: every GPU that it names gets it, and its count is that of the worst of them.\<close>

definition bursts_with :: "XidBurstDetector \<Rightarrow> string \<Rightarrow> XidEvent \<Rightarrow> string \<Rightarrow> int" where
  "bursts_with d node e gpu =
     int (length (detectBursts d (cleanupOldEvents d (getOrCreateHistory d node gpu @ [e]) (x_timestamp e)) (x_errorCode e)))"

lemma gpu_loop_effect:
  assumes "distinct gpus" and "gpu_loop node e gpus (d, m, t) = (d', m', t')"
  shows "windows d' = windows d \<and>
    (\<forall>n g. getOrCreateHistory d' n g =
      (if n = node \<and> g \<in> set gpus then cleanupOldEvents d (getOrCreateHistory d node g @ [e]) (x_timestamp e) else getOrCreateHistory d n g)) \<and>
    (t' \<longleftrightarrow> t \<or> (\<exists>g \<in> set gpus. bursts_with d node e g \<ge> burstThreshold d)) \<and>
    m' = fold max (map (bursts_with d node e) gpus) m"
  using assms
proof (induction gpus arbitrary: d m t)
  case (Cons g0 gpus)
  let ?h = "cleanupOldEvents d (getOrCreateHistory d node g0 @ [e]) (x_timestamp e)"
  let ?d = "set_history node g0 ?h d"
  have w: "windows ?d = windows d" by simp
  have same: "bursts_with ?d node e g = bursts_with d node e g" if "g \<noteq> g0" for g
    using that unfolding bursts_with_def cleanup_windows [OF w] detect_windows [OF w] by simp
  have run: "gpu_loop node e gpus (?d, max m (bursts_with d node e g0), t \<or> bursts_with d node e g0 \<ge> burstThreshold d) = (d', m', t')"
    and new: "distinct gpus" "g0 \<notin> set gpus" using Cons.prems by (simp_all add: Let_def bursts_with_def)
  note IH = Cons.IH [OF new(1) run]
  have th: "burstThreshold ?d = burstThreshold d" using w by (simp add: windows_def)
  have eq: "map (bursts_with ?d node e) gpus = map (bursts_with d node e) gpus" by (intro map_cong refl same) (use new in blast)
  have ex: "(\<exists>g \<in> set gpus. burstThreshold d \<le> bursts_with ?d node e g) \<longleftrightarrow> (\<exists>g \<in> set gpus. burstThreshold d \<le> bursts_with d node e g)"
    by (intro bex_cong refl arg_cong [of _ _ "(\<le>) (burstThreshold d)"] same) (use new in blast)
  have "getOrCreateHistory d' n g = (if n = node \<and> g \<in> set (g0 # gpus)
      then cleanupOldEvents d (getOrCreateHistory d node g @ [e]) (x_timestamp e) else getOrCreateHistory d n g)" for n g
    using IH new unfolding cleanup_windows [OF w] by auto
  moreover have "t' \<longleftrightarrow> t \<or> (\<exists>g \<in> set (g0 # gpus). bursts_with d node e g \<ge> burstThreshold d)"
    using IH unfolding th ex by simp
  moreover have "m' = fold max (map (bursts_with d node e) (g0 # gpus)) m" using IH unfolding eq by (simp add: max.commute)
  ultimately show ?case using IH w by simp
qed simp

lemma gpu_ids_distinct: "distinct (extractGPUIDs ens)" and gpu_ids_set: "set (extractGPUIDs ens) = {EntityValue en | en. en \<in> set ens \<and> EntityType en = ''GPU_UUID''}"
proof -
  let ?f = "\<lambda>en uuids. if EntityType en \<noteq> ''GPU_UUID'' then uuids else if List.member uuids (EntityValue en) then uuids else uuids @ [EntityValue en]"
  have "distinct (fold ?f ens us) \<and> set (fold ?f ens us) = set us \<union> {EntityValue en | en. en \<in> set ens \<and> EntityType en = ''GPU_UUID''}"
    if "distinct us" for us
    using that by (induction ens arbitrary: us) (auto simp: List.member_iff)
  from this [of "[]"] show "distinct (extractGPUIDs ens)" "set (extractGPUIDs ens) = {EntityValue en | en. en \<in> set ens \<and> EntityType en = ''GPU_UUID''}"
    by (simp_all add: extractGPUIDs_def)
qed

lemma gpu_keys_distinct [simp]: "distinct (gpu_keys e)"
  by (simp add: gpu_keys_def Let_def gpu_ids_distinct)

lemma xid_process_effect:
  assumes "ErrorCode e \<noteq> []" and "GeneratedTimestamp e = Some ts" and "ProcessXidEvent e d = (d', triggered, bursts)"
  shows "windows d' = windows d"
    and "getOrCreateHistory d' n g = (if n = NodeName e \<and> g \<in> set (gpu_keys e)
      then cleanupOldEvents d (getOrCreateHistory d n g @ [xid_event e ts]) (x_timestamp (xid_event e ts)) else getOrCreateHistory d n g)"
    and "triggered \<longleftrightarrow> (\<exists>g \<in> set (gpu_keys e). bursts_with d (NodeName e) (xid_event e ts) g \<ge> burstThreshold d)"
    and "bursts = fold max (map (bursts_with d (NodeName e) (xid_event e ts)) (gpu_keys e)) 0"
proof -
  obtain m t where run: "gpu_loop (NodeName e) (xid_event e ts) (gpu_keys e) (d, 0, False) = (d', m, t)" and "bursts = m" "triggered = t"
    using assms by (auto simp: ProcessXidEvent_def Let_def split: prod.splits)
  note eff = gpu_loop_effect [OF gpu_keys_distinct run]
  show "windows d' = windows d" using eff by simp
  show "getOrCreateHistory d' n g = (if n = NodeName e \<and> g \<in> set (gpu_keys e)
      then cleanupOldEvents d (getOrCreateHistory d n g @ [xid_event e ts]) (x_timestamp (xid_event e ts)) else getOrCreateHistory d n g)"
    using eff by auto
  show "triggered \<longleftrightarrow> (\<exists>g \<in> set (gpu_keys e). bursts_with d (NodeName e) (xid_event e ts) g \<ge> burstThreshold d)"
    using eff \<open>triggered = t\<close> by simp
  show "bursts = fold max (map (bursts_with d (NodeName e) (xid_event e ts)) (gpu_keys e)) 0"
    using eff \<open>bursts = m\<close> by simp
qed

lemma process_ignored: "ErrorCode e = [] \<or> GeneratedTimestamp e = None \<Longrightarrow> ProcessXidEvent e d = (d, False, 0)"
  by (auto simp: ProcessXidEvent_def)

lemma histories_kept:
  "windows (detector_after cfg ops) = windows (NewXidBurstDetectorWithConfig cfg) \<and>
   getOrCreateHistory (detector_after cfg ops) node gpu = kept (xc_LookbackWindow cfg) (gpu_observed node gpu ops)"
proof (induction ops arbitrary: node gpu rule: rev_induct)
  case Nil
  show ?case by (simp add: detector_after_def gpu_observed_def getOrCreateHistory_def gpu_histories_def NewXidBurstDetectorWithConfig_def)
next
  case (snoc op ops)
  let ?d = "detector_after cfg ops"
  have step: "detector_after cfg (ops @ [op]) = xid_step op ?d" "gpu_observed node gpu (ops @ [op]) = observe_op node gpu op (gpu_observed node gpu ops)"
    by (simp_all add: detector_after_def gpu_observed_def)
  have look: "lookbackWindow ?d = xc_LookbackWindow cfg" using snoc.IH by (simp add: windows_def NewXidBurstDetectorWithConfig_def)
  show ?case
  proof (cases op)
    case (Clear n)
    then show ?thesis using snoc.IH step by (simp add: xid_step_def observe_op_def)
  next
    case (Observe e)
    show ?thesis
    proof (cases "ErrorCode e = [] \<or> GeneratedTimestamp e = None")
      case True
      then show ?thesis using snoc.IH step Observe process_ignored [OF True] by (auto simp: xid_step_def observe_op_def split: option.splits)
    next
      case False
      then obtain ts d' t m where ts: "GeneratedTimestamp e = Some ts" "ErrorCode e \<noteq> []" "ProcessXidEvent e ?d = (d', t, m)" by (cases "ProcessXidEvent e ?d") auto
      note eff = xid_process_effect [OF ts(2,1,3)]
      have "getOrCreateHistory d' node gpu = kept (xc_LookbackWindow cfg) (observe_op node gpu op (gpu_observed node gpu ops))"
        using eff(2) [of node gpu] snoc.IH Observe ts(1,2) by (auto simp: observe_op_def kept_snoc cleanupOldEvents_def look)
      then show ?thesis using step snoc.IH eff(1) Observe ts(3) by (simp add: xid_step_def)
    qed
  qed
qed

section \<open>Bursts\<close>

text \<open>
  The specification. An event starts a burst when it comes more than the burst window after the event before it, unless it and an earlier
  event have sticky codes and no event from that one on lies back by more than the sticky window. The start of the burst of an
  event is the last such event up to it, or the first event.
\<close>

definition starts_burst :: "XidBurstDetector \<Rightarrow> XidEvent list \<Rightarrow> nat \<Rightarrow> bool" where
  "starts_burst d es i \<longleftrightarrow> i = 0 \<or>
     x_timestamp (es ! i) - x_timestamp (es ! (i - 1)) > burstWindow d \<and>
     \<not> (x_errorCode (es ! i) \<in> set (stickyXids d) \<and>
        (\<exists>k < i. x_errorCode (es ! k) \<in> set (stickyXids d) \<and>
          (\<forall>j. k \<le> j \<and> j < i \<longrightarrow> x_timestamp (es ! i) - x_timestamp (es ! j) \<le> stickyWindow d)))"

fun burst_start :: "XidBurstDetector \<Rightarrow> XidEvent list \<Rightarrow> nat \<Rightarrow> nat" where
  "burst_start d es 0 = 0"
| "burst_start d es (Suc i) = (if starts_burst d es (Suc i) then Suc i else burst_start d es i)"

text \<open>The number of bursts in which a code occurs.\<close>

definition bursts_of :: "XidBurstDetector \<Rightarrow> XidEvent list \<Rightarrow> string \<Rightarrow> nat" where
  "bursts_of d es code = card (burst_start d es ` {i. i < length es \<and> x_errorCode (es ! i) = code})"

definition in_range :: "XidBurstDetector \<Rightarrow> bool" where
  "in_range d \<longleftrightarrow> minDuration \<le> burstWindow d \<and> burstWindow d < maxDuration \<and> minDuration \<le> stickyWindow d \<and> stickyWindow d < maxDuration"

lemma sub_greater: "minDuration \<le> w \<Longrightarrow> w < maxDuration \<Longrightarrow> w < time_Sub t u \<longleftrightarrow> w < t - u"
  by (auto simp: time_Sub_def minDuration_def maxDuration_def)

lemma all_le_Suc: "(\<forall>j \<le> Suc k. Q j) \<longleftrightarrow> Q 0 \<and> (\<forall>j \<le> k. Q (Suc j))"
  by (metis Suc_le_mono le0 not0_implies_Suc)

lemma sticky_before_iff:
  assumes "in_range d"
  shows "sticky_before d e ps \<longleftrightarrow>
    (\<exists>k < length ps. x_errorCode (ps ! k) \<in> set (stickyXids d) \<and> (\<forall>j \<le> k. x_timestamp e - x_timestamp (ps ! j) \<le> stickyWindow d))"
proof (induction ps)
  case (Cons p ps)
  have "stickyWindow d < time_Sub (x_timestamp e) (x_timestamp p) \<longleftrightarrow> \<not> x_timestamp e - x_timestamp p \<le> stickyWindow d"
    using assms by (simp add: in_range_def sub_greater not_le)
  then show ?case using Cons by (simp add: List.member_iff Ex_less_Suc2 all_le_Suc)
qed simp

lemma new_burst_iff:
  assumes "in_range d" and "0 < n" and "n < length es"
  shows "shouldStartNewBurst d (es ! n) (last (take n es)) (take n es) \<longleftrightarrow> starts_burst d es n"
proof -
  have last: "last (take n es) = es ! (n - 1)" using assms by (subst last_conv_nth) (auto simp: min_def)
  have rev: "rev (take n es) ! k = es ! (n - Suc k)" if "k < n" for k using assms that by (simp add: rev_nth)
  have "sticky_before d (es ! n) (rev (take n es)) \<longleftrightarrow>
      (\<exists>k < n. x_errorCode (es ! (n - Suc k)) \<in> set (stickyXids d) \<and>
        (\<forall>j \<le> k. x_timestamp (es ! n) - x_timestamp (es ! (n - Suc j)) \<le> stickyWindow d))"
    unfolding sticky_before_iff [OF assms(1)] using assms(3) by (auto simp: rev min_def)
  also have "\<dots> \<longleftrightarrow> (\<exists>k < n. x_errorCode (es ! k) \<in> set (stickyXids d) \<and>
        (\<forall>j. k \<le> j \<and> j < n \<longrightarrow> x_timestamp (es ! n) - x_timestamp (es ! j) \<le> stickyWindow d))" (is "?L \<longleftrightarrow> ?R")
  proof
    assume ?L
    then obtain k where k: "k < n" "x_errorCode (es ! (n - Suc k)) \<in> set (stickyXids d)"
      "\<forall>j \<le> k. x_timestamp (es ! n) - x_timestamp (es ! (n - Suc j)) \<le> stickyWindow d" by blast
    have "x_timestamp (es ! n) - x_timestamp (es ! j) \<le> stickyWindow d" if "n - Suc k \<le> j" "j < n" for j
      using k(3) [rule_format, of "n - Suc j"] that by (simp add: Suc_diff_Suc)
    with k(1,2) show ?R by (intro exI [of _ "n - Suc k"]) simp
  next
    assume ?R
    then obtain k where k: "k < n" "x_errorCode (es ! k) \<in> set (stickyXids d)"
      "\<forall>j. k \<le> j \<and> j < n \<longrightarrow> x_timestamp (es ! n) - x_timestamp (es ! j) \<le> stickyWindow d" by blast
    then show ?L by (intro exI [of _ "n - Suc k"]) (auto simp: Suc_diff_Suc)
  qed
  finally show ?thesis using assms
    by (simp add: shouldStartNewBurst_def isStickyXidContinuation_def starts_burst_def last in_range_def sub_greater List.member_iff)
qed

lemma burst_start_le: "burst_start d es i \<le> i"
  by (induction i) simp_all

lemma same_burst: "burst_start d es n \<le> i \<Longrightarrow> i \<le> n \<Longrightarrow> burst_start d es i = burst_start d es n"
proof (induction n)
  case (Suc n)
  then show ?case by (cases "i = Suc n") (auto split: if_splits)
qed simp

lemma later_burst: "starts_burst d es n \<Longrightarrow> n \<le> i \<Longrightarrow> n \<le> burst_start d es i"
proof (induction i)
  case (Suc i)
  then show ?case by (cases "n = Suc i") auto
qed simp

text \<open>The loop saves a burst for every start, and the current one is the last.\<close>

definition code_starts :: "XidBurstDetector \<Rightarrow> XidEvent list \<Rightarrow> string \<Rightarrow> nat \<Rightarrow> nat set" where
  "code_starts d es x s = burst_start d es ` {i. s \<le> i \<and> i < length es \<and> x_errorCode (es ! i) = x}"

lemma starts_here:
  assumes "burst_start d es n = s" and "n < length es"
  shows "burst_start d es ` {i. s \<le> i \<and> i \<le> n \<and> x_errorCode (es ! i) = x} = (if \<exists>i. s \<le> i \<and> i \<le> n \<and> x_errorCode (es ! i) = x then {s} else {})"
  using same_burst [of d es n] assms by (auto simp: image_iff)

lemma loop_counts:
  assumes "in_range d" and "es = prev @ rest" and "prev \<noteq> []" and "s = burst_start d es (length prev - 1)"
    and "set (b_xidCodes b) = {x_errorCode (es ! i) | i. s \<le> i \<and> i < length prev}"
    and "burst_loop d x prev rest b bs = (b', bs')"
  shows "length (save_burst x b' bs') = length bs + card (code_starts d es x s)"
  using assms(2-)
proof (induction rest arbitrary: prev s b bs)
  case Nil
  then have n: "length prev - 1 < length es" "length es = length prev" by simp_all
  have "{i. s \<le> i \<and> i < length es \<and> x_errorCode (es ! i) = x} = {i. s \<le> i \<and> i \<le> length prev - 1 \<and> x_errorCode (es ! i) = x}"
    using n by auto
  then have "code_starts d es x s = (if hasXid b x then {s} else {})"
    using starts_here [OF Nil.prems(3) [symmetric] n(1), of x] Nil.prems(4) n
    by (auto simp: code_starts_def hasXid_def List.member_iff)
  then show ?case using Nil.prems(5) by (simp add: save_burst_def)
next
  case (Cons e rest)
  let ?n = "length prev"
  have n: "0 < ?n" "?n < length es" "take ?n es = prev" "es ! ?n = e" "es = (prev @ [e]) @ rest" using Cons.prems(1,2) by simp_all
  have new: "shouldStartNewBurst d e (last prev) prev \<longleftrightarrow> starts_burst d es ?n" using new_burst_iff [OF assms(1) n(1,2)] n(3,4) by simp
  have start: "burst_start d es ?n = (if starts_burst d es ?n then ?n else s)" using n(1) Cons.prems(3) by (cases ?n) simp_all
  have le: "s \<le> ?n - 1" using Cons.prems(3) burst_start_le by simp
  have upto: "{x_errorCode (es ! i) | i. k \<le> i \<and> i < length (prev @ [e])} = insert (x_errorCode e) {x_errorCode (es ! i) | i. k \<le> i \<and> i < ?n}"
    if "k \<le> ?n" for k
    using that n(4) by (auto simp: less_Suc_eq)
  show ?case
  proof (cases "starts_burst d es ?n")
    case True
    let ?b = "addEvent e (new_burst (x_timestamp e))"
    have run: "burst_loop d x (prev @ [e]) rest ?b (save_burst x b bs) = (b', bs')" using Cons.prems(2,5) new True by simp
    have "length (save_burst x b' bs') = length (save_burst x b bs) + card (code_starts d es x ?n)"
      by (rule Cons.IH [OF n(5) _ _ _ run]) (use start True upto [of ?n] in \<open>auto simp add: addEvent_def new_burst_def\<close>)
    moreover have "code_starts d es x s = (if hasXid b x then {s} else {}) \<union> code_starts d es x ?n"
    proof -
      have le_pred: "i \<le> ?n - 1 \<longleftrightarrow> i < ?n" for i using n(1) by linarith
      have "{i. s \<le> i \<and> i < length es \<and> x_errorCode (es ! i) = x} =
          {i. s \<le> i \<and> i \<le> ?n - 1 \<and> x_errorCode (es ! i) = x} \<union> {i. ?n \<le> i \<and> i < length es \<and> x_errorCode (es ! i) = x}"
        using n(1,2) le by auto
      moreover have "(\<exists>i. s \<le> i \<and> i \<le> ?n - 1 \<and> x_errorCode (es ! i) = x) \<longleftrightarrow> hasXid b x"
        using Cons.prems(4) le_pred by (auto simp: hasXid_def List.member_iff)
      ultimately show ?thesis using starts_here [OF Cons.prems(3) [symmetric], of x] n(1,2) by (simp add: code_starts_def image_Un)
    qed
    moreover have "?n \<le> k" if "k \<in> code_starts d es x ?n" for k using that later_burst [OF True] by (auto simp: code_starts_def)
    then have "s \<notin> code_starts d es x ?n" using le n(1) by (metis diff_less leD le_less_trans zero_less_one)
    moreover have "finite (code_starts d es x ?n)" by (simp add: code_starts_def)
    ultimately show ?thesis by (simp add: save_burst_def)
  next
    case False
    have run: "burst_loop d x (prev @ [e]) rest (addEvent e b) bs = (b', bs')" using Cons.prems(5) new False by simp
    show ?thesis
      by (rule Cons.IH [OF n(5) _ _ _ run])
        (use start False upto [of s] Cons.prems(4) le in \<open>simp_all add: addEvent_def\<close>)
  qed
qed

lemma bursts_counted:
  assumes "in_range d"
  shows "length (detectBursts d es x) = bursts_of d es x"
proof (cases es)
  case (Cons e rest)
  obtain b' bs' where run: "burst_loop d x [e] rest (addEvent e (new_burst (x_timestamp e))) [] = (b', bs')" by fastforce
  have "length (save_burst x b' bs') = length ([] :: Burst list) + card (code_starts d es x 0)"
    by (rule loop_counts [OF assms _ _ _ _ run]) (auto simp: Cons addEvent_def new_burst_def)
  then show ?thesis using run by (simp add: detectBursts_def Cons bursts_of_def code_starts_def)
qed (simp add: detectBursts_def bursts_of_def)

lemma fold_max_Max: "fold max xs (m :: int) = Max (insert m (set xs))"
  using Max.set_eq_fold [of m xs] by simp

section \<open>Repeated errors\<close>

definition bursts_on :: "XidBurstDetectorConfig \<Rightarrow> xid_op list \<Rightarrow> health_event \<Rightarrow> string \<Rightarrow> int" where
  "bursts_on cfg ops e gpu =
     int (bursts_of (NewXidBurstDetectorWithConfig cfg) (kept (xc_LookbackWindow cfg) (gpu_observed (NodeName e) gpu (ops @ [Observe e]))) (hd (ErrorCode e)))"

text \<open>
  C37. Whatever events the detector saw and whichever nodes were cleared before, an event with a code raises the alert exactly when, on one
  of the GPUs that it names, its code occurs in at least the configured number of bursts, counted over the events of that node and GPU
  since the node was last cleared that are inside the lookback window; and the reported number is the largest of these counts.
  Events of other GPUs and nodes do not matter.
\<close>

theorem repeated_xid_exact:
  assumes "in_range (NewXidBurstDetectorWithConfig cfg)" and "ErrorCode e \<noteq> []" and "GeneratedTimestamp e \<noteq> None"
    and "ProcessXidEvent e (detector_after cfg ops) = (d', triggered, bursts)"
  shows "(triggered \<longleftrightarrow> (\<exists>gpu \<in> set (gpu_keys e). xc_BurstThreshold cfg \<le> bursts_on cfg ops e gpu)) \<and>
    bursts = Max (bursts_on cfg ops e ` set (gpu_keys e))"
proof -
  let ?d = "detector_after cfg ops"
  obtain ts where ts: "GeneratedTimestamp e = Some ts" using assms(3) by blast
  have w: "windows ?d = windows (NewXidBurstDetectorWithConfig cfg)" using histories_kept by simp
  have "bursts_with ?d (NodeName e) (xid_event e ts) gpu = bursts_on cfg ops e gpu" if "gpu \<in> set (gpu_keys e)" for gpu
  proof -
    have "cleanupOldEvents ?d (getOrCreateHistory ?d (NodeName e) gpu @ [xid_event e ts]) (x_timestamp (xid_event e ts)) =
        kept (xc_LookbackWindow cfg) (gpu_observed (NodeName e) gpu (ops @ [Observe e]))"
      using that ts assms(2) w histories_kept [of cfg ops "NodeName e" gpu]
      by (simp add: gpu_observed_def observe_op_def kept_snoc cleanupOldEvents_def windows_def NewXidBurstDetectorWithConfig_def)
    then show ?thesis
      unfolding bursts_with_def detect_windows [OF w] using assms(1) by (simp add: bursts_counted bursts_on_def xid_event_def)
  qed
  moreover note eff = xid_process_effect [OF assms(2) ts assms(4)]
  moreover have "burstThreshold ?d = xc_BurstThreshold cfg" using w by (simp add: windows_def NewXidBurstDetectorWithConfig_def)
  moreover have "gpu_keys e \<noteq> []" by (simp add: gpu_keys_def Let_def)
  then have "Max (insert 0 (bursts_on cfg ops e ` set (gpu_keys e))) = Max (bursts_on cfg ops e ` set (gpu_keys e))"
    by (subst Max_insert) (auto simp: bursts_on_def max_def Max_ge_iff)
  ultimately show ?thesis by (simp add: fold_max_Max)
qed

text \<open>Two errors of one GPU a minute apart, with an error of another GPU in between: the second is the second burst.\<close>

definition quick_windows :: XidBurstDetectorConfig where
  "quick_windows = \<lparr>xc_BurstWindow = 10 * nanos_per_second, xc_StickyWindow = 20 * nanos_per_second,
     xc_LookbackWindow = 300 * nanos_per_second, xc_BurstThreshold = 2\<rparr>"

definition xid_at :: "int \<Rightarrow> string \<Rightarrow> health_event" where
  "xid_at sec uuid = zero_event\<lparr>NodeName := ''n1'', ErrorCode := [''31''], GeneratedTimestamp := Some (sec * nanos_per_second),
     EntitiesImpacted := [\<lparr>EntityType = ''GPU_UUID'', EntityValue = uuid\<rparr>]\<rparr>"

theorem repeated_xid_exact_witness:
  "let ops = [Observe (xid_at 0 ''GPU-a''), Observe (xid_at 5 ''GPU-b'')]; result = ProcessXidEvent (xid_at 60 ''GPU-a'') (detector_after quick_windows ops)
   in fst (snd result) \<and> 2 \<le> bursts_on quick_windows ops (xid_at 60 ''GPU-a'') ''GPU-a''"
proof -
  let ?ops = "[Observe (xid_at 0 ''GPU-a''), Observe (xid_at 5 ''GPU-b'')]" and ?e = "xid_at 60 ''GPU-a''"
  let ?r = "ProcessXidEvent ?e (detector_after quick_windows ?ops)"
  have run: "?r = (fst ?r, fst (snd ?r), snd (snd ?r))" by simp
  have t: "fst (snd ?r)" "gpu_keys ?e = [''GPU-a'']" by code_simp+
  have "xc_BurstThreshold quick_windows = 2" "in_range (NewXidBurstDetectorWithConfig quick_windows)" "ErrorCode ?e \<noteq> []" "GeneratedTimestamp ?e \<noteq> None"
    by code_simp+
  then show ?thesis using repeated_xid_exact [OF _ _ _ run] t by simp
qed

end
