(* ===== verification/Event_Exporter.thy ===== *)
theory Event_Exporter
  imports Health_Event Go_Error Go_Json
begin

text \<open>
  The event exporter (\<^verbatim>\<open>event-exporter/pkg\<close>): the CloudEvent of a health event (\<^verbatim>\<open>transformer/cloudevents.go\<close>), the tracker of
  completed events (\<^verbatim>\<open>exporter/sequence_tracker.go\<close>), and the stream of events through a pool of workers to the sink and the
  resume token (\<^verbatim>\<open>exporter/worker_pool.go\<close>, \<^verbatim>\<open>exporter/exporter.go\<close>).

  The goroutines are a state machine: the consumer of the change stream, the workers and the writer of resume tokens share two
  bounded channels and a context, and a step of one of them is a label. A publication is one step per attempt, so the attempts of
  several workers interleave. \<^verbatim>\<open>wait.ExponentialBackoffWithContext\<close> may give up after any failed attempt, since it stops when its
  delay reaches the cap, and makes at most the configured number of attempts. The sink, the store of resume tokens, the decoding of a
  stored document, the CEL filter, the formatting of times, and fresh identifiers are parameters; they act on a world that is
  threaded through the steps.
\<close>

section \<open>CloudEvents\<close>

record CloudEvent =
  ce_SpecVersion :: string
  ce_Type :: string
  ce_Source :: string
  ce_ID :: string
  ce_Time :: string
  ce_Data :: "(string \<times> json_any) list"

fun processing_strategy_name :: "processing_strategy \<Rightarrow> string" where
  "processing_strategy_name UNSPECIFIED = ''UNSPECIFIED''"
| "processing_strategy_name EXECUTE_REMEDIATION = ''EXECUTE_REMEDIATION''"
| "processing_strategy_name STORE_ONLY = ''STORE_ONLY''"
| "processing_strategy_name STORE_AND_ANALYSE = ''STORE_AND_ANALYSE''"
| "processing_strategy_name (PS_Unrecognized n) = fmt_int (sint n)"

definition json_strings :: "(string, string) gomap \<Rightarrow> json_any" where
  "json_strings m = JObject (map (\<lambda>(k, v). (k, JString v)) m)"

definition json_overrides :: "behaviour_overrides \<Rightarrow> json_any" where
  "json_overrides b = JObject [(''force'', JBool (Force b)), (''skip'', JBool (Skip b))]"

definition health_event_data :: "string \<Rightarrow> health_event \<Rightarrow> (string \<times> json_any) list" where
  "health_event_data timestamp event =
     [(''version'', JNumber (f_of_int (uint (Version event)))),
      (''agent'', JString (Agent event)),
      (''componentClass'', JString (ComponentClass event)),
      (''checkName'', JString (CheckName event)),
      (''isFatal'', JBool (IsFatal event)),
      (''isHealthy'', JBool (IsHealthy event)),
      (''message'', JString (Message event)),
      (''recommendedAction'', JString (recommended_action_name (RecommendedAction event))),
      (''errorCode'', JArray (map JString (ErrorCode event))),
      (''entitiesImpacted'', JArray (map (\<lambda>e. JObject [(''entityType'', JString (EntityType e)), (''entityValue'', JString (EntityValue e))]) (EntitiesImpacted event))),
      (''generatedTimestamp'', JString timestamp),
      (''nodeName'', JString (NodeName event)),
      (''processingStrategy'', JString (processing_strategy_name (ProcessingStrategy event)))] @
     (if CustomRecommendedAction event \<noteq> [] then [(''customRecommendedAction'', JString (CustomRecommendedAction event))] else []) @
     (if Metadata event \<noteq> [] then [(''metadata'', json_strings (Metadata event))] else []) @
     (case QuarantineOverrides event of None \<Rightarrow> [] | Some b \<Rightarrow> [(''quarantineOverrides'', json_overrides b)]) @
     (case DrainOverrides event of None \<Rightarrow> [] | Some b \<Rightarrow> [(''drainOverrides'', json_overrides b)])"

definition ToCloudEvent :: "(int \<Rightarrow> string) \<Rightarrow> int \<Rightarrow> string \<Rightarrow> health_event \<Rightarrow> (string, string) gomap \<Rightarrow> error + CloudEvent" where
  "ToCloudEvent format_time now uuid event metadata =
     (let timestamp = format_time (case GeneratedTimestamp event of None \<Rightarrow> now | Some ts \<Rightarrow> ts);
          clusterName = (case map_of metadata ''cluster'' of None \<Rightarrow> [] | Some c \<Rightarrow> c)
      in if clusterName = [] then Inl (EText ''metadata must contain a non-empty cluster key'')
         else Inr \<lparr>ce_SpecVersion = ''1.0'', ce_Type = ''com.nvidia.nvsentinel.health.v1'',
           ce_Source = ''nvsentinel://'' @ clusterName @ ''/healthevents'', ce_ID = uuid, ce_Time = timestamp,
           ce_Data = [(''metadata'', json_strings metadata), (''healthEvent'', JObject (health_event_data timestamp event))]\<rparr>)"

section \<open>Completed events\<close>

type_synonym token = "string option"

record sequenceTracker =
  completed :: "(64 word, token) gomap"
  nextSeq :: "64 word"

definition newSequenceTracker :: sequenceTracker where
  "newSequenceTracker = \<lparr>completed = [], nextSeq = 1\<rparr>"

lemma delete_shorter: "map_of m k = Some v \<Longrightarrow> length (AList.delete k m) < length m"
  unfolding AList.delete_eq by (rule length_filter_less [where x = "(k, v)"]) (auto dest: map_of_SomeD)

text \<open>The loop that advances over the completed events; the token is that of the last one passed.\<close>

function advance :: "token \<Rightarrow> sequenceTracker \<Rightarrow> sequenceTracker \<times> token" where
  "advance latestToken t =
     (case map_of (completed t) (nextSeq t) of
        None \<Rightarrow> (t, latestToken)
      | Some token \<Rightarrow> advance token \<lparr>completed = AList.delete (nextSeq t) (completed t), nextSeq = nextSeq t + 1\<rparr>)"
  by pat_completeness auto
termination
  by (relation "measure (\<lambda>(_, t). length (completed t))") (auto intro: delete_shorter)

declare advance.simps [simp del]

definition markCompleted :: "64 word \<Rightarrow> token \<Rightarrow> sequenceTracker \<Rightarrow> sequenceTracker \<times> token" where
  "markCompleted seq resumeToken t = advance None (t\<lparr>completed := AList.update seq resumeToken (completed t)\<rparr>)"

section \<open>State of the stream\<close>

record 'e workItem =
  wi_seq :: "64 word"
  wi_event :: 'e
  wi_resumeToken :: token

record workResult =
  wr_seq :: "64 word"
  wr_resumeToken :: token
  wr_err :: "error option"

record ('e, 'w) HealthEventsExporter =
  ex_metadata :: "(string, string) gomap"
  ex_MaxRetries :: int
  ex_workers :: int
  ex_filter :: "(health_event \<Rightarrow> error + bool) option"
  ex_UnmarshalDocument :: "'e \<Rightarrow> error + health_event option"
  ex_GetResumeToken :: "'e \<Rightarrow> token"
  ex_format_time :: "int \<Rightarrow> string"
  ex_now :: "'w \<Rightarrow> int"
  ex_uuid :: "'w \<Rightarrow> string"
  ex_Publish :: "CloudEvent \<Rightarrow> 'w \<Rightarrow> 'w \<times> error option"
  ex_MarkProcessed :: "string \<Rightarrow> 'w \<Rightarrow> 'w \<times> error option"

text \<open>What a worker does: it waits for an item, processes it, publishes its CloudEvent, sends the result, or has returned.\<close>

datatype 'e worker = WIdle | WProcessing "'e workItem" | WPublishing "'e workItem" CloudEvent int | WFinished "'e workItem" "error option" | WReturned

datatype writer = Writing | WriterReturned "error option"

record ('e, 'w) stream_state =
  st_world :: 'w
  st_seq :: "64 word"
  st_consuming :: bool
  st_dispatchCh :: "'e workItem list"
  st_resultCh :: "workResult list"
  st_workers :: "'e worker list"
  st_tracker :: sequenceTracker
  st_writer :: writer
  st_cancelled :: bool
  st_received :: "'e list"
  st_marked :: "string list"

section \<open>Steps\<close>

definition shouldExport :: "('e, 'w) HealthEventsExporter \<Rightarrow> health_event \<Rightarrow> bool" where
  "shouldExport ex event = (case ex_filter ex of None \<Rightarrow> True | Some matches \<Rightarrow> (case matches event of Inl _ \<Rightarrow> True | Inr matched \<Rightarrow> matched))"

definition Transform :: "('e, 'w) HealthEventsExporter \<Rightarrow> 'w \<Rightarrow> health_event \<Rightarrow> error + CloudEvent" where
  "Transform ex w event =
     (case ToCloudEvent (ex_format_time ex) (ex_now ex w) (ex_uuid ex w) event (ex_metadata ex) of
        Inl e \<Rightarrow> Inl (EWrap ''error in transforming the event to cloud event'' e) | Inr ce \<Rightarrow> Inr ce)"

text \<open>\<^verbatim>\<open>processEvent\<close> and \<^verbatim>\<open>publishWithRetry\<close> up to the first attempt.\<close>

definition processEvent :: "('e, 'w) HealthEventsExporter \<Rightarrow> 'w \<Rightarrow> 'e workItem \<Rightarrow> 'e worker" where
  "processEvent ex w item =
     (case ex_UnmarshalDocument ex (wi_event item) of
        Inl _ \<Rightarrow> WFinished item None
      | Inr None \<Rightarrow> WFinished item None
      | Inr (Some event) \<Rightarrow>
          if \<not> shouldExport ex event then WFinished item None
          else case Transform ex w event of
            Inl e \<Rightarrow> WFinished item (Some (EWrap ''transform event'' e))
          | Inr ce \<Rightarrow> WPublishing item ce 0)"

text \<open>One attempt: allowed while the backoff has steps left.\<close>

definition publish_attempt :: "('e, 'w) HealthEventsExporter \<Rightarrow> 'w \<Rightarrow> 'e workItem \<Rightarrow> CloudEvent \<Rightarrow> int \<Rightarrow> ('w \<times> 'e worker) option" where
  "publish_attempt ex w item ce attempt =
     (if attempt < ex_MaxRetries ex + 1
      then Some (case ex_Publish ex ce w of (w', None) \<Rightarrow> (w', WFinished item None) | (w', Some _) \<Rightarrow> (w', WPublishing item ce (attempt + 1)))
      else None)"

text \<open>The backoff ends without success: after a failed attempt, when the context is done, or when it has no steps.\<close>

definition publish_give_up :: "('e, 'w) HealthEventsExporter \<Rightarrow> bool \<Rightarrow> 'e workItem \<Rightarrow> int \<Rightarrow> error \<Rightarrow> 'e worker option" where
  "publish_give_up ex cancelled item attempt e =
     (if attempt > 0 \<or> cancelled \<or> ex_MaxRetries ex + 1 \<le> 0 then Some (WFinished item (Some (EWrap ''publish failed after retries'' e))) else None)"

datatype 'e stream_label =
    Receive 'e           \<comment> \<open>the consumer takes an event of the change stream and dispatches it\<close>
  | ReceiveCancelled 'e  \<comment> \<open>the context is done while the consumer waits for room\<close>
  | StopConsuming        \<comment> \<open>the change stream is closed or the context is done; the dispatch channel is closed\<close>
  | TakeItem nat         \<comment> \<open>a worker receives from the dispatch channel\<close>
  | ProcessItem nat
  | AttemptPublish nat
  | GiveUp nat error
  | SendResult nat       \<comment> \<open>a worker sends to the result channel\<close>
  | WorkerReturns nat    \<comment> \<open>the dispatch channel is closed and empty\<close>
  | WriteToken           \<comment> \<open>the writer receives from the result channel\<close>
  | WriterReturns        \<comment> \<open>the result channel is closed and empty\<close>
  | CancelContext

definition buffer_size :: "('e, 'w) stream_state \<Rightarrow> nat" where
  "buffer_size s = length (st_workers s) * 2"

definition set_worker :: "nat \<Rightarrow> 'e worker \<Rightarrow> ('e, 'w) stream_state \<Rightarrow> ('e, 'w) stream_state" where
  "set_worker i k s = s\<lparr>st_workers := (st_workers s)[i := k]\<rparr>"

definition worker_at :: "('e, 'w) stream_state \<Rightarrow> nat \<Rightarrow> 'e worker" where
  "worker_at s i = (if i < length (st_workers s) then st_workers s ! i else WReturned)"

text \<open>An iteration of the consumer loop, and \<^verbatim>\<open>dispatch\<close>.\<close>

definition consumeAndDispatch :: "('e, 'w) HealthEventsExporter \<Rightarrow> 'e \<Rightarrow> ('e, 'w) stream_state \<Rightarrow> ('e, 'w) stream_state option" where
  "consumeAndDispatch ex e s =
     (let seq = st_seq s + 1; item = \<lparr>wi_seq = seq, wi_event = e, wi_resumeToken = ex_GetResumeToken ex e\<rparr> in
      if st_consuming s \<and> length (st_dispatchCh s) < buffer_size s
      then Some (s\<lparr>st_seq := seq, st_dispatchCh := st_dispatchCh s @ [item], st_received := st_received s @ [e]\<rparr>) else None)"

definition dispatch_cancelled :: "'e \<Rightarrow> ('e, 'w) stream_state \<Rightarrow> ('e, 'w) stream_state option" where
  "dispatch_cancelled e s =
     (if st_consuming s \<and> st_cancelled s
      then Some (s\<lparr>st_seq := st_seq s + 1, st_consuming := False, st_received := st_received s @ [e]\<rparr>) else None)"

text \<open>The loop of a worker: an item that is received after the context is done is dropped.\<close>

definition worker_takes :: "nat \<Rightarrow> ('e, 'w) stream_state \<Rightarrow> ('e, 'w) stream_state option" where
  "worker_takes i s =
     (case (worker_at s i, st_dispatchCh s) of
        (WIdle, item # rest) \<Rightarrow>
          Some (set_worker i (if st_cancelled s then WReturned else WProcessing item) (s\<lparr>st_dispatchCh := rest\<rparr>))
      | _ \<Rightarrow> None)"

definition worker_sends :: "nat \<Rightarrow> ('e, 'w) stream_state \<Rightarrow> ('e, 'w) stream_state option" where
  "worker_sends i s =
     (case worker_at s i of
        WFinished item err \<Rightarrow>
          if length (st_resultCh s) < buffer_size s
          then Some (set_worker i WIdle (s\<lparr>st_resultCh := st_resultCh s @ [\<lparr>wr_seq = wi_seq item, wr_resumeToken = wi_resumeToken item, wr_err = err\<rparr>]\<rparr>))
          else None
      | _ \<Rightarrow> None)"

definition worker_publishes :: "('e, 'w) HealthEventsExporter \<Rightarrow> nat \<Rightarrow> ('e, 'w) stream_state \<Rightarrow> ('e, 'w) stream_state option" where
  "worker_publishes ex i s =
     (case worker_at s i of
        WPublishing item ce attempt \<Rightarrow>
          (case publish_attempt ex (st_world s) item ce attempt of
             None \<Rightarrow> None | Some (w, k) \<Rightarrow> Some (set_worker i k (s\<lparr>st_world := w\<rparr>)))
      | _ \<Rightarrow> None)"

definition worker_gives_up :: "('e, 'w) HealthEventsExporter \<Rightarrow> nat \<Rightarrow> error \<Rightarrow> ('e, 'w) stream_state \<Rightarrow> ('e, 'w) stream_state option" where
  "worker_gives_up ex i e s =
     (case worker_at s i of
        WPublishing item ce attempt \<Rightarrow>
          (case publish_give_up ex (st_cancelled s) item attempt e of None \<Rightarrow> None | Some k \<Rightarrow> Some (set_worker i k s))
      | _ \<Rightarrow> None)"

text \<open>An iteration of \<^verbatim>\<open>tokenWriter\<close>.\<close>

definition tokenWriter :: "('e, 'w) HealthEventsExporter \<Rightarrow> ('e, 'w) stream_state \<Rightarrow> ('e, 'w) stream_state option" where
  "tokenWriter ex s =
     (case (st_writer s, st_resultCh s) of
        (Writing, result # rest) \<Rightarrow>
          (let s1 = s\<lparr>st_resultCh := rest\<rparr> in
           case wr_err result of
             Some e \<Rightarrow> Some (s1\<lparr>st_cancelled := True, st_writer := WriterReturned (Some (EWrap ''process failed'' e))\<rparr>)
           | None \<Rightarrow>
               (case markCompleted (wr_seq result) (wr_resumeToken result) (st_tracker s) of
                  (t, None) \<Rightarrow> Some (s1\<lparr>st_tracker := t\<rparr>)
                | (t, Some token) \<Rightarrow>
                    let s2 = s1\<lparr>st_tracker := t, st_marked := st_marked s @ [token]\<rparr> in
                    (case ex_MarkProcessed ex token (st_world s) of
                       (w, None) \<Rightarrow> Some (s2\<lparr>st_world := w\<rparr>)
                     | (w, Some e) \<Rightarrow> Some (s2\<lparr>st_world := w, st_cancelled := True, st_writer := WriterReturned (Some (EWrap ''mark processed'' e))\<rparr>))))
      | _ \<Rightarrow> None)"

definition all_returned :: "('e, 'w) stream_state \<Rightarrow> bool" where
  "all_returned s \<longleftrightarrow> list_all (\<lambda>k. k = WReturned) (st_workers s)"

fun stream_step :: "('e, 'w) HealthEventsExporter \<Rightarrow> 'e stream_label \<Rightarrow> ('e, 'w) stream_state \<Rightarrow> ('e, 'w) stream_state option" where
  "stream_step ex (Receive e) s = consumeAndDispatch ex e s"
| "stream_step ex (ReceiveCancelled e) s = dispatch_cancelled e s"
| "stream_step ex StopConsuming s = (if st_consuming s then Some (s\<lparr>st_consuming := False\<rparr>) else None)"
| "stream_step ex (TakeItem i) s = worker_takes i s"
| "stream_step ex (ProcessItem i) s =
     (case worker_at s i of WProcessing item \<Rightarrow> Some (set_worker i (processEvent ex (st_world s) item) s) | _ \<Rightarrow> None)"
| "stream_step ex (AttemptPublish i) s = worker_publishes ex i s"
| "stream_step ex (GiveUp i e) s = worker_gives_up ex i e s"
| "stream_step ex (SendResult i) s = worker_sends i s"
| "stream_step ex (WorkerReturns i) s =
     (if worker_at s i = WIdle \<and> \<not> st_consuming s \<and> st_dispatchCh s = [] then Some (set_worker i WReturned s) else None)"
| "stream_step ex WriteToken s = tokenWriter ex s"
| "stream_step ex WriterReturns s =
     (if st_writer s = Writing \<and> st_resultCh s = [] \<and> all_returned s then Some (s\<lparr>st_writer := WriterReturned None\<rparr>) else None)"
| "stream_step ex CancelContext s = Some (s\<lparr>st_cancelled := True\<rparr>)"

text \<open>\<^verbatim>\<open>streamEvents\<close>: a pool with at least one worker and nothing received.\<close>

definition streamEvents :: "('e, 'w) HealthEventsExporter \<Rightarrow> 'w \<Rightarrow> ('e, 'w) stream_state" where
  "streamEvents ex w =
     (let numWorkers = if ex_workers ex \<le> 0 then 1 else ex_workers ex in
      \<lparr>st_world = w, st_seq = 0, st_consuming = True, st_dispatchCh = [], st_resultCh = [], st_workers = replicate (nat numWorkers) WIdle,
       st_tracker = newSequenceTracker, st_writer = Writing, st_cancelled = False, st_received = [], st_marked = []\<rparr>)"

fun run_stream :: "('e, 'w) HealthEventsExporter \<Rightarrow> 'e stream_label list \<Rightarrow> ('e, 'w) stream_state \<Rightarrow> ('e, 'w) stream_state option" where
  "run_stream ex [] s = Some s"
| "run_stream ex (l # ls) s = (case stream_step ex l s of None \<Rightarrow> None | Some s' \<Rightarrow> run_stream ex ls s')"

text \<open>The error that \<^verbatim>\<open>streamEventsConcurrent\<close> returns once the writer has returned: the root cause first.\<close>

definition stream_error :: "error option \<Rightarrow> error option \<Rightarrow> error option" where
  "stream_error poolErr consumeErr =
     (case poolErr of Some e \<Rightarrow> Some (EWrap ''worker pool'' e)
      | None \<Rightarrow> (case consumeErr of Some e \<Rightarrow> Some (EWrap ''event consumer'' e) | None \<Rightarrow> None))"

end
