(* ===== verification/Exporter_Properties.thy ===== *)
theory Exporter_Properties
  imports Event_Exporter
begin

text \<open>
  What a resume token means: in every state that the goroutines can reach, a token is written only for an event up to which all received
  events are settled, tokens never go back, and a stream that ends normally has settled all events.
\<close>

section \<open>Settled events\<close>

text \<open>The CloudEvent of an event, whatever its fresh identifier and, for an event without a time, the clock.\<close>

definition cloud_event_of :: "('e, 'w) HealthEventsExporter \<Rightarrow> health_event \<Rightarrow> CloudEvent \<Rightarrow> bool" where
  "cloud_event_of ex event ce \<longleftrightarrow> (\<exists>now uuid. ToCloudEvent (ex_format_time ex) now uuid event (ex_metadata ex) = Inr ce)"

definition settled :: "('e, 'w) HealthEventsExporter \<Rightarrow> CloudEvent set \<Rightarrow> 'e \<Rightarrow> bool" where
  "settled ex accepted e \<longleftrightarrow>
     (\<forall>event. ex_UnmarshalDocument ex e = Inr (Some event) \<longrightarrow> shouldExport ex event \<longrightarrow> (\<exists>ce \<in> accepted. cloud_event_of ex event ce))"

text \<open>The contract of the sink: it keeps what it accepted, and it has accepted an event when it reports success.\<close>

definition sink_keeps :: "('e, 'w) HealthEventsExporter \<Rightarrow> ('w \<Rightarrow> CloudEvent set) \<Rightarrow> bool" where
  "sink_keeps ex accepted \<longleftrightarrow>
     (\<forall>ce w w' e. ex_Publish ex ce w = (w', e) \<longrightarrow> accepted w \<subseteq> accepted w' \<and> (e = None \<longrightarrow> ce \<in> accepted w')) \<and>
     (\<forall>t w w' e. ex_MarkProcessed ex t w = (w', e) \<longrightarrow> accepted w \<subseteq> accepted w')"

lemma settled_mono: "settled ex A e \<Longrightarrow> A \<subseteq> B \<Longrightarrow> settled ex B e"
  by (auto simp: settled_def)

section \<open>The tracker\<close>

text \<open>The number of an event, with the width that the code gives it.\<close>

abbreviation seq_of :: "nat \<Rightarrow> 64 word" where
  "seq_of i \<equiv> word_of_nat (Suc i)"

lemma seq_of_inj:
  assumes "seq_of n = seq_of i" and "i < l" and "n \<le> l" and "l < 2 ^ 64"
  shows "n = i"
proof -
  have mod: "unat (word_of_nat m :: 64 word) = m mod 2 ^ 64" for m by (simp add: unat_of_nat)
  have "Suc n mod 2 ^ 64 = Suc i mod 2 ^ 64" using assms(1) mod [of "Suc n"] mod [of "Suc i"] by simp
  then have "Suc n mod 2 ^ 64 = Suc i" using assms(2,4) by simp
  then show ?thesis using assms(3,4) by (cases "Suc n = 2 ^ 64") simp_all
qed

text \<open>The completed events that the tracker holds are received and have property \<open>P\<close>, with their tokens.\<close>

definition completed_ok :: "(nat \<Rightarrow> bool) \<Rightarrow> token list \<Rightarrow> sequenceTracker \<Rightarrow> bool" where
  "completed_ok P toks t \<longleftrightarrow> (\<forall>k tok. map_of (completed t) k = Some tok \<longrightarrow> (\<exists>i < length toks. k = seq_of i \<and> tok = toks ! i \<and> P i))"

lemma advance_spec:
  assumes "completed_ok P toks t" and "length toks < 2 ^ 64" and "n \<le> length toks" and "nextSeq t = seq_of n" and "\<forall>i < n. P i"
    and "advance tok0 t = (t', tok)"
  shows "\<exists>n'. n \<le> n' \<and> n' \<le> length toks \<and> nextSeq t' = seq_of n' \<and> (\<forall>i < n'. P i) \<and> completed_ok P toks t' \<and>
    map_of (completed t') (seq_of n') = None \<and> tok = (if n' = n then tok0 else toks ! (n' - 1)) \<and>
    (\<forall>i < length toks. map_of (completed t) (seq_of i) \<noteq> None \<longrightarrow> i < n' \<or> map_of (completed t') (seq_of i) \<noteq> None)"
  using assms
proof (induction tok0 t arbitrary: n rule: advance.induct)
  case (1 tok0 t)
  show ?case
  proof (cases "map_of (completed t) (nextSeq t)")
    case None
    then have "t' = t" "tok = tok0" using 1(7) by (simp_all add: advance.simps [of tok0 t])
    then show ?thesis using 1(2-6) None by (intro exI [of _ n]) auto
  next
    case (Some tk)
    let ?t = "\<lparr>completed = AList.delete (nextSeq t) (completed t), nextSeq = nextSeq t + 1\<rparr>"
    obtain i where i: "i < length toks" "nextSeq t = seq_of i" "tk = toks ! i" "P i" using 1(2) Some by (auto simp: completed_ok_def)
    have n: "n = i" using seq_of_inj [of n i "length toks"] i(1,2) 1(3,4,5) by metis
    have run: "advance tk ?t = (t', tok)" using 1(7) Some by (simp add: advance.simps [of tok0 t])
    have ok: "completed_ok P toks ?t" using 1(2) by (auto simp: completed_ok_def delete_conv' split: if_splits)
    have next_seq: "nextSeq ?t = seq_of (Suc n)" using i(2) n by simp
    have Psuc: "\<forall>j < Suc n. P j" using 1(6) i(4) n by (simp add: less_Suc_eq)
    obtain n' where n': "Suc n \<le> n'" "n' \<le> length toks" "nextSeq t' = seq_of n'" "\<forall>j < n'. P j" "completed_ok P toks t'"
      "map_of (completed t') (seq_of n') = None" "tok = (if n' = Suc n then tk else toks ! (n' - 1))"
      "\<forall>j < length toks. map_of (completed ?t) (seq_of j) \<noteq> None \<longrightarrow> j < n' \<or> map_of (completed t') (seq_of j) \<noteq> None"
      using 1(1) [OF Some ok 1(3) _ next_seq Psuc run] i(1) n by auto
    have "j < n' \<or> map_of (completed t') (seq_of j) \<noteq> None" if "j < length toks" "map_of (completed t) (seq_of j) \<noteq> None" for j
    proof (cases "j = n")
      case False
      then have "seq_of j \<noteq> nextSeq t" using seq_of_inj [of n j "length toks"] that(1) 1(3,4,5) by metis
      then show ?thesis using n'(8) that by (simp add: delete_conv')
    qed (use n'(1) in simp)
    then show ?thesis using n' i(3) n by (intro exI [of _ n']) auto
  qed
qed

section \<open>The invariant of the stream\<close>

definition item_ok :: "('e, 'w) HealthEventsExporter \<Rightarrow> 'e list \<Rightarrow> 'e workItem \<Rightarrow> bool" where
  "item_ok ex es it \<longleftrightarrow> (\<exists>i < length es. wi_seq it = seq_of i \<and> wi_event it = es ! i \<and> wi_resumeToken it = ex_GetResumeToken ex (es ! i))"

fun worker_ok :: "('e, 'w) HealthEventsExporter \<Rightarrow> CloudEvent set \<Rightarrow> 'e list \<Rightarrow> 'e worker \<Rightarrow> bool" where
  "worker_ok ex A es (WProcessing it) \<longleftrightarrow> item_ok ex es it"
| "worker_ok ex A es (WPublishing it ce n) \<longleftrightarrow> item_ok ex es it \<and>
     (\<exists>event. ex_UnmarshalDocument ex (wi_event it) = Inr (Some event) \<and> cloud_event_of ex event ce)"
| "worker_ok ex A es (WFinished it err) \<longleftrightarrow> item_ok ex es it \<and> (err = None \<longrightarrow> settled ex A (wi_event it))"
| "worker_ok ex A es k \<longleftrightarrow> True"

definition result_ok :: "('e, 'w) HealthEventsExporter \<Rightarrow> CloudEvent set \<Rightarrow> 'e list \<Rightarrow> workResult \<Rightarrow> bool" where
  "result_ok ex A es r \<longleftrightarrow>
     (\<exists>i < length es. wr_seq r = seq_of i \<and> wr_resumeToken r = ex_GetResumeToken ex (es ! i) \<and> (wr_err r = None \<longrightarrow> settled ex A (es ! i)))"

text \<open>The tokens written so far belong to events in increasing order, the last one to the last event that the tracker passed.\<close>

definition marks_ok :: "token list \<Rightarrow> nat \<Rightarrow> string list \<Rightarrow> bool" where
  "marks_ok toks n marked \<longleftrightarrow>
     (\<exists>ks. sorted_wrt (<) ks \<and> map Some marked = map ((!) toks) ks \<and> (\<forall>k \<in> set ks. k < n) \<and>
       (0 < n \<and> toks ! (n - 1) \<noteq> None \<longrightarrow> ks \<noteq> [] \<and> last ks = n - 1))"

text \<open>Where the event with a number is.\<close>

fun worker_seq :: "'e worker \<Rightarrow> 64 word option" where
  "worker_seq (WProcessing it) = Some (wi_seq it)"
| "worker_seq (WPublishing it ce n) = Some (wi_seq it)"
| "worker_seq (WFinished it err) = Some (wi_seq it)"
| "worker_seq k = None"

definition in_flight :: "('e, 'w) stream_state \<Rightarrow> 64 word \<Rightarrow> bool" where
  "in_flight s q \<longleftrightarrow> q \<in> wi_seq ` set (st_dispatchCh s) \<or> Some q \<in> worker_seq ` set (st_workers s) \<or> q \<in> wr_seq ` set (st_resultCh s) \<or>
     map_of (completed (st_tracker s)) q \<noteq> None"

definition stream_inv :: "('e, 'w) HealthEventsExporter \<Rightarrow> ('w \<Rightarrow> CloudEvent set) \<Rightarrow> ('e, 'w) stream_state \<Rightarrow> nat \<Rightarrow> bool" where
  "stream_inv ex accepted s n \<longleftrightarrow>
     (let es = st_received s; A = accepted (st_world s); toks = map (ex_GetResumeToken ex) es in
      st_seq s = word_of_nat (length es) \<and>
      (\<forall>it \<in> set (st_dispatchCh s). item_ok ex es it) \<and> (\<forall>k \<in> set (st_workers s). worker_ok ex A es k) \<and>
      (\<forall>r \<in> set (st_resultCh s). result_ok ex A es r) \<and>
      completed_ok (\<lambda>i. settled ex A (es ! i)) toks (st_tracker s) \<and>
      n \<le> length es \<and> nextSeq (st_tracker s) = seq_of n \<and> (\<forall>i < n. settled ex A (es ! i)) \<and>
      map_of (completed (st_tracker s)) (seq_of n) = None \<and> marks_ok toks n (st_marked s) \<and>
      (\<not> st_cancelled s \<longrightarrow> (\<forall>i < length es. i < n \<or> in_flight s (seq_of i))))"

lemma stream_invD:
  assumes "stream_inv ex acc s n"
  shows "st_seq s = word_of_nat (length (st_received s))"
    and "it \<in> set (st_dispatchCh s) \<Longrightarrow> item_ok ex (st_received s) it"
    and "k \<in> set (st_workers s) \<Longrightarrow> worker_ok ex (acc (st_world s)) (st_received s) k"
    and "r \<in> set (st_resultCh s) \<Longrightarrow> result_ok ex (acc (st_world s)) (st_received s) r"
    and "completed_ok (\<lambda>i. settled ex (acc (st_world s)) (st_received s ! i)) (map (ex_GetResumeToken ex) (st_received s)) (st_tracker s)"
    and "n \<le> length (st_received s)" and "nextSeq (st_tracker s) = seq_of n"
    and "i < n \<Longrightarrow> settled ex (acc (st_world s)) (st_received s ! i)"
    and "map_of (completed (st_tracker s)) (seq_of n) = None"
    and "marks_ok (map (ex_GetResumeToken ex) (st_received s)) n (st_marked s)"
    and "\<not> st_cancelled s \<Longrightarrow> i < length (st_received s) \<Longrightarrow> i < n \<or> in_flight s (seq_of i)"
  using assms unfolding stream_inv_def Let_def by blast+

lemma item_ok_append: "item_ok ex es it \<Longrightarrow> item_ok ex (es @ xs) it"
  by (fastforce simp: item_ok_def nth_append)

lemma worker_ok_mono: "worker_ok ex A es k \<Longrightarrow> A \<subseteq> B \<Longrightarrow> worker_ok ex B (es @ xs) k"
  by (cases k) (auto intro: item_ok_append settled_mono)

lemma result_ok_mono: "result_ok ex A es r \<Longrightarrow> A \<subseteq> B \<Longrightarrow> result_ok ex B (es @ xs) r"
  unfolding result_ok_def
proof (elim exE conjE)
  fix i assume "A \<subseteq> B" "i < length es" "wr_seq r = seq_of i" "wr_resumeToken r = ex_GetResumeToken ex (es ! i)" "wr_err r = None \<longrightarrow> settled ex A (es ! i)"
  then show "\<exists>i < length (es @ xs). wr_seq r = seq_of i \<and> wr_resumeToken r = ex_GetResumeToken ex ((es @ xs) ! i) \<and> (wr_err r = None \<longrightarrow> settled ex B ((es @ xs) ! i))"
    by (intro exI [of _ i]) (auto simp: nth_append intro: settled_mono)
qed

lemma completed_ok_mono:
  assumes "completed_ok P toks t" and "\<forall>i < length toks. P i \<longrightarrow> Q i"
  shows "completed_ok Q (toks @ xs) t"
  unfolding completed_ok_def
proof (intro allI impI)
  fix k tok assume "map_of (completed t) k = Some tok"
  then obtain i where "i < length toks" "k = seq_of i" "tok = toks ! i" "P i" using assms(1) by (auto simp: completed_ok_def)
  then show "\<exists>i < length (toks @ xs). k = seq_of i \<and> tok = (toks @ xs) ! i \<and> Q i" using assms(2) by (intro exI [of _ i]) (simp add: nth_append)
qed

lemma completed_settled:
  assumes "completed_ok (\<lambda>i. settled ex A (es ! i)) (map f es) t" and "A \<subseteq> B"
  shows "completed_ok (\<lambda>i. settled ex B ((es @ xs) ! i)) (map f (es @ xs)) t"
  unfolding map_append by (rule completed_ok_mono [OF assms(1)]) (auto simp: nth_append intro: settled_mono [OF _ assms(2)])

lemma marks_ok_append: "marks_ok toks n marked \<Longrightarrow> n \<le> length toks \<Longrightarrow> marks_ok (toks @ xs) n marked"
  unfolding marks_ok_def
proof (elim exE conjE)
  fix ks assume n: "n \<le> length toks" and ks: "sorted_wrt (<) ks" "map Some marked = map ((!) toks) ks" "\<forall>k \<in> set ks. k < n"
    "0 < n \<and> toks ! (n - 1) \<noteq> None \<longrightarrow> ks \<noteq> [] \<and> last ks = n - 1"
  have "map ((!) (toks @ xs)) ks = map ((!) toks) ks" using n ks(3) by (auto simp: nth_append)
  moreover have "0 < n \<longrightarrow> (toks @ xs) ! (n - 1) = toks ! (n - 1)" using n by (auto simp: nth_append)
  ultimately show "\<exists>ks. sorted_wrt (<) ks \<and> map Some marked = map ((!) (toks @ xs)) ks \<and> (\<forall>k \<in> set ks. k < n) \<and>
      (0 < n \<and> (toks @ xs) ! (n - 1) \<noteq> None \<longrightarrow> ks \<noteq> [] \<and> last ks = n - 1)"
    using ks by (intro exI [of _ ks]) auto
qed

lemma marks_advance:
  assumes "marks_ok toks n marked" and "n \<le> n'"
  shows "marks_ok toks n' (marked @ (case if n' = n then None else toks ! (n' - 1) of None \<Rightarrow> [] | Some x \<Rightarrow> [x]))"
proof (cases "n' = n")
  case False
  obtain ks where ks: "sorted_wrt (<) ks" "map Some marked = map ((!) toks) ks" "\<forall>k \<in> set ks. k < n"
    using assms(1) by (auto simp: marks_ok_def)
  show ?thesis
  proof (cases "toks ! (n' - 1)")
    case None
    then show ?thesis using ks False assms(2) unfolding marks_ok_def by (intro exI [of _ ks]) auto
  next
    case (Some x)
    then show ?thesis using ks False assms(2) unfolding marks_ok_def
      by (intro exI [of _ "ks @ [n' - 1]"]) (auto simp: sorted_wrt_append)
  qed
qed (use assms in simp)

text \<open>Changes of the world and of a worker.\<close>

lemma set_update_worker: "k \<in> set (xs[i := v]) \<Longrightarrow> k = v \<or> k \<in> set xs"
  using set_update_subset_insert by fast

lemma world_inv:
  assumes "stream_inv ex acc s n" and "acc (st_world s) \<subseteq> acc w"
  shows "stream_inv ex acc (s\<lparr>st_world := w\<rparr>) n"
proof -
  let ?es = "st_received s" and ?toks = "map (ex_GetResumeToken ex) (st_received s)"
  note inv = stream_invD [OF assms(1)]
  have "worker_ok ex (acc w) ?es k" if "k \<in> set (st_workers s)" for k using worker_ok_mono [OF inv(3) [OF that] assms(2), of "[]"] by simp
  moreover have "result_ok ex (acc w) ?es r" if "r \<in> set (st_resultCh s)" for r using result_ok_mono [OF inv(4) [OF that] assms(2), of "[]"] by simp
  moreover have "completed_ok (\<lambda>i. settled ex (acc w) (?es ! i)) ?toks (st_tracker s)"
    using completed_settled [OF inv(5) assms(2), of "[]"] by simp
  moreover have "settled ex (acc w) (?es ! j)" if "j < n" for j by (rule settled_mono [OF inv(8) [OF that] assms(2)])
  ultimately show ?thesis using inv(1,2,6,7,9-11) unfolding stream_inv_def Let_def by (simp add: in_flight_def)
qed

text \<open>The steps that move an event between the channels and the workers.\<close>

lemma moved_inv:
  assumes "stream_inv ex acc s n" and "i < length (st_workers s)" and "worker_ok ex (acc (st_world s)) (st_received s) k"
    and "set items \<subseteq> set (st_dispatchCh s)" and "\<forall>r \<in> set results. result_ok ex (acc (st_world s)) (st_received s) r"
    and "\<And>q. \<not> st_cancelled s \<Longrightarrow> q \<in> wi_seq ` set (st_dispatchCh s) \<or> worker_seq (st_workers s ! i) = Some q \<Longrightarrow>
      q \<in> wi_seq ` set items \<or> worker_seq k = Some q \<or> q \<in> wr_seq ` set results"
  shows "stream_inv ex acc (set_worker i k (s\<lparr>st_dispatchCh := items, st_resultCh := st_resultCh s @ results\<rparr>)) n"
    (is "stream_inv ex acc ?s n")
proof -
  note inv = stream_invD [OF assms(1)]
  have "worker_ok ex (acc (st_world s)) (st_received s) k'" if "k' \<in> set ((st_workers s)[i := k])" for k'
    using set_update_worker [OF that] assms(3) inv(3) by auto
  moreover have "in_flight ?s q" if c: "\<not> st_cancelled s" and "in_flight s q" for q
  proof -
    have k: "Some (v :: 64 word) \<in> worker_seq ` set ((st_workers s)[i := k])"
      if "worker_seq k = Some v \<or> (\<exists>j < length (st_workers s). j \<noteq> i \<and> worker_seq (st_workers s ! j) = Some v)" for v
      using that assms(2) by (metis image_eqI length_list_update nth_list_update_eq nth_list_update_neq nth_mem)
    consider "q \<in> wi_seq ` set (st_dispatchCh s) \<or> worker_seq (st_workers s ! i) = Some q" |
      "\<exists>j < length (st_workers s). j \<noteq> i \<and> worker_seq (st_workers s ! j) = Some q" |
      "q \<in> wr_seq ` set (st_resultCh s) \<or> map_of (completed (st_tracker s)) q \<noteq> None"
      using \<open>in_flight s q\<close> unfolding in_flight_def by (metis image_iff in_set_conv_nth)
    then show ?thesis
    proof cases
      case 1
      from assms(6) [OF c 1] show ?thesis using k [of q] by (auto simp: in_flight_def set_worker_def)
    qed (use k [of q] in \<open>auto simp: in_flight_def set_worker_def\<close>)
  qed
  then have "j < n \<or> in_flight ?s (seq_of j)" if "\<not> st_cancelled s" "j < length (st_received s)" for j using that inv(11) by blast
  ultimately show ?thesis using inv(1,2,4-10) assms(4,5) unfolding stream_inv_def Let_def by (auto simp: set_worker_def)
qed

lemma worker_step_inv:
  assumes "stream_inv ex acc s n" and "i < length (st_workers s)" and "worker_seq k = worker_seq (st_workers s ! i)"
    and "acc (st_world s) \<subseteq> acc w" and "worker_ok ex (acc w) (st_received s) k"
  shows "stream_inv ex acc (set_worker i k (s\<lparr>st_world := w\<rparr>)) n"
  using moved_inv [OF world_inv [OF assms(1,4)], of i k "st_dispatchCh s" "[]"] assms(2,3,5) by (simp add: set_worker_def)

text \<open>The steps of the consumer.\<close>

lemma received_inv:
  assumes "stream_inv ex acc s n" and "\<forall>it \<in> set items. wi_seq it = seq_of (length (st_received s)) \<and> wi_event it = e \<and> wi_resumeToken it = ex_GetResumeToken ex e"
    and "items \<noteq> [] \<or> st_cancelled s"
  shows "stream_inv ex acc (s\<lparr>st_seq := st_seq s + 1, st_consuming := c, st_dispatchCh := st_dispatchCh s @ items, st_received := st_received s @ [e]\<rparr>) n"
    (is "stream_inv ex acc ?s n")
proof -
  let ?es = "st_received s @ [e]"
  note inv = stream_invD [OF assms(1)]
  have "item_ok ex ?es it" if "it \<in> set (st_dispatchCh s @ items)" for it
  proof (cases "it \<in> set items")
    case True
    then show ?thesis using assms(2) by (auto simp: item_ok_def intro!: exI [of _ "length (st_received s)"])
  qed (use that inv(2) in \<open>simp add: item_ok_append\<close>)
  moreover have "worker_ok ex (acc (st_world s)) ?es k" if "k \<in> set (st_workers s)" for k by (rule worker_ok_mono [OF inv(3) [OF that]]) simp
  moreover have "result_ok ex (acc (st_world s)) ?es r" if "r \<in> set (st_resultCh s)" for r by (rule result_ok_mono [OF inv(4) [OF that]]) simp
  moreover have "completed_ok (\<lambda>i. settled ex (acc (st_world s)) (?es ! i)) (map (ex_GetResumeToken ex) ?es) (st_tracker s)"
    by (rule completed_settled [OF inv(5)]) simp
  moreover have "marks_ok (map (ex_GetResumeToken ex) ?es) n (st_marked s)" unfolding map_append by (rule marks_ok_append [OF inv(10)]) (simp add: inv(6))
  moreover have "settled ex (acc (st_world s)) (?es ! j)" if "j < n" for j using inv(8) [OF that] that inv(6) by (simp add: nth_append)
  moreover have "j < n \<or> in_flight ?s (seq_of j)" if "\<not> st_cancelled s" "j < length ?es" for j
  proof (cases "j = length (st_received s)")
    case True
    then show ?thesis using assms(2,3) that(1) by (cases items) (auto simp: in_flight_def)
  next
    case False
    then show ?thesis using inv(11) [OF that(1), of j] that(2) by (auto simp: in_flight_def)
  qed
  ultimately show ?thesis using inv(1,6,7,9) unfolding stream_inv_def Let_def by simp
qed

text \<open>The steps of the writer.\<close>

lemma written_inv:
  assumes inv0: "stream_inv ex acc s n" and res: "st_resultCh s = r # rest" "wr_err r = None" and l: "length (st_received s) < 2 ^ 64"
    and mark: "markCompleted (wr_seq r) (wr_resumeToken r) (st_tracker s) = (t, tok)"
  shows "\<exists>n'. stream_inv ex acc (s\<lparr>st_resultCh := rest, st_tracker := t, st_marked := st_marked s @ (case tok of None \<Rightarrow> [] | Some x \<Rightarrow> [x])\<rparr>) n'"
proof -
  let ?es = "st_received s" and ?toks = "map (ex_GetResumeToken ex) (st_received s)" and ?A = "acc (st_world s)"
  let ?t = "(st_tracker s)\<lparr>completed := AList.update (wr_seq r) (wr_resumeToken r) (completed (st_tracker s))\<rparr>"
  let ?s = "s\<lparr>st_resultCh := rest, st_tracker := t, st_marked := st_marked s @ (case tok of None \<Rightarrow> [] | Some x \<Rightarrow> [x])\<rparr>"
  note inv = stream_invD [OF inv0]
  obtain i where i: "i < length ?es" "wr_seq r = seq_of i" "wr_resumeToken r = ex_GetResumeToken ex (?es ! i)" "settled ex ?A (?es ! i)"
    using inv(4) [of r] res by (auto simp: result_ok_def)
  have ok: "completed_ok (\<lambda>i. settled ex ?A (?es ! i)) ?toks ?t"
    using inv(5) i by (auto simp: completed_ok_def update_conv' simp del: of_nat_Suc split: if_splits)
  obtain n' where n': "n \<le> n'" "n' \<le> length ?toks" "nextSeq t = seq_of n'" "\<forall>i < n'. settled ex ?A (?es ! i)"
    "completed_ok (\<lambda>i. settled ex ?A (?es ! i)) ?toks t" "map_of (completed t) (seq_of n') = None" "tok = (if n' = n then None else ?toks ! (n' - 1))"
    "\<forall>i < length ?toks. map_of (completed ?t) (seq_of i) \<noteq> None \<longrightarrow> i < n' \<or> map_of (completed t) (seq_of i) \<noteq> None"
    using advance_spec [OF ok _ _ _ _ mark [unfolded markCompleted_def], of n] l inv(6,7,8) by (simp del: of_nat_Suc) blast
  have "marks_ok ?toks n' (st_marked ?s)"
    using marks_advance [OF inv(10) n'(1)] n'(7) by simp
  moreover have "j < n' \<or> in_flight ?s (seq_of j)" if "\<not> st_cancelled s" "j < length ?es" for j
  proof (cases "map_of (completed ?t) (seq_of j) = None")
    case True
    then have "seq_of j \<noteq> wr_seq r" "map_of (completed (st_tracker s)) (seq_of j) = None" by (auto simp: update_conv' simp del: of_nat_Suc split: if_splits)
    then show ?thesis using inv(11) [OF that] n'(1) res(1) by (auto simp: in_flight_def simp del: of_nat_Suc)
  next
    case False
    then show ?thesis using n'(8) that(2) by (auto simp: in_flight_def simp del: of_nat_Suc)
  qed
  ultimately have "stream_inv ex acc ?s n'"
    using inv(1-4) n'(2-6) res(1) unfolding stream_inv_def Let_def by (simp del: of_nat_Suc)
  then show ?thesis by blast
qed

section \<open>Every step keeps the invariant\<close>

lemma worker_at_Some: "worker_at s i = k \<Longrightarrow> k \<noteq> WReturned \<Longrightarrow> i < length (st_workers s) \<and> st_workers s ! i = k"
  by (auto simp: worker_at_def split: if_splits)

lemma worker_inv:
  assumes "stream_inv ex acc s n" and "worker_at s i = k" and "k \<noteq> WReturned" and "worker_seq k' = worker_seq k"
    and "worker_ok ex (acc (st_world s)) (st_received s) k \<Longrightarrow> worker_ok ex (acc (st_world s)) (st_received s) k'"
  shows "stream_inv ex acc (set_worker i k' s) n"
proof -
  have i: "i < length (st_workers s)" "st_workers s ! i = k" using worker_at_Some [OF assms(2,3)] by simp_all
  have "worker_ok ex (acc (st_world s)) (st_received s) k'" using assms(5) stream_invD(3) [OF assms(1), of k] i nth_mem by metis
  then show ?thesis using worker_step_inv [OF assms(1) i(1), of k' "st_world s"] i(2) assms(4) by simp
qed

lemma process_seq: "worker_seq (processEvent ex w it) = Some (wi_seq it)"
  by (auto simp: processEvent_def split: sum.splits option.splits)

lemma process_ok: "item_ok ex es it \<Longrightarrow> worker_ok ex A es (processEvent ex w it)"
  by (auto simp: processEvent_def settled_def Transform_def cloud_event_of_def split: sum.splits option.splits)

lemma publish_inv:
  assumes "stream_inv ex acc s n" and "sink_keeps ex acc" and "worker_publishes ex i s = Some s'"
  shows "stream_inv ex acc s' n"
proof -
  obtain it ce a w k where at: "worker_at s i = WPublishing it ce a" and pub: "publish_attempt ex (st_world s) it ce a = Some (w, k)"
    and s': "s' = set_worker i k (s\<lparr>st_world := w\<rparr>)"
    using assms(3) by (auto simp: worker_publishes_def split: worker.splits option.splits)
  obtain e where e: "ex_Publish ex ce (st_world s) = (w, e)" "k = (case e of None \<Rightarrow> WFinished it None | Some _ \<Rightarrow> WPublishing it ce (a + 1))"
    using pub by (auto simp: publish_attempt_def split: if_splits prod.splits option.splits)
  have i: "i < length (st_workers s)" "st_workers s ! i = WPublishing it ce a" using worker_at_Some [OF at] by simp_all
  have ok: "worker_ok ex (acc (st_world s)) (st_received s) (WPublishing it ce a)" using stream_invD(3) [OF assms(1)] i nth_mem by metis
  have sub: "acc (st_world s) \<subseteq> acc w" "e = None \<longrightarrow> ce \<in> acc w" using assms(2) e(1) unfolding sink_keeps_def by blast+
  have "worker_ok ex (acc w) (st_received s) k" using ok sub(2) e(2) by (cases e) (auto simp: settled_def)
  then show ?thesis using worker_step_inv [OF assms(1) i(1) _ sub(1), of k] i(2) e(2) s' by (cases e) simp_all
qed

lemma ignored_inv: "stream_inv ex acc s n \<Longrightarrow> stream_inv ex acc (s\<lparr>st_consuming := c\<rparr>) n"
  "stream_inv ex acc s n \<Longrightarrow> stream_inv ex acc (s\<lparr>st_writer := x\<rparr>) n" "stream_inv ex acc s n \<Longrightarrow> stream_inv ex acc (s\<lparr>st_cancelled := True\<rparr>) n"
  by (simp_all add: stream_inv_def in_flight_def Let_def)

lemma dropped_result_inv: "stream_inv ex acc s n \<Longrightarrow> st_resultCh s = r # rest \<Longrightarrow> stream_inv ex acc (s\<lparr>st_resultCh := rest, st_cancelled := True\<rparr>) n"
  by (simp add: stream_inv_def Let_def)

lemma token_inv:
  assumes "stream_inv ex acc s n" and "sink_keeps ex acc" and "length (st_received s) < 2 ^ 64" and "tokenWriter ex s = Some s'"
  shows "\<exists>n'. stream_inv ex acc s' n'"
proof -
  obtain r rest where r: "st_writer s = Writing" "st_resultCh s = r # rest" using assms(4) by (auto simp: tokenWriter_def split: writer.splits list.splits)
  show ?thesis
  proof (cases "wr_err r")
    case (Some e)
    then show ?thesis using assms(4) r ignored_inv(2) [OF dropped_result_inv [OF assms(1) r(2)]] by (auto simp: tokenWriter_def Let_def)
  next
    case None
    obtain t tok where m: "markCompleted (wr_seq r) (wr_resumeToken r) (st_tracker s) = (t, tok)" by fastforce
    obtain n' where n': "stream_inv ex acc (s\<lparr>st_resultCh := rest, st_tracker := t, st_marked := st_marked s @ (case tok of None \<Rightarrow> [] | Some x \<Rightarrow> [x])\<rparr>) n'"
      using written_inv [OF assms(1) r(2) None assms(3) m] by blast
    show ?thesis
    proof (cases tok)
      case None
      then show ?thesis using n' assms(4) r \<open>wr_err r = None\<close> m by (auto simp: tokenWriter_def Let_def)
    next
      case (Some x)
      obtain w e where w: "ex_MarkProcessed ex x (st_world s) = (w, e)" by fastforce
      then have "acc (st_world s) \<subseteq> acc w" using assms(2) unfolding sink_keeps_def by blast
      then have "stream_inv ex acc (s\<lparr>st_resultCh := rest, st_tracker := t, st_marked := st_marked s @ [x], st_world := w\<rparr>) n'"
        using world_inv [OF n', of w] Some by simp
      from this ignored_inv(2) [OF ignored_inv(3) [OF this]] show ?thesis
        using assms(4) r \<open>wr_err r = None\<close> m Some w by (cases e) (auto simp: tokenWriter_def Let_def)
    qed
  qed
qed

lemma receive_inv:
  assumes "stream_inv ex acc s n" and "consumeAndDispatch ex e s = Some s' \<or> dispatch_cancelled e s = Some s'"
  shows "stream_inv ex acc s' n"
  using assms(2)
proof
  assume run: "consumeAndDispatch ex e s = Some s'"
  let ?it = "\<lparr>wi_seq = st_seq s + 1, wi_event = e, wi_resumeToken = ex_GetResumeToken ex e\<rparr>"
  have "stream_inv ex acc (s\<lparr>st_seq := st_seq s + 1, st_consuming := st_consuming s, st_dispatchCh := st_dispatchCh s @ [?it], st_received := st_received s @ [e]\<rparr>) n"
    by (rule received_inv [OF assms(1)]) (use stream_invD(1) [OF assms(1)] in simp_all)
  then show ?thesis using run by (auto simp: consumeAndDispatch_def Let_def split: if_splits)
next
  assume "dispatch_cancelled e s = Some s'"
  then have "st_cancelled s" "s' = s\<lparr>st_seq := st_seq s + 1, st_consuming := False, st_received := st_received s @ [e]\<rparr>"
    by (auto simp: dispatch_cancelled_def split: if_splits)
  then show ?thesis using received_inv [OF assms(1), of "[]" e False] by auto
qed

lemma take_inv:
  assumes "stream_inv ex acc s n" and "worker_takes i s = Some s'"
  shows "stream_inv ex acc s' n"
proof -
  obtain it rest where t: "worker_at s i = WIdle" "st_dispatchCh s = it # rest"
    "s' = set_worker i (if st_cancelled s then WReturned else WProcessing it) (s\<lparr>st_dispatchCh := rest\<rparr>)"
    using assms(2) by (auto simp: worker_takes_def split: worker.splits list.splits)
  have "stream_inv ex acc (set_worker i (if st_cancelled s then WReturned else WProcessing it) (s\<lparr>st_dispatchCh := rest, st_resultCh := st_resultCh s @ []\<rparr>)) n"
    by (rule moved_inv [OF assms(1)]) (use worker_at_Some [OF t(1)] t(2) stream_invD(2) [OF assms(1), of it] in auto)
  then show ?thesis using t(3) by auto
qed

lemma send_inv:
  assumes "stream_inv ex acc s n" and "worker_sends i s = Some s'"
  shows "stream_inv ex acc s' n"
proof -
  obtain it err where t: "worker_at s i = WFinished it err"
    "s' = set_worker i WIdle (s\<lparr>st_resultCh := st_resultCh s @ [\<lparr>wr_seq = wi_seq it, wr_resumeToken = wi_resumeToken it, wr_err = err\<rparr>]\<rparr>)"
    using assms(2) by (auto simp: worker_sends_def split: worker.splits if_splits)
  have i: "i < length (st_workers s)" "st_workers s ! i = WFinished it err" using worker_at_Some [OF t(1)] by simp_all
  have "worker_ok ex (acc (st_world s)) (st_received s) (WFinished it err)" using stream_invD(3) [OF assms(1)] i nth_mem by metis
  then have r: "result_ok ex (acc (st_world s)) (st_received s) \<lparr>wr_seq = wi_seq it, wr_resumeToken = wi_resumeToken it, wr_err = err\<rparr>"
    by (auto simp: result_ok_def item_ok_def)
  have "stream_inv ex acc (set_worker i WIdle (s\<lparr>st_dispatchCh := st_dispatchCh s, st_resultCh := st_resultCh s @ [\<lparr>wr_seq = wi_seq it, wr_resumeToken = wi_resumeToken it, wr_err = err\<rparr>]\<rparr>)) n"
    by (rule moved_inv [OF assms(1)]) (use i r in auto)
  then show ?thesis using t(2) by auto
qed

lemma step_inv:
  assumes "stream_inv ex acc s n" and "sink_keeps ex acc" and "length (st_received s') < 2 ^ 64" and "stream_step ex l s = Some s'"
  shows "\<exists>n'. stream_inv ex acc s' n'"
proof (cases l)
  case (Receive e)
  then show ?thesis using receive_inv [OF assms(1)] assms(4) by auto
next
  case (ReceiveCancelled e)
  then show ?thesis using receive_inv [OF assms(1)] assms(4) by auto
next
  case StopConsuming
  then show ?thesis using assms(4) ignored_inv(1) [OF assms(1)] by (auto split: if_splits)
next
  case (TakeItem i)
  then show ?thesis using take_inv [OF assms(1)] assms(4) by auto
next
  case (ProcessItem i)
  then obtain it where "worker_at s i = WProcessing it" "s' = set_worker i (processEvent ex (st_world s) it) s"
    using assms(4) by (auto split: worker.splits)
  then show ?thesis using worker_inv [OF assms(1), of i "WProcessing it" "processEvent ex (st_world s) it"] by (auto simp: process_ok process_seq)
next
  case (AttemptPublish i)
  then show ?thesis using publish_inv [OF assms(1,2)] assms(4) by auto
next
  case (GiveUp i e)
  then obtain it ce a k where "worker_at s i = WPublishing it ce a" "k = WFinished it (Some (EWrap ''publish failed after retries'' e))" "s' = set_worker i k s"
    using assms(4) by (auto simp: worker_gives_up_def publish_give_up_def split: worker.splits option.splits if_splits)
  then show ?thesis using worker_inv [OF assms(1), of i "WPublishing it ce a" k] by auto
next
  case (SendResult i)
  then show ?thesis using send_inv [OF assms(1)] assms(4) by auto
next
  case (WorkerReturns i)
  then show ?thesis using worker_inv [OF assms(1), of i WIdle WReturned] assms(4) by (auto split: if_splits)
next
  case WriteToken
  then have "tokenWriter ex s = Some s'" using assms(4) by simp
  moreover have "st_received s' = st_received s" using calculation
    by (auto simp: tokenWriter_def Let_def split: writer.splits list.splits option.splits prod.splits)
  ultimately show ?thesis using token_inv [OF assms(1,2)] assms(3) by simp
next
  case WriterReturns
  then show ?thesis using assms(4) ignored_inv(2) [OF assms(1)] by (auto split: if_splits)
next
  case CancelContext
  then show ?thesis using assms(4) ignored_inv(3) [OF assms(1)] by auto
qed

lemma received_grows: "stream_step ex l s = Some s' \<Longrightarrow> length (st_received s) \<le> length (st_received s')"
  by (cases l) (auto simp: consumeAndDispatch_def dispatch_cancelled_def worker_takes_def worker_publishes_def worker_gives_up_def worker_sends_def
    tokenWriter_def set_worker_def Let_def split: worker.splits list.splits option.splits if_splits prod.splits writer.splits)

lemma run_grows: "run_stream ex ls s = Some s' \<Longrightarrow> length (st_received s) \<le> length (st_received s')"
  by (induction ls arbitrary: s) (fastforce split: option.splits dest: received_grows)+

lemma run_inv:
  assumes "sink_keeps ex acc" and "run_stream ex ls s = Some s'" and "length (st_received s') < 2 ^ 64" and "stream_inv ex acc s n"
  shows "\<exists>n'. stream_inv ex acc s' n'"
  using assms(2-)
proof (induction ls arbitrary: s n)
  case (Cons l ls)
  obtain s1 where s1: "stream_step ex l s = Some s1" "run_stream ex ls s1 = Some s'" using Cons.prems(1) by (auto split: option.splits)
  then have "length (st_received s1) < 2 ^ 64" using run_grows [OF s1(2)] Cons.prems(2) by linarith
  then obtain n1 where "stream_inv ex acc s1 n1" using step_inv [OF Cons.prems(3) assms(1) _ s1(1)] by blast
  then show ?case by (rule Cons.IH [OF s1(2) Cons.prems(2)])
qed auto

lemma start_inv: "stream_inv ex acc (streamEvents ex w) 0"
  by (auto simp: stream_inv_def streamEvents_def Let_def newSequenceTracker_def completed_ok_def marks_ok_def intro!: exI [of _ "[]"])

section \<open>Resume tokens\<close>

text \<open>
  Two workers publish two events; the sink fails on the first attempt, for the first event, so the second event completes first and its token
  is written only when the first is published as well.
\<close>

definition two_workers :: "(health_event, CloudEvent list \<times> nat) HealthEventsExporter" where
  "two_workers = \<lparr>ex_metadata = [(''cluster'', ''c1'')], ex_MaxRetries = 2, ex_workers = 2, ex_filter = None,
     ex_UnmarshalDocument = (\<lambda>e. Inr (Some e)), ex_GetResumeToken = (\<lambda>e. Some (Id e)), ex_format_time = (\<lambda>t. ''now''),
     ex_now = (\<lambda>w. 0), ex_uuid = (\<lambda>w. fmt_nat (length (fst w))),
     ex_Publish = (\<lambda>ce w. if snd w > 0 then ((fst w, snd w - 1), Some (EText ''sink unavailable'')) else ((ce # fst w, 0), None)),
     ex_MarkProcessed = (\<lambda>tok w. (w, None))\<rparr>"

definition out_of_order :: "health_event stream_label list" where
  "out_of_order = [Receive (zero_event\<lparr>Id := ''a''\<rparr>), Receive (zero_event\<lparr>Id := ''b''\<rparr>), TakeItem 0, TakeItem 1, ProcessItem 0, ProcessItem 1,
     AttemptPublish 0, AttemptPublish 1, SendResult 1, WriteToken, AttemptPublish 0, SendResult 0, WriteToken, StopConsuming,
     WorkerReturns 0, WorkerReturns 1]"

definition after_run :: "(health_event, CloudEvent list \<times> nat) stream_state" where
  "after_run = the (run_stream two_workers out_of_order (streamEvents two_workers ([], 1)))"

lemma two_workers_keep: "sink_keeps two_workers (\<lambda>w. set (fst w))"
  unfolding sink_keeps_def by (auto simp: two_workers_def split: if_splits)

lemma after_run_received: "length (st_received after_run) = 2" by code_simp

lemma after_run_reached: "run_stream two_workers out_of_order (streamEvents two_workers ([], 1)) = Some after_run"
proof -
  have "run_stream two_workers out_of_order (streamEvents two_workers ([], 1)) \<noteq> None" by code_simp
  then show ?thesis by (simp add: after_run_def)
qed

text \<open>
  C38. However the consumer, the workers and the token writer interleave, and however often the sink fails: each resume token that is
  written is that of a received event up to which every received event is settled, that is, skipped on purpose or accepted by the
  sink; and the tokens are written in the order of the events. So a restart from the last token loses no event.
\<close>

theorem resume_tokens_sound:
  assumes "sink_keeps ex accepted" and "run_stream ex steps (streamEvents ex w) = Some s" and "length (st_received s) < 2 ^ 64"
  shows "\<exists>ks. sorted_wrt (<) ks \<and> map Some (st_marked s) = map (\<lambda>k. ex_GetResumeToken ex (st_received s ! k)) ks \<and>
    (\<forall>k \<in> set ks. k < length (st_received s) \<and> (\<forall>i \<le> k. settled ex (accepted (st_world s)) (st_received s ! i)))"
proof -
  obtain n where "stream_inv ex accepted s n" using run_inv [OF assms start_inv] by blast
  note inv = stream_invD [OF this]
  obtain ks where ks: "sorted_wrt (<) ks" "map Some (st_marked s) = map ((!) (map (ex_GetResumeToken ex) (st_received s))) ks" "\<forall>k \<in> set ks. k < n"
    using inv(10) by (auto simp: marks_ok_def)
  have "map ((!) (map (ex_GetResumeToken ex) (st_received s))) ks = map (\<lambda>k. ex_GetResumeToken ex (st_received s ! k)) ks"
    using ks(3) inv(6) by auto
  then show ?thesis using ks inv(6,8) by (intro exI [of _ ks]) auto
qed

theorem resume_tokens_sound_witness:
  "st_marked after_run = [''b''] \<and>
   (\<exists>ks. map Some (st_marked after_run) = map (\<lambda>k. ex_GetResumeToken two_workers (st_received after_run ! k)) ks \<and>
     list_all (\<lambda>k. list_all (\<lambda>i. settled two_workers (set (fst (st_world after_run))) (st_received after_run ! i)) [0 ..< Suc k]) ks)"
proof
  show "st_marked after_run = [''b'']" by code_simp
  have "length (st_received after_run) < 2 ^ 64" using after_run_received by simp
  from resume_tokens_sound [OF two_workers_keep after_run_reached this]
  show "\<exists>ks. map Some (st_marked after_run) = map (\<lambda>k. ex_GetResumeToken two_workers (st_received after_run ! k)) ks \<and>
     list_all (\<lambda>k. list_all (\<lambda>i. settled two_workers (set (fst (st_world after_run))) (st_received after_run ! i)) [0 ..< Suc k]) ks"
    unfolding list_all_iff by (metis atLeastLessThan_iff less_Suc_eq_le set_upt)
qed

text \<open>
  C39. When the stream ends, that is, the change stream is closed, all workers have returned and the writer has seen every result, and the
  context was never cancelled, then every received event is settled, and the last token written is that of the last event that was
  received, if it has one: no token stays behind an event that was completed out of order.
\<close>

theorem stream_drains:
  assumes "sink_keeps ex accepted" and "run_stream ex steps (streamEvents ex w) = Some s" and "length (st_received s) < 2 ^ 64"
    and "\<not> st_cancelled s" and "st_dispatchCh s = []" and "all_returned s" and "st_resultCh s = []"
  shows "(\<forall>e \<in> set (st_received s). settled ex (accepted (st_world s)) e) \<and>
    (\<forall>tok. st_received s \<noteq> [] \<longrightarrow> ex_GetResumeToken ex (last (st_received s)) = Some tok \<longrightarrow> st_marked s \<noteq> [] \<and> last (st_marked s) = tok)"
proof -
  obtain n where "stream_inv ex accepted s n" using run_inv [OF assms(1-3) start_inv] by blast
  note inv = stream_invD [OF this]
  have idle: "worker_seq k = None" if "k \<in> set (st_workers s)" for k using assms(6) that by (auto simp: all_returned_def list_all_iff)
  have n: "n = length (st_received s)"
  proof (rule ccontr)
    assume "n \<noteq> length (st_received s)"
    then have "in_flight s (seq_of n)" using inv(11) [OF assms(4), of n] inv(6) by simp
    then show False using assms(5,7) idle inv(9) by (auto simp: in_flight_def simp del: of_nat_Suc)
  qed
  have "st_marked s \<noteq> [] \<and> last (st_marked s) = tok" if ne: "st_received s \<noteq> []" and tok: "ex_GetResumeToken ex (last (st_received s)) = Some tok" for tok
  proof -
    have l: "map (ex_GetResumeToken ex) (st_received s) ! (n - 1) = Some tok" "0 < n" using ne tok n by (simp_all add: last_conv_nth)
    obtain ks where ks: "map Some (st_marked s) = map ((!) (map (ex_GetResumeToken ex) (st_received s))) ks" "ks \<noteq> []" "last ks = n - 1"
      using inv(10) l unfolding marks_ok_def by (metis option.distinct(1))
    then have "Some (last (st_marked s)) = Some tok" using l by (metis last_map list.map_disc_iff)
    then show ?thesis using ks(1,2) by auto
  qed
  then show ?thesis using inv(8) n by (auto simp: in_set_conv_nth)
qed

theorem stream_drains_witness:
  "length (st_received after_run) = 2 \<and> last (st_marked after_run) = ''b'' \<and>
   list_all (settled two_workers (set (fst (st_world after_run)))) (st_received after_run)"
proof -
  have r: "length (st_received after_run) = 2" "length (st_received after_run) < 2 ^ 64" using after_run_received by simp_all
  have t: "ex_GetResumeToken two_workers (last (st_received after_run)) = Some ''b''" by code_simp
  have q: "\<not> st_cancelled after_run" "st_dispatchCh after_run = []" "all_returned after_run" "st_resultCh after_run = []" by code_simp+
  have "st_received after_run \<noteq> []" using r(1) by auto
  then show ?thesis using stream_drains [OF two_workers_keep after_run_reached r(2) q] r(1) t unfolding list_all_iff by blast
qed

end
