(* ===== verification/Analyzer_Rules.thy ===== *)
theory Analyzer_Rules
  imports Condition_Messages Event_Exporter
begin

text \<open>
  The rules of health-events-analyzer (\<^verbatim>\<open>health-events-analyzer/pkg/config/rules.go\<close>), what a rule regards as the identity of a
  recovery (\<^verbatim>\<open>pkg/reconciler/recovery_identity.go\<close>), and the events that it publishes (\<^verbatim>\<open>pkg/publisher/publisher.go\<close>).

  The syntax of qualified names of Kubernetes, CEL, the gRPC publisher of commons, the clock and the formatting of times are
  parameters. A mapping is shared by pointer between the configuration and its rules, so \<^verbatim>\<open>Validate\<close> returns the rules with the
  trimmed keys.
\<close>

section \<open>Rules\<close>

definition RecoveryScopeNode :: string where "RecoveryScopeNode = ''node''"
definition RecoveryScopeEntity :: string where "RecoveryScopeEntity = ''entity''"

record RecoveryMapping =
  rm_AnnotationKey :: string
  rm_Scope :: string
  rm_EntityTypes :: "string list"

record HealthEventsAnalyzerRule =
  ru_Recovery :: "RecoveryMapping option"
  ru_Name :: string
  ru_Stage :: "string list"
  ru_RecommendedAction :: string
  ru_Message :: string
  ru_EvaluateRule :: bool
  ru_ProcessingStrategy :: string
  ru_When :: string
  ru_when :: "(health_event \<Rightarrow> error + bool) option"

text \<open>The answer is true together with an error when the expression cannot be evaluated.\<close>

definition Applies :: "HealthEventsAnalyzerRule \<Rightarrow> health_event \<Rightarrow> bool \<times> error option" where
  "Applies r event =
     (case ru_when r of
        None \<Rightarrow> if TrimSpace (ru_When r) \<noteq> [] then (True, Some (EText ''when expression is not compiled'')) else (True, None)
      | Some matches \<Rightarrow> (case matches event of Inl e \<Rightarrow> (True, Some (EWrap ''when expression of rule'' e)) | Inr applies \<Rightarrow> (applies, None)))"

definition compileWhen :: "(string \<Rightarrow> error + (health_event \<Rightarrow> error + bool)) \<Rightarrow> HealthEventsAnalyzerRule \<Rightarrow> error + HealthEventsAnalyzerRule" where
  "compileWhen cel r =
     (if TrimSpace (ru_When r) = [] then Inr (r\<lparr>ru_when := None\<rparr>)
      else case cel (ru_When r) of Inl e \<Rightarrow> Inl (EWrap ''when expression'' e) | Inr f \<Rightarrow> Inr (r\<lparr>ru_when := Some f\<rparr>))"

fun Compile_rules :: "(string \<Rightarrow> error + (health_event \<Rightarrow> error + bool)) \<Rightarrow> HealthEventsAnalyzerRule list \<Rightarrow> error + HealthEventsAnalyzerRule list" where
  "Compile_rules cel [] = Inr []"
| "Compile_rules cel (r # rs) =
     (case compileWhen cel r of Inl e \<Rightarrow> Inl (EWrap (ru_Name r) e)
      | Inr r' \<Rightarrow> (case Compile_rules cel rs of Inl e \<Rightarrow> Inl e | Inr rs' \<Rightarrow> Inr (r' # rs')))"

definition HasAnnotationRecovery :: "HealthEventsAnalyzerRule list \<Rightarrow> bool" where
  "HasAnnotationRecovery rules = list_ex (\<lambda>r. ru_EvaluateRule r \<and> ru_Recovery r \<noteq> None) rules"

fun validateEntityTypes :: "string list \<Rightarrow> string list \<Rightarrow> error option" where
  "validateEntityTypes seen [] = None"
| "validateEntityTypes seen (entityType # rest) =
     (if TrimSpace entityType = [] \<or> entityType \<in> set seen then Some (EText ''recovery.entity_types must be non-empty and unique'')
      else validateEntityTypes (entityType # seen) rest)"

definition validate_mapping :: "(string \<Rightarrow> bool) \<Rightarrow> RecoveryMapping \<Rightarrow> error + RecoveryMapping" where
  "validate_mapping IsQualifiedName m =
     (let m' = m\<lparr>rm_AnnotationKey := TrimSpace (rm_AnnotationKey m)\<rparr> in
      if \<not> Contains (rm_AnnotationKey m') ''/'' \<or> \<not> IsQualifiedName (rm_AnnotationKey m')
      then Inl (EText ''recovery.annotation_key must be a qualified Kubernetes annotation key'')
      else if rm_Scope m' = RecoveryScopeNode \<and> rm_EntityTypes m' \<noteq> [] then Inl (EText ''node recovery must not configure entity_types'')
      else if rm_Scope m' = RecoveryScopeEntity \<and> rm_EntityTypes m' = [] then Inl (EText ''entity recovery requires entity_types'')
      else if rm_Scope m' \<noteq> RecoveryScopeNode \<and> rm_Scope m' \<noteq> RecoveryScopeEntity then Inl (EText ''recovery.scope must be node or entity'')
      else case validateEntityTypes [] (rm_EntityTypes m') of Some e \<Rightarrow> Inl e | None \<Rightarrow> Inr m')"

fun Validate_rules :: "(string \<Rightarrow> bool) \<Rightarrow> (string, string) gomap \<Rightarrow> HealthEventsAnalyzerRule list \<Rightarrow> error + HealthEventsAnalyzerRule list" where
  "Validate_rules IsQualifiedName keys [] = Inr []"
| "Validate_rules IsQualifiedName keys (rule # rest) =
     (case ru_Recovery rule of
        None \<Rightarrow> (case Validate_rules IsQualifiedName keys rest of Inl e \<Rightarrow> Inl e | Inr rs \<Rightarrow> Inr (rule # rs))
      | Some m \<Rightarrow>
          (case validate_mapping IsQualifiedName m of
             Inl e \<Rightarrow> Inl (EWrap (ru_Name rule) e)
           | Inr m' \<Rightarrow>
               if map_of keys (rm_AnnotationKey m') \<noteq> None then Inl (EText ''rules share recovery.annotation_key'')
               else (case Validate_rules IsQualifiedName (AList.update (rm_AnnotationKey m') (ru_Name rule) keys) rest of
                       Inl e \<Rightarrow> Inl e | Inr rs \<Rightarrow> Inr (rule\<lparr>ru_Recovery := Some m'\<rparr> # rs))))"

section \<open>Identities\<close>

record recoveryIdentity =
  ri_nodeName :: string
  ri_key :: string
  ri_entities :: "entity list"

text \<open>Entities with an empty value and of other types are passed over; two values of one type are a contradiction.\<close>

definition selectRecoveryEntity :: "string list \<Rightarrow> entity \<Rightarrow> (string, entity) gomap \<Rightarrow> (string, entity) gomap option" where
  "selectRecoveryEntity allowed en selected =
     (if EntityValue en = [] then Some selected
      else if EntityType en \<notin> set allowed then Some selected
      else case map_of selected (EntityType en) of
        Some existing \<Rightarrow> if EntityValue existing = EntityValue en then Some selected else None
      | None \<Rightarrow> Some (AList.update (EntityType en) en selected))"

fun select_entities :: "string list \<Rightarrow> entity list \<Rightarrow> (string, entity) gomap \<Rightarrow> (string, entity) gomap option" where
  "select_entities allowed [] selected = Some selected"
| "select_entities allowed (en # ens) selected =
     (case selectRecoveryEntity allowed en selected of None \<Rightarrow> None | Some selected' \<Rightarrow> select_entities allowed ens selected')"

definition identity_entities :: "entity list \<Rightarrow> string list \<Rightarrow> entity list option" where
  "identity_entities entities entityTypes =
     (let allowed = remdups entityTypes in
      case select_entities allowed entities [] of
        None \<Rightarrow> None
      | Some selected \<Rightarrow> if length selected \<noteq> length allowed then None else Some (sort_key EntityType (map snd selected)))"

definition recoveryEntityKey :: "string \<Rightarrow> entity list \<Rightarrow> string" where
  "recoveryEntityKey nodeName entities =
     nodeName @ concat (map (\<lambda>en. ''|'' @ fmt_nat (length (EntityType en)) @ '':'' @ EntityType en @ ''='' @
       fmt_nat (length (EntityValue en)) @ '':'' @ EntityValue en) entities)"

definition recoveryIdentityForEvent :: "HealthEventsAnalyzerRule \<Rightarrow> health_event \<Rightarrow> recoveryIdentity option" where
  "recoveryIdentityForEvent rule event =
     (case ru_Recovery rule of
        None \<Rightarrow> None
      | Some m \<Rightarrow>
          if NodeName event = [] then None
          else if rm_Scope m = RecoveryScopeNode then Some \<lparr>ri_nodeName = NodeName event, ri_key = NodeName event, ri_entities = []\<rparr>
          else case identity_entities (EntitiesImpacted event) (rm_EntityTypes m) of
            None \<Rightarrow> None
          | Some entities \<Rightarrow> Some \<lparr>ri_nodeName = NodeName event, ri_key = recoveryEntityKey (NodeName event) entities, ri_entities = entities\<rparr>)"

section \<open>Publishing\<close>

definition agentName :: string where "agentName = ''health-events-analyzer''"
definition idempotency_key_field :: string where "idempotency_key_field = ''idempotencyKey''"
definition sourceGeneratedTimestampMetadataKey :: string where "sourceGeneratedTimestampMetadataKey = ''source_generated_timestamp''"

record 'w PublisherConfig =
  pb_processingStrategy :: processing_strategy
  pb_send :: "health_event \<Rightarrow> 'w \<Rightarrow> 'w \<times> error option"
  pb_AcknowledgesStorage :: bool
  pb_now :: "'w \<Rightarrow> int"
  pb_format_time :: "int \<Rightarrow> string"

definition ProcessingStrategy_value :: "string \<Rightarrow> processing_strategy option" where
  "ProcessingStrategy_value name =
     List.find (\<lambda>s. processing_strategy_name s = name) [UNSPECIFIED, EXECUTE_REMEDIATION, STORE_ONLY, STORE_AND_ANALYSE]"

text \<open>The event before it is given its strategy.\<close>

definition derived_event :: "(int \<Rightarrow> string) \<Rightarrow> int \<Rightarrow> health_event \<Rightarrow> recommended_action \<Rightarrow> string \<Rightarrow> string \<Rightarrow> bool \<Rightarrow> health_event" where
  "derived_event format_time now event action ruleName message healthy =
     (let e1 = event\<lparr>Metadata := AList.delete idempotency_key_field (Metadata event), Agent := agentName, CheckName := ruleName,
            RecommendedAction := action, IsHealthy := healthy\<rparr>;
          e2 = (if healthy then e1\<lparr>ErrorCode := [], QuarantineOverrides := None, CustomRecommendedAction := []\<rparr> else e1)\<lparr>Message := message\<rparr>;
          e3 = (case GeneratedTimestamp event of None \<Rightarrow> e2
            | Some src \<Rightarrow> e2\<lparr>Metadata := AList.update sourceGeneratedTimestampMetadataKey (format_time src) (Metadata e2)\<rparr>)
      in e3\<lparr>GeneratedTimestamp := Some now\<rparr>)"

definition ErrPublishRejected :: error where "ErrPublishRejected = EText ''health event batch rejected''"

definition sendHealthEventWithRetry :: "'w PublisherConfig \<Rightarrow> health_event \<Rightarrow> 'w \<Rightarrow> 'w \<times> error option" where
  "sendHealthEventWithRetry p event w =
     (case pb_send p event w of
        (w', None) \<Rightarrow> (w', None)
      | (w', Some e) \<Rightarrow> if error_is e ErrPublishRejected then (w', Some e) else (w', Some (EWrap ''all retry attempts to send health event failed'' e)))"

definition publish :: "'w PublisherConfig \<Rightarrow> health_event \<Rightarrow> recommended_action \<Rightarrow> string \<Rightarrow> string \<Rightarrow> HealthEventsAnalyzerRule option \<Rightarrow> bool \<Rightarrow> 'w \<Rightarrow> 'w \<times> (error + health_event)" where
  "publish p event action ruleName message rule healthy w =
     (let newEvent = derived_event (pb_format_time p) (pb_now p w) event action ruleName message healthy;
          strategy = (case rule of None \<Rightarrow> Some (pb_processingStrategy p)
            | Some r \<Rightarrow> if ru_ProcessingStrategy r = [] then Some (pb_processingStrategy p) else ProcessingStrategy_value (ru_ProcessingStrategy r))
      in case strategy of
           None \<Rightarrow> (w, Inl (EText ''unexpected processingStrategy value''))
         | Some s \<Rightarrow>
             let e = newEvent\<lparr>ProcessingStrategy := s, IsFatal := action \<noteq> RA_NONE\<rparr> in
             (case sendHealthEventWithRetry p e w of
                (w', Some err) \<Rightarrow> (w', Inl (EWrap ''publish health event for rule'' err))
              | (w', None) \<Rightarrow> (w', Inr e)))"

definition Publish :: "'w PublisherConfig \<Rightarrow> health_event \<Rightarrow> recommended_action \<Rightarrow> string \<Rightarrow> string \<Rightarrow> HealthEventsAnalyzerRule option \<Rightarrow> 'w \<Rightarrow> 'w \<times> error option" where
  "Publish p event action ruleName message rule w =
     (case publish p event action ruleName message rule False w of (w', Inl e) \<Rightarrow> (w', Some e) | (w', Inr _) \<Rightarrow> (w', None))"

definition PublishRecovery :: "'w PublisherConfig \<Rightarrow> health_event \<Rightarrow> HealthEventsAnalyzerRule \<Rightarrow> 'w \<Rightarrow> 'w \<times> (error + health_event)" where
  "PublishRecovery p event rule w = publish p event RA_NONE (ru_Name rule) ''Operator verified recovery'' (Some rule) True w"

end
