(* ===== verification/Analyzer_Recovery.thy ===== *)
theory Analyzer_Recovery
  imports Analyzer_Rules
begin

text \<open>
  Recoveries that an operator requests by an annotation of a node (\<^verbatim>\<open>health-events-analyzer/pkg/reconciler\<close>: \<^verbatim>\<open>node_recovery_request.go\<close>,
  \<^verbatim>\<open>recovery_store.go\<close>, \<^verbatim>\<open>node_recovery.go\<close> and the report of \<^verbatim>\<open>node_recovery_controller.go\<close>). A request is checked, the derived
  events of the rule on the node are read, and a recovery is published for every fault that the request covers; the history
  before the latest recovery is cut off from later evaluations of the rule.

  Parameters are the database, the cache of nodes, the API for Events, the parsing and formatting of times and of the JSON request, the
  digest, and the order in which Go visits a map. The lock of a node is held throughout, so a reconciliation is one sequence of
  calls. The context of a reconciliation ends after two minutes; how many polls fit in before it ends is a parameter.
\<close>

section \<open>Requests\<close>

definition annotationMetadataKey :: string where "annotationMetadataKey = ''analyzer_recovery_annotation''"
definition annotationNodeUIDKey :: string where "annotationNodeUIDKey = ''analyzer_recovery_node_uid''"
definition annotationRequestKey :: string where "annotationRequestKey = ''analyzer_recovery_request''"
definition annotationVerifiedAtKey :: string where "annotationVerifiedAtKey = ''analyzer_recovery_verified_at''"

record recovery_node =
  rn_Name :: string
  rn_UID :: string
  rn_CreationTimestamp :: int
  rn_Annotations :: "(string, string) gomap"

record annotationRecoveryRequest =
  rq_RecoveredAt :: string
  rq_Entities :: "entity list"

record recovery_codec =
  rc_Decode :: "string \<Rightarrow> error + annotationRecoveryRequest"
  rc_ParseTime :: "string \<Rightarrow> error + int"
  rc_FormatTime :: "int \<Rightarrow> string"
  rc_Digest :: "string list \<Rightarrow> string"

definition mapped :: "(string, string) gomap \<Rightarrow> string \<Rightarrow> string" where
  "mapped m k = (case map_of m k of None \<Rightarrow> [] | Some v \<Rightarrow> v)"

fun annotation_entities_loop :: "string list \<Rightarrow> entity list \<Rightarrow> error + entity list" where
  "annotation_entities_loop allowed [] = Inr []"
| "annotation_entities_loop allowed (en # ens) =
     (if EntityType en \<notin> set allowed \<or> TrimSpace (EntityValue en) = [] then Inl (EText ''invalid or duplicate recovery entity'')
      else case annotation_entities_loop (removeAll (EntityType en) allowed) ens of Inl e \<Rightarrow> Inl e | Inr es \<Rightarrow> Inr (en # es))"

definition annotationEntities :: "RecoveryMapping \<Rightarrow> entity list \<Rightarrow> error + entity list" where
  "annotationEntities mapping requested =
     (if requested = [] then Inr []
      else if rm_Scope mapping \<noteq> RecoveryScopeEntity \<or> length requested \<noteq> length (rm_EntityTypes mapping)
      then Inl (EText ''entities must identify exactly one value for every configured entity type'')
      else annotation_entities_loop (rm_EntityTypes mapping) requested)"

definition parseAnnotationRecovery :: "recovery_codec \<Rightarrow> recovery_node \<Rightarrow> HealthEventsAnalyzerRule \<Rightarrow> RecoveryMapping \<Rightarrow> string \<Rightarrow> int \<Rightarrow> error + health_event" where
  "parseAnnotationRecovery c node rule mapping val now =
     (let trimmed = TrimSpace val;
          decoded = (if HasPrefix trimmed ''{''
            then (case rc_Decode c val of Inl e \<Rightarrow> Inl (EWrap ''decode recovery request'' e) | Inr r \<Rightarrow> Inr r)
            else Inr \<lparr>rq_RecoveredAt = trimmed, rq_Entities = []\<rparr>)
      in case decoded of
           Inl e \<Rightarrow> Inl e
         | Inr request \<Rightarrow>
             (case rc_ParseTime c (rq_RecoveredAt request) of
                Inl e \<Rightarrow> Inl (EWrap ''recoveredAt must be an RFC 3339 timestamp'' e)
              | Inr timestamp \<Rightarrow>
                  if timestamp > now \<or> timestamp < rn_CreationTimestamp node
                  then Inl (EText ''recoveredAt must be between node creation and the current time'')
                  else (case annotationEntities mapping (rq_Entities request) of
                          Inl e \<Rightarrow> Inl e
                        | Inr entities \<Rightarrow>
                            Inr (zero_event\<lparr>Version := 1, Agent := agentName, CheckName := ru_Name rule, NodeName := rn_Name node, IsHealthy := True,
                              GeneratedTimestamp := Some timestamp, EntitiesImpacted := entities,
                              Metadata := [(annotationMetadataKey, rm_AnnotationKey mapping), (annotationVerifiedAtKey, rc_FormatTime c timestamp),
                                (annotationNodeUIDKey, rn_UID node), (annotationRequestKey, rc_Digest c [rn_UID node, rm_AnnotationKey mapping, val])]\<rparr>))))"

section \<open>Derived events in the store\<close>

record derived_record =
  dr_CreatedAt :: int
  dr_HealthEvent :: "health_event option"

type_synonym cursor = "(error + derived_record) list \<times> error option"

record 'w analyzer_env =
  an_publisher :: "'w PublisherConfig"
  an_codec :: recovery_codec
  an_Find :: "(string \<times> qvalue) list \<Rightarrow> 'w \<Rightarrow> error + cursor"
  an_GetNode :: "string \<Rightarrow> 'w \<Rightarrow> error + recovery_node"
  an_CreateEvent :: "string \<Rightarrow> recovery_node \<Rightarrow> string \<Rightarrow> string \<Rightarrow> bool \<Rightarrow> 'w \<Rightarrow> 'w \<times> error option"
  an_range :: "(string \<times> derived_record) list \<Rightarrow> (string \<times> derived_record) list"
  an_ticks :: "'w \<Rightarrow> nat"
  an_tick :: "'w \<Rightarrow> 'w"
  an_due :: "'w \<Rightarrow> bool"
  an_ctxErr :: "'w \<Rightarrow> error"

definition derivedFilter :: "HealthEventsAnalyzerRule \<Rightarrow> string \<Rightarrow> (string \<times> qvalue) list" where
  "derivedFilter rule node = [(''healthevent.agent'', VString agentName), (''healthevent.checkname'', VString (ru_Name rule)), (''healthevent.nodename'', VString node)]"

text \<open>The loop over the cursor: a record that is malformed, or that the visitor refuses, ends it.\<close>

fun scan_records :: "(int \<Rightarrow> health_event \<Rightarrow> 'a \<Rightarrow> error + 'a) \<Rightarrow> (error + derived_record) list \<Rightarrow> 'a \<Rightarrow> error + 'a" where
  "scan_records visit [] acc = Inr acc"
| "scan_records visit (r # rs) acc =
     (case r of
        Inl e \<Rightarrow> Inl (EWrap ''decode derived event'' e)
      | Inr d \<Rightarrow>
          (case dr_HealthEvent d of
             None \<Rightarrow> Inl (EText ''derived record is missing its health event'')
           | Some ev \<Rightarrow>
               if GeneratedTimestamp ev = None then Inl (EText ''invalid derived generation time'')
               else (case visit (dr_CreatedAt d) ev acc of Inl e \<Rightarrow> Inl e | Inr acc' \<Rightarrow> scan_records visit rs acc')))"

definition scanDerived :: "'w analyzer_env \<Rightarrow> (string \<times> qvalue) list \<Rightarrow> (int \<Rightarrow> health_event \<Rightarrow> 'a \<Rightarrow> error + 'a) \<Rightarrow> 'a \<Rightarrow> 'w \<Rightarrow> error + 'a" where
  "scanDerived r flt visit acc w =
     (case an_Find r flt w of
        Inl e \<Rightarrow> Inl (EWrap ''find derived events'' e)
      | Inr (records, cursorErr) \<Rightarrow>
          (case scan_records visit records acc of
             Inl e \<Rightarrow> Inl e
           | Inr acc' \<Rightarrow> (case cursorErr of Some e \<Rightarrow> Inl e | None \<Rightarrow> Inr acc')))"

definition event_time :: "health_event \<Rightarrow> int" where
  "event_time ev = (case GeneratedTimestamp ev of None \<Rightarrow> 0 | Some t \<Rightarrow> t)"

definition derivedAfter :: "int \<Rightarrow> health_event \<Rightarrow> int \<Rightarrow> health_event \<Rightarrow> bool" where
  "derivedAfter aCreated a bCreated b \<longleftrightarrow> event_time a > event_time b \<or> event_time a = event_time b \<and> aCreated > bCreated"

definition state_key :: "recoveryIdentity \<Rightarrow> health_event \<Rightarrow> string" where
  "state_key identity ev =
     ri_key identity @ ''|'' @ fmt_nat (length (ComponentClass ev)) @ '':'' @ ComponentClass ev @ ''|'' @ fmt_nat (unat (Version ev))"

type_synonym derived_states = "(string, derived_record) gomap"

definition keep_latest :: "HealthEventsAnalyzerRule \<Rightarrow> int \<Rightarrow> health_event \<Rightarrow> derived_states \<Rightarrow> error + derived_states" where
  "keep_latest rule created ev states =
     (case recoveryIdentityForEvent rule ev of
        None \<Rightarrow> Inr states
      | Some identity \<Rightarrow>
          let key = state_key identity ev; candidate = \<lparr>dr_CreatedAt = created, dr_HealthEvent = Some ev\<rparr> in
          (case map_of states key of
             None \<Rightarrow> Inr (AList.update key candidate states)
           | Some current \<Rightarrow>
               if derivedAfter created ev (dr_CreatedAt current) (the (dr_HealthEvent current)) then Inr (AList.update key candidate states) else Inr states))"

definition derivedStatesForNode :: "'w analyzer_env \<Rightarrow> HealthEventsAnalyzerRule \<Rightarrow> string \<Rightarrow> 'w \<Rightarrow> error + derived_states" where
  "derivedStatesForNode r rule node w = scanDerived r (derivedFilter rule node) (keep_latest rule) [] w"

definition recoveryStored :: "'w analyzer_env \<Rightarrow> health_event \<Rightarrow> HealthEventsAnalyzerRule \<Rightarrow> recoveryIdentity \<Rightarrow> 'w \<Rightarrow> error + bool" where
  "recoveryStored r event rule identity w =
     scanDerived r (derivedFilter rule (NodeName event) @ [(''healthevent.ishealthy'', VBool True),
         (''healthevent.metadata.'' @ annotationRequestKey, VString (mapped (Metadata event) annotationRequestKey))])
       (\<lambda>created ev found. Inr (found \<or> (case recoveryIdentityForEvent rule ev of None \<Rightarrow> False
          | Some other \<Rightarrow> ri_key other = ri_key identity \<and> ComponentClass ev = ComponentClass event \<and> Version ev = Version event)))
       False w"

text \<open>The latest verified time of a recovery of the identity on the present node; None stands for the zero time.\<close>

definition later_verified :: "recovery_codec \<Rightarrow> HealthEventsAnalyzerRule \<Rightarrow> recoveryIdentity \<Rightarrow> recovery_node \<Rightarrow> int \<Rightarrow> health_event \<Rightarrow> int option \<Rightarrow> error + int option" where
  "later_verified c rule identity node created ev latest =
     (case recoveryIdentityForEvent rule ev of
        None \<Rightarrow> Inr latest
      | Some other \<Rightarrow>
          if ri_key other \<noteq> ri_key identity then Inr latest
          else (case rc_ParseTime c (mapped (Metadata ev) annotationVerifiedAtKey) of
                  Inl e \<Rightarrow> Inl (EWrap ''invalid stored recovery verification time'' e)
                | Inr verified \<Rightarrow>
                    if verified < rn_CreationTimestamp node \<or> verified > event_time ev
                    then Inl (EText ''stored recovery verification time is outside node lifetime or publication time'')
                    else Inr (case latest of None \<Rightarrow> Some verified | Some l \<Rightarrow> Some (max l verified))))"

definition latestRecoveryTime :: "'w analyzer_env \<Rightarrow> HealthEventsAnalyzerRule \<Rightarrow> RecoveryMapping \<Rightarrow> recoveryIdentity \<Rightarrow> 'w \<Rightarrow> error + int option" where
  "latestRecoveryTime r rule mapping identity w =
     (case an_GetNode r (ri_nodeName identity) w of
        Inl e \<Rightarrow> if IsNotFound e then Inr None else Inl e
      | Inr node \<Rightarrow>
          scanDerived r (derivedFilter rule (ri_nodeName identity) @ [(''healthevent.ishealthy'', VBool True),
              (''healthevent.metadata.'' @ annotationNodeUIDKey, VString (rn_UID node)),
              (''healthevent.metadata.'' @ annotationMetadataKey, VString (rm_AnnotationKey mapping))])
            (later_verified (an_codec r) rule identity node) None w)"

section \<open>Publishing a recovery\<close>

definition recoveryEvent :: "health_event \<Rightarrow> entity list \<Rightarrow> (string, string) gomap \<Rightarrow> health_event" where
  "recoveryEvent fault entities metadata =
     fault\<lparr>EntitiesImpacted := entities, Metadata := fold (\<lambda>(k, v). AList.update k v) metadata (Metadata fault)\<rparr>"

text \<open>The polling loop, with the number of ticks before the context is done.\<close>

fun wait_loop :: "'w analyzer_env \<Rightarrow> health_event \<Rightarrow> HealthEventsAnalyzerRule \<Rightarrow> recoveryIdentity \<Rightarrow> nat \<Rightarrow> 'w \<Rightarrow> 'w \<times> error option" where
  "wait_loop r event rule identity ticks w =
     (case recoveryStored r event rule identity w of
        Inl e \<Rightarrow> (w, Some e)
      | Inr True \<Rightarrow> (w, None)
      | Inr False \<Rightarrow>
          (case ticks of
             0 \<Rightarrow> (w, Some (an_ctxErr r w))
           | Suc left \<Rightarrow>
               let w1 = an_tick r w in
               if an_due r w1
               then (case PublishRecovery (an_publisher r) event rule w1 of
                       (w2, Inl e) \<Rightarrow> (w2, Some e) | (w2, Inr _) \<Rightarrow> wait_loop r event rule identity left w2)
               else wait_loop r event rule identity left w1))"

declare wait_loop.simps [simp del]

definition waitForRecoveryStorage :: "'w analyzer_env \<Rightarrow> health_event \<Rightarrow> HealthEventsAnalyzerRule \<Rightarrow> recoveryIdentity \<Rightarrow> 'w \<Rightarrow> 'w \<times> error option" where
  "waitForRecoveryStorage r event rule identity w = wait_loop r event rule identity (an_ticks r w) w"

definition publishRecoveryUntilStored :: "'w analyzer_env \<Rightarrow> health_event \<Rightarrow> HealthEventsAnalyzerRule \<Rightarrow> recoveryIdentity \<Rightarrow> 'w \<Rightarrow> 'w \<times> error option" where
  "publishRecoveryUntilStored r event rule identity w =
     (case PublishRecovery (an_publisher r) event rule w of
        (w1, Inl e) \<Rightarrow> (w1, Some e)
      | (w1, Inr _) \<Rightarrow>
          if pb_AcknowledgesStorage (an_publisher r) then (w1, None) else waitForRecoveryStorage r event rule identity w1)"

fun recover_states :: "'w analyzer_env \<Rightarrow> health_event \<Rightarrow> HealthEventsAnalyzerRule \<Rightarrow> health_event list \<Rightarrow> nat \<Rightarrow> 'w \<Rightarrow> 'w \<times> nat \<times> error option" where
  "recover_states r request rule [] recovered w = (w, recovered, None)"
| "recover_states r request rule (state # states) recovered w =
     (case recoveryIdentityForEvent rule state of
        None \<Rightarrow> recover_states r request rule states recovered w
      | Some identity \<Rightarrow>
          if (case recoveryIdentityForEvent rule request of None \<Rightarrow> False | Some requested \<Rightarrow> ri_key identity \<noteq> ri_key requested)
          then recover_states r request rule states recovered w
          else if IsHealthy state
          then recover_states r request rule states
            (if mapped (Metadata state) annotationRequestKey = mapped (Metadata request) annotationRequestKey then recovered + 1 else recovered) w
          else if \<not> event_time request > event_time state then recover_states r request rule states recovered w
          else (case publishRecoveryUntilStored r (recoveryEvent state (ri_entities identity) (Metadata request)) rule identity w of
                  (w1, Some e) \<Rightarrow> (w1, recovered, Some e)
                | (w1, None) \<Rightarrow> recover_states r request rule states (recovered + 1) w1))"

definition recoverFromAnnotation :: "'w analyzer_env \<Rightarrow> health_event \<Rightarrow> HealthEventsAnalyzerRule \<Rightarrow> 'w \<Rightarrow> 'w \<times> nat \<times> error option" where
  "recoverFromAnnotation r request rule w =
     (case derivedStatesForNode r rule (NodeName request) w of
        Inl e \<Rightarrow> (w, 0, Some e)
      | Inr states \<Rightarrow> recover_states r request rule (map (the \<circ> dr_HealthEvent \<circ> snd) (an_range r states)) 0 w)"

section \<open>Handling the annotations of a node\<close>

definition report :: "'w analyzer_env \<Rightarrow> recovery_node \<Rightarrow> string \<Rightarrow> string \<Rightarrow> string \<Rightarrow> string \<Rightarrow> bool \<Rightarrow> 'w \<Rightarrow> 'w \<times> error option" where
  "report r node key val reason message warning w =
     (case an_CreateEvent r (''hea-recovery-'' @ take 32 (rc_Digest (an_codec r) [rn_UID node, key, val, reason])) node reason message warning w of
        (w', None) \<Rightarrow> (w', None)
      | (w', Some e) \<Rightarrow> if status_reason e = Some ''AlreadyExists'' then (w', None) else (w', Some (EWrap ''report recovery result'' e)))"

text \<open>The requests that the server refused for good, by node and rule, are remembered next to the world.\<close>

definition terminal_key :: "recovery_node \<Rightarrow> HealthEventsAnalyzerRule \<Rightarrow> string" where
  "terminal_key node rule = rn_Name node @ [CHR 0x00] @ ru_Name rule"

definition reportRecoveryFailure ::
  "'w analyzer_env \<Rightarrow> recovery_node \<Rightarrow> HealthEventsAnalyzerRule \<Rightarrow> RecoveryMapping \<Rightarrow> string \<Rightarrow> string \<Rightarrow> error \<Rightarrow> (string, string) gomap \<times> 'w \<Rightarrow> ((string, string) gomap \<times> 'w) \<times> error option" where
  "reportRecoveryFailure r node rule mapping val requestID err s =
     (let (terminal, w) = s; rejected = error_is err ErrPublishRejected;
          terminal' = (if rejected then AList.update (terminal_key node rule) requestID terminal else terminal);
          (w1, reportErr) = report r node (rm_AnnotationKey mapping) val ''RecoveryFailed'' (''Rule '' @ ru_Name rule @ '' recovery failed'') True w
      in ((terminal', w1), case reportErr of Some e \<Rightarrow> Some e | None \<Rightarrow> if rejected then None else Some err))"

definition processRuleAnnotation ::
  "'w analyzer_env \<Rightarrow> recovery_node \<Rightarrow> HealthEventsAnalyzerRule \<Rightarrow> (string, string) gomap \<times> 'w \<Rightarrow> ((string, string) gomap \<times> 'w) \<times> error option" where
  "processRuleAnnotation r node rule s =
     (case ru_Recovery rule of
        None \<Rightarrow> (s, None)
      | Some mapping \<Rightarrow>
          let (terminal, w) = s; key = rm_AnnotationKey mapping; val = mapped (rn_Annotations node) key in
          if \<not> ru_EvaluateRule rule \<or> val = [] then (s, None)
          else (case parseAnnotationRecovery (an_codec r) node rule mapping val (pb_now (an_publisher r) w) of
                  Inl e \<Rightarrow> (let (w1, err) = report r node key val ''RecoveryInvalid'' (''Rule '' @ ru_Name rule) True w in ((terminal, w1), err))
                | Inr request \<Rightarrow>
                    let requestID = mapped (Metadata request) annotationRequestKey in
                    if map_of terminal (terminal_key node rule) = Some requestID
                    then reportRecoveryFailure r node rule mapping val requestID ErrPublishRejected s
                    else (case recoverFromAnnotation r request rule w of
                            (w1, recovered, Some e) \<Rightarrow> reportRecoveryFailure r node rule mapping val requestID e (terminal, w1)
                          | (w1, recovered, None) \<Rightarrow>
                              let (w2, err) = report r node key val (if recovered > 0 then ''RecoveryCompleted'' else ''RecoverySkipped'')
                                    (''Rule '' @ ru_Name rule @ '': '' @ fmt_nat recovered @ '' recovered identities stored'') False w1
                              in ((terminal, w2), err))))"

fun process_rules :: "'w analyzer_env \<Rightarrow> recovery_node \<Rightarrow> HealthEventsAnalyzerRule list \<Rightarrow> (string, string) gomap \<times> 'w \<Rightarrow> ((string, string) gomap \<times> 'w) \<times> error list" where
  "process_rules r node [] s = (s, [])"
| "process_rules r node (rule # rules) s =
     (let (s1, err) = processRuleAnnotation r node rule s; (s2, errs) = process_rules r node rules s1
      in (s2, (case err of None \<Rightarrow> [] | Some e \<Rightarrow> [e]) @ errs))"

definition reconcileNodeRecovery ::
  "'w analyzer_env \<Rightarrow> HealthEventsAnalyzerRule list \<Rightarrow> string \<Rightarrow> (string, string) gomap \<times> 'w \<Rightarrow> ((string, string) gomap \<times> 'w) \<times> error option" where
  "reconcileNodeRecovery r rules nodeName s =
     (case an_GetNode r nodeName (snd s) of
        Inl e \<Rightarrow> if IsNotFound e then (s, None) else (s, Some (EWrap ''read recovery node'' e))
      | Inr node \<Rightarrow> (case process_rules r node rules s of (s', []) \<Rightarrow> (s', None) | (s', errs) \<Rightarrow> (s', Some (EJoin errs))))"

section \<open>The history after a recovery\<close>

text \<open>The \<^verbatim>\<open>$match\<close> of the first stage, cut off at the latest recovery of the identity of the event.\<close>

definition entity_match :: "entity \<Rightarrow> mongo" where
  "entity_match en = MDoc [(''$elemMatch'', MDoc [(''entitytype'', MVal (VString (EntityType en))), (''entityvalue'', MVal (VString (EntityValue en)))])]"

definition after_recovery :: "int \<Rightarrow> mongo_doc" where
  "after_recovery verified =
     [(''createdAt'', MDoc [(''$gt'', MVal (VTime verified))]),
      (''$and'', MArr [MDoc [(''$or'', MArr [
         MDoc [(''healthevent.generatedtimestamp.seconds'', MDoc [(''$gt'', MVal (VInt (verified div 1000000000)))])],
         MDoc [(''healthevent.generatedtimestamp.seconds'', MVal (VInt (verified div 1000000000))),
               (''healthevent.generatedtimestamp.nanos'', MDoc [(''$gt'', MVal (VInt (verified mod 1000000000)))])]])]])]"

definition applyRecoveryBoundary :: "'w analyzer_env \<Rightarrow> HealthEventsAnalyzerRule \<Rightarrow> RecoveryMapping \<Rightarrow> health_event \<Rightarrow> mongo_doc \<Rightarrow> 'w \<Rightarrow> error + mongo_doc" where
  "applyRecoveryBoundary r rule mapping event match w =
     (case recoveryIdentityForEvent rule event of
        None \<Rightarrow> Inr match
      | Some identity \<Rightarrow>
          (case latestRecoveryTime r rule mapping identity w of
             Inl e \<Rightarrow> Inl e
           | Inr verified \<Rightarrow>
               Inr (match @ (if ri_entities identity \<noteq> [] then [(''healthevent.entitiesimpacted'', MDoc [(''$all'', MArr (map entity_match (ri_entities identity)))])] else [])
                 @ (case verified of None \<Rightarrow> [] | Some v \<Rightarrow> after_recovery v))))"

end
