(* ===== verification/Analyzer_Properties.thy ===== *)
theory Analyzer_Properties
  imports Analyzer_Recovery Query_Properties
begin

text \<open>
  What a requested recovery does: its identities are unambiguous, it is published for exactly the faults that it covers, and afterwards
  the rule sees only what happened since.
\<close>

section \<open>Identities\<close>

lemma prefixed_eq:
  assumes "fmt_nat (length x) @ CHR '':'' # x @ us = fmt_nat (length y) @ CHR '':'' # y @ vs"
  shows "x = y \<and> us = vs"
  using append_sep_eq [OF assms fmt_nat_no_colon fmt_nat_no_colon] by (auto dest: fmt_nat_inj)

lemma entity_keys_inj:
  "recoveryEntityKey [] es = recoveryEntityKey [] es' \<Longrightarrow> es = es'"
proof (induction es arbitrary: es')
  case Nil
  then show ?case by (cases es') (simp_all add: recoveryEntityKey_def)
next
  case (Cons e es)
  obtain e' es1 where es': "es' = e' # es1" using Cons.prems by (cases es') (simp_all add: recoveryEntityKey_def)
  have "fmt_nat (length (EntityType e)) @ CHR '':'' # EntityType e @ ''='' @ fmt_nat (length (EntityValue e)) @ CHR '':'' # EntityValue e @ recoveryEntityKey [] es =
      fmt_nat (length (EntityType e')) @ CHR '':'' # EntityType e' @ ''='' @ fmt_nat (length (EntityValue e')) @ CHR '':'' # EntityValue e' @ recoveryEntityKey [] es1"
    using Cons.prems es' by (simp add: recoveryEntityKey_def)
  from prefixed_eq [OF this] have t: "EntityType e = EntityType e'"
    and "fmt_nat (length (EntityValue e)) @ CHR '':'' # EntityValue e @ recoveryEntityKey [] es = fmt_nat (length (EntityValue e')) @ CHR '':'' # EntityValue e' @ recoveryEntityKey [] es1"
    by simp_all
  from prefixed_eq [OF this(2)] have "EntityValue e = EntityValue e'" "es = es1" using Cons.IH by auto
  then show ?case using t es' by (simp add: entity.equality)
qed

lemma entity_key_bar: "recoveryEntityKey n es = n @ recoveryEntityKey [] es" "es \<noteq> [] \<Longrightarrow> \<exists>s. recoveryEntityKey [] es = CHR ''|'' # s"
  by (cases es; simp add: recoveryEntityKey_def)+

text \<open>Names of nodes have no bar, so the key of an identity determines the node and the entities.\<close>

lemma entity_key_no_bar: "recoveryEntityKey n [] = recoveryEntityKey n' es \<Longrightarrow> CHR ''|'' \<notin> set n \<Longrightarrow> n = n' \<and> es = []"
  using entity_key_bar(1) [of n' es] entity_key_bar(2) [of es] by (cases "es = []") (auto simp: recoveryEntityKey_def)

lemma identity_key_inj:
  assumes "recoveryEntityKey n es = recoveryEntityKey n' es'" and "CHR ''|'' \<notin> set n" and "CHR ''|'' \<notin> set n'"
  shows "n = n' \<and> es = es'"
proof -
  consider "es = []" | "es' = []" | "es \<noteq> []" "es' \<noteq> []" by blast
  then show ?thesis
  proof cases
    case 3
    then obtain s s' where s: "recoveryEntityKey [] es = CHR ''|'' # s" "recoveryEntityKey [] es' = CHR ''|'' # s'" using entity_key_bar(2) by metis
    then have "n @ CHR ''|'' # s = n' @ CHR ''|'' # s'" using assms(1) entity_key_bar(1) by metis
    from append_sep_eq [OF this assms(2,3)] show ?thesis using s entity_keys_inj [of es es'] by simp
  qed (use entity_key_no_bar [of n n' es'] entity_key_no_bar [of n' n es] assms in auto)
qed

section \<open>The latest derived events\<close>

text \<open>The records of a scan that have an identity, with the key under which they are kept.\<close>

definition keyed :: "HealthEventsAnalyzerRule \<Rightarrow> health_event \<Rightarrow> string option" where
  "keyed rule ev = (case recoveryIdentityForEvent rule ev of None \<Rightarrow> None | Some i \<Rightarrow> Some (state_key i ev))"

text \<open>A record that no seen record with its key comes after.\<close>

definition best_record :: "HealthEventsAnalyzerRule \<Rightarrow> (int \<times> health_event) set \<Rightarrow> string \<Rightarrow> derived_record \<Rightarrow> bool" where
  "best_record rule seen k d \<longleftrightarrow>
     (\<exists>ev. dr_HealthEvent d = Some ev \<and> (dr_CreatedAt d, ev) \<in> seen \<and> keyed rule ev = Some k \<and>
       (\<forall>c' ev'. (c', ev') \<in> seen \<longrightarrow> keyed rule ev' = Some k \<longrightarrow> \<not> derivedAfter c' ev' (dr_CreatedAt d) ev))"

definition latest_states :: "HealthEventsAnalyzerRule \<Rightarrow> (int \<times> health_event) set \<Rightarrow> derived_states \<Rightarrow> bool" where
  "latest_states rule seen states \<longleftrightarrow> wf_gomap states \<and> (\<forall>k d. map_of states k = Some d \<longrightarrow> best_record rule seen k d) \<and>
     (\<forall>c ev k. (c, ev) \<in> seen \<longrightarrow> keyed rule ev = Some k \<longrightarrow> map_of states k \<noteq> None)"

lemma best_insert:
  assumes "best_record rule seen k d" and "keyed rule ev = Some k \<Longrightarrow> \<not> derivedAfter c ev (dr_CreatedAt d) (the (dr_HealthEvent d))"
  shows "best_record rule (insert (c, ev) seen) k d"
proof -
  obtain e where "dr_HealthEvent d = Some e" "(dr_CreatedAt d, e) \<in> seen" "keyed rule e = Some k"
    "\<forall>c' ev'. (c', ev') \<in> seen \<longrightarrow> keyed rule ev' = Some k \<longrightarrow> \<not> derivedAfter c' ev' (dr_CreatedAt d) e"
    using assms(1) unfolding best_record_def by blast
  then show ?thesis using assms(2) unfolding best_record_def by (intro exI [of _ e]) auto
qed

lemma best_replace:
  assumes "keyed rule ev = Some k" and "\<And>d. map_of states k = Some d \<Longrightarrow> derivedAfter c ev (dr_CreatedAt d) (the (dr_HealthEvent d))"
    and "latest_states rule seen states"
  shows "best_record rule (insert (c, ev) seen) k \<lparr>dr_CreatedAt = c, dr_HealthEvent = Some ev\<rparr>"
proof -
  have "\<not> derivedAfter c' e' c ev" if m: "(c', e') \<in> insert (c, ev) seen" and k: "keyed rule e' = Some k" for c' e'
  proof (cases "(c', e') \<in> seen")
    case True
    then obtain d where d: "map_of states k = Some d" using assms(3) k unfolding latest_states_def by blast
    then have "best_record rule seen k d" using assms(3) unfolding latest_states_def by blast
    then have "\<not> derivedAfter c' e' (dr_CreatedAt d) (the (dr_HealthEvent d))" using True k unfolding best_record_def by auto
    then show ?thesis using assms(2) [OF d] by (auto simp: derivedAfter_def)
  qed (use m in \<open>auto simp: derivedAfter_def\<close>)
  then show ?thesis using assms(1) unfolding best_record_def by auto
qed

lemma keep_latest_keeps:
  assumes "latest_states rule seen states" and "keep_latest rule c ev states = Inr states'"
  shows "latest_states rule (insert (c, ev) seen) states'"
proof -
  note old = assms(1) [unfolded latest_states_def]
  let ?d = "\<lparr>dr_CreatedAt = c, dr_HealthEvent = Some ev\<rparr>"
  consider (none) "keyed rule ev = None" "states' = states"
    | (new) key where "keyed rule ev = Some key" "states' = AList.update key ?d states"
        "\<And>d. map_of states key = Some d \<Longrightarrow> derivedAfter c ev (dr_CreatedAt d) (the (dr_HealthEvent d))"
    | (kept) key d where "keyed rule ev = Some key" "states' = states" "map_of states key = Some d" "\<not> derivedAfter c ev (dr_CreatedAt d) (the (dr_HealthEvent d))"
    using assms(2) by (auto simp: keep_latest_def keyed_def Let_def simp del: map_of_eq_Some_iff split: option.splits if_splits)
  then show ?thesis
  proof cases
    case none
    then show ?thesis using old best_insert [of rule seen _ _ ev c] unfolding latest_states_def by auto
  next
    case new
    have "best_record rule (insert (c, ev) seen) k d" if "map_of states' k = Some d" for k d
    proof (cases "k = key")
      case True
      then show ?thesis using best_replace [OF new(1,3) assms(1)] that new(2) by (simp add: update_conv')
    next
      case False
      then have "best_record rule seen k d" using that new(2) old by (simp add: update_conv')
      then show ?thesis using False new(1) by (intro best_insert) auto
    qed
    moreover have "map_of states' k \<noteq> None" if "(c', e') \<in> insert (c, ev) seen" "keyed rule e' = Some k" for c' e' k
      using that old new(1,2) by (auto simp: update_conv')
    ultimately show ?thesis using old new(2) unfolding latest_states_def by (auto simp: distinct_update)
  next
    case kept
    have "best_record rule (insert (c, ev) seen) k d'" if "map_of states k = Some d'" for k d'
      using old that kept by (intro best_insert) (auto simp del: map_of_eq_Some_iff)
    then show ?thesis using old kept unfolding latest_states_def by auto
  qed
qed

definition recorded :: "(error + derived_record) list \<Rightarrow> (int \<times> health_event) set" where
  "recorded rs = {(dr_CreatedAt d, ev) | d ev. Inr d \<in> set rs \<and> dr_HealthEvent d = Some ev}"

lemma scan_keeps:
  "scan_records (keep_latest rule) rs states = Inr states' \<Longrightarrow> latest_states rule seen states \<Longrightarrow> latest_states rule (seen \<union> recorded rs) states'"
proof (induction rs arbitrary: states seen)
  case Nil
  then show ?case by (simp add: recorded_def)
next
  case (Cons r rs)
  obtain d ev s1 where d: "r = Inr d" "dr_HealthEvent d = Some ev" "keep_latest rule (dr_CreatedAt d) ev states = Inr s1" "scan_records (keep_latest rule) rs s1 = Inr states'"
    using Cons.prems(1) by (auto split: sum.splits option.splits if_splits)
  have "recorded (r # rs) = insert (dr_CreatedAt d, ev) (recorded rs)" using d(1,2) by (auto simp: recorded_def)
  then show ?case using Cons.IH [OF d(4) keep_latest_keeps [OF Cons.prems(2) d(3)]] by simp
qed

section \<open>What is published\<close>

text \<open>The fault is covered by the request: not newer than it, and of its identity when the request names one.\<close>

definition covered :: "HealthEventsAnalyzerRule \<Rightarrow> health_event \<Rightarrow> health_event \<Rightarrow> recoveryIdentity \<Rightarrow> bool" where
  "covered rule request fault identity \<longleftrightarrow> recoveryIdentityForEvent rule fault = Some identity \<and> \<not> IsHealthy fault \<and>
     event_time fault < event_time request \<and>
     (\<forall>requested. recoveryIdentityForEvent rule request = Some requested \<longrightarrow> ri_key identity = ri_key requested)"

definition recovery_of :: "HealthEventsAnalyzerRule \<Rightarrow> health_event \<Rightarrow> health_event \<Rightarrow> recoveryIdentity \<Rightarrow> health_event \<Rightarrow> bool" where
  "recovery_of rule request fault identity e \<longleftrightarrow> IsHealthy e \<and> \<not> IsFatal e \<and> Agent e = agentName \<and> CheckName e = ru_Name rule \<and> ErrorCode e = [] \<and>
     NodeName e = NodeName fault \<and> ComponentClass e = ComponentClass fault \<and> Version e = Version fault \<and> EntitiesImpacted e = ri_entities identity \<and>
     mapped (Metadata e) annotationRequestKey = mapped (Metadata request) annotationRequestKey"

text \<open>The contract of the publisher: what is sent is recorded, and nothing else sends.\<close>

definition records_sent :: "'w analyzer_env \<Rightarrow> ('w \<Rightarrow> health_event list) \<Rightarrow> bool" where
  "records_sent r sent \<longleftrightarrow> (\<forall>e w w' err. pb_send (an_publisher r) e w = (w', err) \<longrightarrow> sent w' = sent w @ [e]) \<and> (\<forall>w. sent (an_tick r w) = sent w)"

lemma fold_update_lookup:
  "distinct (map fst md) \<Longrightarrow> map_of (fold (\<lambda>(k, v). AList.update k v) md base) k = (case map_of md k of Some v \<Rightarrow> Some v | None \<Rightarrow> map_of base k)"
proof (induction md arbitrary: base)
  case (Cons kv md)
  moreover have "map_of md (fst kv) = None" using Cons.prems by (simp add: map_of_eq_None_iff)
  ultimately show ?case by (cases kv) (auto simp: update_conv' simp del: map_of_eq_Some_iff split: option.splits)
qed simp

lemma recovery_published:
  assumes "records_sent r sent" and "wf_gomap (Metadata request)" and "map_of (Metadata request) annotationRequestKey \<noteq> None"
    and "PublishRecovery (an_publisher r) (recoveryEvent fault (ri_entities identity) (Metadata request)) rule w = (w', res)"
  shows "\<exists>xs. sent w' = sent w @ xs \<and> (\<forall>e \<in> set xs. recovery_of rule request fault identity e) \<and> ((\<exists>e. res = Inr e) \<longrightarrow> xs \<noteq> [])"
proof -
  let ?p = "an_publisher r" and ?ev = "recoveryEvent fault (ri_entities identity) (Metadata request)"
  define e0 where "e0 = derived_event (pb_format_time ?p) (pb_now ?p w) ?ev RA_NONE (ru_Name rule) ''Operator verified recovery'' True"
  have keys: "annotationRequestKey \<noteq> idempotency_key_field" "annotationRequestKey \<noteq> sourceGeneratedTimestampMetadataKey" by code_simp+
  have meta: "map_of (Metadata ?ev) annotationRequestKey = map_of (Metadata request) annotationRequestKey"
    using assms(2,3) fold_update_lookup [of "Metadata request" "Metadata fault" annotationRequestKey] by (auto simp: recoveryEvent_def simp del: map_of_eq_Some_iff)
  have ok: "recovery_of rule request fault identity (e0\<lparr>ProcessingStrategy := s, IsFatal := False\<rparr>)" for s
    using meta keys by (auto simp: recovery_of_def e0_def derived_event_def recoveryEvent_def mapped_def Let_def update_conv' delete_conv'
      simp del: map_of_eq_Some_iff split: option.splits)
  define strategy where "strategy = (if ru_ProcessingStrategy rule = [] then Some (pb_processingStrategy ?p) else ProcessingStrategy_value (ru_ProcessingStrategy rule))"
  have st: "PublishRecovery ?p ?ev rule w =
      (case strategy of None \<Rightarrow> (w, Inl (EText ''unexpected processingStrategy value''))
       | Some s \<Rightarrow> (case sendHealthEventWithRetry ?p (e0\<lparr>ProcessingStrategy := s, IsFatal := False\<rparr>) w of
           (w', Some err) \<Rightarrow> (w', Inl (EWrap ''publish health event for rule'' err)) | (w', None) \<Rightarrow> (w', Inr (e0\<lparr>ProcessingStrategy := s, IsFatal := False\<rparr>))))"
    by (simp add: PublishRecovery_def publish_def Let_def e0_def strategy_def split: option.split)
  show ?thesis
  proof (cases strategy)
    case None
    then show ?thesis using st assms(4) by (intro exI [of _ "[]"]) simp
  next
    case (Some s)
    let ?e = "e0\<lparr>ProcessingStrategy := s, IsFatal := False\<rparr>"
    obtain w1 err where send: "pb_send ?p ?e w = (w1, err)" by fastforce
    have "w' = w1" using assms(4) st Some send by (auto simp: sendHealthEventWithRetry_def split: option.splits if_splits)
    moreover have "sent w1 = sent w @ [?e]" using assms(1) send unfolding records_sent_def by blast
    ultimately show ?thesis using ok [of s] by (intro exI [of _ "[?e]"]) simp
  qed
qed

lemma wait_publishes:
  assumes "records_sent r sent" and "wf_gomap (Metadata request)" and "map_of (Metadata request) annotationRequestKey \<noteq> None"
    and "wait_loop r (recoveryEvent fault (ri_entities identity) (Metadata request)) rule identity ticks w = (w', err)"
  shows "\<exists>xs. sent w' = sent w @ xs \<and> (\<forall>e \<in> set xs. recovery_of rule request fault identity e)"
  using assms(4)
proof (induction ticks arbitrary: w)
  case 0
  then have "w' = w" by (auto simp: wait_loop.simps [of _ _ _ _ 0] split: sum.splits bool.splits)
  then show ?case by simp
next
  case (Suc ticks)
  let ?ev = "recoveryEvent fault (ri_entities identity) (Metadata request)"
  have tick: "sent (an_tick r w) = sent w" using assms(1) unfolding records_sent_def by blast
  consider (stop) "w' = w" | (on) "wait_loop r ?ev rule identity ticks (an_tick r w) = (w', err)"
    | (again) w2 res where "PublishRecovery (an_publisher r) ?ev rule (an_tick r w) = (w2, res)" "w' = w2 \<or> wait_loop r ?ev rule identity ticks w2 = (w', err)"
    using Suc.prems by (auto simp: wait_loop.simps [of _ _ _ _ "Suc ticks"] Let_def split: sum.splits bool.splits prod.splits if_splits)
  then show ?case
  proof cases
    case again
    obtain xs where xs: "sent w2 = sent w @ xs" "\<forall>e \<in> set xs. recovery_of rule request fault identity e"
      using recovery_published [OF assms(1-3) again(1)] tick by auto
    from again(2) show ?thesis
    proof
      assume "w' = w2"
      then show ?thesis using xs by blast
    next
      assume "wait_loop r ?ev rule identity ticks w2 = (w', err)"
      from Suc.IH [OF this] obtain ys where "sent w' = sent w2 @ ys" "\<forall>e \<in> set ys. recovery_of rule request fault identity e" by blast
      then show ?thesis using xs by (intro exI [of _ "xs @ ys"]) auto
    qed
  next
    case on
    then show ?thesis using Suc.IH [OF on] tick by simp
  qed simp
qed

lemma until_stored_publishes:
  assumes "records_sent r sent" and "wf_gomap (Metadata request)" and "map_of (Metadata request) annotationRequestKey \<noteq> None"
    and "publishRecoveryUntilStored r (recoveryEvent fault (ri_entities identity) (Metadata request)) rule identity w = (w', err)"
  shows "\<exists>xs. sent w' = sent w @ xs \<and> (\<forall>e \<in> set xs. recovery_of rule request fault identity e) \<and> (err = None \<longrightarrow> xs \<noteq> [])"
proof -
  let ?ev = "recoveryEvent fault (ri_entities identity) (Metadata request)"
  obtain w1 res where pub: "PublishRecovery (an_publisher r) ?ev rule w = (w1, res)" by fastforce
  obtain xs where xs: "sent w1 = sent w @ xs" "\<forall>e \<in> set xs. recovery_of rule request fault identity e" "(\<exists>e. res = Inr e) \<longrightarrow> xs \<noteq> []"
    using recovery_published [OF assms(1-3) pub] by blast
  consider "w' = w1" "err \<noteq> None \<or> (\<exists>e. res = Inr e)" | e ticks where "res = Inr e" "wait_loop r ?ev rule identity ticks w1 = (w', err)"
    using assms(4) pub by (auto simp: publishRecoveryUntilStored_def waitForRecoveryStorage_def split: sum.splits if_splits)
  then show ?thesis
  proof cases
    case 2
    obtain ys where "sent w' = sent w1 @ ys" "\<forall>e \<in> set ys. recovery_of rule request fault identity e" using wait_publishes [OF assms(1-3) 2(2)] by blast
    then show ?thesis using xs 2(1) by (intro exI [of _ "xs @ ys"]) auto
  qed (use xs in \<open>intro exI [of _ xs], auto\<close>)
qed

lemma recover_states_exact:
  assumes "records_sent r sent" and "wf_gomap (Metadata request)" and "map_of (Metadata request) annotationRequestKey \<noteq> None"
    and "recover_states r request rule states n w = (w', n', err)"
  shows "\<exists>xs. sent w' = sent w @ xs \<and> (\<forall>e \<in> set xs. \<exists>fault \<in> set states. \<exists>i. covered rule request fault i \<and> recovery_of rule request fault i e) \<and>
    (err = None \<longrightarrow> (\<forall>fault \<in> set states. \<forall>i. covered rule request fault i \<longrightarrow> (\<exists>e \<in> set xs. recovery_of rule request fault i e)))"
  using assms(4)
proof (induction states arbitrary: n w)
  case Nil
  then show ?case by simp
next
  case (Cons s states)
  consider (skip) m where "recover_states r request rule states m w = (w', n', err)" "\<And>i. \<not> covered rule request s i"
    | (failed) i where "covered rule request s i" "err \<noteq> None" "publishRecoveryUntilStored r (recoveryEvent s (ri_entities i) (Metadata request)) rule i w = (w', err)"
    | (sent) i w1 where "covered rule request s i" "publishRecoveryUntilStored r (recoveryEvent s (ri_entities i) (Metadata request)) rule i w = (w1, None)"
        "recover_states r request rule states (n + 1) w1 = (w', n', err)"
    using Cons.prems by (auto simp: covered_def split: option.splits if_splits prod.splits)
  then show ?case
  proof cases
    case skip
    then show ?thesis using Cons.IH [OF skip(1)] by (metis (no_types, lifting) set_ConsD list.set_intros(2))
  next
    case failed
    then show ?thesis using until_stored_publishes [OF assms(1-3) failed(3)] by (metis list.set_intros(1))
  next
    case sent
    obtain xs where xs: "sent w1 = sent w @ xs" "\<forall>e \<in> set xs. recovery_of rule request s i e" "xs \<noteq> []"
      using until_stored_publishes [OF assms(1-3) sent(2)] by auto
    obtain ys where ys: "sent w' = sent w1 @ ys" "\<forall>e \<in> set ys. \<exists>fault \<in> set states. \<exists>i. covered rule request fault i \<and> recovery_of rule request fault i e"
      "err = None \<longrightarrow> (\<forall>fault \<in> set states. \<forall>i. covered rule request fault i \<longrightarrow> (\<exists>e \<in> set ys. recovery_of rule request fault i e))"
      using Cons.IH [OF sent(3)] by blast
    have "j = i" if "covered rule request s j" for j using that sent(1) by (simp add: covered_def)
    then have here: "\<exists>e \<in> set xs. recovery_of rule request s j e" if "covered rule request s j" for j using that xs(2,3) by (metis hd_in_set)
    have "\<exists>e \<in> set (xs @ ys). recovery_of rule request fault j e" if "err = None" "fault \<in> set (s # states)" "covered rule request fault j" for fault j
      using that here ys(3) by (metis Un_iff set_ConsD set_append)
    moreover have "\<exists>fault \<in> set (s # states). \<exists>j. covered rule request fault j \<and> recovery_of rule request fault j e" if "e \<in> set (xs @ ys)" for e
      using that xs(2) ys(2) sent(1) by (metis Un_iff list.set_intros set_append)
    moreover have "sent w' = sent w @ xs @ ys" using xs(1) ys(1) by simp
    ultimately show ?thesis by (intro exI [of _ "xs @ ys"] conjI ballI impI allI)
  qed
qed

section \<open>Requested recoveries\<close>

text \<open>Among the derived events of the store, the fault is the latest of its identity, component class and version.\<close>

definition current_fault :: "HealthEventsAnalyzerRule \<Rightarrow> (error + derived_record) list \<Rightarrow> health_event \<Rightarrow> bool" where
  "current_fault rule records fault \<longleftrightarrow>
     (\<exists>c. (c, fault) \<in> recorded records \<and>
       (\<forall>c' ev'. (c', ev') \<in> recorded records \<longrightarrow> keyed rule ev' = keyed rule fault \<longrightarrow> \<not> derivedAfter c' ev' c fault))"

text \<open>No other derived event of its identity, component class and version is as late as the fault.\<close>

definition sole_latest :: "HealthEventsAnalyzerRule \<Rightarrow> (error + derived_record) list \<Rightarrow> health_event \<Rightarrow> bool" where
  "sole_latest rule records fault \<longleftrightarrow>
     (\<exists>c. (c, fault) \<in> recorded records \<and>
       (\<forall>c' ev'. (c', ev') \<in> recorded records \<longrightarrow> keyed rule ev' = keyed rule fault \<longrightarrow> (c', ev') = (c, fault) \<or> derivedAfter c fault c' ev'))"

lemma recovered_states:
  assumes "latest_states rule (recorded records) states"
  shows "d \<in> snd ` set states \<Longrightarrow> current_fault rule records (the (dr_HealthEvent d))"
    and "sole_latest rule records fault \<Longrightarrow> keyed rule fault \<noteq> None \<Longrightarrow> \<exists>d \<in> snd ` set states. dr_HealthEvent d = Some fault"
proof -
  note old = assms [unfolded latest_states_def]
  show "current_fault rule records (the (dr_HealthEvent d))" if d: "d \<in> snd ` set states"
  proof -
    obtain k where "map_of states k = Some d" using d old by (auto simp: map_of_eq_Some_iff)
    then have "best_record rule (recorded records) k d" using old by blast
    then show ?thesis unfolding best_record_def current_fault_def by auto
  qed
  show "\<exists>d \<in> snd ` set states. dr_HealthEvent d = Some fault" if sole: "sole_latest rule records fault" and key: "keyed rule fault \<noteq> None"
  proof -
    obtain c k where c: "(c, fault) \<in> recorded records" "keyed rule fault = Some k"
      "\<forall>c' ev'. (c', ev') \<in> recorded records \<longrightarrow> keyed rule ev' = keyed rule fault \<longrightarrow> (c', ev') = (c, fault) \<or> derivedAfter c fault c' ev'"
      using sole key unfolding sole_latest_def by blast
    obtain d where d: "map_of states k = Some d" using old c(1,2) by blast
    then obtain ev where ev: "dr_HealthEvent d = Some ev" "(dr_CreatedAt d, ev) \<in> recorded records" "keyed rule ev = Some k"
      "\<not> derivedAfter c fault (dr_CreatedAt d) ev" using old c(1,2) unfolding best_record_def by blast
    then have "ev = fault" using c(2,3) by auto
    then show ?thesis using ev(1) d by (metis image_eqI map_of_SomeD snd_conv)
  qed
qed

text \<open>
  C40. A requested recovery publishes recoveries exactly for the faults that it covers: everything that is sent is the recovery of a
  fault that is the latest derived event of its identity, component class and version on the node, is older than the verified
  time, and has the identity that the request names, if it names one; and when no error is reported, every such fault that is alone
  the latest has been answered.
\<close>

theorem requested_recovery_exact:
  assumes "records_sent r sent" and "\<And>xs. set (an_range r xs) = set xs" and "wf_gomap (Metadata request)"
    and "map_of (Metadata request) annotationRequestKey \<noteq> None"
    and "an_Find r (derivedFilter rule (NodeName request)) w = Inr (records, cursorErr)"
    and "recoverFromAnnotation r request rule w = (w', n, err)"
  shows "\<exists>xs. sent w' = sent w @ xs \<and>
    (\<forall>e \<in> set xs. \<exists>fault i. current_fault rule records fault \<and> covered rule request fault i \<and> recovery_of rule request fault i e) \<and>
    (err = None \<longrightarrow> (\<forall>fault i. sole_latest rule records fault \<longrightarrow> covered rule request fault i \<longrightarrow> (\<exists>e \<in> set xs. recovery_of rule request fault i e)))"
proof (cases "derivedStatesForNode r rule (NodeName request) w")
  case (Inl e)
  then show ?thesis using assms(6) by (intro exI [of _ "[]"]) (auto simp: recoverFromAnnotation_def)
next
  case (Inr states)
  have scan: "scan_records (keep_latest rule) records [] = Inr states"
    using Inr assms(5) by (auto simp: derivedStatesForNode_def scanDerived_def split: sum.splits option.splits)
  have "latest_states rule {} []" by (simp add: latest_states_def)
  from scan_keeps [OF scan this] have latest: "latest_states rule (recorded records) states" by simp
  let ?faults = "map (the \<circ> dr_HealthEvent \<circ> snd) (an_range r states)"
  have faults: "set ?faults = (\<lambda>d. the (dr_HealthEvent d)) ` snd ` set states" using assms(2) by (auto simp: image_iff)
  have run: "recover_states r request rule ?faults 0 w = (w', n, err)" using assms(6) Inr by (simp add: recoverFromAnnotation_def)
  obtain xs where xs: "sent w' = sent w @ xs" "\<forall>e \<in> set xs. \<exists>fault \<in> set ?faults. \<exists>i. covered rule request fault i \<and> recovery_of rule request fault i e"
    "err = None \<longrightarrow> (\<forall>fault \<in> set ?faults. \<forall>i. covered rule request fault i \<longrightarrow> (\<exists>e \<in> set xs. recovery_of rule request fault i e))"
    using recover_states_exact [OF assms(1,3,4) run] by blast
  have "current_fault rule records fault" if "fault \<in> set ?faults" for fault using that recovered_states(1) [OF latest] unfolding faults by blast
  moreover have "fault \<in> set ?faults" if "sole_latest rule records fault" "covered rule request fault i" for fault i
  proof -
    have "keyed rule fault \<noteq> None" using that(2) by (simp add: covered_def keyed_def)
    then show ?thesis using recovered_states(2) [OF latest that(1)] unfolding faults by (metis image_eqI option.sel)
  qed
  ultimately show ?thesis using xs by (intro exI [of _ xs]) blast
qed

text \<open>
  A node with a fault of one GPU, and a fault of another GPU that has recovered since; the operator verified the node afterwards. One
  recovery is published, for the first GPU.
\<close>

definition gpu_rule :: HealthEventsAnalyzerRule where
  "gpu_rule = \<lparr>ru_Recovery = Some \<lparr>rm_AnnotationKey = ''example.com/recovered'', rm_Scope = RecoveryScopeEntity, rm_EntityTypes = [''GPU_UUID'']\<rparr>,
     ru_Name = ''RepeatedXid'', ru_Stage = [], ru_RecommendedAction = ''CONTACT_SUPPORT'', ru_Message = [], ru_EvaluateRule = True,
     ru_ProcessingStrategy = [], ru_When = [], ru_when = None\<rparr>"

definition derived_at :: "int \<Rightarrow> bool \<Rightarrow> string \<Rightarrow> error + derived_record" where
  "derived_at t healthy gpu = Inr \<lparr>dr_CreatedAt = t, dr_HealthEvent = Some (zero_event\<lparr>Agent := agentName, CheckName := ''RepeatedXid'', NodeName := ''n1'',
     IsHealthy := healthy, GeneratedTimestamp := Some t, EntitiesImpacted := [\<lparr>EntityType = ''GPU_UUID'', EntityValue = gpu\<rparr>]\<rparr>)\<rparr>"

definition three_records :: "(error + derived_record) list" where
  "three_records = [derived_at 7 True ''GPU-b'', derived_at 5 False ''GPU-a'', derived_at 3 False ''GPU-b'']"

definition logging_env :: "health_event list analyzer_env" where
  "logging_env = \<lparr>an_publisher = \<lparr>pb_processingStrategy = EXECUTE_REMEDIATION, pb_send = (\<lambda>e w. (w @ [e], None)), pb_AcknowledgesStorage = True,
       pb_now = (\<lambda>w. 12), pb_format_time = (\<lambda>t. ''t'')\<rparr>,
     an_codec = \<lparr>rc_Decode = (\<lambda>s. Inl (EText s)), rc_ParseTime = (\<lambda>s. Inr 10), rc_FormatTime = (\<lambda>t. ''t''), rc_Digest = concat\<rparr>,
     an_Find = (\<lambda>flt w. Inr (three_records, None)), an_GetNode = (\<lambda>n w. Inl (EText n)), an_CreateEvent = (\<lambda>n node reason msg warning w. (w, None)),
     an_range = rev, an_ticks = (\<lambda>w. 0), an_tick = (\<lambda>w. w), an_due = (\<lambda>w. False), an_ctxErr = (\<lambda>w. ECanceled)\<rparr>"

definition node_request :: health_event where
  "node_request = zero_event\<lparr>NodeName := ''n1'', IsHealthy := True, GeneratedTimestamp := Some 10, Metadata := [(annotationRequestKey, ''r1'')]\<rparr>"

theorem requested_recovery_exact_witness:
  "length (fst (recoverFromAnnotation logging_env node_request gpu_rule [])) = 1 \<and>
   (\<exists>fault i. current_fault gpu_rule three_records fault \<and> covered gpu_rule node_request fault i \<and>
     recovery_of gpu_rule node_request fault i (hd (fst (recoverFromAnnotation logging_env node_request gpu_rule []))))"
proof
  let ?run = "recoverFromAnnotation logging_env node_request gpu_rule []"
  show one: "length (fst ?run) = 1" by code_simp
  have run: "?run = (fst ?run, fst (snd ?run), snd (snd ?run))" by simp
  have env: "records_sent logging_env (\<lambda>w. w)" "set (an_range logging_env xs) = set xs"
    "an_Find logging_env (derivedFilter gpu_rule (NodeName node_request)) [] = Inr (three_records, None)" for xs
    by (simp_all add: records_sent_def logging_env_def)
  have req: "wf_gomap (Metadata node_request)" "map_of (Metadata node_request) annotationRequestKey \<noteq> None" by (simp_all add: node_request_def)
  obtain xs where "fst ?run = xs"
    "\<forall>e \<in> set xs. \<exists>fault i. current_fault gpu_rule three_records fault \<and> covered gpu_rule node_request fault i \<and> recovery_of gpu_rule node_request fault i e"
    using requested_recovery_exact [OF env(1,2) req env(3) run] by auto
  then show "\<exists>fault i. current_fault gpu_rule three_records fault \<and> covered gpu_rule node_request fault i \<and> recovery_of gpu_rule node_request fault i (hd (fst ?run))"
    using one by (metis hd_in_set length_0_conv zero_neq_one)
qed

section \<open>The history after a recovery\<close>

text \<open>
  The boundary selects exactly the events that were both created and generated after the verified time: the comparison of seconds and
  nanoseconds is that of times.
\<close>

lemma boundary_exact:
  assumes "\<And>v. t ''$gt'' ''createdAt'' (VTime v) \<longleftrightarrow> v < created"
    and "\<And>k. t ''$gt'' ''healthevent.generatedtimestamp.seconds'' (VInt k) \<longleftrightarrow> k < generated div 1000000000"
    and "\<And>k. t ''$eq'' ''healthevent.generatedtimestamp.seconds'' (VInt k) \<longleftrightarrow> generated div 1000000000 = k"
    and "\<And>k. t ''$gt'' ''healthevent.generatedtimestamp.nanos'' (VInt k) \<longleftrightarrow> k < generated mod 1000000000"
  shows "holds_filter t (after_recovery verified) \<longleftrightarrow> verified < created \<and> verified < generated"
proof -
  let ?s = "1000000000 :: int"
  have split: "verified = verified div ?s * ?s + verified mod ?s" "generated = generated div ?s * ?s + generated mod ?s" by (simp_all only: div_mult_mod_eq)
  have range: "0 \<le> verified mod ?s" "verified mod ?s < ?s" "0 \<le> generated mod ?s" "generated mod ?s < ?s" by simp_all
  have "verified < generated \<longleftrightarrow> verified div ?s < generated div ?s \<or> generated div ?s = verified div ?s \<and> verified mod ?s < generated mod ?s"
    using split range by linarith
  then show ?thesis using assms by (simp add: after_recovery_def)
qed

end
