(* ===== verification/Spec2Isabelle.thy ===== *)
theory Spec2Isabelle
  imports Annotation_Properties Query_Properties Cold_Start_Properties Breaker_Properties State_Properties
    Worker_Properties Rule_Properties Session_Properties Remediation_Properties Checkpoint_Properties
    Condition_Properties Xid_Properties Exporter_Properties Analyzer_Properties
begin

text \<open>
  A verification of the core of NVSentinel, which watches the GPU nodes of a Kubernetes cluster,
  takes faulty nodes out of service, drains them, has them repaired and returns them.

  \<^bold>\<open>The program.\<close> Health monitors detect faults and send health events
  (\<^verbatim>\<open>data-models/pkg/protos\<close>); platform-connectors shows them in the conditions and Events of the node and
  stores them in MongoDB or PostgreSQL through store-client. fault-quarantine follows the stored events, evaluates rule sets on each, cordons
  and taints the node of a matching event, records the tracked failures in an annotation of the
  node, and releases the node when all of them have recovered; a circuit breaker stops it when too
  many nodes are affected. node-drainer then evicts the pods in the scope of the event, and
  fault-remediation requests the repair. How far a node has come is a label that all three write.
  health-events-analyzer derives further faults from repeated ones, and event-exporter publishes the stored events.
  After a restart, fault-quarantine replays the stored events that were not handled.

  \<^bold>\<open>Foundations.\<close> \<^verbatim>\<open>NVS_Prelude\<close>: Go strings and maps, grouping, length-prefixed keys, with the
  locales \<^verbatim>\<open>go_map\<close> and \<^verbatim>\<open>string_key\<close>. \<^verbatim>\<open>Go_Error\<close>: the tree of wrapped and joined errors.
  \<^verbatim>\<open>Retry_Contract\<close>: what the retry helpers of client-go report, an ended context included. \<^verbatim>\<open>Go_Float\<close>: float64 with correct rounding. \<^verbatim>\<open>Go_Json\<close>: decoded JSON values. \<^verbatim>\<open>Health_Event\<close>: the event message.

  \<^bold>\<open>Quarantine annotation\<close> (\<^verbatim>\<open>fault-quarantine/pkg/healthEventsAnnotation\<close>). \<^verbatim>\<open>Annotation_Map\<close>
  models the map of tracked failures, with the sharing of event pointers that compaction and
  serialization depend on. \<^verbatim>\<open>Annotation_Laws\<close> and \<^verbatim>\<open>Annotation_Properties\<close> show its invariant,
  which update can break it, the exact effect of additions, recoveries and compaction, that a recovery leaves no matching
  failure behind, and the round trip through the annotation text.

  \<^bold>\<open>Query builder\<close> (\<^verbatim>\<open>store-client/pkg/query/builder.go\<close>). \<^verbatim>\<open>Query_Builder\<close> models the condition
  trees and both renderings; \<^verbatim>\<open>Query_Properties\<close> shows that the MongoDB filter of a condition with operands means the condition,
  and that the SQL text and its argument list agree.

  \<^bold>\<open>Cold start\<close> (\<^verbatim>\<open>fault-quarantine/pkg/coldstart\<close>). \<^verbatim>\<open>Supersession\<close> models which effects of a
  stored event newer events replace, \<^verbatim>\<open>Residual_Rectangles\<close> the projection of what is left onto
  maximal rectangles, \<^verbatim>\<open>Cold_Start\<close> the two-phase replay. \<^verbatim>\<open>Residual_Laws\<close> states the mathematics of
  closed sets in the locale \<^verbatim>\<open>formal_context\<close>; \<^verbatim>\<open>Supersession_Properties\<close> and
  \<^verbatim>\<open>Cold_Start_Properties\<close> show what a replay may touch, that the projection is exact up to its
  limit, and the order of the replay: the locale \<^verbatim>\<open>recorded_replay\<close> follows, for any processor and store, what a phase does with
  each record of its scan in a log of the events handed over and the records marked. The closure loop is
  bounded by the limit of 256 code sets that the code has, and its termination is proved.

  \<^bold>\<open>Circuit breaker\<close> (\<^verbatim>\<open>fault-quarantine/pkg/breaker\<close>). \<^verbatim>\<open>Circuit_Breaker\<close> models the sliding
  window, the thresholds and the decision; \<^verbatim>\<open>Breaker_Properties\<close> shows what the count means for
  the history of cordons, that the float64 threshold is the exact one, and that a trip latches. Each operation is one atomic step, the check with its read of the cluster size included.

  \<^bold>\<open>Rule sets\<close> (\<^verbatim>\<open>fault-quarantine/pkg/evaluator\<close> and \<^verbatim>\<open>pkg/reconciler/reconciler.go\<close>).
  \<^verbatim>\<open>Rule_Sets\<close> models the compilation and evaluation of rule sets, the goroutines that collect their
  actions as sequences of atomic actions under an arbitrary schedule, and the update of a node
  that is already quarantined. \<^verbatim>\<open>Rule_Properties\<close> shows, through the locale
  \<^verbatim>\<open>schedule_invariant\<close>, that the outcome does not depend on the schedule, and that the update only adds.

  \<^bold>\<open>Node updates\<close> (\<^verbatim>\<open>commons/pkg/kubeclient/nodepatch.go\<close>). \<^verbatim>\<open>Node_Patch\<close> models how a mutation of a
  node becomes a merge patch, from the cached or the live node, with its retries.
  \<^verbatim>\<open>Patch_Properties\<close> shows, over the history of versions of a node that others write too, that
  a patch changes only what its mutation changed and guards taints and cordon by the version.

  \<^bold>\<open>Quarantine session\<close> (\<^verbatim>\<open>fault-quarantine/pkg/reconciler\<close>, \<^verbatim>\<open>pkg/informer/k8s_client.go\<close>,
  \<^verbatim>\<open>pkg/validation\<close>). \<^verbatim>\<open>Quarantine_Client\<close> models the mutations: applying and removing taints, cordon,
  labels and annotations, and the merging of annotations. \<^verbatim>\<open>Quarantine_Session\<close> models the handling of
  an event from the circuit breaker check to its status, the release of a node with validation, and
  the cleanups after manual changes. \<^verbatim>\<open>Session_Laws\<close> relates the record in the annotations to the node
  before the session; \<^verbatim>\<open>Session_Properties\<close> shows, by induction over the steps of a session, that
  its release restores a node that met no conflict, and that it is attempted only when no tracked failure is left.

  \<^bold>\<open>State label\<close> (\<^verbatim>\<open>commons/pkg/statemanager\<close>). \<^verbatim>\<open>State_Manager\<close> models both label operations and the
  validation of transitions; \<^verbatim>\<open>State_Properties\<close> shows that each is one atomic change in the
  presence of other writers, when it can give up or report nothing because its context ended, and what accepted
  histories look like.

  \<^bold>\<open>Drain\<close> (\<^verbatim>\<open>node-drainer/pkg/informers\<close>, \<^verbatim>\<open>pkg/config\<close>, \<^verbatim>\<open>pkg/evaluator\<close>, \<^verbatim>\<open>commons/pkg/drain\<close>).
  \<^verbatim>\<open>Pod_Informers\<close> models the caches, the selection of pods, eviction and deletion; \<^verbatim>\<open>Drain_Config\<close>
  the configuration; \<^verbatim>\<open>Drain_Evaluator\<close> the decision what to do next for an event. \<^verbatim>\<open>Drain_Scope\<close> and
  \<^verbatim>\<open>Drain_Properties\<close> show which pods are selected, that success is reported only for a drained
  scope, that pods are deleted only after their deadline and as observed, that a drain is skipped
  only on proof of an earlier one, and what a validated configuration guarantees. Durations are int64 nanoseconds
  that wrap, and the time since an event saturates, as in Go.

  \<^bold>\<open>Drain worker\<close> (\<^verbatim>\<open>node-drainer/pkg/reconciler\<close>, \<^verbatim>\<open>pkg/queue\<close>, \<^verbatim>\<open>pkg/customdrain\<close>). \<^verbatim>\<open>Drain_Queue\<close> models the
  two-lane ready queue and shows what its lanes deliver over any trace of operations. \<^verbatim>\<open>Custom_Drain\<close> models the
  client for drain resources. \<^verbatim>\<open>Drain_Worker\<close> models the tracking of cancellations and the processing of an
  event from the queue to its recorded status, with the cancellations that arrive at each point in between as an
  argument. \<^verbatim>\<open>Worker_Properties\<close> shows which events a release cancels and that a handler
  finishes an event only when it is settled, in terms of a journal of the updates that the database accepted.

  \<^bold>\<open>Remediation\<close> (\<^verbatim>\<open>fault-remediation/pkg\<close>). \<^verbatim>\<open>Remediation_State\<close> models the state that the node annotation holds for
  each equivalence group and the operations on it, \<^verbatim>\<open>Remediation_Config\<close> the configuration, the groups of an event
  and the state of a maintenance resource, \<^verbatim>\<open>Remediation_Client\<close> the creation of the resource and the log
  collector, \<^verbatim>\<open>Remediation_Reconciler\<close> the handlers from the work queue to the checkpoint of the change stream.
  \<^verbatim>\<open>Remediation_Laws\<close> shows that every operation on the state is an atomic change of the node, when one can report a success it
  has not committed, and bounds attempts through
  the locale \<^verbatim>\<open>attempt_budget\<close>; \<^verbatim>\<open>Remediation_Properties\<close> draws the consequences for the session of a node.
  \<^verbatim>\<open>Remediation_Calls\<close> and \<^verbatim>\<open>Remediation_Safety\<close> follow the calls to the outside through every handler, and
  \<^verbatim>\<open>Checkpoint_Properties\<close> states when the change stream may move and when a resource may be created.

  \<^bold>\<open>Node conditions and Events\<close> (\<^verbatim>\<open>platform-connectors/pkg/connectors/kubernetes\<close>). \<^verbatim>\<open>Condition_Messages\<close> models the
  entries of a condition: how they are written for a fault, matched, removed by a recovery and shortened to the limit.
  \<^verbatim>\<open>Message_Laws\<close> and \<^verbatim>\<open>Message_Properties\<close> show that shortening an entry changes neither what it is nor which
  recovery removes it, the round trip through the text of the condition, and its length. \<^verbatim>\<open>Node_Conditions\<close> models the
  fold of a batch into the conditions of a node and the guarded patch, \<^verbatim>\<open>Node_Events\<close> the Events, their memory and the
  retried writes of a batch; \<^verbatim>\<open>Condition_Properties\<close> shows that an update is atomic among other writers, that
  faults sent again change nothing, and that the retries end. White space and case are those of ASCII. Times are
  kept in nanoseconds, while the API server stores whole seconds, and one clock reading serves a whole batch.

  \<^bold>\<open>Repeated XID errors\<close> (\<^verbatim>\<open>health-events-analyzer/pkg/analyzer\<close>). \<^verbatim>\<open>Xid_Bursts\<close> models the histories of XID events per node and
  GPU, their split into bursts, and the configuration read from a pipeline. \<^verbatim>\<open>Xid_Properties\<close> shows that the detector refines a
  specification over the sequence of events and clearings: which events a history holds and what is counted.

  \<^bold>\<open>Requested recoveries\<close> (\<^verbatim>\<open>health-events-analyzer/pkg/config\<close>, \<^verbatim>\<open>pkg/publisher\<close>, \<^verbatim>\<open>pkg/reconciler\<close>). \<^verbatim>\<open>Analyzer_Rules\<close> models the rules, the
  identities of recoveries and the derived events, \<^verbatim>\<open>Analyzer_Recovery\<close> the handling of a recovery that an operator requests by an
  annotation. The polling for storage is bounded by the number of polls before the context ends, which is a parameter.
  \<^verbatim>\<open>Analyzer_Properties\<close> shows that the keys of identities are unambiguous, that recoveries are published for exactly the
  covered faults, and which events the history after a recovery keeps.

  \<^bold>\<open>Event export\<close> (\<^verbatim>\<open>event-exporter/pkg\<close>). \<^verbatim>\<open>Event_Exporter\<close> models the CloudEvent of an event, the tracker of completed events, and the
  stream of events through a pool of workers as a state machine, with one step per action of a goroutine. \<^verbatim>\<open>Exporter_Properties\<close> shows by
  an invariant over all interleavings what a written resume token means, and that a stream that ends is drained.

  \<^bold>\<open>Conventions.\<close> A struct is a record, a Go map an association list with distinct keys (nil maps
  are options where the code can panic on them), an error a value, a nil error \<^verbatim>\<open>None\<close>. Loops are
  recursive functions; no definition takes fuel. Clocks are arguments. Code outside the repository
  is a parameter: the stores and their codecs, the Kubernetes clients and caches,
  \<^verbatim>\<open>retry.OnError\<close>, \<^verbatim>\<open>encoding/json\<close> on the texts that are stored, label selectors, path patterns
  and regular expressions, and CEL. What a theorem uses of a parameter is a named hypothesis of
  it, and its witness instantiates the parameter.

  \<^bold>\<open>Not modelled.\<close> Logging, tracing and metrics everywhere; process startup, informer
  machinery, change streams and database drivers, which are I/O around libraries; the health
  monitors, which parse logs and device counters; generated code. Left for later: the node informer
  of fault-quarantine, the update builder of store-client, the ingestion and storage of events in
  platform-connectors, the evaluation of rules in health-events-analyzer, and the backfill of event-exporter.
\<close>

end
